(* ===== verification/Rbdc_Prelude.thy ===== *)
theory Rbdc_Prelude
  imports Main "HOL-Library.Word"
begin

text \<open>
  Shared vocabulary of the development: the three outcomes of a Rust function (a value, a
  \<open>Result::Err\<close>, a panic), byte strings, the standard library's little-endian conversions
  (\<open>to_le_bytes\<close>, \<open>from_le_bytes\<close>), UTF-8 validation (\<open>std::str::from_utf8\<close>), and the
  lemmas about them that the component theories use. Nothing here models code of the
  repository itself.
\<close>

unbundle bit_operations_syntax

section \<open>Outcomes of a Rust function\<close>

type_synonym u8 = "8 word"
type_synonym u16 = "16 word"
type_synonym u32 = "32 word"
type_synonym u64 = "64 word"

type_synonym bytes = "u8 list"

text \<open>
  \<open>rbdc::Error\<close> is a message; the model keeps what the message is about and, where the
  code formats values into it, those values.
\<close>

datatype error =
    Protocol string "nat list"
  | Message string
  | Utf8Error
  | ConnectionAborted
  | IoError
  | Database u16 "bytes option" bytes
  | Server_Error bytes

datatype 'a res = Ok 'a | Err error | Panic

primrec rbind :: "'a res \<Rightarrow> ('a \<Rightarrow> 'b res) \<Rightarrow> 'b res" where
  "rbind (Ok x) f = f x"
| "rbind (Err e) f = Err e"
| "rbind Panic f = Panic"

named_theorems res_iff \<open>inversion rules for outcomes\<close>
named_theorems codec \<open>length and content of encoders and decoders\<close>

lemma rbind_Ok_iff [res_iff]: "rbind m f = Ok y \<longleftrightarrow> (\<exists>x. m = Ok x \<and> f x = Ok y)"
  by (cases m) auto

lemma rbind_Err_iff [res_iff]: "rbind m f = Err e \<longleftrightarrow> m = Err e \<or> (\<exists>x. m = Ok x \<and> f x = Err e)"
  by (cases m) auto

lemma rbind_Panic_iff [res_iff]: "rbind m f = Panic \<longleftrightarrow> m = Panic \<or> (\<exists>x. m = Ok x \<and> f x = Panic)"
  by (cases m) auto

lemma rbind_Ok_right [simp]: "rbind m Ok = m"
  by (cases m) auto

lemma rbind_assoc: "rbind (rbind m f) g = rbind m (\<lambda>x. rbind (f x) g)"
  by (cases m) auto

lemma rbind_cong [fundef_cong]:
  "m = m' \<Longrightarrow> (\<And>x. m' = Ok x \<Longrightarrow> f x = f' x) \<Longrightarrow> rbind m f = rbind m' f'"
  by (cases m') auto

definition unwrap_or :: "'a \<Rightarrow> 'a res \<Rightarrow> 'a res" where
  "unwrap_or d m = (case m of Ok x \<Rightarrow> Ok x | Err _ \<Rightarrow> Ok d | Panic \<Rightarrow> Panic)"

lemma unwrap_or_simps [simp]:
  "unwrap_or d (Ok x) = Ok x" "unwrap_or d (Err e) = Ok d" "unwrap_or d Panic = Panic"
  by (simp_all add: unwrap_or_def)

definition index :: "'a list \<Rightarrow> nat \<Rightarrow> 'a res" where
  "index xs i = (if i < length xs then Ok (xs ! i) else Panic)"

lemma index_Cons_0 [simp]: "index (x # xs) 0 = Ok x"
  by (simp add: index_def)

lemma index_Cons_Suc [simp]: "index (x # xs) (Suc i) = index xs i"
  by (simp add: index_def)

lemma index_Nil [simp]: "index [] i = Panic"
  by (simp add: index_def)

lemma index_numeral [simp]: "index (x # xs) (numeral k) = index xs (pred_numeral k)"
  by (simp add: numeral_eq_Suc)

lemma index_one [simp]: "index (x # xs) 1 = index xs 0"
  by simp

lemma index_Ok: "i < length xs \<Longrightarrow> index xs i = Ok (xs ! i)"
  by (simp add: index_def)

section \<open>Text\<close>

definition lit :: "string \<Rightarrow> bytes" where
  "lit s = map of_char s"

lemma lit_Nil [simp]: "lit [] = []"
  by (simp add: lit_def)

lemma lit_Cons [simp]: "lit (c # cs) = of_char c # lit cs"
  by (simp add: lit_def)

lemma lit_append [simp]: "lit (s @ t) = lit s @ lit t"
  by (simp add: lit_def)

lemma length_lit [simp]: "length (lit s) = length s"
  by (simp add: lit_def)

lemma bit_of_char_u8:
  "bit (of_char c :: u8) n \<longleftrightarrow> n < 8 \<and>
    [digit0 c, digit1 c, digit2 c, digit3 c, digit4 c, digit5 c, digit6 c, digit7 c] ! n"
  by (cases c) (simp only: of_char_Char char.sel bit_horner_sum_bit_iff length_Cons list.size, auto)

lemma of_char_u8_inj: "of_char c = (of_char d :: u8) \<Longrightarrow> c = d"
proof -
  assume "of_char c = (of_char d :: u8)"
  then have "bit (of_char c :: u8) n = bit (of_char d :: u8) n" for n by simp
  note b = this [unfolded bit_of_char_u8]
  from b [of 0] b [of 1] b [of 2] b [of 3] b [of 4] b [of 5] b [of 6] b [of 7] show "c = d"
    by (cases c; cases d) simp
qed

lemma lit_inject [simp]: "lit s = lit t \<longleftrightarrow> s = t"
proof -
  have "inj (of_char :: char \<Rightarrow> u8)" by (rule injI) (rule of_char_u8_inj)
  then show ?thesis by (simp add: lit_def inj_map_eq_map)
qed

text \<open>The well-formed byte sequences of the Unicode standard, which \<open>from_utf8\<close> accepts.\<close>

definition utf8_cont :: "u8 \<Rightarrow> bool" where
  "utf8_cont b = (0x80 \<le> unat b \<and> unat b \<le> 0xBF)"

function utf8_ok :: "bytes \<Rightarrow> bool" where
  "utf8_ok [] = True"
| "utf8_ok (a # r) =
    (if unat a < 0x80 then utf8_ok r
     else if 0xC2 \<le> unat a \<and> unat a \<le> 0xDF then
       1 \<le> length r \<and> utf8_cont (r ! 0) \<and> utf8_ok (drop 1 r)
     else if 0xE0 \<le> unat a \<and> unat a \<le> 0xEF then
       2 \<le> length r \<and> utf8_cont (r ! 0) \<and> utf8_cont (r ! 1) \<and>
       (unat a = 0xE0 \<longrightarrow> 0xA0 \<le> unat (r ! 0)) \<and> (unat a = 0xED \<longrightarrow> unat (r ! 0) \<le> 0x9F) \<and>
       utf8_ok (drop 2 r)
     else if 0xF0 \<le> unat a \<and> unat a \<le> 0xF4 then
       3 \<le> length r \<and> utf8_cont (r ! 0) \<and> utf8_cont (r ! 1) \<and> utf8_cont (r ! 2) \<and>
       (unat a = 0xF0 \<longrightarrow> 0x90 \<le> unat (r ! 0)) \<and> (unat a = 0xF4 \<longrightarrow> unat (r ! 0) \<le> 0x8F) \<and>
       utf8_ok (drop 3 r)
     else False)"
  by pat_completeness auto
termination
  by (relation "measure length") auto

definition from_utf8 :: "bytes \<Rightarrow> bytes res" where
  "from_utf8 bs = (if utf8_ok bs then Ok bs else Err Utf8Error)"

lemma utf8_ok_ascii: "list_all (\<lambda>b. unat b < 0x80) bs \<Longrightarrow> utf8_ok bs"
  by (induction bs) auto

lemma from_utf8_Ok_iff [res_iff]: "from_utf8 bs = Ok s \<longleftrightarrow> utf8_ok bs \<and> s = bs"
  by (auto simp: from_utf8_def)

lemma from_utf8_ok [simp]: "utf8_ok bs \<Longrightarrow> from_utf8 bs = Ok bs"
  by (simp add: from_utf8_def)

section \<open>Little-endian integers\<close>

fun le_nat :: "bytes \<Rightarrow> nat" where
  "le_nat [] = 0"
| "le_nat (b # bs) = unat b + 256 * le_nat bs"

fun le_bytes :: "nat \<Rightarrow> nat \<Rightarrow> bytes" where
  "le_bytes 0 v = []"
| "le_bytes (Suc n) v = of_nat (v mod 256) # le_bytes n (v div 256)"

lemma le_bytes_numeral [simp]:
  "le_bytes (numeral k) v = of_nat (v mod 256) # le_bytes (pred_numeral k) (v div 256)"
  by (metis le_bytes.simps(2) numeral_eq_Suc)

lemma length_le_bytes [simp]: "length (le_bytes n v) = n"
  by (induction n arbitrary: v) auto

lemma unat_lt_256 [simp]: "unat (b :: u8) < 256"
  using unsigned_less [of b] by simp

lemma le_nat_less: "le_nat bs < 256 ^ length bs"
proof (induction bs)
  case Nil
  show ?case by simp
next
  case (Cons b bs)
  have "unat b + 256 * le_nat bs < 256 + 256 * le_nat bs"
    by simp
  also have "\<dots> \<le> 256 * 256 ^ length bs"
    using Cons.IH by (metis Suc_leI add_mult_distrib2 mult_Suc_right mult_le_mono2)
  finally show ?case by simp
qed

lemma le_nat_append: "le_nat (xs @ ys) = le_nat xs + 256 ^ length xs * le_nat ys"
  by (induction xs) (auto simp: algebra_simps)

lemma le_nat_le_bytes_mod: "le_nat (le_bytes n v) = v mod 256 ^ n"
proof (induction n arbitrary: v)
  case 0
  show ?case by simp
next
  case (Suc n)
  have "unat (of_nat (v mod 256) :: u8) = v mod 256"
    by (simp add: unat_of_nat)
  then show ?case
    by (simp add: Suc.IH mod_mult2_eq)
qed

lemma le_nat_le_bytes [simp]: "v < 256 ^ n \<Longrightarrow> le_nat (le_bytes n v) = v"
  by (simp add: le_nat_le_bytes_mod)

lemma le_bytes_le_nat [simp]: "le_bytes (length bs) (le_nat bs) = bs"
proof (induction bs)
  case Nil
  show ?case by simp
next
  case (Cons b bs)
  then show ?case by simp
qed

lemma le_nat_inject: "length xs = length ys \<Longrightarrow> le_nat xs = le_nat ys \<Longrightarrow> xs = ys"
  by (metis le_bytes_le_nat)

text \<open>\<open>uN::from_le_bytes\<close> and \<open>uN::to_le_bytes\<close>.\<close>

definition from_le :: "bytes \<Rightarrow> 'a::len word" where
  "from_le bs = of_nat (le_nat bs)"

definition to_le :: "'a::len word \<Rightarrow> bytes" where
  "to_le w = le_bytes (LENGTH('a) div 8) (unat w)"

lemma length_to_le [codec, simp]: "length (to_le (w :: 'a::len word)) = LENGTH('a) div 8"
  by (simp add: to_le_def)

lemma from_le_to_le [codec, simp]:
  fixes w :: "'a::len word"
  assumes "8 dvd LENGTH('a)"
  shows "from_le (to_le w) = w"
proof -
  from assms obtain k where k: "LENGTH('a) = 8 * k" ..
  have "unat w < 256 ^ k"
    using unsigned_less [of w, where ?'a = nat] by (simp add: k power_mult)
  then show ?thesis
    by (simp add: from_le_def to_le_def k)
qed

lemma to_le_from_le [codec]:
  assumes "length bs = LENGTH('a) div 8" and "8 dvd LENGTH('a)"
  shows "to_le (from_le bs :: 'a::len word) = bs"
proof -
  from assms obtain k where k: "LENGTH('a) = 8 * k" and l: "length bs = k" by auto
  have "le_nat bs < 2 ^ LENGTH('a)"
    using le_nat_less [of bs] by (simp add: k l power_mult)
  then have "unat (from_le bs :: 'a word) = le_nat bs"
    by (simp add: from_le_def unat_of_nat)
  then show ?thesis
    using le_bytes_le_nat [of bs] by (simp add: to_le_def k l)
qed

section \<open>Lists\<close>

lemma take_app_len [simp]: "n = length xs \<Longrightarrow> take n (xs @ ys) = xs"
  by simp

lemma drop_app_len [simp]: "n = length xs \<Longrightarrow> drop n (xs @ ys) = ys"
  by simp

lemma app_conv_take_drop: "xs = ys @ zs \<longleftrightarrow> take (length ys) xs = ys \<and> drop (length ys) xs = zs"
  by (metis append_eq_conv_conj)

end
