(* ===== verification/Exchange.thy ===== *)
theory Exchange
  imports Rbdc_Prelude
begin

text \<open>
  Placeholder rewriting (\<open>src/src/util/exchange.rs\<close>) and the drivers' \<open>Placeholder\<close>
  implementations. SQL text is its UTF-8 bytes. \<open>impl_exchange\<close> is the index-based scanner
  with its batched copies \<open>sql[start..i]\<close>, which panic off a character boundary;
  \<open>exchange_spec\<close> says byte by byte what the rewriting means. The decimal formatter of
  the \<open>itoa\<close> crate is the argument \<open>itoa\<close>. Counters are natural numbers: \<open>usize\<close> wraps
  only after \<open>2^64\<close> placeholders.
\<close>

section \<open>Model\<close>

definition char_boundary :: "bytes \<Rightarrow> nat \<Rightarrow> bool" where
  "char_boundary s i = (i = 0 \<or> i = length s \<or> (i < length s \<and> \<not> utf8_cont (s ! i)))"

definition str_slice :: "bytes \<Rightarrow> nat \<Rightarrow> nat \<Rightarrow> bytes res" where
  "str_slice s a b =
     (if a \<le> b \<and> b \<le> length s \<and> char_boundary s a \<and> char_boundary s b
      then Ok (take (b - a) (drop a s)) else Panic)"

definition push_slice :: "bytes \<Rightarrow> bytes \<Rightarrow> nat \<Rightarrow> nat \<Rightarrow> bytes res" where
  "push_slice result sql start i =
     (if start < i then rbind (str_slice sql start i) (\<lambda>s. Ok (result @ s)) else Ok result)"

function exchange_loop ::
    "(nat \<Rightarrow> bytes) \<Rightarrow> bytes \<Rightarrow> bytes \<Rightarrow> nat \<Rightarrow> nat \<Rightarrow> nat \<Rightarrow> bytes \<Rightarrow> bytes res" where
  "exchange_loop itoa start_str sql i start placeholder_idx result =
     (if i < length sql then
        if sql ! i = 92 \<and> i + 1 < length sql \<and> sql ! (i + 1) = 63 then
          rbind (push_slice result sql start i) (\<lambda>result.
            exchange_loop itoa start_str sql (i + 2) (i + 2) placeholder_idx (result @ [63]))
        else if sql ! i = 63 then
          rbind (push_slice result sql start i) (\<lambda>result.
            exchange_loop itoa start_str sql (i + 1) (i + 1) (placeholder_idx + 1)
              (result @ start_str @ itoa placeholder_idx))
        else exchange_loop itoa start_str sql (i + 1) start placeholder_idx result
      else push_slice result sql start (length sql))"
  by pat_completeness auto
termination
  by (relation "measure (\<lambda>(itoa, start_str, sql, i, start, idx, result). length sql - i)") auto

definition impl_exchange :: "(nat \<Rightarrow> bytes) \<Rightarrow> bytes \<Rightarrow> nat \<Rightarrow> bytes \<Rightarrow> bytes res" where
  "impl_exchange itoa start_str start_num sql = exchange_loop itoa start_str sql 0 0 start_num []"

definition pg_exchange :: "(nat \<Rightarrow> bytes) \<Rightarrow> bytes \<Rightarrow> bytes res" where
  "pg_exchange itoa sql = impl_exchange itoa (lit ''$'') 1 sql"

definition mssql_exchange :: "(nat \<Rightarrow> bytes) \<Rightarrow> bytes \<Rightarrow> bytes res" where
  "mssql_exchange itoa sql = impl_exchange itoa (lit ''@P'') 1 sql"

definition mysql_exchange :: "bytes \<Rightarrow> bytes res" where
  "mysql_exchange sql = Ok sql"

definition sqlite_exchange :: "bytes \<Rightarrow> bytes res" where
  "sqlite_exchange sql = Ok sql"

section \<open>Reference meaning\<close>

fun exchange_spec :: "(nat \<Rightarrow> bytes) \<Rightarrow> bytes \<Rightarrow> nat \<Rightarrow> bytes \<Rightarrow> bytes" where
  "exchange_spec itoa p n [] = []"
| "exchange_spec itoa p n (a # r) =
     (if a = 92 then (case r of b # r' \<Rightarrow> if b = 63 then 63 # exchange_spec itoa p n r'
                                       else a # exchange_spec itoa p n r
                              | [] \<Rightarrow> [a])
      else if a = 63 then p @ itoa n @ exchange_spec itoa p (n + 1) r
      else a # exchange_spec itoa p n r)"

text \<open>The text between placeholders, with the placeholders numbered from \<open>n\<close>.\<close>

fun numbered :: "(nat \<Rightarrow> bytes) \<Rightarrow> bytes \<Rightarrow> nat \<Rightarrow> bytes list \<Rightarrow> bytes" where
  "numbered itoa p n [] = []"
| "numbered itoa p n [s] = s"
| "numbered itoa p n (s # t # ss) = s @ p @ itoa n @ numbered itoa p (n + 1) (t # ss)"

fun question_join :: "bytes list \<Rightarrow> bytes" where
  "question_join [] = []"
| "question_join [s] = s"
| "question_join (s # t # ss) = s @ 63 # question_join (t # ss)"

definition plain_segment :: "bytes \<Rightarrow> bool" where
  "plain_segment s = (63 \<notin> set s \<and> (s = [] \<or> last s \<noteq> 92))"

section \<open>UTF-8 boundaries\<close>

lemma utf8_ok_split_ascii:
  "utf8_ok (xs @ a # ys) \<Longrightarrow> unat a < 0x80 \<Longrightarrow> utf8_ok xs \<and> utf8_ok ys"
proof (induction xs rule: utf8_ok.induct)
  case 1
  then show ?case by simp
next
  case (2 b r)
  have na: "\<not> utf8_cont a"
    using "2.prems"(2) by (simp add: utf8_cont_def)
  have nth: "k < length r" if "utf8_cont ((r @ a # ys) ! k)" "\<And>j. j < k \<Longrightarrow> j < length r" for k
    using that na by (metis less_irrefl linorder_neqE_nat nth_append_length)
  have app: "drop k (r @ a # ys) = drop k r @ a # ys" "(r @ a # ys) ! j = r ! j"
    if "k \<le> length r" "j < length r" for k j
    using that by (auto simp: nth_append)
  consider (asc) "unat b < 0x80"
    | (two) "0xC2 \<le> unat b \<and> unat b \<le> 0xDF"
    | (three) "0xE0 \<le> unat b \<and> unat b \<le> 0xEF"
    | (four) "0xF0 \<le> unat b \<and> unat b \<le> 0xF4"
    using "2.prems"(1) by (auto split: if_splits)
  then show ?case
  proof cases
    case asc
    with "2.prems" "2.IH"(1) show ?thesis by simp
  next
    case two
    with "2.prems"(1) have p: "utf8_cont ((r @ a # ys) ! 0)" "utf8_ok (drop 1 (r @ a # ys))"
      by simp_all
    from nth [OF p(1)] have l: "1 \<le> length r" by (simp add: Suc_le_eq)
    have "utf8_ok (drop 1 r) \<and> utf8_ok ys"
      using two l p(2) app(1) [of 1 0] "2.prems"(2) by (intro "2.IH"(2)) simp_all
    moreover have "utf8_cont (r ! 0)"
      using p(1) l by (simp add: nth_append split: if_splits)
    ultimately show ?thesis using two l by simp
  next
    case three
    with "2.prems"(1) have p: "utf8_cont ((r @ a # ys) ! 0)" "utf8_cont ((r @ a # ys) ! 1)"
        "utf8_ok (drop 2 (r @ a # ys))"
        "unat b = 0xE0 \<longrightarrow> 0xA0 \<le> unat ((r @ a # ys) ! 0)"
        "unat b = 0xED \<longrightarrow> unat ((r @ a # ys) ! 0) \<le> 0x9F"
      by simp_all
    from nth [OF p(1)] nth [OF p(2)] have l: "2 \<le> length r" by fastforce
    have "utf8_ok (drop 2 r) \<and> utf8_ok ys"
      using three l p(3) app(1) [of 2 0] "2.prems"(2) by (intro "2.IH"(3)) simp_all
    with three l p show ?thesis by (simp add: nth_append split: if_splits)
  next
    case four
    with "2.prems"(1) have p: "utf8_cont ((r @ a # ys) ! 0)" "utf8_cont ((r @ a # ys) ! 1)"
        "utf8_cont ((r @ a # ys) ! 2)" "utf8_ok (drop 3 (r @ a # ys))"
        "unat b = 0xF0 \<longrightarrow> 0x90 \<le> unat ((r @ a # ys) ! 0)"
        "unat b = 0xF4 \<longrightarrow> unat ((r @ a # ys) ! 0) \<le> 0x8F"
      by simp_all
    from nth [OF p(1)] have l0: "0 < length r" by simp
    then have l1: "1 < length r" by (intro nth [OF p(2)]) simp
    then have "2 < length r" by (intro nth [OF p(3)]) simp
    then have l: "3 \<le> length r" by simp
    have "utf8_ok (drop 3 r) \<and> utf8_ok ys"
      using four l p(4) app(1) [of 3 0] "2.prems"(2) by (intro "2.IH"(4)) simp_all
    with four l p show ?thesis by (simp add: nth_append split: if_splits)
  qed
qed

lemma utf8_ok_hd: "utf8_ok (b # bs) \<Longrightarrow> \<not> utf8_cont b"
  by (simp add: utf8_cont_def split: if_splits)

lemma utf8_ok_boundary:
  assumes "i \<le> length s" and "utf8_ok (drop i s)"
  shows "char_boundary s i"
proof (cases "i = length s")
  case True
  then show ?thesis by (simp add: char_boundary_def)
next
  case False
  with assms(1) have "drop i s = s ! i # drop (Suc i) s"
    by (simp add: Cons_nth_drop_Suc)
  then have "\<not> utf8_cont (s ! i)"
    using assms(2) utf8_ok_hd by metis
  with False assms(1) show ?thesis by (simp add: char_boundary_def)
qed

lemma ascii_boundary: "i < length s \<Longrightarrow> unat (s ! i) < 0x80 \<Longrightarrow> char_boundary s i"
  by (auto simp: char_boundary_def utf8_cont_def)

section \<open>The scanner computes the reference meaning\<close>

lemma push_slice_Ok:
  assumes "start \<le> i" "i \<le> length sql" "char_boundary sql start" "char_boundary sql i"
  shows "push_slice result sql start i = Ok (result @ take (i - start) (drop start sql))"
  using assms by (auto simp: push_slice_def str_slice_def)

declare exchange_loop.simps [simp del]

text \<open>
  The scanner's invariant: what is copied so far, then the pending slice, then the
  rewriting of the unread text.
\<close>

lemma exchange_loop_spec:
  assumes "start \<le> i" and "i \<le> length sql" and "utf8_ok (drop start sql)"
  shows "exchange_loop itoa p sql i start n result =
    Ok (result @ take (i - start) (drop start sql) @ exchange_spec itoa p n (drop i sql))"
  using assms
proof (induction itoa p sql i start n result rule: exchange_loop.induct)
  case (1 itoa p sql i start n result)
  note unfold = exchange_loop.simps [of itoa p sql i start n result]
  have bs: "char_boundary sql start"
    using "1.prems" by (intro utf8_ok_boundary) auto
  show ?case
  proof (cases "i < length sql")
    case False
    with "1.prems" have i: "i = length sql" by simp
    have "push_slice result sql start (length sql) = Ok (result @ drop start sql)"
      using "1.prems" bs push_slice_Ok [of start "length sql" sql result]
      by (simp add: i) (simp add: char_boundary_def)
    then show ?thesis
      unfolding unfold using i by simp
  next
    case True
    define x where "x = sql ! i"
    define rest where "rest = drop (Suc i) sql"
    have d: "drop i sql = x # rest"
      using True by (simp add: x_def rest_def Cons_nth_drop_Suc)
    have seg: "drop start sql = take (i - start) (drop start sql) @ x # rest"
      using "1.prems"(1) by (metis d append_take_drop_id drop_drop le_add_diff_inverse2)
    have slice: "push_slice result sql start i = Ok (result @ take (i - start) (drop start sql))"
      if "unat x < 0x80"
      using that True bs "1.prems" ascii_boundary [of i sql]
      by (intro push_slice_Ok) (auto simp: x_def)
    have rest: "utf8_ok rest" if "unat x < 0x80"
      using utf8_ok_split_ascii that "1.prems"(3) seg by metis
    show ?thesis
    proof (cases "x = 92 \<and> i + 1 < length sql \<and> sql ! (i + 1) = 63")
      case esc: True
      then have r: "rest = 63 # drop (i + 2) sql"
        by (simp add: rest_def Cons_nth_drop_Suc [symmetric])
      with rest esc have "utf8_ok (drop (i + 2) sql)" by simp
      with "1.IH"(1) [of "result @ take (i - start) (drop start sql)"] True esc slice show ?thesis
        by (simp add: unfold x_def [symmetric] d r)
    next
      case nesc: False
      show ?thesis
      proof (cases "x = 63")
        case q: True
        with rest have "utf8_ok (drop (i + 1) sql)" by (simp add: rest_def)
        with "1.IH"(2) [of "result @ take (i - start) (drop start sql)"] True nesc q slice
        show ?thesis
          by (simp add: unfold x_def [symmetric] d) (simp add: rest_def)
      next
        case nq: False
        have t: "take (i + 1 - start) (drop start sql) = take (i - start) (drop start sql) @ [x]"
          using "1.prems"(1) True by (simp add: Suc_diff_le take_Suc_conv_app_nth x_def)
        have "exchange_spec itoa p n (drop i sql) = x # exchange_spec itoa p n rest"
          using nesc nq by (auto simp: d rest_def split: list.splits)
            (metis Cons_nth_drop_Suc drop_eq_Nil linorder_not_le list.distinct(1) list.sel(1) nth_via_drop)
        with "1.IH"(3) True nesc nq "1.prems" t show ?thesis
          by (auto simp: unfold x_def [symmetric] rest_def)
      qed
    qed
  qed
qed

section \<open>Numbering\<close>

lemma exchange_spec_keep:
  "a \<noteq> 63 \<Longrightarrow> r = [] \<or> a \<noteq> 92 \<or> hd r \<noteq> 63 \<Longrightarrow>
    exchange_spec itoa p n (a # r) = a # exchange_spec itoa p n r"
  by (cases r; subst exchange_spec.simps) simp_all

lemma exchange_spec_plain: "63 \<notin> set s \<Longrightarrow> exchange_spec itoa p n s = s"
proof (induction s)
  case Nil
  show ?case by simp
next
  case (Cons a s)
  then show ?case
    by (cases s) (simp_all add: exchange_spec_keep del: exchange_spec.simps(2))
qed

lemma exchange_spec_segment:
  "plain_segment s \<Longrightarrow>
    exchange_spec itoa p n (s @ 63 # r) = s @ p @ itoa n @ exchange_spec itoa p (n + 1) r"
proof (induction s)
  case Nil
  then show ?case by simp
next
  case (Cons a s)
  then have "plain_segment s" and "a \<noteq> 63" and "s = [] \<Longrightarrow> a \<noteq> 92" and "63 \<notin> set s"
    by (auto simp: plain_segment_def)
  moreover from this have "s @ 63 # r = [] \<or> a \<noteq> 92 \<or> hd (s @ 63 # r) \<noteq> 63"
    by (cases s) auto
  ultimately show ?case
    using Cons.IH by (simp add: exchange_spec_keep del: exchange_spec.simps(2))
qed

lemma exchange_spec_numbered:
  "list_all plain_segment ss \<Longrightarrow> exchange_spec itoa p n (question_join ss) = numbered itoa p n ss"
  by (induction itoa p n ss rule: numbered.induct)
    (auto simp: exchange_spec_segment exchange_spec_plain plain_segment_def)

lemma impl_exchange_spec:
  "utf8_ok sql \<Longrightarrow> impl_exchange itoa p n sql = Ok (exchange_spec itoa p n sql)"
  by (simp add: impl_exchange_def exchange_loop_spec)

section \<open>Dialects with numbered placeholders\<close>

locale numbered_dialect =
  fixes exchange :: "bytes \<Rightarrow> bytes res"
    and itoa :: "nat \<Rightarrow> bytes"
    and prefix :: bytes
  assumes rewrites_by_spec: "utf8_ok sql \<Longrightarrow> exchange sql = Ok (exchange_spec itoa prefix 1 sql)"
begin

lemma without_question: "utf8_ok sql \<Longrightarrow> 63 \<notin> set sql \<Longrightarrow> exchange sql = Ok sql"
  by (simp add: rewrites_by_spec exchange_spec_plain)

lemma numbers_in_order:
  "utf8_ok (question_join ss) \<Longrightarrow> list_all plain_segment ss \<Longrightarrow>
    exchange (question_join ss) = Ok (numbered itoa prefix 1 ss)"
  by (simp add: rewrites_by_spec exchange_spec_numbered)

end

interpretation pg: numbered_dialect "pg_exchange itoa" itoa "lit ''$''" for itoa
  by unfold_locales (simp only: pg_exchange_def impl_exchange_spec)

interpretation mssql: numbered_dialect "mssql_exchange itoa" itoa "lit ''@P''" for itoa
  by unfold_locales (simp only: mssql_exchange_def impl_exchange_spec)

section \<open>Properties\<close>

text \<open>C16:  The index-based scanner never panics on a valid string and
  computes the byte-wise meaning: an escaped question mark loses its backslash, every other
  question mark becomes the prefix and the next number, all other text is copied.\<close>

theorem impl_exchange_correct:
  assumes "utf8_ok sql"
  shows "impl_exchange itoa start_str start_num sql = Ok (exchange_spec itoa start_str start_num sql)"
  using assms by (rule impl_exchange_spec)

theorem impl_exchange_correct_witness:
  "utf8_ok (lit ''a=? and b=1'' @ [92, 63]) \<and>
   impl_exchange (\<lambda>n. [48 + of_nat n]) (lit ''$'') 1 (lit ''a=? and b=1'' @ [92, 63]) =
     Ok (lit ''a=$1 and b=1?'')"
  using impl_exchange_correct [of "lit ''a=? and b=1'' @ [92, 63]" "\<lambda>n. [48 + of_nat n]" "lit ''$''" 1]
  by (simp add: of_char_of)

text \<open>The PostgreSQL and SQL Server drivers number the placeholders from
  one in the order of the text, leave the text between them alone, and MySQL and SQLite pass
  the SQL through unchanged.\<close>

theorem drivers_number_in_order:
  assumes "utf8_ok (question_join ss)" and "list_all plain_segment ss"
  shows "pg_exchange itoa (question_join ss) = Ok (numbered itoa (lit ''$'') 1 ss) \<and>
    mssql_exchange itoa (question_join ss) = Ok (numbered itoa (lit ''@P'') 1 ss) \<and>
    mysql_exchange (question_join ss) = Ok (question_join ss) \<and>
    sqlite_exchange (question_join ss) = Ok (question_join ss)"
  using pg.numbers_in_order [OF assms] mssql.numbers_in_order [OF assms]
  by (simp_all add: mysql_exchange_def sqlite_exchange_def)

theorem drivers_number_in_order_witness:
  "utf8_ok (question_join [lit ''a='', lit '' or b='', []]) \<and>
   list_all plain_segment [lit ''a='', lit '' or b='', []] \<and>
   pg_exchange (\<lambda>n. [48 + of_nat n]) (lit ''a=? or b=?'') = Ok (lit ''a=$1 or b=$2'')"
  using drivers_number_in_order [of "[lit ''a='', lit '' or b='', []]" "\<lambda>n. [48 + of_nat n]"]
  by (simp add: of_char_of plain_segment_def)

end
