(* ===== verification/Byte_Crates.thy ===== *)
theory Byte_Crates
  imports Rbdc_Prelude
begin

text \<open>
  The byte-level third-party crates the drivers call: \<open>bytes\<close> (the reading cursor of
  \<open>Buf\<close> on \<open>Bytes\<close> and \<open>&[u8]\<close>), \<open>memchr\<close>, \<open>byteorder\<close> and \<open>bitflags\<close>. Their code
  is not part of the repository, so every decoder of the development takes them as one
  argument, a \<open>crates\<close> record. The locale \<open>crate_laws\<close> states their documented behaviour,
  panics included; \<open>std_crates\<close> is an instance that satisfies it.
\<close>

section \<open>The operations\<close>

record crates =
  get_u8 :: "bytes \<Rightarrow> (u8 \<times> bytes) res"
  get_u16_le :: "bytes \<Rightarrow> (u16 \<times> bytes) res"
  get_u32_le :: "bytes \<Rightarrow> (u32 \<times> bytes) res"
  get_u64_le :: "bytes \<Rightarrow> (u64 \<times> bytes) res"
  get_uint_le :: "bytes \<Rightarrow> nat \<Rightarrow> (u64 \<times> bytes) res"
  advance :: "bytes \<Rightarrow> nat \<Rightarrow> bytes res"
  split_to :: "bytes \<Rightarrow> nat \<Rightarrow> (bytes \<times> bytes) res"
  slice_to :: "bytes \<Rightarrow> nat \<Rightarrow> bytes res"
  memchr :: "u8 \<Rightarrow> bytes \<Rightarrow> nat option"
  read_u16 :: "bytes \<Rightarrow> u16 res"
  read_uint :: "bytes \<Rightarrow> nat \<Rightarrow> u64 res"
  read_int :: "bytes \<Rightarrow> nat \<Rightarrow> int res"
  caps_contains :: "u64 \<Rightarrow> u64 \<Rightarrow> bool"
  caps_truncate :: "u64 \<Rightarrow> u64 \<Rightarrow> u64"
  caps_remove :: "u64 \<Rightarrow> u64 \<Rightarrow> u64"
  flags_contains :: "u16 \<Rightarrow> u16 \<Rightarrow> bool"
  flags_truncate :: "u16 \<Rightarrow> u16 \<Rightarrow> u16"

text \<open>
  \<open>get_uint_le n\<close> reads \<open>n\<close> bytes and panics beyond eight; the \<open>byteorder\<close> readers
  work on a slice without advancing and want between one and eight bytes; \<open>read_int\<close>
  sign-extends. \<open>caps_*\<close> are the \<open>bitflags\<close> operations on a \<open>u64\<close> set, \<open>flags_*\<close> those
  on a \<open>u16\<close> set; the first argument of the truncating constructor is the mask of all
  declared flags.
\<close>

definition cursor :: "nat \<Rightarrow> (bytes \<Rightarrow> 'a) \<Rightarrow> bytes \<Rightarrow> ('a \<times> bytes) res" where
  "cursor n f bs = (if n \<le> length bs then Ok (f (take n bs), drop n bs) else Panic)"

definition sign_extend :: "nat \<Rightarrow> nat \<Rightarrow> int" where
  "sign_extend n v = (if v < 2 ^ (8 * n - 1) then int v else int v - 2 ^ (8 * n))"

locale crate_laws =
  fixes C :: crates
  assumes get_u8_law: "get_u8 C = cursor 1 hd"
    and get_u16_le_law: "get_u16_le C = cursor 2 from_le"
    and get_u32_le_law: "get_u32_le C = cursor 4 from_le"
    and get_u64_le_law: "get_u64_le C = cursor 8 from_le"
    and get_uint_le_law: "get_uint_le C bs n = (if n \<le> 8 then cursor n from_le bs else Panic)"
    and advance_law: "advance C bs n = (if n \<le> length bs then Ok (drop n bs) else Panic)"
    and split_to_law: "split_to C bs n = (if n \<le> length bs then Ok (take n bs, drop n bs) else Panic)"
    and slice_to_law: "slice_to C bs n = (if n \<le> length bs then Ok (take n bs) else Panic)"
    and memchr_law: "memchr C b bs =
      (if b \<in> set bs then Some (length (takeWhile (\<lambda>x. x \<noteq> b) bs)) else None)"
    and read_u16_law: "read_u16 C bs = (if 2 \<le> length bs then Ok (from_le (take 2 bs)) else Panic)"
    and read_uint_law: "read_uint C bs n =
      (if 1 \<le> n \<and> n \<le> 8 \<and> n \<le> length bs then Ok (from_le (take n bs)) else Panic)"
    and read_int_law: "read_int C bs n =
      (if 1 \<le> n \<and> n \<le> 8 \<and> n \<le> length bs then Ok (sign_extend n (le_nat (take n bs))) else Panic)"
    and caps_contains_law: "caps_contains C c d = (c AND d = d)"
    and caps_truncate_law: "caps_truncate C all d = d AND all"
    and caps_remove_law: "caps_remove C c d = c AND NOT d"
    and flags_contains_law: "flags_contains C f g = (f AND g = g)"
    and flags_truncate_law: "flags_truncate C fall g = g AND fall"
begin

lemmas cursor_laws =
  get_u8_law get_u16_le_law get_u32_le_law get_u64_le_law get_uint_le_law
  advance_law split_to_law slice_to_law read_u16_law read_uint_law read_int_law

lemmas flag_laws =
  caps_contains_law caps_truncate_law caps_remove_law flags_contains_law flags_truncate_law

text \<open>Reading what the matching encoder wrote, with the rest of the input handed back.\<close>

lemma get_u8_Cons [simp]: "get_u8 C (b # bs) = Ok (b, bs)"
  by (simp add: get_u8_law cursor_def)

lemma get_u8_Nil [simp]: "get_u8 C [] = Panic"
  by (simp add: get_u8_law cursor_def)

lemma get_u16_le_app [simp]: "get_u16_le C (to_le w @ bs) = Ok (w, bs)"
  by (simp add: get_u16_le_law cursor_def)

lemma get_u32_le_app [simp]: "get_u32_le C (to_le w @ bs) = Ok (w, bs)"
  by (simp add: get_u32_le_law cursor_def)

lemma get_u64_le_app [simp]: "get_u64_le C (to_le w @ bs) = Ok (w, bs)"
  by (simp add: get_u64_le_law cursor_def)

lemma get_u16_le_last [simp]: "get_u16_le C (to_le w) = Ok (w, [])"
  using get_u16_le_app [of w "[]"] by simp

lemma get_u32_le_last [simp]: "get_u32_le C (to_le w) = Ok (w, [])"
  using get_u32_le_app [of w "[]"] by simp

lemma get_uint_le_app:
  "length xs = n \<Longrightarrow> n \<le> 8 \<Longrightarrow> get_uint_le C (xs @ bs) n = Ok (from_le xs, bs)"
  by (simp add: get_uint_le_law cursor_def)

lemma advance_app: "length xs = n \<Longrightarrow> advance C (xs @ bs) n = Ok bs"
  by (simp add: advance_law)

lemma advance_Suc_Cons [simp]: "advance C (b # bs) (Suc n) = advance C bs n"
  by (simp add: advance_law)

lemma advance_0 [simp]: "advance C bs 0 = Ok bs"
  by (simp add: advance_law)

lemma advance_1_Cons [simp]: "advance C (b # bs) 1 = Ok bs"
  by (simp add: advance_law)

lemma split_to_app: "length xs = n \<Longrightarrow> split_to C (xs @ bs) n = Ok (xs, bs)"
  by (simp add: split_to_law)

lemma memchr_app: "b \<notin> set xs \<Longrightarrow> memchr C b (xs @ b # ys) = Some (length xs)"
  by (induction xs) (auto simp: memchr_law)

lemma memchr_SomeD:
  assumes "memchr C b bs = Some n"
  shows "n < length bs" and "bs = take n bs @ b # drop (Suc n) bs" and "b \<notin> set (take n bs)"
proof -
  define xs where "xs = takeWhile (\<lambda>x. x \<noteq> b) bs"
  from assms have b: "b \<in> set bs" and n: "n = length xs"
    by (auto simp: memchr_law xs_def split: if_splits)
  have t: "take n bs = xs"
    using takeWhile_eq_take [of "\<lambda>x. x \<noteq> b" bs] by (simp add: n xs_def)
  from b show l: "n < length bs"
    unfolding n xs_def
    by (metis (mono_tags, lifting) length_takeWhile_le le_neq_implies_less set_takeWhileD
        takeWhile_eq_take take_all_iff order.refl)
  have "bs ! n = b"
    using nth_length_takeWhile [of "\<lambda>x. x \<noteq> b" bs] l by (simp add: n xs_def)
  then show "bs = take n bs @ b # drop (Suc n) bs"
    using l by (metis id_take_nth_drop)
  show "b \<notin> set (take n bs)"
    unfolding t xs_def by (metis set_takeWhileD)
qed

end

section \<open>An instance\<close>

definition std_crates :: crates where
  "std_crates = \<lparr>
     get_u8 = cursor 1 hd,
     get_u16_le = cursor 2 from_le,
     get_u32_le = cursor 4 from_le,
     get_u64_le = cursor 8 from_le,
     get_uint_le = (\<lambda>bs n. if n \<le> 8 then cursor n from_le bs else Panic),
     advance = (\<lambda>bs n. if n \<le> length bs then Ok (drop n bs) else Panic),
     split_to = (\<lambda>bs n. if n \<le> length bs then Ok (take n bs, drop n bs) else Panic),
     slice_to = (\<lambda>bs n. if n \<le> length bs then Ok (take n bs) else Panic),
     memchr = (\<lambda>b bs. if b \<in> set bs then Some (length (takeWhile (\<lambda>x. x \<noteq> b) bs)) else None),
     read_u16 = (\<lambda>bs. if 2 \<le> length bs then Ok (from_le (take 2 bs)) else Panic),
     read_uint = (\<lambda>bs n. if 1 \<le> n \<and> n \<le> 8 \<and> n \<le> length bs then Ok (from_le (take n bs)) else Panic),
     read_int = (\<lambda>bs n. if 1 \<le> n \<and> n \<le> 8 \<and> n \<le> length bs
       then Ok (sign_extend n (le_nat (take n bs))) else Panic),
     caps_contains = (\<lambda>a b. a AND b = b),
     caps_truncate = (\<lambda>all b. b AND all),
     caps_remove = (\<lambda>a b. a AND NOT b),
     flags_contains = (\<lambda>f g. f AND g = g),
     flags_truncate = (\<lambda>fall g. g AND fall)\<rparr>"

interpretation std: crate_laws std_crates
  by unfold_locales (simp_all add: std_crates_def)

text \<open>The laws leave no freedom: every instance computes as the one above.\<close>

lemma crate_laws_unique:
  assumes "crate_laws C"
  shows "C = std_crates"
proof -
  note l = crate_laws.cursor_laws [OF assms] crate_laws.flag_laws [OF assms]
    crate_laws.memchr_law [OF assms]
  show ?thesis
    by (rule crates.equality) (auto simp: std_crates_def l fun_eq_iff)
qed

end
