(* ===== verification/Buf_Stream.thy ===== *)
theory Buf_Stream
  imports Byte_Crates
begin

text \<open>
  The buffered connection stream (\<open>src/src/io/buf_stream.rs\<close>) and the flush future
  (\<open>src/src/io/write_and_flush.rs\<close>). The transport is a parameter: \<open>rd s n\<close> is one
  \<open>AsyncRead::read\<close> into \<open>n\<close> bytes of space, \<open>wr s d\<close> one \<open>AsyncWrite::poll_write\<close> of
  \<open>d\<close>, \<open>fl s\<close> one \<open>poll_flush\<close>. The locales \<open>async_reader\<close> and \<open>async_writer\<close> state what
  tokio promises of them; a transport of arbitrary chunks provides both.
\<close>

section \<open>Reading\<close>

text \<open>\<open>BufTruncator\<close>: the temporarily extended buffer and how much of it is filled.\<close>

record truncator =
  buf :: bytes
  filled_len :: nat

definition truncator_new :: "bytes \<Rightarrow> truncator" where
  "truncator_new b = \<lparr>buf = b, filled_len = length b\<rparr>"

definition resize :: "nat \<Rightarrow> bytes \<Rightarrow> bytes" where
  "resize n b = take n b @ replicate (n - length b) 0"

definition reserve :: "truncator \<Rightarrow> nat \<Rightarrow> truncator" where
  "reserve t space = t\<lparr>buf := resize (filled_len t + space) (buf t)\<rparr>"

definition is_full :: "truncator \<Rightarrow> bool" where
  "is_full t = (filled_len t \<ge> length (buf t))"

definition truncator_read ::
    "('s \<Rightarrow> nat \<Rightarrow> (bytes \<times> 's) res) \<Rightarrow> truncator \<Rightarrow> 's \<Rightarrow> (nat \<times> truncator \<times> 's) res" where
  "truncator_read rd t s =
     rbind (rd s (length (buf t) - filled_len t)) (\<lambda>(d, s).
       Ok (length d,
           t\<lparr>buf := take (filled_len t) (buf t) @ d @ drop (filled_len t + length d) (buf t),
             filled_len := filled_len t + length d\<rparr>, s))"

definition truncator_drop :: "truncator \<Rightarrow> bytes" where
  "truncator_drop t = take (filled_len t) (buf t)"

function read_loop ::
    "('s \<Rightarrow> nat \<Rightarrow> (bytes \<times> 's) res) \<Rightarrow> truncator \<Rightarrow> 's \<Rightarrow> unit res \<times> bytes \<times> 's" where
  "read_loop rd t s =
     (if is_full t then (Ok (), truncator_drop t, s)
      else case truncator_read rd t s of
          Ok (n, t', s') \<Rightarrow>
            if n = 0 then (Err ConnectionAborted, truncator_drop t', s')
            else read_loop rd t' s'
        | Err e \<Rightarrow> (Err e, truncator_drop t, s)
        | Panic \<Rightarrow> (Panic, truncator_drop t, s))"
  by pat_completeness auto
termination
  by (relation "measure (\<lambda>(rd, t, s). length (buf t) - filled_len t)")
    (auto simp: truncator_read_def is_full_def res_iff intro!: diff_less_mono2)

definition read_raw_into ::
    "('s \<Rightarrow> nat \<Rightarrow> (bytes \<times> 's) res) \<Rightarrow> 's \<Rightarrow> bytes \<Rightarrow> nat \<Rightarrow> unit res \<times> bytes \<times> 's" where
  "read_raw_into rd s b cnt = read_loop rd (reserve (truncator_new b) cnt) s"

record 's buf_stream =
  stream :: 's
  wbuf :: bytes
  rbuf :: bytes

definition buf_stream_new :: "'s \<Rightarrow> 's buf_stream" where
  "buf_stream_new s = \<lparr>stream = s, wbuf = [], rbuf = []\<rparr>"

text \<open>\<open>write_with\<close>: the value's encoder appends to the write buffer.\<close>

definition write_with :: "(bytes \<Rightarrow> bytes) \<Rightarrow> 's buf_stream \<Rightarrow> 's buf_stream" where
  "write_with enc b = b\<lparr>wbuf := enc (wbuf b)\<rparr>"

definition read_raw ::
    "crates \<Rightarrow> ('s \<Rightarrow> nat \<Rightarrow> (bytes \<times> 's) res) \<Rightarrow> 's buf_stream \<Rightarrow> nat \<Rightarrow> bytes res \<times> 's buf_stream" where
  "read_raw C rd b cnt =
     (case read_raw_into rd (stream b) (rbuf b) cnt of
        (Ok _, rb, s) \<Rightarrow>
          (case split_to C rb cnt of
             Ok (v, rb') \<Rightarrow> (Ok v, b\<lparr>stream := s, rbuf := rb'\<rparr>)
           | Err e \<Rightarrow> (Err e, b\<lparr>stream := s, rbuf := rb\<rparr>)
           | Panic \<Rightarrow> (Panic, b\<lparr>stream := s, rbuf := rb\<rparr>))
      | (Err e, rb, s) \<Rightarrow> (Err e, b\<lparr>stream := s, rbuf := rb\<rparr>)
      | (Panic, rb, s) \<Rightarrow> (Panic, b\<lparr>stream := s, rbuf := rb\<rparr>))"

text \<open>\<open>read_with\<close>: the value's decoder runs on the bytes read.\<close>

definition read_with ::
    "crates \<Rightarrow> ('s \<Rightarrow> nat \<Rightarrow> (bytes \<times> 's) res) \<Rightarrow> (bytes \<Rightarrow> 'a res) \<Rightarrow> 's buf_stream \<Rightarrow> nat \<Rightarrow>
     'a res \<times> 's buf_stream" where
  "read_with C rd dec b cnt = (case read_raw C rd b cnt of (r, b') \<Rightarrow> (rbind r dec, b'))"

declare read_loop.simps [simp del]

subsection \<open>What a read loop delivers\<close>

text \<open>
  The filled part of the buffer is what counts: a truncator of size \<open>length f + k\<close> whose
  first bytes are \<open>f\<close>.
\<close>

definition holds :: "truncator \<Rightarrow> bytes \<Rightarrow> nat \<Rightarrow> bool" where
  "holds t f k = (filled_len t = length f \<and> length (buf t) = length f + k \<and> take (length f) (buf t) = f)"

lemma holds_reserve: "holds (reserve (truncator_new b) cnt) b cnt"
  by (simp add: holds_def reserve_def truncator_new_def resize_def)

lemma holds_drop: "holds t f k \<Longrightarrow> truncator_drop t = f"
  by (simp add: holds_def truncator_drop_def)

lemma holds_full: "holds t f k \<Longrightarrow> is_full t \<longleftrightarrow> k = 0"
  by (auto simp: holds_def is_full_def)

lemma holds_read:
  assumes "holds t f k" and "rd s k = Ok (d, s')" and "length d \<le> k"
  shows "\<exists>t'. truncator_read rd t s = Ok (length d, t', s') \<and> holds t' (f @ d) (k - length d)"
  using assms by (auto simp: holds_def truncator_read_def)

locale async_reader =
  fixes rd :: "'s \<Rightarrow> nat \<Rightarrow> (bytes \<times> 's) res"
    and pending :: "'s \<Rightarrow> bytes"
  assumes progress: "0 < n \<Longrightarrow> pending s \<noteq> [] \<Longrightarrow>
      \<exists>k s'. 0 < k \<and> k \<le> n \<and> k \<le> length (pending s) \<and>
        rd s n = Ok (take k (pending s), s') \<and> pending s' = drop k (pending s)"
    and eof: "0 < n \<Longrightarrow> pending s = [] \<Longrightarrow> \<exists>s'. rd s n = Ok ([], s') \<and> pending s' = []"
begin

lemma one_read:
  assumes "holds t f k" and "0 < k" and "pending s \<noteq> []"
  obtains j t' s' where "0 < j" "j \<le> k" "j \<le> length (pending s)"
    "holds t' (f @ take j (pending s)) (k - j)" "pending s' = drop j (pending s)"
    "read_loop rd t s = read_loop rd t' s'"
proof -
  from progress [OF assms(2,3)] obtain j s' where
    j: "0 < j" "j \<le> k" "j \<le> length (pending s)" "rd s k = Ok (take j (pending s), s')"
      "pending s' = drop j (pending s)" by blast
  from holds_read [where rd = rd, OF assms(1) j(4)] j obtain t' where
    t': "truncator_read rd t s = Ok (j, t', s')" "holds t' (f @ take j (pending s)) (k - j)"
    by auto
  have "read_loop rd t s = read_loop rd t' s'"
    using assms j t' by (simp add: read_loop.simps [of rd t s] holds_full)
  with j t' that show ?thesis by blast
qed

lemma read_loop_delivers:
  "holds t f k \<Longrightarrow> k \<le> length (pending s) \<Longrightarrow>
    \<exists>s'. read_loop rd t s = (Ok (), f @ take k (pending s), s') \<and> pending s' = drop k (pending s)"
proof (induction k arbitrary: t f s rule: less_induct)
  case (less k)
  show ?case
  proof (cases "k = 0")
    case True
    with less.prems show ?thesis
      by (auto simp: read_loop.simps [of rd t s] holds_full holds_drop)
  next
    case False
    with less.prems(2) have "0 < k" "pending s \<noteq> []" by auto
    from one_read [OF less.prems(1) this] obtain j t' s' where
      j: "0 < j" "j \<le> k" "j \<le> length (pending s)"
        "holds t' (f @ take j (pending s)) (k - j)" "pending s' = drop j (pending s)"
        "read_loop rd t s = read_loop rd t' s'" .
    have "take j (pending s) @ take (k - j) (pending s') = take k (pending s)"
      using j by (metis le_add_diff_inverse take_add)
    with less.IH [OF _ j(4), of s'] j less.prems(2) False show ?thesis
      by auto
  qed
qed

lemma read_loop_eof:
  "holds t f k \<Longrightarrow> length (pending s) < k \<Longrightarrow>
    \<exists>s'. read_loop rd t s = (Err ConnectionAborted, f @ pending s, s') \<and> pending s' = []"
proof (induction "length (pending s)" arbitrary: t f k s rule: less_induct)
  case less
  then have k: "0 < k" by simp
  show ?case
  proof (cases "pending s = []")
    case True
    from eof [OF k this] obtain s' where s': "rd s k = Ok ([], s')" "pending s' = []" by blast
    from holds_read [where rd = rd, OF less.prems(1) s'(1)] obtain t' where
      "truncator_read rd t s = Ok (0, t', s')" "holds t' f k" by auto
    with True k s' less.prems(1) show ?thesis
      by (simp add: read_loop.simps [of rd t s] holds_full holds_drop)
  next
    case False
    from one_read [OF less.prems(1) k False] obtain j t' s' where
      j: "0 < j" "j \<le> k" "j \<le> length (pending s)"
        "holds t' (f @ take j (pending s)) (k - j)" "pending s' = drop j (pending s)"
        "read_loop rd t s = read_loop rd t' s'" .
    with less.hyps [of s', OF _ j(4)] less.prems(2) False show ?thesis
      by auto
  qed
qed

lemma read_raw_into_delivers:
  "cnt \<le> length (pending s) \<Longrightarrow>
    \<exists>s'. read_raw_into rd s b cnt = (Ok (), b @ take cnt (pending s), s') \<and>
      pending s' = drop cnt (pending s)"
  unfolding read_raw_into_def by (rule read_loop_delivers [OF holds_reserve])

lemma read_raw_into_eof:
  "length (pending s) < cnt \<Longrightarrow>
    \<exists>s'. read_raw_into rd s b cnt = (Err ConnectionAborted, b @ pending s, s') \<and> pending s' = []"
  unfolding read_raw_into_def by (rule read_loop_eof [OF holds_reserve])

end

lemma read_loop_keeps:
  assumes "\<And>s n d s'. rd s n = Ok (d, s') \<Longrightarrow> f s' = f s"
  shows "f (snd (snd (read_loop rd t s))) = f s"
  using assms
proof (induction rd t s rule: read_loop.induct)
  case (1 rd t s)
  show ?case
  proof (cases "is_full t")
    case True
    then show ?thesis by (subst read_loop.simps) simp
  next
    case False
    show ?thesis
    proof (cases "truncator_read rd t s")
      case (Ok x)
      obtain n t' s' where x: "x = (n, t', s')" by (cases x)
      from Ok x obtain d k where "rd s k = Ok (d, s')"
        by (auto simp: truncator_read_def res_iff)
      from "1.prems" [OF this] have "f s' = f s" .
      with "1.IH" [OF False Ok x [symmetric] refl] "1.prems" False Ok x show ?thesis
        by (subst read_loop.simps) auto
    qed (use False in \<open>subst read_loop.simps, simp\<close>)+
  qed
qed

section \<open>Writing\<close>

datatype 'a poll = Pending | Ready 'a

text \<open>
  \<open>WriteAndFlush::poll\<close>: the loop over \<open>fill_buf\<close>, \<open>poll_write\<close> and \<open>consume\<close>, with the
  cursor position as its state. A transport that keeps accepting zero bytes keeps the
  loop going for ever, so the result is optional: \<open>None\<close> is a poll that never returns.
\<close>

partial_function (option) poll_write_loop ::
    "('s \<Rightarrow> bytes \<Rightarrow> nat res poll \<times> 's) \<Rightarrow> 's \<Rightarrow> bytes \<Rightarrow> nat \<Rightarrow> (unit res poll \<times> 's \<times> nat) option" where
  "poll_write_loop wr s b pos =
     (if pos < length b then
        (case wr s (drop pos b) of
           (Pending, s') \<Rightarrow> Some (Pending, s', pos)
         | (Ready (Ok written), s') \<Rightarrow> poll_write_loop wr s' b (pos + written)
         | (Ready (Err e), s') \<Rightarrow> Some (Ready (Err e), s', pos)
         | (Ready Panic, s') \<Rightarrow> Some (Ready Panic, s', pos))
      else Some (Ready (Ok ()), s, pos))"

definition write_and_flush_poll ::
    "('s \<Rightarrow> bytes \<Rightarrow> nat res poll \<times> 's) \<Rightarrow> ('s \<Rightarrow> unit res poll \<times> 's) \<Rightarrow>
     's \<Rightarrow> bytes \<Rightarrow> nat \<Rightarrow> (unit res poll \<times> 's \<times> nat) option" where
  "write_and_flush_poll wr fl s b pos =
     (case poll_write_loop wr s b pos of
        None \<Rightarrow> None
      | Some (Ready (Ok _), s', pos') \<Rightarrow> (case fl s' of (r, s'') \<Rightarrow> Some (r, s'', pos'))
      | Some r \<Rightarrow> Some r)"

text \<open>Dropping the future clears the buffer, whether or not the flush succeeded.\<close>

definition write_and_flush_drop :: "'s buf_stream \<Rightarrow> 's \<Rightarrow> 's buf_stream" where
  "write_and_flush_drop b s = b\<lparr>stream := s, wbuf := []\<rparr>"

locale async_writer =
  fixes wr :: "'s \<Rightarrow> bytes \<Rightarrow> nat res poll \<times> 's"
    and sent :: "'s \<Rightarrow> bytes"
  assumes accepts: "d \<noteq> [] \<Longrightarrow> wr s d = (Ready (Ok n), s') \<Longrightarrow>
      0 < n \<and> n \<le> length d \<and> sent s' = sent s @ take n d"
    and otherwise_unsent: "wr s d = (r, s') \<Longrightarrow> (\<And>n. r \<noteq> Ready (Ok n)) \<Longrightarrow> sent s' = sent s"
begin

text \<open>
  A poll returns, and at every point of it the bytes already sent followed by the bytes
  still in the buffer are the same: nothing is lost, repeated or reordered.
\<close>

lemma poll_write_loop_returns:
  "pos \<le> length b \<Longrightarrow>
    \<exists>r s' pos'. poll_write_loop wr s b pos = Some (r, s', pos') \<and> pos' \<le> length b \<and>
      sent s' @ drop pos' b = sent s @ drop pos b \<and> (r = Ready (Ok ()) \<longrightarrow> pos' = length b)"
proof (induction "length b - pos" arbitrary: pos s rule: less_induct)
  case less
  note unfold = poll_write_loop.simps [of wr s b pos]
  show ?case
  proof (cases "pos < length b")
    case False
    with less.prems show ?thesis unfolding unfold by simp
  next
    case True
    obtain r s' where w: "wr s (drop pos b) = (r, s')" by (cases "wr s (drop pos b)")
    show ?thesis
    proof (cases "\<exists>n. r = Ready (Ok n)")
      case False
      with otherwise_unsent [OF w] have "sent s' = sent s" by blast
      with False w True show ?thesis
        by (cases r) (auto simp: unfold split: res.splits)
    next
      case ok: True
      then obtain n where r: "r = Ready (Ok n)" by blast
      with accepts [of "drop pos b"] w True
      have n: "0 < n" "n \<le> length b - pos" "sent s' = sent s @ take n (drop pos b)" by auto
      have "take n (drop pos b) @ drop (pos + n) b = drop pos b"
        by (metis append_take_drop_id drop_drop add.commute)
      with n less.hyps [of "pos + n" s'] True show ?thesis
        by (simp add: unfold w r)
    qed
  qed
qed

end

section \<open>A transport of chunks\<close>

text \<open>
  The peer's bytes arrive in chunks of any size, of which a read takes at most what fits;
  afterwards the connection is closed. Writes are accepted a few bytes at a time.
\<close>

fun chunk_read :: "bytes list \<Rightarrow> nat \<Rightarrow> (bytes \<times> bytes list) res" where
  "chunk_read [] n = Ok ([], [])"
| "chunk_read (c # cs) n =
     (if c = [] then chunk_read cs n
      else if length c \<le> n then Ok (c, cs)
      else Ok (take n c, drop n c # cs))"

lemma chunk_read_progress:
  "0 < n \<Longrightarrow> concat cs \<noteq> [] \<Longrightarrow>
    \<exists>k cs'. 0 < k \<and> k \<le> n \<and> k \<le> length (concat cs) \<and>
      chunk_read cs n = Ok (take k (concat cs), cs') \<and> concat cs' = drop k (concat cs)"
proof (induction cs n rule: chunk_read.induct)
  case (1 n)
  then show ?case by simp
next
  case (2 c cs n)
  show ?case
  proof (cases "c = []")
    case True
    with 2 show ?thesis by simp
  next
    case False
    then have "0 < length c" by simp
    show ?thesis
    proof (cases "length c \<le> n")
      case True
      with False show ?thesis by (intro exI [of _ "length c"] exI [of _ cs]) simp
    next
      case big: False
      with False "2.prems" show ?thesis
        by (intro exI [of _ n] exI [of _ "drop n c # cs"]) simp
    qed
  qed
qed

lemma chunk_read_eof: "concat cs = [] \<Longrightarrow> \<exists>cs'. chunk_read cs n = Ok ([], cs') \<and> concat cs' = []"
  by (induction cs n rule: chunk_read.induct) auto

interpretation chunks: async_reader chunk_read concat
  by unfold_locales (use chunk_read_progress chunk_read_eof in blast)+

record out_stream =
  out :: bytes
  stalls :: "nat list"

text \<open>
  \<open>stalls\<close> is the transport's plan: an entry \<open>0\<close> is a \<open>Pending\<close> answer, an entry \<open>n\<close> accepts
  at most \<open>n\<close> bytes, and an exhausted plan accepts everything.
\<close>

definition stall_write :: "out_stream \<Rightarrow> bytes \<Rightarrow> nat res poll \<times> out_stream" where
  "stall_write s d =
     (case stalls s of
        [] \<Rightarrow> (Ready (Ok (length d)), s\<lparr>out := out s @ d\<rparr>)
      | n # ns \<Rightarrow>
          if n = 0 then (Pending, s\<lparr>stalls := ns\<rparr>)
          else (Ready (Ok (min n (length d))), s\<lparr>out := out s @ take n d, stalls := ns\<rparr>))"

definition stall_flush :: "out_stream \<Rightarrow> unit res poll \<times> out_stream" where
  "stall_flush s = (Ready (Ok ()), s)"

interpretation stalling: async_writer stall_write out
proof unfold_locales
  fix d :: bytes and s n s'
  assume "d \<noteq> []" and "stall_write s d = (Ready (Ok n), s')"
  then show "0 < n \<and> n \<le> length d \<and> out s' = out s @ take n d"
    by (cases "stalls s") (auto simp: stall_write_def min_def split: if_splits)
next
  fix s d r s'
  assume "stall_write s d = (r, s')" and "\<And>n. r \<noteq> Ready (Ok n)"
  then show "out s' = out s"
    by (cases "stalls s") (auto simp: stall_write_def split: if_splits)
qed

section \<open>Properties\<close>

lemma drop_take_split: "n \<le> length q \<Longrightarrow> drop n (p @ take n q) @ drop n q = drop n (p @ q)"
proof -
  assume "n \<le> length q"
  then have z: "n - length (p @ take n q) = 0" by simp
  have "drop n ((p @ take n q) @ drop n q) =
      drop n (p @ take n q) @ drop (n - length (p @ take n q)) (drop n q)"
    by (rule drop_append)
  then show ?thesis by (simp only: z append.assoc append_take_drop_id drop0)
qed

lemma read_raw_delivers:
  assumes "crate_laws C" and "async_reader rd pending" and "cnt \<le> length (pending (stream b))"
  shows "\<exists>b'. read_raw C rd b cnt = (Ok (take cnt (rbuf b @ pending (stream b))), b') \<and>
    rbuf b' @ pending (stream b') = drop cnt (rbuf b @ pending (stream b)) \<and>
    length (rbuf b') = length (rbuf b) \<and> wbuf b' = wbuf b"
proof -
  from async_reader.read_raw_into_delivers [OF assms(2,3), of "rbuf b"] obtain s' where
    s': "read_raw_into rd (stream b) (rbuf b) cnt = (Ok (), rbuf b @ take cnt (pending (stream b)), s')"
      "pending s' = drop cnt (pending (stream b))" by blast
  from assms(3) s' drop_take_split [OF assms(3), of "rbuf b"] show ?thesis
    by (simp add: read_raw_def crate_laws.split_to_law [OF assms(1)])
qed

lemma read_raw_keeps:
  assumes "\<And>s n d s'. rd s n = Ok (d, s') \<Longrightarrow> f s' = f s"
  shows "f (stream (snd (read_raw C rd b cnt))) = f (stream b)"
proof -
  obtain r rb s' where l: "read_raw_into rd (stream b) (rbuf b) cnt = (r, rb, s')"
    by (cases "read_raw_into rd (stream b) (rbuf b) cnt") auto
  have "f (snd (snd (read_raw_into rd (stream b) (rbuf b) cnt))) = f (stream b)"
    unfolding read_raw_into_def by (rule read_loop_keeps) (rule assms)
  with l have "f s' = f (stream b)" by simp
  with l show ?thesis
    by (auto simp: read_raw_def split: res.splits)
qed

lemma read_raw_aborts:
  assumes "async_reader rd pending" and "length (pending (stream b)) < cnt"
  shows "\<exists>b'. read_raw C rd b cnt = (Err ConnectionAborted, b') \<and>
    rbuf b' = rbuf b @ pending (stream b) \<and> pending (stream b') = [] \<and> wbuf b' = wbuf b"
  using async_reader.read_raw_into_eof [OF assms, of "rbuf b"]
  by (auto simp: read_raw_def)

text \<open>However the transport cuts the peer's bytes into chunks, \<open>read_raw\<close>
  returns: with enough bytes to come it hands out exactly the next \<open>cnt\<close> bytes of the stream
  (what an earlier read left over first) and keeps every later byte for the next call; if the
  peer closes earlier it reports an aborted connection and keeps what arrived.\<close>

theorem read_raw_chunk_independent:
  assumes "crate_laws C" and "async_reader rd pending"
  shows "\<exists>r b'. read_raw C rd b cnt = (r, b') \<and> wbuf b' = wbuf b \<and>
    (if cnt \<le> length (pending (stream b))
     then r = Ok (take cnt (rbuf b @ pending (stream b))) \<and>
       rbuf b' @ pending (stream b') = drop cnt (rbuf b @ pending (stream b))
     else r = Err ConnectionAborted \<and>
       rbuf b' @ pending (stream b') = rbuf b @ pending (stream b))"
proof (cases "cnt \<le> length (pending (stream b))")
  case True
  from read_raw_delivers [OF assms this] True show ?thesis by auto
next
  case False
  then have "length (pending (stream b)) < cnt" by simp
  from read_raw_aborts [OF assms(2) this, of C] False show ?thesis by auto
qed

theorem read_raw_chunk_independent_witness:
  "\<exists>b'. read_raw std_crates chunk_read (buf_stream_new [[1, 2], [], [3], [4, 5]]) 4 = (Ok [1, 2, 3, 4], b') \<and>
     rbuf b' @ concat (stream b') = [5]"
  using read_raw_chunk_independent [OF std.crate_laws_axioms chunks.async_reader_axioms,
      of "buf_stream_new [[1, 2], [], [3], [4, 5]]" 4]
  by (auto simp: buf_stream_new_def)

text \<open>A poll of the flush future returns on every transport that accepts
  at least one byte at a time; at that point the bytes sent followed by the bytes still
  buffered are what they were, and when the future completes everything has been sent.\<close>

theorem write_and_flush_conserves:
  assumes "async_writer wr sent" and "\<And>s. sent (snd (fl s)) = sent s"
    and "pos \<le> length b"
  shows "\<exists>r s' pos'. write_and_flush_poll wr fl s b pos = Some (r, s', pos') \<and> pos' \<le> length b \<and>
    sent s' @ drop pos' b = sent s @ drop pos b \<and>
    (r = Ready (Ok ()) \<longrightarrow> sent s' = sent s @ drop pos b)"
proof -
  from async_writer.poll_write_loop_returns [OF assms(1,3), of s] obtain r s' pos' where
    l: "poll_write_loop wr s b pos = Some (r, s', pos')" "pos' \<le> length b"
      "sent s' @ drop pos' b = sent s @ drop pos b" "r = Ready (Ok ()) \<longrightarrow> pos' = length b"
    by blast
  obtain q s'' where f: "fl s' = (q, s'')" by (cases "fl s'")
  show ?thesis
  proof (cases "r = Ready (Ok ())")
    case True
    with l f assms(2) [of s'] show ?thesis by (auto simp: write_and_flush_poll_def)
  next
    case False
    with l have "write_and_flush_poll wr fl s b pos = Some (r, s', pos')"
      by (auto simp: write_and_flush_poll_def split: poll.splits res.splits)
    with l False show ?thesis by auto
  qed
qed

theorem write_and_flush_conserves_witness:
  "\<exists>r s' pos'. write_and_flush_poll stall_write stall_flush \<lparr>out = [9], stalls = [2, 1, 0]\<rparr> [1, 2, 3, 4] 0 =
     Some (r, s', pos') \<and> out s' @ drop pos' [1, 2, 3, 4] = [9, 1, 2, 3, 4]"
proof -
  have fl: "\<And>s. out (snd (stall_flush s)) = out s"
    by (simp add: stall_flush_def)
  from write_and_flush_conserves [where fl = stall_flush and pos = 0 and b = "[1, 2, 3, 4]"
      and s = "\<lparr>out = [9], stalls = [2, 1, 0]\<rparr>", OF stalling.async_writer_axioms fl]
  show ?thesis by auto
qed

lemma poll_write_loop_zero:
  assumes "poll_write_loop wr s b pos = Some r"
  shows "(\<forall>s d. fst (wr s d) = Ready (Ok 0)) \<longrightarrow> length b \<le> pos"
proof (rule poll_write_loop.raw_induct [OF _ assms])
  fix f :: "('a \<Rightarrow> bytes \<Rightarrow> nat res poll \<times> 'a) \<Rightarrow> 'a \<Rightarrow> bytes \<Rightarrow> nat \<Rightarrow> (unit res poll \<times> 'a \<times> nat) option"
  fix wr :: "'a \<Rightarrow> bytes \<Rightarrow> nat res poll \<times> 'a" and s b pos r
  assume IH: "\<And>wr s b pos r. f wr s b pos = Some r \<Longrightarrow>
      (\<forall>s d. fst (wr s d) = Ready (Ok 0)) \<longrightarrow> length b \<le> pos"
    and eq: "(if pos < length b then
        case wr s (drop pos b) of
           (Pending, s') \<Rightarrow> Some (Pending, s', pos)
         | (Ready (Ok written), s') \<Rightarrow> f wr s' b (pos + written)
         | (Ready (Err e), s') \<Rightarrow> Some (Ready (Err e), s', pos)
         | (Ready Panic, s') \<Rightarrow> Some (Ready Panic, s', pos)
      else Some (Ready (Ok ()), s, pos)) = Some r"
  show "(\<forall>s d. fst (wr s d) = Ready (Ok 0)) \<longrightarrow> length b \<le> pos"
  proof (intro impI)
    assume z: "\<forall>s d. fst (wr s d) = Ready (Ok 0)"
    obtain s' where "wr s (drop pos b) = (Ready (Ok 0), s')"
      using z by (metis prod.collapse)
    with eq have "pos < length b \<Longrightarrow> f wr s' b pos = Some r" by simp
    with IH z show "length b \<le> pos" by (metis linorder_not_le)
  qed
qed

text \<open>On a transport whose \<open>poll_write\<close> keeps answering that it accepted no
  bytes, a flush of a non-empty buffer never returns from \<open>poll\<close>: the loop has no exit for a
  zero-length write.\<close>

theorem write_and_flush_zero_write_diverges:
  assumes "\<And>s d. fst (wr s d) = Ready (Ok 0)" and "pos < length b"
  shows "write_and_flush_poll wr fl s b pos = None"
  using poll_write_loop_zero [of wr s b pos] assms
  by (cases "poll_write_loop wr s b pos") (auto simp: write_and_flush_poll_def)

theorem write_and_flush_zero_write_diverges_witness:
  "write_and_flush_poll (\<lambda>s d. (Ready (Ok 0), s)) (\<lambda>s. (Ready (Ok ()), s)) () [1, 2] 0 = None"
  by (rule write_and_flush_zero_write_diverges) simp_all

end
