(* ===== verification/Net.thy ===== *)
theory Net
  imports Buf_Stream
begin

text \<open>
  The network below the drivers' buffered streams (\<open>src/net\<close>: sockets and TLS), which is the argument \<open>N\<close> of what
  uses it: reading, awaiting a flush, the TLS upgrade, shutdown.  The locale \<open>healthy_net\<close> is a network that
  delivers a given sequence of bytes, in pieces of any size, and accepts all writes; the scripted network is one.
\<close>

datatype certificate = Cert_File bytes | Cert_Inline bytes

record 's net =
  net_read :: "'s \<Rightarrow> nat \<Rightarrow> (bytes \<times> 's) res"
  net_flush :: "'s \<Rightarrow> bytes \<Rightarrow> unit res \<times> 's"
  net_shutdown :: "'s \<Rightarrow> unit res \<times> 's"
  net_is_tls :: "'s \<Rightarrow> bool"
  net_upgrade :: "'s \<Rightarrow> bytes \<Rightarrow> bool \<Rightarrow> bool \<Rightarrow> certificate option \<Rightarrow> unit res \<times> 's"

locale healthy_net = async_reader "net_read N" pending + crate_laws C
  for N :: "'s net" and pending :: "'s \<Rightarrow> bytes" and C :: crates +
  fixes sent :: "'s \<Rightarrow> bytes"
  assumes reading_sends_nothing: "net_read N s n = Ok (d, s') \<Longrightarrow> sent s' = sent s"
    and flush_sends: "\<exists>s'. net_flush N s b = (Ok (), s') \<and> sent s' = sent s @ b \<and> pending s' = pending s"
begin

lemma read_delivers:
  assumes "rbuf b = []" and "pending (stream b) = x @ w" and "length x = n"
  shows "\<exists>b'. read_raw C (net_read N) b n = (Ok x, b') \<and> rbuf b' = [] \<and> pending (stream b') = w \<and>
    wbuf b' = wbuf b \<and> sent (stream b') = sent (stream b)"
proof -
  from read_raw_delivers [OF crate_laws_axioms async_reader_axioms, of n b] assms obtain b' where
    b': "read_raw C (net_read N) b n = (Ok x, b')" "rbuf b' @ pending (stream b') = w"
      "length (rbuf b') = 0" "wbuf b' = wbuf b" by auto
  have "sent (stream b') = sent (stream b)"
    using read_raw_keeps [of "net_read N" sent C b n] reading_sends_nothing b'(1) by auto
  with b' show ?thesis by simp
qed

lemma read_aborts:
  assumes "length (pending (stream b)) < n"
  shows "\<exists>b'. read_raw C (net_read N) b n = (Err ConnectionAborted, b') \<and> wbuf b' = wbuf b \<and> sent (stream b') = sent (stream b)"
proof -
  from read_raw_aborts [OF async_reader_axioms assms] obtain b' where
    b': "read_raw C (net_read N) b n = (Err ConnectionAborted, b')" "wbuf b' = wbuf b" by blast
  moreover have "sent (stream b') = sent (stream b)"
    using read_raw_keeps [of "net_read N" sent C b n] reading_sends_nothing b'(1) by auto
  ultimately show ?thesis by blast
qed

end

section \<open>A scripted server\<close>

text \<open>The server's bytes arrive in chunks; what the client writes is recorded.\<close>

record script =
  script_in :: "bytes list"
  script_out :: bytes
  script_tls :: bool

definition script_net :: "script net" where
  "script_net = \<lparr>
     net_read = (\<lambda>s n. rbind (chunk_read (script_in s) n) (\<lambda>(d, cs). Ok (d, s\<lparr>script_in := cs\<rparr>))),
     net_flush = (\<lambda>s b. (Ok (), s\<lparr>script_out := script_out s @ b\<rparr>)),
     net_shutdown = (\<lambda>s. (Ok (), s)),
     net_is_tls = script_tls,
     net_upgrade = (\<lambda>s host invalid_certs invalid_names ca. (Ok (), s\<lparr>script_tls := True\<rparr>))\<rparr>"

definition script_pending :: "script \<Rightarrow> bytes" where
  "script_pending s = concat (script_in s)"

interpretation script: healthy_net script_net script_pending std_crates script_out
proof unfold_locales
  fix n :: nat and s
  assume n: "0 < n" and p: "script_pending s \<noteq> []"
  from chunk_read_progress [OF n, of "script_in s"] p obtain k cs where
    "0 < k" "k \<le> n" "k \<le> length (concat (script_in s))"
    "chunk_read (script_in s) n = Ok (take k (concat (script_in s)), cs)" "concat cs = drop k (concat (script_in s))"
    by (auto simp: script_pending_def)
  then show "\<exists>k s'. 0 < k \<and> k \<le> n \<and> k \<le> length (script_pending s) \<and>
      net_read script_net s n = Ok (take k (script_pending s), s') \<and> script_pending s' = drop k (script_pending s)"
    by (intro exI [of _ k] exI [of _ "s\<lparr>script_in := cs\<rparr>"]) (simp add: script_net_def script_pending_def)
next
  fix n :: nat and s
  assume "script_pending s = []"
  with chunk_read_eof [of "script_in s" n] show "\<exists>s'. net_read script_net s n = Ok ([], s') \<and> script_pending s' = []"
    by (auto simp: script_net_def script_pending_def)
next
  fix s n d s'
  assume "net_read script_net s n = Ok (d, s')"
  then show "script_out s' = script_out s"
    by (cases "chunk_read (script_in s) n") (auto simp: script_net_def)
next
  fix s b
  show "\<exists>s'. net_flush script_net s b = (Ok (), s') \<and> script_out s' = script_out s @ b \<and> script_pending s' = script_pending s"
    by (simp add: script_net_def script_pending_def)
qed

end
