(* ===== verification/Net_Flush.thy ===== *)
theory Net_Flush
  imports Net
begin

text \<open>
  What awaiting a flush amounts to.  The drivers' streams await the future of \<open>src/src/io/write_and_flush.rs\<close>, whose
  polls are \<open>write_and_flush_poll\<close>; the field \<open>net_flush\<close> of a network is the outcome of the await.  This theory runs the
  polls until the future is ready and shows that on every transport that makes progress (the locale \<open>patient_writer\<close>)
  the network they make is a \<open>healthy_net\<close>: the law \<open>flush_sends\<close> is a consequence of the future's code.
\<close>

partial_function (option) await_flush ::
    "('s \<Rightarrow> bytes \<Rightarrow> nat res poll \<times> 's) \<Rightarrow> ('s \<Rightarrow> unit res poll \<times> 's) \<Rightarrow> 's \<Rightarrow> bytes \<Rightarrow> nat \<Rightarrow> (unit res \<times> 's) option" where
  "await_flush wr fl s b pos =
     (case write_and_flush_poll wr fl s b pos of
        None \<Rightarrow> None
      | Some (Pending, s', pos') \<Rightarrow> await_flush wr fl s' b pos'
      | Some (Ready r, s', _) \<Rightarrow> Some (r, s'))"

definition polled_net ::
    "('s \<Rightarrow> bytes \<Rightarrow> nat res poll \<times> 's) \<Rightarrow> ('s \<Rightarrow> unit res poll \<times> 's) \<Rightarrow> 's net \<Rightarrow> 's net" where
  "polled_net wr fl N =
     N\<lparr>net_flush := (\<lambda>s b. case await_flush wr fl s b 0 of Some x \<Rightarrow> x | None \<Rightarrow> (Panic, s))\<rparr>"

text \<open>A transport that answers \<open>Pending\<close> only finitely often before it goes on, as its \<open>patience\<close> counts, and does not fail.\<close>

locale patient_writer = async_writer wr sent
  for wr :: "'s \<Rightarrow> bytes \<Rightarrow> nat res poll \<times> 's" and sent :: "'s \<Rightarrow> bytes" +
  fixes fl :: "'s \<Rightarrow> unit res poll \<times> 's" and patience :: "'s \<Rightarrow> nat" and pending :: "'s \<Rightarrow> bytes"
  assumes write_progress: "d \<noteq> [] \<Longrightarrow> wr s d = (r, s') \<Longrightarrow> pending s' = pending s \<and>
      (r = Pending \<and> patience s' < patience s \<or> (\<exists>n. r = Ready (Ok n)) \<and> patience s' \<le> patience s)"
    and flush_progress: "fl s = (q, s') \<Longrightarrow> sent s' = sent s \<and> pending s' = pending s \<and>
      (q = Pending \<and> patience s' < patience s \<or> q = Ready (Ok ()))"
begin

lemma write_loop_progress:
  "pos \<le> length b \<Longrightarrow> poll_write_loop wr s b pos = Some (r, s', pos') \<Longrightarrow> pending s' = pending s \<and>
    (r = Pending \<and> patience s' < patience s \<or> r = Ready (Ok ()) \<and> patience s' \<le> patience s)"
proof (induction "length b - pos" arbitrary: pos s rule: less_induct)
  case less
  note unfold = poll_write_loop.simps [of wr s b pos]
  show ?case
  proof (cases "pos < length b")
    case False
    with less.prems(2) show ?thesis unfolding unfold by simp
  next
    case True
    obtain q s1 where w: "wr s (drop pos b) = (q, s1)" by (cases "wr s (drop pos b)")
    from write_progress [OF _ w] True have
      p: "pending s1 = pending s" "q = Pending \<and> patience s1 < patience s \<or> (\<exists>n. q = Ready (Ok n)) \<and> patience s1 \<le> patience s"
      by auto
    show ?thesis
    proof (cases q)
      case Pending
      with True w p less.prems(2) show ?thesis unfolding unfold by auto
    next
      case (Ready x)
      with p(2) obtain n where n: "q = Ready (Ok n)" "patience s1 \<le> patience s" by auto
      with accepts [OF _ w [unfolded n(1)]] True have "0 < n" "pos + n \<le> length b" by auto
      moreover from less.prems(2) True w n(1) have "poll_write_loop wr s1 b (pos + n) = Some (r, s', pos')" unfolding unfold by simp
      moreover have "length b - (pos + n) < length b - pos" using \<open>0 < n\<close> True by simp
      ultimately have "pending s' = pending s1 \<and>
          (r = Pending \<and> patience s' < patience s1 \<or> r = Ready (Ok ()) \<and> patience s' \<le> patience s1)"
        using less.hyps [of "pos + n" s1] by blast
      with p(1) n(2) show ?thesis by auto
    qed
  qed
qed

lemma poll_progress:
  assumes "pos \<le> length b"
  shows "\<exists>r s' pos'. write_and_flush_poll wr fl s b pos = Some (r, s', pos') \<and> pos' \<le> length b \<and> pending s' = pending s \<and>
    sent s' @ drop pos' b = sent s @ drop pos b \<and>
    (r = Pending \<and> patience s' < patience s \<or> r = Ready (Ok ()) \<and> pos' = length b)"
proof -
  from poll_write_loop_returns [OF assms, of s] obtain r s' pos' where
    l: "poll_write_loop wr s b pos = Some (r, s', pos')" "pos' \<le> length b" "sent s' @ drop pos' b = sent s @ drop pos b"
      "r = Ready (Ok ()) \<longrightarrow> pos' = length b" by blast
  obtain q s'' where f: "fl s' = (q, s'')" by (cases "fl s'")
  from write_loop_progress [OF assms l(1)] flush_progress [OF f] l f show ?thesis
    by (auto simp: write_and_flush_poll_def)
qed

lemma await_sends:
  "pos \<le> length b \<Longrightarrow>
    \<exists>s'. await_flush wr fl s b pos = Some (Ok (), s') \<and> sent s' = sent s @ drop pos b \<and> pending s' = pending s"
proof (induction "patience s" arbitrary: s pos rule: less_induct)
  case less
  from poll_progress [OF less.prems, of s] obtain r s' pos' where
    p: "write_and_flush_poll wr fl s b pos = Some (r, s', pos')" "pos' \<le> length b" "pending s' = pending s"
      "sent s' @ drop pos' b = sent s @ drop pos b"
      "r = Pending \<and> patience s' < patience s \<or> r = Ready (Ok ()) \<and> pos' = length b" by blast
  note unfold = await_flush.simps [of wr fl s b pos]
  from p(5) show ?case
  proof
    assume r: "r = Pending \<and> patience s' < patience s"
    with less.hyps [of s' pos'] p(2) obtain t where
      "await_flush wr fl s' b pos' = Some (Ok (), t)" "sent t = sent s' @ drop pos' b" "pending t = pending s'" by blast
    with r p(1,3,4) show ?thesis unfolding unfold by simp
  next
    assume "r = Ready (Ok ()) \<and> pos' = length b"
    with p(1,3,4) show ?thesis unfolding unfold by simp
  qed
qed

end

text \<open>The scripted server behind a transport that stalls and accepts a few bytes at a time.\<close>

record slow_script =
  slow_in :: "bytes list"
  slow_out :: out_stream

definition slow_write :: "slow_script \<Rightarrow> bytes \<Rightarrow> nat res poll \<times> slow_script" where
  "slow_write s d = (case stall_write (slow_out s) d of (r, o') \<Rightarrow> (r, s\<lparr>slow_out := o'\<rparr>))"

definition slow_flush :: "slow_script \<Rightarrow> unit res poll \<times> slow_script" where
  "slow_flush s = (Ready (Ok ()), s)"

definition slow_net :: "slow_script net" where
  "slow_net = polled_net slow_write slow_flush \<lparr>
     net_read = (\<lambda>s n. rbind (chunk_read (slow_in s) n) (\<lambda>(d, cs). Ok (d, s\<lparr>slow_in := cs\<rparr>))),
     net_flush = (\<lambda>s b. (Ok (), s)), net_shutdown = (\<lambda>s. (Ok (), s)), net_is_tls = (\<lambda>s. False),
     net_upgrade = (\<lambda>s host invalid_certs invalid_names ca. (Err IoError, s))\<rparr>"

interpretation slow: patient_writer slow_write "\<lambda>s. out (slow_out s)" slow_flush "\<lambda>s. length (stalls (slow_out s))"
  "\<lambda>s. concat (slow_in s)"
proof unfold_locales
  fix d :: bytes and s n s'
  assume "d \<noteq> []" and "slow_write s d = (Ready (Ok n), s')"
  then show "0 < n \<and> n \<le> length d \<and> out (slow_out s') = out (slow_out s) @ take n d"
    using stalling.accepts [of d "slow_out s" n "slow_out s'"] by (auto simp: slow_write_def split: prod.splits)
next
  fix s d r s'
  assume "slow_write s d = (r, s')" and "\<And>n. r \<noteq> Ready (Ok n)"
  then show "out (slow_out s') = out (slow_out s)"
    using stalling.otherwise_unsent [of "slow_out s" d r "slow_out s'"] by (auto simp: slow_write_def split: prod.splits)
next
  fix d :: bytes and s r s'
  assume "slow_write s d = (r, s')"
  then show "concat (slow_in s') = concat (slow_in s) \<and> (r = Pending \<and> length (stalls (slow_out s')) < length (stalls (slow_out s)) \<or>
      (\<exists>n. r = Ready (Ok n)) \<and> length (stalls (slow_out s')) \<le> length (stalls (slow_out s)))"
    by (cases "stalls (slow_out s)") (auto simp: slow_write_def stall_write_def split: if_splits)
qed (auto simp: slow_flush_def)

section \<open>Properties\<close>

text \<open>A network whose reads are sound and whose flushes are the polls of \<open>WriteAndFlush\<close> over a transport that makes progress is
  what the drivers rely on: every flush returns, has then sent exactly the buffer, and leaves what is to be read.\<close>

theorem polled_flush_is_healthy:
  assumes "patient_writer wr sent fl patience pending" and "async_reader (net_read N) pending" and "crate_laws C"
    and "\<And>s n d s'. net_read N s n = Ok (d, s') \<Longrightarrow> sent s' = sent s"
  shows "healthy_net (polled_net wr fl N) pending C sent"
proof -
  have r: "net_read (polled_net wr fl N) = net_read N" by (simp add: polled_net_def)
  have f: "\<exists>s'. net_flush (polled_net wr fl N) s b = (Ok (), s') \<and> sent s' = sent s @ b \<and> pending s' = pending s" for s b
    using patient_writer.await_sends [OF assms(1), of 0 b s] by (auto simp: polled_net_def)
  from assms(2,3) have "async_reader (net_read (polled_net wr fl N)) pending" "crate_laws C" by (simp_all add: r)
  moreover have "healthy_net_axioms (polled_net wr fl N) pending sent"
    using assms(4) f by (intro healthy_net_axioms.intro) (simp_all add: r)
  ultimately show ?thesis by (rule healthy_net.intro)
qed

theorem polled_flush_is_healthy_witness:
  "healthy_net slow_net (\<lambda>s. concat (slow_in s)) std_crates (\<lambda>s. out (slow_out s))"
proof -
  let ?rd = "\<lambda>(s :: slow_script) n. rbind (chunk_read (slow_in s) n) (\<lambda>(d, cs). Ok (d, s\<lparr>slow_in := cs\<rparr>))"
  have "async_reader ?rd (\<lambda>s. concat (slow_in s))"
  proof unfold_locales
    fix n :: nat and s :: slow_script
    assume "0 < n" and "concat (slow_in s) \<noteq> []"
    with chunk_read_progress [of n "slow_in s"] obtain k cs where
      "0 < k" "k \<le> n" "k \<le> length (concat (slow_in s))" "chunk_read (slow_in s) n = Ok (take k (concat (slow_in s)), cs)"
      "concat cs = drop k (concat (slow_in s))" by auto
    then show "\<exists>k s'. 0 < k \<and> k \<le> n \<and> k \<le> length (concat (slow_in s)) \<and> ?rd s n = Ok (take k (concat (slow_in s)), s') \<and>
        concat (slow_in s') = drop k (concat (slow_in s))"
      by (intro exI [of _ k] exI [of _ "s\<lparr>slow_in := cs\<rparr>"]) simp
  next
    fix n :: nat and s :: slow_script
    assume "concat (slow_in s) = []"
    with chunk_read_eof [of "slow_in s" n] show "\<exists>s'. ?rd s n = Ok ([], s') \<and> concat (slow_in s') = []" by auto
  qed
  moreover have "out (slow_out s') = out (slow_out s)" if "?rd s n = Ok (d, s')" for s n d s'
    using that by (cases "chunk_read (slow_in s) n") auto
  ultimately show ?thesis
    unfolding slow_net_def
    by (intro polled_flush_is_healthy [OF slow.patient_writer_axioms _ std.crate_laws_axioms]) simp_all
qed

end
