(* ===== verification/Async_Op.thy ===== *)
theory Async_Op
  imports Rbdc_Prelude
begin

text \<open>
  Awaited operations on a state: an operation either never finishes (\<open>None\<close>) or finishes
  with an outcome and the new state, also when it fails. The combinators sequence operations the
  way \<open>await\<close> and the question-mark operator do; the monotonicity rule lets loops be written
  as partial functions.
\<close>

type_synonym ('st, 'a) aop = "'st \<Rightarrow> ('a res \<times> 'st) option"

definition aret :: "'a \<Rightarrow> ('st, 'a) aop" where
  "aret x s = Some (Ok x, s)"

definition alift :: "'a res \<Rightarrow> ('st, 'a) aop" where
  "alift r s = Some (r, s)"

definition amodify :: "('st \<Rightarrow> 'st) \<Rightarrow> ('st, unit) aop" where
  "amodify f s = Some (Ok (), f s)"

definition aget :: "('st \<Rightarrow> 'a) \<Rightarrow> ('st, 'a) aop" where
  "aget f s = Some (Ok (f s), s)"

definition abind :: "('st, 'a) aop \<Rightarrow> ('a \<Rightarrow> ('st, 'b) aop) \<Rightarrow> ('st, 'b) aop" where
  "abind m f s =
     Option.bind (m s) (\<lambda>(r, s').
       case r of Ok x \<Rightarrow> f x s' | Err e \<Rightarrow> Some (Err e, s') | Panic \<Rightarrow> Some (Panic, s'))"

definition athen :: "('st, unit) aop \<Rightarrow> ('st, 'b) aop \<Rightarrow> ('st, 'b) aop" where
  "athen m k = abind m (\<lambda>_. k)"

lemma abind_mono [partial_function_mono]:
  fixes m :: "('x \<Rightarrow> 'y option) \<Rightarrow> ('st, 'a) aop" and g :: "('x \<Rightarrow> 'y option) \<Rightarrow> 'a \<Rightarrow> ('st, 'b) aop"
  assumes "\<And>s. mono_option (\<lambda>f. m f s)" and "\<And>x s. mono_option (\<lambda>f. g f x s)"
  shows "mono_option (\<lambda>f. abind (m f) (g f) s)"
proof (rule monotoneI)
  fix a b :: "'x \<Rightarrow> 'y option"
  assume ab: "fun_ord option_ord a b"
  have m: "option_ord (m a s) (m b s)" for s using assms(1) [of s] ab by (simp add: monotone_def)
  have g: "option_ord (g a x s) (g b x s)" for x s using assms(2) [of x s] ab by (simp add: monotone_def)
  from m [of s] consider "m a s = None" | r s' where "m a s = Some (r, s')" "m b s = Some (r, s')"
    by (cases "m a s") (auto simp: flat_ord_def)
  then show "option_ord (abind (m a) (g a) s) (abind (m b) (g b) s)"
  proof cases
    case 1
    then show ?thesis by (simp add: abind_def flat_ord_def)
  next
    case 2
    with g show ?thesis
      by (cases r) (simp_all add: abind_def flat_ord_def)
  qed
qed

lemma athen_mono [partial_function_mono]:
  fixes m :: "('x \<Rightarrow> 'y option) \<Rightarrow> ('st, unit) aop" and k :: "('x \<Rightarrow> 'y option) \<Rightarrow> ('st, 'b) aop"
  assumes "\<And>s. mono_option (\<lambda>f. m f s)" and "\<And>s. mono_option (\<lambda>f. k f s)"
  shows "mono_option (\<lambda>f. athen (m f) (k f) s)"
  unfolding athen_def by (rule abind_mono) (rule assms)+

text \<open>Branching inside an operation.\<close>

lemma if_app_mono [partial_function_mono]:
  assumes "mono_option (\<lambda>f. m f s)" and "mono_option (\<lambda>f. k f s)"
  shows "mono_option (\<lambda>f. (if b then m f else k f) s)"
  using assms by (cases b) simp_all

lemma case_option_app_mono [partial_function_mono]:
  assumes "mono_option (\<lambda>f. m f s)" and "\<And>x. mono_option (\<lambda>f. k f x s)"
  shows "mono_option (\<lambda>f. (case v of None \<Rightarrow> m f | Some x \<Rightarrow> k f x) s)"
  using assms by (cases v) simp_all

named_theorems aop_run \<open>running awaited operations on a state whose answers are known\<close>

lemma aret_run [aop_run]: "aret x s = Some (Ok x, s)"
  by (simp add: aret_def)

lemma alift_run [aop_run]: "alift r s = Some (r, s)"
  by (simp add: alift_def)

lemma amodify_run [aop_run]: "amodify f s = Some (Ok (), f s)"
  by (simp add: amodify_def)

lemma aget_run [aop_run]: "aget f s = Some (Ok (f s), s)"
  by (simp add: aget_def)

lemma abind_Ok [aop_run]: "m s = Some (Ok x, s') \<Longrightarrow> abind m f s = f x s'"
  by (simp add: abind_def)

lemma abind_Err [aop_run]: "m s = Some (Err e, s') \<Longrightarrow> abind m f s = Some (Err e, s')"
  by (simp add: abind_def)

lemma abind_Panic [aop_run]: "m s = Some (Panic, s') \<Longrightarrow> abind m f s = Some (Panic, s')"
  by (simp add: abind_def)

lemma athen_Ok [aop_run]: "m s = Some (Ok x, s') \<Longrightarrow> athen m k s = k s'"
  by (simp add: athen_def abind_Ok)

lemma athen_Err [aop_run]: "m s = Some (Err e, s') \<Longrightarrow> athen m k s = Some (Err e, s')"
  by (simp add: athen_def abind_Err)

lemma abind_assoc: "abind (abind m f) g = abind m (\<lambda>x. abind (f x) g)"
  by (auto simp: fun_eq_iff abind_def split: res.splits option.splits bind_splits)

text \<open>An operation repeated a fixed number of times, collecting the results.\<close>

fun arepeat :: "nat \<Rightarrow> (nat \<Rightarrow> ('st, 'a) aop) \<Rightarrow> nat \<Rightarrow> ('st, 'a list) aop" where
  "arepeat 0 f i = aret []"
| "arepeat (Suc n) f i = abind (f i) (\<lambda>x. abind (arepeat n f (Suc i)) (\<lambda>xs. aret (x # xs)))"

text \<open>A decoder that may itself never return.\<close>

definition aopt :: "'a res option \<Rightarrow> ('st, 'a) aop" where
  "aopt r s = map_option (\<lambda>x. (x, s)) r"

lemma aopt_run [aop_run]: "aopt (Some r) s = Some (r, s)"
  by (simp add: aopt_def)

text \<open>\<open>try_filter_map\<close> followed by \<open>try_collect\<close>: every item is folded into the collection.\<close>

partial_function (option) try_collect ::
    "('g \<Rightarrow> 'st \<Rightarrow> (('i option \<times> 'g) res \<times> 'st) option) \<Rightarrow> ('i \<Rightarrow> 'b \<Rightarrow> 'b) \<Rightarrow> 'b \<Rightarrow> 'g \<Rightarrow> 'st \<Rightarrow> ('b res \<times> 'st) option" where
  "try_collect step f acc g s =
     abind (step g) (\<lambda>p.
     case fst p of
       None \<Rightarrow> aret acc
     | Some i \<Rightarrow> try_collect step f (f i acc) (snd p)) s"

end
