(* ===== verification/Buf_Io.thy ===== *)
theory Buf_Io
  imports Byte_Crates
begin

text \<open>
  The shared buffer extensions (\<open>src/src/io/buf.rs\<close>, \<open>buf_mut.rs\<close>): reading NUL-terminated
  and fixed-length byte sequences and strings from a \<open>Bytes\<close> cursor, writing a
  NUL-terminated string. A reader returns its value and the rest of the input.
\<close>

definition protocol_of :: "'a res \<Rightarrow> 'a res" where
  "protocol_of m = (case m of Err _ \<Rightarrow> Err (Protocol ''invalid utf-8'' []) | _ \<Rightarrow> m)"

definition get_bytes_nul :: "crates \<Rightarrow> bytes \<Rightarrow> (bytes \<times> bytes) res" where
  "get_bytes_nul C buf =
     (case memchr C 0 buf of
        None \<Rightarrow> Err (Protocol ''expected NUL in byte sequence'' [])
      | Some nul \<Rightarrow>
          rbind (slice_to C buf nul) (\<lambda>v.
          rbind (advance C buf (nul + 1)) (\<lambda>buf.
          Ok (v, buf))))"

definition get_bytes :: "crates \<Rightarrow> bytes \<Rightarrow> nat \<Rightarrow> (bytes \<times> bytes) res" where
  "get_bytes C buf len =
     rbind (slice_to C buf len) (\<lambda>v.
     rbind (advance C buf len) (\<lambda>buf.
     Ok (v, buf)))"

definition get_str_nul :: "crates \<Rightarrow> bytes \<Rightarrow> (bytes \<times> bytes) res" where
  "get_str_nul C buf =
     rbind (get_bytes_nul C buf) (\<lambda>(v, buf).
     rbind (protocol_of (from_utf8 v)) (\<lambda>s.
     Ok (s, buf)))"

definition get_str :: "crates \<Rightarrow> bytes \<Rightarrow> nat \<Rightarrow> (bytes \<times> bytes) res" where
  "get_str C buf len =
     (if len \<le> length buf then
        rbind (protocol_of (from_utf8 (take len buf))) (\<lambda>v.
        rbind (advance C buf len) (\<lambda>buf.
        Ok (v, buf)))
      else Panic)"

definition put_str_nul :: "bytes \<Rightarrow> bytes \<Rightarrow> bytes" where
  "put_str_nul buf s = buf @ s @ [0]"

lemma protocol_of_Ok [simp]: "protocol_of (Ok x) = Ok x"
  by (simp add: protocol_of_def)

lemma protocol_of_Ok_iff [res_iff]: "protocol_of m = Ok x \<longleftrightarrow> m = Ok x"
  by (cases m) (auto simp: protocol_of_def)

lemma protocol_of_Panic_iff [res_iff]: "protocol_of m = Panic \<longleftrightarrow> m = Panic"
  by (cases m) (auto simp: protocol_of_def)

lemma from_utf8_not_Panic [simp]: "from_utf8 bs \<noteq> Panic"
  by (simp add: from_utf8_def)

context crate_laws
begin

lemma get_bytes_law:
  "get_bytes C buf n = (if n \<le> length buf then Ok (take n buf, drop n buf) else Panic)"
  by (simp add: get_bytes_def slice_to_law advance_law)

lemma get_bytes_app [simp]: "length xs = n \<Longrightarrow> get_bytes C (xs @ ys) n = Ok (xs, ys)"
  by (simp add: get_bytes_law)

lemma get_bytes_nul_app [simp]: "0 \<notin> set xs \<Longrightarrow> get_bytes_nul C (xs @ 0 # ys) = Ok (xs, ys)"
  by (simp add: get_bytes_nul_def memchr_app slice_to_law advance_law)

lemma get_str_nul_app [simp]:
  "0 \<notin> set xs \<Longrightarrow> utf8_ok xs \<Longrightarrow> get_str_nul C (xs @ 0 # ys) = Ok (xs, ys)"
  by (simp add: get_str_nul_def)

lemma get_str_app [simp]:
  "length xs = n \<Longrightarrow> utf8_ok xs \<Longrightarrow> get_str C (xs @ ys) n = Ok (xs, ys)"
  by (simp add: get_str_def advance_law)

lemma get_bytes_nul_not_Panic: "get_bytes_nul C buf \<noteq> Panic"
proof (cases "memchr C 0 buf")
  case None
  then show ?thesis by (simp add: get_bytes_nul_def)
next
  case (Some n)
  from memchr_SomeD(1) [OF this] show ?thesis
    by (simp add: get_bytes_nul_def Some slice_to_law advance_law)
qed

lemma get_str_nul_not_Panic: "get_str_nul C buf \<noteq> Panic"
  using get_bytes_nul_not_Panic [of buf]
  by (auto simp: get_str_nul_def res_iff split: prod.splits)

lemma get_bytes_nul_Ok:
  assumes "get_bytes_nul C buf = Ok (v, rest)"
  shows "buf = v @ 0 # rest \<and> 0 \<notin> set v"
proof (cases "memchr C 0 buf")
  case None
  with assms show ?thesis by (simp add: get_bytes_nul_def)
next
  case (Some n)
  note d = memchr_SomeD [OF this]
  from assms d(1) have "v = take n buf" "rest = drop (Suc n) buf"
    by (auto simp: get_bytes_nul_def Some slice_to_law advance_law)
  with d(2,3) show ?thesis by simp
qed

lemma get_str_nul_Ok:
  assumes "get_str_nul C buf = Ok (v, rest)"
  shows "buf = v @ 0 # rest \<and> 0 \<notin> set v \<and> utf8_ok v"
  using assms get_bytes_nul_Ok [of buf]
  by (auto simp: get_str_nul_def res_iff split: prod.splits)

end

text \<open>Reading a NUL-terminated string is inverse to writing it, in both
  directions: what \<open>get_str_nul\<close> accepts is exactly a UTF-8 string without NUL, followed by
  the terminator \<open>put_str_nul\<close> writes, and the unread rest is returned untouched.\<close>

theorem get_str_nul_inverts_put:
  assumes "crate_laws C"
  shows "get_str_nul C buf = Ok (s, rest) \<longleftrightarrow>
    buf = put_str_nul [] s @ rest \<and> 0 \<notin> set s \<and> utf8_ok s"
  using crate_laws.get_str_nul_Ok [OF assms] crate_laws.get_str_nul_app [OF assms]
  by (auto simp: put_str_nul_def)

theorem get_str_nul_inverts_put_witness:
  "crate_laws std_crates \<and>
   get_str_nul std_crates [56, 46, 48, 0, 1] = Ok ([56, 46, 48], [1])"
  using get_str_nul_inverts_put [OF std.crate_laws_axioms, of "[56, 46, 48, 0, 1]" "[56, 46, 48]" "[1]"]
    std.crate_laws_axioms
  by (simp add: put_str_nul_def)

end
