(* ===== verification/Mysql_Io.thy ===== *)
theory Mysql_Io
  imports Buf_Io
begin

text \<open>
  The wire primitives of the MySQL driver: length-encoded integers, strings and byte
  sequences (\<open>rbdc-mysql/src/io\<close>), the capability and status flag sets, the generic response
  packets (\<open>protocol/response\<close>) and the packet framing of \<open>protocol/packet.rs\<close>, which splits
  a payload into frames of at most \<open>0xFFFFFF\<close> bytes with a wrapping sequence number.
  Readers take the byte crates \<open>C\<close>; a writer takes the buffer and returns it extended.
\<close>

section \<open>Length-encoded values\<close>

definition get_uint_lenenc :: "crates \<Rightarrow> bytes \<Rightarrow> (u64 \<times> bytes) res" where
  "get_uint_lenenc C buf =
     rbind (get_u8 C buf) (\<lambda>(v, buf).
       if v = 0xfc then rbind (get_u16_le C buf) (\<lambda>(w, buf). Ok (ucast w, buf))
       else if v = 0xfd then get_uint_le C buf 3
       else if v = 0xfe then get_u64_le C buf
       else Ok (ucast v, buf))"

definition get_str_lenenc :: "crates \<Rightarrow> bytes \<Rightarrow> (bytes \<times> bytes) res" where
  "get_str_lenenc C buf =
     rbind (get_uint_lenenc C buf) (\<lambda>(size, buf). get_str C buf (unat size))"

definition get_bytes_lenenc :: "crates \<Rightarrow> bytes \<Rightarrow> (bytes \<times> bytes) res" where
  "get_bytes_lenenc C buf =
     rbind (get_uint_lenenc C buf) (\<lambda>(size, buf). split_to C buf (unat size))"

definition put_uint_lenenc :: "bytes \<Rightarrow> u64 \<Rightarrow> bytes" where
  "put_uint_lenenc buf v =
     (if v < 251 then buf @ [ucast v]
      else if v < 0x10000 then buf @ [0xfc] @ to_le (ucast v :: u16)
      else if v < 0x1000000 then buf @ [0xfd] @ take 3 (to_le (ucast v :: u32))
      else buf @ [0xfe] @ to_le v)"

definition put_bytes_lenenc :: "bytes \<Rightarrow> bytes \<Rightarrow> bytes" where
  "put_bytes_lenenc buf v = put_uint_lenenc buf (of_nat (length v)) @ v"

definition put_str_lenenc :: "bytes \<Rightarrow> bytes \<Rightarrow> bytes" where
  "put_str_lenenc buf v = put_bytes_lenenc buf v"

section \<open>Flags\<close>

definition MYSQL :: u64 where
  "MYSQL = 1"

definition FOUND_ROWS :: u64 where
  "FOUND_ROWS = 2"

definition LONG_FLAG :: u64 where
  "LONG_FLAG = 4"

definition CONNECT_WITH_DB :: u64 where
  "CONNECT_WITH_DB = 8"

definition NO_SCHEMA :: u64 where
  "NO_SCHEMA = 16"

definition COMPRESS :: u64 where
  "COMPRESS = 32"

definition ODBC :: u64 where
  "ODBC = 64"

definition LOCAL_FILES :: u64 where
  "LOCAL_FILES = 128"

definition IGNORE_SPACE :: u64 where
  "IGNORE_SPACE = 256"

definition PROTOCOL_41 :: u64 where
  "PROTOCOL_41 = 512"

definition INTERACTIVE :: u64 where
  "INTERACTIVE = 1024"

definition SSL :: u64 where
  "SSL = 2048"

definition TRANSACTIONS :: u64 where
  "TRANSACTIONS = 8192"

definition SECURE_CONNECTION :: u64 where
  "SECURE_CONNECTION = 2 ^ 15"

definition MULTI_STATEMENTS :: u64 where
  "MULTI_STATEMENTS = 2 ^ 16"

definition MULTI_RESULTS :: u64 where
  "MULTI_RESULTS = 2 ^ 17"

definition PS_MULTI_RESULTS :: u64 where
  "PS_MULTI_RESULTS = 2 ^ 18"

definition PLUGIN_AUTH :: u64 where
  "PLUGIN_AUTH = 2 ^ 19"

definition CONNECT_ATTRS :: u64 where
  "CONNECT_ATTRS = 2 ^ 20"

definition PLUGIN_AUTH_LENENC_DATA :: u64 where
  "PLUGIN_AUTH_LENENC_DATA = 2 ^ 21"

definition CAN_HANDLE_EXPIRED_PASSWORDS :: u64 where
  "CAN_HANDLE_EXPIRED_PASSWORDS = 2 ^ 22"

definition SESSION_TRACK :: u64 where
  "SESSION_TRACK = 2 ^ 23"

definition DEPRECATE_EOF :: u64 where
  "DEPRECATE_EOF = 2 ^ 24"

definition ZSTD_COMPRESSION_ALGORITHM :: u64 where
  "ZSTD_COMPRESSION_ALGORITHM = 2 ^ 26"

definition SSL_VERIFY_SERVER_CERT :: u64 where
  "SSL_VERIFY_SERVER_CERT = 2 ^ 30"

definition OPTIONAL_RESULTSET_METADATA :: u64 where
  "OPTIONAL_RESULTSET_METADATA = 2 ^ 25"

definition REMEMBER_OPTIONS :: u64 where
  "REMEMBER_OPTIONS = 2 ^ 31"

definition CAPABILITIES_ALL :: u64 where
  "CAPABILITIES_ALL =
    MYSQL OR FOUND_ROWS OR LONG_FLAG OR CONNECT_WITH_DB OR NO_SCHEMA OR COMPRESS OR ODBC
    OR LOCAL_FILES OR IGNORE_SPACE OR PROTOCOL_41 OR INTERACTIVE OR SSL OR TRANSACTIONS OR
    SECURE_CONNECTION OR MULTI_STATEMENTS OR MULTI_RESULTS OR PS_MULTI_RESULTS OR
    PLUGIN_AUTH OR CONNECT_ATTRS OR PLUGIN_AUTH_LENENC_DATA OR
    CAN_HANDLE_EXPIRED_PASSWORDS OR SESSION_TRACK OR DEPRECATE_EOF OR
    ZSTD_COMPRESSION_ALGORITHM OR SSL_VERIFY_SERVER_CERT OR OPTIONAL_RESULTSET_METADATA OR
    REMEMBER_OPTIONS"

lemmas capability_defs =
  MYSQL_def FOUND_ROWS_def LONG_FLAG_def CONNECT_WITH_DB_def NO_SCHEMA_def COMPRESS_def
  ODBC_def LOCAL_FILES_def IGNORE_SPACE_def PROTOCOL_41_def INTERACTIVE_def SSL_def
  TRANSACTIONS_def SECURE_CONNECTION_def MULTI_STATEMENTS_def MULTI_RESULTS_def
  PS_MULTI_RESULTS_def PLUGIN_AUTH_def CONNECT_ATTRS_def PLUGIN_AUTH_LENENC_DATA_def
  CAN_HANDLE_EXPIRED_PASSWORDS_def SESSION_TRACK_def DEPRECATE_EOF_def
  ZSTD_COMPRESSION_ALGORITHM_def SSL_VERIFY_SERVER_CERT_def
  OPTIONAL_RESULTSET_METADATA_def REMEMBER_OPTIONS_def
  CAPABILITIES_ALL_def

definition SERVER_STATUS_IN_TRANS :: u16 where
  "SERVER_STATUS_IN_TRANS = 1"

definition SERVER_STATUS_AUTOCOMMIT :: u16 where
  "SERVER_STATUS_AUTOCOMMIT = 2"

definition SERVER_MORE_RESULTS_EXISTS :: u16 where
  "SERVER_MORE_RESULTS_EXISTS = 8"

definition SERVER_QUERY_NO_GOOD_INDEX_USED :: u16 where
  "SERVER_QUERY_NO_GOOD_INDEX_USED = 16"

definition SERVER_QUERY_NO_INDEX_USED :: u16 where
  "SERVER_QUERY_NO_INDEX_USED = 32"

definition SERVER_STATUS_CURSOR_EXISTS :: u16 where
  "SERVER_STATUS_CURSOR_EXISTS = 64"

definition SERVER_STATUS_LAST_ROW_SENT :: u16 where
  "SERVER_STATUS_LAST_ROW_SENT = 128"

definition SERVER_STATUS_DB_DROPPED :: u16 where
  "SERVER_STATUS_DB_DROPPED = 2 ^ 8"

definition SERVER_STATUS_NO_BACKSLASH_ESCAPES :: u16 where
  "SERVER_STATUS_NO_BACKSLASH_ESCAPES = 2 ^ 9"

definition SERVER_STATUS_METADATA_CHANGED :: u16 where
  "SERVER_STATUS_METADATA_CHANGED = 2 ^ 10"

definition SERVER_QUERY_WAS_SLOW :: u16 where
  "SERVER_QUERY_WAS_SLOW = 2 ^ 11"

definition SERVER_PS_OUT_PARAMS :: u16 where
  "SERVER_PS_OUT_PARAMS = 2 ^ 12"

definition SERVER_STATUS_IN_TRANS_READONLY :: u16 where
  "SERVER_STATUS_IN_TRANS_READONLY = 2 ^ 13"

definition SERVER_SESSION_STATE_CHANGED :: u16 where
  "SERVER_SESSION_STATE_CHANGED = 2 ^ 14"

definition STATUS_ALL :: u16 where
  "STATUS_ALL =
    SERVER_STATUS_IN_TRANS OR SERVER_STATUS_AUTOCOMMIT OR SERVER_MORE_RESULTS_EXISTS OR
    SERVER_QUERY_NO_GOOD_INDEX_USED OR SERVER_QUERY_NO_INDEX_USED OR
    SERVER_STATUS_CURSOR_EXISTS OR SERVER_STATUS_LAST_ROW_SENT OR SERVER_STATUS_DB_DROPPED
    OR SERVER_STATUS_NO_BACKSLASH_ESCAPES OR SERVER_STATUS_METADATA_CHANGED OR
    SERVER_QUERY_WAS_SLOW OR SERVER_PS_OUT_PARAMS OR SERVER_STATUS_IN_TRANS_READONLY OR
    SERVER_SESSION_STATE_CHANGED"

lemmas status_defs =
  SERVER_STATUS_IN_TRANS_def SERVER_STATUS_AUTOCOMMIT_def SERVER_MORE_RESULTS_EXISTS_def
  SERVER_QUERY_NO_GOOD_INDEX_USED_def SERVER_QUERY_NO_INDEX_USED_def
  SERVER_STATUS_CURSOR_EXISTS_def SERVER_STATUS_LAST_ROW_SENT_def
  SERVER_STATUS_DB_DROPPED_def SERVER_STATUS_NO_BACKSLASH_ESCAPES_def
  SERVER_STATUS_METADATA_CHANGED_def SERVER_QUERY_WAS_SLOW_def SERVER_PS_OUT_PARAMS_def
  SERVER_STATUS_IN_TRANS_READONLY_def SERVER_SESSION_STATE_CHANGED_def
  STATUS_ALL_def

section \<open>Generic response packets\<close>

record ok_packet =
  affected_rows :: u64
  last_insert_id :: u64
  ok_status :: u16
  ok_warnings :: u16

definition ok_packet_decode :: "crates \<Rightarrow> bytes \<Rightarrow> ok_packet res" where
  "ok_packet_decode C buf =
     rbind (get_u8 C buf) (\<lambda>(header, buf).
     if header \<noteq> 0 \<and> header \<noteq> 0xfe
     then Err (Protocol ''expected 0x00 or 0xfe (OK_Packet)'' [unat header])
     else
       rbind (get_uint_lenenc C buf) (\<lambda>(affected_rows, buf).
       rbind (get_uint_lenenc C buf) (\<lambda>(last_insert_id, buf).
       rbind (get_u16_le C buf) (\<lambda>(st, buf).
       rbind (get_u16_le C buf) (\<lambda>(warnings, buf).
       Ok \<lparr>affected_rows = affected_rows, last_insert_id = last_insert_id,
           ok_status = flags_truncate C STATUS_ALL st, ok_warnings = warnings\<rparr>)))))"

record eof_packet =
  eof_warnings :: u16
  eof_status :: u16

definition eof_packet_decode :: "crates \<Rightarrow> bytes \<Rightarrow> eof_packet res" where
  "eof_packet_decode C buf =
     rbind (get_u8 C buf) (\<lambda>(header, buf).
     if header \<noteq> 0xfe then Err (Protocol ''expected 0xfe (EOF_Packet)'' [unat header])
     else
       rbind (get_u16_le C buf) (\<lambda>(warnings, buf).
       rbind (get_u16_le C buf) (\<lambda>(st, buf).
       Ok \<lparr>eof_warnings = warnings, eof_status = flags_truncate C STATUS_ALL st\<rparr>)))"

record err_packet =
  error_code :: u16
  sql_state :: "bytes option"
  error_message :: bytes

definition err_packet_decode :: "crates \<Rightarrow> u64 \<Rightarrow> bytes \<Rightarrow> err_packet res" where
  "err_packet_decode C capabilities buf =
     rbind (get_u8 C buf) (\<lambda>(header, buf).
     if header \<noteq> 0xff then Err (Protocol ''expected 0xff (ERR_Packet)'' [unat header])
     else
       rbind (get_u16_le C buf) (\<lambda>(error_code, buf).
       rbind (if caps_contains C capabilities PROTOCOL_41 \<and> buf \<noteq> [] \<and> hd buf = 0x23
              then rbind (advance C buf 1) (\<lambda>buf.
                   rbind (get_str C buf 5) (\<lambda>(s, buf). Ok (Some s, buf)))
              else Ok (None, buf)) (\<lambda>(sql_state, buf).
       rbind (get_str C buf (length buf)) (\<lambda>(error_message, buf).
       Ok \<lparr>error_code = error_code, sql_state = sql_state, error_message = error_message\<rparr>))))"

text \<open>\<open>Packet::eof\<close>: with \<open>DEPRECATE_EOF\<close> the end of a result set is an OK packet.\<close>

definition packet_eof :: "crates \<Rightarrow> u64 \<Rightarrow> bytes \<Rightarrow> eof_packet res" where
  "packet_eof C capabilities p =
     (if caps_contains C capabilities DEPRECATE_EOF
      then rbind (ok_packet_decode C p) (\<lambda>ok.
        Ok \<lparr>eof_warnings = ok_warnings ok, eof_status = ok_status ok\<rparr>)
      else eof_packet_decode C p)"

section \<open>Framing\<close>

definition next_header :: "u32 \<Rightarrow> u8 \<Rightarrow> bytes \<times> u8" where
  "next_header len sequence_id = ((to_le len)[3 := sequence_id], sequence_id + 1)"

function packet_chunks :: "bytes \<Rightarrow> bytes \<Rightarrow> u8 \<Rightarrow> bytes \<times> u8" where
  "packet_chunks buf rest sequence_id =
     (if 0xFFFFFF \<le> length rest then
        (case next_header (of_nat (length (take 0xFFFFFF rest))) sequence_id of
           (h, sequence_id) \<Rightarrow>
             packet_chunks (buf @ h @ take 0xFFFFFF rest) (drop 0xFFFFFF rest) sequence_id)
      else
        (case next_header (of_nat (length rest)) sequence_id of
           (h, sequence_id) \<Rightarrow> (buf @ h @ rest, sequence_id)))"
  by pat_completeness auto
termination
  by (relation "measure (\<lambda>(buf, rest, sequence_id). length rest)") auto

declare packet_chunks.simps [simp del]

text \<open>
  \<open>enc\<close> is the payload's \<open>encode_with\<close>, which appends to the buffer; the result is the
  buffer and the new value of the \<open>sequence_id\<close> reference.
\<close>

definition packet_encode :: "(bytes \<Rightarrow> bytes) \<Rightarrow> bytes \<Rightarrow> u8 \<Rightarrow> bytes \<times> u8" where
  "packet_encode enc buf sequence_id =
     (let offset = length buf;
          buf = enc (buf @ [0, 0, 0, 0]);
          len = length buf - offset - 4
      in case next_header (of_nat (min len 0xFFFFFF)) sequence_id of
        (h, sequence_id) \<Rightarrow>
          let buf = take offset buf @ h @ drop (offset + 4) buf
          in if 0xFFFFFF \<le> len
             then packet_chunks (take (offset + 4 + 0xFFFFFF) buf) (drop (offset + 4 + 0xFFFFFF) buf) sequence_id
             else (buf, sequence_id))"

text \<open>What the framing is: full frames while they last, then one shorter frame.\<close>

definition frame :: "u8 \<Rightarrow> bytes \<Rightarrow> bytes" where
  "frame sequence_id p = le_bytes 3 (length p) @ sequence_id # p"

function frames :: "u8 \<Rightarrow> bytes \<Rightarrow> bytes list" where
  "frames sequence_id p =
     (if 0xFFFFFF \<le> length p
      then frame sequence_id (take 0xFFFFFF p) # frames (sequence_id + 1) (drop 0xFFFFFF p)
      else [frame sequence_id p])"
  by pat_completeness auto
termination
  by (relation "measure (\<lambda>(sequence_id, p). length p)") auto

declare frames.simps [simp del]

definition frame_count :: "bytes \<Rightarrow> nat" where
  "frame_count p = length p div 0xFFFFFF + 1"

section \<open>Lemmas\<close>

lemma ucast_ucast_small:
  fixes v :: "'a::len word"
  assumes "unat v < 2 ^ LENGTH('b::len)"
  shows "ucast (ucast v :: 'b word) = v"
  using assms by (simp add: word_unat_eq_iff unsigned_ucast_eq unsigned_take_bit_eq take_bit_nat_eq_self)

lemma unat_ucast_small:
  fixes v :: "'a::len word"
  shows "unat v < 2 ^ LENGTH('b::len) \<Longrightarrow> unat (ucast v :: 'b word) = unat v"
  by (simp add: unsigned_ucast_eq take_bit_nat_eq_self)

lemma take_le_bytes: "n \<le> m \<Longrightarrow> take n (le_bytes m v) = le_bytes n v"
proof (induction n arbitrary: m v)
  case 0
  show ?case by simp
next
  case (Suc n)
  then obtain m' where "m = Suc m'" by (cases m) auto
  with Suc show ?case by simp
qed

lemma put_uint_lenenc_app: "put_uint_lenenc buf v = buf @ put_uint_lenenc [] v"
  by (simp add: put_uint_lenenc_def)

lemma put_bytes_lenenc_app: "put_bytes_lenenc buf v = buf @ put_bytes_lenenc [] v"
  by (simp add: put_bytes_lenenc_def put_uint_lenenc_app [of buf])

lemma put_str_lenenc_app: "put_str_lenenc buf v = buf @ put_str_lenenc [] v"
  by (simp add: put_str_lenenc_def put_bytes_lenenc_app [of buf])

lemma get_24: "n < 2 ^ 24 \<Longrightarrow> from_le (take 3 (to_le (of_nat n :: u32))) = (of_nat n :: u64)"
proof -
  assume n: "n < 2 ^ 24"
  then have "unat (of_nat n :: u32) = n" by (simp add: unat_of_nat)
  then have "take 3 (to_le (of_nat n :: u32)) = le_bytes 3 n"
    by (simp add: to_le_def take_le_bytes del: le_bytes_numeral)
  moreover have "le_nat (le_bytes 3 n) = n"
    using n by (intro le_nat_le_bytes) simp
  ultimately show ?thesis by (simp add: from_le_def)
qed

context crate_laws
begin

lemma get_uint_lenenc_put [simp]: "get_uint_lenenc C (put_uint_lenenc [] v @ rest) = Ok (v, rest)"
proof -
  consider (u8) "v < 251" | (u16) "\<not> v < 251" "v < 0x10000"
    | (u24) "\<not> v < 251" "\<not> v < 0x10000" "v < 0x1000000"
    | (u64) "\<not> v < 251" "\<not> v < 0x10000" "\<not> v < 0x1000000"
    by blast
  then show ?thesis
  proof cases
    case u8
    then have n: "unat v < 251" by (simp add: word_less_nat_alt)
    then have u: "unat (ucast v :: u8) = unat v" by (intro unat_ucast_small) simp
    from n have "ucast (ucast v :: u8) = v" by (intro ucast_ucast_small) simp
    moreover have "(ucast v :: u8) \<noteq> 0xfc" "(ucast v :: u8) \<noteq> 0xfd" "(ucast v :: u8) \<noteq> 0xfe"
      using n u by (auto simp: word_unat_eq_iff)
    ultimately show ?thesis
      using u8 by (simp add: put_uint_lenenc_def get_uint_lenenc_def)
  next
    case u16
    then have "ucast (ucast v :: u16) = v" by (intro ucast_ucast_small) (simp add: word_less_nat_alt)
    with u16 show ?thesis by (simp add: put_uint_lenenc_def get_uint_lenenc_def)
  next
    case u24
    then have n: "unat v < 2 ^ 24" by (simp add: word_less_nat_alt)
    have "from_le (take 3 (to_le (ucast v :: u32))) = (of_nat (unat v) :: u64)"
      using get_24 [OF n] by simp
    then have "from_le (take 3 (to_le (ucast v :: u32))) = v" by simp
    with u24 show ?thesis
      by (simp add: put_uint_lenenc_def get_uint_lenenc_def get_uint_le_app)
  next
    case u64
    then show ?thesis by (simp add: put_uint_lenenc_def get_uint_lenenc_def)
  qed
qed

lemma get_bytes_lenenc_put [simp]:
  "length v < 2 ^ 64 \<Longrightarrow> get_bytes_lenenc C (put_bytes_lenenc [] v @ rest) = Ok (v, rest)"
  by (simp add: get_bytes_lenenc_def put_bytes_lenenc_def split_to_app unat_of_nat)

lemma get_str_lenenc_put [simp]:
  "length v < 2 ^ 64 \<Longrightarrow> utf8_ok v \<Longrightarrow> get_str_lenenc C (put_str_lenenc [] v @ rest) = Ok (v, rest)"
  by (simp add: get_str_lenenc_def put_str_lenenc_def put_bytes_lenenc_def unat_of_nat)

end

subsection \<open>Framing\<close>

lemma next_header_frame:
  assumes "n \<le> 0xFFFFFF"
  shows "next_header (of_nat n) sequence_id = (le_bytes 3 n @ [sequence_id], sequence_id + 1)"
proof -
  from assms have "unat (of_nat n :: u32) = n" by (simp add: unat_of_nat)
  then have "to_le (of_nat n :: u32) = le_bytes 3 n @ [of_nat (n div 256 div 256 div 256 mod 256)]"
    by (simp add: to_le_def)
  then show ?thesis by (simp add: next_header_def list_update_append)
qed

lemma packet_chunks_frames:
  "packet_chunks buf rest sequence_id =
    (buf @ concat (frames sequence_id rest), sequence_id + of_nat (frame_count rest))"
proof (induction buf rest sequence_id rule: packet_chunks.induct)
  case (1 buf rest sequence_id)
  show ?case
  proof (cases "0xFFFFFF \<le> length rest")
    case True
    note h = next_header_frame [of "0xFFFFFF" sequence_id]
    have fc: "frame_count rest = Suc (frame_count (drop 0xFFFFFF rest))"
      using True by (simp add: frame_count_def le_div_geq)
    have eq: "packet_chunks buf rest sequence_id =
        packet_chunks (buf @ (le_bytes 3 0xFFFFFF @ [sequence_id]) @ take 0xFFFFFF rest) (drop 0xFFFFFF rest) (sequence_id + 1)"
      using True h by (subst packet_chunks.simps) (simp add: min_def del: le_bytes_numeral)
    have fr: "frames sequence_id rest = frame sequence_id (take 0xFFFFFF rest) # frames (sequence_id + 1) (drop 0xFFFFFF rest)"
      using True by (subst frames.simps) simp
    have IH: "packet_chunks (buf @ (le_bytes 3 0xFFFFFF @ [sequence_id]) @ take 0xFFFFFF rest) (drop 0xFFFFFF rest) (sequence_id + 1) =
      ((buf @ (le_bytes 3 0xFFFFFF @ [sequence_id]) @ take 0xFFFFFF rest) @ concat (frames (sequence_id + 1) (drop 0xFFFFFF rest)),
        sequence_id + 1 + of_nat (frame_count (drop 0xFFFFFF rest)))"
      using True h by (intro "1.IH") (simp_all add: min_def)
    show ?thesis
      unfolding eq IH fr fc using True by (simp add: frame_def min_def del: le_bytes_numeral)
  next
    case False
    with next_header_frame [of "length rest" sequence_id] show ?thesis
      by (subst packet_chunks.simps, subst frames.simps) (simp add: frame_def frame_count_def del: le_bytes_numeral)
  qed
qed

lemma packet_encode_frames:
  assumes "enc (buf @ [0, 0, 0, 0]) = buf @ [0, 0, 0, 0] @ p"
  shows "packet_encode enc buf sequence_id =
    (buf @ concat (frames sequence_id p), sequence_id + of_nat (frame_count p))"
proof (cases "0xFFFFFF \<le> length p")
  case True
  have h: "next_header (of_nat (min (length p) 0xFFFFFF)) sequence_id =
      (le_bytes 3 0xFFFFFF @ [sequence_id], sequence_id + 1)"
    using True by (simp add: min_def next_header_frame del: le_bytes_numeral of_nat_numeral)
  have "packet_encode enc buf sequence_id =
      packet_chunks (buf @ (le_bytes 3 0xFFFFFF @ [sequence_id]) @ take 0xFFFFFF p) (drop 0xFFFFFF p) (sequence_id + 1)"
    unfolding packet_encode_def Let_def assms
    using True h by (simp add: assms del: le_bytes_numeral)
  moreover have "frame_count p = Suc (frame_count (drop 0xFFFFFF p))"
    using True by (simp add: frame_count_def le_div_geq)
  moreover have "frames sequence_id p = frame sequence_id (take 0xFFFFFF p) # frames (sequence_id + 1) (drop 0xFFFFFF p)"
    using True by (subst frames.simps) simp
  ultimately show ?thesis
    using True by (simp add: packet_chunks_frames frame_def min_def del: le_bytes_numeral)
next
  case False
  then have h: "next_header (of_nat (min (length p) 0xFFFFFF)) sequence_id =
      (le_bytes 3 (length p) @ [sequence_id], sequence_id + 1)"
    by (simp add: min_def next_header_frame del: le_bytes_numeral of_nat_numeral)
  have "packet_encode enc buf sequence_id = (buf @ (le_bytes 3 (length p) @ [sequence_id]) @ p, sequence_id + 1)"
    unfolding packet_encode_def Let_def assms
    using False h by (simp del: le_bytes_numeral)
  with False show ?thesis
    by (subst frames.simps) (simp add: frame_def frame_count_def del: le_bytes_numeral)
qed

definition frame_all :: "u8 \<Rightarrow> bytes list \<Rightarrow> bytes" where
  "frame_all sequence_id ps = concat (map (\<lambda>(i, q). frame (sequence_id + of_nat i) q) (enumerate 0 ps))"

lemma frame_all_Cons: "frame_all sequence_id (q # ps) = frame sequence_id q @ frame_all (sequence_id + 1) ps"
  by (simp add: frame_all_def enumerate_Suc_eq case_prod_unfold comp_def add.assoc)

lemma frames_split:
  "\<exists>ps. concat ps = p \<and> (\<forall>q \<in> set (butlast ps). length q = 0xFFFFFF) \<and> ps \<noteq> [] \<and>
     length (last ps) < 0xFFFFFF \<and> length ps = frame_count p \<and>
     concat (frames sequence_id p) = frame_all sequence_id ps"
proof (induction sequence_id p rule: frames.induct)
  case (1 sequence_id p)
  show ?case
  proof (cases "0xFFFFFF \<le> length p")
    case True
    from "1.IH" [OF this] obtain ps where ps: "concat ps = drop 0xFFFFFF p"
      "\<forall>q \<in> set (butlast ps). length q = 0xFFFFFF" "ps \<noteq> []" "length (last ps) < 0xFFFFFF"
      "length ps = frame_count (drop 0xFFFFFF p)"
      "concat (frames (sequence_id + 1) (drop 0xFFFFFF p)) = frame_all (sequence_id + 1) ps"
      by blast
    have "frames sequence_id p = frame sequence_id (take 0xFFFFFF p) # frames (sequence_id + 1) (drop 0xFFFFFF p)"
      using True by (subst frames.simps) simp
    moreover have "frame_count p = Suc (frame_count (drop 0xFFFFFF p))"
      using True by (simp add: frame_count_def le_div_geq)
    ultimately show ?thesis
      using ps True by (intro exI [of _ "take 0xFFFFFF p # ps"]) (simp add: frame_all_Cons)
  next
    case False
    then have "frames sequence_id p = [frame sequence_id p]" by (subst frames.simps) simp
    with False show ?thesis
      by (intro exI [of _ "[p]"]) (simp add: frame_all_Cons frame_count_def, simp add: frame_all_def)
  qed
qed

subsection \<open>Responses\<close>

context crate_laws
begin

lemma ok_packet_decode_wire:
  assumes "h = 0 \<or> h = 0xfe"
  shows "ok_packet_decode C (h # put_uint_lenenc [] a @ put_uint_lenenc [] i @ to_le st @ to_le w @ rest) =
    Ok \<lparr>affected_rows = a, last_insert_id = i, ok_status = st AND STATUS_ALL, ok_warnings = w\<rparr>"
  using assms by (auto simp: ok_packet_decode_def flags_truncate_law)

lemma eof_packet_decode_wire:
  "eof_packet_decode C (0xfe # to_le w @ to_le st @ rest) =
    Ok \<lparr>eof_warnings = w, eof_status = st AND STATUS_ALL\<rparr>"
  by (simp add: eof_packet_decode_def flags_truncate_law)

lemma get_str_all: "utf8_ok m \<Longrightarrow> get_str C m (length m) = Ok (m, [])"
  using get_str_app [of m "length m" "[]"] by simp

lemma err_packet_decode_state:
  assumes "caps AND PROTOCOL_41 = PROTOCOL_41" "length q = 5" "utf8_ok q" "utf8_ok m"
  shows "err_packet_decode C caps (0xff # to_le code @ 0x23 # q @ m) =
    Ok \<lparr>error_code = code, sql_state = Some q, error_message = m\<rparr>"
  using assms by (simp add: err_packet_decode_def caps_contains_law get_str_all)

lemma err_packet_decode_plain:
  assumes "caps AND PROTOCOL_41 \<noteq> PROTOCOL_41 \<or> m = [] \<or> hd m \<noteq> 0x23" "utf8_ok m"
  shows "err_packet_decode C caps (0xff # to_le code @ m) =
    Ok \<lparr>error_code = code, sql_state = None, error_message = m\<rparr>"
  using assms by (auto simp: err_packet_decode_def caps_contains_law get_str_all)

end

section \<open>Properties\<close>

text \<open>Length-encoded integers are inverse to their encoding for every 64-bit value,
  whatever follows them, and no encoding starts with the bytes reserved for NULL (0xfb) and
  for an error packet (0xff).\<close>

theorem uint_lenenc_roundtrip:
  assumes "crate_laws C"
  shows "get_uint_lenenc C (put_uint_lenenc [] v @ rest) = Ok (v, rest) \<and>
    hd (put_uint_lenenc [] v) \<noteq> 0xfb \<and> hd (put_uint_lenenc [] v) \<noteq> 0xff"
proof -
  have "unat (ucast v :: u8) = unat v" if "v < 251"
    using that by (intro unat_ucast_small) (simp add: word_less_nat_alt)
  then have "ucast v \<noteq> (0xfb :: u8) \<and> ucast v \<noteq> (0xff :: u8)" if "v < 251"
    using that by (auto simp: word_unat_eq_iff word_less_nat_alt)
  then show ?thesis
    using crate_laws.get_uint_lenenc_put [OF assms] by (auto simp: put_uint_lenenc_def)
qed

theorem uint_lenenc_roundtrip_witness:
  "crate_laws std_crates \<and> put_uint_lenenc [] 251 = [0xfc, 0xfb, 0] \<and>
   get_uint_lenenc std_crates [0xfc, 0xfb, 0, 7] = Ok (251, [7])"
  using uint_lenenc_roundtrip [OF std.crate_laws_axioms, of 251 "[7]"] std.crate_laws_axioms
  by (simp add: put_uint_lenenc_def to_le_def)

text \<open>Length-encoded byte sequences and UTF-8 strings are read back as they were
  written, and the rest of the packet is left for the next reader.\<close>

theorem str_lenenc_roundtrip:
  assumes "crate_laws C" and "length v < 2 ^ 64" and "utf8_ok v"
  shows "get_bytes_lenenc C (put_bytes_lenenc [] v @ rest) = Ok (v, rest) \<and>
    get_str_lenenc C (put_str_lenenc [] v @ rest) = Ok (v, rest)"
  using crate_laws.get_bytes_lenenc_put [OF assms(1,2)] crate_laws.get_str_lenenc_put [OF assms]
  by blast

theorem str_lenenc_roundtrip_witness:
  "utf8_ok [104, 105] \<and> get_str_lenenc std_crates [2, 104, 105, 9] = Ok ([104, 105], [9])"
  using str_lenenc_roundtrip [OF std.crate_laws_axioms, of "[104, 105]" "[9]"]
  by (simp add: put_str_lenenc_def put_bytes_lenenc_def put_uint_lenenc_def)

text \<open>Framing a payload cuts it, in order and without loss, into full frames of
  0xFFFFFF bytes and one final shorter frame (empty when the length is a multiple), numbered
  consecutively from the stream's sequence number modulo 256, and leaves what the buffer
  already held in place.\<close>

theorem packet_encode_splits:
  assumes "\<And>b. enc b = b @ p"
  shows "\<exists>ps. concat ps = p \<and> (\<forall>q \<in> set (butlast ps). length q = 0xFFFFFF) \<and> ps \<noteq> [] \<and>
     length (last ps) < 0xFFFFFF \<and> length ps = length p div 0xFFFFFF + 1 \<and>
     packet_encode enc buf sequence_id =
       (buf @ frame_all sequence_id ps, sequence_id + of_nat (length ps))"
proof -
  from frames_split [of p sequence_id] obtain ps where
    "concat ps = p" "\<forall>q \<in> set (butlast ps). length q = 0xFFFFFF" "ps \<noteq> []"
    "length (last ps) < 0xFFFFFF" "length ps = frame_count p"
    "concat (frames sequence_id p) = frame_all sequence_id ps" by blast
  moreover from packet_encode_frames [of enc buf p sequence_id] assms
  have "packet_encode enc buf sequence_id =
      (buf @ concat (frames sequence_id p), sequence_id + of_nat (frame_count p))" by simp
  ultimately show ?thesis by (intro exI [of _ ps]) (simp add: frame_count_def)
qed

theorem packet_encode_splits_witness:
  "\<exists>ps. concat ps = [1, 2, 3] \<and> length ps = 1 \<and>
     packet_encode (\<lambda>b. b @ [1, 2, 3]) [7] 255 = ([7] @ frame_all 255 ps, 0)"
proof -
  from packet_encode_splits [of "\<lambda>b. b @ [1, 2, 3]" "[1, 2, 3]" "[7]" 255] obtain ps where
    "concat ps = [1, 2, 3]" "length ps = 1"
    "packet_encode (\<lambda>b. b @ [1, 2, 3]) [7] 255 = ([7] @ frame_all 255 ps, 255 + of_nat (length ps))"
    by auto
  then show ?thesis by (intro exI [of _ ps]) simp
qed

text \<open>An OK packet (header 0x00 or 0xfe) and an EOF packet decode to the fields of
  their wire layout with undeclared status bits dropped, and \<open>Packet::eof\<close> reads either form
  according to \<open>DEPRECATE_EOF\<close>.\<close>

theorem ok_and_eof_decode:
  assumes "crate_laws C" and "h = 0 \<or> h = 0xfe"
    and "p = h # put_uint_lenenc [] a @ put_uint_lenenc [] i @ to_le st @ to_le w @ rest"
    and "q = 0xfe # to_le w @ to_le st @ rest'"
  shows "ok_packet_decode C p =
      Ok \<lparr>affected_rows = a, last_insert_id = i, ok_status = st AND STATUS_ALL, ok_warnings = w\<rparr> \<and>
    packet_eof C caps (if caps AND DEPRECATE_EOF = DEPRECATE_EOF then p else q) =
      Ok \<lparr>eof_warnings = w, eof_status = st AND STATUS_ALL\<rparr>"
  using crate_laws.ok_packet_decode_wire [OF assms(1,2)] crate_laws.eof_packet_decode_wire [OF assms(1)]
  by (simp add: assms(3,4) packet_eof_def crate_laws.caps_contains_law [OF assms(1)])

theorem ok_and_eof_decode_witness:
  "ok_packet_decode std_crates [0, 0, 0, 2, 0x40, 0, 0] =
     Ok \<lparr>affected_rows = 0, last_insert_id = 0, ok_status = 0x4002, ok_warnings = 0\<rparr>"
  using ok_and_eof_decode [OF std.crate_laws_axioms, of 0 "[0, 0, 0, 2, 0x40, 0, 0]" 0 0 "0x4002" 0 "[]"]
  by (simp add: put_uint_lenenc_def to_le_def status_defs)

text \<open>An ERR packet decodes to its code and message; the SQL state is read exactly
  when protocol 4.1 was negotiated and the state marker is present, as early errors of the
  connection phase lack it.\<close>

theorem err_packet_decode_correct:
  assumes "crate_laws C" and "length q = 5" and "utf8_ok q" and "utf8_ok m"
  shows "(caps AND PROTOCOL_41 = PROTOCOL_41 \<longrightarrow>
      err_packet_decode C caps (0xff # to_le code @ 0x23 # q @ m) =
        Ok \<lparr>error_code = code, sql_state = Some q, error_message = m\<rparr>) \<and>
    (caps AND PROTOCOL_41 \<noteq> PROTOCOL_41 \<or> m = [] \<or> hd m \<noteq> 0x23 \<longrightarrow>
      err_packet_decode C caps (0xff # to_le code @ m) =
        Ok \<lparr>error_code = code, sql_state = None, error_message = m\<rparr>)"
  using crate_laws.err_packet_decode_state [OF assms(1) _ assms(2,3,4)]
    crate_laws.err_packet_decode_plain [OF assms(1) _ assms(4)] by blast

theorem err_packet_decode_correct_witness:
  "err_packet_decode std_crates PROTOCOL_41 (0xff # to_le (1049 :: u16) @ 0x23 # lit ''42000'' @ lit ''no db'') =
     Ok \<lparr>error_code = 1049, sql_state = Some (lit ''42000''), error_message = lit ''no db''\<rparr>"
  using err_packet_decode_correct [OF std.crate_laws_axioms, of "lit ''42000''" "lit ''no db''" PROTOCOL_41 1049]
  by (simp add: of_char_of)

end
