(* ===== verification/Mysql_Packets.thy ===== *)
theory Mysql_Packets
  imports Mysql_Io
begin

text \<open>
  The packets of the MySQL connection and command phases
  (\<open>rbdc-mysql/src/protocol\<close>: \<open>connect\<close>, \<open>statement\<close>, \<open>text\<close>, \<open>auth.rs\<close>) and the column and
  type descriptors of \<open>result_set.rs\<close>. An encoder takes the capabilities and the buffer and
  returns the buffer extended; a decoder consumes a whole packet.
\<close>

section \<open>Authentication plugins\<close>

datatype auth_plugin = MySqlNativePassword | CachingSha2Password | Sha256Password

primrec auth_plugin_name :: "auth_plugin \<Rightarrow> bytes" where
  "auth_plugin_name MySqlNativePassword = lit ''mysql_native_password''"
| "auth_plugin_name CachingSha2Password = lit ''caching_sha2_password''"
| "auth_plugin_name Sha256Password = lit ''sha256_password''"

definition auth_plugin_from_str :: "bytes \<Rightarrow> auth_plugin res" where
  "auth_plugin_from_str s =
     (if s = lit ''mysql_native_password'' then Ok MySqlNativePassword
      else if s = lit ''caching_sha2_password'' then Ok CachingSha2Password
      else if s = lit ''sha256_password'' then Ok Sha256Password
      else Err (Protocol ''unknown authentication plugin'' (map unat s)))"

section \<open>Connection phase\<close>

record handshake =
  protocol_version :: u8
  server_version :: bytes
  connection_id :: u32
  server_capabilities :: u64
  server_default_collation :: u8
  hs_status :: u16
  hs_auth_plugin :: "auth_plugin option"
  auth_plugin_data :: "bytes \<times> bytes"

text \<open>\<open>auth_plugin_data\<close> is the \<open>Chain\<close> of the two parts of the nonce.\<close>

definition handshake_decode :: "crates \<Rightarrow> bytes \<Rightarrow> handshake res" where
  "handshake_decode C buf =
     rbind (get_u8 C buf) (\<lambda>(protocol_version, buf).
     rbind (get_str_nul C buf) (\<lambda>(server_version, buf).
     rbind (get_u32_le C buf) (\<lambda>(connection_id, buf).
     rbind (get_bytes C buf 8) (\<lambda>(auth_plugin_data_1, buf).
     rbind (advance C buf 1) (\<lambda>buf.
     rbind (get_u16_le C buf) (\<lambda>(capabilities_1, buf).
     let capabilities = caps_truncate C CAPABILITIES_ALL (ucast capabilities_1) in
     rbind (get_u8 C buf) (\<lambda>(collation, buf).
     rbind (get_u16_le C buf) (\<lambda>(st, buf).
     rbind (get_u16_le C buf) (\<lambda>(capabilities_2, buf).
     let capabilities = capabilities OR
       caps_truncate C CAPABILITIES_ALL (ucast (push_bit 16 (ucast capabilities_2 :: u32))) in
     rbind (if caps_contains C capabilities PLUGIN_AUTH then get_u8 C buf
            else rbind (advance C buf 1) (\<lambda>buf. Ok (0, buf))) (\<lambda>(auth_plugin_data_len, buf).
     rbind (advance C buf 6) (\<lambda>buf.
     rbind (if caps_contains C capabilities MYSQL
            then rbind (advance C buf 4) (\<lambda>buf. Ok (capabilities, buf))
            else rbind (get_u32_le C buf) (\<lambda>(capabilities_3, buf).
              Ok (capabilities OR caps_truncate C CAPABILITIES_ALL (push_bit 32 (ucast capabilities_3)), buf)))
       (\<lambda>(capabilities, buf).
     rbind (if caps_contains C capabilities SECURE_CONNECTION then
              (let len = nat (max (int (unat auth_plugin_data_len) - 9) 12) in
               rbind (get_bytes C buf len) (\<lambda>(v, buf).
               rbind (advance C buf 1) (\<lambda>buf. Ok (v, buf))))
            else Ok ([], buf)) (\<lambda>(auth_plugin_data_2, buf).
     rbind (if caps_contains C capabilities PLUGIN_AUTH
            then rbind (get_str_nul C buf) (\<lambda>(n, buf). rbind (auth_plugin_from_str n) (\<lambda>p. Ok (Some p)))
            else Ok None) (\<lambda>auth_plugin.
     Ok \<lparr>protocol_version = protocol_version, server_version = server_version,
         connection_id = connection_id, server_capabilities = capabilities,
         server_default_collation = collation, hs_status = flags_truncate C STATUS_ALL st,
         hs_auth_plugin = auth_plugin,
         auth_plugin_data = (auth_plugin_data_1, auth_plugin_data_2)\<rparr>))))))))))))))"

record ssl_request =
  ssl_max_packet_size :: u32
  ssl_collation :: u8

definition ssl_request_encode :: "crates \<Rightarrow> ssl_request \<Rightarrow> u64 \<Rightarrow> bytes \<Rightarrow> bytes" where
  "ssl_request_encode C r capabilities buf =
     buf @ to_le (ucast capabilities :: u32) @ to_le (ssl_max_packet_size r) @ [ssl_collation r] @
     replicate 19 0 @
     (if caps_contains C capabilities MYSQL then replicate 4 0
      else to_le (ucast (drop_bit 32 capabilities) :: u32))"

record handshake_response =
  hr_database :: "bytes option"
  hr_max_packet_size :: u32
  hr_collation :: u8
  hr_username :: bytes
  hr_auth_plugin :: "auth_plugin option"
  hr_auth_response :: "bytes option"

definition handshake_response_encode :: "crates \<Rightarrow> handshake_response \<Rightarrow> u64 \<Rightarrow> bytes \<Rightarrow> bytes" where
  "handshake_response_encode C r capabilities buf =
     (let capabilities = (if hr_auth_plugin r = None then caps_remove C capabilities PLUGIN_AUTH
                          else capabilities);
          buf = ssl_request_encode C
            \<lparr>ssl_max_packet_size = hr_max_packet_size r, ssl_collation = hr_collation r\<rparr> capabilities buf;
          buf = put_str_nul buf (hr_username r);
          response = (case hr_auth_response r of None \<Rightarrow> [] | Some a \<Rightarrow> a);
          buf = (if caps_contains C capabilities PLUGIN_AUTH_LENENC_DATA then put_bytes_lenenc buf response
                 else if caps_contains C capabilities SECURE_CONNECTION
                 then buf @ [of_nat (length response)] @ response
                 else buf @ [0]);
          buf = (if caps_contains C capabilities CONNECT_WITH_DB
                 then (case hr_database r of Some d \<Rightarrow> put_str_nul buf d | None \<Rightarrow> buf @ [0])
                 else buf)
      in if caps_contains C capabilities PLUGIN_AUTH
         then (case hr_auth_plugin r of Some p \<Rightarrow> put_str_nul buf (auth_plugin_name p) | None \<Rightarrow> buf @ [0])
         else buf)"

record auth_switch_request =
  switch_plugin :: auth_plugin
  switch_data :: bytes

definition auth_switch_request_decode :: "crates \<Rightarrow> bytes \<Rightarrow> auth_switch_request res" where
  "auth_switch_request_decode C buf =
     rbind (get_u8 C buf) (\<lambda>(header, buf).
     if header \<noteq> 0xfe then Err (Protocol ''expected 0xfe (AUTH_SWITCH)'' [unat header])
     else
       rbind (get_str_nul C buf) (\<lambda>(n, buf).
       rbind (auth_plugin_from_str n) (\<lambda>plugin.
       if length buf \<noteq> 21 then Err (Protocol ''expected 21 bytes'' [length buf])
       else
         rbind (get_bytes C buf 20) (\<lambda>(data, buf).
         rbind (advance C buf 1) (\<lambda>buf.
         Ok \<lparr>switch_plugin = plugin, switch_data = data\<rparr>)))))"

definition auth_switch_response_encode :: "bytes \<Rightarrow> u64 \<Rightarrow> bytes \<Rightarrow> bytes" where
  "auth_switch_response_encode r capabilities buf = buf @ r"

section \<open>Commands\<close>

definition ping_encode :: "u64 \<Rightarrow> bytes \<Rightarrow> bytes" where
  "ping_encode capabilities buf = buf @ [0x0e]"

definition quit_encode :: "u64 \<Rightarrow> bytes \<Rightarrow> bytes" where
  "quit_encode capabilities buf = buf @ [0x01]"

definition query_encode :: "bytes \<Rightarrow> u64 \<Rightarrow> bytes \<Rightarrow> bytes" where
  "query_encode q capabilities buf = buf @ [0x03] @ q"

definition prepare_encode :: "bytes \<Rightarrow> u64 \<Rightarrow> bytes \<Rightarrow> bytes" where
  "prepare_encode query capabilities buf = buf @ [0x16] @ query"

definition stmt_close_encode :: "u32 \<Rightarrow> u64 \<Rightarrow> bytes \<Rightarrow> bytes" where
  "stmt_close_encode stmt capabilities buf = buf @ [0x19] @ to_le stmt"

record prepare_ok =
  po_statement_id :: u32
  po_columns :: u16
  po_params :: u16
  po_warnings :: u16

definition prepare_ok_decode :: "crates \<Rightarrow> bytes \<Rightarrow> prepare_ok res" where
  "prepare_ok_decode C buf =
     rbind (get_u8 C buf) (\<lambda>(st, buf).
     if st \<noteq> 0 then Err (Protocol ''expected 0x00 (COM_STMT_PREPARE_OK)'' [unat st])
     else
       rbind (get_u32_le C buf) (\<lambda>(statement_id, buf).
       rbind (get_u16_le C buf) (\<lambda>(columns, buf).
       rbind (get_u16_le C buf) (\<lambda>(params, buf).
       rbind (advance C buf 1) (\<lambda>buf.
       rbind (get_u16_le C buf) (\<lambda>(warnings, buf).
       Ok \<lparr>po_statement_id = statement_id, po_columns = columns, po_params = params,
           po_warnings = warnings\<rparr>))))))"

section \<open>Columns\<close>

datatype column_type =
    CT_Decimal | CT_Tiny | CT_Short | CT_Long | CT_Float | CT_Double | CT_Null | CT_Timestamp
  | CT_LongLong | CT_Int24 | CT_Date | CT_Time | CT_Datetime | CT_Year | CT_VarChar | CT_Bit
  | CT_Json | CT_NewDecimal | CT_Enum | CT_Set | CT_TinyBlob | CT_MediumBlob | CT_LongBlob
  | CT_Blob | CT_VarString | CT_String | CT_Geometry

text \<open>The discriminants of the \<open>repr(u8)\<close> enumeration.\<close>

primrec column_type_id :: "column_type \<Rightarrow> u8" where
  "column_type_id CT_Decimal = 0x00"
| "column_type_id CT_Tiny = 0x01"
| "column_type_id CT_Short = 0x02"
| "column_type_id CT_Long = 0x03"
| "column_type_id CT_Float = 0x04"
| "column_type_id CT_Double = 0x05"
| "column_type_id CT_Null = 0x06"
| "column_type_id CT_Timestamp = 0x07"
| "column_type_id CT_LongLong = 0x08"
| "column_type_id CT_Int24 = 0x09"
| "column_type_id CT_Date = 0x0a"
| "column_type_id CT_Time = 0x0b"
| "column_type_id CT_Datetime = 0x0c"
| "column_type_id CT_Year = 0x0d"
| "column_type_id CT_VarChar = 0x0f"
| "column_type_id CT_Bit = 0x10"
| "column_type_id CT_Json = 0xf5"
| "column_type_id CT_NewDecimal = 0xf6"
| "column_type_id CT_Enum = 0xf7"
| "column_type_id CT_Set = 0xf8"
| "column_type_id CT_TinyBlob = 0xf9"
| "column_type_id CT_MediumBlob = 0xfa"
| "column_type_id CT_LongBlob = 0xfb"
| "column_type_id CT_Blob = 0xfc"
| "column_type_id CT_VarString = 0xfd"
| "column_type_id CT_String = 0xfe"
| "column_type_id CT_Geometry = 0xff"

definition try_from_u16_table :: "(u8 \<times> column_type) list" where
  "try_from_u16_table =
    [(0x00, CT_Decimal), (0x01, CT_Tiny), (0x02, CT_Short), (0x03, CT_Long), (0x04, CT_Float),
     (0x05, CT_Double), (0x06, CT_Null), (0x07, CT_Timestamp), (0x08, CT_LongLong),
     (0x09, CT_Int24), (0x0a, CT_Date), (0x0b, CT_Time), (0x0c, CT_Datetime), (0x0d, CT_Year),
     (0x0f, CT_VarChar), (0x10, CT_Bit), (0xf5, CT_Json), (0xf6, CT_NewDecimal),
     (0xf7, CT_Enum), (0xf8, CT_Set), (0xf9, CT_TinyBlob), (0xfa, CT_MediumBlob),
     (0xfb, CT_LongBlob), (0xfc, CT_Blob), (0xfd, CT_VarString), (0xfe, CT_String),
     (0xff, CT_Geometry)]"

definition try_from_u16 :: "u8 \<Rightarrow> column_type res" where
  "try_from_u16 i =
     (case map_of try_from_u16_table i of
        Some t \<Rightarrow> Ok t
      | None \<Rightarrow> Err (Protocol ''unknown column type'' [unat i]))"

definition COLUMN_FLAGS_ALL :: u16 where
  "COLUMN_FLAGS_ALL = 1 OR 2 OR 4 OR 8 OR 16 OR 32 OR 64 OR 128 OR 256 OR 512 OR 1024 OR 2048 OR
     4096 OR 8192 OR 32768"

record column_definition =
  cd_catalog :: bytes
  cd_schema :: bytes
  cd_table_alias :: bytes
  cd_table :: bytes
  cd_alias :: bytes
  cd_name :: bytes
  cd_char_set :: u16
  cd_max_size :: u32
  cd_type :: column_type
  cd_flags :: u16
  cd_decimals :: u8

definition column_definition_name :: "column_definition \<Rightarrow> bytes res" where
  "column_definition_name d = protocol_of (from_utf8 (cd_name d))"

definition column_definition_alias :: "column_definition \<Rightarrow> bytes res" where
  "column_definition_alias d = protocol_of (from_utf8 (cd_alias d))"

definition column_definition_decode :: "crates \<Rightarrow> bytes \<Rightarrow> column_definition res" where
  "column_definition_decode C buf =
     rbind (get_bytes_lenenc C buf) (\<lambda>(catalog, buf).
     rbind (get_bytes_lenenc C buf) (\<lambda>(schema, buf).
     rbind (get_bytes_lenenc C buf) (\<lambda>(table_alias, buf).
     rbind (get_bytes_lenenc C buf) (\<lambda>(tbl, buf).
     rbind (get_bytes_lenenc C buf) (\<lambda>(alias, buf).
     rbind (get_bytes_lenenc C buf) (\<lambda>(name, buf).
     rbind (get_uint_lenenc C buf) (\<lambda>(next_len, buf).
     rbind (get_u16_le C buf) (\<lambda>(char_set, buf).
     rbind (get_u32_le C buf) (\<lambda>(max_size, buf).
     rbind (get_u8 C buf) (\<lambda>(type_id, buf).
     rbind (get_u16_le C buf) (\<lambda>(flags, buf).
     rbind (get_u8 C buf) (\<lambda>(decimals, buf).
     rbind (try_from_u16 type_id) (\<lambda>ty.
     Ok \<lparr>cd_catalog = catalog, cd_schema = schema, cd_table_alias = table_alias, cd_table = tbl,
         cd_alias = alias, cd_name = name, cd_char_set = char_set, cd_max_size = max_size,
         cd_type = ty, cd_flags = flags_truncate C COLUMN_FLAGS_ALL flags,
         cd_decimals = decimals\<rparr>)))))))))))))"

record type_info =
  ti_type :: column_type
  ti_char_set :: u16

definition type_info_is_null :: "type_info \<Rightarrow> bool" where
  "type_info_is_null t = (ti_type t = CT_Null)"

definition type_info_binary :: "column_type \<Rightarrow> type_info" where
  "type_info_binary ty = \<lparr>ti_type = ty, ti_char_set = 63\<rparr>"

definition type_info_null :: type_info where
  "type_info_null = \<lparr>ti_type = CT_Null, ti_char_set = 63\<rparr>"

definition type_info_enum :: type_info where
  "type_info_enum = \<lparr>ti_type = CT_Enum, ti_char_set = 63\<rparr>"

definition type_feature_gate :: "type_info \<Rightarrow> bytes option" where
  "type_feature_gate t =
     (case ti_type t of
        CT_Date \<Rightarrow> Some (lit ''time'') | CT_Time \<Rightarrow> Some (lit ''time'')
      | CT_Timestamp \<Rightarrow> Some (lit ''time'') | CT_Datetime \<Rightarrow> Some (lit ''time'')
      | CT_Json \<Rightarrow> Some (lit ''json'')
      | CT_NewDecimal \<Rightarrow> Some (lit ''bigdecimal'')
      | _ \<Rightarrow> None)"

definition type_info_from_column :: "column_definition \<Rightarrow> type_info" where
  "type_info_from_column c = \<lparr>ti_type = cd_type c, ti_char_set = cd_char_set c\<rparr>"

definition type_info_from_type :: "column_type \<Rightarrow> type_info" where
  "type_info_from_type ty = \<lparr>ti_type = ty, ti_char_set = 63\<rparr>"

record mysql_column =
  mc_ordinal :: nat
  mc_name :: bytes
  mc_type_info :: type_info

section \<open>Lemmas\<close>

lemma try_from_u16_id [simp]: "try_from_u16 (column_type_id t) = Ok t"
  by (cases t) (simp_all add: try_from_u16_def try_from_u16_table_def)

lemma try_from_u16_Ok: "try_from_u16 i = Ok t \<Longrightarrow> i = column_type_id t"
  by (auto simp: try_from_u16_def try_from_u16_table_def split: if_splits)

lemma auth_plugin_from_str_name [simp]: "auth_plugin_from_str (auth_plugin_name p) = Ok p"
  by (cases p) (simp_all add: auth_plugin_from_str_def of_char_of)

lemma auth_plugin_name_text [simp]: "utf8_ok (auth_plugin_name p)" "0 \<notin> set (auth_plugin_name p)"
  by (cases p; simp add: of_char_of)+

subsection \<open>Wire layouts\<close>

text \<open>The initial handshake as the protocol documentation lays it out.\<close>

definition handshake_wire :: "handshake \<Rightarrow> u8 \<Rightarrow> bytes \<Rightarrow> bytes" where
  "handshake_wire h data_len reserved =
     [protocol_version h] @ put_str_nul [] (server_version h) @ to_le (connection_id h) @
     fst (auth_plugin_data h) @ [0] @ to_le (ucast (server_capabilities h) :: u16) @
     [server_default_collation h] @ to_le (hs_status h) @
     to_le (ucast (drop_bit 16 (server_capabilities h)) :: u16) @ [data_len] @ reserved @
     (if server_capabilities h AND SECURE_CONNECTION = SECURE_CONNECTION
      then snd (auth_plugin_data h) @ [0] else []) @
     (case hs_auth_plugin h of None \<Rightarrow> [] | Some p \<Rightarrow> put_str_nul [] (auth_plugin_name p))"

text \<open>
  What a handshake must satisfy to fit the layout: declared flags only, the flags agree with
  the fields, the nonce parts have their lengths.
\<close>

definition handshake_ok :: "handshake \<Rightarrow> u8 \<Rightarrow> bool" where
  "handshake_ok h data_len =
     (utf8_ok (server_version h) \<and> 0 \<notin> set (server_version h) \<and>
      length (fst (auth_plugin_data h)) = 8 \<and>
      server_capabilities h AND CAPABILITIES_ALL = server_capabilities h \<and>
      hs_status h AND STATUS_ALL = hs_status h \<and>
      (server_capabilities h AND PLUGIN_AUTH = PLUGIN_AUTH \<longleftrightarrow> hs_auth_plugin h \<noteq> None) \<and>
      (if server_capabilities h AND SECURE_CONNECTION = SECURE_CONNECTION
       then length (snd (auth_plugin_data h)) =
         (if server_capabilities h AND PLUGIN_AUTH = PLUGIN_AUTH then max (unat data_len - 9) 12 else 12)
       else snd (auth_plugin_data h) = []))"

lemma CAPABILITIES_ALL_value: "CAPABILITIES_ALL = 0xC7FFAFFF"
  by (simp add: capability_defs)

lemma bit_CAPABILITIES_ALL: "bit CAPABILITIES_ALL n \<Longrightarrow> n < 32"
proof -
  have "take_bit 32 CAPABILITIES_ALL = CAPABILITIES_ALL" by (simp add: CAPABILITIES_ALL_value)
  then show "bit CAPABILITIES_ALL n \<Longrightarrow> n < 32" by (metis bit_take_bit_iff)
qed

lemma nat_max_diff: "nat (max (int n - 9) 12) = max (n - 9) 12"
  by arith

lemma caps_split:
  fixes c :: u64
  assumes "c AND CAPABILITIES_ALL = c"
  shows "(ucast (ucast c :: u16) AND CAPABILITIES_ALL) OR
    (ucast (push_bit 16 (ucast (ucast (drop_bit 16 c) :: u16) :: u32)) AND CAPABILITIES_ALL) = c"
    (is "(?l AND _) OR (?h AND _) = _")
proof -
  have c: "bit c n \<Longrightarrow> n < 32" for n
    using assms bit_CAPABILITIES_ALL by (metis bit_and_iff)
  have "?l OR ?h = c"
    by (rule bit_word_eqI) (auto simp: bit_simps dest: c)
  then have "(?l OR ?h) AND CAPABILITIES_ALL = c" using assms by simp
  then show ?thesis by (simp add: bit.conj_disj_distrib2)
qed

context crate_laws
begin

lemma handshake_decode_wire:
  assumes ok: "handshake_ok h data_len" and res: "length reserved = 10"
    and ext: "server_capabilities h AND MYSQL = MYSQL \<or> drop 6 reserved = [0, 0, 0, 0]"
  shows "handshake_decode C (handshake_wire h data_len reserved) = Ok h"
proof -
  define r1 r2 where "r1 = take 6 reserved" and "r2 = drop 6 reserved"
  have r: "reserved = r1 @ r2" "length r1 = 6" "length r2 = 4"
    using res by (simp_all add: r1_def r2_def)
  obtain v sv cid c col st pl d1 d2 where h: "h = \<lparr>protocol_version = v, server_version = sv,
      connection_id = cid, server_capabilities = c, server_default_collation = col, hs_status = st,
      hs_auth_plugin = pl, auth_plugin_data = (d1, d2)\<rparr>"
    by (cases h) (metis prod.collapse)
  have split: "(ucast (ucast c :: u16) AND CAPABILITIES_ALL) OR
    (ucast (push_bit 16 (ucast (ucast (drop_bit 16 c) :: u16) :: u32)) AND CAPABILITIES_ALL) = c"
    using ok by (intro caps_split) (simp add: h handshake_ok_def)
  have len: "nat (max (uint data_len - 9) 12) = max (unat data_len - 9) 12"
    using nat_max_diff [of "unat data_len"] by simp
  have mysql: "advance C (r2 @ X) 4 = Ok X" "advance C r2 4 = Ok []" for X
    using r(3) by (simp_all add: advance_app advance_law)
  have maria: "get_u32_le C (r2 @ X) = Ok (0, X)" "get_u32_le C r2 = Ok (0, [])"
    if "c AND MYSQL \<noteq> MYSQL" for X
  proof -
    from ext that have "r2 = to_le (0 :: u32)" by (simp add: h r2_def to_le_def)
    then show "get_u32_le C (r2 @ X) = Ok (0, X)" "get_u32_le C r2 = Ok (0, [])"
      by (simp_all only: get_u32_le_app get_u32_le_last)
  qed
  have "length d1 = 8" "utf8_ok sv" "0 \<notin> set sv" "st AND STATUS_ALL = st"
    "(c AND PLUGIN_AUTH = PLUGIN_AUTH) \<longleftrightarrow> pl \<noteq> None"
    using ok by (auto simp: h handshake_ok_def)
  note facts = this advance_app [OF r(2)] caps_contains_law caps_truncate_law flags_truncate_law
    split mysql len
  show ?thesis
    using ok maria
    by (cases "c AND SECURE_CONNECTION = SECURE_CONNECTION"; cases pl; cases "c AND MYSQL = MYSQL")
      (simp_all add: facts h handshake_wire_def handshake_decode_def put_str_nul_def r(1)
        handshake_ok_def)
qed

lemma column_definition_decode_wire:
  assumes "cd_flags d AND COLUMN_FLAGS_ALL = cd_flags d"
    and "length (cd_catalog d) < 2 ^ 64" "length (cd_schema d) < 2 ^ 64"
      "length (cd_table_alias d) < 2 ^ 64" "length (cd_table d) < 2 ^ 64"
      "length (cd_alias d) < 2 ^ 64" "length (cd_name d) < 2 ^ 64"
  shows "column_definition_decode C
    (put_bytes_lenenc [] (cd_catalog d) @ put_bytes_lenenc [] (cd_schema d) @
     put_bytes_lenenc [] (cd_table_alias d) @ put_bytes_lenenc [] (cd_table d) @
     put_bytes_lenenc [] (cd_alias d) @ put_bytes_lenenc [] (cd_name d) @
     put_uint_lenenc [] next_len @ to_le (cd_char_set d) @ to_le (cd_max_size d) @
     column_type_id (cd_type d) # to_le (cd_flags d) @ cd_decimals d # rest) = Ok d"
  using assms by (simp add: column_definition_decode_def flags_truncate_law)

lemma prepare_ok_decode_wire:
  "prepare_ok_decode C (0 # to_le (po_statement_id p) @ to_le (po_columns p) @ to_le (po_params p) @
     r # to_le (po_warnings p) @ rest) = Ok p"
  by (simp add: prepare_ok_decode_def)

lemma auth_switch_request_decode_wire:
  assumes "length (switch_data q) = 20"
  shows "auth_switch_request_decode C (0xfe # put_str_nul [] (auth_plugin_name (switch_plugin q)) @
    switch_data q @ [0]) = Ok q"
  using assms by (simp add: auth_switch_request_decode_def put_str_nul_def)

end

subsection \<open>The server's reading of the response\<close>

text \<open>
  How a server reads the handshake response, following the flags in the packet itself: the
  fields the encoder was given, or nothing where the packet does not carry them.
\<close>

definition response_read :: "crates \<Rightarrow> bytes \<Rightarrow> (u32 \<times> u32 \<times> u8 \<times> bytes \<times> bytes \<times> bytes option \<times> bytes option) res" where
  "response_read C p =
     rbind (get_u32_le C p) (\<lambda>(caps, p).
     rbind (get_u32_le C p) (\<lambda>(max_size, p).
     rbind (get_u8 C p) (\<lambda>(collation, p).
     rbind (advance C p 23) (\<lambda>p.
     rbind (get_bytes_nul C p) (\<lambda>(user, p).
     rbind (if caps AND ucast PLUGIN_AUTH_LENENC_DATA = ucast PLUGIN_AUTH_LENENC_DATA then get_bytes_lenenc C p
            else if caps AND ucast SECURE_CONNECTION = ucast SECURE_CONNECTION then
              rbind (get_u8 C p) (\<lambda>(n, p). get_bytes C p (unat n))
            else get_bytes_nul C p) (\<lambda>(response, p).
     rbind (if caps AND ucast CONNECT_WITH_DB = ucast CONNECT_WITH_DB
            then rbind (get_bytes_nul C p) (\<lambda>(d, p). Ok (Some d, p)) else Ok (None, p)) (\<lambda>(database, p).
     rbind (if caps AND ucast PLUGIN_AUTH = ucast PLUGIN_AUTH
            then rbind (get_bytes_nul C p) (\<lambda>(n, p). Ok (Some n, p)) else Ok (None, p)) (\<lambda>(plugin, p).
     Ok (caps, max_size, collation, user, response, database, plugin)))))))))"

lemma ucast_flag_contains:
  fixes c f :: u64
  assumes "f AND CAPABILITIES_ALL = f"
  shows "((ucast c :: u32) AND ucast f = ucast f) \<longleftrightarrow> c AND f = f"
proof -
  have f: "bit f n \<Longrightarrow> n < 32" for n
    using assms bit_CAPABILITIES_ALL by (metis bit_and_iff)
  have "((ucast c :: u32) AND ucast f = ucast f) \<longleftrightarrow> (\<forall>n < 32. bit f n \<longrightarrow> bit c n)"
    by (auto simp: bit_eq_iff bit_simps)
  also have "\<dots> \<longleftrightarrow> (\<forall>n. bit f n \<longrightarrow> bit c n)" using f by blast
  also have "\<dots> \<longleftrightarrow> c AND f = f"
  proof
    assume "\<forall>n. bit f n \<longrightarrow> bit c n"
    then show "c AND f = f" by (intro bit_word_eqI) (auto simp: bit_and_iff)
  next
    assume "c AND f = f"
    then show "\<forall>n. bit f n \<longrightarrow> bit c n" by (metis bit_and_iff)
  qed
  finally show ?thesis .
qed

lemma declared_flags:
  "PLUGIN_AUTH_LENENC_DATA AND CAPABILITIES_ALL = PLUGIN_AUTH_LENENC_DATA"
  "SECURE_CONNECTION AND CAPABILITIES_ALL = SECURE_CONNECTION"
  "CONNECT_WITH_DB AND CAPABILITIES_ALL = CONNECT_WITH_DB"
  "PLUGIN_AUTH AND CAPABILITIES_ALL = PLUGIN_AUTH"
  by (simp_all add: CAPABILITIES_ALL_value capability_defs)

lemmas flag_views = declared_flags [THEN ucast_flag_contains]

definition response_caps :: "handshake_response \<Rightarrow> u64 \<Rightarrow> u64" where
  "response_caps r caps = (if hr_auth_plugin r = None then caps AND NOT PLUGIN_AUTH else caps)"

lemma response_caps_flags:
  "response_caps r caps AND PLUGIN_AUTH_LENENC_DATA = caps AND PLUGIN_AUTH_LENENC_DATA"
  "response_caps r caps AND SECURE_CONNECTION = caps AND SECURE_CONNECTION"
  "response_caps r caps AND CONNECT_WITH_DB = caps AND CONNECT_WITH_DB"
  "response_caps r caps AND PLUGIN_AUTH = PLUGIN_AUTH \<longleftrightarrow> caps AND PLUGIN_AUTH = PLUGIN_AUTH \<and> hr_auth_plugin r \<noteq> None"
  by (simp_all add: response_caps_def and.assoc capability_defs)

lemma if_app: "(if P then b @ x else b @ y) = b @ (if P then x else y)"
  "(if P then b @ x else b) = b @ (if P then x else [])"
  by simp_all

definition response_data :: "handshake_response \<Rightarrow> bytes" where
  "response_data r = (case hr_auth_response r of None \<Rightarrow> [] | Some a \<Rightarrow> a)"

context crate_laws
begin

lemma handshake_response_encode_parts:
  "handshake_response_encode C r caps [] =
    to_le (ucast (response_caps r caps) :: u32) @ to_le (hr_max_packet_size r) @ hr_collation r #
    (replicate 19 0 @ (if response_caps r caps AND MYSQL = MYSQL then replicate 4 0
       else to_le (ucast (drop_bit 32 (response_caps r caps)) :: u32))) @
    hr_username r @ 0 #
    (if caps AND PLUGIN_AUTH_LENENC_DATA = PLUGIN_AUTH_LENENC_DATA then put_bytes_lenenc [] (response_data r)
     else if caps AND SECURE_CONNECTION = SECURE_CONNECTION
     then of_nat (length (response_data r)) # response_data r else [0]) @
    (if caps AND CONNECT_WITH_DB = CONNECT_WITH_DB
     then (case hr_database r of None \<Rightarrow> [] | Some d \<Rightarrow> d) @ [0] else []) @
    (if caps AND PLUGIN_AUTH = PLUGIN_AUTH
     then (case hr_auth_plugin r of None \<Rightarrow> [] | Some p \<Rightarrow> auth_plugin_name p @ [0]) else [])"
proof -
  have plugin: "(if caps AND PLUGIN_AUTH = PLUGIN_AUTH \<and> hr_auth_plugin r \<noteq> None
      then case hr_auth_plugin r of None \<Rightarrow> b @ [0] | Some p \<Rightarrow> b @ auth_plugin_name p @ [0] else b) =
    b @ (if caps AND PLUGIN_AUTH = PLUGIN_AUTH
     then (case hr_auth_plugin r of None \<Rightarrow> [] | Some p \<Rightarrow> auth_plugin_name p @ [0]) else [])" for b
    by (cases "hr_auth_plugin r") simp_all
  have db: "(case hr_database r of None \<Rightarrow> b @ [0] | Some d \<Rightarrow> b @ d @ [0]) =
      b @ (case hr_database r of None \<Rightarrow> [] | Some d \<Rightarrow> d) @ [0]" for b
    by (cases "hr_database r") simp_all
  show ?thesis
    unfolding handshake_response_encode_def Let_def caps_contains_law caps_remove_law
      response_caps_def [symmetric] response_data_def [symmetric] response_caps_flags put_str_nul_def
      ssl_request_encode_def put_bytes_lenenc_app [of "b @ c" for b c] if_app db plugin
    by (cases "caps AND CONNECT_WITH_DB = CONNECT_WITH_DB")
      (simp_all only: if_True if_False append_assoc append_Cons append_Nil ssl_request.select_convs refl not_False_eq_True)
qed

lemma response_read_encode:
  assumes "0 \<notin> set (hr_username r)" and "\<And>d. hr_database r = Some d \<Longrightarrow> 0 \<notin> set d"
    and "length (response_data r) < 256"
  shows "response_read C (handshake_response_encode C r caps []) =
    Ok (ucast (response_caps r caps), hr_max_packet_size r, hr_collation r, hr_username r,
      (if caps AND PLUGIN_AUTH_LENENC_DATA = PLUGIN_AUTH_LENENC_DATA \<or> caps AND SECURE_CONNECTION = SECURE_CONNECTION
       then response_data r else []),
      (if caps AND CONNECT_WITH_DB = CONNECT_WITH_DB
       then Some (case hr_database r of None \<Rightarrow> [] | Some d \<Rightarrow> d) else None),
      (if caps AND PLUGIN_AUTH = PLUGIN_AUTH then map_option auth_plugin_name (hr_auth_plugin r) else None))"
proof -
  let ?data = "response_data r"
  have n: "unat (of_nat (length ?data) :: u8) = length ?data"
    using assms(3) by (simp add: unat_of_nat)
  have l: "length ?data < 2 ^ 64" using assms(3) by simp
  have skip: "advance C ((replicate 19 0 @ (if P then replicate 4 0 else to_le (w :: u32))) @ X) 23 = Ok X" for P w X
    by (rule advance_app) simp
  have data: "(if caps AND PLUGIN_AUTH_LENENC_DATA = PLUGIN_AUTH_LENENC_DATA
      then get_bytes_lenenc C (R @ X)
      else if caps AND SECURE_CONNECTION = SECURE_CONNECTION
      then rbind (get_u8 C (R @ X)) (\<lambda>(n, p). get_bytes C p (unat n)) else get_bytes_nul C (R @ X)) =
    Ok (if caps AND PLUGIN_AUTH_LENENC_DATA = PLUGIN_AUTH_LENENC_DATA \<or>
      caps AND SECURE_CONNECTION = SECURE_CONNECTION then ?data else [], X)"
    if "R = (if caps AND PLUGIN_AUTH_LENENC_DATA = PLUGIN_AUTH_LENENC_DATA then put_bytes_lenenc [] ?data
     else if caps AND SECURE_CONNECTION = SECURE_CONNECTION then of_nat (length ?data) # ?data else [0])" for R X
    using that n l get_bytes_nul_app [of "[]" X] by simp
  have db: "0 \<notin> set (case hr_database r of None \<Rightarrow> [] | Some d \<Rightarrow> d)"
    using assms(2) by (cases "hr_database r") auto
  show ?thesis
    unfolding handshake_response_encode_parts response_read_def
    by (simp only: get_u32_le_app get_u8_Cons skip rbind.simps prod.case get_bytes_nul_app [OF assms(1)]
        flag_views response_caps_flags data [OF refl])
      (cases "hr_auth_plugin r"; simp add: get_bytes_nul_app [OF db])
qed

end

section \<open>Properties\<close>

text \<open>The initial handshake of a server is decoded to exactly the fields it carries:
  version string, connection id, both halves of the capability flags, both parts of the
  authentication nonce (the second at least 12 bytes, or the announced length less 9) and the
  plugin, for every combination of the negotiated flags.\<close>

theorem handshake_decode_correct:
  assumes "crate_laws C" and "handshake_ok h data_len" and "length reserved = 10"
    and "server_capabilities h AND MYSQL = MYSQL \<or> drop 6 reserved = [0, 0, 0, 0]"
  shows "handshake_decode C (handshake_wire h data_len reserved) = Ok h"
  by (rule crate_laws.handshake_decode_wire [OF assms])

definition sample_handshake :: handshake where
  "sample_handshake = \<lparr>protocol_version = 10, server_version = lit ''8.0'', connection_id = 25,
     server_capabilities = 0x88201, server_default_collation = 255, hs_status = 2,
     hs_auth_plugin = Some CachingSha2Password,
     auth_plugin_data = ([1, 2, 3, 4, 5, 6, 7, 8], [1, 2, 3, 4, 5, 6, 7, 8, 9, 10, 11, 12])\<rparr>"

theorem handshake_decode_correct_witness:
  "handshake_ok sample_handshake 21 \<and>
   handshake_decode std_crates (handshake_wire sample_handshake 21 (replicate 10 0)) = Ok sample_handshake"
proof -
  have ok: "handshake_ok sample_handshake 21"
    by (simp add: handshake_ok_def sample_handshake_def capability_defs status_defs of_char_of max_def)
  have "server_capabilities sample_handshake AND MYSQL = MYSQL"
    by (simp add: sample_handshake_def MYSQL_def)
  with handshake_decode_correct [OF std.crate_laws_axioms ok, of "replicate 10 0"] ok show ?thesis
    by simp
qed

text \<open>What a server reads from the handshake response, following the flags inside the
  packet, is what the client put in: user name, authentication data and database where the
  flags announce them, and the plugin name exactly when a plugin is set (the \<open>PLUGIN_AUTH\<close>
  flag is withdrawn otherwise), so client and server never disagree on the layout.\<close>

theorem handshake_response_understood:
  assumes "crate_laws C" and "0 \<notin> set (hr_username r)"
    and "\<And>d. hr_database r = Some d \<Longrightarrow> 0 \<notin> set d" and "length (response_data r) < 256"
  shows "response_read C (handshake_response_encode C r caps []) =
    Ok (ucast (response_caps r caps), hr_max_packet_size r, hr_collation r, hr_username r,
      (if caps AND PLUGIN_AUTH_LENENC_DATA = PLUGIN_AUTH_LENENC_DATA \<or> caps AND SECURE_CONNECTION = SECURE_CONNECTION
       then response_data r else []),
      (if caps AND CONNECT_WITH_DB = CONNECT_WITH_DB
       then Some (case hr_database r of None \<Rightarrow> [] | Some d \<Rightarrow> d) else None),
      (if caps AND PLUGIN_AUTH = PLUGIN_AUTH then map_option auth_plugin_name (hr_auth_plugin r) else None))"
  by (rule crate_laws.response_read_encode [OF assms])

theorem handshake_response_understood_witness:
  "\<exists>caps. response_read std_crates (handshake_response_encode std_crates
      \<lparr>hr_database = Some [100], hr_max_packet_size = 1024, hr_collation = 224, hr_username = [117],
       hr_auth_plugin = None, hr_auth_response = Some [7, 0, 9]\<rparr> 0x288208 []) =
     Ok (caps, 1024, 224, [117], [7, 0, 9], Some [100], None) \<and> caps = 0x208208"
  using handshake_response_understood [OF std.crate_laws_axioms, where caps = "0x288208" and r =
    "\<lparr>hr_database = Some [100], hr_max_packet_size = 1024, hr_collation = 224, hr_username = [117],
      hr_auth_plugin = None, hr_auth_response = Some [7, 0, 9]\<rparr>"]
  by (simp add: response_data_def response_caps_def capability_defs)

text \<open>A column definition, a prepared-statement response and an authentication switch
  request decode to the fields of their wire layouts; type codes and plugin names are decoded
  to the one value that is encoded by them and anything else is an error.\<close>

theorem packet_fields_decode:
  assumes "crate_laws C" and "cd_flags d AND COLUMN_FLAGS_ALL = cd_flags d"
    and "list_all (\<lambda>f. length (f d) < 2 ^ 64) [cd_catalog, cd_schema, cd_table_alias, cd_table, cd_alias, cd_name]"
    and "length (switch_data q) = 20"
  shows "column_definition_decode C
    (concat (map (\<lambda>f. put_bytes_lenenc [] (f d)) [cd_catalog, cd_schema, cd_table_alias, cd_table, cd_alias, cd_name]) @
     put_uint_lenenc [] 0x0c @ to_le (cd_char_set d) @ to_le (cd_max_size d) @
     column_type_id (cd_type d) # to_le (cd_flags d) @ cd_decimals d # rest) = Ok d \<and>
    prepare_ok_decode C (0 # to_le (po_statement_id p) @ to_le (po_columns p) @ to_le (po_params p) @
      0 # to_le (po_warnings p) @ rest) = Ok p \<and>
    auth_switch_request_decode C (0xfe # put_str_nul [] (auth_plugin_name (switch_plugin q)) @
      switch_data q @ [0]) = Ok q \<and>
    (try_from_u16 i = Ok t \<longleftrightarrow> i = column_type_id t)"
  using crate_laws.column_definition_decode_wire [OF assms(1,2)] assms(3)
    crate_laws.prepare_ok_decode_wire [OF assms(1)]
    crate_laws.auth_switch_request_decode_wire [OF assms(1,4)] try_from_u16_Ok [of i t]
  by auto

theorem packet_fields_decode_witness:
  "prepare_ok_decode std_crates [0, 1, 0, 0, 0, 2, 0, 3, 0, 0, 4, 0] =
     Ok \<lparr>po_statement_id = 1, po_columns = 2, po_params = 3, po_warnings = 4\<rparr>"
  using packet_fields_decode [OF std.crate_laws_axioms, of
    "\<lparr>cd_catalog = [], cd_schema = [], cd_table_alias = [], cd_table = [], cd_alias = [], cd_name = [],
      cd_char_set = 63, cd_max_size = 0, cd_type = CT_Long, cd_flags = 1, cd_decimals = 0\<rparr>"
    "\<lparr>switch_plugin = Sha256Password, switch_data = replicate 20 1\<rparr>" "[]"
    "\<lparr>po_statement_id = 1, po_columns = 2, po_params = 3, po_warnings = 4\<rparr>" 3 CT_Long]
  by (simp add: COLUMN_FLAGS_ALL_def to_le_def)

end
