(* ===== verification/Stored_Row.thy ===== *)
theory Stored_Row
  imports Rbdc_Prelude
begin

text \<open>
  Rows as the drivers store them: index ranges into a packet and the values cut out of it, from which a column can be
  read or taken once.  MySQL (\<open>rbdc-mysql/src/protocol/row.rs\<close>) and PostgreSQL
  (\<open>rbdc-pg/src/message/data_row.rs\<close>) have the same code for it.
\<close>

section \<open>Stored rows\<close>

record row =
  row_storage :: "bytes option list"
  row_values :: "(nat \<times> nat) option list"

fun row_from_loop :: "row \<Rightarrow> (nat \<times> nat) option list \<Rightarrow> bytes \<Rightarrow> row res" where
  "row_from_loop r [] data = Ok r"
| "row_from_loop r (Some (a, b) # ranges) data =
     (if a \<le> b \<and> b \<le> length data then
        row_from_loop \<lparr>row_storage = row_storage r @ [Some (take (b - a) (drop a data))],
                       row_values = row_values r @ [Some (a, b)]\<rparr> ranges data
      else Panic)"
| "row_from_loop r (None # ranges) data =
     row_from_loop \<lparr>row_storage = row_storage r @ [None], row_values = row_values r @ [None]\<rparr> ranges data"

definition row_from :: "(nat \<times> nat) option list \<Rightarrow> bytes \<Rightarrow> row res" where
  "row_from ranges data = row_from_loop \<lparr>row_storage = [], row_values = []\<rparr> ranges data"

fun row_get_loop :: "(nat \<times> nat) option list \<Rightarrow> bytes option list \<Rightarrow> nat \<Rightarrow> nat \<Rightarrow> bytes option res" where
  "row_get_loop [] storage i idx = Ok None"
| "row_get_loop (x # xs) storage i idx =
     (if i = idx then
        (case x of None \<Rightarrow> Ok None | Some _ \<Rightarrow> index storage idx)
      else row_get_loop xs storage i (idx + 1))"

definition row_get :: "row \<Rightarrow> nat \<Rightarrow> bytes option res" where
  "row_get r i = row_get_loop (row_values r) (row_storage r) i 0"

fun row_take_loop :: "(nat \<times> nat) option list \<Rightarrow> row \<Rightarrow> nat \<Rightarrow> nat \<Rightarrow> (bytes option \<times> row) res" where
  "row_take_loop [] r i idx = Ok (None, r)"
| "row_take_loop (x # xs) r i idx =
     (if i = idx then
        (case x of
           None \<Rightarrow> Ok (None, r)
         | Some _ \<Rightarrow> rbind (index (row_storage r) idx) (\<lambda>v.
             Ok (v, r\<lparr>row_storage := (row_storage r)[idx := None]\<rparr>)))
      else row_take_loop xs r i (idx + 1))"

definition row_take :: "row \<Rightarrow> nat \<Rightarrow> (bytes option \<times> row) res" where
  "row_take r i = row_take_loop (row_values r) r i 0"

section \<open>Lemmas\<close>

text \<open>A range list cuts the values \<open>vs\<close> out of a packet.\<close>

definition cuts :: "bytes \<Rightarrow> (nat \<times> nat) option \<Rightarrow> bytes option \<Rightarrow> bool" where
  "cuts data rg v =
     (case rg of
        None \<Rightarrow> v = None
      | Some (a, b) \<Rightarrow> a \<le> b \<and> b \<le> length data \<and> v = Some (take (b - a) (drop a data)))"

lemma cuts_simps [simp]:
  "cuts data None v \<longleftrightarrow> v = None"
  "cuts data (Some (a, b)) v \<longleftrightarrow> a \<le> b \<and> b \<le> length data \<and> v = Some (take (b - a) (drop a data))"
  by (simp_all add: cuts_def)

lemma cuts_middle:
  assumes "data = pre @ x @ post"
  shows "cuts data (Some (length data - length (x @ post), length data - length (x @ post) + length x)) (Some x)"
  using assms by simp

lemma row_from_loop_cuts:
  "list_all2 (cuts data) rs vs \<Longrightarrow>
    row_from_loop r rs data =
      Ok \<lparr>row_storage = row_storage r @ vs, row_values = row_values r @ rs\<rparr>"
proof (induction arbitrary: r rule: list_all2_induct)
  case Nil
  show ?case by simp
next
  case (Cons rg rs v vs)
  then show ?case by (cases rg) (auto simp: list_all2_Cons1)
qed

lemma row_from_cuts:
  "list_all2 (cuts data) rs vs \<Longrightarrow> row_from rs data = Ok \<lparr>row_storage = vs, row_values = rs\<rparr>"
  by (simp add: row_from_def row_from_loop_cuts)

text \<open>A decoded row: a value for every column, present where its range is.\<close>

definition row_ok :: "row \<Rightarrow> bool" where
  "row_ok r = list_all2 (\<lambda>rg v. rg = None \<longrightarrow> v = None) (row_values r) (row_storage r)"

lemma cuts_row_ok: "list_all2 (cuts data) rs vs \<Longrightarrow> row_ok \<lparr>row_storage = vs, row_values = rs\<rparr>"
  unfolding row_ok_def by (auto elim!: list_all2_mono)

lemma row_get_loop_nth:
  "list_all2 (\<lambda>rg v. rg = None \<longrightarrow> v = None) rs (drop k st) \<Longrightarrow> k \<le> i \<Longrightarrow>
    row_get_loop rs st i k = Ok (if i < length st then st ! i else None)"
proof (induction rs arbitrary: k)
  case Nil
  then show ?case by simp
next
  case (Cons x rs)
  then have k: "k < length st" by (auto dest: list_all2_lengthD)
  then have d: "drop k st = st ! k # drop (Suc k) st" by (simp add: Cons_nth_drop_Suc)
  show ?case
  proof (cases "i = k")
    case True
    with Cons.prems k d show ?thesis by (cases x) (auto simp: index_def)
  next
    case False
    with Cons d show ?thesis by simp
  qed
qed

lemma row_get_nth:
  "row_ok r \<Longrightarrow> row_get r i = Ok (if i < length (row_storage r) then row_storage r ! i else None)"
  using row_get_loop_nth [of "row_values r" 0 "row_storage r" i] by (simp add: row_ok_def row_get_def)

lemma row_take_loop_get:
  "list_all2 (\<lambda>rg v. rg = None \<longrightarrow> v = None) rs (drop k (row_storage r)) \<Longrightarrow> k \<le> i \<Longrightarrow>
    row_take_loop rs r i k =
      Ok (if i < length (row_storage r) then row_storage r ! i else None,
          r\<lparr>row_storage := (row_storage r)[i := None]\<rparr>)"
proof (induction rs arbitrary: k)
  case Nil
  then show ?case by (simp add: list_update_beyond)
next
  case (Cons x rs)
  then have k: "k < length (row_storage r)" by (auto dest: list_all2_lengthD)
  then have d: "drop k (row_storage r) = row_storage r ! k # drop (Suc k) (row_storage r)"
    by (simp add: Cons_nth_drop_Suc)
  show ?case
  proof (cases "i = k")
    case True
    with Cons.prems k d show ?thesis
      by (cases x) (auto simp: index_def, metis list_update_id row.surjective row.update_convs(1))
  next
    case False
    with Cons d show ?thesis by simp
  qed
qed

lemma row_take_get:
  assumes "row_ok r"
  shows "row_take r i = Ok (if i < length (row_storage r) then row_storage r ! i else None,
    r\<lparr>row_storage := (row_storage r)[i := None]\<rparr>)"
  using row_take_loop_get [of "row_values r" 0 r i] assms by (simp add: row_ok_def row_take_def)

lemma row_ok_take: "row_ok r \<Longrightarrow> row_ok (r\<lparr>row_storage := (row_storage r)[i := None]\<rparr>)"
  by (auto simp: row_ok_def list_all2_conv_all_nth) (metis nth_list_update_eq nth_list_update_neq)

lemma row_from_loop_ok:
  "row_from_loop r0 ranges data = Ok r \<Longrightarrow> row_ok r0 \<Longrightarrow>
    row_ok r \<and> length (row_storage r) = length (row_storage r0) + length ranges"
proof (induction r0 ranges data rule: row_from_loop.induct)
  case (2 r a b ranges data)
  then show ?case by (auto simp: row_ok_def list_all2_appendI split: if_splits)
qed (auto simp: row_ok_def list_all2_appendI)

lemma row_from_ok: "row_from ranges data = Ok r \<Longrightarrow> row_ok r \<and> length (row_storage r) = length ranges"
  using row_from_loop_ok [of "\<lparr>row_storage = [], row_values = []\<rparr>" ranges data r] by (simp add: row_from_def row_ok_def)

end
