(* ===== verification/Mysql_Row.thy ===== *)
theory Mysql_Row
  imports Mysql_Packets Stored_Row
begin

text \<open>
  Result rows of the MySQL driver: the text and the
  binary row decoders (\<open>protocol/text/row.rs\<close>, \<open>protocol/statement/row.rs\<close>), values
  (\<open>value.rs\<close>), the row handed to the user (\<open>row.rs\<close>) and its meta data (\<open>meta_data.rs\<close>). The
  decoders first collect index ranges into the packet and then cut them out; the theorems
  relate them to the values a server encodes.
\<close>

section \<open>Text rows\<close>

text \<open>\<open>total_len\<close> is the length of the packet, \<open>storage\<close> its snapshot, \<open>buf\<close> the unread rest.\<close>

fun text_row_loop ::
    "crates \<Rightarrow> bytes \<Rightarrow> nat \<Rightarrow> mysql_column list \<Rightarrow> bytes \<Rightarrow> (nat \<times> nat) option list \<Rightarrow>
     (nat \<times> nat) option list res" where
  "text_row_loop C storage total_len [] buf vals = Ok vals"
| "text_row_loop C storage total_len (c # cs) buf vals =
     rbind (index buf 0) (\<lambda>b.
     if b = 0xfb then
       rbind (advance C buf 1) (\<lambda>buf. text_row_loop C storage total_len cs buf (vals @ [None]))
     else
       rbind (get_uint_lenenc C buf) (\<lambda>(size, buf).
       let offset = total_len - length buf in
       if unat size > length buf then
         rbind (index storage offset) (\<lambda>b.
         Err (Protocol ''text row column length exceeds remaining bytes''
           [unat size, length buf, unat b]))
       else
         rbind (advance C buf (unat size)) (\<lambda>buf.
         text_row_loop C storage total_len cs buf (vals @ [Some (offset, offset + unat size)]))))"

definition text_row_decode :: "crates \<Rightarrow> bytes \<Rightarrow> mysql_column list \<Rightarrow> row res" where
  "text_row_decode C buf columns =
     rbind (text_row_loop C buf (length buf) columns buf []) (\<lambda>vals. row_from vals buf)"

section \<open>Binary rows\<close>

definition null_bit :: "bytes \<Rightarrow> nat \<Rightarrow> bool res" where
  "null_bit bitmap i = rbind (index bitmap (i div 8)) (\<lambda>b. Ok (b AND push_bit (i mod 8) 1 \<noteq> 0))"

definition lenenc_types :: "column_type list" where
  "lenenc_types =
     [CT_String, CT_VarChar, CT_VarString, CT_Enum, CT_Set, CT_LongBlob, CT_MediumBlob, CT_Blob,
      CT_TinyBlob, CT_Geometry, CT_Bit, CT_Decimal, CT_Json, CT_NewDecimal]"

definition temporal_types :: "column_type list" where
  "temporal_types = [CT_Time, CT_Timestamp, CT_Date, CT_Datetime]"

text \<open>The size of the next value and the buffer after its length prefix, if it has one.\<close>

definition binary_value_size :: "crates \<Rightarrow> column_type \<Rightarrow> bytes \<Rightarrow> (nat \<times> bytes) res" where
  "binary_value_size C t buf =
     (if t \<in> set lenenc_types then rbind (get_uint_lenenc C buf) (\<lambda>(n, buf). Ok (unat n, buf))
      else if t = CT_LongLong then Ok (8, buf)
      else if t = CT_Long \<or> t = CT_Int24 then Ok (4, buf)
      else if t = CT_Short \<or> t = CT_Year then Ok (2, buf)
      else if t = CT_Tiny then Ok (1, buf)
      else if t = CT_Float then Ok (4, buf)
      else if t = CT_Double then Ok (8, buf)
      else if t \<in> set temporal_types then
        (if buf = [] then Err (Protocol ''binary row: expected temporal length byte, found empty buffer'' [])
         else rbind (index buf 0) (\<lambda>b. Ok (unat b + 1, buf)))
      else Panic)"

fun binary_row_loop ::
    "crates \<Rightarrow> nat \<Rightarrow> bytes \<Rightarrow> mysql_column list \<Rightarrow> nat \<Rightarrow> bytes \<Rightarrow> (nat \<times> nat) option list \<Rightarrow>
     (nat \<times> nat) option list res" where
  "binary_row_loop C total_len bitmap [] column_idx buf vals = Ok vals"
| "binary_row_loop C total_len bitmap (c # cs) column_idx buf vals =
     rbind (null_bit bitmap (column_idx + 2)) (\<lambda>is_null.
     if is_null then binary_row_loop C total_len bitmap cs (column_idx + 1) buf (vals @ [None])
     else
       rbind (binary_value_size C (ti_type (mc_type_info c)) buf) (\<lambda>(size, buf).
       if size > length buf then
         Err (Protocol ''binary row column length exceeds remaining bytes'' [size, length buf])
       else
         let offset = total_len - length buf in
         rbind (advance C buf size) (\<lambda>buf.
         binary_row_loop C total_len bitmap cs (column_idx + 1) buf (vals @ [Some (offset, offset + size)]))))"

definition binary_row_decode :: "crates \<Rightarrow> bytes \<Rightarrow> mysql_column list \<Rightarrow> row res" where
  "binary_row_decode C buf columns =
     rbind (get_u8 C buf) (\<lambda>(header, buf).
     if header \<noteq> 0 then Err (Protocol ''expected 0x00 (ROW)'' [unat header])
     else
       let storage = buf; total_len = length buf; null_bitmap_len = (length columns + 9) div 8 in
       if length buf < null_bitmap_len then
         Err (Protocol ''binary row: null-bitmap length exceeds remaining bytes''
           [null_bitmap_len, length buf])
       else
         rbind (get_bytes C buf null_bitmap_len) (\<lambda>(null_bitmap, buf).
         rbind (binary_row_loop C total_len null_bitmap columns 0 buf []) (\<lambda>vals.
         row_from vals storage)))"

section \<open>Values and rows handed to the user\<close>

datatype value_format = Text | Binary

text \<open>Of the connection options a value carries, only \<open>offset_sec\<close> is read.\<close>

record mysql_value =
  mv_value :: "bytes option"
  mv_type_info :: type_info
  mv_format :: value_format
  mv_offset_sec :: int

definition as_bytes :: "mysql_value \<Rightarrow> bytes res" where
  "as_bytes v = (case mv_value v of Some b \<Rightarrow> Ok b | None \<Rightarrow> Err (Protocol ''UnexpectedNull'' []))"

definition as_str :: "mysql_value \<Rightarrow> bytes res" where
  "as_str v = rbind (as_bytes v) from_utf8"

definition is_null :: "bytes option \<Rightarrow> type_info \<Rightarrow> bool" where
  "is_null val ty =
     (case val of
        Some v \<Rightarrow> ti_type ty \<in> {CT_Date, CT_Timestamp, CT_Datetime} \<and> v \<noteq> [] \<and> hd v = 0
      | None \<Rightarrow> True)"

record mysql_row =
  mr_row :: row
  mr_format :: value_format
  mr_columns :: "mysql_column list"
  mr_column_names :: "(bytes \<times> nat \<times> type_info) list"
  mr_offset_sec :: int

definition try_get :: "mysql_row \<Rightarrow> nat \<Rightarrow> (value_format \<times> type_info \<times> bytes option) res" where
  "try_get r i =
     rbind (index (mr_columns r) i) (\<lambda>column.
     rbind (row_get (mr_row r) i) (\<lambda>v.
     Ok (mr_format r, mc_type_info column, v)))"

definition try_take :: "mysql_row \<Rightarrow> nat \<Rightarrow> (mysql_value option \<times> mysql_row) res" where
  "try_take r i =
     rbind (index (mr_columns r) i) (\<lambda>column.
     rbind (row_take (mr_row r) i) (\<lambda>(v, row).
     Ok (case v of
           None \<Rightarrow> None
         | Some b \<Rightarrow> Some \<lparr>mv_value = Some b, mv_type_info = mc_type_info column,
             mv_format = mr_format r, mv_offset_sec = mr_offset_sec r\<rparr>,
         r\<lparr>mr_row := row\<rparr>)))"

text \<open>
  \<open>MysqlMetaData\<close> is a hash map from column name to ordinal and type; the list is the map
  in its iteration order, with distinct keys.
\<close>

definition column_len :: "(bytes \<times> nat \<times> type_info) list \<Rightarrow> nat" where
  "column_len m = length m"

fun column_name :: "(bytes \<times> nat \<times> type_info) list \<Rightarrow> nat \<Rightarrow> bytes" where
  "column_name [] i = []"
| "column_name ((s, idx, ty) # m) i = (if idx = i then s else column_name m i)"

fun column_type_of :: "(column_type \<Rightarrow> bytes) \<Rightarrow> (bytes \<times> nat \<times> type_info) list \<Rightarrow> nat \<Rightarrow> bytes" where
  "column_type_of debug [] i = []"
| "column_type_of debug ((s, idx, ty) # m) i =
     (if idx = i then debug (ti_type ty) else column_type_of debug m i)"

section \<open>Lemmas\<close>

subsection \<open>What servers encode\<close>

definition text_value :: "bytes option \<Rightarrow> bytes" where
  "text_value v = (case v of None \<Rightarrow> [0xfb] | Some b \<Rightarrow> put_bytes_lenenc [] b)"

lemma text_value_simps [simp]: "text_value None = [0xfb]" "text_value (Some b) = put_bytes_lenenc [] b"
  by (simp_all add: text_value_def)

definition sized :: "bytes option \<Rightarrow> bool" where
  "sized v = (case v of None \<Rightarrow> True | Some b \<Rightarrow> length b < 2 ^ 64)"

lemma put_uint_lenenc_hd: "hd (put_uint_lenenc [] v) \<noteq> 0xfb \<and> put_uint_lenenc [] v \<noteq> []"
proof -
  have "unat (ucast v :: u8) = unat v" if "v < 251"
    using that by (intro unat_ucast_small) (simp add: word_less_nat_alt)
  then have "ucast v \<noteq> (0xfb :: u8)" if "v < 251"
    using that by (auto simp: word_unat_eq_iff word_less_nat_alt)
  then show ?thesis by (auto simp: put_uint_lenenc_def)
qed

context crate_laws
begin

lemma text_row_loop_wire:
  assumes "length cs = length vs" and "list_all sized vs"
    and "storage = pre @ concat (map text_value vs) @ rest"
  shows "\<exists>rs. text_row_loop C storage (length storage) cs (concat (map text_value vs) @ rest) vals =
    Ok (vals @ rs) \<and> list_all2 (cuts storage) rs vs"
  using assms
proof (induction cs vs arbitrary: pre vals rule: list_induct2)
  case Nil
  show ?case by simp
next
  case (Cons c cs v vs)
  show ?case
  proof (cases v)
    case None
    from Cons.IH [of "pre @ [0xfb]" "vals @ [None]"] Cons.prems None obtain rs where
      "text_row_loop C storage (length storage) cs (concat (map text_value vs) @ rest) (vals @ [None]) =
        Ok (vals @ [None] @ rs)" "list_all2 (cuts storage) rs vs"
      by auto
    with None show ?thesis by (intro exI [of _ "None # rs"]) simp
  next
    case (Some x)
    define l where "l = put_uint_lenenc [] (of_nat (length x))"
    define post where "post = concat (map text_value vs) @ rest"
    have l: "hd l \<noteq> 0xfb" "l \<noteq> []" using put_uint_lenenc_hd by (simp_all add: l_def)
    have x: "unat (of_nat (length x) :: u64) = length x"
      using Cons.prems(1) Some by (simp add: sized_def unat_of_nat)
    have st: "storage = (pre @ l) @ x @ post"
      using Cons.prems(2) Some by (simp add: put_bytes_lenenc_def l_def post_def)
    let ?off = "length storage - length (x @ post)"
    have "list_all sized vs" using Cons.prems(1) by simp
    from Cons.IH [OF this, of "pre @ l @ x" "vals @ [Some (?off, ?off + length x)]"] st obtain rs where
      rs: "text_row_loop C storage (length storage) cs post (vals @ [Some (?off, ?off + length x)]) =
        Ok ((vals @ [Some (?off, ?off + length x)]) @ rs)" "list_all2 (cuts storage) rs vs"
      unfolding post_def [symmetric] append_assoc by blast
    have g: "get_uint_lenenc C (l @ x @ post) = Ok (of_nat (length x), x @ post)"
      unfolding l_def by (rule get_uint_lenenc_put)
    have i: "index (l @ x @ post) 0 = Ok (hd l)" using l by (cases l) simp_all
    have b: "concat (map text_value (v # vs)) @ rest = l @ x @ post"
      using Some by (simp add: put_bytes_lenenc_def l_def post_def)
    have "text_row_loop C storage (length storage) (c # cs) (l @ x @ post) vals =
        Ok (vals @ [Some (?off, ?off + length x)] @ rs)"
      using l(1) x rs(1) by (simp add: i g Let_def advance_app)
    with rs(2) cuts_middle [OF st] Some show ?thesis
      unfolding b by (intro exI [of _ "Some (?off, ?off + length x) # rs"]) simp
  qed
qed

lemma text_row_decode_wire:
  assumes "length columns = length vs" and "list_all sized vs"
  shows "\<exists>r. text_row_decode C (concat (map text_value vs) @ rest) columns = Ok r \<and>
    row_storage r = vs \<and> row_ok r"
proof -
  from text_row_loop_wire [OF assms, of _ "[]" rest "[]"] obtain rs where
    "text_row_loop C (concat (map text_value vs) @ rest) (length (concat (map text_value vs) @ rest))
      columns (concat (map text_value vs) @ rest) [] = Ok rs"
    "list_all2 (cuts (concat (map text_value vs) @ rest)) rs vs" by auto
  then show ?thesis by (simp add: text_row_decode_def row_from_cuts cuts_row_ok)
qed

end

subsection \<open>Binary rows\<close>

definition binary_value :: "column_type \<Rightarrow> bytes \<Rightarrow> bytes" where
  "binary_value t x = (if t \<in> set lenenc_types then put_bytes_lenenc [] x else x)"

text \<open>The widths of the binary protocol; a temporal value carries its own length byte.\<close>

definition fits :: "column_type \<Rightarrow> bytes \<Rightarrow> bool" where
  "fits t x =
     (if t \<in> set lenenc_types then length x < 2 ^ 64
      else if t \<in> {CT_LongLong, CT_Double} then length x = 8
      else if t \<in> {CT_Long, CT_Int24, CT_Float} then length x = 4
      else if t \<in> {CT_Short, CT_Year} then length x = 2
      else if t = CT_Tiny then length x = 1
      else if t \<in> set temporal_types then x \<noteq> [] \<and> length x = unat (hd x) + 1
      else False)"

definition binary_cell :: "mysql_column \<Rightarrow> bytes option \<Rightarrow> bytes" where
  "binary_cell c v = (case v of None \<Rightarrow> [] | Some x \<Rightarrow> binary_value (ti_type (mc_type_info c)) x)"

definition cell_fits :: "mysql_column \<Rightarrow> bytes option \<Rightarrow> bool" where
  "cell_fits c v = (case v of None \<Rightarrow> True | Some x \<Rightarrow> fits (ti_type (mc_type_info c)) x)"

definition or_all :: "u8 list \<Rightarrow> u8" where
  "or_all ws = foldr (OR) ws 0"

definition row_null_bitmap :: "bytes option list \<Rightarrow> bytes" where
  "row_null_bitmap vs =
     map (\<lambda>j. or_all (map (\<lambda>b. if 2 \<le> 8 * j + b \<and> 8 * j + b - 2 < length vs \<and> vs ! (8 * j + b - 2) = None
                              then push_bit b 1 else 0) [0..<8]))
       [0..<(length vs + 9) div 8]"

definition binary_row_wire :: "mysql_column list \<Rightarrow> bytes option list \<Rightarrow> bytes" where
  "binary_row_wire cs vs = 0 # row_null_bitmap vs @ concat (map2 binary_cell cs vs)"

lemma bit_or_all: "bit (or_all ws) n \<longleftrightarrow> (\<exists>w \<in> set ws. bit w n)"
  by (induction ws) (auto simp: or_all_def bit_or_iff)

lemma null_bit_bit: "i div 8 < length bm \<Longrightarrow> null_bit bm i = Ok (bit (bm ! (i div 8)) (i mod 8))"
  by (simp add: null_bit_def index_def bit_iff_and_push_bit_not_eq_0)

lemma null_bit_row:
  assumes "i < length vs"
  shows "null_bit (row_null_bitmap vs) (i + 2) = Ok (vs ! i = None)"
proof -
  let ?k = "i + 2"
  have d: "?k div 8 < (length vs + 9) div 8" using assms by simp
  have k: "8 * (?k div 8) + ?k mod 8 = ?k" by simp
  have "bit (row_null_bitmap vs ! (?k div 8)) (?k mod 8) \<longleftrightarrow>
      (\<exists>b < 8. 2 \<le> 8 * (?k div 8) + b \<and> 8 * (?k div 8) + b - 2 < length vs \<and>
        vs ! (8 * (?k div 8) + b - 2) = None \<and> bit (push_bit b 1 :: u8) (?k mod 8))"
    using d by (auto simp: row_null_bitmap_def bit_or_all split: if_splits)
  also have "\<dots> \<longleftrightarrow> vs ! i = None"
  proof -
    have "bit (push_bit b 1 :: u8) (?k mod 8) \<longleftrightarrow> b = ?k mod 8" if "b < 8" for b
      using that by (auto simp: bit_simps)
    then have "(\<exists>b < 8. 2 \<le> 8 * (?k div 8) + b \<and> 8 * (?k div 8) + b - 2 < length vs \<and>
        vs ! (8 * (?k div 8) + b - 2) = None \<and> bit (push_bit b 1 :: u8) (?k mod 8)) \<longleftrightarrow>
      (2 \<le> ?k \<and> ?k - 2 < length vs \<and> vs ! (?k - 2) = None)"
      using k by (metis mod_less_divisor zero_less_numeral)
    with assms show ?thesis by simp
  qed
  finally show ?thesis
    using d by (subst null_bit_bit) (simp_all add: row_null_bitmap_def)
qed

context crate_laws
begin

lemma binary_value_size_wire:
  "fits t x \<Longrightarrow> binary_value_size C t (binary_value t x @ rest) = Ok (length x, x @ rest)"
  by (cases t) (auto simp: fits_def binary_value_size_def binary_value_def lenenc_types_def
      temporal_types_def put_bytes_lenenc_def unat_of_nat index_def nth_append hd_conv_nth)

lemma binary_row_loop_wire:
  assumes "length cs = length vs" and "list_all2 cell_fits cs vs"
    and "\<forall>i < length vs. null_bit bm (k + i + 2) = Ok (vs ! i = None)"
    and "storage = pre @ concat (map2 binary_cell cs vs) @ rest"
  shows "\<exists>rs. binary_row_loop C (length storage) bm cs k (concat (map2 binary_cell cs vs) @ rest) vals =
    Ok (vals @ rs) \<and> list_all2 (cuts storage) rs vs"
  using assms
proof (induction cs vs arbitrary: pre vals k rule: list_induct2)
  case Nil
  show ?case by simp
next
  case (Cons c cs v vs)
  have nb: "null_bit bm (k + 2) = Ok (v = None)" "\<forall>i < length vs. null_bit bm (Suc k + i + 2) = Ok (vs ! i = None)"
    using Cons.prems(2) [rule_format, of 0] Cons.prems(2) [rule_format, of "Suc i" for i] by auto
  have cf: "list_all2 cell_fits cs vs" using Cons.prems(1) by simp
  define post where "post = concat (map2 binary_cell cs vs) @ rest"
  show ?case
  proof (cases v)
    case None
    with Cons.prems(3) have "storage = pre @ concat (map2 binary_cell cs vs) @ rest"
      by (simp add: binary_cell_def)
    from Cons.IH [OF cf nb(2) this, of "vals @ [None]"] nb(1) None show ?thesis
      by (auto simp: binary_cell_def intro: exI [of _ "None # rs" for rs])
  next
    case (Some x)
    let ?t = "ti_type (mc_type_info c)"
    have f: "fits ?t x" using Cons.prems(1) Some by (simp add: cell_fits_def)
    obtain l where bv: "binary_value ?t x = l @ x"
      by (cases "?t \<in> set lenenc_types") (auto simp: binary_value_def put_bytes_lenenc_def)
    have st: "storage = (pre @ l) @ x @ post"
      using Cons.prems(3) Some bv by (simp add: binary_cell_def post_def)
    let ?off = "length storage - length (x @ post)"
    from Cons.IH [OF cf nb(2), of "pre @ l @ x" "vals @ [Some (?off, ?off + length x)]"] st obtain rs where
      rs: "binary_row_loop C (length storage) bm cs (Suc k) post (vals @ [Some (?off, ?off + length x)]) =
        Ok ((vals @ [Some (?off, ?off + length x)]) @ rs)" "list_all2 (cuts storage) rs vs"
      unfolding post_def [symmetric] append_assoc by blast
    have b: "concat (map2 binary_cell (c # cs) (v # vs)) @ rest = binary_value ?t x @ post"
      using Some by (simp add: binary_cell_def post_def)
    have "binary_row_loop C (length storage) bm (c # cs) k (binary_value ?t x @ post) vals =
        Ok (vals @ [Some (?off, ?off + length x)] @ rs)"
      using nb(1) Some rs(1) by (simp add: binary_value_size_wire [OF f] Let_def advance_app)
    with rs(2) cuts_middle [OF st] Some show ?thesis
      unfolding b by (intro exI [of _ "Some (?off, ?off + length x) # rs"]) simp
  qed
qed

lemma binary_row_decode_wire:
  assumes "length columns = length vs" and "list_all2 cell_fits columns vs"
  shows "\<exists>r. binary_row_decode C (binary_row_wire columns vs @ rest) columns = Ok r \<and>
    row_storage r = vs \<and> row_ok r"
proof -
  let ?bm = "row_null_bitmap vs" and ?body = "concat (map2 binary_cell columns vs) @ rest"
  have l: "length ?bm = (length columns + 9) div 8" by (simp add: row_null_bitmap_def assms(1))
  have nb: "\<forall>i < length vs. null_bit ?bm (0 + i + 2) = Ok (vs ! i = None)"
    using null_bit_row by simp
  from binary_row_loop_wire [OF assms nb, of "?bm @ ?body" ?bm rest "[]"] obtain rs where
    "binary_row_loop C (length (?bm @ ?body)) ?bm columns 0 ?body [] = Ok rs"
    "list_all2 (cuts (?bm @ ?body)) rs vs" by auto
  then show ?thesis
    using l by (simp add: binary_row_decode_def binary_row_wire_def row_from_cuts cuts_row_ok Let_def)
qed

end

subsection \<open>Malformed rows\<close>

definition range_ok :: "nat \<Rightarrow> (nat \<times> nat) option \<Rightarrow> bool" where
  "range_ok n rg = (case rg of None \<Rightarrow> True | Some (a, b) \<Rightarrow> a \<le> b \<and> b \<le> n)"

lemma range_ok_simps [simp]:
  "range_ok n None" "range_ok n (Some (a, b)) \<longleftrightarrow> a \<le> b \<and> b \<le> n"
  by (simp_all add: range_ok_def)

lemma row_from_loop_total:
  "list_all (range_ok (length data)) rs \<Longrightarrow> \<exists>r'. row_from_loop r rs data = Ok r'"
  by (induction r rs data rule: row_from_loop.induct) (auto simp: range_ok_def)

definition fixed_or_temporal :: "mysql_column \<Rightarrow> bool" where
  "fixed_or_temporal c =
     (ti_type (mc_type_info c) \<notin> set lenenc_types \<and> ti_type (mc_type_info c) \<noteq> CT_Null)"

context crate_laws
begin

lemma binary_value_size_fixed:
  assumes "t \<notin> set lenenc_types" and "t \<noteq> CT_Null"
  shows "(\<exists>n. binary_value_size C t buf = Ok (n, buf)) \<or> (\<exists>e. binary_value_size C t buf = Err e)"
  using assms
  by (cases t) (auto simp: binary_value_size_def lenenc_types_def temporal_types_def index_def)

lemma binary_row_loop_safe:
  assumes "list_all fixed_or_temporal cs" and "length buf \<le> total_len"
    and "(k + length cs + 1) div 8 < length bm" and "list_all (range_ok total_len) vals"
  shows "(\<exists>e. binary_row_loop C total_len bm cs k buf vals = Err e) \<or>
    (\<exists>rs. binary_row_loop C total_len bm cs k buf vals = Ok rs \<and> list_all (range_ok total_len) rs)"
  using assms
proof (induction cs arbitrary: k buf vals)
  case Nil
  then show ?case by simp
next
  case (Cons c cs)
  have "(k + 2) div 8 < length bm" using Cons.prems(3) by (simp add: div_le_mono le_less_trans)
  then obtain b where b: "null_bit bm (k + 2) = Ok b" by (simp add: null_bit_bit)
  have len: "(Suc k + length cs + 1) div 8 < length bm" using Cons.prems(3) by simp
  have ft: "list_all fixed_or_temporal cs" "fixed_or_temporal c" using Cons.prems(1) by simp_all
  show ?case
  proof (cases b)
    case True
    with Cons.IH [OF ft(1) Cons.prems(2) len, of "vals @ [None]"] Cons.prems(4) b show ?thesis
      by simp
  next
    case False
    from binary_value_size_fixed [of "ti_type (mc_type_info c)" buf] ft(2) consider
      (err) e where "binary_value_size C (ti_type (mc_type_info c)) buf = Err e"
      | (big) n where "binary_value_size C (ti_type (mc_type_info c)) buf = Ok (n, buf)" "length buf < n"
      | (fit) n where "binary_value_size C (ti_type (mc_type_info c)) buf = Ok (n, buf)" "n \<le> length buf"
      by (auto simp: fixed_or_temporal_def) (metis linorder_not_le)
    then show ?thesis
    proof cases
      case fit
      let ?off = "total_len - length buf"
      have "list_all (range_ok total_len) (vals @ [Some (?off, ?off + n)])"
        using Cons.prems(2,4) fit(2) by auto
      from Cons.IH [OF ft(1) _ len this, of "drop n buf"] Cons.prems(2) fit b False show ?thesis
        by (simp add: advance_law Let_def)
    qed (use b False in simp_all)
  qed
qed

lemma binary_row_decode_safe:
  assumes "list_all fixed_or_temporal columns" and "buf \<noteq> []"
  shows "binary_row_decode C buf columns \<noteq> Panic"
proof -
  obtain h b where buf: "buf = h # b" using assms(2) by (cases buf) auto
  let ?n = "(length columns + 9) div 8"
  show ?thesis
  proof (cases "h = 0 \<and> ?n \<le> length b")
    case False
    then show ?thesis by (auto simp: binary_row_decode_def buf Let_def)
  next
    case True
    have "(0 + length columns + 1) div 8 < ?n" by simp
    with True have bm: "(0 + length columns + 1) div 8 < length (take ?n b)" by (simp add: min_def)
    have "length (drop ?n b) \<le> length b" "list_all (range_ok (length b)) []" by simp_all
    from binary_row_loop_safe [OF assms(1) this(1) bm this(2)] show ?thesis
    proof (elim disjE exE conjE)
      fix rs
      assume l: "binary_row_loop C (length b) (take ?n b) columns 0 (drop ?n b) [] = Ok rs"
        and "list_all (range_ok (length b)) rs"
      from row_from_loop_total [OF this(2)] obtain r' where
        "row_from_loop \<lparr>row_storage = [], row_values = []\<rparr> rs b = Ok r'" by blast
      with l True show ?thesis
        by (simp add: binary_row_decode_def buf Let_def get_bytes_law row_from_def)
    qed (use True in \<open>simp_all add: binary_row_decode_def buf Let_def get_bytes_law\<close>)
  qed
qed

lemma text_row_truncated:
  assumes "0 < n" and "n < 251"
  shows "text_row_decode C [of_nat n] (c # cs) = Panic"
proof -
  have u: "unat (of_nat n :: u8) = n" using assms by (simp add: unat_of_nat)
  then have "of_nat n \<noteq> (0xfb :: u8)" "of_nat n \<noteq> (0xfc :: u8)" "of_nat n \<noteq> (0xfd :: u8)" "of_nat n \<noteq> (0xfe :: u8)"
    using assms by (auto simp: word_unat_eq_iff)
  moreover have "unat (ucast (of_nat n :: u8) :: u64) = n"
    using u assms by (simp add: unat_ucast_small)
  ultimately show ?thesis
    using assms by (simp add: text_row_decode_def get_uint_lenenc_def index_def)
qed

end

section \<open>Properties\<close>

text \<open>A text-protocol row decodes to the values the server sent: for every list of
  values, NULLs included, each column's bytes are exactly what was encoded for it, and reading
  beyond the last column yields nothing.\<close>

theorem text_row_roundtrip:
  assumes "crate_laws C" and "length columns = length vs" and "list_all sized vs"
  shows "\<exists>r. text_row_decode C (concat (map text_value vs)) columns = Ok r \<and>
    (\<forall>i. row_get r i = Ok (if i < length vs then vs ! i else None))"
  using crate_laws.text_row_decode_wire [OF assms, of "[]"] by (auto simp: row_get_nth)

definition sample_column :: "column_type \<Rightarrow> mysql_column" where
  "sample_column t = \<lparr>mc_ordinal = 0, mc_name = [], mc_type_info = type_info_from_type t\<rparr>"

theorem text_row_roundtrip_witness:
  "\<exists>r. text_row_decode std_crates [2, 104, 105, 0xfb, 0] (map sample_column [CT_VarChar, CT_Long, CT_VarChar]) = Ok r \<and>
     row_get r 0 = Ok (Some [104, 105]) \<and> row_get r 1 = Ok None \<and> row_get r 2 = Ok (Some [])"
proof -
  from text_row_roundtrip [OF std.crate_laws_axioms, of
    "map sample_column [CT_VarChar, CT_Long, CT_VarChar]" "[Some [104, 105], None, Some []]"]
  obtain r where r: "text_row_decode std_crates [2, 104, 105, 0xfb, 0] (map sample_column [CT_VarChar, CT_Long, CT_VarChar]) = Ok r"
    "\<forall>i. row_get r i = Ok (if i < 3 then [Some [104, 105], None, Some []] ! i else None)"
    by (auto simp: sized_def put_bytes_lenenc_def put_uint_lenenc_def)
  from r(2) [rule_format, of 0] r(2) [rule_format, of 1] r(2) [rule_format, of 2] r(1)
  show ?thesis by simp
qed

text \<open>C14:  A binary-protocol row decodes to the values the server sent: the NULL bitmap
  with its offset of two bits selects the NULL columns, every other column is cut out with the
  width its type prescribes (length-encoded, fixed, or self-describing temporal).\<close>

theorem binary_row_roundtrip:
  assumes "crate_laws C" and "length columns = length vs" and "list_all2 cell_fits columns vs"
  shows "\<exists>r. binary_row_decode C (binary_row_wire columns vs) columns = Ok r \<and>
    (\<forall>i. row_get r i = Ok (if i < length vs then vs ! i else None))"
  using crate_laws.binary_row_decode_wire [OF assms, of "[]"] by (auto simp: row_get_nth)

theorem binary_row_roundtrip_witness:
  "\<exists>r. binary_row_decode std_crates [0, 8, 1, 104, 7, 0]
       (map sample_column [CT_VarChar, CT_Long, CT_Short]) = Ok r \<and>
     row_get r 0 = Ok (Some [104]) \<and> row_get r 1 = Ok None \<and> row_get r 2 = Ok (Some [7, 0])"
proof -
  have w: "binary_row_wire (map sample_column [CT_VarChar, CT_Long, CT_Short]) [Some [104], None, Some [7, 0]] =
      [0, 8, 1, 104, 7, 0]"
    by (simp add: binary_row_wire_def row_null_bitmap_def or_all_def binary_cell_def sample_column_def
        type_info_from_type_def binary_value_def lenenc_types_def put_bytes_lenenc_def
        put_uint_lenenc_def upt_conv_Cons)
  from binary_row_roundtrip [OF std.crate_laws_axioms, of
    "map sample_column [CT_VarChar, CT_Long, CT_Short]" "[Some [104], None, Some [7, 0]]"]
  obtain r where r: "binary_row_decode std_crates [0, 8, 1, 104, 7, 0]
       (map sample_column [CT_VarChar, CT_Long, CT_Short]) = Ok r"
    "\<forall>i. row_get r i = Ok (if i < 3 then [Some [104], None, Some [7, 0]] ! i else None)"
    unfolding w by (auto simp: cell_fits_def fits_def sample_column_def type_info_from_type_def lenenc_types_def)
  from r(2) [rule_format, of 0] r(2) [rule_format, of 1] r(2) [rule_format, of 2] r(1)
  show ?thesis by simp
qed

text \<open>A value can be taken from a row once: taking returns what reading returns and
  leaves NULL behind, while every other column stays readable; the row stays well formed.\<close>

theorem row_take_consumes:
  assumes "row_ok r"
  shows "\<exists>r'. row_take r i = Ok (if i < length (row_storage r) then row_storage r ! i else None, r') \<and>
    row_ok r' \<and> row_get r' i = Ok None \<and> (\<forall>j. j \<noteq> i \<longrightarrow> row_get r' j = row_get r j)"
proof -
  let ?r' = "r\<lparr>row_storage := (row_storage r)[i := None]\<rparr>"
  from row_ok_take [OF assms] have ok: "row_ok ?r'" .
  then have "row_get ?r' i = Ok None" "\<forall>j. j \<noteq> i \<longrightarrow> row_get ?r' j = row_get r j"
    using assms by (auto simp: row_get_nth)
  with row_take_get [OF assms] ok show ?thesis by blast
qed

theorem row_take_consumes_witness:
  "\<exists>r'. row_take \<lparr>row_storage = [Some [1], None], row_values = [Some (0, 1), None]\<rparr> 0 = Ok (Some [1], r') \<and>
     row_get r' 0 = Ok None"
  using row_take_consumes [of "\<lparr>row_storage = [Some [1], None], row_values = [Some (0, 1), None]\<rparr>" 0]
  by (auto simp: row_ok_def)

text \<open>Whatever bytes follow its first one, a binary row of fixed-width and temporal
  columns is decoded or rejected with a protocol error, never with a panic: every length is
  checked against the remaining bytes before it is used.\<close>

theorem binary_row_never_panics:
  assumes "crate_laws C" and "list_all fixed_or_temporal columns" and "buf \<noteq> []"
  shows "binary_row_decode C buf columns \<noteq> Panic"
  by (rule crate_laws.binary_row_decode_safe [OF assms])

theorem binary_row_never_panics_witness:
  "binary_row_decode std_crates [0, 0, 11, 1] (map sample_column [CT_Datetime]) \<noteq> Panic"
  by (rule binary_row_never_panics [OF std.crate_laws_axioms])
    (simp_all add: fixed_or_temporal_def sample_column_def type_info_from_type_def lenenc_types_def)

text \<open>The text row decoder has a bounds check against truncated values, but its error
  path indexes the packet behind the length prefix: when the packet ends right there, the check
  itself panics instead of returning the protocol error.\<close>

theorem text_row_truncated_panics:
  assumes "crate_laws C" and "0 < n" and "n < 251"
  shows "text_row_decode C [of_nat n] (c # cs) = Panic"
  by (rule crate_laws.text_row_truncated [OF assms])

theorem text_row_truncated_panics_witness:
  "text_row_decode std_crates [5] [sample_column CT_VarChar] = Panic"
  using text_row_truncated_panics [OF std.crate_laws_axioms, of 5 "sample_column CT_VarChar" "[]"] by simp

end
