(* ===== verification/Std_Text.thy ===== *)
theory Std_Text
  imports Rbdc_Prelude
begin

text \<open>
  What the drivers use of the standard library's text and integer conversions: decimal output, \<open>str::parse\<close> for
  integers, slicing, and the big-endian conversions \<open>to_be_bytes\<close> and \<open>from_be_bytes\<close>.
\<close>

section \<open>Text helpers of the standard library\<close>

function dec_digits :: "nat \<Rightarrow> bytes" where
  "dec_digits n = (if n < 10 then [of_nat (48 + n)] else dec_digits (n div 10) @ [of_nat (48 + n mod 10)])"
  by pat_completeness auto
termination
  by (relation "measure id") auto

declare dec_digits.simps [simp del]

definition pad0 :: "nat \<Rightarrow> bytes \<Rightarrow> bytes" where
  "pad0 w s = replicate (w - length s) 48 @ s"

fun parse_digits :: "nat \<Rightarrow> bytes \<Rightarrow> nat option" where
  "parse_digits acc [] = Some acc"
| "parse_digits acc (b # bs) =
     (if 48 \<le> unat b \<and> unat b \<le> 57 then parse_digits (10 * acc + (unat b - 48)) bs else None)"

text \<open>\<open>str::parse\<close> for integers: an optional sign, at least one digit, within the range.\<close>

definition parse_int :: "int \<Rightarrow> int \<Rightarrow> bytes \<Rightarrow> int option" where
  "parse_int lo hi s =
     (let (neg, ds) = (case s of
            [] \<Rightarrow> (False, [])
          | b # bs \<Rightarrow> if b = 43 then (False, bs) else if b = 45 \<and> lo < 0 then (True, bs) else (False, s))
      in if ds = [] then None
         else case parse_digits 0 ds of
             None \<Rightarrow> None
           | Some n \<Rightarrow> let v = (if neg then - int n else int n) in if lo \<le> v \<and> v \<le> hi then Some v else None)"

definition parse_u64 :: "bytes \<Rightarrow> u64 option" where
  "parse_u64 s = map_option of_int (parse_int 0 (2 ^ 64 - 1) s)"

definition parse_i64 :: "bytes \<Rightarrow> u64 option" where
  "parse_i64 s = map_option of_int (parse_int (- (2 ^ 63)) (2 ^ 63 - 1) s)"

definition parse_u16 :: "bytes \<Rightarrow> u16 option" where
  "parse_u16 s = map_option of_int (parse_int 0 (2 ^ 16 - 1) s)"

definition parse_u32 :: "bytes \<Rightarrow> u32 option" where
  "parse_u32 s = map_option of_int (parse_int 0 4294967295 s)"

definition parse_i32 :: "bytes \<Rightarrow> u32 option" where
  "parse_i32 s = map_option of_int (parse_int (- 2147483648) 2147483647 s)"

definition parse_i16 :: "bytes \<Rightarrow> u16 option" where
  "parse_i16 s = map_option of_int (parse_int (- 32768) 32767 s)"

definition ascii_lower :: "u8 \<Rightarrow> u8" where
  "ascii_lower b = (if 65 \<le> b \<and> b \<le> 90 then b + 32 else b)"

definition or_default :: "'a \<Rightarrow> 'a option \<Rightarrow> 'a" where
  "or_default d m = (case m of Some x \<Rightarrow> x | None \<Rightarrow> d)"

definition slice_from :: "bytes \<Rightarrow> nat \<Rightarrow> bytes res" where
  "slice_from buf n = (if n \<le> length buf then Ok (drop n buf) else Panic)"

definition vec_remove :: "bytes \<Rightarrow> nat \<Rightarrow> bytes res" where
  "vec_remove buf i = (if i < length buf then Ok (take i buf @ drop (Suc i) buf) else Panic)"

lemma parse_digits_append:
  "parse_digits acc (xs @ ys) = Option.bind (parse_digits acc xs) (\<lambda>acc. parse_digits acc ys)"
  by (induction acc xs rule: parse_digits.induct) auto

definition is_digit :: "u8 \<Rightarrow> bool" where
  "is_digit b = (48 \<le> unat b \<and> unat b \<le> 57)"

lemma unat_digit: "n < 10 \<Longrightarrow> unat (of_nat (48 + n) :: u8) = 48 + n"
  by (simp only: unat_of_nat) simp

lemma dec_digits_digits: "list_all is_digit (dec_digits n)"
proof (induction n rule: dec_digits.induct)
  case (1 n)
  have "is_digit (of_nat (48 + n mod 10))" "n < 10 \<Longrightarrow> is_digit (of_nat (48 + n))"
    using unat_digit [of "n mod 10"] unat_digit [of n] by (simp_all add: is_digit_def)
  with 1 show ?case by (subst dec_digits.simps) simp
qed

lemma dec_digits_nonempty [simp]: "dec_digits n \<noteq> []"
  by (subst dec_digits.simps) simp

lemma parse_digits_dec_digits [simp]: "parse_digits 0 (dec_digits n) = Some n"
proof (induction n rule: dec_digits.induct)
  case (1 n)
  then show ?case
    using unat_digit [of "n mod 10"] unat_digit [of n] pos_mod_bound [of 10 "int n"]
    by (subst dec_digits.simps) (auto simp: parse_digits_append)
qed

lemma dec_digits_inject [simp]: "dec_digits m = dec_digits n \<longleftrightarrow> m = n"
  by (metis option.inject parse_digits_dec_digits)

section \<open>Big-endian integers\<close>

text \<open>The white space characters of Unicode in UTF-8, which \<open>trim\<close> and \<open>split_whitespace\<close> look for.\<close>

definition white_space :: "bytes list" where
  "white_space =
     [[9], [10], [11], [12], [13], [32], [0xc2, 0x85], [0xc2, 0xa0], [0xe1, 0x9a, 0x80], [0xe2, 0x80, 0x80], [0xe2, 0x80, 0x81],
      [0xe2, 0x80, 0x82], [0xe2, 0x80, 0x83], [0xe2, 0x80, 0x84], [0xe2, 0x80, 0x85], [0xe2, 0x80, 0x86], [0xe2, 0x80, 0x87],
      [0xe2, 0x80, 0x88], [0xe2, 0x80, 0x89], [0xe2, 0x80, 0x8a], [0xe2, 0x80, 0xa8], [0xe2, 0x80, 0xa9], [0xe2, 0x80, 0xaf],
      [0xe2, 0x81, 0x9f], [0xe3, 0x80, 0x80]]"

definition starts_with :: "bytes \<Rightarrow> bytes \<Rightarrow> bool" where
  "starts_with p s = (take (length p) s = p)"

text \<open>\<open>str::contains\<close>.\<close>

fun contains :: "bytes \<Rightarrow> bytes \<Rightarrow> bool" where
  "contains p [] = (p = [])"
| "contains p (b # bs) = (starts_with p (b # bs) \<or> contains p bs)"

definition ends_with :: "bytes \<Rightarrow> bytes \<Rightarrow> bool" where
  "ends_with p s = (length p \<le> length s \<and> drop (length s - length p) s = p)"

lemma white_space_nonempty: "find P white_space = Some w \<Longrightarrow> P w \<and> w \<noteq> []"
  by (auto simp: white_space_def split: if_splits)

function trim_start :: "bytes \<Rightarrow> bytes" where
  "trim_start s =
     (case find (\<lambda>w. starts_with w s \<and> s \<noteq> []) white_space of Some w \<Rightarrow> trim_start (drop (length w) s) | None \<Rightarrow> s)"
  by pat_completeness auto
termination
  by (relation "measure length") (auto dest!: white_space_nonempty)

function trim_end :: "bytes \<Rightarrow> bytes" where
  "trim_end s =
     (case find (\<lambda>w. ends_with w s \<and> s \<noteq> []) white_space of
        Some w \<Rightarrow> trim_end (take (length s - length w) s) | None \<Rightarrow> s)"
  by pat_completeness auto
termination
  by (relation "measure length") (auto dest!: white_space_nonempty)

definition trim :: "bytes \<Rightarrow> bytes" where
  "trim s = trim_end (trim_start s)"

declare trim_start.simps [simp del] trim_end.simps [simp del]

function words_loop :: "bytes \<Rightarrow> bytes \<Rightarrow> bytes list" where
  "words_loop w s =
     (if s = [] then (if w = [] then [] else [w])
      else case find (\<lambda>x. starts_with x s) white_space of
             Some x \<Rightarrow> (if w = [] then [] else [w]) @ words_loop [] (drop (length x) s)
           | None \<Rightarrow> words_loop (w @ [hd s]) (tl s))"
  by pat_completeness auto
termination
  by (relation "measure (\<lambda>(w, s). length s)") (auto dest!: white_space_nonempty)

declare words_loop.simps [simp del]

definition split_whitespace :: "bytes \<Rightarrow> bytes list" where
  "split_whitespace s = words_loop [] s"

text \<open>\<open>find\<close> of a pattern in a text.\<close>

fun find_str :: "bytes \<Rightarrow> bytes \<Rightarrow> nat option" where
  "find_str p s = (if starts_with p s then Some 0 else case s of [] \<Rightarrow> None | _ # s' \<Rightarrow> map_option Suc (find_str p s'))"

declare find_str.simps [simp del]

text \<open>
  \<open>from_utf8_lossy\<close>: every maximal prefix of a character that is cut off or broken, and every byte that starts no
  character, becomes U+FFFD.
\<close>

definition replacement :: bytes where
  "replacement = [0xef, 0xbf, 0xbd]"

definition second_ok :: "u8 \<Rightarrow> u8 \<Rightarrow> bool" where
  "second_ok a b =
     (if a = 0xe0 then 0xa0 \<le> b \<and> b \<le> 0xbf
      else if a = 0xed then 0x80 \<le> b \<and> b \<le> 0x9f
      else if a = 0xf0 then 0x90 \<le> b \<and> b \<le> 0xbf
      else if a = 0xf4 then 0x80 \<le> b \<and> b \<le> 0x8f
      else 0x80 \<le> b \<and> b \<le> 0xbf)"

definition char_width :: "u8 \<Rightarrow> nat" where
  "char_width a =
     (if a < 0x80 then 1 else if 0xc2 \<le> a \<and> a \<le> 0xdf then 2 else if 0xe0 \<le> a \<and> a \<le> 0xef then 3
      else if 0xf0 \<le> a \<and> a \<le> 0xf4 then 4 else 0)"

text \<open>How many bytes after the first belong to the character, at most \<open>n\<close>.\<close>

definition cont_count :: "nat \<Rightarrow> u8 \<Rightarrow> bytes \<Rightarrow> nat" where
  "cont_count n a r =
     (case r of
        [] \<Rightarrow> 0
      | b # r' \<Rightarrow> if n = 0 \<or> \<not> second_ok a b then 0 else 1 + length (takeWhile (\<lambda>x. 0x80 \<le> x \<and> x \<le> 0xbf) (take (n - 1) r')))"

function from_utf8_lossy :: "bytes \<Rightarrow> bytes" where
  "from_utf8_lossy [] = []"
| "from_utf8_lossy (a # r) =
     (let n = char_width a - 1; k = cont_count n a r in
      (if char_width a \<noteq> 0 \<and> k = n then a # take k r else replacement) @ from_utf8_lossy (drop k r))"
  by pat_completeness auto
termination
  by (relation "measure length") auto

declare from_utf8_lossy.simps [simp del]

definition to_be :: "'a::len word \<Rightarrow> bytes" where
  "to_be w = rev (to_le w)"

definition from_be :: "bytes \<Rightarrow> 'a::len word" where
  "from_be bs = from_le (rev bs)"

lemma length_to_be [codec, simp]: "length (to_be (w :: 'a::len word)) = LENGTH('a) div 8"
  by (simp add: to_be_def)

lemma from_be_to_be [codec, simp]: "8 dvd LENGTH('a) \<Longrightarrow> from_be (to_be w) = (w :: 'a::len word)"
  by (simp add: from_be_def to_be_def)

lemma to_be_from_be [codec]:
  "length bs = LENGTH('a) div 8 \<Longrightarrow> 8 dvd LENGTH('a) \<Longrightarrow> to_be (from_be bs :: 'a::len word) = bs"
  by (simp add: from_be_def to_be_def to_le_from_le)

end
