(* ===== verification/Rbs_Value.thy ===== *)
theory Rbs_Value
  imports Rbdc_Prelude
begin

text \<open>
  The data types of third-party crates that the drivers exchange with their users: the dynamic value of \<open>rbs\<close>
  (its map as the list of its entries) and the date and time of \<open>fastdate\<close>.  Integers are words of their width,
  floating-point numbers their bit patterns, texts their UTF-8 bytes.
\<close>

datatype dyn_value =
    V_Null | V_Bool bool | V_I32 u32 | V_I64 u64 | V_U32 u32 | V_U64 u64 | V_F32 u32 | V_F64 u64
  | V_String bytes | V_Binary bytes | V_Array "dyn_value list" | V_Map "(dyn_value \<times> dyn_value) list"
  | V_Ext string dyn_value

record fdate =
  fd_day :: u8
  fd_mon :: u8
  fd_year :: int

record ftime =
  ft_nano :: u32
  ft_sec :: u8
  ft_minute :: u8
  ft_hour :: u8

text \<open>The functions of these crates, and of \<open>serde_json\<close> and \<open>bigdecimal\<close>, that the drivers call.\<close>

record 'dt kit =
  into_string :: "dyn_value \<Rightarrow> bytes option"
  value_as_str :: "dyn_value \<Rightarrow> bytes option"
  as_u64 :: "dyn_value \<Rightarrow> u64 option"
  as_i64 :: "dyn_value \<Rightarrow> u64 option"
  into_bytes :: "dyn_value \<Rightarrow> bytes option"
  value_to_string :: "dyn_value \<Rightarrow> bytes"
  json_from_str :: "bytes \<Rightarrow> dyn_value res"
  date_from_str :: "bytes \<Rightarrow> fdate res"
  date_to_string :: "fdate \<Rightarrow> bytes"
  time_from_str :: "bytes \<Rightarrow> ftime res"
  datetime_from_str :: "bytes \<Rightarrow> 'dt res"
  datetime_from_str_default :: "bytes \<Rightarrow> int \<Rightarrow> 'dt res"
  datetime_from_parts :: "fdate \<Rightarrow> ftime \<Rightarrow> int \<Rightarrow> 'dt"
  datetime_from_date_time :: "fdate \<Rightarrow> ftime \<Rightarrow> 'dt"
  from_timestamp_millis :: "u64 \<Rightarrow> 'dt"
  unix_timestamp_millis :: "'dt \<Rightarrow> u64"
  datetime_to_string :: "'dt \<Rightarrow> bytes"
  dt_date :: "'dt \<Rightarrow> fdate"
  dt_time :: "'dt \<Rightarrow> ftime"
  decimal_from_str :: "bytes \<Rightarrow> bytes res"
  f32_of_f64 :: "u64 \<Rightarrow> u32"
  f32_parse :: "bytes \<Rightarrow> u32 option"
  f64_parse :: "bytes \<Rightarrow> u64 option"

text \<open>
  \<open>dt_date\<close> and \<open>dt_time\<close> are the component getters of \<open>fastdate::DateTime\<close>;
  \<open>decimal_from_str\<close> is the decimal's parser followed by its \<open>to_string\<close>.
\<close>

end
