(* ===== verification/Mysql_Types.thy ===== *)
theory Mysql_Types
  imports Mysql_Row Std_Text Rbs_Value
begin

text \<open>
  Values on the MySQL wire (\<open>rbdc-mysql/src/types\<close>) and the arguments of a prepared statement
  (\<open>stmt.rs\<close>, \<open>query.rs\<close>, \<open>protocol/statement/execute.rs\<close>). The third-party crates \<open>rbs\<close> (the
  dynamic value and its accessors), \<open>fastdate\<close>, \<open>bigdecimal\<close> and \<open>serde_json\<close> are the
  argument \<open>K\<close>, a \<open>kit\<close> record; \<open>'dt\<close> is the type of \<open>fastdate::DateTime\<close>. Integers are words
  of their width, floating-point numbers their bit patterns, texts their UTF-8 bytes.
\<close>

section \<open>Decoding of single values\<close>

definition uint_decode :: "crates \<Rightarrow> mysql_value \<Rightarrow> u64 res" where
  "uint_decode C v =
     (if ti_type (mv_type_info v) = CT_Bit then
        rbind (as_bytes v) (\<lambda>buf. Ok (fold (\<lambda>b val. ucast b OR push_bit 8 val) buf 0))
      else case mv_format v of
          Text \<Rightarrow> rbind (as_str v) (\<lambda>s. Ok (or_default 0 (parse_u64 s)))
        | Binary \<Rightarrow> rbind (as_bytes v) (\<lambda>buf. read_uint C buf (length buf)))"

definition int_decode :: "crates \<Rightarrow> mysql_value \<Rightarrow> u64 res" where
  "int_decode C v =
     (case mv_format v of
        Text \<Rightarrow> rbind (as_str v) (\<lambda>s. Ok (or_default 0 (parse_i64 s)))
      | Binary \<Rightarrow> rbind (as_bytes v) (\<lambda>buf. rbind (read_int C buf (length buf)) (\<lambda>i. Ok (of_int i))))"

definition f32_decode :: "crates \<Rightarrow> 'dt kit \<Rightarrow> mysql_value \<Rightarrow> u32 res" where
  "f32_decode C K v =
     (case mv_format v of
        Binary \<Rightarrow> rbind (as_bytes v) (\<lambda>buf.
          if length buf = 8 then rbind (read_uint C buf 8) (\<lambda>d. Ok (f32_of_f64 K d))
          else rbind (read_uint C buf 4) (\<lambda>d. Ok (ucast d)))
      | Text \<Rightarrow> rbind (as_str v) (\<lambda>s. Ok (or_default 0 (f32_parse K s))))"

definition f64_decode :: "crates \<Rightarrow> 'dt kit \<Rightarrow> mysql_value \<Rightarrow> u64 res" where
  "f64_decode C K v =
     (case mv_format v of
        Binary \<Rightarrow> rbind (as_bytes v) (\<lambda>buf. read_uint C buf 8)
      | Text \<Rightarrow> rbind (as_str v) (\<lambda>s. Ok (or_default 0 (f64_parse K s))))"

definition decode_bool :: "crates \<Rightarrow> mysql_value \<Rightarrow> bool res" where
  "decode_bool C v = rbind (int_decode C v) (\<lambda>i. Ok (i \<noteq> 0))"

definition decode_date_buf :: "crates \<Rightarrow> bytes \<Rightarrow> fdate res" where
  "decode_date_buf C buf =
     (if buf = [] then Ok \<lparr>fd_day = 0, fd_mon = 0, fd_year = 0\<rparr>
      else
        rbind (index buf 3) (\<lambda>day.
        rbind (index buf 2) (\<lambda>mon.
        rbind (read_u16 C buf) (\<lambda>year.
        Ok \<lparr>fd_day = day, fd_mon = mon, fd_year = uint year\<rparr>))))"

definition decode_year_buf :: "crates \<Rightarrow> bytes \<Rightarrow> bytes res" where
  "decode_year_buf C buf =
     (if buf = [] then Ok []
      else rbind (read_u16 C buf) (\<lambda>y. Ok (pad0 4 (dec_digits (unat y)))))"

definition decode_time_buf :: "crates \<Rightarrow> bytes \<Rightarrow> bytes res" where
  "decode_time_buf C buf =
     rbind (get_u8 C buf) (\<lambda>(hour, buf).
     rbind (get_u8 C buf) (\<lambda>(minute, buf).
     rbind (get_u8 C buf) (\<lambda>(seconds, buf).
     rbind (if 4 \<le> length buf then rbind (get_u32_le C buf) (\<lambda>(m, buf). Ok m) else Ok 0) (\<lambda>milliseconds.
     Ok (pad0 2 (dec_digits (unat hour)) @ lit '':'' @ pad0 2 (dec_digits (unat minute)) @ lit '':'' @
         pad0 2 (dec_digits (unat seconds)) @ lit ''.'' @ pad0 6 (dec_digits (unat milliseconds)))))))"

definition decode_timestamp :: "crates \<Rightarrow> 'dt kit \<Rightarrow> mysql_value \<Rightarrow> bytes res" where
  "decode_timestamp C K v =
     (case mv_format v of
        Text \<Rightarrow> rbind (as_str v) (\<lambda>s. Ok (if s \<noteq> [] \<and> last s = 0x5a then s else s @ [0x5a]))
      | Binary \<Rightarrow>
          rbind (as_bytes v) (\<lambda>buf.
          rbind (index buf 0) (\<lambda>len.
          rbind (slice_from buf 1) (\<lambda>b.
          rbind (decode_date_buf C b) (\<lambda>date.
          rbind (if 4 < len then rbind (slice_from buf 5) (decode_time_buf C) else Ok (lit ''00:00:00'')) (\<lambda>dt.
          Ok (date_to_string K date @ lit '' '' @ dt @ lit ''Z'')))))))"

definition decode_year :: "crates \<Rightarrow> mysql_value \<Rightarrow> bytes res" where
  "decode_year C v =
     (case mv_format v of
        Text \<Rightarrow> as_str v
      | Binary \<Rightarrow> rbind (as_bytes v) (\<lambda>buf. rbind (slice_from buf 1) (decode_year_buf C)))"

definition decode_date :: "crates \<Rightarrow> 'dt kit \<Rightarrow> mysql_value \<Rightarrow> bytes res" where
  "decode_date C K v =
     (case mv_format v of
        Text \<Rightarrow> as_str v
      | Binary \<Rightarrow> rbind (as_bytes v) (\<lambda>buf. rbind (slice_from buf 1) (\<lambda>b.
          rbind (decode_date_buf C b) (\<lambda>d. Ok (date_to_string K d)))))"

definition decode_time_str :: "crates \<Rightarrow> mysql_value \<Rightarrow> bytes res" where
  "decode_time_str C v =
     (case mv_format v of
        Text \<Rightarrow> as_str v
      | Binary \<Rightarrow> rbind (as_bytes v) (\<lambda>buf.
          rbind (index buf 0) (\<lambda>len.
          if 4 < len then rbind (slice_from buf 5) (decode_time_buf C) else Ok (lit ''00:00:00''))))"

section \<open>Temporal types\<close>

text \<open>\<open>encode\<close> returns the number of bytes it reports and the extended buffer.\<close>

definition date_encode :: "fdate \<Rightarrow> bytes \<Rightarrow> (nat \<times> bytes) res" where
  "date_encode d buf = Ok (4, buf @ [4] @ to_le (of_int (fd_year d) :: u16) @ [fd_mon d] @ [fd_day d])"

definition date_decode :: "crates \<Rightarrow> 'dt kit \<Rightarrow> mysql_value \<Rightarrow> fdate res" where
  "date_decode C K v =
     (case mv_format v of
        Text \<Rightarrow> rbind (as_str v) (date_from_str K)
      | Binary \<Rightarrow> rbind (as_bytes v) (\<lambda>buf. rbind (slice_from buf 1) (decode_date_buf C)))"

definition time_encoded_len :: "ftime \<Rightarrow> u8" where
  "time_encoded_len t = (if ft_nano t = 0 then 8 else 12)"

definition encode_time :: "ftime \<Rightarrow> bool \<Rightarrow> bytes \<Rightarrow> bytes" where
  "encode_time t include_micros buf =
     buf @ [ft_hour t] @ [ft_minute t] @ [ft_sec t] @
     (if include_micros then to_le (ft_nano t div 1000) else [])"

definition time_encode :: "ftime \<Rightarrow> bytes \<Rightarrow> (nat \<times> bytes) res" where
  "time_encode t buf =
     (let len = time_encoded_len t
      in Ok (unat len, encode_time t (8 < len) (buf @ [len] @ [0] @ [0, 0, 0, 0])))"

definition decode_time :: "crates \<Rightarrow> bytes \<Rightarrow> ftime res" where
  "decode_time C buf =
     rbind (get_u8 C buf) (\<lambda>(hour, buf).
     rbind (get_u8 C buf) (\<lambda>(minute, buf).
     rbind (get_u8 C buf) (\<lambda>(seconds, buf).
     rbind (if buf \<noteq> [] then rbind (get_uint_le C buf (length buf)) (\<lambda>(m, buf). Ok m) else Ok 0) (\<lambda>micros.
     Ok \<lparr>ft_nano = ucast micros * 1000, ft_sec = seconds, ft_minute = minute, ft_hour = hour\<rparr>))))"

definition zero_time :: ftime where
  "zero_time = \<lparr>ft_nano = 0, ft_sec = 0, ft_minute = 0, ft_hour = 0\<rparr>"

definition time_decode :: "crates \<Rightarrow> 'dt kit \<Rightarrow> mysql_value \<Rightarrow> ftime res" where
  "time_decode C K v =
     (case mv_format v of
        Text \<Rightarrow> rbind (as_str v) (time_from_str K)
      | Binary \<Rightarrow>
          rbind (as_bytes v) (\<lambda>buf.
          rbind (index buf 0) (\<lambda>len.
          if 4 < len then rbind (slice_from buf 5) (decode_time C) else Ok zero_time)))"

definition date_time_size_hint :: "u8 \<Rightarrow> u8 \<Rightarrow> u8 \<Rightarrow> u32 \<Rightarrow> nat" where
  "date_time_size_hint hour minute sec nano =
     (if hour = 0 \<and> minute = 0 \<and> sec = 0 \<and> nano = 0 then 4 else if nano = 0 then 7 else 11)"

fun remove_times :: "nat \<Rightarrow> nat \<Rightarrow> bytes \<Rightarrow> bytes res" where
  "remove_times 0 i buf = Ok buf"
| "remove_times (Suc n) i buf = rbind (vec_remove buf i) (remove_times n i)"

definition datetime_encode :: "'dt kit \<Rightarrow> 'dt \<Rightarrow> bytes \<Rightarrow> (nat \<times> bytes) res" where
  "datetime_encode K datetime buf =
     (let t = dt_time K datetime;
          datetime_size = date_time_size_hint (ft_hour t) (ft_minute t) (ft_sec t) (ft_nano t);
          buf = buf @ [of_nat datetime_size]
      in rbind (date_encode (dt_date K datetime) buf) (\<lambda>(size, buf).
         rbind (vec_remove buf (length buf - (size + 1))) (\<lambda>buf.
         if 4 < datetime_size then
           let before_len = length buf in
           rbind (time_encode t buf) (\<lambda>(encode_len, buf).
           rbind (if 6 < encode_len then remove_times 6 before_len buf else Ok buf) (\<lambda>buf.
           Ok (1 + (size + (length buf - before_len)), buf)))
         else Ok (1 + size, buf))))"

definition datetime_decode :: "crates \<Rightarrow> 'dt kit \<Rightarrow> mysql_value \<Rightarrow> 'dt res" where
  "datetime_decode C K v =
     (case mv_format v of
        Text \<Rightarrow> rbind (as_str v) (\<lambda>s. datetime_from_str_default K s (mv_offset_sec v))
      | Binary \<Rightarrow>
          rbind (as_bytes v) (\<lambda>buf.
          rbind (index buf 0) (\<lambda>len.
          rbind (slice_from buf 1) (\<lambda>b.
          rbind (decode_date_buf C b) (\<lambda>date.
          rbind (if 4 < len then rbind (slice_from buf 5) (decode_time C) else Ok zero_time) (\<lambda>time.
          Ok (datetime_from_parts K date time (mv_offset_sec v))))))))"

definition timestamp_encode :: "'dt kit \<Rightarrow> u64 \<Rightarrow> bytes \<Rightarrow> (nat \<times> bytes) res" where
  "timestamp_encode K ts buf =
     (let datetime = from_timestamp_millis K ts;
          t = dt_time K datetime;
          size = date_time_size_hint (ft_hour t) (ft_minute t) (ft_sec t) (ft_nano t);
          buf = buf @ [of_nat size]
      in rbind (date_encode (dt_date K datetime) buf) (\<lambda>(size_date, buf).
         rbind (vec_remove buf (length buf - 1 - size_date)) (\<lambda>buf.
         if 4 < size + size_date then
           rbind (time_encode t buf) (\<lambda>(size_time, buf).
           rbind (vec_remove buf (length buf - 1 - size_time)) (\<lambda>buf.
           Ok (size + size_date + size_time, buf)))
         else Ok (size + size_date + 0, buf))))"

definition timestamp_decode :: "crates \<Rightarrow> 'dt kit \<Rightarrow> mysql_value \<Rightarrow> u64 res" where
  "timestamp_decode C K v =
     (case mv_format v of
        Text \<Rightarrow> rbind (as_str v) (\<lambda>s. rbind (datetime_from_str K s) (\<lambda>d. Ok (unix_timestamp_millis K d)))
      | Binary \<Rightarrow>
          rbind (as_bytes v) (\<lambda>buf.
          rbind (index buf 0) (\<lambda>len.
          rbind (slice_from buf 1) (\<lambda>b.
          rbind (decode_date_buf C b) (\<lambda>date.
          rbind (if 4 < len then rbind (slice_from buf 5) (decode_time C) else Ok zero_time) (\<lambda>time.
          Ok (unix_timestamp_millis K (datetime_from_date_time K date time))))))))"

definition year_encode :: "u16 \<Rightarrow> bytes \<Rightarrow> (nat \<times> bytes) res" where
  "year_encode y buf = Ok (2, buf @ [2] @ to_le y)"

definition year_decode :: "crates \<Rightarrow> mysql_value \<Rightarrow> u16 res" where
  "year_decode C v =
     (case mv_format v of
        Text \<Rightarrow> rbind (as_str v) (\<lambda>s. Ok (or_default 0 (parse_u16 s)))
      | Binary \<Rightarrow> rbind (as_bytes v) (\<lambda>buf. rbind (slice_from buf 1) (read_u16 C)))"

section \<open>Textual types\<close>

definition lenenc_encode :: "bytes \<Rightarrow> bytes \<Rightarrow> (nat \<times> bytes) res" where
  "lenenc_encode b buf = Ok (length b, put_bytes_lenenc buf b)"

definition uuid_encode :: "bytes \<Rightarrow> bytes \<Rightarrow> (nat \<times> bytes) res" where
  "uuid_encode u buf = lenenc_encode u buf"

definition uuid_decode :: "mysql_value \<Rightarrow> bytes res" where
  "uuid_decode v = unwrap_or [] (as_str v)"

definition decimal_encode :: "bytes \<Rightarrow> bytes \<Rightarrow> (nat \<times> bytes) res" where
  "decimal_encode d buf = lenenc_encode d buf"

definition decimal_decode :: "'dt kit \<Rightarrow> mysql_value \<Rightarrow> bytes res" where
  "decimal_decode K v = rbind (unwrap_or (lit ''0'') (as_str v)) (decimal_from_str K)"

definition enum_encode :: "bytes \<Rightarrow> bytes \<Rightarrow> (nat \<times> bytes) res" where
  "enum_encode e buf = lenenc_encode e buf"

definition enum_decode :: "mysql_value \<Rightarrow> bytes res" where
  "enum_decode v = unwrap_or [] (as_str v)"

definition set_encode :: "bytes \<Rightarrow> bytes \<Rightarrow> (nat \<times> bytes) res" where
  "set_encode s buf = lenenc_encode s buf"

definition set_decode :: "mysql_value \<Rightarrow> bytes res" where
  "set_decode v = unwrap_or [] (as_str v)"

definition geometry_encode :: "bytes \<Rightarrow> bytes \<Rightarrow> (nat \<times> bytes) res" where
  "geometry_encode g buf = (let buf = put_bytes_lenenc buf g in Ok (length buf, buf))"

definition geometry_decode :: "mysql_value \<Rightarrow> bytes res" where
  "geometry_decode v = unwrap_or [] (as_bytes v)"

definition json_encode :: "bytes \<Rightarrow> bytes \<Rightarrow> (nat \<times> bytes) res" where
  "json_encode j buf = lenenc_encode (if j = [] then lit ''null'' else j) buf"

definition json_decode :: "mysql_value \<Rightarrow> bytes res" where
  "json_decode v = unwrap_or (lit ''null'') (as_str v)"

definition encode_json :: "'dt kit \<Rightarrow> dyn_value \<Rightarrow> bytes \<Rightarrow> (nat \<times> bytes) res" where
  "encode_json K arg buf = lenenc_encode (value_to_string K arg) buf"

definition decode_json :: "'dt kit \<Rightarrow> mysql_value \<Rightarrow> dyn_value res" where
  "decode_json K v = rbind (unwrap_or (lit ''null'') (as_str v)) (json_from_str K)"

section \<open>Dynamic values\<close>

definition ext_type_info :: "string \<Rightarrow> type_info" where
  "ext_type_info n =
     (if n = ''Uuid'' then type_info_from_type CT_VarChar
      else if n = ''Decimal'' then type_info_from_type CT_NewDecimal
      else if n = ''Year'' then type_info_from_type CT_Year
      else if n = ''Date'' then type_info_from_type CT_Date
      else if n = ''Time'' then type_info_from_type CT_Time
      else if n = ''Timestamp'' then type_info_from_type CT_Timestamp
      else if n = ''DateTime'' then type_info_from_type CT_Datetime
      else if n = ''Json'' then type_info_from_type CT_Json
      else if n = ''Enum'' then type_info_from_type CT_Enum
      else if n = ''Set'' then type_info_from_type CT_Set
      else type_info_null)"

fun value_type_info :: "dyn_value \<Rightarrow> type_info" where
  "value_type_info V_Null = type_info_null"
| "value_type_info (V_Bool _) = type_info_from_type CT_Tiny"
| "value_type_info (V_I32 _) = type_info_from_type CT_Long"
| "value_type_info (V_I64 _) = type_info_from_type CT_LongLong"
| "value_type_info (V_U32 _) = type_info_from_type CT_Long"
| "value_type_info (V_U64 _) = type_info_from_type CT_LongLong"
| "value_type_info (V_F32 _) = type_info_from_type CT_Float"
| "value_type_info (V_F64 _) = type_info_from_type CT_Double"
| "value_type_info (V_String _) = type_info_from_type CT_VarChar"
| "value_type_info (V_Binary _) = type_info_from_type CT_Blob"
| "value_type_info (V_Array _) = type_info_from_type CT_Json"
| "value_type_info (V_Map _) = type_info_from_type CT_Json"
| "value_type_info (V_Ext n _) = ext_type_info n"

definition ext_encode :: "'dt kit \<Rightarrow> string \<Rightarrow> dyn_value \<Rightarrow> bytes \<Rightarrow> (nat \<times> bytes) res" where
  "ext_encode K n v buf =
     (if n = ''Uuid'' then uuid_encode (or_default [] (into_string K v)) buf
      else if n = ''Decimal'' then
        rbind (unwrap_or (lit ''0'') (decimal_from_str K (or_default [] (value_as_str K v)))) (\<lambda>d. decimal_encode d buf)
      else if n = ''Year'' then year_encode (ucast (or_default 0 (as_u64 K v))) buf
      else if n = ''Date'' then
        rbind (date_from_str K (or_default [] (into_string K v))) (\<lambda>d. date_encode d buf)
      else if n = ''Time'' then
        rbind (time_from_str K (or_default [] (into_string K v))) (\<lambda>t. time_encode t buf)
      else if n = ''Timestamp'' then timestamp_encode K (or_default 0 (as_i64 K v)) buf
      else if n = ''DateTime'' then
        rbind (datetime_from_str K (or_default [] (into_string K v))) (\<lambda>d. datetime_encode K d buf)
      else if n = ''Json'' then json_encode (or_default [] (into_string K v)) buf
      else if n = ''Enum'' then enum_encode (or_default [] (into_string K v)) buf
      else if n = ''Set'' then set_encode (or_default [] (into_string K v)) buf
      else Ok (0, put_bytes_lenenc buf (or_default [] (into_bytes K v))))"

fun value_encode :: "'dt kit \<Rightarrow> dyn_value \<Rightarrow> bytes \<Rightarrow> (nat \<times> bytes) res" where
  "value_encode K V_Null buf = Ok (0, buf)"
| "value_encode K (V_Bool v) buf = Ok (1, buf @ [if v then 1 else 0])"
| "value_encode K (V_I32 v) buf = Ok (4, buf @ to_le v)"
| "value_encode K (V_I64 v) buf = Ok (8, buf @ to_le v)"
| "value_encode K (V_U32 v) buf = Ok (4, buf @ to_le v)"
| "value_encode K (V_U64 v) buf = Ok (8, buf @ to_le v)"
| "value_encode K (V_F32 v) buf = Ok (4, buf @ to_le v)"
| "value_encode K (V_F64 v) buf = Ok (8, buf @ to_le v)"
| "value_encode K (V_String v) buf = Ok (0, put_str_lenenc buf v)"
| "value_encode K (V_Binary v) buf = Ok (0, put_bytes_lenenc buf v)"
| "value_encode K (V_Array v) buf = encode_json K (V_Array v) buf"
| "value_encode K (V_Map v) buf = encode_json K (V_Map v) buf"
| "value_encode K (V_Ext n v) buf = ext_encode K n v buf"

definition value_decode :: "crates \<Rightarrow> 'dt kit \<Rightarrow> mysql_value \<Rightarrow> dyn_value res" where
  "value_decode C K v =
     (case ti_type (mv_type_info v) of
        CT_Tiny \<Rightarrow> rbind (unwrap_or 0 (int_decode C v)) (\<lambda>i. Ok (V_I32 (ucast i)))
      | CT_Short \<Rightarrow> rbind (unwrap_or 0 (int_decode C v)) (\<lambda>i. Ok (V_I32 (ucast i)))
      | CT_Long \<Rightarrow> rbind (unwrap_or 0 (int_decode C v)) (\<lambda>i. Ok (V_I64 i))
      | CT_Float \<Rightarrow> rbind (unwrap_or 0 (f32_decode C K v)) (\<lambda>f. Ok (V_F32 f))
      | CT_Double \<Rightarrow> rbind (unwrap_or 0 (f64_decode C K v)) (\<lambda>f. Ok (V_F64 f))
      | CT_Null \<Rightarrow> Ok V_Null
      | CT_LongLong \<Rightarrow> rbind (unwrap_or 0 (int_decode C v)) (\<lambda>i. Ok (V_I64 i))
      | CT_Int24 \<Rightarrow> rbind (unwrap_or 0 (int_decode C v)) (\<lambda>i. Ok (V_I32 (ucast i)))
      | CT_VarChar \<Rightarrow> rbind (unwrap_or [] (as_str v)) (\<lambda>s. Ok (V_String s))
      | CT_Bit \<Rightarrow> rbind (unwrap_or 0 (uint_decode C v)) (\<lambda>u. Ok (V_U64 u))
      | CT_TinyBlob \<Rightarrow> rbind (unwrap_or [] (as_bytes v)) (\<lambda>b. Ok (V_Binary b))
      | CT_MediumBlob \<Rightarrow> rbind (unwrap_or [] (as_bytes v)) (\<lambda>b. Ok (V_Binary b))
      | CT_LongBlob \<Rightarrow> rbind (unwrap_or [] (as_bytes v)) (\<lambda>b. Ok (V_Binary b))
      | CT_Blob \<Rightarrow> rbind (unwrap_or [] (as_bytes v)) (\<lambda>b. Ok (V_Binary b))
      | CT_VarString \<Rightarrow> rbind (unwrap_or [] (as_str v)) (\<lambda>s. Ok (V_String s))
      | CT_String \<Rightarrow> rbind (unwrap_or [] (as_str v)) (\<lambda>s. Ok (V_String s))
      | CT_Timestamp \<Rightarrow>
          rbind (unwrap_or [] (decode_timestamp C K v)) (\<lambda>s.
          rbind (datetime_from_str K s) (\<lambda>d.
          Ok (V_Ext ''Timestamp'' (V_U64 (unix_timestamp_millis K d)))))
      | CT_Decimal \<Rightarrow> rbind (unwrap_or (lit ''0'') (as_str v)) (\<lambda>s. Ok (V_Ext ''Decimal'' (V_String s)))
      | CT_Date \<Rightarrow> rbind (unwrap_or [] (decode_date C K v)) (\<lambda>s. Ok (V_Ext ''Date'' (V_String s)))
      | CT_Time \<Rightarrow> rbind (unwrap_or [] (decode_time_str C v)) (\<lambda>s. Ok (V_Ext ''Time'' (V_String s)))
      | CT_Datetime \<Rightarrow> rbind (datetime_decode C K v) (\<lambda>d.
          Ok (V_Ext ''DateTime'' (V_String (datetime_to_string K d))))
      | CT_Year \<Rightarrow> rbind (unwrap_or [] (decode_year C v)) (\<lambda>s. Ok (V_Ext ''Year'' (V_String s)))
      | CT_Json \<Rightarrow> decode_json K v
      | CT_NewDecimal \<Rightarrow> rbind (unwrap_or (lit ''0'') (as_str v)) (\<lambda>s. Ok (V_Ext ''Decimal'' (V_String s)))
      | CT_Enum \<Rightarrow> rbind (unwrap_or [] (as_str v)) (\<lambda>s. Ok (V_Ext ''Enum'' (V_String s)))
      | CT_Set \<Rightarrow> rbind (unwrap_or [] (as_str v)) (\<lambda>s. Ok (V_Ext ''Set'' (V_String s)))
      | CT_Geometry \<Rightarrow> rbind (unwrap_or [] (as_bytes v)) (\<lambda>b. Ok (V_Ext ''Geometry'' (V_Binary b))))"

text \<open>\<open>Row::get\<close> of the driver: take the column and decode it.\<close>

definition mysql_row_get :: "crates \<Rightarrow> 'dt kit \<Rightarrow> mysql_row \<Rightarrow> nat \<Rightarrow> (dyn_value \<times> mysql_row) res" where
  "mysql_row_get C K r i =
     rbind (try_take r i) (\<lambda>(v, r).
     case v of
       None \<Rightarrow> Ok (V_Null, r)
     | Some mv \<Rightarrow> rbind (value_decode C K mv) (\<lambda>d. Ok (d, r)))"

section \<open>Arguments of a prepared statement\<close>

record arguments =
  arg_values :: bytes
  arg_types :: "type_info list"
  arg_null_bitmap :: bytes

definition vec_resize :: "bytes \<Rightarrow> nat \<Rightarrow> bytes" where
  "vec_resize b n = take n b @ replicate (n - length b) 0"

definition arguments_add :: "'dt kit \<Rightarrow> arguments \<Rightarrow> dyn_value \<Rightarrow> arguments res" where
  "arguments_add K a arg =
     (let i = length (arg_types a); ty = value_type_info arg in
      rbind (value_encode K arg (arg_values a)) (\<lambda>(_, vs).
      let bm = vec_resize (arg_null_bitmap a) (i div 8 + 1) in
      rbind (if ti_type ty = CT_Null then
               rbind (index bm (i div 8)) (\<lambda>b. Ok (bm[i div 8 := b OR push_bit (i mod 8) 1]))
             else Ok bm) (\<lambda>bm.
      Ok \<lparr>arg_values = vs, arg_types = arg_types a @ [ty], arg_null_bitmap = bm\<rparr>)))"

definition arguments_len :: "arguments \<Rightarrow> nat" where
  "arguments_len a = length (arg_types a)"

definition arguments_default :: arguments where
  "arguments_default = \<lparr>arg_values = [], arg_types = [], arg_null_bitmap = []\<rparr>"

fun add_all :: "'dt kit \<Rightarrow> arguments \<Rightarrow> dyn_value list \<Rightarrow> arguments res" where
  "add_all K a [] = Ok a"
| "add_all K a (x # xs) = rbind (arguments_add K a x) (\<lambda>a. add_all K a xs)"

definition arguments_from_args :: "'dt kit \<Rightarrow> dyn_value list \<Rightarrow> arguments res" where
  "arguments_from_args K args = add_all K arguments_default args"

definition execute_encode :: "u32 \<Rightarrow> arguments \<Rightarrow> u64 \<Rightarrow> bytes \<Rightarrow> bytes" where
  "execute_encode statement_id a capabilities buf =
     buf @ [0x17] @ to_le statement_id @ [0] @ to_le (1 :: u32) @
     (if arg_types a \<noteq> [] then
        arg_null_bitmap a @ [1] @ concat (map (\<lambda>ty. [column_type_id (ti_type ty), 0]) (arg_types a)) @
        arg_values a
      else [])"

text \<open>\<open>MysqlQuery\<close>: plain SQL or a prepared statement, with its arguments.\<close>

record statement_metadata =
  sm_columns :: "mysql_column list"
  sm_column_names :: "(bytes \<times> nat \<times> type_info) list"
  sm_parameters :: nat

record mysql_statement =
  st_sql :: bytes
  st_metadata :: statement_metadata

record mysql_query =
  mq_statement :: "bytes + mysql_statement"
  mq_arguments :: "dyn_value list"
  mq_persistent :: bool

definition query_sql :: "mysql_query \<Rightarrow> bytes" where
  "query_sql q = (case mq_statement q of Inr st \<Rightarrow> st_sql st | Inl sql \<Rightarrow> sql)"

definition query_statement :: "mysql_query \<Rightarrow> mysql_statement option" where
  "query_statement q = (case mq_statement q of Inr st \<Rightarrow> Some st | Inl _ \<Rightarrow> None)"

definition take_arguments :: "'dt kit \<Rightarrow> mysql_query \<Rightarrow> arguments option res" where
  "take_arguments K q =
     (if mq_arguments q = [] then Ok None
      else rbind (arguments_from_args K (mq_arguments q)) (\<lambda>a. Ok (Some a)))"

section \<open>Lemmas\<close>

subsection \<open>What the encoders append\<close>

lemma vec_remove_app: "n = length xs \<Longrightarrow> vec_remove (xs @ y # ys) n = Ok (xs @ ys)"
  by (simp add: vec_remove_def)

lemma remove_times_app: "n = length xs \<Longrightarrow> length ys = k \<Longrightarrow> remove_times k n (xs @ ys @ zs) = Ok (xs @ zs)"
proof (induction k arbitrary: ys)
  case 0
  then show ?case by simp
next
  case (Suc k)
  then obtain y ys' where "ys = y # ys'" "length ys' = k" by (cases ys) auto
  with Suc.IH [of ys'] Suc.prems(1) show ?case by (simp add: vec_remove_app)
qed

definition date_bytes :: "fdate \<Rightarrow> bytes" where
  "date_bytes d = to_le (of_int (fd_year d) :: u16) @ [fd_mon d, fd_day d]"

definition time_bytes :: "ftime \<Rightarrow> bytes" where
  "time_bytes t = [ft_hour t, ft_minute t, ft_sec t] @ (if ft_nano t = 0 then [] else to_le (ft_nano t div 1000))"

lemma length_date_bytes [simp]: "length (date_bytes d) = 4"
  by (simp add: date_bytes_def)

lemma length_time_bytes: "length (time_bytes t) = (if ft_nano t = 0 then 3 else 7)"
  by (simp add: time_bytes_def)

lemma date_encode_bytes: "date_encode d buf = Ok (4, buf @ 4 # date_bytes d)"
  by (simp add: date_encode_def date_bytes_def)

lemma time_encode_bytes:
  "time_encode t buf = Ok (if ft_nano t = 0 then 8 else 12,
     buf @ (if ft_nano t = 0 then 8 else 12) # [0, 0, 0, 0, 0] @ time_bytes t)"
  by (simp add: time_encode_def time_encoded_len_def encode_time_def time_bytes_def)

definition datetime_len :: "ftime \<Rightarrow> nat" where
  "datetime_len t = date_time_size_hint (ft_hour t) (ft_minute t) (ft_sec t) (ft_nano t)"

lemma datetime_len_cases: "datetime_len t = 4 \<and> t = zero_time \<or> datetime_len t = 7 \<and> ft_nano t = 0 \<or> datetime_len t = 11 \<and> ft_nano t \<noteq> 0"
  by (cases t) (auto simp: datetime_len_def date_time_size_hint_def zero_time_def)

lemma datetime_len_pos [simp]: "0 < datetime_len t"
  using datetime_len_cases [of t] by auto

text \<open>The wire form of a date and time: a length byte, the date, the time where it is sent.\<close>

definition datetime_bytes :: "fdate \<Rightarrow> ftime \<Rightarrow> bytes" where
  "datetime_bytes d t = of_nat (datetime_len t) # date_bytes d @ (if datetime_len t = 4 then [] else time_bytes t)"

lemma length_datetime_bytes: "length (datetime_bytes d t) = 1 + datetime_len t"
  using datetime_len_cases [of t] by (auto simp: datetime_bytes_def length_time_bytes)

lemma datetime_encode_bytes:
  "datetime_encode K dt buf =
    Ok (1 + datetime_len (dt_time K dt), buf @ datetime_bytes (dt_date K dt) (dt_time K dt))"
proof -
  let ?d = "dt_date K dt" and ?t = "dt_time K dt"
  let ?pre = "buf @ [of_nat (datetime_len ?t)]"
  have r: "vec_remove (?pre @ 4 # date_bytes ?d) (length (?pre @ 4 # date_bytes ?d) - (4 + 1)) =
      Ok (?pre @ date_bytes ?d)"
    by (rule vec_remove_app) simp
  show ?thesis
  proof (cases "datetime_len ?t = 4")
    case True
    with r show ?thesis
      by (simp add: datetime_encode_def date_encode_bytes datetime_len_def [symmetric] datetime_bytes_def Let_def)
  next
    case False
    let ?l = "(if ft_nano ?t = 0 then 8 else 12) # [0, 0, 0, 0, 0 :: u8]"
    have "remove_times 6 (length (?pre @ date_bytes ?d)) ((?pre @ date_bytes ?d) @ ?l @ time_bytes ?t) =
        Ok ((?pre @ date_bytes ?d) @ time_bytes ?t)"
      by (rule remove_times_app) simp_all
    with False r datetime_len_cases [of ?t] show ?thesis
      by (auto simp: datetime_encode_def date_encode_bytes time_encode_bytes datetime_len_def [symmetric]
          datetime_bytes_def length_time_bytes Let_def simp del: remove_times.simps split: if_splits)
  qed
qed

lemma timestamp_encode_bytes:
  fixes K ts
  defines "dt \<equiv> from_timestamp_millis K ts"
  shows "timestamp_encode K ts buf =
    Ok (datetime_len (dt_time K dt) + 4 + (if ft_nano (dt_time K dt) = 0 then 8 else 12),
      buf @ of_nat (datetime_len (dt_time K dt)) # date_bytes (dt_date K dt) @ [0, 0, 0, 0, 0] @ time_bytes (dt_time K dt))"
proof -
  let ?d = "dt_date K dt" and ?t = "dt_time K dt"
  let ?pre = "buf @ [of_nat (datetime_len ?t)]"
  have r: "vec_remove (?pre @ 4 # date_bytes ?d) (length (?pre @ 4 # date_bytes ?d) - 1 - 4) =
      Ok (?pre @ date_bytes ?d)"
    by (rule vec_remove_app) simp
  let ?n = "if ft_nano ?t = 0 then 8 else 12 :: nat"
  have s: "vec_remove ((?pre @ date_bytes ?d) @ (if ft_nano ?t = 0 then 8 else 12) # [0, 0, 0, 0, 0] @ time_bytes ?t)
      (length ((?pre @ date_bytes ?d) @ (if ft_nano ?t = 0 then 8 else 12 :: u8) # [0, 0, 0, 0, 0] @ time_bytes ?t) - 1 - ?n) =
    Ok ((?pre @ date_bytes ?d) @ [0, 0, 0, 0, 0] @ time_bytes ?t)"
    by (rule vec_remove_app) (simp add: length_time_bytes)
  from r s show ?thesis
    by (simp add: timestamp_encode_def date_encode_bytes time_encode_bytes datetime_len_def [symmetric]
        dt_def [symmetric] Let_def)
qed

subsection \<open>What the decoders read\<close>

definition micro_trunc :: "ftime \<Rightarrow> ftime" where
  "micro_trunc t = t\<lparr>ft_nano := ft_nano t div 1000 * 1000\<rparr>"

lemma from_le_wide: "from_le (to_le (w :: u32)) = (ucast w :: u64)"
proof -
  have "le_nat (to_le w) = unat w"
    using unsigned_less [of w, where ?'a = nat] by (simp add: to_le_def del: le_bytes_numeral)
  then show ?thesis by (simp add: from_le_def)
qed

definition binary_mv :: "column_type \<Rightarrow> int \<Rightarrow> bytes \<Rightarrow> mysql_value" where
  "binary_mv t offset b =
     \<lparr>mv_value = Some b, mv_type_info = type_info_from_type t, mv_format = Binary, mv_offset_sec = offset\<rparr>"

lemma binary_mv_sel [simp]:
  "mv_format (binary_mv t off b) = Binary" "as_bytes (binary_mv t off b) = Ok b"
  "ti_type (mv_type_info (binary_mv t off b)) = t" "mv_offset_sec (binary_mv t off b) = off"
  "as_str (binary_mv t off b) = from_utf8 b"
  by (simp_all add: binary_mv_def as_bytes_def as_str_def type_info_from_type_def)

context crate_laws
begin

lemma decode_time_bytes: "decode_time C (time_bytes t) = Ok (micro_trunc t)"
proof (cases "ft_nano t = 0")
  case True
  then show ?thesis by (cases t) (simp add: time_bytes_def decode_time_def micro_trunc_def)
next
  case False
  define w where "w = ft_nano t div 1000"
  have "get_uint_le C (to_le w) 4 = Ok (ucast w, [])"
    using get_uint_le_app [of "to_le w" 4 "[]"] by (simp add: from_le_wide)
  moreover have "to_le w \<noteq> []" by (simp add: to_le_def)
  moreover have "ucast (ucast w :: u64) = w"
    using unsigned_less [of w, where ?'a = nat] by (intro ucast_ucast_small) simp
  ultimately show ?thesis
    using False by (cases t) (simp add: time_bytes_def decode_time_def micro_trunc_def w_def)
qed

lemma decode_date_bytes:
  assumes "0 \<le> fd_year d" and "fd_year d < 2 ^ 16"
  shows "decode_date_buf C (date_bytes d @ rest) = Ok d"
proof -
  let ?y = "of_int (fd_year d) :: u16"
  obtain a b where ab: "to_le ?y = [a, b]" by (simp add: to_le_def)
  have "from_le [a, b] = ?y" using from_le_to_le [of ?y] unfolding ab by simp
  moreover have "uint ?y = fd_year d" using assms by (simp add: uint_word_of_int_eq take_bit_int_eq_self)
  ultimately show ?thesis
    unfolding decode_date_buf_def date_bytes_def ab by (simp add: read_u16_law)
qed

lemma datetime_decode_bytes:
  assumes "0 \<le> fd_year d" and "fd_year d < 2 ^ 16"
  shows "datetime_decode C K (binary_mv ty off (datetime_bytes d t)) =
    Ok (datetime_from_parts K d (micro_trunc t) off)"
proof -
  note d = decode_date_bytes [OF assms]
  from datetime_len_cases [of t] show ?thesis
  proof (elim disjE conjE)
    assume "datetime_len t = 4" "t = zero_time"
    with d [of "[]"] show ?thesis
      by (simp add: datetime_decode_def datetime_bytes_def slice_from_def micro_trunc_def zero_time_def)
  qed (simp_all add: datetime_decode_def datetime_bytes_def slice_from_def d decode_time_bytes)
qed

end

subsection \<open>Arguments\<close>

lemma value_encode_appends:
  "value_encode K v buf = rbind (value_encode K v []) (\<lambda>(n, b). Ok (n, buf @ b))"
proof -
  have l: "lenenc_encode b buf = rbind (lenenc_encode b []) (\<lambda>(n, c). Ok (n, buf @ c))" for b
    by (simp add: lenenc_encode_def put_bytes_lenenc_app [of buf])
  have e: "ext_encode K n w buf = rbind (ext_encode K n w []) (\<lambda>(n, c). Ok (n, buf @ c))" for n w
    unfolding ext_encode_def uuid_encode_def decimal_encode_def json_encode_def enum_encode_def set_encode_def
    by (simp add: l [symmetric] date_encode_bytes time_encode_bytes timestamp_encode_bytes datetime_encode_bytes
        year_encode_def rbind_assoc put_bytes_lenenc_app [of buf])
  show ?thesis
    by (cases v) (simp_all add: e [symmetric] encode_json_def l [symmetric] put_str_lenenc_app [of buf]
        put_bytes_lenenc_app [of buf])
qed

definition bitmap_bit :: "bytes \<Rightarrow> nat \<Rightarrow> bool" where
  "bitmap_bit bm i = (i div 8 < length bm \<and> bit (bm ! (i div 8)) (i mod 8))"

lemma bitmap_bit_resize: "length bm \<le> n \<Longrightarrow> bitmap_bit (vec_resize bm n) i = bitmap_bit bm i"
  by (auto simp: bitmap_bit_def vec_resize_def nth_append)

lemma bitmap_bit_set:
  assumes "j div 8 < length bm"
  shows "bitmap_bit (bm[j div 8 := bm ! (j div 8) OR push_bit (j mod 8) 1]) i \<longleftrightarrow> bitmap_bit bm i \<or> i = j"
proof (cases "i div 8 = j div 8")
  case True
  have "bit (push_bit (j mod 8) 1 :: u8) (i mod 8) \<longleftrightarrow> i mod 8 = j mod 8"
    by (auto simp: bit_simps)
  moreover have "i mod 8 = j mod 8 \<longleftrightarrow> i = j" using True by (metis div_mult_mod_eq)
  ultimately show ?thesis using assms True by (auto simp: bitmap_bit_def bit_or_iff)
next
  case False
  then show ?thesis using assms by (auto simp: bitmap_bit_def)
qed

definition sends_null :: "dyn_value \<Rightarrow> bool" where
  "sends_null v = (ti_type (value_type_info v) = CT_Null)"

definition arguments_ok :: "'dt kit \<Rightarrow> arguments \<Rightarrow> dyn_value list \<Rightarrow> bool" where
  "arguments_ok K a xs =
     (arg_types a = map value_type_info xs \<and>
      length (arg_null_bitmap a) = (length xs + 7) div 8 \<and>
      (\<forall>i. bitmap_bit (arg_null_bitmap a) i \<longleftrightarrow> i < length xs \<and> sends_null (xs ! i)) \<and>
      (\<exists>bs. list_all2 (\<lambda>x b. \<exists>n. value_encode K x [] = Ok (n, b)) xs bs \<and> arg_values a = concat bs))"

lemma arguments_ok_default: "arguments_ok K arguments_default []"
  by (simp add: arguments_ok_def arguments_default_def bitmap_bit_def)

lemma arguments_add_ok:
  assumes ok: "arguments_ok K a xs" and add: "arguments_add K a x = Ok a'"
  shows "arguments_ok K a' (xs @ [x])"
proof -
  let ?i = "length xs" and ?bm = "vec_resize (arg_null_bitmap a) (length xs div 8 + 1)"
  have ty: "arg_types a = map value_type_info xs" and l: "length (arg_null_bitmap a) = (length xs + 7) div 8"
    and bits: "\<And>i. bitmap_bit (arg_null_bitmap a) i \<longleftrightarrow> i < length xs \<and> sends_null (xs ! i)"
    using ok by (auto simp: arguments_ok_def)
  from ok obtain bs where bs: "list_all2 (\<lambda>x b. \<exists>n. value_encode K x [] = Ok (n, b)) xs bs" "arg_values a = concat bs"
    by (auto simp: arguments_ok_def)
  have bl: "length ?bm = ?i div 8 + 1" using l by (simp add: vec_resize_def)
  have rb: "bitmap_bit ?bm i \<longleftrightarrow> i < length xs \<and> sends_null (xs ! i)" for i
    using bits l by (simp add: bitmap_bit_resize)
  obtain n b where enc: "value_encode K x [] = Ok (n, b)"
    using add ty by (auto simp: arguments_add_def Let_def value_encode_appends [of K x "arg_values a"] res_iff)
  define bm' where "bm' = (if sends_null x then ?bm[?i div 8 := ?bm ! (?i div 8) OR push_bit (?i mod 8) 1] else ?bm)"
  have a': "a' = \<lparr>arg_values = arg_values a @ b, arg_types = arg_types a @ [value_type_info x], arg_null_bitmap = bm'\<rparr>"
    using add ty bl enc value_encode_appends [of K x "arg_values a"]
    by (auto simp: arguments_add_def Let_def bm'_def sends_null_def index_Ok)
  have "length bm' = (length (xs @ [x]) + 7) div 8" using bl by (simp add: bm'_def)
  moreover have "bitmap_bit bm' i \<longleftrightarrow> i < length (xs @ [x]) \<and> sends_null ((xs @ [x]) ! i)" for i
    using rb [of i] bl bitmap_bit_set [of ?i ?bm i]
    by (auto simp: bm'_def nth_append less_Suc_eq)
  moreover have "list_all2 (\<lambda>x b. \<exists>n. value_encode K x [] = Ok (n, b)) (xs @ [x]) (bs @ [b])"
    using bs(1) enc by (simp add: list_all2_appendI)
  moreover have "arg_values a @ b = concat (bs @ [b])" using bs(2) by simp
  ultimately show ?thesis
    using ty unfolding arguments_ok_def a' by (intro conjI allI exI [of _ "bs @ [b]"]) simp_all
qed

lemma add_all_ok:
  "arguments_ok K a xs \<Longrightarrow> add_all K a ys = Ok a' \<Longrightarrow> arguments_ok K a' (xs @ ys)"
proof (induction ys arbitrary: a xs)
  case Nil
  then show ?case by simp
next
  case (Cons y ys)
  from Cons.prems(2) obtain a1 where "arguments_add K a y = Ok a1" "add_all K a1 ys = Ok a'"
    by (auto simp: res_iff)
  with Cons.IH [of a1 "xs @ [y]"] arguments_add_ok [OF Cons.prems(1)] show ?case by simp
qed

lemma arguments_from_args_ok: "arguments_from_args K args = Ok a \<Longrightarrow> arguments_ok K a args"
  using add_all_ok [OF arguments_ok_default, of K args a] by (simp add: arguments_from_args_def)

subsection \<open>Integers\<close>

lemma sign_extend_sint:
  fixes w :: "'a::len word"
  assumes "LENGTH('a) = 8 * n" and "0 < n"
  shows "sign_extend n (unat w) = sint w"
proof -
  obtain m where m: "8 * n = Suc m" using assms(2) by (cases "8 * n") auto
  have lt: "uint w < 2 * 2 ^ m" using uint_bounded [of w] by (simp add: assms(1) m)
  have b: "bit (uint w) m \<longleftrightarrow> 2 ^ m \<le> uint w"
  proof (cases "2 ^ m \<le> uint w")
    case True
    define q where "q = uint w - 2 ^ m"
    have q: "uint w = q + 2 ^ m" "0 \<le> q" "q < 2 ^ m" using True lt by (auto simp: q_def)
    then have "uint w div 2 ^ m = 1" unfolding q(1) by (subst div_add_self2) (simp_all add: div_pos_pos_trivial)
    then show ?thesis using True by (simp add: bit_iff_odd)
  next
    case False
    then show ?thesis by (simp add: bit_iff_odd div_pos_pos_trivial)
  qed
  have "sint w = take_bit (Suc m) (uint w) - 2 ^ Suc m * of_bool (bit (uint w) m)"
    by (simp add: sint_uint assms(1) m signed_take_bit_eq_take_bit_minus)
  also have "take_bit (Suc m) (uint w) = uint w"
    using lt by (simp add: take_bit_int_eq_self)
  finally have s: "sint w = uint w - 2 ^ Suc m * of_bool (2 ^ m \<le> uint w)" by (simp only: b)
  have u: "int (unat w) = uint w" by simp
  have "unat w < 2 ^ m \<longleftrightarrow> int (unat w) < int (2 ^ m)" by (rule of_nat_less_iff [symmetric])
  also have "\<dots> \<longleftrightarrow> \<not> 2 ^ m \<le> uint w" by (simp only: u of_nat_power of_nat_numeral not_le)
  finally show ?thesis
    unfolding s sign_extend_def m by (simp add: u)
qed

context crate_laws
begin

lemma int_decode_le:
  fixes w :: "'a::len word"
  assumes "LENGTH('a) = 8 * n" and "0 < n" and "n \<le> 8"
  shows "int_decode C (binary_mv t off (to_le w)) = Ok (of_int (sint w))"
proof -
  have "le_nat (to_le w) = unat w"
    using unsigned_less [of w, where ?'a = nat] assms(1) by (simp add: to_le_def power_mult)
  moreover have "take n (to_le w) = to_le w" using assms(1) by simp
  ultimately show ?thesis
    using assms sign_extend_sint [OF assms(1,2), of w] by (simp add: int_decode_def read_int_law)
qed

end

section \<open>Properties\<close>

text \<open>C39:  Binding arguments keeps their order and types; the NULL bitmap has one bit per
  argument, set exactly for the arguments whose type is NULL, and the execute packet carries
  bitmap, type codes and the concatenation of the arguments' own encodings.\<close>

theorem execute_carries_arguments:
  assumes "arguments_from_args K args = Ok a"
  shows "length (arg_null_bitmap a) = (length args + 7) div 8 \<and>
    (\<forall>i. bitmap_bit (arg_null_bitmap a) i \<longleftrightarrow> i < length args \<and> sends_null (args ! i)) \<and>
    (\<exists>bs. list_all2 (\<lambda>x b. \<exists>n. value_encode K x [] = Ok (n, b)) args bs \<and>
      execute_encode sid a caps [] = 0x17 # to_le sid @ 0 # to_le (1 :: u32) @
        (if args = [] then []
         else arg_null_bitmap a @ 1 #
           concat (map (\<lambda>x. [column_type_id (ti_type (value_type_info x)), 0]) args) @ concat bs))"
proof -
  from arguments_from_args_ok [OF assms] obtain bs where
    ok: "arg_types a = map value_type_info args" "length (arg_null_bitmap a) = (length args + 7) div 8"
      "\<forall>i. bitmap_bit (arg_null_bitmap a) i \<longleftrightarrow> i < length args \<and> sends_null (args ! i)"
      "list_all2 (\<lambda>x b. \<exists>n. value_encode K x [] = Ok (n, b)) args bs" "arg_values a = concat bs"
    by (auto simp: arguments_ok_def)
  then show ?thesis
    by (intro conjI exI [of _ bs]) (simp_all add: execute_encode_def comp_def)
qed

text \<open>A concrete kit: a date-time is its two parts, texts are not parsed.\<close>

definition sample_kit :: "(fdate \<times> ftime) kit" where
  "sample_kit = \<lparr>
     into_string = (\<lambda>v. case v of V_String s \<Rightarrow> Some s | _ \<Rightarrow> None),
     value_as_str = (\<lambda>v. case v of V_String s \<Rightarrow> Some s | _ \<Rightarrow> None),
     as_u64 = (\<lambda>v. case v of V_U64 u \<Rightarrow> Some u | _ \<Rightarrow> None),
     as_i64 = (\<lambda>v. case v of V_I64 i \<Rightarrow> Some i | _ \<Rightarrow> None),
     into_bytes = (\<lambda>v. case v of V_Binary b \<Rightarrow> Some b | V_String s \<Rightarrow> Some s | _ \<Rightarrow> None),
     value_to_string = (\<lambda>v. lit ''null''),
     json_from_str = (\<lambda>s. Ok V_Null),
     date_from_str = (\<lambda>s. Err (Message ''date'')),
     date_to_string = (\<lambda>d. dec_digits (nat (fd_year d))),
     time_from_str = (\<lambda>s. Err (Message ''time'')),
     datetime_from_str = (\<lambda>s. Err (Message ''datetime'')),
     datetime_from_str_default = (\<lambda>s o'. Err (Message ''datetime'')),
     datetime_from_parts = (\<lambda>d t o'. (d, t)),
     datetime_from_date_time = (\<lambda>d t. (d, t)),
     from_timestamp_millis = (\<lambda>u. (\<lparr>fd_day = 6, fd_mon = 2, fd_year = 1993\<rparr>,
        \<lparr>ft_nano = 0, ft_sec = 5, ft_minute = 4, ft_hour = 15\<rparr>)),
     unix_timestamp_millis = (\<lambda>d. 0),
     datetime_to_string = (\<lambda>d. []),
     dt_date = fst,
     dt_time = snd,
     decimal_from_str = Ok,
     f32_of_f64 = ucast,
     f32_parse = (\<lambda>s. None),
     f64_parse = (\<lambda>s. None)\<rparr>"

theorem execute_carries_arguments_witness:
  "\<exists>a. arguments_from_args sample_kit [V_Null, V_I32 7] = Ok a \<and>
     length (arg_null_bitmap a) = 1 \<and> bitmap_bit (arg_null_bitmap a) 0 \<and> \<not> bitmap_bit (arg_null_bitmap a) 1"
proof -
  obtain a where a: "arguments_from_args sample_kit [V_Null, V_I32 7] = Ok a"
    by (simp add: arguments_from_args_def arguments_add_def arguments_default_def vec_resize_def
        type_info_null_def type_info_from_type_def)
  from execute_carries_arguments [OF a] have "length (arg_null_bitmap a) = 1"
    "\<forall>i. bitmap_bit (arg_null_bitmap a) i \<longleftrightarrow> i < 2 \<and> sends_null ([V_Null, V_I32 7] ! i)" by auto
  with a show ?thesis by (simp add: sends_null_def type_info_null_def type_info_from_type_def)
qed

text \<open>A date-time parameter is encoded with the length byte its components require
  (4, 7 or 11) and decodes, from those bytes, to the same date and the same time truncated to
  microseconds.\<close>

theorem datetime_roundtrip:
  assumes "crate_laws C" and "0 \<le> fd_year (dt_date K d)" and "fd_year (dt_date K d) < 2 ^ 16"
  shows "\<exists>n b. datetime_encode K d [] = Ok (n, b) \<and> n = length b \<and> length b = 1 + unat (hd b) \<and>
    datetime_decode C K (binary_mv CT_Datetime off b) =
      Ok (datetime_from_parts K (dt_date K d) (micro_trunc (dt_time K d)) off)"
proof -
  have "unat (of_nat (datetime_len (dt_time K d)) :: u8) = datetime_len (dt_time K d)"
    using datetime_len_cases [of "dt_time K d"] by auto
  with crate_laws.datetime_decode_bytes [OF assms, of K CT_Datetime off "dt_time K d"] show ?thesis
    by (simp add: datetime_encode_bytes length_datetime_bytes) (simp add: datetime_bytes_def)
qed

theorem datetime_roundtrip_witness:
  "\<exists>n b. datetime_encode sample_kit (\<lparr>fd_day = 6, fd_mon = 2, fd_year = 1993\<rparr>, \<lparr>ft_nano = 1500, ft_sec = 5, ft_minute = 4, ft_hour = 15\<rparr>) [] = Ok (n, b) \<and>
     datetime_decode std_crates sample_kit (binary_mv CT_Datetime 0 b) =
       Ok (\<lparr>fd_day = 6, fd_mon = 2, fd_year = 1993\<rparr>, \<lparr>ft_nano = 1000, ft_sec = 5, ft_minute = 4, ft_hour = 15\<rparr>)"
  using datetime_roundtrip [OF std.crate_laws_axioms, of sample_kit
    "(\<lparr>fd_day = 6, fd_mon = 2, fd_year = 1993\<rparr>, \<lparr>ft_nano = 1500, ft_sec = 5, ft_minute = 4, ft_hour = 15\<rparr>)" 0]
  by (auto simp: sample_kit_def micro_trunc_def)

text \<open>Integers survive the trip through a parameter and back through a binary result
  of the same type, read as signed: a 32-bit value comes back sign-extended to 64 bits and a
  64-bit value unchanged. Unsigned parameters are sent with the same bytes and the same signed
  type, so the upper half of their range comes back negative.\<close>

theorem integers_roundtrip_signed:
  assumes "crate_laws C"
  shows "(\<exists>b. value_encode K (V_I32 v) [] = Ok (4, b) \<and> value_encode K (V_U32 v) [] = Ok (4, b) \<and>
      value_type_info (V_I32 v) = value_type_info (V_U32 v) \<and>
      value_decode C K (binary_mv (ti_type (value_type_info (V_I32 v))) off b) = Ok (V_I64 (scast v))) \<and>
    (\<exists>b. value_encode K (V_I64 w) [] = Ok (8, b) \<and> value_encode K (V_U64 w) [] = Ok (8, b) \<and>
      value_type_info (V_I64 w) = value_type_info (V_U64 w) \<and>
      value_decode C K (binary_mv (ti_type (value_type_info (V_I64 w))) off b) = Ok (V_I64 w))"
  using crate_laws.int_decode_le [OF assms, of 4 CT_Long off v] crate_laws.int_decode_le [OF assms, of 8 CT_LongLong off w]
  by (simp add: value_decode_def type_info_from_type_def)

theorem integers_roundtrip_signed_witness:
  "\<exists>b. value_encode sample_kit (V_U32 0xFFFFFFFF) [] = Ok (4, b) \<and>
     value_decode std_crates sample_kit (binary_mv CT_Long 0 b) = Ok (V_I64 (- 1))"
  using integers_roundtrip_signed [OF std.crate_laws_axioms, of sample_kit "0xFFFFFFFF" 0 0]
  by (auto simp: type_info_from_type_def)

text \<open>A TIME value is not read back as it was written. The binary form is the length,
  a sign byte, four bytes of days and then hour, minute and second; the decoder reads the
  components from offset five, the last byte of the days, so that the hour is taken for the
  minute, the minute for the second and the second for microseconds.\<close>

theorem time_decode_is_shifted:
  assumes "crate_laws C" and "ft_nano t = 0"
  shows "\<exists>b. time_encode t [] = Ok (8, b) \<and>
    time_decode C K (binary_mv CT_Time off b) =
      Ok \<lparr>ft_nano = ucast (ft_sec t) * 1000, ft_sec = ft_minute t, ft_minute = ft_hour t, ft_hour = 0\<rparr>"
proof -
  note get = crate_laws.get_u8_Cons [OF assms(1)]
  have "get_uint_le C [ft_sec t] 1 = Ok (from_le [ft_sec t], [])"
    using crate_laws.get_uint_le_app [OF assms(1), of "[ft_sec t]" 1 "[]"] by simp
  moreover have "from_le [ft_sec t] = (ucast (ft_sec t) :: u64)" by (simp add: from_le_def)
  moreover have "ucast (ucast (ft_sec t) :: u64) = (ucast (ft_sec t) :: u32)"
    by (rule bit_word_eqI) (auto simp: bit_simps dest: bit_imp_le_length)
  ultimately show ?thesis
    using assms(2) by (simp add: time_encode_bytes time_decode_def time_bytes_def slice_from_def decode_time_def get)
qed

theorem time_decode_is_shifted_witness:
  "\<exists>b. time_encode \<lparr>ft_nano = 0, ft_sec = 56, ft_minute = 34, ft_hour = 12\<rparr> [] = Ok (8, b) \<and>
     time_decode std_crates sample_kit (binary_mv CT_Time 0 b) =
       Ok \<lparr>ft_nano = 56000, ft_sec = 34, ft_minute = 12, ft_hour = 0\<rparr>"
  using time_decode_is_shifted [OF std.crate_laws_axioms, of
    "\<lparr>ft_nano = 0, ft_sec = 56, ft_minute = 34, ft_hour = 12\<rparr>" sample_kit 0]
  by simp

text \<open>The encoding of a timestamp parameter is longer than its length byte announces:
  the sign and day bytes of the embedded time are left in place (and the time is appended even
  when the length says it is absent), so a server takes the surplus bytes for the next
  parameter.\<close>

theorem timestamp_encode_overlong:
  "\<exists>n b. timestamp_encode K ts [] = Ok (n, b) \<and> 1 + unat (hd b) + 5 \<le> length b"
proof -
  let ?t = "dt_time K (from_timestamp_millis K ts)"
  have "unat (of_nat (datetime_len ?t) :: u8) = datetime_len ?t"
    using datetime_len_cases [of ?t] by auto
  with datetime_len_cases [of ?t] show ?thesis
    by (auto simp: timestamp_encode_bytes length_time_bytes)
qed

text \<open>A value of an extension type the encoder does not know is announced as NULL, yet
  its bytes are still appended to the parameter values. The driver produces such values
  itself: a GEOMETRY column is decoded to the extension type Geometry, and sent back as a
  parameter it is NULL followed by stray bytes.\<close>

theorem geometry_is_sent_as_null:
  assumes "into_bytes K (V_Binary b) = Some b"
  shows "\<exists>g. value_decode C K (binary_mv CT_Geometry off b) = Ok g \<and> sends_null g \<and>
    value_encode K g [] = Ok (0, put_bytes_lenenc [] b) \<and> put_bytes_lenenc [] b \<noteq> []"
  using assms put_uint_lenenc_hd [of "of_nat (length b)"]
  by (simp add: value_decode_def sends_null_def ext_type_info_def type_info_null_def ext_encode_def
      or_default_def put_bytes_lenenc_def)

theorem geometry_is_sent_as_null_witness:
  "\<exists>g. value_decode std_crates sample_kit (binary_mv CT_Geometry 0 [1, 2]) = Ok g \<and> sends_null g \<and>
     value_encode sample_kit g [] = Ok (0, [2, 1, 2])"
  using geometry_is_sent_as_null [of sample_kit "[1, 2]" std_crates 0]
  by (simp add: sample_kit_def put_bytes_lenenc_def put_uint_lenenc_def)

end
