(* ===== verification/Mysql_Collation.thy ===== *)
theory Mysql_Collation
  imports Rbdc_Prelude
begin

text \<open>
  The character sets and collations of the MySQL driver (\<open>rbdc-mysql/src/collation.rs\<close>). A
  variant of the two enumerations is its identifier; the tables list, in the order of the
  source, the discriminants of the \<open>repr(u8)\<close> enumeration and the arms of the \<open>as_str\<close>,
  \<open>default_collation\<close> and \<open>from_str\<close> matches.
\<close>

type_synonym char_set = string
type_synonym collation = string

section \<open>Character sets\<close>

definition char_sets :: "char_set list" where
  "char_sets =
   [''armscii8'', ''ascii'', ''big5'', ''binary'', ''cp1250'', ''cp1251'', ''cp1256'',
    ''cp1257'', ''cp850'', ''cp852'', ''cp866'', ''cp932'', ''dec8'', ''eucjpms'', ''euckr'',
    ''gb18030'', ''gb2312'', ''gbk'', ''geostd8'', ''greek'', ''hebrew'', ''hp8'', ''keybcs2'',
    ''koi8r'', ''koi8u'', ''latin1'', ''latin2'', ''latin5'', ''latin7'', ''macce'',
    ''macroman'', ''sjis'', ''swe7'', ''tis620'', ''ucs2'', ''ujis'', ''utf16'', ''utf16le'',
    ''utf32'', ''utf8'', ''utf8mb4'']"

definition char_set_as_str_table :: "(char_set \<times> string) list" where
  "char_set_as_str_table =
   [(''armscii8'', ''armscii8''), (''ascii'', ''ascii''), (''big5'', ''big5''),
    (''binary'', ''binary''), (''cp1250'', ''cp1250''), (''cp1251'', ''cp1251''),
    (''cp1256'', ''cp1256''), (''cp1257'', ''cp1257''), (''cp850'', ''cp850''),
    (''cp852'', ''cp852''), (''cp866'', ''cp866''), (''cp932'', ''cp932''),
    (''dec8'', ''dec8''), (''eucjpms'', ''eucjpms''), (''euckr'', ''euckr''),
    (''gb18030'', ''gb18030''), (''gb2312'', ''gb2312''), (''gbk'', ''gbk''),
    (''geostd8'', ''geostd8''), (''greek'', ''greek''), (''hebrew'', ''hebrew''),
    (''hp8'', ''hp8''), (''keybcs2'', ''keybcs2''), (''koi8r'', ''koi8r''),
    (''koi8u'', ''koi8u''), (''latin1'', ''latin1''), (''latin2'', ''latin2''),
    (''latin5'', ''latin5''), (''latin7'', ''latin7''), (''macce'', ''macce''),
    (''macroman'', ''macroman''), (''sjis'', ''sjis''), (''swe7'', ''swe7''),
    (''tis620'', ''tis620''), (''ucs2'', ''ucs2''), (''ujis'', ''ujis''),
    (''utf16'', ''utf16''), (''utf16le'', ''utf16le''), (''utf32'', ''utf32''),
    (''utf8'', ''utf8''), (''utf8mb4'', ''utf8mb4'')]"

definition default_collation_table :: "(char_set \<times> collation) list" where
  "default_collation_table =
   [(''armscii8'', ''armscii8_general_ci''), (''ascii'', ''ascii_general_ci''),
    (''big5'', ''big5_chinese_ci''), (''binary'', ''binary''),
    (''cp1250'', ''cp1250_general_ci''), (''cp1251'', ''cp1251_general_ci''),
    (''cp1256'', ''cp1256_general_ci''), (''cp1257'', ''cp1257_general_ci''),
    (''cp850'', ''cp850_general_ci''), (''cp852'', ''cp852_general_ci''),
    (''cp866'', ''cp866_general_ci''), (''cp932'', ''cp932_japanese_ci''),
    (''dec8'', ''dec8_swedish_ci''), (''eucjpms'', ''eucjpms_japanese_ci''),
    (''euckr'', ''euckr_korean_ci''), (''gb18030'', ''gb18030_chinese_ci''),
    (''gb2312'', ''gb2312_chinese_ci''), (''gbk'', ''gbk_chinese_ci''),
    (''geostd8'', ''geostd8_general_ci''), (''greek'', ''greek_general_ci''),
    (''hebrew'', ''hebrew_general_ci''), (''hp8'', ''hp8_english_ci''),
    (''keybcs2'', ''keybcs2_general_ci''), (''koi8r'', ''koi8r_general_ci''),
    (''koi8u'', ''koi8u_general_ci''), (''latin1'', ''latin1_swedish_ci''),
    (''latin2'', ''latin2_general_ci''), (''latin5'', ''latin5_turkish_ci''),
    (''latin7'', ''latin7_general_ci''), (''macce'', ''macce_general_ci''),
    (''macroman'', ''macroman_general_ci''), (''sjis'', ''sjis_japanese_ci''),
    (''swe7'', ''swe7_swedish_ci''), (''tis620'', ''tis620_thai_ci''),
    (''ucs2'', ''ucs2_general_ci''), (''ujis'', ''ujis_japanese_ci''),
    (''utf16'', ''utf16_general_ci''), (''utf16le'', ''utf16le_general_ci''),
    (''utf32'', ''utf32_general_ci''), (''utf8'', ''utf8_unicode_ci''),
    (''utf8mb4'', ''utf8mb4_unicode_ci'')]"

definition char_set_from_str_table :: "(string \<times> char_set) list" where
  "char_set_from_str_table =
   [(''armscii8'', ''armscii8''), (''ascii'', ''ascii''), (''big5'', ''big5''),
    (''binary'', ''binary''), (''cp1250'', ''cp1250''), (''cp1251'', ''cp1251''),
    (''cp1256'', ''cp1256''), (''cp1257'', ''cp1257''), (''cp850'', ''cp850''),
    (''cp852'', ''cp852''), (''cp866'', ''cp866''), (''cp932'', ''cp932''),
    (''dec8'', ''dec8''), (''eucjpms'', ''eucjpms''), (''euckr'', ''euckr''),
    (''gb18030'', ''gb18030''), (''gb2312'', ''gb2312''), (''gbk'', ''gbk''),
    (''geostd8'', ''geostd8''), (''greek'', ''greek''), (''hebrew'', ''hebrew''),
    (''hp8'', ''hp8''), (''keybcs2'', ''keybcs2''), (''koi8r'', ''koi8r''),
    (''koi8u'', ''koi8u''), (''latin1'', ''latin1''), (''latin2'', ''latin2''),
    (''latin5'', ''latin5''), (''latin7'', ''latin7''), (''macce'', ''macce''),
    (''macroman'', ''macroman''), (''sjis'', ''sjis''), (''swe7'', ''swe7''),
    (''tis620'', ''tis620''), (''ucs2'', ''ucs2''), (''ujis'', ''ujis''),
    (''utf16'', ''utf16''), (''utf16le'', ''utf16le''), (''utf32'', ''utf32''),
    (''utf8'', ''utf8''), (''utf8mb4'', ''utf8mb4'')]"

section \<open>Collations\<close>

definition collation_ids_1 :: "(collation \<times> u8) list" where
  "collation_ids_1 =
   [(''armscii8_bin'', 64), (''armscii8_general_ci'', 32), (''ascii_bin'', 65),
    (''ascii_general_ci'', 11), (''big5_bin'', 84), (''big5_chinese_ci'', 1), (''binary'', 63),
    (''cp1250_bin'', 66), (''cp1250_croatian_ci'', 44), (''cp1250_czech_cs'', 34),
    (''cp1250_general_ci'', 26), (''cp1250_polish_ci'', 99), (''cp1251_bin'', 50),
    (''cp1251_bulgarian_ci'', 14), (''cp1251_general_ci'', 51), (''cp1251_general_cs'', 52),
    (''cp1251_ukrainian_ci'', 23), (''cp1256_bin'', 67), (''cp1256_general_ci'', 57),
    (''cp1257_bin'', 58), (''cp1257_general_ci'', 59), (''cp1257_lithuanian_ci'', 29),
    (''cp850_bin'', 80), (''cp850_general_ci'', 4), (''cp852_bin'', 81),
    (''cp852_general_ci'', 40), (''cp866_bin'', 68), (''cp866_general_ci'', 36),
    (''cp932_bin'', 96), (''cp932_japanese_ci'', 95), (''dec8_bin'', 69),
    (''dec8_swedish_ci'', 3), (''eucjpms_bin'', 98), (''eucjpms_japanese_ci'', 97),
    (''euckr_bin'', 85), (''euckr_korean_ci'', 19), (''gb18030_bin'', 249),
    (''gb18030_chinese_ci'', 248), (''gb18030_unicode_520_ci'', 250), (''gb2312_bin'', 86),
    (''gb2312_chinese_ci'', 24), (''gbk_bin'', 87), (''gbk_chinese_ci'', 28),
    (''geostd8_bin'', 93), (''geostd8_general_ci'', 92), (''greek_bin'', 70),
    (''greek_general_ci'', 25), (''hebrew_bin'', 71), (''hebrew_general_ci'', 16),
    (''hp8_bin'', 72), (''hp8_english_ci'', 6), (''keybcs2_bin'', 73),
    (''keybcs2_general_ci'', 37), (''koi8r_bin'', 74), (''koi8r_general_ci'', 7),
    (''koi8u_bin'', 75), (''koi8u_general_ci'', 22), (''latin1_bin'', 47),
    (''latin1_danish_ci'', 15), (''latin1_general_ci'', 48), (''latin1_general_cs'', 49),
    (''latin1_german1_ci'', 5), (''latin1_german2_ci'', 31), (''latin1_spanish_ci'', 94),
    (''latin1_swedish_ci'', 8), (''latin2_bin'', 77), (''latin2_croatian_ci'', 27),
    (''latin2_czech_cs'', 2), (''latin2_general_ci'', 9), (''latin2_hungarian_ci'', 21),
    (''latin5_bin'', 78), (''latin5_turkish_ci'', 30), (''latin7_bin'', 79),
    (''latin7_estonian_cs'', 20), (''latin7_general_ci'', 41), (''latin7_general_cs'', 42),
    (''macce_bin'', 43), (''macce_general_ci'', 38), (''macroman_bin'', 53),
    (''macroman_general_ci'', 39), (''sjis_bin'', 88), (''sjis_japanese_ci'', 13),
    (''swe7_bin'', 82), (''swe7_swedish_ci'', 10), (''tis620_bin'', 89),
    (''tis620_thai_ci'', 18), (''ucs2_bin'', 90), (''ucs2_croatian_ci'', 149),
    (''ucs2_czech_ci'', 138), (''ucs2_danish_ci'', 139), (''ucs2_esperanto_ci'', 145),
    (''ucs2_estonian_ci'', 134), (''ucs2_general_ci'', 35),
    (''ucs2_general_mysql500_ci'', 159), (''ucs2_german2_ci'', 148),
    (''ucs2_hungarian_ci'', 146), (''ucs2_icelandic_ci'', 129), (''ucs2_latvian_ci'', 130),
    (''ucs2_lithuanian_ci'', 140), (''ucs2_persian_ci'', 144), (''ucs2_polish_ci'', 133),
    (''ucs2_roman_ci'', 143), (''ucs2_romanian_ci'', 131), (''ucs2_sinhala_ci'', 147),
    (''ucs2_slovak_ci'', 141), (''ucs2_slovenian_ci'', 132), (''ucs2_spanish_ci'', 135),
    (''ucs2_spanish2_ci'', 142), (''ucs2_swedish_ci'', 136), (''ucs2_turkish_ci'', 137),
    (''ucs2_unicode_520_ci'', 150), (''ucs2_unicode_ci'', 128), (''ucs2_vietnamese_ci'', 151),
    (''ujis_bin'', 91), (''ujis_japanese_ci'', 12), (''utf16_bin'', 55),
    (''utf16_croatian_ci'', 122), (''utf16_czech_ci'', 111), (''utf16_danish_ci'', 112),
    (''utf16_esperanto_ci'', 118), (''utf16_estonian_ci'', 107), (''utf16_general_ci'', 54),
    (''utf16_german2_ci'', 121), (''utf16_hungarian_ci'', 119), (''utf16_icelandic_ci'', 102),
    (''utf16_latvian_ci'', 103), (''utf16_lithuanian_ci'', 113), (''utf16_persian_ci'', 117),
    (''utf16_polish_ci'', 106), (''utf16_roman_ci'', 116), (''utf16_romanian_ci'', 104),
    (''utf16_sinhala_ci'', 120), (''utf16_slovak_ci'', 114), (''utf16_slovenian_ci'', 105),
    (''utf16_spanish_ci'', 108), (''utf16_spanish2_ci'', 115), (''utf16_swedish_ci'', 109),
    (''utf16_turkish_ci'', 110), (''utf16_unicode_520_ci'', 123), (''utf16_unicode_ci'', 101)]"

definition collation_ids_2 :: "(collation \<times> u8) list" where
  "collation_ids_2 =
   [(''utf16_vietnamese_ci'', 124), (''utf16le_bin'', 62), (''utf16le_general_ci'', 56),
    (''utf32_bin'', 61), (''utf32_croatian_ci'', 181), (''utf32_czech_ci'', 170),
    (''utf32_danish_ci'', 171), (''utf32_esperanto_ci'', 177), (''utf32_estonian_ci'', 166),
    (''utf32_general_ci'', 60), (''utf32_german2_ci'', 180), (''utf32_hungarian_ci'', 178),
    (''utf32_icelandic_ci'', 161), (''utf32_latvian_ci'', 162), (''utf32_lithuanian_ci'', 172),
    (''utf32_persian_ci'', 176), (''utf32_polish_ci'', 165), (''utf32_roman_ci'', 175),
    (''utf32_romanian_ci'', 163), (''utf32_sinhala_ci'', 179), (''utf32_slovak_ci'', 173),
    (''utf32_slovenian_ci'', 164), (''utf32_spanish_ci'', 167), (''utf32_spanish2_ci'', 174),
    (''utf32_swedish_ci'', 168), (''utf32_turkish_ci'', 169), (''utf32_unicode_520_ci'', 182),
    (''utf32_unicode_ci'', 160), (''utf32_vietnamese_ci'', 183), (''utf8_bin'', 83),
    (''utf8_croatian_ci'', 213), (''utf8_czech_ci'', 202), (''utf8_danish_ci'', 203),
    (''utf8_esperanto_ci'', 209), (''utf8_estonian_ci'', 198), (''utf8_general_ci'', 33),
    (''utf8_general_mysql500_ci'', 223), (''utf8_german2_ci'', 212),
    (''utf8_hungarian_ci'', 210), (''utf8_icelandic_ci'', 193), (''utf8_latvian_ci'', 194),
    (''utf8_lithuanian_ci'', 204), (''utf8_persian_ci'', 208), (''utf8_polish_ci'', 197),
    (''utf8_roman_ci'', 207), (''utf8_romanian_ci'', 195), (''utf8_sinhala_ci'', 211),
    (''utf8_slovak_ci'', 205), (''utf8_slovenian_ci'', 196), (''utf8_spanish_ci'', 199),
    (''utf8_spanish2_ci'', 206), (''utf8_swedish_ci'', 200), (''utf8_tolower_ci'', 76),
    (''utf8_turkish_ci'', 201), (''utf8_unicode_520_ci'', 214), (''utf8_unicode_ci'', 192),
    (''utf8_vietnamese_ci'', 215), (''utf8mb4_0900_ai_ci'', 255), (''utf8mb4_bin'', 46),
    (''utf8mb4_croatian_ci'', 245), (''utf8mb4_czech_ci'', 234), (''utf8mb4_danish_ci'', 235),
    (''utf8mb4_esperanto_ci'', 241), (''utf8mb4_estonian_ci'', 230),
    (''utf8mb4_general_ci'', 45), (''utf8mb4_german2_ci'', 244),
    (''utf8mb4_hungarian_ci'', 242), (''utf8mb4_icelandic_ci'', 225),
    (''utf8mb4_latvian_ci'', 226), (''utf8mb4_lithuanian_ci'', 236),
    (''utf8mb4_persian_ci'', 240), (''utf8mb4_polish_ci'', 229), (''utf8mb4_roman_ci'', 239),
    (''utf8mb4_romanian_ci'', 227), (''utf8mb4_sinhala_ci'', 243),
    (''utf8mb4_slovak_ci'', 237), (''utf8mb4_slovenian_ci'', 228),
    (''utf8mb4_spanish_ci'', 231), (''utf8mb4_spanish2_ci'', 238),
    (''utf8mb4_swedish_ci'', 232), (''utf8mb4_turkish_ci'', 233),
    (''utf8mb4_unicode_520_ci'', 246), (''utf8mb4_unicode_ci'', 224),
    (''utf8mb4_vietnamese_ci'', 247)]"

definition collation_ids :: "(collation \<times> u8) list" where
  "collation_ids = collation_ids_1 @ collation_ids_2"

definition collation_as_str_1 :: "(collation \<times> string) list" where
  "collation_as_str_1 =
   [(''armscii8_bin'', ''armscii8_bin''), (''armscii8_general_ci'', ''armscii8_general_ci''),
    (''ascii_bin'', ''ascii_bin''), (''ascii_general_ci'', ''ascii_general_ci''),
    (''big5_bin'', ''big5_bin''), (''big5_chinese_ci'', ''big5_chinese_ci''),
    (''binary'', ''binary''), (''cp1250_bin'', ''cp1250_bin''),
    (''cp1250_croatian_ci'', ''cp1250_croatian_ci''),
    (''cp1250_czech_cs'', ''cp1250_czech_cs''), (''cp1250_general_ci'', ''cp1250_general_ci''),
    (''cp1250_polish_ci'', ''cp1250_polish_ci''), (''cp1251_bin'', ''cp1251_bin''),
    (''cp1251_bulgarian_ci'', ''cp1251_bulgarian_ci''),
    (''cp1251_general_ci'', ''cp1251_general_ci''),
    (''cp1251_general_cs'', ''cp1251_general_cs''),
    (''cp1251_ukrainian_ci'', ''cp1251_ukrainian_ci''), (''cp1256_bin'', ''cp1256_bin''),
    (''cp1256_general_ci'', ''cp1256_general_ci''), (''cp1257_bin'', ''cp1257_bin''),
    (''cp1257_general_ci'', ''cp1257_general_ci''),
    (''cp1257_lithuanian_ci'', ''cp1257_lithuanian_ci''), (''cp850_bin'', ''cp850_bin''),
    (''cp850_general_ci'', ''cp850_general_ci''), (''cp852_bin'', ''cp852_bin''),
    (''cp852_general_ci'', ''cp852_general_ci''), (''cp866_bin'', ''cp866_bin''),
    (''cp866_general_ci'', ''cp866_general_ci''), (''cp932_bin'', ''cp932_bin''),
    (''cp932_japanese_ci'', ''cp932_japanese_ci''), (''dec8_bin'', ''dec8_bin''),
    (''dec8_swedish_ci'', ''dec8_swedish_ci''), (''eucjpms_bin'', ''eucjpms_bin''),
    (''eucjpms_japanese_ci'', ''eucjpms_japanese_ci''), (''euckr_bin'', ''euckr_bin''),
    (''euckr_korean_ci'', ''euckr_korean_ci''), (''gb18030_bin'', ''gb18030_bin''),
    (''gb18030_chinese_ci'', ''gb18030_chinese_ci''),
    (''gb18030_unicode_520_ci'', ''gb18030_unicode_520_ci''), (''gb2312_bin'', ''gb2312_bin''),
    (''gb2312_chinese_ci'', ''gb2312_chinese_ci''), (''gbk_bin'', ''gbk_bin''),
    (''gbk_chinese_ci'', ''gbk_chinese_ci''), (''geostd8_bin'', ''geostd8_bin''),
    (''geostd8_general_ci'', ''geostd8_general_ci''), (''greek_bin'', ''greek_bin''),
    (''greek_general_ci'', ''greek_general_ci''), (''hebrew_bin'', ''hebrew_bin''),
    (''hebrew_general_ci'', ''hebrew_general_ci''), (''hp8_bin'', ''hp8_bin''),
    (''hp8_english_ci'', ''hp8_english_ci''), (''keybcs2_bin'', ''keybcs2_bin''),
    (''keybcs2_general_ci'', ''keybcs2_general_ci''), (''koi8r_bin'', ''koi8r_bin''),
    (''koi8r_general_ci'', ''koi8r_general_ci''), (''koi8u_bin'', ''koi8u_bin''),
    (''koi8u_general_ci'', ''koi8u_general_ci''), (''latin1_bin'', ''latin1_bin''),
    (''latin1_danish_ci'', ''latin1_danish_ci''),
    (''latin1_general_ci'', ''latin1_general_ci''),
    (''latin1_general_cs'', ''latin1_general_cs''),
    (''latin1_german1_ci'', ''latin1_german1_ci''),
    (''latin1_german2_ci'', ''latin1_german2_ci''),
    (''latin1_spanish_ci'', ''latin1_spanish_ci''),
    (''latin1_swedish_ci'', ''latin1_swedish_ci''), (''latin2_bin'', ''latin2_bin''),
    (''latin2_croatian_ci'', ''latin2_croatian_ci''),
    (''latin2_czech_cs'', ''latin2_czech_cs''), (''latin2_general_ci'', ''latin2_general_ci''),
    (''latin2_hungarian_ci'', ''latin2_hungarian_ci''), (''latin5_bin'', ''latin5_bin''),
    (''latin5_turkish_ci'', ''latin5_turkish_ci''), (''latin7_bin'', ''latin7_bin''),
    (''latin7_estonian_cs'', ''latin7_estonian_cs''),
    (''latin7_general_ci'', ''latin7_general_ci''),
    (''latin7_general_cs'', ''latin7_general_cs''), (''macce_bin'', ''macce_bin''),
    (''macce_general_ci'', ''macce_general_ci''), (''macroman_bin'', ''macroman_bin''),
    (''macroman_general_ci'', ''macroman_general_ci''), (''sjis_bin'', ''sjis_bin''),
    (''sjis_japanese_ci'', ''sjis_japanese_ci''), (''swe7_bin'', ''swe7_bin''),
    (''swe7_swedish_ci'', ''swe7_swedish_ci''), (''tis620_bin'', ''tis620_bin''),
    (''tis620_thai_ci'', ''tis620_thai_ci''), (''ucs2_bin'', ''ucs2_bin''),
    (''ucs2_croatian_ci'', ''ucs2_croatian_ci''), (''ucs2_czech_ci'', ''ucs2_czech_ci''),
    (''ucs2_danish_ci'', ''ucs2_danish_ci''), (''ucs2_esperanto_ci'', ''ucs2_esperanto_ci''),
    (''ucs2_estonian_ci'', ''ucs2_estonian_ci''), (''ucs2_general_ci'', ''ucs2_general_ci''),
    (''ucs2_general_mysql500_ci'', ''ucs2_general_mysql500_ci''),
    (''ucs2_german2_ci'', ''ucs2_german2_ci''), (''ucs2_hungarian_ci'', ''ucs2_hungarian_ci''),
    (''ucs2_icelandic_ci'', ''ucs2_icelandic_ci''), (''ucs2_latvian_ci'', ''ucs2_latvian_ci''),
    (''ucs2_lithuanian_ci'', ''ucs2_lithuanian_ci''),
    (''ucs2_persian_ci'', ''ucs2_persian_ci''), (''ucs2_polish_ci'', ''ucs2_polish_ci''),
    (''ucs2_roman_ci'', ''ucs2_roman_ci''), (''ucs2_romanian_ci'', ''ucs2_romanian_ci''),
    (''ucs2_sinhala_ci'', ''ucs2_sinhala_ci''), (''ucs2_slovak_ci'', ''ucs2_slovak_ci''),
    (''ucs2_slovenian_ci'', ''ucs2_slovenian_ci''), (''ucs2_spanish_ci'', ''ucs2_spanish_ci''),
    (''ucs2_spanish2_ci'', ''ucs2_spanish2_ci''), (''ucs2_swedish_ci'', ''ucs2_swedish_ci''),
    (''ucs2_turkish_ci'', ''ucs2_turkish_ci''),
    (''ucs2_unicode_520_ci'', ''ucs2_unicode_520_ci''),
    (''ucs2_unicode_ci'', ''ucs2_unicode_ci''),
    (''ucs2_vietnamese_ci'', ''ucs2_vietnamese_ci''), (''ujis_bin'', ''ujis_bin''),
    (''ujis_japanese_ci'', ''ujis_japanese_ci''), (''utf16_bin'', ''utf16_bin''),
    (''utf16_croatian_ci'', ''utf16_croatian_ci''), (''utf16_czech_ci'', ''utf16_czech_ci''),
    (''utf16_danish_ci'', ''utf16_danish_ci''),
    (''utf16_esperanto_ci'', ''utf16_esperanto_ci''),
    (''utf16_estonian_ci'', ''utf16_estonian_ci''),
    (''utf16_general_ci'', ''utf16_general_ci''), (''utf16_german2_ci'', ''utf16_german2_ci''),
    (''utf16_hungarian_ci'', ''utf16_hungarian_ci''),
    (''utf16_icelandic_ci'', ''utf16_icelandic_ci''),
    (''utf16_latvian_ci'', ''utf16_latvian_ci''),
    (''utf16_lithuanian_ci'', ''utf16_lithuanian_ci''),
    (''utf16_persian_ci'', ''utf16_persian_ci''), (''utf16_polish_ci'', ''utf16_polish_ci''),
    (''utf16_roman_ci'', ''utf16_roman_ci''), (''utf16_romanian_ci'', ''utf16_romanian_ci''),
    (''utf16_sinhala_ci'', ''utf16_sinhala_ci''), (''utf16_slovak_ci'', ''utf16_slovak_ci''),
    (''utf16_slovenian_ci'', ''utf16_slovenian_ci''),
    (''utf16_spanish_ci'', ''utf16_spanish_ci''),
    (''utf16_spanish2_ci'', ''utf16_spanish2_ci''),
    (''utf16_swedish_ci'', ''utf16_swedish_ci''), (''utf16_turkish_ci'', ''utf16_turkish_ci''),
    (''utf16_unicode_520_ci'', ''utf16_unicode_520_ci''),
    (''utf16_unicode_ci'', ''utf16_unicode_ci'')]"

definition collation_as_str_2 :: "(collation \<times> string) list" where
  "collation_as_str_2 =
   [(''utf16_vietnamese_ci'', ''utf16_vietnamese_ci''), (''utf16le_bin'', ''utf16le_bin''),
    (''utf16le_general_ci'', ''utf16le_general_ci''), (''utf32_bin'', ''utf32_bin''),
    (''utf32_croatian_ci'', ''utf32_croatian_ci''), (''utf32_czech_ci'', ''utf32_czech_ci''),
    (''utf32_danish_ci'', ''utf32_danish_ci''),
    (''utf32_esperanto_ci'', ''utf32_esperanto_ci''),
    (''utf32_estonian_ci'', ''utf32_estonian_ci''),
    (''utf32_general_ci'', ''utf32_general_ci''), (''utf32_german2_ci'', ''utf32_german2_ci''),
    (''utf32_hungarian_ci'', ''utf32_hungarian_ci''),
    (''utf32_icelandic_ci'', ''utf32_icelandic_ci''),
    (''utf32_latvian_ci'', ''utf32_latvian_ci''),
    (''utf32_lithuanian_ci'', ''utf32_lithuanian_ci''),
    (''utf32_persian_ci'', ''utf32_persian_ci''), (''utf32_polish_ci'', ''utf32_polish_ci''),
    (''utf32_roman_ci'', ''utf32_roman_ci''), (''utf32_romanian_ci'', ''utf32_romanian_ci''),
    (''utf32_sinhala_ci'', ''utf32_sinhala_ci''), (''utf32_slovak_ci'', ''utf32_slovak_ci''),
    (''utf32_slovenian_ci'', ''utf32_slovenian_ci''),
    (''utf32_spanish_ci'', ''utf32_spanish_ci''),
    (''utf32_spanish2_ci'', ''utf32_spanish2_ci''),
    (''utf32_swedish_ci'', ''utf32_swedish_ci''), (''utf32_turkish_ci'', ''utf32_turkish_ci''),
    (''utf32_unicode_520_ci'', ''utf32_unicode_520_ci''),
    (''utf32_unicode_ci'', ''utf32_unicode_ci''),
    (''utf32_vietnamese_ci'', ''utf32_vietnamese_ci''), (''utf8_bin'', ''utf8_bin''),
    (''utf8_croatian_ci'', ''utf8_croatian_ci''), (''utf8_czech_ci'', ''utf8_czech_ci''),
    (''utf8_danish_ci'', ''utf8_danish_ci''), (''utf8_esperanto_ci'', ''utf8_esperanto_ci''),
    (''utf8_estonian_ci'', ''utf8_estonian_ci''), (''utf8_general_ci'', ''utf8_general_ci''),
    (''utf8_general_mysql500_ci'', ''utf8_general_mysql500_ci''),
    (''utf8_german2_ci'', ''utf8_german2_ci''), (''utf8_hungarian_ci'', ''utf8_hungarian_ci''),
    (''utf8_icelandic_ci'', ''utf8_icelandic_ci''), (''utf8_latvian_ci'', ''utf8_latvian_ci''),
    (''utf8_lithuanian_ci'', ''utf8_lithuanian_ci''),
    (''utf8_persian_ci'', ''utf8_persian_ci''), (''utf8_polish_ci'', ''utf8_polish_ci''),
    (''utf8_roman_ci'', ''utf8_roman_ci''), (''utf8_romanian_ci'', ''utf8_romanian_ci''),
    (''utf8_sinhala_ci'', ''utf8_sinhala_ci''), (''utf8_slovak_ci'', ''utf8_slovak_ci''),
    (''utf8_slovenian_ci'', ''utf8_slovenian_ci''), (''utf8_spanish_ci'', ''utf8_spanish_ci''),
    (''utf8_spanish2_ci'', ''utf8_spanish2_ci''), (''utf8_swedish_ci'', ''utf8_swedish_ci''),
    (''utf8_tolower_ci'', ''utf8_tolower_ci''), (''utf8_turkish_ci'', ''utf8_turkish_ci''),
    (''utf8_unicode_520_ci'', ''utf8_unicode_520_ci''),
    (''utf8_unicode_ci'', ''utf8_unicode_ci''),
    (''utf8_vietnamese_ci'', ''utf8_vietnamese_ci''),
    (''utf8mb4_0900_ai_ci'', ''utf8mb4_0900_ai_ci''), (''utf8mb4_bin'', ''utf8mb4_bin''),
    (''utf8mb4_croatian_ci'', ''utf8mb4_croatian_ci''),
    (''utf8mb4_czech_ci'', ''utf8mb4_czech_ci''),
    (''utf8mb4_danish_ci'', ''utf8mb4_danish_ci''),
    (''utf8mb4_esperanto_ci'', ''utf8mb4_esperanto_ci''),
    (''utf8mb4_estonian_ci'', ''utf8mb4_estonian_ci''),
    (''utf8mb4_general_ci'', ''utf8mb4_general_ci''),
    (''utf8mb4_german2_ci'', ''utf8mb4_german2_ci''),
    (''utf8mb4_hungarian_ci'', ''utf8mb4_hungarian_ci''),
    (''utf8mb4_icelandic_ci'', ''utf8mb4_icelandic_ci''),
    (''utf8mb4_latvian_ci'', ''utf8mb4_latvian_ci''),
    (''utf8mb4_lithuanian_ci'', ''utf8mb4_lithuanian_ci''),
    (''utf8mb4_persian_ci'', ''utf8mb4_persian_ci''),
    (''utf8mb4_polish_ci'', ''utf8mb4_polish_ci''),
    (''utf8mb4_roman_ci'', ''utf8mb4_roman_ci''),
    (''utf8mb4_romanian_ci'', ''utf8mb4_romanian_ci''),
    (''utf8mb4_sinhala_ci'', ''utf8mb4_sinhala_ci''),
    (''utf8mb4_slovak_ci'', ''utf8mb4_slovak_ci''),
    (''utf8mb4_slovenian_ci'', ''utf8mb4_slovenian_ci''),
    (''utf8mb4_spanish_ci'', ''utf8mb4_spanish_ci''),
    (''utf8mb4_spanish2_ci'', ''utf8mb4_spanish2_ci''),
    (''utf8mb4_swedish_ci'', ''utf8mb4_swedish_ci''),
    (''utf8mb4_turkish_ci'', ''utf8mb4_turkish_ci''),
    (''utf8mb4_unicode_520_ci'', ''utf8mb4_unicode_520_ci''),
    (''utf8mb4_unicode_ci'', ''utf8mb4_unicode_ci''),
    (''utf8mb4_vietnamese_ci'', ''utf8mb4_vietnamese_ci'')]"

definition collation_from_str_1 :: "(string \<times> collation) list" where
  "collation_from_str_1 =
   [(''big5_chinese_ci'', ''big5_chinese_ci''), (''swe7_swedish_ci'', ''swe7_swedish_ci''),
    (''utf16_unicode_ci'', ''utf16_unicode_ci''),
    (''utf16_icelandic_ci'', ''utf16_icelandic_ci''),
    (''utf16_latvian_ci'', ''utf16_latvian_ci''),
    (''utf16_romanian_ci'', ''utf16_romanian_ci''),
    (''utf16_slovenian_ci'', ''utf16_slovenian_ci''),
    (''utf16_polish_ci'', ''utf16_polish_ci''), (''utf16_estonian_ci'', ''utf16_estonian_ci''),
    (''utf16_spanish_ci'', ''utf16_spanish_ci''), (''utf16_swedish_ci'', ''utf16_swedish_ci''),
    (''ascii_general_ci'', ''ascii_general_ci''), (''utf16_turkish_ci'', ''utf16_turkish_ci''),
    (''utf16_czech_ci'', ''utf16_czech_ci''), (''utf16_danish_ci'', ''utf16_danish_ci''),
    (''utf16_lithuanian_ci'', ''utf16_lithuanian_ci''),
    (''utf16_slovak_ci'', ''utf16_slovak_ci''), (''utf16_spanish2_ci'', ''utf16_spanish2_ci''),
    (''utf16_roman_ci'', ''utf16_roman_ci''), (''utf16_persian_ci'', ''utf16_persian_ci''),
    (''utf16_esperanto_ci'', ''utf16_esperanto_ci''),
    (''utf16_hungarian_ci'', ''utf16_hungarian_ci''),
    (''ujis_japanese_ci'', ''ujis_japanese_ci''), (''utf16_sinhala_ci'', ''utf16_sinhala_ci''),
    (''utf16_german2_ci'', ''utf16_german2_ci''),
    (''utf16_croatian_ci'', ''utf16_croatian_ci''),
    (''utf16_unicode_520_ci'', ''utf16_unicode_520_ci''),
    (''utf16_vietnamese_ci'', ''utf16_vietnamese_ci''),
    (''ucs2_unicode_ci'', ''ucs2_unicode_ci''), (''ucs2_icelandic_ci'', ''ucs2_icelandic_ci''),
    (''sjis_japanese_ci'', ''sjis_japanese_ci''), (''ucs2_latvian_ci'', ''ucs2_latvian_ci''),
    (''ucs2_romanian_ci'', ''ucs2_romanian_ci''),
    (''ucs2_slovenian_ci'', ''ucs2_slovenian_ci''), (''ucs2_polish_ci'', ''ucs2_polish_ci''),
    (''ucs2_estonian_ci'', ''ucs2_estonian_ci''), (''ucs2_spanish_ci'', ''ucs2_spanish_ci''),
    (''ucs2_swedish_ci'', ''ucs2_swedish_ci''), (''ucs2_turkish_ci'', ''ucs2_turkish_ci''),
    (''ucs2_czech_ci'', ''ucs2_czech_ci''), (''ucs2_danish_ci'', ''ucs2_danish_ci''),
    (''cp1251_bulgarian_ci'', ''cp1251_bulgarian_ci''),
    (''ucs2_lithuanian_ci'', ''ucs2_lithuanian_ci''), (''ucs2_slovak_ci'', ''ucs2_slovak_ci''),
    (''ucs2_spanish2_ci'', ''ucs2_spanish2_ci''), (''ucs2_roman_ci'', ''ucs2_roman_ci''),
    (''ucs2_persian_ci'', ''ucs2_persian_ci''), (''ucs2_esperanto_ci'', ''ucs2_esperanto_ci''),
    (''ucs2_hungarian_ci'', ''ucs2_hungarian_ci''), (''ucs2_sinhala_ci'', ''ucs2_sinhala_ci''),
    (''ucs2_german2_ci'', ''ucs2_german2_ci''), (''ucs2_croatian_ci'', ''ucs2_croatian_ci''),
    (''latin1_danish_ci'', ''latin1_danish_ci''),
    (''ucs2_unicode_520_ci'', ''ucs2_unicode_520_ci''),
    (''ucs2_vietnamese_ci'', ''ucs2_vietnamese_ci''),
    (''ucs2_general_mysql500_ci'', ''ucs2_general_mysql500_ci''),
    (''hebrew_general_ci'', ''hebrew_general_ci''),
    (''utf32_unicode_ci'', ''utf32_unicode_ci''),
    (''utf32_icelandic_ci'', ''utf32_icelandic_ci''),
    (''utf32_latvian_ci'', ''utf32_latvian_ci''),
    (''utf32_romanian_ci'', ''utf32_romanian_ci''),
    (''utf32_slovenian_ci'', ''utf32_slovenian_ci''),
    (''utf32_polish_ci'', ''utf32_polish_ci''), (''utf32_estonian_ci'', ''utf32_estonian_ci''),
    (''utf32_spanish_ci'', ''utf32_spanish_ci''), (''utf32_swedish_ci'', ''utf32_swedish_ci''),
    (''utf32_turkish_ci'', ''utf32_turkish_ci''), (''utf32_czech_ci'', ''utf32_czech_ci''),
    (''utf32_danish_ci'', ''utf32_danish_ci''),
    (''utf32_lithuanian_ci'', ''utf32_lithuanian_ci''),
    (''utf32_slovak_ci'', ''utf32_slovak_ci''), (''utf32_spanish2_ci'', ''utf32_spanish2_ci''),
    (''utf32_roman_ci'', ''utf32_roman_ci''), (''utf32_persian_ci'', ''utf32_persian_ci''),
    (''utf32_esperanto_ci'', ''utf32_esperanto_ci''),
    (''utf32_hungarian_ci'', ''utf32_hungarian_ci''),
    (''utf32_sinhala_ci'', ''utf32_sinhala_ci''), (''tis620_thai_ci'', ''tis620_thai_ci''),
    (''utf32_german2_ci'', ''utf32_german2_ci''),
    (''utf32_croatian_ci'', ''utf32_croatian_ci''),
    (''utf32_unicode_520_ci'', ''utf32_unicode_520_ci''),
    (''utf32_vietnamese_ci'', ''utf32_vietnamese_ci''),
    (''euckr_korean_ci'', ''euckr_korean_ci''), (''utf8_unicode_ci'', ''utf8_unicode_ci''),
    (''utf8_icelandic_ci'', ''utf8_icelandic_ci''), (''utf8_latvian_ci'', ''utf8_latvian_ci''),
    (''utf8_romanian_ci'', ''utf8_romanian_ci''),
    (''utf8_slovenian_ci'', ''utf8_slovenian_ci''), (''utf8_polish_ci'', ''utf8_polish_ci''),
    (''utf8_estonian_ci'', ''utf8_estonian_ci''), (''utf8_spanish_ci'', ''utf8_spanish_ci''),
    (''latin2_czech_cs'', ''latin2_czech_cs''),
    (''latin7_estonian_cs'', ''latin7_estonian_cs''),
    (''utf8_swedish_ci'', ''utf8_swedish_ci''), (''utf8_turkish_ci'', ''utf8_turkish_ci''),
    (''utf8_czech_ci'', ''utf8_czech_ci''), (''utf8_danish_ci'', ''utf8_danish_ci''),
    (''utf8_lithuanian_ci'', ''utf8_lithuanian_ci''), (''utf8_slovak_ci'', ''utf8_slovak_ci''),
    (''utf8_spanish2_ci'', ''utf8_spanish2_ci''), (''utf8_roman_ci'', ''utf8_roman_ci''),
    (''utf8_persian_ci'', ''utf8_persian_ci''), (''utf8_esperanto_ci'', ''utf8_esperanto_ci''),
    (''latin2_hungarian_ci'', ''latin2_hungarian_ci''),
    (''utf8_hungarian_ci'', ''utf8_hungarian_ci''), (''utf8_sinhala_ci'', ''utf8_sinhala_ci''),
    (''utf8_german2_ci'', ''utf8_german2_ci''), (''utf8_croatian_ci'', ''utf8_croatian_ci''),
    (''utf8_unicode_520_ci'', ''utf8_unicode_520_ci''),
    (''utf8_vietnamese_ci'', ''utf8_vietnamese_ci''),
    (''koi8u_general_ci'', ''koi8u_general_ci''),
    (''utf8_general_mysql500_ci'', ''utf8_general_mysql500_ci''),
    (''utf8mb4_unicode_ci'', ''utf8mb4_unicode_ci''),
    (''utf8mb4_icelandic_ci'', ''utf8mb4_icelandic_ci''),
    (''utf8mb4_latvian_ci'', ''utf8mb4_latvian_ci''),
    (''utf8mb4_romanian_ci'', ''utf8mb4_romanian_ci''),
    (''utf8mb4_slovenian_ci'', ''utf8mb4_slovenian_ci''),
    (''utf8mb4_polish_ci'', ''utf8mb4_polish_ci''),
    (''cp1251_ukrainian_ci'', ''cp1251_ukrainian_ci''),
    (''utf8mb4_estonian_ci'', ''utf8mb4_estonian_ci''),
    (''utf8mb4_spanish_ci'', ''utf8mb4_spanish_ci''),
    (''utf8mb4_swedish_ci'', ''utf8mb4_swedish_ci''),
    (''utf8mb4_turkish_ci'', ''utf8mb4_turkish_ci''),
    (''utf8mb4_czech_ci'', ''utf8mb4_czech_ci''),
    (''utf8mb4_danish_ci'', ''utf8mb4_danish_ci''),
    (''utf8mb4_lithuanian_ci'', ''utf8mb4_lithuanian_ci''),
    (''utf8mb4_slovak_ci'', ''utf8mb4_slovak_ci''),
    (''utf8mb4_spanish2_ci'', ''utf8mb4_spanish2_ci''),
    (''utf8mb4_roman_ci'', ''utf8mb4_roman_ci''),
    (''gb2312_chinese_ci'', ''gb2312_chinese_ci''),
    (''utf8mb4_persian_ci'', ''utf8mb4_persian_ci''),
    (''utf8mb4_esperanto_ci'', ''utf8mb4_esperanto_ci''),
    (''utf8mb4_hungarian_ci'', ''utf8mb4_hungarian_ci''),
    (''utf8mb4_sinhala_ci'', ''utf8mb4_sinhala_ci''),
    (''utf8mb4_german2_ci'', ''utf8mb4_german2_ci''),
    (''utf8mb4_croatian_ci'', ''utf8mb4_croatian_ci''),
    (''utf8mb4_unicode_520_ci'', ''utf8mb4_unicode_520_ci''),
    (''utf8mb4_vietnamese_ci'', ''utf8mb4_vietnamese_ci''),
    (''gb18030_chinese_ci'', ''gb18030_chinese_ci''), (''gb18030_bin'', ''gb18030_bin'')]"

definition collation_from_str_2 :: "(string \<times> collation) list" where
  "collation_from_str_2 =
   [(''greek_general_ci'', ''greek_general_ci''),
    (''gb18030_unicode_520_ci'', ''gb18030_unicode_520_ci''),
    (''utf8mb4_0900_ai_ci'', ''utf8mb4_0900_ai_ci''),
    (''cp1250_general_ci'', ''cp1250_general_ci''),
    (''latin2_croatian_ci'', ''latin2_croatian_ci''), (''gbk_chinese_ci'', ''gbk_chinese_ci''),
    (''cp1257_lithuanian_ci'', ''cp1257_lithuanian_ci''),
    (''dec8_swedish_ci'', ''dec8_swedish_ci''), (''latin5_turkish_ci'', ''latin5_turkish_ci''),
    (''latin1_german2_ci'', ''latin1_german2_ci''),
    (''armscii8_general_ci'', ''armscii8_general_ci''),
    (''utf8_general_ci'', ''utf8_general_ci''), (''cp1250_czech_cs'', ''cp1250_czech_cs''),
    (''ucs2_general_ci'', ''ucs2_general_ci''), (''cp866_general_ci'', ''cp866_general_ci''),
    (''keybcs2_general_ci'', ''keybcs2_general_ci''),
    (''macce_general_ci'', ''macce_general_ci''),
    (''macroman_general_ci'', ''macroman_general_ci''),
    (''cp850_general_ci'', ''cp850_general_ci''), (''cp852_general_ci'', ''cp852_general_ci''),
    (''latin7_general_ci'', ''latin7_general_ci''),
    (''latin7_general_cs'', ''latin7_general_cs''), (''macce_bin'', ''macce_bin''),
    (''cp1250_croatian_ci'', ''cp1250_croatian_ci''),
    (''utf8mb4_general_ci'', ''utf8mb4_general_ci''), (''utf8mb4_bin'', ''utf8mb4_bin''),
    (''latin1_bin'', ''latin1_bin''), (''latin1_general_ci'', ''latin1_general_ci''),
    (''latin1_general_cs'', ''latin1_general_cs''),
    (''latin1_german1_ci'', ''latin1_german1_ci''), (''cp1251_bin'', ''cp1251_bin''),
    (''cp1251_general_ci'', ''cp1251_general_ci''),
    (''cp1251_general_cs'', ''cp1251_general_cs''), (''macroman_bin'', ''macroman_bin''),
    (''utf16_general_ci'', ''utf16_general_ci''), (''utf16_bin'', ''utf16_bin''),
    (''utf16le_general_ci'', ''utf16le_general_ci''),
    (''cp1256_general_ci'', ''cp1256_general_ci''), (''cp1257_bin'', ''cp1257_bin''),
    (''cp1257_general_ci'', ''cp1257_general_ci''), (''hp8_english_ci'', ''hp8_english_ci''),
    (''utf32_general_ci'', ''utf32_general_ci''), (''utf32_bin'', ''utf32_bin''),
    (''utf16le_bin'', ''utf16le_bin''), (''binary'', ''binary''),
    (''armscii8_bin'', ''armscii8_bin''), (''ascii_bin'', ''ascii_bin''),
    (''cp1250_bin'', ''cp1250_bin''), (''cp1256_bin'', ''cp1256_bin''),
    (''cp866_bin'', ''cp866_bin''), (''dec8_bin'', ''dec8_bin''),
    (''koi8r_general_ci'', ''koi8r_general_ci''), (''greek_bin'', ''greek_bin''),
    (''hebrew_bin'', ''hebrew_bin''), (''hp8_bin'', ''hp8_bin''),
    (''keybcs2_bin'', ''keybcs2_bin''), (''koi8r_bin'', ''koi8r_bin''),
    (''koi8u_bin'', ''koi8u_bin''), (''utf8_tolower_ci'', ''utf8_tolower_ci''),
    (''latin2_bin'', ''latin2_bin''), (''latin5_bin'', ''latin5_bin''),
    (''latin7_bin'', ''latin7_bin''), (''latin1_swedish_ci'', ''latin1_swedish_ci''),
    (''cp850_bin'', ''cp850_bin''), (''cp852_bin'', ''cp852_bin''),
    (''swe7_bin'', ''swe7_bin''), (''utf8_bin'', ''utf8_bin''), (''big5_bin'', ''big5_bin''),
    (''euckr_bin'', ''euckr_bin''), (''gb2312_bin'', ''gb2312_bin''),
    (''gbk_bin'', ''gbk_bin''), (''sjis_bin'', ''sjis_bin''), (''tis620_bin'', ''tis620_bin''),
    (''latin2_general_ci'', ''latin2_general_ci''), (''ucs2_bin'', ''ucs2_bin''),
    (''ujis_bin'', ''ujis_bin''), (''geostd8_general_ci'', ''geostd8_general_ci''),
    (''geostd8_bin'', ''geostd8_bin''), (''latin1_spanish_ci'', ''latin1_spanish_ci''),
    (''cp932_japanese_ci'', ''cp932_japanese_ci''), (''cp932_bin'', ''cp932_bin''),
    (''eucjpms_japanese_ci'', ''eucjpms_japanese_ci''), (''eucjpms_bin'', ''eucjpms_bin''),
    (''cp1250_polish_ci'', ''cp1250_polish_ci'')]"

section \<open>Operations\<close>

definition char_set_as_str :: "char_set \<Rightarrow> bytes option" where
  "char_set_as_str c = map_option lit (map_of char_set_as_str_table c)"

definition default_collation :: "char_set \<Rightarrow> collation option" where
  "default_collation c = map_of default_collation_table c"

text \<open>A match on a string: the first arm whose literal is the text.\<close>

fun match_str :: "(string \<times> 'a) list \<Rightarrow> bytes \<Rightarrow> 'a option" where
  "match_str [] s = None"
| "match_str ((t, v) # arms) s = (if lit t = s then Some v else match_str arms s)"

definition char_set_from_str :: "bytes \<Rightarrow> char_set res" where
  "char_set_from_str s =
     (case match_str char_set_from_str_table s of
        Some c \<Rightarrow> Ok c
      | None \<Rightarrow> Err (Message ''unsupported MySQL charset''))"

definition collation_id :: "collation \<Rightarrow> u8 option" where
  "collation_id c = map_of collation_ids c"

definition collation_as_str :: "collation \<Rightarrow> bytes option" where
  "collation_as_str c = map_option lit (map_of (collation_as_str_1 @ collation_as_str_2) c)"

definition collation_from_str :: "bytes \<Rightarrow> collation res" where
  "collation_from_str s =
     (case match_str (collation_from_str_1 @ collation_from_str_2) s of
        Some c \<Rightarrow> Ok c
      | None \<Rightarrow> Err (Message ''unsupported MySQL collation''))"

section \<open>Lemmas\<close>

lemma match_str_diag:
  "match_str (map (\<lambda>n. (n, n)) ns) s = Some c \<longleftrightarrow> c \<in> set ns \<and> lit c = s"
  by (induction ns) auto

lemma map_of_diag: "map_of (map (\<lambda>n. (n, n)) ns) c = (if c \<in> set ns then Some c else None)"
  by (induction ns) auto

lemmas collation_tables = collation_ids_1_def collation_ids_2_def collation_ids_def
  collation_as_str_1_def collation_as_str_2_def collation_from_str_1_def collation_from_str_2_def

lemma collation_as_str_diag:
  "collation_as_str_1 @ collation_as_str_2 = map (\<lambda>n. (n, n)) (map fst collation_ids)"
  by (simp add: collation_tables)

lemma collation_from_str_diag:
  "collation_from_str_1 @ collation_from_str_2 =
    map (\<lambda>n. (n, n)) (map fst (collation_from_str_1 @ collation_from_str_2))"
  by (simp add: collation_tables)

lemma char_set_as_str_diag: "char_set_as_str_table = map (\<lambda>n. (n, n)) char_sets"
  by (simp add: char_set_as_str_table_def char_sets_def)

lemma char_set_from_str_diag: "char_set_from_str_table = map (\<lambda>n. (n, n)) char_sets"
  by (simp add: char_set_from_str_table_def char_sets_def)

lemma default_collation_keys: "map fst default_collation_table = char_sets"
  by (simp add: default_collation_table_def char_sets_def)

lemma default_collation_prefix:
  "list_all (\<lambda>(c, d). take (length c) d = c) default_collation_table"
  by (simp add: default_collation_table_def)

lemma collation_from_str_Ok:
  "collation_from_str s = Ok c \<longleftrightarrow>
    c \<in> set (map fst (collation_from_str_1 @ collation_from_str_2)) \<and> lit c = s"
proof -
  have "collation_from_str s = Ok c \<longleftrightarrow> match_str (collation_from_str_1 @ collation_from_str_2) s = Some c"
    by (simp add: collation_from_str_def split: option.splits)
  also have "\<dots> \<longleftrightarrow> c \<in> set (map fst (collation_from_str_1 @ collation_from_str_2)) \<and> lit c = s"
    by (subst collation_from_str_diag) (rule match_str_diag)
  finally show ?thesis .
qed

lemma collation_as_str_Some:
  "collation_as_str c = Some s \<longleftrightarrow> c \<in> fst ` set collation_ids \<and> s = lit c"
  by (auto simp: collation_as_str_def collation_as_str_diag map_of_diag simp del: map_map)

lemma char_set_from_str_Ok: "char_set_from_str s = Ok c \<longleftrightarrow> c \<in> set char_sets \<and> lit c = s"
proof (cases "match_str char_set_from_str_table s")
  case None
  then show ?thesis
    using match_str_diag [of char_sets s c] by (auto simp: char_set_from_str_def char_set_from_str_diag)
next
  case (Some d)
  with match_str_diag [of char_sets s c] show ?thesis
    by (auto simp: char_set_from_str_def char_set_from_str_diag)
qed

section \<open>Properties\<close>

text \<open>Character sets round-trip: parsing accepts exactly the names of the variants,
  \<open>as_str\<close> inverts it, and every character set has a default collation that is one of its own
  (its name starts with the character set's). For collations, a parsed name is the name of the
  variant it selects, so parsing and printing never mix up two collations.\<close>

theorem char_set_roundtrip:
  "(char_set_from_str s = Ok c \<longleftrightarrow> char_set_as_str c = Some s) \<and>
   (char_set_as_str c \<noteq> None \<longleftrightarrow> (\<exists>d. default_collation c = Some d \<and> take (length c) d = c)) \<and>
   (collation_from_str s = Ok k \<and> collation_as_str k = Some t \<longrightarrow> t = s)"
proof (intro conjI)
  have as: "char_set_as_str c = Some s \<longleftrightarrow> c \<in> set char_sets \<and> s = lit c" for s
    by (auto simp: char_set_as_str_def char_set_as_str_diag map_of_diag)
  then show "char_set_from_str s = Ok c \<longleftrightarrow> char_set_as_str c = Some s"
    by (auto simp: char_set_from_str_Ok)
  have "char_set_as_str c \<noteq> None \<longleftrightarrow> c \<in> fst ` set default_collation_table"
    using as default_collation_keys by (metis list.set_map option.exhaust_sel option.discI)
  also have "\<dots> \<longleftrightarrow> (\<exists>d. default_collation c = Some d)"
    unfolding default_collation_def
    by (metis domD domI dom_map_of_conv_image_fst)
  also have "\<dots> \<longleftrightarrow> (\<exists>d. default_collation c = Some d \<and> take (length c) d = c)"
    using default_collation_prefix unfolding default_collation_def
    by (auto simp: list_all_iff dest: map_of_SomeD)
  finally show "char_set_as_str c \<noteq> None \<longleftrightarrow> (\<exists>d. default_collation c = Some d \<and> take (length c) d = c)" .
  show "collation_from_str s = Ok k \<and> collation_as_str k = Some t \<longrightarrow> t = s"
    by (simp add: collation_from_str_Ok collation_as_str_Some)
qed

theorem char_set_roundtrip_witness:
  "char_set_from_str (lit ''utf8mb4'') = Ok ''utf8mb4'' \<and> char_set_as_str ''utf8mb4'' = Some (lit ''utf8mb4'')"
  using char_set_roundtrip [of "lit ''utf8mb4''" "''utf8mb4''"] char_set_from_str_Ok [of "lit ''utf8mb4''" "''utf8mb4''"]
  by (simp add: char_sets_def)

end
