(* ===== verification/Mysql_Stream.thy ===== *)
theory Mysql_Stream
  imports Async_Op Net Mysql_Types Mysql_Collation
begin

text \<open>
  The packet stream of the MySQL driver (\<open>rbdc-mysql/src/connection/stream.rs\<close>). Operations run on the stream's state; those that loop until the
  server sends a certain packet are partial functions, so that waiting for ever is the value
  \<open>None\<close>. On a working network (\<open>healthy_net\<close>), reassembly of split packets inverts the framing.
\<close>

section \<open>Model\<close>

datatype waiting = W_Result | W_Row

record 's mysql_stream =
  ms_stream :: "'s buf_stream"
  ms_server_version :: "u16 \<times> u16 \<times> u16"
  ms_capabilities :: u64
  ms_sequence_id :: u8
  ms_waiting :: "waiting list"
  ms_charset :: char_set
  ms_collation :: collation

definition stream_flush :: "'s net \<Rightarrow> ('s mysql_stream, unit) aop" where
  "stream_flush N s =
     (case net_flush N (stream (ms_stream s)) (wbuf (ms_stream s)) of
        (r, t) \<Rightarrow> Some (r, s\<lparr>ms_stream := write_and_flush_drop (ms_stream s) t\<rparr>))"

definition stream_read :: "crates \<Rightarrow> 's net \<Rightarrow> nat \<Rightarrow> ('s mysql_stream, bytes) aop" where
  "stream_read C N cnt s =
     (case read_raw C (net_read N) (ms_stream s) cnt of
        (r, b) \<Rightarrow> Some (r, s\<lparr>ms_stream := b\<rparr>))"

definition write_packet :: "(u64 \<Rightarrow> bytes \<Rightarrow> bytes) \<Rightarrow> ('s mysql_stream, unit) aop" where
  "write_packet payload =
     amodify (\<lambda>s. case packet_encode (payload (ms_capabilities s)) (wbuf (ms_stream s)) (ms_sequence_id s) of
       (b, sid) \<Rightarrow> s\<lparr>ms_stream := (ms_stream s)\<lparr>wbuf := b\<rparr>, ms_sequence_id := sid\<rparr>)"

definition send_packet :: "'s net \<Rightarrow> (u64 \<Rightarrow> bytes \<Rightarrow> bytes) \<Rightarrow> ('s mysql_stream, unit) aop" where
  "send_packet N payload =
     athen (amodify (\<lambda>s. s\<lparr>ms_sequence_id := 0\<rparr>)) (athen (write_packet payload) (stream_flush N))"

text \<open>One frame: the four-byte header, the sequence number, the payload.\<close>

definition recv_frame :: "crates \<Rightarrow> 's net \<Rightarrow> ('s mysql_stream, bytes) aop" where
  "recv_frame C N =
     abind (stream_read C N 4) (\<lambda>header.
     abind (alift (get_uint_le C header 3)) (\<lambda>(packet_size, header).
     abind (alift (get_u8 C header)) (\<lambda>(sequence_id, header).
     athen (amodify (\<lambda>s. s\<lparr>ms_sequence_id := sequence_id + 1\<rparr>))
       (stream_read C N (unat packet_size)))))"

partial_function (option) recv_join ::
    "crates \<Rightarrow> 's net \<Rightarrow> bytes \<Rightarrow> nat \<Rightarrow> 's mysql_stream \<Rightarrow> (bytes res \<times> 's mysql_stream) option" where
  "recv_join C N final_payload last_read s =
     (if last_read = 0xFFFFFF
      then abind (recv_frame C N) (\<lambda>part. recv_join C N (final_payload @ part) (length part)) s
      else aret final_payload s)"

definition database_error :: "err_packet \<Rightarrow> error" where
  "database_error p = Database (error_code p) (sql_state p) (error_message p)"

definition recv_packet :: "crates \<Rightarrow> 's net \<Rightarrow> ('s mysql_stream, bytes) aop" where
  "recv_packet C N =
     abind (recv_frame C N) (\<lambda>payload.
     abind (if length payload < 0xFFFFFF then aret payload else recv_join C N payload 0xFFFFFF) (\<lambda>payload.
     if payload = [] then alift (Err (Protocol ''Packet empty'' []))
     else if hd payload = 0xff then
       athen (amodify (\<lambda>s. s\<lparr>ms_waiting := tl (ms_waiting s)\<rparr>))
         (abind (aget ms_capabilities) (\<lambda>capabilities.
          alift (rbind (err_packet_decode C capabilities payload) (\<lambda>p. Err (database_error p)))))
     else aret payload))"

definition recv :: "crates \<Rightarrow> 's net \<Rightarrow> (u64 \<Rightarrow> bytes \<Rightarrow> 'a res) \<Rightarrow> ('s mysql_stream, 'a) aop" where
  "recv C N decode =
     abind (recv_packet C N) (\<lambda>p. abind (aget ms_capabilities) (\<lambda>capabilities. alift (decode capabilities p)))"

definition recv_ok :: "crates \<Rightarrow> 's net \<Rightarrow> ('s mysql_stream, ok_packet) aop" where
  "recv_ok C N = abind (recv_packet C N) (\<lambda>p. alift (ok_packet_decode C p))"

definition maybe_recv_eof :: "crates \<Rightarrow> 's net \<Rightarrow> ('s mysql_stream, eof_packet option) aop" where
  "maybe_recv_eof C N =
     abind (aget ms_capabilities) (\<lambda>capabilities.
     if caps_contains C capabilities DEPRECATE_EOF then aret None
     else abind (recv C N (\<lambda>_. eof_packet_decode C)) (\<lambda>e. aret (Some e)))"

definition skip_result_metadata :: "crates \<Rightarrow> 's net \<Rightarrow> bytes \<Rightarrow> ('s mysql_stream, unit) aop" where
  "skip_result_metadata C N packet =
     abind (alift (get_uint_lenenc C packet)) (\<lambda>(num_columns, packet).
     abind (arepeat (unat num_columns) (\<lambda>_. recv_packet C N) 0) (\<lambda>_.
     abind (maybe_recv_eof C N) (\<lambda>_. aret ())))"

definition set_front :: "waiting \<Rightarrow> ('s mysql_stream, unit) aop" where
  "set_front w s =
     (case ms_waiting s of
        [] \<Rightarrow> Some (Panic, s)
      | _ # ws \<Rightarrow> Some (Ok (), s\<lparr>ms_waiting := w # ws\<rparr>))"

definition pop_front :: "('s mysql_stream, unit) aop" where
  "pop_front = amodify (\<lambda>s. s\<lparr>ms_waiting := tl (ms_waiting s)\<rparr>)"

definition front_is :: "waiting \<Rightarrow> 's mysql_stream \<Rightarrow> bool" where
  "front_is w s = (ms_waiting s \<noteq> [] \<and> hd (ms_waiting s) = w)"

definition skip_row_packet :: "crates \<Rightarrow> bytes \<Rightarrow> ('s mysql_stream, unit) aop" where
  "skip_row_packet C packet =
     (if packet \<noteq> [] \<and> hd packet = 0xfe \<and> length packet < 9 then
        abind (aget ms_capabilities) (\<lambda>capabilities.
        abind (alift (packet_eof C capabilities packet)) (\<lambda>eof.
        if flags_contains C (eof_status eof) SERVER_MORE_RESULTS_EXISTS then set_front W_Result
        else pop_front))
      else aret ())"

partial_function (option) skip_rows ::
    "crates \<Rightarrow> 's net \<Rightarrow> 's mysql_stream \<Rightarrow> (unit res \<times> 's mysql_stream) option" where
  "skip_rows C N s =
     (if front_is W_Row s
      then abind (abind (recv_packet C N) (skip_row_packet C)) (\<lambda>_. skip_rows C N) s
      else aret () s)"

definition skip_result_packet :: "crates \<Rightarrow> 's net \<Rightarrow> bytes \<Rightarrow> ('s mysql_stream, unit) aop" where
  "skip_result_packet C N packet =
     (if packet \<noteq> [] \<and> (hd packet = 0x00 \<or> hd packet = 0xff) then
        abind (alift (ok_packet_decode C packet)) (\<lambda>ok.
        if \<not> flags_contains C (ok_status ok) SERVER_MORE_RESULTS_EXISTS then pop_front
        else aret ())
      else athen (set_front W_Row) (skip_result_metadata C N packet))"

partial_function (option) skip_results ::
    "crates \<Rightarrow> 's net \<Rightarrow> 's mysql_stream \<Rightarrow> (unit res \<times> 's mysql_stream) option" where
  "skip_results C N s =
     (if front_is W_Result s
      then abind (abind (recv_packet C N) (skip_result_packet C N)) (\<lambda>_. skip_results C N) s
      else aret () s)"

partial_function (option) wait_loop ::
    "crates \<Rightarrow> 's net \<Rightarrow> 's mysql_stream \<Rightarrow> (unit res \<times> 's mysql_stream) option" where
  "wait_loop C N s =
     (if ms_waiting s \<noteq> []
      then abind (skip_rows C N) (\<lambda>_. abind (skip_results C N) (\<lambda>_. wait_loop C N)) s
      else aret () s)"

definition wait_until_ready :: "crates \<Rightarrow> 's net \<Rightarrow> ('s mysql_stream, unit) aop" where
  "wait_until_ready C N s =
     (if wbuf (ms_stream s) \<noteq> [] then athen (stream_flush N) (wait_loop C N) s else wait_loop C N s)"

section \<open>Connecting\<close>

datatype ssl_mode = Ssl_Disabled | Ssl_Preferred | Ssl_Required | Ssl_VerifyCa | Ssl_VerifyIdentity

record options =
  opt_host :: bytes
  opt_port :: u16
  opt_socket :: "bytes option"
  opt_username :: bytes
  opt_password :: "bytes option"
  opt_database :: "bytes option"
  opt_ssl_mode :: ssl_mode
  opt_ssl_ca :: "certificate option"
  opt_statement_cache_capacity :: nat
  opt_charset :: bytes
  opt_collation :: "bytes option"
  opt_offset_sec :: int

definition CLIENT_CAPABILITIES :: u64 where
  "CLIENT_CAPABILITIES =
     PROTOCOL_41 OR IGNORE_SPACE OR DEPRECATE_EOF OR FOUND_ROWS OR TRANSACTIONS OR SECURE_CONNECTION OR
     PLUGIN_AUTH_LENENC_DATA OR MULTI_STATEMENTS OR MULTI_RESULTS OR PLUGIN_AUTH OR PS_MULTI_RESULTS OR SSL"

text \<open>
  \<open>connect\<close> opens the socket: a Unix domain socket if a path is given, TCP otherwise. A
  character set parsed from its name always has a default collation.
\<close>

definition stream_connect ::
    "(bytes \<Rightarrow> 's res) \<Rightarrow> (bytes \<Rightarrow> u16 \<Rightarrow> 's res) \<Rightarrow> options \<Rightarrow> 's mysql_stream res" where
  "stream_connect connect_uds connect_tcp opt =
     rbind (char_set_from_str (opt_charset opt)) (\<lambda>charset.
     rbind (case opt_collation opt of
              Some c \<Rightarrow> rbind (collation_from_str c) (\<lambda>c. Ok (Some c))
            | None \<Rightarrow> Ok None) (\<lambda>collation.
     rbind (case opt_socket opt of
              Some path \<Rightarrow> connect_uds path
            | None \<Rightarrow> connect_tcp (opt_host opt) (opt_port opt)) (\<lambda>socket.
     Ok \<lparr>ms_stream = buf_stream_new socket, ms_server_version = (0, 0, 0),
         ms_capabilities = (if opt_database opt \<noteq> None then CLIENT_CAPABILITIES OR CONNECT_WITH_DB
                            else CLIENT_CAPABILITIES),
         ms_sequence_id = 0, ms_waiting = [], ms_charset = charset,
         ms_collation = (case collation of Some c \<Rightarrow> c
           | None \<Rightarrow> (case default_collation charset of Some c \<Rightarrow> c | None \<Rightarrow> []))\<rparr>)))"

section \<open>A network that works\<close>

text \<open>What the server has still to say, and the rest of the state that receiving leaves alone.\<close>

definition inp :: "('s \<Rightarrow> bytes) \<Rightarrow> 's mysql_stream \<Rightarrow> bytes \<Rightarrow> bool" where
  "inp pending s w = (rbuf (ms_stream s) = [] \<and> pending (stream (ms_stream s)) = w)"

definition rest_of :: "('s \<Rightarrow> bytes) \<Rightarrow> 's mysql_stream \<Rightarrow> u64 \<times> bytes \<times> bytes \<times> (u16 \<times> u16 \<times> u16) \<times> char_set \<times> collation" where
  "rest_of sent s = (ms_capabilities s, wbuf (ms_stream s), sent (stream (ms_stream s)), ms_server_version s,
     ms_charset s, ms_collation s)"

context healthy_net
begin

lemma rest_of_update [simp]:
  "rest_of sent (s\<lparr>ms_sequence_id := i\<rparr>) = rest_of sent s" "rest_of sent (s\<lparr>ms_waiting := ws\<rparr>) = rest_of sent s"
  "inp pending (s\<lparr>ms_sequence_id := i\<rparr>) = inp pending s" "inp pending (s\<lparr>ms_waiting := ws\<rparr>) = inp pending s"
  by (simp_all add: rest_of_def inp_def fun_eq_iff)

lemma stream_read_inp:
  assumes "inp pending s (x @ w)" and "length x = n"
  shows "\<exists>s'. stream_read C N n s = Some (Ok x, s') \<and> inp pending s' w \<and> rest_of sent s' = rest_of sent s \<and>
    ms_waiting s' = ms_waiting s \<and> ms_sequence_id s' = ms_sequence_id s"
proof -
  have "rbuf (ms_stream s) = []" "pending (stream (ms_stream s)) = x @ w" using assms(1) by (simp_all add: inp_def)
  from read_delivers [OF this assms(2)] show ?thesis by (auto simp: stream_read_def inp_def rest_of_def)
qed

lemma recv_frame_inp:
  assumes "inp pending s (frame sid p @ w)" and "length p \<le> 0xFFFFFF"
  shows "\<exists>s'. recv_frame C N s = Some (Ok p, s') \<and> inp pending s' w \<and> rest_of sent s' = rest_of sent s \<and>
    ms_waiting s' = ms_waiting s \<and> ms_sequence_id s' = sid + 1"
proof -
  let ?h = "le_bytes 3 (length p) @ [sid]"
  have "inp pending s (?h @ p @ w)" using assms(1) by (simp add: frame_def)
  from stream_read_inp [OF this, of 4] obtain s1 where
    s1: "stream_read C N 4 s = Some (Ok ?h, s1)" "inp pending s1 (p @ w)" "rest_of sent s1 = rest_of sent s" "ms_waiting s1 = ms_waiting s"
    by auto
  have "le_nat (le_bytes 3 (length p)) = length p" using assms(2) by (intro le_nat_le_bytes) simp
  then have g: "get_uint_le C ?h 3 = Ok (of_nat (length p), [sid])"
    by (subst get_uint_le_app) (simp_all add: from_le_def)
  have u: "unat (of_nat (length p) :: u64) = length p" using assms(2) by (simp add: unat_of_nat)
  have "inp pending (s1\<lparr>ms_sequence_id := sid + 1\<rparr>) (p @ w)" using s1(2) by simp
  from stream_read_inp [OF this, of "length p"] obtain s2 where
    "stream_read C N (length p) (s1\<lparr>ms_sequence_id := sid + 1\<rparr>) = Some (Ok p, s2)" "inp pending s2 w"
    "rest_of sent s2 = rest_of sent s1" "ms_waiting s2 = ms_waiting s1" "ms_sequence_id s2 = sid + 1" by auto
  with s1 g u show ?thesis
    by (simp add: recv_frame_def aop_run case_prod_beta)
qed

lemma recv_join_inp:
  assumes "inp pending s (concat (frames sid p) @ w)"
  shows "\<exists>s'. recv_join C N acc 0xFFFFFF s = Some (Ok (acc @ p), s') \<and> inp pending s' w \<and> rest_of sent s' = rest_of sent s \<and>
    ms_waiting s' = ms_waiting s \<and> ms_sequence_id s' = sid + of_nat (frame_count p)"
  using assms
proof (induction sid p arbitrary: s acc rule: frames.induct)
  case (1 sid p)
  show ?case
  proof (cases "0xFFFFFF \<le> length p")
    case True
    let ?p = "take 0xFFFFFF p" and ?q = "drop 0xFFFFFF p"
    have fr: "frames sid p = frame sid ?p # frames (sid + 1) ?q"
      using True by (subst frames.simps) simp
    have fc: "frame_count p = Suc (frame_count ?q)"
      using True by (simp add: frame_count_def le_div_geq)
    have "inp pending s (frame sid ?p @ concat (frames (sid + 1) ?q) @ w)" using "1.prems" fr by simp
    from recv_frame_inp [OF this] True obtain s1 where
      s1: "recv_frame C N s = Some (Ok ?p, s1)" "inp pending s1 (concat (frames (sid + 1) ?q) @ w)"
        "rest_of sent s1 = rest_of sent s" "ms_waiting s1 = ms_waiting s" by auto
    have l: "length ?p = 0xFFFFFF" using True by simp
    from "1.IH" [OF True s1(2), of "acc @ ?p"] obtain s2 where
      "recv_join C N (acc @ ?p) 0xFFFFFF s1 = Some (Ok (acc @ p), s2)" "inp pending s2 w" "rest_of sent s2 = rest_of sent s1"
      "ms_waiting s2 = ms_waiting s1" "ms_sequence_id s2 = sid + 1 + of_nat (frame_count ?q)" by auto
    with s1 fc l show ?thesis
      by (subst recv_join.simps) (simp add: abind_Ok)
  next
    case False
    then have fr: "frames sid p = [frame sid p]" by (subst frames.simps) simp
    with recv_frame_inp [of s sid p w] "1.prems" False obtain s1 where
      s1: "recv_frame C N s = Some (Ok p, s1)" "inp pending s1 w" "rest_of sent s1 = rest_of sent s" "ms_waiting s1 = ms_waiting s"
        "ms_sequence_id s1 = sid + 1" by auto
    have "recv_join C N (acc @ p) (length p) s1 = Some (Ok (acc @ p), s1)"
      using False by (subst recv_join.simps) (simp add: aop_run)
    with s1 False show ?thesis
      by (subst recv_join.simps) (simp add: abind_Ok frame_count_def)
  qed
qed

text \<open>Reassembly inverts framing, whatever the length of the payload.\<close>

lemma recv_payload_inp:
  assumes "inp pending s (concat (frames sid p) @ w)"
  shows "\<exists>s'. abind (recv_frame C N) (\<lambda>payload. if length payload < 0xFFFFFF then aret payload
        else recv_join C N payload 0xFFFFFF) s = Some (Ok p, s') \<and>
    inp pending s' w \<and> rest_of sent s' = rest_of sent s \<and> ms_waiting s' = ms_waiting s \<and>
    ms_sequence_id s' = sid + of_nat (frame_count p)"
proof (cases "0xFFFFFF \<le> length p")
  case True
  let ?p = "take 0xFFFFFF p" and ?q = "drop 0xFFFFFF p"
  have fr: "frames sid p = frame sid ?p # frames (sid + 1) ?q"
    using True by (subst frames.simps) simp
  have fc: "frame_count p = Suc (frame_count ?q)"
    using True by (simp add: frame_count_def le_div_geq)
  have "inp pending s (frame sid ?p @ concat (frames (sid + 1) ?q) @ w)" using assms fr by simp
  from recv_frame_inp [OF this] True obtain s1 where
    s1: "recv_frame C N s = Some (Ok ?p, s1)" "inp pending s1 (concat (frames (sid + 1) ?q) @ w)"
      "rest_of sent s1 = rest_of sent s" "ms_waiting s1 = ms_waiting s" by auto
  from recv_join_inp [OF s1(2), of ?p] s1 fc True show ?thesis
    by (auto simp: abind_Ok)
next
  case False
  then have fr: "frames sid p = [frame sid p]" by (subst frames.simps) simp
  with recv_frame_inp [of s sid p w] assms False show ?thesis
    by (auto simp: abind_Ok aop_run frame_count_def)
qed

lemma recv_packet_unfold:
  "recv_packet C N =
     abind (abind (recv_frame C N) (\<lambda>payload. if length payload < 0xFFFFFF then aret payload
        else recv_join C N payload 0xFFFFFF)) (\<lambda>payload.
     if payload = [] then alift (Err (Protocol ''Packet empty'' []))
     else if hd payload = 0xff then
       athen (amodify (\<lambda>s. s\<lparr>ms_waiting := tl (ms_waiting s)\<rparr>))
         (abind (aget ms_capabilities) (\<lambda>capabilities.
          alift (rbind (err_packet_decode C capabilities payload) (\<lambda>p. Err (database_error p)))))
     else aret payload)"
  by (simp add: recv_packet_def abind_assoc)

lemma recv_packet_inp:
  assumes "inp pending s (concat (frames sid p) @ w)" and "p \<noteq> []" and "hd p \<noteq> 0xff"
  shows "\<exists>s'. recv_packet C N s = Some (Ok p, s') \<and> inp pending s' w \<and> rest_of sent s' = rest_of sent s \<and>
    ms_waiting s' = ms_waiting s \<and> ms_sequence_id s' = sid + of_nat (frame_count p)"
  using recv_payload_inp [OF assms(1)] assms(2,3)
  by (auto simp: recv_packet_unfold abind_Ok aop_run)

lemma recv_packet_error:
  assumes "inp pending s (concat (frames sid p) @ w)" and "p \<noteq> []" and "hd p = 0xff"
    and "err_packet_decode C (ms_capabilities s) p = Ok e"
  shows "\<exists>s'. recv_packet C N s = Some (Err (database_error e), s') \<and> inp pending s' w \<and>
    rest_of sent s' = rest_of sent s \<and> ms_waiting s' = tl (ms_waiting s)"
proof -
  from recv_payload_inp [OF assms(1)] obtain s1 where
    s1: "abind (recv_frame C N) (\<lambda>payload. if length payload < 0xFFFFFF then aret payload
        else recv_join C N payload 0xFFFFFF) s = Some (Ok p, s1)"
      "inp pending s1 w" "rest_of sent s1 = rest_of sent s" "ms_waiting s1 = ms_waiting s" by blast
  have "ms_capabilities s1 = ms_capabilities s" using s1(3) by (simp add: rest_of_def)
  with s1 assms(2,3,4) show ?thesis
    by (simp add: recv_packet_unfold abind_Ok aop_run)
qed

end

text \<open>The packets of a conversation on the wire, each with its sequence number.\<close>

definition packets_wire :: "(u8 \<times> bytes) list \<Rightarrow> bytes" where
  "packets_wire ps = concat (map (\<lambda>(sid, p). concat (frames sid p)) ps)"

lemma packets_wire_simps [simp]:
  "packets_wire [] = []" "packets_wire (x # ps) = concat (frames (fst x) (snd x)) @ packets_wire ps"
  "packets_wire (ps @ qs) = packets_wire ps @ packets_wire qs"
  by (simp_all add: packets_wire_def case_prod_unfold)

definition plain_packet :: "bytes \<Rightarrow> bool" where
  "plain_packet p = (p \<noteq> [] \<and> hd p \<noteq> 0xff)"

definition more_results :: "u16 \<Rightarrow> bool" where
  "more_results st = (st AND SERVER_MORE_RESULTS_EXISTS = SERVER_MORE_RESULTS_EXISTS)"

definition is_terminator :: "bytes \<Rightarrow> bool" where
  "is_terminator p = (p \<noteq> [] \<and> hd p = 0xfe \<and> length p < 9)"

text \<open>
  The packets that complete an outstanding response: while a row is awaited, rows up to a
  terminator; while a result is awaited, an OK packet or the metadata of a result set followed
  by its rows; and so on as long as more results are announced.
\<close>

inductive completes :: "crates \<Rightarrow> u64 \<Rightarrow> waiting \<Rightarrow> (u8 \<times> bytes) list \<Rightarrow> bool" for C caps where
  row: "plain_packet p \<Longrightarrow> \<not> is_terminator p \<Longrightarrow> completes C caps W_Row ps \<Longrightarrow>
    completes C caps W_Row ((sid, p) # ps)"
| last_row: "is_terminator p \<Longrightarrow> packet_eof C caps p = Ok e \<Longrightarrow> \<not> more_results (eof_status e) \<Longrightarrow>
    completes C caps W_Row [(sid, p)]"
| next_set: "is_terminator p \<Longrightarrow> packet_eof C caps p = Ok e \<Longrightarrow> more_results (eof_status e) \<Longrightarrow>
    completes C caps W_Result ps \<Longrightarrow> completes C caps W_Row ((sid, p) # ps)"
| last_ok: "p \<noteq> [] \<Longrightarrow> hd p = 0 \<Longrightarrow> ok_packet_decode C p = Ok k \<Longrightarrow> \<not> more_results (ok_status k) \<Longrightarrow>
    completes C caps W_Result [(sid, p)]"
| next_ok: "p \<noteq> [] \<Longrightarrow> hd p = 0 \<Longrightarrow> ok_packet_decode C p = Ok k \<Longrightarrow> more_results (ok_status k) \<Longrightarrow>
    completes C caps W_Result ps \<Longrightarrow> completes C caps W_Result ((sid, p) # ps)"
| metadata: "plain_packet p \<Longrightarrow> hd p \<noteq> 0 \<Longrightarrow> get_uint_lenenc C p = Ok (n, q) \<Longrightarrow>
    length cols = unat n \<Longrightarrow> list_all (plain_packet \<circ> snd) cols \<Longrightarrow>
    (if caps AND DEPRECATE_EOF = DEPRECATE_EOF then eofs = []
     else \<exists>i r. eofs = [(i, r)] \<and> plain_packet r \<and> (\<exists>e. eof_packet_decode C r = Ok e)) \<Longrightarrow>
    completes C caps W_Row ps \<Longrightarrow> completes C caps W_Result ((sid, p) # cols @ eofs @ ps)"

inductive_cases completes_RowE: "completes C caps W_Row ps"
inductive_cases completes_ResultE: "completes C caps W_Result ps"

context healthy_net
begin

lemma recv_packets_inp:
  assumes "inp pending s (packets_wire ps @ w)" and "list_all (plain_packet \<circ> snd) ps"
  shows "\<exists>s'. arepeat (length ps) (\<lambda>_. recv_packet C N) i s = Some (Ok (map snd ps), s') \<and> inp pending s' w \<and>
    rest_of sent s' = rest_of sent s \<and> ms_waiting s' = ms_waiting s"
  using assms
proof (induction ps arbitrary: s i)
  case Nil
  then show ?case by (simp add: aop_run)
next
  case (Cons x ps)
  from Cons.prems have "inp pending s (concat (frames (fst x) (snd x)) @ packets_wire ps @ w)"
    "snd x \<noteq> []" "hd (snd x) \<noteq> 0xff" by (auto simp: plain_packet_def)
  from recv_packet_inp [OF this] obtain s1 where
    s1: "recv_packet C N s = Some (Ok (snd x), s1)" "inp pending s1 (packets_wire ps @ w)"
      "rest_of sent s1 = rest_of sent s" "ms_waiting s1 = ms_waiting s" by blast
  from Cons.IH [OF s1(2), of "Suc i"] Cons.prems obtain s2 where
    "arepeat (length ps) (\<lambda>_. recv_packet C N) (Suc i) s1 = Some (Ok (map snd ps), s2)" "inp pending s2 w"
    "rest_of sent s2 = rest_of sent s1" "ms_waiting s2 = ms_waiting s1" by auto
  with s1 show ?case by (simp add: abind_Ok aop_run)
qed

lemma skip_metadata_inp:
  assumes "get_uint_lenenc C p = Ok (n, q)" and "length cols = unat n" and "list_all (plain_packet \<circ> snd) cols"
    and eofs: "if ms_capabilities s AND DEPRECATE_EOF = DEPRECATE_EOF then eofs = []
     else \<exists>i r. eofs = [(i, r)] \<and> plain_packet r \<and> (\<exists>e. eof_packet_decode C r = Ok e)"
    and "inp pending s (packets_wire (cols @ eofs) @ w)"
  shows "\<exists>s'. skip_result_metadata C N p s = Some (Ok (), s') \<and> inp pending s' w \<and>
    rest_of sent s' = rest_of sent s \<and> ms_waiting s' = ms_waiting s"
proof -
  have "inp pending s (packets_wire cols @ packets_wire eofs @ w)" using assms(5) by simp
  from recv_packets_inp [OF this assms(3), of 0] obtain s1 where
    s1: "arepeat (length cols) (\<lambda>_. recv_packet C N) 0 s = Some (Ok (map snd cols), s1)"
      "inp pending s1 (packets_wire eofs @ w)" "rest_of sent s1 = rest_of sent s" "ms_waiting s1 = ms_waiting s" by blast
  have caps: "ms_capabilities s1 = ms_capabilities s" using s1(3) by (simp add: rest_of_def)
  have "\<exists>e s'. maybe_recv_eof C N s1 = Some (Ok e, s') \<and> inp pending s' w \<and>
      rest_of sent s' = rest_of sent s1 \<and> ms_waiting s' = ms_waiting s1"
  proof (cases "ms_capabilities s AND DEPRECATE_EOF = DEPRECATE_EOF")
    case True
    with eofs s1 caps show ?thesis
      by (simp add: maybe_recv_eof_def aop_run caps_contains_law)
  next
    case False
    with eofs obtain i r e where r: "eofs = [(i, r)]" "plain_packet r" "eof_packet_decode C r = Ok e" by auto
    with s1(2) recv_packet_inp [of s1 i r w] obtain s2 where
      "recv_packet C N s1 = Some (Ok r, s2)" "inp pending s2 w" "rest_of sent s2 = rest_of sent s1"
      "ms_waiting s2 = ms_waiting s1" by (auto simp: plain_packet_def)
    with False caps r show ?thesis
      by (simp add: maybe_recv_eof_def aop_run caps_contains_law recv_def abind_Ok)
  qed
  then obtain e s2 where "maybe_recv_eof C N s1 = Some (Ok e, s2)" "inp pending s2 w"
    "rest_of sent s2 = rest_of sent s1" "ms_waiting s2 = ms_waiting s1" by blast
  with s1 assms(1,2) show ?thesis
    by (simp add: skip_result_metadata_def aop_run abind_Ok)
qed

text \<open>One awaited packet of each kind.\<close>

lemma row_step:
  assumes "inp pending s (concat (frames sid p) @ w)" and "ms_waiting s = W_Row # ws" and "plain_packet p"
  shows "\<exists>s'. abind (recv_packet C N) (skip_row_packet C) s = skip_row_packet C p s' \<and> inp pending s' w \<and>
    rest_of sent s' = rest_of sent s \<and> ms_waiting s' = W_Row # ws"
  using recv_packet_inp [OF assms(1)] assms(2,3) by (auto simp: plain_packet_def abind_Ok)

lemma skip_rows_stop: "\<not> front_is W_Row s \<Longrightarrow> skip_rows C N s = Some (Ok (), s)"
  by (subst skip_rows.simps) (simp add: aop_run)

lemma skip_rows_go:
  "front_is W_Row s \<Longrightarrow> abind (recv_packet C N) (skip_row_packet C) s = Some (Ok (), s') \<Longrightarrow>
    skip_rows C N s = skip_rows C N s'"
  by (subst skip_rows.simps) (simp add: abind_Ok)

lemma skip_results_stop: "\<not> front_is W_Result s \<Longrightarrow> skip_results C N s = Some (Ok (), s)"
  by (subst skip_results.simps) (simp add: aop_run)

lemma skip_results_go:
  "front_is W_Result s \<Longrightarrow> abind (recv_packet C N) (skip_result_packet C N) s = Some (Ok (), s') \<Longrightarrow>
    skip_results C N s = skip_results C N s'"
  by (subst skip_results.simps) (simp add: abind_Ok)

definition from_row :: "('s mysql_stream, unit) aop" where
  "from_row = abind (skip_rows C N) (\<lambda>_. abind (skip_results C N) (\<lambda>_. wait_loop C N))"

definition from_result :: "('s mysql_stream, unit) aop" where
  "from_result = abind (skip_results C N) (\<lambda>_. wait_loop C N)"

lemma wait_done: "ms_waiting s = [] \<Longrightarrow> wait_loop C N s = Some (Ok (), s) \<and> from_row s = Some (Ok (), s) \<and> from_result s = Some (Ok (), s)"
  by (subst wait_loop.simps)
    (simp add: aop_run from_row_def from_result_def abind_Ok skip_rows_stop skip_results_stop front_is_def,
     subst wait_loop.simps, simp add: aop_run)

lemma wait_loop_from_row: "ms_waiting s \<noteq> [] \<Longrightarrow> wait_loop C N s = from_row s"
  by (subst wait_loop.simps) (simp add: from_row_def)

lemma from_row_go:
  "front_is W_Row s \<Longrightarrow> abind (recv_packet C N) (skip_row_packet C) s = Some (Ok (), s') \<Longrightarrow> from_row s = from_row s'"
  by (simp add: from_row_def abind_def skip_rows_go)

lemma from_row_result: "front_is W_Result s \<Longrightarrow> from_row s = from_result s"
  by (simp add: from_row_def from_result_def abind_Ok skip_rows_stop front_is_def)

lemma from_result_go:
  "front_is W_Result s \<Longrightarrow> abind (recv_packet C N) (skip_result_packet C N) s = Some (Ok (), s') \<Longrightarrow>
    from_result s = from_result s'"
  by (simp add: from_result_def abind_def skip_results_go)

lemma from_result_row: "front_is W_Row s \<Longrightarrow> from_result s = from_row s"
  by (simp add: from_result_def abind_Ok skip_results_stop front_is_def wait_loop_from_row)

lemma result_step:
  assumes "inp pending s (concat (frames sid p) @ w)" and "ms_waiting s = W_Result # ws" and "plain_packet p"
  shows "\<exists>s'. abind (recv_packet C N) (skip_result_packet C N) s = skip_result_packet C N p s' \<and> inp pending s' w \<and>
    rest_of sent s' = rest_of sent s \<and> ms_waiting s' = W_Result # ws"
  using recv_packet_inp [OF assms(1)] assms(2,3) by (auto simp: plain_packet_def abind_Ok)

lemma rest_caps: "rest_of sent s' = rest_of sent s \<Longrightarrow> ms_capabilities s' = ms_capabilities s"
  by (simp add: rest_of_def)

lemma skip_row_terminator:
  assumes "is_terminator p" and "packet_eof C (ms_capabilities s) p = Ok e" and "ms_waiting s = v # ws"
  shows "skip_row_packet C p s = Some (Ok (), s\<lparr>ms_waiting := (if more_results (eof_status e) then W_Result # ws else ws)\<rparr>)"
  using assms by (simp add: skip_row_packet_def is_terminator_def aop_run more_results_def flags_contains_law
    set_front_def pop_front_def)

lemma skip_row_row: "\<not> is_terminator p \<Longrightarrow> skip_row_packet C p s = Some (Ok (), s)"
  by (auto simp: skip_row_packet_def is_terminator_def aop_run)

lemma skip_result_ok:
  assumes "p \<noteq> []" and "hd p = 0" and "ok_packet_decode C p = Ok k"
  shows "skip_result_packet C N p s =
    Some (Ok (), if more_results (ok_status k) then s else s\<lparr>ms_waiting := tl (ms_waiting s)\<rparr>)"
  using assms by (simp add: skip_result_packet_def aop_run more_results_def flags_contains_law pop_front_def)

lemma terminator_plain: "is_terminator p \<Longrightarrow> plain_packet p"
  by (auto simp: is_terminator_def plain_packet_def)

lemma drains:
  assumes "completes C caps w ps" and "inp pending s (packets_wire ps @ rest)" and "ms_waiting s = [w]"
    and "ms_capabilities s = caps"
  shows "\<exists>s'. (case w of W_Row \<Rightarrow> from_row s | W_Result \<Rightarrow> from_result s) = Some (Ok (), s') \<and>
    inp pending s' rest \<and> ms_waiting s' = [] \<and> rest_of sent s' = rest_of sent s"
  using assms
proof (induction arbitrary: s rule: completes.induct)
  case (row p ps sid)
  from row.prems have "inp pending s (concat (frames sid p) @ packets_wire ps @ rest)" by simp
  from row_step [OF this row.prems(2) row.hyps(1)] row.hyps(2) obtain s1 where
    s1: "abind (recv_packet C N) (skip_row_packet C) s = Some (Ok (), s1)" "inp pending s1 (packets_wire ps @ rest)"
      "rest_of sent s1 = rest_of sent s" "ms_waiting s1 = [W_Row]" by (auto simp: skip_row_row)
  have "from_row s = from_row s1" using from_row_go s1(1) row.prems(2) by (simp add: front_is_def)
  with row.IH [OF s1(2,4)] rest_caps [OF s1(3)] row.prems(3) s1(3) show ?case by simp
next
  case (last_row p e sid)
  from last_row.prems have "inp pending s (concat (frames sid p) @ rest)" by simp
  from row_step [OF this last_row.prems(2) terminator_plain [OF last_row.hyps(1)]] obtain s1 where
    s1: "abind (recv_packet C N) (skip_row_packet C) s = skip_row_packet C p s1" "inp pending s1 rest"
      "rest_of sent s1 = rest_of sent s" "ms_waiting s1 = [W_Row]" by blast
  let ?t = "s1\<lparr>ms_waiting := []\<rparr>"
  have "skip_row_packet C p s1 = Some (Ok (), ?t)"
    using skip_row_terminator [OF last_row.hyps(1) _ s1(4)] last_row.hyps(2,3) rest_caps [OF s1(3)] last_row.prems(3)
    by simp
  then have "from_row s = from_row ?t" using from_row_go s1(1) last_row.prems(2) by (simp add: front_is_def)
  with wait_done [of ?t] s1 show ?case by simp
next
  case (next_set p e ps sid)
  from next_set.prems have "inp pending s (concat (frames sid p) @ packets_wire ps @ rest)" by simp
  from row_step [OF this next_set.prems(2) terminator_plain [OF next_set.hyps(1)]] obtain s1 where
    s1: "abind (recv_packet C N) (skip_row_packet C) s = skip_row_packet C p s1" "inp pending s1 (packets_wire ps @ rest)"
      "rest_of sent s1 = rest_of sent s" "ms_waiting s1 = [W_Row]" by blast
  let ?t = "s1\<lparr>ms_waiting := [W_Result]\<rparr>"
  have "skip_row_packet C p s1 = Some (Ok (), ?t)"
    using skip_row_terminator [OF next_set.hyps(1) _ s1(4)] next_set.hyps(2,3) rest_caps [OF s1(3)] next_set.prems(3)
    by simp
  then have "from_row s = from_row ?t" using from_row_go s1(1) next_set.prems(2) by (simp add: front_is_def)
  also have "\<dots> = from_result ?t" by (rule from_row_result) (simp add: front_is_def)
  finally show ?case
    using next_set.IH [of ?t] s1 rest_caps [OF s1(3)] next_set.prems(3) by simp
next
  case (last_ok p k sid)
  from last_ok.prems have "inp pending s (concat (frames sid p) @ rest)" by simp
  from result_step [OF this last_ok.prems(2)] last_ok.hyps(1,2) obtain s1 where
    s1: "abind (recv_packet C N) (skip_result_packet C N) s = skip_result_packet C N p s1" "inp pending s1 rest"
      "rest_of sent s1 = rest_of sent s" "ms_waiting s1 = [W_Result]" by (auto simp: plain_packet_def)
  let ?t = "s1\<lparr>ms_waiting := []\<rparr>"
  have "skip_result_packet C N p s1 = Some (Ok (), ?t)"
    using skip_result_ok [OF last_ok.hyps(1-3)] last_ok.hyps(4) s1(4) by simp
  then have "from_result s = from_result ?t" using from_result_go s1(1) last_ok.prems(2) by (simp add: front_is_def)
  with wait_done [of ?t] s1 show ?case by simp
next
  case (next_ok p k ps sid)
  from next_ok.prems have "inp pending s (concat (frames sid p) @ packets_wire ps @ rest)" by simp
  from result_step [OF this next_ok.prems(2)] next_ok.hyps(1,2) obtain s1 where
    s1: "abind (recv_packet C N) (skip_result_packet C N) s = skip_result_packet C N p s1" "inp pending s1 (packets_wire ps @ rest)"
      "rest_of sent s1 = rest_of sent s" "ms_waiting s1 = [W_Result]" by (auto simp: plain_packet_def)
  have "skip_result_packet C N p s1 = Some (Ok (), s1)"
    using skip_result_ok [OF next_ok.hyps(1-3)] next_ok.hyps(4) by simp
  then have "from_result s = from_result s1" using from_result_go s1(1) next_ok.prems(2) by (simp add: front_is_def)
  with next_ok.IH [OF s1(2,4)] rest_caps [OF s1(3)] next_ok.prems(3) s1(3) show ?case by simp
next
  case (metadata p n q cols eofs ps sid)
  from metadata.prems have "inp pending s (concat (frames sid p) @ packets_wire (cols @ eofs) @ packets_wire ps @ rest)" by simp
  from result_step [OF this metadata.prems(2) metadata.hyps(1)] obtain s1 where
    s1: "abind (recv_packet C N) (skip_result_packet C N) s = skip_result_packet C N p s1"
      "inp pending s1 (packets_wire (cols @ eofs) @ packets_wire ps @ rest)"
      "rest_of sent s1 = rest_of sent s" "ms_waiting s1 = [W_Result]" by blast
  let ?t = "s1\<lparr>ms_waiting := [W_Row]\<rparr>"
  have t: "inp pending ?t (packets_wire (cols @ eofs) @ packets_wire ps @ rest)" "ms_capabilities ?t = caps"
    using s1(2) rest_caps [OF s1(3)] metadata.prems(3) by (simp_all del: packets_wire_simps)
  from skip_metadata_inp [OF metadata.hyps(3,4,5) _ t(1)] metadata.hyps(6) t(2) obtain s2 where
    s2: "skip_result_metadata C N p ?t = Some (Ok (), s2)" "inp pending s2 (packets_wire ps @ rest)"
      "rest_of sent s2 = rest_of sent s1" "ms_waiting s2 = [W_Row]" by auto
  have "skip_result_packet C N p s1 = Some (Ok (), s2)"
    using s1(4) s2(1) metadata.hyps(1,2)
    by (auto simp: skip_result_packet_def plain_packet_def set_front_def athen_def abind_def)
  then have "from_result s = from_result s2" using from_result_go s1(1) metadata.prems(2) by (simp add: front_is_def)
  also have "\<dots> = from_row s2" using s2(4) by (intro from_result_row) (simp add: front_is_def)
  finally show ?case
    using metadata.IH [OF s2(2,4)] s2(3) s1(3) rest_caps [OF s2(3)] rest_caps [OF s1(3)] metadata.prems(3) by simp
qed

lemma wait_loop_drains:
  assumes "completes C (ms_capabilities s) w ps" and "inp pending s (packets_wire ps @ rest)" and "ms_waiting s = [w]"
  shows "\<exists>s'. wait_loop C N s = Some (Ok (), s') \<and> inp pending s' rest \<and> ms_waiting s' = [] \<and>
    rest_of sent s' = rest_of sent s"
proof -
  have "wait_loop C N s = (case w of W_Row \<Rightarrow> from_row s | W_Result \<Rightarrow> from_result s)"
    using assms(3) by (cases w) (simp_all add: wait_loop_from_row from_row_result front_is_def)
  with drains [OF assms(1,2,3)] show ?thesis by simp
qed

lemma stream_flush_inp:
  "\<exists>s'. stream_flush N s = Some (Ok (), s') \<and> inp pending s' = inp pending s \<and> ms_waiting s' = ms_waiting s \<and>
    ms_sequence_id s' = ms_sequence_id s \<and> ms_capabilities s' = ms_capabilities s \<and>
    wbuf (ms_stream s') = [] \<and> sent (stream (ms_stream s')) = sent (stream (ms_stream s)) @ wbuf (ms_stream s) \<and>
    ms_server_version s' = ms_server_version s \<and> ms_charset s' = ms_charset s \<and> ms_collation s' = ms_collation s"
proof -
  from flush_sends [of "stream (ms_stream s)" "wbuf (ms_stream s)"] obtain t where
    "net_flush N (stream (ms_stream s)) (wbuf (ms_stream s)) = (Ok (), t)"
    "sent t = sent (stream (ms_stream s)) @ wbuf (ms_stream s)" "pending t = pending (stream (ms_stream s))" by blast
  then show ?thesis
    by (simp add: stream_flush_def write_and_flush_drop_def inp_def fun_eq_iff)
qed

text \<open>
  Becoming ready flushes what is buffered and consumes exactly the packets of the outstanding
  response, in however many pieces the network delivers them.
\<close>

lemma wait_until_ready_drains:
  assumes "completes C (ms_capabilities s) w ps" and "inp pending s (packets_wire ps @ rest)" and "ms_waiting s = [w]"
  shows "\<exists>s'. wait_until_ready C N s = Some (Ok (), s') \<and> inp pending s' rest \<and> ms_waiting s' = [] \<and>
    wbuf (ms_stream s') = [] \<and> sent (stream (ms_stream s')) = sent (stream (ms_stream s)) @ wbuf (ms_stream s) \<and>
    ms_capabilities s' = ms_capabilities s"
proof (cases "wbuf (ms_stream s) = []")
  case True
  with wait_loop_drains [OF assms] show ?thesis by (auto simp: wait_until_ready_def rest_of_def)
next
  case False
  from stream_flush_inp [of s] obtain s1 where
    s1: "stream_flush N s = Some (Ok (), s1)" "inp pending s1 = inp pending s" "ms_waiting s1 = ms_waiting s"
      "ms_capabilities s1 = ms_capabilities s" "wbuf (ms_stream s1) = []"
      "sent (stream (ms_stream s1)) = sent (stream (ms_stream s)) @ wbuf (ms_stream s)" by blast
  from wait_loop_drains [of s1 w ps rest] assms s1 obtain s2 where
    "wait_loop C N s1 = Some (Ok (), s2)" "inp pending s2 rest" "ms_waiting s2 = []" "rest_of sent s2 = rest_of sent s1" by auto
  with False s1 show ?thesis by (simp add: wait_until_ready_def athen_Ok rest_of_def)
qed

lemma write_packet_frames:
  assumes "\<And>b. payload (ms_capabilities s) b = b @ p"
  shows "write_packet payload s =
    Some (Ok (), s\<lparr>ms_stream := (ms_stream s)\<lparr>wbuf := wbuf (ms_stream s) @ concat (frames (ms_sequence_id s) p)\<rparr>,
      ms_sequence_id := ms_sequence_id s + of_nat (frame_count p)\<rparr>)"
  using packet_encode_frames [of "payload (ms_capabilities s)" "wbuf (ms_stream s)" p "ms_sequence_id s"] assms
  by (simp add: write_packet_def amodify_def)

text \<open>Sending puts the frames of the payload on the wire, numbered from zero, behind what was buffered.\<close>

lemma send_packet_inp:
  assumes "\<And>b. payload (ms_capabilities s) b = b @ p"
  shows "\<exists>s'. send_packet N payload s = Some (Ok (), s') \<and> inp pending s' = inp pending s \<and>
    ms_waiting s' = ms_waiting s \<and> ms_capabilities s' = ms_capabilities s \<and> wbuf (ms_stream s') = [] \<and>
    sent (stream (ms_stream s')) = sent (stream (ms_stream s)) @ wbuf (ms_stream s) @ concat (frames 0 p) \<and>
    ms_server_version s' = ms_server_version s \<and> ms_charset s' = ms_charset s \<and> ms_collation s' = ms_collation s"
proof -
  let ?s = "s\<lparr>ms_sequence_id := 0\<rparr>"
  let ?t = "?s\<lparr>ms_stream := (ms_stream s)\<lparr>wbuf := wbuf (ms_stream s) @ concat (frames 0 p)\<rparr>,
      ms_sequence_id := of_nat (frame_count p)\<rparr>"
  have w: "write_packet payload ?s = Some (Ok (), ?t)"
    using write_packet_frames [of payload ?s p] assms by simp
  have "send_packet N payload s = stream_flush N ?t"
    by (simp add: send_packet_def athen_Ok [OF amodify_run] athen_Ok [where m = "write_packet payload", OF w])
  then show ?thesis using stream_flush_inp [of ?t] by (auto simp: inp_def fun_eq_iff)
qed

end

section \<open>A scripted server\<close>

definition script_stream :: "bytes list \<Rightarrow> u64 \<Rightarrow> waiting list \<Rightarrow> script mysql_stream" where
  "script_stream chunks caps ws =
     \<lparr>ms_stream = buf_stream_new \<lparr>script_in = chunks, script_out = [], script_tls = False\<rparr>,
      ms_server_version = (8, 0, 0), ms_capabilities = caps, ms_sequence_id = 7, ms_waiting = ws,
      ms_charset = ''utf8mb4'', ms_collation = ''utf8mb4_unicode_ci''\<rparr>"

lemma script_stream_simps [simp]:
  "inp script_pending (script_stream chunks caps ws) w = (concat chunks = w)"
  "ms_waiting (script_stream chunks caps ws) = ws" "ms_capabilities (script_stream chunks caps ws) = caps"
  "wbuf (ms_stream (script_stream chunks caps ws)) = []"
  "script_out (stream (ms_stream (script_stream chunks caps ws))) = []"
  by (simp_all add: script_stream_def inp_def buf_stream_new_def script_pending_def)

section \<open>Properties\<close>

text \<open>C15: What \<open>send_packet\<close> puts on the wire, \<open>recv_packet\<close> at the other end returns: for a payload
  of any length, split into frames of at most 0xFFFFFF bytes by the sender and delivered by the
  network in pieces of any size, the receiver gets the payload back and consumes exactly its frames.\<close>

theorem packet_roundtrip:
  assumes "healthy_net N pending C sent" and "healthy_net N' pending' C sent'"
    and "\<forall>b. payload (ms_capabilities s) b = b @ p" and "plain_packet p" and "wbuf (ms_stream s) = []"
  shows "\<exists>s' wire. send_packet N payload s = Some (Ok (), s') \<and>
    sent (stream (ms_stream s')) = sent (stream (ms_stream s)) @ wire \<and>
    (\<forall>r w. rbuf (ms_stream r) = [] \<longrightarrow> pending' (stream (ms_stream r)) = wire @ w \<longrightarrow>
      (\<exists>r'. recv_packet C N' r = Some (Ok p, r') \<and> rbuf (ms_stream r') = [] \<and>
        pending' (stream (ms_stream r')) = w \<and> ms_sequence_id r' = ms_sequence_id s' \<and> ms_waiting r' = ms_waiting r))"
proof -
  let ?t = "s\<lparr>ms_sequence_id := 0\<rparr>"
  have sid: "send_packet N payload s = Some (Ok (), s') \<Longrightarrow> ms_sequence_id s' = of_nat (frame_count p)" for s'
    using packet_encode_frames [of "payload (ms_capabilities s)" "[]" p 0] assms(3,5)
    by (auto simp: send_packet_def write_packet_def athen_def abind_def amodify_def stream_flush_def split: prod.splits)
  from healthy_net.send_packet_inp [OF assms(1), of payload s p] assms(3,5) obtain s' where
    s': "send_packet N payload s = Some (Ok (), s')"
      "sent (stream (ms_stream s')) = sent (stream (ms_stream s)) @ concat (frames 0 p)" by auto
  moreover have "\<exists>r'. recv_packet C N' r = Some (Ok p, r') \<and> rbuf (ms_stream r') = [] \<and>
        pending' (stream (ms_stream r')) = w \<and> ms_sequence_id r' = ms_sequence_id s' \<and> ms_waiting r' = ms_waiting r"
    if "rbuf (ms_stream r) = []" "pending' (stream (ms_stream r)) = concat (frames 0 p) @ w" for r w
    using healthy_net.recv_packet_inp [OF assms(2), of r 0 p w] that assms(4) sid [OF s'(1)]
    by (auto simp: inp_def plain_packet_def)
  ultimately show ?thesis by blast
qed

theorem packet_roundtrip_witness:
  "\<exists>s' wire. send_packet script_net (\<lambda>_ b. b @ replicate 0x1000000 1) (script_stream [] 0 []) = Some (Ok (), s') \<and>
    script_out (stream (ms_stream s')) = wire \<and>
    (\<exists>r'. recv_packet std_crates script_net (script_stream [take 2 wire, drop 2 wire, [9]] 0 []) =
        Some (Ok (replicate 0x1000000 1), r') \<and> script_pending (stream (ms_stream r')) = [9])"
proof -
  have "plain_packet (replicate 0x1000000 1)" by (simp add: plain_packet_def)
  from packet_roundtrip [OF script.healthy_net_axioms script.healthy_net_axioms _ this,
      of "\<lambda>_ b. b @ replicate 0x1000000 1" "script_stream [] 0 []"]
  obtain s' wire where s': "send_packet script_net (\<lambda>_ b. b @ replicate 0x1000000 1) (script_stream [] 0 []) = Some (Ok (), s')"
    "script_out (stream (ms_stream s')) = wire"
    and r: "\<forall>r w. rbuf (ms_stream r) = [] \<longrightarrow> script_pending (stream (ms_stream r)) = wire @ w \<longrightarrow>
      (\<exists>r'. recv_packet std_crates script_net r = Some (Ok (replicate 0x1000000 1), r') \<and> rbuf (ms_stream r') = [] \<and>
        script_pending (stream (ms_stream r')) = w \<and> ms_sequence_id r' = ms_sequence_id s' \<and> ms_waiting r' = ms_waiting r)"
    by (simp only: script_stream_simps append_Nil) blast
  let ?r = "script_stream [take 2 wire, drop 2 wire, [9]] 0 []"
  have "rbuf (ms_stream ?r) = []" "script_pending (stream (ms_stream ?r)) = wire @ [9]"
    by (simp_all add: script_stream_def buf_stream_new_def script_pending_def)
  with r s' show ?thesis by blast
qed

text \<open>C17: A connection that still owes the caller a response becomes ready again: \<open>wait_until_ready\<close>
  terminates, having flushed the buffered output and read the rest of that response to its last
  packet, over any number of further result sets, and not one byte of what follows.\<close>

theorem wait_until_ready_terminates:
  assumes "healthy_net N pending C sent" and "ms_waiting s = [w]" and "completes C (ms_capabilities s) w ps"
    and "rbuf (ms_stream s) = []" and "pending (stream (ms_stream s)) = packets_wire ps @ rest"
  shows "\<exists>s'. wait_until_ready C N s = Some (Ok (), s') \<and> ms_waiting s' = [] \<and>
    rbuf (ms_stream s') = [] \<and> pending (stream (ms_stream s')) = rest \<and> wbuf (ms_stream s') = [] \<and>
    sent (stream (ms_stream s')) = sent (stream (ms_stream s)) @ wbuf (ms_stream s)"
  using healthy_net.wait_until_ready_drains [OF assms(1,3) _ assms(2), of rest] assms(4,5)
  by (auto simp: inp_def)

lemma response_completes:
  "completes std_crates 0 W_Row [(1, [1, 65]), (2, [0xfe, 0, 0, 10, 0]), (3, [0, 0, 0, 2, 0, 0, 0])]"
proof -
  have e: "packet_eof std_crates 0 [0xfe, 0, 0, 10, 0] = Ok \<lparr>eof_warnings = 0, eof_status = 10\<rparr>"
    by code_simp
  have k: "ok_packet_decode std_crates [0, 0, 0, 2, 0, 0, 0] =
      Ok \<lparr>affected_rows = 0, last_insert_id = 0, ok_status = 2, ok_warnings = 0\<rparr>"
    by code_simp
  have "completes std_crates 0 W_Result [(3, [0, 0, 0, 2, 0, 0, 0])]"
    by (intro completes.last_ok [OF _ _ k]) (simp_all add: more_results_def SERVER_MORE_RESULTS_EXISTS_def)
  then show ?thesis
    by (intro completes.row completes.next_set [OF _ e])
      (simp_all add: plain_packet_def is_terminator_def more_results_def SERVER_MORE_RESULTS_EXISTS_def)
qed

theorem wait_until_ready_terminates_witness:
  "\<exists>s'. wait_until_ready std_crates script_net
      (script_stream [[2, 0, 0, 1, 1, 65, 5], [0, 0, 2, 0xfe, 0, 0, 10, 0, 7, 0, 0, 3], [0, 0, 0, 2, 0, 0, 0, 99]] 0 [W_Row]) =
    Some (Ok (), s') \<and> ms_waiting s' = [] \<and> script_pending (stream (ms_stream s')) = [99]"
proof -
  have w: "packets_wire [(1, [1, 65]), (2, [0xfe, 0, 0, 10, 0]), (3, [0, 0, 0, 2, 0, 0, 0])] =
    [2, 0, 0, 1, 1, 65, 5, 0, 0, 2, 0xfe, 0, 0, 10, 0, 7, 0, 0, 3, 0, 0, 0, 2, 0, 0, 0]"
    by (simp add: frames.simps frame_def)
  let ?s = "script_stream [[2, 0, 0, 1, 1, 65, 5], [0, 0, 2, 0xfe, 0, 0, 10, 0, 7, 0, 0, 3], [0, 0, 0, 2, 0, 0, 0, 99]] 0 [W_Row]"
  have "rbuf (ms_stream ?s) = []" "script_pending (stream (ms_stream ?s)) = packets_wire [(1, [1, 65]), (2, [0xfe, 0, 0, 10, 0]), (3, [0, 0, 0, 2, 0, 0, 0])] @ [99]"
    unfolding w by (simp_all add: script_stream_def buf_stream_new_def script_pending_def)
  from wait_until_ready_terminates [OF script.healthy_net_axioms _ _ this] response_completes show ?thesis by auto
qed

text \<open>C40: An error packet ends the response it belongs to: \<open>recv_packet\<close> reports the server's code, SQL
  state and message, takes the response off the list of outstanding ones, and leaves the stream
  positioned behind the packet.\<close>

theorem error_packet_reported:
  assumes "healthy_net N pending C sent" and "ms_capabilities s AND PROTOCOL_41 = PROTOCOL_41"
    and "ms_waiting s = w # ws" and "length state = 5" and "utf8_ok state" and "utf8_ok msg"
    and "rbuf (ms_stream s) = []"
    and "pending (stream (ms_stream s)) = concat (frames sid (0xff # to_le code @ 0x23 # state @ msg)) @ rest"
  shows "\<exists>s'. recv_packet C N s = Some (Err (Database code (Some state) msg), s') \<and> ms_waiting s' = ws \<and>
    rbuf (ms_stream s') = [] \<and> pending (stream (ms_stream s')) = rest"
proof -
  have c: "crate_laws C" using assms(1) by (simp add: healthy_net_def)
  have "inp pending s (concat (frames sid (0xff # to_le code @ 0x23 # state @ msg)) @ rest)"
    using assms(7,8) by (simp add: inp_def)
  from healthy_net.recv_packet_error [OF assms(1) this _ _ crate_laws.err_packet_decode_state [OF c assms(2,4-6)]]
  show ?thesis using assms(3) by (auto simp: inp_def database_error_def)
qed

theorem error_packet_reported_witness:
  "\<exists>s'. recv_packet std_crates script_net
      (script_stream [concat (frames 1 (0xff # to_le (1049 :: u16) @ 0x23 # lit ''42000'' @ lit ''no db'')), [5]] PROTOCOL_41 [W_Result]) =
    Some (Err (Database 1049 (Some (lit ''42000'')) (lit ''no db'')), s') \<and> ms_waiting s' = [] \<and>
    script_pending (stream (ms_stream s')) = [5]"
proof -
  let ?s = "script_stream [concat (frames 1 (0xff # to_le (1049 :: u16) @ 0x23 # lit ''42000'' @ lit ''no db'')), [5]] PROTOCOL_41 [W_Result]"
  have "utf8_ok (lit ''42000'')" "utf8_ok (lit ''no db'')" "length (lit ''42000'') = 5" by code_simp+
  moreover have "rbuf (ms_stream ?s) = []" "script_pending (stream (ms_stream ?s)) =
      concat (frames 1 (0xff # to_le (1049 :: u16) @ 0x23 # lit ''42000'' @ lit ''no db'')) @ [5]"
    by (simp_all add: script_stream_def buf_stream_new_def script_pending_def)
  ultimately show ?thesis
    using error_packet_reported [OF script.healthy_net_axioms, of ?s W_Result "[]" "lit ''42000''" "lit ''no db''" 1 1049 "[5]"]
    by auto
qed

end
