(* ===== verification/Mysql_Auth.thy ===== *)
theory Mysql_Auth
  imports Mysql_Stream
begin

text \<open>
  Authentication plugins of the MySQL driver (\<open>rbdc-mysql/src/connection/auth.rs\<close>). The hash
  functions and RSA encryption are those of the \<open>sha1\<close>, \<open>sha2\<close> and \<open>rsa\<close> crates, fields of
  the argument \<open>A\<close>; the random bytes the padding draws are the argument \<open>rnd\<close>. A nonce is a chain of
  two byte strings. What the crates document, the digest lengths and
  that the owner of the private key can decrypt, are the hypotheses \<open>digests\<close> and \<open>key_pair\<close>.
\<close>

section \<open>Model\<close>

record 'key crypto =
  sha1 :: "bytes \<Rightarrow> bytes"
  sha256 :: "bytes \<Rightarrow> bytes"
  from_public_key_pem :: "bytes \<Rightarrow> 'key res"
  oaep_encrypt :: "'key \<Rightarrow> bytes \<Rightarrow> bytes \<Rightarrow> bytes res"

type_synonym nonce = "bytes \<times> bytes"

text \<open>\<open>xor_eq\<close> wraps around inside the second string; an empty one is a division by zero.\<close>

fun xor_loop :: "bytes \<Rightarrow> bytes \<Rightarrow> nat \<Rightarrow> bytes res" where
  "xor_loop [] y i = Ok []"
| "xor_loop (b # x) y i =
     (if length y = 0 then Panic
      else rbind (index y (i mod length y)) (\<lambda>c. rbind (xor_loop x y (Suc i)) (\<lambda>r. Ok ((b XOR c) # r))))"

definition xor_eq :: "bytes \<Rightarrow> bytes \<Rightarrow> bytes res" where
  "xor_eq x y = xor_loop x y 0"

definition to_asciz :: "bytes \<Rightarrow> bytes" where
  "to_asciz s = s @ [0]"

definition scramble_sha1 :: "'key crypto \<Rightarrow> bytes \<Rightarrow> nonce \<Rightarrow> bytes res" where
  "scramble_sha1 A password nonce =
     (let pw_hash = sha1 A password;
          pw_hash_hash = sha1 A pw_hash;
          pw_seed_hash_hash = sha1 A (fst nonce @ snd nonce @ pw_hash_hash)
      in xor_eq pw_hash pw_seed_hash_hash)"

definition scramble_sha256 :: "'key crypto \<Rightarrow> bytes \<Rightarrow> nonce \<Rightarrow> bytes res" where
  "scramble_sha256 A password nonce =
     (let pw_hash = sha256 A password;
          pw_hash_hash = sha256 A pw_hash;
          pw_seed_hash_hash = sha256 A (fst nonce @ snd nonce @ pw_hash_hash)
      in xor_eq pw_hash pw_seed_hash_hash)"

definition parse_rsa_pub_key :: "'key crypto \<Rightarrow> bytes \<Rightarrow> 'key res" where
  "parse_rsa_pub_key A key = (if utf8_ok key then from_public_key_pem A key else Err Utf8Error)"

definition stream_is_tls :: "'s net \<Rightarrow> ('s mysql_stream, bool) aop" where
  "stream_is_tls N = aget (\<lambda>s. net_is_tls N (stream (ms_stream s)))"

definition encrypt_rsa ::
    "crates \<Rightarrow> 's net \<Rightarrow> 'key crypto \<Rightarrow> bytes \<Rightarrow> u8 \<Rightarrow> bytes \<Rightarrow> nonce \<Rightarrow> ('s mysql_stream, bytes) aop" where
  "encrypt_rsa C N A rnd public_key_request_id password nonce =
     abind (stream_is_tls N) (\<lambda>tls.
     if tls then aret (to_asciz password)
     else
       athen (write_packet (\<lambda>_ b. b @ [public_key_request_id]))
       (athen (stream_flush N)
       (abind (recv_packet C N) (\<lambda>packet.
        abind (alift (slice_from packet 1)) (\<lambda>rsa_pub_key.
        abind (alift (xor_eq (to_asciz password) (fst nonce @ snd nonce))) (\<lambda>pass.
        abind (alift (parse_rsa_pub_key A rsa_pub_key)) (\<lambda>pkey.
        alift (oaep_encrypt A pkey rnd pass))))))))"

definition scramble ::
    "crates \<Rightarrow> 's net \<Rightarrow> 'key crypto \<Rightarrow> bytes \<Rightarrow> auth_plugin \<Rightarrow> bytes \<Rightarrow> nonce \<Rightarrow> ('s mysql_stream, bytes) aop" where
  "scramble C N A rnd plugin password nonce =
     (case plugin of
        CachingSha2Password \<Rightarrow> alift (scramble_sha256 A password nonce)
      | MySqlNativePassword \<Rightarrow> alift (scramble_sha1 A password nonce)
      | Sha256Password \<Rightarrow> encrypt_rsa C N A rnd 0x01 password nonce)"

text \<open>\<open>handle\<close> answers whether authentication is finished.\<close>

definition handle ::
    "crates \<Rightarrow> 's net \<Rightarrow> 'key crypto \<Rightarrow> bytes \<Rightarrow> auth_plugin \<Rightarrow> bytes \<Rightarrow> bytes \<Rightarrow> nonce \<Rightarrow> ('s mysql_stream, bool) aop" where
  "handle C N A rnd plugin packet password nonce =
     abind (alift (index packet 0)) (\<lambda>first.
     if plugin = CachingSha2Password \<and> first = 0x01 then
       abind (alift (index packet 1)) (\<lambda>v.
       if v = 0x03 then aret True
       else if v = 0x04 then
         abind (encrypt_rsa C N A rnd 0x02 password nonce) (\<lambda>payload.
         athen (write_packet (\<lambda>_ b. b @ payload))
         (athen (stream_flush N) (aret False)))
       else alift (Err (Protocol ''unexpected result from fast authentication'' [unat v])))
     else alift (Err (Protocol ''unexpected packet for auth plugin during authentication'' [unat first])))"

section \<open>Combining with exclusive or\<close>

lemma xor_loop_nth:
  "y \<noteq> [] \<Longrightarrow> \<exists>r. xor_loop x y i = Ok r \<and> length r = length x \<and>
    (\<forall>j < length x. r ! j = x ! j XOR y ! ((i + j) mod length y))"
proof (induction x arbitrary: i)
  case Nil
  then show ?case by simp
next
  case (Cons b x)
  from Cons.IH [OF Cons.prems, of "Suc i"] obtain r where
    r: "xor_loop x y (Suc i) = Ok r" "length r = length x"
      "\<forall>j < length x. r ! j = x ! j XOR y ! ((Suc i + j) mod length y)" by blast
  have "index y (i mod length y) = Ok (y ! (i mod length y))"
    using Cons.prems by (simp add: index_def)
  with r Cons.prems show ?case
    by (auto simp: nth_Cons split: nat.split)
qed

text \<open>Combining twice with the same string gives back the original.\<close>

lemma xor_eq_total: "y \<noteq> [] \<Longrightarrow> \<exists>r. xor_eq x y = Ok r \<and> length r = length x"
  using xor_loop_nth [of y x 0] by (auto simp: xor_eq_def)

lemma xor_eq_involution:
  assumes "xor_eq x y = Ok r"
  shows "xor_eq r y = Ok x"
proof (cases "y = []")
  case True
  with assms show ?thesis by (cases x) (auto simp: xor_eq_def)
next
  case False
  from xor_loop_nth [OF False, of x 0] assms have
    r: "length r = length x" "\<forall>j < length x. r ! j = x ! j XOR y ! (j mod length y)" by (auto simp: xor_eq_def)
  from xor_loop_nth [OF False, of r 0] obtain q where
    q: "xor_eq r y = Ok q" "length q = length r" "\<forall>j < length r. q ! j = r ! j XOR y ! (j mod length y)"
    by (auto simp: xor_eq_def)
  have "q = x" using r q by (intro nth_equalityI) (auto simp: xor.assoc)
  with q show ?thesis by simp
qed

lemma xor_eq_empty: "xor_eq (b # x) [] = Panic"
  by (simp add: xor_eq_def)

section \<open>The server's side\<close>

definition digests :: "'key crypto \<Rightarrow> bool" where
  "digests A = ((\<forall>b. length (sha1 A b) = 20) \<and> (\<forall>b. length (sha256 A b) = 32))"

text \<open>A key pair: the public key is published as \<open>pem\<close>, messages up to \<open>limit\<close> bytes can be sent.\<close>

definition key_pair :: "'key crypto \<Rightarrow> 'key \<Rightarrow> bytes \<Rightarrow> (bytes \<Rightarrow> bytes) \<Rightarrow> nat \<Rightarrow> bool" where
  "key_pair A key pem decrypt limit =
     (utf8_ok pem \<and> from_public_key_pem A pem = Ok key \<and>
      (\<forall>rnd m. length m \<le> limit \<longrightarrow> (\<exists>c. oaep_encrypt A key rnd m = Ok c \<and> decrypt c = m)))"

text \<open>
  The server stores the hash of the hash of the password. It accepts a response if undoing the
  mask yields a preimage of what it stored.
\<close>

definition server_accepts :: "(bytes \<Rightarrow> bytes) \<Rightarrow> bytes \<Rightarrow> nonce \<Rightarrow> bytes \<Rightarrow> bool" where
  "server_accepts hash stored nonce response =
     (case xor_eq response (hash (fst nonce @ snd nonce @ stored)) of
        Ok h \<Rightarrow> hash h = stored
      | _ \<Rightarrow> False)"

lemma mask_accepted:
  assumes "xor_eq (hash pw) (hash (fst nonce @ snd nonce @ hash (hash pw))) = Ok r"
  shows "server_accepts hash (hash (hash pw)) nonce r"
  using xor_eq_involution [OF assms] by (simp add: server_accepts_def)

context healthy_net
begin

lemma write_flush_inp:
  assumes "inp pending s w"
  shows "\<exists>s'. athen (write_packet (\<lambda>_ b. b @ p)) (athen (stream_flush N) k) s = k s' \<and> inp pending s' w \<and>
    wbuf (ms_stream s') = [] \<and> ms_waiting s' = ms_waiting s \<and> ms_capabilities s' = ms_capabilities s \<and>
    ms_sequence_id s' = ms_sequence_id s + of_nat (frame_count p) \<and>
    sent (stream (ms_stream s')) = sent (stream (ms_stream s)) @ wbuf (ms_stream s) @ concat (frames (ms_sequence_id s) p)"
proof -
  let ?t = "s\<lparr>ms_stream := (ms_stream s)\<lparr>wbuf := wbuf (ms_stream s) @ concat (frames (ms_sequence_id s) p)\<rparr>,
      ms_sequence_id := ms_sequence_id s + of_nat (frame_count p)\<rparr>"
  have w: "write_packet (\<lambda>_ b. b @ p) s = Some (Ok (), ?t)" by (rule write_packet_frames) simp
  from stream_flush_inp [of ?t] obtain s' where
    s': "stream_flush N ?t = Some (Ok (), s')" "inp pending s' = inp pending ?t" "ms_waiting s' = ms_waiting ?t"
      "ms_sequence_id s' = ms_sequence_id ?t" "ms_capabilities s' = ms_capabilities ?t" "wbuf (ms_stream s') = []"
      "sent (stream (ms_stream s')) = sent (stream (ms_stream ?t)) @ wbuf (ms_stream ?t)" by blast
  have "inp pending ?t w" using assms by (simp add: inp_def)
  with w s' show ?thesis by (intro exI [of _ s']) (simp add: athen_Ok)
qed

text \<open>Without TLS, the key is requested and what comes back is the encrypted, masked password.\<close>

lemma encrypt_rsa_inp:
  assumes "key_pair A key pem decrypt limit" and "length password < limit" and "fst nonce @ snd nonce \<noteq> []"
    and "\<not> net_is_tls N (stream (ms_stream s))" and "wbuf (ms_stream s) = []" and "h \<noteq> 0xff"
    and "inp pending s (concat (frames sid (h # pem)) @ w)"
  shows "\<exists>s' c. encrypt_rsa C N A rnd req password nonce s = Some (Ok c, s') \<and>
    xor_eq (decrypt c) (fst nonce @ snd nonce) = Ok (password @ [0]) \<and> inp pending s' w \<and>
    wbuf (ms_stream s') = [] \<and> ms_waiting s' = ms_waiting s \<and> ms_capabilities s' = ms_capabilities s \<and>
    ms_sequence_id s' = sid + of_nat (frame_count (h # pem)) \<and>
    sent (stream (ms_stream s')) = sent (stream (ms_stream s)) @ concat (frames (ms_sequence_id s) [req])"
proof -
  let ?n = "fst nonce @ snd nonce"
  from xor_eq_total [OF assms(3), of "to_asciz password"] obtain m where
    m: "xor_eq (to_asciz password) ?n = Ok m" "length m = length (to_asciz password)" by blast
  then have "length m \<le> limit" using assms(2) by (simp add: to_asciz_def)
  with assms(1) obtain c where c: "oaep_encrypt A key rnd m = Ok c" "decrypt c = m" and
    pem: "utf8_ok pem" "from_public_key_pem A pem = Ok key" by (auto simp: key_pair_def)
  let ?k = "abind (recv_packet C N) (\<lambda>packet. abind (alift (slice_from packet 1)) (\<lambda>rsa_pub_key.
        abind (alift (xor_eq (to_asciz password) ?n)) (\<lambda>pass.
        abind (alift (parse_rsa_pub_key A rsa_pub_key)) (\<lambda>pkey. alift (oaep_encrypt A pkey rnd pass)))))"
  have u: "encrypt_rsa C N A rnd req password nonce s =
      athen (write_packet (\<lambda>_ b. b @ [req])) (athen (stream_flush N) ?k) s"
    using assms(4) by (simp add: encrypt_rsa_def stream_is_tls_def abind_Ok [OF aget_run])
  from write_flush_inp [OF assms(7), of "[req]" ?k] assms(5) obtain s1 where
    s1: "encrypt_rsa C N A rnd req password nonce s = ?k s1" "inp pending s1 (concat (frames sid (h # pem)) @ w)"
      "wbuf (ms_stream s1) = []" "ms_waiting s1 = ms_waiting s" "ms_capabilities s1 = ms_capabilities s"
      "sent (stream (ms_stream s1)) = sent (stream (ms_stream s)) @ concat (frames (ms_sequence_id s) [req])"
    unfolding u by auto
  from recv_packet_inp [OF s1(2)] assms(6) obtain s2 where
    s2: "recv_packet C N s1 = Some (Ok (h # pem), s2)" "inp pending s2 w" "rest_of sent s2 = rest_of sent s1"
      "ms_waiting s2 = ms_waiting s1" "ms_sequence_id s2 = sid + of_nat (frame_count (h # pem))" by auto
  have "?k s1 = Some (Ok c, s2)"
    using m c pem s2(1) by (simp add: abind_Ok alift_run slice_from_def parse_rsa_pub_key_def)
  moreover have "xor_eq (decrypt c) ?n = Ok (password @ [0])"
    using xor_eq_involution [OF m(1)] c by (simp add: to_asciz_def)
  ultimately show ?thesis using s1 s2 by (intro exI [of _ s2] exI [of _ c]) (simp add: rest_of_def)
qed

end

section \<open>An instance\<close>

text \<open>Fixed-length summaries for digests and a byte-wise cipher, enough to run the protocol.\<close>

definition sample_crypto :: "unit crypto" where
  "sample_crypto = \<lparr>
     sha1 = (\<lambda>b. take 20 (b @ replicate 20 7)),
     sha256 = (\<lambda>b. take 32 (rev b @ replicate 32 9)),
     from_public_key_pem = (\<lambda>b. if b = lit ''KEY'' then Ok () else Err (Protocol ''invalid key'' [])),
     oaep_encrypt = (\<lambda>_ rnd m. if length m \<le> 214 then Ok (map (\<lambda>b. b XOR 0x55) m)
       else Err (Protocol ''message too long'' []))\<rparr>"

lemma sample_digests: "digests sample_crypto"
  by (auto simp: digests_def sample_crypto_def min_def)

lemma sample_key_pair: "key_pair sample_crypto () (lit ''KEY'') (map (\<lambda>b. b XOR 0x55)) 214"
proof -
  have "utf8_ok (lit ''KEY'')" by code_simp
  then show ?thesis by (simp add: key_pair_def sample_crypto_def comp_def xor.assoc)
qed

section \<open>Properties\<close>

text \<open>The response computed from the password is accepted by a server that stores only the hash of
  the hash of that password, for both hashing plugins and every nonce; it has the length of a digest,
  and computing it cannot panic.\<close>

theorem scramble_is_accepted:
  assumes "digests A"
  shows "(\<exists>r. scramble C N A rnd MySqlNativePassword password nonce s = Some (Ok r, s) \<and> length r = 20 \<and>
      server_accepts (sha1 A) (sha1 A (sha1 A password)) nonce r) \<and>
    (\<exists>r. scramble C N A rnd CachingSha2Password password nonce s = Some (Ok r, s) \<and> length r = 32 \<and>
      server_accepts (sha256 A) (sha256 A (sha256 A password)) nonce r)"
proof -
  have l: "length (sha1 A b) = 20" "length (sha256 A b) = 32" for b using assms by (auto simp: digests_def)
  then have ne: "sha1 A b \<noteq> []" "sha256 A b \<noteq> []" for b by (metis list.size(3) zero_neq_numeral)+
  from xor_eq_total [OF ne(1), of "sha1 A password"] xor_eq_total [OF ne(2), of "sha256 A password"] l show ?thesis
    by (metis (no_types, lifting) alift_run auth_plugin.case mask_accepted scramble_def scramble_sha1_def scramble_sha256_def)
qed

theorem scramble_is_accepted_witness:
  "\<exists>r. scramble std_crates script_net sample_crypto [] MySqlNativePassword (lit ''secret'') ([1, 2], [3])
      (script_stream [] 0 []) = Some (Ok r, script_stream [] 0 []) \<and> length r = 20"
  using scramble_is_accepted [OF sample_digests, of std_crates script_net "[]" "lit ''secret''" "([1, 2], [3])"
    "script_stream [] 0 []"] by blast

text \<open>When the server asks for full authentication over an unencrypted connection, the password
  reaches it without appearing on the wire: the client requests the public key, and sends one packet,
  numbered on from the server's, whose decryption unmasked with the nonce is the zero-terminated password.\<close>

theorem full_authentication_delivers_password:
  assumes "healthy_net N pending C sent" and "key_pair A key pem decrypt limit" and "length password < limit"
    and "fst nonce @ snd nonce \<noteq> []" and "\<not> net_is_tls N (stream (ms_stream s))"
    and "wbuf (ms_stream s) = []" and "rbuf (ms_stream s) = []" and "h \<noteq> 0xff"
    and "pending (stream (ms_stream s)) = concat (frames sid (h # pem)) @ w"
  shows "\<exists>s' c. handle C N A rnd CachingSha2Password [0x01, 0x04] password nonce s = Some (Ok False, s') \<and>
    sent (stream (ms_stream s')) = sent (stream (ms_stream s)) @ concat (frames (ms_sequence_id s) [0x02]) @
      concat (frames (sid + of_nat (frame_count (h # pem))) c) \<and>
    xor_eq (decrypt c) (fst nonce @ snd nonce) = Ok (password @ [0]) \<and>
    rbuf (ms_stream s') = [] \<and> pending (stream (ms_stream s')) = w \<and> wbuf (ms_stream s') = []"
proof -
  have "inp pending s (concat (frames sid (h # pem)) @ w)" using assms(7,9) by (simp add: inp_def)
  from healthy_net.encrypt_rsa_inp [OF assms(1-6,8) this, of rnd 2] obtain s1 c where
    s1: "encrypt_rsa C N A rnd 2 password nonce s = Some (Ok c, s1)"
      "xor_eq (decrypt c) (fst nonce @ snd nonce) = Ok (password @ [0])" "inp pending s1 w" "wbuf (ms_stream s1) = []"
      "ms_sequence_id s1 = sid + of_nat (frame_count (h # pem))"
      "sent (stream (ms_stream s1)) = sent (stream (ms_stream s)) @ concat (frames (ms_sequence_id s) [2])" by blast
  from healthy_net.write_flush_inp [OF assms(1) s1(3), of c "aret False"] s1 show ?thesis
    by (auto simp: handle_def aop_run inp_def)
qed

theorem full_authentication_delivers_password_witness:
  "\<exists>s' c. handle std_crates script_net sample_crypto [] CachingSha2Password [0x01, 0x04] (lit ''secret'') ([1, 2], [3])
      (script_stream [concat (frames 2 (1 # lit ''KEY''))] 0 []) = Some (Ok False, s') \<and>
    script_out (stream (ms_stream s')) = concat (frames 7 [0x02]) @ concat (frames 3 c) \<and>
    xor_eq (map (\<lambda>b. b XOR 0x55) c) [1, 2, 3] = Ok (lit ''secret'' @ [0])"
proof -
  let ?s = "script_stream [concat (frames 2 (1 # lit ''KEY''))] 0 []"
  have "\<not> net_is_tls script_net (stream (ms_stream ?s))" "rbuf (ms_stream ?s) = []" "ms_sequence_id ?s = 7"
    "script_pending (stream (ms_stream ?s)) = concat (frames 2 (1 # lit ''KEY'')) @ []"
    by (simp_all add: script_stream_def buf_stream_new_def script_pending_def script_net_def)
  moreover have "2 + of_nat (frame_count (1 # lit ''KEY'')) = (3 :: u8)" by (simp add: frame_count_def)
  ultimately show ?thesis
    using full_authentication_delivers_password [OF script.healthy_net_axioms sample_key_pair,
      of "lit ''secret''" "([1, 2], [3])" ?s 1 2 "[]" "[]"] by auto
qed

end
