(* ===== verification/Stmt_Cache.thy ===== *)
theory Stmt_Cache
  imports Rbdc_Prelude "HOL-Library.Multiset"
begin

text \<open>
  The prepared-statement cache (\<open>src/src/common/statement_cache.rs\<close>). The \<open>lru\<close> crate below
  it is an argument, a \<open>lru_ops\<close> record of its operations; the locale \<open>lru_laws\<close> states the
  crate's documented behaviour through a recency list (most recently used entry first) and
  proves that \<open>StatementCache\<close> implements the contract of its own documentation. A list
  implementation of the crate satisfies the laws. Keys are the UTF-8 bytes of the SQL text.
\<close>

section \<open>Model\<close>

record ('c, 'v) lru_ops =
  lru_new :: "nat \<Rightarrow> 'c"
  lru_get_mut :: "'c \<Rightarrow> bytes \<Rightarrow> ('v \<Rightarrow> 'v) \<Rightarrow> 'v option \<times> 'c"
  lru_pop_entry :: "'c \<Rightarrow> bytes \<Rightarrow> (bytes \<times> 'v) option \<times> 'c"
  lru_put :: "'c \<Rightarrow> bytes \<Rightarrow> 'v \<Rightarrow> 'v option \<times> 'c"
  lru_len :: "'c \<Rightarrow> nat"
  lru_pop_lru :: "'c \<Rightarrow> (bytes \<times> 'v) option \<times> 'c"
  lru_clear :: "'c \<Rightarrow> 'c"
  lru_contains :: "'c \<Rightarrow> bytes \<Rightarrow> bool"
  lru_cap :: "'c \<Rightarrow> nat"

text \<open>
  \<open>get_mut\<close> hands out a mutable reference: the function argument is what the caller does
  through it, the result the value it saw.
\<close>

definition cache_new :: "('c, 'v) lru_ops \<Rightarrow> nat \<Rightarrow> 'c res" where
  "cache_new L capacity = (if capacity = 0 then Panic else Ok (lru_new L capacity))"

definition cache_get_mut :: "('c, 'v) lru_ops \<Rightarrow> 'c \<Rightarrow> bytes \<Rightarrow> ('v \<Rightarrow> 'v) \<Rightarrow> 'v option \<times> 'c" where
  "cache_get_mut L c k f = lru_get_mut L c k f"

definition cache_len :: "('c, 'v) lru_ops \<Rightarrow> 'c \<Rightarrow> nat" where
  "cache_len L c = lru_len L c"

definition cache_remove_lru :: "('c, 'v) lru_ops \<Rightarrow> 'c \<Rightarrow> 'v option \<times> 'c" where
  "cache_remove_lru L c = (case lru_pop_lru L c of (e, c') \<Rightarrow> (map_option snd e, c'))"

definition cache_clear :: "('c, 'v) lru_ops \<Rightarrow> 'c \<Rightarrow> 'c" where
  "cache_clear L c = lru_clear L c"

definition cache_contains_key :: "('c, 'v) lru_ops \<Rightarrow> 'c \<Rightarrow> bytes \<Rightarrow> bool" where
  "cache_contains_key L c k = lru_contains L c k"

definition cache_capacity :: "('c, 'v) lru_ops \<Rightarrow> 'c \<Rightarrow> nat" where
  "cache_capacity L c = lru_cap L c"

definition cache_is_enabled :: "('c, 'v) lru_ops \<Rightarrow> 'c \<Rightarrow> bool" where
  "cache_is_enabled L c = (cache_capacity L c > 0)"

definition cache_insert :: "('c, 'v) lru_ops \<Rightarrow> 'c \<Rightarrow> bytes \<Rightarrow> 'v \<Rightarrow> 'v option \<times> 'c" where
  "cache_insert L c k v =
     (case (if cache_capacity L c = cache_len L c \<and> \<not> cache_contains_key L c k
            then cache_remove_lru L c
            else if cache_contains_key L c k then
              (case lru_pop_entry L c k of
                 (None, c) \<Rightarrow> (None, c)
               | (Some e, c) \<Rightarrow> (Some (snd e), c))
            else (None, c)) of
        (lru_item, c) \<Rightarrow> (case lru_put L c k v of (_, c) \<Rightarrow> (lru_item, c)))"

section \<open>Contract\<close>

text \<open>The cache as its recency list.\<close>

type_synonym 'v recency = "(bytes \<times> 'v) list"

definition drop_key :: "bytes \<Rightarrow> 'v recency \<Rightarrow> 'v recency" where
  "drop_key k es = filter (\<lambda>e. fst e \<noteq> k) es"

definition spec_insert :: "nat \<Rightarrow> bytes \<Rightarrow> 'v \<Rightarrow> 'v recency \<Rightarrow> 'v option \<times> 'v recency" where
  "spec_insert cap k v es =
     (case map_of es k of
        Some old \<Rightarrow> (Some old, (k, v) # drop_key k es)
      | None \<Rightarrow>
          if length es = cap then (Some (snd (last es)), (k, v) # butlast es)
          else (None, (k, v) # es))"

definition spec_get :: "bytes \<Rightarrow> ('v \<Rightarrow> 'v) \<Rightarrow> 'v recency \<Rightarrow> 'v option \<times> 'v recency" where
  "spec_get k f es =
     (case map_of es k of
        Some v \<Rightarrow> (Some v, (k, f v) # drop_key k es)
      | None \<Rightarrow> (None, es))"

definition recency_ok :: "nat \<Rightarrow> 'v recency \<Rightarrow> bool" where
  "recency_ok cap es = (0 < cap \<and> length es \<le> cap \<and> distinct (map fst es))"

lemma drop_key_absent [simp]: "k \<notin> fst ` set es \<Longrightarrow> drop_key k es = es"
  by (induction es) (auto simp: drop_key_def)

lemma drop_key_Cons [simp]: "drop_key k ((k', v) # es) = (if k' = k then drop_key k es else (k', v) # drop_key k es)"
  by (simp add: drop_key_def)

lemma keys_drop_key [simp]: "fst ` set (drop_key k es) = fst ` set es - {k}"
  by (auto simp: drop_key_def)

lemma distinct_drop_key [simp]: "distinct (map fst es) \<Longrightarrow> distinct (map fst (drop_key k es))"
  by (induction es) (auto simp: drop_key_def)

lemma length_drop_key_le [simp]: "length (drop_key k es) \<le> length es"
  by (simp add: drop_key_def)

lemma length_drop_key_mem: "k \<in> fst ` set es \<Longrightarrow> length (drop_key k es) < length es"
  by (auto simp: drop_key_def intro: length_filter_less)

lemma mset_drop_key:
  "distinct (map fst es) \<Longrightarrow> map_of es k = Some v \<Longrightarrow>
    add_mset v (mset (map snd (drop_key k es))) = mset (map snd es)"
proof (induction es)
  case Nil
  then show ?case by simp
next
  case (Cons e es)
  obtain k' v' where e: "e = (k', v')" by (cases e)
  show ?case
  proof (cases "k' = k")
    case True
    with Cons.prems e have "k \<notin> fst ` set es" "v' = v" by auto
    with e True show ?thesis by simp
  next
    case False
    with Cons e show ?thesis by (auto simp: add_mset_commute)
  qed
qed

lemma map_of_drop_key: "map_of (drop_key k es) k' = (if k' = k then None else map_of es k')"
  by (induction es) (auto simp: drop_key_def)

lemma map_of_butlast:
  "distinct (map fst es) \<Longrightarrow> es \<noteq> [] \<Longrightarrow> k \<noteq> fst (last es) \<Longrightarrow> map_of (butlast es) k = map_of es k"
  by (induction es) (auto split: if_splits)

lemma spec_insert_ok: "recency_ok cap es \<Longrightarrow> recency_ok cap (snd (spec_insert cap k v es))"
proof (cases "map_of es k")
  case None
  assume ok: "recency_ok cap es"
  from None have k: "k \<notin> fst ` set es" by (simp add: map_of_eq_None_iff)
  then have "k \<notin> set (butlast (map fst es))" by (auto dest: in_set_butlastD)
  with k ok None show ?thesis
    by (auto simp: recency_ok_def spec_insert_def map_butlast distinct_butlast)
next
  case (Some old)
  assume ok: "recency_ok cap es"
  from Some have "k \<in> fst ` set es" by (metis domI dom_map_of_conv_image_fst)
  from length_drop_key_mem [OF this] ok Some show ?thesis
    by (auto simp: recency_ok_def spec_insert_def)
qed

text \<open>Every statement that leaves the cache is handed to the caller, who closes it.\<close>

lemma spec_insert_conserves:
  assumes "recency_ok cap es"
  shows "mset (map snd (snd (spec_insert cap k v es))) + mset (case fst (spec_insert cap k v es) of None \<Rightarrow> [] | Some w \<Rightarrow> [w]) =
    add_mset v (mset (map snd es))"
proof (cases "map_of es k")
  case None
  show ?thesis
  proof (cases "length es = cap")
    case True
    with assms have "es \<noteq> []" by (auto simp: recency_ok_def)
    then have "mset (map snd es) = add_mset (snd (last es)) (mset (map snd (butlast es)))"
      by (cases es rule: rev_cases) simp_all
    with None True show ?thesis by (simp add: spec_insert_def)
  next
    case False
    with None show ?thesis by (simp add: spec_insert_def)
  qed
next
  case (Some old)
  with assms mset_drop_key [of es k old] show ?thesis
    by (simp add: spec_insert_def recency_ok_def)
qed

lemma inserted_is_found:
  "recency_ok cap es \<Longrightarrow> map_of (snd (spec_insert cap k v es)) k = Some v"
  by (auto simp: spec_insert_def split: option.splits)

lemma insert_absent_front:
  assumes "map_of es k = None"
  shows "(k, v) # drop_key k (snd (spec_insert cap k v es)) = snd (spec_insert cap k v es)"
proof -
  have "k \<notin> fst ` set es" using assms by (simp add: map_of_eq_None_iff)
  then have "k \<notin> fst ` set (butlast es)" by (auto dest: in_set_butlastD)
  with \<open>k \<notin> fst ` set es\<close> assms show ?thesis by (simp add: spec_insert_def)
qed

section \<open>The crate's laws and the cache built on it\<close>

locale lru_laws =
  fixes L :: "('c, 'v) lru_ops"
    and recency :: "'c \<Rightarrow> 'v recency"
    and ok :: "'c \<Rightarrow> bool"
  assumes ok_recency: "ok c \<Longrightarrow> recency_ok (lru_cap L c) (recency c)"
    and new_law: "0 < n \<Longrightarrow> ok (lru_new L n) \<and> recency (lru_new L n) = [] \<and> lru_cap L (lru_new L n) = n"
    and get_mut_law: "ok c \<Longrightarrow> \<exists>c'. lru_get_mut L c k f = (map_of (recency c) k, c') \<and> ok c' \<and>
      lru_cap L c' = lru_cap L c \<and> recency c' = snd (spec_get k f (recency c))"
    and pop_entry_law: "ok c \<Longrightarrow> \<exists>c'. lru_pop_entry L c k = (map_option (Pair k) (map_of (recency c) k), c') \<and>
      ok c' \<and> lru_cap L c' = lru_cap L c \<and> recency c' = drop_key k (recency c)"
    and put_law: "ok c \<Longrightarrow> k \<notin> fst ` set (recency c) \<Longrightarrow> length (recency c) < lru_cap L c \<Longrightarrow>
      \<exists>r c'. lru_put L c k v = (r, c') \<and> ok c' \<and> lru_cap L c' = lru_cap L c \<and>
        recency c' = (k, v) # recency c"
    and len_law: "ok c \<Longrightarrow> lru_len L c = length (recency c)"
    and pop_lru_law: "ok c \<Longrightarrow> \<exists>c'. lru_pop_lru L c =
        (if recency c = [] then None else Some (last (recency c)), c') \<and>
      ok c' \<and> lru_cap L c' = lru_cap L c \<and> recency c' = butlast (recency c)"
    and clear_law: "ok c \<Longrightarrow> ok (lru_clear L c) \<and> recency (lru_clear L c) = [] \<and>
      lru_cap L (lru_clear L c) = lru_cap L c"
    and contains_law: "ok c \<Longrightarrow> lru_contains L c k \<longleftrightarrow> k \<in> fst ` set (recency c)"
begin

lemmas cache_defs = cache_new_def cache_get_mut_def cache_len_def cache_remove_lru_def
  cache_clear_def cache_contains_key_def cache_capacity_def cache_is_enabled_def cache_insert_def

lemma cache_insert_refines:
  assumes "ok c"
  shows "\<exists>c'. cache_insert L c k v = (fst (spec_insert (lru_cap L c) k v (recency c)), c') \<and>
    ok c' \<and> lru_cap L c' = lru_cap L c \<and> recency c' = snd (spec_insert (lru_cap L c) k v (recency c))"
proof (cases "map_of (recency c) k")
  case (Some old)
  then have m: "k \<in> fst ` set (recency c)" by (metis domI dom_map_of_conv_image_fst)
  from pop_entry_law [OF assms, of k] obtain c1 where
    c1: "lru_pop_entry L c k = (Some (k, old), c1)" "ok c1" "lru_cap L c1 = lru_cap L c"
      "recency c1 = drop_key k (recency c)" using Some by auto
  moreover have "length (recency c1) < lru_cap L c1"
    using length_drop_key_mem [OF m] c1 ok_recency [OF assms] by (simp add: recency_ok_def)
  ultimately show ?thesis
    using put_law [of c1 k v] Some m assms
    by (auto simp: cache_defs contains_law spec_insert_def)
next
  case None
  then have m: "k \<notin> fst ` set (recency c)" by (simp add: map_of_eq_None_iff)
  show ?thesis
  proof (cases "lru_cap L c = length (recency c)")
    case True
    with ok_recency [OF assms] have ne: "recency c \<noteq> []" by (auto simp: recency_ok_def)
    with pop_lru_law [OF assms] obtain c1 where
      c1: "lru_pop_lru L c = (Some (last (recency c)), c1)" "ok c1" "lru_cap L c1 = lru_cap L c"
        "recency c1 = butlast (recency c)" by auto
    have "k \<notin> fst ` set (recency c1)"
      using m c1 by (auto dest: in_set_butlastD)
    moreover have "length (recency c1) < lru_cap L c1"
      using c1 True ne by (cases "recency c") auto
    ultimately show ?thesis
      using put_law [of c1 k v] None m assms True c1
      by (auto simp: cache_defs contains_law len_law spec_insert_def)
  next
    case False
    with ok_recency [OF assms] have "length (recency c) < lru_cap L c" by (simp add: recency_ok_def)
    with put_law [OF assms m, of v] None m assms False show ?thesis
      by (auto simp: cache_defs contains_law len_law spec_insert_def)
  qed
qed

lemma cache_remove_lru_refines:
  assumes "ok c"
  shows "\<exists>c'. cache_remove_lru L c = (if recency c = [] then None else Some (snd (last (recency c))), c') \<and>
    ok c' \<and> lru_cap L c' = lru_cap L c \<and> recency c' = butlast (recency c)"
  using pop_lru_law [OF assms] by (auto simp: cache_defs)

lemma cache_get_after_insert:
  assumes "ok c"
  shows "\<exists>c'' c'. cache_insert L c k v = (fst (spec_insert (lru_cap L c) k v (recency c)), c') \<and>
    cache_get_mut L c' k f = (Some v, c'')"
  using cache_insert_refines [OF assms, of k v] get_mut_law [of _ k f]
  by (fastforce simp: cache_defs spec_insert_def split: option.splits if_splits)

end

section \<open>A list implementation of the crate\<close>

record 'v lru_list =
  lru_limit :: nat
  lru_entries :: "'v recency"

definition list_lru :: "('v lru_list, 'v) lru_ops" where
  "list_lru = \<lparr>
     lru_new = (\<lambda>n. \<lparr>lru_limit = n, lru_entries = []\<rparr>),
     lru_get_mut = (\<lambda>c k f. (map_of (lru_entries c) k, c\<lparr>lru_entries := snd (spec_get k f (lru_entries c))\<rparr>)),
     lru_pop_entry = (\<lambda>c k. (map_option (Pair k) (map_of (lru_entries c) k),
        c\<lparr>lru_entries := drop_key k (lru_entries c)\<rparr>)),
     lru_put = (\<lambda>c k v. (case spec_insert (lru_limit c) k v (lru_entries c) of
        (r, es) \<Rightarrow> (if k \<in> fst ` set (lru_entries c) then r else None, c\<lparr>lru_entries := es\<rparr>))),
     lru_len = (\<lambda>c. length (lru_entries c)),
     lru_pop_lru = (\<lambda>c. (if lru_entries c = [] then None else Some (last (lru_entries c)),
        c\<lparr>lru_entries := butlast (lru_entries c)\<rparr>)),
     lru_clear = (\<lambda>c. c\<lparr>lru_entries := []\<rparr>),
     lru_contains = (\<lambda>c k. k \<in> fst ` set (lru_entries c)),
     lru_cap = lru_limit\<rparr>"

definition lru_list_ok :: "'v lru_list \<Rightarrow> bool" where
  "lru_list_ok c = recency_ok (lru_limit c) (lru_entries c)"

lemma recency_ok_drop_key: "recency_ok n es \<Longrightarrow> recency_ok n (drop_key k es)"
  using length_drop_key_le [of k es] by (auto simp: recency_ok_def simp del: length_drop_key_le)

lemma recency_ok_spec_get: "recency_ok n es \<Longrightarrow> recency_ok n (snd (spec_get k f es))"
proof (cases "map_of es k")
  case (Some v)
  assume "recency_ok n es"
  moreover from Some have "k \<in> fst ` set es" by (metis domI dom_map_of_conv_image_fst)
  ultimately show ?thesis using Some length_drop_key_mem [of k es]
    by (simp add: recency_ok_def spec_get_def)
qed (simp add: spec_get_def)

lemma recency_ok_butlast: "recency_ok n es \<Longrightarrow> recency_ok n (butlast es)"
  by (auto simp: recency_ok_def map_butlast distinct_butlast)

interpretation lists: lru_laws list_lru lru_entries lru_list_ok
proof unfold_locales
  fix c :: "'a lru_list" and k v
  assume "lru_list_ok c" and k: "k \<notin> fst ` set (lru_entries c)"
    and l: "length (lru_entries c) < lru_cap list_lru c"
  from k have "map_of (lru_entries c) k = None" by (simp add: map_of_eq_None_iff)
  with \<open>lru_list_ok c\<close> k l show "\<exists>r c'. lru_put list_lru c k v = (r, c') \<and> lru_list_ok c' \<and>
      lru_cap list_lru c' = lru_cap list_lru c \<and> lru_entries c' = (k, v) # lru_entries c"
    by (simp add: list_lru_def lru_list_ok_def spec_insert_def recency_ok_def)
qed (auto simp: list_lru_def lru_list_ok_def recency_ok_drop_key recency_ok_spec_get
    recency_ok_butlast, auto simp: recency_ok_def)

section \<open>Properties\<close>

text \<open>C13:  \<open>StatementCache::insert\<close> implements its contract on every branch: with a
  known key it returns the statement that key had and replaces it, with a new key in a full
  cache it evicts and returns the least recently used statement, otherwise it returns none;
  the new statement becomes the most recently used one.\<close>

theorem insert_refines_recency:
  assumes "lru_laws L recency ok" and "ok c"
  shows "\<exists>c'. cache_insert L c k v = (fst (spec_insert (cache_capacity L c) k v (recency c)), c') \<and>
    ok c' \<and> cache_capacity L c' = cache_capacity L c \<and>
    recency c' = snd (spec_insert (cache_capacity L c) k v (recency c))"
  using lru_laws.cache_insert_refines [OF assms] by (simp add: cache_capacity_def)

theorem insert_refines_recency_witness:
  "\<exists>c'. cache_insert list_lru \<lparr>lru_limit = 2, lru_entries = [([1], 10), ([2], 20 :: nat)]\<rparr> [3] 30 =
     (Some 20, c') \<and> lru_entries c' = [([3], 30), ([1], 10)]"
proof -
  have "lru_list_ok \<lparr>lru_limit = 2, lru_entries = [([1], 10), ([2], 20 :: nat)]\<rparr>"
    by (simp add: lru_list_ok_def recency_ok_def)
  from insert_refines_recency [OF lists.lru_laws_axioms this, of "[3]" 30] show ?thesis
    by (auto simp: spec_insert_def cache_capacity_def list_lru_def)
qed

text \<open>The cache never holds more statements than its capacity, and no statement
  is lost: those still cached together with the one handed back to the caller are exactly
  those cached before together with the inserted one.\<close>

theorem insert_loses_no_statement:
  assumes "lru_laws L recency ok" and "ok c" and "cache_insert L c k v = (r, c')"
  shows "cache_len L c' \<le> cache_capacity L c \<and>
    mset (map snd (recency c')) + mset (case r of None \<Rightarrow> [] | Some w \<Rightarrow> [w]) =
    add_mset v (mset (map snd (recency c)))"
proof -
  note laws = lru_laws.ok_recency [OF assms(1)] lru_laws.len_law [OF assms(1)]
  from lru_laws.cache_insert_refines [OF assms(1,2), of k v] assms(3) have
    "r = fst (spec_insert (lru_cap L c) k v (recency c))" "ok c'" "lru_cap L c' = lru_cap L c"
    "recency c' = snd (spec_insert (lru_cap L c) k v (recency c))" by auto
  with laws(1) [OF assms(2)] laws(1) [of c'] laws(2) [of c']
    spec_insert_conserves [OF laws(1) [OF assms(2)], of k v]
  show ?thesis by (simp add: cache_len_def cache_capacity_def recency_ok_def)
qed

theorem insert_loses_no_statement_witness:
  "\<exists>c'. cache_insert list_lru \<lparr>lru_limit = 1, lru_entries = [([1], 10 :: nat)]\<rparr> [1] 30 = (Some 10, c') \<and>
     mset (map snd (lru_entries c')) + {#10#} = {#30, 10#}"
proof -
  define c :: "nat lru_list" where "c = \<lparr>lru_limit = 1, lru_entries = [([1], 10)]\<rparr>"
  have ok: "lru_list_ok c" by (simp add: c_def lru_list_ok_def recency_ok_def)
  obtain c' where i: "cache_insert list_lru c [1] 30 = (Some 10, c')"
    by (simp add: c_def cache_insert_def list_lru_def cache_capacity_def cache_len_def
        cache_contains_key_def spec_insert_def)
  from insert_loses_no_statement [OF lists.lru_laws_axioms ok i] i show ?thesis
    by (simp add: c_def add_mset_commute)
qed

text \<open>A statement just inserted is found again under its SQL text, and a cache
  of capacity zero cannot be made: the constructor panics instead of disabling the cache.\<close>

theorem cached_statement_is_found:
  assumes "lru_laws L recency ok" and "ok c"
  shows "(\<exists>r c' c''. cache_insert L c k v = (r, c') \<and> cache_get_mut L c' k f = (Some v, c'')) \<and>
    cache_new L 0 = Panic"
  using lru_laws.cache_get_after_insert [OF assms, of k v f] by (auto simp: cache_new_def)

theorem cached_statement_is_found_witness:
  "\<exists>r c' c''. cache_insert list_lru (lru_new list_lru 5) [1] (30 :: nat) = (r, c') \<and>
     cache_get_mut list_lru c' [1] id = (Some 30, c'')"
  using cached_statement_is_found [OF lists.lru_laws_axioms, of "lru_new list_lru 5" "[1]" 30 id]
    lists.new_law [of 5] by auto

end
