(* ===== verification/Mysql_Conn.thy ===== *)
theory Mysql_Conn
  imports Mysql_Auth Stmt_Cache
begin

text \<open>
  A MySQL connection (\<open>rbdc-mysql/src/connection/\<close>: \<open>establish.rs\<close>, \<open>tls.rs\<close>, \<open>executor.rs\<close>,
  \<open>mod.rs\<close>). A connection is its packet stream, its statement cache and its options. The
  streams of results that \<open>run\<close> and \<open>fetch_many\<close> return are generators: a generator holds the point at
  which the source is suspended in a \<open>yield\<close>, and polling it runs the code up to the next \<open>yield\<close>,
  so that what follows a \<open>yield\<close> happens only when the stream is polled again.
\<close>

section \<open>Establishing a connection\<close>

definition MAX_PACKET_SIZE :: u32 where
  "MAX_PACKET_SIZE = 1024"

definition collation_u8 :: "collation \<Rightarrow> u8" where
  "collation_u8 c = or_default 0 (collation_id c)"

text \<open>\<open>str::split\<close> of the standard library, for a one-byte separator.\<close>

fun split_on :: "u8 \<Rightarrow> bytes \<Rightarrow> bytes list" where
  "split_on c [] = [[]]"
| "split_on c (b # bs) =
     (if b = c then [] # split_on c bs
      else (case split_on c bs of [] \<Rightarrow> [[b]] | p # ps \<Rightarrow> (b # p) # ps))"

definition version_part :: "bytes \<Rightarrow> nat \<Rightarrow> u16" where
  "version_part v i =
     (let ps = split_on (of_char (CHR ''.'')) v
      in or_default 0 (parse_u16 (if i < length ps then ps ! i else [])))"

text \<open>TLS is negotiated with a shortened handshake response.\<close>

definition accept_invalid_certs :: "ssl_mode \<Rightarrow> bool" where
  "accept_invalid_certs m = (m \<noteq> Ssl_VerifyCa \<and> m \<noteq> Ssl_VerifyIdentity)"

definition accept_invalid_host_names :: "ssl_mode \<Rightarrow> bool" where
  "accept_invalid_host_names m = (m \<noteq> Ssl_VerifyIdentity)"

definition stream_upgrade :: "'s net \<Rightarrow> options \<Rightarrow> ('s mysql_stream, unit) aop" where
  "stream_upgrade N opt s =
     (case net_upgrade N (stream (ms_stream s)) (opt_host opt) (accept_invalid_certs (opt_ssl_mode opt))
             (accept_invalid_host_names (opt_ssl_mode opt)) (opt_ssl_ca opt) of
        (r, t) \<Rightarrow> Some (r, s\<lparr>ms_stream := (ms_stream s)\<lparr>stream := t\<rparr>\<rparr>))"

definition upgrade :: "crates \<Rightarrow> 's net \<Rightarrow> options \<Rightarrow> ('s mysql_stream, bool) aop" where
  "upgrade C N opt =
     abind (aget ms_capabilities) (\<lambda>capabilities.
     if \<not> caps_contains C capabilities SSL then aret False
     else
       abind (aget ms_collation) (\<lambda>collation.
       athen (write_packet (ssl_request_encode C
         \<lparr>ssl_max_packet_size = MAX_PACKET_SIZE, ssl_collation = collation_u8 collation\<rparr>))
       (athen (stream_flush N)
       (athen (stream_upgrade N opt) (aret True)))))"

definition maybe_upgrade :: "crates \<Rightarrow> 's net \<Rightarrow> options \<Rightarrow> ('s mysql_stream, unit) aop" where
  "maybe_upgrade C N opt =
     (case opt_ssl_mode opt of
        Ssl_Disabled \<Rightarrow> aret ()
      | Ssl_Preferred \<Rightarrow> abind (upgrade C N opt) (\<lambda>_. aret ())
      | _ \<Rightarrow> abind (upgrade C N opt) (\<lambda>b.
          if b then aret () else alift (Err (Message ''server does not support TLS''))))"

definition negotiate :: "crates \<Rightarrow> handshake \<Rightarrow> options \<Rightarrow> u64 \<Rightarrow> u64" where
  "negotiate C h opt capabilities =
     (let capabilities = (capabilities AND server_capabilities h) OR PROTOCOL_41
      in if opt_ssl_mode opt = Ssl_Disabled then caps_remove C capabilities SSL else capabilities)"

definition initial_response ::
    "crates \<Rightarrow> 's net \<Rightarrow> 'key crypto \<Rightarrow> bytes \<Rightarrow> options \<Rightarrow> handshake \<Rightarrow> ('s mysql_stream, bytes option) aop" where
  "initial_response C N A rnd opt h =
     (case (hs_auth_plugin h, opt_password opt) of
        (Some plugin, Some password) \<Rightarrow>
          abind (scramble C N A rnd plugin password (auth_plugin_data h)) (\<lambda>r. aret (Some r))
      | _ \<Rightarrow>
          let major = version_part (server_version h) 0; minor = version_part (server_version h) 1 in
          if major < 5 \<or> (major = 5 \<and> minor < 5) then
            (case opt_password opt of
               Some password \<Rightarrow>
                 abind (scramble C N A rnd MySqlNativePassword password (auth_plugin_data h)) (\<lambda>r. aret (Some r))
             | None \<Rightarrow> aret None)
          else aret None)"

text \<open>The authentication exchange; \<open>rnd i\<close> are the random bytes drawn in its \<open>i\<close>-th round.\<close>

partial_function (option) auth_loop ::
    "crates \<Rightarrow> 's net \<Rightarrow> 'key crypto \<Rightarrow> (nat \<Rightarrow> bytes) \<Rightarrow> options \<Rightarrow> nat \<Rightarrow> auth_plugin option \<Rightarrow> nonce \<Rightarrow>
      's mysql_stream \<Rightarrow> (unit res \<times> 's mysql_stream) option" where
  "auth_loop C N A rnd opt i plugin nonce s =
     abind (recv_packet C N) (\<lambda>packet.
     abind (alift (index packet 0)) (\<lambda>id.
     if id = 0x00 then abind (alift (ok_packet_decode C packet)) (\<lambda>_. aret ())
     else if id = 0xfe then
       abind (alift (auth_switch_request_decode C packet)) (\<lambda>switch.
       abind (scramble C N A (rnd i) (switch_plugin switch) (or_default [] (opt_password opt)) (switch_data switch, []))
         (\<lambda>response.
       athen (write_packet (auth_switch_response_encode response))
       (athen (stream_flush N)
         (auth_loop C N A rnd opt (Suc i) (Some (switch_plugin switch)) (switch_data switch, [])))))
     else
       (case plugin of
          None \<Rightarrow> alift (Err (Protocol ''unexpected packet during authentication'' [unat id]))
        | Some p \<Rightarrow>
            (case opt_password opt of
               None \<Rightarrow> alift (Err (Protocol ''unexpected packet during authentication'' [unat id]))
             | Some password \<Rightarrow>
                 abind (handle C N A (rnd i) p packet password nonce) (\<lambda>finished.
                 if finished then aret () else auth_loop C N A rnd opt (Suc i) plugin nonce))))) s"

definition establish_phase ::
    "crates \<Rightarrow> 's net \<Rightarrow> 'key crypto \<Rightarrow> (nat \<Rightarrow> bytes) \<Rightarrow> options \<Rightarrow> ('s mysql_stream, unit) aop" where
  "establish_phase C N A rnd opt =
     abind (recv_packet C N) (\<lambda>p.
     abind (alift (handshake_decode C p)) (\<lambda>h.
     athen (amodify (\<lambda>s. s\<lparr>ms_server_version :=
         (version_part (server_version h) 0, version_part (server_version h) 1, version_part (server_version h) 2),
       ms_capabilities := negotiate C h opt (ms_capabilities s)\<rparr>))
     (athen (maybe_upgrade C N opt)
     (abind (initial_response C N A (rnd 0) opt h) (\<lambda>auth_response.
      abind (aget ms_collation) (\<lambda>collation.
      athen (write_packet (handshake_response_encode C
        \<lparr>hr_database = opt_database opt, hr_max_packet_size = MAX_PACKET_SIZE, hr_collation = collation_u8 collation,
         hr_username = opt_username opt, hr_auth_plugin = hs_auth_plugin h, hr_auth_response = auth_response\<rparr>))
      (athen (stream_flush N)
      (auth_loop C N A rnd opt 1 (hs_auth_plugin h) (auth_plugin_data h)))))))))"

text \<open>\<open>DropBox\<close> holds the stream until it is taken out; using it afterwards panics.\<close>

record ('s, 'c) mysql_conn =
  conn_stream :: "'s mysql_stream option"
  cache_statement :: 'c
  conn_option :: options

definition on_stream :: "('s mysql_stream, 'a) aop \<Rightarrow> (('s, 'c) mysql_conn, 'a) aop" where
  "on_stream m c =
     (case conn_stream c of
        None \<Rightarrow> Some (Panic, c)
      | Some s \<Rightarrow> map_option (\<lambda>(r, s'). (r, c\<lparr>conn_stream := Some s'\<rparr>)) (m s))"

definition establish ::
    "(bytes \<Rightarrow> 's res) \<Rightarrow> (bytes \<Rightarrow> u16 \<Rightarrow> 's res) \<Rightarrow> crates \<Rightarrow> 's net \<Rightarrow> 'key crypto \<Rightarrow>
      ('c, u32 \<times> statement_metadata) lru_ops \<Rightarrow> (nat \<Rightarrow> bytes) \<Rightarrow> options \<Rightarrow> ('s, 'c) mysql_conn res option" where
  "establish connect_uds connect_tcp C N A L rnd opt =
     (case stream_connect connect_uds connect_tcp opt of
        Err e \<Rightarrow> Some (Err e)
      | Panic \<Rightarrow> Some Panic
      | Ok s \<Rightarrow> map_option (\<lambda>(r, s).
          rbind r (\<lambda>_. rbind (cache_new L (opt_statement_cache_capacity opt)) (\<lambda>cache.
          Ok \<lparr>conn_stream = Some s, cache_statement = cache, conn_option = opt\<rparr>)))
          (establish_phase C N A rnd opt s))"

section \<open>Lemmas\<close>

lemma ssl_request_appends: "ssl_request_encode C r caps b = b @ ssl_request_encode C r caps []"
  by (simp add: ssl_request_encode_def)

lemma put_bytes_lenenc_appends: "put_bytes_lenenc b x = b @ put_bytes_lenenc [] x"
  by (simp add: put_bytes_lenenc_def put_uint_lenenc_def)

lemma handshake_response_appends:
  "handshake_response_encode C r caps b = b @ handshake_response_encode C r caps []"
proof -
  define response where "response = (case hr_auth_response r of None \<Rightarrow> [] | Some a \<Rightarrow> a)"
  define L where "L = put_bytes_lenenc [] response"
  define c where "c = (if hr_auth_plugin r = None then caps_remove C caps PLUGIN_AUTH else caps)"
  define q where "q = \<lparr>ssl_max_packet_size = hr_max_packet_size r, ssl_collation = hr_collation r\<rparr>"
  define S where "S = ssl_request_encode C q c []"
  have l: "put_bytes_lenenc b response = b @ L" for b unfolding L_def by (rule put_bytes_lenenc_appends)
  have s: "ssl_request_encode C q c b = b @ S" for b unfolding S_def by (rule ssl_request_appends)
  show ?thesis
    unfolding handshake_response_encode_def Let_def response_def [symmetric] c_def [symmetric] q_def [symmetric] l s
    by (simp add: put_str_nul_def split: option.split)
qed

context healthy_net
begin

lemma write_flush_payload:
  assumes "inp pending s w" and "\<And>b. payload (ms_capabilities s) b = b @ p"
  shows "\<exists>s'. athen (write_packet payload) (athen (stream_flush N) k) s = k s' \<and> inp pending s' w \<and>
    wbuf (ms_stream s') = [] \<and> ms_waiting s' = ms_waiting s \<and> ms_capabilities s' = ms_capabilities s \<and>
    ms_collation s' = ms_collation s \<and> ms_sequence_id s' = ms_sequence_id s + of_nat (frame_count p) \<and>
    sent (stream (ms_stream s')) = sent (stream (ms_stream s)) @ wbuf (ms_stream s) @ concat (frames (ms_sequence_id s) p)"
proof -
  let ?t = "s\<lparr>ms_stream := (ms_stream s)\<lparr>wbuf := wbuf (ms_stream s) @ concat (frames (ms_sequence_id s) p)\<rparr>,
      ms_sequence_id := ms_sequence_id s + of_nat (frame_count p)\<rparr>"
  have w: "write_packet payload s = Some (Ok (), ?t)" by (rule write_packet_frames) (rule assms(2))
  from stream_flush_inp [of ?t] obtain s' where
    s': "stream_flush N ?t = Some (Ok (), s')" "inp pending s' = inp pending ?t" "ms_waiting s' = ms_waiting ?t"
      "ms_sequence_id s' = ms_sequence_id ?t" "ms_capabilities s' = ms_capabilities ?t" "wbuf (ms_stream s') = []"
      "sent (stream (ms_stream s')) = sent (stream (ms_stream ?t)) @ wbuf (ms_stream ?t)" "ms_collation s' = ms_collation ?t" by blast
  have "inp pending ?t w" using assms by (simp add: inp_def)
  with w s' show ?thesis by (intro exI [of _ s']) (simp add: athen_Ok)
qed

text \<open>After the handshake, what remains of \<open>establish\<close>.\<close>

definition after_handshake :: "'key crypto \<Rightarrow> (nat \<Rightarrow> bytes) \<Rightarrow> options \<Rightarrow> handshake \<Rightarrow> ('s mysql_stream, unit) aop" where
  "after_handshake A rnd opt h =
     athen (maybe_upgrade C N opt)
     (abind (initial_response C N A (rnd 0) opt h) (\<lambda>auth_response.
      abind (aget ms_collation) (\<lambda>collation.
      athen (write_packet (handshake_response_encode C
        \<lparr>hr_database = opt_database opt, hr_max_packet_size = MAX_PACKET_SIZE, hr_collation = collation_u8 collation,
         hr_username = opt_username opt, hr_auth_plugin = hs_auth_plugin h, hr_auth_response = auth_response\<rparr>))
      (athen (stream_flush N)
      (auth_loop C N A rnd opt 1 (hs_auth_plugin h) (auth_plugin_data h))))))"

lemma establish_handshake:
  assumes "inp pending s (concat (frames sid p) @ w)" and "plain_packet p" and "handshake_decode C p = Ok h"
  shows "\<exists>s'. establish_phase C N A rnd opt s = after_handshake A rnd opt h s' \<and> inp pending s' w \<and>
    wbuf (ms_stream s') = wbuf (ms_stream s) \<and> sent (stream (ms_stream s')) = sent (stream (ms_stream s)) \<and>
    ms_waiting s' = ms_waiting s \<and> ms_capabilities s' = negotiate C h opt (ms_capabilities s) \<and>
    ms_collation s' = ms_collation s \<and> ms_sequence_id s' = sid + of_nat (frame_count p)"
proof -
  from recv_packet_inp [OF assms(1)] assms(2) obtain s1 where
    s1: "recv_packet C N s = Some (Ok p, s1)" "inp pending s1 w" "rest_of sent s1 = rest_of sent s"
      "ms_waiting s1 = ms_waiting s" "ms_sequence_id s1 = sid + of_nat (frame_count p)" by (auto simp: plain_packet_def)
  let ?s = "s1\<lparr>ms_server_version :=
         (version_part (server_version h) 0, version_part (server_version h) 1, version_part (server_version h) 2),
       ms_capabilities := negotiate C h opt (ms_capabilities s1)\<rparr>"
  have "establish_phase C N A rnd opt s = after_handshake A rnd opt h ?s"
    using s1(1) assms(3)
    by (simp add: establish_phase_def after_handshake_def abind_Ok alift_run athen_Ok [OF amodify_run])
  with s1 show ?thesis by (intro exI [of _ ?s]) (simp add: rest_of_def inp_def)
qed

lemma upgrade_refused:
  assumes "ms_capabilities s AND SSL \<noteq> SSL"
  shows "upgrade C N opt s = Some (Ok False, s)"
  using assms by (simp add: upgrade_def abind_Ok [OF aget_run] caps_contains_law aret_run)

text \<open>If the TLS handshake fails, only the request for it has been sent.\<close>

lemma upgrade_fails:
  assumes "ms_capabilities s AND SSL = SSL" and "wbuf (ms_stream s) = []" and "inp pending s w"
    and "\<And>t. \<exists>t'. net_upgrade N t (opt_host opt) (accept_invalid_certs (opt_ssl_mode opt))
      (accept_invalid_host_names (opt_ssl_mode opt)) (opt_ssl_ca opt) = (Err e, t') \<and> sent t' = sent t"
  shows "\<exists>s'. upgrade C N opt s = Some (Err e, s') \<and>
    sent (stream (ms_stream s')) = sent (stream (ms_stream s)) @ concat (frames (ms_sequence_id s)
      (ssl_request_encode C \<lparr>ssl_max_packet_size = MAX_PACKET_SIZE, ssl_collation = collation_u8 (ms_collation s)\<rparr>
        (ms_capabilities s) []))"
proof -
  let ?r = "\<lparr>ssl_max_packet_size = MAX_PACKET_SIZE, ssl_collation = collation_u8 (ms_collation s)\<rparr>"
  from write_flush_payload [OF assms(3), of "ssl_request_encode C ?r", OF ssl_request_appends,
      of "athen (stream_upgrade N opt) (aret True)"] assms(2) obtain s1 where
    s1: "athen (write_packet (ssl_request_encode C ?r)) (athen (stream_flush N) (athen (stream_upgrade N opt) (aret True))) s =
        athen (stream_upgrade N opt) (aret True) s1"
      "sent (stream (ms_stream s1)) = sent (stream (ms_stream s)) @
        concat (frames (ms_sequence_id s) (ssl_request_encode C ?r (ms_capabilities s) []))" by auto
  from assms(4) [of "stream (ms_stream s1)"] obtain t' where
    "net_upgrade N (stream (ms_stream s1)) (opt_host opt) (accept_invalid_certs (opt_ssl_mode opt))
      (accept_invalid_host_names (opt_ssl_mode opt)) (opt_ssl_ca opt) = (Err e, t')" "sent t' = sent (stream (ms_stream s1))" by blast
  with s1 assms(1) show ?thesis
    by (simp add: upgrade_def abind_Ok [OF aget_run] caps_contains_law stream_upgrade_def athen_def abind_def)
qed

lemma auth_loop_ok:
  assumes "inp pending s (concat (frames sid q) @ w)" and "q \<noteq> []" and "hd q = 0" and "ok_packet_decode C q = Ok k"
  shows "\<exists>s'. auth_loop C N A rnd opt i plugin nonce s = Some (Ok (), s') \<and> inp pending s' w \<and>
    rest_of sent s' = rest_of sent s \<and> ms_waiting s' = ms_waiting s"
proof -
  from recv_packet_inp [OF assms(1,2)] assms(3) obtain s1 where
    "recv_packet C N s = Some (Ok q, s1)" "inp pending s1 w" "rest_of sent s1 = rest_of sent s" "ms_waiting s1 = ms_waiting s"
    by auto
  moreover have "index q 0 = Ok 0" using assms(2,3) by (cases q) auto
  ultimately show ?thesis
    using assms(4) by (subst auth_loop.simps) (simp add: abind_Ok aop_run)
qed

lemma native_login:
  assumes "digests A" and "opt_ssl_mode opt = Ssl_Disabled" and "opt_password opt = Some password"
    and "hs_auth_plugin h = Some MySqlNativePassword" and "wbuf (ms_stream s) = []"
    and "inp pending s (concat (frames sid q) @ w)" and "q \<noteq> []" and "hd q = 0" and "ok_packet_decode C q = Ok k"
  shows "\<exists>s' r. after_handshake A rnd opt h s = Some (Ok (), s') \<and> inp pending s' w \<and> wbuf (ms_stream s') = [] \<and>
    ms_waiting s' = ms_waiting s \<and> ms_capabilities s' = ms_capabilities s \<and> length r = 20 \<and>
    server_accepts (sha1 A) (sha1 A (sha1 A password)) (auth_plugin_data h) r \<and>
    sent (stream (ms_stream s')) = sent (stream (ms_stream s)) @ concat (frames (ms_sequence_id s)
      (handshake_response_encode C \<lparr>hr_database = opt_database opt, hr_max_packet_size = MAX_PACKET_SIZE,
        hr_collation = collation_u8 (ms_collation s), hr_username = opt_username opt,
        hr_auth_plugin = Some MySqlNativePassword, hr_auth_response = Some r\<rparr> (ms_capabilities s) []))"
proof -
  have l: "length (sha1 A b) = 20" for b using assms(1) by (simp add: digests_def)
  then have "sha1 A (fst (auth_plugin_data h) @ snd (auth_plugin_data h) @ sha1 A (sha1 A password)) \<noteq> []"
    by (metis list.size(3) zero_neq_numeral)
  from xor_eq_total [OF this, of "sha1 A password"] obtain r where
    r: "scramble_sha1 A password (auth_plugin_data h) = Ok r" "length r = 20"
    by (auto simp: scramble_sha1_def l)
  have a: "server_accepts (sha1 A) (sha1 A (sha1 A password)) (auth_plugin_data h) r"
    using r(1) by (intro mask_accepted) (simp add: scramble_sha1_def Let_def)
  have i: "initial_response C N A (rnd 0) opt h s = Some (Ok (Some r), s)"
    using assms(3,4) r(1) by (simp add: initial_response_def scramble_def abind_def alift_def aret_def)
  let ?r = "\<lparr>hr_database = opt_database opt, hr_max_packet_size = MAX_PACKET_SIZE,
        hr_collation = collation_u8 (ms_collation s), hr_username = opt_username opt,
        hr_auth_plugin = Some MySqlNativePassword, hr_auth_response = Some r\<rparr>"
  let ?k = "auth_loop C N A rnd opt 1 (Some MySqlNativePassword) (auth_plugin_data h)"
  have u: "after_handshake A rnd opt h s =
      athen (write_packet (handshake_response_encode C ?r)) (athen (stream_flush N) ?k) s"
    using assms(2,4) i
    by (simp add: after_handshake_def maybe_upgrade_def athen_Ok [OF aret_run] abind_Ok abind_Ok [OF aget_run])
  from write_flush_payload [OF assms(6), of "handshake_response_encode C ?r", OF handshake_response_appends, of ?k]
    assms(5) obtain s1 where
    s1: "after_handshake A rnd opt h s = ?k s1" "inp pending s1 (concat (frames sid q) @ w)" "wbuf (ms_stream s1) = []"
      "ms_waiting s1 = ms_waiting s" "ms_capabilities s1 = ms_capabilities s"
      "sent (stream (ms_stream s1)) = sent (stream (ms_stream s)) @
        concat (frames (ms_sequence_id s) (handshake_response_encode C ?r (ms_capabilities s) []))" unfolding u by auto
  from auth_loop_ok [OF s1(2) assms(7-9), of A rnd opt 1 "Some MySqlNativePassword" "auth_plugin_data h"] obtain s2 where
    "?k s1 = Some (Ok (), s2)" "inp pending s2 w" "rest_of sent s2 = rest_of sent s1" "ms_waiting s2 = ms_waiting s1" by blast
  with s1 r a show ?thesis by (intro exI [of _ s2] exI [of _ r]) (simp add: rest_of_def)
qed

end

section \<open>A sample login\<close>

definition sample_options :: options where
  "sample_options = \<lparr>opt_host = lit ''localhost'', opt_port = 3306, opt_socket = None, opt_username = lit ''root'',
     opt_password = Some (lit ''secret''), opt_database = None, opt_ssl_mode = Ssl_Disabled, opt_ssl_ca = None,
     opt_statement_cache_capacity = 100, opt_charset = lit ''utf8mb4'', opt_collation = None, opt_offset_sec = 0\<rparr>"

definition sample_greeting :: handshake where
  "sample_greeting = sample_handshake\<lparr>hs_auth_plugin := Some MySqlNativePassword\<rparr>"

definition sample_greeting_packet :: bytes where
  "sample_greeting_packet = handshake_wire sample_greeting 21 (replicate 10 0)"

lemma sample_greeting_decodes:
  "handshake_decode std_crates sample_greeting_packet = Ok sample_greeting" "plain_packet sample_greeting_packet"
proof -
  have ok: "handshake_ok sample_greeting 21"
    by (simp add: handshake_ok_def sample_greeting_def sample_handshake_def capability_defs status_defs of_char_of max_def)
  have "server_capabilities sample_greeting AND MYSQL = MYSQL"
    by (simp add: sample_greeting_def sample_handshake_def MYSQL_def)
  with std.handshake_decode_wire [OF ok, of "replicate 10 0"]
  show "handshake_decode std_crates sample_greeting_packet = Ok sample_greeting"
    by (simp add: sample_greeting_packet_def)
  show "plain_packet sample_greeting_packet"
    by (simp add: plain_packet_def sample_greeting_packet_def handshake_wire_def sample_greeting_def sample_handshake_def)
qed

section \<open>Properties\<close>

text \<open>C18: With TLS disabled, logging in over \<open>mysql_native_password\<close> succeeds against a server that knows
  only the double hash: after the server's handshake the client sends one packet, numbered on from it;
  a server reading that packet finds the user name and a response it accepts, and its OK packet ends
  \<open>establish\<close> with the negotiated capabilities and nothing outstanding.\<close>

theorem native_login_succeeds:
  assumes "healthy_net N pending C sent" and "digests A" and "opt_ssl_mode opt = Ssl_Disabled"
    and "opt_password opt = Some password" and "0 \<notin> set (opt_username opt)"
    and "\<forall>d. opt_database opt = Some d \<longrightarrow> 0 \<notin> set d"
    and "plain_packet p" and "handshake_decode C p = Ok h" and "hs_auth_plugin h = Some MySqlNativePassword"
    and "negotiate C h opt (ms_capabilities s) AND SECURE_CONNECTION = SECURE_CONNECTION"
    and "q \<noteq> []" and "hd q = 0" and "ok_packet_decode C q = Ok k"
    and "wbuf (ms_stream s) = []" and "rbuf (ms_stream s) = []" and "ms_waiting s = []"
    and "pending (stream (ms_stream s)) = concat (frames sid p) @ concat (frames sid' q) @ rest"
  shows "\<exists>s' payload flags r d n. establish_phase C N A rnd opt s = Some (Ok (), s') \<and>
    sent (stream (ms_stream s')) = sent (stream (ms_stream s)) @ concat (frames (sid + of_nat (frame_count p)) payload) \<and>
    response_read C payload = Ok (flags, MAX_PACKET_SIZE, collation_u8 (ms_collation s), opt_username opt, r, d, n) \<and>
    server_accepts (sha1 A) (sha1 A (sha1 A password)) (auth_plugin_data h) r \<and>
    ms_capabilities s' = negotiate C h opt (ms_capabilities s) \<and> ms_waiting s' = [] \<and>
    rbuf (ms_stream s') = [] \<and> pending (stream (ms_stream s')) = rest"
proof -
  have i: "inp pending s (concat (frames sid p) @ concat (frames sid' q) @ rest)" using assms(15,17) by (simp add: inp_def)
  from healthy_net.establish_handshake [OF assms(1) i assms(7,8), of A rnd opt] assms(14,16) obtain s1 where
    s1: "establish_phase C N A rnd opt s = healthy_net.after_handshake N C A rnd opt h s1"
      "inp pending s1 (concat (frames sid' q) @ rest)" "wbuf (ms_stream s1) = []"
      "sent (stream (ms_stream s1)) = sent (stream (ms_stream s))" "ms_waiting s1 = []"
      "ms_capabilities s1 = negotiate C h opt (ms_capabilities s)" "ms_collation s1 = ms_collation s"
      "ms_sequence_id s1 = sid + of_nat (frame_count p)" by auto
  let ?m = "\<lambda>r. \<lparr>hr_database = opt_database opt, hr_max_packet_size = MAX_PACKET_SIZE,
        hr_collation = collation_u8 (ms_collation s), hr_username = opt_username opt,
        hr_auth_plugin = Some MySqlNativePassword, hr_auth_response = Some r\<rparr>"
  from healthy_net.native_login [OF assms(1,2,3,4,9) s1(3,2) assms(11,12,13), of rnd] s1 obtain s2 r where
    s2: "establish_phase C N A rnd opt s = Some (Ok (), s2)" "inp pending s2 rest" "ms_waiting s2 = []"
      "ms_capabilities s2 = negotiate C h opt (ms_capabilities s)" "length r = 20"
      "server_accepts (sha1 A) (sha1 A (sha1 A password)) (auth_plugin_data h) r"
      "sent (stream (ms_stream s2)) = sent (stream (ms_stream s)) @ concat (frames (sid + of_nat (frame_count p))
        (handshake_response_encode C (?m r) (negotiate C h opt (ms_capabilities s)) []))" by auto
  have c: "crate_laws C" using assms(1) by (simp add: healthy_net_def)
  have "\<exists>flags d n. response_read C (handshake_response_encode C (?m r) (negotiate C h opt (ms_capabilities s)) []) =
      Ok (flags, MAX_PACKET_SIZE, collation_u8 (ms_collation s), opt_username opt, r, d, n)"
    using crate_laws.response_read_encode [OF c, of "?m r" "negotiate C h opt (ms_capabilities s)"] assms(5,6,10) s2(5)
    by (auto simp: response_data_def)
  with s2 show ?thesis by (auto simp: inp_def)
qed

theorem native_login_succeeds_witness:
  "\<exists>s'. establish_phase std_crates script_net sample_crypto (\<lambda>_. []) sample_options
      (script_stream [concat (frames 0 sample_greeting_packet), concat (frames 2 [0, 0, 0, 2, 0, 0, 0])] CLIENT_CAPABILITIES []) =
    Some (Ok (), s') \<and> ms_waiting s' = []"
proof -
  let ?s = "script_stream [concat (frames 0 sample_greeting_packet), concat (frames 2 [0, 0, 0, 2, 0, 0, 0])] CLIENT_CAPABILITIES []"
  have k: "ok_packet_decode std_crates [0, 0, 0, 2, 0, 0, 0] =
      Ok \<lparr>affected_rows = 0, last_insert_id = 0, ok_status = 2, ok_warnings = 0\<rparr>" by code_simp
  have o: "opt_ssl_mode sample_options = Ssl_Disabled" "opt_password sample_options = Some (lit ''secret'')"
    "0 \<notin> set (opt_username sample_options)" "\<forall>d. opt_database sample_options = Some d \<longrightarrow> 0 \<notin> set d"
    by (simp_all add: sample_options_def)
  have g: "hs_auth_plugin sample_greeting = Some MySqlNativePassword" by (simp add: sample_greeting_def)
  have n: "negotiate std_crates sample_greeting sample_options (ms_capabilities ?s) AND SECURE_CONNECTION = SECURE_CONNECTION"
    by (simp add: negotiate_def sample_greeting_def sample_handshake_def sample_options_def CLIENT_CAPABILITIES_def
      capability_defs std_crates_def)
  have p: "rbuf (ms_stream ?s) = []" "script_pending (stream (ms_stream ?s)) =
      concat (frames 0 sample_greeting_packet) @ concat (frames 2 [0, 0, 0, 2, 0, 0, 0]) @ []"
    by (simp_all add: script_stream_def buf_stream_new_def script_pending_def)
  from native_login_succeeds [OF script.healthy_net_axioms sample_digests o sample_greeting_decodes(2,1) g n _ _ k _ p(1) _ p(2)]
  show ?thesis by auto
qed

text \<open>C19: A client that insists on TLS never sends its credentials in the clear: if the server does not
  offer TLS, \<open>establish\<close> fails before writing anything; if the TLS handshake fails, \<open>establish\<close> fails
  with its error and all that was written is the request for TLS, which carries neither user nor password.\<close>

theorem required_tls_protects_credentials:
  assumes "healthy_net N pending C sent" and "opt_ssl_mode opt \<in> {Ssl_Required, Ssl_VerifyCa, Ssl_VerifyIdentity}"
    and "plain_packet p" and "handshake_decode C p = Ok h" and "wbuf (ms_stream s) = []" and "rbuf (ms_stream s) = []"
    and "pending (stream (ms_stream s)) = concat (frames sid p) @ rest"
    and "\<forall>t. \<exists>t'. net_upgrade N t (opt_host opt) (accept_invalid_certs (opt_ssl_mode opt))
      (accept_invalid_host_names (opt_ssl_mode opt)) (opt_ssl_ca opt) = (Err e, t') \<and> sent t' = sent t"
  shows "\<exists>s'. establish_phase C N A rnd opt s =
      Some (Err (if negotiate C h opt (ms_capabilities s) AND SSL = SSL then e
                 else Message ''server does not support TLS''), s') \<and>
    sent (stream (ms_stream s')) = sent (stream (ms_stream s)) @
      (if negotiate C h opt (ms_capabilities s) AND SSL = SSL
       then concat (frames (sid + of_nat (frame_count p))
         (ssl_request_encode C \<lparr>ssl_max_packet_size = MAX_PACKET_SIZE, ssl_collation = collation_u8 (ms_collation s)\<rparr>
           (negotiate C h opt (ms_capabilities s)) []))
       else [])"
proof -
  have i: "inp pending s (concat (frames sid p) @ rest)" using assms(6,7) by (simp add: inp_def)
  from healthy_net.establish_handshake [OF assms(1) i assms(3,4), of A rnd opt] assms(5) obtain s1 where
    s1: "establish_phase C N A rnd opt s = healthy_net.after_handshake N C A rnd opt h s1"
      "inp pending s1 rest" "wbuf (ms_stream s1) = []" "sent (stream (ms_stream s1)) = sent (stream (ms_stream s))"
      "ms_capabilities s1 = negotiate C h opt (ms_capabilities s)" "ms_collation s1 = ms_collation s"
      "ms_sequence_id s1 = sid + of_nat (frame_count p)" by auto
  have m: "maybe_upgrade C N opt = abind (upgrade C N opt) (\<lambda>b.
      if b then aret () else alift (Err (Message ''server does not support TLS'')))"
    using assms(2) by (auto simp: maybe_upgrade_def)
  show ?thesis
  proof (cases "negotiate C h opt (ms_capabilities s) AND SSL = SSL")
    case True
    from healthy_net.upgrade_fails [OF assms(1) _ s1(3,2), of opt e] True s1(5-7) assms(8) obtain s2 where
      "upgrade C N opt s1 = Some (Err e, s2)"
      "sent (stream (ms_stream s2)) = sent (stream (ms_stream s1)) @ concat (frames (sid + of_nat (frame_count p))
        (ssl_request_encode C \<lparr>ssl_max_packet_size = MAX_PACKET_SIZE, ssl_collation = collation_u8 (ms_collation s)\<rparr>
           (negotiate C h opt (ms_capabilities s)) []))" by auto
    with True s1 show ?thesis
      by (simp add: healthy_net.after_handshake_def [OF assms(1)] m athen_def abind_def)
  next
    case False
    with healthy_net.upgrade_refused [OF assms(1), of s1 opt] s1 show ?thesis
      by (simp add: healthy_net.after_handshake_def [OF assms(1)] m athen_def abind_def alift_def)
  qed
qed

definition failing_tls :: "script net" where
  "failing_tls = script_net\<lparr>net_upgrade := (\<lambda>s host invalid_certs invalid_names ca. (Err IoError, s))\<rparr>"

lemma failing_tls_healthy: "healthy_net failing_tls script_pending std_crates script_out"
  using script.healthy_net_axioms unfolding healthy_net_def healthy_net_axioms_def failing_tls_def by simp

theorem required_tls_protects_credentials_witness:
  "\<exists>s'. establish_phase std_crates failing_tls sample_crypto (\<lambda>_. []) (sample_options\<lparr>opt_ssl_mode := Ssl_Required\<rparr>)
      (script_stream [concat (frames 0 sample_greeting_packet)] CLIENT_CAPABILITIES []) =
    Some (Err (Message ''server does not support TLS''), s') \<and> script_out (stream (ms_stream s')) = []"
proof -
  let ?s = "script_stream [concat (frames 0 sample_greeting_packet)] CLIENT_CAPABILITIES []"
  let ?o = "sample_options\<lparr>opt_ssl_mode := Ssl_Required\<rparr>"
  have n: "negotiate std_crates sample_greeting ?o (ms_capabilities ?s) AND SSL \<noteq> SSL"
    by (simp add: negotiate_def sample_greeting_def sample_handshake_def sample_options_def CLIENT_CAPABILITIES_def
      capability_defs std_crates_def)
  have p: "rbuf (ms_stream ?s) = []" "script_pending (stream (ms_stream ?s)) = concat (frames 0 sample_greeting_packet) @ []"
    by (simp_all add: script_stream_def buf_stream_new_def script_pending_def)
  have u: "\<forall>t. \<exists>t'. net_upgrade failing_tls t (opt_host ?o) (accept_invalid_certs (opt_ssl_mode ?o))
      (accept_invalid_host_names (opt_ssl_mode ?o)) (opt_ssl_ca ?o) = (Err IoError, t') \<and> script_out t' = script_out t"
    by (simp add: failing_tls_def)
  from required_tls_protects_credentials [OF failing_tls_healthy _ sample_greeting_decodes(2,1) _ p u,
      of sample_crypto "\<lambda>_. []"] n show ?thesis by simp
qed

end
