(* ===== verification/Db_Traits.thy ===== *)
theory Db_Traits
  imports Async_Op Rbs_Value
begin

text \<open>
  The driver-independent layer: the \<open>Connection\<close>, \<open>Row\<close> and \<open>MetaData\<close> traits and the default methods of
  \<open>Connection\<close> (\<open>src/db.rs\<close>).  A trait object is a record of its methods acting on a state; the insertion of
  the \<open>ValueMap\<close> of the \<open>rbs\<close> crate is the argument \<open>ins\<close>.
\<close>

section \<open>Traits\<close>

record exec_result =
  er_rows_affected :: u64
  er_last_insert_id :: dyn_value

definition exec_result_from :: "u64 \<times> dyn_value \<Rightarrow> exec_result" where
  "exec_result_from p = \<lparr>er_rows_affected = fst p, er_last_insert_id = snd p\<rparr>"

record ('c, 'row) connection =
  c_get_rows :: "bytes \<Rightarrow> dyn_value list \<Rightarrow> ('c, 'row list) aop"
  c_exec :: "bytes \<Rightarrow> dyn_value list \<Rightarrow> ('c, exec_result) aop"
  c_ping :: "('c, unit) aop"
  c_close :: "('c, unit) aop"

record ('row, 'md) row_trait =
  r_meta_data :: "'row \<Rightarrow> 'md"
  r_get :: "'row \<Rightarrow> nat \<Rightarrow> (dyn_value \<times> 'row) res"
  md_column_len :: "'md \<Rightarrow> nat"
  md_column_name :: "'md \<Rightarrow> nat \<Rightarrow> bytes"

type_synonym entries = "(dyn_value \<times> dyn_value) list"
type_synonym map_insert = "dyn_value \<Rightarrow> dyn_value \<Rightarrow> entries \<Rightarrow> entries"

text \<open>One row as a map: the loop index runs upwards, the columns are read from the last to the first.\<close>

fun columns_loop :: "('row, 'md) row_trait \<Rightarrow> map_insert \<Rightarrow> 'md \<Rightarrow> nat list \<Rightarrow> entries \<Rightarrow> 'row \<Rightarrow> entries res" where
  "columns_loop R ins md [] m x = Ok m"
| "columns_loop R ins md (i # is) m x =
     (let i = md_column_len R md - i - 1; n = md_column_name R md i in
      rbind (r_get R x i) (\<lambda>(v, x). columns_loop R ins md is (ins (V_String n) v m) x))"

fun rows_loop :: "('row, 'md) row_trait \<Rightarrow> map_insert \<Rightarrow> 'row list \<Rightarrow> dyn_value list \<Rightarrow> dyn_value list res" where
  "rows_loop R ins [] rows = Ok rows"
| "rows_loop R ins (x # v) rows =
     (let md = r_meta_data R x in
      rbind (columns_loop R ins md [0..<md_column_len R md] [] x) (\<lambda>m. rows_loop R ins v (rows @ [V_Map m])))"

definition get_values ::
    "('row, 'md) row_trait \<Rightarrow> map_insert \<Rightarrow> ('c, 'row) connection \<Rightarrow> bytes \<Rightarrow> dyn_value list \<Rightarrow> ('c, dyn_value) aop" where
  "get_values R ins cn sql params =
     abind (c_get_rows cn sql params) (\<lambda>v. abind (alift (rows_loop R ins v [])) (\<lambda>rows. aret (V_Array rows)))"

definition begin_tx :: "('c, 'row) connection \<Rightarrow> ('c, unit) aop" where
  "begin_tx cn = abind (c_exec cn (lit ''begin'') []) (\<lambda>_. aret ())"

definition commit_tx :: "('c, 'row) connection \<Rightarrow> ('c, unit) aop" where
  "commit_tx cn = abind (c_exec cn (lit ''commit'') []) (\<lambda>_. aret ())"

definition rollback_tx :: "('c, 'row) connection \<Rightarrow> ('c, unit) aop" where
  "rollback_tx cn = abind (c_exec cn (lit ''rollback'') []) (\<lambda>_. aret ())"

section \<open>Contracts\<close>

text \<open>What the map of the \<open>rbs\<close> crate promises.\<close>

locale value_map =
  fixes ins :: map_insert
  assumes insert_law: "map_of (ins k v m) = (map_of m)(k \<mapsto> v)"

text \<open>What a row promises: reading a column yields its cell and disturbs neither the cells before it nor the meta data.  A driver may move the cells behind it.\<close>

locale column_rows =
  fixes R :: "('row, 'md) row_trait" and ok :: "'row \<Rightarrow> bool" and cell :: "'row \<Rightarrow> nat \<Rightarrow> dyn_value res"
  assumes get_law: "ok x \<Longrightarrow> i < md_column_len R (r_meta_data R x) \<Longrightarrow> cell x i = Ok v \<Longrightarrow>
      \<exists>x'. r_get R x i = Ok (v, x') \<and> ok x' \<and> r_meta_data R x' = r_meta_data R x \<and> (\<forall>j < i. cell x' j = cell x j)"
    and error_law: "ok x \<Longrightarrow> i < md_column_len R (r_meta_data R x) \<Longrightarrow> cell x i = Err e \<Longrightarrow> r_get R x i = Err e"

text \<open>The entry a map of a row has for a name: the cell of the first column of that name.\<close>

definition row_entry :: "(nat \<Rightarrow> bytes) \<Rightarrow> (nat \<Rightarrow> dyn_value res) \<Rightarrow> nat list \<Rightarrow> dyn_value \<rightharpoonup> dyn_value" where
  "row_entry name val is k =
     (case find (\<lambda>i. V_String (name i) = k) is of
        None \<Rightarrow> None
      | Some i \<Rightarrow> (case val i of Ok v \<Rightarrow> Some v | _ \<Rightarrow> None))"

lemma row_entry_Nil: "row_entry name val [] = Map.empty"
  by (simp add: row_entry_def fun_eq_iff)

lemma row_entry_cong: "(\<And>i. i \<in> set is \<Longrightarrow> val i = val' i) \<Longrightarrow> row_entry name val is = row_entry name val' is"
  by (induction "is") (auto simp: row_entry_def fun_eq_iff)

lemma row_entry_cong2:
  "(\<And>i. i \<in> set is \<Longrightarrow> name i = name' i \<and> val i = val' i) \<Longrightarrow> row_entry name val is = row_entry name' val' is"
  by (induction "is") (auto simp: row_entry_def fun_eq_iff)

lemma row_entry_snoc:
  assumes "val i = Ok v" and "\<forall>j \<in> set is. \<exists>v. val j = Ok v"
  shows "row_entry name val (is @ [i]) = [V_String (name i) \<mapsto> v] ++ row_entry name val is"
  using assms(2) by (induction "is") (use assms(1) in \<open>auto simp: row_entry_def fun_eq_iff map_add_def\<close>)

text \<open>A map entry under a column's name is that column's cell when names do not repeat.\<close>

lemma row_entry_distinct:
  assumes "i < n" and "inj_on name {..<n}" and "val i = Ok v"
  shows "row_entry name val [0..<n] (V_String (name i)) = Some v"
proof -
  have "name j \<noteq> name i" if "j < i" for j
    using that assms(1) inj_on_contraD [OF assms(2), of j i] by simp
  then have "find (\<lambda>j. V_String (name j) = V_String (name i)) [0..<n] = Some i"
    using assms(1) by (auto simp: find_Some_iff intro!: exI [of _ i])
  with assms(3) show ?thesis by (simp add: row_entry_def)
qed

lemma row_entry_dom:
  assumes "\<forall>i \<in> set is. \<exists>v. val i = Ok v"
  shows "dom (row_entry name val is) = (\<lambda>i. V_String (name i)) ` set is"
  using assms by (induction "is") (auto simp: row_entry_def dom_def split: if_splits)

lemma named_entries:
  assumes "distinct (map cname columns)" and "\<forall>i < length columns. name i = cname (columns ! i)"
    and "\<forall>i < length columns. \<exists>v. val i = Ok v"
  shows "dom (row_entry name val [0..<length columns]) = (\<lambda>col. V_String (cname col)) ` set columns \<and>
    (\<forall>i < length columns. \<exists>v. val i = Ok v \<and> row_entry name val [0..<length columns] (V_String (cname (columns ! i))) = Some v)"
proof -
  have "inj_on name {..<length columns}" using assms(1,2) by (auto simp: inj_on_def distinct_conv_nth)
  then have "\<forall>i < length columns. \<exists>v. val i = Ok v \<and> row_entry name val [0..<length columns] (V_String (cname (columns ! i))) = Some v"
    using assms(2,3) row_entry_distinct [of _ "length columns" name val] by (metis (no_types, lifting))
  moreover have "set columns = (\<lambda>i. columns ! i) ` {..<length columns}" by (auto simp: set_conv_nth)
  then have "dom (row_entry name val [0..<length columns]) = (\<lambda>col. V_String (cname col)) ` set columns"
    using assms(2,3) by (subst row_entry_dom) (auto simp: image_image atLeast0LessThan intro!: image_cong)
  ultimately show ?thesis by blast
qed

locale mapped_rows = value_map ins + column_rows R ok cell
  for ins :: map_insert and R :: "('row, 'md) row_trait" and ok :: "'row \<Rightarrow> bool" and cell :: "'row \<Rightarrow> nat \<Rightarrow> dyn_value res"
begin

abbreviation width :: "'row \<Rightarrow> nat" where
  "width x \<equiv> md_column_len R (r_meta_data R x)"

abbreviation name_of :: "'row \<Rightarrow> nat \<Rightarrow> bytes" where
  "name_of x \<equiv> md_column_name R (r_meta_data R x)"

text \<open>The loop invariant: after the columns from \<open>n - k\<close> on, the map has the entries of exactly these columns.\<close>

lemma columns_loop_entries:
  assumes "ok x" and "k \<le> width x" and "\<forall>j < width x - k. \<exists>v. cell x j = Ok v"
  shows "\<exists>m'. columns_loop R ins (r_meta_data R x) [k..<width x] m x = Ok m' \<and>
    map_of m' = map_of m ++ row_entry (name_of x) (cell x) [0..<width x - k]"
  using assms
proof (induction "width x - k" arbitrary: k m x)
  case 0
  then show ?case by (simp add: row_entry_Nil)
next
  case (Suc d)
  let ?i = "width x - k - 1"
  from Suc have k: "k < width x" "?i = d" by auto
  then have "?i < width x - k" by simp
  with Suc.prems(3) obtain v where v: "cell x ?i = Ok v" by blast
  from get_law [OF Suc.prems(1) _ v] k obtain x' where
    x': "r_get R x ?i = Ok (v, x')" "ok x'" "r_meta_data R x' = r_meta_data R x" "\<forall>j < ?i. cell x' j = cell x j"
    by auto
  have "\<forall>j < width x' - Suc k. \<exists>v. cell x' j = Ok v" using x'(3,4) Suc.prems(3) by auto
  with Suc.hyps(1) [of x' "Suc k" "ins (V_String (name_of x ?i)) v m"] Suc.hyps(2) k x' obtain m' where
    m': "columns_loop R ins (r_meta_data R x) [Suc k..<width x] (ins (V_String (name_of x ?i)) v m) x' = Ok m'"
      "map_of m' = (map_of m)(V_String (name_of x ?i) \<mapsto> v) ++ row_entry (name_of x) (cell x') [0..<d]"
    by (auto simp: insert_law)
  have "row_entry (name_of x) (cell x') [0..<d] = row_entry (name_of x) (cell x) [0..<d]"
    using x'(4) k by (intro row_entry_cong) auto
  moreover have "row_entry (name_of x) (cell x) [0..<Suc d] =
      [V_String (name_of x d) \<mapsto> v] ++ row_entry (name_of x) (cell x) [0..<d]"
    using v k Suc.prems(3) by (simp add: row_entry_snoc)
  moreover have "width x - k = Suc d" using Suc.hyps(2) by simp
  ultimately show ?case using m' x'(1) k by (auto simp: upt_rec [of k] Let_def map_add_def fun_eq_iff simp del: upt_Suc split: option.splits)
qed

lemma rows_loop_entries:
  assumes "\<forall>x \<in> set xs. ok x \<and> (\<forall>j < width x. \<exists>v. cell x j = Ok v)"
  shows "\<exists>ms. rows_loop R ins xs acc = Ok (acc @ map V_Map ms) \<and>
    list_all2 (\<lambda>x m. map_of m = row_entry (name_of x) (cell x) [0..<width x]) xs ms"
  using assms
proof (induction xs arbitrary: acc)
  case (Cons x xs)
  from columns_loop_entries [of x 0 "[]"] Cons.prems obtain m where
    m: "columns_loop R ins (r_meta_data R x) [0..<width x] [] x = Ok m"
      "map_of m = row_entry (name_of x) (cell x) [0..<width x]" by auto
  from Cons.IH [of "acc @ [V_Map m]"] Cons.prems obtain ms where
    "rows_loop R ins xs (acc @ [V_Map m]) = Ok ((acc @ [V_Map m]) @ map V_Map ms)"
    "list_all2 (\<lambda>x m. map_of m = row_entry (name_of x) (cell x) [0..<width x]) xs ms" by auto
  with m show ?case by (intro exI [of _ "m # ms"]) (simp add: Let_def)
qed simp

lemma get_values_entries:
  assumes "c_get_rows cn sql params c = Some (Ok xs, c')"
    and "\<forall>x \<in> set xs. ok x \<and> (\<forall>j < width x. \<exists>v. cell x j = Ok v)"
  shows "\<exists>ms. get_values R ins cn sql params c = Some (Ok (V_Array (map V_Map ms)), c') \<and>
    list_all2 (\<lambda>x m. map_of m = row_entry (name_of x) (cell x) [0..<width x]) xs ms"
  using rows_loop_entries [OF assms(2), of "[]"] assms(1)
  by (auto simp: get_values_def abind_def alift_def aret_def)

end

text \<open>An association list is such a map.\<close>

fun list_insert :: map_insert where
  "list_insert k v [] = [(k, v)]"
| "list_insert k v ((k', v') # m) = (if k' = k then (k, v) # m else (k', v') # list_insert k v m)"

interpretation list_map: value_map list_insert
proof
  fix k v m
  show "map_of (list_insert k v m) = (map_of m)(k \<mapsto> v)"
    by (induction k v m rule: list_insert.induct) (auto simp: fun_eq_iff)
qed

end
