(* ===== verification/Mysql_Exec.thy ===== *)
theory Mysql_Exec
  imports Mysql_Conn Db_Traits
begin

text \<open>
  Running statements on a MySQL connection (\<open>connection/executor.rs\<close>, \<open>connection/mod.rs\<close>,
  \<open>query_result.rs\<close>). The streams that \<open>run\<close> and \<open>fetch_many\<close> return are generators: a generator
  records at which \<open>yield\<close> the source is suspended, and polling it runs the code up to the next
  \<open>yield\<close>, so that what follows a \<open>yield\<close> happens only when the stream is polled again. An error ends
  the stream; every consumer stops at it.
\<close>

section \<open>Result set metadata\<close>

definition recv_next_result_column :: "column_definition \<Rightarrow> nat \<Rightarrow> mysql_column res" where
  "recv_next_result_column d ordinal =
     rbind (column_definition_name d) (\<lambda>name.
     rbind (column_definition_alias d) (\<lambda>alias.
     Ok \<lparr>mc_ordinal = ordinal, mc_name = (if alias \<noteq> [] then alias else name),
         mc_type_info = type_info_from_column d\<rparr>))"

definition recv_column :: "crates \<Rightarrow> 's net \<Rightarrow> nat \<Rightarrow> ('s mysql_stream, mysql_column) aop" where
  "recv_column C N ordinal =
     abind (recv C N (\<lambda>_. column_definition_decode C)) (\<lambda>d. alift (recv_next_result_column d ordinal))"

definition recv_result_columns :: "crates \<Rightarrow> 's net \<Rightarrow> nat \<Rightarrow> ('s mysql_stream, mysql_column list) aop" where
  "recv_result_columns C N num_columns =
     abind (arepeat num_columns (recv_column C N) 0) (\<lambda>columns.
     if num_columns > 0 then abind (maybe_recv_eof C N) (\<lambda>_. aret columns) else aret columns)"

text \<open>
  The hash map from column name to ordinal and type: inserting an existing key replaces the
  value. The list stands for the map, its order for one iteration order.
\<close>

fun names_insert ::
    "bytes \<Rightarrow> nat \<times> type_info \<Rightarrow> (bytes \<times> nat \<times> type_info) list \<Rightarrow> (bytes \<times> nat \<times> type_info) list" where
  "names_insert k v [] = [(k, v)]"
| "names_insert k v ((k', v') # m) = (if k' = k then (k, v) # m else (k', v') # names_insert k v m)"

definition names_of :: "mysql_column list \<Rightarrow> (bytes \<times> nat \<times> type_info) list" where
  "names_of columns = fold (\<lambda>c. names_insert (mc_name c) (mc_ordinal c, mc_type_info c)) columns []"

definition recv_result_metadata ::
    "crates \<Rightarrow> 's net \<Rightarrow> nat \<Rightarrow> ('s mysql_stream, (bytes \<times> nat \<times> type_info) list \<times> mysql_column list) aop" where
  "recv_result_metadata C N num_columns =
     abind (arepeat num_columns (recv_column C N) 0) (\<lambda>columns.
     abind (maybe_recv_eof C N) (\<lambda>_. aret (names_of columns, columns)))"

section \<open>Preparing\<close>

definition get_or_prepare ::
    "crates \<Rightarrow> 's net \<Rightarrow> ('c, u32 \<times> statement_metadata) lru_ops \<Rightarrow> bytes \<Rightarrow> bool \<Rightarrow>
      (('s, 'c) mysql_conn, u32 \<times> statement_metadata) aop" where
  "get_or_prepare C N L sql persistent c =
     (case cache_get_mut L (cache_statement c) sql (\<lambda>v. v) of
        (Some st, cache) \<Rightarrow> Some (Ok st, c\<lparr>cache_statement := cache\<rparr>)
      | (None, cache) \<Rightarrow>
          athen (on_stream (send_packet N (prepare_encode sql)))
          (abind (on_stream (recv C N (\<lambda>_. prepare_ok_decode C))) (\<lambda>ok.
           athen (if po_params ok > 0 then
                    on_stream (abind (arepeat (unat (po_params ok)) (\<lambda>_. recv C N (\<lambda>_. column_definition_decode C)) 0)
                      (\<lambda>_. abind (maybe_recv_eof C N) (\<lambda>_. aret ())))
                  else aret ())
           (abind (if po_columns ok > 0 then on_stream (recv_result_metadata C N (unat (po_columns ok)))
                   else aret ([], [])) (\<lambda>(names, columns).
            let st = (po_statement_id ok,
              \<lparr>sm_columns = columns, sm_column_names = names, sm_parameters = unat (po_params ok)\<rparr>) in
            abind (aget cache_statement) (\<lambda>cache.
            if persistent \<and> cache_is_enabled L cache then
              (case cache_insert L cache sql st of
                 (evicted, cache) \<Rightarrow>
                   athen (amodify (\<lambda>c. c\<lparr>cache_statement := cache\<rparr>))
                   (case evicted of
                      None \<Rightarrow> aret st
                    | Some old \<Rightarrow> athen (on_stream (send_packet N (stmt_close_encode (fst old)))) (aret st)))
            else aret st)))))
          (c\<lparr>cache_statement := cache\<rparr>))"

section \<open>Running\<close>

record query_result =
  qr_rows_affected :: u64
  qr_last_insert_id :: u64

type_synonym item = "query_result + mysql_row"

text \<open>Where the stream is suspended, and its local variables.\<close>

text \<open>Where the stream is suspended, and its local variables.\<close>

text \<open>Where the stream is suspended, and its local variables.\<close>

datatype run_phase = P_Start "arguments option" | P_Rows | P_OkYielded bool | P_EofYielded bool | P_Done

record result_view =
  rv_columns :: "mysql_column list"
  rv_names :: "(bytes \<times> nat \<times> type_info) list"
  rv_format :: value_format
  rv_needs_metadata :: bool
  rv_offset_sec :: int

type_synonym run_state = "run_phase \<times> result_view"

definition row_decode :: "crates \<Rightarrow> value_format \<Rightarrow> bytes \<Rightarrow> mysql_column list \<Rightarrow> row res" where
  "row_decode C fmt packet columns =
     (case fmt of Binary \<Rightarrow> binary_row_decode C packet columns | Text \<Rightarrow> text_row_decode C packet columns)"

definition row_of :: "result_view \<Rightarrow> row \<Rightarrow> mysql_row" where
  "row_of v row = \<lparr>mr_row = row, mr_format = rv_format v, mr_columns = rv_columns v,
     mr_column_names = rv_names v, mr_offset_sec = rv_offset_sec v\<rparr>"

text \<open>One round of the inner loop: the next row or the end of the result set.\<close>

definition run_rows :: "crates \<Rightarrow> 's net \<Rightarrow> result_view \<Rightarrow> ('s mysql_stream, item option \<times> run_state) aop" where
  "run_rows C N v =
     abind (recv_packet C N) (\<lambda>packet.
     abind (alift (index packet 0)) (\<lambda>b.
     if b = 0xfe \<and> length packet < 9 then
       abind (aget ms_capabilities) (\<lambda>capabilities.
       abind (alift (packet_eof C capabilities packet)) (\<lambda>eof.
       aret (Some (Inl \<lparr>qr_rows_affected = 0, qr_last_insert_id = 0\<rparr>),
         P_EofYielded (flags_contains C (eof_status eof) SERVER_MORE_RESULTS_EXISTS), v)))
     else
       abind (alift (row_decode C (rv_format v) packet (rv_columns v))) (\<lambda>row.
       aret (Some (Inr (row_of v row)), P_Rows, v))))"

text \<open>One round of the outer loop: an OK packet, or metadata followed by the first round of rows.\<close>

definition run_response :: "crates \<Rightarrow> 's net \<Rightarrow> result_view \<Rightarrow> ('s mysql_stream, item option \<times> run_state) aop" where
  "run_response C N v =
     abind (recv_packet C N) (\<lambda>packet.
     abind (alift (index packet 0)) (\<lambda>b.
     if b = 0x00 \<or> b = 0xff then
       abind (alift (ok_packet_decode C packet)) (\<lambda>ok.
       aret (Some (Inl \<lparr>qr_rows_affected = affected_rows ok, qr_last_insert_id = last_insert_id ok\<rparr>),
         P_OkYielded (flags_contains C (ok_status ok) SERVER_MORE_RESULTS_EXISTS), v))
     else
       athen (set_front W_Row)
       (abind (alift (get_uint_lenenc C packet)) (\<lambda>(n, packet).
        if rv_needs_metadata v then
          abind (recv_result_metadata C N (unat n)) (\<lambda>(names, columns).
          run_rows C N (v\<lparr>rv_names := names, rv_columns := columns\<rparr>))
        else
          abind (recv_result_columns C N (unat n)) (\<lambda>columns.
          run_rows C N (v\<lparr>rv_columns := columns, rv_needs_metadata := True\<rparr>))))))"

text \<open>Resuming the stream after a \<open>yield\<close>.\<close>

fun run_resume :: "crates \<Rightarrow> 's net \<Rightarrow> run_state \<Rightarrow> ('s mysql_stream, item option \<times> run_state) aop" where
  "run_resume C N (P_Rows, v) = run_rows C N v"
| "run_resume C N (P_OkYielded again, v) =
     (if again then run_response C N v else athen pop_front (aret (None, P_Done, v)))"
| "run_resume C N (P_EofYielded again, v) =
     (if again then athen (set_front W_Result) (run_response C N v)
      else athen pop_front (aret (None, P_Done, v)))"
| "run_resume C N (_, v) = aret (None, P_Done, v)"

text \<open>\<open>run\<close> itself waits for the connection and registers the response it is going to read.\<close>

definition run_open :: "crates \<Rightarrow> 's net \<Rightarrow> (('s, 'c) mysql_conn, unit) aop" where
  "run_open C N =
     athen (on_stream (wait_until_ready C N))
     (on_stream (amodify (\<lambda>s. s\<lparr>ms_waiting := ms_waiting s @ [W_Result]\<rparr>)))"

text \<open>The first poll sends the statement.\<close>

definition run_start ::
    "crates \<Rightarrow> 's net \<Rightarrow> ('c, u32 \<times> statement_metadata) lru_ops \<Rightarrow> bytes \<Rightarrow> bool \<Rightarrow> arguments option \<Rightarrow>
      (('s, 'c) mysql_conn, result_view) aop" where
  "run_start C N L sql persistent args =
     abind (aget conn_option) (\<lambda>opt.
     case args of
       Some a \<Rightarrow>
         abind (get_or_prepare C N L sql persistent) (\<lambda>(id, metadata).
         athen (on_stream (send_packet N (execute_encode id a)))
         (aret \<lparr>rv_columns = [], rv_names = sm_column_names metadata, rv_format = Binary,
            rv_needs_metadata = False, rv_offset_sec = opt_offset_sec opt\<rparr>))
     | None \<Rightarrow>
         athen (on_stream (send_packet N (query_encode sql)))
         (aret \<lparr>rv_columns = [], rv_names = [], rv_format = Text, rv_needs_metadata = True,
            rv_offset_sec = opt_offset_sec opt\<rparr>))"

definition run_next ::
    "crates \<Rightarrow> 's net \<Rightarrow> ('c, u32 \<times> statement_metadata) lru_ops \<Rightarrow> bytes \<Rightarrow> bool \<Rightarrow> run_state \<Rightarrow>
      (('s, 'c) mysql_conn, item option \<times> run_state) aop" where
  "run_next C N L sql persistent rs =
     (case fst rs of
        P_Start args \<Rightarrow>
          abind (run_start C N L sql persistent args) (\<lambda>v. on_stream (run_response C N v))
      | _ \<Rightarrow> on_stream (run_resume C N rs))"

definition no_view :: result_view where
  "no_view = \<lparr>rv_columns = [], rv_names = [], rv_format = Text, rv_needs_metadata = True, rv_offset_sec = 0\<rparr>"

datatype many_state = M_Init mysql_query | M_Run bytes bool run_state

definition fetch_many_next ::
    "crates \<Rightarrow> 's net \<Rightarrow> ('c, u32 \<times> statement_metadata) lru_ops \<Rightarrow> 'dt kit \<Rightarrow> many_state \<Rightarrow>
      (('s, 'c) mysql_conn, item option \<times> many_state) aop" where
  "fetch_many_next C N L K g =
     (case g of
        M_Init query \<Rightarrow>
          abind (alift (take_arguments K query)) (\<lambda>args.
          athen (run_open C N)
          (abind (run_next C N L (query_sql query) (mq_persistent query) (P_Start args, no_view)) (\<lambda>(i, rs).
           aret (i, M_Run (query_sql query) (mq_persistent query) rs))))
      | M_Run sql persistent rs \<Rightarrow>
          abind (run_next C N L sql persistent rs) (\<lambda>(i, rs). aret (i, M_Run sql persistent rs)))"

section \<open>Consuming\<close>

partial_function (option) fetch_optional_loop ::
    "('g \<Rightarrow> 'st \<Rightarrow> ((item option \<times> 'g) res \<times> 'st) option) \<Rightarrow> 'g \<Rightarrow> 'st \<Rightarrow> (mysql_row option res \<times> 'st) option" where
  "fetch_optional_loop step g s =
     abind (step g) (\<lambda>p.
     case fst p of
       None \<Rightarrow> aret None
     | Some i \<Rightarrow> (if isl i then fetch_optional_loop step (snd p) else aret (Some (projr i)))) s"

definition fetch_optional ::
    "crates \<Rightarrow> 's net \<Rightarrow> ('c, u32 \<times> statement_metadata) lru_ops \<Rightarrow> 'dt kit \<Rightarrow> mysql_query \<Rightarrow>
      (('s, 'c) mysql_conn, mysql_row option) aop" where
  "fetch_optional C N L K query = fetch_optional_loop (fetch_many_next C N L K) (M_Init query)"

definition execute ::
    "crates \<Rightarrow> 's net \<Rightarrow> ('c, u32 \<times> statement_metadata) lru_ops \<Rightarrow> 'dt kit \<Rightarrow> bytes \<Rightarrow>
      (('s, 'c) mysql_conn, mysql_row option) aop" where
  "execute C N L K sql =
     fetch_optional C N L K \<lparr>mq_statement = Inl sql, mq_arguments = [], mq_persistent = False\<rparr>"

definition prepare_with ::
    "crates \<Rightarrow> 's net \<Rightarrow> ('c, u32 \<times> statement_metadata) lru_ops \<Rightarrow> bytes \<Rightarrow> (('s, 'c) mysql_conn, mysql_statement) aop" where
  "prepare_with C N L sql =
     athen (on_stream (wait_until_ready C N))
     (abind (get_or_prepare C N L sql True) (\<lambda>(_, metadata).
      aret \<lparr>st_sql = sql, st_metadata = metadata\<rparr>))"

definition push_row :: "item \<Rightarrow> mysql_row list \<Rightarrow> mysql_row list" where
  "push_row i rows = (case i of Inl _ \<Rightarrow> rows | Inr r \<Rightarrow> rows @ [r])"

text \<open>\<open>MySqlQueryResult::extend\<close> on one element; the sum is a \<open>u64\<close>.\<close>

definition query_result_extend :: "query_result \<Rightarrow> query_result \<Rightarrow> query_result" where
  "query_result_extend e acc =
     \<lparr>qr_rows_affected = qr_rows_affected acc + qr_rows_affected e, qr_last_insert_id = qr_last_insert_id e\<rparr>"

definition extend_result :: "item \<Rightarrow> query_result \<Rightarrow> query_result" where
  "extend_result i acc = (case i of Inl r \<Rightarrow> query_result_extend r acc | Inr _ \<Rightarrow> acc)"

definition open_query ::
    "crates \<Rightarrow> 's net \<Rightarrow> ('c, u32 \<times> statement_metadata) lru_ops \<Rightarrow> bytes \<Rightarrow> dyn_value list \<Rightarrow>
      (('s, 'c) mysql_conn, many_state) aop" where
  "open_query C N L sql params =
     (if params = [] then
        aret (M_Init \<lparr>mq_statement = Inl sql, mq_arguments = params, mq_persistent = False\<rparr>)
      else
        abind (prepare_with C N L sql) (\<lambda>stmt.
        aret (M_Init \<lparr>mq_statement = Inr stmt, mq_arguments = params, mq_persistent = True\<rparr>)))"

definition get_rows ::
    "crates \<Rightarrow> 's net \<Rightarrow> ('c, u32 \<times> statement_metadata) lru_ops \<Rightarrow> 'dt kit \<Rightarrow> bytes \<Rightarrow> dyn_value list \<Rightarrow>
      (('s, 'c) mysql_conn, mysql_row list) aop" where
  "get_rows C N L K sql params =
     abind (open_query C N L sql params) (\<lambda>many. try_collect (fetch_many_next C N L K) push_row [] many)"

definition exec ::
    "crates \<Rightarrow> 's net \<Rightarrow> ('c, u32 \<times> statement_metadata) lru_ops \<Rightarrow> 'dt kit \<Rightarrow> bytes \<Rightarrow> dyn_value list \<Rightarrow>
      (('s, 'c) mysql_conn, exec_result) aop" where
  "exec C N L K sql params =
     abind (open_query C N L sql params) (\<lambda>many.
     abind (try_collect (fetch_many_next C N L K) extend_result \<lparr>qr_rows_affected = 0, qr_last_insert_id = 0\<rparr> many) (\<lambda>v.
     aret \<lparr>er_rows_affected = qr_rows_affected v, er_last_insert_id = V_U64 (qr_last_insert_id v)\<rparr>))"

section \<open>Connection management\<close>

definition stream_shutdown :: "'s net \<Rightarrow> ('s mysql_stream, unit) aop" where
  "stream_shutdown N s =
     (case net_shutdown N (stream (ms_stream s)) of
        (r, t) \<Rightarrow> Some (r, s\<lparr>ms_stream := (ms_stream s)\<lparr>stream := t\<rparr>\<rparr>))"

definition do_close :: "'s net \<Rightarrow> (('s, 'c) mysql_conn, unit) aop" where
  "do_close N = athen (on_stream (send_packet N quit_encode)) (on_stream (stream_shutdown N))"

definition do_ping :: "crates \<Rightarrow> 's net \<Rightarrow> (('s, 'c) mysql_conn, unit) aop" where
  "do_ping C N =
     athen (on_stream (wait_until_ready C N))
     (athen (on_stream (send_packet N ping_encode))
     (abind (on_stream (recv_ok C N)) (\<lambda>_. aret ())))"

definition conn_flush :: "crates \<Rightarrow> 's net \<Rightarrow> (('s, 'c) mysql_conn, unit) aop" where
  "conn_flush C N = on_stream (wait_until_ready C N)"

definition cached_statements_size :: "('c, u32 \<times> statement_metadata) lru_ops \<Rightarrow> ('s, 'c) mysql_conn \<Rightarrow> nat" where
  "cached_statements_size L c = cache_len L (cache_statement c)"

partial_function (option) clear_cached_statements ::
    "'s net \<Rightarrow> ('c, u32 \<times> statement_metadata) lru_ops \<Rightarrow> ('s, 'c) mysql_conn \<Rightarrow> (unit res \<times> ('s, 'c) mysql_conn) option" where
  "clear_cached_statements N L c =
     abind (\<lambda>c. case cache_remove_lru L (cache_statement c) of
              (e, cache) \<Rightarrow> Some (Ok e, c\<lparr>cache_statement := cache\<rparr>))
       (\<lambda>e. case e of
          None \<Rightarrow> aret ()
        | Some st \<Rightarrow>
            athen (on_stream (send_packet N (stmt_close_encode (fst st)))) (clear_cached_statements N L)) c"

definition should_flush :: "('s, 'c) mysql_conn \<Rightarrow> bool res" where
  "should_flush c = (case conn_stream c of None \<Rightarrow> Panic | Some s \<Rightarrow> Ok (wbuf (ms_stream s) \<noteq> []))"

section \<open>What a response says\<close>

definition column_packets :: "crates \<Rightarrow> (u8 \<times> bytes) list \<Rightarrow> mysql_column list \<Rightarrow> bool" where
  "column_packets C ps columns =
     (length ps = length columns \<and>
      (\<forall>i < length ps. plain_packet (snd (ps ! i)) \<and>
        rbind (column_definition_decode C (snd (ps ! i))) (\<lambda>d. recv_next_result_column d i) = Ok (columns ! i)))"

definition end_of_metadata :: "crates \<Rightarrow> u64 \<Rightarrow> (u8 \<times> bytes) list \<Rightarrow> bool" where
  "end_of_metadata C caps eofs =
     (if caps AND DEPRECATE_EOF = DEPRECATE_EOF then eofs = []
      else \<exists>i r. eofs = [(i, r)] \<and> plain_packet r \<and> (\<exists>e. eof_packet_decode C r = Ok e))"

definition with_columns :: "result_view \<Rightarrow> mysql_column list \<Rightarrow> result_view" where
  "with_columns v columns =
     (if rv_needs_metadata v then v\<lparr>rv_names := names_of columns, rv_columns := columns\<rparr>
      else v\<lparr>rv_columns := columns, rv_needs_metadata := True\<rparr>)"

text \<open>
  The items a response stands for: one row per row packet, one summary per result set, one per
  OK packet, in order. It mirrors \<open>completes\<close>, with the content added.
\<close>

inductive says :: "crates \<Rightarrow> u64 \<Rightarrow> waiting \<Rightarrow> result_view \<Rightarrow> (u8 \<times> bytes) list \<Rightarrow> item list \<Rightarrow> bool" for C caps where
  row: "plain_packet p \<Longrightarrow> \<not> is_terminator p \<Longrightarrow> row_decode C (rv_format v) p (rv_columns v) = Ok r \<Longrightarrow>
    says C caps W_Row v ps items \<Longrightarrow> says C caps W_Row v ((sid, p) # ps) (Inr (row_of v r) # items)"
| last_row: "is_terminator p \<Longrightarrow> packet_eof C caps p = Ok e \<Longrightarrow> \<not> more_results (eof_status e) \<Longrightarrow>
    says C caps W_Row v [(sid, p)] [Inl \<lparr>qr_rows_affected = 0, qr_last_insert_id = 0\<rparr>]"
| next_set: "is_terminator p \<Longrightarrow> packet_eof C caps p = Ok e \<Longrightarrow> more_results (eof_status e) \<Longrightarrow>
    says C caps W_Result v ps items \<Longrightarrow>
    says C caps W_Row v ((sid, p) # ps) (Inl \<lparr>qr_rows_affected = 0, qr_last_insert_id = 0\<rparr> # items)"
| last_ok: "p \<noteq> [] \<Longrightarrow> hd p = 0 \<Longrightarrow> ok_packet_decode C p = Ok k \<Longrightarrow> \<not> more_results (ok_status k) \<Longrightarrow>
    says C caps W_Result v [(sid, p)] [Inl \<lparr>qr_rows_affected = affected_rows k, qr_last_insert_id = last_insert_id k\<rparr>]"
| next_ok: "p \<noteq> [] \<Longrightarrow> hd p = 0 \<Longrightarrow> ok_packet_decode C p = Ok k \<Longrightarrow> more_results (ok_status k) \<Longrightarrow>
    says C caps W_Result v ps items \<Longrightarrow>
    says C caps W_Result v ((sid, p) # ps)
      (Inl \<lparr>qr_rows_affected = affected_rows k, qr_last_insert_id = last_insert_id k\<rparr> # items)"
| metadata: "plain_packet p \<Longrightarrow> hd p \<noteq> 0 \<Longrightarrow> get_uint_lenenc C p = Ok (n, q) \<Longrightarrow> 0 < n \<Longrightarrow>
    length cols = unat n \<Longrightarrow> column_packets C cols columns \<Longrightarrow> end_of_metadata C caps eofs \<Longrightarrow>
    says C caps W_Row (with_columns v columns) ps items \<Longrightarrow>
    says C caps W_Result v ((sid, p) # cols @ eofs @ ps) items"

text \<open>A response that says something also completes.\<close>

lemma says_completes: "says C caps w v ps items \<Longrightarrow> completes C caps w ps"
proof (induction rule: says.induct)
  case (metadata p n q cols columns eofs v ps items sid)
  then have "list_all (plain_packet \<circ> snd) cols"
    by (auto simp: column_packets_def list_all_length)
  with metadata show ?case
    by (intro completes.metadata) (auto simp: end_of_metadata_def)
qed (auto intro: completes.intros)

lemma says_nonempty: "says C caps w v ps items \<Longrightarrow> items \<noteq> []"
  by (induction rule: says.induct) auto

lemma says_ends_with_summary: "says C caps w v ps items \<Longrightarrow> isl (last items)"
  by (induction rule: says.induct) (auto dest: says_nonempty)

text \<open>The packets the server still owes before the connection is ready for the next command.\<close>

definition owes :: "crates \<Rightarrow> 's mysql_stream \<Rightarrow> (u8 \<times> bytes) list \<Rightarrow> bool" where
  "owes C s ps =
     (ms_waiting s = [] \<and> ps = [] \<or> (\<exists>w. ms_waiting s = [w] \<and> completes C (ms_capabilities s) w ps))"

definition text_view :: "int \<Rightarrow> result_view" where
  "text_view offset = \<lparr>rv_columns = [], rv_names = [], rv_format = Text, rv_needs_metadata = True,
     rv_offset_sec = offset\<rparr>"

definition binary_view :: "int \<Rightarrow> statement_metadata \<Rightarrow> result_view" where
  "binary_view offset m = \<lparr>rv_columns = [], rv_names = sm_column_names m, rv_format = Binary,
     rv_needs_metadata = False, rv_offset_sec = offset\<rparr>"

definition rows_of :: "item list \<Rightarrow> mysql_row list" where
  "rows_of items = map projr (filter (\<lambda>i. \<not> isl i) items)"

definition summaries :: "item list \<Rightarrow> query_result list" where
  "summaries items = map projl (filter isl items)"

lemma rows_of_simps [simp]:
  "rows_of [] = []" "rows_of (Inl q # items) = rows_of items" "rows_of (Inr r # items) = r # rows_of items"
  by (simp_all add: rows_of_def)

lemma summaries_simps [simp]:
  "summaries [] = []" "summaries (Inl q # items) = q # summaries items" "summaries (Inr r # items) = summaries items"
  by (simp_all add: summaries_def)

definition first_row :: "item list \<Rightarrow> mysql_row option" where
  "first_row items = (case rows_of items of [] \<Rightarrow> None | r # _ \<Rightarrow> Some r)"

lemma first_row_simps [simp]:
  "first_row [] = None" "first_row (Inl q # items) = first_row items" "first_row (Inr r # items) = Some r"
  by (simp_all add: first_row_def)

lemma fold_push_row: "fold push_row items acc = acc @ rows_of items"
proof (induction items arbitrary: acc)
  case (Cons i items)
  then show ?case by (cases i) (simp_all add: push_row_def)
qed simp

lemma fold_extend_result:
  "fold extend_result items acc =
    \<lparr>qr_rows_affected = qr_rows_affected acc + sum_list (map qr_rows_affected (summaries items)),
     qr_last_insert_id = last (qr_last_insert_id acc # map qr_last_insert_id (summaries items))\<rparr>"
proof (induction items arbitrary: acc)
  case (Cons i items)
  then show ?case by (cases i) (simp_all add: extend_result_def query_result_extend_def add.assoc)
qed simp

lemma says_summaries: "says C caps w v ps items \<Longrightarrow> summaries items \<noteq> []"
  by (induction rule: says.induct) auto

section \<open>Reading a response\<close>

context healthy_net
begin

lemma recv_column_inp:
  assumes "inp pending s (concat (frames sid p) @ w)" and "plain_packet p"
    and "rbind (column_definition_decode C p) (\<lambda>d. recv_next_result_column d i) = Ok c"
  shows "\<exists>s'. recv_column C N i s = Some (Ok c, s') \<and> inp pending s' w \<and> rest_of sent s' = rest_of sent s \<and>
    ms_waiting s' = ms_waiting s"
proof -
  from recv_packet_inp [OF assms(1)] assms(2) obtain s' where
    "recv_packet C N s = Some (Ok p, s')" "inp pending s' w" "rest_of sent s' = rest_of sent s" "ms_waiting s' = ms_waiting s"
    by (auto simp: plain_packet_def)
  with assms(3) show ?thesis
    by (auto simp: recv_column_def recv_def aop_run abind_assoc abind_Ok res_iff)
qed

lemma recv_columns_inp:
  assumes "inp pending s (packets_wire ps @ w)" and "length ps = length cs"
    and "\<forall>j < length ps. plain_packet (snd (ps ! j)) \<and>
      rbind (column_definition_decode C (snd (ps ! j))) (\<lambda>d. recv_next_result_column d (i + j)) = Ok (cs ! j)"
  shows "\<exists>s'. arepeat (length ps) (recv_column C N) i s = Some (Ok cs, s') \<and> inp pending s' w \<and>
    rest_of sent s' = rest_of sent s \<and> ms_waiting s' = ms_waiting s"
  using assms
proof (induction ps arbitrary: s i cs)
  case Nil
  then show ?case by (simp add: aop_run)
next
  case (Cons x ps)
  from Cons.prems(2) obtain c cs' where cs: "cs = c # cs'" by (cases cs) auto
  from Cons.prems(1) have "inp pending s (concat (frames (fst x) (snd x)) @ packets_wire ps @ w)" by simp
  from recv_column_inp [OF this, of i c] Cons.prems(3) cs obtain s1 where
    s1: "recv_column C N i s = Some (Ok c, s1)" "inp pending s1 (packets_wire ps @ w)" "rest_of sent s1 = rest_of sent s"
      "ms_waiting s1 = ms_waiting s" by fastforce
  have "\<forall>j < length ps. plain_packet (snd (ps ! j)) \<and>
      rbind (column_definition_decode C (snd (ps ! j))) (\<lambda>d. recv_next_result_column d (Suc i + j)) = Ok (cs' ! j)"
    using Cons.prems(3) cs by fastforce
  from Cons.IH [OF s1(2) _ this] Cons.prems(2) cs obtain s2 where
    "arepeat (length ps) (recv_column C N) (Suc i) s1 = Some (Ok cs', s2)" "inp pending s2 w"
    "rest_of sent s2 = rest_of sent s1" "ms_waiting s2 = ms_waiting s1" by auto
  with s1 cs show ?case by (simp add: abind_Ok aop_run)
qed

lemma maybe_recv_eof_inp:
  assumes "end_of_metadata C (ms_capabilities s) eofs" and "inp pending s (packets_wire eofs @ w)"
  shows "\<exists>e s'. maybe_recv_eof C N s = Some (Ok e, s') \<and> inp pending s' w \<and>
      rest_of sent s' = rest_of sent s \<and> ms_waiting s' = ms_waiting s"
proof (cases "ms_capabilities s AND DEPRECATE_EOF = DEPRECATE_EOF")
  case True
  with assms show ?thesis by (simp add: end_of_metadata_def maybe_recv_eof_def aop_run caps_contains_law)
next
  case False
  with assms(1) obtain i r e where r: "eofs = [(i, r)]" "plain_packet r" "eof_packet_decode C r = Ok e"
    by (auto simp: end_of_metadata_def)
  with assms(2) recv_packet_inp [of s i r w] obtain s2 where
    "recv_packet C N s = Some (Ok r, s2)" "inp pending s2 w" "rest_of sent s2 = rest_of sent s"
    "ms_waiting s2 = ms_waiting s" by (auto simp: plain_packet_def)
  with False r show ?thesis
    by (simp add: maybe_recv_eof_def aop_run caps_contains_law recv_def abind_Ok)
qed

lemma recv_metadata_inp:
  assumes "column_packets C cols columns" and "end_of_metadata C (ms_capabilities s) eofs"
    and "inp pending s (packets_wire (cols @ eofs) @ w)"
  shows "\<exists>s'. recv_result_metadata C N (length cols) s = Some (Ok (names_of columns, columns), s') \<and> inp pending s' w \<and>
      rest_of sent s' = rest_of sent s \<and> ms_waiting s' = ms_waiting s"
    and "0 < length cols \<Longrightarrow>
      \<exists>s'. recv_result_columns C N (length cols) s = Some (Ok columns, s') \<and> inp pending s' w \<and>
      rest_of sent s' = rest_of sent s \<and> ms_waiting s' = ms_waiting s"
proof -
  from assms(3) have "inp pending s (packets_wire cols @ packets_wire eofs @ w)" by simp
  from recv_columns_inp [OF this, of columns 0] assms(1) obtain s1 where
    s1: "arepeat (length cols) (recv_column C N) 0 s = Some (Ok columns, s1)" "inp pending s1 (packets_wire eofs @ w)"
      "rest_of sent s1 = rest_of sent s" "ms_waiting s1 = ms_waiting s" by (auto simp: column_packets_def)
  from maybe_recv_eof_inp [of s1 eofs w] assms(2) s1(2) rest_caps [OF s1(3)] obtain e s2 where
    s2: "maybe_recv_eof C N s1 = Some (Ok e, s2)" "inp pending s2 w" "rest_of sent s2 = rest_of sent s1"
      "ms_waiting s2 = ms_waiting s1" by auto
  from s1 s2 show "\<exists>s'. recv_result_metadata C N (length cols) s = Some (Ok (names_of columns, columns), s') \<and>
      inp pending s' w \<and> rest_of sent s' = rest_of sent s \<and> ms_waiting s' = ms_waiting s"
    by (simp add: recv_result_metadata_def abind_Ok aop_run)
  from s1 s2 show "\<exists>s'. recv_result_columns C N (length cols) s = Some (Ok columns, s') \<and> inp pending s' w \<and>
      rest_of sent s' = rest_of sent s \<and> ms_waiting s' = ms_waiting s" if "0 < length cols"
    using that by (simp add: recv_result_columns_def abind_Ok aop_run)
qed

text \<open>Reading on while a row, or a result, is awaited.\<close>

definition run_on :: "waiting \<Rightarrow> result_view \<Rightarrow> ('s mysql_stream, item option \<times> run_state) aop" where
  "run_on w v = (case w of W_Row \<Rightarrow> run_rows C N v | W_Result \<Rightarrow> run_response C N v)"

lemma run_rows_inp:
  assumes "inp pending s (concat (frames sid p) @ w)" and "plain_packet p"
  shows "\<not> is_terminator p \<Longrightarrow> row_decode C (rv_format v) p (rv_columns v) = Ok r \<Longrightarrow>
      \<exists>s'. run_rows C N v s = Some (Ok (Some (Inr (row_of v r)), P_Rows, v), s') \<and> inp pending s' w \<and>
        rest_of sent s' = rest_of sent s \<and> ms_waiting s' = ms_waiting s"
    and "is_terminator p \<Longrightarrow> packet_eof C (ms_capabilities s) p = Ok e \<Longrightarrow>
      \<exists>s'. run_rows C N v s = Some (Ok (Some (Inl \<lparr>qr_rows_affected = 0, qr_last_insert_id = 0\<rparr>),
          P_EofYielded (more_results (eof_status e)), v), s') \<and> inp pending s' w \<and>
        rest_of sent s' = rest_of sent s \<and> ms_waiting s' = ms_waiting s"
proof -
  from recv_packet_inp [OF assms(1)] assms(2) obtain s1 where
    s1: "recv_packet C N s = Some (Ok p, s1)" "inp pending s1 w" "rest_of sent s1 = rest_of sent s" "ms_waiting s1 = ms_waiting s"
    by (auto simp: plain_packet_def)
  have p0: "index p 0 = Ok (hd p)" using assms(2) by (cases p) (auto simp: plain_packet_def)
  from s1 p0 show "\<exists>s'. run_rows C N v s = Some (Ok (Some (Inr (row_of v r)), P_Rows, v), s') \<and> inp pending s' w \<and>
        rest_of sent s' = rest_of sent s \<and> ms_waiting s' = ms_waiting s"
    if "\<not> is_terminator p" "row_decode C (rv_format v) p (rv_columns v) = Ok r"
    using that assms(2) by (auto simp: run_rows_def abind_Ok aop_run is_terminator_def plain_packet_def)
  from s1 p0 show "\<exists>s'. run_rows C N v s = Some (Ok (Some (Inl \<lparr>qr_rows_affected = 0, qr_last_insert_id = 0\<rparr>),
          P_EofYielded (more_results (eof_status e)), v), s') \<and> inp pending s' w \<and>
        rest_of sent s' = rest_of sent s \<and> ms_waiting s' = ms_waiting s"
    if "is_terminator p" "packet_eof C (ms_capabilities s) p = Ok e"
    using that rest_caps [OF s1(3)]
    by (auto simp: run_rows_def abind_Ok aop_run is_terminator_def flags_contains_law more_results_def)
qed

lemma run_response_ok_inp:
  assumes "inp pending s (concat (frames sid p) @ w)" and "p \<noteq> []" and "hd p = 0" and "ok_packet_decode C p = Ok k"
  shows "\<exists>s'. run_response C N v s = Some (Ok (Some (Inl \<lparr>qr_rows_affected = affected_rows k,
        qr_last_insert_id = last_insert_id k\<rparr>), P_OkYielded (more_results (ok_status k)), v), s') \<and>
    inp pending s' w \<and> rest_of sent s' = rest_of sent s \<and> ms_waiting s' = ms_waiting s"
proof -
  from recv_packet_inp [OF assms(1,2)] assms(3) obtain s1 where
    "recv_packet C N s = Some (Ok p, s1)" "inp pending s1 w" "rest_of sent s1 = rest_of sent s" "ms_waiting s1 = ms_waiting s"
    by auto
  moreover have "index p 0 = Ok 0" using assms(2,3) by (cases p) auto
  ultimately show ?thesis
    using assms(4) by (auto simp: run_response_def abind_Ok aop_run flags_contains_law more_results_def)
qed

lemma run_response_metadata_inp:
  assumes "plain_packet p" and "hd p \<noteq> 0" and "get_uint_lenenc C p = Ok (n, q)" and "0 < n" and "length cols = unat n"
    and "column_packets C cols columns" and "end_of_metadata C (ms_capabilities s) eofs"
    and "inp pending s (concat (frames sid p) @ packets_wire (cols @ eofs) @ w)" and "ms_waiting s = [W_Result]"
  shows "\<exists>s'. run_response C N v s = run_rows C N (with_columns v columns) s' \<and> inp pending s' w \<and>
    rest_of sent s' = rest_of sent s \<and> ms_waiting s' = [W_Row]"
proof -
  from recv_packet_inp [OF assms(8)] assms(1) obtain s1 where
    s1: "recv_packet C N s = Some (Ok p, s1)" "inp pending s1 (packets_wire (cols @ eofs) @ w)"
      "rest_of sent s1 = rest_of sent s" "ms_waiting s1 = [W_Result]" using assms(9) by (auto simp: plain_packet_def)
  let ?t = "s1\<lparr>ms_waiting := [W_Row]\<rparr>"
  have t: "inp pending ?t (packets_wire (cols @ eofs) @ w)" using s1(2) by (simp del: packets_wire_simps)
  have eofs: "end_of_metadata C (ms_capabilities ?t) eofs" using assms(7) rest_caps [OF s1(3)] by simp
  have l: "0 < length cols" using assms(4,5) by (simp add: word_less_nat_alt)
  have p0: "index p 0 = Ok (hd p)" "hd p \<noteq> 0xff" using assms(1) by (cases p; auto simp: plain_packet_def)+
  have f: "set_front W_Row s1 = Some (Ok (), ?t)" using s1(4) by (simp add: set_front_def)
  from recv_metadata_inp(1) [OF assms(6) eofs t] recv_metadata_inp(2) [OF assms(6) eofs t l]
  obtain s2 s3 where
    s2: "recv_result_metadata C N (length cols) ?t = Some (Ok (names_of columns, columns), s2)" "inp pending s2 w"
      "rest_of sent s2 = rest_of sent ?t" "ms_waiting s2 = [W_Row]" and
    s3: "recv_result_columns C N (length cols) ?t = Some (Ok columns, s3)" "inp pending s3 w"
      "rest_of sent s3 = rest_of sent ?t" "ms_waiting s3 = [W_Row]" by auto
  show ?thesis
  proof (cases "rv_needs_metadata v")
    case True
    with s1 s2 p0 f assms(2,3,5) show ?thesis
      by (intro exI [of _ s2]) (simp add: run_response_def abind_Ok athen_Ok aop_run with_columns_def)
  next
    case False
    with s1 s3 p0 f assms(2,3,5) show ?thesis
      by (intro exI [of _ s3]) (simp add: run_response_def abind_Ok athen_Ok aop_run with_columns_def)
  qed
qed

text \<open>
  One poll delivers the next item. After the last one the packets are consumed but the response
  is still registered; otherwise the next poll reads on, and after a row nothing else happens in between.
\<close>

definition reads_on :: "bytes \<Rightarrow> u64 \<Rightarrow> run_state \<Rightarrow> 's mysql_stream \<Rightarrow> item list \<Rightarrow> bool \<Rightarrow> bool" where
  "reads_on rest caps rs s items same =
     (if items = [] then (\<exists>v. rs = (P_OkYielded False, v) \<or> rs = (P_EofYielded False, v)) \<and>
        inp pending s rest \<and> length (ms_waiting s) = 1
      else (\<forall>args. fst rs \<noteq> P_Start args) \<and>
        (\<exists>w ps t. says C caps w (snd rs) ps items \<and> inp pending t (packets_wire ps @ rest) \<and> ms_waiting t = [w] \<and>
          run_resume C N rs s = run_on w (snd rs) t \<and> rest_of sent t = rest_of sent s \<and> (same \<longrightarrow> t = s)))"

lemma run_on_first:
  assumes "says C caps w v ps items" and "inp pending s (packets_wire ps @ rest)" and "ms_waiting s = [w]"
    and "ms_capabilities s = caps"
  shows "\<exists>i its rs s'. items = i # its \<and> run_on w v s = Some (Ok (Some i, rs), s') \<and> rest_of sent s' = rest_of sent s \<and>
    reads_on rest caps rs s' its (\<not> isl i)"
  using assms
proof (induction arbitrary: s rule: says.induct)
  case (row p v r ps items sid)
  from row.prems have "inp pending s (concat (frames sid p) @ packets_wire ps @ rest)" by simp
  from run_rows_inp(1) [OF this row.hyps(1,2,3)] obtain s1 where
    s1: "run_rows C N v s = Some (Ok (Some (Inr (row_of v r)), P_Rows, v), s1)" "inp pending s1 (packets_wire ps @ rest)"
      "rest_of sent s1 = rest_of sent s" "ms_waiting s1 = ms_waiting s" by blast
  then have "reads_on rest caps (P_Rows, v) s1 items True"
    using row.hyps(4) row.prems(2) says_nonempty [OF row.hyps(4)] by (auto simp: reads_on_def run_on_def)
  with s1 show ?case by (simp add: run_on_def)
next
  case (last_row p e v sid)
  from last_row.prems have "inp pending s (concat (frames sid p) @ rest)" by simp
  from run_rows_inp(2) [OF this terminator_plain [OF last_row.hyps(1)] last_row.hyps(1), of e v] last_row.hyps(2,3) last_row.prems
  show ?case by (auto simp: run_on_def reads_on_def)
next
  case (next_set p e v ps items sid)
  from next_set.prems have "inp pending s (concat (frames sid p) @ packets_wire ps @ rest)" by simp
  from run_rows_inp(2) [OF this terminator_plain [OF next_set.hyps(1)] next_set.hyps(1), of e v] next_set.hyps(2,3) next_set.prems(3)
  obtain s1 where
    s1: "run_rows C N v s = Some (Ok (Some (Inl \<lparr>qr_rows_affected = 0, qr_last_insert_id = 0\<rparr>), P_EofYielded True, v), s1)"
      "inp pending s1 (packets_wire ps @ rest)" "rest_of sent s1 = rest_of sent s" "ms_waiting s1 = ms_waiting s" by auto
  let ?t = "s1\<lparr>ms_waiting := [W_Result]\<rparr>"
  have "run_resume C N (P_EofYielded True, v) s1 = run_on W_Result v ?t"
    using s1(4) next_set.prems(2) by (simp add: run_on_def athen_def abind_def set_front_def)
  then have "reads_on rest caps (P_EofYielded True, v) s1 items False"
    using next_set.hyps(4) says_nonempty [OF next_set.hyps(4)] s1(2)
    by (auto simp: reads_on_def intro!: exI [of _ W_Result] exI [of _ ps] exI [of _ ?t])
  with s1 show ?case by (simp add: run_on_def)
next
  case (last_ok p k v sid)
  from last_ok.prems have "inp pending s (concat (frames sid p) @ rest)" by simp
  from run_response_ok_inp [OF this last_ok.hyps(1,2,3), of v] last_ok.hyps(4) last_ok.prems
  show ?case by (auto simp: run_on_def reads_on_def)
next
  case (next_ok p k v ps items sid)
  from next_ok.prems have "inp pending s (concat (frames sid p) @ packets_wire ps @ rest)" by simp
  from run_response_ok_inp [OF this next_ok.hyps(1,2,3), of v] next_ok.hyps(4) obtain s1 where
    s1: "run_response C N v s = Some (Ok (Some (Inl \<lparr>qr_rows_affected = affected_rows k,
        qr_last_insert_id = last_insert_id k\<rparr>), P_OkYielded True, v), s1)" "inp pending s1 (packets_wire ps @ rest)"
      "rest_of sent s1 = rest_of sent s" "ms_waiting s1 = ms_waiting s" by auto
  then have "reads_on rest caps (P_OkYielded True, v) s1 items False"
    using next_ok.hyps(5) next_ok.prems(2) says_nonempty [OF next_ok.hyps(5)]
    by (auto simp: reads_on_def run_on_def intro!: exI [of _ W_Result] exI [of _ ps] exI [of _ s1])
  with s1 show ?case by (simp add: run_on_def)
next
  case (metadata p n q cols columns eofs v ps items sid)
  from metadata.prems have "inp pending s (concat (frames sid p) @ packets_wire (cols @ eofs) @ packets_wire ps @ rest)" by simp
  from run_response_metadata_inp [OF metadata.hyps(1-6) _ this metadata.prems(2), of v] metadata.hyps(7) metadata.prems(3)
  obtain s1 where
    s1: "run_response C N v s = run_rows C N (with_columns v columns) s1" "inp pending s1 (packets_wire ps @ rest)"
      "rest_of sent s1 = rest_of sent s" "ms_waiting s1 = [W_Row]" by auto
  from metadata.IH [OF s1(2,4)] rest_caps [OF s1(3)] metadata.prems(3) s1 show ?case
    by (auto simp: run_on_def)
qed

lemma many_step:
  assumes "\<forall>args. fst rs \<noteq> P_Start args" and "conn_stream c = Some s" and "run_resume C N rs s = Some (Ok (i, rs'), s')"
  shows "fetch_many_next C N L K (M_Run sql persistent rs) c =
    Some (Ok (i, M_Run sql persistent rs'), c\<lparr>conn_stream := Some s'\<rparr>)"
proof -
  have "run_next C N L sql persistent rs = on_stream (run_resume C N rs)"
    using assms(1) by (cases "fst rs") (auto simp: run_next_def)
  with assms(2,3) show ?thesis by (simp add: fetch_many_next_def on_stream_def abind_Ok aret_run)
qed

text \<open>Collecting the rest of the stream folds over exactly the remaining items and finishes the response.\<close>

lemma collect_rest:
  assumes "reads_on rest caps rs s items same" and "conn_stream c = Some s" and "ms_capabilities s = caps"
  shows "\<exists>s'. try_collect (fetch_many_next C N L K) f acc (M_Run sql persistent rs) c =
      Some (Ok (fold f items acc), c\<lparr>conn_stream := Some s'\<rparr>) \<and>
    inp pending s' rest \<and> ms_waiting s' = [] \<and> rest_of sent s' = rest_of sent s"
  using assms
proof (induction items arbitrary: rs s same c acc)
  case Nil
  let ?s = "s\<lparr>ms_waiting := tl (ms_waiting s)\<rparr>"
  from Nil.prems(1) obtain v where rs: "rs = (P_OkYielded False, v) \<or> rs = (P_EofYielded False, v)"
    and s: "inp pending s rest" "length (ms_waiting s) = 1" by (auto simp: reads_on_def)
  then have "run_resume C N rs s = Some (Ok (None, P_Done, v), ?s)"
    by (auto simp: pop_front_def aop_run)
  from many_step [OF _ Nil.prems(2) this, of L K sql persistent] rs
  have "fetch_many_next C N L K (M_Run sql persistent rs) c =
    Some (Ok (None, M_Run sql persistent (P_Done, v)), c\<lparr>conn_stream := Some ?s\<rparr>)" by auto
  then have "try_collect (fetch_many_next C N L K) f acc (M_Run sql persistent rs) c =
      Some (Ok acc, c\<lparr>conn_stream := Some ?s\<rparr>)"
    by (subst try_collect.simps) (simp add: abind_Ok aret_run)
  with s show ?case
    by (intro exI [of _ ?s]) (cases "ms_waiting s"; simp)
next
  case (Cons i items)
  from Cons.prems(1) obtain w ps t where
    t: "says C caps w (snd rs) ps (i # items)" "inp pending t (packets_wire ps @ rest)" "ms_waiting t = [w]"
      "run_resume C N rs s = run_on w (snd rs) t" "rest_of sent t = rest_of sent s" and
    ph: "\<forall>args. fst rs \<noteq> P_Start args" by (auto simp: reads_on_def)
  from run_on_first [OF t(1-3)] rest_caps [OF t(5)] Cons.prems(3) obtain rs' s' where
    s': "run_on w (snd rs) t = Some (Ok (Some i, rs'), s')" "rest_of sent s' = rest_of sent t"
      "reads_on rest caps rs' s' items (\<not> isl i)" by auto
  let ?c = "c\<lparr>conn_stream := Some s'\<rparr>"
  have "fetch_many_next C N L K (M_Run sql persistent rs) c = Some (Ok (Some i, M_Run sql persistent rs'), ?c)"
    by (rule many_step [OF ph Cons.prems(2)]) (simp add: t(4) s'(1))
  then have "try_collect (fetch_many_next C N L K) f acc (M_Run sql persistent rs) c =
      try_collect (fetch_many_next C N L K) f (f i acc) (M_Run sql persistent rs') ?c"
    by (subst try_collect.simps) (simp add: abind_Ok)
  moreover have "ms_capabilities s' = caps" using rest_caps [OF s'(2)] rest_caps [OF t(5)] Cons.prems(3) by simp
  ultimately show ?case using Cons.IH [OF s'(3), of ?c "f i acc"] s'(2) t(5) by auto
qed

lemma wait_owes:
  assumes "owes C s pre" and "inp pending s (packets_wire pre @ w)"
  shows "\<exists>s'. wait_until_ready C N s = Some (Ok (), s') \<and> inp pending s' w \<and> ms_waiting s' = [] \<and>
    wbuf (ms_stream s') = [] \<and> sent (stream (ms_stream s')) = sent (stream (ms_stream s)) @ wbuf (ms_stream s) \<and>
    ms_capabilities s' = ms_capabilities s"
proof (cases "ms_waiting s = []")
  case True
  then have pre: "pre = []" and w: "inp pending s w" using assms by (auto simp: owes_def)
  from stream_flush_inp [of s] obtain s1 where
    s1: "stream_flush N s = Some (Ok (), s1)" "inp pending s1 = inp pending s" "ms_waiting s1 = ms_waiting s"
      "ms_capabilities s1 = ms_capabilities s" "wbuf (ms_stream s1) = []"
      "sent (stream (ms_stream s1)) = sent (stream (ms_stream s)) @ wbuf (ms_stream s)" by blast
  show ?thesis
    using True w s1 wait_done [of s] wait_done [of s1]
    by (cases "wbuf (ms_stream s) = []") (simp_all add: wait_until_ready_def athen_Ok)
next
  case False
  with assms(1) obtain u where "ms_waiting s = [u]" "completes C (ms_capabilities s) u pre" by (auto simp: owes_def)
  with wait_until_ready_drains [of s u pre w] assms(2) show ?thesis by blast
qed

lemma on_stream_Ok: "conn_stream c = Some s \<Longrightarrow> m s = Some (r, s') \<Longrightarrow> on_stream m c = Some (r, c\<lparr>conn_stream := Some s'\<rparr>)"
  by (simp add: on_stream_def)

lemma run_open_inp:
  assumes "owes C s pre" and "inp pending s (packets_wire pre @ w)" and "conn_stream c = Some s"
  shows "\<exists>s'. run_open C N c = Some (Ok (), c\<lparr>conn_stream := Some s'\<rparr>) \<and> inp pending s' w \<and> ms_waiting s' = [W_Result] \<and>
    wbuf (ms_stream s') = [] \<and> sent (stream (ms_stream s')) = sent (stream (ms_stream s)) @ wbuf (ms_stream s) \<and>
    ms_capabilities s' = ms_capabilities s"
proof -
  from wait_owes [OF assms(1,2)] obtain s1 where
    s1: "wait_until_ready C N s = Some (Ok (), s1)" "inp pending s1 w" "ms_waiting s1 = []" "wbuf (ms_stream s1) = []"
      "sent (stream (ms_stream s1)) = sent (stream (ms_stream s)) @ wbuf (ms_stream s)"
      "ms_capabilities s1 = ms_capabilities s" by blast
  let ?s = "s1\<lparr>ms_waiting := [W_Result]\<rparr>"
  have "run_open C N c = Some (Ok (), c\<lparr>conn_stream := Some ?s\<rparr>)"
    using s1(1,3) assms(3) by (simp add: run_open_def athen_def abind_def on_stream_def amodify_def)
  with s1 show ?thesis by (intro exI [of _ ?s]) simp
qed

text \<open>Once the statement is on the wire, the first poll delivers the first item.\<close>

lemma start_reads:
  assumes "says C (ms_capabilities s) W_Result v ps items" and "inp pending s (packets_wire ps @ rest)"
    and "ms_waiting s = [W_Result]" and "conn_stream c = Some s"
    and "run_start C N L sql persistent args c0 = Some (Ok v, c)"
  shows "\<exists>i its rs s'. items = i # its \<and>
    run_next C N L sql persistent (P_Start args, no_view) c0 = Some (Ok (Some i, rs), c\<lparr>conn_stream := Some s'\<rparr>) \<and>
    reads_on rest (ms_capabilities s) rs s' its (\<not> isl i) \<and> rest_of sent s' = rest_of sent s"
proof -
  from run_on_first [OF assms(1,2,3) refl] obtain i its rs s' where
    "items = i # its" "run_response C N v s = Some (Ok (Some i, rs), s')" "rest_of sent s' = rest_of sent s"
    "reads_on rest (ms_capabilities s) rs s' its (\<not> isl i)" by (auto simp: run_on_def)
  with assms(4,5) show ?thesis
    by (auto simp: run_next_def abind_Ok on_stream_def)
qed

lemma text_start_inp:
  assumes "inp pending s w" and "conn_stream c = Some s" and "wbuf (ms_stream s) = []"
  shows "\<exists>s'. run_start C N L sql persistent None c =
      Some (Ok (text_view (opt_offset_sec (conn_option c))), c\<lparr>conn_stream := Some s'\<rparr>) \<and>
    inp pending s' w \<and> ms_waiting s' = ms_waiting s \<and> ms_capabilities s' = ms_capabilities s \<and> wbuf (ms_stream s') = [] \<and>
    sent (stream (ms_stream s')) = sent (stream (ms_stream s)) @ concat (frames 0 (0x03 # sql))"
proof -
  have "query_encode sql (ms_capabilities s) b = b @ 0x03 # sql" for b by (simp add: query_encode_def)
  from send_packet_inp [of "query_encode sql" s, OF this] obtain s' where
    s': "send_packet N (query_encode sql) s = Some (Ok (), s')" "inp pending s' = inp pending s" "ms_waiting s' = ms_waiting s"
      "ms_capabilities s' = ms_capabilities s" "wbuf (ms_stream s') = []"
      "sent (stream (ms_stream s')) = sent (stream (ms_stream s)) @ wbuf (ms_stream s) @ concat (frames 0 (0x03 # sql))"
    by blast
  with assms show ?thesis
    by (intro exI [of _ s'])
      (simp add: run_start_def abind_Ok [OF aget_run] athen_Ok [OF on_stream_Ok] aop_run text_view_def)
qed

lemma first_poll:
  assumes "take_arguments K q = Ok args" and "run_open C N c = Some (Ok (), c1)"
    and "run_start C N L (query_sql q) (mq_persistent q) args c1 = Some (Ok v, c2)" and "conn_stream c2 = Some s"
    and "says C (ms_capabilities s) W_Result v ps items" and "inp pending s (packets_wire ps @ rest)"
    and "ms_waiting s = [W_Result]"
  shows "\<exists>i its rs s'. items = i # its \<and>
    fetch_many_next C N L K (M_Init q) c =
      Some (Ok (Some i, M_Run (query_sql q) (mq_persistent q) rs), c2\<lparr>conn_stream := Some s'\<rparr>) \<and>
    reads_on rest (ms_capabilities s') rs s' its (\<not> isl i) \<and> rest_of sent s' = rest_of sent s"
proof -
  from start_reads [OF assms(5,6,7,4,3)] obtain i its rs s3 where
    s3: "items = i # its" "run_next C N L (query_sql q) (mq_persistent q) (P_Start args, no_view) c1 =
        Some (Ok (Some i, rs), c2\<lparr>conn_stream := Some s3\<rparr>)"
      "reads_on rest (ms_capabilities s) rs s3 its (\<not> isl i)" "rest_of sent s3 = rest_of sent s" by auto
  moreover have "fetch_many_next C N L K (M_Init q) c =
      Some (Ok (Some i, M_Run (query_sql q) (mq_persistent q) rs), c2\<lparr>conn_stream := Some s3\<rparr>)"
    using assms(1,2) s3(2) by (simp add: fetch_many_next_def aop_run abind_Ok athen_Ok)
  ultimately show ?thesis using rest_caps [OF s3(4)] by (intro exI [of _ i] exI [of _ its] exI [of _ rs] exI [of _ s3]) simp
qed

text \<open>A statement without arguments: the first poll waits, sends the text and delivers the first item.\<close>

lemma text_query_first:
  assumes "owes C s pre" and "inp pending s (packets_wire pre @ packets_wire ps @ rest)" and "conn_stream c = Some s"
    and "says C (ms_capabilities s) W_Result (text_view (opt_offset_sec (conn_option c))) ps items"
    and "mq_arguments q = []"
  shows "\<exists>i its rs s'. items = i # its \<and>
    fetch_many_next C N L K (M_Init q) c =
      Some (Ok (Some i, M_Run (query_sql q) (mq_persistent q) rs), c\<lparr>conn_stream := Some s'\<rparr>) \<and>
    reads_on rest (ms_capabilities s) rs s' its (\<not> isl i) \<and> ms_capabilities s' = ms_capabilities s \<and>
    sent (stream (ms_stream s')) =
      sent (stream (ms_stream s)) @ wbuf (ms_stream s) @ concat (frames 0 (0x03 # query_sql q))"
proof -
  from run_open_inp [OF assms(1,2,3)] obtain s1 where
    s1: "run_open C N c = Some (Ok (), c\<lparr>conn_stream := Some s1\<rparr>)" "inp pending s1 (packets_wire ps @ rest)"
      "ms_waiting s1 = [W_Result]" "wbuf (ms_stream s1) = []"
      "sent (stream (ms_stream s1)) = sent (stream (ms_stream s)) @ wbuf (ms_stream s)"
      "ms_capabilities s1 = ms_capabilities s" by blast
  let ?c = "c\<lparr>conn_stream := Some s1\<rparr>"
  from text_start_inp [OF s1(2), of ?c L "query_sql q" "mq_persistent q"] s1(4) obtain s2 where
    s2: "run_start C N L (query_sql q) (mq_persistent q) None ?c =
        Some (Ok (text_view (opt_offset_sec (conn_option c))), ?c\<lparr>conn_stream := Some s2\<rparr>)"
      "inp pending s2 (packets_wire ps @ rest)" "ms_waiting s2 = [W_Result]" "ms_capabilities s2 = ms_capabilities s1"
      "sent (stream (ms_stream s2)) = sent (stream (ms_stream s1)) @ concat (frames 0 (0x03 # query_sql q))"
    using s1(3) by auto
  have "says C (ms_capabilities s2) W_Result (text_view (opt_offset_sec (conn_option c))) ps items"
    using assms(4) s1(6) s2(4) by simp
  from first_poll [OF _ s1(1) s2(1) _ this s2(2,3), of K] assms(5) obtain i its rs s3 where
    s3: "items = i # its" "fetch_many_next C N L K (M_Init q) c =
        Some (Ok (Some i, M_Run (query_sql q) (mq_persistent q) rs), c\<lparr>conn_stream := Some s3\<rparr>)"
      "reads_on rest (ms_capabilities s3) rs s3 its (\<not> isl i)" "rest_of sent s3 = rest_of sent s2"
    by (auto simp: take_arguments_def)
  moreover have "ms_capabilities s3 = ms_capabilities s" using s1(6) s2(4) rest_caps [OF s3(4)] by simp
  ultimately show ?thesis using s1 s2
    by (intro exI [of _ i] exI [of _ its] exI [of _ rs] exI [of _ s3]) (simp add: rest_of_def)
qed

lemma collect_from:
  assumes "fetch_many_next C N L K g c = Some (Ok (Some i, M_Run sql persistent rs), c')" and "conn_stream c' = Some s"
    and "reads_on rest (ms_capabilities s) rs s its same"
  shows "\<exists>s'. try_collect (fetch_many_next C N L K) f acc g c = Some (Ok (fold f (i # its) acc), c'\<lparr>conn_stream := Some s'\<rparr>) \<and>
    owes C s' [] \<and> inp pending s' rest \<and> rest_of sent s' = rest_of sent s"
proof -
  have "try_collect (fetch_many_next C N L K) f acc g c =
      try_collect (fetch_many_next C N L K) f (f i acc) (M_Run sql persistent rs) c'"
    using assms(1) by (subst try_collect.simps) (simp add: abind_Ok)
  with collect_rest [OF assms(3,2) refl, of L K f "f i acc" sql persistent] show ?thesis
    by (auto simp: owes_def)
qed

lemma collect_text:
  assumes "owes C s pre" and "inp pending s (packets_wire pre @ packets_wire ps @ rest)" and "conn_stream c = Some s"
    and "says C (ms_capabilities s) W_Result (text_view (opt_offset_sec (conn_option c))) ps items"
    and "mq_arguments q = []"
  shows "\<exists>s'. try_collect (fetch_many_next C N L K) f acc (M_Init q) c = Some (Ok (fold f items acc), c\<lparr>conn_stream := Some s'\<rparr>) \<and>
    owes C s' [] \<and> inp pending s' rest \<and> ms_capabilities s' = ms_capabilities s \<and>
    sent (stream (ms_stream s')) =
      sent (stream (ms_stream s)) @ wbuf (ms_stream s) @ concat (frames 0 (0x03 # query_sql q))"
proof -
  from text_query_first [OF assms, of L K] obtain i its rs s1 where
    s1: "items = i # its" "fetch_many_next C N L K (M_Init q) c =
      Some (Ok (Some i, M_Run (query_sql q) (mq_persistent q) rs), c\<lparr>conn_stream := Some s1\<rparr>)"
      "reads_on rest (ms_capabilities s) rs s1 its (\<not> isl i)" "ms_capabilities s1 = ms_capabilities s"
      "sent (stream (ms_stream s1)) =
        sent (stream (ms_stream s)) @ wbuf (ms_stream s) @ concat (frames 0 (0x03 # query_sql q))" by blast
  have "reads_on rest (ms_capabilities s1) rs s1 its (\<not> isl i)" using s1(3,4) by simp
  from collect_from [OF s1(2) _ this, of f acc] s1(1,4,5) show ?thesis by (auto simp: rest_of_def)
qed

text \<open>
  \<open>fetch_optional\<close> stops at the first row. The rest of the response stays outstanding, and is
  registered as such.
\<close>

lemma fetch_rest:
  assumes "reads_on rest caps rs s items same" and "conn_stream c = Some s" and "ms_capabilities s = caps"
  shows "\<exists>s' ps'. fetch_optional_loop (fetch_many_next C N L K) (M_Run sql persistent rs) c =
      Some (Ok (first_row items), c\<lparr>conn_stream := Some s'\<rparr>) \<and>
    owes C s' ps' \<and> inp pending s' (packets_wire ps' @ rest) \<and> rest_of sent s' = rest_of sent s"
  using assms
proof (induction items arbitrary: rs s same c)
  case Nil
  let ?s = "s\<lparr>ms_waiting := tl (ms_waiting s)\<rparr>"
  from Nil.prems(1) obtain v where rs: "rs = (P_OkYielded False, v) \<or> rs = (P_EofYielded False, v)"
    and s: "inp pending s rest" "length (ms_waiting s) = 1" by (auto simp: reads_on_def)
  then have "run_resume C N rs s = Some (Ok (None, P_Done, v), ?s)"
    by (auto simp: pop_front_def aop_run)
  from many_step [OF _ Nil.prems(2) this, of L K sql persistent] rs
  have "fetch_many_next C N L K (M_Run sql persistent rs) c =
    Some (Ok (None, M_Run sql persistent (P_Done, v)), c\<lparr>conn_stream := Some ?s\<rparr>)" by auto
  then have "fetch_optional_loop (fetch_many_next C N L K) (M_Run sql persistent rs) c =
      Some (Ok None, c\<lparr>conn_stream := Some ?s\<rparr>)"
    by (subst fetch_optional_loop.simps) (simp add: abind_Ok aret_run)
  with s show ?case
    by (intro exI [of _ ?s] exI [of _ "[]"]) (cases "ms_waiting s"; simp add: owes_def)
next
  case (Cons i items)
  from Cons.prems(1) obtain w ps t where
    t: "says C caps w (snd rs) ps (i # items)" "inp pending t (packets_wire ps @ rest)" "ms_waiting t = [w]"
      "run_resume C N rs s = run_on w (snd rs) t" "rest_of sent t = rest_of sent s" and
    ph: "\<forall>args. fst rs \<noteq> P_Start args" by (auto simp: reads_on_def)
  from run_on_first [OF t(1-3)] rest_caps [OF t(5)] Cons.prems(3) obtain rs' s' where
    s': "run_on w (snd rs) t = Some (Ok (Some i, rs'), s')" "rest_of sent s' = rest_of sent t"
      "reads_on rest caps rs' s' items (\<not> isl i)" by auto
  have caps: "ms_capabilities s' = caps" using rest_caps [OF s'(2)] rest_caps [OF t(5)] Cons.prems(3) by simp
  let ?c = "c\<lparr>conn_stream := Some s'\<rparr>"
  have step: "fetch_many_next C N L K (M_Run sql persistent rs) c = Some (Ok (Some i, M_Run sql persistent rs'), ?c)"
    by (rule many_step [OF ph Cons.prems(2)]) (simp add: t(4) s'(1))
  show ?case
  proof (cases i)
    case (Inl q)
    then have "fetch_optional_loop (fetch_many_next C N L K) (M_Run sql persistent rs) c =
        fetch_optional_loop (fetch_many_next C N L K) (M_Run sql persistent rs') ?c"
      using step by (subst fetch_optional_loop.simps) (simp add: abind_Ok)
    with Cons.IH [OF s'(3), of ?c] caps s'(2) t(5) Inl show ?thesis by auto
  next
    case (Inr r)
    then have "fetch_optional_loop (fetch_many_next C N L K) (M_Run sql persistent rs) c = Some (Ok (Some r), ?c)"
      using step by (subst fetch_optional_loop.simps) (simp add: abind_Ok aret_run)
    moreover have "items \<noteq> []" using says_ends_with_summary [OF t(1)] Inr by auto
    then obtain w' ps' where "says C caps w' (snd rs') ps' items" "inp pending s' (packets_wire ps' @ rest)" "ms_waiting s' = [w']"
      using s'(3) Inr by (auto simp: reads_on_def)
    then have "owes C s' ps' \<and> inp pending s' (packets_wire ps' @ rest)"
      using caps by (auto simp: owes_def dest: says_completes)
    ultimately show ?thesis using s'(2) t(5) Inr by auto
  qed
qed

lemma fetch_text:
  assumes "owes C s pre" and "inp pending s (packets_wire pre @ packets_wire ps @ rest)" and "conn_stream c = Some s"
    and "says C (ms_capabilities s) W_Result (text_view (opt_offset_sec (conn_option c))) ps items"
    and "mq_arguments q = []"
  shows "\<exists>s' ps'. fetch_optional C N L K q c = Some (Ok (first_row items), c\<lparr>conn_stream := Some s'\<rparr>) \<and>
    owes C s' ps' \<and> inp pending s' (packets_wire ps' @ rest) \<and> ms_capabilities s' = ms_capabilities s"
proof -
  from text_query_first [OF assms, of L K] obtain i its rs s1 where
    s1: "items = i # its" "fetch_many_next C N L K (M_Init q) c =
      Some (Ok (Some i, M_Run (query_sql q) (mq_persistent q) rs), c\<lparr>conn_stream := Some s1\<rparr>)"
      "reads_on rest (ms_capabilities s) rs s1 its (\<not> isl i)" "ms_capabilities s1 = ms_capabilities s" by blast
  let ?c = "c\<lparr>conn_stream := Some s1\<rparr>"
  show ?thesis
  proof (cases i)
    case (Inl x)
    then have "fetch_optional C N L K q c =
        fetch_optional_loop (fetch_many_next C N L K) (M_Run (query_sql q) (mq_persistent q) rs) ?c"
      using s1(2) unfolding fetch_optional_def by (subst fetch_optional_loop.simps) (simp add: abind_Ok)
    moreover from fetch_rest [OF s1(3) _ s1(4), of ?c L K "query_sql q" "mq_persistent q"] obtain s' ps' where
      "fetch_optional_loop (fetch_many_next C N L K) (M_Run (query_sql q) (mq_persistent q) rs) ?c =
        Some (Ok (first_row its), c\<lparr>conn_stream := Some s'\<rparr>)"
      "owes C s' ps'" "inp pending s' (packets_wire ps' @ rest)" "rest_of sent s' = rest_of sent s1" by auto
    ultimately show ?thesis
      using s1(1,4) Inl rest_caps [of s' s1] by (intro exI [of _ s'] exI [of _ ps']) simp
  next
    case (Inr r)
    then have "fetch_optional C N L K q c = Some (Ok (Some r), ?c)"
      using s1(2) unfolding fetch_optional_def by (subst fetch_optional_loop.simps) (simp add: abind_Ok aret_run)
    moreover have "its \<noteq> []" using says_ends_with_summary [OF assms(4)] s1(1) Inr by auto
    then obtain w' ps' where "says C (ms_capabilities s) w' (snd rs) ps' its" "inp pending s1 (packets_wire ps' @ rest)"
      "ms_waiting s1 = [w']"
      using s1(3) Inr by (auto simp: reads_on_def)
    then have "owes C s1 ps' \<and> inp pending s1 (packets_wire ps' @ rest)"
      using s1(4) by (auto simp: owes_def dest: says_completes)
    ultimately show ?thesis using s1(1,4) Inr by auto
  qed
qed

end

context healthy_net
begin

lemma recv_packet_eof:
  assumes "inp pending s []"
  shows "\<exists>s'. recv_packet C N s = Some (Err ConnectionAborted, s') \<and> rest_of sent s' = rest_of sent s"
proof -
  have "length (pending (stream (ms_stream s))) < 4" using assms by (simp add: inp_def)
  from read_raw_aborts [OF async_reader_axioms this] obtain b where
    b: "read_raw C (net_read N) (ms_stream s) 4 = (Err ConnectionAborted, b)" "wbuf b = wbuf (ms_stream s)" by blast
  then have "stream_read C N 4 s = Some (Err ConnectionAborted, s\<lparr>ms_stream := b\<rparr>)" by (simp add: stream_read_def)
  moreover have "sent (stream b) = sent (stream (ms_stream s))"
    using read_raw_keeps [of "net_read N" sent C "ms_stream s" 4] reading_sends_nothing b(1) by auto
  ultimately show ?thesis using b(2) by (auto simp: recv_packet_def recv_frame_def abind_Err rest_of_def)
qed

text \<open>A response registered but already read: waiting for it reads on.\<close>

lemma wait_for_nothing:
  assumes "inp pending s []" and "ms_waiting s = [W_Result]" and "wbuf (ms_stream s) = []"
  shows "\<exists>s'. wait_until_ready C N s = Some (Err ConnectionAborted, s')"
proof -
  from recv_packet_eof [OF assms(1)] obtain s' where "recv_packet C N s = Some (Err ConnectionAborted, s')" by blast
  then have "skip_results C N s = Some (Err ConnectionAborted, s')"
    using assms(2) by (subst skip_results.simps) (simp add: front_is_def abind_Err)
  then have "from_result s = Some (Err ConnectionAborted, s')" by (simp add: from_result_def abind_Err)
  with assms(2,3) show ?thesis
    by (simp add: wait_until_ready_def wait_loop_from_row from_row_result front_is_def)
qed

lemma get_rows_text:
  assumes "owes C s pre" and "inp pending s (packets_wire pre @ packets_wire ps @ rest)" and "conn_stream c = Some s"
    and "says C (ms_capabilities s) W_Result (text_view (opt_offset_sec (conn_option c))) ps items"
  shows "\<exists>s'. get_rows C N L K sql [] c = Some (Ok (rows_of items), c\<lparr>conn_stream := Some s'\<rparr>) \<and>
    owes C s' [] \<and> inp pending s' rest \<and>
    sent (stream (ms_stream s')) = sent (stream (ms_stream s)) @ wbuf (ms_stream s) @ concat (frames 0 (0x03 # sql))"
  using collect_text [OF assms, of "\<lparr>mq_statement = Inl sql, mq_arguments = [], mq_persistent = False\<rparr>" L K push_row "[]"]
  by (auto simp: get_rows_def open_query_def abind_Ok [OF aret_run] fold_push_row query_sql_def)

lemma do_ping_drains:
  assumes "owes C s pre" and "inp pending s (packets_wire pre @ packets_wire [(sid, p)] @ rest)" and "conn_stream c = Some s"
    and "p \<noteq> []" and "hd p = 0" and "ok_packet_decode C p = Ok k"
  shows "\<exists>s'. do_ping C N c = Some (Ok (), c\<lparr>conn_stream := Some s'\<rparr>) \<and> owes C s' [] \<and> inp pending s' rest \<and>
    ms_capabilities s' = ms_capabilities s \<and>
    sent (stream (ms_stream s')) = sent (stream (ms_stream s)) @ wbuf (ms_stream s) @ concat (frames 0 [0x0e])"
proof -
  from wait_owes [OF assms(1,2)] obtain s1 where
    s1: "wait_until_ready C N s = Some (Ok (), s1)" "inp pending s1 (concat (frames sid p) @ rest)" "ms_waiting s1 = []"
      "wbuf (ms_stream s1) = []" "sent (stream (ms_stream s1)) = sent (stream (ms_stream s)) @ wbuf (ms_stream s)"
      "ms_capabilities s1 = ms_capabilities s" by auto
  from send_packet_inp [of ping_encode s1 "[0x0e]"] obtain s2 where
    s2: "send_packet N ping_encode s1 = Some (Ok (), s2)" "inp pending s2 = inp pending s1" "ms_waiting s2 = []"
      "ms_capabilities s2 = ms_capabilities s1"
      "sent (stream (ms_stream s2)) = sent (stream (ms_stream s1)) @ concat (frames 0 [0x0e])"
    using s1(3,4) by (auto simp: ping_encode_def)
  from recv_packet_inp [of s2 sid p rest] s1(2) s2(2) assms(4,5) obtain s3 where
    s3: "recv_packet C N s2 = Some (Ok p, s3)" "inp pending s3 rest" "rest_of sent s3 = rest_of sent s2"
      "ms_waiting s3 = ms_waiting s2" by auto
  have "recv_ok C N s2 = Some (Ok k, s3)" using s3(1) assms(6) by (simp add: recv_ok_def abind_Ok alift_def)
  then have "do_ping C N c = Some (Ok (), c\<lparr>conn_stream := Some s3\<rparr>)"
    using s1(1) s2(1) assms(3) by (simp add: do_ping_def athen_def abind_def on_stream_def aret_def)
  moreover have "sent (stream (ms_stream s3)) = sent (stream (ms_stream s2))" "ms_capabilities s3 = ms_capabilities s2"
    using s3(3) by (simp_all add: rest_of_def)
  ultimately show ?thesis using s3 s2 s1 by (intro exI [of _ s3]) (simp add: owes_def)
qed

lemma do_ping_dead:
  assumes "inp pending s []" and "ms_waiting s = []" and "conn_stream c = Some s"
  shows "\<exists>s'. do_ping C N c = Some (Err ConnectionAborted, c\<lparr>conn_stream := Some s'\<rparr>) \<and> wbuf (ms_stream s') = [] \<and>
    sent (stream (ms_stream s')) = sent (stream (ms_stream s)) @ wbuf (ms_stream s) @ concat (frames 0 [0x0e])"
proof -
  from wait_owes [of s "[]" "[]"] assms(1,2) obtain s1 where
    s1: "wait_until_ready C N s = Some (Ok (), s1)" "inp pending s1 []" "wbuf (ms_stream s1) = []"
      "sent (stream (ms_stream s1)) = sent (stream (ms_stream s)) @ wbuf (ms_stream s)" by (auto simp: owes_def)
  from send_packet_inp [of ping_encode s1 "[0x0e]"] obtain s2 where
    s2: "send_packet N ping_encode s1 = Some (Ok (), s2)" "inp pending s2 = inp pending s1" "wbuf (ms_stream s2) = []"
      "sent (stream (ms_stream s2)) = sent (stream (ms_stream s1)) @ concat (frames 0 [0x0e])"
    using s1(3) by (auto simp: ping_encode_def)
  from recv_packet_eof [of s2] s1(2) s2(2) obtain s3 where s3: "recv_packet C N s2 = Some (Err ConnectionAborted, s3)"
    "wbuf (ms_stream s3) = wbuf (ms_stream s2)" "sent (stream (ms_stream s3)) = sent (stream (ms_stream s2))"
    by (auto simp: rest_of_def)
  then have "do_ping C N c = Some (Err ConnectionAborted, c\<lparr>conn_stream := Some s3\<rparr>)"
    using s1(1) s2(1) assms(3) by (simp add: do_ping_def recv_ok_def athen_def abind_def on_stream_def)
  with s3 s2 s1 show ?thesis by auto
qed

end

section \<open>A sample response\<close>

text \<open>A result set of one column and one row, in the classic protocol with EOF packets.\<close>

definition sample_col :: mysql_column where
  "sample_col = \<lparr>mc_ordinal = 0, mc_name = lit ''a'', mc_type_info = \<lparr>ti_type = CT_VarString, ti_char_set = 33\<rparr>\<rparr>"

definition sample_def :: bytes where
  "sample_def = [3, 100, 101, 102, 0, 0, 0, 1, 97, 1, 97, 12, 33, 0, 0, 1, 0, 0, 0xfd, 0, 0, 0, 0, 0]"

definition sample_set :: "(u8 \<times> bytes) list" where
  "sample_set = [(1, [1]), (2, sample_def), (3, [0xfe, 0, 0, 2, 0]), (4, [1, 65]), (5, [0xfe, 0, 0, 2, 0])]"

definition sample_row :: mysql_row where
  "sample_row = \<lparr>mr_row = \<lparr>row_storage = [Some [65]], row_values = [Some (1, 2)]\<rparr>, mr_format = Text, mr_columns = [sample_col],
     mr_column_names = [(lit ''a'', 0, \<lparr>ti_type = CT_VarString, ti_char_set = 33\<rparr>)], mr_offset_sec = 0\<rparr>"

definition sample_conn :: "bytes list \<Rightarrow> waiting list \<Rightarrow> (script, (u32 \<times> statement_metadata) lru_list) mysql_conn" where
  "sample_conn chunks ws = \<lparr>conn_stream = Some (script_stream chunks 0 ws), cache_statement = lru_new list_lru 100,
     conn_option = sample_options\<rparr>"

lemma sample_set_says:
  "says std_crates 0 W_Result (text_view 0) sample_set
    [Inr sample_row, Inl \<lparr>qr_rows_affected = 0, qr_last_insert_id = 0\<rparr>]"
proof -
  have e: "packet_eof std_crates 0 [0xfe, 0, 0, 2, 0] = Ok \<lparr>eof_warnings = 0, eof_status = 2\<rparr>" by code_simp
  have e': "eof_packet_decode std_crates [0xfe, 0, 0, 2, 0] = Ok \<lparr>eof_warnings = 0, eof_status = 2\<rparr>" by code_simp
  have n: "get_uint_lenenc std_crates [1] = Ok (1, [])" by code_simp
  have d: "rbind (column_definition_decode std_crates sample_def) (\<lambda>d. recv_next_result_column d 0) = Ok sample_col"
    by code_simp
  have r: "text_row_decode std_crates [1, 65] [sample_col] = Ok (mr_row sample_row)" by code_simp
  let ?v = "with_columns (text_view 0) [sample_col]"
  have v: "row_of ?v (mr_row sample_row) = sample_row" "rv_format ?v = Text" "rv_columns ?v = [sample_col]"
    by (simp_all add: row_of_def with_columns_def text_view_def sample_row_def sample_col_def names_of_def)
  have "says std_crates 0 W_Row ?v [(5, [0xfe, 0, 0, 2, 0])] [Inl \<lparr>qr_rows_affected = 0, qr_last_insert_id = 0\<rparr>]"
    by (rule says.last_row [OF _ e]) (simp_all add: is_terminator_def more_results_def SERVER_MORE_RESULTS_EXISTS_def)
  then have "says std_crates 0 W_Row ?v [(4, [1, 65]), (5, [0xfe, 0, 0, 2, 0])]
      [Inr (row_of ?v (mr_row sample_row)), Inl \<lparr>qr_rows_affected = 0, qr_last_insert_id = 0\<rparr>]"
    using r v by (intro says.row) (simp_all add: plain_packet_def is_terminator_def row_decode_def)
  moreover have "column_packets std_crates [(2, sample_def)] [sample_col]"
    using d by (simp add: column_packets_def plain_packet_def sample_def_def)
  moreover have "end_of_metadata std_crates 0 [(3, [0xfe, 0, 0, 2, 0])]"
    using e' by (simp add: end_of_metadata_def plain_packet_def DEPRECATE_EOF_def)
  ultimately have "says std_crates 0 W_Result (text_view 0)
      ((1, [1]) # [(2, sample_def)] @ [(3, [0xfe, 0, 0, 2, 0])] @ [(4, [1, 65]), (5, [0xfe, 0, 0, 2, 0])])
      [Inr sample_row, Inl \<lparr>qr_rows_affected = 0, qr_last_insert_id = 0\<rparr>]"
    unfolding v(1) by (intro says.metadata [OF _ _ n]) (simp_all add: plain_packet_def)
  then show ?thesis by (simp add: sample_set_def)
qed

lemma ok_says:
  "says std_crates 0 W_Result (text_view 0) [(1, [0, 3, 7, 2, 0, 0, 0])] [Inl \<lparr>qr_rows_affected = 3, qr_last_insert_id = 7\<rparr>]"
proof -
  have k: "ok_packet_decode std_crates [0, 3, 7, 2, 0, 0, 0] =
      Ok \<lparr>affected_rows = 3, last_insert_id = 7, ok_status = 2, ok_warnings = 0\<rparr>" by code_simp
  show ?thesis
    using says.last_ok [OF _ _ k, of 0 "text_view 0" 1]
    by (simp add: more_results_def SERVER_MORE_RESULTS_EXISTS_def)
qed

lemma sample_conn_simps [simp]:
  "conn_stream (sample_conn chunks ws) = Some (script_stream chunks 0 ws)"
  "opt_offset_sec (conn_option (sample_conn chunks ws)) = 0"
  "rbuf (ms_stream (script_stream chunks caps ws)) = []"
  "script_pending (stream (ms_stream (script_stream chunks caps ws))) = concat chunks"
  by (simp_all add: sample_conn_def sample_options_def script_stream_def buf_stream_new_def script_pending_def)

section \<open>Properties\<close>

text \<open>C1: A query without parameters returns exactly the rows the server sent, in order: \<open>get_rows\<close>
  returns whatever the network's chunking, reads the whole response over any number of result sets,
  first consuming what an earlier command left outstanding, has written exactly the query, and leaves
  the connection ready with the next bytes of the server unread.\<close>

theorem get_rows_returns_the_rows:
  assumes "healthy_net N pending C sent" and "conn_stream c = Some s" and "owes C s pre"
    and "rbuf (ms_stream s) = []" and "pending (stream (ms_stream s)) = packets_wire pre @ packets_wire ps @ rest"
    and "says C (ms_capabilities s) W_Result (text_view (opt_offset_sec (conn_option c))) ps items"
  shows "\<exists>s'. get_rows C N L K sql [] c = Some (Ok (rows_of items), c\<lparr>conn_stream := Some s'\<rparr>) \<and>
    owes C s' [] \<and> rbuf (ms_stream s') = [] \<and> pending (stream (ms_stream s')) = rest \<and>
    sent (stream (ms_stream s')) = sent (stream (ms_stream s)) @ wbuf (ms_stream s) @ concat (frames 0 (0x03 # sql))"
proof -
  have "inp pending s (packets_wire pre @ packets_wire ps @ rest)" using assms(4,5) by (simp add: inp_def)
  from healthy_net.get_rows_text [OF assms(1,3) this assms(2,6)] show ?thesis by (auto simp: inp_def)
qed

theorem get_rows_returns_the_rows_witness:
  "\<exists>s'. get_rows std_crates script_net list_lru sample_kit (lit ''select a'') []
      (sample_conn [packets_wire [(9, [1, 65]), (9, [0xfe, 0, 0, 2, 0])] @ packets_wire sample_set, [7]] [W_Row]) =
      Some (Ok [sample_row], (sample_conn [packets_wire [(9, [1, 65]), (9, [0xfe, 0, 0, 2, 0])] @ packets_wire sample_set, [7]]
        [W_Row])\<lparr>conn_stream := Some s'\<rparr>) \<and>
    script_out (stream (ms_stream s')) = concat (frames 0 (0x03 # lit ''select a''))"
proof -
  let ?pre = "[(9 :: u8, [1, 65 :: u8]), (9, [0xfe, 0, 0, 2, 0])]"
  let ?c = "sample_conn [packets_wire ?pre @ packets_wire sample_set, [7]] [W_Row]"
  have e: "packet_eof std_crates 0 [0xfe, 0, 0, 2, 0] = Ok \<lparr>eof_warnings = 0, eof_status = 2\<rparr>" by code_simp
  have "completes std_crates 0 W_Row ?pre"
    by (intro completes.row completes.last_row [OF _ e])
      (simp_all add: plain_packet_def is_terminator_def more_results_def SERVER_MORE_RESULTS_EXISTS_def)
  then have o: "owes std_crates (script_stream [packets_wire ?pre @ packets_wire sample_set, [7]] 0 [W_Row]) ?pre"
    by (simp add: owes_def)
  from get_rows_returns_the_rows [OF script.healthy_net_axioms _ o, of ?c sample_set "[7]"
      "[Inr sample_row, Inl \<lparr>qr_rows_affected = 0, qr_last_insert_id = 0\<rparr>]" list_lru sample_kit "lit ''select a''"] sample_set_says
  show ?thesis by (simp del: packets_wire_simps(2)) blast
qed

text \<open>C25: Executing a statement without parameters reports the sum of the affected rows of all its
  results, as a 64-bit number, and the insert id of the last one, and leaves the connection ready.\<close>

theorem exec_sums_the_results:
  assumes "healthy_net N pending C sent" and "conn_stream c = Some s" and "owes C s pre"
    and "rbuf (ms_stream s) = []" and "pending (stream (ms_stream s)) = packets_wire pre @ packets_wire ps @ rest"
    and "says C (ms_capabilities s) W_Result (text_view (opt_offset_sec (conn_option c))) ps items"
  shows "\<exists>s'. exec C N L K sql [] c =
      Some (Ok \<lparr>er_rows_affected = sum_list (map qr_rows_affected (summaries items)),
        er_last_insert_id = V_U64 (qr_last_insert_id (last (summaries items)))\<rparr>, c\<lparr>conn_stream := Some s'\<rparr>) \<and>
    owes C s' [] \<and> rbuf (ms_stream s') = [] \<and> pending (stream (ms_stream s')) = rest"
proof -
  have "inp pending s (packets_wire pre @ packets_wire ps @ rest)" using assms(4,5) by (simp add: inp_def)
  from healthy_net.collect_text [OF assms(1,3) this assms(2,6), of
      "\<lparr>mq_statement = Inl sql, mq_arguments = [], mq_persistent = False\<rparr>" L K extend_result
      "\<lparr>qr_rows_affected = 0, qr_last_insert_id = 0\<rparr>"] obtain s' where
    "try_collect (fetch_many_next C N L K) extend_result \<lparr>qr_rows_affected = 0, qr_last_insert_id = 0\<rparr>
      (M_Init \<lparr>mq_statement = Inl sql, mq_arguments = [], mq_persistent = False\<rparr>) c =
      Some (Ok (fold extend_result items \<lparr>qr_rows_affected = 0, qr_last_insert_id = 0\<rparr>), c\<lparr>conn_stream := Some s'\<rparr>)"
    "owes C s' []" "inp pending s' rest" by auto
  with says_summaries [OF assms(6)] show ?thesis
    by (auto simp: exec_def open_query_def abind_Ok [OF aret_run] abind_Ok aret_run fold_extend_result inp_def last_map)
qed

theorem exec_sums_the_results_witness:
  "\<exists>s'. exec std_crates script_net list_lru sample_kit (lit ''update t'') []
      (sample_conn [packets_wire [(1, [0, 3, 7, 2, 0, 0, 0])]] []) =
      Some (Ok \<lparr>er_rows_affected = 3, er_last_insert_id = V_U64 7\<rparr>,
        (sample_conn [packets_wire [(1, [0, 3, 7, 2, 0, 0, 0])]] [])\<lparr>conn_stream := Some s'\<rparr>)"
proof -
  let ?ps = "[(1 :: u8, [0, 3, 7, 2, 0, 0, 0 :: u8])]"
  have o: "owes std_crates (script_stream [packets_wire ?ps] 0 []) []" by (simp add: owes_def)
  from exec_sums_the_results [OF script.healthy_net_axioms _ o, of "sample_conn [packets_wire ?ps] []" ?ps "[]"
      "[Inl \<lparr>qr_rows_affected = 3, qr_last_insert_id = 7\<rparr>]" list_lru sample_kit "lit ''update t''"] ok_says
  show ?thesis by auto
qed

text \<open>C5: Stopping early is safe: \<open>fetch_optional\<close> returns the first row of the response, if there is one,
  and the query that follows on the same connection returns exactly its own rows, however much of the
  first response was still outstanding.\<close>

theorem fetch_optional_then_get_rows:
  assumes "healthy_net N pending C sent" and "conn_stream c = Some s" and "owes C s pre"
    and "rbuf (ms_stream s) = []"
    and "pending (stream (ms_stream s)) = packets_wire pre @ packets_wire ps @ packets_wire qs @ rest"
    and "says C (ms_capabilities s) W_Result (text_view (opt_offset_sec (conn_option c))) ps items"
    and "says C (ms_capabilities s) W_Result (text_view (opt_offset_sec (conn_option c))) qs others"
    and "mq_arguments q = []"
  shows "\<exists>s1 s2. fetch_optional C N L K q c = Some (Ok (first_row items), c\<lparr>conn_stream := Some s1\<rparr>) \<and>
    get_rows C N L K sql [] (c\<lparr>conn_stream := Some s1\<rparr>) = Some (Ok (rows_of others), c\<lparr>conn_stream := Some s2\<rparr>) \<and>
    owes C s2 [] \<and> rbuf (ms_stream s2) = [] \<and> pending (stream (ms_stream s2)) = rest"
proof -
  have "inp pending s (packets_wire pre @ packets_wire ps @ packets_wire qs @ rest)"
    using assms(4,5) by (simp add: inp_def)
  from healthy_net.fetch_text [OF assms(1,3) this assms(2,6,8), of L K] obtain s1 ps' where
    s1: "fetch_optional C N L K q c = Some (Ok (first_row items), c\<lparr>conn_stream := Some s1\<rparr>)" "owes C s1 ps'"
      "inp pending s1 (packets_wire ps' @ packets_wire qs @ rest)" "ms_capabilities s1 = ms_capabilities s" by blast
  have "says C (ms_capabilities s1) W_Result (text_view (opt_offset_sec (conn_option (c\<lparr>conn_stream := Some s1\<rparr>)))) qs others"
    using assms(7) s1(4) by simp
  from healthy_net.get_rows_text [OF assms(1) s1(2,3) _ this, of L K sql] s1(1) show ?thesis by (auto simp: inp_def)
qed

theorem fetch_optional_then_get_rows_witness:
  "\<exists>s1 s2. fetch_optional std_crates script_net list_lru sample_kit
      \<lparr>mq_statement = Inl (lit ''select a''), mq_arguments = [], mq_persistent = False\<rparr>
      (sample_conn [packets_wire sample_set @ packets_wire sample_set] []) =
      Some (Ok (Some sample_row), (sample_conn [packets_wire sample_set @ packets_wire sample_set] [])\<lparr>conn_stream := Some s1\<rparr>) \<and>
    get_rows std_crates script_net list_lru sample_kit (lit ''select a'') []
      ((sample_conn [packets_wire sample_set @ packets_wire sample_set] [])\<lparr>conn_stream := Some s1\<rparr>) =
      Some (Ok [sample_row], (sample_conn [packets_wire sample_set @ packets_wire sample_set] [])\<lparr>conn_stream := Some s2\<rparr>)"
proof -
  let ?c = "sample_conn [packets_wire sample_set @ packets_wire sample_set] []"
  have o: "owes std_crates (script_stream [packets_wire sample_set @ packets_wire sample_set] 0 []) []"
    by (simp add: owes_def)
  from fetch_optional_then_get_rows [OF script.healthy_net_axioms _ o, of ?c sample_set sample_set "[]"
      "[Inr sample_row, Inl \<lparr>qr_rows_affected = 0, qr_last_insert_id = 0\<rparr>]"
      "[Inr sample_row, Inl \<lparr>qr_rows_affected = 0, qr_last_insert_id = 0\<rparr>]"
      "\<lparr>mq_statement = Inl (lit ''select a''), mq_arguments = [], mq_persistent = False\<rparr>"
      list_lru sample_kit "lit ''select a''"] sample_set_says
  show ?thesis by (simp del: packets_wire_simps(2)) blast
qed

text \<open>The summary of a response is delivered before the response is taken off the list of outstanding
  ones: a stream dropped after the only item of an OK response leaves the connection waiting for a
  response the server has already sent, and the next command waits for bytes nobody will send; on a
  connection that has ended it fails.\<close>

theorem dropped_after_summary_waits:
  assumes "healthy_net N pending C sent" and "conn_stream c = Some s" and "owes C s pre" and "rbuf (ms_stream s) = []"
    and "pending (stream (ms_stream s)) = packets_wire pre @ concat (frames sid p)" and "mq_arguments q = []"
    and "p \<noteq> []" and "hd p = 0" and "ok_packet_decode C p = Ok k" and "\<not> more_results (ok_status k)"
  shows "\<exists>i g s'. fetch_many_next C N L K (M_Init q) c = Some (Ok (Some i, g), c\<lparr>conn_stream := Some s'\<rparr>) \<and>
    pending (stream (ms_stream s')) = [] \<and> ms_waiting s' = [W_Result] \<and>
    (\<exists>s''. wait_until_ready C N s' = Some (Err ConnectionAborted, s''))"
proof -
  let ?i = "Inl \<lparr>qr_rows_affected = affected_rows k, qr_last_insert_id = last_insert_id k\<rparr> :: item"
  let ?v = "text_view (opt_offset_sec (conn_option c))"
  have i: "inp pending s (packets_wire pre @ concat (frames sid p))" using assms(4,5) by (simp add: inp_def)
  from healthy_net.run_open_inp [OF assms(1,3) i assms(2)] obtain s1 where
    s1: "run_open C N c = Some (Ok (), c\<lparr>conn_stream := Some s1\<rparr>)" "inp pending s1 (concat (frames sid p) @ [])"
      "ms_waiting s1 = [W_Result]" "wbuf (ms_stream s1) = []" by auto
  let ?c1 = "c\<lparr>conn_stream := Some s1\<rparr>"
  from healthy_net.text_start_inp [OF assms(1) s1(2), of ?c1 L "query_sql q" "mq_persistent q"] s1(3,4) obtain s2 where
    s2: "run_start C N L (query_sql q) (mq_persistent q) None ?c1 = Some (Ok ?v, c\<lparr>conn_stream := Some s2\<rparr>)"
      "inp pending s2 (concat (frames sid p) @ [])" "ms_waiting s2 = [W_Result]" "wbuf (ms_stream s2) = []" by auto
  from healthy_net.run_response_ok_inp [OF assms(1) s2(2) assms(7-9), of ?v] obtain s3 where
    s3: "run_response C N ?v s2 = Some (Ok (Some ?i, P_OkYielded (more_results (ok_status k)), ?v), s3)"
      "inp pending s3 []" "rest_of sent s3 = rest_of sent s2" "ms_waiting s3 = [W_Result]" using s2(3) by auto
  have "take_arguments K q = Ok None" using assms(6) by (simp add: take_arguments_def)
  then have "fetch_many_next C N L K (M_Init q) c = Some (Ok (Some ?i, M_Run (query_sql q) (mq_persistent q)
      (P_OkYielded (more_results (ok_status k)), ?v)), c\<lparr>conn_stream := Some s3\<rparr>)"
    using s1(1) s2(1) s3(1) by (simp add: fetch_many_next_def run_next_def on_stream_def abind_def athen_def alift_def aret_def)
  moreover have "wbuf (ms_stream s3) = []" using s2(4) s3(3) by (simp add: rest_of_def)
  ultimately show ?thesis
    using healthy_net.wait_for_nothing [OF assms(1) s3(2,4)] s3(2,4) by (auto simp: inp_def)
qed

theorem dropped_after_summary_waits_witness:
  "\<exists>i g s'. fetch_many_next std_crates script_net list_lru sample_kit
      (M_Init \<lparr>mq_statement = Inl (lit ''update t''), mq_arguments = [], mq_persistent = False\<rparr>)
      (sample_conn [concat (frames 1 [0, 3, 7, 2, 0, 0, 0])] []) =
      Some (Ok (Some i, g), (sample_conn [concat (frames 1 [0, 3, 7, 2, 0, 0, 0])] [])\<lparr>conn_stream := Some s'\<rparr>) \<and>
    ms_waiting s' = [W_Result] \<and> (\<exists>s''. wait_until_ready std_crates script_net s' = Some (Err ConnectionAborted, s''))"
proof -
  let ?c = "sample_conn [concat (frames 1 [0, 3, 7, 2, 0, 0, 0])] []"
  have k: "ok_packet_decode std_crates [0, 3, 7, 2, 0, 0, 0] =
      Ok \<lparr>affected_rows = 3, last_insert_id = 7, ok_status = 2, ok_warnings = 0\<rparr>" by code_simp
  have o: "owes std_crates (script_stream [concat (frames 1 [0, 3, 7, 2, 0, 0, 0])] 0 []) []" by (simp add: owes_def)
  from dropped_after_summary_waits [OF script.healthy_net_axioms _ o _ _ _ _ _ k, of ?c 1
      "\<lparr>mq_statement = Inl (lit ''update t''), mq_arguments = [], mq_persistent = False\<rparr>" list_lru sample_kit]
  show ?thesis by (auto simp: more_results_def SERVER_MORE_RESULTS_EXISTS_def)
qed

end
