(* ===== verification/Mysql_Prepared.thy ===== *)
theory Mysql_Prepared
  imports Mysql_Exec
begin

text \<open>
  Prepared statements and the cache of a connection at work: the locale \<open>prepared\<close> joins the laws
  of a working network and of the \<open>lru\<close> crate, and its lemmas follow \<open>get_or_prepare\<close>, \<open>prepare_with\<close>,
  \<open>get_rows\<close> with parameters, \<open>clear_cached_statements\<close> and \<open>ping\<close> through both.
\<close>

section \<open>What the server answers to a prepare command\<close>

definition section_end :: "crates \<Rightarrow> u64 \<Rightarrow> nat \<Rightarrow> (u8 \<times> bytes) list \<Rightarrow> bool" where
  "section_end C caps n eofs = (if 0 < n then end_of_metadata C caps eofs else eofs = [])"

definition definition_packets :: "crates \<Rightarrow> (u8 \<times> bytes) list \<Rightarrow> bool" where
  "definition_packets C ps = list_all (\<lambda>x. plain_packet (snd x) \<and> (\<exists>d. column_definition_decode C (snd x) = Ok d)) ps"

inductive prepares :: "crates \<Rightarrow> u64 \<Rightarrow> (u8 \<times> bytes) list \<Rightarrow> u32 \<times> statement_metadata \<Rightarrow> bool" for C caps where
  "plain_packet p \<Longrightarrow> prepare_ok_decode C p = Ok r \<Longrightarrow>
   length params = unat (po_params r) \<Longrightarrow> definition_packets C params \<Longrightarrow> section_end C caps (length params) e1 \<Longrightarrow>
   length cols = unat (po_columns r) \<Longrightarrow> column_packets C cols columns \<Longrightarrow> section_end C caps (length cols) e2 \<Longrightarrow>
   prepares C caps ((sid, p) # params @ e1 @ cols @ e2)
     (po_statement_id r, \<lparr>sm_columns = columns, sm_column_names = names_of columns, sm_parameters = length params\<rparr>)"

definition close_command :: "(u32 \<times> statement_metadata) option \<Rightarrow> bytes" where
  "close_command e = (case e of None \<Rightarrow> [] | Some st \<Rightarrow> concat (frames 0 (0x19 # to_le (fst st))))"

section \<open>Prepared statements on a working network\<close>

locale prepared = healthy_net N pending C sent + lru_laws L recency ok
  for N :: "'s net" and pending :: "'s \<Rightarrow> bytes" and C :: crates and sent :: "'s \<Rightarrow> bytes"
    and L :: "('c, u32 \<times> statement_metadata) lru_ops" and recency :: "'c \<Rightarrow> (u32 \<times> statement_metadata) recency"
    and ok :: "'c \<Rightarrow> bool"
begin

lemma recv_definitions_inp:
  assumes "inp pending s (packets_wire ps @ w)" and "definition_packets C ps"
  shows "\<exists>ds s'. arepeat (length ps) (\<lambda>_. recv C N (\<lambda>_. column_definition_decode C)) i s = Some (Ok ds, s') \<and>
    inp pending s' w \<and> rest_of sent s' = rest_of sent s \<and> ms_waiting s' = ms_waiting s"
  using assms
proof (induction ps arbitrary: s i)
  case Nil
  then show ?case by (simp add: aop_run)
next
  case (Cons x ps)
  from Cons.prems obtain d where d: "plain_packet (snd x)" "column_definition_decode C (snd x) = Ok d" "definition_packets C ps"
    by (auto simp: definition_packets_def)
  from Cons.prems(1) have "inp pending s (concat (frames (fst x) (snd x)) @ packets_wire ps @ w)" by simp
  from recv_packet_inp [OF this] d(1) obtain s1 where
    s1: "recv_packet C N s = Some (Ok (snd x), s1)" "inp pending s1 (packets_wire ps @ w)" "rest_of sent s1 = rest_of sent s"
      "ms_waiting s1 = ms_waiting s" by (auto simp: plain_packet_def)
  then have "recv C N (\<lambda>_. column_definition_decode C) s = Some (Ok d, s1)"
    using d(2) by (simp add: recv_def abind_Ok aop_run)
  moreover from Cons.IH [OF s1(2) d(3), of "Suc i"] obtain ds s2 where
    "arepeat (length ps) (\<lambda>_. recv C N (\<lambda>_. column_definition_decode C)) (Suc i) s1 = Some (Ok ds, s2)"
    "inp pending s2 w" "rest_of sent s2 = rest_of sent s1" "ms_waiting s2 = ms_waiting s1" by auto
  ultimately show ?case using s1 by (simp add: abind_Ok aop_run)
qed

text \<open>Skipping the parameter definitions.\<close>

lemma skip_params_inp:
  assumes "inp pending s (packets_wire params @ packets_wire e1 @ w)" and "definition_packets C params"
    and "section_end C (ms_capabilities s) (length params) e1" and "length params = unat n" and "conn_stream c = Some s"
  shows "\<exists>s'. (if n > 0 then on_stream (abind (arepeat (unat n) (\<lambda>_. recv C N (\<lambda>_. column_definition_decode C)) 0)
        (\<lambda>_. abind (maybe_recv_eof C N) (\<lambda>_. aret ()))) else aret ()) c = Some (Ok (), c\<lparr>conn_stream := Some s'\<rparr>) \<and>
    inp pending s' w \<and> rest_of sent s' = rest_of sent s \<and> ms_waiting s' = ms_waiting s"
proof (cases "n > 0")
  case True
  then have l: "0 < length params" using assms(4) by (simp add: word_less_nat_alt)
  from recv_definitions_inp [OF assms(1,2), of 0] obtain ds s1 where
    s1: "arepeat (length params) (\<lambda>_. recv C N (\<lambda>_. column_definition_decode C)) 0 s = Some (Ok ds, s1)"
      "inp pending s1 (packets_wire e1 @ w)" "rest_of sent s1 = rest_of sent s" "ms_waiting s1 = ms_waiting s" by auto
  from maybe_recv_eof_inp [of s1 e1 w] s1(2) rest_caps [OF s1(3)] assms(3) l obtain e s2 where
    s2: "maybe_recv_eof C N s1 = Some (Ok e, s2)" "inp pending s2 w" "rest_of sent s2 = rest_of sent s1"
      "ms_waiting s2 = ms_waiting s1" by (auto simp: section_end_def)
  have "abind (arepeat (unat n) (\<lambda>_. recv C N (\<lambda>_. column_definition_decode C)) 0)
        (\<lambda>_. abind (maybe_recv_eof C N) (\<lambda>_. aret ())) s = Some (Ok (), s2)"
    using s1(1) s2(1) assms(4) by (simp add: abind_Ok aop_run)
  with True s1 s2 assms(5) show ?thesis
    by (intro exI [of _ s2]) (simp add: on_stream_def)
next
  case False
  then have "params = []" "e1 = []" using assms(3,4) by (simp_all add: section_end_def word_less_nat_alt)
  with False assms(1,5) show ?thesis
    by (intro exI [of _ s]) (simp add: aop_run)
qed

lemma result_columns_inp:
  assumes "inp pending s (packets_wire cols @ packets_wire e2 @ w)" and "column_packets C cols columns"
    and "section_end C (ms_capabilities s) (length cols) e2" and "length cols = unat n" and "conn_stream c = Some s"
  shows "\<exists>s'. (if n > 0 then on_stream (recv_result_metadata C N (unat n)) else aret ([], [])) c =
      Some (Ok (names_of columns, columns), c\<lparr>conn_stream := Some s'\<rparr>) \<and>
    inp pending s' w \<and> rest_of sent s' = rest_of sent s \<and> ms_waiting s' = ms_waiting s"
proof (cases "n > 0")
  case True
  then have l: "0 < length cols" using assms(4) by (simp add: word_less_nat_alt)
  from recv_metadata_inp(1) [OF assms(2), of s e2 w] assms(1,3) l obtain s1 where
    "recv_result_metadata C N (length cols) s = Some (Ok (names_of columns, columns), s1)" "inp pending s1 w"
      "rest_of sent s1 = rest_of sent s" "ms_waiting s1 = ms_waiting s" by (auto simp: section_end_def)
  with True assms(4,5) show ?thesis
    by (intro exI [of _ s1]) (simp add: on_stream_def)
next
  case False
  then have "cols = []" "e2 = []" "columns = []"
    using assms(2,3,4) by (auto simp: section_end_def column_packets_def word_less_nat_alt)
  with False assms(1,5) show ?thesis
    by (intro exI [of _ s]) (simp add: aop_run names_of_def)
qed

lemma get_or_prepare_hit:
  assumes "ok (cache_statement c)" and "map_of (recency (cache_statement c)) sql = Some st"
  shows "\<exists>cache. get_or_prepare C N L sql persistent c = Some (Ok st, c\<lparr>cache_statement := cache\<rparr>) \<and> ok cache \<and>
    lru_cap L cache = lru_cap L (cache_statement c) \<and>
    recency cache = (sql, st) # drop_key sql (recency (cache_statement c))"
proof -
  from get_mut_law [OF assms(1), of sql "\<lambda>v. v"] assms(2) show ?thesis
    by (auto simp: get_or_prepare_def cache_get_mut_def spec_get_def)
qed

lemma send_command:
  assumes "conn_stream c = Some s" and "inp pending s w" and "\<And>caps b. payload caps b = b @ p"
  shows "\<exists>s'. on_stream (send_packet N payload) c = Some (Ok (), c\<lparr>conn_stream := Some s'\<rparr>) \<and> inp pending s' w \<and>
    ms_waiting s' = ms_waiting s \<and> ms_capabilities s' = ms_capabilities s \<and> wbuf (ms_stream s') = [] \<and>
    sent (stream (ms_stream s')) = sent (stream (ms_stream s)) @ wbuf (ms_stream s) @ concat (frames 0 p)"
proof -
  from send_packet_inp [of payload s p] assms(3) obtain s' where
    "send_packet N payload s = Some (Ok (), s')" "inp pending s' = inp pending s" "ms_waiting s' = ms_waiting s"
    "ms_capabilities s' = ms_capabilities s" "wbuf (ms_stream s') = []"
    "sent (stream (ms_stream s')) = sent (stream (ms_stream s)) @ wbuf (ms_stream s) @ concat (frames 0 p)" by auto
  with assms(1,2) show ?thesis by (intro exI [of _ s']) (simp add: on_stream_def)
qed

text \<open>Storing the new statement, and closing the one it displaces.\<close>

definition store :: "bytes \<Rightarrow> u32 \<times> statement_metadata \<Rightarrow> (('s, 'c) mysql_conn, u32 \<times> statement_metadata) aop" where
  "store sql st =
     abind (aget cache_statement) (\<lambda>cache.
     if cache_is_enabled L cache then
       (case cache_insert L cache sql st of
          (evicted, cache) \<Rightarrow>
            athen (amodify (\<lambda>c. c\<lparr>cache_statement := cache\<rparr>))
            (case evicted of
               None \<Rightarrow> aret st
             | Some old \<Rightarrow> athen (on_stream (send_packet N (stmt_close_encode (fst old)))) (aret st)))
     else aret st)"

lemma store_inp:
  assumes "conn_stream c = Some s" and "inp pending s w" and "ok (cache_statement c)" and "wbuf (ms_stream s) = []"
  shows "\<exists>s' cache. store sql st c = Some (Ok st, c\<lparr>conn_stream := Some s', cache_statement := cache\<rparr>) \<and> inp pending s' w \<and>
    ms_waiting s' = ms_waiting s \<and> ms_capabilities s' = ms_capabilities s \<and> wbuf (ms_stream s') = [] \<and> ok cache \<and>
    lru_cap L cache = lru_cap L (cache_statement c) \<and>
    recency cache = snd (spec_insert (lru_cap L (cache_statement c)) sql st (recency (cache_statement c))) \<and>
    sent (stream (ms_stream s')) = sent (stream (ms_stream s)) @
      close_command (fst (spec_insert (lru_cap L (cache_statement c)) sql st (recency (cache_statement c))))"
proof -
  let ?sp = "spec_insert (lru_cap L (cache_statement c)) sql st (recency (cache_statement c))"
  have en: "cache_is_enabled L (cache_statement c)"
    using ok_recency [OF assms(3)] by (simp add: cache_defs recency_ok_def)
  from cache_insert_refines [OF assms(3), of sql st] obtain cache where
    ins: "cache_insert L (cache_statement c) sql st = (fst ?sp, cache)" "ok cache"
      "lru_cap L cache = lru_cap L (cache_statement c)" "recency cache = snd ?sp" by blast
  let ?c = "c\<lparr>cache_statement := cache\<rparr>"
  show ?thesis
  proof (cases "fst ?sp")
    case None
    with en ins assms show ?thesis
      by (intro exI [of _ s] exI [of _ cache]) (simp add: store_def abind_Ok aop_run close_command_def)
  next
    case (Some old)
    have enc: "stmt_close_encode (fst old) caps b = b @ 0x19 # to_le (fst old)" for caps b
      by (simp add: stmt_close_encode_def)
    from send_command [of ?c s w "stmt_close_encode (fst old)", OF _ assms(2) enc] assms(1) obtain s' where
      s': "on_stream (send_packet N (stmt_close_encode (fst old))) ?c = Some (Ok (), ?c\<lparr>conn_stream := Some s'\<rparr>)"
        "inp pending s' w" "ms_waiting s' = ms_waiting s" "ms_capabilities s' = ms_capabilities s" "wbuf (ms_stream s') = []"
        "sent (stream (ms_stream s')) = sent (stream (ms_stream s)) @ wbuf (ms_stream s) @
          concat (frames 0 (0x19 # to_le (fst old)))" by auto
    have "store sql st c = Some (Ok st, ?c\<lparr>conn_stream := Some s'\<rparr>)"
      using en ins(1) Some s'(1) by (simp add: store_def abind_Ok [OF aget_run] athen_Ok amodify_def aret_run)
    with s' ins Some assms(4) show ?thesis
      by (intro exI [of _ s'] exI [of _ cache]) (simp add: close_command_def)
  qed
qed

lemma get_or_prepare_miss:
  assumes "conn_stream c = Some s" and "inp pending s (packets_wire ps @ w)" and "ok (cache_statement c)"
    and "map_of (recency (cache_statement c)) sql = None" and "prepares C (ms_capabilities s) ps st"
  shows "\<exists>s' cache. get_or_prepare C N L sql True c = Some (Ok st, c\<lparr>conn_stream := Some s', cache_statement := cache\<rparr>) \<and>
    inp pending s' w \<and> ms_waiting s' = ms_waiting s \<and> ms_capabilities s' = ms_capabilities s \<and> wbuf (ms_stream s') = [] \<and>
    ok cache \<and> lru_cap L cache = lru_cap L (cache_statement c) \<and>
    recency cache = snd (spec_insert (lru_cap L (cache_statement c)) sql st (recency (cache_statement c))) \<and>
    sent (stream (ms_stream s')) = sent (stream (ms_stream s)) @ wbuf (ms_stream s) @ concat (frames 0 (0x16 # sql)) @
      close_command (fst (spec_insert (lru_cap L (cache_statement c)) sql st (recency (cache_statement c))))"
proof -
  from get_mut_law [OF assms(3), of sql "\<lambda>v. v"] assms(4) obtain cache where
    g: "cache_get_mut L (cache_statement c) sql (\<lambda>v. v) = (None, cache)" "ok cache"
      "lru_cap L cache = lru_cap L (cache_statement c)" "recency cache = recency (cache_statement c)"
    by (auto simp: cache_get_mut_def spec_get_def)
  let ?c = "c\<lparr>cache_statement := cache\<rparr>"
  from assms(5) obtain p r params e1 cols columns e2 sid where
    p: "plain_packet p" "prepare_ok_decode C p = Ok r" "length params = unat (po_params r)" "definition_packets C params"
      "section_end C (ms_capabilities s) (length params) e1" "length cols = unat (po_columns r)" "column_packets C cols columns"
      "section_end C (ms_capabilities s) (length cols) e2" "ps = (sid, p) # params @ e1 @ cols @ e2"
      "st = (po_statement_id r, \<lparr>sm_columns = columns, sm_column_names = names_of columns, sm_parameters = length params\<rparr>)"
    by (elim prepares.cases) (rule that; assumption)
  have enc: "prepare_encode sql caps b = b @ 0x16 # sql" for caps b by (simp add: prepare_encode_def)
  from send_command [of ?c s _ "prepare_encode sql", OF _ assms(2) enc] assms(1) obtain s1 where
    s1: "on_stream (send_packet N (prepare_encode sql)) ?c = Some (Ok (), ?c\<lparr>conn_stream := Some s1\<rparr>)"
      "inp pending s1 (packets_wire ps @ w)" "ms_waiting s1 = ms_waiting s" "ms_capabilities s1 = ms_capabilities s"
      "wbuf (ms_stream s1) = []"
      "sent (stream (ms_stream s1)) = sent (stream (ms_stream s)) @ wbuf (ms_stream s) @ concat (frames 0 (0x16 # sql))"
    by auto
  let ?c1 = "?c\<lparr>conn_stream := Some s1\<rparr>"
  have "inp pending s1 (concat (frames sid p) @ packets_wire params @ packets_wire e1 @ packets_wire cols @ packets_wire e2 @ w)"
    using s1(2) p(9) by simp
  from recv_packet_inp [OF this] p(1) obtain s2 where
    s2: "recv_packet C N s1 = Some (Ok p, s2)"
      "inp pending s2 (packets_wire params @ packets_wire e1 @ packets_wire cols @ packets_wire e2 @ w)"
      "rest_of sent s2 = rest_of sent s1" "ms_waiting s2 = ms_waiting s1" by (auto simp: plain_packet_def)
  let ?c2 = "?c\<lparr>conn_stream := Some s2\<rparr>"
  have r2: "on_stream (recv C N (\<lambda>_. prepare_ok_decode C)) ?c1 = Some (Ok r, ?c2)"
    using s2(1) p(2) by (simp add: on_stream_def recv_def abind_Ok aop_run)
  have c2: "ms_capabilities s2 = ms_capabilities s" using rest_caps [OF s2(3)] s1(4) by simp
  from skip_params_inp [OF s2(2) p(4) _ p(3), of ?c2] p(5) c2 obtain s3 where
    s3: "(if po_params r > 0 then on_stream (abind (arepeat (unat (po_params r)) (\<lambda>_. recv C N (\<lambda>_. column_definition_decode C)) 0)
        (\<lambda>_. abind (maybe_recv_eof C N) (\<lambda>_. aret ()))) else aret ()) ?c2 = Some (Ok (), ?c\<lparr>conn_stream := Some s3\<rparr>)"
      "inp pending s3 (packets_wire cols @ packets_wire e2 @ w)" "rest_of sent s3 = rest_of sent s2" "ms_waiting s3 = ms_waiting s2"
    by auto
  let ?c3 = "?c\<lparr>conn_stream := Some s3\<rparr>"
  have c3: "ms_capabilities s3 = ms_capabilities s" using rest_caps [OF s3(3)] c2 by simp
  from result_columns_inp [OF s3(2) p(7) _ p(6), of ?c3] p(8) c3 obtain s4 where
    s4: "(if po_columns r > 0 then on_stream (recv_result_metadata C N (unat (po_columns r))) else aret ([], [])) ?c3 =
        Some (Ok (names_of columns, columns), ?c\<lparr>conn_stream := Some s4\<rparr>)"
      "inp pending s4 w" "rest_of sent s4 = rest_of sent s3" "ms_waiting s4 = ms_waiting s3" by auto
  let ?c4 = "?c\<lparr>conn_stream := Some s4\<rparr>"
  have "get_or_prepare C N L sql True c = store sql st ?c4"
    using g(1) s1(1) r2 s3(1) s4(1) p(3,10)
    by (simp add: get_or_prepare_def store_def athen_Ok abind_Ok Let_def)
  moreover have w4: "wbuf (ms_stream s4) = []"
    using s1(5) s2(3) s3(3) s4(3) by (simp add: rest_of_def)
  from store_inp [of ?c4 s4 w sql st, OF _ s4(2) _ w4] g obtain s5 cache' where
    "store sql st ?c4 = Some (Ok st, ?c\<lparr>conn_stream := Some s5, cache_statement := cache'\<rparr>)" "inp pending s5 w"
    "ms_waiting s5 = ms_waiting s4" "ms_capabilities s5 = ms_capabilities s4" "wbuf (ms_stream s5) = []" "ok cache'"
    "lru_cap L cache' = lru_cap L (cache_statement c)"
    "recency cache' = snd (spec_insert (lru_cap L (cache_statement c)) sql st (recency (cache_statement c)))"
    "sent (stream (ms_stream s5)) = sent (stream (ms_stream s4)) @
      close_command (fst (spec_insert (lru_cap L (cache_statement c)) sql st (recency (cache_statement c))))" by auto
  ultimately show ?thesis
    using s1 s2 s3 s4 c3 by (intro exI [of _ s5] exI [of _ cache']) (simp add: rest_of_def)
qed

text \<open>Executing a statement that is in the cache sends one command.\<close>

lemma execute_start_inp:
  assumes "conn_stream c = Some s" and "inp pending s w" and "ok (cache_statement c)" and "wbuf (ms_stream s) = []"
    and "map_of (recency (cache_statement c)) sql = Some (stid, m)"
  shows "\<exists>s' cache. run_start C N L sql persistent (Some a) c =
      Some (Ok (binary_view (opt_offset_sec (conn_option c)) m), c\<lparr>conn_stream := Some s', cache_statement := cache\<rparr>) \<and>
    inp pending s' w \<and> ms_waiting s' = ms_waiting s \<and> ms_capabilities s' = ms_capabilities s \<and> wbuf (ms_stream s') = [] \<and>
    ok cache \<and> recency cache = (sql, stid, m) # drop_key sql (recency (cache_statement c)) \<and>
    sent (stream (ms_stream s')) = sent (stream (ms_stream s)) @ concat (frames 0 (execute_encode stid a 0 []))"
proof -
  from get_or_prepare_hit [OF assms(3,5), of persistent] obtain cache where
    h: "get_or_prepare C N L sql persistent c = Some (Ok (stid, m), c\<lparr>cache_statement := cache\<rparr>)" "ok cache"
      "recency cache = (sql, stid, m) # drop_key sql (recency (cache_statement c))" by blast
  let ?c = "c\<lparr>cache_statement := cache\<rparr>"
  have enc: "execute_encode stid a caps b = b @ execute_encode stid a 0 []" for caps b
    by (simp add: execute_encode_def)
  from send_command [of ?c s w "execute_encode stid a", OF _ assms(2) enc] assms(1,4) obtain s' where
    s': "on_stream (send_packet N (execute_encode stid a)) ?c = Some (Ok (), ?c\<lparr>conn_stream := Some s'\<rparr>)" "inp pending s' w"
      "ms_waiting s' = ms_waiting s" "ms_capabilities s' = ms_capabilities s" "wbuf (ms_stream s') = []"
      "sent (stream (ms_stream s')) = sent (stream (ms_stream s)) @ concat (frames 0 (execute_encode stid a 0 []))" by auto
  with h show ?thesis
    by (intro exI [of _ s'] exI [of _ cache])
      (simp add: run_start_def abind_Ok [OF aget_run] abind_Ok athen_Ok aop_run binary_view_def)
qed

text \<open>
  A query with parameters on a statement seen for the first time: prepared once, executed once.
\<close>

lemma get_rows_prepared:
  assumes "conn_stream c = Some s" and "owes C s pre" and "ok (cache_statement c)"
    and "map_of (recency (cache_statement c)) sql = None" and "prepares C (ms_capabilities s) qs (stid, m)"
    and "says C (ms_capabilities s) W_Result (binary_view (opt_offset_sec (conn_option c)) m) ps items"
    and "inp pending s (packets_wire pre @ packets_wire qs @ packets_wire ps @ rest)"
    and "params \<noteq> []" and "arguments_from_args K params = Ok a"
  shows "\<exists>s' cache. get_rows C N L K sql params c =
      Some (Ok (rows_of items), c\<lparr>conn_stream := Some s', cache_statement := cache\<rparr>) \<and>
    owes C s' [] \<and> inp pending s' rest \<and> ok cache \<and>
    recency cache = snd (spec_insert (lru_cap L (cache_statement c)) sql (stid, m) (recency (cache_statement c))) \<and>
    sent (stream (ms_stream s')) = sent (stream (ms_stream s)) @ wbuf (ms_stream s) @ concat (frames 0 (0x16 # sql)) @
      close_command (fst (spec_insert (lru_cap L (cache_statement c)) sql (stid, m) (recency (cache_statement c)))) @
      concat (frames 0 (execute_encode stid a 0 []))"
proof -
  let ?sp = "spec_insert (lru_cap L (cache_statement c)) sql (stid, m) (recency (cache_statement c))"
  from wait_owes [OF assms(2), of "packets_wire qs @ packets_wire ps @ rest"] assms(7) obtain s1 where
    s1: "wait_until_ready C N s = Some (Ok (), s1)" "inp pending s1 (packets_wire qs @ packets_wire ps @ rest)"
      "ms_waiting s1 = []" "wbuf (ms_stream s1) = []"
      "sent (stream (ms_stream s1)) = sent (stream (ms_stream s)) @ wbuf (ms_stream s)"
      "ms_capabilities s1 = ms_capabilities s" by auto
  let ?c1 = "c\<lparr>conn_stream := Some s1\<rparr>"
  have c1: "on_stream (wait_until_ready C N) c = Some (Ok (), ?c1)" using assms(1) s1(1) by (simp add: on_stream_def)
  from get_or_prepare_miss [of ?c1 s1 qs "packets_wire ps @ rest" sql "(stid, m)"] s1 assms(3-5) obtain s2 cache2 where
    s2: "get_or_prepare C N L sql True ?c1 = Some (Ok (stid, m), c\<lparr>conn_stream := Some s2, cache_statement := cache2\<rparr>)"
      "inp pending s2 (packets_wire ps @ rest)" "ms_waiting s2 = []" "ms_capabilities s2 = ms_capabilities s"
      "wbuf (ms_stream s2) = []" "ok cache2" "recency cache2 = snd ?sp"
      "sent (stream (ms_stream s2)) = sent (stream (ms_stream s1)) @ concat (frames 0 (0x16 # sql)) @ close_command (fst ?sp)"
    by auto
  let ?c2 = "c\<lparr>conn_stream := Some s2, cache_statement := cache2\<rparr>"
  let ?q = "\<lparr>mq_statement = Inr \<lparr>st_sql = sql, st_metadata = m\<rparr>, mq_arguments = params, mq_persistent = True\<rparr>"
  have c2: "open_query C N L sql params c = Some (Ok (M_Init ?q), ?c2)"
    using assms(8) c1 s2(1) by (simp add: open_query_def prepare_with_def athen_Ok abind_Ok aop_run)
  have o2: "owes C s2 []" using s2(3) by (simp add: owes_def)
  from run_open_inp [OF o2, of "packets_wire ps @ rest" ?c2] s2(2,5) obtain s3 where
    s3: "run_open C N ?c2 = Some (Ok (), ?c2\<lparr>conn_stream := Some s3\<rparr>)" "inp pending s3 (packets_wire ps @ rest)"
      "ms_waiting s3 = [W_Result]" "wbuf (ms_stream s3) = []" "sent (stream (ms_stream s3)) = sent (stream (ms_stream s2))"
      "ms_capabilities s3 = ms_capabilities s2" by auto
  let ?c3 = "?c2\<lparr>conn_stream := Some s3\<rparr>"
  have found: "map_of (recency cache2) sql = Some (stid, m)"
    using inserted_is_found [OF ok_recency [OF assms(3)], of sql "(stid, m)"] s2(7) by simp
  from execute_start_inp [of ?c3 s3 _ sql stid m True a, OF _ s3(2) _ s3(4)] found s2(6) obtain s4 cache4 where
    s4: "run_start C N L sql True (Some a) ?c3 =
        Some (Ok (binary_view (opt_offset_sec (conn_option c)) m), c\<lparr>conn_stream := Some s4, cache_statement := cache4\<rparr>)"
      "inp pending s4 (packets_wire ps @ rest)" "ms_waiting s4 = [W_Result]" "ms_capabilities s4 = ms_capabilities s3"
      "ok cache4" "recency cache4 = (sql, stid, m) # drop_key sql (recency cache2)"
      "sent (stream (ms_stream s4)) = sent (stream (ms_stream s3)) @ concat (frames 0 (execute_encode stid a 0 []))"
    using s3(3) by auto
  let ?c4 = "c\<lparr>conn_stream := Some s4, cache_statement := cache4\<rparr>"
  have args: "take_arguments K ?q = Ok (Some a)" using assms(8,9) by (simp add: take_arguments_def)
  have rs: "run_start C N L (query_sql ?q) (mq_persistent ?q) (Some a) ?c3 =
      Some (Ok (binary_view (opt_offset_sec (conn_option c)) m), ?c4)" using s4(1) by (simp add: query_sql_def)
  have says4: "says C (ms_capabilities s4) W_Result (binary_view (opt_offset_sec (conn_option c)) m) ps items"
    using assms(6) s4(4) s3(6) s2(4) by simp
  from first_poll [OF args s3(1) rs _ says4 s4(2,3)] obtain i its st s5 where
    s5: "items = i # its" "fetch_many_next C N L K (M_Init ?q) ?c2 =
        Some (Ok (Some i, M_Run (query_sql ?q) (mq_persistent ?q) st), ?c4\<lparr>conn_stream := Some s5\<rparr>)"
      "reads_on rest (ms_capabilities s5) st s5 its (\<not> isl i)" "rest_of sent s5 = rest_of sent s4" by auto
  from collect_from [OF s5(2) _ s5(3), of push_row "[]"] s5(1) obtain s6 where
    s6: "try_collect (fetch_many_next C N L K) push_row [] (M_Init ?q) ?c2 =
        Some (Ok (fold push_row items []), ?c4\<lparr>conn_stream := Some s6\<rparr>)"
      "owes C s6 []" "inp pending s6 rest" "rest_of sent s6 = rest_of sent s5" by auto
  have rec: "recency cache4 = snd ?sp"
    using s4(6) s2(7) insert_absent_front [OF assms(4), of "(stid, m)" "lru_cap L (cache_statement c)"] by simp
  have "get_rows C N L K sql params c = Some (Ok (rows_of items), ?c4\<lparr>conn_stream := Some s6\<rparr>)"
    using c2 s6(1) by (simp add: get_rows_def abind_Ok fold_push_row)
  with rec s1 s2 s3 s4 s5 s6 show ?thesis
    by (intro exI [of _ s6] exI [of _ cache4]) (simp add: rest_of_def)
qed

text \<open>Clearing the cache closes every statement, the least recently used first.\<close>

lemma clear_inp:
  assumes "conn_stream c = Some s" and "ok (cache_statement c)" and "wbuf (ms_stream s) = []" and "inp pending s w"
  shows "\<exists>s' cache. clear_cached_statements N L c = Some (Ok (), c\<lparr>conn_stream := Some s', cache_statement := cache\<rparr>) \<and>
    ok cache \<and> recency cache = [] \<and> inp pending s' w \<and> ms_waiting s' = ms_waiting s \<and>
    sent (stream (ms_stream s')) = sent (stream (ms_stream s)) @
      concat (map (\<lambda>e. close_command (Some (snd e))) (rev (recency (cache_statement c))))"
  using assms
proof (induction "recency (cache_statement c)" arbitrary: c s rule: rev_induct)
  case Nil
  from pop_lru_law [OF Nil.prems(2)] Nil.hyps obtain cache where
    "cache_remove_lru L (cache_statement c) = (None, cache)" "ok cache" "recency cache = []"
    by (auto simp: cache_remove_lru_def)
  with Nil.prems Nil.hyps show ?case
    by (subst clear_cached_statements.simps) (auto simp: abind_def aop_run intro!: exI [of _ s] exI [of _ cache])
next
  case (snoc e es)
  have r: "recency (cache_statement c) = es @ [e]" using snoc.hyps(2) by simp
  from pop_lru_law [OF snoc.prems(2)] obtain cache where
    rm: "cache_remove_lru L (cache_statement c) = (Some (snd e), cache)" "ok cache" "recency cache = es"
    by (auto simp: cache_remove_lru_def r)
  let ?c = "c\<lparr>cache_statement := cache\<rparr>"
  have enc: "stmt_close_encode (fst (snd e)) caps b = b @ 0x19 # to_le (fst (snd e))" for caps b
    by (simp add: stmt_close_encode_def)
  from send_command [of ?c s w "stmt_close_encode (fst (snd e))", OF _ snoc.prems(4) enc] snoc.prems(1,3) obtain s1 where
    s1: "on_stream (send_packet N (stmt_close_encode (fst (snd e)))) ?c = Some (Ok (), ?c\<lparr>conn_stream := Some s1\<rparr>)"
      "inp pending s1 w" "ms_waiting s1 = ms_waiting s" "wbuf (ms_stream s1) = []"
      "sent (stream (ms_stream s1)) = sent (stream (ms_stream s)) @ close_command (Some (snd e))"
    by (auto simp: close_command_def)
  have "clear_cached_statements N L c = clear_cached_statements N L (?c\<lparr>conn_stream := Some s1\<rparr>)"
    using rm(1) s1(1) by (subst clear_cached_statements.simps) (simp add: abind_def athen_def)
  moreover from snoc.hyps(1) [of "?c\<lparr>conn_stream := Some s1\<rparr>" s1] rm s1 obtain s' cache' where
    "clear_cached_statements N L (?c\<lparr>conn_stream := Some s1\<rparr>) = Some (Ok (), c\<lparr>conn_stream := Some s', cache_statement := cache'\<rparr>)"
    "ok cache'" "recency cache' = []" "inp pending s' w" "ms_waiting s' = ms_waiting s1"
    "sent (stream (ms_stream s')) = sent (stream (ms_stream s1)) @ concat (map (\<lambda>e. close_command (Some (snd e))) (rev es))"
    by auto
  ultimately show ?case
    using s1 by (intro exI [of _ s'] exI [of _ cache']) (simp add: r)
qed

end

interpretation script_lists: prepared script_net script_pending std_crates script_out list_lru lru_entries lru_list_ok
  by unfold_locales

section \<open>A sample conversation\<close>

definition sample_meta :: statement_metadata where
  "sample_meta = \<lparr>sm_columns = [sample_col], sm_column_names = names_of [sample_col], sm_parameters = 1\<rparr>"

definition sample_prepare :: "(u8 \<times> bytes) list" where
  "sample_prepare = [(1, [0, 9, 0, 0, 0, 1, 0, 1, 0, 0, 0, 0]), (2, sample_def), (3, [0xfe, 0, 0, 2, 0]),
     (4, sample_def), (5, [0xfe, 0, 0, 2, 0])]"

definition sample_binary_set :: "(u8 \<times> bytes) list" where
  "sample_binary_set = [(1, [1]), (2, sample_def), (3, [0xfe, 0, 0, 2, 0]), (4, [0, 0, 1, 65]), (5, [0xfe, 0, 0, 2, 0])]"

lemma sample_decodes:
  "rbind (column_definition_decode std_crates sample_def) (\<lambda>d. recv_next_result_column d 0) = Ok sample_col"
  by code_simp

lemma sample_columns: "column_packets std_crates [(i, sample_def)] [sample_col]"
  using sample_decodes by (simp add: column_packets_def plain_packet_def sample_def_def)

lemma sample_end: "end_of_metadata std_crates 0 [(i, [0xfe, 0, 0, 2, 0])]"
proof -
  have "eof_packet_decode std_crates [0xfe, 0, 0, 2, 0] = Ok \<lparr>eof_warnings = 0, eof_status = 2\<rparr>" by code_simp
  then show ?thesis by (simp add: end_of_metadata_def plain_packet_def DEPRECATE_EOF_def)
qed

lemma sample_prepares: "prepares std_crates 0 sample_prepare (9, sample_meta)"
proof -
  let ?r = "\<lparr>po_statement_id = 9, po_columns = 1, po_params = 1, po_warnings = 0\<rparr>"
  have r: "prepare_ok_decode std_crates [0, 9, 0, 0, 0, 1, 0, 1, 0, 0, 0, 0] = Ok ?r" by code_simp
  have d: "definition_packets std_crates [(2, sample_def)]"
    using sample_decodes
    by (cases "column_definition_decode std_crates sample_def")
      (simp_all add: plain_packet_def definition_packets_def sample_def_def)
  have "prepares std_crates 0
      ((1, [0, 9, 0, 0, 0, 1, 0, 1, 0, 0, 0, 0]) # [(2, sample_def)] @ [(3, [0xfe, 0, 0, 2, 0])] @ [(4, sample_def)] @ [(5, [0xfe, 0, 0, 2, 0])])
      (po_statement_id ?r, \<lparr>sm_columns = [sample_col], sm_column_names = names_of [sample_col],
        sm_parameters = length [(2 :: u8, sample_def)]\<rparr>)"
    by (rule prepares.intros [OF _ r _ d _ _ sample_columns])
      (simp_all add: plain_packet_def section_end_def sample_end)
  then show ?thesis by (simp add: sample_prepare_def sample_meta_def)
qed

lemma sample_binary_says:
  "\<exists>r. says std_crates 0 W_Result (binary_view 0 sample_meta) sample_binary_set
    [Inr r, Inl \<lparr>qr_rows_affected = 0, qr_last_insert_id = 0\<rparr>] \<and> row_get (mr_row r) 0 = Ok (Some [65])"
proof -
  have e: "packet_eof std_crates 0 [0xfe, 0, 0, 2, 0] = Ok \<lparr>eof_warnings = 0, eof_status = 2\<rparr>" by code_simp
  have n: "get_uint_lenenc std_crates [1] = Ok (1, [])" by code_simp
  let ?v = "with_columns (binary_view 0 sample_meta) [sample_col]"
  let ?x = "\<lparr>row_storage = [Some [65]], row_values = [Some (2, 3)]\<rparr>"
  have r: "binary_row_decode std_crates [0, 0, 1, 65] [sample_col] = Ok ?x" by code_simp
  have v: "rv_format ?v = Binary" "rv_columns ?v = [sample_col]" "mr_row (row_of ?v ?x) = ?x"
    by (simp_all add: with_columns_def binary_view_def row_of_def)
  have "says std_crates 0 W_Row ?v [(5, [0xfe, 0, 0, 2, 0])] [Inl \<lparr>qr_rows_affected = 0, qr_last_insert_id = 0\<rparr>]"
    by (rule says.last_row [OF _ e]) (simp_all add: is_terminator_def more_results_def SERVER_MORE_RESULTS_EXISTS_def)
  then have "says std_crates 0 W_Row ?v [(4, [0, 0, 1, 65]), (5, [0xfe, 0, 0, 2, 0])]
      [Inr (row_of ?v ?x), Inl \<lparr>qr_rows_affected = 0, qr_last_insert_id = 0\<rparr>]"
    using r v by (intro says.row) (simp_all add: plain_packet_def is_terminator_def row_decode_def)
  then have "says std_crates 0 W_Result (binary_view 0 sample_meta)
      ((1, [1]) # [(2, sample_def)] @ [(3, [0xfe, 0, 0, 2, 0])] @ [(4, [0, 0, 1, 65]), (5, [0xfe, 0, 0, 2, 0])])
      [Inr (row_of ?v ?x), Inl \<lparr>qr_rows_affected = 0, qr_last_insert_id = 0\<rparr>]"
    by (intro says.metadata [OF _ _ n _ _ sample_columns sample_end]) (simp_all add: plain_packet_def)
  moreover have "row_get ?x 0 = Ok (Some [65])" by code_simp
  ultimately show ?thesis using v by (auto simp: sample_binary_set_def)
qed

section \<open>Properties\<close>

text \<open>C2: A query with parameters whose text is not in the cache is prepared exactly once and executed
  exactly once: the bytes sent are the prepare command, the close command of the statement that had to
  leave the cache, if one had to, and the execute command with the encoded arguments; the rows returned are those of the
  response, and the cache afterwards is the one its LRU contract prescribes.\<close>

theorem parameterised_query_prepares_once:
  assumes "prepared N pending C sent L recency ok" and "conn_stream c = Some s" and "owes C s pre"
    and "ok (cache_statement c)" and "map_of (recency (cache_statement c)) sql = None"
    and "prepares C (ms_capabilities s) qs (stid, m)"
    and "says C (ms_capabilities s) W_Result (binary_view (opt_offset_sec (conn_option c)) m) ps items"
    and "rbuf (ms_stream s) = []"
    and "pending (stream (ms_stream s)) = packets_wire pre @ packets_wire qs @ packets_wire ps @ rest"
    and "params \<noteq> []" and "arguments_from_args K params = Ok a"
  shows "\<exists>s' cache. get_rows C N L K sql params c =
      Some (Ok (rows_of items), c\<lparr>conn_stream := Some s', cache_statement := cache\<rparr>) \<and>
    owes C s' [] \<and> rbuf (ms_stream s') = [] \<and> pending (stream (ms_stream s')) = rest \<and>
    recency cache = snd (spec_insert (lru_cap L (cache_statement c)) sql (stid, m) (recency (cache_statement c))) \<and>
    sent (stream (ms_stream s')) = sent (stream (ms_stream s)) @ wbuf (ms_stream s) @ concat (frames 0 (0x16 # sql)) @
      close_command (fst (spec_insert (lru_cap L (cache_statement c)) sql (stid, m) (recency (cache_statement c)))) @
      concat (frames 0 (execute_encode stid a 0 []))"
proof -
  have "inp pending s (packets_wire pre @ packets_wire qs @ packets_wire ps @ rest)" using assms(8,9) by (simp add: inp_def)
  from prepared.get_rows_prepared [OF assms(1-7) this assms(10,11)] show ?thesis by (auto simp: inp_def)
qed

theorem parameterised_query_prepares_once_witness:
  "\<exists>r s' cache a. get_rows std_crates script_net list_lru sample_kit (lit ''select ?'') [V_I32 5]
      (sample_conn [packets_wire sample_prepare @ packets_wire sample_binary_set] []) =
      Some (Ok [r], (sample_conn [packets_wire sample_prepare @ packets_wire sample_binary_set] [])
        \<lparr>conn_stream := Some s', cache_statement := cache\<rparr>) \<and>
    row_get (mr_row r) 0 = Ok (Some [65]) \<and> arguments_from_args sample_kit [V_I32 5] = Ok a \<and>
    script_out (stream (ms_stream s')) = concat (frames 0 (0x16 # lit ''select ?'')) @ concat (frames 0 (execute_encode 9 a 0 []))"
proof -
  let ?w = "packets_wire sample_prepare @ packets_wire sample_binary_set"
  let ?c = "sample_conn [?w] []"
  from sample_binary_says obtain r where r: "says std_crates 0 W_Result (binary_view 0 sample_meta) sample_binary_set
      [Inr r, Inl \<lparr>qr_rows_affected = 0, qr_last_insert_id = 0\<rparr>]" "row_get (mr_row r) 0 = Ok (Some [65])" by blast
  have "\<exists>a. arguments_from_args sample_kit [V_I32 5] = Ok a"
    by (simp add: arguments_from_args_def arguments_add_def Let_def arguments_default_def type_info_from_type_def)
  then obtain a where a: "arguments_from_args sample_kit [V_I32 5] = Ok a" by blast
  have o: "owes std_crates (script_stream [?w] 0 []) []" by (simp add: owes_def)
  have c: "lru_list_ok (cache_statement ?c)" "lru_entries (cache_statement ?c) = []" "lru_cap list_lru (cache_statement ?c) = 100"
    by (simp_all add: sample_conn_def list_lru_def lru_list_ok_def recency_ok_def)
  have i: "fst (spec_insert 100 (lit ''select ?'') (9 :: u32, sample_meta) []) = None" by (simp add: spec_insert_def)
  from parameterised_query_prepares_once [OF script_lists.prepared_axioms _ o c(1), of "lit ''select ?''"
      sample_prepare 9 sample_meta sample_binary_set "[Inr r, Inl \<lparr>qr_rows_affected = 0, qr_last_insert_id = 0\<rparr>]" "[]"
      "[V_I32 5]" sample_kit a] r a c(2) sample_prepares
  obtain s' cache where
    "get_rows std_crates script_net list_lru sample_kit (lit ''select ?'') [V_I32 5] ?c =
      Some (Ok [r], ?c\<lparr>conn_stream := Some s', cache_statement := cache\<rparr>)"
    "script_out (stream (ms_stream s')) = concat (frames 0 (0x16 # lit ''select ?'')) @
      close_command (fst (spec_insert 100 (lit ''select ?'') (9, sample_meta) [])) @
      concat (frames 0 (execute_encode 9 a 0 []))"
    by (auto simp: c simp del: lit_Cons packets_wire_simps(2))
  with r a i show ?thesis
    by (intro exI [of _ r] exI [of _ s'] exI [of _ cache] exI [of _ a]) (simp add: close_command_def del: lit_Cons)
qed

text \<open>Clearing the statement cache terminates, empties it, and tells the server to close every
  statement it held, each exactly once and the least recently used first.\<close>

theorem clear_closes_every_statement:
  assumes "prepared N pending C sent L recency ok" and "conn_stream c = Some s" and "ok (cache_statement c)"
    and "wbuf (ms_stream s) = []" and "rbuf (ms_stream s) = []"
  shows "\<exists>s' cache. clear_cached_statements N L c = Some (Ok (), c\<lparr>conn_stream := Some s', cache_statement := cache\<rparr>) \<and>
    cached_statements_size L (c\<lparr>conn_stream := Some s', cache_statement := cache\<rparr>) = 0 \<and>
    sent (stream (ms_stream s')) = sent (stream (ms_stream s)) @
      concat (map (\<lambda>e. concat (frames 0 (0x19 # to_le (fst (snd e))))) (rev (recency (cache_statement c))))"
proof -
  have i: "inp pending s (pending (stream (ms_stream s)))" using assms(5) by (simp add: inp_def)
  have l: "lru_laws L recency ok" using assms(1) by (simp add: prepared_def)
  from prepared.clear_inp [OF assms(1,2,3,4) i] obtain s' cache where
    "clear_cached_statements N L c = Some (Ok (), c\<lparr>conn_stream := Some s', cache_statement := cache\<rparr>)"
    "ok cache" "recency cache = []"
    "sent (stream (ms_stream s')) = sent (stream (ms_stream s)) @
      concat (map (\<lambda>e. close_command (Some (snd e))) (rev (recency (cache_statement c))))" by blast
  then show ?thesis
    by (intro exI [of _ s'] exI [of _ cache])
      (simp add: cached_statements_size_def cache_len_def lru_laws.len_law [OF l] close_command_def case_prod_beta)
qed

theorem clear_closes_every_statement_witness:
  "\<exists>s' cache. clear_cached_statements script_net list_lru
      ((sample_conn [] [])\<lparr>cache_statement := \<lparr>lru_limit = 2, lru_entries = [(lit ''b'', 8, sample_meta), (lit ''a'', 7, sample_meta)]\<rparr>\<rparr>) =
      Some (Ok (), (sample_conn [] [])\<lparr>conn_stream := Some s', cache_statement := cache\<rparr>) \<and>
    script_out (stream (ms_stream s')) = concat (frames 0 (0x19 # to_le (7 :: u32))) @ concat (frames 0 (0x19 # to_le (8 :: u32)))"
proof -
  let ?k = "\<lparr>lru_limit = 2, lru_entries = [(lit ''b'', 8, sample_meta), (lit ''a'', 7, sample_meta)]\<rparr>"
  have "lru_list_ok ?k" by (simp add: lru_list_ok_def recency_ok_def)
  with clear_closes_every_statement [OF script_lists.prepared_axioms,
      of "(sample_conn [] [])\<lparr>cache_statement := ?k\<rparr>" "script_stream [] 0 []"] show ?thesis by auto
qed

end
