(* ===== verification/Db_Pool.thy ===== *)
theory Db_Pool
  imports Db_Traits
begin

text \<open>
  The connection manager and guard (\<open>src/pool/\<close>) and the pool of \<open>rbdc-pool-fast\<close>.  A driver is a record of its
  methods; the \<open>fast_pool\<close> crate is the argument \<open>F\<close>, whose state is opaque.
\<close>

section \<open>Manager and guard\<close>

record ('opt, 'c) driver =
  d_name :: bytes
  d_default_option :: 'opt
  d_set_uri :: "'opt \<Rightarrow> bytes \<Rightarrow> 'opt res"
  d_connect_opt :: "'opt \<Rightarrow> 'c res option"

record ('opt, 'c) connection_manager =
  cm_driver :: "('opt, 'c) driver"
  cm_option :: 'opt

definition manager_new :: "('opt, 'c) driver \<Rightarrow> bytes \<Rightarrow> ('opt, 'c) connection_manager res" where
  "manager_new D url = rbind (d_set_uri D (d_default_option D) url) (\<lambda>opt. Ok \<lparr>cm_driver = D, cm_option = opt\<rparr>)"

definition manager_new_options :: "('opt, 'c) driver \<Rightarrow> 'opt \<Rightarrow> ('opt, 'c) connection_manager" where
  "manager_new_options D opt = \<lparr>cm_driver = D, cm_option = opt\<rparr>"

definition manager_driver_type :: "('opt, 'c) connection_manager \<Rightarrow> bytes" where
  "manager_driver_type m = d_name (cm_driver m)"

text \<open>Durations are seconds.\<close>

record 'c connection_guard =
  cg_conn :: "'c option"
  cg_auto_close :: "nat option"

definition manager_connect :: "('opt, 'c) connection_manager \<Rightarrow> 'c connection_guard res option" where
  "manager_connect m =
     map_option (\<lambda>r. rbind r (\<lambda>c. Ok \<lparr>cg_conn = Some c, cg_auto_close = Some 10\<rparr>)) (d_connect_opt (cm_driver m) (cm_option m))"

text \<open>\<open>deref_mut\<close>: an operation on the connection inside, which panics when there is none.\<close>

definition on_guard :: "('c, 'a) aop \<Rightarrow> ('c connection_guard, 'a) aop" where
  "on_guard f g =
     (case cg_conn g of
        None \<Rightarrow> Some (Panic, g)
      | Some c \<Rightarrow> map_option (\<lambda>(r, c). (r, g\<lparr>cg_conn := Some c\<rparr>)) (f c))"

definition manager_check :: "('c, 'row) connection \<Rightarrow> ('c connection_guard, unit) aop" where
  "manager_check cn = on_guard (c_ping cn)"

text \<open>Dropping a guard hands the connection to a task that closes it within the given time; without a running
  runtime the task is not started.\<close>

definition guard_drop :: "bool \<Rightarrow> 'c connection_guard \<Rightarrow> ('c \<times> nat) option \<times> 'c connection_guard" where
  "guard_drop runtime g =
     (case cg_auto_close g of
        None \<Rightarrow> (None, g)
      | Some d \<Rightarrow>
          (case cg_conn g of
             None \<Rightarrow> (None, g)
           | Some c \<Rightarrow> (if runtime then Some (c, d) else None, g\<lparr>cg_conn := None\<rparr>)))"

section \<open>The pool\<close>

text \<open>\<open>ConnManagerProxy\<close>, what the pool calls to open a connection and to test an idle one.\<close>

definition proxy_connect :: "('opt, 'c) connection_manager \<Rightarrow> 'c connection_guard res option" where
  "proxy_connect m = manager_connect m"

definition proxy_check :: "('c, 'row) connection \<Rightarrow> ('c connection_guard, unit) aop" where
  "proxy_check cn g =
     Option.bind (manager_check cn g) (\<lambda>(r, g).
       case r of
         Ok u \<Rightarrow> Some (Ok u, g)
       | Err e \<Rightarrow> map_option (\<lambda>(r, g). ((case r of Panic \<Rightarrow> Panic | _ \<Rightarrow> Err e), g)) (on_guard (c_close cn) g)
       | Panic \<Rightarrow> Some (Panic, g))"

text \<open>The \<open>fast_pool\<close> crate.\<close>

datatype check_mode = NoLimit | MaxLifetime nat

record pool_state =
  ps_max_open :: u64
  ps_connections :: u64
  ps_in_use :: u64
  ps_idle :: u64
  ps_waits :: u64
  ps_connecting :: u64
  ps_checking :: u64

record ('p, 'g) fast_pool =
  fp_state :: "'p \<Rightarrow> pool_state"
  fp_get_timeout :: "nat option \<Rightarrow> ('p, 'g) aop"
  fp_set_max_idle :: "u64 \<Rightarrow> 'p \<Rightarrow> 'p"
  fp_set_max_open :: "u64 \<Rightarrow> 'p \<Rightarrow> 'p"
  fp_set_mode :: "check_mode \<Rightarrow> 'p \<Rightarrow> 'p"

record ('p, 'opt, 'c) pool =
  pl_manager :: "('opt, 'c) connection_manager"
  pl_inner :: 'p
  pl_timeout :: "nat option"

definition pool_new :: "(check_mode \<Rightarrow> 'p) \<Rightarrow> ('opt, 'c) connection_manager \<Rightarrow> ('p, 'opt, 'c) pool res" where
  "pool_new mk m = Ok \<lparr>pl_manager = m, pl_inner = mk NoLimit, pl_timeout = None\<rparr>"

definition pool_new_url :: "(check_mode \<Rightarrow> 'p) \<Rightarrow> ('opt, 'c) driver \<Rightarrow> bytes \<Rightarrow> ('p, 'opt, 'c) pool res" where
  "pool_new_url mk D url = rbind (manager_new D url) (pool_new mk)"

definition pool_new_option :: "(check_mode \<Rightarrow> 'p) \<Rightarrow> ('opt, 'c) driver \<Rightarrow> 'opt \<Rightarrow> ('p, 'opt, 'c) pool res" where
  "pool_new_option mk D opt = pool_new mk (manager_new_options D opt)"

definition on_inner :: "('p, 'a) aop \<Rightarrow> (('p, 'opt, 'c) pool, 'a) aop" where
  "on_inner f p = map_option (\<lambda>(r, i). (r, p\<lparr>pl_inner := i\<rparr>)) (f (pl_inner p))"

text \<open>A connection from the pool is a proxy around the pool's guard.\<close>

record 'g conn_proxy =
  cp_conn :: "'g option"

definition pool_get :: "('p, 'g) fast_pool \<Rightarrow> (('p, 'opt, 'c) pool, 'g conn_proxy) aop" where
  "pool_get F p = abind (on_inner (fp_get_timeout F (pl_timeout p))) (\<lambda>v. aret \<lparr>cp_conn = Some v\<rparr>) p"

definition pool_get_timeout :: "('p, 'g) fast_pool \<Rightarrow> nat \<Rightarrow> (('p, 'opt, 'c) pool, 'g conn_proxy) aop" where
  "pool_get_timeout F d p =
     (let state = fp_state F (pl_inner p);
          go = (\<lambda>d. abind (on_inner (fp_get_timeout F (Some d))) (\<lambda>v. aret \<lparr>cp_conn = Some v\<rparr>) p) in
      if d = 0 then
        (if ps_in_use state < ps_max_open state then go 10
         else Some (Err (Message ''Time out in the connection pool''), p))
      else go d)"

definition pool_set_timeout :: "nat option \<Rightarrow> ('p, 'opt, 'c) pool \<Rightarrow> ('p, 'opt, 'c) pool" where
  "pool_set_timeout t p = p\<lparr>pl_timeout := t\<rparr>"

definition pool_set_conn_max_lifetime ::
    "('p, 'g) fast_pool \<Rightarrow> nat option \<Rightarrow> ('p, 'opt, 'c) pool \<Rightarrow> ('p, 'opt, 'c) pool" where
  "pool_set_conn_max_lifetime F t p =
     p\<lparr>pl_inner := fp_set_mode F (case t of Some d \<Rightarrow> MaxLifetime d | None \<Rightarrow> NoLimit) (pl_inner p)\<rparr>"

definition pool_set_max_idle_conns :: "('p, 'g) fast_pool \<Rightarrow> u64 \<Rightarrow> ('p, 'opt, 'c) pool \<Rightarrow> ('p, 'opt, 'c) pool" where
  "pool_set_max_idle_conns F n p = p\<lparr>pl_inner := fp_set_max_idle F n (pl_inner p)\<rparr>"

definition pool_set_max_open_conns :: "('p, 'g) fast_pool \<Rightarrow> u64 \<Rightarrow> ('p, 'opt, 'c) pool \<Rightarrow> ('p, 'opt, 'c) pool" where
  "pool_set_max_open_conns F n p = p\<lparr>pl_inner := fp_set_max_open F n (pl_inner p)\<rparr>"

definition pool_driver_type :: "('p, 'opt, 'c) pool \<Rightarrow> bytes" where
  "pool_driver_type p = manager_driver_type (pl_manager p)"

definition pool_state_value :: "map_insert \<Rightarrow> ('p, 'g) fast_pool \<Rightarrow> ('p, 'opt, 'c) pool \<Rightarrow> dyn_value" where
  "pool_state_value ins F p =
     (let s = fp_state F (pl_inner p) in
      V_Map (fold (\<lambda>(k, v) m. ins (V_String (lit k)) (V_U64 v) m)
        [(''max_open'', ps_max_open s), (''connections'', ps_connections s), (''in_use'', ps_in_use s),
         (''idle'', ps_idle s), (''waits'', ps_waits s), (''connecting'', ps_connecting s), (''checking'', ps_checking s)] []))"

text \<open>\<open>ConnProxy\<close>: every method first tests whether the connection is still there; \<open>deref\<close> reaches through
  the pool's guard (\<open>through\<close>) to the connection.\<close>

definition on_proxy :: "(('c, 'a) aop \<Rightarrow> ('g, 'a) aop) \<Rightarrow> ('c, 'a) aop \<Rightarrow> ('g conn_proxy, 'a) aop" where
  "on_proxy through f x =
     (case cp_conn x of
        None \<Rightarrow> Some (Err (Message ''conn is drop''), x)
      | Some g \<Rightarrow> map_option (\<lambda>(r, g). (r, x\<lparr>cp_conn := Some g\<rparr>)) (through f g))"

definition proxy_get_rows :: "(('c, 'row list) aop \<Rightarrow> ('g, 'row list) aop) \<Rightarrow> ('c, 'row) connection \<Rightarrow> bytes \<Rightarrow> dyn_value list \<Rightarrow>
    ('g conn_proxy, 'row list) aop" where
  "proxy_get_rows th cn sql params = on_proxy th (c_get_rows cn sql params)"

definition proxy_get_values :: "(('c, dyn_value) aop \<Rightarrow> ('g, dyn_value) aop) \<Rightarrow> ('row, 'md) row_trait \<Rightarrow> map_insert \<Rightarrow>
    ('c, 'row) connection \<Rightarrow> bytes \<Rightarrow> dyn_value list \<Rightarrow> ('g conn_proxy, dyn_value) aop" where
  "proxy_get_values th R ins cn sql params = on_proxy th (get_values R ins cn sql params)"

definition proxy_exec :: "(('c, exec_result) aop \<Rightarrow> ('g, exec_result) aop) \<Rightarrow> ('c, 'row) connection \<Rightarrow> bytes \<Rightarrow> dyn_value list \<Rightarrow>
    ('g conn_proxy, exec_result) aop" where
  "proxy_exec th cn sql params = on_proxy th (c_exec cn sql params)"

definition proxy_ping :: "(('c, unit) aop \<Rightarrow> ('g, unit) aop) \<Rightarrow> ('c, 'row) connection \<Rightarrow> ('g conn_proxy, unit) aop" where
  "proxy_ping th cn = on_proxy th (c_ping cn)"

definition proxy_close :: "(('c, unit) aop \<Rightarrow> ('g, unit) aop) \<Rightarrow> ('c, 'row) connection \<Rightarrow> ('g conn_proxy, unit) aop" where
  "proxy_close th cn = on_proxy th (c_close cn)"

definition proxy_begin :: "(('c, unit) aop \<Rightarrow> ('g, unit) aop) \<Rightarrow> ('c, 'row) connection \<Rightarrow> ('g conn_proxy, unit) aop" where
  "proxy_begin th cn = on_proxy th (begin_tx cn)"

definition proxy_commit :: "(('c, unit) aop \<Rightarrow> ('g, unit) aop) \<Rightarrow> ('c, 'row) connection \<Rightarrow> ('g conn_proxy, unit) aop" where
  "proxy_commit th cn = on_proxy th (commit_tx cn)"

definition proxy_rollback :: "(('c, unit) aop \<Rightarrow> ('g, unit) aop) \<Rightarrow> ('c, 'row) connection \<Rightarrow> ('g conn_proxy, unit) aop" where
  "proxy_rollback th cn = on_proxy th (rollback_tx cn)"

end
