(* ===== verification/Mysql_Db.thy ===== *)
theory Mysql_Db
  imports Mysql_Prepared Db_Pool
begin

text \<open>
  A MySQL connection behind the driver-independent traits: MySQL rows satisfy the row contract, so a query through
  \<open>get_values\<close> returns the columns under their names; the pool's test of an idle connection drains what the
  connection still owes.
\<close>

section \<open>MySQL behind the traits\<close>

definition mysql_row_trait :: "crates \<Rightarrow> 'dt kit \<Rightarrow> (mysql_row, (bytes \<times> nat \<times> type_info) list) row_trait" where
  "mysql_row_trait C K = \<lparr>r_meta_data = mr_column_names, r_get = mysql_row_get C K,
     md_column_len = column_len, md_column_name = column_name\<rparr>"

definition mysql_connection ::
    "crates \<Rightarrow> 's net \<Rightarrow> ('c, u32 \<times> statement_metadata) lru_ops \<Rightarrow> 'dt kit \<Rightarrow> (('s, 'c) mysql_conn, mysql_row) connection" where
  "mysql_connection C N L K = \<lparr>c_get_rows = get_rows C N L K, c_exec = exec C N L K, c_ping = do_ping C N, c_close = do_close N\<rparr>"

section \<open>Rows of a response\<close>

definition mysql_cell :: "crates \<Rightarrow> 'dt kit \<Rightarrow> mysql_row \<Rightarrow> nat \<Rightarrow> dyn_value res" where
  "mysql_cell C K x i =
     (case row_storage (mr_row x) ! i of
        None \<Rightarrow> Ok V_Null
      | Some b \<Rightarrow> value_decode C K \<lparr>mv_value = Some b, mv_type_info = mc_type_info (mr_columns x ! i),
          mv_format = mr_format x, mv_offset_sec = mr_offset_sec x\<rparr>)"

definition mysql_row_ok :: "mysql_row \<Rightarrow> bool" where
  "mysql_row_ok x = (row_ok (mr_row x) \<and> length (row_storage (mr_row x)) = length (mr_columns x) \<and>
     column_len (mr_column_names x) \<le> length (mr_columns x))"

interpretation mysql_rows: column_rows "mysql_row_trait C K" mysql_row_ok "mysql_cell C K" for C K
proof
  fix x i v
  assume a: "mysql_row_ok x" "i < md_column_len (mysql_row_trait C K) (r_meta_data (mysql_row_trait C K) x)"
  then have l: "i < length (mr_columns x)" "i < length (row_storage (mr_row x))" "row_ok (mr_row x)"
    by (auto simp: mysql_row_ok_def mysql_row_trait_def)
  let ?x = "x\<lparr>mr_row := (mr_row x)\<lparr>row_storage := (row_storage (mr_row x))[i := None]\<rparr>\<rparr>"
  note d = mysql_row_trait_def mysql_row_get_def try_take_def row_take_get [OF l(3)] index_def mysql_cell_def
  {
    assume "mysql_cell C K x i = Ok v"
    then have "r_get (mysql_row_trait C K) x i = Ok (v, ?x)"
      using l by (auto simp: d split: option.splits)
    moreover have "mysql_row_ok ?x" using a(1) row_ok_take [OF l(3)] by (simp add: mysql_row_ok_def)
    moreover have "\<forall>j < i. mysql_cell C K ?x j = mysql_cell C K x j"
      by (auto simp: mysql_cell_def split: option.splits)
    ultimately show "\<exists>x'. r_get (mysql_row_trait C K) x i = Ok (v, x') \<and> mysql_row_ok x' \<and>
      r_meta_data (mysql_row_trait C K) x' = r_meta_data (mysql_row_trait C K) x \<and>
      (\<forall>j < i. mysql_cell C K x' j = mysql_cell C K x j)"
      by (intro exI [of _ ?x]) (simp add: mysql_row_trait_def)
  next
    fix e
    assume "mysql_cell C K x i = Err e"
    then show "r_get (mysql_row_trait C K) x i = Err e" using l by (auto simp: d split: option.splits)
  }
qed

interpretation mysql_maps: mapped_rows list_insert "mysql_row_trait C K" mysql_row_ok "mysql_cell C K" for C K
  by unfold_locales

lemma text_row_loop_length:
  "text_row_loop C storage n cs bs vals = Ok rs \<Longrightarrow> length rs = length vals + length cs"
  by (induction C storage n cs bs vals rule: text_row_loop.induct) (auto simp: res_iff Let_def split: if_splits)

lemma binary_row_loop_length:
  "binary_row_loop C n bitmap cs k bs vals = Ok rs \<Longrightarrow> length rs = length vals + length cs"
  by (induction C n bitmap cs k bs vals rule: binary_row_loop.induct) (auto simp: res_iff Let_def split: if_splits)

lemma row_decode_ok:
  "row_decode C fmt p columns = Ok r \<Longrightarrow> row_ok r \<and> length (row_storage r) = length columns"
  by (cases fmt)
    (auto simp: row_decode_def text_row_decode_def binary_row_decode_def res_iff Let_def
      dest!: row_from_ok text_row_loop_length binary_row_loop_length split: if_splits)

text \<open>The meta data of a row names its columns by their position.\<close>

definition with_index :: "mysql_column list \<Rightarrow> bool" where
  "with_index columns = (\<forall>i < length columns. mc_ordinal (columns ! i) = i)"

lemma names_insert_new: "k \<notin> fst ` set m \<Longrightarrow> names_insert k v m = m @ [(k, v)]"
  by (induction k v m rule: names_insert.induct) auto

lemma names_insert_length: "length (names_insert k v m) \<le> Suc (length m)"
  by (induction k v m rule: names_insert.induct) auto

lemma fold_names_length:
  "length (fold (\<lambda>c. names_insert (mc_name c) (mc_ordinal c, mc_type_info c)) columns m) \<le> length m + length columns"
proof (induction columns arbitrary: m)
  case (Cons c columns)
  from Cons [of "names_insert (mc_name c) (mc_ordinal c, mc_type_info c) m"]
    names_insert_length [of "mc_name c" "(mc_ordinal c, mc_type_info c)" m] show ?case by simp
qed simp

lemma names_of_length: "column_len (names_of columns) \<le> length columns"
  using fold_names_length [of columns "[]"] by (simp add: names_of_def column_len_def)

lemma fold_names_distinct:
  "distinct (map mc_name columns) \<Longrightarrow> mc_name ` set columns \<inter> fst ` set m = {} \<Longrightarrow>
    fold (\<lambda>c. names_insert (mc_name c) (mc_ordinal c, mc_type_info c)) columns m =
    m @ map (\<lambda>c. (mc_name c, mc_ordinal c, mc_type_info c)) columns"
  by (induction columns arbitrary: m) (auto simp: names_insert_new)

lemma names_of_distinct:
  "distinct (map mc_name columns) \<Longrightarrow> names_of columns = map (\<lambda>c. (mc_name c, mc_ordinal c, mc_type_info c)) columns"
  by (simp add: names_of_def fold_names_distinct)

lemma column_name_map:
  assumes "distinct (map mc_ordinal columns)" and "i < length columns"
  shows "column_name (map (\<lambda>c. (mc_name c, mc_ordinal c, mc_type_info c)) columns) (mc_ordinal (columns ! i)) = mc_name (columns ! i)"
  using assms
proof (induction columns arbitrary: i)
  case (Cons c columns)
  show ?case
  proof (cases i)
    case (Suc j)
    with Cons.prems have "columns ! j \<in> set columns" by simp
    with Cons.prems have "mc_ordinal c \<noteq> mc_ordinal (columns ! j)" by (metis distinct.simps(2) imageI list.set_map list.simps(9))
    with Cons.IH [of j] Cons.prems Suc show ?thesis by simp
  qed simp
qed simp

lemma numbered_distinct: "with_index columns \<Longrightarrow> distinct (map mc_ordinal columns)"
  by (simp add: with_index_def distinct_conv_nth)

lemma column_name_names_of:
  "with_index columns \<Longrightarrow> distinct (map mc_name columns) \<Longrightarrow> i < length columns \<Longrightarrow>
    column_len (names_of columns) = length columns \<and> column_name (names_of columns) i = mc_name (columns ! i)"
  using column_name_map [OF numbered_distinct, of columns i]
  by (simp add: names_of_distinct column_len_def) (simp add: with_index_def)

definition view_ok :: "result_view \<Rightarrow> bool" where
  "view_ok v = (rv_needs_metadata v \<and> rv_names v = names_of (rv_columns v) \<and> with_index (rv_columns v))"

lemma column_packets_numbered: "column_packets C ps columns \<Longrightarrow> with_index columns"
  by (auto simp: column_packets_def with_index_def recv_next_result_column_def res_iff)
    (metis mysql_column.select_convs(1))

lemma says_rows_ok:
  "says C caps w v ps items \<Longrightarrow> view_ok v \<Longrightarrow> r \<in> set (rows_of items) \<Longrightarrow>
    mysql_row_ok r \<and> mr_column_names r = names_of (mr_columns r) \<and> with_index (mr_columns r)"
proof (induction rule: says.induct)
  case (row p v r' ps items sid)
  from row_decode_ok [OF row.hyps(3)] row.prems row.IH show ?case
    by (auto simp: row_of_def mysql_row_ok_def view_ok_def names_of_length)
next
  case (metadata p n q cols columns eofs v ps items sid)
  have "view_ok (with_columns v columns)"
    using metadata.prems(1) column_packets_numbered [OF metadata.hyps(6)] by (simp add: view_ok_def with_columns_def)
  with metadata.IH metadata.prems(2) show ?case by simp
qed auto

lemma text_view_ok: "view_ok (text_view off)"
  by (simp add: view_ok_def text_view_def names_of_def with_index_def)

lemma row_map_entries:
  assumes "with_index columns" and "distinct (map mc_name columns)" and "\<forall>i < length columns. \<exists>v. val i = Ok v"
  defines "entry \<equiv> row_entry (column_name (names_of columns)) val [0..<column_len (names_of columns)]"
  shows "dom entry = (\<lambda>col. V_String (mc_name col)) ` set columns \<and>
    (\<forall>i < length columns. \<exists>v. val i = Ok v \<and> entry (V_String (mc_name (columns ! i))) = Some v)"
  using named_entries [OF assms(2) _ assms(3), of "column_name (names_of columns)"] column_name_names_of [OF assms(1,2)]
  by (simp add: entry_def names_of_distinct [OF assms(2)] column_len_def)

section \<open>Properties\<close>

text \<open>C6: A query without parameters through \<open>Connection::get_values\<close> on a MySQL connection, for a response in whose
  rows the column names do not repeat and every cell decodes.  Whatever the chunking of the network and whatever an
  earlier command left outstanding, it returns an array with one map per row of the response, in order, which holds
  under each column's name exactly the decoded value of that column (NULL for a missing one) and has no other keys.
  (With repeated names the number of columns is taken from the map of names, and the last columns are left out.)\<close>

theorem get_values_names_the_columns:
  assumes "healthy_net N pending C sent" and "value_map ins" and "conn_stream c = Some s" and "owes C s pre"
    and "rbuf (ms_stream s) = []" and "pending (stream (ms_stream s)) = packets_wire pre @ packets_wire ps @ rest"
    and "says C (ms_capabilities s) W_Result (text_view (opt_offset_sec (conn_option c))) ps items"
    and "\<forall>r \<in> set (rows_of items). distinct (map mc_name (mr_columns r)) \<and> (\<forall>i < length (mr_columns r). \<exists>v. mysql_cell C K r i = Ok v)"
  shows "\<exists>s' ms. get_values (mysql_row_trait C K) ins (mysql_connection C N L K) sql [] c =
      Some (Ok (V_Array (map V_Map ms)), c\<lparr>conn_stream := Some s'\<rparr>) \<and> owes C s' [] \<and>
    list_all2 (\<lambda>r m. dom (map_of m) = (\<lambda>col. V_String (mc_name col)) ` set (mr_columns r) \<and>
      (\<forall>i < length (mr_columns r). \<exists>v. mysql_cell C K r i = Ok v \<and>
        map_of m (V_String (mc_name (mr_columns r ! i))) = Some v)) (rows_of items) ms"
proof -
  have "inp pending s (packets_wire pre @ packets_wire ps @ rest)" using assms(5,6) by (simp add: inp_def)
  from healthy_net.get_rows_text [OF assms(1,4) this assms(3,7), of L K sql] obtain s' where
    s': "c_get_rows (mysql_connection C N L K) sql [] c = Some (Ok (rows_of items), c\<lparr>conn_stream := Some s'\<rparr>)" "owes C s' []"
    by (auto simp: mysql_connection_def)
  note M = mapped_rows.intro [OF assms(2) mysql_rows.column_rows_axioms]
  have ok: "mysql_row_ok r \<and> mr_column_names r = names_of (mr_columns r) \<and> with_index (mr_columns r)"
    if "r \<in> set (rows_of items)" for r
    using says_rows_ok [OF assms(7) text_view_ok that] .
  then have w: "column_len (mr_column_names r) = length (mr_columns r)" if "r \<in> set (rows_of items)" for r
    using that assms(8) by (simp add: names_of_distinct column_len_def)
  have "\<forall>r \<in> set (rows_of items). mysql_row_ok r \<and>
      (\<forall>j < md_column_len (mysql_row_trait C K) (r_meta_data (mysql_row_trait C K) r). \<exists>v. mysql_cell C K r j = Ok v)"
    using ok w assms(8) by (simp add: mysql_row_trait_def)
  from mapped_rows.get_values_entries [OF M s'(1) this] obtain ms where
    ms: "get_values (mysql_row_trait C K) ins (mysql_connection C N L K) sql [] c =
        Some (Ok (V_Array (map V_Map ms)), c\<lparr>conn_stream := Some s'\<rparr>)"
      "list_all2 (\<lambda>r m. map_of m = row_entry (column_name (mr_column_names r)) (mysql_cell C K r)
         [0..<column_len (mr_column_names r)]) (rows_of items) ms"
    by (auto simp: mysql_row_trait_def)
  have "list_all2 (\<lambda>r m. dom (map_of m) = (\<lambda>col. V_String (mc_name col)) ` set (mr_columns r) \<and>
      (\<forall>i < length (mr_columns r). \<exists>v. mysql_cell C K r i = Ok v \<and>
        map_of m (V_String (mc_name (mr_columns r ! i))) = Some v)) (rows_of items) ms"
    using ms(2)
  proof (rule list.rel_mono_strong)
    fix r m
    assume r: "r \<in> set (rows_of items)" and
      m: "map_of m = row_entry (column_name (mr_column_names r)) (mysql_cell C K r) [0..<column_len (mr_column_names r)]"
    from assms(8) r have "distinct (map mc_name (mr_columns r))" "\<forall>i < length (mr_columns r). \<exists>v. mysql_cell C K r i = Ok v" by auto
    with row_map_entries [of "mr_columns r" "mysql_cell C K r"] ok [OF r] m
    show "dom (map_of m) = (\<lambda>col. V_String (mc_name col)) ` set (mr_columns r) \<and>
      (\<forall>i < length (mr_columns r). \<exists>v. mysql_cell C K r i = Ok v \<and>
        map_of m (V_String (mc_name (mr_columns r ! i))) = Some v)" by simp
  qed
  with ms(1) s'(2) show ?thesis by blast
qed

theorem get_values_names_the_columns_witness:
  "\<exists>s' m. get_values (mysql_row_trait std_crates sample_kit) list_insert (mysql_connection std_crates script_net list_lru sample_kit)
      (lit ''select a'') [] (sample_conn [packets_wire sample_set] []) =
      Some (Ok (V_Array [V_Map m]), (sample_conn [packets_wire sample_set] [])\<lparr>conn_stream := Some s'\<rparr>) \<and>
    map_of m = [V_String (lit ''a'') \<mapsto> V_String (lit ''A'')]"
proof -
  let ?c = "sample_conn [packets_wire sample_set] []"
  have cell: "mysql_cell std_crates sample_kit sample_row 0 = Ok (V_String (lit ''A''))" by code_simp
  have o: "owes std_crates (script_stream [packets_wire sample_set] 0 []) []" by (simp add: owes_def script_stream_def)
  have "mr_columns sample_row = [sample_col]" by (simp add: sample_row_def)
  with get_values_names_the_columns [OF script.healthy_net_axioms list_map.value_map_axioms _ o, of ?c sample_set "[]"
      "[Inr sample_row, Inl \<lparr>qr_rows_affected = 0, qr_last_insert_id = 0\<rparr>]" sample_kit list_lru "lit ''select a''"] sample_set_says cell
  obtain s' ms where "get_values (mysql_row_trait std_crates sample_kit) list_insert
      (mysql_connection std_crates script_net list_lru sample_kit) (lit ''select a'') [] ?c =
      Some (Ok (V_Array (map V_Map ms)), ?c\<lparr>conn_stream := Some s'\<rparr>)"
    "\<exists>m. ms = [m] \<and> dom (map_of m) = {V_String (mc_name sample_col)} \<and> map_of m (V_String (mc_name sample_col)) = Some (V_String (lit ''A''))"
    by (auto simp: list_all2_Cons1 simp del: packets_wire_simps(2))
  then show ?thesis by (auto simp: sample_col_def dom_eq_singleton_conv)
qed

text \<open>C7: The pool's test of an idle connection makes it ready.  When the server answers the ping, \<open>ConnManagerProxy::check\<close>
  accepts the connection, after consuming whatever an earlier user left unread, and the next query through the
  checked connection returns exactly its own rows.\<close>

theorem pool_check_drains:
  assumes "healthy_net N pending C sent" and "cg_conn g = Some c" and "conn_stream c = Some s" and "owes C s pre"
    and "rbuf (ms_stream s) = []"
    and "pending (stream (ms_stream s)) = packets_wire pre @ packets_wire [(sid, p)] @ packets_wire ps @ rest"
    and "p \<noteq> []" and "hd p = 0" and "ok_packet_decode C p = Ok k"
    and "says C (ms_capabilities s) W_Result (text_view (opt_offset_sec (conn_option c))) ps items"
  shows "\<exists>s1 s2. proxy_check (mysql_connection C N L K) g = Some (Ok (), g\<lparr>cg_conn := Some (c\<lparr>conn_stream := Some s1\<rparr>)\<rparr>) \<and>
    on_guard (c_get_rows (mysql_connection C N L K) sql []) (g\<lparr>cg_conn := Some (c\<lparr>conn_stream := Some s1\<rparr>)\<rparr>) =
      Some (Ok (rows_of items), g\<lparr>cg_conn := Some (c\<lparr>conn_stream := Some s2\<rparr>)\<rparr>) \<and> owes C s2 []"
proof -
  have "inp pending s (packets_wire pre @ packets_wire [(sid, p)] @ packets_wire ps @ rest)" using assms(5,6) by (simp add: inp_def)
  from healthy_net.do_ping_drains [OF assms(1,4) this assms(3,7,8,9)] obtain s1 where
    s1: "do_ping C N c = Some (Ok (), c\<lparr>conn_stream := Some s1\<rparr>)" "owes C s1 []" "inp pending s1 (packets_wire ps @ rest)"
      "ms_capabilities s1 = ms_capabilities s" by blast
  then have p: "proxy_check (mysql_connection C N L K) g = Some (Ok (), g\<lparr>cg_conn := Some (c\<lparr>conn_stream := Some s1\<rparr>)\<rparr>)"
    using assms(2) by (simp add: proxy_check_def manager_check_def on_guard_def mysql_connection_def)
  let ?c = "c\<lparr>conn_stream := Some s1\<rparr>"
  have "says C (ms_capabilities s1) W_Result (text_view (opt_offset_sec (conn_option ?c))) ps items" using assms(10) s1(4) by simp
  with healthy_net.get_rows_text [OF assms(1) s1(2), of ps rest ?c items L K sql] s1(3) obtain s2 where
    "get_rows C N L K sql [] ?c = Some (Ok (rows_of items), ?c\<lparr>conn_stream := Some s2\<rparr>)" "owes C s2 []" by auto
  then show ?thesis using p by (auto simp: on_guard_def mysql_connection_def)
qed

theorem pool_check_drains_witness:
  "\<exists>s1 s2. proxy_check (mysql_connection std_crates script_net list_lru sample_kit)
      \<lparr>cg_conn = Some (sample_conn [packets_wire [(9, [0xfe, 0, 0, 2, 0])] @ packets_wire [(1, [0, 0, 0, 2, 0, 0, 0])] @ packets_wire sample_set] [W_Row]),
        cg_auto_close = Some 10\<rparr> = Some (Ok (), s1) \<and>
    on_guard (c_get_rows (mysql_connection std_crates script_net list_lru sample_kit) (lit ''select a'') []) s1 = Some (Ok [sample_row], s2)"
proof -
  let ?pre = "[(9 :: u8, [0xfe, 0, 0, 2, 0 :: u8])]" and ?p = "[0, 0, 0, 2, 0, 0, 0 :: u8]"
  let ?c = "sample_conn [packets_wire ?pre @ packets_wire [(1, ?p)] @ packets_wire sample_set] [W_Row]"
  have e: "packet_eof std_crates 0 [0xfe, 0, 0, 2, 0] = Ok \<lparr>eof_warnings = 0, eof_status = 2\<rparr>" by code_simp
  have k: "ok_packet_decode std_crates ?p = Ok \<lparr>affected_rows = 0, last_insert_id = 0, ok_status = 2, ok_warnings = 0\<rparr>" by code_simp
  have "completes std_crates 0 W_Row ?pre"
    by (intro completes.last_row [OF _ e])
      (simp_all add: is_terminator_def more_results_def SERVER_MORE_RESULTS_EXISTS_def)
  then have o: "owes std_crates (script_stream [packets_wire ?pre @ packets_wire [(1, ?p)] @ packets_wire sample_set] 0 [W_Row]) ?pre"
    by (simp add: owes_def script_stream_def)
  show ?thesis
    using pool_check_drains [OF script.healthy_net_axioms _ _ o, of "\<lparr>cg_conn = Some ?c, cg_auto_close = Some 10\<rparr>" ?c 1 ?p sample_set "[]"
      _ "[Inr sample_row, Inl \<lparr>qr_rows_affected = 0, qr_last_insert_id = 0\<rparr>]" list_lru sample_kit "lit ''select a''"] sample_set_says k
    by (auto simp del: packets_wire_simps(2))
qed

text \<open>The pool closes a connection that fails its test.  When the server has gone away, \<open>check\<close> reports the aborted
  connection instead of waiting for ever, and before doing so has said goodbye and shut the socket down.\<close>

theorem pool_check_closes_dead_connections:
  assumes "healthy_net N pending C sent" and "cg_conn g = Some c" and "conn_stream c = Some s" and "ms_waiting s = []"
    and "rbuf (ms_stream s) = []" and "pending (stream (ms_stream s)) = []" and "\<forall>t. fst (net_shutdown N t) \<noteq> Panic"
  shows "\<exists>t s'. proxy_check (mysql_connection C N L K) g =
      Some (Err ConnectionAborted, g\<lparr>cg_conn := Some (c\<lparr>conn_stream := Some s'\<rparr>)\<rparr>) \<and>
    stream (ms_stream s') = snd (net_shutdown N t) \<and>
    sent t = sent (stream (ms_stream s)) @ wbuf (ms_stream s) @ concat (frames 0 [0x0e]) @ concat (frames 0 [0x01])"
proof -
  have "inp pending s []" using assms(5,6) by (simp add: inp_def)
  from healthy_net.do_ping_dead [OF assms(1) this assms(4,3)] obtain s1 where
    s1: "do_ping C N c = Some (Err ConnectionAborted, c\<lparr>conn_stream := Some s1\<rparr>)" "wbuf (ms_stream s1) = []"
      "sent (stream (ms_stream s1)) = sent (stream (ms_stream s)) @ wbuf (ms_stream s) @ concat (frames 0 [0x0e])" by blast
  from healthy_net.send_packet_inp [OF assms(1), of quit_encode s1 "[0x01]"] obtain s2 where
    s2: "send_packet N quit_encode s1 = Some (Ok (), s2)"
      "sent (stream (ms_stream s2)) = sent (stream (ms_stream s1)) @ concat (frames 0 [0x01])"
    using s1(2) by (auto simp: quit_encode_def)
  obtain r t where t: "net_shutdown N (stream (ms_stream s2)) = (r, t)" by fastforce
  with assms(7) have "r \<noteq> Panic" by (metis fst_conv)
  with t s1(1) s2(1) assms(2) have "proxy_check (mysql_connection C N L K) g =
      Some (Err ConnectionAborted, g\<lparr>cg_conn := Some (c\<lparr>conn_stream := Some (s2\<lparr>ms_stream := (ms_stream s2)\<lparr>stream := t\<rparr>\<rparr>)\<rparr>)\<rparr>)"
    by (cases r) (simp_all add: proxy_check_def manager_check_def on_guard_def mysql_connection_def do_close_def athen_def abind_def
      on_stream_def stream_shutdown_def)
  with t s1(3) s2(2) show ?thesis
    by (intro exI [of _ "stream (ms_stream s2)"] exI [of _ "s2\<lparr>ms_stream := (ms_stream s2)\<lparr>stream := t\<rparr>\<rparr>"]) simp
qed

theorem pool_check_closes_dead_connections_witness:
  "\<exists>g'. proxy_check (mysql_connection std_crates script_net list_lru sample_kit)
      \<lparr>cg_conn = Some (sample_conn [] []), cg_auto_close = Some 10\<rparr> = Some (Err ConnectionAborted, g')"
proof -
  have "\<forall>t. fst (net_shutdown script_net t) \<noteq> Panic" by (simp add: script_net_def)
  with pool_check_closes_dead_connections [OF script.healthy_net_axioms, of
      "\<lparr>cg_conn = Some (sample_conn [] []), cg_auto_close = Some 10\<rparr>" "sample_conn [] []" "script_stream [] 0 []" list_lru sample_kit]
  show ?thesis by (auto simp: script_stream_def buf_stream_new_def script_pending_def)
qed

end
