(* ===== verification/Url_Crates.thy ===== *)
theory Url_Crates
  imports Rbdc_Prelude
begin

text \<open>
  What the drivers use of the \<open>url\<close> and \<open>percent-encoding\<close> crates to read connection URLs: the parts of a parsed URL,
  the parser, the decoder of percent-encoded texts, and the offset of the local time zone.
\<close>

record url =
  url_host_str :: "bytes option"
  url_port :: "u16 option"
  url_username :: bytes
  url_password :: "bytes option"
  url_path :: bytes
  url_query_pairs :: "(bytes \<times> bytes) list"

record url_crates =
  parse_url :: "bytes \<Rightarrow> url res"
  percent_decode :: "bytes \<Rightarrow> bytes"
  local_offset :: int

end
