(* ===== verification/Mysql_Options.thy ===== *)
theory Mysql_Options
  imports Mysql_Conn Url_Crates
begin

text \<open>
  Connection options and the driver of MySQL (\<open>rbdc-mysql/src/options/\<close>, \<open>driver.rs\<close>, \<open>error.rs\<close>).
  The \<open>url\<close> and \<open>percent-encoding\<close> crates are the argument \<open>U\<close> (\<open>Url_Crates\<close>).
\<close>

section \<open>Model\<close>

definition options_new :: "int \<Rightarrow> options" where
  "options_new offset = \<lparr>opt_host = lit ''localhost'', opt_port = 3306, opt_socket = None, opt_username = lit ''root'',
     opt_password = None, opt_database = None, opt_ssl_mode = Ssl_Disabled, opt_ssl_ca = None,
     opt_statement_cache_capacity = 100, opt_charset = lit ''utf8mb4'', opt_collation = None, opt_offset_sec = offset\<rparr>"

definition set_host :: "bytes \<Rightarrow> options \<Rightarrow> options" where
  "set_host v opt = opt\<lparr>opt_host := v\<rparr>"

definition set_port :: "u16 \<Rightarrow> options \<Rightarrow> options" where
  "set_port v opt = opt\<lparr>opt_port := v\<rparr>"

definition set_socket :: "bytes \<Rightarrow> options \<Rightarrow> options" where
  "set_socket v opt = opt\<lparr>opt_socket := Some v\<rparr>"

definition set_username :: "bytes \<Rightarrow> options \<Rightarrow> options" where
  "set_username v opt = opt\<lparr>opt_username := v\<rparr>"

definition set_password :: "bytes \<Rightarrow> options \<Rightarrow> options" where
  "set_password v opt = opt\<lparr>opt_password := Some v\<rparr>"

definition set_database :: "bytes \<Rightarrow> options \<Rightarrow> options" where
  "set_database v opt = opt\<lparr>opt_database := Some v\<rparr>"

definition set_ssl_mode :: "ssl_mode \<Rightarrow> options \<Rightarrow> options" where
  "set_ssl_mode v opt = opt\<lparr>opt_ssl_mode := v\<rparr>"

definition set_ssl_ca :: "bytes \<Rightarrow> options \<Rightarrow> options" where
  "set_ssl_ca v opt = opt\<lparr>opt_ssl_ca := Some (Cert_File v)\<rparr>"

definition set_ssl_ca_from_pem :: "bytes \<Rightarrow> options \<Rightarrow> options" where
  "set_ssl_ca_from_pem v opt = opt\<lparr>opt_ssl_ca := Some (Cert_Inline v)\<rparr>"

definition set_statement_cache_capacity :: "nat \<Rightarrow> options \<Rightarrow> options" where
  "set_statement_cache_capacity v opt = opt\<lparr>opt_statement_cache_capacity := v\<rparr>"

definition set_charset :: "bytes \<Rightarrow> options \<Rightarrow> options" where
  "set_charset v opt = opt\<lparr>opt_charset := v\<rparr>"

definition set_collation :: "bytes \<Rightarrow> options \<Rightarrow> options" where
  "set_collation v opt = opt\<lparr>opt_collation := Some v\<rparr>"

definition set_offset_sec :: "int \<Rightarrow> options \<Rightarrow> options" where
  "set_offset_sec v opt = opt\<lparr>opt_offset_sec := v\<rparr>"

definition ssl_mode_from_str :: "bytes \<Rightarrow> ssl_mode res" where
  "ssl_mode_from_str s =
     (let l = map ascii_lower s in
      if l = lit ''disabled'' then Ok Ssl_Disabled
      else if l = lit ''preferred'' then Ok Ssl_Preferred
      else if l = lit ''required'' then Ok Ssl_Required
      else if l = lit ''verify_ca'' then Ok Ssl_VerifyCa
      else if l = lit ''verify_identity'' then Ok Ssl_VerifyIdentity
      else Err (Message ''unknown value for ssl_mode''))"

definition parse_usize :: "bytes \<Rightarrow> nat option" where
  "parse_usize s = map_option nat (parse_int 0 (2 ^ 64 - 1) s)"

text \<open>One query parameter.\<close>

definition apply_pair :: "options \<Rightarrow> bytes \<times> bytes \<Rightarrow> options res" where
  "apply_pair opt kv =
     (let key = fst kv; v = snd kv in
      if key = lit ''ssl-mode'' then rbind (ssl_mode_from_str v) (\<lambda>m. Ok (set_ssl_mode m opt))
      else if key = lit ''ssl-ca'' then Ok (set_ssl_ca v opt)
      else if key = lit ''charset'' then Ok (set_charset v opt)
      else if key = lit ''collation'' then Ok (set_collation v opt)
      else if key = lit ''statement-cache-capacity'' then
        (case parse_usize v of
           Some n \<Rightarrow> Ok (set_statement_cache_capacity n opt)
         | None \<Rightarrow> Err (Message ''invalid integer''))
      else if key = lit ''socket'' then Ok (set_socket v opt)
      else Ok opt)"

fun apply_pairs :: "options \<Rightarrow> (bytes \<times> bytes) list \<Rightarrow> options res" where
  "apply_pairs opt [] = Ok opt"
| "apply_pairs opt (kv # kvs) = rbind (apply_pair opt kv) (\<lambda>opt. apply_pairs opt kvs)"

definition options_from_str :: "url_crates \<Rightarrow> bytes \<Rightarrow> options res" where
  "options_from_str U s =
     rbind (parse_url U s) (\<lambda>url.
     let opt = options_new (local_offset U);
         opt = (case url_host_str url of Some h \<Rightarrow> set_host h opt | None \<Rightarrow> opt);
         opt = (case url_port url of Some p \<Rightarrow> set_port p opt | None \<Rightarrow> opt) in
     rbind (if url_username url \<noteq> []
            then rbind (from_utf8 (percent_decode U (url_username url))) (\<lambda>u. Ok (set_username u opt))
            else Ok opt) (\<lambda>opt.
     rbind (case url_password url of
              Some p \<Rightarrow> rbind (from_utf8 (percent_decode U p)) (\<lambda>p. Ok (set_password p opt))
            | None \<Rightarrow> Ok opt) (\<lambda>opt.
     let path = dropWhile (\<lambda>b. b = of_char (CHR ''/'')) (url_path url);
         opt = (if path \<noteq> [] then set_database path opt else opt) in
     apply_pairs opt (url_query_pairs url))))"

definition set_uri :: "url_crates \<Rightarrow> bytes \<Rightarrow> options \<Rightarrow> options res" where
  "set_uri U uri opt = options_from_str U uri"

text \<open>The driver: a fresh set of options, the URL applied to it, a connection established.\<close>

definition driver_name :: bytes where
  "driver_name = lit ''mysql''"

definition options_connect ::
    "(bytes \<Rightarrow> 's res) \<Rightarrow> (bytes \<Rightarrow> u16 \<Rightarrow> 's res) \<Rightarrow> crates \<Rightarrow> 's net \<Rightarrow> 'key crypto \<Rightarrow>
      ('c, u32 \<times> statement_metadata) lru_ops \<Rightarrow> (nat \<Rightarrow> bytes) \<Rightarrow> options \<Rightarrow> ('s, 'c) mysql_conn res option" where
  "options_connect connect_uds connect_tcp C N A L rnd opt = establish connect_uds connect_tcp C N A L rnd opt"

definition driver_connect ::
    "url_crates \<Rightarrow> (bytes \<Rightarrow> 's res) \<Rightarrow> (bytes \<Rightarrow> u16 \<Rightarrow> 's res) \<Rightarrow> crates \<Rightarrow> 's net \<Rightarrow> 'key crypto \<Rightarrow>
      ('c, u32 \<times> statement_metadata) lru_ops \<Rightarrow> (nat \<Rightarrow> bytes) \<Rightarrow> bytes \<Rightarrow> ('s, 'c) mysql_conn res option" where
  "driver_connect U connect_uds connect_tcp C N A L rnd url =
     (case set_uri U url (options_new (local_offset U)) of
        Ok opt \<Rightarrow> options_connect connect_uds connect_tcp C N A L rnd opt
      | Err e \<Rightarrow> Some (Err e)
      | Panic \<Rightarrow> Some Panic)"

text \<open>The text of a database error.\<close>

definition db_error_display :: "err_packet \<Rightarrow> bytes" where
  "db_error_display p =
     (case sql_state p of
        Some code \<Rightarrow> dec_digits (unat (error_code p)) @ lit '' ('' @ code @ lit ''): '' @ error_message p
      | None \<Rightarrow> dec_digits (unat (error_code p)) @ lit '': '' @ error_message p)"

section \<open>Lemmas\<close>

lemmas setters = set_host_def set_port_def set_socket_def set_username_def set_password_def set_database_def
  set_ssl_mode_def set_ssl_ca_def set_ssl_ca_from_pem_def set_statement_cache_capacity_def set_charset_def
  set_collation_def set_offset_sec_def

lemma apply_pairs_append: "apply_pairs opt (ps @ qs) = rbind (apply_pairs opt ps) (\<lambda>opt. apply_pairs opt qs)"
  by (induction opt ps rule: apply_pairs.induct) (simp_all add: rbind_assoc cong: rbind_cong)

text \<open>The specification side: a parameter is acceptable by itself, and the last one of a name counts.\<close>

fun is_ok :: "'a res \<Rightarrow> bool" where
  "is_ok (Ok _) = True"
| "is_ok _ = False"

definition good_pair :: "bytes \<times> bytes \<Rightarrow> bool" where
  "good_pair kv = ((fst kv = lit ''ssl-mode'' \<longrightarrow> is_ok (ssl_mode_from_str (snd kv))) \<and>
     (fst kv = lit ''statement-cache-capacity'' \<longrightarrow> parse_usize (snd kv) \<noteq> None))"

definition param :: "string \<Rightarrow> (bytes \<times> bytes) list \<Rightarrow> bytes option" where
  "param key kvs = map_of (rev kvs) (lit key)"

definition or_else :: "'a \<Rightarrow> 'a option \<Rightarrow> 'a" where
  "or_else d x = (case x of Some v \<Rightarrow> v | None \<Rightarrow> d)"

fun ok_or :: "'a \<Rightarrow> 'a res \<Rightarrow> 'a" where
  "ok_or d (Ok v) = v"
| "ok_or d _ = d"

definition with_params :: "(bytes \<times> bytes) list \<Rightarrow> options \<Rightarrow> options" where
  "with_params kvs opt = opt\<lparr>
     opt_ssl_mode := (case param ''ssl-mode'' kvs of Some v \<Rightarrow> ok_or Ssl_Disabled (ssl_mode_from_str v) | None \<Rightarrow> opt_ssl_mode opt),
     opt_ssl_ca := (case param ''ssl-ca'' kvs of Some v \<Rightarrow> Some (Cert_File v) | None \<Rightarrow> opt_ssl_ca opt),
     opt_charset := or_else (opt_charset opt) (param ''charset'' kvs),
     opt_collation := (case param ''collation'' kvs of Some v \<Rightarrow> Some v | None \<Rightarrow> opt_collation opt),
     opt_statement_cache_capacity := (case param ''statement-cache-capacity'' kvs of
        Some v \<Rightarrow> the (parse_usize v) | None \<Rightarrow> opt_statement_cache_capacity opt),
     opt_socket := (case param ''socket'' kvs of Some v \<Rightarrow> Some v | None \<Rightarrow> opt_socket opt)\<rparr>"

lemma param_snoc: "param key (kvs @ [kv]) = (if fst kv = lit key then Some (snd kv) else param key kvs)"
  by (cases kv) (simp add: param_def)

lemma param_Nil [simp]: "param key [] = None"
  by (simp add: param_def)

lemma apply_pair_bad: "\<not> good_pair kv \<Longrightarrow> \<exists>e. apply_pair opt kv = Err e"
  by (auto simp: good_pair_def apply_pair_def ssl_mode_from_str_def Let_def split: if_splits option.splits)

lemma key_neq:
  "lit ''ssl-ca'' \<noteq> lit ''ssl-mode''" "lit ''charset'' \<noteq> lit ''ssl-mode''" "lit ''collation'' \<noteq> lit ''ssl-mode''"
  "lit ''statement-cache-capacity'' \<noteq> lit ''ssl-mode''" "lit ''socket'' \<noteq> lit ''ssl-mode''"
  "lit ''charset'' \<noteq> lit ''ssl-ca''" "lit ''collation'' \<noteq> lit ''ssl-ca''"
  "lit ''statement-cache-capacity'' \<noteq> lit ''ssl-ca''" "lit ''socket'' \<noteq> lit ''ssl-ca''"
  "lit ''collation'' \<noteq> lit ''charset''" "lit ''statement-cache-capacity'' \<noteq> lit ''charset''"
  "lit ''socket'' \<noteq> lit ''charset''" "lit ''statement-cache-capacity'' \<noteq> lit ''collation''"
  "lit ''socket'' \<noteq> lit ''collation''" "lit ''socket'' \<noteq> lit ''statement-cache-capacity''"
  by (simp_all add: lit_def)

lemma apply_pair_good:
  assumes "good_pair kv"
  shows "apply_pair (with_params kvs opt) kv = Ok (with_params (kvs @ [kv]) opt)"
proof -
  note d = apply_pair_def with_params_def param_snoc Let_def setters or_else_def key_neq key_neq [symmetric]
  consider (mode) "fst kv = lit ''ssl-mode''" | (ca) "fst kv = lit ''ssl-ca''" | (cs) "fst kv = lit ''charset''"
    | (coll) "fst kv = lit ''collation''" | (cap) "fst kv = lit ''statement-cache-capacity''"
    | (sock) "fst kv = lit ''socket''"
    | (other) "fst kv \<notin> {lit ''ssl-mode'', lit ''ssl-ca'', lit ''charset'', lit ''collation'',
        lit ''statement-cache-capacity'', lit ''socket''}"
    by blast
  then show ?thesis
  proof cases
    case mode
    with assms obtain m where "ssl_mode_from_str (snd kv) = Ok m"
      by (cases "ssl_mode_from_str (snd kv)") (auto simp: good_pair_def)
    with mode show ?thesis by (simp add: d)
  next
    case cap
    with assms obtain n where "parse_usize (snd kv) = Some n" by (auto simp: good_pair_def)
    with cap show ?thesis by (simp add: d)
  qed (simp_all add: d)
qed

lemma apply_pairs_good: "\<forall>kv \<in> set kvs. good_pair kv \<Longrightarrow> apply_pairs opt kvs = Ok (with_params kvs opt)"
  by (induction kvs rule: rev_induct) (simp_all add: apply_pairs_append apply_pair_good, simp add: with_params_def or_else_def)

lemma apply_pairs_bad: "\<exists>kv \<in> set kvs. \<not> good_pair kv \<Longrightarrow> \<exists>e. apply_pairs opt kvs = Err e"
proof (induction opt kvs rule: apply_pairs.induct)
  case (2 opt kv kvs)
  show ?case
  proof (cases "good_pair kv")
    case True
    with apply_pairs_good [of "[kv]" opt] have "apply_pair opt kv = Ok (with_params [kv] opt)" by simp
    with "2.IH" "2.prems" True show ?thesis by auto
  qed (use apply_pair_bad [of kv opt] in auto)
qed simp

section \<open>Properties\<close>

definition url_path_name :: "url \<Rightarrow> bytes" where
  "url_path_name url = dropWhile (\<lambda>b. b = of_char (CHR ''/'')) (url_path url)"

definition url_options :: "url_crates \<Rightarrow> url \<Rightarrow> options" where
  "url_options U url = with_params (url_query_pairs url)
     \<lparr>opt_host = or_else (lit ''localhost'') (url_host_str url), opt_port = or_else 3306 (url_port url), opt_socket = None,
      opt_username = (if url_username url = [] then lit ''root'' else percent_decode U (url_username url)),
      opt_password = map_option (percent_decode U) (url_password url),
      opt_database = (if url_path_name url = [] then None else Some (url_path_name url)),
      opt_ssl_mode = Ssl_Disabled, opt_ssl_ca = None, opt_statement_cache_capacity = 100,
      opt_charset = lit ''utf8mb4'', opt_collation = None, opt_offset_sec = local_offset U\<rparr>"

text \<open>Parsing a connection URL.  For every URL the \<open>url\<close> crate accepts, \<open>from_str\<close> returns exactly the options the
  URL spells out: host, port, percent-decoded user name and password, the path without leading slashes as the
  database (not percent-decoded), for each query parameter the last value given, whatever the order of the
  parameters, and the documented defaults for everything absent; unknown parameters are ignored.  It returns an error,
  never a panic, exactly when the decoded user name or password is not UTF-8 or some \<open>ssl-mode\<close> or
  \<open>statement-cache-capacity\<close>, even one overridden later, does not parse.\<close>

theorem options_from_str_correct:
  assumes "parse_url U s = Ok url"
  defines "good \<equiv> (url_username url \<noteq> [] \<longrightarrow> utf8_ok (percent_decode U (url_username url))) \<and>
      (\<forall>p. url_password url = Some p \<longrightarrow> utf8_ok (percent_decode U p)) \<and> (\<forall>kv \<in> set (url_query_pairs url). good_pair kv)"
  shows "if good then options_from_str U s = Ok (url_options U url) else \<exists>e. options_from_str U s = Err e"
proof -
  note d = options_from_str_def url_options_def url_path_name_def Let_def options_new_def or_else_def setters from_utf8_def
  show ?thesis
  proof (cases good)
    case True
    then show ?thesis using assms(1)
      by (cases "url_password url"; cases "url_host_str url"; cases "url_port url")
        (simp_all add: d good_def apply_pairs_good)
  next
    case False
    then show ?thesis using assms(1) apply_pairs_bad [of "url_query_pairs url"]
      by (cases "url_password url"; cases "url_host_str url"; cases "url_port url")
        (auto simp add: d good_def)
  qed
qed

definition sample_url :: url where
  "sample_url = \<lparr>url_host_str = Some (lit ''db''), url_port = None, url_username = lit ''app'', url_password = Some (lit ''pw''),
     url_path = lit ''/shop'', url_query_pairs = [(lit ''ssl-mode'', lit ''Disabled''), (lit ''x'', []),
       (lit ''statement-cache-capacity'', lit ''7''), (lit ''ssl-mode'', lit ''VERIFY_CA'')]\<rparr>"

definition sample_url_crates :: url_crates where
  "sample_url_crates = \<lparr>parse_url = (\<lambda>_. Ok sample_url), percent_decode = (\<lambda>bs. bs), local_offset = 0\<rparr>"

theorem options_from_str_correct_witness:
  "\<exists>opt. options_from_str sample_url_crates [] = Ok opt \<and> opt_ssl_mode opt = Ssl_VerifyCa \<and>
     opt_statement_cache_capacity opt = 7 \<and> opt_port opt = 3306 \<and> opt_database opt = Some (lit ''shop'')"
proof -
  have u: "utf8_ok (lit ''app'')" "utf8_ok (lit ''pw'')" by code_simp+
  have q: "\<forall>kv \<in> set (url_query_pairs sample_url). good_pair kv" by code_simp
  have g: "(url_username sample_url \<noteq> [] \<longrightarrow> utf8_ok (percent_decode sample_url_crates (url_username sample_url))) \<and>
      (\<forall>p. url_password sample_url = Some p \<longrightarrow> utf8_ok (percent_decode sample_url_crates p)) \<and>
      (\<forall>kv \<in> set (url_query_pairs sample_url). good_pair kv)"
    using u q by (simp add: sample_url_crates_def) (simp add: sample_url_def)
  have "parse_url sample_url_crates [] = Ok sample_url" by (simp add: sample_url_crates_def)
  from options_from_str_correct [OF this] g
  have "options_from_str sample_url_crates [] = Ok (url_options sample_url_crates sample_url)" by simp
  moreover have "opt_ssl_mode (url_options sample_url_crates sample_url) = Ssl_VerifyCa \<and>
      opt_statement_cache_capacity (url_options sample_url_crates sample_url) = 7 \<and>
      opt_port (url_options sample_url_crates sample_url) = 3306 \<and>
      opt_database (url_options sample_url_crates sample_url) = Some (lit ''shop'')"
    by code_simp
  ultimately show ?thesis by blast
qed

end
