(* ===== verification/Pg_Type_Info.thy ===== *)
theory Pg_Type_Info
  imports Std_Text
begin

text \<open>
  The types of PostgreSQL (\<open>rbdc-pg/src/type_info.rs\<close>).  A built-in variant of \<open>PgType\<close> is named by its
  identifier; \<open>PgTypeInfo\<close> is a wrapper around \<open>PgType\<close> and is not distinguished from it.  Each \<open>match\<close> over the
  variants is a table.
\<close>

section \<open>Model\<close>

datatype pg_type =
    Builtin string
  | Custom u32 bytes pg_kind
  | DeclareWithName bytes
  | DeclareWithOid u32
and pg_kind =
    K_Simple
  | K_Pseudo
  | K_Domain pg_type
  | K_Composite "(bytes \<times> pg_type) list"
  | K_Array pg_type
  | K_Enum "bytes list"
  | K_Range pg_type

text \<open>The built-in variants.\<close>

definition builtin_types :: "string list" where
  "builtin_types =
     [''Bool'', ''Bytea'', ''Char'', ''Name'', ''Int8'', ''Int2'', ''Int4'', ''Text'', ''Oid'', ''Json'',
      ''JsonArray'', ''Point'', ''Lseg'', ''Path'', ''Box'', ''Polygon'', ''Line'', ''LineArray'', ''Cidr'',
      ''CidrArray'', ''Float4'', ''Float8'', ''Unknown'', ''Circle'', ''CircleArray'', ''Macaddr8'',
      ''Macaddr8Array'', ''Macaddr'', ''Inet'', ''BoolArray'', ''ByteaArray'', ''CharArray'', ''NameArray'',
      ''Int2Array'', ''Int4Array'', ''TextArray'', ''BpcharArray'', ''VarcharArray'', ''Int8Array'', ''PointArray'',
      ''LsegArray'', ''PathArray'', ''BoxArray'', ''Float4Array'', ''Float8Array'', ''PolygonArray'', ''OidArray'',
      ''MacaddrArray'', ''InetArray'', ''Bpchar'', ''Varchar'', ''Date'', ''Time'', ''Timestamp'',
      ''TimestampArray'', ''DateArray'', ''TimeArray'', ''Timestamptz'', ''TimestamptzArray'', ''Interval'',
      ''IntervalArray'', ''NumericArray'', ''Timetz'', ''TimetzArray'', ''Bit'', ''BitArray'', ''Varbit'',
      ''VarbitArray'', ''Numeric'', ''Record'', ''RecordArray'', ''Uuid'', ''UuidArray'', ''Jsonb'', ''JsonbArray'',
      ''Int4Range'', ''Int4RangeArray'', ''NumRange'', ''NumRangeArray'', ''TsRange'', ''TsRangeArray'',
      ''TstzRange'', ''TstzRangeArray'', ''DateRange'', ''DateRangeArray'', ''Int8Range'', ''Int8RangeArray'',
      ''Jsonpath'', ''JsonpathArray'', ''Money'', ''MoneyArray'', ''Hstore'', ''HstoreArray'', ''Tsvector'',
      ''Tsquery'', ''Void'']"

definition from_oid_table :: "(u32 \<times> string) list" where
  "from_oid_table =
     [(16, ''Bool''), (17, ''Bytea''), (18, ''Char''), (19, ''Name''), (20, ''Int8''), (21, ''Int2''),
      (23, ''Int4''), (25, ''Text''), (26, ''Oid''), (114, ''Json''), (199, ''JsonArray''), (600, ''Point''),
      (601, ''Lseg''), (602, ''Path''), (603, ''Box''), (604, ''Polygon''), (628, ''Line''), (629, ''LineArray''),
      (650, ''Cidr''), (651, ''CidrArray''), (700, ''Float4''), (701, ''Float8''), (705, ''Unknown''),
      (718, ''Circle''), (719, ''CircleArray''), (774, ''Macaddr8''), (775, ''Macaddr8Array''), (790, ''Money''),
      (791, ''MoneyArray''), (829, ''Macaddr''), (869, ''Inet''), (1000, ''BoolArray''), (1001, ''ByteaArray''),
      (1002, ''CharArray''), (1003, ''NameArray''), (1005, ''Int2Array''), (1007, ''Int4Array''),
      (1009, ''TextArray''), (1014, ''BpcharArray''), (1015, ''VarcharArray''), (1016, ''Int8Array''),
      (1017, ''PointArray''), (1018, ''LsegArray''), (1019, ''PathArray''), (1020, ''BoxArray''),
      (1021, ''Float4Array''), (1022, ''Float8Array''), (1027, ''PolygonArray''), (1028, ''OidArray''),
      (1040, ''MacaddrArray''), (1041, ''InetArray''), (1042, ''Bpchar''), (1043, ''Varchar''), (1082, ''Date''),
      (1083, ''Time''), (1114, ''Timestamp''), (1115, ''TimestampArray''), (1182, ''DateArray''),
      (1183, ''TimeArray''), (1184, ''Timestamptz''), (1185, ''TimestamptzArray''), (1186, ''Interval''),
      (1187, ''IntervalArray''), (1231, ''NumericArray''), (1266, ''Timetz''), (1270, ''TimetzArray''),
      (1560, ''Bit''), (1561, ''BitArray''), (1562, ''Varbit''), (1563, ''VarbitArray''), (1700, ''Numeric''),
      (2278, ''Void''), (2249, ''Record''), (2287, ''RecordArray''), (2950, ''Uuid''), (2951, ''UuidArray''),
      (3802, ''Jsonb''), (3807, ''JsonbArray''), (3904, ''Int4Range''), (3905, ''Int4RangeArray''),
      (3906, ''NumRange''), (3907, ''NumRangeArray''), (3908, ''TsRange''), (3909, ''TsRangeArray''),
      (3910, ''TstzRange''), (3911, ''TstzRangeArray''), (3912, ''DateRange''), (3913, ''DateRangeArray''),
      (3926, ''Int8Range''), (3927, ''Int8RangeArray''), (4072, ''Jsonpath''), (4073, ''JsonpathArray''),
      (3361, ''Hstore''), (3362, ''HstoreArray''), (3614, ''Tsvector''), (3615, ''Tsquery'')]"

definition oid_table :: "(string \<times> u32) list" where
  "oid_table =
     [(''Bool'', 16), (''Bytea'', 17), (''Char'', 18), (''Name'', 19), (''Int8'', 20), (''Int2'', 21),
      (''Int4'', 23), (''Text'', 25), (''Oid'', 26), (''Json'', 114), (''JsonArray'', 199), (''Point'', 600),
      (''Lseg'', 601), (''Path'', 602), (''Box'', 603), (''Polygon'', 604), (''Line'', 628), (''LineArray'', 629),
      (''Cidr'', 650), (''CidrArray'', 651), (''Float4'', 700), (''Float8'', 701), (''Unknown'', 705),
      (''Circle'', 718), (''CircleArray'', 719), (''Macaddr8'', 774), (''Macaddr8Array'', 775), (''Money'', 790),
      (''MoneyArray'', 791), (''Hstore'', 3361), (''HstoreArray'', 3362), (''Tsvector'', 3614), (''Tsquery'', 3615),
      (''Macaddr'', 829), (''Inet'', 869), (''BoolArray'', 1000), (''ByteaArray'', 1001), (''CharArray'', 1002),
      (''NameArray'', 1003), (''Int2Array'', 1005), (''Int4Array'', 1007), (''TextArray'', 1009),
      (''BpcharArray'', 1014), (''VarcharArray'', 1015), (''Int8Array'', 1016), (''PointArray'', 1017),
      (''LsegArray'', 1018), (''PathArray'', 1019), (''BoxArray'', 1020), (''Float4Array'', 1021),
      (''Float8Array'', 1022), (''PolygonArray'', 1027), (''OidArray'', 1028), (''MacaddrArray'', 1040),
      (''InetArray'', 1041), (''Bpchar'', 1042), (''Varchar'', 1043), (''Date'', 1082), (''Time'', 1083),
      (''Timestamp'', 1114), (''TimestampArray'', 1115), (''DateArray'', 1182), (''TimeArray'', 1183),
      (''Timestamptz'', 1184), (''TimestamptzArray'', 1185), (''Interval'', 1186), (''IntervalArray'', 1187),
      (''NumericArray'', 1231), (''Timetz'', 1266), (''TimetzArray'', 1270), (''Bit'', 1560), (''BitArray'', 1561),
      (''Varbit'', 1562), (''VarbitArray'', 1563), (''Numeric'', 1700), (''Void'', 2278), (''Record'', 2249),
      (''RecordArray'', 2287), (''Uuid'', 2950), (''UuidArray'', 2951), (''Jsonb'', 3802), (''JsonbArray'', 3807),
      (''Int4Range'', 3904), (''Int4RangeArray'', 3905), (''NumRange'', 3906), (''NumRangeArray'', 3907),
      (''TsRange'', 3908), (''TsRangeArray'', 3909), (''TstzRange'', 3910), (''TstzRangeArray'', 3911),
      (''DateRange'', 3912), (''DateRangeArray'', 3913), (''Int8Range'', 3926), (''Int8RangeArray'', 3927),
      (''Jsonpath'', 4072), (''JsonpathArray'', 4073)]"

definition display_table :: "(string \<times> string) list" where
  "display_table =
     [(''Bool'', ''BOOL''), (''Bytea'', ''BYTEA''), (''Char'', [CHR 0x22]@''CHAR''@[CHR 0x22]), (''Name'', ''NAME''),
      (''Int8'', ''INT8''), (''Int2'', ''INT2''), (''Int4'', ''INT4''), (''Text'', ''TEXT''), (''Oid'', ''OID''),
      (''Json'', ''JSON''), (''JsonArray'', ''JSON[]''), (''Point'', ''POINT''), (''Lseg'', ''LSEG''),
      (''Path'', ''PATH''), (''Box'', ''BOX''), (''Polygon'', ''POLYGON''), (''Line'', ''LINE''),
      (''LineArray'', ''LINE[]''), (''Cidr'', ''CIDR''), (''CidrArray'', ''CIDR[]''), (''Float4'', ''FLOAT4''),
      (''Float8'', ''FLOAT8''), (''Unknown'', ''UNKNOWN''), (''Circle'', ''CIRCLE''),
      (''CircleArray'', ''CIRCLE[]''), (''Macaddr8'', ''MACADDR8''), (''Macaddr8Array'', ''MACADDR8[]''),
      (''Macaddr'', ''MACADDR''), (''Inet'', ''INET''), (''BoolArray'', ''BOOL[]''), (''ByteaArray'', ''BYTEA[]''),
      (''CharArray'', [CHR 0x22]@''CHAR''@[CHR 0x22]@''[]''), (''NameArray'', ''NAME[]''),
      (''Int2Array'', ''INT2[]''), (''Int4Array'', ''INT4[]''), (''TextArray'', ''TEXT[]''),
      (''BpcharArray'', ''CHAR[]''), (''VarcharArray'', ''VARCHAR[]''), (''Int8Array'', ''INT8[]''),
      (''PointArray'', ''POINT[]''), (''LsegArray'', ''LSEG[]''), (''PathArray'', ''PATH[]''),
      (''BoxArray'', ''BOX[]''), (''Float4Array'', ''FLOAT4[]''), (''Float8Array'', ''FLOAT8[]''),
      (''PolygonArray'', ''POLYGON[]''), (''OidArray'', ''OID[]''), (''MacaddrArray'', ''MACADDR[]''),
      (''InetArray'', ''INET[]''), (''Bpchar'', ''CHAR''), (''Varchar'', ''VARCHAR''), (''Date'', ''DATE''),
      (''Time'', ''TIME''), (''Timestamp'', ''TIMESTAMP''), (''TimestampArray'', ''TIMESTAMP[]''),
      (''DateArray'', ''DATE[]''), (''TimeArray'', ''TIME[]''), (''Timestamptz'', ''TIMESTAMPTZ''),
      (''TimestamptzArray'', ''TIMESTAMPTZ[]''), (''Interval'', ''INTERVAL''), (''IntervalArray'', ''INTERVAL[]''),
      (''NumericArray'', ''NUMERIC[]''), (''Timetz'', ''TIMETZ''), (''TimetzArray'', ''TIMETZ[]''),
      (''Bit'', ''BIT''), (''BitArray'', ''BIT[]''), (''Varbit'', ''VARBIT''), (''VarbitArray'', ''VARBIT[]''),
      (''Numeric'', ''NUMERIC''), (''Record'', ''RECORD''), (''RecordArray'', ''RECORD[]''), (''Uuid'', ''UUID''),
      (''UuidArray'', ''UUID[]''), (''Jsonb'', ''JSONB''), (''JsonbArray'', ''JSONB[]''),
      (''Int4Range'', ''INT4RANGE''), (''Int4RangeArray'', ''INT4RANGE[]''), (''NumRange'', ''NUMRANGE''),
      (''NumRangeArray'', ''NUMRANGE[]''), (''TsRange'', ''TSRANGE''), (''TsRangeArray'', ''TSRANGE[]''),
      (''TstzRange'', ''TSTZRANGE''), (''TstzRangeArray'', ''TSTZRANGE[]''), (''DateRange'', ''DATERANGE''),
      (''DateRangeArray'', ''DATERANGE[]''), (''Int8Range'', ''INT8RANGE''), (''Int8RangeArray'', ''INT8RANGE[]''),
      (''Jsonpath'', ''JSONPATH''), (''JsonpathArray'', ''JSONPATH[]''), (''Money'', ''MONEY''),
      (''MoneyArray'', ''MONEY[]''), (''Hstore'', ''HSTORE''), (''HstoreArray'', ''HSTORE[]''),
      (''Tsvector'', ''TSVECTOR''), (''Tsquery'', ''TSQUERY''), (''Void'', ''VOID'')]"

definition name_table :: "(string \<times> string) list" where
  "name_table =
     [(''Bool'', ''bool''), (''Bytea'', ''bytea''), (''Char'', ''char''), (''Name'', ''name''), (''Int8'', ''int8''),
      (''Int2'', ''int2''), (''Int4'', ''int4''), (''Text'', ''text''), (''Oid'', ''oid''), (''Json'', ''json''),
      (''JsonArray'', ''_json''), (''Point'', ''point''), (''Lseg'', ''lseg''), (''Path'', ''path''),
      (''Box'', ''box''), (''Polygon'', ''polygon''), (''Line'', ''line''), (''LineArray'', ''_line''),
      (''Cidr'', ''cidr''), (''CidrArray'', ''_cidr''), (''Float4'', ''float4''), (''Float8'', ''float8''),
      (''Unknown'', ''unknown''), (''Circle'', ''circle''), (''CircleArray'', ''_circle''),
      (''Macaddr8'', ''macaddr8''), (''Macaddr8Array'', ''_macaddr8''), (''Macaddr'', ''macaddr''),
      (''Inet'', ''inet''), (''BoolArray'', ''_bool''), (''ByteaArray'', ''_bytea''), (''CharArray'', ''_char''),
      (''NameArray'', ''_name''), (''Int2Array'', ''_int2''), (''Int4Array'', ''_int4''), (''TextArray'', ''_text''),
      (''BpcharArray'', ''_bpchar''), (''VarcharArray'', ''_varchar''), (''Int8Array'', ''_int8''),
      (''PointArray'', ''_point''), (''LsegArray'', ''_lseg''), (''PathArray'', ''_path''), (''BoxArray'', ''_box''),
      (''Float4Array'', ''_float4''), (''Float8Array'', ''_float8''), (''PolygonArray'', ''_polygon''),
      (''OidArray'', ''_oid''), (''MacaddrArray'', ''_macaddr''), (''InetArray'', ''_inet''),
      (''Bpchar'', ''bpchar''), (''Varchar'', ''varchar''), (''Date'', ''date''), (''Time'', ''time''),
      (''Timestamp'', ''timestamp''), (''TimestampArray'', ''_timestamp''), (''DateArray'', ''_date''),
      (''TimeArray'', ''_time''), (''Timestamptz'', ''timestamptz''), (''TimestamptzArray'', ''_timestamptz''),
      (''Interval'', ''interval''), (''IntervalArray'', ''_interval''), (''NumericArray'', ''_numeric''),
      (''Timetz'', ''timetz''), (''TimetzArray'', ''_timetz''), (''Bit'', ''bit''), (''BitArray'', ''_bit''),
      (''Varbit'', ''varbit''), (''VarbitArray'', ''_varbit''), (''Numeric'', ''numeric''), (''Record'', ''record''),
      (''RecordArray'', ''_record''), (''Uuid'', ''uuid''), (''UuidArray'', ''_uuid''), (''Jsonb'', ''jsonb''),
      (''JsonbArray'', ''_jsonb''), (''Int4Range'', ''int4range''), (''Int4RangeArray'', ''_int4range''),
      (''NumRange'', ''numrange''), (''NumRangeArray'', ''_numrange''), (''TsRange'', ''tsrange''),
      (''TsRangeArray'', ''_tsrange''), (''TstzRange'', ''tstzrange''), (''TstzRangeArray'', ''_tstzrange''),
      (''DateRange'', ''daterange''), (''DateRangeArray'', ''_daterange''), (''Int8Range'', ''int8range''),
      (''Int8RangeArray'', ''_int8range''), (''Jsonpath'', ''jsonpath''), (''JsonpathArray'', ''_jsonpath''),
      (''Money'', ''money''), (''MoneyArray'', ''_money''), (''Hstore'', ''hstore''), (''HstoreArray'', ''_hstore''),
      (''Tsvector'', ''tsvector''), (''Tsquery'', ''tsquery''), (''Void'', ''void'')]"

definition simple_kinds :: "string list" where
  "simple_kinds =
     [''Bool'', ''Bytea'', ''Char'', ''Name'', ''Int8'', ''Int2'', ''Int4'', ''Text'', ''Oid'', ''Json'', ''Point'',
      ''Lseg'', ''Path'', ''Box'', ''Polygon'', ''Line'', ''Cidr'', ''Float4'', ''Float8'', ''Unknown'', ''Circle'',
      ''Macaddr8'', ''Macaddr'', ''Inet'', ''Bpchar'', ''Varchar'', ''Date'', ''Time'', ''Timestamp'',
      ''Timestamptz'', ''Interval'', ''Timetz'', ''Bit'', ''Varbit'', ''Numeric'', ''Record'', ''Uuid'', ''Jsonb'',
      ''Jsonpath'', ''Money'', ''Hstore'', ''Tsvector'', ''Tsquery'']"

definition array_kinds :: "(string \<times> string) list" where
  "array_kinds =
     [(''JsonArray'', ''Json''), (''LineArray'', ''Line''), (''CidrArray'', ''Cidr''), (''CircleArray'', ''Circle''),
      (''Macaddr8Array'', ''Macaddr8''), (''BoolArray'', ''Bool''), (''ByteaArray'', ''Bytea''),
      (''CharArray'', ''Char''), (''NameArray'', ''Name''), (''Int2Array'', ''Int2''), (''Int4Array'', ''Int4''),
      (''TextArray'', ''Text''), (''BpcharArray'', ''Bpchar''), (''VarcharArray'', ''Varchar''),
      (''Int8Array'', ''Int8''), (''PointArray'', ''Point''), (''LsegArray'', ''Lseg''), (''PathArray'', ''Path''),
      (''BoxArray'', ''Box''), (''Float4Array'', ''Float4''), (''Float8Array'', ''Float8''),
      (''PolygonArray'', ''Polygon''), (''OidArray'', ''Oid''), (''MacaddrArray'', ''Macaddr''),
      (''InetArray'', ''Inet''), (''TimestampArray'', ''Timestamp''), (''DateArray'', ''Date''),
      (''TimeArray'', ''Time''), (''TimestamptzArray'', ''Timestamptz''), (''IntervalArray'', ''Interval''),
      (''NumericArray'', ''Numeric''), (''TimetzArray'', ''Timetz''), (''BitArray'', ''Bit''),
      (''VarbitArray'', ''Varbit''), (''RecordArray'', ''Record''), (''UuidArray'', ''Uuid''),
      (''JsonbArray'', ''Jsonb''), (''Int4RangeArray'', ''Int4Range''), (''NumRangeArray'', ''NumRange''),
      (''TsRangeArray'', ''TsRange''), (''TstzRangeArray'', ''TstzRange''), (''DateRangeArray'', ''DateRange''),
      (''Int8RangeArray'', ''Int8Range''), (''JsonpathArray'', ''Jsonpath''), (''MoneyArray'', ''Money''),
      (''HstoreArray'', ''Hstore'')]"

definition range_kinds :: "(string \<times> string) list" where
  "range_kinds =
     [(''Int4Range'', ''Int4''), (''NumRange'', ''Numeric''), (''TsRange'', ''Timestamp''),
      (''TstzRange'', ''Timestamptz''), (''DateRange'', ''Date''), (''Int8Range'', ''Int8'')]"

definition element_table :: "(string \<times> string) list" where
  "element_table =
     [(''BoolArray'', ''Bool''), (''ByteaArray'', ''Bytea''), (''CharArray'', ''Char''), (''NameArray'', ''Name''),
      (''Int8Array'', ''Int8''), (''Int2Array'', ''Int2''), (''Int4Array'', ''Int4''), (''TextArray'', ''Text''),
      (''OidArray'', ''Oid''), (''JsonArray'', ''Json''), (''PointArray'', ''Point''), (''LsegArray'', ''Lseg''),
      (''PathArray'', ''Path''), (''BoxArray'', ''Box''), (''PolygonArray'', ''Polygon''), (''LineArray'', ''Line''),
      (''CidrArray'', ''Cidr''), (''Float4Array'', ''Float4''), (''Float8Array'', ''Float8''),
      (''CircleArray'', ''Circle''), (''Macaddr8Array'', ''Macaddr8''), (''MoneyArray'', ''Money''),
      (''HstoreArray'', ''Hstore''), (''MacaddrArray'', ''Macaddr''), (''InetArray'', ''Inet''),
      (''BpcharArray'', ''Bpchar''), (''VarcharArray'', ''Varchar''), (''DateArray'', ''Date''),
      (''TimeArray'', ''Time''), (''TimestampArray'', ''Timestamp''), (''TimestamptzArray'', ''Timestamptz''),
      (''IntervalArray'', ''Interval''), (''TimetzArray'', ''Timetz''), (''BitArray'', ''Bit''),
      (''VarbitArray'', ''Varbit''), (''NumericArray'', ''Numeric''), (''RecordArray'', ''Record''),
      (''UuidArray'', ''Uuid''), (''JsonbArray'', ''Jsonb''), (''Int4RangeArray'', ''Int4Range''),
      (''NumRangeArray'', ''NumRange''), (''TsRangeArray'', ''TsRange''), (''TstzRangeArray'', ''TstzRange''),
      (''DateRangeArray'', ''DateRange''), (''Int8RangeArray'', ''Int8Range''), (''JsonpathArray'', ''Jsonpath'')]"

definition self_element_table :: "(string \<times> string) list" where
  "self_element_table =
     [(''Bool'', ''Bool''), (''Bytea'', ''Bytea''), (''Char'', ''Char''), (''Name'', ''Name''), (''Int8'', ''Int8''),
      (''Int2'', ''Int2''), (''Int4'', ''Int4''), (''Text'', ''Text''), (''Oid'', ''Oid''), (''Json'', ''Json''),
      (''Point'', ''Point''), (''Lseg'', ''Lseg''), (''Path'', ''Path''), (''Box'', ''Box''),
      (''Polygon'', ''Polygon''), (''Line'', ''Line''), (''Cidr'', ''Cidr''), (''Float4'', ''Float4''),
      (''Float8'', ''Float8''), (''Circle'', ''Circle''), (''Macaddr8'', ''Macaddr8''), (''Money'', ''Money''),
      (''Hstore'', ''Hstore''), (''Macaddr'', ''Macaddr''), (''Inet'', ''Inet''), (''Bpchar'', ''Bpchar''),
      (''Varchar'', ''Varchar''), (''Date'', ''Date''), (''Time'', ''Time''), (''Timestamp'', ''Timestamp''),
      (''Timestamptz'', ''Timestamptz''), (''Interval'', ''Interval''), (''Timetz'', ''Timetz''), (''Bit'', ''Bit''),
      (''Varbit'', ''Varbit''), (''Numeric'', ''Numeric''), (''Record'', ''Record''), (''Uuid'', ''Uuid''),
      (''Jsonb'', ''Jsonb''), (''Int4Range'', ''Int4Range''), (''NumRange'', ''NumRange''),
      (''TsRange'', ''TsRange''), (''TstzRange'', ''TstzRange''), (''DateRange'', ''DateRange''),
      (''Int8Range'', ''Int8Range''), (''Jsonpath'', ''Jsonpath'')]"

definition array_type_table :: "(string \<times> string) list" where
  "array_type_table =
     [(''Bool'', ''BoolArray''), (''Bytea'', ''ByteaArray''), (''Char'', ''CharArray''), (''Name'', ''NameArray''),
      (''Int8'', ''Int8Array''), (''Int2'', ''Int2Array''), (''Int4'', ''Int4Array''), (''Text'', ''TextArray''),
      (''Oid'', ''OidArray''), (''Json'', ''JsonArray''), (''Point'', ''PointArray''), (''Lseg'', ''LsegArray''),
      (''Path'', ''PathArray''), (''Box'', ''BoxArray''), (''Polygon'', ''PolygonArray''), (''Line'', ''LineArray''),
      (''Cidr'', ''CidrArray''), (''Float4'', ''Float4Array''), (''Float8'', ''Float8Array''),
      (''Circle'', ''CircleArray''), (''Macaddr8'', ''Macaddr8Array''), (''Money'', ''MoneyArray''),
      (''Hstore'', ''HstoreArray''), (''Macaddr'', ''MacaddrArray''), (''Inet'', ''InetArray''),
      (''Bpchar'', ''BpcharArray''), (''Varchar'', ''VarcharArray''), (''Date'', ''DateArray''),
      (''Time'', ''TimeArray''), (''Timestamp'', ''TimestampArray''), (''Timestamptz'', ''TimestamptzArray''),
      (''Interval'', ''IntervalArray''), (''Timetz'', ''TimetzArray''), (''Bit'', ''BitArray''),
      (''Varbit'', ''VarbitArray''), (''Numeric'', ''NumericArray''), (''Record'', ''RecordArray''),
      (''Uuid'', ''UuidArray''), (''Jsonb'', ''JsonbArray''), (''Int4Range'', ''Int4RangeArray''),
      (''NumRange'', ''NumRangeArray''), (''TsRange'', ''TsRangeArray''), (''TstzRange'', ''TstzRangeArray''),
      (''DateRange'', ''DateRangeArray''), (''Int8Range'', ''Int8RangeArray''), (''Jsonpath'', ''JsonpathArray'')]"

definition try_from_oid :: "u32 \<Rightarrow> pg_type option" where
  "try_from_oid oid = map_option Builtin (map_of from_oid_table oid)"

definition try_oid :: "pg_type \<Rightarrow> u32 option" where
  "try_oid t =
     (case t of
        Builtin b \<Rightarrow> map_of oid_table b
      | Custom oid _ _ \<Rightarrow> Some oid
      | DeclareWithOid oid \<Rightarrow> Some oid
      | DeclareWithName _ \<Rightarrow> None)"

definition type_oid :: "pg_type \<Rightarrow> u32 res" where
  "type_oid t = (case try_oid t of Some oid \<Rightarrow> Ok oid | None \<Rightarrow> Panic)"

definition display_name :: "pg_type \<Rightarrow> bytes" where
  "display_name t =
     (case t of
        Builtin b \<Rightarrow> (case map_of display_table b of Some s \<Rightarrow> lit s | None \<Rightarrow> [])
      | Custom _ name _ \<Rightarrow> name
      | DeclareWithOid _ \<Rightarrow> lit ''?''
      | DeclareWithName name \<Rightarrow> name)"

definition type_name :: "pg_type \<Rightarrow> bytes" where
  "type_name t =
     (case t of
        Builtin b \<Rightarrow> (case map_of name_table b of Some s \<Rightarrow> lit s | None \<Rightarrow> [])
      | Custom _ name _ \<Rightarrow> name
      | DeclareWithOid _ \<Rightarrow> lit ''?''
      | DeclareWithName name \<Rightarrow> name)"

definition type_kind :: "pg_type \<Rightarrow> pg_kind res" where
  "type_kind t =
     (case t of
        Builtin b \<Rightarrow>
          if b \<in> set simple_kinds then Ok K_Simple
          else (case map_of array_kinds b of
                  Some e \<Rightarrow> Ok (K_Array (Builtin e))
                | None \<Rightarrow> (case map_of range_kinds b of
                             Some e \<Rightarrow> Ok (K_Range (Builtin e))
                           | None \<Rightarrow> Ok K_Pseudo))
      | Custom _ _ kind \<Rightarrow> Ok kind
      | DeclareWithOid _ \<Rightarrow> Panic
      | DeclareWithName _ \<Rightarrow> Panic)"

definition try_array_element :: "pg_type \<Rightarrow> pg_type option res" where
  "try_array_element t =
     (case t of
        Builtin b \<Rightarrow> Ok (map_option Builtin (map_of element_table b))
      | Custom _ _ kind \<Rightarrow> Ok (case kind of K_Array e \<Rightarrow> Some e | _ \<Rightarrow> None)
      | DeclareWithOid _ \<Rightarrow> Panic
      | DeclareWithName _ \<Rightarrow> Panic)"

definition to_array_element :: "pg_type \<Rightarrow> pg_type option" where
  "to_array_element t = (case t of Builtin b \<Rightarrow> map_option Builtin (map_of self_element_table b) | _ \<Rightarrow> None)"

definition to_array_type :: "pg_type \<Rightarrow> pg_type option" where
  "to_array_type t = (case t of Builtin b \<Rightarrow> map_option Builtin (map_of array_type_table b) | _ \<Rightarrow> None)"

definition is_void :: "pg_type \<Rightarrow> bool" where
  "is_void t = (t = Builtin ''Void'')"

definition eq_ignore_ascii_case :: "bytes \<Rightarrow> bytes \<Rightarrow> bool" where
  "eq_ignore_ascii_case a b = (map ascii_lower a = map ascii_lower b)"

definition pg_type_eq :: "pg_type \<Rightarrow> pg_type \<Rightarrow> bool" where
  "pg_type_eq a b =
     (case (try_oid a, try_oid b) of
        (Some x, Some y) \<Rightarrow> x = y
      | _ \<Rightarrow>
          (case (a, b) of
             (DeclareWithName _, DeclareWithOid _) \<Rightarrow> True
           | (DeclareWithOid _, DeclareWithName _) \<Rightarrow> True
           | _ \<Rightarrow> eq_ignore_ascii_case (type_name a) (type_name b)))"

definition custom_type_eq :: "pg_type \<Rightarrow> pg_type \<Rightarrow> bool" where
  "custom_type_eq a b = (case (a, b) of (Custom x _ _, Custom y _ _) \<Rightarrow> x = y | _ \<Rightarrow> False)"

definition pg_type_feature_gate :: "pg_type \<Rightarrow> string option" where
  "pg_type_feature_gate t =
     (let among = (\<lambda>bs. list_ex (\<lambda>b. pg_type_eq (Builtin b) t) bs) in
      if among [''Date'', ''Time'', ''Timestamp'', ''Timestamptz'', ''DateArray'', ''TimeArray'', ''TimestampArray'', ''TimestamptzArray'']
      then Some ''time''
      else if among [''Uuid'', ''UuidArray''] then Some ''uuid''
      else if among [''Json'', ''Jsonb'', ''JsonArray'', ''JsonbArray''] then Some ''json''
      else if among [''Cidr'', ''Inet'', ''CidrArray'', ''InetArray''] then Some ''ipnetwork''
      else if among [''Macaddr''] then Some ''mac_address''
      else if among [''Numeric'', ''NumericArray''] then Some ''bigdecimal''
      else None)"

section \<open>Lemmas\<close>

text \<open>Facts about the tables, by computation.\<close>

lemma name_keys: "map fst name_table = builtin_types"
  by code_simp

lemma display_keys: "map fst display_table = builtin_types"
  by code_simp

lemma distinct_types [simp]: "distinct builtin_types"
  by (simp add: builtin_types_def)

lemma distinct_names: "distinct (map snd name_table)"
  by (simp add: name_table_def)

lemma distinct_oid_keys: "distinct (map fst oid_table)"
  by (simp add: oid_table_def)

lemma distinct_from_oid_keys: "distinct (map fst from_oid_table)"
  by (simp add: from_oid_table_def)

lemma from_oid_in_oid_table: "list_all (\<lambda>(oid, b). map_of oid_table b = Some oid) from_oid_table"
  by code_simp

lemma oid_keys_named: "list_all (\<lambda>(b, oid). map_of name_table b \<noteq> None) oid_table"
  by code_simp

lemma table_lengths:
  "length oid_table = 96" "length from_oid_table = 96" "length builtin_types = 96"
  by (simp_all add: oid_table_def from_oid_table_def builtin_types_def)

lemma array_types_have_elements:
  "list_all (\<lambda>(b, a). map_of element_table a = Some b \<and> map_of array_kinds a = Some b) array_type_table"
  by code_simp

lemma elements_have_array_types: "list_all (\<lambda>(a, b). map_of array_type_table b = Some a) element_table"
  by code_simp

lemma array_kinds_have_array_types: "list_all (\<lambda>(a, b). map_of array_type_table b = Some a) array_kinds"
  by code_simp

lemma self_elements: "map (\<lambda>(b, a). (b, b)) array_type_table = self_element_table"
  by code_simp

lemma array_kinds_not_simple: "list_all (\<lambda>(a, b). a \<notin> set simple_kinds) array_kinds"
  by code_simp

text \<open>Lookups in injective tables.\<close>

lemma map_of_list_all: "list_all (\<lambda>(k, v). P k v) xs \<Longrightarrow> map_of xs k = Some v \<Longrightarrow> P k v"
  by (auto simp: list_all_iff dest: map_of_SomeD)

lemma map_of_inj:
  assumes "distinct (map snd xs)" and "map_of xs k = Some v" and "map_of xs l = Some v"
  shows "k = l"
  using assms by (metis (no_types, lifting) distinct_map inj_on_def map_of_SomeD prod.inject snd_conv)

lemma set_eq_by_length:
  assumes "set xs \<subseteq> set ys" and "distinct xs" and "length xs = length ys"
  shows "set xs = set ys"
  using assms by (metis card_length card_seteq distinct_card finite_set)

lemma oid_keys: "set (map fst oid_table) = set builtin_types"
proof (rule set_eq_by_length [OF _ distinct_oid_keys])
  show "set (map fst oid_table) \<subseteq> set builtin_types"
    using oid_keys_named unfolding name_keys [symmetric] by (auto simp: list_all_iff map_of_eq_None_iff)
qed (simp add: table_lengths)

lemma oid_tables_agree: "map_of from_oid_table oid = Some b \<longleftrightarrow> map_of oid_table b = Some oid"
proof -
  let ?sw = "\<lambda>(oid, b). (b, oid)"
  have d: "distinct (map ?sw from_oid_table)"
    using distinct_from_oid_keys by (auto simp: distinct_map inj_on_def)
  have "set (map ?sw from_oid_table) = set oid_table"
    using from_oid_in_oid_table
    by (intro set_eq_by_length d) (auto simp: table_lengths list_all_iff dest: map_of_SomeD)
  then have "(oid, b) \<in> set from_oid_table \<longleftrightarrow> (b, oid) \<in> set oid_table" by force
  then show ?thesis using distinct_oid_keys distinct_from_oid_keys by simp
qed

lemma try_from_oid_iff: "try_from_oid oid = Some t \<longleftrightarrow> (\<exists>b. t = Builtin b \<and> try_oid t = Some oid)"
  by (auto simp: try_from_oid_def try_oid_def oid_tables_agree)

lemma try_oid_builtin: "b \<in> set builtin_types \<longleftrightarrow> (\<exists>oid. try_oid (Builtin b) = Some oid)"
  unfolding oid_keys [symmetric] using map_of_eq_None_iff [of oid_table b] by (auto simp: try_oid_def)

lemma type_name_builtin:
  assumes "b \<in> set builtin_types"
  shows "\<exists>s. map_of name_table b = Some s \<and> type_name (Builtin b) = lit s"
  using assms map_of_eq_None_iff [of name_table b] unfolding name_keys [symmetric] by (auto simp: type_name_def)

lemma type_name_inj:
  assumes "a \<in> set builtin_types" "b \<in> set builtin_types" "type_name (Builtin a) = type_name (Builtin b)"
  shows "a = b"
  using type_name_builtin [OF assms(1)] type_name_builtin [OF assms(2)] assms(3) map_of_inj [OF distinct_names]
  by auto

lemma array_type_iff: "map_of array_type_table b = Some a \<longleftrightarrow> map_of element_table a = Some b"
  using map_of_list_all [OF array_types_have_elements, of b a] map_of_list_all [OF elements_have_array_types, of a b]
  by blast

lemma array_kind_iff: "map_of array_kinds a = Some b \<longleftrightarrow> map_of element_table a = Some b"
  using map_of_list_all [OF array_types_have_elements, of b a] map_of_list_all [OF array_kinds_have_array_types, of a b]
  unfolding array_type_iff by blast

lemma array_kind_not_simple: "map_of array_kinds a = Some b \<Longrightarrow> a \<notin> set simple_kinds"
  using map_of_list_all [OF array_kinds_not_simple, of a b] by simp

lemma to_array_type_iff: "to_array_type (Builtin b) = Some (Builtin a) \<longleftrightarrow> map_of element_table a = Some b"
  by (simp add: to_array_type_def array_type_iff)

lemma type_kind_iff: "type_kind (Builtin a) = Ok (K_Array (Builtin b)) \<longleftrightarrow> map_of element_table a = Some b"
  unfolding array_kind_iff [symmetric]
  by (auto simp: type_kind_def dest: array_kind_not_simple split: option.splits)

lemma map_of_map_self: "map_of (map (\<lambda>(k, v). (k, k)) xs) k = (if map_of xs k = None then None else Some k)"
  by (induction xs) auto

section \<open>Properties\<close>

text \<open>C38: Type ids identify the built-in types.  Every built-in type has a type id from which \<open>try_from_oid\<close> finds it again,
  nothing but a built-in type is found, and two resolved types (built-in, user-defined or declared by id) compare
  equal exactly when their ids are the same; built-in types also have pairwise different names.\<close>

theorem oids_identify_types:
  "(\<forall>b \<in> set builtin_types. \<exists>oid. try_oid (Builtin b) = Some oid \<and> try_from_oid oid = Some (Builtin b)) \<and>
   (\<forall>oid t. try_from_oid oid = Some t \<longrightarrow> try_oid t = Some oid \<and> (\<exists>b \<in> set builtin_types. t = Builtin b)) \<and>
   (\<forall>a b x y. try_oid a = Some x \<longrightarrow> try_oid b = Some y \<longrightarrow> (pg_type_eq a b \<longleftrightarrow> x = y)) \<and>
   (\<forall>a \<in> set builtin_types. \<forall>b \<in> set builtin_types. type_name (Builtin a) = type_name (Builtin b) \<longrightarrow> a = b)"
proof (intro conjI allI ballI impI)
  fix b assume "b \<in> set builtin_types"
  then obtain oid where "try_oid (Builtin b) = Some oid" by (auto simp: try_oid_builtin)
  then show "\<exists>oid. try_oid (Builtin b) = Some oid \<and> try_from_oid oid = Some (Builtin b)"
    by (auto simp: try_from_oid_iff)
next
  fix oid t assume "try_from_oid oid = Some t"
  then show "try_oid t = Some oid" "\<exists>b \<in> set builtin_types. t = Builtin b"
    by (auto simp: try_from_oid_iff try_oid_builtin)
next
  fix a b x y assume "try_oid a = Some x" "try_oid b = Some y"
  then show "pg_type_eq a b \<longleftrightarrow> x = y" by (simp add: pg_type_eq_def)
qed (rule type_name_inj)

theorem oids_identify_types_witness:
  "try_from_oid 1043 = Some (Builtin ''Varchar'') \<and> pg_type_eq (Builtin ''Varchar'') (DeclareWithOid 1043)
   \<and> \<not> pg_type_eq (Builtin ''Varchar'') (DeclareWithOid 25)"
proof -
  have f: "try_from_oid 1043 = Some (Builtin ''Varchar'')" by code_simp
  with oids_identify_types have o: "try_oid (Builtin ''Varchar'') = Some 1043" by blast
  have d: "try_oid (DeclareWithOid 1043) = Some 1043" "try_oid (DeclareWithOid 25) = Some 25"
    by (simp_all add: try_oid_def)
  have "pg_type_eq a b \<longleftrightarrow> x = y" if "try_oid a = Some x" "try_oid b = Some y" for a b x y
    using oids_identify_types that by blast
  from this [OF o d(1)] this [OF o d(2)] f show ?thesis by simp
qed

text \<open>Arrays and their elements.  \<open>to_array_type\<close> and \<open>try_array_element\<close> are inverse on the built-in types and a
  built-in type is of kind array exactly when it is the array type of its element.  \<open>to_array_element\<close> does not go from
  an array type to its element: it is the identity on the types that have an array type and undefined on the others.\<close>

theorem array_types_match_elements:
  "(to_array_type (Builtin b) = Some (Builtin a) \<longleftrightarrow> try_array_element (Builtin a) = Ok (Some (Builtin b))) \<and>
   (type_kind (Builtin a) = Ok (K_Array (Builtin b)) \<longleftrightarrow> to_array_type (Builtin b) = Some (Builtin a)) \<and>
   to_array_element (Builtin b) = (if to_array_type (Builtin b) = None then None else Some (Builtin b))"
proof (intro conjI)
  show "to_array_type (Builtin b) = Some (Builtin a) \<longleftrightarrow> try_array_element (Builtin a) = Ok (Some (Builtin b))"
    by (simp add: to_array_type_iff try_array_element_def)
  show "type_kind (Builtin a) = Ok (K_Array (Builtin b)) \<longleftrightarrow> to_array_type (Builtin b) = Some (Builtin a)"
    by (simp add: to_array_type_iff type_kind_iff)
  show "to_array_element (Builtin b) = (if to_array_type (Builtin b) = None then None else Some (Builtin b))"
    by (simp add: to_array_element_def to_array_type_def self_elements [symmetric] map_of_map_self)
qed

end
