(* ===== verification/Pg_Messages.thy ===== *)
theory Pg_Messages
  imports Buf_Io Std_Text Stored_Row
begin

text \<open>
  The messages of the PostgreSQL protocol (\<open>rbdc-pg/src/message/\<close>, \<open>rbdc-pg/src/io/buf_mut.rs\<close>).  Encoders append
  to a buffer, decoders read the contents of one message.  The \<open>bytes\<close>, \<open>byteorder\<close>, \<open>memchr\<close>, \<open>atoi\<close>,
  \<open>itoa\<close>, \<open>base64\<close> and \<open>md-5\<close> crates are the arguments \<open>C\<close> and \<open>B\<close>.  Arithmetic on \<open>u16\<close> and
  \<open>u32\<close> offsets wraps around, as it does in a release build.
\<close>

section \<open>Crates\<close>

record pg_crates =
  get_i8 :: "bytes \<Rightarrow> (u8 \<times> bytes) res"
  get_u16 :: "bytes \<Rightarrow> (u16 \<times> bytes) res"
  get_u32 :: "bytes \<Rightarrow> (u32 \<times> bytes) res"
  read_be_u16 :: "bytes \<Rightarrow> u16 res"
  read_be_u32 :: "bytes \<Rightarrow> u32 res"
  read_be_u64 :: "bytes \<Rightarrow> u64 res"
  memrchr :: "u8 \<Rightarrow> bytes \<Rightarrow> nat option"
  atoi :: "bytes \<Rightarrow> nat option"
  itoa :: "nat \<Rightarrow> bytes"
  base64_decode :: "bytes \<Rightarrow> bytes res"
  md5_hex :: "bytes \<Rightarrow> bytes"

text \<open>\<open>atoi\<close> reads the decimal digits at the start, without a bound; the caller cuts to its integer type.\<close>

definition leading_number :: "bytes \<Rightarrow> nat option" where
  "leading_number bs = (let ds = takeWhile is_digit bs in if ds = [] then None else parse_digits 0 ds)"

definition last_index :: "u8 \<Rightarrow> bytes \<Rightarrow> nat option" where
  "last_index b bs = (if b \<in> set bs then Some (length bs - 1 - length (takeWhile (\<lambda>x. x \<noteq> b) (rev bs))) else None)"

locale pg_crate_laws = crate_laws C for C :: crates +
  fixes B :: pg_crates
  assumes get_i8_law: "get_i8 B = cursor 1 hd"
    and get_u16_law: "get_u16 B = cursor 2 from_be"
    and get_u32_law: "get_u32 B = cursor 4 from_be"
    and read_be_u16_law: "read_be_u16 B bs = (if 2 \<le> length bs then Ok (from_be (take 2 bs)) else Panic)"
    and read_be_u32_law: "read_be_u32 B bs = (if 4 \<le> length bs then Ok (from_be (take 4 bs)) else Panic)"
    and read_be_u64_law: "read_be_u64 B bs = (if 8 \<le> length bs then Ok (from_be (take 8 bs)) else Panic)"
    and memrchr_law: "memrchr B = last_index"
    and atoi_law: "atoi B = leading_number"
    and itoa_law: "itoa B = dec_digits"

section \<open>Writing\<close>

definition put_length_prefixed :: "(bytes \<Rightarrow> bytes) \<Rightarrow> bytes \<Rightarrow> bytes" where
  "put_length_prefixed f buf =
     (let offset = length buf; buf = f (buf @ [0, 0, 0, 0]); size = (of_nat (length buf - offset) :: u32) in
      take offset buf @ to_be size @ drop (offset + 4) buf)"

definition put_statement_name :: "pg_crates \<Rightarrow> u32 \<Rightarrow> bytes \<Rightarrow> bytes" where
  "put_statement_name B stid buf = buf @ lit ''rbdc_s_'' @ itoa B (unat stid) @ [0]"

definition put_portal_name :: "pg_crates \<Rightarrow> u32 option \<Rightarrow> bytes \<Rightarrow> bytes" where
  "put_portal_name B portal buf =
     (case portal of
        Some p \<Rightarrow> buf @ lit ''rbdc_p_'' @ itoa B (unat p) @ [0]
      | None \<Rightarrow> buf @ [0])"

definition tag :: "char \<Rightarrow> u8" where
  "tag c = of_char c"

datatype pg_value_format = F_Text | F_Binary

definition format_code :: "pg_value_format \<Rightarrow> u16" where
  "format_code f = (case f of F_Text \<Rightarrow> 0 | F_Binary \<Rightarrow> 1)"

record bind_msg =
  b_portal :: "u32 option"
  b_statement :: u32
  b_formats :: "pg_value_format list"
  b_num_params :: u16
  b_params :: bytes
  b_result_formats :: "pg_value_format list"

definition put_formats :: "pg_value_format list \<Rightarrow> bytes \<Rightarrow> bytes" where
  "put_formats fs buf = fold (\<lambda>f buf. buf @ to_be (format_code f)) fs (buf @ to_be (of_nat (length fs) :: u16))"

definition bind_encode :: "pg_crates \<Rightarrow> bind_msg \<Rightarrow> bytes \<Rightarrow> bytes" where
  "bind_encode B m buf =
     put_length_prefixed (\<lambda>buf.
       let buf = put_portal_name B (b_portal m) buf;
           buf = put_statement_name B (b_statement m) buf;
           buf = put_formats (b_formats m) buf;
           buf = buf @ to_be (b_num_params m);
           buf = buf @ b_params m in
       put_formats (b_result_formats m) buf)
     (buf @ [tag CHR ''B''])"

datatype close_msg = Close_Statement u32 | Close_Portal u32

definition close_encode :: "pg_crates \<Rightarrow> close_msg \<Rightarrow> bytes \<Rightarrow> bytes" where
  "close_encode B m buf =
     put_length_prefixed (\<lambda>buf.
       case m of
         Close_Statement i \<Rightarrow> put_statement_name B i (buf @ [tag CHR ''S''])
       | Close_Portal i \<Rightarrow> put_portal_name B (Some i) (buf @ [tag CHR ''P'']))
     (buf @ [tag CHR ''C''])"

datatype describe_msg = Unnamed_Statement | Describe_Statement u32 | Unnamed_Portal | Describe_Portal u32

definition describe_encode :: "pg_crates \<Rightarrow> describe_msg \<Rightarrow> bytes \<Rightarrow> bytes" where
  "describe_encode B m buf =
     put_length_prefixed (\<lambda>buf.
       case m of
         Describe_Statement i \<Rightarrow> put_statement_name B i (buf @ [tag CHR ''S''])
       | Unnamed_Portal \<Rightarrow> buf @ [tag CHR ''P''] @ [0]
       | Unnamed_Statement \<Rightarrow> buf @ [tag CHR ''S''] @ [0]
       | Describe_Portal i \<Rightarrow> put_portal_name B (Some i) (buf @ [tag CHR ''P'']))
     (buf @ [tag CHR ''D''])"

definition pg_execute_encode :: "pg_crates \<Rightarrow> u32 option \<Rightarrow> u32 \<Rightarrow> bytes \<Rightarrow> bytes" where
  "pg_execute_encode B portal limit buf =
     put_length_prefixed (\<lambda>buf. put_portal_name B portal buf @ to_be limit) (buf @ [tag CHR ''E''])"

definition flush_encode :: "bytes \<Rightarrow> bytes" where
  "flush_encode buf = buf @ [tag CHR ''H''] @ to_be (4 :: u32)"

definition sync_encode :: "bytes \<Rightarrow> bytes" where
  "sync_encode buf = buf @ [tag CHR ''S''] @ to_be (4 :: u32)"

definition terminate_encode :: "bytes \<Rightarrow> bytes" where
  "terminate_encode buf = buf @ [tag CHR ''X''] @ to_be (4 :: u32)"

definition parse_encode :: "pg_crates \<Rightarrow> u32 \<Rightarrow> bytes \<Rightarrow> u32 list \<Rightarrow> bytes \<Rightarrow> bytes res" where
  "parse_encode B stid query param_types buf =
     (if length param_types \<le> 65535 then
        Ok (put_length_prefixed (\<lambda>buf.
              let buf = put_statement_name B stid buf;
                  buf = put_str_nul buf query;
                  buf = buf @ to_be (of_nat (length param_types) :: u16) in
              fold (\<lambda>oid buf. buf @ to_be oid) param_types buf)
            (buf @ [tag CHR ''P'']))
      else Panic)"

datatype password_msg = Cleartext bytes | Md5_Password bytes bytes bytes

text \<open>\<open>Md5_Password password username salt\<close>.\<close>

definition password_encode :: "pg_crates \<Rightarrow> password_msg \<Rightarrow> bytes \<Rightarrow> bytes" where
  "password_encode B m buf =
     put_length_prefixed (\<lambda>buf.
       case m of
         Cleartext password \<Rightarrow> put_str_nul buf password
       | Md5_Password password username salt \<Rightarrow>
           let output = md5_hex B (password @ username);
               output = lit ''md5'' @ md5_hex B (output @ salt) in
           put_str_nul buf output)
     (buf @ [tag CHR ''p''])"

definition pg_query_encode :: "bytes \<Rightarrow> bytes \<Rightarrow> bytes" where
  "pg_query_encode q buf =
     (let len = 4 + length q + 1 in put_str_nul (buf @ [tag CHR ''Q''] @ to_be (of_nat len :: u32)) q)"

definition sasl_initial_encode :: "bytes \<Rightarrow> bool \<Rightarrow> bytes \<Rightarrow> bytes" where
  "sasl_initial_encode response with_plus buf =
     put_length_prefixed (\<lambda>buf.
       let buf = put_str_nul buf (if with_plus then lit ''SCRAM-SHA-256-PLUS'' else lit ''SCRAM-SHA-256'') in
       buf @ to_be (of_nat (length response) :: u32) @ response)
     (buf @ [tag CHR ''p''])"

definition sasl_response_encode :: "bytes \<Rightarrow> bytes \<Rightarrow> bytes" where
  "sasl_response_encode r buf = put_length_prefixed (\<lambda>buf. buf @ r) (buf @ [tag CHR ''p''])"

definition pg_ssl_request_encode :: "bytes \<Rightarrow> bytes" where
  "pg_ssl_request_encode buf = buf @ to_be (8 :: u32) @ to_be (push_bit 16 1234 OR 5679 :: u32)"

definition encode_startup_param :: "bytes \<Rightarrow> bytes \<Rightarrow> bytes \<Rightarrow> bytes" where
  "encode_startup_param buf name v = put_str_nul (put_str_nul buf name) v"

definition startup_encode :: "bytes option \<Rightarrow> bytes option \<Rightarrow> (bytes \<times> bytes) list \<Rightarrow> bytes \<Rightarrow> bytes" where
  "startup_encode username database params buf =
     put_length_prefixed (\<lambda>buf.
       let buf = buf @ to_be (196608 :: u32);
           buf = (case username of Some u \<Rightarrow> encode_startup_param buf (lit ''user'') u | None \<Rightarrow> buf);
           buf = (case database of Some d \<Rightarrow> encode_startup_param buf (lit ''database'') d | None \<Rightarrow> buf);
           buf = fold (\<lambda>(name, v) buf. encode_startup_param buf name v) params buf in
       buf @ [0]) buf"

definition copy_data_encode :: "bytes \<Rightarrow> bytes \<Rightarrow> bytes" where
  "copy_data_encode d buf = buf @ [tag CHR ''d''] @ to_be (of_nat (length d) + 4 :: u32) @ d"

definition copy_fail_encode :: "bytes \<Rightarrow> bytes \<Rightarrow> bytes" where
  "copy_fail_encode msg buf =
     (let len = 4 + length msg + 1 in put_str_nul (buf @ [tag CHR ''f''] @ to_be (of_nat len :: u32)) msg)"

definition copy_done_encode :: "bytes \<Rightarrow> bytes" where
  "copy_done_encode buf = buf @ [tag CHR ''c''] @ to_be (4 :: u32)"

section \<open>Reading\<close>

datatype message_format =
    MF_Authentication | MF_BackendKeyData | MF_BindComplete | MF_CloseComplete | MF_CommandComplete | MF_CopyData
  | MF_CopyDone | MF_CopyInResponse | MF_CopyOutResponse | MF_DataRow | MF_EmptyQueryResponse | MF_ErrorResponse
  | MF_NoData | MF_NoticeResponse | MF_NotificationResponse | MF_ParameterDescription | MF_ParameterStatus
  | MF_ParseComplete | MF_PortalSuspended | MF_ReadyForQuery | MF_RowDescription

definition format_table :: "(char \<times> message_format) list" where
  "format_table =
     [(CHR ''1'', MF_ParseComplete), (CHR ''2'', MF_BindComplete), (CHR ''3'', MF_CloseComplete),
      (CHR ''C'', MF_CommandComplete), (CHR ''d'', MF_CopyData), (CHR ''c'', MF_CopyDone), (CHR ''G'', MF_CopyInResponse),
      (CHR ''H'', MF_CopyOutResponse), (CHR ''D'', MF_DataRow), (CHR ''E'', MF_ErrorResponse),
      (CHR ''I'', MF_EmptyQueryResponse), (CHR ''A'', MF_NotificationResponse), (CHR ''K'', MF_BackendKeyData),
      (CHR ''N'', MF_NoticeResponse), (CHR ''R'', MF_Authentication), (CHR ''S'', MF_ParameterStatus),
      (CHR ''T'', MF_RowDescription), (CHR ''Z'', MF_ReadyForQuery), (CHR ''n'', MF_NoData),
      (CHR ''s'', MF_PortalSuspended), (CHR ''t'', MF_ParameterDescription)]"

definition try_from_u8 :: "u8 \<Rightarrow> message_format res" where
  "try_from_u8 v =
     (case map_of (map (\<lambda>(c, f). (tag c, f)) format_table) v of
        Some f \<Rightarrow> Ok f
      | None \<Rightarrow> Err (Protocol ''unknown message type'' [unat v]))"

datatype authentication =
    Auth_Ok | Auth_CleartextPassword | Auth_Md5Password bytes | Auth_Sasl bytes
  | Auth_SaslContinue bytes u32 bytes bytes | Auth_SaslFinal bytes

text \<open>\<open>Auth_SaslContinue salt iterations nonce message\<close>.  A message part needs at least two bytes: the key
  and the byte after it are indexed without a check.\<close>

fun split_bytes :: "u8 \<Rightarrow> bytes \<Rightarrow> bytes list" where
  "split_bytes b [] = [[]]"
| "split_bytes b (x # xs) =
     (if x = b then [] # split_bytes b xs
      else case split_bytes b xs of [] \<Rightarrow> [[x]] | y # ys \<Rightarrow> (x # y) # ys)"

definition sasl_item :: "bytes \<Rightarrow> (u8 \<times> bytes) res" where
  "sasl_item item = rbind (index item 0) (\<lambda>key. rbind (slice_from item 2) (\<lambda>v. Ok (key, v)))"

fun sasl_continue_loop :: "pg_crates \<Rightarrow> bytes list \<Rightarrow> bytes \<times> u32 \<times> bytes \<Rightarrow> (bytes \<times> u32 \<times> bytes) res" where
  "sasl_continue_loop B [] st = Ok st"
| "sasl_continue_loop B (item # items) (salt, iterations, nonce) =
     rbind (sasl_item item) (\<lambda>(key, v).
     if key = tag CHR ''r'' then sasl_continue_loop B items (salt, iterations, v)
     else if key = tag CHR ''i'' then
       sasl_continue_loop B items (salt,
         (case atoi B v of Some n \<Rightarrow> if n < 2 ^ 32 then of_nat n else 4096 | None \<Rightarrow> 4096), nonce)
     else if key = tag CHR ''s'' then
       rbind (base64_decode B v) (\<lambda>salt. sasl_continue_loop B items (salt, iterations, nonce))
     else sasl_continue_loop B items (salt, iterations, nonce))"

definition sasl_continue_decode :: "pg_crates \<Rightarrow> bytes \<Rightarrow> authentication res" where
  "sasl_continue_decode B buf =
     rbind (sasl_continue_loop B (split_bytes (tag CHR '','') buf) ([], 4096, [])) (\<lambda>(salt, iterations, nonce).
     rbind (protocol_of (from_utf8 nonce)) (\<lambda>nonce.
     rbind (protocol_of (from_utf8 buf)) (\<lambda>message.
     Ok (Auth_SaslContinue salt iterations nonce message))))"

fun sasl_final_loop :: "pg_crates \<Rightarrow> bytes list \<Rightarrow> bytes \<Rightarrow> bytes res" where
  "sasl_final_loop B [] verifier = Ok verifier"
| "sasl_final_loop B (item # items) verifier =
     rbind (sasl_item item) (\<lambda>(key, v).
     if key = tag CHR ''v'' then rbind (protocol_of (base64_decode B v)) (sasl_final_loop B items)
     else sasl_final_loop B items verifier)"

definition sasl_final_decode :: "pg_crates \<Rightarrow> bytes \<Rightarrow> authentication res" where
  "sasl_final_decode B buf =
     rbind (sasl_final_loop B (split_bytes (tag CHR '','') buf) []) (\<lambda>verifier. Ok (Auth_SaslFinal verifier))"

definition authentication_decode :: "pg_crates \<Rightarrow> bytes \<Rightarrow> authentication res" where
  "authentication_decode B buf =
     rbind (get_u32 B buf) (\<lambda>(ty, buf).
     if ty = 0 then Ok Auth_Ok
     else if ty = 3 then Ok Auth_CleartextPassword
     else if ty = 5 then (if 4 \<le> length buf then Ok (Auth_Md5Password (take 4 buf)) else Panic)
     else if ty = 10 then Ok (Auth_Sasl buf)
     else if ty = 11 then sasl_continue_decode B buf
     else if ty = 12 then sasl_final_decode B buf
     else Err (Protocol ''unknown authentication method'' [unat ty]))"

text \<open>The iterator over the offered mechanisms, and what collecting it yields.\<close>

definition sasl_mechanisms_next :: "crates \<Rightarrow> bytes \<Rightarrow> (bytes \<times> bytes) option" where
  "sasl_mechanisms_next C s =
     (if s \<noteq> [] \<and> hd s = 0 then None
      else case memchr C 0 s of
             None \<Rightarrow> None
           | Some nul \<Rightarrow> if utf8_ok (take nul s) then Some (take nul s, drop (nul + 1) s) else None)"

record backend_key_data =
  bk_process_id :: u32
  bk_secret_key :: u32

definition backend_key_data_decode :: "pg_crates \<Rightarrow> bytes \<Rightarrow> backend_key_data res" where
  "backend_key_data_decode B buf =
     rbind (read_be_u32 B buf) (\<lambda>p.
     rbind (slice_from buf 4) (\<lambda>rest.
     rbind (read_be_u32 B rest) (\<lambda>k. Ok \<lparr>bk_process_id = p, bk_secret_key = k\<rparr>)))"

definition rows_affected :: "pg_crates \<Rightarrow> bytes \<Rightarrow> u64" where
  "rows_affected B t =
     (case memrchr B 32 t of
        None \<Rightarrow> 0
      | Some i \<Rightarrow> (case atoi B (drop (i + 1) t) of
                    Some n \<Rightarrow> if n < 2 ^ 64 then of_nat n else 0
                  | None \<Rightarrow> 0))"

record copy_response =
  cr_format :: u8
  cr_num_columns :: u16
  cr_format_codes :: "u16 list"

fun get_many :: "nat \<Rightarrow> (bytes \<Rightarrow> ('a \<times> bytes) res) \<Rightarrow> bytes \<Rightarrow> ('a list \<times> bytes) res" where
  "get_many 0 f buf = Ok ([], buf)"
| "get_many (Suc n) f buf = rbind (f buf) (\<lambda>(x, buf). rbind (get_many n f buf) (\<lambda>(xs, buf). Ok (x # xs, buf)))"

definition copy_response_decode :: "pg_crates \<Rightarrow> bytes \<Rightarrow> copy_response res" where
  "copy_response_decode B buf =
     rbind (get_i8 B buf) (\<lambda>(format, buf).
     rbind (get_u16 B buf) (\<lambda>(num_columns, buf).
     rbind (get_many (if sint num_columns < 0 then 0 else unat num_columns) (get_u16 B) buf) (\<lambda>(codes, buf).
     Ok \<lparr>cr_format = format, cr_num_columns = num_columns, cr_format_codes = codes\<rparr>)))"

definition copy_data_decode :: "bytes \<Rightarrow> bytes res" where
  "copy_data_decode buf = Ok buf"

definition copy_fail_decode :: "crates \<Rightarrow> bytes \<Rightarrow> bytes res" where
  "copy_fail_decode C buf = rbind (get_str_nul C buf) (\<lambda>(s, _). Ok s)"

definition copy_done_decode :: "bytes \<Rightarrow> unit res" where
  "copy_done_decode buf = (if buf = [] then Ok () else Err (Protocol ''expected no data for CopyDone'' []))"

record notification =
  nt_process_id :: u32
  nt_channel :: bytes
  nt_payload :: bytes

definition notification_decode :: "crates \<Rightarrow> pg_crates \<Rightarrow> bytes \<Rightarrow> notification res" where
  "notification_decode C B buf =
     rbind (get_u32 B buf) (\<lambda>(p, buf).
     rbind (get_bytes_nul C buf) (\<lambda>(channel, buf).
     rbind (get_bytes_nul C buf) (\<lambda>(payload, buf).
     Ok \<lparr>nt_process_id = p, nt_channel = channel, nt_payload = payload\<rparr>)))"

definition parameter_description_decode :: "pg_crates \<Rightarrow> bytes \<Rightarrow> u32 list res" where
  "parameter_description_decode B buf =
     rbind (get_u16 B buf) (\<lambda>(cnt, buf). rbind (get_many (unat cnt) (get_u32 B) buf) (\<lambda>(types, _). Ok types))"

definition parameter_status_decode :: "crates \<Rightarrow> bytes \<Rightarrow> (bytes \<times> bytes) res" where
  "parameter_status_decode C buf =
     rbind (get_str_nul C buf) (\<lambda>(name, buf). rbind (get_str_nul C buf) (\<lambda>(v, _). Ok (name, v)))"

datatype transaction_status = TS_Idle | TS_Transaction | TS_Error

definition ready_for_query_decode :: "bytes \<Rightarrow> transaction_status res" where
  "ready_for_query_decode buf =
     rbind (index buf 0) (\<lambda>b.
     if b = tag CHR ''I'' then Ok TS_Idle
     else if b = tag CHR ''T'' then Ok TS_Transaction
     else if b = tag CHR ''E'' then Ok TS_Error
     else Err (Protocol ''unknown transaction status'' [unat b]))"

record field =
  f_name :: bytes
  f_relation_id :: "u32 option"
  f_relation_attribute_no :: "u16 option"
  f_data_type_id :: u32
  f_data_type_size :: u16
  f_type_modifier :: u32
  f_format :: u16

definition field_decode :: "crates \<Rightarrow> pg_crates \<Rightarrow> bytes \<Rightarrow> (field \<times> bytes) res" where
  "field_decode C B buf =
     rbind (get_str_nul C buf) (\<lambda>(name, buf).
     rbind (get_u32 B buf) (\<lambda>(relation_id, buf).
     rbind (get_u16 B buf) (\<lambda>(relation_attribute_no, buf).
     rbind (get_u32 B buf) (\<lambda>(data_type_id, buf).
     rbind (get_u16 B buf) (\<lambda>(data_type_size, buf).
     rbind (get_u32 B buf) (\<lambda>(type_modifier, buf).
     rbind (get_u16 B buf) (\<lambda>(format, buf).
     Ok (\<lparr>f_name = name, f_relation_id = (if relation_id = 0 then None else Some relation_id),
          f_relation_attribute_no = (if relation_attribute_no = 0 then None else Some relation_attribute_no),
          f_data_type_id = data_type_id, f_data_type_size = data_type_size, f_type_modifier = type_modifier,
          f_format = format\<rparr>, buf))))))))"

definition row_description_decode :: "crates \<Rightarrow> pg_crates \<Rightarrow> bytes \<Rightarrow> field list res" where
  "row_description_decode C B buf =
     rbind (get_u16 B buf) (\<lambda>(cnt, buf). rbind (get_many (unat cnt) (field_decode C B) buf) (\<lambda>(fields, _). Ok fields))"

subsection \<open>Rows\<close>

text \<open>\<open>DataRow\<close> stores ranges and values like the MySQL rows do; the offset is a \<open>u32\<close>.\<close>

fun data_row_loop :: "pg_crates \<Rightarrow> nat \<Rightarrow> bytes \<Rightarrow> u32 \<Rightarrow> (nat \<times> nat) option list \<Rightarrow> (nat \<times> nat) option list res" where
  "data_row_loop B 0 buf offset vals = Ok vals"
| "data_row_loop B (Suc n) buf offset vals =
     rbind (slice_from buf (unat offset)) (\<lambda>rest.
     rbind (read_be_u32 B rest) (\<lambda>len.
     let offset = offset + 4 in
     if sint len < 0 then data_row_loop B n buf offset (vals @ [None])
     else data_row_loop B n buf (offset + len) (vals @ [Some (unat offset, unat (offset + len))])))"

definition data_row_decode :: "pg_crates \<Rightarrow> bytes \<Rightarrow> row res" where
  "data_row_decode B buf =
     rbind (read_be_u16 B buf) (\<lambda>cnt. rbind (data_row_loop B (unat cnt) buf 2 []) (\<lambda>vals. row_from vals buf))"

definition data_row_get :: "row \<Rightarrow> nat \<Rightarrow> bytes option res" where
  "data_row_get r i = row_get r i"

definition data_row_take :: "row \<Rightarrow> nat \<Rightarrow> (bytes option \<times> row) res" where
  "data_row_take r i = row_take r i"

subsection \<open>Errors and notices\<close>

datatype severity = Sev_Panic | Sev_Fatal | Sev_Error | Sev_Warning | Sev_Notice | Sev_Debug | Sev_Info | Sev_Log

definition severity_is_error :: "severity \<Rightarrow> bool" where
  "severity_is_error s = (s = Sev_Panic \<or> s = Sev_Fatal \<or> s = Sev_Error)"

definition severity_try_from :: "bytes \<Rightarrow> severity res" where
  "severity_try_from s =
     (if s = lit ''PANIC'' then Ok Sev_Panic
      else if s = lit ''FATAL'' then Ok Sev_Fatal
      else if s = lit ''ERROR'' then Ok Sev_Error
      else if s = lit ''WARNING'' then Ok Sev_Warning
      else if s = lit ''NOTICE'' then Ok Sev_Notice
      else if s = lit ''DEBUG'' then Ok Sev_Debug
      else if s = lit ''INFO'' then Ok Sev_Info
      else if s = lit ''LOG'' then Ok Sev_Log
      else Err (Protocol ''unknown severity'' []))"

record notice =
  n_storage :: bytes
  n_severity :: severity
  n_message :: "u16 \<times> u16"
  n_code :: "u16 \<times> u16"

definition slice_range :: "bytes \<Rightarrow> u16 \<times> u16 \<Rightarrow> bytes res" where
  "slice_range buf r =
     (if unat (fst r) \<le> unat (snd r) \<and> unat (snd r) \<le> length buf
      then Ok (take (unat (snd r) - unat (fst r)) (drop (unat (fst r)) buf)) else Panic)"

text \<open>The iterator over the fields: the next field with its range, and the new offset.\<close>

definition fields_next :: "crates \<Rightarrow> bytes \<Rightarrow> u16 \<Rightarrow> ((u8 \<times> u16 \<times> u16) option \<times> u16) res" where
  "fields_next C storage offset =
     rbind (index storage (unat offset)) (\<lambda>ty.
     if ty = 0 then Ok (None, offset)
     else
       rbind (slice_from storage (unat (offset + 1))) (\<lambda>rest.
       case memchr C 0 rest of
         None \<Rightarrow> Ok (None, offset)
       | Some i \<Rightarrow> (let nul = (of_nat i :: u16) in
           Ok (Some (ty, offset + 1, offset + nul + 1), offset + (nul + 2)))))"

text \<open>The loop of \<open>Notice::decode_with\<close>; \<open>None\<close> stands for a loop that never ends.\<close>

type_synonym notice_state = "severity option \<times> severity option \<times> (u16 \<times> u16) \<times> (u16 \<times> u16)"

definition notice_text :: "bytes \<Rightarrow> u16 \<times> u16 \<Rightarrow> bytes res" where
  "notice_text buf v =
     rbind (slice_range buf v) (\<lambda>t. if utf8_ok t then Ok t else Err (Protocol ''Postgres returned a non-UTF-8 string'' []))"

definition notice_field :: "bytes \<Rightarrow> u8 \<times> u16 \<times> u16 \<Rightarrow> notice_state \<Rightarrow> notice_state res" where
  "notice_field buf f st =
     (case f of (ty, v) \<Rightarrow> case st of (severity_v, severity_s, message, code) \<Rightarrow>
        if ty = tag CHR ''S'' then
          rbind (notice_text buf v) (\<lambda>t.
          Ok (severity_v, (case severity_try_from t of Ok s \<Rightarrow> Some s | _ \<Rightarrow> None), message, code))
        else if ty = tag CHR ''V'' then
          rbind (notice_text buf v) (\<lambda>t. rbind (severity_try_from t) (\<lambda>s. Ok (Some s, severity_s, message, code)))
        else if ty = tag CHR ''M'' then Ok (severity_v, severity_s, v, code)
        else if ty = tag CHR ''C'' then Ok (severity_v, severity_s, message, v)
        else Ok st)"

definition notice_complete :: "notice_state \<Rightarrow> bool" where
  "notice_complete st = (case st of (_, _, message, code) \<Rightarrow> fst message \<noteq> 0 \<and> fst code \<noteq> 0)"

partial_function (option) notice_loop :: "crates \<Rightarrow> bytes \<Rightarrow> u16 \<Rightarrow> notice_state \<Rightarrow> notice_state res option" where
  "notice_loop C buf offset st =
     (case fields_next C buf offset of
        Panic \<Rightarrow> Some Panic
      | Err e \<Rightarrow> Some (Err e)
      | Ok (None, _) \<Rightarrow> Some (Ok st)
      | Ok (Some f, offset) \<Rightarrow>
          if notice_complete st then Some (Ok st)
          else (case notice_field buf f st of
                  Panic \<Rightarrow> Some Panic
                | Err e \<Rightarrow> Some (Err e)
                | Ok st \<Rightarrow> notice_loop C buf offset st))"

definition notice_decode :: "crates \<Rightarrow> bytes \<Rightarrow> notice res option" where
  "notice_decode C buf =
     (if buf = [] then Some (Err (Protocol ''Postgres returned a empty data'' []))
      else map_option (\<lambda>r. rbind r (\<lambda>(severity_v, severity_s, message, code).
        Ok \<lparr>n_storage = buf,
            n_severity = (case severity_v of Some s \<Rightarrow> s | None \<Rightarrow> (case severity_s of Some s \<Rightarrow> s | None \<Rightarrow> Sev_Log)),
            n_message = message, n_code = code\<rparr>))
        (notice_loop C buf 0 (None, None, (0, 0), (0, 0))))"

definition get_cached_str :: "notice \<Rightarrow> u16 \<times> u16 \<Rightarrow> bytes res" where
  "get_cached_str n r = rbind (slice_range (n_storage n) r) (\<lambda>t. Ok (if utf8_ok t then t else []))"

definition notice_code :: "notice \<Rightarrow> bytes res" where
  "notice_code n = get_cached_str n (n_code n)"

definition notice_message :: "notice \<Rightarrow> bytes res" where
  "notice_message n = get_cached_str n (n_message n)"

partial_function (option) get_raw_loop :: "crates \<Rightarrow> bytes \<Rightarrow> u8 \<Rightarrow> u16 \<Rightarrow> bytes option res option" where
  "get_raw_loop C storage ty offset =
     (case fields_next C storage offset of
        Panic \<Rightarrow> Some Panic
      | Err e \<Rightarrow> Some (Err e)
      | Ok (None, _) \<Rightarrow> Some (Ok None)
      | Ok (Some f, offset) \<Rightarrow>
          if fst f = ty then Some (rbind (slice_range storage (snd f)) (\<lambda>t. Ok (Some t)))
          else get_raw_loop C storage ty offset)"

definition notice_get_raw :: "crates \<Rightarrow> notice \<Rightarrow> u8 \<Rightarrow> bytes option res option" where
  "notice_get_raw C n ty = get_raw_loop C (n_storage n) ty 0"

definition notice_get :: "crates \<Rightarrow> notice \<Rightarrow> u8 \<Rightarrow> bytes option res option" where
  "notice_get C n ty =
     map_option (\<lambda>r. rbind r (\<lambda>v. Ok (case v of Some t \<Rightarrow> (if utf8_ok t then Some t else None) | None \<Rightarrow> None)))
       (notice_get_raw C n ty)"

section \<open>Lemmas\<close>

text \<open>A message as a peer reads it: a tag, the length of the rest, the rest.\<close>

definition pg_frame :: "u8 \<Rightarrow> bytes \<Rightarrow> bytes" where
  "pg_frame t body = t # to_be (of_nat (length body + 4) :: u32) @ body"

lemma put_length_prefixed_append:
  assumes "\<And>b. f b = b @ body"
  shows "put_length_prefixed f buf = buf @ to_be (of_nat (length body + 4) :: u32) @ body"
  by (simp add: put_length_prefixed_def assms Let_def add.commute)

lemma put_length_prefixed_frame:
  "(\<And>b. f b = b @ body) \<Longrightarrow> put_length_prefixed f (buf @ [t]) = buf @ pg_frame t body"
  by (simp add: put_length_prefixed_append pg_frame_def)

definition portal_name :: "pg_crates \<Rightarrow> u32 option \<Rightarrow> bytes" where
  "portal_name B p = (case p of Some i \<Rightarrow> lit ''rbdc_p_'' @ itoa B (unat i) | None \<Rightarrow> [])"

definition statement_name :: "pg_crates \<Rightarrow> u32 \<Rightarrow> bytes" where
  "statement_name B i = lit ''rbdc_s_'' @ itoa B (unat i)"

lemma put_names:
  "put_portal_name B p buf = buf @ portal_name B p @ [0]"
  "put_statement_name B i buf = buf @ statement_name B i @ [0]"
  by (simp_all add: put_portal_name_def portal_name_def put_statement_name_def statement_name_def split: option.splits)

lemma fold_append: "fold (\<lambda>x buf. buf @ g x) xs buf = buf @ concat (map g xs)"
  by (induction xs arbitrary: buf) simp_all

definition formats_wire :: "pg_value_format list \<Rightarrow> bytes" where
  "formats_wire fs = to_be (of_nat (length fs) :: u16) @ concat (map (\<lambda>f. to_be (format_code f)) fs)"

lemma put_formats_wire: "put_formats fs buf = buf @ formats_wire fs"
  by (simp add: put_formats_def formats_wire_def fold_append)

text \<open>The frontend messages of the extended and the simple protocol.\<close>

datatype frontend =
    FE_Bind bind_msg | FE_Close close_msg | FE_Describe describe_msg | FE_Execute "u32 option" u32 | FE_Flush | FE_Sync
  | FE_Terminate | FE_Parse u32 bytes "u32 list" | FE_Password password_msg | FE_Query bytes | FE_Sasl_Initial bytes bool
  | FE_Sasl_Response bytes | FE_Copy_Data bytes | FE_Copy_Fail bytes | FE_Copy_Done

fun frontend_encode :: "pg_crates \<Rightarrow> frontend \<Rightarrow> bytes \<Rightarrow> bytes res" where
  "frontend_encode B (FE_Bind m) buf = Ok (bind_encode B m buf)"
| "frontend_encode B (FE_Close m) buf = Ok (close_encode B m buf)"
| "frontend_encode B (FE_Describe m) buf = Ok (describe_encode B m buf)"
| "frontend_encode B (FE_Execute p l) buf = Ok (pg_execute_encode B p l buf)"
| "frontend_encode B FE_Flush buf = Ok (flush_encode buf)"
| "frontend_encode B FE_Sync buf = Ok (sync_encode buf)"
| "frontend_encode B FE_Terminate buf = Ok (terminate_encode buf)"
| "frontend_encode B (FE_Parse i q ts) buf = parse_encode B i q ts buf"
| "frontend_encode B (FE_Password m) buf = Ok (password_encode B m buf)"
| "frontend_encode B (FE_Query q) buf = Ok (pg_query_encode q buf)"
| "frontend_encode B (FE_Sasl_Initial r p) buf = Ok (sasl_initial_encode r p buf)"
| "frontend_encode B (FE_Sasl_Response r) buf = Ok (sasl_response_encode r buf)"
| "frontend_encode B (FE_Copy_Data d) buf = Ok (copy_data_encode d buf)"
| "frontend_encode B (FE_Copy_Fail m) buf = Ok (copy_fail_encode m buf)"
| "frontend_encode B FE_Copy_Done buf = Ok (copy_done_encode buf)"

definition bind_body :: "pg_crates \<Rightarrow> bind_msg \<Rightarrow> bytes" where
  "bind_body B m = portal_name B (b_portal m) @ [0] @ statement_name B (b_statement m) @ [0] @ formats_wire (b_formats m) @
     to_be (b_num_params m) @ b_params m @ formats_wire (b_result_formats m)"

definition parse_body :: "pg_crates \<Rightarrow> u32 \<Rightarrow> bytes \<Rightarrow> u32 list \<Rightarrow> bytes" where
  "parse_body B i q ts = statement_name B i @ [0] @ q @ [0] @ to_be (of_nat (length ts) :: u16) @ concat (map to_be ts)"

fun frontend_body :: "pg_crates \<Rightarrow> frontend \<Rightarrow> u8 \<times> bytes" where
  "frontend_body B (FE_Bind m) = (tag CHR ''B'', bind_body B m)"
| "frontend_body B (FE_Close m) = (tag CHR ''C'',
     case m of Close_Statement i \<Rightarrow> tag CHR ''S'' # statement_name B i @ [0]
             | Close_Portal i \<Rightarrow> tag CHR ''P'' # portal_name B (Some i) @ [0])"
| "frontend_body B (FE_Describe m) = (tag CHR ''D'',
     case m of Describe_Statement i \<Rightarrow> tag CHR ''S'' # statement_name B i @ [0]
             | Unnamed_Portal \<Rightarrow> [tag CHR ''P'', 0]
             | Unnamed_Statement \<Rightarrow> [tag CHR ''S'', 0]
             | Describe_Portal i \<Rightarrow> tag CHR ''P'' # portal_name B (Some i) @ [0])"
| "frontend_body B (FE_Execute p l) = (tag CHR ''E'', portal_name B p @ [0] @ to_be l)"
| "frontend_body B FE_Flush = (tag CHR ''H'', [])"
| "frontend_body B FE_Sync = (tag CHR ''S'', [])"
| "frontend_body B FE_Terminate = (tag CHR ''X'', [])"
| "frontend_body B (FE_Parse i q ts) = (tag CHR ''P'', parse_body B i q ts)"
| "frontend_body B (FE_Password m) = (tag CHR ''p'',
     case m of Cleartext p \<Rightarrow> p @ [0]
             | Md5_Password p u salt \<Rightarrow> lit ''md5'' @ md5_hex B (md5_hex B (p @ u) @ salt) @ [0])"
| "frontend_body B (FE_Query q) = (tag CHR ''Q'', q @ [0])"
| "frontend_body B (FE_Sasl_Initial r p) = (tag CHR ''p'',
     (if p then lit ''SCRAM-SHA-256-PLUS'' else lit ''SCRAM-SHA-256'') @ [0] @ to_be (of_nat (length r) :: u32) @ r)"
| "frontend_body B (FE_Sasl_Response r) = (tag CHR ''p'', r)"
| "frontend_body B (FE_Copy_Data d) = (tag CHR ''d'', d)"
| "frontend_body B (FE_Copy_Fail m) = (tag CHR ''f'', m @ [0])"
| "frontend_body B FE_Copy_Done = (tag CHR ''c'', [])"

text \<open>Every encoder appends one frame.\<close>

lemma frontend_encode_frame:
  assumes "\<And>i q ts. m = FE_Parse i q ts \<Longrightarrow> length ts \<le> 65535"
  shows "frontend_encode B m buf = Ok (buf @ pg_frame (fst (frontend_body B m)) (snd (frontend_body B m)))"
proof -
  note d = put_names put_formats_wire fold_append put_str_nul_def Let_def
  show ?thesis
  proof (cases m)
    case (FE_Bind x)
    then show ?thesis
      by (simp add: bind_encode_def bind_body_def d put_length_prefixed_frame [of _ "bind_body B x", unfolded bind_body_def])
  next
    case (FE_Parse i q ts)
    then show ?thesis using assms
      by (simp add: parse_encode_def parse_body_def d put_length_prefixed_frame [of _ "parse_body B i q ts", unfolded parse_body_def])
  next
    case (FE_Close x)
    then show ?thesis by (cases x) (simp_all add: close_encode_def put_length_prefixed_append d pg_frame_def)
  next
    case (FE_Describe x)
    then show ?thesis by (cases x) (simp_all add: describe_encode_def put_length_prefixed_append d pg_frame_def)
  next
    case (FE_Password x)
    then show ?thesis by (cases x) (simp_all add: password_encode_def put_length_prefixed_append d pg_frame_def)
  qed (simp_all add: pg_execute_encode_def flush_encode_def sync_encode_def terminate_encode_def pg_query_encode_def
      sasl_initial_encode_def sasl_response_encode_def copy_data_encode_def copy_fail_encode_def copy_done_encode_def
      put_length_prefixed_append d pg_frame_def add.commute)
qed

text \<open>How a server cuts the stream: a tag, a length that includes itself, the body.\<close>

fun cut_frames :: "nat \<Rightarrow> bytes \<Rightarrow> (u8 \<times> bytes) list option" where
  "cut_frames 0 bs = (if bs = [] then Some [] else None)"
| "cut_frames (Suc n) bs =
     (if bs = [] then Some []
      else if length bs < 5 then None
      else let len = unat (from_be (take 4 (tl bs)) :: u32) in
        if len < 4 \<or> length bs < len + 1 then None
        else map_option (\<lambda>rest. (hd bs, take (len - 4) (drop 5 bs)) # rest) (cut_frames n (drop (len + 1) bs)))"

definition frame_fits :: "bytes \<Rightarrow> bool" where
  "frame_fits body = (length body + 4 < 2 ^ 31)"

lemma unat_of_nat_u32: "n < 2 ^ 32 \<Longrightarrow> unat (of_nat n :: u32) = n"
  by (simp add: unat_of_nat)

lemma cut_frame:
  assumes "frame_fits body"
  shows "cut_frames (Suc n) (pg_frame t body @ rest) = map_option (\<lambda>fs. (t, body) # fs) (cut_frames n rest)"
proof -
  have l: "unat (of_nat (length body + 4) :: u32) = length body + 4"
    using assms by (intro unat_of_nat_u32) (simp add: frame_fits_def)
  then have l': "unat (of_nat (length body) + 4 :: u32) = length body + 4" by simp
  show ?thesis by (subst cut_frames.simps) (simp add: pg_frame_def Let_def l' drop_Cons')
qed

lemma cut_frames_all:
  "list_all (\<lambda>(t, b). frame_fits b) fs \<Longrightarrow> length fs \<le> n \<Longrightarrow> cut_frames n (concat (map (\<lambda>(t, b). pg_frame t b) fs)) = Some fs"
proof (induction fs arbitrary: n)
  case Nil
  then show ?case by (cases n) simp_all
next
  case (Cons f fs)
  then obtain m where "n = Suc m" by (cases n) auto
  with Cons cut_frame [of "snd f" m "fst f"] show ?case by (cases f) (simp del: cut_frames.simps)
qed

context pg_crate_laws
begin

lemma get_u16_app [simp]: "get_u16 B (to_be w @ bs) = Ok (w, bs)"
  by (simp add: get_u16_law cursor_def)

lemma get_u32_app [simp]: "get_u32 B (to_be w @ bs) = Ok (w, bs)"
  by (simp add: get_u32_law cursor_def)

lemma read_be_u32_app [simp]: "read_be_u32 B (to_be w @ bs) = Ok w"
  by (simp add: read_be_u32_law)

lemma read_be_u64_app [simp]: "read_be_u64 B (to_be w @ bs) = Ok w"
  by (simp add: read_be_u64_law)

lemma read_be_u16_app [simp]: "read_be_u16 B (to_be w @ bs) = Ok w"
  by (simp add: read_be_u16_law)

lemma get_many_app:
  assumes "\<And>x bs. x \<in> set xs \<Longrightarrow> f (enc x @ bs) = Ok (x, bs)"
  shows "get_many (length xs) f (concat (map enc xs) @ bs) = Ok (xs, bs)"
  using assms by (induction xs) simp_all

lemma itoa_digits: "list_all is_digit (itoa B n)"
  by (simp add: itoa_law dec_digits_digits)

lemma statement_name_inject: "statement_name B i = statement_name B j \<longleftrightarrow> i = j"
  by (simp add: statement_name_def itoa_law word_unat_eq_iff)

lemma names_no_nul: "0 \<notin> set (statement_name B i)" "0 \<notin> set (portal_name B p)"
proof -
  have "0 \<notin> set (itoa B n)" for n using itoa_digits [of n] by (force simp: list_all_iff is_digit_def)
  then show "0 \<notin> set (statement_name B i)" "0 \<notin> set (portal_name B p)"
    by (auto simp: statement_name_def portal_name_def split: option.splits)
qed

end

subsection \<open>Rows\<close>

definition cell_wire :: "bytes option \<Rightarrow> bytes" where
  "cell_wire v = (case v of None \<Rightarrow> to_be (-1 :: u32) | Some x \<Rightarrow> to_be (of_nat (length x) :: u32) @ x)"

lemma cell_wire_simps [simp]:
  "cell_wire None = to_be (-1 :: u32)" "cell_wire (Some x) = to_be (of_nat (length x) :: u32) @ x"
  by (simp_all add: cell_wire_def)

definition data_row_wire :: "bytes option list \<Rightarrow> bytes" where
  "data_row_wire vs = to_be (of_nat (length vs) :: u16) @ concat (map cell_wire vs)"

definition cell_fits_pg :: "bytes option \<Rightarrow> bool" where
  "cell_fits_pg v = (case v of None \<Rightarrow> True | Some x \<Rightarrow> length x < 2 ^ 31)"

lemma sint_of_nat_u32: "n < 2 ^ 31 \<Longrightarrow> sint (of_nat n :: u32) = int n"
  by (simp add: signed_of_nat signed_take_bit_int_eq_self)

lemma sint_minus_one_u32: "sint (-1 :: u32) = -1"
  by simp

context pg_crate_laws
begin

lemma data_row_loop_wire:
  assumes "data = pre @ concat (map cell_wire vs)" and "length data < 2 ^ 32" and "list_all cell_fits_pg vs"
  shows "\<exists>rs. data_row_loop B (length vs) data (of_nat (length pre)) acc = Ok (acc @ rs) \<and> list_all2 (cuts data) rs vs"
  using assms
proof (induction vs arbitrary: pre acc)
  case (Cons v vs)
  have p: "unat (of_nat (length pre) :: u32) = length pre"
    using Cons.prems(1,2) by (intro unat_of_nat_u32) simp
  show ?case
  proof (cases v)
    case None
    from Cons.IH [of "pre @ to_be (-1 :: u32)" "acc @ [None]"] Cons.prems None obtain rs where
      "data_row_loop B (length vs) data (of_nat (length pre) + 4) (acc @ [None]) = Ok (acc @ None # rs)"
      "list_all2 (cuts data) rs vs" by (auto simp: add.commute)
    with Cons.prems(1) None p show ?thesis
      by (intro exI [of _ "None # rs"]) (simp add: slice_from_def Let_def sint_minus_one_u32)
  next
    case (Some x)
    let ?pre = "pre @ to_be (of_nat (length x) :: u32) @ x" and ?a = "length pre + 4" and ?b = "length pre + 4 + length x"
    have x: "length x < 2 ^ 31" using Cons.prems(3) Some by (simp add: cell_fits_pg_def)
    have b: "?b < 2 ^ 32" using Cons.prems(1,2) Some by simp
    then have u: "unat (of_nat ?a :: u32) = ?a" "unat (of_nat ?b :: u32) = ?b" by (intro unat_of_nat_u32; simp)+
    from Cons.IH [of ?pre "acc @ [Some (?a, ?b)]"] Cons.prems Some obtain rs where
      rs: "data_row_loop B (length vs) data (of_nat ?b) (acc @ [Some (?a, ?b)]) = Ok (acc @ Some (?a, ?b) # rs)"
      "list_all2 (cuts data) rs vs" by (auto simp: add.assoc)
    have c: "cuts data (Some (?a, ?b)) (Some x)" using Cons.prems(1) Some by simp
    have o: "of_nat (length pre) + 4 = (of_nat ?a :: u32)" "of_nat ?a + of_nat (length x) = (of_nat ?b :: u32)" by simp_all
    have "slice_from data (length pre) = Ok (to_be (of_nat (length x) :: u32) @ x @ concat (map cell_wire vs))"
      using Cons.prems(1) Some by (simp add: slice_from_def)
    then have "data_row_loop B (length (v # vs)) data (of_nat (length pre)) acc =
        data_row_loop B (length vs) data (of_nat ?b) (acc @ [Some (?a, ?b)])"
      using p x by (simp only: length_Cons data_row_loop.simps p rbind.simps read_be_u32_app Let_def sint_of_nat_u32 o u) simp
    with rs c Some show ?thesis by (intro exI [of _ "Some (?a, ?b) # rs"]) simp
  qed
qed simp

lemma data_row_decode_wire:
  assumes "length vs < 2 ^ 16" and "length (data_row_wire vs) < 2 ^ 32" and "list_all cell_fits_pg vs"
  shows "\<exists>rs. data_row_decode B (data_row_wire vs) = Ok \<lparr>row_storage = vs, row_values = rs\<rparr> \<and>
    row_ok \<lparr>row_storage = vs, row_values = rs\<rparr>"
proof -
  have n: "unat (of_nat (length vs) :: u16) = length vs" using assms(1) by (simp add: unat_of_nat)
  from data_row_loop_wire [of "data_row_wire vs" "to_be (of_nat (length vs) :: u16)" vs "[]"] assms(2,3) obtain rs where
    rs: "data_row_loop B (length vs) (data_row_wire vs) 2 [] = Ok rs" "list_all2 (cuts (data_row_wire vs)) rs vs"
    by (auto simp: data_row_wire_def)
  moreover have "read_be_u16 B (data_row_wire vs) = Ok (of_nat (length vs))" by (simp add: data_row_wire_def)
  ultimately show ?thesis
    using cuts_row_ok [OF rs(2)] by (intro exI [of _ rs]) (simp add: data_row_decode_def row_from_cuts n)
qed

end

definition field_wire :: "field \<Rightarrow> bytes" where
  "field_wire f = f_name f @ [0] @ to_be (case f_relation_id f of Some r \<Rightarrow> r | None \<Rightarrow> 0) @
     to_be (case f_relation_attribute_no f of Some r \<Rightarrow> r | None \<Rightarrow> 0) @ to_be (f_data_type_id f) @
     to_be (f_data_type_size f) @ to_be (f_type_modifier f) @ to_be (f_format f)"

definition field_ok :: "field \<Rightarrow> bool" where
  "field_ok f = (0 \<notin> set (f_name f) \<and> utf8_ok (f_name f) \<and> f_relation_id f \<noteq> Some 0 \<and> f_relation_attribute_no f \<noteq> Some 0)"

context pg_crate_laws
begin

lemma field_decode_wire:
  assumes "field_ok f"
  shows "field_decode C B (field_wire f @ bs) = Ok (f, bs)"
proof -
  note a = assms [unfolded field_ok_def]
  have e: "field_decode C B (field_wire f @ bs) =
      Ok (\<lparr>f_name = f_name f, f_relation_id = f_relation_id f, f_relation_attribute_no = f_relation_attribute_no f,
        f_data_type_id = f_data_type_id f, f_data_type_size = f_data_type_size f, f_type_modifier = f_type_modifier f,
        f_format = f_format f\<rparr>, bs)"
    using a by (auto simp: field_decode_def field_wire_def split: option.splits)
  then show ?thesis by simp
qed

lemma row_description_decode_wire:
  assumes "list_all field_ok fs" and "length fs < 2 ^ 16"
  shows "row_description_decode C B (to_be (of_nat (length fs) :: u16) @ concat (map field_wire fs)) = Ok fs"
proof -
  have n: "unat (of_nat (length fs) :: u16) = length fs" using assms(2) by (simp add: unat_of_nat)
  have "get_many (length fs) (field_decode C B) (concat (map field_wire fs) @ []) = Ok (fs, [])"
    using assms(1) by (intro get_many_app) (simp add: field_decode_wire list_all_iff)
  then show ?thesis by (simp add: row_description_decode_def n)
qed

lemma parameter_description_decode_wire:
  assumes "length ts < 2 ^ 16"
  shows "parameter_description_decode B (to_be (of_nat (length ts) :: u16) @ concat (map to_be ts)) = Ok ts"
proof -
  have n: "unat (of_nat (length ts) :: u16) = length ts" using assms by (simp add: unat_of_nat)
  have "get_many (length ts) (get_u32 B) (concat (map to_be ts) @ []) = Ok (ts, [])" by (intro get_many_app) simp
  then show ?thesis by (simp add: parameter_description_decode_def n)
qed

end

subsection \<open>Notices\<close>

type_synonym notice_fields = "(u8 \<times> bytes) list"

definition notice_wire :: "notice_fields \<Rightarrow> bytes" where
  "notice_wire fs = concat (map (\<lambda>(t, x). t # x @ [0]) fs) @ [0]"

definition notice_field_ok :: "u8 \<times> bytes \<Rightarrow> bool" where
  "notice_field_ok f = (fst f \<noteq> 0 \<and> 0 \<notin> set (snd f) \<and> utf8_ok (snd f))"

definition field_range :: "nat \<Rightarrow> bytes \<Rightarrow> u16 \<times> u16" where
  "field_range pos x = (of_nat (pos + 1), of_nat (pos + 1 + length x))"

fun range_of :: "nat \<Rightarrow> notice_fields \<Rightarrow> u8 \<Rightarrow> (u16 \<times> u16) option" where
  "range_of pos [] t = None"
| "range_of pos ((u, x) # fs) t = (if u = t then Some (field_range pos x) else range_of (pos + length x + 2) fs t)"

text \<open>The loop on the list of fields.\<close>

fun scan_fields :: "bytes \<Rightarrow> nat \<Rightarrow> notice_fields \<Rightarrow> notice_state \<Rightarrow> notice_state res" where
  "scan_fields buf pos [] st = Ok st"
| "scan_fields buf pos ((t, x) # fs) st =
     (if notice_complete st then Ok st
      else rbind (notice_field buf (t, field_range pos x) st) (scan_fields buf (pos + length x + 2) fs))"

lemma unat_of_nat_u16: "n < 2 ^ 16 \<Longrightarrow> unat (of_nat n :: u16) = n"
  by (simp add: unat_of_nat)

lemma slice_field_range:
  assumes "length (pre @ t # x @ post) < 2 ^ 16"
  shows "slice_range (pre @ t # x @ post) (field_range (length pre) x) = Ok x"
proof -
  have "unat (of_nat (length pre + 1) :: u16) = length pre + 1" "unat (of_nat (length pre + 1 + length x) :: u16) = length pre + 1 + length x"
    using assms by (intro unat_of_nat_u16; simp)+
  then show ?thesis unfolding slice_range_def field_range_def fst_conv snd_conv by (simp del: of_nat_add of_nat_Suc)
qed

context crate_laws
begin

lemma fields_next_field:
  assumes "length (pre @ t # x @ 0 # post) < 2 ^ 16" and "t \<noteq> 0" and "0 \<notin> set x"
  shows "fields_next C (pre @ t # x @ 0 # post) (of_nat (length pre)) =
    Ok (Some (t, field_range (length pre) x), of_nat (length pre + length x + 2))"
proof -
  have u: "unat (of_nat (length pre) :: u16) = length pre" "unat (of_nat (length pre + 1) :: u16) = length pre + 1"
    using assms(1) by (intro unat_of_nat_u16; simp)+
  have s: "slice_from (pre @ t # x @ 0 # post) (length pre + 1) = Ok (x @ 0 # post)" by (simp add: slice_from_def)
  have o: "(of_nat (length pre) :: u16) + 1 = of_nat (length pre + 1)" by simp
  show ?thesis
    using assms(2,3) unfolding fields_next_def o u s
    by (simp add: index_def memchr_app field_range_def Let_def add_ac)
qed

lemma fields_next_end:
  assumes "length (pre @ 0 # post) < 2 ^ 16"
  shows "fields_next C (pre @ 0 # post) (of_nat (length pre)) = Ok (None, of_nat (length pre))"
proof -
  have "unat (of_nat (length pre) :: u16) = length pre" using assms by (intro unat_of_nat_u16) simp
  then show ?thesis by (simp add: fields_next_def index_def)
qed

lemma notice_loop_scan:
  assumes "buf = pre @ notice_wire fs" and "length buf < 2 ^ 16" and "list_all notice_field_ok fs"
  shows "notice_loop C buf (of_nat (length pre)) st = Some (scan_fields buf (length pre) fs st)"
  using assms
proof (induction fs arbitrary: pre st)
  case Nil
  with fields_next_end [of pre "[]"] show ?case by (subst notice_loop.simps) (simp add: notice_wire_def)
next
  case (Cons f fs)
  obtain t x where f: "f = (t, x)" by fastforce
  have b: "buf = pre @ t # x @ 0 # notice_wire fs" using Cons.prems(1) f by (simp add: notice_wire_def)
  define q where "q = (of_nat (length pre + length x + 2) :: u16)"
  have n: "fields_next C buf (of_nat (length pre)) = Ok (Some (t, field_range (length pre) x), q)"
    using fields_next_field [of pre t x "notice_wire fs"] b Cons.prems(2,3) f by (simp add: notice_field_ok_def q_def)
  have IH: "notice_loop C buf q st = Some (scan_fields buf (length pre + length x + 2) fs st)" for st
    using Cons.IH [of "pre @ t # x @ [0]" st] b Cons.prems(2,3) by (simp add: q_def add.commute)
  show ?case by (subst notice_loop.simps) (simp add: n f IH split: res.splits)
qed

lemma get_raw_loop_finds:
  assumes "buf = pre @ notice_wire fs" and "length buf < 2 ^ 16" and "list_all notice_field_ok fs" and "distinct (map fst fs)"
    and "(t, x) \<in> set fs"
  shows "get_raw_loop C buf t (of_nat (length pre)) = Some (Ok (Some x))"
  using assms
proof (induction fs arbitrary: pre)
  case (Cons f fs)
  obtain u y where f: "f = (u, y)" by fastforce
  have b: "buf = pre @ u # y @ 0 # notice_wire fs" using Cons.prems(1) f by (simp add: notice_wire_def)
  have n: "fields_next C buf (of_nat (length pre)) =
      Ok (Some (u, field_range (length pre) y), of_nat (length pre + length y + 2))"
    using fields_next_field [of pre u y "notice_wire fs"] b Cons.prems(2,3) f by (simp add: notice_field_ok_def)
  have sl: "slice_range buf (field_range (length pre) y) = Ok y"
    using slice_field_range [of pre u y "0 # notice_wire fs"] b Cons.prems(2) by simp
  show ?case
  proof (cases "u = t")
    case True
    with Cons.prems(4,5) f have "x = y" by (auto simp: image_iff)
    with True n sl show ?thesis by (subst get_raw_loop.simps) (simp del: of_nat_add)
  next
    case False
    with Cons.IH [of "pre @ u # y @ [0]"] b Cons.prems f have
      "get_raw_loop C buf t (of_nat (length pre + length y + 2)) = Some (Ok (Some x))" by (auto simp: add.commute)
    with False n show ?thesis by (subst get_raw_loop.simps) (simp del: of_nat_add)
  qed
qed simp

end

text \<open>Once the severities are read, the scan finds the message and the code wherever they are.\<close>

lemma scan_fields_rest:
  assumes "distinct (map fst fs)" and "\<forall>f \<in> set fs. fst f \<noteq> tag CHR ''S'' \<and> fst f \<noteq> tag CHR ''V''"
    and "tag CHR ''M'' \<in> fst ` set fs \<Longrightarrow> fst m = 0" and "tag CHR ''C'' \<in> fst ` set fs \<Longrightarrow> fst c = 0"
  shows "scan_fields buf pos fs (sv, ss, m, c) =
    Ok (sv, ss, case_option m (\<lambda>r. r) (range_of pos fs (tag CHR ''M'')), case_option c (\<lambda>r. r) (range_of pos fs (tag CHR ''C'')))"
  using assms
proof (induction fs arbitrary: pos m c)
  case (Cons f fs)
  have none: "range_of p fs t = None" if "t \<notin> fst ` set fs" for p t
    using that by (induction p fs t rule: range_of.induct) auto
  have MC: "tag CHR ''M'' \<noteq> tag CHR ''C''" "tag CHR ''M'' \<noteq> tag CHR ''S''" "tag CHR ''M'' \<noteq> tag CHR ''V''"
    "tag CHR ''C'' \<noteq> tag CHR ''S''" "tag CHR ''C'' \<noteq> tag CHR ''V''" by (simp_all add: tag_def)
  show ?case
  proof (cases "fst m \<noteq> 0 \<and> fst c \<noteq> 0")
    case True
    then have "tag CHR ''M'' \<notin> fst ` set (f # fs)" "tag CHR ''C'' \<notin> fst ` set (f # fs)" using Cons.prems(3,4) by blast+
    with True none show ?thesis by (cases f) (auto simp: notice_complete_def)
  next
    case False
    obtain t x where f: "f = (t, x)" by fastforce
    let ?p = "pos + length x + 2"
    have d: "distinct (map fst fs)" "\<forall>f \<in> set fs. fst f \<noteq> tag CHR ''S'' \<and> fst f \<noteq> tag CHR ''V''" "t \<notin> fst ` set fs"
      "t \<noteq> tag CHR ''S''" "t \<noteq> tag CHR ''V''" using Cons.prems(1,2) f by auto
    have z: "tag CHR ''M'' \<in> fst ` set fs \<Longrightarrow> fst m = 0" "tag CHR ''C'' \<in> fst ` set fs \<Longrightarrow> fst c = 0"
      using Cons.prems(3,4) by auto
    note IH = Cons.IH [OF d(1,2)]
    consider "t = tag CHR ''M''" | "t = tag CHR ''C''" | "t \<noteq> tag CHR ''M''" "t \<noteq> tag CHR ''C''" by blast
    then show ?thesis
    proof cases
      case 1
      with d(3) have "scan_fields buf ?p fs (sv, ss, field_range pos x, c) = Ok (sv, ss, field_range pos x,
          case_option c (\<lambda>r. r) (range_of ?p fs (tag CHR ''C'')))"
        by (subst IH) (use z none in auto)
      with False 1 MC f show ?thesis by (auto simp: notice_complete_def notice_field_def)
    next
      case 2
      with d(3) have "scan_fields buf ?p fs (sv, ss, m, field_range pos x) = Ok (sv, ss,
          case_option m (\<lambda>r. r) (range_of ?p fs (tag CHR ''M'')), field_range pos x)"
        by (subst IH) (use z none in auto)
      with False 2 MC f show ?thesis by (auto simp: notice_complete_def notice_field_def)
    next
      case 3
      with False d(4,5) f IH [OF z, of ?p] show ?thesis by (auto simp: notice_complete_def notice_field_def)
    qed
  qed
qed simp

lemma range_of_slice:
  assumes "buf = pre @ notice_wire fs" and "length buf < 2 ^ 16" and "distinct (map fst fs)" and "(t, x) \<in> set fs"
  shows "\<exists>r. range_of (length pre) fs t = Some r \<and> slice_range buf r = Ok x"
  using assms
proof (induction fs arbitrary: pre)
  case (Cons f fs)
  obtain u y where f: "f = (u, y)" by fastforce
  have b: "buf = pre @ u # y @ 0 # notice_wire fs" using Cons.prems(1) f by (simp add: notice_wire_def)
  show ?case
  proof (cases "u = t")
    case True
    with Cons.prems(3,4) f have "x = y" by (auto simp: image_iff)
    with True f slice_field_range [of pre u y "0 # notice_wire fs"] b Cons.prems(2) show ?thesis by simp
  next
    case False
    with Cons.IH [of "pre @ u # y @ [0]"] b Cons.prems f show ?thesis by auto
  qed
qed simp

lemma notice_loop_stuck:
  assumes "notice_loop C buf offset st = Some r"
  shows "\<forall>v. fields_next C buf offset = Ok (Some (tag CHR ''D'', v), offset) \<longrightarrow> notice_complete st"
proof (rule notice_loop.raw_induct [OF _ assms])
  fix f :: "crates \<Rightarrow> bytes \<Rightarrow> u16 \<Rightarrow> notice_state \<Rightarrow> notice_state res option" and C buf offset st r
  assume IH: "\<And>C buf offset st r. f C buf offset st = Some r \<Longrightarrow>
      \<forall>v. fields_next C buf offset = Ok (Some (tag CHR ''D'', v), offset) \<longrightarrow> notice_complete st"
    and eq: "(case fields_next C buf offset of
        Ok (None, x) \<Rightarrow> Some (Ok st)
      | Ok (Some fd, offset) \<Rightarrow>
          if notice_complete st then Some (Ok st)
          else (case notice_field buf fd st of
                  Ok st \<Rightarrow> f C buf offset st | Err e \<Rightarrow> Some (Err e) | Panic \<Rightarrow> Some Panic)
      | Err e \<Rightarrow> Some (Err e) | Panic \<Rightarrow> Some Panic) = Some r"
  show "\<forall>v. fields_next C buf offset = Ok (Some (tag CHR ''D'', v), offset) \<longrightarrow> notice_complete st"
  proof (intro allI impI)
    fix v
    assume n: "fields_next C buf offset = Ok (Some (tag CHR ''D'', v), offset)"
    have "notice_field buf (tag CHR ''D'', v) st = Ok st"
      by (auto simp: notice_field_def tag_def split: prod.splits)
    with eq n have "\<not> notice_complete st \<Longrightarrow> f C buf offset st = Some r" by simp
    with IH n show "notice_complete st" by blast
  qed
qed

section \<open>Instances\<close>

definition std_pg_crates :: pg_crates where
  "std_pg_crates = \<lparr>get_i8 = cursor 1 hd, get_u16 = cursor 2 from_be, get_u32 = cursor 4 from_be,
     read_be_u16 = (\<lambda>bs. if 2 \<le> length bs then Ok (from_be (take 2 bs)) else Panic),
     read_be_u32 = (\<lambda>bs. if 4 \<le> length bs then Ok (from_be (take 4 bs)) else Panic),
     read_be_u64 = (\<lambda>bs. if 8 \<le> length bs then Ok (from_be (take 8 bs)) else Panic),
     memrchr = last_index, atoi = leading_number, itoa = dec_digits, base64_decode = Ok, md5_hex = (\<lambda>bs. bs)\<rparr>"

interpretation std_pg: pg_crate_laws std_crates std_pg_crates
  by unfold_locales (simp_all add: std_pg_crates_def)

lemma notice_decode_fields:
  assumes "crate_laws C" and "fs = (tag CHR ''S'', s) # (tag CHR ''V'', v) # rest" and "severity_try_from v = Ok sev"
    and "list_all notice_field_ok fs" and "distinct (map fst fs)" and "length (notice_wire fs) < 2 ^ 16"
    and "(tag CHR ''M'', msg) \<in> set fs" and "(tag CHR ''C'', code) \<in> set fs"
  shows "\<exists>n. notice_decode C (notice_wire fs) = Some (Ok n) \<and> n_storage n = notice_wire fs \<and> n_severity n = sev \<and>
    notice_message n = Ok msg \<and> notice_code n = Ok code"
proof -
  let ?w = "notice_wire fs" and ?p = "length s + 2 + (length v + 2)"
  have ok: "utf8_ok s" "utf8_ok v" using assms(2,4) by (simp_all add: notice_field_ok_def)
  have w: "?w = [] @ tag CHR ''S'' # s @ 0 # tag CHR ''V'' # v @ 0 # notice_wire rest"
    "?w = (tag CHR ''S'' # s @ [0]) @ tag CHR ''V'' # v @ 0 # notice_wire rest"
    using assms(2) by (simp_all add: notice_wire_def)
  have t: "notice_text ?w (field_range 0 s) = Ok s" "notice_text ?w (field_range (length s + 2) v) = Ok v"
    using slice_field_range [of "[]" "tag CHR ''S''" s "0 # tag CHR ''V'' # v @ 0 # notice_wire rest"]
      slice_field_range [of "tag CHR ''S'' # s @ [0]" "tag CHR ''V''" v "0 # notice_wire rest"] assms(6) w ok
    by (simp_all add: notice_text_def)
  have SV: "tag CHR ''V'' \<noteq> tag CHR ''S''" "tag CHR ''M'' \<noteq> tag CHR ''S''" "tag CHR ''M'' \<noteq> tag CHR ''V''"
    "tag CHR ''C'' \<noteq> tag CHR ''S''" "tag CHR ''C'' \<noteq> tag CHR ''V''" by (simp_all add: tag_def)
  have rest: "distinct (map fst rest)" "\<forall>f \<in> set rest. fst f \<noteq> tag CHR ''S'' \<and> fst f \<noteq> tag CHR ''V''"
    using assms(2,5) by (auto simp: image_iff)
  from range_of_slice [OF _ assms(6,5), of "[]"] assms(7,8) obtain rm rc where
    r: "range_of 0 fs (tag CHR ''M'') = Some rm" "slice_range ?w rm = Ok msg"
      "range_of 0 fs (tag CHR ''C'') = Some rc" "slice_range ?w rc = Ok code" by auto metis
  then have r': "range_of ?p rest (tag CHR ''M'') = Some rm" "range_of ?p rest (tag CHR ''C'') = Some rc"
    using assms(2) SV by (simp_all add: add_ac)
  have "scan_fields ?w 0 fs (None, None, (0, 0), (0, 0)) =
      Ok (Some sev, (case severity_try_from s of Ok x \<Rightarrow> Some x | _ \<Rightarrow> None), rm, rc)"
    using assms(2,3) t SV r' scan_fields_rest [OF rest, of "(0, 0)" "(0, 0)"]
    by (simp add: notice_complete_def notice_field_def add_ac)
  then have l: "notice_loop C ?w 0 (None, None, (0, 0), (0, 0)) =
      Some (Ok (Some sev, (case severity_try_from s of Ok x \<Rightarrow> Some x | _ \<Rightarrow> None), rm, rc))"
    using crate_laws.notice_loop_scan [OF assms(1) _ assms(6,4), of "[]"] by simp
  have "?w \<noteq> []" by (simp add: notice_wire_def)
  with l have n: "notice_decode C ?w = Some (Ok \<lparr>n_storage = ?w, n_severity = sev, n_message = rm, n_code = rc\<rparr>)"
    by (simp add: notice_decode_def)
  have u: "utf8_ok msg" "utf8_ok code" using assms(4,7,8) by (auto simp: list_all_iff notice_field_ok_def)
  with n r show ?thesis by (auto simp: notice_message_def notice_code_def get_cached_str_def)
qed

section \<open>Properties\<close>

text \<open>C37: Whatever frontend messages the driver writes one after the other, a server that reads a tag, a length and that
  many bytes recovers exactly these messages, each with its tag and body, and nothing is left over: every encoder writes
  the length of what it wrote, also those that back-patch it after the body.\<close>

theorem frontend_messages_are_framed:
  assumes "\<forall>m \<in> set ms. frame_fits (snd (frontend_body B m)) \<and> (\<forall>i q ts. m = FE_Parse i q ts \<longrightarrow> length ts \<le> 65535)"
  shows "\<exists>w. fold (\<lambda>m r. rbind r (frontend_encode B m)) ms (Ok []) = Ok w \<and>
    cut_frames (length ms) w = Some (map (frontend_body B) ms)"
proof -
  have "fold (\<lambda>m r. rbind r (frontend_encode B m)) ms (Ok buf) =
      Ok (buf @ concat (map (\<lambda>m. pg_frame (fst (frontend_body B m)) (snd (frontend_body B m))) ms))" for buf
    using assms by (induction ms arbitrary: buf) (simp_all add: frontend_encode_frame)
  moreover have "cut_frames (length ms) (concat (map (\<lambda>(t, b). pg_frame t b) (map (frontend_body B) ms))) = Some (map (frontend_body B) ms)"
    using assms by (intro cut_frames_all) (auto simp: list_all_iff split: prod.splits)
  ultimately show ?thesis by (auto simp: comp_def case_prod_beta)
qed

theorem frontend_messages_are_framed_witness:
  "\<exists>w. fold (\<lambda>m r. rbind r (frontend_encode std_pg_crates m)) [FE_Describe (Describe_Statement 5), FE_Sync] (Ok []) = Ok w \<and>
    cut_frames 2 w = Some [(tag CHR ''D'', tag CHR ''S'' # lit ''rbdc_s_5'' @ [0]), (tag CHR ''S'', [])]"
proof -
  have b: "frontend_body std_pg_crates (FE_Describe (Describe_Statement 5)) = (tag CHR ''D'', tag CHR ''S'' # lit ''rbdc_s_5'' @ [0])"
    "frontend_body std_pg_crates FE_Sync = (tag CHR ''S'', [])" by code_simp+
  have "\<forall>m \<in> set [FE_Describe (Describe_Statement 5), FE_Sync]. frame_fits (snd (frontend_body std_pg_crates m)) \<and>
      (\<forall>i q ts. m = FE_Parse i q ts \<longrightarrow> length ts \<le> 65535)"
    by (simp add: b frame_fits_def del: frontend_body.simps)
  from frontend_messages_are_framed [OF this] show ?thesis
    by (simp only: list.size list.map b numeral_2_eq_2 add_0_right add_Suc_right)
qed

text \<open>A PostgreSQL row decodes to exactly the values the server sent, NULLs included: column \<open>i\<close> reads as value \<open>i\<close>,
  columns beyond the last read as NULL, and taking a column returns its value.\<close>

theorem data_row_roundtrip:
  assumes "pg_crate_laws C B" and "length vs < 2 ^ 16" and "length (data_row_wire vs) < 2 ^ 32" and "list_all cell_fits_pg vs"
  shows "\<exists>r. data_row_decode B (data_row_wire vs) = Ok r \<and>
    (\<forall>i. data_row_get r i = Ok (if i < length vs then vs ! i else None)) \<and>
    (\<forall>i. \<exists>r'. data_row_take r i = Ok (if i < length vs then vs ! i else None, r') \<and> data_row_get r' i = Ok None)"
proof -
  from pg_crate_laws.data_row_decode_wire [OF assms] obtain rs where
    r: "data_row_decode B (data_row_wire vs) = Ok \<lparr>row_storage = vs, row_values = rs\<rparr>" and
    ok: "row_ok \<lparr>row_storage = vs, row_values = rs\<rparr>" by blast
  have "\<exists>r'. data_row_take \<lparr>row_storage = vs, row_values = rs\<rparr> i = Ok (if i < length vs then vs ! i else None, r') \<and>
      data_row_get r' i = Ok None" for i
    using row_take_get [OF ok, of i] row_get_nth [OF row_ok_take [OF ok, of i], of i]
    by (auto simp: data_row_take_def data_row_get_def)
  with r row_get_nth [OF ok] show ?thesis by (auto simp: data_row_get_def)
qed

theorem data_row_roundtrip_witness:
  "\<exists>r. data_row_decode std_pg_crates [0, 2, 255, 255, 255, 255, 0, 0, 0, 1, 65] = Ok r \<and>
     data_row_get r 0 = Ok None \<and> data_row_get r 1 = Ok (Some [65])"
proof -
  have "to_be (from_be [255, 255, 255, 255] :: u32) = [255, 255, 255, 255]" by (rule to_be_from_be) simp_all
  moreover have "(4294967295 :: u32) = -1" by code_simp
  ultimately have m: "to_be (-1 :: u32) = [255, 255, 255, 255]" by (simp add: from_be_def from_le_def)
  have n: "to_be (of_nat 2 :: u16) = [0, 2]" "to_be (of_nat 1 :: u32) = [0, 0, 0, 1]" by code_simp+
  have w: "data_row_wire [None, Some [65]] = [0, 2, 255, 255, 255, 255, 0, 0, 0, 1, 65]"
    using n by (simp add: data_row_wire_def m)
  from data_row_roundtrip [OF std_pg.pg_crate_laws_axioms, of "[None, Some [65]]"] obtain r where
    "data_row_decode std_pg_crates [0, 2, 255, 255, 255, 255, 0, 0, 0, 1, 65] = Ok r"
    "\<forall>i. data_row_get r i = Ok (if i < length [None, Some [65 :: u8]] then [None, Some [65]] ! i else None)"
    unfolding w by (auto simp: cell_fits_pg_def)
  then show ?thesis by (intro exI [of _ r]) (simp add: nth_Cons')
qed

text \<open>Row descriptions and parameter descriptions decode to exactly the fields and the type ids the server sent, with a
  table or column number of zero read as absent.\<close>

theorem descriptions_roundtrip:
  assumes "pg_crate_laws C B" and "list_all field_ok fs" and "length fs < 2 ^ 16" and "length ts < 2 ^ 16"
  shows "row_description_decode C B (to_be (of_nat (length fs) :: u16) @ concat (map field_wire fs)) = Ok fs \<and>
    parameter_description_decode B (to_be (of_nat (length ts) :: u16) @ concat (map to_be ts)) = Ok ts"
  using pg_crate_laws.row_description_decode_wire [OF assms(1-3)]
    pg_crate_laws.parameter_description_decode_wire [OF assms(1,4)] by blast

theorem descriptions_roundtrip_witness:
  "row_description_decode std_crates std_pg_crates [0, 0] = Ok [] \<and>
   parameter_description_decode std_pg_crates [0, 2, 0, 0, 0, 0, 0, 0, 5, 0] = Ok [0, 0x500]"
proof -
  have "to_be (of_nat 2 :: u16) @ concat (map to_be [0, 0x500 :: u32]) = [0, 2, 0, 0, 0, 0, 0, 0, 5, 0]"
    "to_be (of_nat 0 :: u16) = [0, 0]" by code_simp+
  then show ?thesis
    using descriptions_roundtrip [OF std_pg.pg_crate_laws_axioms, of "[]" "[0, 0x500]"] by simp
qed

text \<open>An error or notice response of less than 64 KiB whose fields start with the severity decodes to what the server
  said: its severity is the unlocalised one, its message and code are the fields \<open>M\<close> and \<open>C\<close>, wherever they stand, and
  every field can be looked up by its type.\<close>

theorem notice_fields_recovered:
  assumes "crate_laws C" and "fs = (tag CHR ''S'', s) # (tag CHR ''V'', v) # rest" and "severity_try_from v = Ok sev"
    and "list_all notice_field_ok fs" and "distinct (map fst fs)" and "length (notice_wire fs) < 2 ^ 16"
    and "(tag CHR ''M'', msg) \<in> set fs" and "(tag CHR ''C'', code) \<in> set fs"
  shows "\<exists>n. notice_decode C (notice_wire fs) = Some (Ok n) \<and> n_severity n = sev \<and>
    notice_message n = Ok msg \<and> notice_code n = Ok code \<and>
    (\<forall>(t, x) \<in> set fs. notice_get C n t = Some (Ok (Some x)))"
proof -
  from notice_decode_fields [OF assms] obtain n where
    n: "notice_decode C (notice_wire fs) = Some (Ok n)" "n_storage n = notice_wire fs" "n_severity n = sev"
      "notice_message n = Ok msg" "notice_code n = Ok code" by blast
  have "notice_get C n t = Some (Ok (Some x))" if "(t, x) \<in> set fs" for t x
    using crate_laws.get_raw_loop_finds [OF assms(1) _ assms(6,4,5) that, of "[]"] that assms(4) n(2)
    by (auto simp: notice_get_def notice_get_raw_def list_all_iff notice_field_ok_def)
  with n show ?thesis by blast
qed

definition sample_notice :: notice_fields where
  "sample_notice = [(tag CHR ''S'', lit ''FEHLER''), (tag CHR ''V'', lit ''ERROR''), (tag CHR ''C'', lit ''42710''), (tag CHR ''M'', lit ''exists'')]"

theorem notice_fields_recovered_witness:
  "\<exists>n. notice_decode std_crates (notice_wire sample_notice) = Some (Ok n) \<and> n_severity n = Sev_Error \<and>
     notice_message n = Ok (lit ''exists'') \<and> notice_code n = Ok (lit ''42710'')"
proof -
  have "list_all notice_field_ok sample_notice" "distinct (map fst sample_notice)"
    "severity_try_from (lit ''ERROR'') = Ok Sev_Error" by code_simp+
  moreover have "length (notice_wire sample_notice) < 2 ^ 16" by (simp add: notice_wire_def sample_notice_def)
  ultimately show ?thesis using notice_fields_recovered [OF std.crate_laws_axioms, of sample_notice "lit ''FEHLER''" "lit ''ERROR''" _ Sev_Error
      "lit ''exists''" "lit ''42710''"]
    by (auto simp: sample_notice_def)
qed

text \<open>The field offsets are \<open>u16\<close>.  A response whose first field is long enough, for instance a detail text of 65534
  bytes, makes the next offset wrap around to the same field: decoding it never returns.\<close>

theorem notice_long_field_diverges:
  assumes "crate_laws C" and "length x = 65534" and "0 \<notin> set x"
  shows "notice_decode C (tag CHR ''D'' # x @ [0, 0]) = None"
proof -
  have o: "(65534 :: u16) + 2 = 0" by simp
  have "memchr C 0 (x @ [0, 0]) = Some 65534" using crate_laws.memchr_app [OF assms(1), of 0 x "[0]"] assms(2,3) by simp
  then have n: "fields_next C (tag CHR ''D'' # x @ [0, 0]) 0 = Ok (Some (tag CHR ''D'', 1, 65535), 0)"
    using o by (simp add: fields_next_def slice_from_def tag_def Let_def)
  show ?thesis
  proof (cases "notice_loop C (tag CHR ''D'' # x @ [0, 0]) 0 (None, None, (0, 0), (0, 0))")
    case (Some r)
    from notice_loop_stuck [OF Some] n show ?thesis by (simp add: notice_complete_def)
  qed (simp add: notice_decode_def)
qed

theorem notice_long_field_diverges_witness:
  "notice_decode std_crates (tag CHR ''D'' # replicate 65534 65 @ [0, 0]) = None"
  by (rule notice_long_field_diverges [OF std.crate_laws_axioms]) simp_all

end
