(* ===== verification/Pg_Numeric.thy ===== *)
theory Pg_Numeric
  imports Complex_Main Pg_Messages "HOL-Library.Signed_Division"
begin

text \<open>
  \<open>NUMERIC\<close> values (\<open>rbdc-pg/src/types/numeric.rs\<close>, \<open>bigdecimal.rs\<close>): the wire format in base 10000 and its
  conversion from and to arbitrary-precision decimals.  The crates \<open>bigdecimal\<close> and \<open>num-bigint\<close> are the argument
  \<open>K\<close>; the locale \<open>big_laws\<close> states their documented behaviour.  An \<open>i16\<close> is a 16-bit word, read by \<open>sint\<close>.
\<close>

section \<open>The crates\<close>

datatype big_sign = Minus | NoSign | Plus

record ('d, 'i) big_ops =
  as_bigint_and_exponent :: "'d \<Rightarrow> 'i \<times> int"
  big_new :: "'i \<Rightarrow> int \<Rightarrow> 'd"
  big_zero :: 'd
  to_radix_be :: "'i \<Rightarrow> nat \<Rightarrow> big_sign \<times> bytes"
  from_radix_be :: "big_sign \<Rightarrow> bytes \<Rightarrow> nat \<Rightarrow> 'i option"
  big_parse :: "bytes \<Rightarrow> 'd res"

section \<open>Model\<close>

datatype pg_numeric_sign = Positive | Negative

datatype pg_numeric = NotANumber | Number pg_numeric_sign "u16 list" u16 u16

text \<open>\<open>Number sign digits weight scale\<close>.\<close>

definition sign_code :: "pg_numeric_sign \<Rightarrow> u16" where
  "sign_code s = (case s of Positive \<Rightarrow> 0x0000 | Negative \<Rightarrow> 0x4000)"

definition sign_try_from_u16 :: "u16 \<Rightarrow> pg_numeric_sign res" where
  "sign_try_from_u16 v =
     (if v = 0x0000 then Ok Positive
      else if v = 0x4000 then Ok Negative
      else if v = 0xC000 then Panic
      else Err (Message ''invalid value for PgNumericSign''))"

definition numeric_decode :: "pg_crates \<Rightarrow> bytes \<Rightarrow> pg_numeric res" where
  "numeric_decode B buf =
     rbind (get_u16 B buf) (\<lambda>(num_digits, buf).
     rbind (get_u16 B buf) (\<lambda>(weight, buf).
     rbind (get_u16 B buf) (\<lambda>(sign, buf).
     rbind (get_u16 B buf) (\<lambda>(scale, buf).
     if sign = 0xC000 then Ok NotANumber
     else
       rbind (get_many (unat num_digits) (get_u16 B) buf) (\<lambda>(digits, buf).
       rbind (sign_try_from_u16 sign) (\<lambda>sign. Ok (Number sign digits weight scale)))))))"

definition numeric_encode :: "pg_numeric \<Rightarrow> bytes \<Rightarrow> bytes res" where
  "numeric_encode n buf =
     (case n of
        Number sign digits weight scale \<Rightarrow>
          if 32767 < length digits then Panic
          else Ok (buf @ to_be (of_nat (length digits) :: u16) @ to_be weight @ to_be (sign_code sign) @ to_be scale @
                   concat (map to_be digits))
      | NotANumber \<Rightarrow> Ok (buf @ to_be (0 :: u16) @ to_be (0 :: u16) @ to_be (0xC000 :: u16) @ to_be (0 :: u16)))"

definition decimal_try_from :: "('d, 'i) big_ops \<Rightarrow> pg_numeric \<Rightarrow> 'd res" where
  "decimal_try_from K n =
     (case n of
        NotANumber \<Rightarrow> Err (Message ''BigDecimal does not support NaN values'')
      | Number sign digits weight _ \<Rightarrow>
          if digits = [] then Ok (big_zero K)
          else
            let sign = (case sign of Positive \<Rightarrow> Plus | Negative \<Rightarrow> Minus);
                scale = (int (length digits) - sint weight - 1) * 4;
                cents = concat (map (\<lambda>d. [of_int (sint d sdiv 100), of_int (sint d smod 100)]) digits)
            in (case from_radix_be K sign cents 100 of
                  None \<Rightarrow> Err (Message ''PgNumeric contained an out-of-range digit'')
                | Some i \<Rightarrow> Ok (big_new K i scale)))"

text \<open>\<open>chunks(4)\<close>, and the digits of a chunk in base 10000.\<close>

fun chunks4 :: "'a list \<Rightarrow> 'a list list" where
  "chunks4 [] = []"
| "chunks4 (x # xs) = take 4 (x # xs) # chunks4 (drop 3 xs)"

definition base_10_to_10000 :: "bytes \<Rightarrow> u16" where
  "base_10_to_10000 chunk = fold (\<lambda>d a. a * 10 + ucast d) chunk 0"

text \<open>The digits of the number in base 10000, before trailing zeros are removed.\<close>

definition group_digits :: "nat \<Rightarrow> bytes \<Rightarrow> u16 list" where
  "group_digits offset base_10 =
     (if offset \<le> length base_10
      then (if take offset base_10 \<noteq> [] then [base_10_to_10000 (take offset base_10)] else [])
      else if offset \<noteq> 0 then [base_10_to_10000 base_10 * 10 ^ (offset - length base_10)] else []) @
     (if offset \<le> length base_10
      then map (\<lambda>chunk. base_10_to_10000 chunk * 10 ^ (4 - length chunk)) (chunks4 (drop offset base_10))
      else [])"

definition pop_zeros :: "u16 list \<Rightarrow> u16 list" where
  "pop_zeros digits = rev (dropWhile (\<lambda>d. d = 0) (rev digits))"

definition try_into_i16 :: "int \<Rightarrow> u16 res" where
  "try_into_i16 v = (if - 32768 \<le> v \<and> v \<le> 32767 then Ok (of_int v) else Err (Message ''out of range''))"

definition numeric_try_from :: "('d, 'i) big_ops \<Rightarrow> 'd \<Rightarrow> pg_numeric res" where
  "numeric_try_from K decimal =
     (let (i, e) = as_bigint_and_exponent K decimal;
          (sign, base_10) = to_radix_be K i 10;
          weight_10 = int (length base_10) - e
      in rbind (try_into_i16 (max 0 e)) (\<lambda>scale.
         rbind (try_into_i16 (if weight_10 \<le> 0 then weight_10 sdiv 4 - 1 else (weight_10 - 1) sdiv 4)) (\<lambda>weight.
         Ok (Number (case sign of Plus \<Rightarrow> Positive | NoSign \<Rightarrow> Positive | Minus \<Rightarrow> Negative)
               (pop_zeros (group_digits (nat (weight_10 mod 4)) base_10)) weight scale))))"

definition bigdecimal_encode :: "('d, 'i) big_ops \<Rightarrow> 'd \<Rightarrow> bytes \<Rightarrow> bytes res" where
  "bigdecimal_encode K d buf = (case numeric_try_from K d of Ok n \<Rightarrow> numeric_encode n buf | _ \<Rightarrow> Panic)"

definition bigdecimal_decode :: "pg_crates \<Rightarrow> ('d, 'i) big_ops \<Rightarrow> pg_value_format \<Rightarrow> bytes \<Rightarrow> 'd res" where
  "bigdecimal_decode B K fmt bs =
     (case fmt of
        F_Binary \<Rightarrow> rbind (numeric_decode B bs) (decimal_try_from K)
      | F_Text \<Rightarrow> rbind (from_utf8 bs) (big_parse K))"

section \<open>Numbers in a radix\<close>

definition radix_val :: "nat \<Rightarrow> nat list \<Rightarrow> nat" where
  "radix_val r ds = foldl (\<lambda>a d. a * r + d) 0 ds"

lemma foldl_radix: "foldl (\<lambda>a d. a * r + d) a ds = a * r ^ length ds + radix_val r ds"
proof (induction ds arbitrary: a)
  case (Cons d ds)
  show ?case
    using Cons.IH [of "a * r + d"] Cons.IH [of d] by (simp add: radix_val_def distrib_right)
qed (simp add: radix_val_def)

lemma radix_val_append [simp]: "radix_val r (xs @ ys) = radix_val r xs * r ^ length ys + radix_val r ys"
  using foldl_radix [of r "radix_val r xs" ys] by (simp add: radix_val_def)

lemma radix_val_simps [simp]: "radix_val r [] = 0" "radix_val r [d] = d"
  by (simp_all add: radix_val_def)

lemma radix_val_Cons: "radix_val r (d # ds) = d * r ^ length ds + radix_val r ds"
  using radix_val_append [of r "[d]" ds] by simp

lemma radix_val_less: "list_all (\<lambda>d. d < r) ds \<Longrightarrow> radix_val r ds < r ^ length ds"
proof (induction ds rule: rev_induct)
  case (snoc d ds)
  then have "radix_val r ds * r + d < (radix_val r ds + 1) * r" by simp
  also have "\<dots> \<le> r ^ length ds * r" using snoc by (intro mult_le_mono1) simp
  finally show ?case by (simp add: mult.commute)
qed simp

text \<open>The crates as documented: sign and magnitude, most significant digit first, no leading zero.\<close>

definition big_sign_of :: "int \<Rightarrow> big_sign" where
  "big_sign_of i = (if i < 0 then Minus else if i = 0 then NoSign else Plus)"

definition signed :: "big_sign \<Rightarrow> nat \<Rightarrow> int" where
  "signed s n = (case s of Minus \<Rightarrow> - int n | NoSign \<Rightarrow> 0 | Plus \<Rightarrow> int n)"

definition decimal_value :: "('d, 'i) big_ops \<Rightarrow> ('i \<Rightarrow> int) \<Rightarrow> 'd \<Rightarrow> rat" where
  "decimal_value K int_of d =
     (case as_bigint_and_exponent K d of (i, e) \<Rightarrow> of_int (int_of i) * 10 powi (- e))"

locale big_laws =
  fixes K :: "('d, 'i) big_ops" and int_of :: "'i \<Rightarrow> int"
  assumes to_radix_law: "1 < r \<Longrightarrow> r \<le> 256 \<Longrightarrow> \<exists>ds. to_radix_be K i r = (big_sign_of (int_of i), ds) \<and> ds \<noteq> [] \<and>
      list_all (\<lambda>d. unat d < r) ds \<and> int (radix_val r (map unat ds)) = \<bar>int_of i\<bar>"
    and from_radix_law: "1 < r \<Longrightarrow> r \<le> 256 \<Longrightarrow> list_all (\<lambda>d. unat d < r) ds \<Longrightarrow>
      \<exists>i. from_radix_be K s ds r = Some i \<and> int_of i = signed s (radix_val r (map unat ds))"
    and new_law: "as_bigint_and_exponent K (big_new K i e) = (i, e)"
    and zero_law: "\<exists>i e. as_bigint_and_exponent K (big_zero K) = (i, e) \<and> int_of i = 0"

section \<open>Grouping\<close>

lemma length_chunks4: "length (chunks4 xs) = (length xs + 3) div 4"
proof (induction xs rule: chunks4.induct)
  case (2 x xs)
  then show ?case by (cases "length xs < 3") auto
qed simp

lemma unat_ucast_u8 [simp]: "unat (ucast (d :: u8) :: u16) = unat d"
proof -
  have "unat d < 2 ^ 16" using unsigned_less [of d] by (rule less_trans) simp
  then show ?thesis by (simp add: unsigned_ucast_eq take_bit_nat_eq_self)
qed

lemma digits_fold:
  assumes "list_all (\<lambda>d. unat d < 10) ds" and "length ds \<le> 4"
  shows "unat (base_10_to_10000 ds) = radix_val 10 (map unat ds)"
proof -
  have "unat (fold (\<lambda>d a. a * 10 + ucast d) ds (0 :: u16)) = radix_val 10 (map unat ds)"
    if "list_all (\<lambda>d. unat d < 10) ds" "length ds \<le> 4" for ds :: bytes
    using that
  proof (induction ds rule: rev_induct)
    case (snoc d ds)
    then have v: "radix_val 10 (map unat ds) < 10 ^ length ds" using radix_val_less [of 10 "map unat ds"]
      by (simp add: list_all_iff)
    have "10 ^ length ds \<le> (10 :: nat) ^ 3" using snoc.prems by (intro power_increasing) auto
    with v have "radix_val 10 (map unat ds) < 1000" by simp
    with snoc show ?case
      by (simp add: unat_word_ariths)
  qed simp
  with assms show ?thesis by (simp add: base_10_to_10000_def)
qed

lemma digits_scaled:
  assumes "list_all (\<lambda>d. unat d < 10) ds" and "length ds + k \<le> 4"
  shows "unat (base_10_to_10000 ds * 10 ^ k) = radix_val 10 (map unat ds) * 10 ^ k"
    and "unat (base_10_to_10000 ds * 10 ^ k) < 10000"
proof -
  have v: "radix_val 10 (map unat ds) < 10 ^ length ds" using radix_val_less [of 10 "map unat ds"] assms(1)
    by (simp add: list_all_iff)
  then have "radix_val 10 (map unat ds) * 10 ^ k < 10 ^ length ds * 10 ^ k" by simp
  also have "\<dots> \<le> 10 ^ 4" unfolding power_add [symmetric] using assms(2) by (intro power_increasing) auto
  finally have b: "radix_val 10 (map unat ds) * 10 ^ k < 10000" by simp
  have "(10 :: nat) ^ k \<le> 10 ^ 4" using assms(2) by (intro power_increasing) auto
  then have "unat (of_nat (10 ^ k) :: u16) = 10 ^ k" by (subst unat_of_nat) simp
  then have "unat ((10 :: u16) ^ k) = 10 ^ k" by simp
  with b digits_fold [OF assms(1)] assms(2)
  show "unat (base_10_to_10000 ds * 10 ^ k) = radix_val 10 (map unat ds) * 10 ^ k"
    by (simp add: unat_word_ariths)
  with b show "unat (base_10_to_10000 ds * 10 ^ k) < 10000" by simp
qed

definition grouped :: "bytes \<Rightarrow> u16 list" where
  "grouped ds = map (\<lambda>chunk. base_10_to_10000 chunk * 10 ^ (4 - length chunk)) (chunks4 ds)"

lemma grouped_value:
  assumes "list_all (\<lambda>d. unat d < 10) ds"
  shows "radix_val 10000 (map unat (grouped ds)) = radix_val 10 (map unat ds) * 10 ^ (4 * length (chunks4 ds) - length ds) \<and>
    list_all (\<lambda>d. unat d < 10000) (grouped ds)"
  using assms
proof (induction ds rule: chunks4.induct)
  case (2 x xs)
  let ?c = "take 4 (x # xs)" and ?r = "drop 3 xs"
  have split: "x # xs = ?c @ ?r" by (simp add: take_Cons')
  have "list_all (\<lambda>d. unat d < 10) (?c @ ?r)" using "2.prems" split by metis
  then have all: "list_all (\<lambda>d. unat d < 10) ?c" "list_all (\<lambda>d. unat d < 10) ?r" by (simp_all only: list_all_append)
  note IH = "2.IH" [OF all(2)]
  note c = digits_scaled [OF all(1), of "4 - length ?c"]
  let ?p = "4 * length (chunks4 ?r) - length ?r"
  have len: "4 * length (chunks4 ?r) = length ?r + ?p" by (simp add: length_chunks4)
  have ten: "(10000 :: nat) ^ length (chunks4 ?r) = 10 ^ length ?r * 10 ^ ?p"
  proof -
    have "(10000 :: nat) ^ length (chunks4 ?r) = 10 ^ (4 * length (chunks4 ?r))" by (simp add: power_mult)
    then show ?thesis by (metis len power_add)
  qed
  have g: "grouped (x # xs) = base_10_to_10000 ?c * 10 ^ (4 - length ?c) # grouped ?r" by (simp add: grouped_def)
  have l: "length (grouped ?r) = length (chunks4 ?r)" by (simp add: grouped_def)
  have "radix_val 10000 (map unat (grouped (x # xs))) =
      radix_val 10 (map unat ?c) * 10 ^ (4 - length ?c) * (10 ^ length ?r * 10 ^ ?p) + radix_val 10 (map unat ?r) * 10 ^ ?p"
    using IH c(1) by (simp add: g l radix_val_Cons ten del: take_Suc_Cons)
  also have "\<dots> = radix_val 10 (map unat (x # xs)) * 10 ^ (4 * length (chunks4 (x # xs)) - length (x # xs))"
  proof (cases "length xs < 3")
    case True
    then show ?thesis by (simp add: take_Cons')
  next
    case False
    then have c4: "length ?c = 4" by simp
    have "radix_val 10 (map unat (x # xs)) = radix_val 10 (map unat (?c @ ?r))" using split by metis
    also have "\<dots> = radix_val 10 (map unat ?c) * 10 ^ length ?r + radix_val 10 (map unat ?r)"
      by (simp only: map_append radix_val_append length_map)
    finally have v: "radix_val 10 (map unat (x # xs)) = \<dots>" .
    have "4 * length (chunks4 (x # xs)) - length (x # xs) = ?p" using False by simp
    with c4 v show ?thesis by (simp only: diff_self_eq_0 power_0 mult_1_right distrib_right mult.assoc)
  qed
  finally show ?case using IH c(2) g by (simp del: take_Suc_Cons)
qed (simp add: grouped_def)

lemma group_digits_value:
  assumes "list_all (\<lambda>d. unat d < 10) ds" and "offset < 4"
  shows "\<exists>pad. radix_val 10000 (map unat (group_digits offset ds)) = radix_val 10 (map unat ds) * 10 ^ pad \<and>
    list_all (\<lambda>d. unat d < 10000) (group_digits offset ds) \<and>
    4 * int (length (group_digits offset ds)) = int (length ds) - int offset + (if offset = 0 then 0 else 4) + int pad"
proof (cases "offset \<le> length ds")
  case True
  let ?c = "take offset ds" and ?r = "drop offset ds"
  have "list_all (\<lambda>d. unat d < 10) (?c @ ?r)" using assms(1) by simp
  then have all: "list_all (\<lambda>d. unat d < 10) ?c" "list_all (\<lambda>d. unat d < 10) ?r" by (simp_all only: list_all_append)
  let ?p = "4 * length (chunks4 ?r) - length ?r"
  have len: "4 * length (chunks4 ?r) = length ?r + ?p" by (simp add: length_chunks4)
  have ten: "(10000 :: nat) ^ length (chunks4 ?r) = 10 ^ length ?r * 10 ^ ?p"
  proof -
    have "(10000 :: nat) ^ length (chunks4 ?r) = 10 ^ (4 * length (chunks4 ?r))" by (simp add: power_mult)
    then show ?thesis by (metis len power_add)
  qed
  have l: "length (grouped ?r) = length (chunks4 ?r)" by (simp add: grouped_def)
  have c: "unat (base_10_to_10000 ?c) = radix_val 10 (map unat ?c)" "unat (base_10_to_10000 ?c) < 10000"
    using digits_scaled [OF all(1), of 0] assms(2) True by simp_all
  have v: "radix_val 10 (map unat ds) = radix_val 10 (map unat ?c) * 10 ^ length ?r + radix_val 10 (map unat ?r)"
  proof -
    have "radix_val 10 (map unat ds) = radix_val 10 (map unat (?c @ ?r))" by simp
    then show ?thesis by (simp only: map_append radix_val_append length_map)
  qed
  have g: "group_digits offset ds = (if offset = 0 then [] else [base_10_to_10000 ?c]) @ grouped ?r"
    using True by (auto simp: group_digits_def grouped_def)
  have val: "radix_val 10000 (map unat (group_digits offset ds)) = radix_val 10 (map unat ds) * 10 ^ ?p"
  proof (cases "offset = 0")
    case True
    with g show ?thesis using grouped_value [OF all(2)] by simp
  next
    case False
    then show ?thesis
      using grouped_value [OF all(2)] c(1) by (simp only: g v ten l) (simp add: radix_val_Cons l ten distrib_right)
  qed
  moreover have "list_all (\<lambda>d. unat d < 10000) (group_digits offset ds)"
    using grouped_value [OF all(2)] c(2) by (simp add: g)
  moreover have "4 * int (length (group_digits offset ds)) =
      int (length ds) - int offset + (if offset = 0 then 0 else 4) + int ?p"
    using len True by (simp add: g l)
  ultimately show ?thesis by blast
next
  case False
  then have g: "group_digits offset ds = [base_10_to_10000 ds * 10 ^ (offset - length ds)]"
    by (simp add: group_digits_def)
  from digits_scaled [OF assms(1), of "offset - length ds"] assms(2) False show ?thesis
    by (intro exI [of _ "offset - length ds"]) (simp add: g)
qed

lemma pop_zeros_value:
  "radix_val 10000 (map unat ds) = radix_val 10000 (map unat (pop_zeros ds)) * 10000 ^ (length ds - length (pop_zeros ds))"
  "length (pop_zeros ds) \<le> length ds" "set (pop_zeros ds) \<subseteq> set ds"
proof -
  obtain z where z: "ds = pop_zeros ds @ replicate z 0"
  proof -
    have "rev ds = takeWhile (\<lambda>d. d = 0) (rev ds) @ rev (pop_zeros ds)" by (simp add: pop_zeros_def)
    then have "ds = pop_zeros ds @ rev (takeWhile (\<lambda>d. d = 0) (rev ds))" by (metis rev_append rev_rev_ident)
    moreover have "rev (takeWhile (\<lambda>d. d = 0) (rev ds)) = replicate (length (takeWhile (\<lambda>d. d = 0) (rev ds))) 0"
      by (metis (mono_tags, lifting) length_rev replicate_length_same set_rev set_takeWhileD)
    ultimately show ?thesis using that by metis
  qed
  have r: "radix_val 10000 (map unat (replicate z (0 :: u16))) = 0" by (induction z) (simp_all add: radix_val_Cons)
  have l: "length ds = length (pop_zeros ds) + z" using z by (metis length_append length_replicate)
  have "radix_val 10000 (map unat ds) = radix_val 10000 (map unat (pop_zeros ds @ replicate z 0))" using z by metis
  then show "radix_val 10000 (map unat ds) = radix_val 10000 (map unat (pop_zeros ds)) * 10000 ^ (length ds - length (pop_zeros ds))"
    using r l by simp
  show "length (pop_zeros ds) \<le> length ds" using l by simp
  show "set (pop_zeros ds) \<subseteq> set ds" using z by (metis Un_upper1 set_append)
qed

lemma pop_zeros_empty: "pop_zeros ds = [] \<Longrightarrow> radix_val 10000 (map unat ds) = 0"
  using pop_zeros_value(1) [of ds] by simp

text \<open>Splitting the digits in two for the decoder.\<close>

lemma sint_small_u16: "unat (d :: u16) < 10000 \<Longrightarrow> sint d = int (unat d)"
proof -
  assume "unat d < 10000"
  then have "int (unat d) < 10000" by linarith
  then have "uint d < 10000" by simp
  moreover have "- (2 ^ 15) \<le> uint d" by (rule order.trans [of _ 0]) simp_all
  ultimately have "signed_take_bit 15 (uint d) = uint d" by (intro signed_take_bit_int_eq_self) simp_all
  then show "sint d = int (unat d)" by (simp add: sint_uint)
qed

lemma cents_value:
  assumes "list_all (\<lambda>d. unat d < 10000) ds"
  defines "cents \<equiv> \<lambda>ds. concat (map (\<lambda>d :: u16. [of_int (sint d sdiv 100), of_int (sint d smod 100)]) ds) :: bytes"
  shows "radix_val 100 (map unat (cents ds)) = radix_val 10000 (map unat ds) \<and> list_all (\<lambda>d. unat d < 100) (cents ds) \<and>
    length (cents ds) = 2 * length ds"
  using assms(1)
proof (induction ds)
  case (Cons d ds)
  then have d: "sint d = int (unat d)" "unat d < 10000" by (simp_all add: sint_small_u16)
  have q: "sint d sdiv 100 = int (unat d div 100)" "sint d smod 100 = int (unat d mod 100)"
    by (cases "d = 0"; simp add: d(1) signed_divide_int_def signed_modulo_int_def zdiv_int zmod_int)+
  have s: "unat (of_nat (unat d div 100) :: u8) = unat d div 100" "unat (of_nat (unat d mod 100) :: u8) = unat d mod 100"
    using d(2) by (simp_all add: unat_of_nat)
  have c: "cents (d # ds) = [of_nat (unat d div 100), of_nat (unat d mod 100)] @ cents ds"
    by (simp add: cents_def q)
  have p: "(100 :: nat) ^ (2 * n) = 10000 ^ n" for n by (simp add: power_mult)
  have "radix_val 100 (map unat (cents (d # ds))) = (unat d div 100 * 100 + unat d mod 100) * 10000 ^ length ds + radix_val 10000 (map unat ds)"
    unfolding c map_append radix_val_append using Cons d(2) s by (simp add: p radix_val_Cons)
  also have "unat d div 100 * 100 + unat d mod 100 = unat d" by simp
  finally show ?case using Cons s d(2) by (simp add: c radix_val_Cons)
qed (simp add: cents_def)

lemma try_into_i16_Ok: "try_into_i16 v = Ok w \<Longrightarrow> sint w = v"
  by (auto simp: try_into_i16_def signed_of_int signed_take_bit_int_eq_self split: if_splits)

text \<open>The weight rounds up: it counts the groups before the decimal point, minus one.\<close>

lemma weight_groups:
  "4 * ((if w \<le> 0 then w sdiv 4 - 1 else (w - 1) sdiv 4) + 1) = w - w mod 4 + (if w mod 4 = 0 then 0 else (4 :: int))"
proof (cases "w \<le> 0")
  case True
  then have "w sdiv 4 = - ((- w) div 4)" by (cases "w = 0") (auto simp: signed_divide_int_def)
  moreover have "4 * (- ((- w) div 4)) = w - w mod 4 + (if w mod 4 = 0 then 0 else 4)" by presburger
  ultimately show ?thesis using True by simp
next
  case False
  then have "(w - 1) sdiv 4 = (w - 1) div 4" by (cases "w = 1") (auto simp: signed_divide_int_def)
  moreover have "4 * ((w - 1) div 4 + 1) = w - w mod 4 + (if w mod 4 = 0 then 0 else 4)" by presburger
  ultimately show ?thesis using False by simp
qed

context pg_crate_laws
begin

lemma numeric_roundtrip:
  assumes "length digits \<le> 32767"
  shows "numeric_encode (Number s digits w sc) buf =
      Ok (buf @ to_be (of_nat (length digits) :: u16) @ to_be w @ to_be (sign_code s) @ to_be sc @ concat (map to_be digits))"
    and "numeric_decode B (to_be (of_nat (length digits) :: u16) @ to_be w @ to_be (sign_code s) @ to_be sc @ concat (map to_be digits)) =
      Ok (Number s digits w sc)"
proof -
  show "numeric_encode (Number s digits w sc) buf =
      Ok (buf @ to_be (of_nat (length digits) :: u16) @ to_be w @ to_be (sign_code s) @ to_be sc @ concat (map to_be digits))"
    using assms by (simp add: numeric_encode_def)
  have u: "unat (of_nat (length digits) :: u16) = length digits" using assms by (simp add: unat_of_nat)
  have m: "get_many (length digits) (get_u16 B) (concat (map to_be digits)) = Ok (digits, [])"
    using get_many_app [of digits "get_u16 B" to_be "[]"] by simp
  show "numeric_decode B (to_be (of_nat (length digits) :: u16) @ to_be w @ to_be (sign_code s) @ to_be sc @ concat (map to_be digits)) =
      Ok (Number s digits w sc)"
    by (cases s) (simp_all add: numeric_decode_def u m sign_code_def sign_try_from_u16_def)
qed

end

lemma group_bounds:
  assumes "list_all (\<lambda>d. unat d < 10) ds" and "offset < 4"
  shows "list_all (\<lambda>d. unat d < 10000) (pop_zeros (group_digits offset ds))"
    and "length (pop_zeros (group_digits offset ds)) \<le> length ds div 4 + 2"
proof -
  from group_digits_value [OF assms] obtain pad where
    "list_all (\<lambda>d. unat d < 10000) (group_digits offset ds)" by blast
  then show "list_all (\<lambda>d. unat d < 10000) (pop_zeros (group_digits offset ds))"
    using pop_zeros_value(3) [of "group_digits offset ds"] by (auto simp: list_all_iff)
  have "length (group_digits offset ds) \<le> length ds div 4 + 2"
    by (auto simp: group_digits_def length_chunks4)
  with pop_zeros_value(2) [of "group_digits offset ds"] show "length (pop_zeros (group_digits offset ds)) \<le> length ds div 4 + 2"
    by linarith
qed

text \<open>The value of the number that is sent.\<close>

lemma group_value:
  assumes "list_all (\<lambda>d. unat d < 10) ds" and "w = int (length ds) - e"
    and "weight = (if w \<le> 0 then w sdiv 4 - 1 else (w - 1) sdiv 4)"
  defines "g \<equiv> pop_zeros (group_digits (nat (w mod 4)) ds)"
  shows "of_int (int (radix_val 10000 (map unat g))) * 10 powi (- ((int (length g) - weight - 1) * 4)) =
    (of_int (int (radix_val 10 (map unat ds))) * 10 powi (- e) :: rat)"
proof -
  let ?o = "nat (w mod 4)" and ?h = "group_digits (nat (w mod 4)) ds"
  have o: "?o < 4" "int ?o = w mod 4" by simp_all
  have z: "?o = 0 \<longleftrightarrow> w mod 4 = 0" using o(2) by linarith
  from group_digits_value [OF assms(1) o(1)] obtain pad where
    pad: "radix_val 10000 (map unat ?h) = radix_val 10 (map unat ds) * 10 ^ pad"
      "4 * int (length ?h) = int (length ds) - w mod 4 + (if w mod 4 = 0 then 0 else 4) + int pad"
    unfolding o(2) z by blast
  let ?k = "length ?h - length g"
  have k: "length ?h = length g + ?k" using pop_zeros_value(2) [of ?h] by (simp add: g_def)
  have v: "radix_val 10000 (map unat g) * 10000 ^ ?k = radix_val 10 (map unat ds) * 10 ^ pad"
    using pop_zeros_value(1) [of ?h] pad(1) by (simp add: g_def)
  have wg: "4 * (weight + 1) = w - w mod 4 + (if w mod 4 = 0 then 0 else 4)"
    unfolding assms(3) by (rule weight_groups)
  have hk: "int (length ?h) = int (length g) + int ?k" using k by linarith
  have ar: "4 * (x + 1) = w - m + c \<Longrightarrow> h = lg + k \<Longrightarrow> 4 * h = len - m + c + p \<Longrightarrow> w = len - e \<Longrightarrow>
      - ((lg - x - 1) * 4) = - e + 4 * k - p" for x m c h lg k len p :: int by simp
  have s: "- ((int (length g) - weight - 1) * 4) = - e + 4 * int ?k - int pad"
    by (rule ar [OF wg hk pad(2) assms(2)])
  have t: "(10 :: rat) powi (4 * int ?k) = 10000 ^ ?k"
    by (simp add: power_int_mult)
  have "of_nat (radix_val 10000 (map unat g)) * 10 powi (- e + 4 * int ?k - int pad) =
      (of_nat (radix_val 10000 (map unat g) * 10000 ^ ?k) * 10 powi (- e) / 10 ^ pad :: rat)"
    by (simp add: power_int_add power_int_diff t power_int_minus divide_simps)
  also have "\<dots> = of_nat (radix_val 10 (map unat ds)) * 10 powi (- e)" by (simp add: v)
  finally show ?thesis unfolding s by simp
qed

context big_laws
begin

lemma decimal_try_from_value:
  assumes "list_all (\<lambda>d. unat d < 10000) digits"
  shows "\<exists>d. decimal_try_from K (Number s digits w sc) = Ok d \<and>
    decimal_value K int_of d =
      of_int ((case s of Positive \<Rightarrow> 1 | Negative \<Rightarrow> - 1) * int (radix_val 10000 (map unat digits))) *
        10 powi (- ((int (length digits) - sint w - 1) * 4))"
proof (cases "digits = []")
  case True
  with zero_law show ?thesis by (auto simp: decimal_try_from_def decimal_value_def)
next
  case False
  let ?s = "case s of Positive \<Rightarrow> Plus | Negative \<Rightarrow> Minus"
  let ?c = "concat (map (\<lambda>d. [of_int (sint d sdiv 100), of_int (sint d smod 100)]) digits) :: bytes"
  from cents_value [OF assms] have c: "radix_val 100 (map unat ?c) = radix_val 10000 (map unat digits)"
    "list_all (\<lambda>d. unat d < 100) ?c" by simp_all
  from from_radix_law [OF _ _ c(2), of ?s] obtain i where
    i: "from_radix_be K ?s ?c 100 = Some i" "int_of i = signed ?s (radix_val 100 (map unat ?c))" by auto
  with False c(1) show ?thesis
    by (cases s) (simp_all add: decimal_try_from_def Let_def decimal_value_def new_law signed_def)
qed

end

section \<open>Integers and decimals as pairs\<close>

fun nat_digits :: "nat \<Rightarrow> nat \<Rightarrow> nat \<Rightarrow> nat list" where
  "nat_digits 0 r n = []"
| "nat_digits (Suc k) r n = (if n < r then [n] else nat_digits k r (n div r) @ [n mod r])"

lemma nat_digits_ok:
  assumes "n < k" and "1 < r"
  shows "nat_digits k r n \<noteq> [] \<and> list_all (\<lambda>d. d < r) (nat_digits k r n) \<and> radix_val r (nat_digits k r n) = n"
  using assms
proof (induction k r n rule: nat_digits.induct)
  case (2 k r n)
  show ?case
  proof (cases "n < r")
    case False
    with "2.prems" have "n div r < k" by (metis div_less_dividend less_Suc_eq_le less_le_trans not_less_zero not_gr_zero)
    with "2.IH" [OF False] "2.prems" False show ?thesis by simp
  qed simp
qed simp

declare nat_digits.simps [simp del]

definition pair_big :: "(int \<times> int, int) big_ops" where
  "pair_big = \<lparr>as_bigint_and_exponent = (\<lambda>d. d), big_new = Pair, big_zero = (0, 0),
     to_radix_be = (\<lambda>i r. (big_sign_of i, map of_nat (nat_digits (Suc (nat \<bar>i\<bar>)) r (nat \<bar>i\<bar>)))),
     from_radix_be = (\<lambda>s ds r. if list_all (\<lambda>d. unat d < r) ds then Some (signed s (radix_val r (map unat ds))) else None),
     big_parse = (\<lambda>_. Err (Message ''parse''))\<rparr>"

interpretation pair_big: big_laws pair_big "\<lambda>i. i"
proof unfold_locales
  fix r :: nat and i :: int
  assume r: "1 < r" "r \<le> 256"
  let ?ds = "nat_digits (Suc (nat \<bar>i\<bar>)) r (nat \<bar>i\<bar>)"
  from nat_digits_ok [of "nat \<bar>i\<bar>" "Suc (nat \<bar>i\<bar>)" r] r have
    ds: "?ds \<noteq> []" "list_all (\<lambda>d. d < r) ?ds" "radix_val r ?ds = nat \<bar>i\<bar>" by simp_all
  then have u: "map (unat \<circ> (of_nat :: nat \<Rightarrow> u8)) ?ds = ?ds"
    using r(2) by (intro map_idI) (auto simp: list_all_iff unat_of_nat)
  have "list_all (\<lambda>d. unat d < r) (map (of_nat :: nat \<Rightarrow> u8) ?ds)"
    using ds(2) r(2) by (auto simp: list_all_iff unat_of_nat)
  with ds u show "\<exists>ds. to_radix_be pair_big i r = (big_sign_of i, ds) \<and> ds \<noteq> [] \<and> list_all (\<lambda>d. unat d < r) ds \<and>
      int (radix_val r (map unat ds)) = \<bar>i\<bar>"
    by (auto simp: pair_big_def)
qed (simp_all add: pair_big_def)

section \<open>Properties\<close>

text \<open>C34: A decimal sent as \<open>NUMERIC\<close> keeps its value.  For every decimal whose scale and weight fit in 16 bits and that has at most
  100000 digits, encoding succeeds, and decoding the bytes gives a decimal of the same value, whatever its sign, its
  exponent and the alignment of its decimal point to the groups of four digits, trailing zeros dropped or not.\<close>

theorem decimal_keeps_its_value:
  assumes "pg_crate_laws C B" and "big_laws K int_of"
    and "as_bigint_and_exponent K d = (i, e)" and "to_radix_be K i 10 = (s, ds)"
    and "e \<le> 32767" and "\<bar>int (length ds) - e\<bar> \<le> 131000" and "length ds \<le> 100000"
  shows "\<exists>wire d'. bigdecimal_encode K d buf = Ok (buf @ wire) \<and> bigdecimal_decode B K F_Binary wire = Ok d' \<and>
    decimal_value K int_of d' = decimal_value K int_of d"
proof -
  from big_laws.to_radix_law [OF assms(2), of 10 i] assms(4) have
    ds: "s = big_sign_of (int_of i)" "ds \<noteq> []" "list_all (\<lambda>d. unat d < 10) ds" "int (radix_val 10 (map unat ds)) = \<bar>int_of i\<bar>"
    by auto
  let ?w = "int (length ds) - e"
  let ?weight = "if ?w \<le> 0 then ?w sdiv 4 - 1 else (?w - 1) sdiv 4"
  let ?g = "pop_zeros (group_digits (nat (?w mod 4)) ds)"
  let ?sg = "case s of Plus \<Rightarrow> Positive | NoSign \<Rightarrow> Positive | Minus \<Rightarrow> Negative"
  have o: "nat (?w mod 4) < 4" by simp
  have g: "list_all (\<lambda>d. unat d < 10000) ?g" by (rule group_bounds(1) [OF ds(3) o])
  have gl: "length ?g \<le> 32767" using group_bounds(2) [OF ds(3) o] assms(7) by linarith
  have ar: "4 * (x + 1) = v - m + c \<Longrightarrow> \<bar>v\<bar> \<le> 131000 \<Longrightarrow> 0 \<le> m \<Longrightarrow> m < 4 \<Longrightarrow> c = 0 \<or> c = 4 \<Longrightarrow>
      - 32768 \<le> x \<and> x \<le> 32767" for x v m c :: int
    by (elim disjE) (auto simp: abs_le_iff)
  have "- 32768 \<le> ?weight \<and> ?weight \<le> 32767" by (rule ar [OF weight_groups assms(6)]) simp_all
  then obtain w where w: "try_into_i16 ?weight = Ok w" by (simp add: try_into_i16_def)
  have "try_into_i16 (max 0 e) = Ok (of_int (max 0 e))" using assms(5) by (auto simp: try_into_i16_def)
  then obtain sc where sc: "try_into_i16 (max 0 e) = Ok sc" ..
  have n: "numeric_try_from K d = Ok (Number ?sg ?g w sc)"
    by (simp only: numeric_try_from_def assms(3,4) Let_def sc w case_prod_conv rbind.simps)
  from big_laws.decimal_try_from_value [OF assms(2) g, of ?sg w sc] obtain d' where
    d': "decimal_try_from K (Number ?sg ?g w sc) = Ok d'"
      "decimal_value K int_of d' = of_int ((case ?sg of Positive \<Rightarrow> 1 | Negative \<Rightarrow> - 1) * int (radix_val 10000 (map unat ?g))) *
        10 powi (- ((int (length ?g) - ?weight - 1) * 4))"
    unfolding try_into_i16_Ok [OF w] by blast
  have v: "of_int (int (radix_val 10000 (map unat ?g))) * 10 powi (- ((int (length ?g) - ?weight - 1) * 4)) =
      (of_int \<bar>int_of i\<bar> * 10 powi (- e) :: rat)"
    using group_value [OF ds(3) refl refl, of e] unfolding ds(4) .
  have "decimal_value K int_of d' = of_int (case ?sg of Positive \<Rightarrow> 1 | Negative \<Rightarrow> - 1) * (of_int \<bar>int_of i\<bar> * 10 powi (- e))"
    unfolding d'(2) v [symmetric] by (simp only: of_int_mult mult.assoc)
  also have "\<dots> = of_int (int_of i) * 10 powi (- e)"
    using ds(1) by (cases "int_of i < 0"; cases "int_of i = 0") (simp_all add: big_sign_of_def)
  finally have "decimal_value K int_of d' = decimal_value K int_of d" by (simp add: decimal_value_def assms(3))
  with d'(1) n pg_crate_laws.numeric_roundtrip [OF assms(1) gl, where s = ?sg and w = w and sc = sc] show ?thesis
    by (auto simp: bigdecimal_encode_def bigdecimal_decode_def)
qed

theorem decimal_keeps_its_value_witness:
  "\<exists>wire d'. bigdecimal_encode pair_big (- 120, 3) [7] = Ok ([7] @ wire) \<and>
    bigdecimal_decode std_pg_crates pair_big F_Binary wire = Ok d' \<and> decimal_value pair_big (\<lambda>i. i) d' = - 12 / 100"
proof -
  have r: "to_radix_be pair_big (- 120) 10 = (Minus, [1, 2, 0])" by code_simp
  have d: "as_bigint_and_exponent pair_big (- 120, 3) = (- 120, 3)" by (simp add: pair_big_def)
  from decimal_keeps_its_value [OF std_pg.pg_crate_laws_axioms pair_big.big_laws_axioms d r, of "[7]"]
  show ?thesis by (simp add: decimal_value_def d power_int_minus)
qed

end
