(* ===== verification/Pg_Values.thy ===== *)
theory Pg_Values
  imports Pg_Type_Info Pg_Numeric Rbs_Value
begin

text \<open>
  Values of PostgreSQL (\<open>rbdc-pg/src/value.rs\<close>, \<open>arguments.rs\<close>, \<open>types/\<close>): reading a cell by its type, writing an
  argument, the argument buffer with its patches.  The crates \<open>rbs\<close>, \<open>fastdate\<close>, \<open>uuid\<close>, \<open>hex\<close> and
  \<open>bigdecimal\<close> are the argument \<open>K\<close>; floating-point numbers are bit patterns.
\<close>

section \<open>The crates\<close>

text \<open>Durations are counted in microseconds.\<close>

record ('dt, 'd, 'i) pg_kit = "'dt kit" +
  as_f64 :: "dyn_value \<Rightarrow> u64 option"
  as_slice :: "dyn_value \<Rightarrow> bytes option"
  dt_from_date :: "fdate \<Rightarrow> 'dt"
  dt_add :: "'dt \<Rightarrow> nat \<Rightarrow> 'dt"
  dt_sub :: "'dt \<Rightarrow> nat \<Rightarrow> 'dt"
  dt_ge :: "'dt \<Rightarrow> 'dt \<Rightarrow> bool"
  dt_diff :: "'dt \<Rightarrow> 'dt \<Rightarrow> nat"
  set_offset :: "'dt \<Rightarrow> int \<Rightarrow> 'dt"
  get_micro :: "ftime \<Rightarrow> u32"
  time_to_string :: "ftime \<Rightarrow> bytes"
  time_from_duration :: "nat \<Rightarrow> ftime"
  time_to_duration :: "ftime \<Rightarrow> nat"
  timestamptz_from_value :: "dyn_value \<Rightarrow> 'dt res"
  timetz_from_value :: "dyn_value \<Rightarrow> (ftime \<times> u32) res"
  timetz_to_value :: "ftime \<times> u32 \<Rightarrow> dyn_value"
  hex_decode :: "bytes \<Rightarrow> bytes res"
  uuid_parse :: "bytes \<Rightarrow> bytes res"
  uuid_from_slice :: "bytes \<Rightarrow> bytes res"
  f64_to_string :: "u64 \<Rightarrow> bytes"
  big :: "('d, 'i) big_ops"
  big_to_string :: "'d \<Rightarrow> bytes"

section \<open>Cells\<close>

record pg_value =
  pv_value :: "bytes option"
  pv_type_info :: pg_type
  pv_format :: pg_value_format
  pv_timezone_sec :: "int option"

text \<open>\<open>PgValue::get\<close>: a length of \<open>- 1\<close> is a null, any other negative length is out of range.\<close>

definition pg_value_get ::
    "pg_crates \<Rightarrow> pg_value_format \<Rightarrow> pg_type \<Rightarrow> int option \<Rightarrow> bytes \<Rightarrow> (pg_value \<times> bytes) res" where
  "pg_value_get B fmt ty tz buf =
     rbind (get_u32 B buf) (\<lambda>(n, buf).
     let pv = (\<lambda>v. \<lparr>pv_value = v, pv_type_info = ty, pv_format = fmt, pv_timezone_sec = tz\<rparr>) in
     if n = - 1 then Ok (pv None, buf)
     else if sint n < 0 \<or> length buf < unat n then Panic
     else Ok (pv (Some (take (unat n) buf)), drop (unat n) buf))"

definition pv_bytes :: "pg_value \<Rightarrow> bytes res" where
  "pv_bytes v = (case pv_value v of Some b \<Rightarrow> Ok b | None \<Rightarrow> Err (Message ''UnexpectedNullError''))"

definition pv_str :: "pg_value \<Rightarrow> bytes res" where
  "pv_str v = rbind (pv_bytes v) from_utf8"

definition parse_or :: "'a option \<Rightarrow> 'a res" where
  "parse_or r = (case r of Some x \<Rightarrow> Ok x | None \<Rightarrow> Err (Message ''parse error''))"

section \<open>Reading scalars\<close>

definition pg_bool_decode :: "pg_value \<Rightarrow> bool res" where
  "pg_bool_decode v =
     (case pv_format v of
        F_Binary \<Rightarrow> rbind (pv_bytes v) (\<lambda>b. rbind (index b 0) (\<lambda>x. Ok (x \<noteq> 0)))
      | F_Text \<Rightarrow> rbind (pv_str v) (\<lambda>s.
          if s = lit ''t'' then Ok True else if s = lit ''f'' then Ok False
          else Err (Message ''unexpected value for boolean'')))"

definition pg_i64_decode :: "pg_crates \<Rightarrow> pg_value \<Rightarrow> u64 res" where
  "pg_i64_decode B v =
     (case pv_format v of
        F_Binary \<Rightarrow> rbind (pv_bytes v) (read_be_u64 B)
      | F_Text \<Rightarrow> rbind (pv_str v) (\<lambda>s. parse_or (parse_i64 s)))"

definition pg_i32_decode :: "pg_crates \<Rightarrow> pg_value \<Rightarrow> u32 res" where
  "pg_i32_decode B v =
     (case pv_format v of
        F_Binary \<Rightarrow> rbind (pv_bytes v) (\<lambda>b.
          if length b = 8 then rbind (read_be_u64 B b) (\<lambda>x. Ok (ucast x))
          else if length b = 4 then read_be_u32 B b
          else Err (Message ''error i32 bytes len''))
      | F_Text \<Rightarrow> rbind (pv_str v) (\<lambda>s. parse_or (parse_i32 s)))"

definition pg_u32_decode :: "pg_crates \<Rightarrow> pg_value \<Rightarrow> u32 res" where
  "pg_u32_decode B v =
     (case pv_format v of
        F_Binary \<Rightarrow> rbind (pv_bytes v) (\<lambda>b.
          if length b = 8 then rbind (read_be_u64 B b) (\<lambda>x. Ok (ucast x))
          else if length b = 4 then read_be_u32 B b
          else Err (Message ''error u32 bytes len''))
      | F_Text \<Rightarrow> rbind (pv_str v) (\<lambda>s. parse_or (parse_u32 s)))"

definition pg_i16_decode :: "pg_crates \<Rightarrow> pg_value \<Rightarrow> u16 res" where
  "pg_i16_decode B v =
     (case pv_format v of
        F_Binary \<Rightarrow> rbind (pv_bytes v) (\<lambda>b.
          if length b = 8 then rbind (read_be_u64 B b) (\<lambda>x. Ok (ucast x))
          else if length b = 4 then rbind (read_be_u32 B b) (\<lambda>x. Ok (ucast x))
          else if length b = 2 then read_be_u16 B b
          else Err (Message ''error i16 bytes len''))
      | F_Text \<Rightarrow> rbind (pv_str v) (\<lambda>s. parse_or (parse_i16 s)))"

definition pg_f64_decode :: "pg_crates \<Rightarrow> ('dt, 'd, 'i) pg_kit \<Rightarrow> pg_value \<Rightarrow> u64 res" where
  "pg_f64_decode B K v =
     (case pv_format v of
        F_Binary \<Rightarrow> rbind (pv_bytes v) (read_be_u64 B)
      | F_Text \<Rightarrow> rbind (pv_str v) (\<lambda>s. parse_or (f64_parse K s)))"

definition pg_f32_decode :: "pg_crates \<Rightarrow> ('dt, 'd, 'i) pg_kit \<Rightarrow> pg_value \<Rightarrow> u32 res" where
  "pg_f32_decode B K v =
     (case pv_format v of
        F_Binary \<Rightarrow> rbind (pv_bytes v) (\<lambda>b.
          if length b = 8 then rbind (read_be_u64 B b) (\<lambda>x. Ok (f32_of_f64 K x))
          else if length b = 4 then read_be_u32 B b
          else Err (Message ''error f32 bytes len''))
      | F_Text \<Rightarrow> rbind (pv_str v) (\<lambda>s. parse_or (f32_parse K s)))"

definition pg_bytea_decode :: "('dt, 'd, 'i) pg_kit \<Rightarrow> pg_value \<Rightarrow> bytes res" where
  "pg_bytea_decode K v =
     (case pv_format v of
        F_Binary \<Rightarrow> pv_bytes v
      | F_Text \<Rightarrow> rbind (pv_bytes v) (\<lambda>b.
          if starts_with (lit [CHR 0x5C, CHR ''x'']) b then hex_decode K (drop 2 b)
          else Err (Message ''text does not start with x'')))"

definition pg_uuid_decode :: "('dt, 'd, 'i) pg_kit \<Rightarrow> pg_value \<Rightarrow> bytes res" where
  "pg_uuid_decode K v =
     (case pv_format v of
        F_Binary \<Rightarrow> rbind (pv_bytes v) (uuid_from_slice K)
      | F_Text \<Rightarrow> pv_str v)"

definition pg_money_decode :: "pg_crates \<Rightarrow> pg_value \<Rightarrow> u64 res" where
  "pg_money_decode B v =
     (case pv_format v of
        F_Binary \<Rightarrow> rbind (pv_bytes v) (read_be_u64 B)
      | F_Text \<Rightarrow> Err (Message ''Reading a MONEY value in text format is not supported.''))"

definition pg_decimal_decode :: "pg_crates \<Rightarrow> ('dt, 'd, 'i) pg_kit \<Rightarrow> pg_value \<Rightarrow> 'd res" where
  "pg_decimal_decode B K v = rbind (pv_bytes v) (bigdecimal_decode B (big K) (pv_format v))"

section \<open>Dates and times\<close>

definition midnight :: ftime where
  "midnight = \<lparr>ft_nano = 0, ft_sec = 0, ft_minute = 0, ft_hour = 0\<rparr>"

definition day_2000 :: fdate where
  "day_2000 = \<lparr>fd_day = 1, fd_mon = 1, fd_year = 2000\<rparr>"

text \<open>The seconds are computed in \<open>i32\<close> before they are made a \<open>u64\<close>.\<close>

definition secs_of_days :: "u32 \<Rightarrow> nat" where
  "secs_of_days days = unat (scast (days * 24 * 3600) :: u64)"

definition pg_date_decode :: "pg_crates \<Rightarrow> ('dt, 'd, 'i) pg_kit \<Rightarrow> pg_value \<Rightarrow> fdate res" where
  "pg_date_decode B K v =
     (case pv_format v of
        F_Binary \<Rightarrow>
          rbind (pg_i32_decode B v) (\<lambda>days.
          let dt = datetime_from_date_time K day_2000 midnight in
          Ok (dt_date K (if sint days < 0 then dt_sub K dt (1000000 * secs_of_days (- days))
                         else dt_add K dt (1000000 * secs_of_days days))))
      | F_Text \<Rightarrow>
          rbind (pv_str v) (\<lambda>s.
          rbind (datetime_from_str K (s @ lit ''T00:00:00Z'')) (\<lambda>dt. Ok (dt_date K dt))))"

definition pg_date_encode :: "('dt, 'd, 'i) pg_kit \<Rightarrow> fdate \<Rightarrow> bytes" where
  "pg_date_encode K d =
     (let days = sint (unix_timestamp_millis K (datetime_from_date_time K d midnight) -
                       unix_timestamp_millis K (datetime_from_date_time K day_2000 midnight)) sdiv (86400 * 1000)
      in to_be (of_int days :: u32))"

definition micros_add :: "('dt, 'd, 'i) pg_kit \<Rightarrow> 'dt \<Rightarrow> u64 \<Rightarrow> 'dt" where
  "micros_add K dt us = (if sint us < 0 then dt_sub K dt (unat (- us)) else dt_add K dt (unat us))"

definition pg_time_decode :: "pg_crates \<Rightarrow> ('dt, 'd, 'i) pg_kit \<Rightarrow> pg_value \<Rightarrow> ftime res" where
  "pg_time_decode B K v =
     (case pv_format v of
        F_Binary \<Rightarrow> rbind (pg_i64_decode B v) (\<lambda>us.
          Ok (dt_time K (micros_add K (datetime_from_date_time K day_2000 midnight) us)))
      | F_Text \<Rightarrow> rbind (pv_str v) (time_from_str K))"

text \<open>The microseconds since midnight are computed, and sent, as a \<open>u32\<close>.\<close>

definition pg_time_encode :: "('dt, 'd, 'i) pg_kit \<Rightarrow> ftime \<Rightarrow> bytes" where
  "pg_time_encode K t =
     (let us = get_micro K t + ucast (ft_hour t) * 60 * 60 * 1000000 + ucast (ft_minute t) * 60 * 1000000 +
               ucast (ft_sec t) * 1000000
      in to_be (us :: u32))"

definition epoch_2000 :: "('dt, 'd, 'i) pg_kit \<Rightarrow> 'dt" where
  "epoch_2000 K = dt_from_date K day_2000"

definition micros_since_2000 :: "('dt, 'd, 'i) pg_kit \<Rightarrow> 'dt \<Rightarrow> u64" where
  "micros_since_2000 K dt =
     (let e = epoch_2000 K in
      if dt_ge K dt e then of_nat (dt_diff K dt e) else of_nat (dt_diff K e dt) * - 1)"

definition pg_timestamp_encode :: "('dt, 'd, 'i) pg_kit \<Rightarrow> u64 \<Rightarrow> bytes" where
  "pg_timestamp_encode K ms = to_be (micros_since_2000 K (from_timestamp_millis K ms))"

definition pg_timestamp_decode :: "pg_crates \<Rightarrow> ('dt, 'd, 'i) pg_kit \<Rightarrow> pg_value \<Rightarrow> u64 res" where
  "pg_timestamp_decode B K v =
     (case pv_format v of
        F_Binary \<Rightarrow> rbind (pg_i64_decode B v) (\<lambda>us. Ok (unix_timestamp_millis K (micros_add K (epoch_2000 K) us)))
      | F_Text \<Rightarrow> rbind (pv_str v) (\<lambda>s.
          rbind (datetime_from_str K (s @ lit ''Z'')) (\<lambda>dt. Ok (unix_timestamp_millis K dt))))"

text \<open>The offset of the session is added as a duration, whose seconds are the \<open>i32\<close> cast to \<open>u64\<close>.\<close>

definition pg_datetime_encode :: "('dt, 'd, 'i) pg_kit \<Rightarrow> int option \<Rightarrow> 'dt \<Rightarrow> bytes" where
  "pg_datetime_encode K tz dt =
     (let ms = unix_timestamp_millis K dt;
          ms = (case tz of Some sec \<Rightarrow> ms + of_nat (unat (of_int sec :: u64) * 1000) | None \<Rightarrow> ms)
      in to_be (micros_since_2000 K (from_timestamp_millis K ms)))"

definition pg_datetime_decode :: "pg_crates \<Rightarrow> ('dt, 'd, 'i) pg_kit \<Rightarrow> pg_value \<Rightarrow> 'dt res" where
  "pg_datetime_decode B K v =
     (case pv_format v of
        F_Binary \<Rightarrow>
          rbind (pv_bytes v) (\<lambda>b.
          if length b < 8 then Err IoError
          else rbind (read_be_u64 B b) (\<lambda>us.
            let dt = from_timestamp_millis K (unix_timestamp_millis K (micros_add K (epoch_2000 K) us)) in
            Ok (case pv_timezone_sec v of Some sec \<Rightarrow> set_offset K dt sec | None \<Rightarrow> dt)))
      | F_Text \<Rightarrow> rbind (pv_str v) (datetime_from_str K))"

definition pg_timetz_decode :: "pg_crates \<Rightarrow> ('dt, 'd, 'i) pg_kit \<Rightarrow> pg_value \<Rightarrow> (ftime \<times> u32) res" where
  "pg_timetz_decode B K v =
     (case pv_format v of
        F_Binary \<Rightarrow>
          rbind (pv_bytes v) (\<lambda>b.
          if length b < 12 then Err IoError
          else rbind (read_be_u64 B b) (\<lambda>us. rbind (read_be_u32 B (drop 8 b)) (\<lambda>sec.
            Ok (time_from_duration K (unat us), sec))))
      | F_Text \<Rightarrow> Err (Message ''reading a TIMETZ value in text format is not supported.''))"

definition pg_timetz_encode :: "('dt, 'd, 'i) pg_kit \<Rightarrow> ftime \<times> u32 \<Rightarrow> bytes" where
  "pg_timetz_encode K t = to_be (of_nat (time_to_duration K (fst t)) :: u64) @ to_be (snd t)"

section \<open>Documents and pairs\<close>

definition json_buf :: "pg_value \<Rightarrow> bytes res" where
  "json_buf v =
     (let b = (case pv_value v of Some b \<Rightarrow> b | None \<Rightarrow> []) in
      if pv_format v = F_Binary \<and> pg_type_eq (pv_type_info v) (Builtin ''Jsonb'') \<and> b \<noteq> []
      then (if hd b = 1 then Ok (tl b) else Panic) else Ok b)"

definition pg_json_decode :: "pg_value \<Rightarrow> bytes res" where
  "pg_json_decode v =
     (if pv_value v = None \<or> pv_value v = Some [] then Ok (lit ''null'')
      else rbind (json_buf v) (\<lambda>b. Ok (from_utf8_lossy b)))"

definition pg_decode_json_value :: "('dt, 'd, 'i) pg_kit \<Rightarrow> pg_value \<Rightarrow> dyn_value res" where
  "pg_decode_json_value K v =
     (if pv_value v = None \<or> pv_value v = Some [] then Ok V_Null
      else rbind (json_buf v) (\<lambda>b. json_from_str K (from_utf8_lossy b)))"

definition pg_text_decode :: "pg_value \<Rightarrow> bytes res" where
  "pg_text_decode v =
     (case pv_format v of
        F_Binary \<Rightarrow> rbind (pv_bytes v) (\<lambda>b. Ok (from_utf8_lossy b))
      | F_Text \<Rightarrow> pv_str v)"

text \<open>A map of texts, by its entries; an entry for a key that is already there replaces its value.\<close>

fun map_put :: "bytes \<Rightarrow> bytes \<Rightarrow> (bytes \<times> bytes) list \<Rightarrow> (bytes \<times> bytes) list" where
  "map_put k v [] = [(k, v)]"
| "map_put k v ((k', v') # m) = (if k = k' then (k, v) # m else (k', v') # map_put k v m)"

definition io_read_u32 :: "pg_crates \<Rightarrow> bytes \<Rightarrow> (u32 \<times> bytes) res" where
  "io_read_u32 B b = (if length b < 4 then Err IoError else rbind (read_be_u32 B b) (\<lambda>w. Ok (w, drop 4 b)))"

definition hstore_text :: "bytes \<Rightarrow> bytes res" where
  "hstore_text b = (if utf8_ok b then Ok b else Err (Message ''Invalid HSTORE text''))"

fun hstore_loop :: "pg_crates \<Rightarrow> nat \<Rightarrow> bytes \<Rightarrow> (bytes \<times> bytes) list \<Rightarrow> (bytes \<times> bytes) list res" where
  "hstore_loop B 0 b m = Ok m"
| "hstore_loop B (Suc n) b m =
     (if length b < 8 then Err (Message ''HSTORE binary entry too short'')
      else
        rbind (io_read_u32 B b) (\<lambda>(key_len, b).
        rbind (io_read_u32 B b) (\<lambda>(val_len, b).
        let key_len = unat (scast key_len :: u64) in
        if length b < key_len then Err (Message ''HSTORE binary key too short'')
        else
          rbind (hstore_text (take key_len b)) (\<lambda>key.
          let b = drop key_len b in
          if sint val_len < 0 then hstore_loop B n b (map_put key (lit ''null'') m)
          else
            let val_len = unat val_len in
            if length b < val_len then Err (Message ''HSTORE binary value too short'')
            else rbind (hstore_text (take val_len b)) (\<lambda>v. hstore_loop B n (drop val_len b) (map_put key v m))))))"

fun hstore_pairs :: "bytes list \<Rightarrow> (bytes \<times> bytes) list \<Rightarrow> (bytes \<times> bytes) list res" where
  "hstore_pairs [] m = Ok m"
| "hstore_pairs (pair # pairs) m =
     (let pair = trim pair in
      if pair = [] then hstore_pairs pairs m
      else case find_str (lit ''=>'') pair of
             Some pos \<Rightarrow> hstore_pairs pairs (map_put (trim (take pos pair)) (trim (drop (pos + 2) pair)) m)
           | None \<Rightarrow> Err (Message ''Invalid HSTORE format''))"

text \<open>A negative count is a huge \<open>usize\<close>; the loop then ends at the first entry that is too short.\<close>

definition hstore_decode :: "pg_crates \<Rightarrow> pg_value \<Rightarrow> (bytes \<times> bytes) list res" where
  "hstore_decode B v =
     (case pv_format v of
        F_Binary \<Rightarrow>
          rbind (pv_bytes v) (\<lambda>b.
          if length b < 4 then Err (Message ''HSTORE binary data too short'')
          else rbind (io_read_u32 B b) (\<lambda>(cnt, b). hstore_loop B (unat (scast cnt :: u64)) b []))
      | F_Text \<Rightarrow>
          rbind (pv_str v) (\<lambda>s.
          let s = trim s in if s = [] then Ok [] else hstore_pairs (split_bytes 0x2c s) []))"

definition hstore_display :: "(bytes \<times> bytes) list \<Rightarrow> bytes" where
  "hstore_display m =
     (case map (\<lambda>(k, v). k @ lit ''=>'' @ v) m of
        [] \<Rightarrow> [] | p # ps \<Rightarrow> p @ concat (map (\<lambda>q. lit '', '' @ q) ps))"

definition point_decode :: "('dt, 'd, 'i) pg_kit \<Rightarrow> pg_value \<Rightarrow> (u64 \<times> u64) res" where
  "point_decode K v =
     (case pv_format v of
        F_Binary \<Rightarrow> Err (Message ''POINT binary format (WKB) not supported.'')
      | F_Text \<Rightarrow>
          rbind (pv_str v) (\<lambda>s.
          let s = trim s in
          if \<not> starts_with (lit ''POINT('') s \<or> \<not> ends_with (lit '')'') s then Err (Message ''Invalid POINT format'')
          else
            (case split_whitespace (take (length s - 1 - 6) (drop 6 s)) of
               [x, y] \<Rightarrow> rbind (parse_or (f64_parse K x)) (\<lambda>x. rbind (parse_or (f64_parse K y)) (\<lambda>y. Ok (x, y)))
             | _ \<Rightarrow> Err (Message ''Invalid POINT coords''))))"

section \<open>Arrays\<close>

text \<open>Elements are decoded as they are read; \<open>dec\<close> is the decoder of an element.\<close>

fun array_elements ::
    "pg_crates \<Rightarrow> (pg_value \<Rightarrow> 'a res) \<Rightarrow> nat \<Rightarrow> pg_type \<Rightarrow> int option \<Rightarrow> bytes \<Rightarrow> 'a list res" where
  "array_elements B dec 0 ty tz b = Ok []"
| "array_elements B dec (Suc n) ty tz b =
     rbind (pg_value_get B F_Binary ty tz b) (\<lambda>(v, b).
     rbind (dec v) (\<lambda>x. rbind (array_elements B dec n ty tz b) (\<lambda>xs. Ok (x # xs))))"

text \<open>The text form: the characters up to the next delimiter outside of quotes, and whether the text has ended.\<close>

fun array_item :: "u8 \<Rightarrow> bool \<times> bool \<Rightarrow> bytes \<Rightarrow> bytes \<Rightarrow> bytes \<times> bool \<times> (bool \<times> bool) \<times> bytes" where
  "array_item delim (q, e) [] v = (v, True, (q, e), [])"
| "array_item delim (q, e) (ch # chs) v =
     (if e then array_item delim (q, False) chs (v @ [ch])
      else if ch = 0x22 then array_item delim (\<not> q, e) chs v
      else if ch = 0x5c then array_item delim (q, True) chs v
      else if ch = delim \<and> \<not> q then (v, False, (q, e), chs)
      else array_item delim (q, e) chs (v @ [ch]))"

lemma array_item_length:
  "array_item delim st chs v = (v', done, st', rest) \<Longrightarrow> length rest \<le> length chs \<and> (\<not> done \<longrightarrow> length rest < length chs)"
  by (induction delim st chs v rule: array_item.induct) (auto split: if_splits)

function array_text :: "(bytes option \<Rightarrow> 'a res) \<Rightarrow> u8 \<Rightarrow> bool \<times> bool \<Rightarrow> bytes \<Rightarrow> 'a list res" where
  "array_text dec delim st chs =
     (case array_item delim st chs [] of
        (v, done, st', rest) \<Rightarrow>
          rbind (dec (if v = lit ''NULL'' then None else Some v)) (\<lambda>x.
          if done then Ok [x] else rbind (array_text dec delim st' rest) (\<lambda>xs. Ok (x # xs))))"
  by pat_completeness auto
termination
  by (relation "measure (\<lambda>(dec, delim, st, chs). length chs)") (auto dest: array_item_length [OF sym])

declare array_text.simps [simp del]

text \<open>Cutting the braces off a text needs at least two bytes; a huge length cannot be allocated.\<close>

definition array_decode :: "pg_crates \<Rightarrow> (pg_value \<Rightarrow> 'a res) \<Rightarrow> pg_value \<Rightarrow> 'a list res" where
  "array_decode B dec v =
     (case pv_format v of
        F_Binary \<Rightarrow>
          rbind (pv_bytes v) (\<lambda>b.
          rbind (get_u32 B b) (\<lambda>(ndim, b).
          if ndim = 0 then Ok []
          else if ndim \<noteq> 1 then Err (Message ''only one-dimensional arrays are supported'')
          else
            rbind (get_u32 B b) (\<lambda>(flags, b).
            rbind (get_u32 B b) (\<lambda>(oid, b).
            rbind (case try_from_oid oid of
                     Some ty \<Rightarrow> Ok ty
                   | None \<Rightarrow> rbind (try_array_element (pv_type_info v)) (\<lambda>e.
                       case e of Some ty \<Rightarrow> Ok ty | None \<Rightarrow> Err (Message ''failed to resolve array element type''))) (\<lambda>ty.
            rbind (get_u32 B b) (\<lambda>(len, b).
            rbind (get_u32 B b) (\<lambda>(lower, b).
            if lower \<noteq> 1 then Err (Message ''only arrays starting at one are supported'')
            else if sint len < 0 then Panic
            else array_elements B dec (unat len) ty (pv_timezone_sec v) b)))))))
      | F_Text \<Rightarrow>
          rbind (type_kind (pv_type_info v)) (\<lambda>kind.
          let ty = (case kind of K_Array item \<Rightarrow> item | _ \<Rightarrow> Builtin ''Unknown'') in
          rbind (pv_str v) (\<lambda>s.
          if length s < 2 then Panic
          else
            let s = take (length s - 2) (drop 1 s) in
            if s = [] then Ok []
            else array_text (\<lambda>x. dec \<lparr>pv_value = x, pv_type_info = ty, pv_format = F_Text, pv_timezone_sec = pv_timezone_sec v\<rparr>)
              (if pg_type_eq ty (Builtin ''Box'') then 0x3b else 0x2c) (False, False) s)))"

end
