(* ===== verification/Pg_Args.thy ===== *)
theory Pg_Args
  imports Pg_Values
begin

text \<open>
  Dynamic values on the PostgreSQL wire (\<open>rbdc-pg/src/types/value.rs\<close>, \<open>types/encode.rs\<close>, \<open>types/array.rs\<close>,
  \<open>arguments.rs\<close>): the type announced for a value, its encoding into the argument buffer, the buffer with its
  patches, and the decoding of a cell by its type.  Matches on names are tables.  The result is that the buffer the
  driver binds holds exactly one length-prefixed cell per argument, and that cells of the basic types decode back.
\<close>

section \<open>The type of a value\<close>

definition ext_type_table :: "(string \<times> string) list" where
  "ext_type_table =
     [(''Uuid'', ''Uuid''), (''Decimal'', ''Numeric''), (''Date'', ''Date''), (''Time'', ''Time''),
      (''Timestamp'', ''Timestamp''), (''DateTime'', ''Timestamp''), (''Bool'', ''Bool''), (''Bytea'', ''Bytea''),
      (''Char'', ''Char''), (''Name'', ''Name''), (''Int8'', ''Int8''), (''Int2'', ''Int2''), (''Int4'', ''Int4''),
      (''Text'', ''Text''), (''Oid'', ''Oid''), (''Json'', ''Json''), (''Point'', ''Point''),
      (''TsVector'', ''Unknown''), (''TsQuery'', ''Unknown''), (''Hstore'', ''Unknown''), (''Lseg'', ''Lseg''),
      (''Path'', ''Path''), (''Box'', ''Box''), (''Polygon'', ''Polygon''), (''Line'', ''Line''), (''Cidr'', ''Cidr''),
      (''Float4'', ''Float4''), (''Float8'', ''Float8''), (''Unknown'', ''Unknown''), (''Circle'', ''Circle''),
      (''Macaddr8'', ''Macaddr8''), (''Macaddr'', ''Macaddr''), (''Inet'', ''Inet''), (''Bpchar'', ''Bpchar''),
      (''Varchar'', ''Varchar''), (''Timestamptz'', ''Timestamptz''), (''Interval'', ''Interval''),
      (''Timetz'', ''Timetz''), (''Bit'', ''Bit''), (''Varbit'', ''Varbit''), (''Numeric'', ''Numeric''),
      (''Record'', ''Record''), (''Jsonb'', ''Jsonb''), (''Int4Range'', ''Int4Range''), (''NumRange'', ''NumRange''),
      (''TsRange'', ''TsRange''), (''TstzRange'', ''TstzRange''), (''DateRange'', ''DateRange''),
      (''Int8Range'', ''Int8Range''), (''Jsonpath'', ''Jsonpath''), (''Money'', ''Money''), (''Void'', ''Void''),
      (''Custom'', ''Unknown''), (''DeclareWithName'', ''Unknown''), (''DeclareWithOid'', ''Unknown'')]"

definition pg_value_type :: "dyn_value \<Rightarrow> pg_type" where
  "pg_value_type v =
     Builtin (case v of
        V_Null \<Rightarrow> ''Unknown'' | V_Bool _ \<Rightarrow> ''Bool'' | V_I32 _ \<Rightarrow> ''Int4'' | V_I64 _ \<Rightarrow> ''Int8'' | V_U32 _ \<Rightarrow> ''Int4''
      | V_U64 _ \<Rightarrow> ''Int8'' | V_F32 _ \<Rightarrow> ''Float4'' | V_F64 _ \<Rightarrow> ''Float8'' | V_String _ \<Rightarrow> ''Varchar''
      | V_Binary _ \<Rightarrow> ''Bytea'' | V_Array _ \<Rightarrow> ''Json'' | V_Map _ \<Rightarrow> ''Json''
      | V_Ext n _ \<Rightarrow> or_default ''Unknown'' (map_of ext_type_table n))"

section \<open>The argument buffer\<close>

datatype pg_is_null = Null_No | Null_Yes

record arg_buffer =
  ab_buffer :: bytes
  ab_count :: nat
  ab_timezone_sec :: "int option"
  ab_patches :: "(nat \<times> nat \<times> (bytes \<Rightarrow> pg_type \<Rightarrow> bytes res)) list"
  ab_type_holes :: "(nat \<times> bytes) list"

definition ab_new :: "int option \<Rightarrow> arg_buffer" where
  "ab_new tz = \<lparr>ab_buffer = [], ab_count = 0, ab_timezone_sec = tz, ab_patches = [], ab_type_holes = []\<rparr>"

definition ab_extend :: "bytes \<Rightarrow> arg_buffer \<Rightarrow> arg_buffer" where
  "ab_extend bs b = b\<lparr>ab_buffer := ab_buffer b @ bs\<rparr>"

definition ab_patch :: "(bytes \<Rightarrow> pg_type \<Rightarrow> bytes res) \<Rightarrow> arg_buffer \<Rightarrow> arg_buffer" where
  "ab_patch f b = b\<lparr>ab_patches := ab_patches b @ [(length (ab_buffer b), ab_count b, f)]\<rparr>"

definition ab_patch_type_by_name :: "bytes \<Rightarrow> arg_buffer \<Rightarrow> arg_buffer" where
  "ab_patch_type_by_name name b =
     b\<lparr>ab_buffer := ab_buffer b @ to_be (0 :: u32), ab_type_holes := ab_type_holes b @ [(length (ab_buffer b), name)]\<rparr>"

section \<open>Encoding\<close>

text \<open>The version byte of \<open>JSONB\<close> becomes a space when the parameter turns out to be \<open>JSON\<close>.\<close>

definition json_patch :: "bytes \<Rightarrow> pg_type \<Rightarrow> bytes res" where
  "json_patch b ty =
     (if pg_type_eq ty (Builtin ''Json'') \<or> pg_type_eq ty (Builtin ''JsonArray'')
      then (case b of [] \<Rightarrow> Panic | _ # bs \<Rightarrow> Ok (0x20 # bs)) else Ok b)"

definition pg_json_encode :: "bytes \<Rightarrow> arg_buffer \<Rightarrow> arg_buffer" where
  "pg_json_encode s b = ab_extend (1 # (if s = [] then lit ''null'' else s)) (ab_patch json_patch b)"

definition pg_encode_json_value :: "('dt, 'd, 'i) pg_kit \<Rightarrow> dyn_value \<Rightarrow> arg_buffer \<Rightarrow> arg_buffer" where
  "pg_encode_json_value K v b = ab_extend (1 # value_to_string K v) (ab_patch json_patch b)"

definition pg_decimal_encode :: "('dt, 'd, 'i) pg_kit \<Rightarrow> 'd \<Rightarrow> bytes res" where
  "pg_decimal_encode K d = bigdecimal_encode (big K) d []"

definition decimal_or_default :: "('dt, 'd, 'i) pg_kit \<Rightarrow> bytes \<Rightarrow> 'd" where
  "decimal_or_default K s = (case big_parse (big K) s of Ok d \<Rightarrow> d | _ \<Rightarrow> big_zero (big K))"

text \<open>The extension values whose bytes are sent as they are.\<close>

definition raw_exts :: "string list" where
  "raw_exts =
     [''Lseg'', ''Path'', ''Box'', ''Polygon'', ''Line'', ''Cidr'', ''Unknown'', ''Circle'', ''Macaddr8'', ''Macaddr'',
      ''Inet'', ''Bpchar'', ''Varchar'', ''Interval'', ''Bit'', ''Varbit'', ''Record'', ''Int4Range'', ''NumRange'',
      ''TsRange'', ''TstzRange'', ''DateRange'', ''Int8Range'', ''Jsonpath'', ''Void'', ''Custom'',
      ''DeclareWithName'', ''DeclareWithOid'']"

text \<open>A text of a point is looked at, then rejected in every case; slicing between its parentheses may panic.\<close>

definition point_encode :: "bytes \<Rightarrow> bytes res" where
  "point_encode s =
     (case find_str (lit ''('') s of
        None \<Rightarrow> Err (Message ''Invalid POINT format'')
      | Some start \<Rightarrow>
          (case find_str (lit '')'') s of
             None \<Rightarrow> Err (Message ''Invalid POINT format'')
           | Some stop \<Rightarrow>
               if stop < start + 1 then Panic
               else if length (split_whitespace (take (stop - (start + 1)) (drop (start + 1) s))) = 2
               then Err (Message ''POINT encoding not supported'')
               else Err (Message ''Invalid POINT format'')))"

text \<open>The bytes of an extension value, or \<open>None\<close> for a null; JSON documents are dealt with before.\<close>

definition pg_ext_bytes :: "('dt, 'd, 'i) pg_kit \<Rightarrow> int option \<Rightarrow> string \<Rightarrow> dyn_value \<Rightarrow> bytes option res" where
  "pg_ext_bytes K tz n v =
     (let str = or_default [] (into_string K v); i64 = or_default 0 (as_i64 K v); text = or_default [] (value_as_str K v);
          f64 = or_default 0 (as_f64 K v); some = (\<lambda>b. Ok (Some b))
      in
      if n = ''Uuid'' then rbind (uuid_parse K str) some
      else if n = ''Decimal'' \<or> n = ''Numeric'' then rbind (pg_decimal_encode K (decimal_or_default K text)) some
      else if n = ''Date'' then rbind (date_from_str K str) (\<lambda>d. some (pg_date_encode K d))
      else if n = ''Time'' then rbind (time_from_str K str) (\<lambda>t. some (pg_time_encode K t))
      else if n = ''Timestamp'' then some (pg_timestamp_encode K i64)
      else if n = ''DateTime'' then rbind (datetime_from_str K str) (\<lambda>d. some (pg_datetime_encode K tz d))
      else if n = ''Bytea'' then some (or_default [] (as_slice K v))
      else if n = ''Char'' \<or> n = ''Name'' \<or> n = ''Text'' then some str
      else if n = ''Int8'' then some (to_be (ucast i64 :: u32))
      else if n = ''Int2'' then some (to_be (ucast i64 :: u8))
      else if n = ''Int4'' then some (to_be (ucast i64 :: u16))
      else if n = ''Oid'' then some (to_be (ucast (or_default 0 (as_u64 K v)) :: u32))
      else if n = ''Float4'' then some (to_be (f32_of_f64 K f64))
      else if n = ''Float8'' then some (to_be f64)
      else if n = ''Timestamptz'' then
        rbind (timestamptz_from_value K (V_Ext n v)) (\<lambda>d. some (pg_datetime_encode K tz d))
      else if n = ''Timetz'' then rbind (timetz_from_value K v) (\<lambda>t. some (pg_timetz_encode K t))
      else if n = ''Money'' then some (to_be i64)
      else if n = ''TsVector'' then Err (Message ''TsVector encoding not supported'')
      else if n = ''TsQuery'' then Err (Message ''TsQuery encoding not supported'')
      else if n = ''Hstore'' then Err (Message ''HStore encoding not supported'')
      else if n = ''Point'' then rbind (point_encode text) some
      else if n \<in> set raw_exts then some (or_default [] (into_bytes K v))
      else Ok None)"

definition pg_value_encode :: "('dt, 'd, 'i) pg_kit \<Rightarrow> dyn_value \<Rightarrow> arg_buffer \<Rightarrow> (pg_is_null \<times> arg_buffer) res" where
  "pg_value_encode K v b =
     (let wr = (\<lambda>bs. Ok (Null_No, ab_extend bs b)) in
      case v of
        V_Null \<Rightarrow> Ok (Null_Yes, b)
      | V_Bool x \<Rightarrow> wr [of_bool x]
      | V_I32 x \<Rightarrow> wr (to_be x)
      | V_I64 x \<Rightarrow> wr (to_be x)
      | V_U32 x \<Rightarrow> wr (to_be x)
      | V_U64 x \<Rightarrow> wr (to_be x)
      | V_F32 x \<Rightarrow> wr (to_be x)
      | V_F64 x \<Rightarrow> wr (to_be x)
      | V_String s \<Rightarrow> wr s
      | V_Binary x \<Rightarrow> wr x
      | V_Array _ \<Rightarrow> Ok (Null_No, pg_encode_json_value K v b)
      | V_Map _ \<Rightarrow> Ok (Null_No, pg_encode_json_value K v b)
      | V_Ext n x \<Rightarrow>
          if n = ''Json'' \<or> n = ''Jsonb'' then Ok (Null_No, pg_json_encode (or_default [] (into_string K x)) b)
          else rbind (pg_ext_bytes K (ab_timezone_sec b) n x) (\<lambda>r.
            case r of None \<Rightarrow> Ok (Null_Yes, b) | Some bs \<Rightarrow> wr bs))"

definition ab_encode :: "('dt, 'd, 'i) pg_kit \<Rightarrow> dyn_value \<Rightarrow> arg_buffer \<Rightarrow> (pg_type \<times> arg_buffer) res" where
  "ab_encode K v b =
     (let offset = length (ab_buffer b) in
      rbind (pg_value_encode K v (ab_extend [0, 0, 0, 0] b)) (\<lambda>(null, b).
      let len = (case null of Null_No \<Rightarrow> of_nat (length (ab_buffer b) - offset - 4) | Null_Yes \<Rightarrow> - 1) :: u32 in
      Ok (pg_value_type v, b\<lparr>ab_buffer := take offset (ab_buffer b) @ to_be len @ drop (offset + 4) (ab_buffer b)\<rparr>)))"

fun ab_encode_all :: "('dt, 'd, 'i) pg_kit \<Rightarrow> dyn_value list \<Rightarrow> arg_buffer \<Rightarrow> arg_buffer res" where
  "ab_encode_all K [] b = Ok b"
| "ab_encode_all K (v # vs) b = rbind (ab_encode K v b) (\<lambda>(_, b). ab_encode_all K vs b)"

definition array_encode :: "('dt, 'd, 'i) pg_kit \<Rightarrow> dyn_value list \<Rightarrow> arg_buffer \<Rightarrow> (pg_is_null \<times> arg_buffer) res" where
  "array_encode K vs b =
     (let ty = (case vs of [] \<Rightarrow> Builtin ''Unknown'' | v # _ \<Rightarrow> pg_value_type v);
          b = ab_extend (to_be (1 :: u32) @ to_be (0 :: u32)) b
      in rbind (case ty of
                  DeclareWithName name \<Rightarrow> Ok (ab_patch_type_by_name name b)
                | _ \<Rightarrow> rbind (type_oid ty) (\<lambda>oid. Ok (ab_extend (to_be oid) b))) (\<lambda>b.
         rbind (ab_encode_all K vs (ab_extend (to_be (of_nat (length vs) :: u32) @ to_be (1 :: u32)) b)) (\<lambda>b.
         Ok (Null_No, b))))"

section \<open>Arguments\<close>

record pg_arguments =
  pa_types :: "pg_type list"
  pa_buffer :: arg_buffer

definition pg_arguments_add :: "('dt, 'd, 'i) pg_kit \<Rightarrow> dyn_value \<Rightarrow> pg_arguments \<Rightarrow> pg_arguments res" where
  "pg_arguments_add K v a =
     rbind (ab_encode K v (pa_buffer a)) (\<lambda>(ty, b).
     Ok \<lparr>pa_types = pa_types a @ [ty], pa_buffer = b\<lparr>ab_count := ab_count b + 1\<rparr>\<rparr>)"

fun pg_add_all :: "('dt, 'd, 'i) pg_kit \<Rightarrow> dyn_value list \<Rightarrow> pg_arguments \<Rightarrow> pg_arguments res" where
  "pg_add_all K [] a = Ok a"
| "pg_add_all K (v # vs) a = rbind (pg_arguments_add K v a) (pg_add_all K vs)"

definition pg_from_args :: "('dt, 'd, 'i) pg_kit \<Rightarrow> dyn_value list \<Rightarrow> int option \<Rightarrow> pg_arguments res" where
  "pg_from_args K args tz = pg_add_all K args \<lparr>pa_types = [], pa_buffer = ab_new tz\<rparr>"

text \<open>The first loop of \<open>apply_patches\<close>: the callbacks run on the buffer from their offset on.\<close>

fun run_patches :: "(nat \<times> nat \<times> (bytes \<Rightarrow> pg_type \<Rightarrow> bytes res)) list \<Rightarrow> pg_type list \<Rightarrow> bytes \<Rightarrow> bytes res" where
  "run_patches [] params b = Ok b"
| "run_patches ((offset, i, f) # ps) params b =
     (if length b < offset \<or> length params \<le> i then Panic
      else rbind (f (drop offset b) (params ! i)) (\<lambda>b'. run_patches ps params (take offset b @ b')))"

definition format_placeholder :: "pg_crates \<Rightarrow> pg_arguments \<Rightarrow> bytes" where
  "format_placeholder B a = lit ''$'' @ itoa B (ab_count (pa_buffer a))"

section \<open>Decoding\<close>

text \<open>The types whose cells are handed over as raw bytes under a name.\<close>

definition raw_type_table :: "(string \<times> string) list" where
  "raw_type_table =
     [(''Lseg'', ''Lseg''), (''Path'', ''Path''), (''Box'', ''Box''), (''Polygon'', ''Polygon''), (''Line'', ''Line''),
      (''Cidr'', ''Cidr''), (''Circle'', ''Circle''), (''Macaddr8'', ''Macaddr8''), (''Macaddr'', ''Macaddr''),
      (''Inet'', ''Inet''), (''Interval'', ''Interval''), (''Bit'', ''Bit''), (''Varbit'', ''Varbit''),
      (''Record'', ''Record''), (''Int4Range'', ''Int4Range''), (''NumRange'', ''NumRange''), (''TsRange'', ''TsRange''),
      (''TstzRange'', ''TstzRange''), (''DateRange'', ''DateRange''), (''Int8Range'', ''Int8Range''),
      (''Jsonpath'', ''Jsonpath''), (''Void'', ''Ext'')]"

definition array_value_types :: "string list" where
  "array_value_types =
     [''HstoreArray'', ''JsonArray'', ''LineArray'', ''CidrArray'', ''CircleArray'', ''Macaddr8Array'', ''BoolArray'',
      ''ByteaArray'', ''CharArray'', ''NameArray'', ''Int2Array'', ''Int4Array'', ''TextArray'', ''BpcharArray'',
      ''VarcharArray'', ''Int8Array'', ''PointArray'', ''LsegArray'', ''PathArray'', ''BoxArray'', ''Float4Array'',
      ''Float8Array'', ''PolygonArray'', ''OidArray'', ''MacaddrArray'', ''InetArray'', ''TimestampArray'', ''DateArray'',
      ''TimeArray'', ''TimestamptzArray'', ''IntervalArray'', ''NumericArray'', ''TimetzArray'', ''BitArray'',
      ''VarbitArray'', ''RecordArray'', ''UuidArray'', ''JsonbArray'', ''Int4RangeArray'', ''NumRangeArray'',
      ''TsRangeArray'', ''TstzRangeArray'', ''DateRangeArray'', ''Int8RangeArray'', ''JsonpathArray'', ''MoneyArray'']"

definition raw_decode :: "string \<Rightarrow> pg_value \<Rightarrow> dyn_value res" where
  "raw_decode name v =
     rbind (case pv_format v of F_Binary \<Rightarrow> pv_bytes v | F_Text \<Rightarrow> pv_str v) (\<lambda>b. Ok (V_Ext name (V_Binary b)))"

definition string_decode :: "pg_value \<Rightarrow> dyn_value res" where
  "string_decode v = rbind (pv_str v) (\<lambda>s. Ok (V_String s))"

definition point_to_value :: "u64 \<times> u64 \<Rightarrow> dyn_value" where
  "point_to_value p = V_Ext ''point'' (V_Ext ''point'' (V_Array [V_F64 (fst p), V_F64 (snd p)]))"

text \<open>A cell of a built-in type that is not an array.\<close>

definition builtin_decode :: "pg_crates \<Rightarrow> ('dt, 'd, 'i) pg_kit \<Rightarrow> string \<Rightarrow> pg_value \<Rightarrow> dyn_value res" where
  "builtin_decode B K t v =
     (if t = ''Bool'' then rbind (pg_bool_decode v) (\<lambda>x. Ok (V_Bool x))
      else if t = ''Bytea'' then rbind (pg_bytea_decode K v) (\<lambda>x. Ok (V_Binary x))
      else if t \<in> {''Char'', ''Name'', ''Text'', ''Bpchar'', ''Varchar''} then string_decode v
      else if t = ''Int8'' then rbind (pg_i64_decode B v) (\<lambda>x. Ok (V_I64 x))
      else if t = ''Int2'' then rbind (pg_i16_decode B v) (\<lambda>x. Ok (V_I32 (scast x)))
      else if t = ''Int4'' then rbind (pg_i32_decode B v) (\<lambda>x. Ok (V_I32 x))
      else if t = ''Oid'' then rbind (pg_u32_decode B v) (\<lambda>x. Ok (V_Ext ''Oid'' (V_U32 x)))
      else if t = ''Json'' \<or> t = ''Jsonb'' then pg_decode_json_value K v
      else if t = ''Point'' then rbind (point_decode K v) (\<lambda>p. Ok (point_to_value p))
      else if t = ''Float4'' then rbind (pg_f32_decode B K v) (\<lambda>x. Ok (V_F32 x))
      else if t = ''Float8'' then rbind (pg_f64_decode B K v) (\<lambda>x. Ok (V_F64 x))
      else if t = ''Unknown'' then Ok V_Null
      else if t = ''Date'' then rbind (pg_date_decode B K v) (\<lambda>d. Ok (V_Ext ''Date'' (V_String (date_to_string K d))))
      else if t = ''Time'' then rbind (pg_time_decode B K v) (\<lambda>x. Ok (V_Ext ''Time'' (V_String (time_to_string K x))))
      else if t = ''Timestamp'' then rbind (pg_timestamp_decode B K v) (\<lambda>x. Ok (V_Ext ''Timestamp'' (V_I64 x)))
      else if t = ''Timestamptz'' then
        rbind (pg_datetime_decode B K v) (\<lambda>d. Ok (V_Ext ''DateTime'' (V_String (datetime_to_string K d))))
      else if t = ''Timetz'' then rbind (pg_timetz_decode B K v) (\<lambda>x. Ok (timetz_to_value K x))
      else if t = ''Numeric'' then
        rbind (pg_decimal_decode B K v) (\<lambda>d. Ok (V_Ext ''Decimal'' (V_String (big_to_string K d))))
      else if t = ''Uuid'' then rbind (pg_uuid_decode K v) (\<lambda>s. Ok (V_Ext ''Uuid'' (V_String s)))
      else if t = ''Tsvector'' then rbind (pg_text_decode v) (\<lambda>s. Ok (V_Ext ''tsvector'' (V_String s)))
      else if t = ''Tsquery'' then rbind (pg_text_decode v) (\<lambda>s. Ok (V_Ext ''tsquery'' (V_String s)))
      else if t = ''Hstore'' then rbind (hstore_decode B v) (\<lambda>m. Ok (V_Ext ''hstore'' (V_String (hstore_display m))))
      else if t = ''Money'' then rbind (pg_money_decode B v) (\<lambda>x. Ok (V_Ext ''Money'' (V_I64 x)))
      else raw_decode (or_default t (map_of raw_type_table t)) v)"

text \<open>Elements of an array are decoded by the same function; \<open>n\<close> bounds the nesting.\<close>

fun value_decode_at :: "nat \<Rightarrow> pg_crates \<Rightarrow> ('dt, 'd, 'i) pg_kit \<Rightarrow> pg_value \<Rightarrow> dyn_value res" where
  "value_decode_at n B K v =
     (if pv_value v = None then Ok V_Null
      else case pv_type_info v of
        Builtin t \<Rightarrow>
          if t \<in> set array_value_types then
            (case n of
               0 \<Rightarrow> Panic
             | Suc n \<Rightarrow> rbind (array_decode B (value_decode_at n B K) v) (\<lambda>xs. Ok (V_Array xs)))
          else builtin_decode B K t v
      | Custom _ _ kind \<Rightarrow> (case kind of K_Enum _ \<Rightarrow> string_decode v | _ \<Rightarrow> raw_decode ''Custom'' v)
      | DeclareWithName _ \<Rightarrow> raw_decode ''DeclareWithName'' v
      | DeclareWithOid _ \<Rightarrow> raw_decode ''DeclareWithOid'' v)"

text \<open>An element of an array is shorter than the array, so the length of the cell bounds the nesting.\<close>

definition pg_value_decode :: "pg_crates \<Rightarrow> ('dt, 'd, 'i) pg_kit \<Rightarrow> pg_value \<Rightarrow> dyn_value res" where
  "pg_value_decode B K v = value_decode_at (length (or_default [] (pv_value v))) B K v"

declare value_decode_at.simps [simp del]

section \<open>The nesting of arrays\<close>

abbreviation pv_len :: "pg_value \<Rightarrow> nat" where
  "pv_len v \<equiv> length (or_default [] (pv_value v))"

lemma array_item_bound:
  "array_item delim st chs v = (v', done, st', rest) \<Longrightarrow> length v' + length rest \<le> length v + length chs"
  by (induction delim st chs v rule: array_item.induct) (force split: if_splits)+

lemma array_text_cong:
  assumes "\<And>x. length (or_default [] x) \<le> length chs \<Longrightarrow> dec x = dec' x"
  shows "array_text dec delim st chs = array_text dec' delim st chs"
  using assms
proof (induction "length chs" arbitrary: chs st rule: less_induct)
  case less
  obtain v fin st' rest where i: "array_item delim st chs [] = (v, fin, st', rest)" by (cases "array_item delim st chs []") auto
  note b = array_item_bound [OF i] array_item_length [OF i]
  have d: "dec (if v = lit ''NULL'' then None else Some v) = dec' (if v = lit ''NULL'' then None else Some v)"
    using b by (intro less.prems) (auto simp: or_default_def)
  show ?case
  proof (cases "fin")
    case True
    then show ?thesis using d by (subst (1 2) array_text.simps) (simp add: i)
  next
    case False
    then have "array_text dec delim st' rest = array_text dec' delim st' rest"
      using b by (intro less.hyps less.prems) auto
    with False d show ?thesis by (subst (1 2) array_text.simps) (simp add: i)
  qed
qed

context pg_crate_laws
begin

lemma get_u32_length: "get_u32 B b = Ok (w, b') \<Longrightarrow> length b = length b' + 4"
  by (auto simp: get_u32_law cursor_def split: if_splits)

lemma pg_value_get_length: "pg_value_get B fmt ty tz b = Ok (v, b') \<Longrightarrow> pv_len v < length b \<and> length b' < length b"
  by (auto simp: pg_value_get_def Let_def or_default_def rbind_Ok_iff dest!: get_u32_length split: if_splits)

lemma array_elements_cong:
  assumes "\<And>w. pv_len w < length b \<Longrightarrow> dec w = dec' w"
  shows "array_elements B dec n ty tz b = array_elements B dec' n ty tz b"
  using assms
proof (induction n arbitrary: b)
  case (Suc n)
  show ?case
  proof (cases "pg_value_get B F_Binary ty tz b")
    case (Ok p)
    obtain v b' where p: "p = (v, b')" by (cases p)
    note l = pg_value_get_length [OF Ok [unfolded p]]
    have "array_elements B dec n ty tz b' = array_elements B dec' n ty tz b'"
      using l by (intro Suc.IH Suc.prems) simp
    with Ok p l Suc.prems [of v] show ?thesis by simp
  qed simp_all
qed simp

lemma array_decode_cong:
  assumes "\<And>w. pv_len w < pv_len v \<Longrightarrow> dec w = dec' w"
  shows "array_decode B dec v = array_decode B dec' v"
proof (cases "pv_format v")
  case F_Binary
  have "array_elements B dec n ty tz b = array_elements B dec' n ty tz b" if "length b < pv_len v" for n ty tz b
    using that by (intro array_elements_cong assms) simp
  with F_Binary show ?thesis
    by (auto simp: array_decode_def pv_bytes_def or_default_def intro!: rbind_cong split: option.splits prod.splits dest!: get_u32_length)
next
  case F_Text
  have "array_text (\<lambda>x. dec (u x)) delim st s = array_text (\<lambda>x. dec' (u x)) delim st s"
    if "length s < pv_len v" "\<And>x. pv_value (u x) = x" for u :: "bytes option \<Rightarrow> pg_value" and delim st s
    using that by (intro array_text_cong assms) auto
  with F_Text show ?thesis
    by (auto simp: array_decode_def pv_bytes_def pv_str_def from_utf8_def Let_def or_default_def intro!: rbind_cong split: option.splits)
qed

lemma array_decode_empty: "pv_value v = Some [] \<Longrightarrow> pv_type_info v = Builtin t \<Longrightarrow> array_decode B dec v = Panic"
  by (auto simp: array_decode_def pv_bytes_def pv_str_def from_utf8_def type_kind_def Let_def get_u32_law cursor_def
    split: pg_value_format.splits option.splits)

lemma value_decode_depth: "pv_len v \<le> n \<Longrightarrow> pv_len v \<le> m \<Longrightarrow> value_decode_at n B K v = value_decode_at m B K v"
proof (induction n arbitrary: m v rule: less_induct)
  case (less n)
  have "value_decode_at n B K v = value_decode_at m B K v" if p: "pv_value v = Some b" "pv_type_info v = Builtin t" "t \<in> set array_value_types" for b t
  proof (cases "b = []")
    case True
    then show ?thesis using p by (subst (1 2) value_decode_at.simps) (simp add: array_decode_empty split: nat.split)
  next
    case False
    then obtain n' m' where s: "n = Suc n'" "m = Suc m'"
      using less.prems by (cases n; cases m) (auto simp: or_default_def p(1))
    have "array_decode B (value_decode_at n' B K) v = array_decode B (value_decode_at m' B K) v"
      using less.prems s by (intro array_decode_cong less.IH) auto
    then show ?thesis using p s by (subst (1 2) value_decode_at.simps) simp
  qed
  note arr = this
  show ?case
  proof (cases "\<exists>b t. pv_value v = Some b \<and> pv_type_info v = Builtin t \<and> t \<in> set array_value_types")
    case True
    with arr show ?thesis by blast
  next
    case False
    then show ?thesis by (subst (1 2) value_decode_at.simps) (auto split: pg_type.split)
  qed
qed

lemma value_decode_enough: "pv_len v \<le> n \<Longrightarrow> value_decode_at n B K v = pg_value_decode B K v"
  unfolding pg_value_decode_def by (rule value_decode_depth) simp_all

lemma pg_value_decode_array:
  assumes "pv_value v = Some b" and "pv_type_info v = Builtin t" and "t \<in> set array_value_types"
  shows "pg_value_decode B K v = rbind (array_decode B (pg_value_decode B K) v) (\<lambda>xs. Ok (V_Array xs))"
proof -
  have "value_decode_at (Suc (length b)) B K v =
      rbind (array_decode B (value_decode_at (length b) B K) v) (\<lambda>xs. Ok (V_Array xs))"
    using assms by (subst value_decode_at.simps) simp
  moreover have "array_decode B (value_decode_at (length b) B K) v = array_decode B (pg_value_decode B K) v"
    using assms(1) by (intro array_decode_cong value_decode_enough) (auto simp: or_default_def)
  ultimately show ?thesis using value_decode_enough [of v "Suc (length b)" K] assms(1) by (simp add: or_default_def)
qed

end

section \<open>One cell per argument\<close>

text \<open>The cell of a value by itself, and the documents whose first byte waits for the type of the parameter.\<close>

definition arg_cell :: "('dt, 'd, 'i) pg_kit \<Rightarrow> int option \<Rightarrow> dyn_value \<Rightarrow> bytes option res" where
  "arg_cell K tz v =
     rbind (pg_value_encode K v (ab_new tz)) (\<lambda>(null, b).
     Ok (case null of Null_Yes \<Rightarrow> None | Null_No \<Rightarrow> Some (ab_buffer b)))"

definition is_document :: "dyn_value \<Rightarrow> bool" where
  "is_document v =
     (case v of V_Array _ \<Rightarrow> True | V_Map _ \<Rightarrow> True | V_Ext n _ \<Rightarrow> n = ''Json'' \<or> n = ''Jsonb'' | _ \<Rightarrow> False)"

text \<open>What the server is to receive for a parameter of type \<open>ty\<close>.\<close>

definition sent_cell :: "pg_type \<Rightarrow> dyn_value \<Rightarrow> bytes option \<Rightarrow> bytes option" where
  "sent_cell ty v c =
     (if is_document v \<and> (pg_type_eq ty (Builtin ''Json'') \<or> pg_type_eq ty (Builtin ''JsonArray''))
      then map_option (\<lambda>b. 0x20 # tl b) c else c)"

definition doc_patch :: "nat \<Rightarrow> nat \<Rightarrow> dyn_value \<Rightarrow> (nat \<times> nat \<times> (bytes \<Rightarrow> pg_type \<Rightarrow> bytes res)) list" where
  "doc_patch offset i v = (if is_document v then [(offset, i, json_patch)] else [])"

lemma ab_sel [simp]:
  "ab_buffer (ab_new tz) = []" "ab_patches (ab_new tz) = []" "ab_timezone_sec (ab_new tz) = tz" "ab_count (ab_new tz) = 0"
  "ab_type_holes (ab_new tz) = []" "ab_buffer (ab_extend bs b) = ab_buffer b @ bs" "ab_patches (ab_extend bs b) = ab_patches b"
  "ab_timezone_sec (ab_extend bs b) = ab_timezone_sec b" "ab_count (ab_extend bs b) = ab_count b"
  "ab_buffer (ab_patch f b) = ab_buffer b"
  by (simp_all add: ab_new_def ab_extend_def ab_patch_def)

lemma pg_value_encode_appends:
  "pg_value_encode K v b = rbind (arg_cell K (ab_timezone_sec b) v) (\<lambda>c.
     Ok (if c = None then Null_Yes else Null_No,
         b\<lparr>ab_buffer := ab_buffer b @ or_default [] c,
           ab_patches := ab_patches b @ doc_patch (length (ab_buffer b)) (ab_count b) v\<rparr>))"
proof (cases v)
  case (V_Ext n x)
  then show ?thesis
    by (cases "pg_ext_bytes K (ab_timezone_sec b) n x")
      (auto simp: pg_value_encode_def arg_cell_def is_document_def doc_patch_def ab_extend_def ab_patch_def ab_new_def
        pg_json_encode_def or_default_def Let_def split: option.splits)
qed (auto simp: pg_value_encode_def arg_cell_def is_document_def doc_patch_def ab_extend_def ab_patch_def ab_new_def
  pg_encode_json_value_def or_default_def Let_def)

lemma arg_cell_document: "is_document v \<Longrightarrow> arg_cell K tz v = Ok c \<Longrightarrow> \<exists>bs. c = Some (1 # bs)"
  by (auto simp: is_document_def arg_cell_def pg_value_encode_def Let_def pg_encode_json_value_def pg_json_encode_def
    split: dyn_value.splits)

lemma ab_encode_cell:
  assumes "arg_cell K (ab_timezone_sec b) v = Ok c"
  shows "ab_encode K v b = Ok (pg_value_type v, b\<lparr>ab_buffer := ab_buffer b @ cell_wire c,
    ab_patches := ab_patches b @ doc_patch (length (ab_buffer b) + 4) (ab_count b) v\<rparr>)"
proof -
  have "length (to_be w) = 4" for w :: u32 by simp
  moreover have e: "doc_patch (Suc (Suc (Suc (Suc n)))) = doc_patch (n + 4)" for n by (rule arg_cong) simp
  ultimately show ?thesis using assms
    by (cases c; cases b) (simp_all add: e ab_encode_def pg_value_encode_appends Let_def ab_extend_def or_default_def cell_wire_def)
qed

text \<open>The patches of a list of arguments whose cells start at \<open>offset\<close>.\<close>

fun doc_patches :: "nat \<Rightarrow> nat \<Rightarrow> dyn_value list \<Rightarrow> bytes option list \<Rightarrow> (nat \<times> nat \<times> (bytes \<Rightarrow> pg_type \<Rightarrow> bytes res)) list" where
  "doc_patches offset i (v # vs) (c # cs) =
     doc_patch (offset + 4) i v @ doc_patches (offset + length (cell_wire c)) (i + 1) vs cs"
| "doc_patches offset i _ _ = []"

lemma pg_add_all_cells:
  assumes "list_all2 (\<lambda>v c. arg_cell K (ab_timezone_sec (pa_buffer a)) v = Ok c) vs cs"
  shows "pg_add_all K vs a = Ok \<lparr>pa_types = pa_types a @ map pg_value_type vs,
    pa_buffer = (pa_buffer a)\<lparr>ab_buffer := ab_buffer (pa_buffer a) @ concat (map cell_wire cs),
      ab_count := ab_count (pa_buffer a) + length vs,
      ab_patches := ab_patches (pa_buffer a) @
        doc_patches (length (ab_buffer (pa_buffer a))) (ab_count (pa_buffer a)) vs cs\<rparr>\<rparr>"
  using assms
proof (induction vs arbitrary: a cs)
  case (Cons v vs)
  then obtain c cs' where c: "cs = c # cs'" "arg_cell K (ab_timezone_sec (pa_buffer a)) v = Ok c"
    "list_all2 (\<lambda>v c. arg_cell K (ab_timezone_sec (pa_buffer a)) v = Ok c) vs cs'" by (auto simp: list_all2_Cons1)
  show ?case
    using c(3) by (simp add: c(1) pg_arguments_add_def ab_encode_cell [OF c(2)] Cons.IH [where cs = cs'] algebra_simps)
qed simp

lemma run_patches_app:
  "run_patches (ps @ qs) params b = rbind (run_patches ps params b) (run_patches qs params)"
proof (induction ps params b rule: run_patches.induct)
  case (2 offset i f ps params b)
  then show ?case by (cases "f (drop offset b) (params ! i)") auto
qed simp

lemma doc_patch_run:
  assumes "arg_cell K tz v = Ok c" and "length pre = offset" and "i < length params"
  shows "run_patches (doc_patch (offset + 4) i v) params (pre @ cell_wire c @ post) =
    Ok (pre @ cell_wire (sent_cell (params ! i) v c) @ post)"
proof (cases "is_document v")
  case True
  with arg_cell_document [OF True assms(1)] obtain bs where c: "c = Some (1 # bs)" by blast
  have l: "length (to_be w) = 4" for w :: u32 by simp
  show ?thesis
    using True assms(2,3) by (simp add: doc_patch_def json_patch_def sent_cell_def c l)
qed (simp add: doc_patch_def sent_cell_def)

lemma length_sent_cell: "arg_cell K tz v = Ok c \<Longrightarrow> length (cell_wire (sent_cell ty v c)) = length (cell_wire c)"
  by (auto simp: sent_cell_def cell_wire_def dest: arg_cell_document split: option.split)

definition sent_cells :: "pg_type list \<Rightarrow> dyn_value list \<Rightarrow> bytes option list \<Rightarrow> bytes option list" where
  "sent_cells params vs cs = map (\<lambda>(ty, v, c). sent_cell ty v c) (zip params (zip vs cs))"

lemma doc_patches_run:
  assumes "list_all2 (\<lambda>v c. arg_cell K tz v = Ok c) vs cs" and "length params = i + length vs"
  shows "run_patches (doc_patches (length pre) i vs cs) params (pre @ concat (map cell_wire cs)) =
    Ok (pre @ concat (map cell_wire (sent_cells (drop i params) vs cs)))"
  using assms
proof (induction vs cs arbitrary: pre i rule: list_all2_induct)
  case (Cons v vs c cs)
  let ?c = "cell_wire (sent_cell (params ! i) v c)"
  have i: "i < length params" "drop i params = params ! i # drop (Suc i) params"
    using Cons.prems by (simp_all add: Cons_nth_drop_Suc)
  from Cons.IH [of "Suc i" "pre @ ?c"] Cons.prems length_sent_cell [OF Cons.hyps(1), of "params ! i"]
  show ?case
    by (simp add: run_patches_app doc_patch_run [OF Cons.hyps(1) refl i(1)] i(2) sent_cells_def)
qed (simp add: sent_cells_def)

lemma from_args_cells:
  assumes "list_all2 (\<lambda>v c. arg_cell K tz v = Ok c) vs cs"
  shows "pg_from_args K vs tz = Ok \<lparr>pa_types = map pg_value_type vs,
    pa_buffer = \<lparr>ab_buffer = concat (map cell_wire cs), ab_count = length vs, ab_timezone_sec = tz,
      ab_patches = doc_patches 0 0 vs cs, ab_type_holes = []\<rparr>\<rparr>"
  using pg_add_all_cells [where a = "\<lparr>pa_types = [], pa_buffer = ab_new tz\<rparr>", of K vs cs] assms
  by (simp add: pg_from_args_def ab_new_def)

section \<open>Arrays as the server sends them\<close>

definition cell_value :: "pg_type \<Rightarrow> pg_value_format \<Rightarrow> int option \<Rightarrow> bytes option \<Rightarrow> pg_value" where
  "cell_value ty fmt tz c = \<lparr>pv_value = c, pv_type_info = ty, pv_format = fmt, pv_timezone_sec = tz\<rparr>"

lemma cell_value_sel [simp]:
  "pv_value (cell_value ty fmt tz c) = c" "pv_type_info (cell_value ty fmt tz c) = ty"
  "pv_format (cell_value ty fmt tz c) = fmt" "pv_timezone_sec (cell_value ty fmt tz c) = tz"
  by (simp_all add: cell_value_def)

text \<open>A one-dimensional array in the binary format; an array without elements has no dimension.\<close>

definition array_wire :: "u32 \<Rightarrow> u32 \<Rightarrow> bytes option list \<Rightarrow> bytes" where
  "array_wire flags oid cs =
     (if cs = [] then to_be (0 :: u32) @ to_be flags @ to_be oid
      else to_be (1 :: u32) @ to_be flags @ to_be oid @ to_be (of_nat (length cs) :: u32) @ to_be (1 :: u32) @
        concat (map cell_wire cs))"

text \<open>The text format: a null is written \<open>NULL\<close>, and an element is quoted, with its quotes and backslashes escaped, when
  it is empty, reads \<open>NULL\<close> in any case, or holds a quote, a backslash, a brace, the delimiter or white space.\<close>

definition quote_char :: "u8 \<Rightarrow> bytes" where
  "quote_char ch = (if ch = 0x22 \<or> ch = 0x5c then [0x5c, ch] else [ch])"

definition needs_quotes :: "u8 \<Rightarrow> bytes \<Rightarrow> bool" where
  "needs_quotes delim s =
     (s = [] \<or> list_all2 (\<lambda>ch c. ch = c \<or> ch = c + 0x20) s (lit ''NULL'') \<or>
      list_ex (\<lambda>ch. ch = delim \<or> ch \<in> {0x22, 0x5c, 0x7b, 0x7d, 0x20, 0x09, 0x0a, 0x0b, 0x0c, 0x0d}) s)"

definition text_item :: "u8 \<Rightarrow> bytes option \<Rightarrow> bytes" where
  "text_item delim x =
     (case x of None \<Rightarrow> lit ''NULL''
      | Some s \<Rightarrow> if needs_quotes delim s then 0x22 # concat (map quote_char s) @ [0x22] else s)"

fun text_items :: "u8 \<Rightarrow> bytes option list \<Rightarrow> bytes" where
  "text_items delim [] = []"
| "text_items delim [x] = text_item delim x"
| "text_items delim (x # y # xs) = text_item delim x @ delim # text_items delim (y # xs)"

definition array_delimiter :: "pg_type \<Rightarrow> u8" where
  "array_delimiter ty = (if pg_type_eq ty (Builtin ''Box'') then 0x3b else 0x2c)"

lemma array_item_quoted:
  "array_item delim (True, False) (concat (map quote_char s) @ rest) v = array_item delim (True, False) rest (v @ s)"
  by (induction s arbitrary: v) (simp_all add: quote_char_def)

lemma array_item_plain:
  assumes "list_all (\<lambda>ch. ch \<noteq> delim \<and> ch \<noteq> 0x22 \<and> ch \<noteq> 0x5c) s"
  shows "array_item delim (False, False) (s @ rest) v = array_item delim (False, False) rest (v @ s)"
  using assms by (induction s arbitrary: v) simp_all

lemma array_item_text:
  assumes "delim \<in> {0x2c, 0x3b}"
  shows "array_item delim (False, False) (text_item delim x @ rest) [] =
    array_item delim (False, False) rest (case x of None \<Rightarrow> lit ''NULL'' | Some s \<Rightarrow> s)"
proof (cases x)
  case (Some s)
  show ?thesis
  proof (cases "needs_quotes delim s")
    case False
    then have "list_all (\<lambda>ch. ch \<noteq> delim \<and> ch \<noteq> 0x22 \<and> ch \<noteq> 0x5c) s"
      by (auto simp: needs_quotes_def list_all_iff list_ex_iff)
    with False Some show ?thesis by (simp add: text_item_def array_item_plain)
  qed (use assms Some in \<open>auto simp: text_item_def array_item_quoted\<close>)
qed (use assms in \<open>auto simp: text_item_def lit_def\<close>)

lemma text_items_nonempty: "xs \<noteq> [] \<Longrightarrow> text_items delim xs \<noteq> []"
  by (induction delim xs rule: text_items.induct) (auto simp: text_item_def needs_quotes_def split: option.splits)

lemma item_seen:
  assumes "dec x = Ok y" and "x \<noteq> Some (lit ''NULL'')"
  shows "dec (if (case x of None \<Rightarrow> lit ''NULL'' | Some s \<Rightarrow> s) = lit ''NULL'' then None
    else Some (case x of None \<Rightarrow> lit ''NULL'' | Some s \<Rightarrow> s)) = Ok y"
  using assms by (cases x) auto

lemma array_text_step:
  assumes "array_item delim st chs [] = (v, fin, st', rest)" and "dec (if v = lit ''NULL'' then None else Some v) = Ok y"
  shows "array_text dec delim st chs =
    (if fin then Ok [y] else rbind (array_text dec delim st' rest) (\<lambda>ys. Ok (y # ys)))"
  using assms by (subst array_text.simps) simp

lemma array_text_items:
  assumes "delim \<in> {0x2c, 0x3b}" and "list_all2 (\<lambda>x y. dec x = Ok y) xs ys" and "xs \<noteq> []"
    and "Some (lit ''NULL'') \<notin> set xs"
  shows "array_text dec delim (False, False) (text_items delim xs) = Ok ys"
  using assms
proof (induction delim xs arbitrary: ys rule: text_items.induct)
  case (2 d x)
  then obtain y where y: "ys = [y]" "dec x = Ok y" by (auto simp: list_all2_Cons1)
  from 2(4) have x: "x \<noteq> Some (lit ''NULL'')" by auto
  have "array_text dec d (False, False) (text_item d x @ []) = Ok [y]"
    using array_text_step [where dec = dec, OF array_item_text [OF 2(1), of x "[]", unfolded array_item.simps(1)] item_seen [of dec x y, OF y(2) x]]
    by simp
  with y(1) show ?case by simp
next
  case (3 d x x' xs)
  from 3(3) obtain y ys' where y: "ys = y # ys'" "dec x = Ok y" "list_all2 (\<lambda>x y. dec x = Ok y) (x' # xs) ys'"
    unfolding list_all2_Cons1 by blast
  from 3(2) have d: "d \<noteq> 0x22" "d \<noteq> 0x5c" by auto
  from 3(5) have x: "x \<noteq> Some (lit ''NULL'')" and xs: "Some (lit ''NULL'') \<notin> set (x' # xs)" by auto
  have "array_item d (False, False) (text_item d x @ d # text_items d (x' # xs)) [] =
      ((case x of None \<Rightarrow> lit ''NULL'' | Some s \<Rightarrow> s), False, (False, False), text_items d (x' # xs))"
    using d by (simp only: array_item_text [OF 3(2)]) simp
  from array_text_step [where dec = dec, OF this item_seen [of dec x y, OF y(2) x]] 3(1) [OF 3(2) y(3) _ xs] y(1)
  show ?case by simp
qed simp

text \<open>The exception: an element that reads \<open>NULL\<close> is quoted by the server and taken for a null all the same.\<close>

theorem quoted_null_is_null:
  assumes "delim \<in> {0x2c, 0x3b}" and "dec None = Ok y"
  shows "text_item delim (Some (lit ''NULL'')) = 0x22 # lit ''NULL'' @ [0x22] \<and>
    array_text dec delim (False, False) (text_item delim (Some (lit ''NULL''))) = Ok [y]"
proof
  show "text_item delim (Some (lit ''NULL'')) = 0x22 # lit ''NULL'' @ [0x22]"
    by (simp add: text_item_def needs_quotes_def quote_char_def)
  from array_text_step [where dec = dec, OF array_item_text [OF assms(1), of "Some (lit ''NULL'')" "[]", unfolded array_item.simps(1)]] assms(2)
  show "array_text dec delim (False, False) (text_item delim (Some (lit ''NULL''))) = Ok [y]" by simp
qed

theorem quoted_null_is_null_witness:
  "array_text (\<lambda>x. Ok (x = None)) 0x2c (False, False) (0x22 # lit ''NULL'' @ [0x22]) = Ok [True]"
  using quoted_null_is_null [where delim = "0x2c" and dec = "\<lambda>x. Ok (x = None)" and y = True] by (auto simp del: lit_Cons)

context pg_crate_laws
begin

lemma pg_value_get_cell:
  assumes "cell_fits_pg c"
  shows "pg_value_get B fmt ty tz (cell_wire c @ bs) = Ok (cell_value ty fmt tz c, bs)"
proof (cases c)
  case (Some x)
  with assms have l: "length x < 2 ^ 31" by (simp add: cell_fits_pg_def)
  then have "unat (of_nat (length x) :: u32) = length x" "sint (of_nat (length x) :: u32) = int (length x)"
    by (simp_all add: unat_of_nat_u32 sint_of_nat_u32)
  moreover have "of_nat (length x) \<noteq> (- 1 :: u32)"
  proof
    assume "of_nat (length x) = (- 1 :: u32)"
    then have "sint (of_nat (length x) :: u32) = - 1" by (simp only: sint_minus_one_u32)
    with l show False by (simp add: sint_of_nat_u32)
  qed
  ultimately show ?thesis by (simp add: Some pg_value_get_def Let_def cell_value_def)
qed (simp add: pg_value_get_def Let_def cell_value_def)

lemma array_elements_cells:
  assumes "list_all2 (\<lambda>c x. dec (cell_value ty F_Binary tz c) = Ok x) cs xs" and "list_all cell_fits_pg cs"
  shows "array_elements B dec (length cs) ty tz (concat (map cell_wire cs)) = Ok xs"
  using assms by (induction cs xs rule: list_all2_induct) (simp_all add: pg_value_get_cell)

end

context pg_crate_laws
begin

lemma pg_value_decode_builtin:
  assumes "pv_value v = Some b" and "pv_type_info v = Builtin t" and "t \<notin> set array_value_types"
  shows "pg_value_decode B K v = builtin_decode B K t v"
  using assms unfolding pg_value_decode_def by (subst value_decode_at.simps) simp

lemma basic_decode:
  "pg_value_decode B K (cell_value ty F_Binary tz None) = Ok V_Null"
  "pg_value_decode B K (cell_value (Builtin ''Bool'') F_Binary tz (Some [of_bool b])) = Ok (V_Bool b)"
  "pg_value_decode B K (cell_value (Builtin ''Int4'') F_Binary tz (Some (to_be x))) = Ok (V_I32 x)"
  "pg_value_decode B K (cell_value (Builtin ''Int8'') F_Binary tz (Some (to_be y))) = Ok (V_I64 y)"
  "pg_value_decode B K (cell_value (Builtin ''Float4'') F_Binary tz (Some (to_be x))) = Ok (V_F32 x)"
  "pg_value_decode B K (cell_value (Builtin ''Float8'') F_Binary tz (Some (to_be y))) = Ok (V_F64 y)"
  "pg_value_decode B K (cell_value (Builtin ''Varchar'') F_Binary tz (Some s)) = (if utf8_ok s then Ok (V_String s) else Err Utf8Error)"
  "pg_value_decode B K (cell_value (Builtin ''Bytea'') F_Binary tz (Some s)) = Ok (V_Binary s)"
  "pg_value_decode B K (cell_value (Builtin ''Json'') F_Binary tz (Some (ch # s))) = json_from_str K (from_utf8_lossy (ch # s))"
proof -
  have t: "t \<notin> set array_value_types"
    if "t \<in> set [''Bool'', ''Int4'', ''Int8'', ''Float4'', ''Float8'', ''Varchar'', ''Bytea'', ''Json'']" for t
  proof -
    have "list_all (\<lambda>t. t \<notin> set array_value_types) [''Bool'', ''Int4'', ''Int8'', ''Float4'', ''Float8'', ''Varchar'', ''Bytea'', ''Json'']"
      by code_simp
    with that show ?thesis unfolding list_all_iff by blast
  qed
  note d = pg_value_decode_builtin builtin_decode_def pv_bytes_def pv_str_def t
  show "pg_value_decode B K (cell_value ty F_Binary tz None) = Ok V_Null"
    unfolding pg_value_decode_def by (subst value_decode_at.simps) simp
  show "pg_value_decode B K (cell_value (Builtin ''Bool'') F_Binary tz (Some [of_bool b])) = Ok (V_Bool b)"
    by (simp add: d pg_bool_decode_def)
  show "pg_value_decode B K (cell_value (Builtin ''Int4'') F_Binary tz (Some (to_be x))) = Ok (V_I32 x)"
    using read_be_u32_app [of x "[]"] by (simp add: d pg_i32_decode_def)
  show "pg_value_decode B K (cell_value (Builtin ''Int8'') F_Binary tz (Some (to_be y))) = Ok (V_I64 y)"
    using read_be_u64_app [of y "[]"] by (simp add: d pg_i64_decode_def)
  show "pg_value_decode B K (cell_value (Builtin ''Float4'') F_Binary tz (Some (to_be x))) = Ok (V_F32 x)"
    using read_be_u32_app [of x "[]"] by (simp add: d pg_f32_decode_def)
  show "pg_value_decode B K (cell_value (Builtin ''Float8'') F_Binary tz (Some (to_be y))) = Ok (V_F64 y)"
    using read_be_u64_app [of y "[]"] by (simp add: d pg_f64_decode_def)
  show "pg_value_decode B K (cell_value (Builtin ''Varchar'') F_Binary tz (Some s)) = (if utf8_ok s then Ok (V_String s) else Err Utf8Error)"
    by (simp add: d string_decode_def from_utf8_def)
  show "pg_value_decode B K (cell_value (Builtin ''Bytea'') F_Binary tz (Some s)) = Ok (V_Binary s)"
    by (simp add: d pg_bytea_decode_def)
  have "\<not> pg_type_eq (Builtin ''Json'') (Builtin ''Jsonb'')" by code_simp
  then show "pg_value_decode B K (cell_value (Builtin ''Json'') F_Binary tz (Some (ch # s))) = json_from_str K (from_utf8_lossy (ch # s))"
    by (simp add: d pg_decode_json_value_def json_buf_def)
qed

end

text \<open>The crates on a small scale: instants are microseconds since 2000, texts of dates and times name one fixed day.\<close>

definition sample_pg_kit :: "(int, int \<times> int, int) pg_kit" where
  "sample_pg_kit = \<lparr>
     into_string = (\<lambda>v. case v of V_String s \<Rightarrow> Some s | _ \<Rightarrow> None),
     value_as_str = (\<lambda>v. case v of V_String s \<Rightarrow> Some s | _ \<Rightarrow> None),
     as_u64 = (\<lambda>v. case v of V_U64 u \<Rightarrow> Some u | _ \<Rightarrow> None),
     as_i64 = (\<lambda>v. case v of V_I64 i \<Rightarrow> Some i | _ \<Rightarrow> None),
     into_bytes = (\<lambda>v. case v of V_Binary b \<Rightarrow> Some b | V_String s \<Rightarrow> Some s | _ \<Rightarrow> None),
     value_to_string = (\<lambda>v. lit ''[]''),
     json_from_str = (\<lambda>s. Ok (V_Array [])),
     date_from_str = (\<lambda>s. Ok day_2000),
     date_to_string = (\<lambda>d. lit ''2000-01-01''),
     time_from_str = (\<lambda>s. Ok midnight),
     datetime_from_str = (\<lambda>s. Ok 0),
     datetime_from_str_default = (\<lambda>s o'. Ok 0),
     datetime_from_parts = (\<lambda>d t o'. 0),
     datetime_from_date_time = (\<lambda>d t. 0),
     from_timestamp_millis = (\<lambda>u. (sint u - 946684800000) * 1000),
     unix_timestamp_millis = (\<lambda>d. of_int ((d + 946684800000000) div 1000)),
     datetime_to_string = (\<lambda>d. lit ''2000-01-01T00:00:00Z''),
     dt_date = (\<lambda>d. day_2000),
     dt_time = (\<lambda>d. midnight),
     decimal_from_str = Ok,
     f32_of_f64 = ucast,
     f32_parse = (\<lambda>s. None),
     f64_parse = (\<lambda>s. None),
     as_f64 = (\<lambda>v. case v of V_F64 f \<Rightarrow> Some f | _ \<Rightarrow> None),
     as_slice = (\<lambda>v. case v of V_Binary b \<Rightarrow> Some b | _ \<Rightarrow> None),
     dt_from_date = (\<lambda>d. 0),
     dt_add = (\<lambda>d n. d + int n),
     dt_sub = (\<lambda>d n. d - int n),
     dt_ge = (\<lambda>a b. b \<le> a),
     dt_diff = (\<lambda>a b. nat (a - b)),
     set_offset = (\<lambda>d s. d),
     get_micro = (\<lambda>t. ft_nano t div 1000),
     time_to_string = (\<lambda>t. lit ''00:00:00''),
     time_from_duration = (\<lambda>n. midnight),
     time_to_duration = (\<lambda>t. 0),
     timestamptz_from_value = (\<lambda>v. Ok 0),
     timetz_from_value = (\<lambda>v. Ok (midnight, 0)),
     timetz_to_value = (\<lambda>t. V_Null),
     hex_decode = Ok,
     uuid_parse = Ok,
     uuid_from_slice = Ok,
     f64_to_string = (\<lambda>f. []),
     big = pair_big,
     big_to_string = (\<lambda>d. lit ''0'')\<rparr>"

section \<open>Properties\<close>

text \<open>C31: The arguments of a query become exactly one length-prefixed cell each, in their order: binding succeeds whenever
  every value can be encoded by itself, the announced types are those of the values, and once the types of the
  parameters are known the patches turn the version byte of every document that is bound to a \<open>JSON\<close> parameter into a
  space and change nothing else.\<close>

theorem arguments_carry_the_values:
  assumes "list_all2 (\<lambda>v c. arg_cell K tz v = Ok c) vs cs" and "length params = length vs"
  shows "\<exists>a. pg_from_args K vs tz = Ok a \<and> pa_types a = map pg_value_type vs \<and> ab_count (pa_buffer a) = length vs \<and>
    ab_type_holes (pa_buffer a) = [] \<and>
    run_patches (ab_patches (pa_buffer a)) params (ab_buffer (pa_buffer a)) =
      Ok (concat (map cell_wire (sent_cells params vs cs)))"
  using from_args_cells [OF assms(1)] doc_patches_run [OF assms(1), of params 0 "[]"] assms(2) by simp

theorem arguments_carry_the_values_witness:
  "\<exists>a. pg_from_args sample_pg_kit [V_I32 7, V_Null, V_Array []] None = Ok a \<and>
     run_patches (ab_patches (pa_buffer a)) [Builtin ''Int4'', Builtin ''Text'', Builtin ''Json''] (ab_buffer (pa_buffer a)) =
       Ok (concat (map cell_wire [Some [0, 0, 0, 7], None, Some (0x20 # value_to_string sample_pg_kit (V_Array []))]))"
proof -
  have c: "list_all2 (\<lambda>v c. arg_cell sample_pg_kit None v = Ok c) [V_I32 7, V_Null, V_Array []]
      [Some (to_be (7 :: u32)), None, Some (1 # value_to_string sample_pg_kit (V_Array []))]"
    by (simp add: arg_cell_def pg_value_encode_def pg_encode_json_value_def Let_def)
  have e: "pg_type_eq (Builtin ''Json'') (Builtin ''Json'')" "to_be (7 :: u32) = [0, 0, 0, 7]" by code_simp+
  from arguments_carry_the_values [OF c, of "[Builtin ''Int4'', Builtin ''Text'', Builtin ''Json'']"] e
  show ?thesis by (auto simp: sent_cells_def sent_cell_def is_document_def)
qed

text \<open>C32: What an argument that is no extension value sends, a column of the announced type gives back.  Null, booleans,
  signed integers, floating point numbers, valid texts and byte strings come back as the value that was bound.  Unsigned
  integers do not keep their type: they are announced as the signed integers of their width and come back as the signed
  integer with the same bits, which is another number from the middle of their range on.  Arrays and maps are sent as
  JSON documents, whose version byte is patched to a space, and come back as what the JSON parser makes of the text that
  was sent.  A text that is not valid UTF-8, which a string of Rust never is, is answered by an error.\<close>

theorem basic_values_roundtrip:
  assumes "pg_crate_laws C B" and "\<forall>n x. v \<noteq> V_Ext n x"
  shows "\<exists>c. arg_cell K tz v = Ok c \<and>
    pg_value_decode B K (cell_value (pg_value_type v) F_Binary tz (sent_cell (pg_value_type v) v c)) =
      (case v of
         V_String s \<Rightarrow> if utf8_ok s then Ok v else Err Utf8Error
       | V_U32 x \<Rightarrow> Ok (V_I32 x)
       | V_U64 x \<Rightarrow> Ok (V_I64 x)
       | V_Array _ \<Rightarrow> json_from_str K (from_utf8_lossy (0x20 # value_to_string K v))
       | V_Map _ \<Rightarrow> json_from_str K (from_utf8_lossy (0x20 # value_to_string K v))
       | _ \<Rightarrow> Ok v)"
proof -
  note b = pg_crate_laws.basic_decode [OF assms(1), where K = K and tz = tz]
  have "pg_type_eq (Builtin ''Json'') (Builtin ''Json'')" by code_simp
  then show ?thesis using assms(2)
    by (cases v) (simp_all add: b arg_cell_def pg_value_encode_def pg_value_type_def sent_cell_def is_document_def
      pg_encode_json_value_def Let_def del: of_bool_eq_0_iff)
qed

theorem basic_values_roundtrip_witness:
  "\<exists>c. arg_cell sample_pg_kit None (V_U32 0xFFFFFFFF) = Ok c \<and>
     pg_value_decode std_pg_crates sample_pg_kit (cell_value (Builtin ''Int4'') F_Binary None c) = Ok (V_I32 (- 1))"
  using basic_values_roundtrip [OF std_pg.pg_crate_laws_axioms, of "V_U32 0xFFFFFFFF" sample_pg_kit None]
  by (auto simp: pg_value_type_def sent_cell_def is_document_def)


text \<open>C33: An array column decodes to its elements, in both formats, for arrays of at most one dimension with lower bound one
  whose elements decode.  In the binary format every element is decoded as a cell of the element type the server names,
  nulls included.  In the text format, where the server writes \<open>NULL\<close> for a null, quotes the elements that need it and
  leaves the others bare, every element is decoded from exactly its own bytes; the elements that read \<open>NULL\<close> themselves
  are excluded, since the decoder does not see that they are quoted and takes them for nulls.  In both formats an array
  without elements decodes to the empty list.\<close>

theorem arrays_decode_elementwise:
  assumes "pg_crate_laws C B" and "t \<in> set array_value_types"
    and "try_from_oid oid = Some ety" and "length cs < 2 ^ 31" and "list_all cell_fits_pg cs"
    and "list_all2 (\<lambda>c x. pg_value_decode B K (cell_value ety F_Binary tz c) = Ok x) cs xs"
    and "type_kind (Builtin t) = Ok (K_Array ity)" and "Some (lit ''NULL'') \<notin> set ts"
    and "list_all2 (\<lambda>s y. pg_value_decode B K (cell_value ity F_Text tz s) = Ok y) ts ys"
    and "utf8_ok (0x7b # text_items (array_delimiter ity) ts @ [0x7d])"
  shows "pg_value_decode B K (cell_value (Builtin t) F_Binary tz (Some (array_wire flags oid cs))) = Ok (V_Array xs) \<and>
    pg_value_decode B K (cell_value (Builtin t) F_Text tz (Some (0x7b # text_items (array_delimiter ity) ts @ [0x7d]))) =
      Ok (V_Array ys)"
proof
  note arr = pg_crate_laws.pg_value_decode_array [OF assms(1) _ _ assms(2)]
  note g = pg_crate_laws.get_u32_app [OF assms(1)]
  have n: "unat (of_nat (length cs) :: u32) = length cs" "\<not> sint (of_nat (length cs) :: u32) < 0"
    using assms(4) by (simp_all add: unat_of_nat_u32 sint_of_nat_u32)
  from pg_crate_laws.array_elements_cells [OF assms(1,6,5)] assms(6)
  show "pg_value_decode B K (cell_value (Builtin t) F_Binary tz (Some (array_wire flags oid cs))) = Ok (V_Array xs)"
    by (auto simp: arr array_decode_def pv_bytes_def array_wire_def g assms(3) n)
  let ?dec = "\<lambda>x. pg_value_decode B K (cell_value ity F_Text tz x)"
  show "pg_value_decode B K (cell_value (Builtin t) F_Text tz
      (Some (0x7b # text_items (array_delimiter ity) ts @ [0x7d]))) = Ok (V_Array ys)"
  proof (cases "ts = []")
    case True
    with assms(7,9,10) show ?thesis by (simp add: arr array_decode_def pv_bytes_def pv_str_def from_utf8_def)
  next
    case False
    then have "array_text ?dec (array_delimiter ity) (False, False) (text_items (array_delimiter ity) ts) = Ok ys"
      using assms(8,9) by (intro array_text_items) (simp_all add: array_delimiter_def)
    with text_items_nonempty [OF False] assms(7,10) show ?thesis
      by (simp add: arr array_decode_def pv_bytes_def pv_str_def from_utf8_def array_delimiter_def cell_value_def)
  qed
qed

theorem arrays_decode_elementwise_witness:
  "pg_value_decode std_pg_crates sample_pg_kit (cell_value (Builtin ''TextArray'') F_Binary None
     (Some (array_wire 0 25 [Some (lit ''a''), None]))) = Ok (V_Array [V_String (lit ''a''), V_Null]) \<and>
   pg_value_decode std_pg_crates sample_pg_kit (cell_value (Builtin ''TextArray'') F_Text None
     (Some (lit ''{a,''  @ [0x22] @ lit ''b,'' @ [0x22] @ lit '',NULL}''))) =
     Ok (V_Array [V_String (lit ''a''), V_String (lit ''b,''), V_Null])"
proof -
  have n: "''TextArray'' \<in> set array_value_types" "''Text'' \<notin> set array_value_types" by code_simp+
  have a: "try_from_oid 25 = Some (Builtin ''Text'')" "type_kind (Builtin ''TextArray'') = Ok (K_Array (Builtin ''Text''))"
    "array_delimiter (Builtin ''Text'') = 0x2c" by code_simp+
  have d: "pg_value_decode std_pg_crates sample_pg_kit (cell_value (Builtin ''Text'') f None (Some s)) = Ok (V_String s)"
    "pg_value_decode std_pg_crates sample_pg_kit (cell_value (Builtin ''Text'') f None None) = Ok V_Null"
    if "utf8_ok s" for f s
    using n that
    by (simp_all add: std_pg.pg_value_decode_builtin builtin_decode_def string_decode_def pv_str_def pv_bytes_def
      from_utf8_def pg_value_decode_def value_decode_at.simps)
  let ?ts = "[Some (lit ''a''), Some (lit ''b,''), None]"
  have w: "0x7b # text_items (array_delimiter (Builtin ''Text'')) ?ts @ [0x7d] =
      lit ''{a,''  @ [0x22] @ lit ''b,'' @ [0x22] @ lit '',NULL}''"
    and u: "utf8_ok (0x7b # text_items (array_delimiter (Builtin ''Text'')) ?ts @ [0x7d])"
    and s: "utf8_ok (lit ''a'')" "utf8_ok (lit ''b,'')" "Some (lit ''NULL'') \<notin> set ?ts"
    unfolding a(3) by code_simp+
  show ?thesis
    unfolding w [symmetric]
    by (rule arrays_decode_elementwise [OF std_pg.pg_crate_laws_axioms n(1) a(1) _ _ _ a(2) s(3) _ u])
      (simp_all add: d [OF s(1)] d [OF s(2)] s cell_fits_pg_def del: lit_Cons)
qed

end
