(* ===== verification/Pg_Times.thy ===== *)
theory Pg_Times
  imports Pg_Args
begin

text \<open>
  Instants on the PostgreSQL wire: what the codecs of \<open>rbdc-pg/src/types/\<close> for dates, times and timestamps do, given
  what \<open>fastdate\<close> documents about instants (the locale \<open>instants\<close>, in microseconds since 1970).
\<close>

section \<open>Instants\<close>

text \<open>The instants the laws are about: less than $2^{53}$ milliseconds before or after 1970, some 285000 years.\<close>

definition moderate :: "int \<Rightarrow> bool" where
  "moderate us \<longleftrightarrow> \<bar>us\<bar> < 2 ^ 53 * 1000"

locale instants =
  fixes K :: "('dt, 'd, 'i) pg_kit" and inst :: "'dt \<Rightarrow> int"
  assumes from_millis_law: "moderate (sint ms * 1000) \<Longrightarrow> inst (from_timestamp_millis K ms) = sint ms * 1000"
    and to_millis_law: "moderate (inst dt) \<Longrightarrow> unix_timestamp_millis K dt = of_int (inst dt div 1000)"
    and epoch_law: "inst (dt_from_date K day_2000) = 946684800000000"
    and ge_law: "dt_ge K a b \<longleftrightarrow> inst b \<le> inst a"
    and diff_law: "moderate (inst a) \<Longrightarrow> moderate (inst b) \<Longrightarrow> inst b \<le> inst a \<Longrightarrow> int (dt_diff K a b) = inst a - inst b"
    and add_law: "moderate (inst dt + int n) \<Longrightarrow> inst (dt_add K dt n) = inst dt + int n"
    and sub_law: "moderate (inst dt - int n) \<Longrightarrow> inst (dt_sub K dt n) = inst dt - int n"
    and offset_law: "inst (set_offset K dt sec) = inst dt"
begin

lemma epoch_moderate: "moderate 946684800000000"
  by (simp add: moderate_def)

lemma micros_since_2000_inst:
  assumes "moderate (inst dt)"
  shows "micros_since_2000 K dt = of_int (inst dt - 946684800000000)"
proof (cases "946684800000000 \<le> inst dt")
  case True
  then have "of_nat (dt_diff K dt (epoch_2000 K)) = (of_int (int (dt_diff K dt (epoch_2000 K))) :: u64)" by simp
  also have "\<dots> = of_int (inst dt - 946684800000000)"
    using True by (simp only: diff_law assms epoch_moderate epoch_2000_def epoch_law)
  finally show ?thesis using True by (simp add: micros_since_2000_def Let_def ge_law epoch_2000_def epoch_law)
next
  case False
  then have "of_nat (dt_diff K (epoch_2000 K) dt) = (of_int (int (dt_diff K (epoch_2000 K) dt)) :: u64)" by simp
  also have "\<dots> = of_int (946684800000000 - inst dt)"
    using False by (simp only: diff_law assms epoch_moderate epoch_2000_def epoch_law)
  finally show ?thesis using False by (simp add: micros_since_2000_def Let_def ge_law epoch_2000_def epoch_law)
qed

lemma micros_add_inst:
  assumes "moderate (inst dt + sint us)"
  shows "inst (micros_add K dt us) = inst dt + sint us"
proof -
  have "int (unat (of_int k :: u64)) = k" if "0 \<le> k" "k < 2 ^ 64" for k
    using that by (simp add: uint_word_of_int flip: uint_nat)
  note u = this
  have b: "- (2 ^ 63) \<le> sint us" "sint us < 2 ^ 63" using sint_greater_eq [of us] sint_less [of us] by simp_all
  show ?thesis
  proof (cases "sint us < 0")
    case True
    with b u [of "- sint us"] assms show ?thesis by (simp add: micros_add_def sub_law)
  next
    case False
    with b u [of "sint us"] assms show ?thesis by (simp add: micros_add_def add_law)
  qed
qed

text \<open>A timestamp of the wire, and the instant it names.\<close>

lemma micros_of_millis:
  assumes "\<bar>ms\<bar> < 2 ^ 53"
  shows "inst (from_timestamp_millis K (of_int ms)) = ms * 1000"
    and "inst (micros_add K (epoch_2000 K) (micros_since_2000 K (from_timestamp_millis K (of_int ms)))) = ms * 1000"
    and "unix_timestamp_millis K (micros_add K (epoch_2000 K) (micros_since_2000 K (from_timestamp_millis K (of_int ms)))) = of_int ms"
proof -
  have m: "moderate (ms * 1000)" using assms by (simp add: moderate_def)
  have "sint (of_int ms :: u64) = ms" using assms by (simp add: signed_of_int signed_take_bit_int_eq_self)
  with m show i: "inst (from_timestamp_millis K (of_int ms)) = ms * 1000" by (simp add: from_millis_law)
  have s: "sint (micros_since_2000 K (from_timestamp_millis K (of_int ms))) = ms * 1000 - 946684800000000"
    using assms m by (simp add: micros_since_2000_inst i signed_of_int signed_take_bit_int_eq_self
      del: of_int_diff of_int_mult)
  show a: "inst (micros_add K (epoch_2000 K) (micros_since_2000 K (from_timestamp_millis K (of_int ms)))) = ms * 1000"
    by (subst micros_add_inst) (simp_all add: s epoch_2000_def epoch_law m)
  from m show "unix_timestamp_millis K (micros_add K (epoch_2000 K) (micros_since_2000 K (from_timestamp_millis K (of_int ms)))) = of_int ms"
    by (simp add: to_millis_law a)
qed

text \<open>What the cell of a date-time decodes to: the instant that was encoded, cut to milliseconds and moved by the offset of
  the session.  The offset is added through an unsigned duration whose truncation to 64 bits undoes the cast.\<close>

lemma datetime_cell:
  assumes "pg_crate_laws C B" and "moderate (inst dt)"
    and "ms' = inst dt div 1000 + (case tz of None \<Rightarrow> 0 | Some sec \<Rightarrow> sec * 1000)" and "\<bar>ms'\<bar> < 2 ^ 53"
  shows "\<exists>dt'. pg_datetime_decode B K (cell_value (Builtin ''Timestamptz'') F_Binary tz (Some (pg_datetime_encode K tz dt))) = Ok dt' \<and>
    inst dt' = ms' * 1000"
proof -
  note r = pg_crate_laws.read_be_u64_app [OF assms(1), of _ "[]", simplified]
  have "unix_timestamp_millis K dt + of_nat (unat (of_int sec :: u64) * 1000) = of_int (inst dt div 1000 + sec * 1000)" for sec
    by (simp add: to_millis_law assms(2))
  then have "pg_datetime_encode K tz dt = to_be (micros_since_2000 K (from_timestamp_millis K (of_int ms')))"
    using assms(2,3) by (simp add: pg_datetime_encode_def to_millis_law split: option.split)
  then show ?thesis
    using micros_of_millis [OF assms(4)]
    by (simp add: pg_datetime_decode_def pv_bytes_def r Let_def offset_law split: option.split)
qed

end

interpretation sample_instants: instants sample_pg_kit "\<lambda>d. d + 946684800000000"
  by unfold_locales (simp_all add: sample_pg_kit_def)

text \<open>The product of the days is cut to 32 bits and sign-extended.\<close>

lemma secs_of_days_exact:
  assumes "0 \<le> d" and "d < 2 ^ 31"
  shows "int (secs_of_days (of_int d)) = d * 86400 \<longleftrightarrow> d \<le> 24855"
proof -
  let ?k = "signed_take_bit 31 (d * 86400) :: int"
  have "sint (of_int d * 24 * 3600 :: u32) = sint (of_int (d * 86400) :: u32)" by (simp add: mult.commute)
  also have "\<dots> = ?k" by (simp only: signed_of_int) simp
  finally have "scast (of_int d * 24 * 3600 :: u32) = (of_int ?k :: u64)" by (simp only: scast_eq)
  then have e: "int (secs_of_days (of_int d)) = ?k mod 2 ^ 64"
    by (simp add: secs_of_days_def uint_word_of_int flip: uint_nat)
  have k: "- (2 ^ 31) \<le> ?k" "?k < 2 ^ 31"
    using signed_take_bit_int_greater_eq_minus_exp [of 31 "d * 86400"] signed_take_bit_int_less_exp [of 31 "d * 86400"] by simp_all
  show ?thesis
  proof (cases "d \<le> 24855")
    case True
    then have "?k = d * 86400" using assms by (intro signed_take_bit_int_eq_self) simp_all
    with True assms show ?thesis by (simp add: e)
  next
    case False
    have "?k mod 2 ^ 64 \<noteq> d * 86400"
    proof (cases "0 \<le> ?k")
      case True
      then have "?k mod 2 ^ 64 = ?k" using k by (intro mod_pos_pos_trivial) simp_all
      with k False show ?thesis by simp
    next
      case neg: False
      have "?k mod 2 ^ 64 = (?k + 2 ^ 64) mod 2 ^ 64" by simp
      also have "\<dots> = ?k + 2 ^ 64" using k neg by (intro mod_pos_pos_trivial) simp_all
      finally show ?thesis using k assms by simp
    qed
    with False show ?thesis by (simp add: e)
  qed
qed

section \<open>Properties\<close>

text \<open>C35: Timestamps survive the wire in the binary format, for instants less than $2^{53}$ milliseconds from 1970.  A
  timestamp argument comes back as the same number of milliseconds.  A date-time argument of a session without a
  \<open>timezone_sec\<close>, or with the offset 0, comes back as the instant it names, cut to milliseconds.  (A session with
  another offset moves the instant, see below.)\<close>

theorem timestamps_roundtrip:
  assumes "instants K inst" and "pg_crate_laws C B" and "\<bar>ms\<bar> < 2 ^ 53" and "\<bar>inst dt div 1000\<bar> < 2 ^ 53" and "tz' \<in> {None, Some 0}"
  shows "pg_timestamp_decode B K (cell_value (Builtin ''Timestamp'') F_Binary tz (Some (pg_timestamp_encode K (of_int ms)))) =
      Ok (of_int ms) \<and>
    (\<exists>dt'. pg_datetime_decode B K (cell_value (Builtin ''Timestamptz'') F_Binary tz' (Some (pg_datetime_encode K tz' dt))) = Ok dt' \<and>
      inst dt' = inst dt - inst dt mod 1000)"
proof
  note r = pg_crate_laws.read_be_u64_app [OF assms(2), of _ "[]", simplified]
  show "pg_timestamp_decode B K (cell_value (Builtin ''Timestamp'') F_Binary tz (Some (pg_timestamp_encode K (of_int ms)))) =
      Ok (of_int ms)"
    by (simp add: pg_timestamp_decode_def pg_timestamp_encode_def pg_i64_decode_def pv_bytes_def r
      instants.micros_of_millis(3) [OF assms(1,3)])
  have m: "moderate (inst dt)" unfolding moderate_def using assms(4) by linarith
  have e: "inst dt div 1000 * 1000 = inst dt - inst dt mod 1000" by (simp add: minus_mod_eq_div_mult)
  show "\<exists>dt'. pg_datetime_decode B K (cell_value (Builtin ''Timestamptz'') F_Binary tz' (Some (pg_datetime_encode K tz' dt))) = Ok dt' \<and>
      inst dt' = inst dt - inst dt mod 1000"
    unfolding e [symmetric] by (rule instants.datetime_cell [OF assms(1,2) m]) (use assms(4,5) in auto)
qed

theorem timestamps_roundtrip_witness:
  "pg_timestamp_decode std_pg_crates sample_pg_kit (cell_value (Builtin ''Timestamp'') F_Binary (Some 28800)
      (Some (pg_timestamp_encode sample_pg_kit (of_int (- 5))))) = Ok (of_int (- 5)) \<and>
   (\<exists>dt'. pg_datetime_decode std_pg_crates sample_pg_kit (cell_value (Builtin ''Timestamptz'') F_Binary (Some 0)
      (Some (pg_datetime_encode sample_pg_kit (Some 0) (- 12345)))) = Ok dt' \<and> dt' = - 13000)"
  using timestamps_roundtrip [OF sample_instants.instants_axioms std_pg.pg_crate_laws_axioms, of "- 5" "- 12345" "Some 0" "Some 28800"]
  by auto

text \<open>A session with an offset does not get back the instant it sent: the offset is added before the value is sent, while a
  \<open>TIMESTAMPTZ\<close> is an instant already, and decoding only attaches the offset for display.\<close>

theorem datetime_moved_by_the_session:
  assumes "instants K inst" and "pg_crate_laws C B" and "moderate (inst dt)" and "\<bar>inst dt div 1000 + sec * 1000\<bar> < 2 ^ 53"
  shows "\<exists>dt'. pg_datetime_decode B K (cell_value (Builtin ''Timestamptz'') F_Binary (Some sec)
      (Some (pg_datetime_encode K (Some sec) dt))) = Ok dt' \<and> inst dt' = (inst dt div 1000 + sec * 1000) * 1000"
  by (rule instants.datetime_cell [OF assms(1,2,3)]) (use assms(4) in simp_all)

theorem datetime_moved_by_the_session_witness:
  "\<exists>dt'. pg_datetime_decode std_pg_crates sample_pg_kit (cell_value (Builtin ''Timestamptz'') F_Binary (Some (- 3600))
      (Some (pg_datetime_encode sample_pg_kit (Some (- 3600)) 0))) = Ok dt' \<and> 3600000000 + dt' = 0"
  using datetime_moved_by_the_session [OF sample_instants.instants_axioms std_pg.pg_crate_laws_axioms, of 0 "- 3600"]
  by (simp add: moderate_def)

text \<open>C36: A \<open>DATE\<close> is the number of days from the first of January 2000.  The decoder moves that day by exactly as many
  seconds as the days have for up to 24855 days before and after, i.e. from December 1931 to January 2068; one day
  later the product no longer fits the \<open>i32\<close> it is computed in, and for every later day the duration is wrong.\<close>

theorem date_decode_bounds:
  assumes "pg_crate_laws C B" and "pv_format v = F_Binary" and "pv_value v = Some (to_be (of_int days :: u32))"
    and "- (2 ^ 31) < days" and "days < 2 ^ 31"
  shows "\<exists>secs. pg_date_decode B K v =
      Ok (dt_date K (if days < 0 then dt_sub K (datetime_from_date_time K day_2000 midnight) (1000000 * secs)
                     else dt_add K (datetime_from_date_time K day_2000 midnight) (1000000 * secs))) \<and>
    (int secs = \<bar>days\<bar> * 86400 \<longleftrightarrow> \<bar>days\<bar> \<le> 24855)"
proof -
  have d: "sint (of_int days :: u32) = days" using assms(4,5) by (simp add: signed_of_int signed_take_bit_int_eq_self)
  have "pg_i32_decode B v = Ok (of_int days)"
    using pg_crate_laws.read_be_u32_app [OF assms(1), of "of_int days" "[]"] assms(2,3) by (simp add: pg_i32_decode_def pv_bytes_def)
  with secs_of_days_exact [of "\<bar>days\<bar>"] assms(2,4,5) d show ?thesis
    by (intro exI [of _ "secs_of_days (of_int \<bar>days\<bar>)"]) (simp add: pg_date_decode_def)
qed

theorem date_decode_bounds_witness:
  "\<exists>secs. pg_date_decode std_pg_crates sample_pg_kit (cell_value (Builtin ''Date'') F_Binary None (Some (to_be (24856 :: u32)))) =
      Ok (dt_date sample_pg_kit (dt_add sample_pg_kit (datetime_from_date_time sample_pg_kit day_2000 midnight) (1000000 * secs))) \<and>
    int secs \<noteq> 24856 * 86400"
proof -
  have v: "pv_value (cell_value (Builtin ''Date'') F_Binary None (Some (to_be (24856 :: u32)))) =
      Some (to_be (of_int 24856 :: u32))" by simp
  from date_decode_bounds [OF std_pg.pg_crate_laws_axioms cell_value_sel(3) v, of sample_pg_kit] obtain secs where
    "pg_date_decode std_pg_crates sample_pg_kit (cell_value (Builtin ''Date'') F_Binary None (Some (to_be (24856 :: u32)))) =
      Ok (dt_date sample_pg_kit (dt_add sample_pg_kit (datetime_from_date_time sample_pg_kit day_2000 midnight) (1000000 * secs)))"
    "int secs \<noteq> 24856 * 86400" by auto
  then show ?thesis by blast
qed

text \<open>A \<open>TIME\<close> argument cannot be read back: the microseconds are sent as four bytes, computed modulo \<open>2 ^ 32\<close>, where
  the decoder, like the server, expects eight; decoding the cell panics.\<close>

theorem time_arguments_are_too_short:
  assumes "pg_crate_laws C B" and "into_string K x = Some s" and "time_from_str K s = Ok t"
  shows "\<exists>c. arg_cell K tz (V_Ext ''Time'' x) = Ok (Some c) \<and> length c = 4 \<and>
    (\<forall>tz. pg_value_decode B K (cell_value (Builtin ''Time'') F_Binary tz (Some c)) = Panic)"
proof -
  have n: "''Time'' \<notin> set array_value_types" by code_simp
  have "arg_cell K tz (V_Ext ''Time'' x) = Ok (Some (pg_time_encode K t))"
    using assms(2,3) by (simp add: arg_cell_def pg_value_encode_def pg_ext_bytes_def or_default_def Let_def)
  moreover have l: "length (pg_time_encode K t) = 4" by (simp add: pg_time_encode_def Let_def)
  moreover have "pg_value_decode B K (cell_value (Builtin ''Time'') F_Binary tz (Some (pg_time_encode K t))) = Panic" for tz
    using l n by (simp add: pg_crate_laws.pg_value_decode_builtin [OF assms(1)] builtin_decode_def pg_time_decode_def
      pg_i64_decode_def pv_bytes_def pg_crate_laws.read_be_u64_law [OF assms(1)])
  ultimately show ?thesis by blast
qed

theorem time_arguments_are_too_short_witness:
  "\<exists>c. arg_cell sample_pg_kit None (V_Ext ''Time'' (V_String (lit ''12:00:00''))) = Ok (Some c) \<and>
     pg_value_decode std_pg_crates sample_pg_kit (cell_value (Builtin ''Time'') F_Binary None (Some c)) = Panic"
  using time_arguments_are_too_short [OF std_pg.pg_crate_laws_axioms, of sample_pg_kit "V_String (lit ''12:00:00'')" _ midnight None]
  by (auto simp: sample_pg_kit_def)


end
