(* ===== verification/Pg_Stream.thy ===== *)
theory Pg_Stream
  imports Async_Op Net Pg_Messages
begin

text \<open>
  The message stream of the PostgreSQL driver (\<open>rbdc-pg/src/connection/stream.rs\<close>).  Receiving loops until the server
  sends a message that is not handled in passing (notices, parameter reports, notifications for a listener), so it is
  a partial function; an error message of the server becomes the error result.  Notices are decoded but not logged.
\<close>

section \<open>Model\<close>

record pg_message =
  msg_format :: message_format
  msg_contents :: bytes

text \<open>The sender of notifications is the queue at its other end; the map of parameters is a partial function.\<close>

record 's pg_stream =
  pg_inner :: "'s buf_stream"
  pg_notifications :: "notification list option"
  pg_parameter_statuses :: "bytes \<rightharpoonup> bytes"
  pg_server_version_num :: "u32 option"

definition pg_connect :: "(bytes \<Rightarrow> 's res) \<Rightarrow> (bytes \<Rightarrow> u16 \<Rightarrow> 's res) \<Rightarrow> bytes option \<Rightarrow> bytes \<Rightarrow> u16 \<Rightarrow> 's pg_stream res" where
  "pg_connect connect_uds connect_tcp socket host port =
     rbind (case socket of Some path \<Rightarrow> connect_uds path | None \<Rightarrow> connect_tcp host port) (\<lambda>s.
     Ok \<lparr>pg_inner = buf_stream_new s, pg_notifications = None, pg_parameter_statuses = Map.empty,
         pg_server_version_num = None\<rparr>)"

definition pg_flush :: "'s net \<Rightarrow> ('s pg_stream, unit) aop" where
  "pg_flush N s =
     (case net_flush N (stream (pg_inner s)) (wbuf (pg_inner s)) of
        (r, t) \<Rightarrow> Some (r, s\<lparr>pg_inner := write_and_flush_drop (pg_inner s) t\<rparr>))"

definition pg_read :: "crates \<Rightarrow> 's net \<Rightarrow> nat \<Rightarrow> ('s pg_stream, bytes) aop" where
  "pg_read C N cnt s =
     (case read_raw C (net_read N) (pg_inner s) cnt of (r, b) \<Rightarrow> Some (r, s\<lparr>pg_inner := b\<rparr>))"

definition pg_write :: "(bytes \<Rightarrow> bytes) \<Rightarrow> ('s pg_stream, unit) aop" where
  "pg_write enc = amodify (\<lambda>s. s\<lparr>pg_inner := write_with enc (pg_inner s)\<rparr>)"

text \<open>An encoder that may panic.\<close>

definition pg_write_checked :: "(bytes \<Rightarrow> bytes res) \<Rightarrow> ('s pg_stream, unit) aop" where
  "pg_write_checked enc =
     abind (aget (\<lambda>s. wbuf (pg_inner s))) (\<lambda>b. abind (alift (enc b)) (\<lambda>b'. pg_write (\<lambda>_. b')))"

definition pg_send :: "'s net \<Rightarrow> (bytes \<Rightarrow> bytes) \<Rightarrow> ('s pg_stream, unit) aop" where
  "pg_send N enc = athen (pg_write enc) (pg_flush N)"

definition pg_shutdown :: "'s net \<Rightarrow> ('s pg_stream, unit) aop" where
  "pg_shutdown N s =
     (case net_shutdown N (stream (pg_inner s)) of
        (r, t) \<Rightarrow> Some (r, s\<lparr>pg_inner := (pg_inner s)\<lparr>stream := t\<rparr>\<rparr>))"

text \<open>The length on the wire counts itself; the difference is a \<open>u32\<close>.\<close>

definition pg_recv_unchecked :: "crates \<Rightarrow> pg_crates \<Rightarrow> 's net \<Rightarrow> ('s pg_stream, pg_message) aop" where
  "pg_recv_unchecked C B N =
     abind (pg_read C N 5) (\<lambda>header.
     abind (alift (get_u8 C header)) (\<lambda>(b, header).
     abind (alift (try_from_u8 b)) (\<lambda>format.
     abind (alift (get_u32 B header)) (\<lambda>(n, header).
     abind (pg_read C N (unat (n - 4))) (\<lambda>contents.
     aret \<lparr>msg_format = format, msg_contents = contents\<rparr>)))))"

text \<open>
  The loop over the characters of the version: \<open>i\<close> is the index of the next one, \<open>fr\<close> where the current number
  starts.  A character outside of ASCII ends the loop, so characters and bytes are the same here.
\<close>

fun version_loop :: "bytes \<Rightarrow> bytes \<Rightarrow> nat \<Rightarrow> nat \<Rightarrow> u32 list \<Rightarrow> u32 list" where
  "version_loop s [] i fr parts = parts"
| "version_loop s (ch # chs) i fr parts =
     (if ch = 0x2e then
        (case parse_u32 (take (i - fr) (drop fr s)) of
           Some num \<Rightarrow> version_loop s chs (i + 1) (i + 1) (parts @ [num])
         | None \<Rightarrow> parts)
      else if is_digit ch then
        (if chs = [] then (case parse_u32 (drop fr s) of Some num \<Rightarrow> parts @ [num] | None \<Rightarrow> parts)
         else version_loop s chs (i + 1) fr parts)
      else (case parse_u32 (take (i - fr) (drop fr s)) of Some num \<Rightarrow> parts @ [num] | None \<Rightarrow> parts))"

definition parse_server_version :: "bytes \<Rightarrow> u32 option" where
  "parse_server_version s =
     (case version_loop s s 0 0 [] of
        [major, minor, rv] \<Rightarrow> Some ((100 * major + minor) * 100 + rv)
      | [major, minor] \<Rightarrow> Some (if 10 \<le> major then 100 * 100 * major + minor else (100 * major + minor) * 100)
      | [major] \<Rightarrow> Some (100 * 100 * major)
      | _ \<Rightarrow> None)"

definition pg_database_error :: "notice \<Rightarrow> error res" where
  "pg_database_error n = rbind (notice_code n) (\<lambda>c. rbind (notice_message n) (\<lambda>m. Ok (Server_Error (c @ lit '':'' @ m))))"

text \<open>One round of \<open>recv\<close>: the message to return, or \<open>None\<close> to continue.\<close>

definition pg_handle :: "crates \<Rightarrow> pg_crates \<Rightarrow> pg_message \<Rightarrow> ('s pg_stream, pg_message option) aop" where
  "pg_handle C B m =
     (if msg_format m = MF_ErrorResponse then
        abind (aopt (notice_decode C (msg_contents m))) (\<lambda>n.
        abind (alift (pg_database_error n)) (\<lambda>e. alift (Err e)))
      else if msg_format m = MF_NotificationResponse then
        abind (aget pg_notifications) (\<lambda>buffer.
        case buffer of
          None \<Rightarrow> aret (Some m)
        | Some q \<Rightarrow>
            abind (alift (notification_decode C B (msg_contents m))) (\<lambda>n.
            athen (amodify (\<lambda>s. s\<lparr>pg_notifications := Some (q @ [n])\<rparr>)) (aret None)))
      else if msg_format m = MF_ParameterStatus then
        abind (alift (parameter_status_decode C (msg_contents m))) (\<lambda>(name, v).
        athen (amodify (\<lambda>s. if name = lit ''server_version'' then s\<lparr>pg_server_version_num := parse_server_version v\<rparr>
                            else s\<lparr>pg_parameter_statuses := (pg_parameter_statuses s)(name \<mapsto> v)\<rparr>)) (aret None))
      else if msg_format m = MF_NoticeResponse then
        abind (aopt (notice_decode C (msg_contents m))) (\<lambda>n. aret None)
      else aret (Some m))"

partial_function (option) pg_recv ::
    "crates \<Rightarrow> pg_crates \<Rightarrow> 's net \<Rightarrow> 's pg_stream \<Rightarrow> (pg_message res \<times> 's pg_stream) option" where
  "pg_recv C B N s =
     abind (abind (pg_recv_unchecked C B N) (pg_handle C B)) (\<lambda>r.
     case r of None \<Rightarrow> pg_recv C B N | Some m \<Rightarrow> aret m) s"

definition pg_recv_expect ::
    "crates \<Rightarrow> pg_crates \<Rightarrow> 's net \<Rightarrow> message_format \<Rightarrow> (bytes \<Rightarrow> 'a res) \<Rightarrow> ('s pg_stream, 'a) aop" where
  "pg_recv_expect C B N format decode =
     abind (pg_recv C B N) (\<lambda>m.
     if msg_format m \<noteq> format then alift (Err (Protocol ''expecting another message'' []))
     else alift (decode (msg_contents m)))"

section \<open>Messages on a network that works\<close>

text \<open>What the server has still to say, and what receiving leaves alone.\<close>

definition pg_inp :: "('s \<Rightarrow> bytes) \<Rightarrow> 's pg_stream \<Rightarrow> bytes \<Rightarrow> bool" where
  "pg_inp pending s w = (rbuf (pg_inner s) = [] \<and> pending (stream (pg_inner s)) = w)"

definition pg_out :: "('s \<Rightarrow> bytes) \<Rightarrow> 's pg_stream \<Rightarrow> bytes \<times> bytes" where
  "pg_out sent s = (wbuf (pg_inner s), sent (stream (pg_inner s)))"

text \<open>A backend message as the server sends it.\<close>

definition msg_tag :: "message_format \<Rightarrow> u8" where
  "msg_tag f = tag (fst (hd (filter (\<lambda>p. snd p = f) format_table)))"

definition msg_wire :: "pg_message \<Rightarrow> bytes" where
  "msg_wire m = pg_frame (msg_tag (msg_format m)) (msg_contents m)"

definition msgs_wire :: "pg_message list \<Rightarrow> bytes" where
  "msgs_wire ms = concat (map msg_wire ms)"

lemma msgs_wire_simps [simp]:
  "msgs_wire [] = []" "msgs_wire (m # ms) = msg_wire m @ msgs_wire ms" "msgs_wire (ms @ ns) = msgs_wire ms @ msgs_wire ns"
  by (simp_all add: msgs_wire_def)

definition msg_fits :: "pg_message \<Rightarrow> bool" where
  "msg_fits m = frame_fits (msg_contents m)"

text \<open>
  Messages that \<open>recv\<close> deals with on the way, messages it hands over, and messages it reports as an error; what it
  does with a notification depends on whether somebody listens.
\<close>

definition absorbed :: "crates \<Rightarrow> pg_crates \<Rightarrow> bool \<Rightarrow> pg_message \<Rightarrow> bool" where
  "absorbed C B listening m =
     (msg_fits m \<and>
      (case msg_format m of
         MF_NoticeResponse \<Rightarrow> (\<exists>n. notice_decode C (msg_contents m) = Some (Ok n))
       | MF_ParameterStatus \<Rightarrow> (\<exists>p. parameter_status_decode C (msg_contents m) = Ok p)
       | MF_NotificationResponse \<Rightarrow> listening \<and> (\<exists>n. notification_decode C B (msg_contents m) = Ok n)
       | _ \<Rightarrow> False))"

definition delivered :: "bool \<Rightarrow> pg_message \<Rightarrow> bool" where
  "delivered listening m =
     (msg_fits m \<and> msg_format m \<notin> {MF_ErrorResponse, MF_NoticeResponse, MF_ParameterStatus} \<and>
      (msg_format m = MF_NotificationResponse \<longrightarrow> \<not> listening))"

definition fails_with :: "crates \<Rightarrow> pg_message \<Rightarrow> error \<Rightarrow> bool" where
  "fails_with C m e =
     (msg_fits m \<and> msg_format m = MF_ErrorResponse \<and>
      (\<exists>n. notice_decode C (msg_contents m) = Some (Ok n) \<and> pg_database_error n = Ok e))"

definition listening :: "'s pg_stream \<Rightarrow> bool" where
  "listening s = (pg_notifications s \<noteq> None)"

lemma try_from_msg_tag: "try_from_u8 (msg_tag f) = Ok f"
  by (induction f) code_simp+

locale pg_net = healthy_net N pending C sent + pg_crate_laws C B
  for N :: "'s net" and pending :: "'s \<Rightarrow> bytes" and C :: crates and sent :: "'s \<Rightarrow> bytes" and B :: pg_crates
begin

lemma pg_read_inp:
  assumes "pg_inp pending s (x @ w)" and "length x = n"
  shows "\<exists>s'. pg_read C N n s = Some (Ok x, s') \<and> pg_inp pending s' w \<and> pg_out sent s' = pg_out sent s \<and>
    pg_notifications s' = pg_notifications s"
proof -
  have "rbuf (pg_inner s) = []" "pending (stream (pg_inner s)) = x @ w" using assms(1) by (simp_all add: pg_inp_def)
  from read_delivers [OF this assms(2)] show ?thesis by (auto simp: pg_read_def pg_inp_def pg_out_def)
qed

lemma pg_recv_unchecked_inp:
  assumes "pg_inp pending s (msg_wire m @ w)" and "msg_fits m"
  shows "\<exists>s'. pg_recv_unchecked C B N s = Some (Ok m, s') \<and> pg_inp pending s' w \<and> pg_out sent s' = pg_out sent s \<and>
    pg_notifications s' = pg_notifications s"
proof -
  let ?len = "of_nat (length (msg_contents m) + 4) :: u32" and ?b = "msg_tag (msg_format m)"
  have "pg_inp pending s ((?b # to_be ?len) @ msg_contents m @ w)" using assms(1) by (simp add: msg_wire_def pg_frame_def)
  from pg_read_inp [OF this, of 5] obtain s1 where
    s1: "pg_read C N 5 s = Some (Ok (?b # to_be ?len), s1)" "pg_inp pending s1 (msg_contents m @ w)"
      "pg_out sent s1 = pg_out sent s" "pg_notifications s1 = pg_notifications s" by auto
  have u: "unat (?len - 4) = length (msg_contents m)"
    using assms(2) unat_of_nat_u32 [of "length (msg_contents m)"] by (simp add: msg_fits_def frame_fits_def)
  from pg_read_inp [OF s1(2) refl] obtain s2 where
    "pg_read C N (length (msg_contents m)) s1 = Some (Ok (msg_contents m), s2)" "pg_inp pending s2 w"
    "pg_out sent s2 = pg_out sent s1" "pg_notifications s2 = pg_notifications s1" by blast
  moreover have "get_u32 B (to_be ?len) = Ok (?len, [])" using get_u32_app [of ?len "[]"] by simp
  ultimately show ?thesis using s1 u
    by (simp add: pg_recv_unchecked_def aop_run try_from_msg_tag del: of_nat_add)
qed

lemma pg_handle_absorbed:
  assumes "absorbed C B (listening s) m"
  shows "\<exists>s'. pg_handle C B m s = Some (Ok None, s') \<and> pg_inner s' = pg_inner s \<and> listening s' = listening s"
  using assms
  by (auto simp: absorbed_def pg_handle_def aop_run listening_def athen_def split: message_format.splits option.splits)

lemma pg_handle_delivered:
  assumes "delivered (listening s) m"
  shows "pg_handle C B m s = Some (Ok (Some m), s)"
  using assms by (auto simp: delivered_def pg_handle_def aop_run listening_def abind_def split: option.splits)

lemma pg_handle_fails:
  assumes "fails_with C m e"
  shows "pg_handle C B m s = Some (Err e, s)"
  using assms by (auto simp: fails_with_def pg_handle_def aop_run)

lemma pg_recv_skip:
  assumes "list_all (absorbed C B (listening s)) pre" and "pg_inp pending s (msgs_wire pre @ w)"
  shows "\<exists>s'. pg_recv C B N s = pg_recv C B N s' \<and> pg_inp pending s' w \<and> pg_out sent s' = pg_out sent s \<and>
    listening s' = listening s"
  using assms
proof (induction pre arbitrary: s)
  case Nil
  then show ?case by auto
next
  case (Cons m pre)
  then have m: "absorbed C B (listening s) m" "pg_inp pending s (msg_wire m @ msgs_wire pre @ w)" by simp_all
  from pg_recv_unchecked_inp [OF m(2)] m(1) obtain s1 where
    s1: "pg_recv_unchecked C B N s = Some (Ok m, s1)" "pg_inp pending s1 (msgs_wire pre @ w)" "pg_out sent s1 = pg_out sent s"
      "listening s1 = listening s" by (auto simp: absorbed_def listening_def)
  from pg_handle_absorbed [of s1 m] m(1) s1(4) obtain s2 where
    s2: "pg_handle C B m s1 = Some (Ok None, s2)" "pg_inner s2 = pg_inner s1" "listening s2 = listening s1" by auto
  have "pg_recv C B N s = pg_recv C B N s2"
    by (subst pg_recv.simps) (simp add: abind_assoc abind_Ok s1(1) s2(1))
  moreover have "pg_inp pending s2 (msgs_wire pre @ w)" "pg_out sent s2 = pg_out sent s"
    using s1 s2 by (simp_all add: pg_inp_def pg_out_def)
  ultimately show ?case using Cons.IH [of s2] Cons.prems(1) s1(4) s2(3) by auto
qed

lemma pg_recv_now:
  assumes "pg_inp pending s (msg_wire m @ w)"
  shows "delivered (listening s) m \<Longrightarrow>
      \<exists>s'. pg_recv C B N s = Some (Ok m, s') \<and> pg_inp pending s' w \<and> pg_out sent s' = pg_out sent s \<and> listening s' = listening s"
    and "fails_with C m e \<Longrightarrow>
      \<exists>s'. pg_recv C B N s = Some (Err e, s') \<and> pg_inp pending s' w \<and> pg_out sent s' = pg_out sent s \<and> listening s' = listening s"
proof -
  assume d: "delivered (listening s) m"
  from pg_recv_unchecked_inp [OF assms] d obtain s1 where
    s1: "pg_recv_unchecked C B N s = Some (Ok m, s1)" "pg_inp pending s1 w" "pg_out sent s1 = pg_out sent s"
      "listening s1 = listening s" by (auto simp: delivered_def listening_def)
  have "pg_recv C B N s = Some (Ok m, s1)"
    using d s1(4) by (subst pg_recv.simps) (simp add: abind_assoc abind_Ok s1(1) pg_handle_delivered aret_run)
  with s1 show "\<exists>s'. pg_recv C B N s = Some (Ok m, s') \<and> pg_inp pending s' w \<and> pg_out sent s' = pg_out sent s \<and>
    listening s' = listening s" by blast
next
  assume f: "fails_with C m e"
  from pg_recv_unchecked_inp [OF assms] f obtain s1 where
    s1: "pg_recv_unchecked C B N s = Some (Ok m, s1)" "pg_inp pending s1 w" "pg_out sent s1 = pg_out sent s"
      "listening s1 = listening s" by (auto simp: fails_with_def listening_def)
  have "pg_recv C B N s = Some (Err e, s1)"
    by (subst pg_recv.simps) (simp add: abind_assoc abind_Ok s1(1) abind_Err pg_handle_fails [OF f])
  with s1 show "\<exists>s'. pg_recv C B N s = Some (Err e, s') \<and> pg_inp pending s' w \<and> pg_out sent s' = pg_out sent s \<and>
    listening s' = listening s" by blast
qed

text \<open>The next message that is handed over, and the next error, behind any number of notices.\<close>

lemma pg_recv_inp:
  assumes "list_all (absorbed C B (listening s)) pre" and "delivered (listening s) m"
    and "pg_inp pending s (msgs_wire (pre @ [m]) @ w)"
  shows "\<exists>s'. pg_recv C B N s = Some (Ok m, s') \<and> pg_inp pending s' w \<and> pg_out sent s' = pg_out sent s \<and> listening s' = listening s"
proof -
  from pg_recv_skip [OF assms(1), of "msg_wire m @ w"] assms(3) obtain s1 where
    s1: "pg_recv C B N s = pg_recv C B N s1" "pg_inp pending s1 (msg_wire m @ w)" "pg_out sent s1 = pg_out sent s"
      "listening s1 = listening s" by auto
  with pg_recv_now(1) [OF s1(2)] assms(2) show ?thesis by auto
qed

lemma pg_recv_error:
  assumes "list_all (absorbed C B (listening s)) pre" and "fails_with C m e"
    and "pg_inp pending s (msgs_wire (pre @ [m]) @ w)"
  shows "\<exists>s'. pg_recv C B N s = Some (Err e, s') \<and> pg_inp pending s' w \<and> pg_out sent s' = pg_out sent s \<and> listening s' = listening s"
proof -
  from pg_recv_skip [OF assms(1), of "msg_wire m @ w"] assms(3) obtain s1 where
    s1: "pg_recv C B N s = pg_recv C B N s1" "pg_inp pending s1 (msg_wire m @ w)" "pg_out sent s1 = pg_out sent s"
      "listening s1 = listening s" by auto
  with pg_recv_now(2) [OF s1(2) assms(2)] show ?thesis by auto
qed

lemma pg_flush_inp:
  "\<exists>s'. pg_flush N s = Some (Ok (), s') \<and> pg_inp pending s' = pg_inp pending s \<and> listening s' = listening s \<and>
    pg_out sent s' = ([], snd (pg_out sent s) @ fst (pg_out sent s))"
proof -
  from flush_sends [of "stream (pg_inner s)" "wbuf (pg_inner s)"] obtain t where
    "net_flush N (stream (pg_inner s)) (wbuf (pg_inner s)) = (Ok (), t)"
    "sent t = sent (stream (pg_inner s)) @ wbuf (pg_inner s)" "pending t = pending (stream (pg_inner s))" by blast
  then show ?thesis
    by (simp add: pg_flush_def write_and_flush_drop_def pg_inp_def pg_out_def fun_eq_iff listening_def)
qed

end

lemma pg_write_run:
  "\<exists>s'. pg_write enc s = Some (Ok (), s') \<and> pg_inp pending s' = pg_inp pending s \<and> listening s' = listening s \<and>
    pg_out sent s' = (enc (fst (pg_out sent s)), snd (pg_out sent s))"
  by (simp add: pg_write_def amodify_def write_with_def pg_inp_def pg_out_def listening_def fun_eq_iff)

text \<open>The scripted network.\<close>

interpretation script_pg: pg_net script_net script_pending std_crates script_out std_pg_crates ..

end
