(* ===== verification/Pg_Conn.thy ===== *)
theory Pg_Conn
  imports Pg_Stream Pg_Args Stmt_Cache Db_Traits Exchange
begin

text \<open>
  A PostgreSQL connection (\<open>rbdc-pg/src/connection/mod.rs\<close>, \<open>executor.rs\<close>, \<open>describe.rs\<close>, \<open>row.rs\<close>, \<open>statement.rs\<close>,
  \<open>query.rs\<close>, \<open>query_result.rs\<close>, \<open>meta_data.rs\<close>, \<open>column.rs\<close>).  Looking up a type the driver does not know runs queries
  on the same connection, and running a query looks up types: what calls itself in this way goes through the record
  \<open>pg_rec\<close>, and \<open>pg_rec_at\<close> ties the knot for a given depth of nested lookups.  The streams of \<open>run\<close> and
  \<open>fetch_many\<close> are generators; what follows a \<open>yield\<close> happens when the stream is polled again.
\<close>

section \<open>Rows and statements\<close>

record pg_column =
  pcol_ordinal :: nat
  pcol_name :: bytes
  pcol_type_info :: pg_type
  pcol_relation_id :: "u32 option"
  pcol_relation_attribute_no :: "u16 option"

record pg_metadata =
  pm_columns :: "pg_column list"
  pm_column_names :: "(bytes \<times> nat) list"
  pm_parameters :: "pg_type list"

definition pg_metadata_default :: pg_metadata where
  "pg_metadata_default = \<lparr>pm_columns = [], pm_column_names = [], pm_parameters = []\<rparr>"

record pg_statement =
  ps_sql :: bytes
  ps_metadata :: pg_metadata

text \<open>The map of the names as the list of its entries; an entry of the same name is replaced.\<close>

fun name_put :: "bytes \<Rightarrow> nat \<Rightarrow> (bytes \<times> nat) list \<Rightarrow> (bytes \<times> nat) list" where
  "name_put k v [] = [(k, v)]"
| "name_put k v ((k', v') # m) = (if k' = k then (k, v) # m else (k', v') # name_put k v m)"

definition pg_index :: "pg_metadata \<Rightarrow> bytes \<Rightarrow> nat res" where
  "pg_index md name =
     (case map_of (pm_column_names md) name of Some i \<Rightarrow> Ok i | None \<Rightarrow> Err (Message ''ColumnNotFound''))"

record pg_row =
  pr_data :: row
  pr_format :: pg_value_format
  pr_metadata :: pg_metadata
  pr_timezone_sec :: "int option"

definition pg_try_take :: "pg_row \<Rightarrow> nat \<Rightarrow> (pg_value \<times> pg_row) res" where
  "pg_try_take r i =
     (if length (pm_column_names (pr_metadata r)) < i + 1 then Err (Message ''ColumnNotFound'')
      else if length (pm_columns (pr_metadata r)) \<le> i then Panic
      else
        rbind (data_row_take (pr_data r) i) (\<lambda>(v, data).
        Ok (\<lparr>pv_value = v, pv_type_info = pcol_type_info (pm_columns (pr_metadata r) ! i), pv_format = pr_format r,
             pv_timezone_sec = pr_timezone_sec r\<rparr>, r\<lparr>pr_data := data\<rparr>)))"

definition pg_try_get_raw :: "pg_row \<Rightarrow> bytes \<Rightarrow> pg_value res" where
  "pg_try_get_raw r name =
     rbind (pg_index (pr_metadata r) name) (\<lambda>i.
     if length (pm_columns (pr_metadata r)) \<le> i then Panic
     else
       rbind (data_row_get (pr_data r) i) (\<lambda>v.
       Ok \<lparr>pv_value = v, pv_type_info = pcol_type_info (pm_columns (pr_metadata r) ! i), pv_format = pr_format r,
           pv_timezone_sec = pr_timezone_sec r\<rparr>))"

definition pg_row_get :: "pg_crates \<Rightarrow> ('dt, 'd, 'i) pg_kit \<Rightarrow> pg_row \<Rightarrow> nat \<Rightarrow> (dyn_value \<times> pg_row) res" where
  "pg_row_get B K r i =
     (case pg_try_take r i of
        Err e \<Rightarrow> Err (Message ''get error'')
      | Panic \<Rightarrow> Panic
      | Ok (v, r) \<Rightarrow> rbind (pg_value_decode B K v) (\<lambda>x. Ok (x, r)))"

definition pg_column_len :: "pg_metadata \<Rightarrow> nat" where
  "pg_column_len md = length (pm_columns md)"

definition pg_column_name :: "pg_metadata \<Rightarrow> nat \<Rightarrow> bytes" where
  "pg_column_name md i =
     (case find (\<lambda>p. snd p = i) (pm_column_names md) of Some (s, _) \<Rightarrow> s | None \<Rightarrow> [])"

definition pg_column_type :: "pg_metadata \<Rightarrow> nat \<Rightarrow> bytes res" where
  "pg_column_type md i = (if i < length (pm_columns md) then Ok (pcol_name (pm_columns md ! i)) else Panic)"

definition pg_row_trait :: "pg_crates \<Rightarrow> ('dt, 'd, 'i) pg_kit \<Rightarrow> (pg_row, pg_metadata) row_trait" where
  "pg_row_trait B K = \<lparr>r_meta_data = pr_metadata, r_get = pg_row_get B K, md_column_len = pg_column_len,
     md_column_name = pg_column_name\<rparr>"

record pg_query =
  pq_statement :: "bytes + pg_statement"
  pq_arguments :: "dyn_value list"
  pq_persistent :: bool

definition pg_query_sql :: "pg_query \<Rightarrow> bytes" where
  "pg_query_sql q = (case pq_statement q of Inr s \<Rightarrow> ps_sql s | Inl sql \<Rightarrow> sql)"

definition pg_query_statement :: "pg_query \<Rightarrow> pg_statement option" where
  "pg_query_statement q = (case pq_statement q of Inr s \<Rightarrow> Some s | Inl _ \<Rightarrow> None)"

definition pg_take_arguments :: "('dt, 'd, 'i) pg_kit \<Rightarrow> pg_query \<Rightarrow> int option \<Rightarrow> pg_arguments option res" where
  "pg_take_arguments K q tz =
     (if pq_arguments q = [] then Ok None else rbind (pg_from_args K (pq_arguments q) tz) (\<lambda>a. Ok (Some a)))"

section \<open>The connection\<close>

record ('s, 'c) pg_conn =
  pc_stream :: "'s pg_stream"
  pc_process_id :: u32
  pc_secret_key :: u32
  pc_next_statement_id :: u32
  pc_cache_statement :: 'c
  pc_cache_type_info :: "u32 \<rightharpoonup> pg_type"
  pc_cache_type_oid :: "bytes \<rightharpoonup> u32"
  pc_pending :: u64
  pc_transaction_status :: transaction_status
  pc_timezone_sec :: "int option"

text \<open>A row of \<open>pg_type\<close>, and what the \<open>rbs\<close> crate makes of the answers to the catalogue queries.\<close>

record pg_type_row =
  typname :: bytes
  typtype :: bytes
  typcategory :: bytes
  typrelid :: u32
  typelem :: u32
  typbasetype :: u32

record ('s, 'c, 'dt, 'd, 'i) pg_env =
  e_C :: crates
  e_B :: pg_crates
  e_N :: "'s net"
  e_L :: "('c, u32 \<times> pg_metadata) lru_ops"
  e_K :: "('dt, 'd, 'i) pg_kit"
  e_ins :: map_insert
  de_types :: "dyn_value \<Rightarrow> pg_type_row list res"
  de_oids :: "dyn_value \<Rightarrow> u32 list res"
  de_subtypes :: "dyn_value \<Rightarrow> u32 list res"
  de_labels :: "dyn_value \<Rightarrow> bytes list res"
  de_attributes :: "dyn_value \<Rightarrow> (bytes \<times> u32) list res"

record ('s, 'c) pg_rec =
  rec_type_info :: "u32 \<Rightarrow> bool \<Rightarrow> (('s, 'c) pg_conn, pg_type) aop"
  rec_values :: "bytes \<Rightarrow> dyn_value list \<Rightarrow> (('s, 'c) pg_conn, dyn_value) aop"

definition on_pg :: "('s pg_stream, 'a) aop \<Rightarrow> (('s, 'c) pg_conn, 'a) aop" where
  "on_pg m c = map_option (\<lambda>(r, s). (r, c\<lparr>pc_stream := s\<rparr>)) (m (pc_stream c))"

section \<open>Readiness\<close>

text \<open>The counter is a \<open>usize\<close>.\<close>

definition handle_ready_for_query :: "pg_message \<Rightarrow> (('s, 'c) pg_conn, unit) aop" where
  "handle_ready_for_query m =
     athen (amodify (\<lambda>c. c\<lparr>pc_pending := pc_pending c - 1\<rparr>))
     (abind (alift (ready_for_query_decode (msg_contents m))) (\<lambda>st.
      amodify (\<lambda>c. c\<lparr>pc_transaction_status := st\<rparr>)))"

partial_function (option) ready_loop ::
    "('s, 'c, 'dt, 'd, 'i) pg_env \<Rightarrow> ('s, 'c) pg_conn \<Rightarrow> (unit res \<times> ('s, 'c) pg_conn) option" where
  "ready_loop E c =
     (if 0 < pc_pending c then
        athen (abind (on_pg (pg_recv (e_C E) (e_B E) (e_N E))) (\<lambda>m.
               if msg_format m = MF_ReadyForQuery then handle_ready_for_query m else aret ()))
        (ready_loop E)
      else aret ()) c"

definition pg_wait_until_ready :: "('s, 'c, 'dt, 'd, 'i) pg_env \<Rightarrow> (('s, 'c) pg_conn, unit) aop" where
  "pg_wait_until_ready E =
     athen (abind (aget (\<lambda>c. wbuf (pg_inner (pc_stream c)))) (\<lambda>w. if w \<noteq> [] then on_pg (pg_flush (e_N E)) else aret ()))
     (ready_loop E)"

definition recv_ready_for_query :: "('s, 'c, 'dt, 'd, 'i) pg_env \<Rightarrow> (('s, 'c) pg_conn, unit) aop" where
  "recv_ready_for_query E =
     abind (on_pg (pg_recv_expect (e_C E) (e_B E) (e_N E) MF_ReadyForQuery ready_for_query_decode)) (\<lambda>st.
     amodify (\<lambda>c. c\<lparr>pc_pending := pc_pending c - 1, pc_transaction_status := st\<rparr>))"

definition queue_simple_query :: "bytes \<Rightarrow> (('s, 'c) pg_conn, unit) aop" where
  "queue_simple_query query =
     athen (amodify (\<lambda>c. c\<lparr>pc_pending := pc_pending c + 1\<rparr>)) (on_pg (pg_write (pg_query_encode query)))"

definition write_sync :: "(('s, 'c) pg_conn, unit) aop" where
  "write_sync = athen (on_pg (pg_write sync_encode)) (amodify (\<lambda>c. c\<lparr>pc_pending := pc_pending c + 1\<rparr>))"

partial_function (option) wait_for_close_complete ::
    "('s, 'c, 'dt, 'd, 'i) pg_env \<Rightarrow> nat \<Rightarrow> ('s, 'c) pg_conn \<Rightarrow> (unit res \<times> ('s, 'c) pg_conn) option" where
  "wait_for_close_complete E n c =
     (if 0 < n then
        abind (on_pg (pg_recv (e_C E) (e_B E) (e_N E))) (\<lambda>m.
        if msg_format m = MF_PortalSuspended then wait_for_close_complete E n
        else if msg_format m = MF_CloseComplete then wait_for_close_complete E (n - 1)
        else alift (Err (Protocol ''expecting PortalSuspended or CloseComplete'' [])))
      else aret ()) c"

section \<open>Types\<close>

text \<open>The columns of a row description, numbered in order, and the map of their names.\<close>

fun describe_columns ::
    "('s, 'c) pg_rec \<Rightarrow> bool \<Rightarrow> nat \<Rightarrow> field list \<Rightarrow> (('s, 'c) pg_conn, pg_column list) aop" where
  "describe_columns R should_fetch i [] = aret []"
| "describe_columns R should_fetch i (f # fs) =
     abind (rec_type_info R (f_data_type_id f) should_fetch) (\<lambda>ty.
     abind (describe_columns R should_fetch (i + 1) fs) (\<lambda>cols.
     aret (\<lparr>pcol_ordinal = i, pcol_name = f_name f, pcol_type_info = ty, pcol_relation_id = f_relation_id f,
            pcol_relation_attribute_no = f_relation_attribute_no f\<rparr> # cols)))"

definition pg_names_of :: "pg_column list \<Rightarrow> (bytes \<times> nat) list" where
  "pg_names_of cols = fold (\<lambda>c. name_put (pcol_name c) (pcol_ordinal c)) cols []"

definition handle_row_description ::
    "('s, 'c) pg_rec \<Rightarrow> field list option \<Rightarrow> bool \<Rightarrow> (('s, 'c) pg_conn, pg_column list \<times> (bytes \<times> nat) list) aop" where
  "handle_row_description R desc should_fetch =
     (case desc of
        None \<Rightarrow> aret ([], [])
      | Some fs \<Rightarrow> abind (describe_columns R should_fetch 0 fs) (\<lambda>cols. aret (cols, pg_names_of cols)))"

fun handle_parameter_description :: "('s, 'c) pg_rec \<Rightarrow> u32 list \<Rightarrow> (('s, 'c) pg_conn, pg_type list) aop" where
  "handle_parameter_description R [] = aret []"
| "handle_parameter_description R (ty # tys) =
     abind (rec_type_info R ty True) (\<lambda>t. abind (handle_parameter_description R tys) (\<lambda>ts. aret (t # ts)))"

definition or_type_not_found :: "('st, 'a) aop \<Rightarrow> ('st, 'a) aop" where
  "or_type_not_found m s = map_option (\<lambda>(r, s). (case r of Err _ \<Rightarrow> Err (Message ''TypeNotFound'') | _ \<Rightarrow> r, s)) (m s)"

definition fetch_type_id_by_name ::
    "('s, 'c, 'dt, 'd, 'i) pg_env \<Rightarrow> ('s, 'c) pg_rec \<Rightarrow> bytes \<Rightarrow> (('s, 'c) pg_conn, u32) aop" where
  "fetch_type_id_by_name E R name =
     abind (aget (\<lambda>c. pc_cache_type_oid c name)) (\<lambda>cached.
     case cached of
       Some oid \<Rightarrow> aret oid
     | None \<Rightarrow>
         abind (or_type_not_found (rec_values R (lit ''SELECT oid FROM pg_catalog.pg_type WHERE typname ILIKE $1'') [V_String name])) (\<lambda>rows.
         abind (alift (de_oids E rows)) (\<lambda>vs.
         let oid = (case vs of [] \<Rightarrow> 0 | x # _ \<Rightarrow> x) in
         athen (amodify (\<lambda>c. c\<lparr>pc_cache_type_oid := (pc_cache_type_oid c)(name \<mapsto> oid)\<rparr>)) (aret oid))))"

section \<open>Preparing\<close>

fun param_oids ::
    "('s, 'c, 'dt, 'd, 'i) pg_env \<Rightarrow> ('s, 'c) pg_rec \<Rightarrow> pg_type list \<Rightarrow> (('s, 'c) pg_conn, u32 list) aop" where
  "param_oids E R [] = aret []"
| "param_oids E R (ty # tys) =
     abind (case ty of DeclareWithName name \<Rightarrow> fetch_type_id_by_name E R name | _ \<Rightarrow> alift (type_oid ty)) (\<lambda>oid.
     abind (param_oids E R tys) (\<lambda>oids. aret (oid # oids)))"

definition recv_desc_params :: "('s, 'c, 'dt, 'd, 'i) pg_env \<Rightarrow> (('s, 'c) pg_conn, u32 list) aop" where
  "recv_desc_params E =
     on_pg (pg_recv_expect (e_C E) (e_B E) (e_N E) MF_ParameterDescription (parameter_description_decode (e_B E)))"

definition recv_desc_rows :: "('s, 'c, 'dt, 'd, 'i) pg_env \<Rightarrow> (('s, 'c) pg_conn, field list option) aop" where
  "recv_desc_rows E =
     abind (on_pg (pg_recv (e_C E) (e_B E) (e_N E))) (\<lambda>m.
     if msg_format m = MF_RowDescription then
       abind (alift (row_description_decode (e_C E) (e_B E) (msg_contents m))) (\<lambda>d. aret (Some d))
     else if msg_format m = MF_NoData then aret None
     else alift (Err (Protocol ''expecting RowDescription or NoData'' [])))"

definition pg_prepare ::
    "('s, 'c, 'dt, 'd, 'i) pg_env \<Rightarrow> ('s, 'c) pg_rec \<Rightarrow> bytes \<Rightarrow> pg_type list \<Rightarrow> pg_metadata option \<Rightarrow>
      (('s, 'c) pg_conn, u32 \<times> pg_metadata) aop" where
  "pg_prepare E R sql parameters metadata =
     abind (aget pc_next_statement_id) (\<lambda>i.
     athen (amodify (\<lambda>c. c\<lparr>pc_next_statement_id := pc_next_statement_id c + 1\<rparr>))
     (abind (param_oids E R parameters) (\<lambda>oids.
      athen (pg_wait_until_ready E)
      (athen (on_pg (pg_write_checked (parse_encode (e_B E) i sql oids)))
      (athen (if metadata = None then on_pg (pg_write (describe_encode (e_B E) (Describe_Statement i))) else aret ())
      (athen write_sync
      (athen (on_pg (pg_flush (e_N E)))
      (abind (on_pg (pg_recv_expect (e_C E) (e_B E) (e_N E) MF_ParseComplete (\<lambda>_. Ok ()))) (\<lambda>_.
       case metadata of
         Some md \<Rightarrow> athen (recv_ready_for_query E) (aret (i, md))
       | None \<Rightarrow>
           abind (recv_desc_params E) (\<lambda>params.
           abind (recv_desc_rows E) (\<lambda>rows.
           athen (recv_ready_for_query E)
           (abind (handle_parameter_description R params) (\<lambda>params.
            abind (handle_row_description R rows True) (\<lambda>(cols, names).
            athen (pg_wait_until_ready E)
            (aret (i, \<lparr>pm_columns = cols, pm_column_names = names, pm_parameters = params\<rparr>))))))))))))))))"

definition pg_get_or_prepare ::
    "('s, 'c, 'dt, 'd, 'i) pg_env \<Rightarrow> ('s, 'c) pg_rec \<Rightarrow> bytes \<Rightarrow> pg_type list \<Rightarrow> bool \<Rightarrow> pg_metadata option \<Rightarrow>
      (('s, 'c) pg_conn, u32 \<times> pg_metadata) aop" where
  "pg_get_or_prepare E R sql parameters store_to_cache metadata c =
     (case cache_get_mut (e_L E) (pc_cache_statement c) sql (\<lambda>v. v) of
        (Some st, cache) \<Rightarrow> Some (Ok st, c\<lparr>pc_cache_statement := cache\<rparr>)
      | (None, cache) \<Rightarrow>
          abind (pg_prepare E R sql parameters metadata) (\<lambda>st.
          abind (aget pc_cache_statement) (\<lambda>cache.
          if store_to_cache \<and> cache_is_enabled (e_L E) cache then
            (case cache_insert (e_L E) cache sql st of
               (evicted, cache) \<Rightarrow>
                 athen (amodify (\<lambda>c. c\<lparr>pc_cache_statement := cache\<rparr>))
                 (case evicted of
                    None \<Rightarrow> aret st
                  | Some old \<Rightarrow>
                      athen (on_pg (pg_write (close_encode (e_B E) (Close_Statement (fst old)))))
                      (athen write_sync
                      (athen (on_pg (pg_flush (e_N E)))
                      (athen (wait_for_close_complete E 1)
                      (athen (recv_ready_for_query E) (aret st)))))))
          else aret st))
          (c\<lparr>pc_cache_statement := cache\<rparr>))"

section \<open>Running\<close>

text \<open>Types that were not known when the arguments were encoded are filled in last.\<close>

fun fill_holes ::
    "('s, 'c, 'dt, 'd, 'i) pg_env \<Rightarrow> ('s, 'c) pg_rec \<Rightarrow> (nat \<times> bytes) list \<Rightarrow> bytes \<Rightarrow> (('s, 'c) pg_conn, bytes) aop" where
  "fill_holes E R [] b = aret b"
| "fill_holes E R ((offset, name) # hs) b =
     abind (fetch_type_id_by_name E R name) (\<lambda>oid.
     if length b < offset + 4 then alift Panic
     else fill_holes E R hs (take offset b @ to_be oid @ drop (offset + 4) b))"

definition apply_patches ::
    "('s, 'c, 'dt, 'd, 'i) pg_env \<Rightarrow> ('s, 'c) pg_rec \<Rightarrow> pg_arguments \<Rightarrow> pg_type list \<Rightarrow> (('s, 'c) pg_conn, bytes) aop" where
  "apply_patches E R a parameters =
     abind (alift (run_patches (ab_patches (pa_buffer a)) parameters (ab_buffer (pa_buffer a)))) (\<lambda>b.
     fill_holes E R (ab_type_holes (pa_buffer a)) b)"

type_synonym pg_item = "u64 + pg_row"
type_synonym pg_view = "pg_metadata \<times> pg_value_format"

definition pg_run ::
    "('s, 'c, 'dt, 'd, 'i) pg_env \<Rightarrow> ('s, 'c) pg_rec \<Rightarrow> bytes \<Rightarrow> pg_arguments option \<Rightarrow> u8 \<Rightarrow> bool \<Rightarrow> pg_metadata option \<Rightarrow>
      (('s, 'c) pg_conn, pg_view) aop" where
  "pg_run E R query arguments limit persistent metadata_opt =
     athen (pg_wait_until_ready E)
     (abind (case arguments of
        Some a \<Rightarrow>
          abind (pg_get_or_prepare E R query (pa_types a) persistent metadata_opt) (\<lambda>(statement, metadata).
          abind (apply_patches E R a (pm_parameters metadata)) (\<lambda>params.
          athen (pg_wait_until_ready E)
          (athen (on_pg (pg_write (bind_encode (e_B E) \<lparr>b_portal = None, b_statement = statement, b_formats = [F_Binary],
             b_num_params = of_nat (length (pa_types a)), b_params = params, b_result_formats = [F_Binary]\<rparr>)))
          (athen (on_pg (pg_write (pg_execute_encode (e_B E) None (ucast limit))))
          (athen write_sync (aret (metadata, F_Binary)))))))
      | None \<Rightarrow>
          athen (on_pg (pg_write (pg_query_encode query)))
          (athen (amodify (\<lambda>c. c\<lparr>pc_pending := pc_pending c + 1\<rparr>)) (aret (pg_metadata_default, F_Text)))) (\<lambda>v.
      athen (on_pg (pg_flush (e_N E))) (aret v)))"

text \<open>One message of the stream: \<open>None\<close> to go on, an item to yield, or \<open>Some None\<close> at the end.\<close>

definition pg_run_message ::
    "('s, 'c, 'dt, 'd, 'i) pg_env \<Rightarrow> ('s, 'c) pg_rec \<Rightarrow> pg_view \<Rightarrow> pg_message \<Rightarrow>
      (('s, 'c) pg_conn, pg_view \<times> pg_item option option) aop" where
  "pg_run_message E R v m =
     (case msg_format m of
        MF_BindComplete \<Rightarrow> aret (v, None)
      | MF_ParseComplete \<Rightarrow> aret (v, None)
      | MF_ParameterDescription \<Rightarrow> aret (v, None)
      | MF_NoData \<Rightarrow> aret (v, None)
      | MF_CommandComplete \<Rightarrow> aret (v, Some (Some (Inl (rows_affected (e_B E) (msg_contents m)))))
      | MF_EmptyQueryResponse \<Rightarrow> aret (v, None)
      | MF_RowDescription \<Rightarrow>
          abind (alift (row_description_decode (e_C E) (e_B E) (msg_contents m))) (\<lambda>desc.
          abind (handle_row_description R (Some desc) False) (\<lambda>(cols, names).
          aret ((\<lparr>pm_columns = cols, pm_column_names = names, pm_parameters = []\<rparr>, snd v), None)))
      | MF_DataRow \<Rightarrow>
          abind (alift (data_row_decode (e_B E) (msg_contents m))) (\<lambda>data.
          abind (aget pc_timezone_sec) (\<lambda>tz.
          aret (v, Some (Some (Inr \<lparr>pr_data = data, pr_format = snd v, pr_metadata = fst v, pr_timezone_sec = tz\<rparr>)))))
      | MF_ReadyForQuery \<Rightarrow> athen (handle_ready_for_query m) (aret (v, Some None))
      | _ \<Rightarrow> alift (Err (Protocol ''execute: unexpected message'' [])))"

partial_function (option) pg_run_next ::
    "('s, 'c, 'dt, 'd, 'i) pg_env \<Rightarrow> ('s, 'c) pg_rec \<Rightarrow> pg_view \<Rightarrow> ('s, 'c) pg_conn \<Rightarrow>
      ((pg_item option \<times> pg_view) res \<times> ('s, 'c) pg_conn) option" where
  "pg_run_next E R v c =
     abind (abind (on_pg (pg_recv (e_C E) (e_B E) (e_N E))) (pg_run_message E R v)) (\<lambda>p.
     case snd p of
       None \<Rightarrow> pg_run_next E R (fst p)
     | Some i \<Rightarrow> aret (i, fst p)) c"

datatype pg_many = PM_Init pg_query u8 | PM_Run pg_view

text \<open>\<open>fetch_many\<close> runs without a limit, \<open>fetch_optional\<close> with a limit of one row.\<close>

definition pg_fetch_next ::
    "('s, 'c, 'dt, 'd, 'i) pg_env \<Rightarrow> ('s, 'c) pg_rec \<Rightarrow> pg_many \<Rightarrow> (('s, 'c) pg_conn, pg_item option \<times> pg_many) aop" where
  "pg_fetch_next E R g =
     (case g of
        PM_Init query limit \<Rightarrow>
          abind (aget pc_timezone_sec) (\<lambda>tz.
          abind (alift (pg_take_arguments (e_K E) query tz)) (\<lambda>arguments.
          abind (pg_run E R (pg_query_sql query) arguments limit (pq_persistent query)
            (map_option ps_metadata (pg_query_statement query))) (\<lambda>v.
          abind (pg_run_next E R v) (\<lambda>(i, v). aret (i, PM_Run v)))))
      | PM_Run v \<Rightarrow> abind (pg_run_next E R v) (\<lambda>(i, v). aret (i, PM_Run v)))"

partial_function (option) pg_optional_loop ::
    "('g \<Rightarrow> 'st \<Rightarrow> ((pg_item option \<times> 'g) res \<times> 'st) option) \<Rightarrow> 'g \<Rightarrow> 'st \<Rightarrow> (pg_row option res \<times> 'st) option" where
  "pg_optional_loop step g s =
     abind (step g) (\<lambda>p.
     case fst p of
       None \<Rightarrow> aret None
     | Some i \<Rightarrow> (if isl i then pg_optional_loop step (snd p) else aret (Some (projr i)))) s"

definition pg_fetch_optional ::
    "('s, 'c, 'dt, 'd, 'i) pg_env \<Rightarrow> ('s, 'c) pg_rec \<Rightarrow> pg_query \<Rightarrow> (('s, 'c) pg_conn, pg_row option) aop" where
  "pg_fetch_optional E R query = pg_optional_loop (pg_fetch_next E R) (PM_Init query 1)"

definition pg_prepare_with ::
    "('s, 'c, 'dt, 'd, 'i) pg_env \<Rightarrow> ('s, 'c) pg_rec \<Rightarrow> bytes \<Rightarrow> pg_type list \<Rightarrow> (('s, 'c) pg_conn, pg_statement) aop" where
  "pg_prepare_with E R sql parameters =
     athen (pg_wait_until_ready E)
     (abind (pg_get_or_prepare E R sql parameters True None) (\<lambda>(_, metadata).
      aret \<lparr>ps_sql = sql, ps_metadata = metadata\<rparr>))"

section \<open>The \<open>Connection\<close> trait\<close>

definition pg_open_query ::
    "('s, 'c, 'dt, 'd, 'i) pg_env \<Rightarrow> ('s, 'c) pg_rec \<Rightarrow> bytes \<Rightarrow> dyn_value list \<Rightarrow> (('s, 'c) pg_conn, pg_many) aop" where
  "pg_open_query E R sql params =
     abind (alift (pg_exchange (itoa (e_B E)) sql)) (\<lambda>sql.
     if params = [] then aret (PM_Init \<lparr>pq_statement = Inl sql, pq_arguments = params, pq_persistent = False\<rparr> 0)
     else
       abind (pg_prepare_with E R sql (map pg_value_type params)) (\<lambda>stmt.
       aret (PM_Init \<lparr>pq_statement = Inr stmt, pq_arguments = params, pq_persistent = True\<rparr> 0)))"

definition pg_push_row :: "pg_item \<Rightarrow> pg_row list \<Rightarrow> pg_row list" where
  "pg_push_row i rows = (case i of Inl _ \<Rightarrow> rows | Inr r \<Rightarrow> rows @ [r])"

definition pg_extend_result :: "pg_item \<Rightarrow> u64 \<Rightarrow> u64" where
  "pg_extend_result i acc = (case i of Inl n \<Rightarrow> acc + n | Inr _ \<Rightarrow> acc)"

definition pg_get_rows ::
    "('s, 'c, 'dt, 'd, 'i) pg_env \<Rightarrow> ('s, 'c) pg_rec \<Rightarrow> bytes \<Rightarrow> dyn_value list \<Rightarrow> (('s, 'c) pg_conn, pg_row list) aop" where
  "pg_get_rows E R sql params =
     abind (pg_open_query E R sql params) (\<lambda>many. try_collect (pg_fetch_next E R) pg_push_row [] many)"

definition pg_exec ::
    "('s, 'c, 'dt, 'd, 'i) pg_env \<Rightarrow> ('s, 'c) pg_rec \<Rightarrow> bytes \<Rightarrow> dyn_value list \<Rightarrow> (('s, 'c) pg_conn, exec_result) aop" where
  "pg_exec E R sql params =
     abind (pg_open_query E R sql params) (\<lambda>many.
     abind (try_collect (pg_fetch_next E R) pg_extend_result 0 many) (\<lambda>n.
     aret \<lparr>er_rows_affected = n, er_last_insert_id = V_Null\<rparr>))"

definition pg_ping :: "('s, 'c, 'dt, 'd, 'i) pg_env \<Rightarrow> ('s, 'c) pg_rec \<Rightarrow> (('s, 'c) pg_conn, unit) aop" where
  "pg_ping E R = abind (pg_exec E R (lit ''/* RBDC ping */'') []) (\<lambda>_. aret ())"

definition pg_close :: "'s net \<Rightarrow> (('s, 'c) pg_conn, unit) aop" where
  "pg_close N = athen (on_pg (pg_send N terminate_encode)) (on_pg (pg_shutdown N))"

definition pg_connection ::
    "('s, 'c, 'dt, 'd, 'i) pg_env \<Rightarrow> ('s, 'c) pg_rec \<Rightarrow> (('s, 'c) pg_conn, pg_row) connection" where
  "pg_connection E R = \<lparr>c_get_rows = pg_get_rows E R, c_exec = pg_exec E R, c_ping = pg_ping E R, c_close = pg_close (e_N E)\<rparr>"

definition pg_get_values ::
    "('s, 'c, 'dt, 'd, 'i) pg_env \<Rightarrow> ('s, 'c) pg_rec \<Rightarrow> bytes \<Rightarrow> dyn_value list \<Rightarrow> (('s, 'c) pg_conn, dyn_value) aop" where
  "pg_get_values E R = get_values (pg_row_trait (e_B E) (e_K E)) (e_ins E) (pg_connection E R)"

definition pg_cached_statements_size :: "('c, u32 \<times> pg_metadata) lru_ops \<Rightarrow> ('s, 'c) pg_conn \<Rightarrow> nat" where
  "pg_cached_statements_size L c = cache_len L (pc_cache_statement c)"

partial_function (option) close_loop ::
    "('s, 'c, 'dt, 'd, 'i) pg_env \<Rightarrow> nat \<Rightarrow> ('s, 'c) pg_conn \<Rightarrow> (nat res \<times> ('s, 'c) pg_conn) option" where
  "close_loop E cleared c =
     abind (\<lambda>c. case cache_remove_lru (e_L E) (pc_cache_statement c) of
              (e, cache) \<Rightarrow> Some (Ok e, c\<lparr>pc_cache_statement := cache\<rparr>))
       (\<lambda>e. case e of
          None \<Rightarrow> aret cleared
        | Some st \<Rightarrow>
            athen (on_pg (pg_write (close_encode (e_B E) (Close_Statement (fst st))))) (close_loop E (cleared + 1))) c"

definition pg_clear_cached_statements :: "('s, 'c, 'dt, 'd, 'i) pg_env \<Rightarrow> (('s, 'c) pg_conn, unit) aop" where
  "pg_clear_cached_statements E =
     athen (pg_wait_until_ready E)
     (abind (close_loop E 0) (\<lambda>cleared.
      if 0 < cleared then
        athen write_sync
        (athen (on_pg (pg_flush (e_N E)))
        (athen (wait_for_close_complete E cleared) (recv_ready_for_query E)))
      else aret ()))"

text \<open>What the server reported about itself.\<close>

definition server_version_num :: "('s, 'c) pg_conn \<Rightarrow> u32 option" where
  "server_version_num c = pg_server_version_num (pc_stream c)"

definition parameter_status :: "('s, 'c) pg_conn \<Rightarrow> bytes \<Rightarrow> bytes option" where
  "parameter_status c name = pg_parameter_statuses (pc_stream c) name"

definition client_encoding :: "('s, 'c) pg_conn \<Rightarrow> bytes option" where
  "client_encoding c = pg_parameter_statuses (pc_stream c) (lit ''client_encoding'')"

definition date_style :: "('s, 'c) pg_conn \<Rightarrow> bytes option" where
  "date_style c = pg_parameter_statuses (pc_stream c) (lit ''DateStyle'')"

definition pg_should_flush :: "('s, 'c) pg_conn \<Rightarrow> bool" where
  "pg_should_flush c = (wbuf (pg_inner (pc_stream c)) \<noteq> [])"

end
