(* ===== verification/Pg_Describe.thy ===== *)
theory Pg_Describe
  imports Pg_Conn
begin

text \<open>
  Looking up types in the catalogue of the server (\<open>rbdc-pg/src/connection/describe.rs\<close>).  Every lookup is a query
  through \<open>rec_values\<close>, every type inside a type through \<open>rec_type_info\<close>; \<open>pg_rec_at n\<close> allows \<open>n\<close> nested lookups, and
  a lookup that needs more does not return.
\<close>

section \<open>Kinds of types\<close>

datatype typ_type = Typ_Base | Typ_Composite | Typ_Domain | Typ_Enum | Typ_Pseudo | Typ_Range

definition typ_type_try_from :: "u8 \<Rightarrow> typ_type option" where
  "typ_type_try_from t =
     map_of [(tag CHR ''b'', Typ_Base), (tag CHR ''c'', Typ_Composite), (tag CHR ''d'', Typ_Domain),
       (tag CHR ''e'', Typ_Enum), (tag CHR ''p'', Typ_Pseudo), (tag CHR ''r'', Typ_Range)] t"

datatype typ_category =
    Cat_Array | Cat_Boolean | Cat_Composite | Cat_DateTime | Cat_Enum | Cat_Geometric | Cat_Network | Cat_Numeric
  | Cat_Pseudo | Cat_Range | Cat_String | Cat_Timespan | Cat_User | Cat_BitString | Cat_Unknown

definition typ_category_try_from :: "u8 \<Rightarrow> typ_category option" where
  "typ_category_try_from c =
     map_of [(tag CHR ''A'', Cat_Array), (tag CHR ''B'', Cat_Boolean), (tag CHR ''C'', Cat_Composite),
       (tag CHR ''D'', Cat_DateTime), (tag CHR ''E'', Cat_Enum), (tag CHR ''G'', Cat_Geometric), (tag CHR ''I'', Cat_Network),
       (tag CHR ''N'', Cat_Numeric), (tag CHR ''P'', Cat_Pseudo), (tag CHR ''R'', Cat_Range), (tag CHR ''S'', Cat_String),
       (tag CHR ''T'', Cat_Timespan), (tag CHR ''U'', Cat_User), (tag CHR ''V'', Cat_BitString), (tag CHR ''X'', Cat_Unknown)] c"

text \<open>The lowest eight bits of the first character of a text, zero for the empty text.\<close>

definition first_char_u8 :: "bytes \<Rightarrow> u8" where
  "first_char_u8 s =
     (case s of
        [] \<Rightarrow> 0
      | b # _ \<Rightarrow>
          if b < 0x80 then b
          else let n = char_width b in
            if n \<le> length s \<and> 2 \<le> n then push_bit 6 (s ! (n - 2)) OR (s ! (n - 1) AND 0x3f) else 0)"

section \<open>Lookups\<close>

definition sql_lines :: "string list \<Rightarrow> nat \<Rightarrow> bytes" where
  "sql_lines ls indent = 10 # concat (map (\<lambda>l. lit l @ [10]) ls) @ replicate indent 32"

definition fetch_domain_by_oid ::
    "('s, 'c) pg_rec \<Rightarrow> u32 \<Rightarrow> u32 \<Rightarrow> bytes \<Rightarrow> (('s, 'c) pg_conn, pg_type) aop" where
  "fetch_domain_by_oid R oid base_type name =
     abind (rec_type_info R base_type True) (\<lambda>t. aret (Custom oid name (K_Domain t)))"

definition fetch_range_by_oid ::
    "('s, 'c, 'dt, 'd, 'i) pg_env \<Rightarrow> ('s, 'c) pg_rec \<Rightarrow> u32 \<Rightarrow> bytes \<Rightarrow> (('s, 'c) pg_conn, pg_type) aop" where
  "fetch_range_by_oid E R oid name =
     abind (rec_values R (sql_lines [''SELECT rngsubtype'', ''FROM pg_catalog.pg_range'', ''WHERE rngtypid = $1''] 16) [V_U32 oid]) (\<lambda>rows.
     abind (alift (de_subtypes E rows)) (\<lambda>vs.
     abind (rec_type_info R (case vs of [] \<Rightarrow> 0 | x # _ \<Rightarrow> x) True) (\<lambda>t.
     aret (Custom oid name (K_Range t)))))"

definition fetch_enum_by_oid ::
    "('s, 'c, 'dt, 'd, 'i) pg_env \<Rightarrow> ('s, 'c) pg_rec \<Rightarrow> u32 \<Rightarrow> bytes \<Rightarrow> (('s, 'c) pg_conn, pg_type) aop" where
  "fetch_enum_by_oid E R oid name =
     abind (rec_values R (sql_lines [''SELECT enumlabel'', ''FROM pg_catalog.pg_enum'', ''WHERE enumtypid = $1'',
       ''ORDER BY enumsortorder''] 12) [V_U32 oid]) (\<lambda>rows.
     abind (alift (de_labels E rows)) (\<lambda>labels. aret (Custom oid name (K_Enum labels))))"

fun composite_fields ::
    "('s, 'c) pg_rec \<Rightarrow> (bytes \<times> u32) list \<Rightarrow> (('s, 'c) pg_conn, (bytes \<times> pg_type) list) aop" where
  "composite_fields R [] = aret []"
| "composite_fields R ((attname, atttypid) # vs) =
     abind (rec_type_info R atttypid True) (\<lambda>t. abind (composite_fields R vs) (\<lambda>fs. aret ((attname, t) # fs)))"

definition fetch_composite_by_oid ::
    "('s, 'c, 'dt, 'd, 'i) pg_env \<Rightarrow> ('s, 'c) pg_rec \<Rightarrow> u32 \<Rightarrow> u32 \<Rightarrow> bytes \<Rightarrow> (('s, 'c) pg_conn, pg_type) aop" where
  "fetch_composite_by_oid E R oid relation_id name =
     abind (rec_values R (sql_lines [''SELECT attname, atttypid'', ''FROM pg_catalog.pg_attribute'', ''WHERE attrelid = $1'',
       ''AND NOT attisdropped'', ''AND attnum > 0'', ''ORDER BY attnum''] 16) [V_U32 relation_id]) (\<lambda>rows.
     abind (alift (de_attributes E rows)) (\<lambda>raw_fields.
     abind (composite_fields R raw_fields) (\<lambda>fs. aret (Custom oid name (K_Composite fs)))))"

definition no_type_row :: pg_type_row where
  "no_type_row = \<lparr>typname = [], typtype = [], typcategory = [], typrelid = 0, typelem = 0, typbasetype = 0\<rparr>"

definition fetch_type_by_oid ::
    "('s, 'c, 'dt, 'd, 'i) pg_env \<Rightarrow> ('s, 'c) pg_rec \<Rightarrow> u32 \<Rightarrow> (('s, 'c) pg_conn, pg_type) aop" where
  "fetch_type_by_oid E R oid =
     abind (rec_values R (lit ''SELECT typname, typtype, typcategory, typrelid, typelem, typbasetype FROM pg_catalog.pg_type WHERE oid = $1'')
       [V_U32 oid]) (\<lambda>rows.
     abind (alift (de_types E rows)) (\<lambda>vs.
     let t = (case vs of [] \<Rightarrow> no_type_row | x # _ \<Rightarrow> x) in
     case (typ_type_try_from (first_char_u8 (typtype t)), typ_category_try_from (first_char_u8 (typcategory t))) of
       (Some Typ_Domain, _) \<Rightarrow> fetch_domain_by_oid R oid (typbasetype t) (typname t)
     | (Some Typ_Base, Some Cat_Array) \<Rightarrow>
         abind (rec_type_info R (typelem t) True) (\<lambda>e. aret (Custom oid (typname t) (K_Array e)))
     | (Some Typ_Pseudo, Some Cat_Pseudo) \<Rightarrow> aret (Custom oid (typname t) K_Pseudo)
     | (Some Typ_Range, Some Cat_Range) \<Rightarrow> fetch_range_by_oid E R oid (typname t)
     | (Some Typ_Enum, Some Cat_Enum) \<Rightarrow> fetch_enum_by_oid E R oid (typname t)
     | (Some Typ_Composite, Some Cat_Composite) \<Rightarrow> fetch_composite_by_oid E R oid (typrelid t) (typname t)
     | _ \<Rightarrow> aret (Custom oid (typname t) K_Simple)))"

definition maybe_fetch_type_info_by_oid ::
    "('s, 'c, 'dt, 'd, 'i) pg_env \<Rightarrow> ('s, 'c) pg_rec \<Rightarrow> u32 \<Rightarrow> bool \<Rightarrow> (('s, 'c) pg_conn, pg_type) aop" where
  "maybe_fetch_type_info_by_oid E R oid should_fetch =
     (case try_from_oid oid of
        Some info \<Rightarrow> aret info
      | None \<Rightarrow>
          abind (aget (\<lambda>c. pc_cache_type_info c oid)) (\<lambda>cached.
          case cached of
            Some info \<Rightarrow> aret info
          | None \<Rightarrow>
              if should_fetch then
                abind (fetch_type_by_oid E R oid) (\<lambda>info.
                athen (amodify (\<lambda>c. c\<lparr>pc_cache_type_info := (pc_cache_type_info c)(oid \<mapsto> info),
                  pc_cache_type_oid := (pc_cache_type_oid c)(type_name info \<mapsto> oid)\<rparr>)) (aret info))
              else aret (DeclareWithOid oid)))"

fun pg_rec_at :: "nat \<Rightarrow> ('s, 'c, 'dt, 'd, 'i) pg_env \<Rightarrow> ('s, 'c) pg_rec" where
  "pg_rec_at 0 E = \<lparr>rec_type_info = maybe_fetch_type_info_by_oid E \<lparr>rec_type_info = \<lambda>_ _ _. None, rec_values = \<lambda>_ _ _. None\<rparr>,
     rec_values = \<lambda>_ _ _. None\<rparr>"
| "pg_rec_at (Suc n) E = \<lparr>rec_type_info = maybe_fetch_type_info_by_oid E (pg_rec_at n E),
     rec_values = pg_get_values E (pg_rec_at n E)\<rparr>"

end
