(* ===== verification/Pg_Exec.thy ===== *)
theory Pg_Exec
  imports Pg_Describe
begin

text \<open>
  What running queries on a PostgreSQL connection achieves, on a network that works.  A response is a sequence of
  backend messages; \<open>pg_says\<close> states which summaries and rows it stands for and whether it ends ready or in an error,
  \<open>drains\<close> which messages may still be outstanding from earlier queries.
\<close>

section \<open>What a response says\<close>

text \<open>In the middle of a query types are resolved without asking the server.\<close>

definition resolve :: "(u32 \<rightharpoonup> pg_type) \<Rightarrow> u32 \<Rightarrow> pg_type" where
  "resolve cache oid =
     (case try_from_oid oid of
        Some t \<Rightarrow> t
      | None \<Rightarrow> (case cache oid of Some t \<Rightarrow> t | None \<Rightarrow> DeclareWithOid oid))"

definition column_of :: "(u32 \<Rightarrow> pg_type) \<Rightarrow> nat \<Rightarrow> field \<Rightarrow> pg_column" where
  "column_of ty i f = \<lparr>pcol_ordinal = i, pcol_name = f_name f, pcol_type_info = ty (f_data_type_id f),
     pcol_relation_id = f_relation_id f, pcol_relation_attribute_no = f_relation_attribute_no f\<rparr>"

fun columns_from :: "(u32 \<Rightarrow> pg_type) \<Rightarrow> nat \<Rightarrow> field list \<Rightarrow> pg_column list" where
  "columns_from ty i [] = []"
| "columns_from ty i (f # fs) = column_of ty i f # columns_from ty (i + 1) fs"

definition described :: "(u32 \<Rightarrow> pg_type) \<Rightarrow> field list \<Rightarrow> pg_type list \<Rightarrow> pg_metadata" where
  "described ty fs params = \<lparr>pm_columns = columns_from ty 0 fs, pm_column_names = pg_names_of (columns_from ty 0 fs),
     pm_parameters = params\<rparr>"

definition row_item :: "pg_view \<Rightarrow> int option \<Rightarrow> row \<Rightarrow> pg_item" where
  "row_item v tz data = Inr \<lparr>pr_data = data, pr_format = snd v, pr_metadata = fst v, pr_timezone_sec = tz\<rparr>"

definition harmless :: "message_format \<Rightarrow> bool" where
  "harmless f = (f \<in> {MF_BindComplete, MF_ParseComplete, MF_ParameterDescription, MF_NoData, MF_EmptyQueryResponse})"

text \<open>
  The context: the crates, the types known so far, the time zone of the session and whether somebody listens.  The last
  argument is the error the response ends with, if it does; the server then still owes the rest.
\<close>

record says_ctx =
  sx_C :: crates
  sx_B :: pg_crates
  sx_types :: "u32 \<rightharpoonup> pg_type"
  sx_tz :: "int option"
  sx_listening :: bool

inductive pg_says :: "says_ctx \<Rightarrow> pg_view \<Rightarrow> pg_message list \<Rightarrow> pg_item list \<Rightarrow> error option \<Rightarrow> bool" for X where
  says_ready: "pg_says X v [m] [] None"
    if "delivered (sx_listening X) m" "msg_format m = MF_ReadyForQuery" "ready_for_query_decode (msg_contents m) = Ok st"
| says_error: "pg_says X v [m] [] (Some e)" if "fails_with (sx_C X) m e"
| says_absorbed: "pg_says X v (m # ms) is fin" if "absorbed (sx_C X) (sx_B X) (sx_listening X) m" "pg_says X v ms is fin"
| says_harmless: "pg_says X v (m # ms) is fin"
    if "delivered (sx_listening X) m" "harmless (msg_format m)" "pg_says X v ms is fin"
| says_complete: "pg_says X v (m # ms) (Inl (rows_affected (sx_B X) (msg_contents m)) # is) fin"
    if "delivered (sx_listening X) m" "msg_format m = MF_CommandComplete" "pg_says X v ms is fin"
| says_description: "pg_says X v (m # ms) is fin"
    if "delivered (sx_listening X) m" "msg_format m = MF_RowDescription"
      "row_description_decode (sx_C X) (sx_B X) (msg_contents m) = Ok fs"
      "pg_says X (described (resolve (sx_types X)) fs [], snd v) ms is fin"
| says_row: "pg_says X v (m # ms) (row_item v (sx_tz X) data # is) fin"
    if "delivered (sx_listening X) m" "msg_format m = MF_DataRow" "data_row_decode (sx_B X) (msg_contents m) = Ok data"
      "pg_says X v ms is fin"

text \<open>What may be outstanding when \<open>n\<close> queries have not been answered to the end.\<close>

inductive drains :: "says_ctx \<Rightarrow> nat \<Rightarrow> pg_message list \<Rightarrow> bool" for X where
  drains_Nil: "drains X 0 []"
| drains_absorbed: "drains X (Suc n) (m # ms)" if "absorbed (sx_C X) (sx_B X) (sx_listening X) m" "drains X (Suc n) ms"
| drains_other: "drains X (Suc n) (m # ms)"
    if "delivered (sx_listening X) m" "msg_format m \<noteq> MF_ReadyForQuery" "drains X (Suc n) ms"
| drains_ready: "drains X (Suc n) (m # ms)"
    if "delivered (sx_listening X) m" "msg_format m = MF_ReadyForQuery" "ready_for_query_decode (msg_contents m) = Ok st"
      "drains X n ms"

definition rows_of_items :: "pg_item list \<Rightarrow> pg_row list" where
  "rows_of_items is = map projr (filter (\<lambda>i. \<not> isl i) is)"

definition affected_of_items :: "pg_item list \<Rightarrow> u64" where
  "affected_of_items is = sum_list (map projl (filter isl is))"

lemma fold_pg_push_row: "fold pg_push_row is acc = acc @ rows_of_items is"
  by (induction "is" arbitrary: acc) (auto simp: pg_push_row_def rows_of_items_def split: sum.split)

lemma fold_pg_extend_result: "fold pg_extend_result is acc = acc + affected_of_items is"
  by (induction "is" arbitrary: acc) (auto simp: pg_extend_result_def affected_of_items_def split: sum.split)

section \<open>The connection moves on\<close>

text \<open>What reading and writing leave alone, and the context a connection reads its responses in.\<close>

definition kept :: "('s, 'c) pg_conn \<Rightarrow> u32 \<times> 'c \<times> (u32 \<rightharpoonup> pg_type) \<times> (bytes \<rightharpoonup> u32) \<times> int option \<times> bool" where
  "kept c = (pc_next_statement_id c, pc_cache_statement c, pc_cache_type_info c, pc_cache_type_oid c, pc_timezone_sec c,
     listening (pc_stream c))"

definition conn_ctx :: "('s, 'c, 'dt, 'd, 'i) pg_env \<Rightarrow> ('s, 'c) pg_conn \<Rightarrow> says_ctx" where
  "conn_ctx E c = \<lparr>sx_C = e_C E, sx_B = e_B E, sx_types = pc_cache_type_info c, sx_tz = pc_timezone_sec c,
     sx_listening = listening (pc_stream c)\<rparr>"

text \<open>\<open>moves\<close>: unread input \<open>w\<close>, written and sent bytes \<open>o'\<close>, \<open>p\<close> answers pending.\<close>

definition moves ::
    "('s \<Rightarrow> bytes) \<Rightarrow> ('s \<Rightarrow> bytes) \<Rightarrow> ('s, 'c) pg_conn \<Rightarrow> ('s, 'c) pg_conn \<Rightarrow> bytes \<Rightarrow> bytes \<times> bytes \<Rightarrow> u64 \<Rightarrow> bool" where
  "moves pending sent c c' w o' p =
     (pg_inp pending (pc_stream c') w \<and> pg_out sent (pc_stream c') = o' \<and> pc_pending c' = p \<and> kept c' = kept c)"

lemma kept_ctx: "kept c' = kept c \<Longrightarrow> conn_ctx E c' = conn_ctx E c"
  by (simp add: kept_def conn_ctx_def)

lemma moves_ctx: "moves pending sent c c' w o' p \<Longrightarrow> conn_ctx E c' = conn_ctx E c"
  unfolding moves_def by (blast intro: kept_ctx)

lemma moves_trans: "moves pending sent c c' w o1 p1 \<Longrightarrow> moves pending sent c' c'' w' o2 p2 \<Longrightarrow> moves pending sent c c'' w' o2 p2"
  by (simp add: moves_def)

lemma conn_ctx_sel [simp]:
  "sx_C (conn_ctx E c) = e_C E" "sx_B (conn_ctx E c) = e_B E" "sx_types (conn_ctx E c) = pc_cache_type_info c"
  "sx_tz (conn_ctx E c) = pc_timezone_sec c" "sx_listening (conn_ctx E c) = listening (pc_stream c)"
  by (simp_all add: conn_ctx_def)

lemma on_pg_run [aop_run]: "m (pc_stream c) = Some (r, s) \<Longrightarrow> on_pg m c = Some (r, c\<lparr>pc_stream := s\<rparr>)"
  by (simp add: on_pg_def)

lemma pg_rec_at_local:
  "rec_type_info (pg_rec_at n E) oid False c = Some (Ok (resolve (pc_cache_type_info c) oid), c)"
  by (cases n) (simp_all add: maybe_fetch_type_info_by_oid_def resolve_def aop_run split: option.split)

lemma describe_columns_local:
  assumes "\<And>oid. rec_type_info R oid sf c = Some (Ok (ty oid), c)"
  shows "describe_columns R sf i fs c = Some (Ok (columns_from ty i fs), c)"
  by (induction fs arbitrary: i) (simp_all add: assms aop_run column_of_def)

text \<open>A type lookup that does not touch the connection.\<close>

definition local_types :: "('s, 'c) pg_rec \<Rightarrow> bool" where
  "local_types R = (\<forall>oid c. rec_type_info R oid False c = Some (Ok (resolve (pc_cache_type_info c) oid), c))"

lemma local_types_rec_at: "local_types (pg_rec_at d E)"
  by (simp add: local_types_def pg_rec_at_local)

locale pg_client = pg_net "e_N E" pending "e_C E" sent "e_B E"
  for E :: "('s, 'c, 'dt, 'd, 'i) pg_env" and pending :: "'s \<Rightarrow> bytes" and sent :: "'s \<Rightarrow> bytes"
begin

abbreviation recv :: "('s, 'c) pg_conn \<Rightarrow> (pg_message res \<times> ('s, 'c) pg_conn) option" where
  "recv \<equiv> on_pg (pg_recv (e_C E) (e_B E) (e_N E))"

abbreviation moves_on :: "('s, 'c) pg_conn \<Rightarrow> ('s, 'c) pg_conn \<Rightarrow> bytes \<Rightarrow> bytes \<times> bytes \<Rightarrow> u64 \<Rightarrow> bool" where
  "moves_on \<equiv> moves pending sent"

abbreviation out_of :: "('s, 'c) pg_conn \<Rightarrow> bytes \<times> bytes" where
  "out_of c \<equiv> pg_out sent (pc_stream c)"

abbreviation reads :: "('s, 'c) pg_conn \<Rightarrow> bytes \<Rightarrow> bool" where
  "reads c w \<equiv> pg_inp pending (pc_stream c) w"

lemma recv_skip:
  assumes "absorbed (e_C E) (e_B E) (listening (pc_stream c)) m" and "reads c (msgs_wire (m # ms) @ w)"
  obtains c' where "recv c = recv c'" "moves_on c c' (msgs_wire ms @ w) (out_of c) (pc_pending c)"
proof -
  from pg_recv_skip [of "pc_stream c" "[m]" "msgs_wire ms @ w"] assms obtain s' where
    s': "pg_recv (e_C E) (e_B E) (e_N E) (pc_stream c) = pg_recv (e_C E) (e_B E) (e_N E) s'" "pg_inp pending s' (msgs_wire ms @ w)"
      "pg_out sent s' = pg_out sent (pc_stream c)" "listening s' = listening (pc_stream c)" by auto
  show ?thesis
    by (rule that [of "c\<lparr>pc_stream := s'\<rparr>"]) (use s' in \<open>simp_all add: on_pg_def moves_def kept_def\<close>)
qed

lemma recv_delivered:
  assumes "delivered (listening (pc_stream c)) m" and "reads c (msgs_wire (m # ms) @ w)"
  obtains c' where "recv c = Some (Ok m, c')" "moves_on c c' (msgs_wire ms @ w) (out_of c) (pc_pending c)"
proof -
  from pg_recv_now(1) [of "pc_stream c" m "msgs_wire ms @ w"] assms obtain s' where
    s': "pg_recv (e_C E) (e_B E) (e_N E) (pc_stream c) = Some (Ok m, s')" "pg_inp pending s' (msgs_wire ms @ w)"
      "pg_out sent s' = pg_out sent (pc_stream c)" "listening s' = listening (pc_stream c)" by auto
  show ?thesis
    by (rule that [of "c\<lparr>pc_stream := s'\<rparr>"]) (use s' in \<open>simp_all add: on_pg_run moves_def kept_def\<close>)
qed

lemma recv_failed:
  assumes "fails_with (e_C E) m e" and "reads c (msgs_wire (m # ms) @ w)"
  obtains c' where "recv c = Some (Err e, c')" "moves_on c c' (msgs_wire ms @ w) (out_of c) (pc_pending c)"
proof -
  from pg_recv_now(2) [of "pc_stream c" m "msgs_wire ms @ w" e] assms obtain s' where
    s': "pg_recv (e_C E) (e_B E) (e_N E) (pc_stream c) = Some (Err e, s')" "pg_inp pending s' (msgs_wire ms @ w)"
      "pg_out sent s' = pg_out sent (pc_stream c)" "listening s' = listening (pc_stream c)" by auto
  show ?thesis
    by (rule that [of "c\<lparr>pc_stream := s'\<rparr>"]) (use s' in \<open>simp_all add: on_pg_run moves_def kept_def\<close>)
qed

lemma handle_ready:
  assumes "ready_for_query_decode (msg_contents m) = Ok st"
  shows "handle_ready_for_query m c = Some (Ok (), c\<lparr>pc_pending := pc_pending c - 1, pc_transaction_status := st\<rparr>)"
  using assms by (simp add: handle_ready_for_query_def aop_run)

lemma moves_ready:
  "moves_on c c' w o' p \<Longrightarrow> moves_on c (c'\<lparr>pc_pending := p', pc_transaction_status := st\<rparr>) w o' p'"
  by (simp add: moves_def kept_def)

text \<open>What is outstanding is read to the end.\<close>

lemma ready_loop_more:
  assumes "0 < pc_pending c"
  shows "ready_loop E c =
    athen (abind recv (\<lambda>m. if msg_format m = MF_ReadyForQuery then handle_ready_for_query m else aret ())) (ready_loop E) c"
  using assms by (subst ready_loop.simps) simp

lemma pending_pos: "n < 2 ^ 64 \<Longrightarrow> 0 < n \<Longrightarrow> 0 < (of_nat n :: u64)"
  by (simp add: word_less_nat_alt unat_of_nat)

lemma ready_loop_drains:
  assumes "drains X n ms" and "X = conn_ctx E c" and "reads c (msgs_wire ms @ w)" and "pc_pending c = of_nat n" and "n < 2 ^ 64"
  shows "\<exists>c'. ready_loop E c = Some (Ok (), c') \<and> moves_on c c' w (out_of c) 0"
  using assms
proof (induction n ms arbitrary: c rule: drains.induct)
  case drains_Nil
  then show ?case by (subst ready_loop.simps) (simp add: aret_def moves_def)
next
  case (drains_absorbed m n ms)
  note pos = pending_pos [OF drains_absorbed.prems(4)]
  from recv_skip [of c m ms w] drains_absorbed.hyps drains_absorbed.prems obtain c1 where
    c1: "recv c = recv c1" "moves_on c c1 (msgs_wire ms @ w) (out_of c) (pc_pending c)" by auto
  with drains_absorbed.prems have p: "reads c1 (msgs_wire ms @ w)" "pc_pending c1 = of_nat (Suc n)" "out_of c1 = out_of c"
    by (simp_all add: moves_def)
  from drains_absorbed.IH [of c1] drains_absorbed.prems p moves_ctx [OF c1(2), of E] obtain c' where
    "ready_loop E c1 = Some (Ok (), c')" "moves_on c1 c' w (out_of c) 0" by auto
  moreover have "ready_loop E c = ready_loop E c1"
    using pos c1(1) p(2) drains_absorbed.prems(3) by (simp only: ready_loop_more zero_less_Suc) (simp add: athen_def abind_def)
  ultimately show ?case using moves_trans [OF c1(2)] by auto
next
  case (drains_other m n ms)
  note pos = pending_pos [OF drains_other.prems(4)]
  from recv_delivered [of c m ms w] drains_other.hyps drains_other.prems obtain c1 where
    c1: "recv c = Some (Ok m, c1)" "moves_on c c1 (msgs_wire ms @ w) (out_of c) (pc_pending c)" by auto
  with drains_other.prems have p: "reads c1 (msgs_wire ms @ w)" "pc_pending c1 = of_nat (Suc n)" "out_of c1 = out_of c"
    by (simp_all add: moves_def)
  from drains_other.IH [of c1] drains_other.prems p moves_ctx [OF c1(2), of E] obtain c' where
    "ready_loop E c1 = Some (Ok (), c')" "moves_on c1 c' w (out_of c) 0" by auto
  moreover have "ready_loop E c = ready_loop E c1"
    using pos c1(1) drains_other.prems(3) drains_other.hyps(2)
    by (simp only: ready_loop_more zero_less_Suc) (simp add: athen_Ok abind_Ok aret_run)
  ultimately show ?case using moves_trans [OF c1(2)] by auto
next
  case (drains_ready m st n ms)
  note pos = pending_pos [OF drains_ready.prems(4)]
  from recv_delivered [of c m ms w] drains_ready.hyps drains_ready.prems obtain c1 where
    c1: "recv c = Some (Ok m, c1)" "moves_on c c1 (msgs_wire ms @ w) (out_of c) (pc_pending c)" by auto
  let ?c = "c1\<lparr>pc_pending := pc_pending c1 - 1, pc_transaction_status := st\<rparr>"
  from c1(2) have m: "moves_on c ?c (msgs_wire ms @ w) (out_of c) (of_nat n)"
    using drains_ready.prems(3) by (simp add: moves_def kept_def)
  then have p: "reads ?c (msgs_wire ms @ w)" "pc_pending ?c = of_nat n" "out_of ?c = out_of c" by (simp_all add: moves_def)
  from drains_ready.IH [OF _ p(1,2)] drains_ready.prems moves_ctx [OF m, of E] p(3) obtain c' where
    "ready_loop E ?c = Some (Ok (), c')" "moves_on ?c c' w (out_of c) 0" by auto
  moreover have "ready_loop E c = ready_loop E ?c"
    using pos c1(1) drains_ready.prems(3) drains_ready.hyps(2,3)
    by (simp only: ready_loop_more zero_less_Suc) (simp add: athen_Ok abind_Ok handle_ready)
  ultimately show ?case using moves_trans [OF m] by auto
qed

lemma wait_until_ready_drains:
  assumes "drains (conn_ctx E c) n ms" and "reads c (msgs_wire ms @ w)" and "pc_pending c = of_nat n" and "n < 2 ^ 64"
  shows "\<exists>c'. pg_wait_until_ready E c = Some (Ok (), c') \<and> moves_on c c' w ([], snd (out_of c) @ fst (out_of c)) 0"
proof (cases "wbuf (pg_inner (pc_stream c)) = []")
  case True
  then have "fst (out_of c) = []" by (simp add: pg_out_def)
  with True ready_loop_drains [OF assms(1) refl assms(2-4)] show ?thesis
    by (auto simp: pg_wait_until_ready_def aop_run pg_out_def)
next
  case False
  from pg_flush_inp [of "pc_stream c"] obtain s where
    s: "pg_flush (e_N E) (pc_stream c) = Some (Ok (), s)" "pg_inp pending s = pg_inp pending (pc_stream c)"
      "listening s = listening (pc_stream c)" "pg_out sent s = ([], snd (out_of c) @ fst (out_of c))" by blast
  let ?c = "c\<lparr>pc_stream := s\<rparr>"
  have k: "kept ?c = kept c" using s(3) by (simp add: kept_def)
  from ready_loop_drains [of "conn_ctx E ?c" n ms ?c w] assms s kept_ctx [OF k, of E] obtain c' where
    "ready_loop E ?c = Some (Ok (), c')" "moves_on ?c c' w ([], snd (out_of c) @ fst (out_of c)) 0" by auto
  with False s(1) k show ?thesis by (auto simp: pg_wait_until_ready_def aop_run moves_def)
qed

lemma run_next_skip:
  assumes "recv c = recv c'"
  shows "pg_run_next E R v c = pg_run_next E R v c'"
  by (subst (1 2) pg_run_next.simps) (simp add: abind_def assms)

lemma run_next_message:
  assumes "recv c = Some (Ok m, c1)" and "pg_run_message E R v m c1 = Some (Ok (v', r), c2)"
  shows "pg_run_next E R v c = (case r of None \<Rightarrow> pg_run_next E R v' c2 | Some i \<Rightarrow> Some (Ok (i, v'), c2))"
  using assms by (subst pg_run_next.simps) (simp add: abind_Ok aret_run split: option.split)

lemma run_message_harmless: "harmless (msg_format m) \<Longrightarrow> pg_run_message E R v m c = Some (Ok (v, None), c)"
  by (auto simp: harmless_def pg_run_message_def aret_run)

lemma run_message_description:
  assumes "local_types R" and "msg_format m = MF_RowDescription" and "row_description_decode (e_C E) (e_B E) (msg_contents m) = Ok fs"
  shows "pg_run_message E R v m c = Some (Ok ((described (resolve (pc_cache_type_info c)) fs [], snd v), None), c)"
  using assms describe_columns_local [of R False c "resolve (pc_cache_type_info c)" 0 fs]
  by (simp add: pg_run_message_def aop_run handle_row_description_def described_def local_types_def)

text \<open>Polling the stream: the next item, the end, or the error.\<close>

lemma run_next_says:
  assumes "pg_says X v ms is fin" and "X = conn_ctx E c" and "reads c (msgs_wire ms @ w)" and "local_types R"
  shows "case is of
      [] \<Rightarrow> (case fin of
               None \<Rightarrow> \<exists>c' v'. pg_run_next E R v c = Some (Ok (None, v'), c') \<and> moves_on c c' w (out_of c) (pc_pending c - 1)
             | Some e \<Rightarrow> \<exists>c'. pg_run_next E R v c = Some (Err e, c') \<and> moves_on c c' w (out_of c) (pc_pending c))
    | i # js \<Rightarrow> \<exists>c' v' ms'. pg_run_next E R v c = Some (Ok (Some i, v'), c') \<and> pg_says X v' ms' js fin \<and>
        moves_on c c' (msgs_wire ms' @ w) (out_of c) (pc_pending c)"
  using assms
proof (induction v ms "is" fin arbitrary: c rule: pg_says.induct)
  case (says_ready m st v)
  from recv_delivered [of c m "[]" w] says_ready obtain c1 where
    c1: "recv c = Some (Ok m, c1)" "moves_on c c1 w (out_of c) (pc_pending c)" by auto
  have "pg_run_message E R v m c1 = Some (Ok (v, Some None), c1\<lparr>pc_pending := pc_pending c1 - 1, pc_transaction_status := st\<rparr>)"
    using says_ready by (simp add: pg_run_message_def handle_ready aop_run)
  from run_next_message [OF c1(1) this] c1(2) show ?case by (auto simp: moves_def kept_def)
next
  case (says_error m e v)
  from recv_failed [of m e c "[]" w] says_error obtain c1 where
    c1: "recv c = Some (Err e, c1)" "moves_on c c1 w (out_of c) (pc_pending c)" by auto
  then show ?case by (subst pg_run_next.simps) (auto simp: abind_Err)
next
  case (says_absorbed m v ms "is" fin)
  from recv_skip [of c m ms w] says_absorbed.hyps(1) says_absorbed.prems obtain c1 where
    c1: "recv c = recv c1" "moves_on c c1 (msgs_wire ms @ w) (out_of c) (pc_pending c)" by auto
  note k = c1(2) [unfolded moves_def]
  show ?case using says_absorbed.IH [of c1] k moves_ctx [OF c1(2), of E] says_absorbed.prems run_next_skip [OF c1(1), of R v]
    by (simp add: moves_def split: list.splits option.splits)
next
  case (says_harmless m v ms "is" fin)
  from recv_delivered [of c m ms w] says_harmless.hyps(1) says_harmless.prems obtain c1 where
    c1: "recv c = Some (Ok m, c1)" "moves_on c c1 (msgs_wire ms @ w) (out_of c) (pc_pending c)" by auto
  note k = c1(2) [unfolded moves_def]
  show ?case
    using says_harmless.IH [of c1] k moves_ctx [OF c1(2), of E] says_harmless.prems
      run_next_message [OF c1(1) run_message_harmless [OF says_harmless.hyps(2)], of R v]
    by (simp add: moves_def split: list.splits option.splits)
next
  case (says_complete m v ms "is" fin)
  from recv_delivered [of c m ms w] says_complete.hyps(1) says_complete.prems obtain c1 where
    c1: "recv c = Some (Ok m, c1)" "moves_on c c1 (msgs_wire ms @ w) (out_of c) (pc_pending c)" by auto
  have "pg_run_message E R v m c1 = Some (Ok (v, Some (Some (Inl (rows_affected (e_B E) (msg_contents m))))), c1)"
    using says_complete.hyps(2) by (simp add: pg_run_message_def aret_run)
  from run_next_message [OF c1(1) this] c1(2) says_complete show ?case by auto
next
  case (says_description m fs v ms "is" fin)
  from recv_delivered [of c m ms w] says_description.hyps(1) says_description.prems obtain c1 where
    c1: "recv c = Some (Ok m, c1)" "moves_on c c1 (msgs_wire ms @ w) (out_of c) (pc_pending c)" by auto
  note k = c1(2) [unfolded moves_def]
  have "pc_cache_type_info c1 = pc_cache_type_info c" using k by (simp add: kept_def)
  then show ?case
    using says_description.IH [of c1] k moves_ctx [OF c1(2), of E] says_description.prems
      run_next_message [OF c1(1) run_message_description [OF says_description.prems(3) says_description.hyps(2)], of fs v]
      says_description.hyps(3)
    by (simp add: moves_def split: list.splits option.splits)
next
  case (says_row m data v ms "is" fin)
  from recv_delivered [of c m ms w] says_row.hyps(1) says_row.prems obtain c1 where
    c1: "recv c = Some (Ok m, c1)" "moves_on c c1 (msgs_wire ms @ w) (out_of c) (pc_pending c)" by auto
  have "pc_timezone_sec c1 = pc_timezone_sec c" using c1(2) by (simp add: moves_def kept_def)
  then have "pg_run_message E R v m c1 = Some (Ok (v, Some (Some (row_item v (pc_timezone_sec c) data))), c1)"
    using says_row.hyps(2,3) says_row.prems(1) by (simp add: pg_run_message_def aop_run row_item_def)
  from run_next_message [OF c1(1) this] c1(2) says_row show ?case by auto
qed

text \<open>Collecting the stream.\<close>

lemma collect_says:
  assumes "pg_says X v ms is fin" and "X = conn_ctx E c" and "reads c (msgs_wire ms @ w)" and "local_types R"
  shows "\<exists>c'. try_collect (pg_fetch_next E R) f acc (PM_Run v) c =
      Some (case fin of None \<Rightarrow> Ok (fold f is acc) | Some e \<Rightarrow> Err e, c') \<and>
    moves_on c c' w (out_of c) (if fin = None then pc_pending c - 1 else pc_pending c)"
  using assms
proof (induction "is" arbitrary: v ms c acc)
  case Nil
  note r = run_next_says [OF Nil.prems]
  show ?case
  proof (cases fin)
    case None
    with r obtain c' v' where "pg_run_next E R v c = Some (Ok (None, v'), c')" "moves_on c c' w (out_of c) (pc_pending c - 1)" by auto
    with None show ?thesis by (subst try_collect.simps) (auto simp: pg_fetch_next_def aop_run)
  next
    case (Some e)
    with r obtain c' where "pg_run_next E R v c = Some (Err e, c')" "moves_on c c' w (out_of c) (pc_pending c)" by auto
    with Some show ?thesis by (subst try_collect.simps) (auto simp: pg_fetch_next_def aop_run)
  qed
next
  case (Cons i js)
  from run_next_says [OF Cons.prems] obtain c1 v1 ms1 where
    c1: "pg_run_next E R v c = Some (Ok (Some i, v1), c1)" "pg_says X v1 ms1 js fin"
      "moves_on c c1 (msgs_wire ms1 @ w) (out_of c) (pc_pending c)" by auto
  have "try_collect (pg_fetch_next E R) f acc (PM_Run v) c = try_collect (pg_fetch_next E R) f (f i acc) (PM_Run v1) c1"
    using c1(1) by (subst try_collect.simps) (simp add: pg_fetch_next_def aop_run)
  moreover note Cons.IH [OF c1(2), of c1 "f i acc"] moves_ctx [OF c1(3), of E] c1(3) Cons.prems(2,4)
  ultimately show ?case by (auto simp: moves_def)
qed

definition fetches :: "('s, 'c) pg_conn \<Rightarrow> pg_many \<Rightarrow> pg_view \<Rightarrow> ('s, 'c) pg_conn \<Rightarrow> ('s, 'c) pg_rec \<Rightarrow> bool" where
  "fetches c g v c1 R = (pg_fetch_next E R g c = pg_fetch_next E R (PM_Run v) c1)"

lemma collect_fetches:
  assumes "fetches c g v c1 R"
  shows "try_collect (pg_fetch_next E R) f acc g c = try_collect (pg_fetch_next E R) f acc (PM_Run v) c1"
  using assms by (subst (1 2) try_collect.simps) (simp add: fetches_def abind_def)

lemma run_simple:
  assumes "drains (conn_ctx E c) n old" and "reads c (msgs_wire old @ w)" and "pc_pending c = of_nat n" and "n < 2 ^ 64"
  shows "\<exists>c1. pg_run E R sql None limit pers md c = Some (Ok (pg_metadata_default, F_Text), c1) \<and>
    moves_on c c1 w ([], snd (out_of c) @ fst (out_of c) @ pg_query_encode sql []) 1"
proof -
  from wait_until_ready_drains [OF assms] obtain c1 where
    c1: "pg_wait_until_ready E c = Some (Ok (), c1)" "moves_on c c1 w ([], snd (out_of c) @ fst (out_of c)) 0" by blast
  from pg_write_run [of "pg_query_encode sql" "pc_stream c1" pending sent] obtain s2 where
    s2: "pg_write (pg_query_encode sql) (pc_stream c1) = Some (Ok (), s2)" "pg_inp pending s2 = pg_inp pending (pc_stream c1)"
      "listening s2 = listening (pc_stream c1)" "pg_out sent s2 = (pg_query_encode sql (fst (out_of c1)), snd (out_of c1))"
    by blast
  from pg_flush_inp [of s2] obtain s3 where
    s3: "pg_flush (e_N E) s2 = Some (Ok (), s3)" "pg_inp pending s3 = pg_inp pending s2" "listening s3 = listening s2"
      "pg_out sent s3 = ([], snd (pg_out sent s2) @ fst (pg_out sent s2))" by blast
  let ?c = "c1\<lparr>pc_stream := s3, pc_pending := 1\<rparr>"
  have "pg_run E R sql None limit pers md c = Some (Ok (pg_metadata_default, F_Text), ?c)"
    using c1 s2(1) s3(1) by (simp add: pg_run_def aop_run moves_def)
  moreover have "moves_on c ?c w ([], snd (out_of c) @ fst (out_of c) @ pg_query_encode sql []) 1"
    using c1(2) s2 s3 by (simp add: moves_def kept_def)
  ultimately show ?thesis by blast
qed

lemma collect_simple:
  assumes "drains (conn_ctx E c) n old" and "pg_says (conn_ctx E c) (pg_metadata_default, F_Text) ms is fin"
    and "reads c (msgs_wire old @ msgs_wire ms @ w)" and "pc_pending c = of_nat n" and "n < 2 ^ 64" and "local_types R"
  shows "\<exists>c'. try_collect (pg_fetch_next E R) f acc (PM_Init \<lparr>pq_statement = Inl sql, pq_arguments = [], pq_persistent = False\<rparr> 0) c =
      Some (case fin of None \<Rightarrow> Ok (fold f is acc) | Some e \<Rightarrow> Err e, c') \<and>
    moves_on c c' w ([], snd (out_of c) @ fst (out_of c) @ pg_query_encode sql []) (if fin = None then 0 else 1)"
proof -
  let ?q = "\<lparr>pq_statement = Inl sql, pq_arguments = [], pq_persistent = False\<rparr>" and ?v = "(pg_metadata_default, F_Text)"
  from run_simple [OF assms(1,3,4,5), of R sql 0 False None] obtain c1 where
    c1: "pg_run E R sql None 0 False None c = Some (Ok ?v, c1)"
      "moves_on c c1 (msgs_wire ms @ w) ([], snd (out_of c) @ fst (out_of c) @ pg_query_encode sql []) 1" by blast
  then have g: "fetches c (PM_Init ?q 0) ?v c1 R"
    by (simp add: fetches_def pg_fetch_next_def aop_run pg_take_arguments_def pg_query_sql_def pg_query_statement_def)
  have k: "reads c1 (msgs_wire ms @ w)" "pc_pending c1 = 1"
    "out_of c1 = ([], snd (out_of c) @ fst (out_of c) @ pg_query_encode sql [])" using c1(2) by (simp_all add: moves_def)
  from collect_says [OF assms(2) moves_ctx [OF c1(2), symmetric] k(1) assms(6), of f acc] obtain c' where
    "try_collect (pg_fetch_next E R) f acc (PM_Run ?v) c1 = Some (case fin of None \<Rightarrow> Ok (fold f is acc) | Some e \<Rightarrow> Err e, c')"
    "moves_on c1 c' w (out_of c1) (if fin = None then pc_pending c1 - 1 else pc_pending c1)" by blast
  with moves_trans [OF c1(2)] k show ?thesis by (auto simp: collect_fetches [OF g])
qed

lemma get_rows_simple:
  assumes "drains (conn_ctx E c) n old" and "pg_says (conn_ctx E c) (pg_metadata_default, F_Text) ms is fin"
    and "reads c (msgs_wire old @ msgs_wire ms @ w)" and "pc_pending c = of_nat n" and "n < 2 ^ 64"
    and "pg_exchange (itoa (e_B E)) sql = Ok sql'" and "local_types R"
  shows "\<exists>c'. pg_get_rows E R sql [] c = Some (case fin of None \<Rightarrow> Ok (rows_of_items is) | Some e \<Rightarrow> Err e, c') \<and>
    moves_on c c' w ([], snd (out_of c) @ fst (out_of c) @ pg_query_encode sql' []) (if fin = None then 0 else 1)"
  using collect_simple [OF assms(1-5,7), of pg_push_row "[]" sql', unfolded fold_pg_push_row append_Nil] assms(6)
  by (simp add: pg_get_rows_def pg_open_query_def aop_run)

lemma exec_simple:
  assumes "drains (conn_ctx E c) n old" and "pg_says (conn_ctx E c) (pg_metadata_default, F_Text) ms is fin"
    and "reads c (msgs_wire old @ msgs_wire ms @ w)" and "pc_pending c = of_nat n" and "n < 2 ^ 64"
    and "pg_exchange (itoa (e_B E)) sql = Ok sql'" and "local_types R"
  shows "\<exists>c'. pg_exec E R sql [] c = Some (case fin of
        None \<Rightarrow> Ok \<lparr>er_rows_affected = affected_of_items is, er_last_insert_id = V_Null\<rparr> | Some e \<Rightarrow> Err e, c') \<and>
    moves_on c c' w ([], snd (out_of c) @ fst (out_of c) @ pg_query_encode sql' []) (if fin = None then 0 else 1)"
proof -
  from collect_simple [OF assms(1-5,7), of pg_extend_result 0 sql', unfolded fold_pg_extend_result add_0] obtain c' where
    "try_collect (pg_fetch_next E R) pg_extend_result 0 (PM_Init \<lparr>pq_statement = Inl sql', pq_arguments = [], pq_persistent = False\<rparr> 0) c =
      Some (case fin of None \<Rightarrow> Ok (affected_of_items is) | Some e \<Rightarrow> Err e, c')"
    "moves_on c c' w ([], snd (out_of c) @ fst (out_of c) @ pg_query_encode sql' []) (if fin = None then 0 else 1)"
    by blast
  then show ?thesis using assms(6)
    by (cases fin) (auto simp: pg_exec_def pg_open_query_def aop_run)
qed

end

section \<open>A scripted connection\<close>

definition sample_env :: "(script, (u32 \<times> pg_metadata) lru_list, int, int \<times> int, int) pg_env" where
  "sample_env = \<lparr>e_C = std_crates, e_B = std_pg_crates, e_N = script_net, e_L = list_lru, e_K = sample_pg_kit,
     e_ins = list_insert, de_types = (\<lambda>v. Ok []), de_oids = (\<lambda>v. Ok []), de_subtypes = (\<lambda>v. Ok []),
     de_labels = (\<lambda>v. Ok []), de_attributes = (\<lambda>v. Ok [])\<rparr>"

interpretation sample_client: pg_client sample_env script_pending script_out
  by (simp add: pg_client_def sample_env_def script_pg.pg_net_axioms)

definition sample_pg_conn :: "bytes \<Rightarrow> nat \<Rightarrow> (script, (u32 \<times> pg_metadata) lru_list) pg_conn" where
  "sample_pg_conn input n = \<lparr>
     pc_stream = \<lparr>pg_inner = buf_stream_new \<lparr>script_in = [input], script_out = [], script_tls = False\<rparr>, pg_notifications = None,
       pg_parameter_statuses = Map.empty, pg_server_version_num = None\<rparr>,
     pc_process_id = 0, pc_secret_key = 0, pc_next_statement_id = 1, pc_cache_statement = lru_new list_lru 100,
     pc_cache_type_info = Map.empty, pc_cache_type_oid = Map.empty, pc_pending = of_nat n,
     pc_transaction_status = TS_Idle, pc_timezone_sec = None\<rparr>"

lemma sample_pg_conn_simps [simp]:
  "pg_inp script_pending (pc_stream (sample_pg_conn input n)) w = (input = w)"
  "pg_out script_out (pc_stream (sample_pg_conn input n)) = ([], [])"
  "pc_pending (sample_pg_conn input n) = of_nat n"
  by (simp_all add: sample_pg_conn_def pg_inp_def pg_out_def buf_stream_new_def script_pending_def)

definition sample_ctx :: says_ctx where
  "sample_ctx = \<lparr>sx_C = std_crates, sx_B = std_pg_crates, sx_types = Map.empty, sx_tz = None, sx_listening = False\<rparr>"

lemma sample_pg_ctx [simp]: "conn_ctx sample_env (sample_pg_conn input n) = sample_ctx"
  by (simp add: conn_ctx_def sample_ctx_def sample_env_def sample_pg_conn_def listening_def)

definition sample_field :: field where
  "sample_field = \<lparr>f_name = lit ''a'', f_relation_id = None, f_relation_attribute_no = None, f_data_type_id = 25,
     f_data_type_size = 0, f_type_modifier = 0, f_format = 0\<rparr>"

definition msg_of :: "message_format \<Rightarrow> bytes \<Rightarrow> pg_message" where
  "msg_of f b = \<lparr>msg_format = f, msg_contents = b\<rparr>"

lemma msg_of_sel [simp]: "msg_format (msg_of f b) = f" "msg_contents (msg_of f b) = b"
  by (simp_all add: msg_of_def)

text \<open>A response with one row, and a response that fails; each ends ready.\<close>

definition sample_ready :: pg_message where
  "sample_ready = msg_of MF_ReadyForQuery (lit ''I'')"

definition sample_response :: "pg_message list" where
  "sample_response = [msg_of MF_RowDescription (to_be (1 :: u16) @ field_wire sample_field),
     msg_of MF_DataRow (data_row_wire [Some (lit ''x'')]), msg_of MF_CommandComplete (lit ''SELECT 1''), sample_ready]"

definition sample_failure :: pg_message where
  "sample_failure = msg_of MF_ErrorResponse (notice_wire sample_notice)"

definition sample_view :: pg_view where
  "sample_view = (described (resolve Map.empty) [sample_field] [], F_Text)"

lemma sample_delivered:
  "f \<notin> {MF_ErrorResponse, MF_NoticeResponse, MF_ParameterStatus, MF_NotificationResponse} \<Longrightarrow> length b < 100 \<Longrightarrow>
    delivered False (msg_of f b)"
  by (simp add: delivered_def msg_fits_def frame_fits_def)

lemma sample_row_decodes:
  "\<exists>rs. data_row_decode std_pg_crates (data_row_wire [Some (lit ''x'')]) = Ok \<lparr>row_storage = [Some (lit ''x'')], row_values = rs\<rparr>"
  using std_pg.data_row_decode_wire [of "[Some (lit ''x'')]"] by (auto simp: data_row_wire_def cell_fits_pg_def)

lemma sample_response_says:
  "\<exists>rs. pg_says sample_ctx (pg_metadata_default, F_Text) sample_response
    [row_item sample_view None \<lparr>row_storage = [Some (lit ''x'')], row_values = rs\<rparr>, Inl 1] None"
proof -
  have d: "row_description_decode std_crates std_pg_crates (to_be (1 :: u16) @ field_wire sample_field) = Ok [sample_field]"
    using std_pg.row_description_decode_wire [of "[sample_field]"] by (simp add: field_ok_def sample_field_def)
  have m: "memrchr std_pg_crates 32 (lit ''SELECT 1'') = Some 6" "atoi std_pg_crates (drop 7 (lit ''SELECT 1'')) = Some 1"
    "ready_for_query_decode (lit ''I'') = Ok TS_Idle" by code_simp+
  then have a: "rows_affected std_pg_crates (lit ''SELECT 1'') = 1" "ready_for_query_decode (lit ''I'') = Ok TS_Idle"
    by (simp_all add: rows_affected_def del: lit_Cons)
  obtain rs where r: "data_row_decode std_pg_crates (data_row_wire [Some (lit ''x'')]) = Ok \<lparr>row_storage = [Some (lit ''x'')], row_values = rs\<rparr>"
    using sample_row_decodes by blast
  have l: "length (data_row_wire [Some (lit ''x'')]) < 100" by (simp add: data_row_wire_def)
  have l': "length (to_be (1 :: u16) @ field_wire sample_field) < 100" by (simp add: field_wire_def sample_field_def)
  have x: "sx_C sample_ctx = std_crates" "sx_B sample_ctx = std_pg_crates" "sx_types sample_ctx = Map.empty" "sx_tz sample_ctx = None"
    "sx_listening sample_ctx = False" by (simp_all add: sample_ctx_def)
  have "pg_says sample_ctx sample_view [sample_ready] [] None"
    by (rule says_ready [where st = TS_Idle]) (simp_all add: x a sample_ready_def sample_delivered del: lit_Cons)
  then have "pg_says sample_ctx sample_view (tl (tl sample_response)) [Inl (rows_affected (sx_B sample_ctx) (msg_contents (msg_of MF_CommandComplete (lit ''SELECT 1''))))] None"
    unfolding sample_response_def list.sel by (rule says_complete [rotated 2]) (simp_all add: x sample_delivered)
  then have "pg_says sample_ctx sample_view (tl sample_response)
      [row_item sample_view (sx_tz sample_ctx) \<lparr>row_storage = [Some (lit ''x'')], row_values = rs\<rparr>, Inl 1] None"
    unfolding sample_response_def list.sel msg_of_sel x(2) a
    by (rule says_row [rotated 3])
      (simp_all add: x r l sample_delivered del: lit_Cons)
  then have s: "pg_says sample_ctx (described (resolve (sx_types sample_ctx)) [sample_field] [], snd (pg_metadata_default, F_Text))
      (tl sample_response) [row_item sample_view None \<lparr>row_storage = [Some (lit ''x'')], row_values = rs\<rparr>, Inl 1] None"
    by (simp add: x sample_view_def del: lit_Cons)
  have "pg_says sample_ctx (pg_metadata_default, F_Text) (hd sample_response # tl sample_response)
      [row_item sample_view None \<lparr>row_storage = [Some (lit ''x'')], row_values = rs\<rparr>, Inl 1] None"
    by (rule says_description [OF _ _ _ s]) (use sample_delivered [OF _ l', of MF_RowDescription] in \<open>simp_all add: x d sample_response_def\<close>)
  then show ?thesis by (auto simp: sample_response_def)
qed

lemma sample_failure_says:
  "pg_says sample_ctx v [sample_failure] [] (Some (Server_Error (lit ''42710:exists'')))"
proof -
  have "list_all notice_field_ok sample_notice" "distinct (map fst sample_notice)"
    "severity_try_from (lit ''ERROR'') = Ok Sev_Error" by code_simp+
  moreover have l: "length (notice_wire sample_notice) < 100" by (simp add: notice_wire_def sample_notice_def)
  ultimately obtain n where "notice_decode std_crates (notice_wire sample_notice) = Some (Ok n)"
    "notice_message n = Ok (lit ''exists'')" "notice_code n = Ok (lit ''42710'')"
    using notice_decode_fields [OF std.crate_laws_axioms, of sample_notice "lit ''FEHLER''" "lit ''ERROR''" _ Sev_Error
      "lit ''exists''" "lit ''42710''"] by (auto simp: sample_notice_def)
  then have "fails_with std_crates sample_failure (Server_Error (lit ''42710:exists''))"
    using l by (simp add: fails_with_def sample_failure_def msg_fits_def frame_fits_def pg_database_error_def)
  then show ?thesis by (intro says_error) (simp add: sample_ctx_def)
qed

lemma sample_ready_drains: "drains sample_ctx 1 [sample_ready]"
proof -
  have "ready_for_query_decode (lit ''I'') = Ok TS_Idle" by code_simp
  then have "drains sample_ctx (Suc 0) [sample_ready]"
    by (intro drains_ready [where st = TS_Idle] drains_Nil) (simp_all add: sample_ctx_def sample_ready_def sample_delivered del: lit_Cons)
  then show ?thesis by simp
qed

section \<open>Properties\<close>

text \<open>C8: A query without parameters returns exactly the rows the server sent, in order, over any number of statements and
  result sets and any chunking of the network: what earlier queries left outstanding is read first, notices and
  parameter reports in between are dealt with, exactly the query is written, and the connection is ready again with
  the next bytes of the server unread.  \<open>exec\<close> reports the sum of the affected rows.\<close>

theorem pg_get_rows_returns_the_rows:
  assumes "pg_client E pending sent" and "drains (conn_ctx E c) n old" and "n < 2 ^ 64" and "pc_pending c = of_nat n"
    and "pg_says (conn_ctx E c) (pg_metadata_default, F_Text) ms is None"
    and "pg_inp pending (pc_stream c) (msgs_wire old @ msgs_wire ms @ w)" and "pg_out sent (pc_stream c) = (wb, snt)"
    and "pg_exchange (itoa (e_B E)) sql = Ok sql'"
  shows "(\<exists>c'. pg_get_rows E (pg_rec_at d E) sql [] c = Some (Ok (rows_of_items is), c') \<and> pc_pending c' = 0 \<and>
      pg_inp pending (pc_stream c') w \<and> pg_out sent (pc_stream c') = ([], snt @ wb @ pg_query_encode sql' [])) \<and>
    (\<exists>c'. pg_exec E (pg_rec_at d E) sql [] c =
        Some (Ok \<lparr>er_rows_affected = affected_of_items is, er_last_insert_id = V_Null\<rparr>, c') \<and> pc_pending c' = 0 \<and>
      pg_inp pending (pc_stream c') w \<and> pg_out sent (pc_stream c') = ([], snt @ wb @ pg_query_encode sql' []))"
  using pg_client.get_rows_simple [OF assms(1,2,5,6,4,3,8) local_types_rec_at [of d E]] assms(7)
    pg_client.exec_simple [OF assms(1,2,5,6,4,3,8) local_types_rec_at [of d E]]
  by (auto simp: moves_def)

theorem pg_get_rows_returns_the_rows_witness:
  "\<exists>r c'. pg_get_rows sample_env (pg_rec_at 0 sample_env) (lit ''select'') []
       (sample_pg_conn (msgs_wire [sample_ready] @ msgs_wire sample_response @ [7]) 1) = Some (Ok [r], c') \<and>
     row_storage (pr_data r) = [Some (lit ''x'')] \<and> pg_out script_out (pc_stream c') = ([], pg_query_encode (lit ''select'') [])"
proof -
  let ?c = "sample_pg_conn (msgs_wire [sample_ready] @ msgs_wire sample_response @ [7]) 1"
  obtain rs where s: "pg_says (conn_ctx sample_env ?c) (pg_metadata_default, F_Text) sample_response
    [row_item sample_view None \<lparr>row_storage = [Some (lit ''x'')], row_values = rs\<rparr>, Inl 1] None"
    using sample_response_says by (auto simp only: sample_pg_ctx)
  have d: "drains (conn_ctx sample_env ?c) 1 [sample_ready]" by (simp only: sample_pg_ctx sample_ready_drains)
  have x: "pg_exchange (itoa (e_B sample_env)) (lit ''select'') = Ok (lit ''select'')" by code_simp
  from pg_get_rows_returns_the_rows [OF sample_client.pg_client_axioms d _ sample_pg_conn_simps(3) s _ sample_pg_conn_simps(2) x, of "[7]" 0]
  obtain c' where "pg_get_rows sample_env (pg_rec_at 0 sample_env) (lit ''select'') [] ?c =
      Some (Ok (rows_of_items [row_item sample_view None \<lparr>row_storage = [Some (lit ''x'')], row_values = rs\<rparr>, Inl 1]), c')"
    "pg_out script_out (pc_stream c') = ([], pg_query_encode (lit ''select'') [])"
    by (auto simp del: lit_Cons msgs_wire_simps)
  then show ?thesis by (auto simp: rows_of_items_def row_item_def simp del: lit_Cons msgs_wire_simps)
qed

text \<open>C9: An error of the server does not desynchronise the connection.  A query whose response fails after any number of
  rows returns that error; whatever the server sends until it is ready belongs to the failed query, and the next query
  on the connection returns exactly its own rows.\<close>

theorem pg_error_then_next_query:
  assumes "pg_client E pending sent" and "drains (conn_ctx E c) n old" and "n < 2 ^ 64" and "pc_pending c = of_nat n"
    and "pg_says (conn_ctx E c) (pg_metadata_default, F_Text) ms1 is1 (Some e)" and "drains (conn_ctx E c) 1 rest"
    and "pg_says (conn_ctx E c) (pg_metadata_default, F_Text) ms2 is2 None"
    and "pg_inp pending (pc_stream c) (msgs_wire old @ msgs_wire ms1 @ msgs_wire rest @ msgs_wire ms2 @ w)"
    and "pg_exchange (itoa (e_B E)) sql1 = Ok sql1'" and "pg_exchange (itoa (e_B E)) sql2 = Ok sql2'"
  shows "\<exists>c1 c2. pg_get_rows E (pg_rec_at d E) sql1 [] c = Some (Err e, c1) \<and>
    pg_get_rows E (pg_rec_at d E) sql2 [] c1 = Some (Ok (rows_of_items is2), c2) \<and>
    pc_pending c2 = 0 \<and> pg_inp pending (pc_stream c2) w"
proof -
  from pg_client.get_rows_simple [OF assms(1,2,5,8,4,3,9) local_types_rec_at [of d E]] obtain c1 wr where
    c1: "pg_get_rows E (pg_rec_at d E) sql1 [] c = Some (Err e, c1)"
      "moves pending sent c c1 (msgs_wire rest @ msgs_wire ms2 @ w) wr 1" by auto
  note k = moves_ctx [OF c1(2), of E]
  have r: "pg_inp pending (pc_stream c1) (msgs_wire rest @ msgs_wire ms2 @ w)" "pc_pending c1 = of_nat 1"
    using c1(2) by (simp_all add: moves_def)
  from pg_client.get_rows_simple [OF assms(1) _ _ r _ assms(10) local_types_rec_at [of d E], of is2 None] assms(6,7) k
  obtain c2 wr2 where "pg_get_rows E (pg_rec_at d E) sql2 [] c1 = Some (Ok (rows_of_items is2), c2)"
    "moves pending sent c1 c2 w wr2 0" by auto
  with c1(1) show ?thesis by (auto simp: moves_def)
qed

theorem pg_error_then_next_query_witness:
  "\<exists>c1 c2 r. pg_get_rows sample_env (pg_rec_at 0 sample_env) (lit ''bad'') []
      (sample_pg_conn (msgs_wire [sample_failure] @ msgs_wire [sample_ready] @ msgs_wire sample_response) 0) =
        Some (Err (Server_Error (lit ''42710:exists'')), c1) \<and>
    pg_get_rows sample_env (pg_rec_at 0 sample_env) (lit ''select'') [] c1 = Some (Ok [r], c2)"
proof -
  let ?c = "sample_pg_conn (msgs_wire [sample_failure] @ msgs_wire [sample_ready] @ msgs_wire sample_response) 0"
  obtain rs where s: "pg_says (conn_ctx sample_env ?c) (pg_metadata_default, F_Text) sample_response
    [row_item sample_view None \<lparr>row_storage = [Some (lit ''x'')], row_values = rs\<rparr>, Inl 1] None"
    using sample_response_says by (auto simp only: sample_pg_ctx)
  have d: "drains (conn_ctx sample_env ?c) 1 [sample_ready]" "drains (conn_ctx sample_env ?c) 0 []"
    by (simp_all only: sample_pg_ctx sample_ready_drains drains_Nil)
  have f: "pg_says (conn_ctx sample_env ?c) (pg_metadata_default, F_Text) [sample_failure] [] (Some (Server_Error (lit ''42710:exists'')))"
    by (simp only: sample_pg_ctx sample_failure_says)
  have x: "pg_exchange (itoa (e_B sample_env)) (lit ''select'') = Ok (lit ''select'')"
    "pg_exchange (itoa (e_B sample_env)) (lit ''bad'') = Ok (lit ''bad'')" by code_simp+
  from pg_error_then_next_query [OF sample_client.pg_client_axioms d(2) _ sample_pg_conn_simps(3) f d(1) s _ x(2,1), of "[]" 0]
  show ?thesis by (auto simp: rows_of_items_def row_item_def simp del: lit_Cons)
qed

end
