(* ===== verification/Pg_Db.thy ===== *)
theory Pg_Db
  imports Pg_Exec
begin

text \<open>
  A PostgreSQL connection behind the driver-independent traits: its rows satisfy the row contract, so a query through
  \<open>get_values\<close> returns the columns under their names.
\<close>

section \<open>Rows of a response\<close>

definition pg_cell :: "pg_crates \<Rightarrow> ('dt, 'd, 'i) pg_kit \<Rightarrow> pg_row \<Rightarrow> nat \<Rightarrow> dyn_value res" where
  "pg_cell B K x i =
     pg_value_decode B K \<lparr>pv_value = (if i < length (row_storage (pr_data x)) then row_storage (pr_data x) ! i else None),
       pv_type_info = pcol_type_info (pm_columns (pr_metadata x) ! i), pv_format = pr_format x, pv_timezone_sec = pr_timezone_sec x\<rparr>"

text \<open>Every column can be taken: the map of the names has as many entries as there are columns.\<close>

definition pg_row_ok :: "pg_row \<Rightarrow> bool" where
  "pg_row_ok x = (row_ok (pr_data x) \<and> length (pm_columns (pr_metadata x)) \<le> length (pm_column_names (pr_metadata x)))"

interpretation pg_rows: column_rows "pg_row_trait B K" pg_row_ok "pg_cell B K" for B K
proof
  fix x i v
  assume a: "pg_row_ok x" "i < md_column_len (pg_row_trait B K) (r_meta_data (pg_row_trait B K) x)"
  then have l: "i < length (pm_columns (pr_metadata x))" "i < length (pm_column_names (pr_metadata x))" "row_ok (pr_data x)"
    by (auto simp: pg_row_ok_def pg_row_trait_def pg_column_len_def)
  let ?x = "x\<lparr>pr_data := (pr_data x)\<lparr>row_storage := (row_storage (pr_data x))[i := None]\<rparr>\<rparr>"
  have g: "pg_row_get B K x i = rbind (pg_cell B K x i) (\<lambda>v. Ok (v, ?x))"
    using l row_take_get [OF l(3), of i] by (simp add: pg_row_get_def pg_try_take_def data_row_take_def pg_cell_def)
  {
    assume "pg_cell B K x i = Ok v"
    with g have "r_get (pg_row_trait B K) x i = Ok (v, ?x)" by (simp add: pg_row_trait_def)
    moreover have "pg_row_ok ?x" using a(1) row_ok_take [OF l(3)] by (simp add: pg_row_ok_def)
    moreover have "\<forall>j < i. pg_cell B K ?x j = pg_cell B K x j" by (simp add: pg_cell_def)
    ultimately show "\<exists>x'. r_get (pg_row_trait B K) x i = Ok (v, x') \<and> pg_row_ok x' \<and>
      r_meta_data (pg_row_trait B K) x' = r_meta_data (pg_row_trait B K) x \<and> (\<forall>j < i. pg_cell B K x' j = pg_cell B K x j)"
      by (intro exI [of _ ?x]) (simp add: pg_row_trait_def)
  next
    fix e
    assume "pg_cell B K x i = Err e"
    with g show "r_get (pg_row_trait B K) x i = Err e" by (simp add: pg_row_trait_def)
  }
qed

interpretation pg_maps: mapped_rows list_insert "pg_row_trait B K" pg_row_ok "pg_cell B K" for B K
  by unfold_locales

section \<open>Names of columns\<close>

lemma name_put_new: "k \<notin> fst ` set m \<Longrightarrow> name_put k v m = m @ [(k, v)]"
  by (induction k v m rule: name_put.induct) auto

lemma fold_name_put:
  "distinct (map pcol_name cols) \<Longrightarrow> pcol_name ` set cols \<inter> fst ` set m = {} \<Longrightarrow>
    fold (\<lambda>c. name_put (pcol_name c) (pcol_ordinal c)) cols m = m @ map (\<lambda>c. (pcol_name c, pcol_ordinal c)) cols"
  by (induction cols arbitrary: m) (auto simp: name_put_new)

lemma pg_names_of_distinct: "distinct (map pcol_name cols) \<Longrightarrow> pg_names_of cols = map (\<lambda>c. (pcol_name c, pcol_ordinal c)) cols"
  by (simp add: pg_names_of_def fold_name_put)

lemma columns_from_ordinal: "j < length fs \<Longrightarrow> pcol_ordinal (columns_from ty i fs ! j) = i + j"
  by (induction fs arbitrary: i j) (auto simp: nth_Cons' column_of_def)

lemma columns_from_length [simp]: "length (columns_from ty i fs) = length fs"
  by (induction fs arbitrary: i) auto

text \<open>The meta data of the rows of a response are described by the server, or empty.\<close>

definition pg_view_ok :: "pg_metadata \<Rightarrow> bool" where
  "pg_view_ok md = (pm_column_names md = pg_names_of (pm_columns md) \<and> (\<forall>i < length (pm_columns md). pcol_ordinal (pm_columns md ! i) = i))"

lemma default_view_ok: "pg_view_ok pg_metadata_default"
  by (simp add: pg_view_ok_def pg_metadata_default_def pg_names_of_def)

lemma described_view_ok: "pg_view_ok (described ty fs params)"
  by (simp add: pg_view_ok_def described_def columns_from_ordinal)

lemma pg_says_rows_ok:
  "pg_says X v ms is fin \<Longrightarrow> pg_view_ok (fst v) \<Longrightarrow> r \<in> set (rows_of_items is) \<Longrightarrow> row_ok (pr_data r) \<and> pg_view_ok (pr_metadata r)"
proof (induction rule: pg_says.induct)
  case (says_row m data v ms "is" fin)
  from says_row.hyps(3) have "row_ok data" by (auto simp: data_row_decode_def res_iff dest: row_from_ok)
  with says_row.prems says_row.IH show ?case by (auto simp: rows_of_items_def row_item_def)
next
  case (says_description m fs v ms "is" fin)
  then show ?case using described_view_ok by simp
qed (auto simp: rows_of_items_def)

lemma pg_column_name_nth:
  assumes "pg_view_ok md" and "distinct (map pcol_name (pm_columns md))" and "i < length (pm_columns md)"
  shows "pg_column_name md i = pcol_name (pm_columns md ! i)"
proof -
  let ?cs = "pm_columns md"
  have "find (\<lambda>p. snd p = i) (map (\<lambda>c. (pcol_name c, pcol_ordinal c)) ?cs) = Some (pcol_name (?cs ! i), pcol_ordinal (?cs ! i))"
    unfolding find_Some_iff by (rule exI [of _ i]) (use assms(1,3) in \<open>simp add: pg_view_ok_def\<close>)
  then show ?thesis using assms(1,2) by (simp add: pg_column_name_def pg_view_ok_def pg_names_of_distinct)
qed

section \<open>Properties\<close>

text \<open>C10: A query without parameters through \<open>get_values\<close> on a PostgreSQL connection, for a response in whose rows the
  column names do not repeat and every cell decodes.  Whatever the chunking of the network and whatever earlier queries
  left outstanding, it returns an array with one map per row of the response, in order, which holds under each column's
  name exactly the decoded value of that column and has no other keys; nothing is outstanding then.  (With repeated
  names the last columns of a row cannot be read and the query fails.)\<close>

theorem pg_get_values_names_the_columns:
  assumes "pg_client E pending sent" and "value_map (e_ins E)"
    and "drains (conn_ctx E c) n old" and "n < 2 ^ 64" and "pc_pending c = of_nat n"
    and "pg_says (conn_ctx E c) (pg_metadata_default, F_Text) ms is None"
    and "pg_inp pending (pc_stream c) (msgs_wire old @ msgs_wire ms @ w)"
    and "pg_exchange (itoa (e_B E)) sql = Ok sql'"
    and "\<forall>r \<in> set (rows_of_items is). distinct (map pcol_name (pm_columns (pr_metadata r))) \<and>
      (\<forall>i < length (pm_columns (pr_metadata r)). \<exists>v. pg_cell (e_B E) (e_K E) r i = Ok v)"
  shows "\<exists>c' maps. pg_get_values E (pg_rec_at d E) sql [] c = Some (Ok (V_Array (map V_Map maps)), c') \<and> pc_pending c' = 0 \<and>
    pg_inp pending (pc_stream c') w \<and>
    list_all2 (\<lambda>r m. dom (map_of m) = (\<lambda>col. V_String (pcol_name col)) ` set (pm_columns (pr_metadata r)) \<and>
      (\<forall>i < length (pm_columns (pr_metadata r)). \<exists>v. pg_cell (e_B E) (e_K E) r i = Ok v \<and>
        map_of m (V_String (pcol_name (pm_columns (pr_metadata r) ! i))) = Some v)) (rows_of_items is) maps"
proof -
  let ?R = "pg_row_trait (e_B E) (e_K E)" and ?rows = "rows_of_items is"
  from pg_client.get_rows_simple [OF assms(1,3,6,7,5,4,8) local_types_rec_at [of d E]] obtain c' where
    c': "c_get_rows (pg_connection E (pg_rec_at d E)) sql [] c = Some (Ok ?rows, c')" "pc_pending c' = 0" "pg_inp pending (pc_stream c') w"
    by (auto simp: moves_def pg_connection_def)
  have v: "pg_row_ok r \<and> pg_view_ok (pr_metadata r)" if "r \<in> set ?rows" for r
    using pg_says_rows_ok [OF assms(6) _ that] default_view_ok assms(9) that
    by (simp add: pg_row_ok_def pg_view_ok_def pg_names_of_distinct)
  have "\<forall>r \<in> set ?rows. pg_row_ok r \<and> (\<forall>j < md_column_len ?R (r_meta_data ?R r). \<exists>v. pg_cell (e_B E) (e_K E) r j = Ok v)"
    using v assms(9) by (simp add: pg_row_trait_def pg_column_len_def)
  from mapped_rows.get_values_entries [OF mapped_rows.intro [OF assms(2) pg_rows.column_rows_axioms] c'(1) this] obtain maps where
    m: "pg_get_values E (pg_rec_at d E) sql [] c = Some (Ok (V_Array (map V_Map maps)), c')"
      "list_all2 (\<lambda>r m. map_of m = row_entry (md_column_name ?R (r_meta_data ?R r)) (pg_cell (e_B E) (e_K E) r)
        [0..<md_column_len ?R (r_meta_data ?R r)]) ?rows maps"
    by (auto simp: pg_get_values_def)
  have "list_all2 (\<lambda>r m. dom (map_of m) = (\<lambda>col. V_String (pcol_name col)) ` set (pm_columns (pr_metadata r)) \<and>
      (\<forall>i < length (pm_columns (pr_metadata r)). \<exists>v. pg_cell (e_B E) (e_K E) r i = Ok v \<and>
        map_of m (V_String (pcol_name (pm_columns (pr_metadata r) ! i))) = Some v)) ?rows maps"
    using m(2)
  proof (rule list.rel_mono_strong)
    fix r m
    assume r: "r \<in> set ?rows" and "m \<in> set maps" and e: "map_of m = row_entry (md_column_name ?R (r_meta_data ?R r)) (pg_cell (e_B E) (e_K E) r)
        [0..<md_column_len ?R (r_meta_data ?R r)]"
    from assms(9) r have g: "distinct (map pcol_name (pm_columns (pr_metadata r)))"
      "\<forall>i < length (pm_columns (pr_metadata r)). \<exists>v. pg_cell (e_B E) (e_K E) r i = Ok v" by auto
    from named_entries [OF g(1) _ g(2), of "pg_column_name (pr_metadata r)"] pg_column_name_nth [OF _ g(1)] v [OF r] e
    show "dom (map_of m) = (\<lambda>col. V_String (pcol_name col)) ` set (pm_columns (pr_metadata r)) \<and>
      (\<forall>i < length (pm_columns (pr_metadata r)). \<exists>v. pg_cell (e_B E) (e_K E) r i = Ok v \<and>
        map_of m (V_String (pcol_name (pm_columns (pr_metadata r) ! i))) = Some v)"
      by (simp add: pg_row_trait_def pg_column_len_def)
  qed
  with m(1) c'(2,3) show ?thesis by blast
qed

lemma sample_cell:
  "pg_cell std_pg_crates sample_pg_kit \<lparr>pr_data = \<lparr>row_storage = [Some (lit ''x'')], row_values = rs\<rparr>, pr_format = F_Text,
     pr_metadata = fst sample_view, pr_timezone_sec = None\<rparr> 0 = Ok (V_String (lit ''x''))"
  by code_simp

theorem pg_get_values_names_the_columns_witness:
  "\<exists>m c'. pg_get_values sample_env (pg_rec_at 0 sample_env) (lit ''select'') []
       (sample_pg_conn (msgs_wire [sample_ready] @ msgs_wire sample_response @ [7]) 1) = Some (Ok (V_Array [V_Map m]), c') \<and>
     map_of m (V_String (lit ''a'')) = Some (V_String (lit ''x''))"
proof -
  let ?c = "sample_pg_conn (msgs_wire [sample_ready] @ msgs_wire sample_response @ [7]) 1"
  obtain rs where s: "pg_says (conn_ctx sample_env ?c) (pg_metadata_default, F_Text) sample_response
    [row_item sample_view None \<lparr>row_storage = [Some (lit ''x'')], row_values = rs\<rparr>, Inl 1] None"
    using sample_response_says by (auto simp only: sample_pg_ctx)
  let ?row = "\<lparr>pr_data = \<lparr>row_storage = [Some (lit ''x'')], row_values = rs\<rparr>, pr_format = F_Text, pr_metadata = fst sample_view, pr_timezone_sec = None\<rparr>"
  have rows: "rows_of_items [row_item sample_view None \<lparr>row_storage = [Some (lit ''x'')], row_values = rs\<rparr>, Inl 1] = [?row]"
    by (simp add: rows_of_items_def row_item_def sample_view_def)
  have d: "drains (conn_ctx sample_env ?c) 1 [sample_ready]" by (simp only: sample_pg_ctx sample_ready_drains)
  have x: "pg_exchange (itoa (e_B sample_env)) (lit ''select'') = Ok (lit ''select'')" by code_simp
  have e: "e_B sample_env = std_pg_crates" "e_K sample_env = sample_pg_kit" "e_ins sample_env = list_insert" by (simp_all add: sample_env_def)
  have col: "map pcol_name (pm_columns (fst sample_view)) = [lit ''a'']" by (simp add: sample_view_def described_def column_of_def sample_field_def)
  then have n: "length (pm_columns (fst sample_view)) = 1" by (metis One_nat_def length_Cons length_map list.size(3))
  have g: "\<forall>r \<in> set [?row]. distinct (map pcol_name (pm_columns (pr_metadata r))) \<and>
      (\<forall>i < length (pm_columns (pr_metadata r)). \<exists>v. pg_cell (e_B sample_env) (e_K sample_env) r i = Ok v)"
    using sample_cell [of rs] col n by (simp add: e del: lit_Cons)
  from pg_get_values_names_the_columns [OF sample_client.pg_client_axioms _ d _ sample_pg_conn_simps(3) s _ x, of "[7]" 0] g
  obtain c' maps where
    q: "pg_get_values sample_env (pg_rec_at 0 sample_env) (lit ''select'') [] ?c = Some (Ok (V_Array (map V_Map maps)), c')"
    and "list_all2 (\<lambda>r m. \<forall>i < length (pm_columns (pr_metadata r)). \<exists>v. pg_cell std_pg_crates sample_pg_kit r i = Ok v \<and>
        map_of m (V_String (pcol_name (pm_columns (pr_metadata r) ! i))) = Some v) [?row] maps"
    by (auto simp: rows e list_map.value_map_axioms list_all2_Cons1 simp del: lit_Cons msgs_wire_simps)
  then obtain m where "maps = [m]" "map_of m (V_String (pcol_name (pm_columns (fst sample_view) ! 0))) = Some (V_String (lit ''x''))"
    using n sample_cell [of rs] by (auto simp: list_all2_Cons1 simp del: lit_Cons)
  moreover have "pcol_name (pm_columns (fst sample_view) ! 0) = lit ''a''" using col n by (metis less_one nth_Cons_0 nth_map)
  ultimately show ?thesis using q by (auto simp del: lit_Cons msgs_wire_simps)
qed

end
