(* ===== verification/Pg_Prepared.thy ===== *)
theory Pg_Prepared
  imports Pg_Exec
begin

text \<open>
  Queries with parameters on a PostgreSQL connection: the locale \<open>pg_prepared\<close> joins a working network with the laws of
  the \<open>lru\<close> crate and follows \<open>prepare\<close>, \<open>get_or_prepare\<close>, \<open>run\<close> and \<open>get_rows\<close> through both.
\<close>

section \<open>What the server answers\<close>

text \<open>A message behind any number of messages that are dealt with in passing.\<close>

definition next_message :: "says_ctx \<Rightarrow> pg_message list \<Rightarrow> pg_message \<Rightarrow> bool" where
  "next_message X ms m =
     (\<exists>pre. ms = pre @ [m] \<and> list_all (absorbed (sx_C X) (sx_B X) (sx_listening X)) pre \<and> delivered (sx_listening X) m)"

definition ready_message :: "says_ctx \<Rightarrow> pg_message list \<Rightarrow> bool" where
  "ready_message X ms =
     (\<exists>m st. next_message X ms m \<and> msg_format m = MF_ReadyForQuery \<and> ready_for_query_decode (msg_contents m) = Ok st)"

text \<open>The answer to parse and describe: the types of the parameters \<open>ts\<close>, and the columns \<open>fs\<close>, none without a result.\<close>

inductive prepare_answer :: "says_ctx \<Rightarrow> pg_message list \<Rightarrow> u32 list \<Rightarrow> field list \<Rightarrow> bool" for X where
  "prepare_answer X (ms0 @ ms1 @ ms2 @ ms3) ts fs"
  if "next_message X ms0 m0" "msg_format m0 = MF_ParseComplete"
    "next_message X ms1 m1" "msg_format m1 = MF_ParameterDescription"
    "parameter_description_decode (sx_B X) (msg_contents m1) = Ok ts"
    "next_message X ms2 m2"
    "msg_format m2 = MF_RowDescription \<and> row_description_decode (sx_C X) (sx_B X) (msg_contents m2) = Ok fs \<or>
     msg_format m2 = MF_NoData \<and> fs = []"
    "ready_message X ms3"

text \<open>The answer to closing the statement that had to leave the cache.\<close>

definition close_answer :: "says_ctx \<Rightarrow> 'a option \<Rightarrow> pg_message list \<Rightarrow> bool" where
  "close_answer X evicted ms =
     (case evicted of
        None \<Rightarrow> ms = []
      | Some _ \<Rightarrow> \<exists>ms1 m ms2. ms = ms1 @ ms2 \<and> next_message X ms1 m \<and> msg_format m = MF_CloseComplete \<and> ready_message X ms2)"

definition known :: "(u32 \<rightharpoonup> pg_type) \<Rightarrow> u32 \<Rightarrow> bool" where
  "known cache oid = (try_from_oid oid \<noteq> None \<or> cache oid \<noteq> None)"

definition known_types :: "('s, 'c) pg_rec \<Rightarrow> bool" where
  "known_types R = (\<forall>oid c. known (pc_cache_type_info c) oid \<longrightarrow>
     rec_type_info R oid True c = Some (Ok (resolve (pc_cache_type_info c) oid), c))"

lemma known_types_rec_at: "known_types (pg_rec_at d E)"
  by (cases d) (auto simp: known_types_def known_def maybe_fetch_type_info_by_oid_def resolve_def aop_run split: option.split)

text \<open>
  Everything a prepare of \<open>sql\<close> with parameters of types \<open>tys\<close> needs to become the statement \<open>st\<close>: parameter types with
  ids, a query that fits a message, and an answer whose types are known.
\<close>

definition pg_prepares ::
    "('s, 'c, 'dt, 'd, 'i) pg_env \<Rightarrow> ('s, 'c) pg_conn \<Rightarrow> bytes \<Rightarrow> pg_type list \<Rightarrow> u32 list \<Rightarrow> pg_message list \<Rightarrow> u32 \<times> pg_metadata \<Rightarrow> bool" where
  "pg_prepares E c sql tys oids ms st =
     (let cache = pc_cache_type_info c; i = pc_next_statement_id c in
      \<exists>ts fs b. list_all2 (\<lambda>t oid. type_oid t = Ok oid) tys oids \<and> parse_encode (e_B E) i sql oids [] = Ok b \<and>
        prepare_answer (conn_ctx E c) ms ts fs \<and> list_all (known cache) ts \<and> list_all (\<lambda>f. known cache (f_data_type_id f)) fs \<and>
        st = (i, described (resolve cache) fs (map (resolve cache) ts)))"

section \<open>What is sent\<close>

definition prepare_bytes :: "pg_crates \<Rightarrow> u32 \<Rightarrow> bytes \<Rightarrow> u32 list \<Rightarrow> bytes" where
  "prepare_bytes B i sql oids =
     (case parse_encode B i sql oids [] of Ok b \<Rightarrow> sync_encode (describe_encode B (Describe_Statement i) b) | _ \<Rightarrow> [])"

definition close_bytes :: "pg_crates \<Rightarrow> (u32 \<times> pg_metadata) option \<Rightarrow> bytes" where
  "close_bytes B evicted =
     (case evicted of None \<Rightarrow> [] | Some old \<Rightarrow> sync_encode (close_encode B (Close_Statement (fst old)) []))"

definition execute_bytes :: "pg_crates \<Rightarrow> u32 \<Rightarrow> bytes option list \<Rightarrow> bytes" where
  "execute_bytes B i cells =
     sync_encode (pg_execute_encode B None 0 (bind_encode B \<lparr>b_portal = None, b_statement = i, b_formats = [F_Binary],
       b_num_params = of_nat (length cells), b_params = concat (map cell_wire cells), b_result_formats = [F_Binary]\<rparr> []))"

section \<open>Steps on a working network\<close>

context pg_client
begin

lemma next_skip:
  assumes "list_all (absorbed (e_C E) (e_B E) (listening (pc_stream c))) pre" and "reads c (msgs_wire (pre @ ms) @ w)"
  obtains c' where "recv c = recv c'" "moves_on c c' (msgs_wire ms @ w) (out_of c) (pc_pending c)"
proof -
  from pg_recv_skip [of "pc_stream c" pre "msgs_wire ms @ w"] assms obtain s' where
    s': "pg_recv (e_C E) (e_B E) (e_N E) (pc_stream c) = pg_recv (e_C E) (e_B E) (e_N E) s'" "pg_inp pending s' (msgs_wire ms @ w)"
      "pg_out sent s' = pg_out sent (pc_stream c)" "listening s' = listening (pc_stream c)" by auto
  show ?thesis
    by (rule that [of "c\<lparr>pc_stream := s'\<rparr>"]) (use s' in \<open>simp_all add: on_pg_def moves_def kept_def\<close>)
qed

lemma recv_next:
  assumes "next_message (conn_ctx E c) ms m" and "reads c (msgs_wire ms @ w)"
  obtains c' where "recv c = Some (Ok m, c')" "moves_on c c' w (out_of c) (pc_pending c)"
proof -
  from assms obtain pre where pre: "ms = pre @ [m]" "list_all (absorbed (e_C E) (e_B E) (listening (pc_stream c))) pre"
    "delivered (listening (pc_stream c)) m" by (auto simp: next_message_def)
  from next_skip [OF pre(2), of "[m]" w] assms(2) pre(1) obtain c1 where
    c1: "recv c = recv c1" "moves_on c c1 (msgs_wire [m] @ w) (out_of c) (pc_pending c)" by blast
  then have k: "listening (pc_stream c1) = listening (pc_stream c)" "reads c1 (msgs_wire [m] @ w)"
    "out_of c1 = out_of c" "pc_pending c1 = pc_pending c" by (simp_all add: moves_def kept_def)
  from recv_delivered [of c1 m "[]" w] pre(3) k obtain c2 where
    "recv c1 = Some (Ok m, c2)" "moves_on c1 c2 w (out_of c) (pc_pending c)" by auto
  with c1 moves_trans [OF c1(2)] that show ?thesis by auto
qed

lemma recv_expect_next:
  assumes "next_message (conn_ctx E c) ms m" and "reads c (msgs_wire ms @ w)" and "msg_format m = f" and "dec (msg_contents m) = Ok x"
  obtains c' where "on_pg (pg_recv_expect (e_C E) (e_B E) (e_N E) f dec) c = Some (Ok x, c')" "moves_on c c' w (out_of c) (pc_pending c)"
proof -
  from recv_next [OF assms(1,2)] obtain c' where
    c': "recv c = Some (Ok m, c')" "moves_on c c' w (out_of c) (pc_pending c)" by blast
  then obtain s' where "pg_recv (e_C E) (e_B E) (e_N E) (pc_stream c) = Some (Ok m, s')" "c' = c\<lparr>pc_stream := s'\<rparr>"
    by (auto simp: on_pg_def)
  then have "on_pg (pg_recv_expect (e_C E) (e_B E) (e_N E) f dec) c = Some (Ok x, c')"
    using assms(3,4) by (simp add: on_pg_def pg_recv_expect_def abind_Ok alift_run)
  with c'(2) that show ?thesis by blast
qed

lemma recv_ready_next:
  assumes "ready_message (conn_ctx E c) ms" and "reads c (msgs_wire ms @ w)"
  obtains c' where "recv_ready_for_query E c = Some (Ok (), c')" "moves_on c c' w (out_of c) (pc_pending c - 1)"
proof -
  from assms(1) obtain m st where m: "next_message (conn_ctx E c) ms m" "msg_format m = MF_ReadyForQuery"
    "ready_for_query_decode (msg_contents m) = Ok st" by (auto simp: ready_message_def)
  from recv_expect_next [OF m(1) assms(2) m(2), of ready_for_query_decode st] m(3) obtain c1 where
    c1: "on_pg (pg_recv_expect (e_C E) (e_B E) (e_N E) MF_ReadyForQuery ready_for_query_decode) c = Some (Ok st, c1)"
      "moves_on c c1 w (out_of c) (pc_pending c)" by blast
  show ?thesis
    by (rule that [of "c1\<lparr>pc_pending := pc_pending c1 - 1, pc_transaction_status := st\<rparr>"])
      (use c1 in \<open>simp_all add: recv_ready_for_query_def aop_run moves_def kept_def\<close>)
qed

lemma wait_quiet:
  assumes "pc_pending c = 0" and "fst (out_of c) = []"
  shows "pg_wait_until_ready E c = Some (Ok (), c)"
  using assms by (simp add: pg_wait_until_ready_def aop_run pg_out_def) (subst ready_loop.simps, simp add: aret_def)

lemma write_moves:
  assumes "reads c w"
  obtains c' where "on_pg (pg_write enc) c = Some (Ok (), c')" "moves_on c c' w (enc (fst (out_of c)), snd (out_of c)) (pc_pending c)"
proof -
  from pg_write_run [of enc "pc_stream c" pending sent] obtain s' where
    s': "pg_write enc (pc_stream c) = Some (Ok (), s')" "pg_inp pending s' = pg_inp pending (pc_stream c)"
      "listening s' = listening (pc_stream c)" "pg_out sent s' = (enc (fst (out_of c)), snd (out_of c))" by blast
  show ?thesis
    by (rule that [of "c\<lparr>pc_stream := s'\<rparr>"]) (use s' assms in \<open>simp_all add: on_pg_run moves_def kept_def\<close>)
qed

lemma write_checked_moves:
  assumes "reads c w" and "enc (fst (out_of c)) = Ok b"
  obtains c' where "on_pg (pg_write_checked enc) c = Some (Ok (), c')" "moves_on c c' w (b, snd (out_of c)) (pc_pending c)"
proof -
  from write_moves [OF assms(1), of "\<lambda>_. b"] obtain c' where
    c': "on_pg (pg_write (\<lambda>_. b)) c = Some (Ok (), c')" "moves_on c c' w (b, snd (out_of c)) (pc_pending c)" by auto
  have "pg_write_checked enc (pc_stream c) = pg_write (\<lambda>_. b) (pc_stream c)"
    using assms(2) by (simp add: pg_write_checked_def aop_run pg_out_def)
  with c' that show ?thesis by (auto simp: on_pg_def)
qed

lemma sync_moves:
  assumes "reads c w"
  obtains c' where "write_sync c = Some (Ok (), c')" "moves_on c c' w (sync_encode (fst (out_of c)), snd (out_of c)) (pc_pending c + 1)"
proof -
  from write_moves [OF assms, of sync_encode] obtain c1 where
    c1: "on_pg (pg_write sync_encode) c = Some (Ok (), c1)"
      "moves_on c c1 w (sync_encode (fst (out_of c)), snd (out_of c)) (pc_pending c)" by blast
  show ?thesis
    by (rule that [of "c1\<lparr>pc_pending := pc_pending c1 + 1\<rparr>"])
      (use c1 in \<open>simp_all add: write_sync_def aop_run moves_def kept_def\<close>)
qed

lemma flush_moves:
  assumes "reads c w"
  obtains c' where "on_pg (pg_flush (e_N E)) c = Some (Ok (), c')" "moves_on c c' w ([], snd (out_of c) @ fst (out_of c)) (pc_pending c)"
proof -
  from pg_flush_inp [of "pc_stream c"] obtain s' where
    s': "pg_flush (e_N E) (pc_stream c) = Some (Ok (), s')" "pg_inp pending s' = pg_inp pending (pc_stream c)"
      "listening s' = listening (pc_stream c)" "pg_out sent s' = ([], snd (out_of c) @ fst (out_of c))" by blast
  show ?thesis
    by (rule that [of "c\<lparr>pc_stream := s'\<rparr>"]) (use s' assms in \<open>simp_all add: on_pg_run moves_def kept_def\<close>)
qed

lemma moves_reads: "moves_on c c' w o' p \<Longrightarrow> reads c' w \<and> out_of c' = o' \<and> pc_pending c' = p"
  by (simp add: moves_def)

lemma recv_desc_params_moves:
  assumes "next_message (conn_ctx E c) ms m" and "reads c (msgs_wire ms @ w)" and "msg_format m = MF_ParameterDescription"
    and "parameter_description_decode (e_B E) (msg_contents m) = Ok ts"
  obtains c' where "recv_desc_params E c = Some (Ok ts, c')" "moves_on c c' w (out_of c) (pc_pending c)"
  using recv_expect_next [OF assms(1-3), where dec = "parameter_description_decode (e_B E)"] assms(4)
  unfolding recv_desc_params_def by blast

lemma recv_desc_rows_moves:
  assumes "next_message (conn_ctx E c) ms m" and "reads c (msgs_wire ms @ w)"
    and "msg_format m = MF_RowDescription \<and> row_description_decode (e_C E) (e_B E) (msg_contents m) = Ok fs \<or>
      msg_format m = MF_NoData \<and> fs = []"
  obtains c' where "recv_desc_rows E c = Some (Ok (if msg_format m = MF_NoData then None else Some fs), c')"
    "moves_on c c' w (out_of c) (pc_pending c)"
proof -
  from recv_next [OF assms(1,2)] obtain c' where
    c': "recv c = Some (Ok m, c')" "moves_on c c' w (out_of c) (pc_pending c)" by blast
  then have "recv_desc_rows E c = Some (Ok (if msg_format m = MF_NoData then None else Some fs), c')"
    using assms(3) by (auto simp: recv_desc_rows_def abind_Ok aop_run)
  with c'(2) that show ?thesis by blast
qed

text \<open>Descriptions whose types are known are resolved without asking the server.\<close>

lemma handle_parameters_known:
  assumes "known_types R" and "list_all (known (pc_cache_type_info c)) ts"
  shows "handle_parameter_description R ts c = Some (Ok (map (resolve (pc_cache_type_info c)) ts), c)"
  using assms(2) by (induction ts) (use assms(1) in \<open>simp_all add: known_types_def aop_run\<close>)

lemma describe_columns_known:
  assumes "known_types R" and "list_all (\<lambda>f. known (pc_cache_type_info c) (f_data_type_id f)) fs"
  shows "describe_columns R True i fs c = Some (Ok (columns_from (resolve (pc_cache_type_info c)) i fs), c)"
  using assms(2) by (induction fs arbitrary: i) (use assms(1) in \<open>simp_all add: known_types_def aop_run column_of_def\<close>)

lemma handle_rows_known:
  assumes "known_types R" and "list_all (\<lambda>f. known (pc_cache_type_info c) (f_data_type_id f)) fs" and "b \<Longrightarrow> fs = []"
  shows "handle_row_description R (if b then None else Some fs) True c =
    Some (Ok (columns_from (resolve (pc_cache_type_info c)) 0 fs, pg_names_of (columns_from (resolve (pc_cache_type_info c)) 0 fs)), c)"
  using assms(3) describe_columns_known [OF assms(1,2), of 0]
  by (auto simp: handle_row_description_def aop_run pg_names_of_def)

lemma param_oids_known:
  assumes "list_all2 (\<lambda>t oid. type_oid t = Ok oid) tys oids"
  shows "param_oids E R tys c = Some (Ok oids, c)"
  using assms
proof (induction tys oids rule: list_all2_induct)
  case (Cons t tys oid oids)
  then show ?case by (cases t) (simp_all add: aop_run type_oid_def try_oid_def)
qed (simp add: aop_run)

text \<open>Preparing: what is written and what is read, with the rest of the operation as a continuation.\<close>

lemma prepare_sends:
  assumes "reads c w" and "pc_pending c = 0" and "fst (out_of c) = []" and "parse_encode (e_B E) i sql oids [] = Ok b"
  obtains c' where
    "\<And>k. athen (on_pg (pg_write_checked (parse_encode (e_B E) i sql oids)))
      (athen (on_pg (pg_write (describe_encode (e_B E) (Describe_Statement i))))
      (athen write_sync (athen (on_pg (pg_flush (e_N E))) k))) c = k c'"
    "moves_on c c' w ([], snd (out_of c) @ prepare_bytes (e_B E) i sql oids) 1"
proof -
  from write_checked_moves [OF assms(1), of "parse_encode (e_B E) i sql oids" b] assms(2-4) obtain c1 where
    c1: "on_pg (pg_write_checked (parse_encode (e_B E) i sql oids)) c = Some (Ok (), c1)"
      "moves_on c c1 w (b, snd (out_of c)) 0" by auto
  from write_moves [of c1 w "describe_encode (e_B E) (Describe_Statement i)"] moves_reads [OF c1(2)] obtain c2 where
    c2: "on_pg (pg_write (describe_encode (e_B E) (Describe_Statement i))) c1 = Some (Ok (), c2)"
      "moves_on c1 c2 w (describe_encode (e_B E) (Describe_Statement i) b, snd (out_of c)) 0" by auto
  from sync_moves [of c2 w] moves_reads [OF c2(2)] obtain c3 where
    c3: "write_sync c2 = Some (Ok (), c3)"
      "moves_on c2 c3 w (sync_encode (describe_encode (e_B E) (Describe_Statement i) b), snd (out_of c)) 1" by auto
  from flush_moves [of c3 w] moves_reads [OF c3(2)] assms(4) obtain c4 where
    c4: "on_pg (pg_flush (e_N E)) c3 = Some (Ok (), c4)"
      "moves_on c3 c4 w ([], snd (out_of c) @ prepare_bytes (e_B E) i sql oids) 1" by (auto simp: prepare_bytes_def)
  from c1(1) c2(1) c3(1) c4(1) show ?thesis
    by (intro that [OF _ moves_trans [OF c1(2) moves_trans [OF c2(2) moves_trans [OF c3(2) c4(2)]]]]) (simp add: athen_Ok)
qed

lemma prepare_receives:
  assumes "prepare_answer (conn_ctx E c) ms ts fs" and "reads c (msgs_wire ms @ w)" and "pc_pending c = 1"
  obtains c' rows where
    "\<And>k. abind (on_pg (pg_recv_expect (e_C E) (e_B E) (e_N E) MF_ParseComplete (\<lambda>_. Ok ()))) (\<lambda>_.
      abind (recv_desc_params E) (\<lambda>params. abind (recv_desc_rows E) (\<lambda>rows. athen (recv_ready_for_query E) (k params rows)))) c =
      k ts rows c'"
    "rows = None \<and> fs = [] \<or> rows = Some fs" "moves_on c c' w (out_of c) 0"
proof -
  from assms(1) obtain ms0 ms1 ms2 ms3 m0 m1 m2 where
    a: "ms = ms0 @ ms1 @ ms2 @ ms3" "next_message (conn_ctx E c) ms0 m0" "msg_format m0 = MF_ParseComplete"
      "next_message (conn_ctx E c) ms1 m1" "msg_format m1 = MF_ParameterDescription"
      "parameter_description_decode (e_B E) (msg_contents m1) = Ok ts" "next_message (conn_ctx E c) ms2 m2"
      "msg_format m2 = MF_RowDescription \<and> row_description_decode (e_C E) (e_B E) (msg_contents m2) = Ok fs \<or>
       msg_format m2 = MF_NoData \<and> fs = []" "ready_message (conn_ctx E c) ms3"
    by (cases rule: prepare_answer.cases) auto
  from recv_expect_next [of c ms0 m0 "msgs_wire (ms1 @ ms2 @ ms3) @ w" MF_ParseComplete "\<lambda>_. Ok ()" "()"] a assms(2,3) obtain c1 where
    c1: "on_pg (pg_recv_expect (e_C E) (e_B E) (e_N E) MF_ParseComplete (\<lambda>_. Ok ())) c = Some (Ok (), c1)"
      "moves_on c c1 (msgs_wire (ms1 @ ms2 @ ms3) @ w) (out_of c) 1" by auto
  from recv_desc_params_moves [of c1 ms1 m1 "msgs_wire (ms2 @ ms3) @ w" ts] a moves_reads [OF c1(2)] moves_ctx [OF c1(2), of E]
  obtain c2 where c2: "recv_desc_params E c1 = Some (Ok ts, c2)" "moves_on c1 c2 (msgs_wire (ms2 @ ms3) @ w) (out_of c) 1" by auto
  note m2 = moves_trans [OF c1(2) c2(2)]
  from recv_desc_rows_moves [of c2 ms2 m2 "msgs_wire ms3 @ w" fs] a moves_reads [OF m2] moves_ctx [OF m2, of E]
  obtain c3 where c3: "recv_desc_rows E c2 = Some (Ok (if msg_format m2 = MF_NoData then None else Some fs), c3)"
    "moves_on c2 c3 (msgs_wire ms3 @ w) (out_of c) 1" by auto
  note m3 = moves_trans [OF m2 c3(2)]
  from recv_ready_next [of c3 ms3 w] a moves_reads [OF m3] moves_ctx [OF m3, of E]
  obtain c4 where c4: "recv_ready_for_query E c3 = Some (Ok (), c4)" "moves_on c3 c4 w (out_of c) 0" by auto
  show ?thesis
    by (rule that [OF _ _ moves_trans [OF m3 c4(2)], of "if msg_format m2 = MF_NoData then None else Some fs"])
      (use c1(1) c2(1) c3(1) c4(1) a(8) in \<open>auto simp: athen_Ok abind_Ok\<close>)
qed

lemma prepare_moves:
  assumes "prepare_answer (conn_ctx E c) ms ts fs" and "reads c (msgs_wire ms @ w)"
    and "pc_pending c = 0" and "fst (out_of c) = []" and "known_types R"
    and "list_all (known (pc_cache_type_info c)) ts" and "list_all (\<lambda>f. known (pc_cache_type_info c) (f_data_type_id f)) fs"
    and "list_all2 (\<lambda>t oid. type_oid t = Ok oid) tys oids"
    and "parse_encode (e_B E) (pc_next_statement_id c) sql oids [] = Ok b"
  obtains c' where
    "pg_prepare E R sql tys None c = Some (Ok (pc_next_statement_id c, described (resolve (pc_cache_type_info c)) fs
       (map (resolve (pc_cache_type_info c)) ts)), c')"
    "moves_on (c\<lparr>pc_next_statement_id := pc_next_statement_id c + 1\<rparr>) c' w
       ([], snd (out_of c) @ prepare_bytes (e_B E) (pc_next_statement_id c) sql oids) 0"
proof -
  let ?i = "pc_next_statement_id c" and ?ty = "resolve (pc_cache_type_info c)"
  let ?c = "c\<lparr>pc_next_statement_id := ?i + 1\<rparr>"
  let ?out = "([], snd (out_of c) @ prepare_bytes (e_B E) ?i sql oids)"
  have x: "conn_ctx E ?c = conn_ctx E c" by (simp add: conn_ctx_def)
  have w0: "pg_wait_until_ready E ?c = Some (Ok (), ?c)" using assms(3,4) by (simp add: wait_quiet)
  obtain c1 where
    c1: "\<And>k :: (('s, 'c) pg_conn, u32 \<times> pg_metadata) aop. athen (on_pg (pg_write_checked (parse_encode (e_B E) ?i sql oids)))
      (athen (on_pg (pg_write (describe_encode (e_B E) (Describe_Statement ?i))))
      (athen write_sync (athen (on_pg (pg_flush (e_N E))) k))) ?c = k c1" "moves_on ?c c1 (msgs_wire ms @ w) ?out 1"
    by (rule prepare_sends [of ?c "msgs_wire ms @ w" ?i sql oids b]) (use assms(2-4,9) in auto)
  note r1 = moves_reads [OF c1(2)]
  have a1: "prepare_answer (conn_ctx E c1) ms ts fs" using assms(1) moves_ctx [OF c1(2), of E] x by simp
  obtain c2 rows where
    c2: "\<And>k :: u32 list \<Rightarrow> field list option \<Rightarrow> (('s, 'c) pg_conn, u32 \<times> pg_metadata) aop. abind (on_pg (pg_recv_expect (e_C E) (e_B E) (e_N E) MF_ParseComplete (\<lambda>_. Ok ()))) (\<lambda>_.
      abind (recv_desc_params E) (\<lambda>params. abind (recv_desc_rows E) (\<lambda>rows. athen (recv_ready_for_query E) (k params rows)))) c1 =
      k ts rows c2" "rows = None \<and> fs = [] \<or> rows = Some fs" "moves_on c1 c2 w ?out 0"
    by (rule prepare_receives [OF a1, of w]) (use r1 in auto)
  note m2 = moves_trans [OF c1(2) c2(3)]
  then have t: "pc_cache_type_info c2 = pc_cache_type_info c" by (simp add: moves_def kept_def)
  have w2: "pg_wait_until_ready E c2 = Some (Ok (), c2)" using moves_reads [OF m2] by (simp add: wait_quiet)
  have h: "handle_row_description R rows True c2 = Some (Ok (columns_from ?ty 0 fs, pg_names_of (columns_from ?ty 0 fs)), c2)"
    using handle_rows_known [of R c2 fs "rows = None"] c2(2) assms(5,7) t by auto
  have "pg_prepare E R sql tys None c = Some (Ok (?i, described ?ty fs (map ?ty ts)), c2)"
    using w0 w2 h param_oids_known [OF assms(8), of R ?c] handle_parameters_known [of R c2 ts] assms(5,6) t
    by (simp add: pg_prepare_def abind_Ok athen_Ok aget_run amodify_run aret_run c1(1) c2(1) described_def)
  with m2 that show ?thesis by blast
qed

end

section \<open>The statement cache at work\<close>

locale pg_prepared = pg_client E pending sent + lru_laws "e_L E" recency ok
  for E :: "('s, 'c, 'dt, 'd, 'i) pg_env" and pending :: "'s \<Rightarrow> bytes" and sent :: "'s \<Rightarrow> bytes"
    and recency :: "'c \<Rightarrow> (u32 \<times> pg_metadata) recency" and ok :: "'c \<Rightarrow> bool"
begin

abbreviation inserted :: "('s, 'c) pg_conn \<Rightarrow> bytes \<Rightarrow> u32 \<times> pg_metadata \<Rightarrow> (u32 \<times> pg_metadata) option \<times> (u32 \<times> pg_metadata) recency" where
  "inserted c sql st \<equiv> spec_insert (lru_cap (e_L E) (pc_cache_statement c)) sql st (recency (pc_cache_statement c))"

lemma cached_statement_hit:
  assumes "ok (pc_cache_statement c)" and "map_of (recency (pc_cache_statement c)) sql = Some st"
  obtains cache where "pg_get_or_prepare E R sql tys store md c = Some (Ok st, c\<lparr>pc_cache_statement := cache\<rparr>)" "ok cache"
    "lru_cap (e_L E) cache = lru_cap (e_L E) (pc_cache_statement c)"
    "recency cache = (sql, st) # drop_key sql (recency (pc_cache_statement c))"
  using get_mut_law [OF assms(1), of sql "\<lambda>v. v"] assms(2)
  by (auto simp: pg_get_or_prepare_def cache_get_mut_def spec_get_def)

lemma close_one_moves:
  assumes "close_answer (conn_ctx E c) (Some old) ms" and "reads c (msgs_wire ms @ w)" and "pc_pending c = 0" and "fst (out_of c) = []"
  obtains c' where
    "athen (on_pg (pg_write (close_encode (e_B E) (Close_Statement (fst old)))))
      (athen write_sync (athen (on_pg (pg_flush (e_N E))) (athen (wait_for_close_complete E 1)
      (athen (recv_ready_for_query E) (aret st))))) c = Some (Ok st, c')"
    "moves_on c c' w ([], snd (out_of c) @ close_bytes (e_B E) (Some old)) 0"
proof -
  let ?out = "([], snd (out_of c) @ close_bytes (e_B E) (Some old))" and ?w = "msgs_wire ms @ w"
  from assms(1) obtain ms1 m ms2 where
    a: "ms = ms1 @ ms2" "next_message (conn_ctx E c) ms1 m" "msg_format m = MF_CloseComplete" "ready_message (conn_ctx E c) ms2"
    by (auto simp: close_answer_def)
  from write_moves [OF assms(2), of "close_encode (e_B E) (Close_Statement (fst old))"] assms(3,4) obtain c1 where
    c1: "on_pg (pg_write (close_encode (e_B E) (Close_Statement (fst old)))) c = Some (Ok (), c1)"
      "moves_on c c1 ?w (close_encode (e_B E) (Close_Statement (fst old)) [], snd (out_of c)) 0" by auto
  from sync_moves [of c1 ?w] moves_reads [OF c1(2)] obtain c2 where
    c2: "write_sync c1 = Some (Ok (), c2)"
      "moves_on c1 c2 ?w (sync_encode (close_encode (e_B E) (Close_Statement (fst old)) []), snd (out_of c)) 1" by auto
  from flush_moves [of c2 ?w] moves_reads [OF c2(2)] obtain c3 where
    c3: "on_pg (pg_flush (e_N E)) c2 = Some (Ok (), c3)" "moves_on c2 c3 ?w ?out 1" by (auto simp: close_bytes_def)
  note m3 = moves_trans [OF c1(2) moves_trans [OF c2(2) c3(2)]]
  from recv_next [of c3 ms1 m "msgs_wire ms2 @ w"] a moves_reads [OF m3] moves_ctx [OF m3, of E] obtain c4 where
    c4: "recv c3 = Some (Ok m, c4)" "moves_on c3 c4 (msgs_wire ms2 @ w) ?out 1" by auto
  note m4 = moves_trans [OF m3 c4(2)]
  have "wait_for_close_complete E 0 c4 = Some (Ok (), c4)" by (subst wait_for_close_complete.simps) (simp add: aret_def)
  then have "wait_for_close_complete E 1 c3 = Some (Ok (), c4)"
    using c4(1) a(3) by (subst wait_for_close_complete.simps) (simp add: abind_Ok)
  moreover from recv_ready_next [of c4 ms2 w] a moves_reads [OF m4] moves_ctx [OF m4, of E] obtain c5 where
    c5: "recv_ready_for_query E c4 = Some (Ok (), c5)" "moves_on c4 c5 w ?out 0" by auto
  ultimately have "athen (on_pg (pg_write (close_encode (e_B E) (Close_Statement (fst old)))))
      (athen write_sync (athen (on_pg (pg_flush (e_N E))) (athen (wait_for_close_complete E 1)
      (athen (recv_ready_for_query E) (aret st))))) c = Some (Ok st, c5)"
    using c1(1) c2(1) c3(1) by (simp add: athen_Ok aret_run)
  with moves_trans [OF m4 c5(2)] that show ?thesis by blast
qed

text \<open>A statement seen for the first time is prepared, stored, and the one it displaces is closed.\<close>

lemma get_or_prepare_miss:
  assumes "pg_prepares E c sql tys oids ms st" and "close_answer (conn_ctx E c) (fst (inserted c sql st)) ms'"
    and "reads c (msgs_wire ms @ msgs_wire ms' @ w)" and "pc_pending c = 0" and "fst (out_of c) = []" and "known_types R"
    and "ok (pc_cache_statement c)" and "map_of (recency (pc_cache_statement c)) sql = None"
  obtains c' cache where "pg_get_or_prepare E R sql tys True None c = Some (Ok st, c')" "ok cache"
    "lru_cap (e_L E) cache = lru_cap (e_L E) (pc_cache_statement c)" "recency cache = snd (inserted c sql st)"
    "moves_on (c\<lparr>pc_next_statement_id := pc_next_statement_id c + 1, pc_cache_statement := cache\<rparr>) c' w
      ([], snd (out_of c) @ prepare_bytes (e_B E) (pc_next_statement_id c) sql oids @ close_bytes (e_B E) (fst (inserted c sql st))) 0"
proof -
  let ?i = "pc_next_statement_id c" and ?out = "snd (out_of c) @ prepare_bytes (e_B E) (pc_next_statement_id c) sql oids"
  from get_mut_law [OF assms(7), of sql "\<lambda>v. v"] assms(8) obtain cache where
    g: "cache_get_mut (e_L E) (pc_cache_statement c) sql (\<lambda>v. v) = (None, cache)" "ok cache"
      "lru_cap (e_L E) cache = lru_cap (e_L E) (pc_cache_statement c)" "recency cache = recency (pc_cache_statement c)"
    by (auto simp: cache_get_mut_def spec_get_def)
  let ?c = "c\<lparr>pc_cache_statement := cache\<rparr>"
  have x: "conn_ctx E ?c = conn_ctx E c" by (simp add: conn_ctx_def)
  from assms(1) obtain ts fs b where
    a: "list_all2 (\<lambda>t oid. type_oid t = Ok oid) tys oids" "parse_encode (e_B E) ?i sql oids [] = Ok b"
      "prepare_answer (conn_ctx E c) ms ts fs" "list_all (known (pc_cache_type_info c)) ts"
      "list_all (\<lambda>f. known (pc_cache_type_info c) (f_data_type_id f)) fs"
      "st = (?i, described (resolve (pc_cache_type_info c)) fs (map (resolve (pc_cache_type_info c)) ts))"
    by (auto simp: pg_prepares_def Let_def)
  from prepare_moves [of ?c ms ts fs "msgs_wire ms' @ w" R tys oids sql b] a assms(3-6) x obtain c1 where
    c1: "pg_prepare E R sql tys None ?c = Some (Ok st, c1)"
      "moves_on (?c\<lparr>pc_next_statement_id := ?i + 1\<rparr>) c1 (msgs_wire ms' @ w) ([], ?out) 0" by auto
  have k1: "pc_cache_statement c1 = cache" using c1(2) by (simp add: moves_def kept_def)
  have en: "cache_is_enabled (e_L E) cache" using ok_recency [OF g(2)] by (simp add: cache_defs recency_ok_def)
  from cache_insert_refines [OF g(2), of sql st] g(3,4) obtain cache' where
    ins: "cache_insert (e_L E) cache sql st = (fst (inserted c sql st), cache')" "ok cache'"
      "lru_cap (e_L E) cache' = lru_cap (e_L E) (pc_cache_statement c)" "recency cache' = snd (inserted c sql st)" by auto
  let ?c2 = "c1\<lparr>pc_cache_statement := cache'\<rparr>" and ?n = "c\<lparr>pc_next_statement_id := ?i + 1, pc_cache_statement := cache'\<rparr>"
  have m2: "moves_on ?n ?c2 (msgs_wire ms' @ w) ([], ?out) 0" using c1(2) by (simp add: moves_def kept_def)
  have x2: "conn_ctx E ?c2 = conn_ctx E c" using moves_ctx [OF m2, of E] by (simp add: conn_ctx_def)
  show ?thesis
  proof (cases "fst (inserted c sql st)")
    case None
    then have "pg_get_or_prepare E R sql tys True None c = Some (Ok st, ?c2)"
      using g(1) c1(1) k1 en ins(1) by (simp add: pg_get_or_prepare_def abind_Ok aop_run)
    with that [OF _ ins(2-4)] m2 None assms(2) show ?thesis by (simp add: close_answer_def close_bytes_def)
  next
    case (Some old)
    from close_one_moves [of ?c2 old ms' w st] Some assms(2) x2 moves_reads [OF m2] obtain c3 where
      c3: "athen (on_pg (pg_write (close_encode (e_B E) (Close_Statement (fst old)))))
        (athen write_sync (athen (on_pg (pg_flush (e_N E))) (athen (wait_for_close_complete E 1)
        (athen (recv_ready_for_query E) (aret st))))) ?c2 = Some (Ok st, c3)"
        "moves_on ?c2 c3 w ([], ?out @ close_bytes (e_B E) (Some old)) 0" by auto
    then have "pg_get_or_prepare E R sql tys True None c = Some (Ok st, c3)"
      using g(1) c1(1) k1 en ins(1) Some by (simp add: pg_get_or_prepare_def abind_Ok aget_run athen_Ok [OF amodify_run])
    with that [OF _ ins(2-4)] moves_trans [OF m2 c3(2)] Some show ?thesis by simp
  qed
qed

lemma apply_patches_cells:
  assumes "list_all2 (\<lambda>v x. arg_cell (e_K E) tz v = Ok x) vs cs" and "pg_from_args (e_K E) vs tz = Ok a" and "length params = length vs"
  shows "apply_patches E R a params c = Some (Ok (concat (map cell_wire (sent_cells params vs cs))), c) \<and>
    pa_types a = map pg_value_type vs"
  using from_args_cells [OF assms(1)] doc_patches_run [OF assms(1), of params 0 "[]"] assms(2,3)
  by (auto simp: apply_patches_def aop_run)

text \<open>Executing a statement of the cache: bind, execute and sync are sent at once.\<close>

lemma run_cached:
  assumes "list_all2 (\<lambda>v x. arg_cell (e_K E) tz v = Ok x) vs cs" and "pg_from_args (e_K E) vs tz = Ok a"
    and "length (pm_parameters md) = length vs" and "reads c w" and "pc_pending c = 0" and "fst (out_of c) = []"
    and "ok (pc_cache_statement c)" and "map_of (recency (pc_cache_statement c)) sql = Some (i, md)"
  obtains c' cache where "pg_run E R sql (Some a) 0 store mdo c = Some (Ok (md, F_Binary), c')" "ok cache"
    "recency cache = (sql, i, md) # drop_key sql (recency (pc_cache_statement c))"
    "moves_on (c\<lparr>pc_cache_statement := cache\<rparr>) c' w
      ([], snd (out_of c) @ execute_bytes (e_B E) i (sent_cells (pm_parameters md) vs cs)) 1"
proof -
  from cached_statement_hit [OF assms(7,8), of R "pa_types a" store mdo] obtain cache where
    h: "pg_get_or_prepare E R sql (pa_types a) store mdo c = Some (Ok (i, md), c\<lparr>pc_cache_statement := cache\<rparr>)" "ok cache"
      "recency cache = (sql, i, md) # drop_key sql (recency (pc_cache_statement c))" by blast
  let ?c = "c\<lparr>pc_cache_statement := cache\<rparr>" and ?cells = "sent_cells (pm_parameters md) vs cs"
  note ap = apply_patches_cells [OF assms(1-3), of R ?c]
  have l: "length (pa_types a) = length ?cells"
    using ap assms(3) list_all2_lengthD [OF assms(1)] by (simp add: sent_cells_def)
  let ?b = "\<lparr>b_portal = None, b_statement = i, b_formats = [F_Binary], b_num_params = of_nat (length ?cells),
    b_params = concat (map cell_wire ?cells), b_result_formats = [F_Binary]\<rparr>"
  have r: "reads ?c w" and wt: "pg_wait_until_ready E c = Some (Ok (), c)" "pg_wait_until_ready E ?c = Some (Ok (), ?c)"
    using assms(4-6) by (simp_all add: wait_quiet)
  from write_moves [OF r, of "bind_encode (e_B E) ?b"] assms(5,6) obtain c1 where
    c1: "on_pg (pg_write (bind_encode (e_B E) ?b)) ?c = Some (Ok (), c1)"
      "moves_on ?c c1 w (bind_encode (e_B E) ?b [], snd (out_of c)) 0" by auto
  from write_moves [of c1 w "pg_execute_encode (e_B E) None 0"] moves_reads [OF c1(2)] obtain c2 where
    c2: "on_pg (pg_write (pg_execute_encode (e_B E) None 0)) c1 = Some (Ok (), c2)"
      "moves_on c1 c2 w (pg_execute_encode (e_B E) None 0 (bind_encode (e_B E) ?b []), snd (out_of c)) 0" by auto
  from sync_moves [of c2 w] moves_reads [OF c2(2)] obtain c3 where
    c3: "write_sync c2 = Some (Ok (), c3)"
      "moves_on c2 c3 w (execute_bytes (e_B E) i ?cells, snd (out_of c)) 1" by (auto simp: execute_bytes_def)
  from flush_moves [of c3 w] moves_reads [OF c3(2)] obtain c4 where
    c4: "on_pg (pg_flush (e_N E)) c3 = Some (Ok (), c4)"
      "moves_on c3 c4 w ([], snd (out_of c) @ execute_bytes (e_B E) i ?cells) 1" by auto
  have "pg_run E R sql (Some a) 0 store mdo c = Some (Ok (md, F_Binary), c4)"
    using wt h(1) ap c1(1) c2(1) c3(1) c4(1) l by (simp add: pg_run_def abind_Ok athen_Ok aret_run)
  with that [OF _ h(2,3)] moves_trans [OF c1(2) moves_trans [OF c2(2) moves_trans [OF c3(2) c4(2)]]] show ?thesis by blast
qed

text \<open>
  \<open>get_rows\<close> with parameters on a statement seen for the first time: one prepare, a close when the cache was full, one
  execution; the statement is then the most recent one of the cache.
\<close>

lemma get_rows_prepared:
  assumes "drains (conn_ctx E c) n old" and "pg_prepares E c sql' (map pg_value_type vs) oids ms (i, md)"
    and "close_answer (conn_ctx E c) (fst (inserted c sql' (i, md))) ms'"
    and "pg_says (conn_ctx E c) (md, F_Binary) ms'' is None"
    and "reads c (msgs_wire old @ msgs_wire ms @ msgs_wire ms' @ msgs_wire ms'' @ w)" and "pc_pending c = of_nat n" and "n < 2 ^ 64"
    and "ok (pc_cache_statement c)" and "map_of (recency (pc_cache_statement c)) sql' = None"
    and "known_types R" and "local_types R" and "pg_exchange (itoa (e_B E)) sql = Ok sql'" and "vs \<noteq> []"
    and "list_all2 (\<lambda>v x. arg_cell (e_K E) (pc_timezone_sec c) v = Ok x) vs cs" and "length (pm_parameters md) = length vs"
  obtains c' cache where "pg_get_rows E R sql vs c = Some (Ok (rows_of_items is), c')" "ok cache"
    "recency cache = snd (inserted c sql' (i, md))"
    "moves_on (c\<lparr>pc_next_statement_id := pc_next_statement_id c + 1, pc_cache_statement := cache\<rparr>) c' w
      ([], snd (out_of c) @ fst (out_of c) @ prepare_bytes (e_B E) i sql' oids @ close_bytes (e_B E) (fst (inserted c sql' (i, md))) @
        execute_bytes (e_B E) i (sent_cells (pm_parameters md) vs cs)) 0"
proof -
  let ?w3 = "msgs_wire ms'' @ w" and ?in = "inserted c sql' (i, md)"
  let ?o1 = "snd (out_of c) @ fst (out_of c)"
  let ?o2 = "?o1 @ prepare_bytes (e_B E) i sql' oids @ close_bytes (e_B E) (fst ?in)"
  let ?o3 = "?o2 @ execute_bytes (e_B E) i (sent_cells (pm_parameters md) vs cs)"
  have i: "i = pc_next_statement_id c" using assms(2) by (auto simp: pg_prepares_def Let_def)
  from wait_until_ready_drains [OF assms(1) _ assms(6,7), of "msgs_wire ms @ msgs_wire ms' @ ?w3"] assms(5) obtain c1 where
    c1: "pg_wait_until_ready E c = Some (Ok (), c1)" "moves_on c c1 (msgs_wire ms @ msgs_wire ms' @ ?w3) ([], ?o1) 0" by auto
  have k1: "pc_next_statement_id c1 = pc_next_statement_id c" "pc_cache_statement c1 = pc_cache_statement c"
    "pc_cache_type_info c1 = pc_cache_type_info c" using c1(2) by (simp_all add: moves_def kept_def)
  note x1 = moves_ctx [OF c1(2), of E]
  have p1: "pg_prepares E c1 sql' (map pg_value_type vs) oids ms (i, md)"
    using assms(2) by (simp add: pg_prepares_def k1 x1)
  have q1: "close_answer (conn_ctx E c1) (fst (inserted c1 sql' (i, md))) ms'" "pc_pending c1 = 0" "fst (out_of c1) = []"
    "reads c1 (msgs_wire ms @ msgs_wire ms' @ ?w3)" "ok (pc_cache_statement c1)" "map_of (recency (pc_cache_statement c1)) sql' = None"
    "snd (out_of c1) = ?o1"
    using assms(3,8,9) x1 k1 moves_reads [OF c1(2)] by simp_all
  obtain c2 cache2 where
    c2: "pg_get_or_prepare E R sql' (map pg_value_type vs) True None c1 = Some (Ok (i, md), c2)" "ok cache2"
      "recency cache2 = snd ?in"
      "moves_on (c1\<lparr>pc_next_statement_id := pc_next_statement_id c + 1, pc_cache_statement := cache2\<rparr>) c2 ?w3 ([], ?o2) 0"
    by (rule get_or_prepare_miss [OF p1 q1(1,4,2,3) assms(10) q1(5,6)]) (use q1(7) k1 i in simp)
  have k2: "pc_cache_statement c2 = cache2" "pc_timezone_sec c2 = pc_timezone_sec c"
    using c2(4) c1(2) by (simp_all add: moves_def kept_def)
  from from_args_cells [OF assms(14)] obtain a where a: "pg_from_args (e_K E) vs (pc_timezone_sec c) = Ok a" by blast
  have f2: "map_of (recency cache2) sql' = Some (i, md)"
    using inserted_is_found [OF ok_recency [OF assms(8)]] by (simp add: c2(3))
  from run_cached [OF assms(14) a assms(15), of c2 ?w3 sql' i R True "Some md"] moves_reads [OF c2(4)] c2(2) k2 f2 obtain c3 cache3 where
    c3: "pg_run E R sql' (Some a) 0 True (Some md) c2 = Some (Ok (md, F_Binary), c3)" "ok cache3"
      "recency cache3 = (sql', i, md) # drop_key sql' (recency cache2)"
      "moves_on (c2\<lparr>pc_cache_statement := cache3\<rparr>) c3 ?w3 ([], ?o3) 1" by auto
  let ?q = "\<lparr>pq_statement = Inr \<lparr>ps_sql = sql', ps_metadata = md\<rparr>, pq_arguments = vs, pq_persistent = True\<rparr>"
  let ?n = "c\<lparr>pc_next_statement_id := pc_next_statement_id c + 1, pc_cache_statement := cache3\<rparr>"
  have m3: "moves_on ?n c3 ?w3 ([], ?o3) 1" using c3(4) c2(4) c1(2) by (simp add: moves_def kept_def)
  have x3: "conn_ctx E c3 = conn_ctx E c" using moves_ctx [OF m3, of E] by (simp add: conn_ctx_def)
  have g: "fetches c2 (PM_Init ?q 0) (md, F_Binary) c3 R"
    using c3(1) k2 a assms(13) by (simp add: fetches_def pg_fetch_next_def aop_run pg_take_arguments_def pg_query_sql_def pg_query_statement_def)
  from collect_says [OF assms(4) x3 [symmetric] _ assms(11), of w pg_push_row "[]", unfolded fold_pg_push_row append_Nil]
    moves_reads [OF m3] obtain c4 where
    c4: "try_collect (pg_fetch_next E R) pg_push_row [] (PM_Run (md, F_Binary)) c3 = Some (Ok (rows_of_items is), c4)"
      "moves_on c3 c4 w ([], ?o3) 0" by auto
  have "pg_open_query E R sql vs c = Some (Ok (PM_Init ?q 0), c2)"
    using assms(12,13) c1(1) c2(1) by (simp add: pg_open_query_def pg_prepare_with_def athen_Ok abind_Ok alift_run aret_run)
  then have "pg_get_rows E R sql vs c = Some (Ok (rows_of_items is), c4)"
    using c4(1) by (simp add: pg_get_rows_def abind_Ok collect_fetches [OF g])
  moreover have "recency cache3 = snd ?in" using insert_absent_front [OF assms(9)] by (simp add: c3(3) c2(3))
  ultimately show ?thesis using that [OF _ c3(2)] moves_trans [OF m3 c4(2)] by simp
qed

end

section \<open>A scripted connection with a statement cache\<close>

interpretation sample_prepared: pg_prepared sample_env script_pending script_out lru_entries lru_list_ok
proof -
  have "e_L sample_env = list_lru" by (simp add: sample_env_def)
  then show "pg_prepared sample_env script_pending script_out lru_entries lru_list_ok"
    by (simp add: pg_prepared_def sample_client.pg_client_axioms lists.lru_laws_axioms)
qed

definition sample_prepare_answer :: "pg_message list" where
  "sample_prepare_answer = [msg_of MF_ParseComplete [], msg_of MF_ParameterDescription (to_be (1 :: u16) @ to_be (23 :: u32)),
     msg_of MF_RowDescription (to_be (1 :: u16) @ field_wire sample_field), sample_ready]"

definition sample_bound_response :: "pg_message list" where
  "sample_bound_response = [msg_of MF_BindComplete [], msg_of MF_DataRow (data_row_wire [Some (lit ''x'')]), sample_ready]"

definition sample_pg_meta :: pg_metadata where
  "sample_pg_meta = described (resolve Map.empty) [sample_field] [Builtin ''Int4'']"

lemma next_one: "delivered (sx_listening X) m \<Longrightarrow> next_message X [m] m"
  by (simp add: next_message_def)

lemma sample_ready_next: "ready_message sample_ctx [sample_ready]"
proof -
  have "ready_for_query_decode (lit ''I'') = Ok TS_Idle" by code_simp
  then show ?thesis
    unfolding ready_message_def
    by (intro exI [of _ sample_ready] exI [of _ TS_Idle] conjI next_one)
      (simp_all add: sample_ctx_def sample_ready_def sample_delivered del: lit_Cons)
qed

lemma sample_pg_prepares:
  "pg_prepares sample_env (sample_pg_conn input n) sql [Builtin ''Int4''] [23] sample_prepare_answer (1, sample_pg_meta)"
proof -
  have d: "row_description_decode std_crates std_pg_crates (to_be (1 :: u16) @ field_wire sample_field) = Ok [sample_field]"
    using std_pg.row_description_decode_wire [of "[sample_field]"] by (simp add: field_ok_def sample_field_def)
  have p: "parameter_description_decode std_pg_crates (to_be (1 :: u16) @ to_be (23 :: u32)) = Ok [23]"
    "type_oid (Builtin ''Int4'') = Ok 23" "try_from_oid 23 = Some (Builtin ''Int4'')" "try_from_oid 25 \<noteq> None" by code_simp+
  have l: "length (to_be (1 :: u16) @ field_wire sample_field) < 100" by (simp add: field_wire_def sample_field_def)
  have "prepare_answer sample_ctx ([msg_of MF_ParseComplete []] @ [msg_of MF_ParameterDescription (to_be (1 :: u16) @ to_be (23 :: u32))] @
      [msg_of MF_RowDescription (to_be (1 :: u16) @ field_wire sample_field)] @ [sample_ready]) [23] [sample_field]"
    by (rule prepare_answer.intros [OF next_one _ next_one _ _ next_one _ sample_ready_next])
      (use sample_delivered [OF _ l, of MF_RowDescription] in \<open>simp_all add: sample_ctx_def sample_delivered d p\<close>)
  then have "prepare_answer sample_ctx sample_prepare_answer [23] [sample_field]" by (simp add: sample_prepare_answer_def)
  moreover obtain b where "parse_encode (e_B sample_env) (pc_next_statement_id (sample_pg_conn input n)) sql [23] [] = Ok b"
    by (simp add: parse_encode_def)
  moreover have "pc_cache_type_info (sample_pg_conn input n) = Map.empty" "pc_next_statement_id (sample_pg_conn input n) = 1"
    by (simp_all add: sample_pg_conn_def)
  moreover have "list_all (known Map.empty) [23]" "list_all (\<lambda>f. known Map.empty (f_data_type_id f)) [sample_field]"
    "map (resolve Map.empty) [23] = [Builtin ''Int4'']"
    using p by (simp_all add: known_def sample_field_def resolve_def)
  ultimately show ?thesis using p(2) unfolding pg_prepares_def Let_def sample_pg_ctx sample_pg_meta_def
    by (intro exI [of _ "[23]"] exI [of _ "[sample_field]"] exI [of _ b]) simp
qed

lemma sample_bound_says:
  "\<exists>rs. pg_says sample_ctx (sample_pg_meta, F_Binary) sample_bound_response
    [row_item (sample_pg_meta, F_Binary) None \<lparr>row_storage = [Some (lit ''x'')], row_values = rs\<rparr>] None"
proof -
  obtain rs where r: "data_row_decode std_pg_crates (data_row_wire [Some (lit ''x'')]) = Ok \<lparr>row_storage = [Some (lit ''x'')], row_values = rs\<rparr>"
    using sample_row_decodes by blast
  have l: "length (data_row_wire [Some (lit ''x'')]) < 100" by (simp add: data_row_wire_def)
  have i: "ready_for_query_decode (lit ''I'') = Ok TS_Idle" by code_simp
  have x: "sx_B sample_ctx = std_pg_crates" "sx_listening sample_ctx = False" by (simp_all add: sample_ctx_def)
  have "pg_says sample_ctx v [sample_ready] [] None" for v
    by (rule says_ready [where st = TS_Idle]) (simp_all add: x i sample_ready_def sample_delivered del: lit_Cons)
  then have "pg_says sample_ctx (sample_pg_meta, F_Binary) sample_bound_response
      [row_item (sample_pg_meta, F_Binary) (sx_tz sample_ctx) \<lparr>row_storage = [Some (lit ''x'')], row_values = rs\<rparr>] None"
    unfolding sample_bound_response_def
    by (intro says_harmless [OF _ _ says_row]) (simp_all add: x r l sample_delivered harmless_def del: lit_Cons)
  then show ?thesis by (auto simp: sample_ctx_def)
qed

section \<open>Properties\<close>

text \<open>C3: A query with parameters on a statement that is not in the cache.  What earlier queries left outstanding is read
  first; then exactly one parse-describe-sync, a close-sync for the statement that has to leave a full cache, and one
  bind-execute-sync carrying one cell per argument are written; the rows of the response are returned in order; and
  the cache follows its LRU contract, with the new statement in front under the next statement number.\<close>

theorem pg_parameterised_query:
  assumes "pg_prepared E pending sent recency ok" and "drains (conn_ctx E c) n old" and "n < 2 ^ 64" and "pc_pending c = of_nat n"
    and "ok (pc_cache_statement c)" and "map_of (recency (pc_cache_statement c)) sql' = None"
    and "pg_prepares E c sql' (map pg_value_type vs) oids ms (i, md)"
    and "spec_insert (lru_cap (e_L E) (pc_cache_statement c)) sql' (i, md) (recency (pc_cache_statement c)) = (evicted, es)"
    and "close_answer (conn_ctx E c) evicted ms'" and "pg_says (conn_ctx E c) (md, F_Binary) ms'' is None"
    and "pg_inp pending (pc_stream c) (msgs_wire old @ msgs_wire ms @ msgs_wire ms' @ msgs_wire ms'' @ w)"
    and "pg_out sent (pc_stream c) = (wb, snt)" and "pg_exchange (itoa (e_B E)) sql = Ok sql'" and "vs \<noteq> []"
    and "list_all2 (\<lambda>v x. arg_cell (e_K E) (pc_timezone_sec c) v = Ok x) vs cs" and "length (pm_parameters md) = length vs"
  shows "\<exists>c'. pg_get_rows E (pg_rec_at d E) sql vs c = Some (Ok (rows_of_items is), c') \<and> pc_pending c' = 0 \<and>
    pg_inp pending (pc_stream c') w \<and> ok (pc_cache_statement c') \<and> recency (pc_cache_statement c') = es \<and>
    pc_next_statement_id c' = pc_next_statement_id c + 1 \<and>
    pg_out sent (pc_stream c') = ([], snt @ wb @ prepare_bytes (e_B E) i sql' oids @ close_bytes (e_B E) evicted @
      execute_bytes (e_B E) i (sent_cells (pm_parameters md) vs cs))"
proof -
  have ev: "close_answer (conn_ctx E c) (fst (spec_insert (lru_cap (e_L E) (pc_cache_statement c)) sql' (i, md)
      (recency (pc_cache_statement c)))) ms'" using assms(8,9) by simp
  obtain c' cache where "pg_get_rows E (pg_rec_at d E) sql vs c = Some (Ok (rows_of_items is), c')" "ok cache" "recency cache = es"
    "moves pending sent (c\<lparr>pc_next_statement_id := pc_next_statement_id c + 1, pc_cache_statement := cache\<rparr>) c' w
      ([], snt @ wb @ prepare_bytes (e_B E) i sql' oids @ close_bytes (e_B E) evicted @
        execute_bytes (e_B E) i (sent_cells (pm_parameters md) vs cs)) 0"
    by (rule pg_prepared.get_rows_prepared [OF assms(1,2,7) ev assms(10,11,4,3,5,6) known_types_rec_at local_types_rec_at assms(13-16)])
      (use assms(8,12) in simp)
  then show ?thesis by (auto simp: moves_def kept_def)
qed

theorem pg_parameterised_query_witness:
  "\<exists>c' r. pg_get_rows sample_env (pg_rec_at 0 sample_env) (lit ''select ?'') [V_I32 5]
      (sample_pg_conn (msgs_wire sample_prepare_answer @ msgs_wire sample_bound_response) 0) = Some (Ok [r], c') \<and>
    row_storage (pr_data r) = [Some (lit ''x'')] \<and> pr_format r = F_Binary \<and>
    lru_entries (pc_cache_statement c') = [(lit ''select $1'', 1, sample_pg_meta)] \<and>
    pg_out script_out (pc_stream c') =
      ([], prepare_bytes std_pg_crates 1 (lit ''select $1'') [23] @ execute_bytes std_pg_crates 1 [Some [0, 0, 0, 5]])"
proof -
  let ?c = "sample_pg_conn (msgs_wire sample_prepare_answer @ msgs_wire sample_bound_response) 0"
  obtain rs where s: "pg_says (conn_ctx sample_env ?c) (sample_pg_meta, F_Binary) sample_bound_response
    [row_item (sample_pg_meta, F_Binary) None \<lparr>row_storage = [Some (lit ''x'')], row_values = rs\<rparr>] None"
    using sample_bound_says by (auto simp only: sample_pg_ctx)
  have k: "lru_list_ok (pc_cache_statement ?c)" "lru_entries (pc_cache_statement ?c) = []" "pc_timezone_sec ?c = None"
    by (simp_all add: sample_pg_conn_def list_lru_def lru_list_ok_def recency_ok_def)
  then have m: "map_of (lru_entries (pc_cache_statement ?c)) (lit ''select $1'') = None" by simp
  have sp: "spec_insert (lru_cap (e_L sample_env) (pc_cache_statement ?c)) (lit ''select $1'') (1, sample_pg_meta)
      (lru_entries (pc_cache_statement ?c)) = (None, [(lit ''select $1'', 1, sample_pg_meta)])"
    by (simp add: k(2) spec_insert_def sample_env_def sample_pg_conn_def list_lru_def del: lit_Cons)
  have x: "pg_exchange (itoa (e_B sample_env)) (lit ''select ?'') = Ok (lit ''select $1'')" by code_simp
  have b: "to_be (5 :: u32) = [0, 0, 0, 5]" by code_simp
  have e: "e_K sample_env = sample_pg_kit" "e_B sample_env = std_pg_crates" by (simp_all add: sample_env_def)
  have c: "list_all2 (\<lambda>v y. arg_cell (e_K sample_env) (pc_timezone_sec ?c) v = Ok y) [V_I32 5] [Some [0, 0, 0, 5]]"
    by (simp add: arg_cell_def pg_value_encode_def b)
  have p: "pg_prepares sample_env ?c (lit ''select $1'') (map pg_value_type [V_I32 5]) [23] sample_prepare_answer (1, sample_pg_meta)"
    using sample_pg_prepares by (simp add: pg_value_type_def del: lit_Cons)
  have l: "length (pm_parameters sample_pg_meta) = length [V_I32 5]"
    "sent_cells (pm_parameters sample_pg_meta) [V_I32 5] [Some [0, 0, 0, 5]] = [Some [0, 0, 0, 5]]"
    by (simp_all add: sample_pg_meta_def described_def sent_cells_def sent_cell_def is_document_def)
  have d: "drains (conn_ctx sample_env ?c) 0 []" by (rule drains_Nil)
  have ca: "close_answer (conn_ctx sample_env ?c) (None :: (u32 \<times> pg_metadata) option) []" by (simp add: close_answer_def)
  have i: "pg_inp script_pending (pc_stream ?c) (msgs_wire [] @ msgs_wire sample_prepare_answer @ msgs_wire [] @
      msgs_wire sample_bound_response @ [])" by simp
  from pg_parameterised_query [OF sample_prepared.pg_prepared_axioms d _ sample_pg_conn_simps(3) k(1) m p sp ca s i
      sample_pg_conn_simps(2) x _ c l(1), of 0]
  show ?thesis by (auto simp: rows_of_items_def row_item_def l(2) e close_bytes_def simp del: lit_Cons msgs_wire_simps)
qed

end
