(* ===== verification/Pg_Options.thy ===== *)
theory Pg_Options
  imports Mysql_Options Pg_Stream
begin

text \<open>
  Connection options of the PostgreSQL driver (\<open>rbdc-pg/src/options\<close>): defaults from the environment, connection URLs
  and password files.  Files, environment variables, the login name and the home directory are an environment record;
  the model is the one of a Linux build, which checks the permissions of a password file.
\<close>

section \<open>The environment\<close>

record pg_environ =
  env_var :: "string \<Rightarrow> bytes option"
  env_pgpassfile :: "bytes option"
  path_exists :: "bytes \<Rightarrow> bool"
  login_name :: bytes
  home_dir :: "bytes option"
  open_file :: "bytes \<Rightarrow> (u32 \<times> bytes) option"

text \<open>\<open>open_file\<close> gives the mode and the contents of a file.\<close>

section \<open>Options\<close>

datatype pg_ssl_mode = Pg_Disable | Pg_Allow | Pg_Prefer | Pg_Require | Pg_VerifyCa | Pg_VerifyFull

definition pg_ssl_mode_default :: pg_ssl_mode where
  "pg_ssl_mode_default = Pg_Disable"

definition pg_ssl_mode_from_str :: "bytes \<Rightarrow> pg_ssl_mode res" where
  "pg_ssl_mode_from_str s =
     (let l = map ascii_lower s in
      if l = lit ''disable'' then Ok Pg_Disable
      else if l = lit ''allow'' then Ok Pg_Allow
      else if l = lit ''prefer'' then Ok Pg_Prefer
      else if l = lit ''require'' then Ok Pg_Require
      else if l = lit ''verify-ca'' then Ok Pg_VerifyCa
      else if l = lit ''verify-full'' then Ok Pg_VerifyFull
      else Err (Message ''unknown value for `ssl_mode`''))"

record pg_options =
  po_host :: bytes
  po_port :: u16
  po_socket :: "bytes option"
  po_username :: bytes
  po_password :: "bytes option"
  po_database :: "bytes option"
  po_ssl_mode :: pg_ssl_mode
  po_ssl_root_cert :: "certificate option"
  po_statement_cache_capacity :: nat
  po_application_name :: "bytes option"
  po_extra_float_digits :: "bytes option"
  po_options :: "bytes option"
  po_timezone_sec :: "int option"

definition socket_name :: "u16 \<Rightarrow> bytes" where
  "socket_name port = lit ''.s.PGSQL.'' @ dec_digits (unat port)"

fun first_candidate :: "pg_environ \<Rightarrow> bytes \<Rightarrow> bytes list \<Rightarrow> bytes" where
  "first_candidate V socket [] = lit ''localhost''"
| "first_candidate V socket (c # cs) =
     (if path_exists V (c @ lit ''/'' @ socket) then c else first_candidate V socket cs)"

definition default_host :: "pg_environ \<Rightarrow> u16 \<Rightarrow> bytes" where
  "default_host V port =
     first_candidate V (socket_name port) [lit ''/var/run/postgresql'', lit ''/private/tmp'', lit ''/tmp'']"

text \<open>\<open>res::ok\<close>.\<close>

fun res_ok :: "'a res \<Rightarrow> 'a option" where
  "res_ok (Ok v) = Some v"
| "res_ok _ = None"

definition new_without_pgpass :: "pg_environ \<Rightarrow> pg_options" where
  "new_without_pgpass V =
     (let port = or_default 5432 (Option.bind (env_var V ''PGPORT'') parse_u16) in
      \<lparr>po_host = or_default (default_host V port) (env_var V ''PGHOST''), po_port = port, po_socket = None,
       po_username = or_default (login_name V) (env_var V ''PGUSER''), po_password = env_var V ''PGPASSWORD'',
       po_database = env_var V ''PGDATABASE'',
       po_ssl_mode = or_default pg_ssl_mode_default (Option.bind (env_var V ''PGSSLMODE'') (\<lambda>v. res_ok (pg_ssl_mode_from_str v))),
       po_ssl_root_cert = map_option Cert_File (env_var V ''PGSSLROOTCERT''), po_statement_cache_capacity = 100,
       po_application_name = env_var V ''PGAPPNAME'', po_extra_float_digits = Some (lit ''3''),
       po_options = env_var V ''PGOPTIONS'', po_timezone_sec = None\<rparr>)"

definition fetch_socket :: "pg_options \<Rightarrow> bytes option" where
  "fetch_socket opt =
     (case po_socket opt of
        Some socket \<Rightarrow> Some (socket @ lit ''/'' @ socket_name (po_port opt))
      | None \<Rightarrow> if starts_with (lit ''/'') (po_host opt) then Some (po_host opt @ lit ''/'' @ socket_name (po_port opt)) else None)"

text \<open>Run-time parameters are collected in one text.\<close>

fun write_options :: "bytes \<Rightarrow> (bytes \<times> bytes) list \<Rightarrow> bytes" where
  "write_options s [] = s"
| "write_options s ((k, v) # kvs) =
     write_options ((if s = [] then s else s @ lit '' '') @ lit ''-c '' @ k @ lit ''='' @ v) kvs"

definition pg_add_options :: "(bytes \<times> bytes) list \<Rightarrow> pg_options \<Rightarrow> pg_options" where
  "pg_add_options kvs opt = opt\<lparr>po_options := Some (write_options (or_default [] (po_options opt)) kvs)\<rparr>"

definition pg_set_extra_float_digits :: "int option \<Rightarrow> pg_options \<Rightarrow> pg_options" where
  "pg_set_extra_float_digits d opt = opt\<lparr>po_extra_float_digits :=
     map_option (\<lambda>i. (if i < 0 then lit ''-'' else []) @ dec_digits (nat \<bar>i\<bar>)) d\<rparr>"

section \<open>Password files\<close>

definition colon :: u8 where
  "colon = 0x3a"

definition backslash :: u8 where
  "backslash = 0x5c"

text \<open>
  The loop over the characters of a line.  Colon and backslash are ASCII, so bytes and characters are the same here:
  \<open>idx\<close> is the index of the next one, \<open>last_added\<close> where the part that is not copied yet starts.
\<close>

fun next_field_loop :: "bytes \<Rightarrow> bytes \<Rightarrow> nat \<Rightarrow> bool \<Rightarrow> bytes option \<Rightarrow> nat \<Rightarrow> (bytes \<times> bytes) option" where
  "next_field_loop line [] idx escaping escaped_string last_added = None"
| "next_field_loop line (c # cs) idx escaping escaped_string last_added =
     (if c = colon \<and> \<not> escaping then
        Some (case escaped_string of Some s \<Rightarrow> s @ drop last_added (take idx line) | None \<Rightarrow> take idx line,
              drop 1 (drop idx line))
      else if c = backslash then
        (let s = or_default [] escaped_string;
             s = (if escaping then s @ [backslash] else s @ take (idx - last_added) (drop last_added line))
         in next_field_loop line cs (idx + 1) (\<not> escaping) (Some s) (idx + 1))
      else next_field_loop line cs (idx + 1) False escaped_string last_added)"

definition find_next_field :: "bytes \<Rightarrow> (bytes \<times> bytes) option" where
  "find_next_field line = next_field_loop line line 0 False None 0"

definition matches_next_field :: "bytes \<Rightarrow> bytes \<Rightarrow> bytes option" where
  "matches_next_field line v =
     (case find_next_field line of
        Some (field, rest) \<Rightarrow> if field = lit ''*'' \<or> field = v then Some rest else None
      | None \<Rightarrow> None)"

definition load_password_from_line :: "bytes \<Rightarrow> bytes \<Rightarrow> u16 \<Rightarrow> bytes \<Rightarrow> bytes option \<Rightarrow> bytes option" where
  "load_password_from_line line host port username database =
     (if trim_start line = [] \<or> hd (trim_start line) = of_char CHR ''#'' then None
      else
        Option.bind (matches_next_field line host) (\<lambda>line.
        Option.bind (matches_next_field line (dec_digits (unat port))) (\<lambda>line.
        Option.bind (matches_next_field line (or_default [] database)) (\<lambda>line.
        matches_next_field line username))))"

definition trim_newline :: "bytes \<Rightarrow> bytes" where
  "trim_newline s =
     (if ends_with [0x0a] s then (let s = butlast s in if ends_with [0x0d] s then butlast s else s) else s)"

text \<open>\<open>BufRead::read_line\<close>: up to and including the next newline.\<close>

definition line_length :: "bytes \<Rightarrow> nat" where
  "line_length b = (let n = length (takeWhile (\<lambda>x. x \<noteq> 0x0a) b) in if n < length b then n + 1 else n)"

function load_password_from_reader :: "bytes \<Rightarrow> bytes \<Rightarrow> u16 \<Rightarrow> bytes \<Rightarrow> bytes option \<Rightarrow> bytes option" where
  "load_password_from_reader reader host port username database =
     (let n = line_length reader; line = take n reader; rest = drop n reader in
      if n = 0 \<or> \<not> utf8_ok line then None
      else if starts_with (lit ''#'') line then load_password_from_reader rest host port username database
      else
        (case load_password_from_line (trim_newline line) host port username database of
           Some password \<Rightarrow> Some password
         | None \<Rightarrow> load_password_from_reader rest host port username database))"
  by pat_completeness auto
termination
  by (relation "measure (\<lambda>(r, _). length r)") (auto simp: line_length_def Let_def split: if_splits)

definition load_password_from_file :: "pg_environ \<Rightarrow> bytes \<Rightarrow> bytes \<Rightarrow> u16 \<Rightarrow> bytes \<Rightarrow> bytes option \<Rightarrow> bytes option" where
  "load_password_from_file V path host port username database =
     Option.bind (open_file V path) (\<lambda>(mode, contents).
     if mode AND 63 \<noteq> 0 then None else load_password_from_reader contents host port username database)"

definition load_password :: "pg_environ \<Rightarrow> bytes \<Rightarrow> u16 \<Rightarrow> bytes \<Rightarrow> bytes option \<Rightarrow> bytes option" where
  "load_password V host port username database =
     (case Option.bind (env_pgpassfile V) (\<lambda>file. load_password_from_file V file host port username database) of
        Some password \<Rightarrow> Some password
      | None \<Rightarrow>
          Option.bind (home_dir V) (\<lambda>home.
          load_password_from_file V (home @ lit ''/.pgpass'') host port username database))"

definition apply_pgpass :: "pg_environ \<Rightarrow> pg_options \<Rightarrow> pg_options" where
  "apply_pgpass V opt =
     (if po_password opt = None
      then opt\<lparr>po_password := load_password V (po_host opt) (po_port opt) (po_username opt) (po_database opt)\<rparr>
      else opt)"

definition pg_options_new :: "pg_environ \<Rightarrow> pg_options" where
  "pg_options_new V = apply_pgpass V (new_without_pgpass V)"

section \<open>Addresses\<close>

text \<open>What \<open>parse::<IpAddr>\<close> of the standard library accepts.\<close>

definition hex_digit :: "u8 \<Rightarrow> bool" where
  "hex_digit b = (is_digit b \<or> 0x61 \<le> ascii_lower b \<and> ascii_lower b \<le> 0x66)"

definition read_octet :: "bytes \<Rightarrow> bytes option" where
  "read_octet b =
     (let ds = takeWhile is_digit b in
      if ds = [] \<or> 3 < length ds \<or> hd ds = 0x30 \<and> 1 < length ds then None
      else case parse_digits 0 ds of
             Some n \<Rightarrow> if n \<le> 255 then Some (drop (length ds) b) else None
           | None \<Rightarrow> None)"

definition read_group :: "bytes \<Rightarrow> bytes option" where
  "read_group b =
     (let ds = takeWhile hex_digit b in if ds = [] \<or> 4 < length ds then None else Some (drop (length ds) b))"

definition read_given :: "u8 \<Rightarrow> bytes \<Rightarrow> bytes option" where
  "read_given c b = (case b of x # xs \<Rightarrow> if x = c then Some xs else None | [] \<Rightarrow> None)"

definition read_separator :: "u8 \<Rightarrow> nat \<Rightarrow> (bytes \<Rightarrow> bytes option) \<Rightarrow> bytes \<Rightarrow> bytes option" where
  "read_separator c i inner b = (if 0 < i then Option.bind (read_given c b) inner else inner b)"

definition read_ipv4 :: "bytes \<Rightarrow> bytes option" where
  "read_ipv4 b =
     Option.bind (read_octet b) (\<lambda>b.
     Option.bind (read_separator 0x2e 1 read_octet b) (\<lambda>b.
     Option.bind (read_separator 0x2e 2 read_octet b) (read_separator 0x2e 3 read_octet)))"

fun read_groups :: "nat \<Rightarrow> nat \<Rightarrow> bytes \<Rightarrow> nat \<times> bool \<times> bytes" where
  "read_groups 0 i b = (i, False, b)"
| "read_groups (Suc left) i b =
     (case if 0 < left then read_separator colon i read_ipv4 b else None of
        Some b \<Rightarrow> (i + 2, True, b)
      | None \<Rightarrow> (case read_separator colon i read_group b of Some b \<Rightarrow> read_groups left (i + 1) b | None \<Rightarrow> (i, False, b)))"

definition read_ipv6 :: "bytes \<Rightarrow> bytes option" where
  "read_ipv6 b =
     (case read_groups 8 0 b of
        (head_size, head_ipv4, b) \<Rightarrow>
          if head_size = 8 then Some b
          else if head_ipv4 then None
          else Option.bind (read_given colon b) (\<lambda>b. Option.bind (read_given colon b) (\<lambda>b.
            Some (snd (snd (read_groups (8 - (head_size + 1)) 0 b))))))"

definition is_ip_addr :: "bytes \<Rightarrow> bool" where
  "is_ip_addr b = (read_ipv4 b = Some [] \<or> read_ipv4 b = None \<and> read_ipv6 b = Some [])"

section \<open>Connection URLs\<close>

definition pg_set_host_or_socket :: "bytes \<Rightarrow> pg_options \<Rightarrow> pg_options" where
  "pg_set_host_or_socket v opt = (if starts_with (lit ''/'') v then opt\<lparr>po_socket := Some v\<rparr> else opt\<lparr>po_host := v\<rparr>)"

definition parsed :: "'a option \<Rightarrow> ('a \<Rightarrow> 'b) \<Rightarrow> 'b res" where
  "parsed r f = (case r of Some v \<Rightarrow> Ok (f v) | None \<Rightarrow> Err (Message ''invalid integer''))"

definition pg_apply_pair :: "pg_options \<Rightarrow> bytes \<times> bytes \<Rightarrow> pg_options res" where
  "pg_apply_pair opt kv =
     (let key = fst kv; v = snd kv in
      if key = lit ''sslmode'' \<or> key = lit ''ssl-mode'' then
        rbind (pg_ssl_mode_from_str v) (\<lambda>m. Ok (opt\<lparr>po_ssl_mode := m\<rparr>))
      else if key = lit ''sslrootcert'' \<or> key = lit ''ssl-root-cert'' \<or> key = lit ''ssl-ca'' then
        Ok (opt\<lparr>po_ssl_root_cert := Some (Cert_File v)\<rparr>)
      else if key = lit ''statement-cache-capacity'' then
        parsed (parse_usize v) (\<lambda>n. opt\<lparr>po_statement_cache_capacity := n\<rparr>)
      else if key = lit ''host'' then Ok (pg_set_host_or_socket v opt)
      else if key = lit ''hostaddr'' then
        if is_ip_addr v then Ok (opt\<lparr>po_host := v\<rparr>) else Err (Message ''invalid IP address syntax'')
      else if key = lit ''port'' then parsed (parse_u16 v) (\<lambda>p. opt\<lparr>po_port := p\<rparr>)
      else if key = lit ''dbname'' then Ok (opt\<lparr>po_database := Some v\<rparr>)
      else if key = lit ''user'' then Ok (opt\<lparr>po_username := v\<rparr>)
      else if key = lit ''password'' then Ok (opt\<lparr>po_password := Some v\<rparr>)
      else if key = lit ''application_name'' then Ok (opt\<lparr>po_application_name := Some v\<rparr>)
      else if key = lit ''timezone_sec'' then
        parsed (parse_int (- (2 ^ 31)) (2 ^ 31 - 1) v) (\<lambda>n. opt\<lparr>po_timezone_sec := Some n\<rparr>)
      else if key = lit ''options'' then
        Ok (opt\<lparr>po_options := Some (case po_options opt of Some s \<Rightarrow> s @ lit '' '' @ v | None \<Rightarrow> v)\<rparr>)
      else if starts_with (lit ''options['') key then
        (let name = drop 8 key in
         if ends_with (lit '']'') name then Ok (pg_add_options [(butlast name, v)] opt) else Ok opt)
      else Ok opt)"

fun pg_apply_pairs :: "pg_options \<Rightarrow> (bytes \<times> bytes) list \<Rightarrow> pg_options res" where
  "pg_apply_pairs opt [] = Ok opt"
| "pg_apply_pairs opt (kv # kvs) = rbind (pg_apply_pair opt kv) (\<lambda>opt. pg_apply_pairs opt kvs)"

definition pg_options_from_str :: "pg_environ \<Rightarrow> url_crates \<Rightarrow> bytes \<Rightarrow> pg_options res" where
  "pg_options_from_str V U s =
     rbind (parse_url U s) (\<lambda>url.
     let opt = new_without_pgpass V in
     rbind (case url_host_str url of
              None \<Rightarrow> Ok opt
            | Some host \<Rightarrow>
                (let host_decoded = percent_decode U host in
                 if host_decoded \<noteq> [] \<and> hd host_decoded = of_char CHR ''/''
                 then rbind (from_utf8 host_decoded) (\<lambda>p. Ok (opt\<lparr>po_socket := Some p\<rparr>))
                 else Ok (opt\<lparr>po_host := host\<rparr>))) (\<lambda>opt.
     let opt = (case url_port url of Some p \<Rightarrow> opt\<lparr>po_port := p\<rparr> | None \<Rightarrow> opt) in
     rbind (if url_username url \<noteq> []
            then rbind (from_utf8 (percent_decode U (url_username url))) (\<lambda>u. Ok (opt\<lparr>po_username := u\<rparr>))
            else Ok opt) (\<lambda>opt.
     rbind (case url_password url of
              Some p \<Rightarrow> rbind (from_utf8 (percent_decode U p)) (\<lambda>p. Ok (opt\<lparr>po_password := Some p\<rparr>))
            | None \<Rightarrow> Ok opt) (\<lambda>opt.
     let path = dropWhile (\<lambda>b. b = of_char CHR ''/'') (url_path url);
         opt = (if path \<noteq> [] then opt\<lparr>po_database := Some path\<rparr> else opt) in
     rbind (pg_apply_pairs opt (url_query_pairs url)) (\<lambda>opt.
     Ok (apply_pgpass V opt))))))"

definition pg_set_uri :: "pg_environ \<Rightarrow> url_crates \<Rightarrow> bytes \<Rightarrow> pg_options \<Rightarrow> pg_options res" where
  "pg_set_uri V U uri opt = pg_options_from_str V U uri"

section \<open>Password files: fields and lines\<close>



















declare load_password_from_reader.simps [simp del]



section \<open>Properties\<close>




end
