(* ===== verification/Pg_Login.thy ===== *)
theory Pg_Login
  imports Pg_Options Pg_Conn
begin

text \<open>
  Opening a PostgreSQL connection (\<open>rbdc-pg/src/connection/establish.rs\<close>, \<open>sasl.rs\<close>, \<open>tls.rs\<close>): the TLS upgrade, the
  start-up message, password and SCRAM-SHA-256 authentication.  Hash functions, base64, the preparation of names and
  the random numbers are an argument; the locale \<open>scram\<close> states what the exchange relies on.
\<close>

section \<open>SCRAM-SHA-256\<close>

record pg_crypto =
  hmac_sha256 :: "bytes \<Rightarrow> bytes \<Rightarrow> bytes res"
  pg_sha256 :: "bytes \<Rightarrow> bytes"
  base64_encode :: "bytes \<Rightarrow> bytes"
  saslprep :: "bytes \<Rightarrow> bytes option"
  rng_count :: nat
  rng_char :: "nat \<Rightarrow> u8"

text \<open>
  \<open>hmac_sha256 key message\<close> fails when the key is rejected.  \<open>rng_char i\<close> is the result of the \<open>i\<close>-th drawing of a
  printable character; a comma is drawn again.
\<close>

partial_function (option) nonce_char :: "pg_crypto \<Rightarrow> nat \<Rightarrow> (u8 \<times> nat) option" where
  "nonce_char A i = (if rng_char A i = 0x2c then nonce_char A (i + 1) else Some (rng_char A i, i + 1))"

fun nonce_chars :: "pg_crypto \<Rightarrow> nat \<Rightarrow> nat \<Rightarrow> bytes option" where
  "nonce_chars A 0 i = Some []"
| "nonce_chars A (Suc n) i = Option.bind (nonce_char A i) (\<lambda>(c, i). map_option ((#) c) (nonce_chars A n i))"

definition gen_nonce :: "pg_crypto \<Rightarrow> bytes option" where
  "gen_nonce A = map_option (\<lambda>cs. lit ''r='' @ cs) (nonce_chars A (rng_count A) 0)"

definition xor_bytes :: "bytes \<Rightarrow> bytes \<Rightarrow> bytes" where
  "xor_bytes a b = map (\<lambda>(x, y). x XOR y) (zip a b)"

fun hi_loop :: "pg_crypto \<Rightarrow> bytes \<Rightarrow> nat \<Rightarrow> bytes \<Rightarrow> bytes \<Rightarrow> bytes res" where
  "hi_loop A s 0 u h = Ok h"
| "hi_loop A s (Suc n) u h = rbind (hmac_sha256 A s u) (\<lambda>u. hi_loop A s n u (xor_bytes h u))"

definition hi :: "pg_crypto \<Rightarrow> bytes \<Rightarrow> bytes \<Rightarrow> u32 \<Rightarrow> bytes res" where
  "hi A s salt iter_count =
     rbind (hmac_sha256 A s (salt @ to_be (1 :: u32))) (\<lambda>u. hi_loop A s (unat iter_count - 1) u u)"

definition GS2_HEADER :: bytes where
  "GS2_HEADER = lit ''n,,''"

text \<open>The final message of the client, and the signature the server is to answer with.\<close>

definition auth_message_of :: "pg_crypto \<Rightarrow> bytes \<Rightarrow> bytes \<Rightarrow> bytes \<Rightarrow> bytes \<times> bytes" where
  "auth_message_of A bare nonce server_first =
     (let channel_binding = lit ''c='' @ base64_encode A GS2_HEADER;
          wo_proof = channel_binding @ lit '',r='' @ nonce
      in (wo_proof, bare @ lit '','' @ server_first @ lit '','' @ wo_proof))"

definition client_final :: "pg_crypto \<Rightarrow> bytes \<Rightarrow> bytes \<Rightarrow> bytes \<Rightarrow> u32 \<Rightarrow> bytes \<Rightarrow> bytes \<Rightarrow> (bytes \<times> bytes) res" where
  "client_final A password bare salt iterations nonce server_first =
     rbind (hi A password salt iterations) (\<lambda>salted_password.
     rbind (hmac_sha256 A salted_password (lit ''Client Key'')) (\<lambda>client_key.
     let stored_key = pg_sha256 A client_key;
         (wo_proof, auth_message) = auth_message_of A bare nonce server_first in
     rbind (hmac_sha256 A stored_key auth_message) (\<lambda>client_signature.
     let client_proof = xor_bytes client_key client_signature in
     rbind (hmac_sha256 A salted_password (lit ''Server Key'')) (\<lambda>server_key.
     rbind (hmac_sha256 A server_key auth_message) (\<lambda>server_signature.
     Ok (wo_proof @ lit '',p='' @ base64_encode A client_proof, server_signature))))))"

text \<open>The mechanisms the server offers; nothing is found in an empty text.\<close>

function mechanisms :: "crates \<Rightarrow> bytes \<Rightarrow> bytes list" where
  "mechanisms C s =
     (if s = [] then []
      else case sasl_mechanisms_next C s of Some (m, rest) \<Rightarrow> m # mechanisms C rest | None \<Rightarrow> [])"
  by pat_completeness auto
termination
  by (relation "measure (\<lambda>(_, s). length s)") (auto simp: sasl_mechanisms_next_def split: if_splits option.splits)

declare mechanisms.simps [simp del]

definition sasl_authenticate ::
    "crates \<Rightarrow> pg_crates \<Rightarrow> 's net \<Rightarrow> pg_crypto \<Rightarrow> pg_options \<Rightarrow> bytes \<Rightarrow> ('s pg_stream, unit) aop" where
  "sasl_authenticate C B N A opt data =
     (let offered = mechanisms C data in
      if lit ''SCRAM-SHA-256-PLUS'' \<notin> set offered \<and> lit ''SCRAM-SHA-256'' \<notin> set offered then
        alift (Err (Protocol ''unsupported SASL authentication mechanisms'' []))
      else case saslprep A (lit ''n='' @ po_username opt) of
        None \<Rightarrow> alift (Err (Message ''Failed to saslprep username''))
      | Some username \<Rightarrow>
          abind (aopt (map_option Ok (gen_nonce A))) (\<lambda>nonce.
          let bare = username @ lit '','' @ nonce in
          athen (pg_send N (sasl_initial_encode (GS2_HEADER @ bare) False))
          (abind (pg_recv_expect C B N MF_Authentication (authentication_decode B)) (\<lambda>auth.
           case auth of
             Auth_SaslContinue salt iterations nonce message \<Rightarrow>
               abind (alift (client_final A (or_default [] (po_password opt)) bare salt iterations nonce message))
                 (\<lambda>(client_final_message, server_signature).
               athen (pg_send N (sasl_response_encode client_final_message))
               (abind (pg_recv_expect C B N MF_Authentication (authentication_decode B)) (\<lambda>auth.
                case auth of
                  Auth_SaslFinal verifier \<Rightarrow>
                    if verifier = server_signature then aret () else alift (Err (Protocol ''MAC tag mismatch'' []))
                | _ \<Rightarrow> alift (Err (Protocol ''expected SASLFinal'' [])))))
           | _ \<Rightarrow> alift (Err (Protocol ''expected SASLContinue'' []))))))"

section \<open>TLS\<close>

definition pg_accept_invalid_certs :: "pg_ssl_mode \<Rightarrow> bool" where
  "pg_accept_invalid_certs m = (m \<noteq> Pg_VerifyCa \<and> m \<noteq> Pg_VerifyFull)"

definition pg_accept_invalid_hostnames :: "pg_ssl_mode \<Rightarrow> bool" where
  "pg_accept_invalid_hostnames m = (m \<noteq> Pg_VerifyFull)"

definition pg_stream_upgrade :: "'s net \<Rightarrow> pg_options \<Rightarrow> ('s pg_stream, unit) aop" where
  "pg_stream_upgrade N opt s =
     (case net_upgrade N (stream (pg_inner s)) (po_host opt) (pg_accept_invalid_certs (po_ssl_mode opt))
             (pg_accept_invalid_hostnames (po_ssl_mode opt)) (po_ssl_root_cert opt) of
        (r, t) \<Rightarrow> Some (r, s\<lparr>pg_inner := (pg_inner s)\<lparr>stream := t\<rparr>\<rparr>))"

definition pg_upgrade :: "crates \<Rightarrow> 's net \<Rightarrow> pg_options \<Rightarrow> ('s pg_stream, bool) aop" where
  "pg_upgrade C N opt =
     athen (pg_send N pg_ssl_request_encode)
     (abind (pg_read C N 1) (\<lambda>answer.
      abind (alift (index answer 0)) (\<lambda>b.
      if b = of_char CHR ''S'' then athen (pg_stream_upgrade N opt) (aret True)
      else if b = of_char CHR ''N'' then aret False
      else alift (Err (Protocol ''unexpected response from SSLRequest'' [unat b])))))"

definition pg_maybe_upgrade :: "crates \<Rightarrow> 's net \<Rightarrow> pg_options \<Rightarrow> ('s pg_stream, unit) aop" where
  "pg_maybe_upgrade C N opt =
     (case po_ssl_mode opt of
        Pg_Allow \<Rightarrow> aret ()
      | Pg_Disable \<Rightarrow> aret ()
      | Pg_Prefer \<Rightarrow> abind (pg_upgrade C N opt) (\<lambda>_. aret ())
      | _ \<Rightarrow> abind (pg_upgrade C N opt) (\<lambda>b.
          if b then aret () else alift (Err (Message ''server does not support TLS''))))"

section \<open>The start-up exchange\<close>

text \<open>Offsets are \<open>i32\<close>: the absolute value of the least one is itself, and division rounds towards zero.\<close>

definition i32_abs :: "int \<Rightarrow> int" where
  "i32_abs i = (if i = - (2 ^ 31) then i else \<bar>i\<bar>)"

definition two_digits :: "int \<Rightarrow> bytes" where
  "two_digits i = (if i < 0 then lit ''-'' @ dec_digits (nat (- i)) else pad0 2 (dec_digits (nat i)))"

definition format_timezone_offset :: "int \<Rightarrow> bytes" where
  "format_timezone_offset offset_sec =
     (if offset_sec = 0 then lit ''UTC''
      else
        let sign = (if offset_sec < 0 then lit ''+'' else lit ''-'');
            abs_sec = i32_abs offset_sec;
            hours = sgn abs_sec * (\<bar>abs_sec\<bar> div 3600);
            minutes = sgn abs_sec * (\<bar>abs_sec\<bar> mod 3600 div 60)
        in sign @ two_digits hours @ lit '':'' @ two_digits minutes)"

definition startup_params :: "pg_options \<Rightarrow> (bytes \<times> bytes) list" where
  "startup_params opt =
     [(lit ''DateStyle'', lit ''ISO, MDY''), (lit ''client_encoding'', lit ''UTF8''),
      (lit ''TimeZone'', case po_timezone_sec opt of Some sec \<Rightarrow> format_timezone_offset sec | None \<Rightarrow> lit ''UTC'')] @
     (case po_extra_float_digits opt of Some v \<Rightarrow> [(lit ''extra_float_digits'', v)] | None \<Rightarrow> []) @
     (case po_application_name opt of Some v \<Rightarrow> [(lit ''application_name'', v)] | None \<Rightarrow> []) @
     (case po_options opt of Some v \<Rightarrow> [(lit ''options'', v)] | None \<Rightarrow> [])"

definition pg_authenticate ::
    "crates \<Rightarrow> pg_crates \<Rightarrow> 's net \<Rightarrow> pg_crypto \<Rightarrow> pg_options \<Rightarrow> authentication \<Rightarrow> ('s pg_stream, unit) aop" where
  "pg_authenticate C B N A opt auth =
     (let password = or_default [] (po_password opt) in
      case auth of
        Auth_Ok \<Rightarrow> aret ()
      | Auth_CleartextPassword \<Rightarrow> pg_send N (password_encode B (Cleartext password))
      | Auth_Md5Password salt \<Rightarrow> pg_send N (password_encode B (Md5_Password password (po_username opt) salt))
      | Auth_Sasl data \<Rightarrow> sasl_authenticate C B N A opt data
      | _ \<Rightarrow> alift (Err (Protocol ''unsupported authentication method'' [])))"

partial_function (option) startup_loop ::
    "crates \<Rightarrow> pg_crates \<Rightarrow> 's net \<Rightarrow> pg_crypto \<Rightarrow> pg_options \<Rightarrow> u32 \<Rightarrow> u32 \<Rightarrow> 's pg_stream \<Rightarrow>
      ((u32 \<times> u32 \<times> transaction_status) res \<times> 's pg_stream) option" where
  "startup_loop C B N A opt process_id secret_key s =
     abind (pg_recv C B N) (\<lambda>m.
     if msg_format m = MF_Authentication then
       athen (abind (alift (authentication_decode B (msg_contents m))) (pg_authenticate C B N A opt))
         (startup_loop C B N A opt process_id secret_key)
     else if msg_format m = MF_BackendKeyData then
       abind (alift (backend_key_data_decode B (msg_contents m))) (\<lambda>d.
       startup_loop C B N A opt (bk_process_id d) (bk_secret_key d))
     else if msg_format m = MF_ReadyForQuery then
       abind (alift (ready_for_query_decode (msg_contents m))) (\<lambda>st. aret (process_id, secret_key, st))
     else alift (Err (Protocol ''establish: unexpected message'' []))) s"

definition startup_phase ::
    "crates \<Rightarrow> pg_crates \<Rightarrow> 's net \<Rightarrow> pg_crypto \<Rightarrow> pg_options \<Rightarrow> ('s pg_stream, u32 \<times> u32 \<times> transaction_status) aop" where
  "startup_phase C B N A opt =
     athen (pg_maybe_upgrade C N opt)
     (athen (pg_send N (startup_encode (Some (po_username opt)) (po_database opt) (startup_params opt)))
      (startup_loop C B N A opt 0 0))"

definition pg_establish ::
    "(bytes \<Rightarrow> 's res) \<Rightarrow> (bytes \<Rightarrow> u16 \<Rightarrow> 's res) \<Rightarrow> crates \<Rightarrow> pg_crates \<Rightarrow> 's net \<Rightarrow> pg_crypto \<Rightarrow>
      ('c, u32 \<times> pg_metadata) lru_ops \<Rightarrow> pg_options \<Rightarrow> ('s, 'c) pg_conn res option" where
  "pg_establish connect_uds connect_tcp C B N A L opt =
     (case pg_connect connect_uds connect_tcp (fetch_socket opt) (po_host opt) (po_port opt) of
        Err e \<Rightarrow> Some (Err e)
      | Panic \<Rightarrow> Some Panic
      | Ok s \<Rightarrow> map_option (\<lambda>(r, s).
          rbind r (\<lambda>(process_id, secret_key, st).
          rbind (cache_new L (po_statement_cache_capacity opt)) (\<lambda>cache.
          Ok \<lparr>pc_stream = s, pc_process_id = process_id, pc_secret_key = secret_key, pc_next_statement_id = 1,
              pc_cache_statement = cache, pc_cache_type_info = Map.empty, pc_cache_type_oid = Map.empty, pc_pending = 0,
              pc_transaction_status = st, pc_timezone_sec = po_timezone_sec opt\<rparr>)))
          (startup_phase C B N A opt s))"

text \<open>The driver: the name, default options, and connecting with the options of a URL.\<close>

definition pg_driver_name :: bytes where
  "pg_driver_name = lit ''postgres''"

definition pg_driver_connect ::
    "pg_environ \<Rightarrow> url_crates \<Rightarrow> (bytes \<Rightarrow> 's res) \<Rightarrow> (bytes \<Rightarrow> u16 \<Rightarrow> 's res) \<Rightarrow> crates \<Rightarrow> pg_crates \<Rightarrow> 's net \<Rightarrow> pg_crypto \<Rightarrow>
      ('c, u32 \<times> pg_metadata) lru_ops \<Rightarrow> bytes \<Rightarrow> ('s, 'c) pg_conn res option" where
  "pg_driver_connect V U connect_uds connect_tcp C B N A L url =
     (case pg_set_uri V U url (pg_options_new V) of
        Ok opt \<Rightarrow> pg_establish connect_uds connect_tcp C B N A L opt
      | Err e \<Rightarrow> Some (Err e)
      | Panic \<Rightarrow> Some Panic)"

section \<open>What the server computes\<close>

text \<open>
  RFC 5802 from the side of a server, which stores the salt, the iteration count and two keys derived from a password.
  The RFC derives them from the normalized password, the client from the password as it is given.
\<close>

definition normalize_password :: "pg_crypto \<Rightarrow> bytes \<Rightarrow> bytes" where
  "normalize_password A password = (case saslprep A password of Some p \<Rightarrow> p | None \<Rightarrow> password)"

definition hmac_of :: "pg_crypto \<Rightarrow> bytes \<Rightarrow> bytes \<Rightarrow> bytes" where
  "hmac_of A k m = (case hmac_sha256 A k m of Ok h \<Rightarrow> h | _ \<Rightarrow> [])"

fun hi_u :: "pg_crypto \<Rightarrow> bytes \<Rightarrow> bytes \<Rightarrow> nat \<Rightarrow> bytes" where
  "hi_u A password salt 0 = hmac_of A password (salt @ to_be (1 :: u32))"
| "hi_u A password salt (Suc n) = hmac_of A password (hi_u A password salt n)"

definition salted_password :: "pg_crypto \<Rightarrow> bytes \<Rightarrow> bytes \<Rightarrow> nat \<Rightarrow> bytes" where
  "salted_password A password salt iterations =
     foldl xor_bytes (hi_u A password salt 0) (map (hi_u A password salt) [1..<iterations])"

definition stored_key :: "pg_crypto \<Rightarrow> bytes \<Rightarrow> bytes \<Rightarrow> nat \<Rightarrow> bytes" where
  "stored_key A password salt iterations = pg_sha256 A (hmac_of A (salted_password A password salt iterations) (lit ''Client Key''))"

definition server_key :: "pg_crypto \<Rightarrow> bytes \<Rightarrow> bytes \<Rightarrow> nat \<Rightarrow> bytes" where
  "server_key A password salt iterations = hmac_of A (salted_password A password salt iterations) (lit ''Server Key'')"

definition server_accepts :: "pg_crypto \<Rightarrow> bytes \<Rightarrow> bytes \<Rightarrow> bytes \<Rightarrow> bool" where
  "server_accepts A key auth_message pf = (pg_sha256 A (xor_bytes pf (hmac_of A key auth_message)) = key)"

definition client_proof :: "pg_crypto \<Rightarrow> bytes \<Rightarrow> bytes \<Rightarrow> bytes \<Rightarrow> u32 \<Rightarrow> bytes \<Rightarrow> bytes \<Rightarrow> bytes" where
  "client_proof A password bare salt iterations nonce first =
     xor_bytes (hmac_of A (salted_password A password salt (unat iterations)) (lit ''Client Key''))
       (hmac_of A (stored_key A password salt (unat iterations)) (snd (auth_message_of A bare nonce first)))"

definition expected_verifier :: "pg_crypto \<Rightarrow> bytes \<Rightarrow> bytes \<Rightarrow> bytes \<Rightarrow> u32 \<Rightarrow> bytes \<Rightarrow> bytes \<Rightarrow> bytes" where
  "expected_verifier A password bare salt iterations nonce first =
     hmac_of A (server_key A password salt (unat iterations)) (snd (auth_message_of A bare nonce first))"

locale scram_crypto =
  fixes A :: pg_crypto
  assumes hmac_total: "\<exists>h. hmac_sha256 A k m = Ok h \<and> length h = 32"
begin

lemma hmac_run [simp]: "hmac_sha256 A k m = Ok (hmac_of A k m)"
  using hmac_total [of k m] by (auto simp: hmac_of_def)

lemma hmac_length [simp]: "length (hmac_of A k m) = 32"
  using hmac_total [of k m] by auto

lemma xor_cancel: "length a = length b \<Longrightarrow> xor_bytes (xor_bytes a b) b = a"
proof (induction a b rule: list_induct2)
  case (Cons x xs y ys)
  have "(x XOR y) XOR y = x" by (simp add: xor.assoc)
  with Cons show ?case by (simp add: xor_bytes_def)
qed (simp add: xor_bytes_def)

lemma hi_loop_run:
  "hi_loop A password n (hi_u A password salt i) h = Ok (foldl xor_bytes h (map (hi_u A password salt) [Suc i..<Suc i + n]))"
proof (induction n arbitrary: i h)
  case (Suc n)
  have "[Suc i..<Suc i + Suc n] = Suc i # [Suc (Suc i)..<Suc (Suc i) + n]" by (simp add: upt_conv_Cons)
  with Suc [of "Suc i"] show ?case by simp
qed simp

lemma hi_run: "hi A password salt iterations = Ok (salted_password A password salt (unat iterations))"
proof -
  have "[1..<unat iterations] = [Suc 0..<Suc 0 + (unat iterations - 1)]" by (cases "unat iterations") auto
  then show ?thesis
    using hi_loop_run [of password "unat iterations - 1" salt 0] by (simp add: hi_def salted_password_def)
qed

lemma client_final_run:
  "client_final A password bare salt iterations nonce first =
    Ok (fst (auth_message_of A bare nonce first) @ lit '',p='' @ base64_encode A (client_proof A password bare salt iterations nonce first),
        expected_verifier A password bare salt iterations nonce first)"
  by (simp add: client_final_def hi_run Let_def case_prod_unfold server_key_def stored_key_def client_proof_def
    expected_verifier_def del: lit_Cons)

lemma client_proof_accepted:
  "server_accepts A (stored_key A password salt (unat iterations)) (snd (auth_message_of A bare nonce first))
    (client_proof A password bare salt iterations nonce first)"
  by (simp add: server_accepts_def client_proof_def xor_cancel) (simp add: stored_key_def)

end

section \<open>Logging in on a working network\<close>

text \<open>The next message that is handed over, behind any number that are dealt with in passing.\<close>

definition arrives :: "crates \<Rightarrow> pg_crates \<Rightarrow> bool \<Rightarrow> pg_message list \<Rightarrow> pg_message \<Rightarrow> bool" where
  "arrives C B l ms m = (\<exists>pre. ms = pre @ [m] \<and> list_all (absorbed C B l) pre \<and> delivered l m)"

definition auth_arrives :: "crates \<Rightarrow> pg_crates \<Rightarrow> bool \<Rightarrow> pg_message list \<Rightarrow> authentication \<Rightarrow> bool" where
  "auth_arrives C B l ms auth =
     (\<exists>m. arrives C B l ms m \<and> msg_format m = MF_Authentication \<and> authentication_decode B (msg_contents m) = Ok auth)"

text \<open>A SCRAM exchange: the two messages of the server and what the client writes in between.\<close>

definition scram_bytes :: "pg_crypto \<Rightarrow> bytes \<Rightarrow> bytes \<Rightarrow> bytes \<Rightarrow> u32 \<Rightarrow> bytes \<Rightarrow> bytes \<Rightarrow> bytes" where
  "scram_bytes A password bare salt iterations nonce first =
     sasl_initial_encode (GS2_HEADER @ bare) False [] @
     sasl_response_encode (fst (auth_message_of A bare nonce first) @ lit '',p='' @
       base64_encode A (client_proof A password bare salt iterations nonce first)) []"

text \<open>
  The messages of a server that lets the client in, what the client writes meanwhile, and what it learns: the process
  and its key, and the state of the session.
\<close>

record login_ctx =
  lx_C :: crates
  lx_B :: pg_crates
  lx_A :: pg_crypto
  lx_opt :: pg_options
  lx_listening :: bool

abbreviation lx_auth :: "login_ctx \<Rightarrow> pg_message list \<Rightarrow> authentication \<Rightarrow> bool" where
  "lx_auth X \<equiv> auth_arrives (lx_C X) (lx_B X) (lx_listening X)"

abbreviation lx_password :: "login_ctx \<Rightarrow> bytes" where
  "lx_password X \<equiv> or_default [] (po_password (lx_opt X))"

inductive logs_in :: "login_ctx \<Rightarrow> u32 \<Rightarrow> u32 \<Rightarrow> pg_message list \<Rightarrow> bytes \<Rightarrow> u32 \<times> u32 \<times> transaction_status \<Rightarrow> bool" for X where
  logs_in_ready: "logs_in X p k ms [] (p, k, st)"
    if "arrives (lx_C X) (lx_B X) (lx_listening X) ms m" "msg_format m = MF_ReadyForQuery"
      "ready_for_query_decode (msg_contents m) = Ok st"
| logs_in_key: "logs_in X p k (ms @ ms') wr r"
    if "arrives (lx_C X) (lx_B X) (lx_listening X) ms m" "msg_format m = MF_BackendKeyData"
      "backend_key_data_decode (lx_B X) (msg_contents m) = Ok d" "logs_in X (bk_process_id d) (bk_secret_key d) ms' wr r"
| logs_in_ok: "logs_in X p k (ms @ ms') wr r" if "lx_auth X ms Auth_Ok" "logs_in X p k ms' wr r"
| logs_in_cleartext: "logs_in X p k (ms @ ms') (password_encode (lx_B X) (Cleartext (lx_password X)) [] @ wr) r"
    if "lx_auth X ms Auth_CleartextPassword" "logs_in X p k ms' wr r"
| logs_in_md5:
    "logs_in X p k (ms @ ms') (password_encode (lx_B X) (Md5_Password (lx_password X) (po_username (lx_opt X)) salt) [] @ wr) r"
    if "lx_auth X ms (Auth_Md5Password salt)" "logs_in X p k ms' wr r"
| logs_in_scram: "logs_in X p k (ms @ ms1 @ ms2 @ ms') (scram_bytes (lx_A X) (lx_password X) bare salt iterations nonce first @ wr) r"
    if "lx_auth X ms (Auth_Sasl data)" "lit ''SCRAM-SHA-256'' \<in> set (mechanisms (lx_C X) data)"
      "saslprep (lx_A X) (lit ''n='' @ po_username (lx_opt X)) = Some user" "gen_nonce (lx_A X) = Some cnonce"
      "bare = user @ lit '','' @ cnonce"
      "lx_auth X ms1 (Auth_SaslContinue salt iterations nonce first)"
      "lx_auth X ms2 (Auth_SaslFinal (expected_verifier (lx_A X) (lx_password X) bare salt iterations nonce first))"
      "logs_in X p k ms' wr r"

text \<open>How client and server agree on TLS: what the client asks, and what the server answers.  A handshake that succeeds leaves
  what is still to be read, which from then on travels through the TLS session.\<close>

definition upgrade_works :: "'s net \<Rightarrow> ('s \<Rightarrow> bytes) \<Rightarrow> ('s \<Rightarrow> bytes) \<Rightarrow> pg_options \<Rightarrow> bool" where
  "upgrade_works N pending sent opt =
     (\<forall>t. \<exists>t'. net_upgrade N t (po_host opt) (pg_accept_invalid_certs (po_ssl_mode opt))
       (pg_accept_invalid_hostnames (po_ssl_mode opt)) (po_ssl_root_cert opt) = (Ok (), t') \<and>
       pending t' = pending t \<and> sent t' = sent t)"

definition agrees_on_tls :: "'s net \<Rightarrow> ('s \<Rightarrow> bytes) \<Rightarrow> ('s \<Rightarrow> bytes) \<Rightarrow> pg_options \<Rightarrow> bytes \<Rightarrow> bytes \<Rightarrow> bool" where
  "agrees_on_tls N pending sent opt request answer =
     (if po_ssl_mode opt = Pg_Disable \<or> po_ssl_mode opt = Pg_Allow then request = [] \<and> answer = []
      else request = pg_ssl_request_encode [] \<and>
        (answer = lit ''S'' \<and> upgrade_works N pending sent opt \<or> answer = lit ''N'' \<and> po_ssl_mode opt = Pg_Prefer))"

locale scram = pg_net N pending C sent B + scram_crypto A
  for N :: "'s net" and pending :: "'s \<Rightarrow> bytes" and C :: crates and sent :: "'s \<Rightarrow> bytes" and B :: pg_crates and A :: pg_crypto
begin

lemma send_moves:
  obtains s' where "pg_send N enc s = Some (Ok (), s')" "pg_inp pending s' = pg_inp pending s" "listening s' = listening s"
    "pg_out sent s' = ([], snd (pg_out sent s) @ enc (fst (pg_out sent s)))"
proof -
  from pg_write_run [of enc s pending sent] obtain s1 where
    s1: "pg_write enc s = Some (Ok (), s1)" "pg_inp pending s1 = pg_inp pending s" "listening s1 = listening s"
      "pg_out sent s1 = (enc (fst (pg_out sent s)), snd (pg_out sent s))" by blast
  from pg_flush_inp [of s1] obtain s2 where
    s2: "pg_flush N s1 = Some (Ok (), s2)" "pg_inp pending s2 = pg_inp pending s1" "listening s2 = listening s1"
      "pg_out sent s2 = ([], snd (pg_out sent s1) @ fst (pg_out sent s1))" by blast
  show ?thesis by (rule that [of s2]) (use s1 s2 in \<open>simp_all add: pg_send_def athen_Ok\<close>)
qed

lemma recv_arrives:
  assumes "arrives C B (listening s) ms m" and "pg_inp pending s (msgs_wire ms @ w)"
  obtains s' where "pg_recv C B N s = Some (Ok m, s')" "pg_inp pending s' w" "pg_out sent s' = pg_out sent s" "listening s' = listening s"
proof -
  from assms(1) obtain pre where "ms = pre @ [m]" "list_all (absorbed C B (listening s)) pre" "delivered (listening s) m"
    by (auto simp: arrives_def)
  with pg_recv_inp [of s pre m w] assms(2) that show ?thesis by auto
qed

lemma auth_moves:
  assumes "auth_arrives C B (listening s) ms auth" and "pg_inp pending s (msgs_wire ms @ w)"
  obtains s' where "pg_recv_expect C B N MF_Authentication (authentication_decode B) s = Some (Ok auth, s')"
    "pg_inp pending s' w" "pg_out sent s' = pg_out sent s" "listening s' = listening s"
proof -
  from assms(1) obtain m where m: "arrives C B (listening s) ms m" "msg_format m = MF_Authentication"
    "authentication_decode B (msg_contents m) = Ok auth" by (auto simp: auth_arrives_def)
  from recv_arrives [OF m(1) assms(2)] obtain s' where
    s': "pg_recv C B N s = Some (Ok m, s')" "pg_inp pending s' w" "pg_out sent s' = pg_out sent s" "listening s' = listening s" .
  show ?thesis by (rule that [OF _ s'(2-4)]) (simp add: pg_recv_expect_def abind_Ok s'(1) m alift_run)
qed

lemma sasl_moves:
  assumes "lit ''SCRAM-SHA-256'' \<in> set (mechanisms C data)" and "saslprep A (lit ''n='' @ po_username opt) = Some user"
    and "gen_nonce A = Some cnonce" and "bare = user @ lit '','' @ cnonce" and "or_default [] (po_password opt) = password"
    and "auth_arrives C B (listening s) ms1 (Auth_SaslContinue salt iterations nonce first)"
    and "auth_arrives C B (listening s) ms2 (Auth_SaslFinal verifier)"
    and "pg_inp pending s (msgs_wire ms1 @ msgs_wire ms2 @ w)" and "pg_out sent s = ([], snt)"
  obtains s' where "sasl_authenticate C B N A opt data s =
      Some (if verifier = expected_verifier A password bare salt iterations nonce first then Ok ()
            else Err (Protocol ''MAC tag mismatch'' []), s')"
    "pg_inp pending s' w" "listening s' = listening s"
    "pg_out sent s' = ([], snt @ scram_bytes A password bare salt iterations nonce first)"
proof -
  obtain s1 where
    s1: "pg_send N (sasl_initial_encode (GS2_HEADER @ bare) False) s = Some (Ok (), s1)" "pg_inp pending s1 = pg_inp pending s"
      "listening s1 = listening s" "pg_out sent s1 = ([], snt @ sasl_initial_encode (GS2_HEADER @ bare) False [])"
    by (rule send_moves [of "sasl_initial_encode (GS2_HEADER @ bare) False" s]) (use assms(9) in simp)
  from auth_moves [of s1 ms1 _ "msgs_wire ms2 @ w"] assms(6,8) s1 obtain s2 where
    s2: "pg_recv_expect C B N MF_Authentication (authentication_decode B) s1 = Some (Ok (Auth_SaslContinue salt iterations nonce first), s2)"
      "pg_inp pending s2 (msgs_wire ms2 @ w)" "pg_out sent s2 = pg_out sent s1" "listening s2 = listening s1" by auto
  let ?final = "fst (auth_message_of A bare nonce first) @ lit '',p='' @
    base64_encode A (client_proof A password bare salt iterations nonce first)"
  obtain s3 where
    s3: "pg_send N (sasl_response_encode ?final) s2 = Some (Ok (), s3)" "pg_inp pending s3 = pg_inp pending s2"
      "listening s3 = listening s2" "pg_out sent s3 = ([], snt @ scram_bytes A password bare salt iterations nonce first)"
    by (rule send_moves [of "sasl_response_encode ?final" s2]) (use s2(3) s1(4) in \<open>simp add: scram_bytes_def\<close>)
  from auth_moves [of s3 ms2 _ w] assms(7) s1 s2 s3 obtain s4 where
    s4: "pg_recv_expect C B N MF_Authentication (authentication_decode B) s3 = Some (Ok (Auth_SaslFinal verifier), s4)"
      "pg_inp pending s4 w" "pg_out sent s4 = pg_out sent s3" "listening s4 = listening s3" by auto
  show ?thesis
    by (rule that [of s4])
      (use assms(1-5) s1 s2 s3 s4 client_final_run in
        \<open>auto simp: sasl_authenticate_def Let_def aopt_run abind_Ok athen_Ok alift_run aret_run simp del: lit_Cons\<close>)
qed

text \<open>Any authentication step but the exchange itself is one message.\<close>

abbreviation ctx :: "pg_options \<Rightarrow> 's pg_stream \<Rightarrow> login_ctx" where
  "ctx opt s \<equiv> \<lparr>lx_C = C, lx_B = B, lx_A = A, lx_opt = opt, lx_listening = listening s\<rparr>"

lemma startup_auth_step:
  assumes "auth_arrives C B (listening s) ms auth" and "pg_inp pending s (msgs_wire ms @ w)" and "pg_out sent s = ([], snt)"
    and "\<And>s1. pg_inp pending s1 w \<Longrightarrow> listening s1 = listening s \<Longrightarrow> pg_out sent s1 = ([], snt) \<Longrightarrow>
      \<exists>s2. pg_authenticate C B N A opt auth s1 = Some (Ok (), s2) \<and> pg_inp pending s2 w' \<and> listening s2 = listening s \<and>
        pg_out sent s2 = ([], snt @ x)"
  shows "\<exists>s'. startup_loop C B N A opt p k s = startup_loop C B N A opt p k s' \<and> pg_inp pending s' w' \<and>
    listening s' = listening s \<and> pg_out sent s' = ([], snt @ x)"
proof -
  from assms(1) obtain m where m: "arrives C B (listening s) ms m" "msg_format m = MF_Authentication"
    "authentication_decode B (msg_contents m) = Ok auth" by (auto simp: auth_arrives_def)
  from recv_arrives [OF m(1) assms(2)] obtain s1 where
    s1: "pg_recv C B N s = Some (Ok m, s1)" "pg_inp pending s1 w" "pg_out sent s1 = pg_out sent s" "listening s1 = listening s" .
  from assms(4) [of s1] s1 assms(3) obtain s2 where
    "pg_authenticate C B N A opt auth s1 = Some (Ok (), s2)" "pg_inp pending s2 w'" "listening s2 = listening s"
    "pg_out sent s2 = ([], snt @ x)" by auto
  moreover from this have "startup_loop C B N A opt p k s = startup_loop C B N A opt p k s2"
    using s1(1) m by (subst startup_loop.simps) (simp add: abind_Ok alift_run athen_Ok)
  ultimately show ?thesis by blast
qed

lemma startup_send_step:
  assumes "pg_authenticate C B N A opt auth = pg_send N enc" and "auth_arrives C B (listening s) ms auth"
    and "pg_inp pending s (msgs_wire ms @ w)" and "pg_out sent s = ([], snt)"
  shows "\<exists>s'. startup_loop C B N A opt p k s = startup_loop C B N A opt p k s' \<and> pg_inp pending s' w \<and>
    listening s' = listening s \<and> pg_out sent s' = ([], snt @ enc [])"
proof (rule startup_auth_step [OF assms(2-4)])
  fix s1
  assume a: "pg_inp pending s1 w" "listening s1 = listening s" "pg_out sent s1 = ([], snt)"
  show "\<exists>s2. pg_authenticate C B N A opt auth s1 = Some (Ok (), s2) \<and> pg_inp pending s2 w \<and> listening s2 = listening s \<and>
      pg_out sent s2 = ([], snt @ enc [])"
    by (rule send_moves [of enc s1]) (use a assms(1) in auto)
qed

text \<open>The start-up exchange runs to its end.\<close>

lemma startup_loop_logs_in:
  assumes "logs_in X p k ms wr r" and "X = ctx opt s" and "pg_inp pending s (msgs_wire ms @ w)" and "pg_out sent s = ([], snt)"
  shows "\<exists>s'. startup_loop C B N A opt p k s = Some (Ok r, s') \<and> pg_inp pending s' w \<and> listening s' = listening s \<and>
    pg_out sent s' = ([], snt @ wr)"
  using assms
proof (induction p k ms wr r arbitrary: s snt rule: logs_in.induct)
  case (logs_in_ready ms m st p k)
  from recv_arrives [of s ms m w] logs_in_ready obtain s1 where
    s1: "pg_recv C B N s = Some (Ok m, s1)" "pg_inp pending s1 w" "pg_out sent s1 = pg_out sent s" "listening s1 = listening s" by auto
  moreover have "startup_loop C B N A opt p k s = Some (Ok (p, k, st), s1)"
    using s1(1) logs_in_ready.hyps by (subst startup_loop.simps) (simp add: abind_Ok alift_run aret_run)
  ultimately show ?case using logs_in_ready.prems by auto
next
  case (logs_in_key ms m d ms' wr r p k)
  from recv_arrives [of s ms m "msgs_wire ms' @ w"] logs_in_key.hyps logs_in_key.prems obtain s1 where
    s1: "pg_recv C B N s = Some (Ok m, s1)" "pg_inp pending s1 (msgs_wire ms' @ w)" "pg_out sent s1 = pg_out sent s"
      "listening s1 = listening s" by auto
  have "startup_loop C B N A opt p k s = startup_loop C B N A opt (bk_process_id d) (bk_secret_key d) s1"
    using s1(1) logs_in_key.hyps logs_in_key.prems(1) by (subst startup_loop.simps) (simp add: abind_Ok alift_run)
  with logs_in_key.IH [of s1 snt] logs_in_key.prems s1 show ?case by auto
next
  case (logs_in_ok ms p k ms' wr r)
  from startup_auth_step [of s ms Auth_Ok "msgs_wire ms' @ w" snt opt "msgs_wire ms' @ w" "[]" p k] logs_in_ok.hyps logs_in_ok.prems
  obtain s1 where "startup_loop C B N A opt p k s = startup_loop C B N A opt p k s1" "pg_inp pending s1 (msgs_wire ms' @ w)"
    "listening s1 = listening s" "pg_out sent s1 = ([], snt)" by (auto simp: pg_authenticate_def aret_run)
  with logs_in_ok.IH [of s1 snt] logs_in_ok.prems show ?case by auto
next
  case (logs_in_cleartext ms p k ms' wr r)
  let ?enc = "password_encode B (Cleartext (or_default [] (po_password opt)))"
  have e: "pg_authenticate C B N A opt Auth_CleartextPassword = pg_send N ?enc" by (simp add: pg_authenticate_def)
  from startup_send_step [OF e, of s ms "msgs_wire ms' @ w" snt p k] logs_in_cleartext.hyps logs_in_cleartext.prems
  obtain s1 where "startup_loop C B N A opt p k s = startup_loop C B N A opt p k s1" "pg_inp pending s1 (msgs_wire ms' @ w)"
    "listening s1 = listening s" "pg_out sent s1 = ([], snt @ ?enc [])" by auto
  with logs_in_cleartext.IH [of s1 "snt @ ?enc []"] logs_in_cleartext.prems show ?case by auto
next
  case (logs_in_md5 ms salt p k ms' wr r)
  let ?enc = "password_encode B (Md5_Password (or_default [] (po_password opt)) (po_username opt) salt)"
  have e: "pg_authenticate C B N A opt (Auth_Md5Password salt) = pg_send N ?enc" by (simp add: pg_authenticate_def)
  from startup_send_step [OF e, of s ms "msgs_wire ms' @ w" snt p k] logs_in_md5.hyps logs_in_md5.prems
  obtain s1 where "startup_loop C B N A opt p k s = startup_loop C B N A opt p k s1" "pg_inp pending s1 (msgs_wire ms' @ w)"
    "listening s1 = listening s" "pg_out sent s1 = ([], snt @ ?enc [])" by auto
  with logs_in_md5.IH [of s1 "snt @ ?enc []"] logs_in_md5.prems show ?case by auto
next
  case (logs_in_scram ms data user cnonce bare ms1 salt iterations nonce first ms2 p k ms' wr r)
  let ?pw = "or_default [] (po_password opt)"
  let ?x = "scram_bytes A ?pw bare salt iterations nonce first"
  let ?w = "msgs_wire ms1 @ msgs_wire ms2 @ msgs_wire ms' @ w"
  have st: "\<exists>s2. pg_authenticate C B N A opt (Auth_Sasl data) s1 = Some (Ok (), s2) \<and> pg_inp pending s2 (msgs_wire ms' @ w) \<and>
      listening s2 = listening s \<and> pg_out sent s2 = ([], snt @ ?x)"
    if i: "pg_inp pending s1 ?w" and l: "listening s1 = listening s" and o: "pg_out sent s1 = ([], snt)" for s1
    by (rule sasl_moves [of data opt user cnonce bare ?pw s1 ms1 salt iterations nonce first ms2
          "expected_verifier A ?pw bare salt iterations nonce first" "msgs_wire ms' @ w" snt])
      (use i l o logs_in_scram.hyps logs_in_scram.prems(1) in \<open>auto simp: pg_authenticate_def simp del: lit_Cons\<close>)
  from startup_auth_step [of s ms "Auth_Sasl data" ?w snt opt "msgs_wire ms' @ w" ?x p k] st logs_in_scram.hyps(1) logs_in_scram.prems
  obtain s1 where "startup_loop C B N A opt p k s = startup_loop C B N A opt p k s1" "pg_inp pending s1 (msgs_wire ms' @ w)"
    "listening s1 = listening s" "pg_out sent s1 = ([], snt @ ?x)" by auto
  with logs_in_scram.IH [of s1 "snt @ ?x"] logs_in_scram.prems show ?case by auto
qed

lemma maybe_upgrade_agrees:
  assumes "agrees_on_tls N pending sent opt request answer" and "pg_inp pending s (answer @ w)" and "pg_out sent s = ([], snt)"
  shows "\<exists>s'. pg_maybe_upgrade C N opt s = Some (Ok (), s') \<and> pg_inp pending s' w \<and> listening s' = listening s \<and>
    pg_out sent s' = ([], snt @ request)"
proof (cases "po_ssl_mode opt = Pg_Disable \<or> po_ssl_mode opt = Pg_Allow")
  case True
  with assms show ?thesis by (auto simp: agrees_on_tls_def pg_maybe_upgrade_def aret_run)
next
  case tls: False
  with assms(1) obtain b where b: "answer = [b]" "request = pg_ssl_request_encode []"
    "b = of_char CHR ''S'' \<and> upgrade_works N pending sent opt \<or> b = of_char CHR ''N'' \<and> po_ssl_mode opt = Pg_Prefer"
    by (auto simp: agrees_on_tls_def)
  obtain s1 where
    s1: "pg_send N pg_ssl_request_encode s = Some (Ok (), s1)" "pg_inp pending s1 = pg_inp pending s" "listening s1 = listening s"
      "pg_out sent s1 = ([], snt @ request)"
    by (rule send_moves [of pg_ssl_request_encode s]) (use assms(3) b(2) in simp)
  from pg_read_inp [of s1 "[b]" w 1] s1(2) assms(2) b(1) obtain s2 where
    s2: "pg_read C N 1 s1 = Some (Ok [b], s2)" "pg_inp pending s2 w" "pg_out sent s2 = pg_out sent s1"
      "listening s2 = listening s1" by (auto simp: listening_def)
  show ?thesis
  proof (cases "b = of_char CHR ''S''")
    case True
    with b(3) obtain t where
      t: "net_upgrade N (stream (pg_inner s2)) (po_host opt) (pg_accept_invalid_certs (po_ssl_mode opt))
        (pg_accept_invalid_hostnames (po_ssl_mode opt)) (po_ssl_root_cert opt) = (Ok (), t)"
      "pending t = pending (stream (pg_inner s2))" "sent t = sent (stream (pg_inner s2))"
      unfolding upgrade_works_def by auto
    let ?s = "s2\<lparr>pg_inner := (pg_inner s2)\<lparr>stream := t\<rparr>\<rparr>"
    have "pg_stream_upgrade N opt s2 = Some (Ok (), ?s)" using t(1) by (simp add: pg_stream_upgrade_def)
    then have "pg_upgrade C N opt s = Some (Ok True, ?s)"
      using True s1(1) s2(1) by (simp add: pg_upgrade_def athen_Ok abind_Ok alift_run index_def aret_run)
    then have "pg_maybe_upgrade C N opt s = Some (Ok (), ?s)"
      using tls by (cases "po_ssl_mode opt") (simp_all add: pg_maybe_upgrade_def abind_Ok aret_run)
    with t(2,3) s1 s2 show ?thesis by (auto simp: pg_inp_def pg_out_def listening_def)
  next
    case False
    with b(3) have "pg_upgrade C N opt s = Some (Ok False, s2)"
      using s1(1) s2(1) by (simp add: pg_upgrade_def athen_Ok abind_Ok alift_run index_def aret_run)
    then have "pg_maybe_upgrade C N opt s = Some (Ok (), s2)"
      using False b(3) by (auto simp: pg_maybe_upgrade_def aret_run abind_Ok [where x = False])
    with s1 s2 show ?thesis by auto
  qed
qed

lemma upgrade_fails:
  assumes "pg_inp pending s (b # w)" and "pg_out sent s = ([], snt)"
    and "\<And>t. \<exists>t'. net_upgrade N t (po_host opt) (pg_accept_invalid_certs (po_ssl_mode opt))
      (pg_accept_invalid_hostnames (po_ssl_mode opt)) (po_ssl_root_cert opt) = (Err e, t') \<and> sent t' = sent t"
  shows "\<exists>s'. pg_upgrade C N opt s =
      Some (if b = of_char CHR ''S'' then Err e else if b = of_char CHR ''N'' then Ok False
            else Err (Protocol ''unexpected response from SSLRequest'' [unat b]), s') \<and>
    pg_out sent s' = ([], snt @ pg_ssl_request_encode [])"
proof -
  obtain s1 where
    s1: "pg_send N pg_ssl_request_encode s = Some (Ok (), s1)" "pg_inp pending s1 = pg_inp pending s"
      "pg_out sent s1 = ([], snt @ pg_ssl_request_encode [])"
    by (rule send_moves [of pg_ssl_request_encode s]) (use assms(2) in simp)
  from pg_read_inp [of s1 "[b]" w 1] s1(2) assms(1) obtain s2 where
    s2: "pg_read C N 1 s1 = Some (Ok [b], s2)" "pg_out sent s2 = pg_out sent s1" by auto
  from assms(3) [of "stream (pg_inner s2)"] obtain t where
    t: "net_upgrade N (stream (pg_inner s2)) (po_host opt) (pg_accept_invalid_certs (po_ssl_mode opt))
      (pg_accept_invalid_hostnames (po_ssl_mode opt)) (po_ssl_root_cert opt) = (Err e, t)" "sent t = sent (stream (pg_inner s2))" by blast
  let ?s = "s2\<lparr>pg_inner := (pg_inner s2)\<lparr>stream := t\<rparr>\<rparr>"
  have u: "pg_stream_upgrade N opt s2 = Some (Err e, ?s)" using t(1) by (simp add: pg_stream_upgrade_def)
  have "pg_out sent ?s = pg_out sent s2" using t(2) by (simp add: pg_out_def)
  then show ?thesis
    using s1 s2 u by (auto simp: pg_upgrade_def athen_Ok abind_Ok alift_run index_def aret_run athen_def abind_Err)
qed

end

section \<open>A scripted login\<close>

text \<open>Digests that are no digests, but have the right length.\<close>

definition sample_pg_crypto :: pg_crypto where
  "sample_pg_crypto = \<lparr>hmac_sha256 = (\<lambda>k m. Ok (replicate 32 (of_nat (length k + length m + 100)))),
     pg_sha256 = (\<lambda>m. take 32 (m @ replicate 32 9)), base64_encode = (\<lambda>b. b), saslprep = Some, rng_count = 2,
     rng_char = (\<lambda>i. if i = 1 then 0x2c else 0x61)\<rparr>"

interpretation sample_crypto: scram_crypto sample_pg_crypto
  by unfold_locales (simp add: sample_pg_crypto_def)

interpretation sample_scram: scram script_net script_pending std_crates script_out std_pg_crates sample_pg_crypto ..

definition sample_pg_options :: pg_options where
  "sample_pg_options = \<lparr>po_host = lit ''localhost'', po_port = 5432, po_socket = None, po_username = lit ''me'',
     po_password = Some (lit ''pw''), po_database = None, po_ssl_mode = Pg_Disable, po_ssl_root_cert = None,
     po_statement_cache_capacity = 100, po_application_name = None, po_extra_float_digits = Some (lit ''3''),
     po_options = None, po_timezone_sec = Some 3600\<rparr>"

definition sample_pg_stream :: "bytes \<Rightarrow> script pg_stream" where
  "sample_pg_stream input = \<lparr>pg_inner = buf_stream_new \<lparr>script_in = [input], script_out = [], script_tls = False\<rparr>,
     pg_notifications = None, pg_parameter_statuses = Map.empty, pg_server_version_num = None\<rparr>"

lemma sample_pg_stream_simps [simp]:
  "pg_inp script_pending (sample_pg_stream input) w = (input = w)" "pg_out script_out (sample_pg_stream input) = ([], [])"
  "listening (sample_pg_stream input) = False"
  by (simp_all add: sample_pg_stream_def pg_inp_def pg_out_def buf_stream_new_def script_pending_def listening_def)

definition auth_msg :: "u32 \<Rightarrow> bytes \<Rightarrow> pg_message" where
  "auth_msg ty b = \<lparr>msg_format = MF_Authentication, msg_contents = to_be ty @ b\<rparr>"

lemma sample_nonce: "gen_nonce sample_pg_crypto = Some (lit ''r=aa'')"
proof -
  have "nonce_char sample_pg_crypto 0 = Some (0x61, 1)" "nonce_char sample_pg_crypto 1 = Some (0x61, 3)"
    by (subst nonce_char.simps, simp add: sample_pg_crypto_def)+
  then show ?thesis by (simp add: gen_nonce_def sample_pg_crypto_def numeral_2_eq_2)
qed

lemma auth_msg_arrives:
  "authentication_decode std_pg_crates (to_be ty @ b) = Ok auth \<Longrightarrow> length b < 100 \<Longrightarrow>
    auth_arrives std_crates std_pg_crates False [auth_msg ty b] auth"
  by (auto simp: auth_arrives_def arrives_def auth_msg_def delivered_def msg_fits_def frame_fits_def)

definition sample_server_first :: bytes where
  "sample_server_first = lit ''r=aaX,s=S,i=1''"

definition sample_verifier :: bytes where
  "sample_verifier = replicate 32 167"

lemma sample_auth:
  "auth_arrives std_crates std_pg_crates False [auth_msg 11 sample_server_first]
     (Auth_SaslContinue (lit ''S'') 1 (lit ''aaX'') sample_server_first)"
  "auth_arrives std_crates std_pg_crates False [auth_msg 12 (lit ''v='' @ sample_verifier)] (Auth_SaslFinal sample_verifier)"
  "auth_arrives std_crates std_pg_crates False [auth_msg 10 (lit ''SCRAM-SHA-256'' @ [0, 0])] (Auth_Sasl (lit ''SCRAM-SHA-256'' @ [0, 0]))"
  "auth_arrives std_crates std_pg_crates False [auth_msg 0 []] Auth_Ok"
proof -
  have "atoi std_pg_crates [49] = Some 1" by code_simp
  moreover have "base64_decode std_pg_crates b = Ok b" for b by (simp add: std_pg_crates_def)
  ultimately have "sasl_continue_decode std_pg_crates sample_server_first =
      Ok (Auth_SaslContinue (lit ''S'') 1 (lit ''aaX'') sample_server_first)"
    by (simp add: sasl_continue_decode_def sample_server_first_def sasl_item_def index_def slice_from_def tag_def utf8_ok_ascii)
  then show "auth_arrives std_crates std_pg_crates False [auth_msg 11 sample_server_first]
     (Auth_SaslContinue (lit ''S'') 1 (lit ''aaX'') sample_server_first)"
    by (intro auth_msg_arrives) (simp_all add: authentication_decode_def std_pg.get_u32_app, simp add: sample_server_first_def)
qed (rule auth_msg_arrives, code_simp, simp add: sample_verifier_def)+

lemma sample_verifier_expected:
  "expected_verifier sample_pg_crypto (lit ''pw'') (lit ''n=me'' @ lit '','' @ lit ''r=aa'') (lit ''S'') 1 (lit ''aaX'') sample_server_first =
    sample_verifier"
  by code_simp

text \<open>A nonce is made of characters that are not commas.\<close>

lemma nonce_char_printable:
  assumes "nonce_char A i = Some (c, j)"
  shows "c \<noteq> 0x2c \<and> c \<in> range (rng_char A)"
proof -
  have "fst y \<noteq> 0x2c \<and> fst y \<in> range (rng_char A)" if "nonce_char A i = Some y" for y
    by (rule nonce_char.raw_induct [OF _ that]) (auto split: if_splits)
  with assms show ?thesis by fastforce
qed

lemma nonce_chars_printable:
  "nonce_chars A n i = Some cs \<Longrightarrow> length cs = n \<and> (\<forall>c \<in> set cs. c \<noteq> 0x2c \<and> c \<in> range (rng_char A))"
proof (induction n arbitrary: i cs)
  case (Suc n)
  then obtain c j ds where "nonce_char A i = Some (c, j)" "nonce_chars A n j = Some ds" "cs = c # ds"
    by (auto simp: Option.bind_eq_Some_conv)
  with Suc.IH [of j ds] nonce_char_printable [of A i c j] show ?case by auto
qed simp

section \<open>Properties\<close>

text \<open>C27: SCRAM-SHA-256 authenticates both sides, for a password that SASLprep leaves as it is, such as one of printable ASCII
  characters, and a user name without commas and equals signs.  Against a server that keeps only the salt, the iteration
  count and the two keys RFC 5802 derives from the normalized password, the client sends a proof the server accepts for
  the exchange they both saw, and it goes on exactly when the server answers with the signature that only somebody with
  the server key can compute; any other verifier is an error.  (The client does not normalize the password, so for other
  passwords its keys are not those of the RFC; it does not escape commas and equals signs in the user name, either.)\<close>

theorem scram_authenticates_both_sides:
  assumes "scram N pending C sent B A" and "lit ''SCRAM-SHA-256'' \<in> set (mechanisms C data)"
    and "saslprep A (lit ''n='' @ po_username opt) = Some user" and "gen_nonce A = Some cnonce"
    and "bare = user @ lit '','' @ cnonce" and "or_default [] (po_password opt) = password"
    and "auth_arrives C B (listening s) ms1 (Auth_SaslContinue salt iterations nonce first)"
    and "auth_arrives C B (listening s) ms2 (Auth_SaslFinal verifier)"
    and "pg_inp pending s (msgs_wire ms1 @ msgs_wire ms2 @ w)" and "pg_out sent s = ([], snt)"
    and "saslprep A password = Some password" and "set (po_username opt) \<inter> {0x2c, 0x3d} = {}"
  shows "\<exists>s' pf. sasl_authenticate C B N A opt data s =
      Some (if verifier = hmac_of A (server_key A (normalize_password A password) salt (unat iterations)) (snd (auth_message_of A bare nonce first))
            then Ok () else Err (Protocol ''MAC tag mismatch'' []), s') \<and> pg_inp pending s' w \<and>
    pg_out sent s' = ([], snt @ sasl_initial_encode (GS2_HEADER @ bare) False [] @
      sasl_response_encode (fst (auth_message_of A bare nonce first) @ lit '',p='' @ base64_encode A pf) []) \<and>
    server_accepts A (stored_key A (normalize_password A password) salt (unat iterations))
      (snd (auth_message_of A bare nonce first)) pf"
proof -
  have c: "scram_crypto A" using assms(1) by (simp add: scram_def)
  have n: "normalize_password A password = password" using assms(11) by (simp add: normalize_password_def)
  show ?thesis
    unfolding n
    by (rule scram.sasl_moves [OF assms(1-10)])
      (use scram_crypto.client_proof_accepted [OF c] in \<open>auto simp: scram_bytes_def expected_verifier_def simp del: lit_Cons\<close>)
qed

theorem scram_authenticates_both_sides_witness:
  "\<exists>s'. sasl_authenticate std_crates std_pg_crates script_net sample_pg_crypto sample_pg_options (lit ''SCRAM-SHA-256'' @ [0, 0])
      (sample_pg_stream (msgs_wire [auth_msg 11 sample_server_first] @ msgs_wire [auth_msg 12 (lit ''v='' @ sample_verifier)])) =
    Some (Ok (), s')"
proof -
  let ?s = "sample_pg_stream (msgs_wire [auth_msg 11 sample_server_first] @ msgs_wire [auth_msg 12 (lit ''v='' @ sample_verifier)])"
  have m: "lit ''SCRAM-SHA-256'' \<in> set (mechanisms std_crates (lit ''SCRAM-SHA-256'' @ [0, 0]))" by code_simp
  have p: "saslprep sample_pg_crypto (lit ''n='' @ po_username sample_pg_options) = Some (lit ''n=me'')"
    "or_default [] (po_password sample_pg_options) = lit ''pw''" by code_simp+
  have q: "saslprep sample_pg_crypto (lit ''pw'') = Some (lit ''pw'')" "set (po_username sample_pg_options) \<inter> {0x2c, 0x3d} = {}"
    "normalize_password sample_pg_crypto (lit ''pw'') = lit ''pw''" by code_simp+
  have v: "hmac_of sample_pg_crypto (server_key sample_pg_crypto (lit ''pw'') (lit ''S'') (unat (1 :: u32)))
      (snd (auth_message_of sample_pg_crypto (lit ''n=me'' @ lit '','' @ lit ''r=aa'') (lit ''aaX'') sample_server_first)) = sample_verifier"
    using sample_verifier_expected by (simp only: expected_verifier_def)
  have a: "auth_arrives std_crates std_pg_crates (listening ?s) [auth_msg 11 sample_server_first]
     (Auth_SaslContinue (lit ''S'') 1 (lit ''aaX'') sample_server_first)"
    "auth_arrives std_crates std_pg_crates (listening ?s) [auth_msg 12 (lit ''v='' @ sample_verifier)] (Auth_SaslFinal sample_verifier)"
    using sample_auth by (simp_all del: lit_Cons)
  from scram_authenticates_both_sides [OF sample_scram.scram_axioms m p(1) sample_nonce refl p(2) a _ _ q(1,2), of "[]" "[]"] v q(3)
  show ?thesis by (auto simp del: lit_Cons msgs_wire_simps)
qed

text \<open>C28: Opening a connection succeeds against a server that lets the client in, for every TLS mode and a statement cache of
  at least one entry.  In the modes \<open>Disable\<close> and \<open>Allow\<close> TLS is not asked for; in the others the server answers the
  request by \<open>S\<close> and the handshake succeeds, or, in the mode \<open>Prefer\<close> only, it answers by \<open>N\<close>.  Then the server asks for
  any authentication (none, clear text, MD5 or SCRAM-SHA-256, whose verifier is the one for the password as given), with
  any notices and parameter reports in between.  Exactly the TLS request, the start-up message with the options of the
  session and the authentication messages are written, and the connection starts with the process id and key of the
  server, nothing outstanding and an empty statement cache.  (With a capacity of 0 the cache itself panics.)\<close>

theorem pg_establish_completes:
  assumes "scram N pending C sent B A" and "agrees_on_tls N pending sent opt request answer"
    and "po_statement_cache_capacity opt \<noteq> 0"
    and "(case fetch_socket opt of Some path \<Rightarrow> connect_uds path | None \<Rightarrow> connect_tcp (po_host opt) (po_port opt)) = Ok t"
    and "pending t = answer @ msgs_wire ms @ w"
    and "logs_in \<lparr>lx_C = C, lx_B = B, lx_A = A, lx_opt = opt, lx_listening = False\<rparr> 0 0 ms wr (p, k, st)"
  shows "\<exists>c. pg_establish connect_uds connect_tcp C B N A L opt = Some (Ok c) \<and> pc_process_id c = p \<and> pc_secret_key c = k \<and>
    pc_transaction_status c = st \<and> pc_pending c = 0 \<and> pc_next_statement_id c = 1 \<and>
    pc_cache_statement c = lru_new L (po_statement_cache_capacity opt) \<and> pg_inp pending (pc_stream c) w \<and>
    pg_out sent (pc_stream c) =
      ([], sent t @ request @ startup_encode (Some (po_username opt)) (po_database opt) (startup_params opt) [] @ wr)"
proof -
  let ?enc = "startup_encode (Some (po_username opt)) (po_database opt) (startup_params opt)"
  let ?s = "\<lparr>pg_inner = buf_stream_new t, pg_notifications = None, pg_parameter_statuses = Map.empty, pg_server_version_num = None\<rparr>"
  have c: "pg_connect connect_uds connect_tcp (fetch_socket opt) (po_host opt) (po_port opt) = Ok ?s"
    using assms(4) by (simp add: pg_connect_def)
  have i: "pg_inp pending ?s (answer @ msgs_wire ms @ w)" "pg_out sent ?s = ([], sent t)" "listening ?s = False"
    using assms(5) by (simp_all add: pg_inp_def pg_out_def buf_stream_new_def listening_def)
  from scram.maybe_upgrade_agrees [OF assms(1,2) i(1,2)] i(3) obtain s0 where
    s0: "pg_maybe_upgrade C N opt ?s = Some (Ok (), s0)" "pg_inp pending s0 (msgs_wire ms @ w)" "listening s0 = False"
      "pg_out sent s0 = ([], sent t @ request)" by auto
  obtain s1 where
    s1: "pg_send N ?enc s0 = Some (Ok (), s1)" "pg_inp pending s1 (msgs_wire ms @ w)" "listening s1 = False"
      "pg_out sent s1 = ([], sent t @ request @ ?enc [])"
    by (rule scram.send_moves [OF assms(1), of ?enc s0]) (use s0 in auto)
  from scram.startup_loop_logs_in [OF assms(1,6) _ s1(2,4), of opt] s1(3) obtain s2 where
    s2: "startup_loop C B N A opt 0 0 s1 = Some (Ok (p, k, st), s2)" "pg_inp pending s2 w"
      "pg_out sent s2 = ([], sent t @ request @ ?enc [] @ wr)" by auto
  have "startup_phase C B N A opt ?s = Some (Ok (p, k, st), s2)"
    using s0(1) s1(1) s2(1) by (simp add: startup_phase_def athen_Ok)
  with c s2 assms(3) show ?thesis by (simp add: pg_establish_def cache_new_def)
qed

definition sample_key_msg :: pg_message where
  "sample_key_msg = \<lparr>msg_format = MF_BackendKeyData, msg_contents = to_be (17 :: u32) @ to_be (99 :: u32)\<rparr>"

definition sample_ready_msg :: pg_message where
  "sample_ready_msg = \<lparr>msg_format = MF_ReadyForQuery, msg_contents = lit ''I''\<rparr>"

abbreviation sample_login_messages :: "pg_message list" where
  "sample_login_messages \<equiv> [auth_msg 10 (lit ''SCRAM-SHA-256'' @ [0, 0])] @ [auth_msg 11 sample_server_first] @
     [auth_msg 12 (lit ''v='' @ sample_verifier)] @ [auth_msg 0 []] @ [sample_key_msg] @ [sample_ready_msg]"

definition sample_login_script :: script where
  "sample_login_script = \<lparr>script_in = [lit ''S'', msgs_wire sample_login_messages], script_out = [], script_tls = False\<rparr>"

definition sample_tls_options :: pg_options where
  "sample_tls_options = sample_pg_options\<lparr>po_ssl_mode := Pg_Prefer\<rparr>"

lemma sample_logs_in:
  "logs_in \<lparr>lx_C = std_crates, lx_B = std_pg_crates, lx_A = sample_pg_crypto, lx_opt = sample_tls_options, lx_listening = False\<rparr> 0 0
    sample_login_messages
    (scram_bytes sample_pg_crypto (lit ''pw'') (lit ''n=me'' @ lit '','' @ lit ''r=aa'') (lit ''S'') 1 (lit ''aaX'') sample_server_first @ [])
    (17, 99, TS_Idle)"
proof -
  let ?X = "\<lparr>lx_C = std_crates, lx_B = std_pg_crates, lx_A = sample_pg_crypto, lx_opt = sample_tls_options, lx_listening = False\<rparr>"
  have d: "ready_for_query_decode (lit ''I'') = Ok TS_Idle"
    "backend_key_data_decode std_pg_crates (to_be (17 :: u32) @ to_be (99 :: u32)) = Ok \<lparr>bk_process_id = 17, bk_secret_key = 99\<rparr>"
    "lit ''SCRAM-SHA-256'' \<in> set (mechanisms std_crates (lit ''SCRAM-SHA-256'' @ [0, 0]))"
    "saslprep sample_pg_crypto (lit ''n='' @ po_username sample_tls_options) = Some (lit ''n=me'')"
    "or_default [] (po_password sample_tls_options) = lit ''pw''" by code_simp+
  have ar: "arrives std_crates std_pg_crates False [sample_ready_msg] sample_ready_msg"
    "arrives std_crates std_pg_crates False [sample_key_msg] sample_key_msg"
    by (auto simp: arrives_def sample_ready_msg_def sample_key_msg_def delivered_def msg_fits_def frame_fits_def)
  have "logs_in ?X 17 99 [sample_ready_msg] [] (17, 99, TS_Idle)"
    by (rule logs_in_ready [where m = sample_ready_msg]) (use ar(1) d(1) in \<open>simp_all add: sample_ready_msg_def del: lit_Cons\<close>)
  then have k: "logs_in ?X 0 0 ([sample_key_msg] @ [sample_ready_msg]) [] (17, 99, TS_Idle)"
    by (intro logs_in_key [of _ _ sample_key_msg "\<lparr>bk_process_id = 17, bk_secret_key = 99\<rparr>"])
      (use ar(2) d(2) in \<open>simp_all add: sample_key_msg_def\<close>)
  have "logs_in ?X 0 0 ([auth_msg 0 []] @ [sample_key_msg] @ [sample_ready_msg]) [] (17, 99, TS_Idle)"
    by (rule logs_in_ok [OF _ k]) (simp add: sample_auth)
  from logs_in_scram [OF _ _ _ _ refl _ _ this, of "[auth_msg 10 (lit ''SCRAM-SHA-256'' @ [0, 0])]" "lit ''SCRAM-SHA-256'' @ [0, 0]"
      "lit ''n=me''" "lit ''r=aa''" "[auth_msg 11 sample_server_first]" "lit ''S''" 1 "lit ''aaX''" sample_server_first
      "[auth_msg 12 (lit ''v='' @ sample_verifier)]"] sample_auth sample_nonce d sample_verifier_expected
  show ?thesis by (simp del: lit_Cons)
qed

theorem pg_establish_completes_witness:
  "\<exists>c. pg_establish (\<lambda>_. Err IoError) (\<lambda>_ _. Ok sample_login_script)
      std_crates std_pg_crates script_net sample_pg_crypto list_lru sample_tls_options = Some (Ok c) \<and>
    pc_process_id c = 17 \<and> pc_secret_key c = 99 \<and> pc_pending c = 0"
proof -
  have o: "po_statement_cache_capacity sample_tls_options \<noteq> 0" "fetch_socket sample_tls_options = None"
    by (simp_all add: sample_tls_options_def sample_pg_options_def fetch_socket_def starts_with_def)
  have a: "agrees_on_tls script_net script_pending script_out sample_tls_options (pg_ssl_request_encode []) (lit ''S'')"
    by (simp add: agrees_on_tls_def upgrade_works_def sample_tls_options_def script_net_def script_pending_def)
  from o have cn: "(case fetch_socket sample_tls_options of Some path \<Rightarrow> Err IoError | None \<Rightarrow> Ok sample_login_script) = Ok sample_login_script"
    by simp
  have p: "script_pending sample_login_script = lit ''S'' @ msgs_wire sample_login_messages @ []"
    by (simp add: script_pending_def sample_login_script_def del: lit_Cons msgs_wire_simps)
  from pg_establish_completes [where connect_uds = "\<lambda>_. Err IoError" and connect_tcp = "\<lambda>_ _. Ok sample_login_script" and L = list_lru,
      OF sample_scram.scram_axioms a o(1) cn p sample_logs_in]
  show ?thesis by blast
qed

text \<open>C29: When TLS is required or verified, nothing but the request for TLS leaves the client before the TLS handshake has
  succeeded: if the server refuses, answers anything else, or the handshake fails, connecting ends in an error and
  neither user name nor password has been written.\<close>

theorem pg_required_tls_protects_credentials:
  assumes "scram N pending C sent B A" and "po_ssl_mode opt \<in> {Pg_Require, Pg_VerifyCa, Pg_VerifyFull}"
    and "pg_inp pending s (b # w)" and "pg_out sent s = ([], snt)"
    and "\<forall>t. \<exists>t'. net_upgrade N t (po_host opt) (pg_accept_invalid_certs (po_ssl_mode opt))
      (pg_accept_invalid_hostnames (po_ssl_mode opt)) (po_ssl_root_cert opt) = (Err e, t') \<and> sent t' = sent t"
  shows "\<exists>s'. startup_phase C B N A opt s =
      Some (Err (if b = of_char CHR ''S'' then e else if b = of_char CHR ''N'' then Message ''server does not support TLS''
                 else Protocol ''unexpected response from SSLRequest'' [unat b]), s') \<and>
    pg_out sent s' = ([], snt @ pg_ssl_request_encode [])"
proof -
  from scram.upgrade_fails [OF assms(1,3,4), of opt e] assms(5) obtain s' where
    s': "pg_upgrade C N opt s = Some (if b = of_char CHR ''S'' then Err e else if b = of_char CHR ''N'' then Ok False
            else Err (Protocol ''unexpected response from SSLRequest'' [unat b]), s')"
      "pg_out sent s' = ([], snt @ pg_ssl_request_encode [])" by blast
  have "pg_maybe_upgrade C N opt = abind (pg_upgrade C N opt) (\<lambda>b.
      if b then aret () else alift (Err (Message ''server does not support TLS'')))"
    using assms(2) by (auto simp: pg_maybe_upgrade_def)
  with s' show ?thesis
    by (intro exI [of _ s']) (auto simp: startup_phase_def athen_def abind_def alift_def split: if_splits)
qed

theorem pg_required_tls_protects_credentials_witness:
  "\<exists>s'. startup_phase std_crates std_pg_crates failing_tls sample_pg_crypto (sample_pg_options\<lparr>po_ssl_mode := Pg_VerifyFull\<rparr>)
      (sample_pg_stream (lit ''S'')) = Some (Err IoError, s') \<and>
    pg_out script_out s' = ([], pg_ssl_request_encode [])"
proof -
  have n: "scram failing_tls script_pending std_crates script_out std_pg_crates sample_pg_crypto"
    using failing_tls_healthy sample_crypto.scram_crypto_axioms std_pg.pg_crate_laws_axioms by (simp add: scram_def pg_net_def)
  let ?o = "sample_pg_options\<lparr>po_ssl_mode := Pg_VerifyFull\<rparr>"
  have u: "\<forall>t. \<exists>t'. net_upgrade failing_tls t (po_host ?o) (pg_accept_invalid_certs (po_ssl_mode ?o))
      (pg_accept_invalid_hostnames (po_ssl_mode ?o)) (po_ssl_root_cert ?o) = (Err IoError, t') \<and> script_out t' = script_out t"
    by (simp add: failing_tls_def)
  have i: "pg_inp script_pending (sample_pg_stream (lit ''S'')) (of_char CHR ''S'' # [])" by simp
  from pg_required_tls_protects_credentials [OF n _ i sample_pg_stream_simps(2) u] show ?thesis by auto
qed

end
