(* ===== verification/Sqlite_Values.thy ===== *)
theory Sqlite_Values
  imports Std_Text Db_Traits
begin

text \<open>
  Values, types and rows of the SQLite driver (\<open>rbdc-sqlite/src/type_info.rs\<close>, \<open>value.rs\<close>, \<open>types/\<close>, \<open>encode.rs\<close>,
  \<open>arguments.rs\<close>, \<open>row.rs\<close>, \<open>column.rs\<close>).  The C library is the argument \<open>L\<close>, a record of the functions the driver
  calls, over a state \<open>'db\<close> of a database connection with all its statements, statement pointers \<open>'s\<close> and values
  \<open>'v\<close>.  The crates \<open>rbs\<close>, \<open>serde_json\<close> and \<open>atoi\<close> are the argument \<open>K\<close>.
\<close>

section \<open>The C library\<close>

text \<open>
  A status is an \<open>int\<close>; \<open>sqlite3_prepare_v3\<close> returns the status, the statement and how far the tail pointer has moved.
  A column value is the copy \<open>sqlite3_value_dup\<close> makes of it.  Waiting for an unlock notification may never end.
\<close>

record ('db, 's, 'v) sqlite3 =
  sqlite3_prepare_v3 :: "'db \<Rightarrow> bytes \<Rightarrow> bool \<Rightarrow> (int \<times> 's option \<times> nat) \<times> 'db"
  sqlite3_column_count :: "'db \<Rightarrow> 's \<Rightarrow> nat"
  sqlite3_column_name :: "'db \<Rightarrow> 's \<Rightarrow> nat \<Rightarrow> bytes"
  sqlite3_column_decltype :: "'db \<Rightarrow> 's \<Rightarrow> nat \<Rightarrow> bytes option"
  sqlite3_column_type :: "'db \<Rightarrow> 's \<Rightarrow> nat \<Rightarrow> int"
  sqlite3_column_value :: "'db \<Rightarrow> 's \<Rightarrow> nat \<Rightarrow> 'v"
  sqlite3_bind_parameter_count :: "'db \<Rightarrow> 's \<Rightarrow> nat"
  sqlite3_bind_parameter_name :: "'db \<Rightarrow> 's \<Rightarrow> nat \<Rightarrow> bytes option"
  sqlite3_bind_blob64 :: "'db \<Rightarrow> 's \<Rightarrow> nat \<Rightarrow> bytes \<Rightarrow> int \<times> 'db"
  sqlite3_bind_text64 :: "'db \<Rightarrow> 's \<Rightarrow> nat \<Rightarrow> bytes \<Rightarrow> int \<times> 'db"
  sqlite3_bind_int :: "'db \<Rightarrow> 's \<Rightarrow> nat \<Rightarrow> u32 \<Rightarrow> int \<times> 'db"
  sqlite3_bind_int64 :: "'db \<Rightarrow> 's \<Rightarrow> nat \<Rightarrow> u64 \<Rightarrow> int \<times> 'db"
  sqlite3_bind_double :: "'db \<Rightarrow> 's \<Rightarrow> nat \<Rightarrow> u64 \<Rightarrow> int \<times> 'db"
  sqlite3_bind_null :: "'db \<Rightarrow> 's \<Rightarrow> nat \<Rightarrow> int \<times> 'db"
  sqlite3_clear_bindings :: "'db \<Rightarrow> 's \<Rightarrow> 'db"
  sqlite3_reset :: "'db \<Rightarrow> 's \<Rightarrow> int \<times> 'db"
  sqlite3_step :: "'db \<Rightarrow> 's \<Rightarrow> int \<times> 'db"
  sqlite3_unlock_notify :: "'db \<Rightarrow> int \<times> 'db"
  notified :: "'db \<Rightarrow> 'db option"
  sqlite3_finalize :: "'db \<Rightarrow> 's \<Rightarrow> int \<times> 'db"
  sqlite3_changes :: "'db \<Rightarrow> u32"
  sqlite3_last_insert_rowid :: "'db \<Rightarrow> u64"
  sqlite3_errmsg :: "'db \<Rightarrow> bytes"
  sqlite3_close :: "'db \<Rightarrow> int \<times> 'db"
  sqlite3_open_v2 :: "bytes \<Rightarrow> u32 \<Rightarrow> int \<times> 'db option"
  sqlite3_extended_result_codes :: "'db \<Rightarrow> 'db"
  sqlite3_busy_timeout :: "'db \<Rightarrow> int \<Rightarrow> int \<times> 'db"
  sqlite3_create_collation_v2 :: "'db \<Rightarrow> bytes \<Rightarrow> (bytes \<Rightarrow> bytes \<Rightarrow> int) \<Rightarrow> int \<times> 'db"
  sqlite3_value_type :: "'v \<Rightarrow> int"
  sqlite3_value_int :: "'v \<Rightarrow> u32"
  sqlite3_value_int64 :: "'v \<Rightarrow> u64"
  sqlite3_value_double :: "'v \<Rightarrow> u64"
  sqlite3_value_bytes :: "'v \<Rightarrow> nat"
  sqlite3_value_blob :: "'v \<Rightarrow> bytes"

record 'dt sqlite_kit = "'dt kit" +
  f64_of_f32 :: "u32 \<Rightarrow> u64"
  atoi_usize :: "bytes \<Rightarrow> nat option"

section \<open>Types\<close>

datatype data_type =
    DT_Null | DT_Int | DT_Float | DT_Text | DT_Blob | DT_Numeric
  | DT_Bool | DT_Int64 | DT_Date | DT_Time | DT_Datetime

definition sqlite_type_name :: "data_type \<Rightarrow> string" where
  "sqlite_type_name d =
     (case d of
        DT_Null \<Rightarrow> ''NULL'' | DT_Text \<Rightarrow> ''TEXT'' | DT_Float \<Rightarrow> ''REAL'' | DT_Blob \<Rightarrow> ''BLOB''
      | DT_Int \<Rightarrow> ''INTEGER'' | DT_Int64 \<Rightarrow> ''INTEGER'' | DT_Numeric \<Rightarrow> ''NUMERIC''
      | DT_Bool \<Rightarrow> ''BOOLEAN'' | DT_Date \<Rightarrow> ''DATE'' | DT_Time \<Rightarrow> ''TIME'' | DT_Datetime \<Rightarrow> ''DATETIME'')"

text \<open>The codes of the storage classes: integer, float, text, blob, null.\<close>

definition data_type_from_code :: "int \<Rightarrow> data_type res" where
  "data_type_from_code c =
     (if c = 1 then Ok DT_Int else if c = 2 then Ok DT_Float else if c = 4 then Ok DT_Blob
      else if c = 5 then Ok DT_Null else if c = 3 then Ok DT_Text else Panic)"

definition data_type_table :: "(bytes \<times> data_type) list" where
  "data_type_table =
     [(lit ''int4'', DT_Int), (lit ''int8'', DT_Int64), (lit ''boolean'', DT_Bool), (lit ''bool'', DT_Bool),
      (lit ''date'', DT_Date), (lit ''time'', DT_Time), (lit ''datetime'', DT_Datetime), (lit ''timestamp'', DT_Datetime)]"

definition data_type_from_str :: "bytes \<Rightarrow> data_type res" where
  "data_type_from_str s =
     (let s = map ascii_lower s in
      case map_of data_type_table s of
        Some d \<Rightarrow> Ok d
      | None \<Rightarrow>
          if contains (lit ''int'') s then Ok DT_Int64
          else if contains (lit ''char'') s \<or> contains (lit ''clob'') s \<or> contains (lit ''text'') s then Ok DT_Text
          else if contains (lit ''blob'') s then Ok DT_Blob
          else if contains (lit ''real'') s \<or> contains (lit ''floa'') s \<or> contains (lit ''doub'') s then Ok DT_Float
          else if contains (lit ''num'') s \<or> contains (lit ''dec'') s then Ok DT_Numeric
          else Err (Message ''unknown type''))"

definition sqlite_ext_types :: "(string \<times> data_type) list" where
  "sqlite_ext_types =
     [(''Date'', DT_Text), (''DateTime'', DT_Text), (''Time'', DT_Text), (''Timestamp'', DT_Int64),
      (''Decimal'', DT_Numeric), (''Json'', DT_Blob), (''Uuid'', DT_Text)]"

definition sqlite_type_info_of :: "dyn_value \<Rightarrow> data_type" where
  "sqlite_type_info_of v =
     (case v of
        V_Null \<Rightarrow> DT_Null | V_Bool _ \<Rightarrow> DT_Bool | V_I32 _ \<Rightarrow> DT_Int | V_I64 _ \<Rightarrow> DT_Int64 | V_U32 _ \<Rightarrow> DT_Int
      | V_U64 _ \<Rightarrow> DT_Int64 | V_F32 _ \<Rightarrow> DT_Float | V_F64 _ \<Rightarrow> DT_Float | V_String _ \<Rightarrow> DT_Text
      | V_Binary _ \<Rightarrow> DT_Blob | V_Array _ \<Rightarrow> DT_Null | V_Map _ \<Rightarrow> DT_Null
      | V_Ext t _ \<Rightarrow> or_default DT_Null (map_of sqlite_ext_types t))"

section \<open>Arguments\<close>

datatype sqlite_argument_value =
    Arg_Null | Arg_Text bytes | Arg_Blob bytes | Arg_Double u64 | Arg_Int u32 | Arg_Int64 u64

type_synonym sqlite_arguments = "sqlite_argument_value list"

text \<open>An encoder appends to the argument list; the boolean of \<open>sqlite_encode\<close> is \<open>IsNull::Yes\<close>.\<close>

definition encode_bool :: "bool \<Rightarrow> sqlite_arguments \<Rightarrow> sqlite_arguments" where
  "encode_bool b args = args @ [Arg_Int (if b then 1 else 0)]"

definition encode_i8 :: "u8 \<Rightarrow> sqlite_arguments \<Rightarrow> sqlite_arguments" where
  "encode_i8 v args = args @ [Arg_Int (scast v)]"

definition encode_i16 :: "u16 \<Rightarrow> sqlite_arguments \<Rightarrow> sqlite_arguments" where
  "encode_i16 v args = args @ [Arg_Int (scast v)]"

definition encode_i32 :: "u32 \<Rightarrow> sqlite_arguments \<Rightarrow> sqlite_arguments" where
  "encode_i32 v args = args @ [Arg_Int v]"

definition encode_i64 :: "u64 \<Rightarrow> sqlite_arguments \<Rightarrow> sqlite_arguments" where
  "encode_i64 v args = args @ [Arg_Int64 v]"

definition encode_u8 :: "u8 \<Rightarrow> sqlite_arguments \<Rightarrow> sqlite_arguments" where
  "encode_u8 v args = args @ [Arg_Int (ucast v)]"

definition encode_u16 :: "u16 \<Rightarrow> sqlite_arguments \<Rightarrow> sqlite_arguments" where
  "encode_u16 v args = args @ [Arg_Int (ucast v)]"

definition encode_u32 :: "u32 \<Rightarrow> sqlite_arguments \<Rightarrow> sqlite_arguments" where
  "encode_u32 v args = args @ [Arg_Int64 (ucast v)]"

definition encode_f32 :: "'dt sqlite_kit \<Rightarrow> u32 \<Rightarrow> sqlite_arguments \<Rightarrow> sqlite_arguments" where
  "encode_f32 K v args = args @ [Arg_Double (f64_of_f32 K v)]"

definition encode_f64 :: "u64 \<Rightarrow> sqlite_arguments \<Rightarrow> sqlite_arguments" where
  "encode_f64 v args = args @ [Arg_Double v]"

definition encode_text :: "bytes \<Rightarrow> sqlite_arguments \<Rightarrow> sqlite_arguments" where
  "encode_text s args = args @ [Arg_Text s]"

definition encode_blob :: "bytes \<Rightarrow> sqlite_arguments \<Rightarrow> sqlite_arguments" where
  "encode_blob b args = args @ [Arg_Blob b]"

definition sqlite_encode_ext :: "'dt sqlite_kit \<Rightarrow> string \<Rightarrow> dyn_value \<Rightarrow> sqlite_arguments \<Rightarrow> bool \<times> sqlite_arguments" where
  "sqlite_encode_ext K t v args =
     (if t \<in> {''Date'', ''DateTime'', ''Time'', ''Decimal'', ''Uuid''} then
        (False, encode_text (or_default [] (into_string K v)) args)
      else if t = ''Timestamp'' then (False, encode_i64 (or_default 0 (as_i64 K v)) args)
      else if t = ''Json'' then (False, encode_blob (or_default [] (into_bytes K v)) args)
      else (True, args))"

definition sqlite_encode :: "'dt sqlite_kit \<Rightarrow> dyn_value \<Rightarrow> sqlite_arguments \<Rightarrow> bool \<times> sqlite_arguments" where
  "sqlite_encode K v args =
     (case v of
        V_Null \<Rightarrow> (True, args)
      | V_Bool b \<Rightarrow> (False, encode_bool b args)
      | V_I32 i \<Rightarrow> (False, encode_i32 i args)
      | V_I64 i \<Rightarrow> (False, encode_i64 i args)
      | V_U32 i \<Rightarrow> (False, encode_i32 i args)
      | V_U64 i \<Rightarrow> (False, encode_i64 i args)
      | V_F32 f \<Rightarrow> (False, encode_f32 K f args)
      | V_F64 f \<Rightarrow> (False, encode_f64 f args)
      | V_String s \<Rightarrow> (False, encode_text s args)
      | V_Binary b \<Rightarrow> (False, encode_blob b args)
      | V_Array _ \<Rightarrow> (False, encode_text (value_to_string K v) args)
      | V_Map _ \<Rightarrow> (False, encode_text (value_to_string K v) args)
      | V_Ext t w \<Rightarrow> sqlite_encode_ext K t w args)"

definition sqlite_arguments_add :: "'dt sqlite_kit \<Rightarrow> dyn_value \<Rightarrow> sqlite_arguments \<Rightarrow> sqlite_arguments" where
  "sqlite_arguments_add K v args = (case sqlite_encode K v args of (is_null, args) \<Rightarrow> if is_null then args @ [Arg_Null] else args)"

fun from_args :: "'dt sqlite_kit \<Rightarrow> dyn_value list \<Rightarrow> sqlite_arguments \<Rightarrow> sqlite_arguments" where
  "from_args K [] args = args"
| "from_args K (x # xs) args = from_args K xs (sqlite_arguments_add K x args)"

section \<open>Values\<close>

record 'v sqlite_value =
  sv_handle :: 'v
  sv_type_info :: data_type

definition value_int :: "('db, 's, 'v) sqlite3 \<Rightarrow> 'v sqlite_value \<Rightarrow> u32" where
  "value_int L v = sqlite3_value_int L (sv_handle v)"

definition value_int64 :: "('db, 's, 'v) sqlite3 \<Rightarrow> 'v sqlite_value \<Rightarrow> u64" where
  "value_int64 L v = sqlite3_value_int64 L (sv_handle v)"

definition value_double :: "('db, 's, 'v) sqlite3 \<Rightarrow> 'v sqlite_value \<Rightarrow> u64" where
  "value_double L v = sqlite3_value_double L (sv_handle v)"

definition value_blob :: "('db, 's, 'v) sqlite3 \<Rightarrow> 'v sqlite_value \<Rightarrow> bytes" where
  "value_blob L v =
     (let len = sqlite3_value_bytes L (sv_handle v) in
      if len = 0 then [] else take len (sqlite3_value_blob L (sv_handle v)))"

definition value_text :: "('db, 's, 'v) sqlite3 \<Rightarrow> 'v sqlite_value \<Rightarrow> bytes res" where
  "value_text L v = from_utf8 (value_blob L v)"

definition type_info_opt :: "('db, 's, 'v) sqlite3 \<Rightarrow> 'v sqlite_value \<Rightarrow> data_type option res" where
  "type_info_opt L v =
     rbind (data_type_from_code (sqlite3_value_type L (sv_handle v))) (\<lambda>dt.
     Ok (if dt = DT_Null then None else Some dt))"

definition sqlite_value_type_info :: "('db, 's, 'v) sqlite3 \<Rightarrow> 'v sqlite_value \<Rightarrow> data_type res" where
  "sqlite_value_type_info L v = rbind (type_info_opt L v) (\<lambda>t. Ok (or_default (sv_type_info v) t))"

definition sqlite_is_null :: "('db, 's, 'v) sqlite3 \<Rightarrow> 'v sqlite_value \<Rightarrow> bool" where
  "sqlite_is_null L v = (sqlite3_value_type L (sv_handle v) = 5)"

definition sqlite_decode_bool :: "('db, 's, 'v) sqlite3 \<Rightarrow> 'v sqlite_value \<Rightarrow> bool" where
  "sqlite_decode_bool L v = (value_int L v \<noteq> 0)"

definition try_into_range :: "int \<Rightarrow> int \<Rightarrow> int \<Rightarrow> 'n::len word res" where
  "try_into_range lo hi i = (if lo \<le> i \<and> i \<le> hi then Ok (word_of_int i) else Err (Message ''out of range integral type conversion attempted''))"

definition decode_i8 :: "('db, 's, 'v) sqlite3 \<Rightarrow> 'v sqlite_value \<Rightarrow> u8 res" where
  "decode_i8 L v = try_into_range (- 128) 127 (sint (value_int L v))"

definition decode_i16 :: "('db, 's, 'v) sqlite3 \<Rightarrow> 'v sqlite_value \<Rightarrow> u16 res" where
  "decode_i16 L v = try_into_range (- 32768) 32767 (sint (value_int L v))"

definition decode_i32 :: "('db, 's, 'v) sqlite3 \<Rightarrow> 'v sqlite_value \<Rightarrow> u32" where
  "decode_i32 L v = value_int L v"

definition decode_i64 :: "('db, 's, 'v) sqlite3 \<Rightarrow> 'v sqlite_value \<Rightarrow> u64" where
  "decode_i64 L v = value_int64 L v"

definition decode_u8 :: "('db, 's, 'v) sqlite3 \<Rightarrow> 'v sqlite_value \<Rightarrow> u8 res" where
  "decode_u8 L v = try_into_range 0 255 (sint (value_int L v))"

definition decode_u16 :: "('db, 's, 'v) sqlite3 \<Rightarrow> 'v sqlite_value \<Rightarrow> u16 res" where
  "decode_u16 L v = try_into_range 0 65535 (sint (value_int L v))"

definition decode_u32 :: "('db, 's, 'v) sqlite3 \<Rightarrow> 'v sqlite_value \<Rightarrow> u32 res" where
  "decode_u32 L v = try_into_range 0 4294967295 (sint (value_int64 L v))"

definition decode_f32 :: "('db, 's, 'v) sqlite3 \<Rightarrow> 'dt sqlite_kit \<Rightarrow> 'v sqlite_value \<Rightarrow> u32" where
  "decode_f32 L K v = f32_of_f64 K (value_double L v)"

definition decode_f64 :: "('db, 's, 'v) sqlite3 \<Rightarrow> 'v sqlite_value \<Rightarrow> u64" where
  "decode_f64 L v = value_double L v"

definition is_json_string :: "bytes \<Rightarrow> bool" where
  "is_json_string js =
     (js = lit ''null'' \<or> starts_with (lit ''{'') js \<and> ends_with (lit ''}'') js \<or>
      starts_with (lit ''['') js \<and> ends_with (lit '']'') js)"

definition decode_text_value :: "'dt sqlite_kit \<Rightarrow> bytes \<Rightarrow> dyn_value res" where
  "decode_text_value K s =
     (if is_json_string s then
        (case json_from_str K s of Ok v \<Rightarrow> Ok v | Err _ \<Rightarrow> Ok (V_String s) | Panic \<Rightarrow> Panic)
      else Ok (V_String s))"

definition sqlite_decode :: "('db, 's, 'v) sqlite3 \<Rightarrow> 'dt sqlite_kit \<Rightarrow> 'v sqlite_value \<Rightarrow> dyn_value res" where
  "sqlite_decode L K v =
     rbind (type_info_opt L v) (\<lambda>t.
     if t = None then Ok V_Null
     else rbind (sqlite_value_type_info L v) (\<lambda>dt.
     case dt of
       DT_Null \<Rightarrow> Ok V_Null
     | DT_Int \<Rightarrow> Ok (V_I64 (decode_i64 L v))
     | DT_Float \<Rightarrow> Ok (V_F64 (decode_f64 L v))
     | DT_Text \<Rightarrow> rbind (value_text L v) (decode_text_value K)
     | DT_Blob \<Rightarrow> Ok (V_Binary (value_blob L v))
     | DT_Numeric \<Rightarrow> rbind (value_text L v) (\<lambda>s. Ok (V_String s))
     | DT_Bool \<Rightarrow> Ok (V_Bool (sqlite_decode_bool L v))
     | DT_Int64 \<Rightarrow> Ok (V_I64 (decode_i64 L v))
     | DT_Date \<Rightarrow> rbind (value_text L v) (\<lambda>s. Ok (V_Ext ''Date'' (V_String s)))
     | DT_Time \<Rightarrow> rbind (value_text L v) (\<lambda>s. Ok (V_Ext ''Time'' (V_String s)))
     | DT_Datetime \<Rightarrow> rbind (value_text L v) (\<lambda>s. Ok (V_Ext ''Datetime'' (V_String s)))))"

section \<open>Rows\<close>

record sqlite_column =
  sc_name :: bytes
  sc_ordinal :: nat
  sc_type_info :: data_type

record 'v sqlite_row =
  sr_values :: "'v sqlite_value list"
  sr_columns :: "sqlite_column list"
  sr_column_names :: "bytes \<rightharpoonup> nat"

definition row_current ::
    "('db, 's, 'v) sqlite3 \<Rightarrow> 'db \<Rightarrow> 's \<Rightarrow> sqlite_column list \<Rightarrow> (bytes \<rightharpoonup> nat) \<Rightarrow> 'v sqlite_row" where
  "row_current L d s columns column_names =
     \<lparr>sr_values = map (\<lambda>i. \<lparr>sv_handle = sqlite3_column_value L d s i, sv_type_info = sc_type_info (columns ! i)\<rparr>) [0..<length columns],
      sr_columns = columns, sr_column_names = column_names\<rparr>"

definition sqlite_column_name_at :: "sqlite_column list \<Rightarrow> nat \<Rightarrow> bytes" where
  "sqlite_column_name_at columns i = sc_name (columns ! i)"

definition sqlite_column_type_at :: "sqlite_column list \<Rightarrow> nat \<Rightarrow> string" where
  "sqlite_column_type_at columns i = sqlite_type_name (sc_type_info (columns ! i))"

definition sqlite_try_take :: "'v sqlite_row \<Rightarrow> nat \<Rightarrow> ('v sqlite_value \<times> 'v sqlite_row) res" where
  "sqlite_try_take x i =
     (if i + 1 > length (sr_values x) then Err (Message ''try_take out of range!'')
      else Ok (sr_values x ! i, x\<lparr>sr_values := take i (sr_values x) @ drop (Suc i) (sr_values x)\<rparr>))"

definition sqlite_row_get :: "('db, 's, 'v) sqlite3 \<Rightarrow> 'dt sqlite_kit \<Rightarrow> 'v sqlite_row \<Rightarrow> nat \<Rightarrow> (dyn_value \<times> 'v sqlite_row) res" where
  "sqlite_row_get L K x i =
     (case sqlite_try_take x i of
        Err _ \<Rightarrow> Err (Message ''get error'')
      | Panic \<Rightarrow> Panic
      | Ok (v, x) \<Rightarrow> rbind (sqlite_decode L K v) (\<lambda>r. Ok (r, x)))"

definition sqlite_row_trait :: "('db, 's, 'v) sqlite3 \<Rightarrow> 'dt sqlite_kit \<Rightarrow> ('v sqlite_row, sqlite_column list) row_trait" where
  "sqlite_row_trait L K = \<lparr>r_meta_data = sr_columns, r_get = sqlite_row_get L K,
     md_column_len = length, md_column_name = sqlite_column_name_at\<rparr>"


section \<open>What the library promises of values\<close>

text \<open>The content of a value: one of the five storage classes.\<close>

datatype sqlite_content = C_Null | C_Integer u64 | C_Real u64 | C_Text bytes | C_Blob bytes

fun content_code :: "sqlite_content \<Rightarrow> int" where
  "content_code C_Null = 5"
| "content_code (C_Integer _) = 1"
| "content_code (C_Real _) = 2"
| "content_code (C_Text _) = 3"
| "content_code (C_Blob _) = 4"

locale sqlite_values =
  fixes L :: "('db, 's, 'v) sqlite3" and content :: "'v \<Rightarrow> sqlite_content"
  assumes type_law: "sqlite3_value_type L v = content_code (content v)"
    and int64_law: "content v = C_Integer i \<Longrightarrow> sqlite3_value_int64 L v = i"
    and int_law: "content v = C_Integer i \<Longrightarrow> sqlite3_value_int L v = ucast i"
    and double_law: "content v = C_Real f \<Longrightarrow> sqlite3_value_double L v = f"
    and text_law: "content v = C_Text s \<Longrightarrow> sqlite3_value_bytes L v = length s \<and> sqlite3_value_blob L v = s"
    and blob_law: "content v = C_Blob s \<Longrightarrow> sqlite3_value_bytes L v = length s \<and> sqlite3_value_blob L v = s"

text \<open>What is stored for an argument where no column affinity converts it; not-a-numbers become null.\<close>

definition is_nan :: "u64 \<Rightarrow> bool" where
  "is_nan f = (take_bit 63 f > 0x7ff0000000000000)"

fun argument_content :: "sqlite_argument_value \<Rightarrow> sqlite_content" where
  "argument_content Arg_Null = C_Null"
| "argument_content (Arg_Text s) = C_Text s"
| "argument_content (Arg_Blob b) = C_Blob b"
| "argument_content (Arg_Double f) = (if is_nan f then C_Null else C_Real f)"
| "argument_content (Arg_Int i) = C_Integer (scast i)"
| "argument_content (Arg_Int64 i) = C_Integer i"

text \<open>What a content is decoded to.\<close>

fun content_value :: "'dt sqlite_kit \<Rightarrow> sqlite_content \<Rightarrow> dyn_value res" where
  "content_value K C_Null = Ok V_Null"
| "content_value K (C_Integer i) = Ok (V_I64 i)"
| "content_value K (C_Real f) = Ok (V_F64 f)"
| "content_value K (C_Text s) = rbind (from_utf8 s) (decode_text_value K)"
| "content_value K (C_Blob b) = Ok (V_Binary b)"

context sqlite_values
begin

lemma blob_of_text: "content (sv_handle v) = C_Text s \<Longrightarrow> value_blob L v = s"
  by (simp add: value_blob_def text_law Let_def)

lemma blob_of_blob: "content (sv_handle v) = C_Blob s \<Longrightarrow> value_blob L v = s"
  by (simp add: value_blob_def blob_law Let_def)

text \<open>The declared type of a column has no influence on how its values are decoded.\<close>

lemma decode_content: "sqlite_decode L K v = content_value K (content (sv_handle v))"
  by (cases "content (sv_handle v)")
    (simp_all add: sqlite_decode_def type_info_opt_def sqlite_value_type_info_def data_type_from_code_def type_law
      or_default_def decode_i64_def decode_f64_def value_int64_def value_double_def value_text_def
      int64_law double_law blob_of_text blob_of_blob)

end

text \<open>A value that is its content.\<close>

definition content_lib :: "('db, 's, 'v) sqlite3 \<Rightarrow> ('v \<Rightarrow> sqlite_content) \<Rightarrow> ('db, 's, 'v) sqlite3" where
  "content_lib L content = L\<lparr>
     sqlite3_value_type := content_code \<circ> content,
     sqlite3_value_int := (\<lambda>v. case content v of C_Integer i \<Rightarrow> ucast i | _ \<Rightarrow> 0),
     sqlite3_value_int64 := (\<lambda>v. case content v of C_Integer i \<Rightarrow> i | _ \<Rightarrow> 0),
     sqlite3_value_double := (\<lambda>v. case content v of C_Real f \<Rightarrow> f | _ \<Rightarrow> 0),
     sqlite3_value_bytes := (\<lambda>v. case content v of C_Text s \<Rightarrow> length s | C_Blob s \<Rightarrow> length s | _ \<Rightarrow> 0),
     sqlite3_value_blob := (\<lambda>v. case content v of C_Text s \<Rightarrow> s | C_Blob s \<Rightarrow> s | _ \<Rightarrow> [])\<rparr>"

interpretation content_values: sqlite_values "content_lib L content" content for L content
  by unfold_locales (simp_all add: content_lib_def)

section \<open>SQLite rows behind the traits\<close>

text \<open>Taking a column moves the columns behind it; a row keeps the contract because it is read from the back.\<close>

definition sqlite_cell :: "('db, 's, 'v) sqlite3 \<Rightarrow> 'dt sqlite_kit \<Rightarrow> 'v sqlite_row \<Rightarrow> nat \<Rightarrow> dyn_value res" where
  "sqlite_cell L K x i = (if i < length (sr_values x) then sqlite_decode L K (sr_values x ! i) else Panic)"

interpretation sqlite_rows: column_rows "sqlite_row_trait L K" "\<lambda>_. True" "sqlite_cell L K" for L K
  by unfold_locales
    (auto simp: sqlite_row_trait_def sqlite_row_get_def sqlite_try_take_def sqlite_cell_def nth_append split: if_splits)

interpretation sqlite_maps: mapped_rows list_insert "sqlite_row_trait L K" "\<lambda>_. True" "sqlite_cell L K" for L K
  by unfold_locales

section \<open>Normal forms\<close>

text \<open>The value a parameter is read back as, where no column affinity converts it.\<close>

definition sqlite_normal :: "'dt sqlite_kit \<Rightarrow> dyn_value \<Rightarrow> dyn_value res" where
  "sqlite_normal K v =
     (case v of
        V_Null \<Rightarrow> Ok V_Null
      | V_Bool b \<Rightarrow> Ok (V_I64 (if b then 1 else 0))
      | V_I32 i \<Rightarrow> Ok (V_I64 (scast i))
      | V_I64 i \<Rightarrow> Ok (V_I64 i)
      | V_U32 i \<Rightarrow> Ok (V_I64 (scast i))
      | V_U64 i \<Rightarrow> Ok (V_I64 i)
      | V_F32 f \<Rightarrow> Ok (if is_nan (f64_of_f32 K f) then V_Null else V_F64 (f64_of_f32 K f))
      | V_F64 f \<Rightarrow> Ok (if is_nan f then V_Null else V_F64 f)
      | V_String s \<Rightarrow> rbind (from_utf8 s) (decode_text_value K)
      | V_Binary b \<Rightarrow> Ok (V_Binary b)
      | V_Array _ \<Rightarrow> rbind (from_utf8 (value_to_string K v)) (decode_text_value K)
      | V_Map _ \<Rightarrow> rbind (from_utf8 (value_to_string K v)) (decode_text_value K)
      | V_Ext t w \<Rightarrow>
          if t \<in> {''Date'', ''DateTime'', ''Time'', ''Decimal'', ''Uuid''} then rbind (from_utf8 (or_default [] (into_string K w))) (decode_text_value K)
          else if t = ''Timestamp'' then Ok (V_I64 (or_default 0 (as_i64 K w)))
          else if t = ''Json'' then Ok (V_Binary (or_default [] (into_bytes K w)))
          else Ok V_Null)"

lemma arguments_add_one:
  "sqlite_arguments_add K v args = args @ [last (sqlite_arguments_add K v [])]"
  by (cases v)
    (auto simp: sqlite_arguments_add_def sqlite_encode_def sqlite_encode_ext_def encode_bool_def encode_i32_def encode_i64_def
      encode_f32_def encode_f64_def encode_text_def encode_blob_def)

lemma from_args_map: "from_args K vs args = args @ map (\<lambda>v. last (sqlite_arguments_add K v [])) vs"
proof (induction vs arbitrary: args)
  case (Cons v vs)
  then show ?case using arguments_add_one [of K v args] by simp
qed simp

lemma argument_normal:
  "content_value K (argument_content (last (sqlite_arguments_add K v []))) = sqlite_normal K v"
  by (cases v)
    (auto simp: sqlite_arguments_add_def sqlite_encode_def sqlite_encode_ext_def encode_bool_def encode_i32_def encode_i64_def
      encode_f32_def encode_f64_def encode_text_def encode_blob_def sqlite_normal_def)

end
