(* ===== verification/Sqlite_Stmt.thy ===== *)
theory Sqlite_Stmt
  imports Sqlite_Values
begin

text \<open>
  Statements of the SQLite driver (\<open>rbdc-sqlite/src/statement/\<close>, \<open>arguments.rs\<close>, \<open>connection/execute.rs\<close>): stepping and
  binding one statement, a virtual statement that stands for the statements of one SQL text, and the iterator that runs
  them one after the other.  Loops that wait for the library are partial functions.
\<close>

section \<open>Statement handles\<close>

definition sqlite_error :: "('db, 's, 'v) sqlite3 \<Rightarrow> 'db \<Rightarrow> error" where
  "sqlite_error L d = Server_Error (sqlite3_errmsg L d)"

definition sqlite_status :: "('db, 's, 'v) sqlite3 \<Rightarrow> int \<times> 'db \<Rightarrow> (unit res \<times> 'db) option" where
  "sqlite_status L p = (case p of (c, d) \<Rightarrow> Some (if c = 0 then Ok () else Err (sqlite_error L d), d))"

definition handle_reset :: "('db, 's, 'v) sqlite3 \<Rightarrow> 's \<Rightarrow> ('db, unit) aop" where
  "handle_reset L s d = sqlite_status L (sqlite3_reset L d s)"

definition clear_bindings :: "('db, 's, 'v) sqlite3 \<Rightarrow> 's \<Rightarrow> ('db, unit) aop" where
  "clear_bindings L s = amodify (\<lambda>d. sqlite3_clear_bindings L d s)"

definition wait_for_unlock_notify :: "('db, 's, 'v) sqlite3 \<Rightarrow> ('db, unit) aop" where
  "wait_for_unlock_notify L d =
     (case sqlite3_unlock_notify L d of (c, d) \<Rightarrow>
        if c \<noteq> 0 then Some (Err (sqlite_error L d), d) else map_option (\<lambda>d. (Ok (), d)) (notified L d))"

text \<open>The codes: a row 100, done 101, misuse 21, locked by another user of a shared cache 262.\<close>

partial_function (option) handle_step :: "('db, 's, 'v) sqlite3 \<Rightarrow> 's \<Rightarrow> 'db \<Rightarrow> (bool res \<times> 'db) option" where
  "handle_step L s d =
     (case sqlite3_step L d s of (c, d) \<Rightarrow>
        if c = 100 then Some (Ok True, d)
        else if c = 101 then Some (Ok False, d)
        else if c = 21 then Some (Panic, d)
        else if c = 262 then abind (wait_for_unlock_notify L) (\<lambda>_ d. handle_step L s (snd (sqlite3_reset L d s))) d
        else Some (Err (sqlite_error L d), d))"

definition handle_drop :: "('db, 's, 'v) sqlite3 \<Rightarrow> 's \<Rightarrow> ('db, unit) aop" where
  "handle_drop L s d = (case sqlite3_finalize L d s of (c, d) \<Rightarrow> Some (if c = 21 then Panic else Ok (), d))"

definition handle_changes :: "('db, 's, 'v) sqlite3 \<Rightarrow> 'db \<Rightarrow> u64" where
  "handle_changes L d = scast (sqlite3_changes L d)"

definition column_decltype :: "('db, 's, 'v) sqlite3 \<Rightarrow> 'db \<Rightarrow> 's \<Rightarrow> nat \<Rightarrow> data_type option" where
  "column_decltype L d s i =
     (case sqlite3_column_decltype L d s i of
        None \<Rightarrow> None
      | Some decl \<Rightarrow> (case data_type_from_str decl of Ok t \<Rightarrow> Some t | _ \<Rightarrow> None))"

definition column_type_info :: "('db, 's, 'v) sqlite3 \<Rightarrow> 'db \<Rightarrow> 's \<Rightarrow> nat \<Rightarrow> data_type res" where
  "column_type_info L d s i = data_type_from_code (sqlite3_column_type L d s i)"

section \<open>Binding\<close>

definition argument_bind :: "('db, 's, 'v) sqlite3 \<Rightarrow> sqlite_argument_value \<Rightarrow> 's \<Rightarrow> nat \<Rightarrow> ('db, unit) aop" where
  "argument_bind L a s i d =
     sqlite_status L (case a of
        Arg_Text v \<Rightarrow> sqlite3_bind_text64 L d s i v
      | Arg_Blob v \<Rightarrow> sqlite3_bind_blob64 L d s i v
      | Arg_Int v \<Rightarrow> sqlite3_bind_int L d s i v
      | Arg_Int64 v \<Rightarrow> sqlite3_bind_int64 L d s i v
      | Arg_Double v \<Rightarrow> sqlite3_bind_double L d s i v
      | Arg_Null \<Rightarrow> sqlite3_bind_null L d s i)"

text \<open>The argument a parameter stands for, counted from one, and the counter of unnamed parameters.\<close>

definition param_index :: "'dt sqlite_kit \<Rightarrow> bytes option \<Rightarrow> nat \<Rightarrow> (nat \<times> nat) res" where
  "param_index K name arg_i =
     (case name of
        None \<Rightarrow> Ok (arg_i + 1, arg_i + 1)
      | Some name \<Rightarrow>
          if starts_with (lit ''?'') name then
            (case atoi_usize K (tl name) of Some n \<Rightarrow> Ok (n, arg_i) | None \<Rightarrow> Panic)
          else if starts_with (lit ''$'') name then
            (case atoi_usize K (tl name) of
               Some n \<Rightarrow> Ok (n, arg_i)
             | None \<Rightarrow> Err (Protocol ''parameters with non-integer names are not currently supported'' []))
          else Err (Protocol ''unsupported SQL parameter format'' []))"

fun bind_loop :: "('db, 's, 'v) sqlite3 \<Rightarrow> 'dt sqlite_kit \<Rightarrow> sqlite_arguments \<Rightarrow> 's \<Rightarrow> nat list \<Rightarrow> nat \<Rightarrow> ('db, nat) aop" where
  "bind_loop L K vs s [] arg_i d = Some (Ok arg_i, d)"
| "bind_loop L K vs s (i # is) arg_i d =
     (case param_index K (sqlite3_bind_parameter_name L d s i) arg_i of
        Err e \<Rightarrow> Some (Err e, d)
      | Panic \<Rightarrow> Some (Panic, d)
      | Ok (n, arg_i) \<Rightarrow>
          if n > length vs then Some (Ok arg_i, d)
          else if n = 0 then Some (Panic, d)
          else abind (argument_bind L (vs ! (n - 1)) s i) (\<lambda>_. bind_loop L K vs s is arg_i) d)"

definition arguments_bind :: "('db, 's, 'v) sqlite3 \<Rightarrow> 'dt sqlite_kit \<Rightarrow> sqlite_arguments \<Rightarrow> 's \<Rightarrow> nat \<Rightarrow> ('db, nat) aop" where
  "arguments_bind L K vs s off d =
     (let cnt = sqlite3_bind_parameter_count L d s in
      abind (bind_loop L K vs s [1..<Suc cnt] off) (\<lambda>arg_i. aret (arg_i - off)) d)"

definition bind_arguments :: "('db, 's, 'v) sqlite3 \<Rightarrow> 'dt sqlite_kit \<Rightarrow> sqlite_arguments option \<Rightarrow> 's \<Rightarrow> nat \<Rightarrow> ('db, nat) aop" where
  "bind_arguments L K args s off = (case args of None \<Rightarrow> aret 0 | Some vs \<Rightarrow> arguments_bind L K vs s off)"

section \<open>Virtual statements\<close>

record 's virtual_statement =
  vs_persistent :: bool
  vs_index :: "nat option"
  vs_tail :: bytes
  vs_handles :: "'s list"
  vs_columns :: "sqlite_column list list"
  vs_column_names :: "(bytes \<rightharpoonup> nat) list"

record 's prepared_statement =
  ps_handle :: 's
  ps_columns :: "sqlite_column list"
  ps_column_names :: "bytes \<rightharpoonup> nat"

definition virtual_new :: "bytes \<Rightarrow> bool \<Rightarrow> 's virtual_statement res" where
  "virtual_new query persistent =
     (let query = trim query in
      if length query > 2147483647 then Err (Protocol ''query string must be smaller than i32::MAX bytes'' [])
      else Ok \<lparr>vs_persistent = persistent, vs_index = None, vs_tail = query, vs_handles = [], vs_columns = [],
               vs_column_names = []\<rparr>)"

text \<open>Compiling the first statement of the text; a part with no statement in it, such as a comment, is passed over.\<close>

partial_function (option) prepare_stmt ::
    "('db, 's, 'v) sqlite3 \<Rightarrow> bool \<Rightarrow> bytes \<Rightarrow> 'db \<Rightarrow> ('s option res \<times> bytes \<times> 'db) option" where
  "prepare_stmt L persistent q d =
     (if q = [] then Some (Ok None, q, d)
      else case sqlite3_prepare_v3 L d q persistent of
        ((c, h, n), d) \<Rightarrow>
          if c \<noteq> 0 then Some (Err (sqlite_error L d), q, d)
          else if n > length q then Some (Panic, q, d)
          else case h of
              Some s \<Rightarrow> Some (Ok (Some s), drop n q, d)
            | None \<Rightarrow> prepare_stmt L persistent (drop n q) d)"

fun describe_loop ::
    "('db, 's, 'v) sqlite3 \<Rightarrow> 'db \<Rightarrow> 's \<Rightarrow> nat list \<Rightarrow> sqlite_column list \<Rightarrow> (bytes \<rightharpoonup> nat) \<Rightarrow> (sqlite_column list \<times> (bytes \<rightharpoonup> nat)) res" where
  "describe_loop L d s [] columns names = Ok (columns, names)"
| "describe_loop L d s (i # is) columns names =
     (let name = sqlite3_column_name L d s i in
      rbind (case column_decltype L d s i of Some t \<Rightarrow> Ok t | None \<Rightarrow> column_type_info L d s i) (\<lambda>type_info.
      describe_loop L d s is (columns @ [\<lparr>sc_name = name, sc_ordinal = i, sc_type_info = type_info\<rparr>]) (names(name \<mapsto> i))))"

definition current :: "'s virtual_statement \<Rightarrow> 's prepared_statement option res" where
  "current vs =
     (case vs_index vs of
        None \<Rightarrow> Ok None
      | Some i \<Rightarrow>
          if i < length (vs_handles vs) then
            rbind (index (vs_columns vs) i) (\<lambda>columns.
            rbind (index (vs_column_names vs) i) (\<lambda>names.
            Ok (Some \<lparr>ps_handle = vs_handles vs ! i, ps_columns = columns, ps_column_names = names\<rparr>)))
          else Ok None)"

partial_function (option) prepare_loop ::
    "('db, 's, 'v) sqlite3 \<Rightarrow> 's virtual_statement \<times> 'db \<Rightarrow> ('s prepared_statement option res \<times> 's virtual_statement \<times> 'db) option" where
  "prepare_loop L st =
     (let vs = fst st; d = snd st in
      if or_default 0 (vs_index vs) < length (vs_handles vs) then Some (current vs, st)
      else if vs_tail vs = [] then Some (Ok None, st)
      else Option.bind (prepare_stmt L (vs_persistent vs) (vs_tail vs) d) (\<lambda>p.
        let vs = vs\<lparr>vs_tail := fst (snd p)\<rparr>; d = snd (snd p) in
        case fst p of
          Err e \<Rightarrow> Some (Err e, vs, d)
        | Panic \<Rightarrow> Some (Panic, vs, d)
        | Ok None \<Rightarrow> prepare_loop L (vs, d)
        | Ok (Some s) \<Rightarrow>
            case describe_loop L d s [0..<sqlite3_column_count L d s] [] Map.empty of
              Ok cn \<Rightarrow> prepare_loop L (vs\<lparr>vs_handles := vs_handles vs @ [s], vs_columns := vs_columns vs @ [fst cn],
                         vs_column_names := vs_column_names vs @ [snd cn]\<rparr>, d)
            | Err e \<Rightarrow> Some (Err e, vs, snd (sqlite3_finalize L d s))
            | Panic \<Rightarrow> Some (Panic, vs, snd (sqlite3_finalize L d s))))"

definition prepare_next :: "('db, 's, 'v) sqlite3 \<Rightarrow> ('s virtual_statement \<times> 'db, 's prepared_statement option) aop" where
  "prepare_next L st =
     (let vs = fst st;
          i = (case vs_index vs of None \<Rightarrow> 0 | Some i \<Rightarrow> min (i + 1) (length (vs_handles vs)))
      in prepare_loop L (vs\<lparr>vs_index := Some i\<rparr>, snd st))"

fun reset_handles :: "('db, 's, 'v) sqlite3 \<Rightarrow> 's list \<Rightarrow> ('db, unit) aop" where
  "reset_handles L [] d = Some (Ok (), d)"
| "reset_handles L (s # ss) d = abind (handle_reset L s) (\<lambda>_. abind (clear_bindings L s) (\<lambda>_. reset_handles L ss)) d"

definition virtual_reset :: "('db, 's, 'v) sqlite3 \<Rightarrow> ('s virtual_statement \<times> 'db, unit) aop" where
  "virtual_reset L st =
     (let vs = (fst st)\<lparr>vs_index := None\<rparr> in
      map_option (\<lambda>(r, d). (r, vs, d)) (reset_handles L (vs_handles vs) (snd st)))"

section \<open>Running a query\<close>

record sqlite_query_result =
  qr_changes :: u64
  qr_last_insert_rowid :: u64

record ('s, 'db) execute_iter =
  ei_args :: "sqlite_arguments option"
  ei_args_used :: nat
  ei_goto_next :: bool
  ei_stmt :: "'s virtual_statement"
  ei_db :: 'db

type_synonym 'v step_item = "(sqlite_query_result + 'v sqlite_row) res"

definition on_db :: "('db, 'a) aop \<Rightarrow> (('s, 'db) execute_iter, 'a) aop" where
  "on_db m st = map_option (\<lambda>(r, d). (r, st\<lparr>ei_db := d\<rparr>)) (m (ei_db st))"

definition on_stmt :: "('s virtual_statement \<times> 'db, 'a) aop \<Rightarrow> (('s, 'db) execute_iter, 'a) aop" where
  "on_stmt m st = map_option (\<lambda>(r, vs, d). (r, st\<lparr>ei_stmt := vs, ei_db := d\<rparr>)) (m (ei_stmt st, ei_db st))"

text \<open>An error inside \<open>next\<close> becomes an item of the iteration.\<close>

definition or_item :: "('st, 'a) aop \<Rightarrow> ('a \<Rightarrow> ('st, 'i res option) aop) \<Rightarrow> ('st, 'i res option) aop" where
  "or_item m f st =
     Option.bind (m st) (\<lambda>(r, st).
       case r of Ok x \<Rightarrow> f x st | Err e \<Rightarrow> Some (Ok (Some (Err e)), st) | Panic \<Rightarrow> Some (Panic, st))"

definition step_statement ::
    "('db, 's, 'v) sqlite3 \<Rightarrow> 's prepared_statement \<Rightarrow> (('s, 'db) execute_iter, 'v step_item option) aop" where
  "step_statement L ps =
     or_item (on_db (handle_step L (ps_handle ps))) (\<lambda>row st.
       if row then Some (Ok (Some (Ok (Inr (row_current L (ei_db st) (ps_handle ps) (ps_columns ps) (ps_column_names ps))))), st)
       else Some (Ok (Some (Ok (Inl \<lparr>qr_changes = handle_changes L (ei_db st),
              qr_last_insert_rowid = sqlite3_last_insert_rowid L (ei_db st)\<rparr>))), st\<lparr>ei_goto_next := True\<rparr>))"

definition start_statement ::
    "('db, 's, 'v) sqlite3 \<Rightarrow> 'dt sqlite_kit \<Rightarrow> 's prepared_statement \<Rightarrow> (('s, 'db) execute_iter, 'v step_item option) aop" where
  "start_statement L K ps st =
     or_item (on_db (handle_reset L (ps_handle ps))) (\<lambda>_.
     or_item (on_db (clear_bindings L (ps_handle ps))) (\<lambda>_.
     or_item (on_db (bind_arguments L K (ei_args st) (ps_handle ps) (ei_args_used st))) (\<lambda>used st.
     step_statement L ps (st\<lparr>ei_args_used := ei_args_used st + used\<rparr>)))) (st\<lparr>ei_goto_next := False\<rparr>)"

definition execute_next :: "('db, 's, 'v) sqlite3 \<Rightarrow> 'dt sqlite_kit \<Rightarrow> (('s, 'db) execute_iter, 'v step_item option) aop" where
  "execute_next L K st =
     (if ei_goto_next st then
        or_item (on_stmt (prepare_next L)) (\<lambda>p.
        case p of None \<Rightarrow> aret None | Some ps \<Rightarrow> start_statement L K ps) st
      else
        or_item (\<lambda>st. Some (current (ei_stmt st), st)) (\<lambda>p.
        case p of None \<Rightarrow> aret None | Some ps \<Rightarrow> step_statement L ps) st)"

end
