(* ===== verification/Sqlite_Engine.thy ===== *)
theory Sqlite_Engine
  imports Sqlite_Stmt "HOL-Library.AList"
begin

text \<open>
  What the driver relies on of the SQLite library.  The meaning of SQL is an argument: how a text is cut into
  statements, which parameters a statement has, which columns it has for given contents (the schema is part of the
  contents), and which rows and new contents it yields on given contents and bindings.  A statement keeps the columns it
  was compiled with until it is stepped from its start, which compiles it again when the schema has changed.  The locale \<open>sqlite_engine\<close> states the documented behaviour of the library in terms of
  the contents of the database and a view of every open statement.  A small engine with one table satisfies it.
\<close>

section \<open>The meaning of SQL\<close>

record ('v, 'b) sql_meaning =
  sm_cut :: "bytes \<Rightarrow> nat"
  sm_blank :: "bytes \<Rightarrow> bool"
  sm_columns :: "'b \<Rightarrow> bytes \<Rightarrow> bytes list"
  sm_params :: "bytes \<Rightarrow> bytes option list"
  sm_fits :: "sqlite_argument_value \<Rightarrow> bool"
  sm_compiles :: "'b \<Rightarrow> bytes \<Rightarrow> bool"
  sm_run :: "'b \<Rightarrow> bytes \<Rightarrow> (nat \<rightharpoonup> sqlite_argument_value) \<Rightarrow> ('v list list \<times> 'b) option"
  sm_changes :: "'b \<Rightarrow> u32"
  sm_rowid :: "'b \<Rightarrow> u64"
  sm_modifies :: "bytes \<Rightarrow> bool"
  sm_modified :: "'b \<Rightarrow> bytes \<Rightarrow> (nat \<rightharpoonup> sqlite_argument_value) \<Rightarrow> nat"

text \<open>\<open>sm_fits\<close>: values within the length limit of the library.  \<open>sm_modifies\<close>: the statements that insert, update or delete rows, with
  the number of rows they modify; \<open>sm_changes\<close> and \<open>sm_rowid\<close> are the counters of the connection.\<close>

text \<open>A statement that is open: its text, the columns it was compiled with, its bindings and how far it has run; \<open>At_Row rs b\<close> shows the first
  of the rows \<open>rs\<close> and leaves \<open>b\<close> when it is done, \<open>At_Error\<close> is a statement whose last step failed.\<close>

datatype ('v, 'b) stmt_phase = At_Start | At_Row "'v list list" 'b | At_End | At_Error

record ('v, 'b) stmt_view =
  sw_sql :: bytes
  sw_columns :: "bytes list"
  sw_bound :: "nat \<rightharpoonup> sqlite_argument_value"
  sw_phase :: "('v, 'b) stmt_phase"

record ('db, 's, 'v, 'b) sqlite_abs =
  contents :: "'db \<Rightarrow> 'b"
  view :: "'db \<Rightarrow> 's \<rightharpoonup> ('v, 'b) stmt_view"

function split_sql :: "('v, 'b) sql_meaning \<Rightarrow> bytes \<Rightarrow> bytes list" where
  "split_sql M q =
     (if q = [] \<or> sm_cut M q = 0 then []
      else if sm_blank M (take (sm_cut M q) q) then split_sql M (drop (sm_cut M q) q)
      else take (sm_cut M q) q # split_sql M (drop (sm_cut M q) q))"
  by pat_completeness auto
termination
  by (relation "measure (\<lambda>(M, q). length q)") auto

declare split_sql.simps [simp del]

text \<open>Running the statements of a text one after the other, parameters numbered through from \<open>off\<close>: the reference.\<close>

definition positional :: "sqlite_arguments \<Rightarrow> nat \<Rightarrow> nat \<Rightarrow> nat \<rightharpoonup> sqlite_argument_value" where
  "positional vs off n = (\<lambda>i. if 1 \<le> i \<and> i \<le> n \<and> off + i \<le> length vs then Some (vs ! (off + i - 1)) else None)"

type_synonym 'v script_item = "u64 \<times> u64 + bytes list \<times> 'v list"

fun run_script ::
    "('v, 'b) sql_meaning \<Rightarrow> sqlite_arguments \<Rightarrow> nat \<Rightarrow> 'b \<Rightarrow> bytes list \<Rightarrow> ('v script_item list \<times> 'b) option" where
  "run_script M vs off b [] = Some ([], b)"
| "run_script M vs off b (t # ts) =
     (if sm_compiles M b t \<and> set (sm_params M t) \<subseteq> {None} \<and> (\<forall>a \<in> set vs. sm_fits M a) then
        Option.bind (sm_run M b t (positional vs off (length (sm_params M t)))) (\<lambda>(rows, b1).
        Option.bind (run_script M vs (off + length (sm_params M t)) b1 ts) (\<lambda>(items, b').
        Some (map (\<lambda>r. Inr (sm_columns M b t, r)) rows @ Inl (scast (sm_changes M b1), sm_rowid M b1) # items, b')))
      else None)"

text \<open>The statements of a text as their turns come: the contents each finds, its text and its bindings; and the
  columns it has then.\<close>

fun script_trace ::
    "('v, 'b) sql_meaning \<Rightarrow> sqlite_arguments \<Rightarrow> nat \<Rightarrow> 'b \<Rightarrow> bytes list \<Rightarrow> ('b \<times> bytes \<times> (nat \<rightharpoonup> sqlite_argument_value)) list" where
  "script_trace M vs off b [] = []"
| "script_trace M vs off b (t # ts) =
     (b, t, positional vs off (length (sm_params M t))) #
       (case sm_run M b t (positional vs off (length (sm_params M t))) of
          None \<Rightarrow> [] | Some (_, b') \<Rightarrow> script_trace M vs (off + length (sm_params M t)) b' ts)"

definition script_columns :: "('v, 'b) sql_meaning \<Rightarrow> sqlite_arguments \<Rightarrow> nat \<Rightarrow> 'b \<Rightarrow> bytes list \<Rightarrow> bytes list list" where
  "script_columns M vs off b ts = map (\<lambda>(b, t, _). sm_columns M b t) (script_trace M vs off b ts)"

section \<open>The laws\<close>

locale sqlite_engine =
  fixes L :: "('db, 's, 'v) sqlite3" and A :: "('db, 's, 'v, 'b) sqlite_abs" and M :: "('v, 'b) sql_meaning"
  assumes cut_law: "q \<noteq> [] \<Longrightarrow> 0 \<notin> set q \<Longrightarrow> 0 < sm_cut M q \<and> sm_cut M q \<le> length q"
    and prepare_blank: "q \<noteq> [] \<Longrightarrow> 0 \<notin> set q \<Longrightarrow> sm_blank M (take (sm_cut M q) q) \<Longrightarrow>
      \<exists>d'. sqlite3_prepare_v3 L d q p = ((0, None, sm_cut M q), d') \<and> contents A d' = contents A d \<and> view A d' = view A d"
    and prepare_law: "q \<noteq> [] \<Longrightarrow> 0 \<notin> set q \<Longrightarrow> \<not> sm_blank M (take (sm_cut M q) q) \<Longrightarrow>
      sm_compiles M (contents A d) (take (sm_cut M q) q) \<Longrightarrow>
      \<exists>s d'. sqlite3_prepare_v3 L d q p = ((0, Some s, sm_cut M q), d') \<and> view A d s = None \<and> contents A d' = contents A d \<and>
        view A d' = (view A d)(s \<mapsto> \<lparr>sw_sql = take (sm_cut M q) q,
          sw_columns = sm_columns M (contents A d) (take (sm_cut M q) q), sw_bound = Map.empty, sw_phase = At_Start\<rparr>)"
    and columns_law: "view A d s = Some w \<Longrightarrow> sqlite3_column_count L d s = length (sw_columns w)"
    and name_law: "view A d s = Some w \<Longrightarrow> i < length (sw_columns w) \<Longrightarrow> sqlite3_column_name L d s i = sw_columns w ! i"
    and type_code_law: "view A d s = Some w \<Longrightarrow> i < length (sw_columns w) \<Longrightarrow> sqlite3_column_type L d s i \<in> {1..5}"
    and params_law: "view A d s = Some w \<Longrightarrow> sqlite3_bind_parameter_count L d s = length (sm_params M (sw_sql w))"
    and param_name_law: "view A d s = Some w \<Longrightarrow> 1 \<le> i \<Longrightarrow> i \<le> length (sm_params M (sw_sql w)) \<Longrightarrow>
      sqlite3_bind_parameter_name L d s i = sm_params M (sw_sql w) ! (i - 1)"
    and bind_law: "view A d s = Some w \<Longrightarrow> sw_phase w = At_Start \<Longrightarrow> 1 \<le> i \<Longrightarrow> i \<le> length (sm_params M (sw_sql w)) \<Longrightarrow> sm_fits M a \<Longrightarrow>
      \<exists>d'. argument_bind L a s i d = Some (Ok (), d') \<and> contents A d' = contents A d \<and>
        view A d' = (view A d)(s \<mapsto> w\<lparr>sw_bound := (sw_bound w)(i \<mapsto> a)\<rparr>)"
    and clear_bindings_law: "view A d s = Some w \<Longrightarrow> contents A (sqlite3_clear_bindings L d s) = contents A d \<and>
      view A (sqlite3_clear_bindings L d s) = (view A d)(s \<mapsto> w\<lparr>sw_bound := Map.empty\<rparr>)"
    and reset_law: "view A d s = Some w \<Longrightarrow> sw_phase w \<noteq> At_Error \<Longrightarrow> \<exists>d'. sqlite3_reset L d s = (0, d') \<and> contents A d' = contents A d \<and>
      view A d' = (view A d)(s \<mapsto> w\<lparr>sw_phase := At_Start\<rparr>)"
    and step_start_row: "view A d s = Some w \<Longrightarrow> sw_phase w = At_Start \<Longrightarrow>
      sm_run M (contents A d) (sw_sql w) (sw_bound w) = Some (r # rs, b) \<Longrightarrow>
      \<exists>d'. sqlite3_step L d s = (100, d') \<and> contents A d' = contents A d \<and>
        view A d' = (view A d)(s \<mapsto> w\<lparr>sw_columns := sm_columns M (contents A d) (sw_sql w), sw_phase := At_Row (r # rs) b\<rparr>)"
    and step_start_done: "view A d s = Some w \<Longrightarrow> sw_phase w = At_Start \<Longrightarrow>
      sm_run M (contents A d) (sw_sql w) (sw_bound w) = Some ([], b) \<Longrightarrow>
      \<exists>d'. sqlite3_step L d s = (101, d') \<and> contents A d' = b \<and>
        view A d' = (view A d)(s \<mapsto> w\<lparr>sw_columns := sm_columns M (contents A d) (sw_sql w), sw_phase := At_End\<rparr>)"
    and step_row: "view A d s = Some w \<Longrightarrow> sw_phase w = At_Row (r # r' # rs) b \<Longrightarrow>
      \<exists>d'. sqlite3_step L d s = (100, d') \<and> contents A d' = contents A d \<and>
        view A d' = (view A d)(s \<mapsto> w\<lparr>sw_phase := At_Row (r' # rs) b\<rparr>)"
    and step_done: "view A d s = Some w \<Longrightarrow> sw_phase w = At_Row [r] b \<Longrightarrow>
      \<exists>d'. sqlite3_step L d s = (101, d') \<and> contents A d' = b \<and> view A d' = (view A d)(s \<mapsto> w\<lparr>sw_phase := At_End\<rparr>)"
    and row_width: "sm_run M b t m = Some (rows, b') \<Longrightarrow> r \<in> set rows \<Longrightarrow> length r = length (sm_columns M b t)"
    and value_law: "view A d s = Some w \<Longrightarrow> sw_phase w = At_Row (r # rs) b \<Longrightarrow> i < length r \<Longrightarrow>
      sqlite3_column_value L d s i = r ! i"
    and finalize_law: "view A d s = Some w \<Longrightarrow> \<exists>c d'. sqlite3_finalize L d s = (c, d') \<and> c \<noteq> 21 \<and>
      contents A d' = contents A d \<and> view A d' = (view A d)(s := None)"
    and modified_law: "sm_modifies M t \<Longrightarrow> sm_run M b t m = Some (rows, b') \<Longrightarrow> sm_changes M b' = of_nat (sm_modified M b t m)"
    and changes_law: "sqlite3_changes L d = sm_changes M (contents A d)"
    and rowid_law: "sqlite3_last_insert_rowid L d = sm_rowid M (contents A d)"

section \<open>An engine with one table\<close>

text \<open>
  A statement ends with a semicolon.  One that begins with \<open>Q\<close> selects all rows of the table, one that begins with \<open>A\<close>
  renames its only column, any other one inserts the value of its first parameter; every question mark is a parameter.
\<close>

record toy_data =
  toy_rows :: "sqlite_content list"
  toy_changes :: nat
  toy_column :: bytes

type_synonym toy_view = "(sqlite_content, toy_data) stmt_view"

record toy_db =
  toy_data :: toy_data
  toy_stmts :: "(nat \<times> toy_view) list"

definition toy_run :: "toy_data \<Rightarrow> bytes \<Rightarrow> (nat \<rightharpoonup> sqlite_argument_value) \<Rightarrow> (sqlite_content list list \<times> toy_data) option" where
  "toy_run b t m =
     Some (if starts_with (lit ''Q'') t then (map (\<lambda>x. [x]) (toy_rows b), b)
           else if starts_with (lit ''A'') t then ([], b\<lparr>toy_column := lit ''y''\<rparr>)
           else ([], b\<lparr>toy_rows := toy_rows b @ [case m 1 of None \<Rightarrow> C_Null | Some a \<Rightarrow> argument_content a], toy_changes := 1\<rparr>))"

definition toy_meaning :: "(sqlite_content, toy_data) sql_meaning" where
  "toy_meaning = \<lparr>
     sm_cut = (\<lambda>q. min (length q) (Suc (length (takeWhile (\<lambda>b. b \<noteq> 59) q)))),
     sm_blank = (\<lambda>t. set t \<subseteq> {32, 59}),
     sm_columns = (\<lambda>b t. if starts_with (lit ''Q'') t then [toy_column b] else []),
     sm_params = (\<lambda>t. map (\<lambda>_. None) (filter (\<lambda>b. b = 63) t)),
     sm_fits = (\<lambda>a. True),
     sm_compiles = (\<lambda>b t. True),
     sm_run = toy_run,
     sm_changes = (\<lambda>b. of_nat (toy_changes b)),
     sm_rowid = (\<lambda>b. of_nat (length (toy_rows b))),
     sm_modifies = (\<lambda>t. \<not> starts_with (lit ''Q'') t \<and> \<not> starts_with (lit ''A'') t),
     sm_modified = (\<lambda>b t m. 1)\<rparr>"

definition toy_abs :: "(toy_db, nat, sqlite_content, toy_data) sqlite_abs" where
  "toy_abs = \<lparr>contents = toy_data, view = map_of \<circ> toy_stmts\<rparr>"

definition toy_set :: "toy_db \<Rightarrow> nat \<Rightarrow> toy_view \<Rightarrow> toy_db" where
  "toy_set d s w = d\<lparr>toy_stmts := AList.update s w (toy_stmts d)\<rparr>"

definition toy_get :: "toy_db \<Rightarrow> nat \<Rightarrow> toy_view" where
  "toy_get d s = (case map_of (toy_stmts d) s of Some w \<Rightarrow> w | None \<Rightarrow> \<lparr>sw_sql = [], sw_columns = [], sw_bound = Map.empty, sw_phase = At_Start\<rparr>)"

definition toy_bind :: "toy_db \<Rightarrow> nat \<Rightarrow> nat \<Rightarrow> sqlite_argument_value \<Rightarrow> int \<times> toy_db" where
  "toy_bind d s i a = (let w = toy_get d s in (0, toy_set d s (w\<lparr>sw_bound := (sw_bound w)(i \<mapsto> a)\<rparr>)))"

definition toy_step :: "toy_db \<Rightarrow> nat \<Rightarrow> int \<times> toy_db" where
  "toy_step d s =
     (let w = toy_get d s in
      case sw_phase w of
        At_Start \<Rightarrow>
          (let w = w\<lparr>sw_columns := sm_columns toy_meaning (toy_data d) (sw_sql w)\<rparr> in
           case toy_run (toy_data d) (sw_sql w) (sw_bound w) of
             Some (r # rs, b) \<Rightarrow> (100, toy_set d s (w\<lparr>sw_phase := At_Row (r # rs) b\<rparr>))
           | Some ([], b) \<Rightarrow> (101, (toy_set d s (w\<lparr>sw_phase := At_End\<rparr>))\<lparr>toy_data := b\<rparr>)
           | None \<Rightarrow> (1, d))
      | At_Row (r # r' # rs) b \<Rightarrow> (100, toy_set d s (w\<lparr>sw_phase := At_Row (r' # rs) b\<rparr>))
      | At_Row _ b \<Rightarrow> (101, (toy_set d s (w\<lparr>sw_phase := At_End\<rparr>))\<lparr>toy_data := b\<rparr>)
      | _ \<Rightarrow> (101, d))"

definition toy_prepare :: "toy_db \<Rightarrow> bytes \<Rightarrow> bool \<Rightarrow> (int \<times> nat option \<times> nat) \<times> toy_db" where
  "toy_prepare d q p =
     (let n = sm_cut toy_meaning q; t = take n q; s = Suc (fold max (map fst (toy_stmts d)) 0) in
      if sm_blank toy_meaning t then ((0, None, n), d)
      else ((0, Some s, n), d\<lparr>toy_stmts := (s, \<lparr>sw_sql = t, sw_columns = sm_columns toy_meaning (toy_data d) t, sw_bound = Map.empty, sw_phase = At_Start\<rparr>) # toy_stmts d\<rparr>))"

definition toy_lib :: "(toy_db, nat, sqlite_content) sqlite3" where
  "toy_lib = \<lparr>
     sqlite3_prepare_v3 = toy_prepare,
     sqlite3_column_count = (\<lambda>d s. length (sw_columns (toy_get d s))),
     sqlite3_column_name = (\<lambda>d s i. sw_columns (toy_get d s) ! i),
     sqlite3_column_decltype = (\<lambda>d s i. None),
     sqlite3_column_type = (\<lambda>d s i. 5),
     sqlite3_column_value = (\<lambda>d s i. case sw_phase (toy_get d s) of At_Row (r # _) _ \<Rightarrow> r ! i | _ \<Rightarrow> C_Null),
     sqlite3_bind_parameter_count = (\<lambda>d s. length (sm_params toy_meaning (sw_sql (toy_get d s)))),
     sqlite3_bind_parameter_name = (\<lambda>d s i. None),
     sqlite3_bind_blob64 = (\<lambda>d s i v. toy_bind d s i (Arg_Blob v)),
     sqlite3_bind_text64 = (\<lambda>d s i v. toy_bind d s i (Arg_Text v)),
     sqlite3_bind_int = (\<lambda>d s i v. toy_bind d s i (Arg_Int v)),
     sqlite3_bind_int64 = (\<lambda>d s i v. toy_bind d s i (Arg_Int64 v)),
     sqlite3_bind_double = (\<lambda>d s i v. toy_bind d s i (Arg_Double v)),
     sqlite3_bind_null = (\<lambda>d s i. toy_bind d s i Arg_Null),
     sqlite3_clear_bindings = (\<lambda>d s. toy_set d s ((toy_get d s)\<lparr>sw_bound := Map.empty\<rparr>)),
     sqlite3_reset = (\<lambda>d s. (0, toy_set d s ((toy_get d s)\<lparr>sw_phase := At_Start\<rparr>))),
     sqlite3_step = toy_step,
     sqlite3_unlock_notify = (\<lambda>d. (0, d)),
     notified = Some,
     sqlite3_finalize = (\<lambda>d s. (0, d\<lparr>toy_stmts := filter (\<lambda>p. fst p \<noteq> s) (toy_stmts d)\<rparr>)),
     sqlite3_changes = (\<lambda>d. of_nat (toy_changes (toy_data d))),
     sqlite3_last_insert_rowid = (\<lambda>d. of_nat (length (toy_rows (toy_data d)))),
     sqlite3_errmsg = (\<lambda>d. []),
     sqlite3_close = (\<lambda>d. (if toy_stmts d = [] then 0 else 5, d)),
     sqlite3_open_v2 = (\<lambda>f flags. (0, Some \<lparr>toy_data = \<lparr>toy_rows = [], toy_changes = 0, toy_column = lit ''x''\<rparr>, toy_stmts = []\<rparr>)),
     sqlite3_extended_result_codes = (\<lambda>d. d),
     sqlite3_busy_timeout = (\<lambda>d ms. (0, d)),
     sqlite3_create_collation_v2 = (\<lambda>d name cmp. (0, d)),
     sqlite3_value_type = content_code,
     sqlite3_value_int = (\<lambda>v. case v of C_Integer i \<Rightarrow> ucast i | _ \<Rightarrow> 0),
     sqlite3_value_int64 = (\<lambda>v. case v of C_Integer i \<Rightarrow> i | _ \<Rightarrow> 0),
     sqlite3_value_double = (\<lambda>v. case v of C_Real f \<Rightarrow> f | _ \<Rightarrow> 0),
     sqlite3_value_bytes = (\<lambda>v. case v of C_Text s \<Rightarrow> length s | C_Blob s \<Rightarrow> length s | _ \<Rightarrow> 0),
     sqlite3_value_blob = (\<lambda>v. case v of C_Text s \<Rightarrow> s | C_Blob s \<Rightarrow> s | _ \<Rightarrow> [])\<rparr>"

interpretation toy_values: sqlite_values toy_lib "\<lambda>v. v"
  by unfold_locales (simp_all add: toy_lib_def)

lemma toy_view_set [simp]: "view toy_abs (toy_set d s w) = (view toy_abs d)(s \<mapsto> w)"
  by (simp add: toy_abs_def toy_set_def update_conv')

lemma toy_contents [simp]: "contents toy_abs d = toy_data d"
  by (simp add: toy_abs_def)

lemma toy_data_set [simp]: "toy_data (toy_set d s w) = toy_data d"
  by (simp add: toy_set_def)

lemma toy_get_view: "view toy_abs d s = Some w \<Longrightarrow> toy_get d s = w"
  by (simp add: toy_abs_def toy_get_def)

lemma toy_data_update [simp]:
  "view toy_abs (d\<lparr>toy_data := b\<rparr>) = view toy_abs d"
  by (simp add: toy_abs_def)

lemma fold_max_ge: "x \<in> set xs \<or> x \<le> m \<Longrightarrow> (x :: nat) \<le> fold max xs m"
proof (induction xs arbitrary: m)
  case (Cons a xs)
  from Cons.prems have "x \<in> set xs \<or> x \<le> max a m" by auto
  from Cons.IH [OF this] show ?case by simp
qed simp

lemma toy_fresh: "map_of es (Suc (fold max (map fst es) 0)) = None"
  using fold_max_ge [of _ "map fst es" 0] by (force simp: map_of_eq_None_iff dest: fold_max_ge)

interpretation toy: sqlite_engine toy_lib toy_abs toy_meaning
proof unfold_locales
  fix d :: toy_db and s :: nat and w :: toy_view and i :: nat and a
  assume "view toy_abs d s = Some w"
  then show "\<exists>d'. argument_bind toy_lib a s i d = Some (Ok (), d') \<and> contents toy_abs d' = contents toy_abs d \<and>
      view toy_abs d' = (view toy_abs d)(s \<mapsto> w\<lparr>sw_bound := (sw_bound w)(i \<mapsto> a)\<rparr>)"
    by (cases a) (simp_all add: argument_bind_def sqlite_status_def toy_lib_def toy_bind_def Let_def toy_get_view)
next
  fix t b m rows b'
  assume "sm_modifies toy_meaning t" "sm_run toy_meaning b t m = Some (rows, b')"
  then show "sm_changes toy_meaning b' = of_nat (sm_modified toy_meaning b t m)"
    by (auto simp: toy_meaning_def toy_run_def)
next
  fix b t m rows b' r
  assume "sm_run toy_meaning b t m = Some (rows, b')" "r \<in> set rows"
  then show "length r = length (sm_columns toy_meaning b t)"
    by (auto simp: toy_meaning_def toy_run_def split: if_splits)
next
  fix d :: toy_db and q :: bytes and p
  assume "\<not> sm_blank toy_meaning (take (sm_cut toy_meaning q) q)"
  then show "\<exists>s d'. sqlite3_prepare_v3 toy_lib d q p = ((0, Some s, sm_cut toy_meaning q), d') \<and> view toy_abs d s = None \<and>
      contents toy_abs d' = contents toy_abs d \<and>
      view toy_abs d' = (view toy_abs d)(s \<mapsto> \<lparr>sw_sql = take (sm_cut toy_meaning q) q,
        sw_columns = sm_columns toy_meaning (contents toy_abs d) (take (sm_cut toy_meaning q) q), sw_bound = Map.empty, sw_phase = At_Start\<rparr>)"
    by (simp add: toy_lib_def toy_prepare_def toy_abs_def Let_def toy_fresh)
next
  fix d :: toy_db and s :: nat and w :: toy_view
  assume w: "view toy_abs d s = Some w"
  have "map_of (filter (\<lambda>p. fst p \<noteq> s) es) = (map_of es)(s := None)" for es :: "(nat \<times> toy_view) list"
    by (induction es) (auto simp: fun_eq_iff)
  then show "\<exists>c d'. sqlite3_finalize toy_lib d s = (c, d') \<and> c \<noteq> 21 \<and>
      contents toy_abs d' = contents toy_abs d \<and> view toy_abs d' = (view toy_abs d)(s := None)"
    by (simp add: toy_lib_def toy_abs_def)
qed (simp_all add: toy_lib_def toy_step_def toy_get_view toy_prepare_def toy_meaning_def Let_def)

end
