(* ===== verification/Sqlite_Run.thy ===== *)
theory Sqlite_Run
  imports Sqlite_Engine "HOL-Library.Sublist"
begin

text \<open>
  What running a query through a virtual statement achieves: the iterator yields exactly what running the statements of
  the text one after the other yields, whether they have to be compiled or were compiled by an earlier run, as long as
  those compiled earlier still have the columns that were read then.
\<close>

section \<open>Relating the driver to the meaning\<close>

definition stmt_texts :: "('db, 's, 'v, 'b) sqlite_abs \<Rightarrow> 'db \<Rightarrow> 's list \<Rightarrow> bytes list" where
  "stmt_texts A d hs = map (\<lambda>s. sw_sql (the (view A d s))) hs"

text \<open>A virtual statement stands for the statements \<open>ts\<close>: those compiled so far and those of its tail.\<close>

definition vs_shows :: "('db, 's, 'v, 'b) sqlite_abs \<Rightarrow> ('v, 'b) sql_meaning \<Rightarrow> 'db \<Rightarrow> 's virtual_statement \<Rightarrow> bytes list \<Rightarrow> bool" where
  "vs_shows A M d vs ts =
     (distinct (vs_handles vs) \<and> (\<forall>s \<in> set (vs_handles vs). \<exists>w. view A d s = Some w \<and> sw_phase w \<noteq> At_Error) \<and>
      0 \<notin> set (vs_tail vs) \<and> stmt_texts A d (vs_handles vs) @ split_sql M (vs_tail vs) = ts \<and>
      length (vs_columns vs) = length (vs_handles vs) \<and> length (vs_column_names vs) = length (vs_handles vs))"

text \<open>The names of the columns that were read when the statements were compiled.\<close>

definition columns_of :: "'s virtual_statement \<Rightarrow> bytes list list" where
  "columns_of vs = map (map sc_name) (vs_columns vs)"

text \<open>Only the given statements are touched, and those that are new were not open before.\<close>

definition touches :: "('db, 's, 'v, 'b) sqlite_abs \<Rightarrow> 'db \<Rightarrow> 's list \<Rightarrow> 'db \<Rightarrow> 's list \<Rightarrow> bool" where
  "touches A d hs d' hs' =
     (set hs \<subseteq> set hs' \<and> (\<forall>s. s \<notin> set hs' \<longrightarrow> view A d' s = view A d s) \<and> (\<forall>s \<in> set hs' - set hs. view A d s = None))"

fun item_shows :: "'v script_item \<Rightarrow> 'v step_item \<Rightarrow> bool" where
  "item_shows (Inl (c, i)) x = (x = Ok (Inl \<lparr>qr_changes = c, qr_last_insert_rowid = i\<rparr>))"
| "item_shows (Inr (ns, r)) x = (\<exists>y. x = Ok (Inr y) \<and> map sv_handle (sr_values y) = r \<and> map sc_name (sr_columns y) = ns)"

inductive iterates ::
    "('db, 's, 'v) sqlite3 \<Rightarrow> 'dt sqlite_kit \<Rightarrow> ('s, 'db) execute_iter \<Rightarrow> 'v step_item list \<Rightarrow> ('s, 'db) execute_iter \<Rightarrow> bool"
  for L :: "('db, 's, 'v) sqlite3" and K :: "'dt sqlite_kit" where
  iterates_end: "execute_next L K st = Some (Ok None, st') \<Longrightarrow> iterates L K st [] st'"
| iterates_item: "execute_next L K st = Some (Ok (Some x), st1) \<Longrightarrow> iterates L K st1 xs st' \<Longrightarrow> iterates L K st (x # xs) st'"

inductive_simps iterates_Nil: "iterates L K st [] st'"
inductive_simps iterates_Cons: "iterates L K st (x # xs) st'"

lemma touches_refl: "touches A d hs d hs"
  by (simp add: touches_def)

lemma touches_trans: "touches A d hs d1 hs1 \<Longrightarrow> touches A d1 hs1 d2 hs2 \<Longrightarrow> touches A d hs d2 hs2"
  by (auto simp: touches_def)

lemma touches_upd: "s \<in> set hs \<Longrightarrow> view A d' = (view A d)(s \<mapsto> w) \<Longrightarrow> touches A d hs d' hs"
  by (auto simp: touches_def)

lemma stmt_texts_upd:
  "view A d s = Some w \<Longrightarrow> view A d' = (view A d)(s \<mapsto> w') \<Longrightarrow> sw_sql w' = sw_sql w \<Longrightarrow> stmt_texts A d' hs = stmt_texts A d hs"
  by (simp add: stmt_texts_def)

lemma vs_shows_upd:
  assumes "vs_shows A M d vs ts" and "view A d s = Some w" and "view A d' = (view A d)(s \<mapsto> w')" and "sw_sql w' = sw_sql w"
    and "sw_phase w' \<noteq> At_Error"
  shows "vs_shows A M d' vs ts"
  using assms(1) stmt_texts_upd [OF assms(2-4), of "vs_handles vs"] assms(3,5) by (auto simp: vs_shows_def)

lemma vs_shows_index [simp]:
  "vs_shows A M d (vs\<lparr>vs_index := i\<rparr>) ts = vs_shows A M d vs ts"
  by (simp add: vs_shows_def)

lemma columns_of_index [simp]: "columns_of (vs\<lparr>vs_index := i\<rparr>) = columns_of vs"
  by (simp add: columns_of_def)

lemma length_columns_of: "vs_shows A M d vs ts \<Longrightarrow> length (columns_of vs) = length (vs_handles vs)"
  by (simp add: columns_of_def vs_shows_def)

lemma vs_shows_handle:
  assumes "vs_shows A M d vs ts" and "i < length (vs_handles vs)"
  shows "\<exists>w. view A d (vs_handles vs ! i) = Some w \<and> sw_phase w \<noteq> At_Error \<and> i < length ts \<and> sw_sql w = ts ! i \<and>
    i < length (vs_columns vs) \<and> i < length (vs_column_names vs)"
proof -
  note d = assms(1) [unfolded vs_shows_def]
  from assms d obtain w where w: "view A d (vs_handles vs ! i) = Some w" "sw_phase w \<noteq> At_Error" by (meson nth_mem)
  then have t: "stmt_texts A d (vs_handles vs) ! i = sw_sql w" using assms(2) by (simp add: stmt_texts_def)
  have len: "length (stmt_texts A d (vs_handles vs)) = length (vs_handles vs)" by (simp add: stmt_texts_def)
  with d assms(2) have "i < length ts" "ts ! i = sw_sql w" using t by (auto simp: nth_append)
  with w d assms(2) show ?thesis by auto
qed

section \<open>Compiling\<close>

context sqlite_engine
begin

lemma split_drop:
  assumes "q \<noteq> []" and "0 \<notin> set q"
  shows "split_sql M q = (if sm_blank M (take (sm_cut M q) q) then [] else [take (sm_cut M q) q]) @ split_sql M (drop (sm_cut M q) q)"
    and "0 \<notin> set (drop (sm_cut M q) q)" and "length (drop (sm_cut M q) q) < length q" and "\<not> sm_cut M q > length q"
  using assms cut_law [OF assms] by (simp_all add: split_sql.simps [of M q]) (meson in_set_dropD)

lemma prepare_stmt_done:
  assumes "0 \<notin> set q" and "split_sql M q = []"
  shows "\<exists>d'. prepare_stmt L p q d = Some (Ok None, [], d') \<and> contents A d' = contents A d \<and> view A d' = view A d"
  using assms
proof (induction q arbitrary: d rule: length_induct)
  case (1 q)
  show ?case
  proof (cases "q = []")
    case True
    then show ?thesis by (simp add: prepare_stmt.simps)
  next
    case False
    note q = split_drop [OF False "1.prems"(1)]
    from q(1) "1.prems"(2) have blank: "sm_blank M (take (sm_cut M q) q)" "split_sql M (drop (sm_cut M q) q) = []"
      by (auto split: if_splits)
    from prepare_blank [OF False "1.prems"(1) blank(1)] obtain d1 where
      d1: "sqlite3_prepare_v3 L d q p = ((0, None, sm_cut M q), d1)" "contents A d1 = contents A d" "view A d1 = view A d"
      by blast
    from "1.IH" q blank(2) obtain d2 where "prepare_stmt L p (drop (sm_cut M q) q) d1 = Some (Ok None, [], d2)"
      "contents A d2 = contents A d1" "view A d2 = view A d1" by blast
    with d1 q(4) False show ?thesis by (simp add: prepare_stmt.simps [of L p q])
  qed
qed

lemma prepare_stmt_next:
  assumes "0 \<notin> set q" and "split_sql M q = t # ts" and "sm_compiles M (contents A d) t"
  shows "\<exists>s q' d'. prepare_stmt L p q d = Some (Ok (Some s), q', d') \<and> 0 \<notin> set q' \<and> split_sql M q' = ts \<and>
    view A d s = None \<and> contents A d' = contents A d \<and>
    view A d' = (view A d)(s \<mapsto> \<lparr>sw_sql = t, sw_columns = sm_columns M (contents A d) t, sw_bound = Map.empty, sw_phase = At_Start\<rparr>)"
  using assms
proof (induction q arbitrary: d rule: length_induct)
  case (1 q)
  have False: "q \<noteq> []" using "1.prems"(2) by (auto simp: split_sql.simps)
  note q = split_drop [OF False "1.prems"(1)]
  show ?case
  proof (cases "sm_blank M (take (sm_cut M q) q)")
    case True
    from prepare_blank [OF False "1.prems"(1) True] obtain d1 where
      d1: "sqlite3_prepare_v3 L d q p = ((0, None, sm_cut M q), d1)" "contents A d1 = contents A d" "view A d1 = view A d"
      by blast
    with "1.IH" [rule_format, OF q(3), of d1] q True "1.prems"(2,3) show ?thesis
      by (simp add: prepare_stmt.simps [of L p q] False del: fun_upd_apply)
  next
    case n: False
    with q(1) "1.prems"(2) have t: "take (sm_cut M q) q = t" "split_sql M (drop (sm_cut M q) q) = ts" by auto
    from prepare_law [OF False "1.prems"(1) n, of d p] t(1) "1.prems"(3) obtain s d' where
      s: "sqlite3_prepare_v3 L d q p = ((0, Some s, sm_cut M q), d')" "view A d s = None" "contents A d' = contents A d"
        "view A d' = (view A d)(s \<mapsto> \<lparr>sw_sql = t, sw_columns = sm_columns M (contents A d) t, sw_bound = Map.empty, sw_phase = At_Start\<rparr>)" by blast
    have "prepare_stmt L p q d = Some (Ok (Some s), drop (sm_cut M q) q, d')"
      using s(1) q(4) False by (simp add: prepare_stmt.simps [of L p q])
    with s(2-4) t(2) q(2) show ?thesis by blast
  qed
qed

lemma describe_columns:
  assumes "view A d s = Some w" and "\<forall>i \<in> set is. i < length (sw_columns w)"
  shows "\<exists>c nm'. describe_loop L d s is acc nm = Ok (acc @ c, nm') \<and> map sc_name c = map (\<lambda>i. sw_columns w ! i) is"
  using assms(2)
proof (induction "is" arbitrary: acc nm)
  case (Cons i "is")
  then have i: "i < length (sw_columns w)" by simp
  have "\<exists>t. (case column_decltype L d s i of Some t \<Rightarrow> Ok t | None \<Rightarrow> column_type_info L d s i) = Ok t"
    using type_code_law [OF assms(1) i]
    by (cases "column_decltype L d s i") (auto simp: column_type_info_def data_type_from_code_def)
  then obtain t where t: "(case column_decltype L d s i of Some t \<Rightarrow> Ok t | None \<Rightarrow> column_type_info L d s i) = Ok t" ..
  from Cons.IH [of "acc @ [\<lparr>sc_name = sw_columns w ! i, sc_ordinal = i, sc_type_info = t\<rparr>]"
      "nm(sw_columns w ! i \<mapsto> i)"] Cons.prems
  obtain c nm' where "describe_loop L d s is (acc @ [\<lparr>sc_name = sw_columns w ! i, sc_ordinal = i, sc_type_info = t\<rparr>])
      (nm(sw_columns w ! i \<mapsto> i)) =
      Ok ((acc @ [\<lparr>sc_name = sw_columns w ! i, sc_ordinal = i, sc_type_info = t\<rparr>]) @ c, nm')"
    "map sc_name c = map (\<lambda>i. sw_columns w ! i) is" by (auto simp del: fun_upd_apply)
  then show ?case by (simp add: t name_law [OF assms(1) i] Let_def)
qed simp

text \<open>Going to statement number \<open>i\<close>, compiled or next to be compiled.\<close>

lemma prepare_loop_here:
  assumes "vs_shows A M d vs ts" and "vs_index vs = Some i" and "i < length (vs_handles vs)"
  shows "\<exists>ps. prepare_loop L (vs, d) = Some (Ok (Some ps), vs, d) \<and> current vs = Ok (Some ps) \<and> ps_handle ps = vs_handles vs ! i \<and>
    map sc_name (ps_columns ps) = columns_of vs ! i"
  using vs_shows_handle [OF assms(1,3)] assms(2,3)
  by (auto simp: prepare_loop.simps [of L "(vs, d)"] current_def index_def or_default_def columns_of_def)

lemma prepare_loop_next:
  assumes "vs_shows A M d vs ts" and "vs_index vs = Some (length (vs_handles vs))" and "length (vs_handles vs) < length ts"
    and "sm_compiles M (contents A d) (ts ! length (vs_handles vs))"
  shows "\<exists>vs1 d'. prepare_loop L (vs, d) = prepare_loop L (vs1, d') \<and> vs_shows A M d' vs1 ts \<and> vs_index vs1 = vs_index vs \<and>
    length (vs_handles vs1) = Suc (length (vs_handles vs)) \<and> contents A d' = contents A d \<and>
    touches A d (vs_handles vs) d' (vs_handles vs1) \<and>
    columns_of vs1 = columns_of vs @ [sm_columns M (contents A d) (ts ! length (vs_handles vs))]"
proof -
  note d = assms(1) [unfolded vs_shows_def]
  let ?n = "length (vs_handles vs)"
  have len: "length (stmt_texts A d (vs_handles vs)) = ?n" by (simp add: stmt_texts_def)
  then have "split_sql M (vs_tail vs) = drop ?n ts" using d by auto
  then have sp: "split_sql M (vs_tail vs) = ts ! ?n # drop (Suc ?n) ts" using assms(3) by (simp add: Cons_nth_drop_Suc)
  then have ne: "vs_tail vs \<noteq> []" by (auto simp: split_sql.simps)
  from prepare_stmt_next [OF _ sp, of d "vs_persistent vs"] d assms(4) obtain s q' d' where
    p: "prepare_stmt L (vs_persistent vs) (vs_tail vs) d = Some (Ok (Some s), q', d')" "0 \<notin> set q'" "split_sql M q' = drop (Suc ?n) ts"
      "view A d s = None" "contents A d' = contents A d"
      "view A d' = (view A d)(s \<mapsto> \<lparr>sw_sql = ts ! ?n, sw_columns = sm_columns M (contents A d) (ts ! ?n), sw_bound = Map.empty, sw_phase = At_Start\<rparr>)" by auto
  let ?w = "\<lparr>sw_sql = ts ! ?n, sw_columns = sm_columns M (contents A d) (ts ! ?n), sw_bound = Map.empty, sw_phase = At_Start\<rparr> :: ('d, 'e) stmt_view"
  have v: "view A d' s = Some ?w" using p(6) by simp
  from describe_columns [OF v, of "[0..<sqlite3_column_count L d' s]" "[]" Map.empty] columns_law [OF v] obtain c nm where
    c: "describe_loop L d' s [0..<sqlite3_column_count L d' s] [] Map.empty = Ok (c, nm)"
      "map sc_name c = sm_columns M (contents A d) (ts ! ?n)" by (auto simp: map_nth)
  let ?vs = "vs\<lparr>vs_tail := q', vs_handles := vs_handles vs @ [s], vs_columns := vs_columns vs @ [c],
    vs_column_names := vs_column_names vs @ [nm]\<rparr>"
  have "prepare_loop L (vs, d) = prepare_loop L (?vs, d')"
    by (simp add: prepare_loop.simps [of L "(vs, d)"] assms(2) or_default_def ne p(1) c(1))
  moreover have new: "s \<notin> set (vs_handles vs)" using d p(4) by auto
  have "stmt_texts A d' (vs_handles vs) = stmt_texts A d (vs_handles vs)" using new p(6) by (auto simp: stmt_texts_def)
  then have "stmt_texts A d' (vs_handles vs @ [s]) = stmt_texts A d (vs_handles vs) @ [ts ! ?n]"
    using v by (simp add: stmt_texts_def)
  then have "vs_shows A M d' ?vs ts"
    using d new p sp by (auto simp: vs_shows_def)
  moreover have "columns_of ?vs = columns_of vs @ [sm_columns M (contents A d) (ts ! ?n)]" by (simp add: columns_of_def c(2))
  moreover have "touches A d (vs_handles vs) d' (vs_handles vs @ [s])" using p(4,6) by (auto simp: touches_def)
  ultimately show ?thesis using p(5) by (intro exI [of _ ?vs] exI [of _ d']) simp
qed

lemma prepare_loop_end:
  assumes "vs_shows A M d vs ts" and "vs_index vs = Some (length (vs_handles vs))" and "length (vs_handles vs) = length ts"
  shows "\<exists>vs1 d'. prepare_loop L (vs, d) = Some (Ok None, vs1, d') \<and> vs_shows A M d' vs1 ts \<and> vs_handles vs1 = vs_handles vs \<and>
    contents A d' = contents A d \<and> view A d' = view A d \<and> columns_of vs1 = columns_of vs"
proof (cases "vs_tail vs = []")
  case True
  then show ?thesis using assms by (auto simp: prepare_loop.simps [of L "(vs, d)"] or_default_def)
next
  case False
  note d = assms(1) [unfolded vs_shows_def]
  have "length (stmt_texts A d (vs_handles vs)) = length ts" using assms(3) by (simp add: stmt_texts_def)
  then have "split_sql M (vs_tail vs) = []" using d by auto
  from prepare_stmt_done [OF _ this, of "vs_persistent vs" d] d obtain d' where
    d': "prepare_stmt L (vs_persistent vs) (vs_tail vs) d = Some (Ok None, [], d')" "contents A d' = contents A d" "view A d' = view A d"
    by auto
  have "prepare_loop L (vs, d) = Some (Ok None, vs\<lparr>vs_tail := []\<rparr>, d')"
    using False d' assms(2) by (simp add: prepare_loop.simps [of L "(vs, d)"] prepare_loop.simps [of L "(vs\<lparr>vs_tail := []\<rparr>, d')"] or_default_def)
  moreover have "vs_shows A M d' (vs\<lparr>vs_tail := []\<rparr>) ts"
    using d d'(3) \<open>split_sql M (vs_tail vs) = []\<close> by (simp add: vs_shows_def stmt_texts_def split_sql.simps [of M "[]"])
  ultimately show ?thesis using d'(2,3) by (auto simp: columns_of_def)
qed

text \<open>Where \<open>prepare_next\<close> goes: one further than the statement that ran last.\<close>

lemma goto_statement:
  assumes "vs_shows A M d vs ts" and "i = (case vs_index vs of None \<Rightarrow> 0 | Some j \<Rightarrow> Suc j)" and "i \<le> length (vs_handles vs)"
    and "i < length ts" and "sm_compiles M (contents A d) (ts ! i)"
  shows "\<exists>ps vs1 d'. prepare_next L (vs, d) = Some (Ok (Some ps), vs1, d') \<and> vs_shows A M d' vs1 ts \<and> vs_index vs1 = Some i \<and>
    i < length (vs_handles vs1) \<and> current vs1 = Ok (Some ps) \<and> ps_handle ps = vs_handles vs1 ! i \<and>
    map sc_name (ps_columns ps) = columns_of vs1 ! i \<and> contents A d' = contents A d \<and>
    touches A d (vs_handles vs) d' (vs_handles vs1) \<and>
    columns_of vs1 = columns_of vs @ (if i < length (vs_handles vs) then [] else [sm_columns M (contents A d) (ts ! i)])"
proof -
  let ?vs = "vs\<lparr>vs_index := Some i\<rparr>"
  have start: "prepare_next L (vs, d) = prepare_loop L (?vs, d)"
    using assms(2,3) by (auto simp: prepare_next_def Let_def min_def split: option.splits)
  have vs: "vs_shows A M d ?vs ts" using assms(1) by simp
  show ?thesis
  proof (cases "i < length (vs_handles vs)")
    case True
    with prepare_loop_here [OF vs, of i] start assms(1) show ?thesis
      by (auto simp: touches_refl intro!: exI [of _ ?vs])
  next
    case False
    with assms(3) have i: "i = length (vs_handles vs)" by simp
    from prepare_loop_next [OF vs] i assms(4,5) obtain vs1 d' where
      n: "prepare_loop L (?vs, d) = prepare_loop L (vs1, d')" "vs_shows A M d' vs1 ts" "vs_index vs1 = Some i"
        "length (vs_handles vs1) = Suc i" "contents A d' = contents A d" "touches A d (vs_handles vs) d' (vs_handles vs1)"
        "columns_of vs1 = columns_of vs @ [sm_columns M (contents A d) (ts ! i)]"
      by auto
    with prepare_loop_here [OF n(2,3)] start i show ?thesis by auto
  qed
qed

lemma goto_end:
  assumes "vs_shows A M d vs ts" and "length ts = (case vs_index vs of None \<Rightarrow> 0 | Some j \<Rightarrow> Suc j)" and "length ts \<le> length (vs_handles vs)"
  shows "\<exists>vs1 d'. prepare_next L (vs, d) = Some (Ok None, vs1, d') \<and> vs_shows A M d' vs1 ts \<and> vs_handles vs1 = vs_handles vs \<and>
    contents A d' = contents A d \<and> view A d' = view A d \<and> columns_of vs1 = columns_of vs"
proof -
  let ?vs = "vs\<lparr>vs_index := Some (length ts)\<rparr>"
  have start: "prepare_next L (vs, d) = prepare_loop L (?vs, d)"
    using assms(2,3) by (auto simp: prepare_next_def Let_def min_def split: option.splits)
  have "length (vs_handles vs) \<le> length ts" using assms(1) by (auto simp: vs_shows_def stmt_texts_def)
  with assms prepare_loop_end [of d ?vs ts] start show ?thesis by simp
qed

section \<open>Binding\<close>

end

text \<open>Two argument counters that bind the same: equal, or both past the last argument.\<close>

definition same_offset :: "sqlite_arguments option \<Rightarrow> nat \<Rightarrow> nat \<Rightarrow> bool" where
  "same_offset args k off = (case args of None \<Rightarrow> True | Some vs \<Rightarrow> k = off \<or> length vs < k \<and> length vs < off)"

definition argument_list :: "sqlite_arguments option \<Rightarrow> sqlite_arguments" where
  "argument_list args = or_default [] args"

lemma positional_0 [simp]: "positional vs off 0 = Map.empty"
  by (auto simp: positional_def fun_eq_iff)

lemma positional_past: "length vs < off \<Longrightarrow> positional vs off n = Map.empty"
  by (auto simp: positional_def fun_eq_iff)

lemma positional_Suc:
  "off + Suc k \<le> length vs \<Longrightarrow> (positional vs off k)(Suc k \<mapsto> vs ! (off + k)) = positional vs off (Suc k)"
  by (auto simp: positional_def fun_eq_iff le_Suc_eq)

lemma positional_stop: "length vs < off + Suc k \<Longrightarrow> k \<le> n \<Longrightarrow> positional vs off k = positional vs off n"
  by (auto simp: positional_def fun_eq_iff)

context sqlite_engine
begin

lemma bind_loop_positional:
  assumes "view A d s = Some w" and "sw_phase w = At_Start" and "set (sm_params M (sw_sql w)) \<subseteq> {None}"
    and "n = length (sm_params M (sw_sql w))" and "k \<le> n" and "sw_bound w = positional vs off k" and "\<forall>a \<in> set vs. sm_fits M a"
  shows "\<exists>d' u. bind_loop L K vs s [Suc k..<Suc n] (off + k) d = Some (Ok u, d') \<and> contents A d' = contents A d \<and>
    view A d' = (view A d)(s \<mapsto> w\<lparr>sw_bound := positional vs off n\<rparr>) \<and> off + k \<le> u \<and> same_offset (Some vs) u (off + n)"
  using assms
proof (induction "n - k" arbitrary: k w d)
  case 0
  then have "w\<lparr>sw_bound := positional vs off n\<rparr> = w" by simp
  moreover have "k = n" using 0 by simp
  ultimately show ?case using 0 by (auto simp: same_offset_def)
next
  case (Suc m)
  then have k: "k < n" "[Suc k..<Suc n] = Suc k # [Suc (Suc k)..<Suc n]" by (auto simp: upt_conv_Cons simp del: upt_Suc)
  from k(1) Suc.prems(3,4) have "sm_params M (sw_sql w) ! k = None" by (metis nth_mem singletonD subsetD)
  then have nm: "sqlite3_bind_parameter_name L d s (Suc k) = None"
    using param_name_law [OF Suc.prems(1), of "Suc k"] k(1) Suc.prems(4) by simp
  show ?case
  proof (cases "length vs < off + Suc k")
    case True
    with positional_stop [OF True, of n] k Suc.prems(6) have "w\<lparr>sw_bound := positional vs off n\<rparr> = w" by simp
    with True k Suc.prems(1) show ?thesis by (auto simp: nm param_index_def same_offset_def simp del: upt_Suc)
  next
    case False
    then have "sm_fits M (vs ! (off + k))" using Suc.prems(7) by simp
    with bind_law [OF Suc.prems(1,2), of "Suc k" "vs ! (off + k)"] k(1) Suc.prems(4) obtain d1 where
      d1: "argument_bind L (vs ! (off + k)) s (Suc k) d = Some (Ok (), d1)" "contents A d1 = contents A d"
        "view A d1 = (view A d)(s \<mapsto> w\<lparr>sw_bound := (sw_bound w)(Suc k \<mapsto> vs ! (off + k))\<rparr>)" by auto
    let ?w = "w\<lparr>sw_bound := positional vs off (Suc k)\<rparr>"
    have w: "view A d1 = (view A d)(s \<mapsto> ?w)" using d1(3) Suc.prems(6) positional_Suc [of off k vs] False by simp
    have "\<exists>d' u. bind_loop L K vs s [Suc (Suc k)..<Suc n] (off + Suc k) d1 = Some (Ok u, d') \<and> contents A d' = contents A d1 \<and>
        view A d' = (view A d1)(s \<mapsto> ?w\<lparr>sw_bound := positional vs off n\<rparr>) \<and> off + Suc k \<le> u \<and> same_offset (Some vs) u (off + n)"
      using Suc.hyps(2) Suc.prems k(1) w by (intro Suc.hyps(1)) simp_all
    then obtain d' u where
      "bind_loop L K vs s [Suc (Suc k)..<Suc n] (off + Suc k) d1 = Some (Ok u, d')" "contents A d' = contents A d1"
      "view A d' = (view A d1)(s \<mapsto> ?w\<lparr>sw_bound := positional vs off n\<rparr>)" "off + Suc k \<le> u" "same_offset (Some vs) u (off + n)"
      by blast
    with d1(1,2) w False show ?thesis
      by (intro exI [of _ d'] exI [of _ u]) (simp add: k(2) nm param_index_def abind_def del: upt_Suc)
  qed
qed

lemma bind_arguments_positional:
  assumes "view A d s = Some w" and "sw_phase w = At_Start" and "set (sm_params M (sw_sql w)) \<subseteq> {None}"
    and "sw_bound w = Map.empty" and "same_offset args k off" and "\<forall>a \<in> set (argument_list args). sm_fits M a"
  shows "\<exists>d' u. bind_arguments L K args s k d = Some (Ok u, d') \<and> contents A d' = contents A d \<and>
    view A d' = (view A d)(s \<mapsto> w\<lparr>sw_bound := positional (argument_list args) off (length (sm_params M (sw_sql w)))\<rparr>) \<and>
    same_offset args (k + u) (off + length (sm_params M (sw_sql w)))"
proof (cases args)
  case None
  have "positional [] off n = Map.empty" for n by (auto simp: positional_def fun_eq_iff)
  moreover have "w\<lparr>sw_bound := Map.empty\<rparr> = w" using assms(4) by simp
  ultimately show ?thesis using None assms(1)
    by (auto simp: bind_arguments_def aret_def same_offset_def argument_list_def or_default_def)
next
  case (Some vs)
  let ?n = "length (sm_params M (sw_sql w))"
  from bind_loop_positional [OF assms(1-3) refl le0, of vs k K] assms(4,6) Some obtain d' u where
    b: "bind_loop L K vs s [Suc 0..<Suc ?n] k d = Some (Ok u, d')" "contents A d' = contents A d"
      "view A d' = (view A d)(s \<mapsto> w\<lparr>sw_bound := positional vs k ?n\<rparr>)" "k \<le> u" "same_offset (Some vs) u (k + ?n)" by (auto simp: argument_list_def or_default_def)
  have "positional vs k ?n = positional vs off ?n"
    using assms(5) Some by (auto simp: same_offset_def positional_past)
  moreover have "same_offset args u (off + ?n)" using b(5) assms(5) Some by (auto simp: same_offset_def)
  moreover have "bind_arguments L K args s k d = Some (Ok (u - k), d')"
    using b(1) params_law [OF assms(1)] Some by (simp add: bind_arguments_def arguments_bind_def abind_def aret_def del: upt_Suc)
  ultimately show ?thesis using b Some by (intro exI [of _ d'] exI [of _ "u - k"]) (simp add: argument_list_def or_default_def)
qed

section \<open>Stepping\<close>

lemma step_code: "sqlite3_step L d s = (100, d') \<Longrightarrow> handle_step L s d = Some (Ok True, d')"
  "sqlite3_step L d s = (101, d') \<Longrightarrow> handle_step L s d = Some (Ok False, d')"
  by (simp_all add: handle_step.simps)

lemma step_statement_row:
  assumes "sqlite3_step L (ei_db st) (ps_handle ps) = (100, d')" and "view A d' (ps_handle ps) = Some w" and "sw_phase w = At_Row (r # rs) b"
    and "map sc_name (ps_columns ps) = ns" and "length r = length ns"
  shows "\<exists>x. step_statement L ps st = Some (Ok (Some x), st\<lparr>ei_db := d'\<rparr>) \<and> item_shows (Inr (ns, r)) x"
proof -
  have n: "length (ps_columns ps) = length r" using assms(4,5) by (metis length_map)
  let ?y = "row_current L d' (ps_handle ps) (ps_columns ps) (ps_column_names ps)"
  have "map sv_handle (sr_values ?y) = map (\<lambda>i. r ! i) [0..<length r]"
    using value_law [OF assms(2,3)] n by (simp add: row_current_def)
  then have "map sv_handle (sr_values ?y) = r" by (simp add: map_nth)
  moreover have "sr_columns ?y = ps_columns ps" by (simp add: row_current_def)
  ultimately show ?thesis using step_code(1) [OF assms(1)] assms(4)
    by (auto simp: step_statement_def or_item_def on_db_def)
qed

lemma step_statement_done:
  assumes "sqlite3_step L (ei_db st) (ps_handle ps) = (101, d')"
  shows "step_statement L ps st = Some (Ok (Some (Ok (Inl \<lparr>qr_changes = scast (sm_changes M (contents A d')),
    qr_last_insert_rowid = sm_rowid M (contents A d')\<rparr>))), st\<lparr>ei_db := d', ei_goto_next := True\<rparr>)"
  using step_code(2) [OF assms] by (simp add: step_statement_def or_item_def on_db_def handle_changes_def changes_law rowid_law)

text \<open>The rows that are left, then the summary.\<close>

lemma rows_left:
  assumes "\<not> ei_goto_next st" and "current (ei_stmt st) = Ok (Some ps)" and "view A (ei_db st) (ps_handle ps) = Some w"
    and "sw_phase w = At_Row (r # rs) b" and "map sc_name (ps_columns ps) = ns"
    and "\<forall>r \<in> set rs. length r = length (ns)"
  shows "\<exists>xs d'. list_all2 item_shows (map (\<lambda>r. Inr (ns, r)) rs @ [Inl (scast (sm_changes M b), sm_rowid M b)]) xs \<and>
    (\<forall>ys st'. iterates L K (st\<lparr>ei_db := d', ei_goto_next := True\<rparr>) ys st' \<longrightarrow> iterates L K st (xs @ ys) st') \<and>
    contents A d' = b \<and> view A d' = (view A (ei_db st))(ps_handle ps \<mapsto> w\<lparr>sw_phase := At_End\<rparr>)"
  using assms
proof (induction rs arbitrary: r st w)
  case Nil
  from step_done [OF Nil.prems(3,4)] obtain d' where
    d': "sqlite3_step L (ei_db st) (ps_handle ps) = (101, d')" "contents A d' = b"
      "view A d' = (view A (ei_db st))(ps_handle ps \<mapsto> w\<lparr>sw_phase := At_End\<rparr>)" by blast
  have "execute_next L K st = step_statement L ps st" using Nil.prems(1,2) by (simp add: execute_next_def or_item_def)
  with step_statement_done [OF d'(1)] d'(2,3) show ?case
    by (intro exI [of _ "[Ok (Inl \<lparr>qr_changes = scast (sm_changes M b), qr_last_insert_rowid = sm_rowid M b\<rparr>)]"] exI [of _ d'])
      (auto simp: iterates_Cons)
next
  case (Cons r' rs)
  from step_row [OF Cons.prems(3,4)] obtain d1 where
    d1: "sqlite3_step L (ei_db st) (ps_handle ps) = (100, d1)" "contents A d1 = contents A (ei_db st)"
      "view A d1 = (view A (ei_db st))(ps_handle ps \<mapsto> w\<lparr>sw_phase := At_Row (r' # rs) b\<rparr>)" by blast
  let ?w = "w\<lparr>sw_phase := At_Row (r' # rs) b\<rparr>"
  let ?st = "st\<lparr>ei_db := d1\<rparr>"
  from step_statement_row [OF d1(1), of ?w r' rs b ns] d1(3) Cons.prems(5,6) obtain x where
    x: "step_statement L ps st = Some (Ok (Some x), ?st)" "item_shows (Inr (ns, r')) x" by auto
  have e: "execute_next L K st = step_statement L ps st" using Cons.prems(1,2) by (simp add: execute_next_def or_item_def)
  have "\<exists>xs d'. list_all2 item_shows (map (\<lambda>r. Inr (ns, r)) rs @ [Inl (scast (sm_changes M b), sm_rowid M b)]) xs \<and>
    (\<forall>ys st'. iterates L K (?st\<lparr>ei_db := d', ei_goto_next := True\<rparr>) ys st' \<longrightarrow> iterates L K ?st (xs @ ys) st') \<and>
    contents A d' = b \<and> view A d' = (view A (ei_db ?st))(ps_handle ps \<mapsto> ?w\<lparr>sw_phase := At_End\<rparr>)"
    using Cons.prems d1(3) by (intro Cons.IH [where r = r']) simp_all
  then obtain xs d' where
    xs: "list_all2 item_shows (map (\<lambda>r. Inr (ns, r)) rs @ [Inl (scast (sm_changes M b), sm_rowid M b)]) xs"
      "\<And>ys st'. iterates L K (st\<lparr>ei_db := d', ei_goto_next := True\<rparr>) ys st' \<Longrightarrow> iterates L K ?st (xs @ ys) st'"
      "contents A d' = b" "view A d' = (view A d1)(ps_handle ps \<mapsto> w\<lparr>sw_phase := At_End\<rparr>)" by auto
  from xs(2) e x(1) have "iterates L K (st\<lparr>ei_db := d', ei_goto_next := True\<rparr>) ys st' \<Longrightarrow> iterates L K st ((x # xs) @ ys) st'" for ys st'
    by (auto simp: iterates_Cons)
  moreover have "view A d' = (view A (ei_db st))(ps_handle ps \<mapsto> w\<lparr>sw_phase := At_End\<rparr>)" using xs(4) d1(3) by simp
  ultimately show ?case using x(2) xs(1,3) by (intro exI [of _ "x # xs"] exI [of _ d']) simp
qed

text \<open>A statement whose bindings are in place, from its start to its summary.\<close>

lemma run_bound:
  assumes "view A d s = Some w" and "sw_phase w = At_Start" and "sm_run M (contents A d) (sw_sql w) (sw_bound w) = Some (rows, b)"
    and "ps_handle ps = s" and "map sc_name (ps_columns ps) = sm_columns M (contents A d) (sw_sql w)"
    and "ei_db st = d" and "\<not> ei_goto_next st" and "current (ei_stmt st) = Ok (Some ps)"
    and "execute_next L K st0 = step_statement L ps st"
  shows "\<exists>xs d'. list_all2 item_shows (map (\<lambda>r. Inr (sm_columns M (contents A d) (sw_sql w), r)) rows @ [Inl (scast (sm_changes M b), sm_rowid M b)]) xs \<and>
    (\<forall>ys st'. iterates L K (st\<lparr>ei_db := d', ei_goto_next := True\<rparr>) ys st' \<longrightarrow> iterates L K st0 (xs @ ys) st') \<and>
    contents A d' = b \<and> view A d' = (view A d)(s \<mapsto> w\<lparr>sw_columns := sm_columns M (contents A d) (sw_sql w), sw_phase := At_End\<rparr>)"
proof (cases rows)
  case Nil
  with step_start_done [OF assms(1,2)] assms(3) obtain d' where
    d': "sqlite3_step L d s = (101, d')" "contents A d' = b" "view A d' = (view A d)(s \<mapsto> w\<lparr>sw_columns := sm_columns M (contents A d) (sw_sql w), sw_phase := At_End\<rparr>)" by blast
  with step_statement_done [of st ps d'] assms(4,6,9) Nil show ?thesis
    by (intro exI [of _ "[Ok (Inl \<lparr>qr_changes = scast (sm_changes M b), qr_last_insert_rowid = sm_rowid M b\<rparr>)]"] exI [of _ d'])
      (auto simp: iterates_Cons)
next
  case (Cons r rs)
  with step_start_row [OF assms(1,2)] assms(3) obtain d1 where
    d1: "sqlite3_step L d s = (100, d1)" "view A d1 = (view A d)(s \<mapsto> w\<lparr>sw_columns := sm_columns M (contents A d) (sw_sql w), sw_phase := At_Row (r # rs) b\<rparr>)" by blast
  let ?w = "w\<lparr>sw_columns := sm_columns M (contents A d) (sw_sql w), sw_phase := At_Row (r # rs) b\<rparr>"
  have width: "\<forall>r \<in> set rows. length r = length (sm_columns M (contents A d) (sw_sql w))" using row_width [OF assms(3)] by blast
  from step_statement_row [of st ps d1 ?w r rs b "sm_columns M (contents A d) (sw_sql w)"] d1 assms(4-6) width Cons obtain x where
    x: "step_statement L ps st = Some (Ok (Some x), st\<lparr>ei_db := d1\<rparr>)" "item_shows (Inr (sm_columns M (contents A d) (sw_sql w), r)) x" by auto
  from rows_left [of "st\<lparr>ei_db := d1\<rparr>" ps ?w r rs b "sm_columns M (contents A d) (sw_sql w)" K] assms(4,5,7,8) d1(2) width Cons obtain xs d' where
    xs: "list_all2 item_shows (map (\<lambda>r. Inr (sm_columns M (contents A d) (sw_sql w), r)) rs @ [Inl (scast (sm_changes M b), sm_rowid M b)]) xs"
      "\<And>ys st'. iterates L K (st\<lparr>ei_db := d', ei_goto_next := True\<rparr>) ys st' \<Longrightarrow> iterates L K (st\<lparr>ei_db := d1\<rparr>) (xs @ ys) st'"
      "contents A d' = b" "view A d' = (view A d1)(s \<mapsto> w\<lparr>sw_columns := sm_columns M (contents A d) (sw_sql w), sw_phase := At_End\<rparr>)" by auto
  have "iterates L K (st\<lparr>ei_db := d', ei_goto_next := True\<rparr>) ys st' \<Longrightarrow> iterates L K st0 ((x # xs) @ ys) st'" for ys st'
    using xs(2) x(1) assms(9) by (auto simp: iterates_Cons)
  moreover have "view A d' = (view A d)(s \<mapsto> w\<lparr>sw_columns := sm_columns M (contents A d) (sw_sql w), sw_phase := At_End\<rparr>)" using xs(4) d1(2) by simp
  ultimately show ?thesis using x(2) xs(1,3) Cons by (intro exI [of _ "x # xs"] exI [of _ d']) simp
qed

lemma start_binds:
  assumes "view A d s = Some w" and "set (sm_params M (sw_sql w)) \<subseteq> {None}" and "same_offset (ei_args st) (ei_args_used st) off"
    and "sw_phase w \<noteq> At_Error" and "\<forall>a \<in> set (argument_list (ei_args st)). sm_fits M a"
    and "ei_db st = d" and "ps_handle ps = s"
  shows "\<exists>d' u. start_statement L K ps st = step_statement L ps (st\<lparr>ei_goto_next := False, ei_db := d', ei_args_used := ei_args_used st + u\<rparr>) \<and>
    same_offset (ei_args st) (ei_args_used st + u) (off + length (sm_params M (sw_sql w))) \<and> contents A d' = contents A d \<and>
    view A d' = (view A d)(s \<mapsto> w\<lparr>sw_phase := At_Start,
      sw_bound := positional (argument_list (ei_args st)) off (length (sm_params M (sw_sql w)))\<rparr>)"
proof -
  from reset_law [OF assms(1,4)] obtain d1 where
    d1: "sqlite3_reset L d s = (0, d1)" "contents A d1 = contents A d" "view A d1 = (view A d)(s \<mapsto> w\<lparr>sw_phase := At_Start\<rparr>)" by blast
  let ?d2 = "sqlite3_clear_bindings L d1 s"
  let ?w = "w\<lparr>sw_phase := At_Start, sw_bound := Map.empty\<rparr>"
  from clear_bindings_law [of d1 s "w\<lparr>sw_phase := At_Start\<rparr>"] d1 have
    d2: "contents A ?d2 = contents A d" "view A ?d2 = (view A d)(s \<mapsto> ?w)" by auto
  from bind_arguments_positional [of ?d2 s ?w "ei_args st" "ei_args_used st" off K] d2(2) assms(2,3,5) obtain d3 u where
    d3: "bind_arguments L K (ei_args st) s (ei_args_used st) ?d2 = Some (Ok u, d3)" "contents A d3 = contents A ?d2"
      "view A d3 = (view A ?d2)(s \<mapsto> ?w\<lparr>sw_bound := positional (argument_list (ei_args st)) off (length (sm_params M (sw_sql w)))\<rparr>)"
      "same_offset (ei_args st) (ei_args_used st + u) (off + length (sm_params M (sw_sql w)))" by auto
  have "start_statement L K ps st = step_statement L ps (st\<lparr>ei_goto_next := False, ei_db := d3, ei_args_used := ei_args_used st + u\<rparr>)"
    using assms(6,7) d1(1) d3(1)
    by (simp add: start_statement_def or_item_def on_db_def handle_reset_def sqlite_status_def clear_bindings_def amodify_def)
  with d2 d3 show ?thesis by (intro exI [of _ d3] exI [of _ u]) simp
qed

text \<open>One statement of the text, from the end of the one before it to its own summary.\<close>

lemma run_statement:
  assumes vs: "vs_shows A M d (ei_stmt st) ts" "i = (case vs_index (ei_stmt st) of None \<Rightarrow> 0 | Some j \<Rightarrow> Suc j)"
      "i \<le> length (vs_handles (ei_stmt st))" "i < length ts"
    and st: "ei_goto_next st" "ei_db st = d" "same_offset (ei_args st) (ei_args_used st) off"
    and run: "sm_compiles M (contents A d) (ts ! i)" "set (sm_params M (ts ! i)) \<subseteq> {None}"
      "\<forall>a \<in> set (argument_list (ei_args st)). sm_fits M a"
      "sm_run M (contents A d) (ts ! i) (positional (argument_list (ei_args st)) off (length (sm_params M (ts ! i)))) = Some (rows, b)"
    and fresh: "i < length (vs_handles (ei_stmt st)) \<Longrightarrow> columns_of (ei_stmt st) ! i = sm_columns M (contents A d) (ts ! i)"
  shows "\<exists>xs st1. list_all2 item_shows (map (\<lambda>r. Inr (sm_columns M (contents A d) (ts ! i), r)) rows @ [Inl (scast (sm_changes M b), sm_rowid M b)]) xs \<and>
    (\<forall>ys st'. iterates L K st1 ys st' \<longrightarrow> iterates L K st (xs @ ys) st') \<and> ei_goto_next st1 \<and> ei_args st1 = ei_args st \<and>
    same_offset (ei_args st) (ei_args_used st1) (off + length (sm_params M (ts ! i))) \<and> contents A (ei_db st1) = b \<and>
    vs_shows A M (ei_db st1) (ei_stmt st1) ts \<and> vs_index (ei_stmt st1) = Some i \<and> Suc i \<le> length (vs_handles (ei_stmt st1)) \<and>
    touches A d (vs_handles (ei_stmt st)) (ei_db st1) (vs_handles (ei_stmt st1)) \<and>
    columns_of (ei_stmt st1) = columns_of (ei_stmt st) @ (if i < length (vs_handles (ei_stmt st)) then [] else [sm_columns M (contents A d) (ts ! i)])"
proof -
  from goto_statement [OF vs run(1)] obtain ps vs1 d1 where
    g: "prepare_next L (ei_stmt st, d) = Some (Ok (Some ps), vs1, d1)" "vs_shows A M d1 vs1 ts" "vs_index vs1 = Some i"
      "i < length (vs_handles vs1)" "current vs1 = Ok (Some ps)" "ps_handle ps = vs_handles vs1 ! i"
      "map sc_name (ps_columns ps) = columns_of vs1 ! i" "contents A d1 = contents A d"
      "touches A d (vs_handles (ei_stmt st)) d1 (vs_handles vs1)"
      "columns_of vs1 = columns_of (ei_stmt st) @ (if i < length (vs_handles (ei_stmt st)) then [] else [sm_columns M (contents A d) (ts ! i)])"
    by blast
  have "columns_of vs1 ! i = sm_columns M (contents A d) (ts ! i)"
    using g(10) fresh vs(3) length_columns_of [OF vs(1)] by (cases "i < length (vs_handles (ei_stmt st))") (auto simp: nth_append)
  with g(7) have cols: "map sc_name (ps_columns ps) = sm_columns M (contents A d) (ts ! i)" by simp
  let ?s = "vs_handles vs1 ! i" and ?st1 = "st\<lparr>ei_stmt := vs1, ei_db := d1\<rparr>"
  from vs_shows_handle [OF g(2,4)] obtain w where w: "view A d1 ?s = Some w" "sw_sql w = ts ! i" "sw_phase w \<noteq> At_Error" by blast
  from start_binds [OF w(1), of ?st1 off ps K] w(2,3) run(2,3) st(3) g(6) obtain d2 u where
    b: "start_statement L K ps ?st1 = step_statement L ps (?st1\<lparr>ei_goto_next := False, ei_db := d2, ei_args_used := ei_args_used st + u\<rparr>)"
      "same_offset (ei_args st) (ei_args_used st + u) (off + length (sm_params M (ts ! i)))" "contents A d2 = contents A d1"
      "view A d2 = (view A d1)(?s \<mapsto> w\<lparr>sw_phase := At_Start,
        sw_bound := positional (argument_list (ei_args st)) off (length (sm_params M (ts ! i)))\<rparr>)" by auto
  let ?w = "w\<lparr>sw_phase := At_Start, sw_bound := positional (argument_list (ei_args st)) off (length (sm_params M (ts ! i)))\<rparr>"
  let ?st2 = "st\<lparr>ei_stmt := vs1, ei_goto_next := False, ei_db := d2, ei_args_used := ei_args_used st + u\<rparr>"
  have "execute_next L K st = step_statement L ps ?st2"
    using st(1,2) g(1) b(1) by (simp add: execute_next_def or_item_def on_stmt_def)
  from run_bound [of d2 ?s ?w rows b ps ?st2 K st, OF _ _ _ g(6)] this b(3,4) w(2) run(4) g(5,8) cols obtain xs d' where
    xs: "list_all2 item_shows (map (\<lambda>r. Inr (sm_columns M (contents A d) (ts ! i), r)) rows @ [Inl (scast (sm_changes M b), sm_rowid M b)]) xs"
      "\<forall>ys st'. iterates L K (?st2\<lparr>ei_db := d', ei_goto_next := True\<rparr>) ys st' \<longrightarrow> iterates L K st (xs @ ys) st'"
      "contents A d' = b" "view A d' = (view A d2)(?s \<mapsto> ?w\<lparr>sw_columns := sm_columns M (contents A d) (ts ! i), sw_phase := At_End\<rparr>)" by auto
  have v': "view A d' = (view A d1)(?s \<mapsto> ?w\<lparr>sw_columns := sm_columns M (contents A d) (ts ! i), sw_phase := At_End\<rparr>)" using xs(4) b(4) by simp
  then have "vs_shows A M d' vs1 ts" using vs_shows_upd [OF g(2) w(1)] by simp
  moreover have "touches A d (vs_handles (ei_stmt st)) d' (vs_handles vs1)"
    using touches_trans [OF g(9) touches_upd [OF _ v']] g(4) by simp
  ultimately show ?thesis using xs b(2) g(3,4,10)
    by (intro exI [of _ xs] exI [of _ "?st2\<lparr>ei_db := d', ei_goto_next := True\<rparr>"]) simp
qed

theorem iterates_script:
  assumes "vs_shows A M d (ei_stmt st) ts" and "i = (case vs_index (ei_stmt st) of None \<Rightarrow> 0 | Some j \<Rightarrow> Suc j)"
    and "i \<le> length (vs_handles (ei_stmt st))" and "i \<le> length ts"
    and "ei_goto_next st" and "ei_db st = d" and "same_offset (ei_args st) (ei_args_used st) off"
    and "run_script M (argument_list (ei_args st)) off (contents A d) (drop i ts) = Some (items, b)"
    and "prefix (drop i (columns_of (ei_stmt st))) (script_columns M (argument_list (ei_args st)) off (contents A d) (drop i ts))"
  shows "\<exists>xs st'. iterates L K st xs st' \<and> list_all2 item_shows items xs \<and> contents A (ei_db st') = b \<and>
    vs_shows A M (ei_db st') (ei_stmt st') ts \<and> touches A d (vs_handles (ei_stmt st)) (ei_db st') (vs_handles (ei_stmt st'))"
  using assms
proof (induction "length ts - i" arbitrary: i st off d items)
  case 0
  then have i: "i = length ts" by simp
  with goto_end [OF "0.prems"(1)] "0.prems"(2,3) obtain vs1 d' where
    e: "prepare_next L (ei_stmt st, d) = Some (Ok None, vs1, d')" "vs_shows A M d' vs1 ts" "vs_handles vs1 = vs_handles (ei_stmt st)"
      "contents A d' = contents A d" "view A d' = view A d" by auto
  then have "execute_next L K st = Some (Ok None, st\<lparr>ei_stmt := vs1, ei_db := d'\<rparr>)"
    using "0.prems"(5,6) by (simp add: execute_next_def or_item_def on_stmt_def aret_def)
  moreover have "items = []" "b = contents A d" using i "0.prems"(8) by auto
  ultimately show ?case using e by (auto simp: iterates_Nil touches_def intro!: exI [of _ "[]"])
next
  case (Suc n)
  then have i: "i < length ts" and dr: "drop i ts = ts ! i # drop (Suc i) ts" by (auto simp: Cons_nth_drop_Suc)
  from Suc.prems(8) obtain rows b1 its where
    r: "sm_compiles M (contents A d) (ts ! i)" "set (sm_params M (ts ! i)) \<subseteq> {None}" "\<forall>a \<in> set (argument_list (ei_args st)). sm_fits M a"
      "sm_run M (contents A d) (ts ! i) (positional (argument_list (ei_args st)) off (length (sm_params M (ts ! i)))) = Some (rows, b1)"
      "run_script M (argument_list (ei_args st)) (off + length (sm_params M (ts ! i))) b1 (drop (Suc i) ts) = Some (its, b)"
      "items = map (\<lambda>r. Inr (sm_columns M (contents A d) (ts ! i), r)) rows @ Inl (scast (sm_changes M b1), sm_rowid M b1) # its"
    by (auto simp: dr split: if_splits bind_splits)
  let ?cols = "columns_of (ei_stmt st)" and ?C = "sm_columns M (contents A d) (ts ! i)"
  have sc: "script_columns M (argument_list (ei_args st)) off (contents A d) (drop i ts) =
      ?C # script_columns M (argument_list (ei_args st)) (off + length (sm_params M (ts ! i))) b1 (drop (Suc i) ts)"
    using r(4) by (simp add: dr script_columns_def)
  have len: "length ?cols = length (vs_handles (ei_stmt st))" using length_columns_of [OF Suc.prems(1)] .
  have here: "drop i ?cols = ?cols ! i # drop (Suc i) ?cols" if "i < length (vs_handles (ei_stmt st))"
    using that len by (simp add: Cons_nth_drop_Suc)
  have fresh: "?cols ! i = ?C" if "i < length (vs_handles (ei_stmt st))" using Suc.prems(9) here [OF that] sc by simp
  from run_statement [OF Suc.prems(1-3) i Suc.prems(5-7) r(1-4) fresh, of K] obtain xs st1 where
    s: "list_all2 item_shows (map (\<lambda>r. Inr (sm_columns M (contents A d) (ts ! i), r)) rows @ [Inl (scast (sm_changes M b1), sm_rowid M b1)]) xs"
      "\<And>ys st'. iterates L K st1 ys st' \<Longrightarrow> iterates L K st (xs @ ys) st'" "ei_goto_next st1" "ei_args st1 = ei_args st"
      "same_offset (ei_args st) (ei_args_used st1) (off + length (sm_params M (ts ! i)))" "contents A (ei_db st1) = b1"
      "vs_shows A M (ei_db st1) (ei_stmt st1) ts" "vs_index (ei_stmt st1) = Some i" "Suc i \<le> length (vs_handles (ei_stmt st1))"
      "touches A d (vs_handles (ei_stmt st)) (ei_db st1) (vs_handles (ei_stmt st1))"
      "columns_of (ei_stmt st1) = ?cols @ (if i < length (vs_handles (ei_stmt st)) then [] else [?C])" by blast
  have left: "prefix (drop (Suc i) (columns_of (ei_stmt st1)))
      (script_columns M (argument_list (ei_args st)) (off + length (sm_params M (ts ! i))) b1 (drop (Suc i) ts))"
  proof (cases "i < length (vs_handles (ei_stmt st))")
    case True
    then show ?thesis using Suc.prems(9) here [OF True] sc s(11) by simp
  next
    case False
    then show ?thesis using s(11) len Suc.prems(3) by simp
  qed
  have "\<exists>ys st'. iterates L K st1 ys st' \<and> list_all2 item_shows its ys \<and> contents A (ei_db st') = b \<and>
    vs_shows A M (ei_db st') (ei_stmt st') ts \<and> touches A (ei_db st1) (vs_handles (ei_stmt st1)) (ei_db st') (vs_handles (ei_stmt st'))"
    using Suc.hyps(2) s(3-10) i r(5) left by (intro Suc.hyps(1)) simp_all
  then obtain ys st' where
    y: "iterates L K st1 ys st'" "list_all2 item_shows its ys" "contents A (ei_db st') = b" "vs_shows A M (ei_db st') (ei_stmt st') ts"
      "touches A (ei_db st1) (vs_handles (ei_stmt st1)) (ei_db st') (vs_handles (ei_stmt st'))" by blast
  have "list_all2 item_shows items (xs @ ys)" using list_all2_appendI [OF s(1) y(2)] r(6) by simp
  with s(2) [OF y(1)] y touches_trans [OF s(10) y(5)] show ?case by blast
qed

end

end
