(* ===== verification/Sqlite_Channel.thy ===== *)
theory Sqlite_Channel
  imports Async_Op
begin

text \<open>
  The results of a query on their way from the worker thread to the caller (\<open>rbdc-sqlite/src/connection/worker.rs\<close>,
  \<open>executor.rs\<close>).  The worker sends what its iterator yields into a bounded channel until the iterator ends or the
  receiver is gone; the caller receives until it has seen enough and drops the receiver.  \<open>drive\<close> is the worker's loop
  with the caller's choice and its delay as arguments; the step relation has every interleaving of the two threads, and each of them
  amounts to such a run.
\<close>

section \<open>The worker's loop\<close>

text \<open>
  \<open>left\<close> counts the sends that still succeed once the caller has seen an item at which it stops: those the channel takes
  before the receiver is dropped.  The result has the items the caller received and whether the worker panicked.
\<close>

partial_function (option) drive ::
    "('st, 'i option) aop \<Rightarrow> ('i \<Rightarrow> bool) \<Rightarrow> nat \<Rightarrow> nat option \<Rightarrow> 'i list \<Rightarrow> 'st \<Rightarrow> ('i list \<times> bool \<times> 'st) option" where
  "drive nxt stop lag left acc st =
     Option.bind (nxt st) (\<lambda>p.
       case fst p of
         Panic \<Rightarrow> Some (acc, True, snd p)
       | Err _ \<Rightarrow> Some (acc, False, snd p)
       | Ok None \<Rightarrow> Some (acc, False, snd p)
       | Ok (Some x) \<Rightarrow>
           case left of
             None \<Rightarrow> drive nxt stop lag (if stop x then Some lag else None) (acc @ [x]) (snd p)
           | Some n \<Rightarrow> if n = 0 then Some (acc, False, snd p) else drive nxt stop lag (Some (n - 1)) acc (snd p))"

section \<open>The two threads\<close>

record ('st, 'i) chan_state =
  ch_iter :: 'st
  ch_running :: bool
  ch_pending :: "'i option"
  ch_queue :: "'i list"
  ch_wants :: bool
  ch_listening :: bool
  ch_received :: "'i list"
  ch_crashed :: bool

definition chan_init :: "'st \<Rightarrow> ('st, 'i) chan_state" where
  "chan_init st = \<lparr>ch_iter = st, ch_running = True, ch_pending = None, ch_queue = [], ch_wants = True, ch_listening = True,
     ch_received = [], ch_crashed = False\<rparr>"

text \<open>
  The worker computes an item, sends it (waiting for room), notices that the receiver is gone, or ends; the caller receives
  an item, directly from the worker if the channel has no room, and drops the receiver when it wants no more.
\<close>

inductive chan_step :: "('st, 'i option) aop \<Rightarrow> ('i \<Rightarrow> bool) \<Rightarrow> nat \<Rightarrow> ('st, 'i) chan_state \<Rightarrow> ('st, 'i) chan_state \<Rightarrow> bool"
  for nxt :: "('st, 'i option) aop" and stop :: "'i \<Rightarrow> bool" and cap :: nat where
  chan_produce: "ch_running c \<Longrightarrow> ch_pending c = None \<Longrightarrow> nxt (ch_iter c) = Some (Ok (Some x), st) \<Longrightarrow>
    chan_step nxt stop cap c (c\<lparr>ch_iter := st, ch_pending := Some x\<rparr>)"
| chan_finish: "ch_running c \<Longrightarrow> ch_pending c = None \<Longrightarrow> nxt (ch_iter c) = Some (Ok None, st) \<or> nxt (ch_iter c) = Some (Err e, st) \<Longrightarrow>
    chan_step nxt stop cap c (c\<lparr>ch_iter := st, ch_running := False\<rparr>)"
| chan_crash: "ch_running c \<Longrightarrow> ch_pending c = None \<Longrightarrow> nxt (ch_iter c) = Some (Panic, st) \<Longrightarrow>
    chan_step nxt stop cap c (c\<lparr>ch_iter := st, ch_running := False, ch_crashed := True\<rparr>)"
| chan_push: "ch_running c \<Longrightarrow> ch_pending c = Some x \<Longrightarrow> ch_listening c \<Longrightarrow> length (ch_queue c) < cap \<Longrightarrow>
    chan_step nxt stop cap c (c\<lparr>ch_pending := None, ch_queue := ch_queue c @ [x]\<rparr>)"
| chan_fail: "ch_running c \<Longrightarrow> ch_pending c = Some x \<Longrightarrow> \<not> ch_listening c \<Longrightarrow>
    chan_step nxt stop cap c (c\<lparr>ch_pending := None, ch_running := False\<rparr>)"
| chan_recv: "ch_wants c \<Longrightarrow> ch_queue c = x # q \<Longrightarrow>
    chan_step nxt stop cap c (c\<lparr>ch_queue := q, ch_received := ch_received c @ [x], ch_wants := \<not> stop x\<rparr>)"
| chan_handover: "ch_wants c \<Longrightarrow> ch_running c \<Longrightarrow> cap = 0 \<Longrightarrow> ch_queue c = [] \<Longrightarrow> ch_pending c = Some x \<Longrightarrow>
    chan_step nxt stop cap c (c\<lparr>ch_pending := None, ch_received := ch_received c @ [x], ch_wants := \<not> stop x\<rparr>)"
| chan_drop: "\<not> ch_wants c \<Longrightarrow> ch_listening c \<Longrightarrow> chan_step nxt stop cap c (c\<lparr>ch_listening := False\<rparr>)"

definition chan_done :: "('st, 'i) chan_state \<Rightarrow> bool" where
  "chan_done c = (\<not> ch_running c \<and> (if ch_wants c then ch_queue c = [] else \<not> ch_listening c))"

section \<open>Every interleaving is a run of the loop\<close>

text \<open>The items the iterator has yielded so far, and the state it is in.\<close>

inductive yielded :: "('st, 'i option) aop \<Rightarrow> 'st \<Rightarrow> 'i list \<Rightarrow> 'st \<Rightarrow> bool" for nxt :: "('st, 'i option) aop" where
  yielded_Nil: "yielded nxt st [] st"
| yielded_snoc: "yielded nxt st xs st1 \<Longrightarrow> nxt st1 = Some (Ok (Some x), st2) \<Longrightarrow> yielded nxt st (xs @ [x]) st2"

definition pending_items :: "('st, 'i) chan_state \<Rightarrow> 'i list" where
  "pending_items c = (case ch_pending c of None \<Rightarrow> [] | Some x \<Rightarrow> [x])"

text \<open>How far the caller is: it stops at the first item at which it may.\<close>

definition stops_at_end :: "('i \<Rightarrow> bool) \<Rightarrow> 'i list \<Rightarrow> bool \<Rightarrow> bool" where
  "stops_at_end stop xs wants =
     (if wants then list_all (\<lambda>x. \<not> stop x) xs else xs \<noteq> [] \<and> list_all (\<lambda>x. \<not> stop x) (butlast xs) \<and> stop (last xs))"

definition chan_inv :: "('st, 'i option) aop \<Rightarrow> ('i \<Rightarrow> bool) \<Rightarrow> nat \<Rightarrow> 'st \<Rightarrow> ('st, 'i) chan_state \<Rightarrow> bool" where
  "chan_inv nxt stop cap st0 c =
     (length (ch_queue c) \<le> cap \<and> (ch_listening c \<or> \<not> ch_wants c) \<and> stops_at_end stop (ch_received c) (ch_wants c) \<and>
      (if ch_running c then yielded nxt st0 (ch_received c @ ch_queue c @ pending_items c) (ch_iter c) \<and> \<not> ch_crashed c
       else ch_pending c = None \<and> (\<exists>st. yielded nxt st0 (ch_received c @ ch_queue c) st \<and>
         ((nxt st = Some (Ok None, ch_iter c) \<or> (\<exists>e. nxt st = Some (Err e, ch_iter c))) \<and> \<not> ch_crashed c \<or>
          nxt st = Some (Panic, ch_iter c) \<and> ch_crashed c \<or>
          (\<exists>x. nxt st = Some (Ok (Some x), ch_iter c)) \<and> \<not> ch_crashed c \<and> \<not> ch_wants c))))"

lemma yielded_snoc_elim:
  assumes "yielded nxt st0 (xs @ [x]) st"
  obtains st1 where "yielded nxt st0 xs st1" and "nxt st1 = Some (Ok (Some x), st)"
  using assms by (cases rule: yielded.cases) auto

lemma chan_inv_init: "chan_inv nxt stop cap st (chan_init st)"
  by (simp add: chan_inv_def chan_init_def pending_items_def stops_at_end_def yielded_Nil)

lemma chan_inv_step:
  assumes "chan_step nxt stop cap c c'" and "chan_inv nxt stop cap st0 c"
  shows "chan_inv nxt stop cap st0 c'"
  using assms
proof (cases rule: chan_step.cases)
  case (chan_produce x st)
  with yielded_snoc [of nxt st0 "ch_received c @ ch_queue c" "ch_iter c" x st] assms(2) show ?thesis
    by (simp add: chan_inv_def pending_items_def)
next
  case (chan_fail x)
  with assms(2) have "yielded nxt st0 ((ch_received c @ ch_queue c) @ [x]) (ch_iter c)" "\<not> ch_wants c" "\<not> ch_crashed c"
    by (simp_all add: chan_inv_def pending_items_def)
  then obtain st1 where "yielded nxt st0 (ch_received c @ ch_queue c) st1" "nxt st1 = Some (Ok (Some x), ch_iter c)"
    by (blast elim: yielded_snoc_elim)
  with chan_fail assms(2) \<open>\<not> ch_crashed c\<close> \<open>\<not> ch_wants c\<close> show ?thesis by (simp add: chan_inv_def) blast
next
  case (chan_finish st e)
  with assms(2) show ?thesis by (simp add: chan_inv_def pending_items_def) blast
next
  case (chan_crash st)
  with assms(2) show ?thesis by (simp add: chan_inv_def pending_items_def) blast
next
  case (chan_recv x q)
  with assms(2) show ?thesis 
    by (cases "ch_running c"; simp add: chan_inv_def pending_items_def stops_at_end_def) blast
next
  case (chan_handover x)
  with assms(2) show ?thesis by (simp add: chan_inv_def pending_items_def stops_at_end_def)
next
  case (chan_push x)
  with assms(2) show ?thesis by (simp add: chan_inv_def pending_items_def)
next
  case chan_drop
  with assms(2) show ?thesis by (cases "ch_running c") (simp_all add: chan_inv_def pending_items_def)
qed

lemma chan_inv_reach:
  assumes "(chan_step nxt stop cap)\<^sup>*\<^sup>* (chan_init st) c"
  shows "chan_inv nxt stop cap st c"
  using assms by (induction rule: rtranclp_induct) (auto intro: chan_inv_init chan_inv_step)

text \<open>What the loop does after items that are known.\<close>

lemma drive_yielded:
  assumes "yielded nxt st0 xs st" and "list_all (\<lambda>x. \<not> stop x) xs"
  shows "drive nxt stop lag None acc st0 = drive nxt stop lag None (acc @ xs) st"
  using assms by (induction rule: yielded.induct) (simp_all add: drive.simps [of nxt stop lag None _ "_ :: 'a"])

lemma drive_lag:
  assumes "yielded nxt st0 xs st" and "length xs \<le> n"
  shows "drive nxt stop lag (Some n) acc st0 = drive nxt stop lag (Some (n - length xs)) acc st"
  using assms
proof (induction rule: yielded.induct)
  case (yielded_snoc st xs st1 x st2)
  then have "drive nxt stop lag (Some (n - length xs)) acc st1 = drive nxt stop lag (Some (n - length (xs @ [x]))) acc st2"
    by (subst drive.simps) simp
  with yielded_snoc show ?case by simp
qed simp

lemma yielded_append_elim:
  "yielded nxt st0 (xs @ ys) st \<Longrightarrow> \<exists>st1. yielded nxt st0 xs st1 \<and> yielded nxt st1 ys st"
proof (induction ys arbitrary: st rule: rev_induct)
  case (snoc y ys)
  then have "yielded nxt st0 ((xs @ ys) @ [y]) st" by simp
  then obtain st1 where "yielded nxt st0 (xs @ ys) st1" "nxt st1 = Some (Ok (Some y), st)" by (rule yielded_snoc_elim)
  with snoc.IH show ?case by (blast intro: yielded.yielded_snoc)
qed (auto intro: yielded_Nil)

lemma drive_stopped:
  assumes "yielded nxt st0 (rs @ q) st" and "stops_at_end stop rs False"
  shows "drive nxt stop (length q) None [] st0 = drive nxt stop (length q) (Some 0) rs st"
proof -
  from assms(2) have r: "rs = butlast rs @ [last rs]" "list_all (\<lambda>x. \<not> stop x) (butlast rs)" "stop (last rs)"
    by (auto simp: stops_at_end_def)
  from yielded_append_elim [OF assms(1)] obtain st1 where
    1: "yielded nxt st0 rs st1" "yielded nxt st1 q st" by blast
  from 1(1) r(1) have "yielded nxt st0 (butlast rs @ [last rs]) st1" by simp
  then obtain st2 where 2: "yielded nxt st0 (butlast rs) st2" "nxt st2 = Some (Ok (Some (last rs)), st1)"
    by (rule yielded_snoc_elim)
  have "drive nxt stop (length q) None [] st0 = drive nxt stop (length q) None (butlast rs) st2"
    using drive_yielded [OF 2(1) r(2), of "length q" "[]"] by simp
  also have "\<dots> = drive nxt stop (length q) (Some (length q)) rs st1"
    using 2(2) r(1,3) by (subst drive.simps) simp
  also have "\<dots> = drive nxt stop (length q) (Some 0) rs st" using drive_lag [OF 1(2), of "length q"] by simp
  finally show ?thesis .
qed

lemma interleaving_is_drive:
  assumes "(chan_step nxt stop cap)\<^sup>*\<^sup>* (chan_init st) c" and "chan_done c"
  shows "\<exists>lag \<le> cap. drive nxt stop lag None [] st = Some (ch_received c, ch_crashed c, ch_iter c)"
proof -
  from chan_inv_reach [OF assms(1)] assms(2) obtain st1 where
    i: "length (ch_queue c) \<le> cap" "stops_at_end stop (ch_received c) (ch_wants c)" "yielded nxt st (ch_received c @ ch_queue c) st1"
      "(nxt st1 = Some (Ok None, ch_iter c) \<or> (\<exists>e. nxt st1 = Some (Err e, ch_iter c))) \<and> \<not> ch_crashed c \<or>
       nxt st1 = Some (Panic, ch_iter c) \<and> ch_crashed c \<or>
       (\<exists>x. nxt st1 = Some (Ok (Some x), ch_iter c)) \<and> \<not> ch_crashed c \<and> \<not> ch_wants c"
    by (auto simp: chan_inv_def chan_done_def)
  show ?thesis
  proof (cases "ch_wants c")
    case True
    with assms(2) have "ch_queue c = []" by (simp add: chan_done_def)
    with True i drive_yielded [of nxt st "ch_received c" st1 stop 0 "[]"] show ?thesis
      by (auto simp: stops_at_end_def drive.simps [of nxt stop 0 None _ st1] intro!: exI [of _ 0])
  next
    case False
    with i drive_stopped [OF i(3), of stop] show ?thesis
      by (auto simp: drive.simps [of nxt stop _ "Some 0" _ st1] intro!: exI [of _ "length (ch_queue c)"])
  qed
qed

text \<open>Neither thread ever waits for the other in vain.\<close>

lemma chan_progress:
  assumes "\<not> chan_done c" and "nxt (ch_iter c) \<noteq> None"
  shows "\<exists>c'. chan_step nxt stop cap c c'"
proof -
  obtain r st' where n: "nxt (ch_iter c) = Some (r, st')" using assms(2) by auto
  show ?thesis
  proof (cases "ch_running c")
    case True
    show ?thesis
    proof (cases "ch_pending c")
      case None
      with n True show ?thesis
        by (cases r; cases "\<exists>x. r = Ok (Some x)") (fastforce intro: chan_produce chan_finish chan_crash)+
    next
      case (Some x)
      consider "\<not> ch_listening c" | "ch_listening c" "length (ch_queue c) < cap" | "ch_listening c" "\<not> ch_wants c"
        | "ch_wants c" "cap \<le> length (ch_queue c)" by fastforce
      then show ?thesis
      proof cases
        case 4
        then show ?thesis
          by (cases "ch_queue c") (use Some True in \<open>auto intro: chan_recv chan_handover\<close>)
      qed (use Some True in \<open>blast intro: chan_fail chan_push chan_drop\<close>)+
    qed
  next
    case False
    show ?thesis
    proof (cases "ch_wants c")
      case True
      with False assms(1) obtain x q where "ch_queue c = x # q" by (cases "ch_queue c") (auto simp: chan_done_def)
      with True show ?thesis by (blast intro: chan_recv)
    next
      case w: False
      with False assms(1) have "ch_listening c" by (simp add: chan_done_def)
      with w show ?thesis by (blast intro: chan_drop)
    qed
  qed
qed

end
