(* ===== verification/Sqlite_Conn.thy ===== *)
theory Sqlite_Conn
  imports Sqlite_Run Sqlite_Channel Stmt_Cache
begin

text \<open>
  A SQLite connection (\<open>rbdc-sqlite/src/connection/\<close>, \<open>options/connect.rs\<close>, \<open>query.rs\<close>, \<open>query_result.rs\<close>).  A worker
  thread owns the database handle and the statements and works off commands one after the other; the caller
  talks to it through channels.  A panic of the worker ends it: later commands fail, and the results of the query it was running
  simply end.  Everything the driver uses is the environment \<open>E\<close>; \<open>lag\<close> is by how many results the worker may be ahead
  of a caller that stops.
\<close>

section \<open>Statements of a connection\<close>

record ('db, 's, 'v, 'c, 'dt) sqlite_env =
  se_L :: "('db, 's, 'v) sqlite3"
  se_C :: "('c, 's virtual_statement) lru_ops"
  se_owned :: "'c \<Rightarrow> 's virtual_statement list"
  se_K :: "'dt sqlite_kit"

text \<open>\<open>se_owned\<close> lists the statements a cache of the \<open>lru\<close> crate owns, which dropping or clearing it drops.\<close>

record ('db, 's, 'c) connection_state =
  cs_db :: 'db
  cs_cached :: 'c
  cs_temp :: "'s virtual_statement option"

definition on_handle :: "('db, 'a) aop \<Rightarrow> (('db, 's, 'c) connection_state, 'a) aop" where
  "on_handle m c = map_option (\<lambda>(r, d). (r, c\<lparr>cs_db := d\<rparr>)) (m (cs_db c))"

fun drop_handles :: "('db, 's, 'v) sqlite3 \<Rightarrow> 's list \<Rightarrow> ('db, unit) aop" where
  "drop_handles L [] d = Some (Ok (), d)"
| "drop_handles L (s # ss) d = abind (handle_drop L s) (\<lambda>_. drop_handles L ss) d"

definition drop_virtual :: "('db, 's, 'v, 'c, 'dt) sqlite_env \<Rightarrow> 's virtual_statement option \<Rightarrow> (('db, 's, 'c) connection_state, unit) aop" where
  "drop_virtual E v = on_handle (drop_handles (se_L E) (case v of None \<Rightarrow> [] | Some vs \<Rightarrow> vs_handles vs))"

text \<open>What is done to a statement through the reference \<open>get\<close> returns: the temporary one or the cached one.\<close>

definition with_statement ::
    "('db, 's, 'v, 'c, 'dt) sqlite_env \<Rightarrow> bool \<Rightarrow> bytes \<Rightarrow> ('s virtual_statement \<times> 'db, 'a) aop \<Rightarrow> (('db, 's, 'c) connection_state, 'a) aop" where
  "with_statement E cached query m c =
     (case (if cached then fst (cache_get_mut (se_C E) (cs_cached c) query id) else cs_temp c) of
        None \<Rightarrow> Some (Panic, c)
      | Some vs \<Rightarrow>
          map_option (\<lambda>(r, vs, d). (r,
            if cached then c\<lparr>cs_cached := snd (cache_get_mut (se_C E) (cs_cached c) query (\<lambda>_. vs)), cs_db := d\<rparr>
            else c\<lparr>cs_temp := Some vs, cs_db := d\<rparr>)) (m (vs, cs_db c)))"

definition statements_get :: "('db, 's, 'v, 'c, 'dt) sqlite_env \<Rightarrow> bytes \<Rightarrow> bool \<Rightarrow> (('db, 's, 'c) connection_state, bool) aop" where
  "statements_get E query persistent c =
     (if \<not> persistent \<or> \<not> cache_is_enabled (se_C E) (cs_cached c) then
        abind (alift (virtual_new query False)) (\<lambda>v.
        abind (drop_virtual E (cs_temp c)) (\<lambda>_.
        athen (amodify (\<lambda>c. c\<lparr>cs_temp := Some v\<rparr>)) (aret False))) c
      else if \<not> cache_contains_key (se_C E) (cs_cached c) query then
        abind (alift (virtual_new query True)) (\<lambda>v.
        (case cache_insert (se_C E) (cs_cached c) query v of
           (evicted, cached) \<Rightarrow>
             abind (amodify (\<lambda>c. c\<lparr>cs_cached := cached\<rparr>)) (\<lambda>_.
             abind (drop_virtual E evicted) (\<lambda>_.
             abind (with_statement E True query (aret ())) (\<lambda>_. aret True))))) c
      else abind (with_statement E True query (virtual_reset (se_L E))) (\<lambda>_. aret True) c)"

definition statements_len :: "('db, 's, 'v, 'c, 'dt) sqlite_env \<Rightarrow> ('db, 's, 'c) connection_state \<Rightarrow> nat" where
  "statements_len E c = cache_len (se_C E) (cs_cached c)"

definition statements_clear :: "('db, 's, 'v, 'c, 'dt) sqlite_env \<Rightarrow> (('db, 's, 'c) connection_state, unit) aop" where
  "statements_clear E c =
     abind (on_handle (drop_handles (se_L E) (concat (map vs_handles (se_owned E (cs_cached c)))))) (\<lambda>_.
     abind (amodify (\<lambda>c. c\<lparr>cs_cached := cache_clear (se_C E) (cs_cached c)\<rparr>)) (\<lambda>_.
     abind (drop_virtual E (cs_temp c)) (\<lambda>_. amodify (\<lambda>c. c\<lparr>cs_temp := None\<rparr>)))) c"

text \<open>Dropping the connection state: the statements first, then the handle, which must close.\<close>

definition database_drop :: "('db, 's, 'v) sqlite3 \<Rightarrow> ('db, unit) aop" where
  "database_drop L d = (case sqlite3_close L d of (c, d) \<Rightarrow> Some (if c = 0 then Ok () else Panic, d))"

definition connection_drop :: "('db, 's, 'v, 'c, 'dt) sqlite_env \<Rightarrow> (('db, 's, 'c) connection_state, unit) aop" where
  "connection_drop E = abind (statements_clear E) (\<lambda>_. on_handle (database_drop (se_L E)))"

section \<open>Commands of the worker\<close>

record sqlite_statement =
  sq_sql :: bytes
  sq_parameters :: nat
  sq_columns :: "sqlite_column list"
  sq_column_names :: "bytes \<rightharpoonup> nat"

partial_function (option) prepare_all ::
    "('db, 's, 'v) sqlite3 \<Rightarrow> nat \<Rightarrow> (sqlite_column list \<times> (bytes \<rightharpoonup> nat)) option \<Rightarrow> 's virtual_statement \<times> 'db \<Rightarrow>
      ((nat \<times> (sqlite_column list \<times> (bytes \<rightharpoonup> nat)) option) res \<times> 's virtual_statement \<times> 'db) option" where
  "prepare_all L parameters columns st =
     abind (prepare_next L) (\<lambda>p.
     case p of
       None \<Rightarrow> aret (parameters, columns)
     | Some ps \<Rightarrow> (\<lambda>st. prepare_all L (parameters + sqlite3_bind_parameter_count L (snd st) (ps_handle ps))
         (if ps_columns ps \<noteq> [] \<and> columns = None then Some (ps_columns ps, ps_column_names ps) else columns) st)) st"

definition worker_prepare :: "('db, 's, 'v, 'c, 'dt) sqlite_env \<Rightarrow> bytes \<Rightarrow> (('db, 's, 'c) connection_state, sqlite_statement) aop" where
  "worker_prepare E query =
     abind (statements_get E query True) (\<lambda>cached.
     abind (with_statement E cached query (prepare_all (se_L E) 0 None)) (\<lambda>(parameters, columns).
     aret \<lparr>sq_sql = query, sq_parameters = parameters, sq_columns = (case columns of None \<Rightarrow> [] | Some c \<Rightarrow> fst c),
           sq_column_names = (case columns of None \<Rightarrow> Map.empty | Some c \<Rightarrow> snd c)\<rparr>))"

text \<open>Running a query: the items the caller gets, and whether the worker panicked; dropping the iterator resets the statement.\<close>

definition run_iter ::
    "('db, 's, 'v, 'c, 'dt) sqlite_env \<Rightarrow> ('v step_item \<Rightarrow> bool) \<Rightarrow> nat \<Rightarrow> sqlite_arguments option \<Rightarrow>
      ('s virtual_statement \<times> 'db, 'v step_item list \<times> bool) aop" where
  "run_iter E stop lag args st =
     Option.bind (drive (execute_next (se_L E) (se_K E)) stop lag None []
         \<lparr>ei_args = args, ei_args_used = 0, ei_goto_next = True, ei_stmt = fst st, ei_db = snd st\<rparr>) (\<lambda>(items, crashed, it).
     map_option (\<lambda>(_, st). (Ok (items, crashed), st)) (virtual_reset (se_L E) (ei_stmt it, ei_db it)))"

definition worker_execute ::
    "('db, 's, 'v, 'c, 'dt) sqlite_env \<Rightarrow> ('v step_item \<Rightarrow> bool) \<Rightarrow> nat \<Rightarrow> bytes \<Rightarrow> sqlite_arguments option \<Rightarrow> bool \<Rightarrow>
      (('db, 's, 'c) connection_state, 'v step_item list \<times> bool) aop" where
  "worker_execute E stop lag query args persistent =
     abind (statements_get E query persistent) (\<lambda>cached. with_statement E cached query (run_iter E stop lag args))"

section \<open>Connections\<close>

record ('db, 's, 'c) sqlite_conn =
  sn_running :: bool
  sn_state :: "('db, 's, 'c) connection_state"
  sn_cached_size :: nat
  sn_row_channel_size :: nat

definition worker_crashed :: error where
  "worker_crashed = Message ''WorkerCrashed''"

definition update_cached_statements_size ::
    "('db, 's, 'v, 'c, 'dt) sqlite_env \<Rightarrow> ('db, 's, 'c) sqlite_conn \<Rightarrow> ('db, 's, 'c) sqlite_conn" where
  "update_cached_statements_size E c = c\<lparr>sn_cached_size := statements_len E (sn_state c)\<rparr>"

text \<open>A command whose reply comes through a one-shot channel, which is dropped without one when the worker panics.\<close>

definition oneshot_cmd :: "(('db, 's, 'c) sqlite_conn, 'a) aop \<Rightarrow> (('db, 's, 'c) sqlite_conn, 'a) aop" where
  "oneshot_cmd m c =
     (if \<not> sn_running c then Some (Err worker_crashed, c)
      else map_option (\<lambda>(r, c). case r of Panic \<Rightarrow> (Err worker_crashed, c\<lparr>sn_running := False\<rparr>) | _ \<Rightarrow> (r, c)) (m c))"

definition on_worker :: "(('db, 's, 'c) connection_state, 'a) aop \<Rightarrow> (('db, 's, 'c) sqlite_conn, 'a) aop" where
  "on_worker m c = map_option (\<lambda>(r, s). (r, c\<lparr>sn_state := s\<rparr>)) (m (sn_state c))"

definition conn_prepare :: "('db, 's, 'v, 'c, 'dt) sqlite_env \<Rightarrow> bytes \<Rightarrow> (('db, 's, 'c) sqlite_conn, sqlite_statement) aop" where
  "conn_prepare E query =
     oneshot_cmd (abind (on_worker (worker_prepare E query)) (\<lambda>s. athen (amodify (update_cached_statements_size E)) (aret s)))"

definition conn_execute ::
    "('db, 's, 'v, 'c, 'dt) sqlite_env \<Rightarrow> ('v step_item \<Rightarrow> bool) \<Rightarrow> nat \<Rightarrow> bytes \<Rightarrow> sqlite_arguments option \<Rightarrow> bool \<Rightarrow>
      (('db, 's, 'c) sqlite_conn, 'v step_item list) aop" where
  "conn_execute E stop lag query args persistent c =
     (if \<not> sn_running c then Some (Err worker_crashed, c)
      else map_option (\<lambda>(r, s). let c = c\<lparr>sn_state := s\<rparr> in
             case r of
               Ok (items, crashed) \<Rightarrow>
                 (Ok items, if crashed then c\<lparr>sn_running := False\<rparr> else update_cached_statements_size E c)
             | Err e \<Rightarrow> (Ok [Err e], c)
             | Panic \<Rightarrow> (Ok [], c\<lparr>sn_running := False\<rparr>))
           (worker_execute E stop lag query args persistent (sn_state c)))"

definition conn_ping :: "(('db, 's, 'c) sqlite_conn, unit) aop" where
  "conn_ping = oneshot_cmd (aret ())"

definition clear_cache :: "('db, 's, 'v, 'c, 'dt) sqlite_env \<Rightarrow> (('db, 's, 'c) sqlite_conn, unit) aop" where
  "clear_cache E =
     oneshot_cmd (abind (on_worker (statements_clear E)) (\<lambda>_. amodify (update_cached_statements_size E)))"

text \<open>
  \<open>unlock_db\<close>: the caller queues for the lock, the worker lets go of it and takes it back after the caller, so nothing of the
  state changes by the exchange itself.
\<close>

definition unlock_db :: "(('db, 's, 'c) sqlite_conn, unit) aop" where
  "unlock_db c = Some (if sn_running c then Ok () else Err worker_crashed, c)"

text \<open>
  Shutting the worker down drops its share of the state and ends it.  The connection keeps its own share, so the
  database is closed only when the connection itself is dropped.
\<close>

definition conn_close :: "(('db, 's, 'c) sqlite_conn, unit) aop" where
  "conn_close = oneshot_cmd (amodify (\<lambda>c. c\<lparr>sn_running := False\<rparr>))"

definition sqlite_conn_drop :: "('db, 's, 'v, 'c, 'dt) sqlite_env \<Rightarrow> (('db, 's, 'c) sqlite_conn, unit) aop" where
  "sqlite_conn_drop E = on_worker (connection_drop E)"

datatype ordering = Less | Equal | Greater

definition call_boxed_closure :: "(bytes \<Rightarrow> bytes \<Rightarrow> ordering) \<Rightarrow> bytes \<Rightarrow> bytes \<Rightarrow> int" where
  "call_boxed_closure f s1 s2 = (case f s1 s2 of Less \<Rightarrow> - 1 | Equal \<Rightarrow> 0 | Greater \<Rightarrow> 1)"

definition create_collation :: "('db, 's, 'v) sqlite3 \<Rightarrow> bytes \<Rightarrow> (bytes \<Rightarrow> bytes \<Rightarrow> ordering) \<Rightarrow> ('db, unit) aop" where
  "create_collation L name compare d =
     (if 0 \<in> set name then Some (Err (Protocol ''invalid collation name'' []), d)
      else sqlite_status L (sqlite3_create_collation_v2 L d name (call_boxed_closure compare)))"

text \<open>In the background an error is only logged.\<close>

definition conn_create_collation ::
    "('db, 's, 'v, 'c, 'dt) sqlite_env \<Rightarrow> bytes \<Rightarrow> (bytes \<Rightarrow> bytes \<Rightarrow> ordering) \<Rightarrow> (('db, 's, 'c) sqlite_conn, unit) aop" where
  "conn_create_collation E name compare c =
     (if \<not> sn_running c then Some (Err worker_crashed, c)
      else map_option (\<lambda>(_, c). (Ok (), c)) (on_worker (on_handle (create_collation (se_L E) name compare)) c))"

section \<open>Queries\<close>

record sqlite_query =
  sy_statement :: "bytes + sqlite_statement"
  sy_arguments :: "dyn_value list"
  sy_persistent :: bool

definition sqlite_query_sql :: "sqlite_query \<Rightarrow> bytes" where
  "sqlite_query_sql q = (case sy_statement q of Inl sql \<Rightarrow> sql | Inr s \<Rightarrow> sq_sql s)"

definition sqlite_take_arguments :: "'dt sqlite_kit \<Rightarrow> sqlite_query \<Rightarrow> sqlite_arguments option" where
  "sqlite_take_arguments K q = (if sy_arguments q = [] then None else Some (from_args K (sy_arguments q) []))"

definition fetch_many ::
    "('db, 's, 'v, 'c, 'dt) sqlite_env \<Rightarrow> ('v step_item \<Rightarrow> bool) \<Rightarrow> nat \<Rightarrow> sqlite_query \<Rightarrow> (('db, 's, 'c) sqlite_conn, 'v step_item list) aop" where
  "fetch_many E stop lag q =
     (let persistent = sy_persistent q \<and> sy_arguments q \<noteq> [] in
      conn_execute E stop lag (sqlite_query_sql q) (sqlite_take_arguments (se_K E) q) persistent)"

definition item_is_err :: "'v step_item \<Rightarrow> bool" where
  "item_is_err x = (case x of Ok _ \<Rightarrow> False | _ \<Rightarrow> True)"

definition item_is_row :: "'v step_item \<Rightarrow> bool" where
  "item_is_row x = (case x of Ok (Inr _) \<Rightarrow> True | _ \<Rightarrow> False)"

fun collect_rows :: "'v step_item list \<Rightarrow> 'v sqlite_row list res" where
  "collect_rows [] = Ok []"
| "collect_rows (Ok (Inr y) # xs) = rbind (collect_rows xs) (\<lambda>ys. Ok (y # ys))"
| "collect_rows (Ok (Inl _) # xs) = collect_rows xs"
| "collect_rows (Err e # xs) = Err e"
| "collect_rows (Panic # xs) = Panic"

text \<open>\<open>SqliteQueryResult::extend\<close>: the changes add up, the last row id is that of the last statement.\<close>

fun collect_results :: "sqlite_query_result \<Rightarrow> 'v step_item list \<Rightarrow> sqlite_query_result res" where
  "collect_results acc [] = Ok acc"
| "collect_results acc (Ok (Inr _) # xs) = collect_results acc xs"
| "collect_results acc (Ok (Inl r) # xs) =
     collect_results (acc\<lparr>qr_changes := qr_changes acc + qr_changes r, qr_last_insert_rowid := qr_last_insert_rowid r\<rparr>) xs"
| "collect_results acc (Err e # xs) = Err e"
| "collect_results acc (Panic # xs) = Panic"

definition sqlite_prepare_with :: "('db, 's, 'v, 'c, 'dt) sqlite_env \<Rightarrow> bytes \<Rightarrow> data_type list \<Rightarrow> (('db, 's, 'c) sqlite_conn, sqlite_statement) aop" where
  "sqlite_prepare_with E sql _ = abind (conn_prepare E sql) (\<lambda>s. aret (s\<lparr>sq_sql := sql\<rparr>))"

definition fetch_all ::
    "('db, 's, 'v, 'c, 'dt) sqlite_env \<Rightarrow> nat \<Rightarrow> bytes \<Rightarrow> dyn_value list \<Rightarrow> data_type list \<Rightarrow> (('db, 's, 'c) sqlite_conn, 'v step_item list) aop" where
  "fetch_all E lag sql params types =
     (if params = [] then fetch_many E item_is_err lag \<lparr>sy_statement = Inl sql, sy_arguments = params, sy_persistent = False\<rparr>
      else abind (sqlite_prepare_with E sql types) (\<lambda>stmt.
        fetch_many E item_is_err lag \<lparr>sy_statement = Inr stmt, sy_arguments = params, sy_persistent = True\<rparr>))"

definition sqlite_get_rows ::
    "('db, 's, 'v, 'c, 'dt) sqlite_env \<Rightarrow> nat \<Rightarrow> bytes \<Rightarrow> dyn_value list \<Rightarrow> (('db, 's, 'c) sqlite_conn, 'v sqlite_row list) aop" where
  "sqlite_get_rows E lag sql params = abind (fetch_all E lag sql params []) (\<lambda>items. alift (collect_rows items))"

definition sqlite_exec ::
    "('db, 's, 'v, 'c, 'dt) sqlite_env \<Rightarrow> nat \<Rightarrow> bytes \<Rightarrow> dyn_value list \<Rightarrow> (('db, 's, 'c) sqlite_conn, exec_result) aop" where
  "sqlite_exec E lag sql params =
     abind (fetch_all E lag sql params (map sqlite_type_info_of params)) (\<lambda>items.
     abind (alift (collect_results \<lparr>qr_changes = 0, qr_last_insert_rowid = 0\<rparr> items)) (\<lambda>r.
     aret \<lparr>er_rows_affected = qr_changes r, er_last_insert_id = V_U64 (qr_last_insert_rowid r)\<rparr>))"

fun sqlite_first_row :: "'v step_item list \<Rightarrow> 'v sqlite_row option res" where
  "sqlite_first_row [] = Ok None"
| "sqlite_first_row (Ok (Inr y) # xs) = Ok (Some y)"
| "sqlite_first_row (Ok (Inl _) # xs) = sqlite_first_row xs"
| "sqlite_first_row (Err e # xs) = Err e"
| "sqlite_first_row (Panic # xs) = Panic"

definition sqlite_fetch_optional ::
    "('db, 's, 'v, 'c, 'dt) sqlite_env \<Rightarrow> nat \<Rightarrow> sqlite_query \<Rightarrow> (('db, 's, 'c) sqlite_conn, 'v sqlite_row option) aop" where
  "sqlite_fetch_optional E lag q =
     abind (fetch_many E (\<lambda>x. item_is_err x \<or> item_is_row x) lag q) (\<lambda>items. alift (sqlite_first_row items))"

definition sqlite_connection :: "('db, 's, 'v, 'c, 'dt) sqlite_env \<Rightarrow> nat \<Rightarrow> (('db, 's, 'c) sqlite_conn, 'v sqlite_row) connection" where
  "sqlite_connection E lag = \<lparr>c_get_rows = sqlite_get_rows E lag, c_exec = sqlite_exec E lag, c_ping = conn_ping, c_close = conn_close\<rparr>"

end
