(* ===== verification/Sqlite_Worker.thy ===== *)
theory Sqlite_Worker
  imports Sqlite_Conn
begin

text \<open>
  The command loop of the SQLite worker (\<open>rbdc-sqlite/src/connection/worker.rs\<close>): the commands, what the worker does for each,
  and that the calls of a connection are what the loop makes of their commands, in the order in which they were sent.
\<close>

section \<open>Model\<close>

text \<open>An execution comes with how its receiver behaves: where it stops and how far the worker is ahead then.\<close>

datatype 'v command =
    Cmd_Prepare bytes
  | Cmd_Execute bytes "sqlite_arguments option" bool "'v step_item \<Rightarrow> bool" nat
  | Cmd_CreateCollation bytes "bytes \<Rightarrow> bytes \<Rightarrow> ordering"
  | Cmd_UnlockDb
  | Cmd_ClearCache
  | Cmd_Ping
  | Cmd_Shutdown

text \<open>What comes back: through the channel of the command, nothing because it has none, or its end because the sender is gone.\<close>

datatype 'v reply = R_Statement "sqlite_statement res" | R_Items "'v step_item list" | R_Unit | R_Nothing | R_Gone

definition worker_command ::
    "('db, 's, 'v, 'c, 'dt) sqlite_env \<Rightarrow> 'v command \<Rightarrow> ('db, 's, 'c) sqlite_conn \<Rightarrow> ('v reply \<times> ('db, 's, 'c) sqlite_conn) option" where
  "worker_command E cmd c =
     (case cmd of
        Cmd_Prepare query \<Rightarrow>
          map_option (\<lambda>(r, s). let c = c\<lparr>sn_state := s\<rparr> in
            case r of
              Ok prepared \<Rightarrow> (R_Statement (Ok prepared), update_cached_statements_size E c)
            | Err e \<Rightarrow> (R_Statement (Err e), c)
            | Panic \<Rightarrow> (R_Gone, c\<lparr>sn_running := False\<rparr>)) (worker_prepare E query (sn_state c))
      | Cmd_Execute query arguments persistent stop lag \<Rightarrow>
          map_option (\<lambda>(r, s). let c = c\<lparr>sn_state := s\<rparr> in
            case r of
              Ok (items, crashed) \<Rightarrow> (R_Items items, if crashed then c\<lparr>sn_running := False\<rparr> else update_cached_statements_size E c)
            | Err e \<Rightarrow> (R_Items [Err e], c)
            | Panic \<Rightarrow> (R_Items [], c\<lparr>sn_running := False\<rparr>)) (worker_execute E stop lag query arguments persistent (sn_state c))
      | Cmd_CreateCollation name compare \<Rightarrow>
          map_option (\<lambda>(r, s). (R_Nothing, c\<lparr>sn_state := s\<rparr>)) (on_handle (create_collation (se_L E) name compare) (sn_state c))
      | Cmd_ClearCache \<Rightarrow>
          map_option (\<lambda>(r, s). let c = c\<lparr>sn_state := s\<rparr> in
            case r of Panic \<Rightarrow> (R_Gone, c\<lparr>sn_running := False\<rparr>) | _ \<Rightarrow> (R_Unit, update_cached_statements_size E c))
            (statements_clear E (sn_state c))
      | Cmd_UnlockDb \<Rightarrow> Some (R_Nothing, c)
      | Cmd_Ping \<Rightarrow> Some (R_Unit, c)
      | Cmd_Shutdown \<Rightarrow> Some (R_Unit, c\<lparr>sn_running := False\<rparr>))"

text \<open>The loop: it ends with a shutdown or a panic; commands still in the channel, or sent later, find their senders gone.\<close>

fun worker_loop ::
    "('db, 's, 'v, 'c, 'dt) sqlite_env \<Rightarrow> 'v command list \<Rightarrow> ('db, 's, 'c) sqlite_conn \<Rightarrow> ('v reply list \<times> ('db, 's, 'c) sqlite_conn) option" where
  "worker_loop E [] c = Some ([], c)"
| "worker_loop E (cmd # cmds) c =
     (if \<not> sn_running c then Some (map (\<lambda>_. R_Gone) (cmd # cmds), c)
      else Option.bind (worker_command E cmd c) (\<lambda>(r, c). map_option (\<lambda>(rs, c). (r # rs, c)) (worker_loop E cmds c)))"

text \<open>
  What a call makes of the reply to its command: the end of its channel is \<open>WorkerCrashed\<close>, for whichever call.
\<close>

datatype 'v outcome = O_Statement "sqlite_statement res" | O_Items "'v step_item list res" | O_Unit "unit res"

fun received :: "'v command \<Rightarrow> 'v reply \<Rightarrow> 'v outcome" where
  "received cmd (R_Statement r) = O_Statement r"
| "received cmd (R_Items xs) = O_Items (Ok xs)"
| "received cmd R_Unit = O_Unit (Ok ())"
| "received cmd R_Nothing = O_Unit (Ok ())"
| "received (Cmd_Prepare q) R_Gone = O_Statement (Err worker_crashed)"
| "received (Cmd_Execute q a p stop lag) R_Gone = O_Items (Err worker_crashed)"
| "received cmd R_Gone = O_Unit (Err worker_crashed)"

definition with_outcome :: "('a res \<Rightarrow> 'v outcome) \<Rightarrow> ('st, 'a) aop \<Rightarrow> 'st \<Rightarrow> ('v outcome \<times> 'st) option" where
  "with_outcome f m st = map_option (\<lambda>(r, st). (f r, st)) (m st)"

fun connection_call ::
    "('db, 's, 'v, 'c, 'dt) sqlite_env \<Rightarrow> 'v command \<Rightarrow> ('db, 's, 'c) sqlite_conn \<Rightarrow> ('v outcome \<times> ('db, 's, 'c) sqlite_conn) option" where
  "connection_call E (Cmd_Prepare q) = with_outcome O_Statement (conn_prepare E q)"
| "connection_call E (Cmd_Execute q a p stop lag) = with_outcome O_Items (conn_execute E stop lag q a p)"
| "connection_call E (Cmd_CreateCollation n f) = with_outcome O_Unit (conn_create_collation E n f)"
| "connection_call E Cmd_UnlockDb = with_outcome O_Unit unlock_db"
| "connection_call E Cmd_ClearCache = with_outcome O_Unit (clear_cache E)"
| "connection_call E Cmd_Ping = with_outcome O_Unit conn_ping"
| "connection_call E Cmd_Shutdown = with_outcome O_Unit conn_close"

fun connection_calls ::
    "('db, 's, 'v, 'c, 'dt) sqlite_env \<Rightarrow> 'v command list \<Rightarrow> ('db, 's, 'c) sqlite_conn \<Rightarrow> ('v outcome list \<times> ('db, 's, 'c) sqlite_conn) option" where
  "connection_calls E [] c = Some ([], c)"
| "connection_calls E (cmd # cmds) c =
     Option.bind (connection_call E cmd c) (\<lambda>(r, c). map_option (\<lambda>(rs, c). (r # rs, c)) (connection_calls E cmds c))"

section \<open>Calls are commands\<close>

text \<open>Clearing the statements can only succeed, panic or not return.\<close>

definition never_Err :: "('st, 'a) aop \<Rightarrow> bool" where
  "never_Err m \<longleftrightarrow> (\<forall>s e s'. m s \<noteq> Some (Err e, s'))"

lemma aop_result_cases [case_names None Ok Err Panic]:
  obtains "y = None" | x s where "y = Some (Ok x, s)" | e s where "y = Some (Err e, s)" | s where "y = Some (Panic, s)"
  by (metis not_None_eq res.exhaust surj_pair)

lemma never_Err_amodify [simp]: "never_Err (amodify f)"
  by (simp add: never_Err_def amodify_def)

lemma never_Err_abind:
  assumes "never_Err m" and "\<And>x. never_Err (k x)"
  shows "never_Err (abind m k)"
  unfolding never_Err_def
proof (intro allI)
  fix s e s'
  show "abind m k s \<noteq> Some (Err e, s')"
    using assms by (cases "m s" rule: aop_result_cases) (simp_all add: never_Err_def abind_def)
qed

lemma never_Err_on_handle: "never_Err m \<Longrightarrow> never_Err (on_handle m)"
  by (auto simp: never_Err_def on_handle_def)

lemma never_Err_handle_drop: "never_Err (handle_drop L s)"
  by (simp add: never_Err_def handle_drop_def split: prod.split)

lemma never_Err_drop_handles: "never_Err (drop_handles L ss)"
proof (induction ss)
  case Nil
  show ?case by (simp add: never_Err_def)
next
  case (Cons s ss)
  have "drop_handles L (s # ss) = abind (handle_drop L s) (\<lambda>_. drop_handles L ss)" by (rule ext) simp
  with Cons.IH show ?case by (simp add: never_Err_abind never_Err_handle_drop)
qed

lemma statements_clear_not_Err: "statements_clear E c \<noteq> Some (Err e, c')"
proof -
  have "never_Err (abind (on_handle (drop_handles (se_L E) (concat (map vs_handles (se_owned E (cs_cached c)))))) (\<lambda>_.
     abind (amodify (\<lambda>c. c\<lparr>cs_cached := cache_clear (se_C E) (cs_cached c)\<rparr>)) (\<lambda>_.
     abind (drop_virtual E (cs_temp c)) (\<lambda>_. amodify (\<lambda>c. c\<lparr>cs_temp := None\<rparr>)))))"
    unfolding drop_virtual_def
    by (intro never_Err_abind never_Err_on_handle never_Err_drop_handles never_Err_amodify)
  then show ?thesis by (simp add: never_Err_def statements_clear_def)
qed

lemma gone_call:
  "\<not> sn_running c \<Longrightarrow> connection_call E cmd c = Some (received cmd R_Gone, c)"
  by (cases cmd) (simp_all add: with_outcome_def conn_prepare_def conn_execute_def conn_create_collation_def clear_cache_def
      conn_ping_def conn_close_def unlock_db_def oneshot_cmd_def)

lemma gone_calls:
  "\<not> sn_running c \<Longrightarrow> connection_calls E cmds c = Some (map (\<lambda>cmd. received cmd R_Gone) cmds, c)"
  by (induction cmds) (simp_all add: gone_call)

lemma running_call:
  assumes "sn_running c"
  shows "connection_call E cmd c = map_option (\<lambda>(r, c). (received cmd r, c)) (worker_command E cmd c)"
proof (cases cmd)
  case (Cmd_Prepare q)
  with assms show ?thesis
    by (cases "worker_prepare E q (sn_state c)" rule: aop_result_cases)
      (auto simp: with_outcome_def conn_prepare_def oneshot_cmd_def worker_command_def on_worker_def abind_def athen_def
        amodify_def aret_def split: res.splits)
next
  case (Cmd_Execute q a p stop lag)
  with assms show ?thesis
    by (cases "worker_execute E stop lag q a p (sn_state c)" rule: aop_result_cases)
      (auto simp: with_outcome_def conn_execute_def worker_command_def Let_def split: res.splits)
next
  case (Cmd_CreateCollation n f)
  with assms show ?thesis
    by (cases "on_handle (create_collation (se_L E) n f) (sn_state c)")
      (auto simp: with_outcome_def conn_create_collation_def worker_command_def on_worker_def)
next
  case Cmd_ClearCache
  with assms show ?thesis
    by (cases "statements_clear E (sn_state c)" rule: aop_result_cases)
      (auto simp: with_outcome_def clear_cache_def oneshot_cmd_def worker_command_def on_worker_def abind_def amodify_def
        statements_clear_not_Err split: res.splits)
qed (use assms in \<open>simp_all add: with_outcome_def unlock_db_def conn_ping_def conn_close_def oneshot_cmd_def aret_def amodify_def
      worker_command_def\<close>)

lemma worker_loop_gone:
  "\<not> sn_running c \<Longrightarrow> worker_loop E cmds c = Some (map (\<lambda>_. R_Gone) cmds, c)"
  by (cases cmds) simp_all

lemma map2_received_gone: "map2 received cmds (map (\<lambda>_. R_Gone) cmds) = map (\<lambda>cmd. received cmd R_Gone) cmds"
  by (induction cmds) simp_all

text \<open>The calls made on a SQLite connection are what the worker's loop makes of their commands: same replies in the same order,
  same state of the connection, whatever the commands, the statements and the panics; once the worker has ended, by a shutdown or a
  panic, every later call of any kind gets \<open>WorkerCrashed\<close> and changes nothing.\<close>

lemma connection_calls_are_the_worker_loop:
  "connection_calls E cmds c = map_option (\<lambda>(rs, c). (map2 received cmds rs, c)) (worker_loop E cmds c)"
proof (induction cmds arbitrary: c)
  case Nil
  show ?case by simp
next
  case (Cons cmd cmds)
  show ?case
  proof (cases "sn_running c")
    case True
    then show ?thesis
      by (cases "worker_command E cmd c") (auto simp: running_call Cons.IH option.map_comp comp_def split_beta)
  next
    case False
    then show ?thesis
      by (simp add: gone_calls gone_call map2_received_gone del: connection_calls.simps(2))
  qed
qed

end
