(* ===== verification/Sqlite_Db.thy ===== *)
theory Sqlite_Db
  imports Sqlite_Conn
begin

text \<open>
  What a SQLite connection promises: queries return what running the statements of the SQL text one after the other
  means, with and without parameters, from the cache or not.  The locale \<open>sqlite_client\<close> joins the
  laws of the library and of the \<open>lru\<close> crate.
\<close>

section \<open>The invariant of a connection\<close>

definition handles_of :: "'s virtual_statement list \<Rightarrow> 's list" where
  "handles_of vss = concat (map vs_handles vss)"

text \<open>The open statements of the library are exactly those of the virtual statements, each owned once.\<close>

definition owns :: "('db, 's, 'v, 'b) sqlite_abs \<Rightarrow> 'db \<Rightarrow> 's virtual_statement list \<Rightarrow> bool" where
  "owns A d vss = (distinct (handles_of vss) \<and> dom (view A d) = set (handles_of vss))"

definition temp_list :: "('db, 's, 'c) connection_state \<Rightarrow> 's virtual_statement list" where
  "temp_list c = (case cs_temp c of None \<Rightarrow> [] | Some vs \<Rightarrow> [vs])"

definition connection_ok ::
    "('db, 's, 'v, 'b) sqlite_abs \<Rightarrow> ('v, 'b) sql_meaning \<Rightarrow> ('c \<Rightarrow> 's virtual_statement recency) \<Rightarrow> ('c \<Rightarrow> bool) \<Rightarrow>
      ('db, 's, 'c) connection_state \<Rightarrow> bool" where
  "connection_ok A M recency ok c =
     (ok (cs_cached c) \<and> owns A (cs_db c) (map snd (recency (cs_cached c)) @ temp_list c) \<and>
      (\<forall>(k, vs) \<in> set (recency (cs_cached c)). vs_shows A M (cs_db c) vs (split_sql M (trim k))) \<and>
      (\<forall>vs \<in> set (temp_list c). \<exists>ts. vs_shows A M (cs_db c) vs ts))"

text \<open>
  What a query with parameters needs beyond a text that runs: all its statements are prepared before the first one runs, so they compile
  on the contents at the start, with the columns they have when their turn comes; and if statements of this text are
  in the cache, they were compiled with these columns.
\<close>

definition compiled_alike :: "('v, 'b) sql_meaning \<Rightarrow> sqlite_arguments \<Rightarrow> 'b \<Rightarrow> bytes list \<Rightarrow> bool" where
  "compiled_alike M vs b ts =
     (list_all (sm_compiles M b) ts \<and> map (sm_columns M b) ts = script_columns M vs 0 b ts)"

definition columns_kept :: "('v, 'b) sql_meaning \<Rightarrow> 'b \<Rightarrow> bytes \<Rightarrow> 's virtual_statement recency \<Rightarrow> bool" where
  "columns_kept M b sql cached =
     (\<forall>vs. map_of cached sql = Some vs \<longrightarrow> prefix (columns_of vs) (map (sm_columns M b) (split_sql M (trim sql))))"

lemma handles_of_mset: "mset xs = mset ys \<Longrightarrow> mset (handles_of xs) = mset (handles_of ys)"
  by (simp add: handles_of_def mset_concat flip: sum_mset_sum_list)

lemma owns_mset: "mset xs = mset ys \<Longrightarrow> owns A d xs = owns A d ys"
  using handles_of_mset [of xs ys] by (metis mset_eq_imp_distinct_iff mset_eq_setD owns_def)

lemma handles_of_Cons: "handles_of (vs # rest) = vs_handles vs @ handles_of rest"
  by (simp add: handles_of_def)

lemma handles_of_member: "v \<in> set rest \<Longrightarrow> set (vs_handles v) \<subseteq> set (handles_of rest)"
  by (auto simp: handles_of_def)

lemma vs_shows_frame:
  assumes "vs_shows A M d v ts" and "\<forall>s \<in> set (vs_handles v). view A d' s = view A d s"
  shows "vs_shows A M d' v ts"
proof -
  from assms(2) have "stmt_texts A d' (vs_handles v) = stmt_texts A d (vs_handles v)" by (simp add: stmt_texts_def)
  with assms show ?thesis by (simp add: vs_shows_def)
qed

lemma owns_replace:
  assumes "owns A d (vs # rest)" and "touches A d (vs_handles vs) d' (vs_handles vs')" and "vs_shows A M d' vs' ts"
  shows "owns A d' (vs' # rest)" and "\<forall>v \<in> set rest. \<forall>s \<in> set (vs_handles v). view A d' s = view A d s"
proof -
  from assms(1) have o: "distinct (handles_of rest)" "set (vs_handles vs) \<inter> set (handles_of rest) = {}"
    "dom (view A d) = set (vs_handles vs) \<union> set (handles_of rest)" by (simp_all add: owns_def handles_of_Cons)
  from assms(2) have t: "set (vs_handles vs) \<subseteq> set (vs_handles vs')" "\<And>s. s \<notin> set (vs_handles vs') \<Longrightarrow> view A d' s = view A d s"
    "\<And>s. s \<in> set (vs_handles vs') - set (vs_handles vs) \<Longrightarrow> s \<notin> dom (view A d)" by (auto simp: touches_def)
  from assms(3) have v: "distinct (vs_handles vs')" "\<And>s. s \<in> set (vs_handles vs') \<Longrightarrow> s \<in> dom (view A d')"
    by (auto simp: vs_shows_def)
  have disj: "set (vs_handles vs') \<inter> set (handles_of rest) = {}" using t(3) o(2,3) by blast
  have keep: "view A d' s = view A d s" if "s \<in> set (handles_of rest)" for s using t(2) disj that by blast
  have "s \<in> dom (view A d') \<longleftrightarrow> s \<in> set (vs_handles vs') \<union> set (handles_of rest)" for s
  proof (cases "s \<in> set (vs_handles vs')")
    case True
    then show ?thesis using v(2) by blast
  next
    case False
    with t(1,2) o(3) show ?thesis by (auto simp: domIff)
  qed
  with o(1) disj v(1) show "owns A d' (vs' # rest)" by (auto simp: owns_def handles_of_Cons)
  show "\<forall>v \<in> set rest. \<forall>s \<in> set (vs_handles v). view A d' s = view A d s"
    using keep handles_of_member by blast
qed

lemma set_trim: "set (trim s) \<subseteq> set s"
proof -
  have "set (trim_start s) \<subseteq> set s" for s
  proof (induction s rule: trim_start.induct)
    case (1 s)
    then show ?case by (subst trim_start.simps) (force split: option.splits dest: in_set_dropD)
  qed
  moreover have "set (trim_end s) \<subseteq> set s" for s
  proof (induction s rule: trim_end.induct)
    case (1 s)
    then show ?case by (subst trim_end.simps) (force split: option.splits dest: in_set_takeD)
  qed
  ultimately show ?thesis unfolding trim_def by blast
qed

lemma spec_insert_entries: "set (snd (spec_insert cap k v es)) \<subseteq> insert (k, v) (set es)"
  by (auto simp: spec_insert_def drop_key_def split: option.splits if_splits dest: in_set_butlastD)

lemma spec_insert_evicts:
  "fst (spec_insert cap k v es) = Some w \<Longrightarrow> map_of es k = None \<Longrightarrow> recency_ok cap es \<Longrightarrow> w \<in> snd ` set es"
  by (auto simp: spec_insert_def recency_ok_def split: if_splits intro!: imageI last_in_set)

lemma entry_frame:
  assumes "connection_ok A M recency ok c" and "(k, v) \<in> set (recency (cs_cached c))"
    and "\<forall>v \<in> set vss. \<forall>s \<in> set (vs_handles v). view A d' s = view A (cs_db c) s" and "v \<in> set vss"
  shows "vs_shows A M d' v (split_sql M (trim k))"
proof (rule vs_shows_frame)
  from assms(1,2) show "vs_shows A M (cs_db c) v (split_sql M (trim k))" by (auto simp: connection_ok_def)
  from assms(3,4) show "\<forall>s \<in> set (vs_handles v). view A d' s = view A (cs_db c) s" by blast
qed

lemma temp_frame:
  assumes "connection_ok A M recency ok c" and "v \<in> set (temp_list c)"
    and "\<forall>v \<in> set vss. \<forall>s \<in> set (vs_handles v). view A d' s = view A (cs_db c) s" and "v \<in> set vss"
  shows "\<exists>ts. vs_shows A M d' v ts"
proof -
  from assms(1,2) obtain ts where "vs_shows A M (cs_db c) v ts" by (auto simp: connection_ok_def)
  moreover from assms(3,4) have "\<forall>s \<in> set (vs_handles v). view A d' s = view A (cs_db c) s" by blast
  ultimately show ?thesis by (blast intro: vs_shows_frame)
qed

lemma connection_okI:
  assumes "ok (cs_cached c)" and "owns A (cs_db c) (map snd (recency (cs_cached c)) @ temp_list c)"
    and "\<And>k vs. (k, vs) \<in> set (recency (cs_cached c)) \<Longrightarrow> vs_shows A M (cs_db c) vs (split_sql M (trim k))"
    and "\<And>vs. vs \<in> set (temp_list c) \<Longrightarrow> \<exists>ts. vs_shows A M (cs_db c) vs ts"
  shows "connection_ok A M recency ok c"
  using assms by (auto simp: connection_ok_def)

lemma iterates_drive:
  assumes "iterates L K st xs st'" and "list_all (\<lambda>x. \<not> stop x) xs"
  shows "drive (execute_next L K) stop lag None acc st = Some (acc @ xs, False, st')"
  using assms
proof (induction arbitrary: acc rule: iterates.induct)
  case (iterates_end st st')
  then show ?case by (subst drive.simps) simp
next
  case (iterates_item st x st1 xs st')
  then show ?case by (subst drive.simps) simp
qed

section \<open>A client of the library\<close>

locale sqlite_client = sqlite_engine "se_L E" A M + lru_laws "se_C E" recency ok
  for E :: "('db, 's, 'v, 'c, 'dt) sqlite_env" and A :: "('db, 's, 'v, 'b) sqlite_abs" and M :: "('v, 'b) sql_meaning"
    and recency :: "'c \<Rightarrow> 's virtual_statement recency" and ok :: "'c \<Rightarrow> bool"
begin

abbreviation conn_ok :: "('db, 's, 'c) connection_state \<Rightarrow> bool" where
  "conn_ok \<equiv> connection_ok A M recency ok"

lemma drop_handles_finalizes:
  assumes "distinct hs" and "\<forall>s \<in> set hs. view A d s \<noteq> None"
  shows "\<exists>d'. drop_handles (se_L E) hs d = Some (Ok (), d') \<and> contents A d' = contents A d \<and>
    view A d' = (\<lambda>s. if s \<in> set hs then None else view A d s)"
  using assms
proof (induction hs arbitrary: d)
  case (Cons s hs)
  then obtain w where "view A d s = Some w" by auto
  from finalize_law [OF this] obtain c d1 where
    d1: "sqlite3_finalize (se_L E) d s = (c, d1)" "c \<noteq> 21" "contents A d1 = contents A d" "view A d1 = (view A d)(s := None)" by blast
  from Cons.prems d1(4) have "\<forall>s \<in> set hs. view A d1 s \<noteq> None" by auto
  with Cons.IH [of d1] Cons.prems(1) obtain d2 where
    "drop_handles (se_L E) hs d1 = Some (Ok (), d2)" "contents A d2 = contents A d1" "view A d2 = (\<lambda>s. if s \<in> set hs then None else view A d1 s)"
    by auto
  with d1 show ?case by (intro exI [of _ d2]) (auto simp: abind_def handle_drop_def fun_eq_iff)
qed simp

lemma owns_drop:
  assumes "owns A d (gone @ rest)"
  shows "\<exists>d'. drop_handles (se_L E) (handles_of gone) d = Some (Ok (), d') \<and> contents A d' = contents A d \<and> owns A d' rest \<and>
    (\<forall>v \<in> set rest. \<forall>s \<in> set (vs_handles v). view A d' s = view A d s)"
proof -
  from assms have o: "distinct (handles_of gone)" "distinct (handles_of rest)" "set (handles_of gone) \<inter> set (handles_of rest) = {}"
    "dom (view A d) = set (handles_of gone) \<union> set (handles_of rest)" by (auto simp: owns_def handles_of_def)
  from o(4) have opened: "\<forall>s \<in> set (handles_of gone). view A d s \<noteq> None" by (metis UnI1 domIff)
  from drop_handles_finalizes [OF o(1) opened] obtain d' where
    d': "drop_handles (se_L E) (handles_of gone) d = Some (Ok (), d')" "contents A d' = contents A d"
      "view A d' = (\<lambda>s. if s \<in> set (handles_of gone) then None else view A d s)" by blast
  have "dom (view A d') = set (handles_of rest)" using d'(3) o(3,4) by (auto simp: dom_def split: if_splits)
  moreover have "\<forall>v \<in> set rest. \<forall>s \<in> set (vs_handles v). view A d' s = view A d s"
    using d'(3) o(3) handles_of_member by (force split: if_splits)
  ultimately show ?thesis using d' o(2) by (auto simp: owns_def)
qed

lemma reset_handles_start:
  assumes "\<forall>s \<in> set hs. \<exists>w. view A d s = Some w \<and> sw_phase w \<noteq> At_Error"
  shows "\<exists>d'. reset_handles (se_L E) hs d = Some (Ok (), d') \<and> contents A d' = contents A d \<and>
    (\<forall>s. s \<notin> set hs \<longrightarrow> view A d' s = view A d s) \<and> (\<forall>s. map_option sw_sql (view A d' s) = map_option sw_sql (view A d s)) \<and>
    (\<forall>s \<in> set hs. \<exists>w. view A d' s = Some w \<and> sw_phase w = At_Start)"
  using assms
proof (induction hs arbitrary: d)
  case (Cons s hs)
  then obtain w where w: "view A d s = Some w" "sw_phase w \<noteq> At_Error" by auto
  from reset_law [OF this] obtain d1 where
    d1: "sqlite3_reset (se_L E) d s = (0, d1)" "contents A d1 = contents A d" "view A d1 = (view A d)(s \<mapsto> w\<lparr>sw_phase := At_Start\<rparr>)" by blast
  let ?d2 = "sqlite3_clear_bindings (se_L E) d1 s"
  from clear_bindings_law [of d1 s "w\<lparr>sw_phase := At_Start\<rparr>"] d1 have
    d2: "contents A ?d2 = contents A d" "view A ?d2 = (view A d)(s \<mapsto> w\<lparr>sw_phase := At_Start, sw_bound := Map.empty\<rparr>)" by auto
  from Cons.prems d2(2) have "\<forall>s \<in> set hs. \<exists>w. view A ?d2 s = Some w \<and> sw_phase w \<noteq> At_Error" by auto
  from Cons.IH [OF this] obtain d3 where
    d3: "reset_handles (se_L E) hs ?d2 = Some (Ok (), d3)" "contents A d3 = contents A ?d2"
      "\<forall>s. s \<notin> set hs \<longrightarrow> view A d3 s = view A ?d2 s" "\<forall>s. map_option sw_sql (view A d3 s) = map_option sw_sql (view A ?d2 s)"
      "\<forall>s \<in> set hs. \<exists>w. view A d3 s = Some w \<and> sw_phase w = At_Start" by blast
  have "\<exists>w. view A d3 s = Some w \<and> sw_phase w = At_Start" using d2(2) d3(3,5) by (cases "s \<in> set hs") auto
  have "reset_handles (se_L E) (s # hs) d = Some (Ok (), d3)"
    using d1(1) d3(1) by (simp add: abind_def handle_reset_def sqlite_status_def clear_bindings_def amodify_def)
  with d2 d3 w \<open>\<exists>w. view A d3 s = Some w \<and> sw_phase w = At_Start\<close> show ?case by (intro exI [of _ d3]) simp
qed simp

lemma virtual_reset_ok:
  assumes "vs_shows A M d vs ts"
  shows "\<exists>d'. virtual_reset (se_L E) (vs, d) = Some (Ok (), vs\<lparr>vs_index := None\<rparr>, d') \<and> contents A d' = contents A d \<and>
    vs_shows A M d' vs ts \<and> touches A d (vs_handles vs) d' (vs_handles vs)"
proof -
  from assms have "\<forall>s \<in> set (vs_handles vs). \<exists>w. view A d s = Some w \<and> sw_phase w \<noteq> At_Error" by (simp add: vs_shows_def)
  from reset_handles_start [OF this] obtain d' where
    d': "reset_handles (se_L E) (vs_handles vs) d = Some (Ok (), d')" "contents A d' = contents A d"
      "\<forall>s. s \<notin> set (vs_handles vs) \<longrightarrow> view A d' s = view A d s" "\<And>s. map_option sw_sql (view A d' s) = map_option sw_sql (view A d s)"
      "\<forall>s \<in> set (vs_handles vs). \<exists>w. view A d' s = Some w \<and> sw_phase w = At_Start"
    by blast
  have "sw_sql (the (view A d' s)) = sw_sql (the (view A d s))" if "s \<in> set (vs_handles vs)" for s
    using d'(4) [of s] d'(5) that by (cases "view A d s") force+
  then have "stmt_texts A d' (vs_handles vs) = stmt_texts A d (vs_handles vs)" by (simp add: stmt_texts_def)
  with assms d'(5) have "vs_shows A M d' vs ts" by (force simp: vs_shows_def)
  with d' show ?thesis by (auto simp: virtual_reset_def Let_def touches_def)
qed

text \<open>The statement a command works on, and what working on it means for the connection.\<close>

definition stmt_at :: "('db, 's, 'c) connection_state \<Rightarrow> bool \<Rightarrow> bytes \<Rightarrow> 's virtual_statement option" where
  "stmt_at c cached q = (if cached then map_of (recency (cs_cached c)) q else cs_temp c)"

lemma with_statement_ok:
  assumes "conn_ok c" and "stmt_at c cached q = Some vs" and "m (vs, cs_db c) = Some (r, vs', d')"
    and "vs_shows A M d' vs' (split_sql M (trim q))" and "touches A (cs_db c) (vs_handles vs) d' (vs_handles vs')"
  shows "\<exists>c'. with_statement E cached q m c = Some (r, c') \<and> conn_ok c' \<and> cs_db c' = d' \<and> stmt_at c' cached q = Some vs' \<and>
    (\<not> cached \<longrightarrow> cs_cached c' = cs_cached c)"
proof (cases cached)
  case False
  let ?c = "c\<lparr>cs_temp := Some vs', cs_db := d'\<rparr>"
  have t: "temp_list c = [vs]" "temp_list ?c = [vs']" using assms(2) False by (simp_all add: stmt_at_def temp_list_def)
  let ?rest = "map snd (recency (cs_cached c))"
  have "owns A (cs_db c) (?rest @ [vs])" using assms(1) t(1) by (simp add: connection_ok_def)
  then have "owns A (cs_db c) (vs # ?rest)" by (rule owns_mset [THEN iffD1, rotated]) simp
  from owns_replace [OF this assms(5,4)] have
    o': "owns A d' (vs' # ?rest)" and o: "\<forall>v \<in> set ?rest. \<forall>s \<in> set (vs_handles v). view A d' s = view A (cs_db c) s"
    by simp_all
  from o' have o1: "owns A d' (?rest @ [vs'])" by (rule owns_mset [THEN iffD1, rotated]) simp
  have "vs_shows A M d' v (split_sql M (trim k))" if "(k, v) \<in> set (recency (cs_cached c))" for k v
    by (rule entry_frame [OF assms(1) that o]) (use that in force)
  then have "conn_ok ?c" using assms(1,4) o1 t(2) by (intro connection_okI) (auto simp: connection_ok_def [of A M recency ok c])
  moreover have "with_statement E cached q m c = Some (r, ?c)"
    using assms(2,3) False by (simp add: with_statement_def stmt_at_def)
  ultimately show ?thesis using False by (simp add: stmt_at_def)
next
  case True
  have c: "ok (cs_cached c)" using assms(1) by (simp add: connection_ok_def)
  have v: "map_of (recency (cs_cached c)) q = Some vs" using assms(2) True by (simp add: stmt_at_def)
  from get_mut_law [OF c, of q id] v have f: "fst (lru_get_mut (se_C E) (cs_cached c) q id) = Some vs" by force
  from get_mut_law [OF c, of q "\<lambda>_. vs'"] v obtain k' where
    k': "snd (lru_get_mut (se_C E) (cs_cached c) q (\<lambda>_. vs')) = k'" "ok k'" "recency k' = (q, vs') # drop_key q (recency (cs_cached c))"
    by (auto simp: spec_get_def)
  let ?c = "c\<lparr>cs_cached := k', cs_db := d'\<rparr>" and ?rest = "map snd (drop_key q (recency (cs_cached c))) @ temp_list c"
  have tl: "temp_list ?c = temp_list c" by (simp add: temp_list_def)
  have "mset (map snd (recency (cs_cached c)) @ temp_list c) = mset (vs # ?rest)"
    using mset_drop_key [OF _ v] ok_recency [OF c] by (simp add: recency_ok_def)
  then have "owns A (cs_db c) (vs # ?rest)" using assms(1) owns_mset by (metis connection_ok_def)
  from owns_replace [OF this assms(5,4)] have
    o: "owns A d' (vs' # ?rest)" "\<forall>v \<in> set ?rest. \<forall>s \<in> set (vs_handles v). view A d' s = view A (cs_db c) s" by simp_all
  have "vs_shows A M d' v (split_sql M (trim k))" if "(k, v) \<in> set (drop_key q (recency (cs_cached c)))" for k v
    by (rule entry_frame [OF assms(1) _ o(2)]) (use that in \<open>auto simp: drop_key_def intro: rev_image_eqI\<close>)
  moreover have "\<exists>ts. vs_shows A M d' v ts" if "v \<in> set (temp_list c)" for v
    by (rule temp_frame [OF assms(1) that o(2)]) (use that in simp)
  ultimately have "conn_ok ?c" using assms(4) o(1) k'(2,3) tl by (intro connection_okI) auto
  moreover have "with_statement E cached q m c = Some (r, ?c)"
    using f k'(1) assms(3) True by (simp add: with_statement_def cache_get_mut_def)
  ultimately show ?thesis using True k'(3) by (simp add: stmt_at_def)
qed

text \<open>Finding or making the statement of a text.\<close>

lemma virtual_new_ok:
  assumes "0 \<notin> set q" and "length (trim q) \<le> 2147483647"
  shows "\<exists>v. virtual_new q p = Ok v \<and> vs_handles v = [] \<and> vs_index v = None \<and> (\<forall>d. vs_shows A M d v (split_sql M (trim q))) \<and> columns_of v = []"
  using assms set_trim [of q] by (auto simp: virtual_new_def Let_def vs_shows_def stmt_texts_def columns_of_def)

lemma get_temp:
  assumes "conn_ok c" and "0 \<notin> set q" and "length (trim q) \<le> 2147483647" and "\<not> p \<or> \<not> cache_is_enabled (se_C E) (cs_cached c)"
  shows "\<exists>c' vs. statements_get E q p c = Some (Ok False, c') \<and> conn_ok c' \<and> contents A (cs_db c') = contents A (cs_db c) \<and>
    stmt_at c' False q = Some vs \<and> vs_shows A M (cs_db c') vs (split_sql M (trim q)) \<and> vs_index vs = None \<and>
    columns_of vs = [] \<and> cs_cached c' = cs_cached c"
proof -
  from virtual_new_ok [OF assms(2,3), of False] obtain v where
    v: "virtual_new q False = Ok v" "vs_handles v = []" "vs_index v = None" "\<And>d. vs_shows A M d v (split_sql M (trim q))" "columns_of v = []" by blast
  let ?cached = "map snd (recency (cs_cached c))"
  have "owns A (cs_db c) (?cached @ temp_list c)" using assms(1) by (simp add: connection_ok_def)
  then have "owns A (cs_db c) (temp_list c @ ?cached)" by (rule owns_mset [THEN iffD1, rotated]) simp
  from owns_drop [OF this] obtain d' where
    d': "drop_handles (se_L E) (handles_of (temp_list c)) (cs_db c) = Some (Ok (), d')" "contents A d' = contents A (cs_db c)"
      "owns A d' ?cached" "\<forall>v \<in> set ?cached. \<forall>s \<in> set (vs_handles v). view A d' s = view A (cs_db c) s" by blast
  have "drop_virtual E (cs_temp c) c = Some (Ok (), c\<lparr>cs_db := d'\<rparr>)"
    using d'(1) by (cases "cs_temp c") (simp_all add: drop_virtual_def on_handle_def temp_list_def handles_of_def)
  then have g: "statements_get E q p c = Some (Ok False, c\<lparr>cs_db := d', cs_temp := Some v\<rparr>)"
    using v(1) assms(4) by (simp add: statements_get_def abind_def alift_def athen_def amodify_def aret_def)
  let ?c = "c\<lparr>cs_db := d', cs_temp := Some v\<rparr>"
  have "vs_shows A M d' w (split_sql M (trim k))" if "(k, w) \<in> set (recency (cs_cached c))" for k w
    by (rule entry_frame [OF assms(1) that d'(4)]) (use that in force)
  moreover have "owns A d' (?cached @ [v])" using d'(3) v(2) by (simp add: owns_def handles_of_def)
  ultimately have "conn_ok ?c" using assms(1) v(4)
    by (intro connection_okI) (auto simp: temp_list_def connection_ok_def [of A M recency ok c])
  with g d'(2) v show ?thesis by (auto simp: stmt_at_def)
qed

lemma get_cached_again:
  assumes "conn_ok c" and "cache_is_enabled (se_C E) (cs_cached c)" and "stmt_at c True q = Some vs"
  shows "\<exists>c'. statements_get E q True c = Some (Ok True, c') \<and> conn_ok c' \<and> contents A (cs_db c') = contents A (cs_db c) \<and>
    stmt_at c' True q = Some (vs\<lparr>vs_index := None\<rparr>) \<and> vs_shows A M (cs_db c') vs (split_sql M (trim q)) \<and>
    touches A (cs_db c) (vs_handles vs) (cs_db c') (vs_handles vs)"
proof -
  have c: "ok (cs_cached c)" using assms(1) by (simp add: connection_ok_def)
  have m: "map_of (recency (cs_cached c)) q = Some vs" using assms(3) by (simp add: stmt_at_def)
  then have "(q, vs) \<in> set (recency (cs_cached c))" by (rule map_of_SomeD)
  then have vs: "vs_shows A M (cs_db c) vs (split_sql M (trim q))" using assms(1) by (auto simp: connection_ok_def)
  from virtual_reset_ok [OF vs] obtain d' where
    r: "virtual_reset (se_L E) (vs, cs_db c) = Some (Ok (), vs\<lparr>vs_index := None\<rparr>, d')" "contents A d' = contents A (cs_db c)"
      "vs_shows A M d' vs (split_sql M (trim q))" "touches A (cs_db c) (vs_handles vs) d' (vs_handles vs)" by blast
  from with_statement_ok [OF assms(1,3), of "virtual_reset (se_L E)"] r(1,3,4) obtain c' where
    w: "with_statement E True q (virtual_reset (se_L E)) c = Some (Ok (), c')" "conn_ok c'" "cs_db c' = d'"
      "stmt_at c' True q = Some (vs\<lparr>vs_index := None\<rparr>)" by auto
  have "cache_contains_key (se_C E) (cs_cached c) q" using contains_law [OF c] m by (auto simp: cache_contains_key_def intro: rev_image_eqI map_of_SomeD)
  with w(1) assms(2) have "statements_get E q True c = Some (Ok True, c')"
    by (simp add: statements_get_def abind_def aret_def)
  with w r show ?thesis by auto
qed

lemma get_cached_new:
  assumes "conn_ok c" and "0 \<notin> set q" and "length (trim q) \<le> 2147483647" and "cache_is_enabled (se_C E) (cs_cached c)"
    and "stmt_at c True q = None"
  shows "\<exists>c' vs. statements_get E q True c = Some (Ok True, c') \<and> conn_ok c' \<and> contents A (cs_db c') = contents A (cs_db c) \<and>
    stmt_at c' True q = Some vs \<and> vs_shows A M (cs_db c') vs (split_sql M (trim q)) \<and> vs_index vs = None \<and> columns_of vs = [] \<and>
    lru_cap (se_C E) (cs_cached c') = lru_cap (se_C E) (cs_cached c)"
proof -
  have c: "ok (cs_cached c)" using assms(1) by (simp add: connection_ok_def)
  have m: "map_of (recency (cs_cached c)) q = None" using assms(5) by (simp add: stmt_at_def)
  have nk: "\<not> cache_contains_key (se_C E) (cs_cached c) q"
    using contains_law [OF c, of q] m by (simp add: cache_contains_key_def map_of_eq_None_iff)
  from virtual_new_ok [OF assms(2,3), of True] obtain v where
    v: "virtual_new q True = Ok v" "vs_handles v = []" "vs_index v = None" "\<And>d. vs_shows A M d v (split_sql M (trim q))" "columns_of v = []" by blast
  from cache_insert_refines [OF c, of q v] obtain k where
    k: "cache_insert (se_C E) (cs_cached c) q v = (fst (spec_insert (lru_cap (se_C E) (cs_cached c)) q v (recency (cs_cached c))), k)"
      "ok k" "lru_cap (se_C E) k = lru_cap (se_C E) (cs_cached c)"
      "recency k = snd (spec_insert (lru_cap (se_C E) (cs_cached c)) q v (recency (cs_cached c)))" by blast
  let ?ev = "fst (spec_insert (lru_cap (se_C E) (cs_cached c)) q v (recency (cs_cached c)))"
  let ?gone = "case ?ev of None \<Rightarrow> [] | Some w \<Rightarrow> [w]"
  have h: "mset (map snd (recency k)) + mset ?gone = add_mset v (mset (map snd (recency (cs_cached c))))"
    using spec_insert_conserves [OF ok_recency [OF c], of q v] unfolding k(4) .
  have "mset (?gone @ map snd (recency k) @ temp_list c) = (mset (map snd (recency k)) + mset ?gone) + mset (temp_list c)"
    by (simp only: mset_append ac_simps)
  also have "\<dots> = mset (v # map snd (recency (cs_cached c)) @ temp_list c)" unfolding h by simp
  finally have "mset (?gone @ map snd (recency k) @ temp_list c) = mset (v # map snd (recency (cs_cached c)) @ temp_list c)" .
  moreover have "owns A (cs_db c) (v # map snd (recency (cs_cached c)) @ temp_list c)"
    using assms(1) v(2) by (simp add: connection_ok_def owns_def handles_of_def)
  ultimately have "owns A (cs_db c) (?gone @ map snd (recency k) @ temp_list c)"
    by (rule owns_mset [THEN iffD2])
  from owns_drop [OF this] obtain d' where
    d': "drop_handles (se_L E) (handles_of ?gone) (cs_db c) = Some (Ok (), d')" "contents A d' = contents A (cs_db c)"
      "owns A d' (map snd (recency k) @ temp_list c)"
      "\<forall>v \<in> set (map snd (recency k) @ temp_list c). \<forall>s \<in> set (vs_handles v). view A d' s = view A (cs_db c) s" by blast
  let ?c = "c\<lparr>cs_cached := k, cs_db := d'\<rparr>"
  have tl: "temp_list ?c = temp_list c" by (simp add: temp_list_def)
  have dv: "drop_virtual E ?ev (c\<lparr>cs_cached := k\<rparr>) = Some (Ok (), ?c)"
    using d'(1) by (cases ?ev) (simp_all add: drop_virtual_def on_handle_def handles_of_def)
  have "vs_shows A M d' w (split_sql M (trim x))" if "(x, w) \<in> set (recency k)" for x w
  proof -
    have w: "w \<in> set (map snd (recency k) @ temp_list c)" using that by force
    from that k(4) spec_insert_entries [of "lru_cap (se_C E) (cs_cached c)" q v "recency (cs_cached c)"]
    have "(x, w) = (q, v) \<or> (x, w) \<in> set (recency (cs_cached c))" by (metis insertE subsetD)
    then show ?thesis using v(4) entry_frame [OF assms(1) _ d'(4) w] by blast
  qed
  moreover have "\<exists>ts. vs_shows A M d' w ts" if "w \<in> set (temp_list c)" for w
    by (rule temp_frame [OF assms(1) that d'(4)]) (use that in simp)
  ultimately have c1: "conn_ok ?c" using d'(3) k(2) tl by (intro connection_okI) auto
  have at: "stmt_at ?c True q = Some v" using inserted_is_found [OF ok_recency [OF c], of q v] k(4) by (simp add: stmt_at_def)
  from with_statement_ok [OF c1 at, of "aret ()" "Ok ()" v d'] v(4) obtain c2 where
    c2: "with_statement E True q (aret ()) ?c = Some (Ok (), c2)" "conn_ok c2" "cs_db c2 = d'" "stmt_at c2 True q = Some v"
    by (auto simp: aret_def touches_refl)
  have "statements_get E q True c = Some (Ok True, c2)"
    using assms(4) nk v(1) k(1) dv c2(1) by (simp add: statements_get_def abind_def alift_def amodify_def aret_def)
  moreover have "lru_cap (se_C E) (cs_cached c2) = lru_cap (se_C E) (cs_cached c)"
  proof -
    from get_mut_law [OF k(2), of q "\<lambda>_. v"] obtain k2 where
      "lru_get_mut (se_C E) k q (\<lambda>_. v) = (map_of (recency k) q, k2)" "lru_cap (se_C E) k2 = lru_cap (se_C E) k" by blast
    moreover have "map_of (recency k) q = Some v" using at by (simp add: stmt_at_def)
    moreover have "fst (lru_get_mut (se_C E) k q id) = Some v" using get_mut_law [OF k(2), of q id] at by (force simp: stmt_at_def)
    ultimately show ?thesis using c2(1) k(3) by (auto simp: with_statement_def cache_get_mut_def aret_def)
  qed
  ultimately show ?thesis using c2 d'(2) v by auto
qed

text \<open>Statements of the text that are in the cache have the columns \<open>C\<close>, as far as they are compiled.\<close>

definition fresh :: "('db, 's, 'c) connection_state \<Rightarrow> bytes \<Rightarrow> bytes list list \<Rightarrow> bool" where
  "fresh c q C = (\<forall>vs. stmt_at c True q = Some vs \<longrightarrow> prefix (columns_of vs) C)"

lemma get_any:
  assumes "conn_ok c" and "0 \<notin> set q" and "length (trim q) \<le> 2147483647" and "p \<Longrightarrow> fresh c q C"
  shows "\<exists>cached c' vs. statements_get E q p c = Some (Ok cached, c') \<and> conn_ok c' \<and> contents A (cs_db c') = contents A (cs_db c) \<and>
    stmt_at c' cached q = Some vs \<and> vs_shows A M (cs_db c') vs (split_sql M (trim q)) \<and> vs_index vs = None \<and> prefix (columns_of vs) C \<and>
    (\<not> cached \<longrightarrow> cs_cached c' = cs_cached c)"
proof (cases "p \<and> cache_is_enabled (se_C E) (cs_cached c)")
  case False
  with get_temp [OF assms(1-3), of p] obtain c' vs where
    "statements_get E q p c = Some (Ok False, c')" "conn_ok c'" "contents A (cs_db c') = contents A (cs_db c)" "stmt_at c' False q = Some vs"
    "vs_shows A M (cs_db c') vs (split_sql M (trim q))" "vs_index vs = None" "columns_of vs = []" "cs_cached c' = cs_cached c" by blast
  then show ?thesis by (intro exI [of _ False] exI [of _ c'] exI [of _ vs]) simp
next
  case True
  show ?thesis
  proof (cases "stmt_at c True q")
    case None
    with get_cached_new [OF assms(1-3)] True obtain c' vs where
      "statements_get E q True c = Some (Ok True, c')" "conn_ok c'" "contents A (cs_db c') = contents A (cs_db c)" "stmt_at c' True q = Some vs"
      "vs_shows A M (cs_db c') vs (split_sql M (trim q))" "vs_index vs = None" "columns_of vs = []" by blast
    with True show ?thesis by (intro exI [of _ True] exI [of _ c'] exI [of _ vs]) simp
  next
    case (Some vs)
    with get_cached_again [OF assms(1) _ Some] True obtain c' where
      "statements_get E q True c = Some (Ok True, c')" "conn_ok c'" "contents A (cs_db c') = contents A (cs_db c)"
      "stmt_at c' True q = Some (vs\<lparr>vs_index := None\<rparr>)" "vs_shows A M (cs_db c') vs (split_sql M (trim q))" by blast
    moreover have "prefix (columns_of vs) C" using assms(4) True Some by (simp add: fresh_def)
    ultimately show ?thesis using True by (intro exI [of _ True] exI [of _ c'] exI [of _ "vs\<lparr>vs_index := None\<rparr>"]) simp
  qed
qed

section \<open>Commands\<close>

lemma prepare_all_ok:
  assumes "vs_shows A M d vs ts" and "i = (case vs_index vs of None \<Rightarrow> 0 | Some j \<Rightarrow> Suc j)" and "i \<le> length (vs_handles vs)"
    and "i \<le> length ts" and "\<forall>t \<in> set ts. sm_compiles M (contents A d) t"
  shows "\<exists>r vs' d'. prepare_all (se_L E) n cols (vs, d) = Some (Ok r, vs', d') \<and>
    fst r = n + sum_list (map (\<lambda>t. length (sm_params M t)) (drop i ts)) \<and> contents A d' = contents A d \<and>
    vs_shows A M d' vs' ts \<and> touches A d (vs_handles vs) d' (vs_handles vs') \<and>
    columns_of vs' = columns_of vs @ drop (length (vs_handles vs)) (map (sm_columns M (contents A d)) ts)"
  using assms
proof (induction "length ts - i" arbitrary: i n cols vs d)
  case 0
  then have i: "i = length ts" by simp
  with goto_end [OF "0.prems"(1)] "0.prems"(2,3) obtain vs1 d' where
    e: "prepare_next (se_L E) (vs, d) = Some (Ok None, vs1, d')" "vs_shows A M d' vs1 ts" "vs_handles vs1 = vs_handles vs"
      "contents A d' = contents A d" "view A d' = view A d" "columns_of vs1 = columns_of vs" by auto
  with i "0.prems"(3) show ?case by (auto simp: prepare_all.simps [of "se_L E" n] abind_def aret_def touches_def)
next
  case (Suc m)
  then have i: "i < length ts" and dr: "drop i ts = ts ! i # drop (Suc i) ts" by (auto simp: Cons_nth_drop_Suc)
  with Suc.prems(5) have "sm_compiles M (contents A d) (ts ! i)" by simp
  from goto_statement [OF Suc.prems(1-3) i this] obtain ps vs1 d1 where
    g: "prepare_next (se_L E) (vs, d) = Some (Ok (Some ps), vs1, d1)" "vs_shows A M d1 vs1 ts" "vs_index vs1 = Some i"
      "i < length (vs_handles vs1)" "ps_handle ps = vs_handles vs1 ! i" "contents A d1 = contents A d"
      "touches A d (vs_handles vs) d1 (vs_handles vs1)"
      "columns_of vs1 = columns_of vs @ (if i < length (vs_handles vs) then [] else [sm_columns M (contents A d) (ts ! i)])" by blast
  have len: "length (vs_handles vs1) = length (vs_handles vs) + (if i < length (vs_handles vs) then 0 else 1)"
    using length_columns_of [OF g(2)] length_columns_of [OF Suc.prems(1)] g(8) by (auto split: if_splits)
  from vs_shows_handle [OF g(2,4)] obtain w where w: "view A d1 (ps_handle ps) = Some w" "sw_sql w = ts ! i" using g(5) by auto
  let ?cols = "if ps_columns ps \<noteq> [] \<and> cols = None then Some (ps_columns ps, ps_column_names ps) else cols"
  have "\<exists>r vs' d'. prepare_all (se_L E) (n + length (sm_params M (ts ! i))) ?cols (vs1, d1) = Some (Ok r, vs', d') \<and>
    fst r = (n + length (sm_params M (ts ! i))) + sum_list (map (\<lambda>t. length (sm_params M t)) (drop (Suc i) ts)) \<and>
    contents A d' = contents A d1 \<and> vs_shows A M d' vs' ts \<and> touches A d1 (vs_handles vs1) d' (vs_handles vs') \<and>
    columns_of vs' = columns_of vs1 @ drop (length (vs_handles vs1)) (map (sm_columns M (contents A d1)) ts)"
    using Suc.hyps(2) Suc.prems(5) g i by (intro Suc.hyps(1)) simp_all
  then obtain r vs' d' where
    r: "prepare_all (se_L E) (n + length (sm_params M (ts ! i))) ?cols (vs1, d1) = Some (Ok r, vs', d')"
      "fst r = (n + length (sm_params M (ts ! i))) + sum_list (map (\<lambda>t. length (sm_params M t)) (drop (Suc i) ts))"
      "contents A d' = contents A d1" "vs_shows A M d' vs' ts" "touches A d1 (vs_handles vs1) d' (vs_handles vs')"
      "columns_of vs' = columns_of vs1 @ drop (length (vs_handles vs1)) (map (sm_columns M (contents A d1)) ts)" by blast
  have "columns_of vs' = columns_of vs @ drop (length (vs_handles vs)) (map (sm_columns M (contents A d)) ts)"
  proof (cases "i < length (vs_handles vs)")
    case False
    then have "i = length (vs_handles vs)" using Suc.prems(3) by simp
    then show ?thesis using i r(6) g(6,8) len Cons_nth_drop_Suc [of i "map (sm_columns M (contents A d)) ts"] by simp
  qed (use r(6) g(6,8) len in simp)
  moreover have "prepare_all (se_L E) n cols (vs, d) = Some (Ok r, vs', d')"
    using g(1) r(1) params_law [OF w(1)] w(2) by (subst prepare_all.simps) (simp add: abind_def)
  ultimately show ?case using r(2-4) g(6) dr touches_trans [OF g(7) r(5)] by auto
qed

lemma worker_prepare_ok:
  assumes "conn_ok c" and "0 \<notin> set q" and "length (trim q) \<le> 2147483647"
    and "\<forall>t \<in> set (split_sql M (trim q)). sm_compiles M (contents A (cs_db c)) t"
    and "fresh c q (map (sm_columns M (contents A (cs_db c))) (split_sql M (trim q)))"
  shows "\<exists>r c'. worker_prepare E q c = Some (Ok r, c') \<and> sq_sql r = q \<and>
    sq_parameters r = sum_list (map (\<lambda>t. length (sm_params M t)) (split_sql M (trim q))) \<and>
    conn_ok c' \<and> contents A (cs_db c') = contents A (cs_db c) \<and>
    fresh c' q (map (sm_columns M (contents A (cs_db c))) (split_sql M (trim q)))"
proof -
  let ?C = "map (sm_columns M (contents A (cs_db c))) (split_sql M (trim q))"
  from get_any [OF assms(1-3,5)] obtain cached c1 vs where
    g: "statements_get E q True c = Some (Ok cached, c1)" "conn_ok c1" "contents A (cs_db c1) = contents A (cs_db c)"
      "stmt_at c1 cached q = Some vs" "vs_shows A M (cs_db c1) vs (split_sql M (trim q))" "vs_index vs = None" "prefix (columns_of vs) ?C"
      "\<not> cached \<longrightarrow> cs_cached c1 = cs_cached c" by blast
  from prepare_all_ok [OF g(5), of 0 0 None] g(3,6) assms(4) obtain r vs' d' where
    r: "prepare_all (se_L E) 0 None (vs, cs_db c1) = Some (Ok r, vs', d')"
      "fst r = sum_list (map (\<lambda>t. length (sm_params M t)) (split_sql M (trim q)))" "contents A d' = contents A (cs_db c1)"
      "vs_shows A M d' vs' (split_sql M (trim q))" "touches A (cs_db c1) (vs_handles vs) d' (vs_handles vs')"
      "columns_of vs' = columns_of vs @ drop (length (vs_handles vs)) ?C" by auto
  from with_statement_ok [OF g(2,4), of "prepare_all (se_L E) 0 None"] r(1,4,5) obtain c2 where
    c2: "with_statement E cached q (prepare_all (se_L E) 0 None) c1 = Some (Ok r, c2)" "conn_ok c2" "cs_db c2 = d'"
      "stmt_at c2 cached q = Some vs'" "\<not> cached \<longrightarrow> cs_cached c2 = cs_cached c1" by blast
  have "columns_of vs' = ?C" using r(6) g(7) length_columns_of [OF g(5)] by (auto simp: prefix_def)
  then have "fresh c2 q ?C" using c2(4,5) g(8) assms(5) by (cases cached) (simp_all add: fresh_def stmt_at_def)
  with c2(1-3) g(1,3) r(2,3) show ?thesis by (cases r) (auto simp: worker_prepare_def abind_def aret_def)
qed

lemma shown_not_err: "list_all2 item_shows items xs \<Longrightarrow> list_all (\<lambda>x. \<not> item_is_err x) xs"
proof (induction rule: list_all2_induct)
  case (Cons a xs x ys)
  then show ?case by (cases a) (auto simp: item_is_err_def)
qed simp

lemma run_iter_ok:
  assumes "vs_shows A M d vs ts" and "vs_index vs = None"
    and "run_script M (argument_list args) 0 (contents A d) ts = Some (items, b)"
    and "prefix (columns_of vs) (script_columns M (argument_list args) 0 (contents A d) ts)"
  shows "\<exists>xs vs' d'. run_iter E item_is_err lag args (vs, d) = Some (Ok (xs, False), vs', d') \<and> list_all2 item_shows items xs \<and>
    contents A d' = b \<and> vs_shows A M d' vs' ts \<and> touches A d (vs_handles vs) d' (vs_handles vs')"
proof -
  let ?st = "\<lparr>ei_args = args, ei_args_used = 0, ei_goto_next = True, ei_stmt = vs, ei_db = d\<rparr>"
  have "same_offset args 0 0" by (simp add: same_offset_def split: option.splits)
  with iterates_script [of d ?st ts 0 0 items b "se_K E"] assms obtain xs st' where
    x: "iterates (se_L E) (se_K E) ?st xs st'" "list_all2 item_shows items xs" "contents A (ei_db st') = b"
      "vs_shows A M (ei_db st') (ei_stmt st') ts" "touches A d (vs_handles vs) (ei_db st') (vs_handles (ei_stmt st'))"
    by auto
  from iterates_drive [OF x(1) shown_not_err [OF x(2)], of lag "[]"] have
    "drive (execute_next (se_L E) (se_K E)) item_is_err lag None [] ?st = Some (xs, False, st')" by simp
  moreover from virtual_reset_ok [OF x(4)] obtain d' where
    "virtual_reset (se_L E) (ei_stmt st', ei_db st') = Some (Ok (), (ei_stmt st')\<lparr>vs_index := None\<rparr>, d')"
    "contents A d' = contents A (ei_db st')" "vs_shows A M d' (ei_stmt st') ts"
    "touches A (ei_db st') (vs_handles (ei_stmt st')) d' (vs_handles (ei_stmt st'))" by blast
  ultimately show ?thesis using x(2,3) touches_trans [OF x(5)]
    by (intro exI [of _ xs] exI [of _ "(ei_stmt st')\<lparr>vs_index := None\<rparr>"] exI [of _ d']) (simp add: run_iter_def)
qed

lemma worker_execute_ok:
  assumes "conn_ok c" and "0 \<notin> set q" and "length (trim q) \<le> 2147483647"
    and "run_script M (argument_list args) 0 (contents A (cs_db c)) (split_sql M (trim q)) = Some (items, b)"
    and "p \<Longrightarrow> fresh c q (script_columns M (argument_list args) 0 (contents A (cs_db c)) (split_sql M (trim q)))"
  shows "\<exists>xs c'. worker_execute E item_is_err lag q args p c = Some (Ok (xs, False), c') \<and> list_all2 item_shows items xs \<and>
    conn_ok c' \<and> contents A (cs_db c') = b"
proof -
  let ?C = "script_columns M (argument_list args) 0 (contents A (cs_db c)) (split_sql M (trim q))"
  from get_any [OF assms(1-3,5)] obtain cached c1 vs where
    g: "statements_get E q p c = Some (Ok cached, c1)" "conn_ok c1" "contents A (cs_db c1) = contents A (cs_db c)"
      "stmt_at c1 cached q = Some vs" "vs_shows A M (cs_db c1) vs (split_sql M (trim q))" "vs_index vs = None" "prefix (columns_of vs) ?C" by blast
  from run_iter_ok [OF g(5,6), of args items b lag] assms(4) g(3,7) obtain xs vs' d' where
    r: "run_iter E item_is_err lag args (vs, cs_db c1) = Some (Ok (xs, False), vs', d')" "list_all2 item_shows items xs"
      "contents A d' = b" "vs_shows A M d' vs' (split_sql M (trim q))" "touches A (cs_db c1) (vs_handles vs) d' (vs_handles vs')" by auto
  from with_statement_ok [OF g(2,4), of "run_iter E item_is_err lag args"] r obtain c2 where
    "with_statement E cached q (run_iter E item_is_err lag args) c1 = Some (Ok (xs, False), c2)" "conn_ok c2" "cs_db c2 = d'" by blast
  with g(1) r(2,3) show ?thesis by (auto simp: worker_execute_def abind_def)
qed

section \<open>Queries\<close>

abbreviation data_of :: "('db, 's, 'c) sqlite_conn \<Rightarrow> 'b" where
  "data_of c \<equiv> contents A (cs_db (sn_state c))"

lemma fetch_all_ok:
  assumes "sn_running c" and "conn_ok (sn_state c)" and "0 \<notin> set sql" and "length (trim sql) \<le> 2147483647"
    and "run_script M (from_args (se_K E) params []) 0 (data_of c) (split_sql M (trim sql)) = Some (items, b)"
    and "params \<noteq> [] \<longrightarrow> compiled_alike M (from_args (se_K E) params []) (data_of c) (split_sql M (trim sql)) \<and>
      columns_kept M (data_of c) sql (recency (cs_cached (sn_state c)))"
  shows "\<exists>xs c'. fetch_all E lag sql params types c = Some (Ok xs, c') \<and> list_all2 item_shows items xs \<and>
    sn_running c' \<and> conn_ok (sn_state c') \<and> data_of c' = b"
proof (cases "params = []")
  case True
  then have "argument_list (None :: sqlite_arguments option) = from_args (se_K E) params []" by (simp add: argument_list_def or_default_def)
  with worker_execute_ok [OF assms(2-4), of None items b False lag] assms(5) obtain xs c' where
    "worker_execute E item_is_err lag sql None False (sn_state c) = Some (Ok (xs, False), c')" "list_all2 item_shows items xs"
    "conn_ok c'" "contents A (cs_db c') = b" by auto
  with True assms(1) show ?thesis
    by (auto simp: fetch_all_def fetch_many_def conn_execute_def sqlite_query_sql_def sqlite_take_arguments_def update_cached_statements_size_def)
next
  case False
  let ?args = "from_args (se_K E) params []" and ?ts = "split_sql M (trim sql)"
  have C: "\<forall>t \<in> set ?ts. sm_compiles M (data_of c) t" "map (sm_columns M (data_of c)) ?ts = script_columns M ?args 0 (data_of c) ?ts"
      "fresh (sn_state c) sql (map (sm_columns M (data_of c)) ?ts)"
    using assms(6) False unfolding compiled_alike_def columns_kept_def fresh_def stmt_at_def list_all_iff if_True by blast+
  from worker_prepare_ok [OF assms(2-4) C(1,3)] obtain r c1 where
    p: "worker_prepare E sql (sn_state c) = Some (Ok r, c1)" "conn_ok c1" "contents A (cs_db c1) = data_of c"
      "fresh c1 sql (script_columns M ?args 0 (data_of c) ?ts)" unfolding C(2) by blast
  let ?c1 = "update_cached_statements_size E (c\<lparr>sn_state := c1\<rparr>)"
  have pw: "sqlite_prepare_with E sql types c = Some (Ok (r\<lparr>sq_sql := sql\<rparr>), ?c1)"
    using p(1) assms(1) by (simp add: sqlite_prepare_with_def conn_prepare_def oneshot_cmd_def on_worker_def abind_def athen_def amodify_def aret_def)
  have c1: "sn_running ?c1" "sn_state ?c1 = c1" using assms(1) by (simp_all add: update_cached_statements_size_def)
  have "argument_list (Some ?args) = ?args" by (simp add: argument_list_def or_default_def)
  with worker_execute_ok [OF p(2) assms(3,4), of "Some ?args" items b True lag] assms(5) p(3,4) obtain xs c' where
    "worker_execute E item_is_err lag sql (Some ?args) True c1 = Some (Ok (xs, False), c')" "list_all2 item_shows items xs"
    "conn_ok c'" "contents A (cs_db c') = b" by auto
  then have "fetch_all E lag sql params types c = Some (Ok xs, update_cached_statements_size E (?c1\<lparr>sn_state := c'\<rparr>)) \<and>
      list_all2 item_shows items xs \<and> conn_ok c' \<and> contents A (cs_db c') = b"
    using False pw c1 by (simp add: fetch_all_def abind_def fetch_many_def conn_execute_def sqlite_query_sql_def sqlite_take_arguments_def Let_def)
  with c1 show ?thesis by (auto simp: update_cached_statements_size_def)
qed

end

section \<open>Results\<close>

fun script_rows :: "'v script_item list \<Rightarrow> (bytes list \<times> 'v list) list" where
  "script_rows [] = []"
| "script_rows (Inr r # is) = r # script_rows is"
| "script_rows (Inl _ # is) = script_rows is"

fun script_result :: "u64 \<times> u64 \<Rightarrow> 'v script_item list \<Rightarrow> u64 \<times> u64" where
  "script_result acc [] = acc"
| "script_result acc (Inr _ # is) = script_result acc is"
| "script_result acc (Inl (n, i) # is) = script_result (fst acc + n, i) is"

definition row_shows :: "bytes list \<times> 'v list \<Rightarrow> 'v sqlite_row \<Rightarrow> bool" where
  "row_shows r y = (map sv_handle (sr_values y) = snd r \<and> map sc_name (sr_columns y) = fst r)"

lemma collect_rows_shown:
  "list_all2 item_shows items xs \<Longrightarrow> \<exists>ys. collect_rows xs = Ok ys \<and> list_all2 row_shows (script_rows items) ys"
proof (induction rule: list_all2_induct)
  case (Cons a items x xs)
  then obtain ys where ys: "collect_rows xs = Ok ys" "list_all2 row_shows (script_rows items) ys" by blast
  show ?case
  proof (cases a)
    case (Inl p)
    with Cons.hyps ys show ?thesis by (cases p) auto
  next
    case (Inr r)
    with Cons.hyps ys show ?thesis by (cases r) (auto simp: row_shows_def [abs_def])
  qed
qed simp

lemma collect_results_shown:
  assumes "list_all2 item_shows items xs"
  shows "collect_results acc xs = Ok (case script_result (qr_changes acc, qr_last_insert_rowid acc) items of
    (n, i) \<Rightarrow> acc\<lparr>qr_changes := n, qr_last_insert_rowid := i\<rparr>)"
  using assms
proof (induction arbitrary: acc rule: list_all2_induct)
  case (Cons a items x xs)
  then show ?case by (cases a) auto
qed simp

context sqlite_engine
begin

lemma script_row_widths:
  "run_script M vs off b ts = Some (items, b') \<Longrightarrow> r \<in> set (script_rows items) \<Longrightarrow> length (snd r) = length (fst r)"
proof (induction ts arbitrary: off b items)
  case (Cons t ts)
  then obtain rows b1 its where
    r: "sm_run M b t (positional vs off (length (sm_params M t))) = Some (rows, b1)"
      "run_script M vs (off + length (sm_params M t)) b1 ts = Some (its, b')"
      "items = map (\<lambda>r. Inr (sm_columns M b t, r)) rows @ Inl (scast (sm_changes M b1), sm_rowid M b1) # its"
    by (auto split: if_splits bind_splits)
  have "script_rows items = map (Pair (sm_columns M b t)) rows @ script_rows its"
    unfolding r(3) by (induction rows) simp_all
  with Cons.prems(2) Cons.IH [OF r(2)] row_width [OF r(1)] show ?case by auto
qed simp

end

text \<open>When every statement modifies rows, what the statements report adds up to the rows they modified.\<close>

lemma scast_count: "n < 2147483648 \<Longrightarrow> (scast (of_nat n :: u32) :: u64) = of_nat n"
  by (simp add: scast_eq sint_uint unsigned_of_nat take_bit_nat_eq_self signed_take_bit_int_eq_self nat_less_iff)

context sqlite_engine
begin

lemma script_result_modified:
  assumes "run_script M vs off b ts = Some (items, b')"
    and "\<forall>(b', t, m) \<in> set (script_trace M vs off b ts). sm_modifies M t \<and> sm_modified M b' t m < 2147483648"
  shows "script_result acc items =
    (fst acc + of_nat (sum_list (map (\<lambda>(b', t, m). sm_modified M b' t m) (script_trace M vs off b ts))), if ts = [] then snd acc else sm_rowid M b')"
  using assms
proof (induction ts arbitrary: off b items acc)
  case (Cons t ts)
  let ?m = "positional vs off (length (sm_params M t))" and ?off = "off + length (sm_params M t)"
  from Cons.prems(1) obtain rows b1 its where
    r: "sm_run M b t ?m = Some (rows, b1)" "run_script M vs ?off b1 ts = Some (its, b')"
      "items = map (\<lambda>r. Inr (sm_columns M b t, r)) rows @ Inl (scast (sm_changes M b1), sm_rowid M b1) # its"
    by (auto split: if_splits bind_splits)
  have skip: "script_result acc (map (\<lambda>r. Inr (sm_columns M b t, r)) rows @ xs) = script_result acc xs" for xs by (induction rows) simp_all
  have tr: "script_trace M vs off b (t # ts) = (b, t, ?m) # script_trace M vs ?off b1 ts" using r(1) by simp
  have "sm_modifies M t" "sm_modified M b t ?m < 2147483648" using Cons.prems(2) by (simp_all add: tr)
  with modified_law [OF _ r(1)] have c: "scast (sm_changes M b1) = (of_nat (sm_modified M b t ?m) :: u64)" by (simp add: scast_count)
  from Cons.prems(2) have "\<forall>(b', t, m) \<in> set (script_trace M vs ?off b1 ts). sm_modifies M t \<and> sm_modified M b' t m < 2147483648"
    unfolding tr by simp
  from Cons.IH [OF r(2) this] r(2) show ?case unfolding r(3) skip tr script_result.simps c by (cases ts) simp_all
qed simp

end

text \<open>The row a query returns has the cells and names of the row it shows.\<close>

lemma shown_row_cells:
  assumes "sqlite_values L content" and "row_shows r y" and "length (snd r) = length (fst r)"
  shows "md_column_len (sqlite_row_trait L K) (r_meta_data (sqlite_row_trait L K) y) = length (fst r)"
    and "i < length (fst r) \<Longrightarrow> sqlite_cell L K y i = content_value K (content (snd r ! i))"
    and "i < length (fst r) \<Longrightarrow> md_column_name (sqlite_row_trait L K) (r_meta_data (sqlite_row_trait L K) y) i = fst r ! i"
proof -
  from assms(2) have r: "snd r = map sv_handle (sr_values y)" "fst r = map sc_name (sr_columns y)" by (simp_all add: row_shows_def)
  then show "md_column_len (sqlite_row_trait L K) (r_meta_data (sqlite_row_trait L K) y) = length (fst r)"
    by (simp add: sqlite_row_trait_def)
  show "i < length (fst r) \<Longrightarrow> sqlite_cell L K y i = content_value K (content (snd r ! i))"
    using assms(3) r by (simp add: sqlite_cell_def sqlite_values.decode_content [OF assms(1)])
  show "i < length (fst r) \<Longrightarrow> md_column_name (sqlite_row_trait L K) (r_meta_data (sqlite_row_trait L K) y) i = fst r ! i"
    using r by (simp add: sqlite_row_trait_def sqlite_column_name_at_def)
qed

section \<open>A connection to the small engine\<close>

definition toy_kit :: "unit sqlite_kit" where
  "toy_kit = \<lparr>
     into_string = (\<lambda>v. case v of V_String s \<Rightarrow> Some s | _ \<Rightarrow> None), value_as_str = (\<lambda>v. case v of V_String s \<Rightarrow> Some s | _ \<Rightarrow> None),
     as_u64 = (\<lambda>v. case v of V_U64 n \<Rightarrow> Some n | _ \<Rightarrow> None), as_i64 = (\<lambda>v. case v of V_I64 n \<Rightarrow> Some n | _ \<Rightarrow> None),
     into_bytes = (\<lambda>v. case v of V_Binary b \<Rightarrow> Some b | _ \<Rightarrow> None), value_to_string = (\<lambda>_. []),
     json_from_str = (\<lambda>_. Err (Message ''json'')), date_from_str = (\<lambda>_. Err (Message ''date'')), date_to_string = (\<lambda>_. []),
     time_from_str = (\<lambda>_. Err (Message ''time'')), datetime_from_str = (\<lambda>_. Ok ()), datetime_from_str_default = (\<lambda>_ _. Ok ()),
     datetime_from_parts = (\<lambda>_ _ _. ()), datetime_from_date_time = (\<lambda>_ _. ()), from_timestamp_millis = (\<lambda>_. ()),
     unix_timestamp_millis = (\<lambda>_. 0), datetime_to_string = (\<lambda>_. []), dt_date = (\<lambda>_. \<lparr>fd_day = 1, fd_mon = 1, fd_year = 1970\<rparr>),
     dt_time = (\<lambda>_. \<lparr>ft_nano = 0, ft_sec = 0, ft_minute = 0, ft_hour = 0\<rparr>), decimal_from_str = Ok, f32_of_f64 = ucast,
     f32_parse = (\<lambda>_. None), f64_parse = (\<lambda>_. None), f64_of_f32 = ucast, atoi_usize = parse_digits 0\<rparr>"

definition toy_env :: "(toy_db, nat, sqlite_content, nat virtual_statement lru_list, unit) sqlite_env" where
  "toy_env = \<lparr>se_L = toy_lib, se_C = list_lru, se_owned = map snd \<circ> lru_entries, se_K = toy_kit\<rparr>"

definition toy_conn :: "(toy_db, nat, nat virtual_statement lru_list) sqlite_conn" where
  "toy_conn = \<lparr>sn_running = True, sn_state = \<lparr>cs_db = \<lparr>toy_data = \<lparr>toy_rows = [], toy_changes = 0, toy_column = lit ''x''\<rparr>, toy_stmts = []\<rparr>,
     cs_cached = \<lparr>lru_limit = 2, lru_entries = []\<rparr>, cs_temp = None\<rparr>, sn_cached_size = 0, sn_row_channel_size = 50\<rparr>"

lemma toy_client_laws: "sqlite_client toy_env toy_abs toy_meaning lru_entries lru_list_ok"
  by (intro sqlite_client.intro) (simp_all add: toy_env_def toy.sqlite_engine_axioms lists.lru_laws_axioms)

interpretation toy_client: sqlite_client toy_env toy_abs toy_meaning lru_entries lru_list_ok
  by (rule toy_client_laws)

lemma toy_conn_ok: "connection_ok toy_abs toy_meaning lru_entries lru_list_ok (sn_state toy_conn)"
  by (simp add: toy_conn_def connection_ok_def temp_list_def owns_def handles_of_def toy_abs_def lru_list_ok_def recency_ok_def)

lemma toy_trim: "trim (lit ''I?;Q;'') = lit ''I?;Q;''"
  by code_simp

lemma toy_script:
  shows "split_sql toy_meaning (trim (lit ''I?;Q;'')) = [lit ''I?;'', lit ''Q;'']"
    and "length (trim (lit ''I?;Q;'')) \<le> 2147483647"
    and "run_script toy_meaning (from_args (se_K toy_env) [V_I64 7] []) 0 (contents toy_abs (cs_db (sn_state toy_conn))) [lit ''I?;'', lit ''Q;''] =
     Some ([Inl (1, 1), Inr ([lit ''x''], [C_Integer 7]), Inl (1, 1)], \<lparr>toy_rows = [C_Integer 7], toy_changes = 1, toy_column = lit ''x''\<rparr>)"
proof -
  show "split_sql toy_meaning (trim (lit ''I?;Q;'')) = [lit ''I?;'', lit ''Q;'']"
    unfolding toy_trim by (simp add: split_sql.simps toy_meaning_def)
  show "length (trim (lit ''I?;Q;'')) \<le> 2147483647" unfolding toy_trim by simp
  show "run_script toy_meaning (from_args (se_K toy_env) [V_I64 7] []) 0 (contents toy_abs (cs_db (sn_state toy_conn))) [lit ''I?;'', lit ''Q;''] =
     Some ([Inl (1, 1), Inr ([lit ''x''], [C_Integer 7]), Inl (1, 1)], \<lparr>toy_rows = [C_Integer 7], toy_changes = 1, toy_column = lit ''x''\<rparr>)"
    by (simp add: toy_meaning_def toy_run_def toy_conn_def starts_with_def positional_def
        sqlite_arguments_add_def sqlite_encode_def encode_i64_def)
qed

lemma toy_inserts:
  shows "split_sql toy_meaning (trim (lit ''I?;I?;'')) = [lit ''I?;'', lit ''I?;'']"
    and "length (trim (lit ''I?;I?;'')) \<le> 2147483647"
    and "run_script toy_meaning (from_args (se_K toy_env) [V_I64 7, V_I64 8] []) 0 (contents toy_abs (cs_db (sn_state toy_conn)))
      (split_sql toy_meaning (trim (lit ''I?;I?;''))) =
     Some ([Inl (1, 1), Inl (1, 2)], \<lparr>toy_rows = [C_Integer 7, C_Integer 8], toy_changes = 1, toy_column = lit ''x''\<rparr>)"
proof -
  have t: "trim (lit ''I?;I?;'') = lit ''I?;I?;''" by code_simp
  show s: "split_sql toy_meaning (trim (lit ''I?;I?;'')) = [lit ''I?;'', lit ''I?;'']"
    unfolding t by (simp add: split_sql.simps toy_meaning_def)
  show "length (trim (lit ''I?;I?;'')) \<le> 2147483647" unfolding t by simp
  show "run_script toy_meaning (from_args (se_K toy_env) [V_I64 7, V_I64 8] []) 0 (contents toy_abs (cs_db (sn_state toy_conn)))
      (split_sql toy_meaning (trim (lit ''I?;I?;''))) =
     Some ([Inl (1, 1), Inl (1, 2)], \<lparr>toy_rows = [C_Integer 7, C_Integer 8], toy_changes = 1, toy_column = lit ''x''\<rparr>)"
    unfolding s by (simp add: toy_meaning_def toy_run_def toy_conn_def starts_with_def positional_def
        sqlite_arguments_add_def sqlite_encode_def encode_i64_def)
qed

lemma toy_trace:
  "script_trace toy_meaning vs 0 b [lit ''I?;'', lit ''I?;''] =
    [(b, lit ''I?;'', positional vs 0 1), (snd (the (toy_run b (lit ''I?;'') (positional vs 0 1))), lit ''I?;'', positional vs 1 1)]"
  by (simp add: toy_meaning_def toy_run_def)

section \<open>Properties\<close>

text \<open>The entries a row has in the map a query returns for it.\<close>

definition row_map :: "'dt sqlite_kit \<Rightarrow> ('v \<Rightarrow> sqlite_content) \<Rightarrow> bytes list \<times> 'v list \<Rightarrow> dyn_value \<rightharpoonup> dyn_value" where
  "row_map K content r = row_entry (\<lambda>i. fst r ! i) (\<lambda>i. content_value K (content (snd r ! i))) [0..<length (fst r)]"

text \<open>C4: A query through \<open>get_values\<close> on a SQLite connection whose earlier queries succeeded, for a text whose statements all run, with
  unnamed parameters and rows that decode, returns one map per row that running the statements one after the other
  yields, holding under every column name the decoded value of that column; parameters are numbered through over all
  statements.  A query without parameters compiles each statement when its turn comes.  A query with parameters
  prepares all statements first and keeps them in the cache: there it is assumed that they compile at the start with the columns they
  have when their turn comes, and that statements found in the cache still have the columns they were compiled with, that is, that
  no change of the schema has given them others.  The database is then in the state after the last statement and the
  connection ready for the next query.\<close>

theorem sqlite_get_values_runs_the_script:
  assumes "sqlite_client E A M recency ok" and "sqlite_values (se_L E) content"
    and "sn_running c" and "connection_ok A M recency ok (sn_state c)" and "0 \<notin> set sql" and "length (trim sql) \<le> 2147483647"
    and "run_script M (from_args (se_K E) params []) 0 (contents A (cs_db (sn_state c))) (split_sql M (trim sql)) = Some (items, b)"
    and "params \<noteq> [] \<longrightarrow> compiled_alike M (from_args (se_K E) params []) (contents A (cs_db (sn_state c))) (split_sql M (trim sql)) \<and>
      columns_kept M (contents A (cs_db (sn_state c))) sql (recency (cs_cached (sn_state c)))"
    and "\<forall>r \<in> set (script_rows items). \<forall>v \<in> set (snd r). \<exists>x. content_value (se_K E) (content v) = Ok x"
  shows "\<exists>ms c'. get_values (sqlite_row_trait (se_L E) (se_K E)) list_insert (sqlite_connection E lag) sql params c =
      Some (Ok (V_Array (map V_Map ms)), c') \<and>
    list_all2 (\<lambda>r m. map_of m = row_map (se_K E) content r) (script_rows items) ms \<and>
    sn_running c' \<and> connection_ok A M recency ok (sn_state c') \<and> contents A (cs_db (sn_state c')) = b"
proof -
  let ?R = "sqlite_row_trait (se_L E) (se_K E)"
  from sqlite_client.fetch_all_ok [OF assms(1,3-8), of lag "[]"] obtain xs c' where
    x: "fetch_all E lag sql params [] c = Some (Ok xs, c')" "list_all2 item_shows items xs" "sn_running c'"
      "connection_ok A M recency ok (sn_state c')" "contents A (cs_db (sn_state c')) = b" by blast
  from collect_rows_shown [OF x(2)] obtain ys where ys: "collect_rows xs = Ok ys" "list_all2 row_shows (script_rows items) ys" by blast
  have w: "length (snd r) = length (fst r)" if "r \<in> set (script_rows items)" for r
    by (rule sqlite_engine.script_row_widths [OF _ assms(7) that]) (rule sqlite_client.axioms(1) [OF assms(1)])
  have cells: "\<exists>r \<in> set (script_rows items). row_shows r y" if "y \<in> set ys" for y
    using ys(2) that by (induction rule: list_all2_induct) auto
  have good: "\<forall>y \<in> set ys. True \<and> (\<forall>j < md_column_len ?R (r_meta_data ?R y). \<exists>v. sqlite_cell (se_L E) (se_K E) y j = Ok v)"
  proof (intro ballI conjI allI impI TrueI)
    fix y j
    assume "y \<in> set ys" and j: "j < md_column_len ?R (r_meta_data ?R y)"
    with cells obtain r where r: "r \<in> set (script_rows items)" "row_shows r y" by blast
    note sc = shown_row_cells [OF assms(2) r(2) w [OF r(1)], where K = "se_K E"]
    from j sc(1) have "j < length (fst r)" by simp
    moreover from this w [OF r(1)] have "snd r ! j \<in> set (snd r)" by simp
    ultimately show "\<exists>v. sqlite_cell (se_L E) (se_K E) y j = Ok v" using sc(2) assms(9) r(1) by auto
  qed
  have got: "c_get_rows (sqlite_connection E lag) sql params c = Some (Ok ys, c')"
    using x(1) ys(1) by (simp add: sqlite_connection_def sqlite_get_rows_def abind_def alift_def)
  from sqlite_maps.get_values_entries [OF got good] obtain ms where
    ms: "get_values ?R list_insert (sqlite_connection E lag) sql params c = Some (Ok (V_Array (map V_Map ms)), c')"
      "list_all2 (\<lambda>y m. map_of m = row_entry (md_column_name ?R (r_meta_data ?R y)) (sqlite_cell (se_L E) (se_K E) y)
        [0..<md_column_len ?R (r_meta_data ?R y)]) ys ms" by blast
  have "list_all2 (\<lambda>r m. map_of m = row_map (se_K E) content r) (script_rows items) ms"
  proof (rule list_all2_all_nthI)
    show "length (script_rows items) = length ms" using list_all2_lengthD [OF ys(2)] list_all2_lengthD [OF ms(2)] by simp
    fix i
    assume i: "i < length (script_rows items)"
    with list_all2_lengthD [OF ys(2)] have iy: "i < length ys" by simp
    note sc = shown_row_cells [OF assms(2) list_all2_nthD [OF ys(2) i] w [OF nth_mem [OF i]], where K = "se_K E"]
    show "map_of (ms ! i) = row_map (se_K E) content (script_rows items ! i)"
      unfolding row_map_def list_all2_nthD [OF ms(2) iy] sc(1) by (rule row_entry_cong2) (simp add: sc(2,3))
  qed
  with ms(1) x show ?thesis by blast
qed

theorem sqlite_get_values_runs_the_script_witness:
  "\<exists>m c'. get_values (sqlite_row_trait (se_L toy_env) (se_K toy_env)) list_insert (sqlite_connection toy_env 0) (lit ''I?;Q;'') [V_I64 7] toy_conn =
      Some (Ok (V_Array [V_Map m]), c') \<and> map_of m (V_String (lit ''x'')) = Some (V_I64 7)"
proof -
  have "\<exists>ms c'. get_values (sqlite_row_trait (se_L toy_env) (se_K toy_env)) list_insert (sqlite_connection toy_env 0) (lit ''I?;Q;'') [V_I64 7] toy_conn =
      Some (Ok (V_Array (map V_Map ms)), c') \<and>
    list_all2 (\<lambda>r m. map_of m = row_map (se_K toy_env) (\<lambda>v. v) r) (script_rows [Inl (1, 1), Inr ([lit ''x''], [C_Integer 7]), Inl (1, 1)]) ms \<and>
    sn_running c' \<and> connection_ok toy_abs toy_meaning lru_entries lru_list_ok (sn_state c') \<and>
    contents toy_abs (cs_db (sn_state c')) = \<lparr>toy_rows = [C_Integer 7], toy_changes = 1, toy_column = lit ''x''\<rparr>"
  proof (rule sqlite_get_values_runs_the_script [OF toy_client_laws _ _ toy_conn_ok])
    show "sqlite_values (se_L toy_env) (\<lambda>v. v)" using toy_values.sqlite_values_axioms by (simp add: toy_env_def)
    show "sn_running toy_conn" by (simp add: toy_conn_def)
    show "run_script toy_meaning (from_args (se_K toy_env) [V_I64 7] []) 0 (contents toy_abs (cs_db (sn_state toy_conn)))
        (split_sql toy_meaning (trim (lit ''I?;Q;''))) =
      Some ([Inl (1, 1), Inr ([lit ''x''], [C_Integer 7]), Inl (1, 1)], \<lparr>toy_rows = [C_Integer 7], toy_changes = 1, toy_column = lit ''x''\<rparr>)"
      unfolding toy_script(1) by (rule toy_script(3))
    show "[V_I64 7] \<noteq> [] \<longrightarrow> compiled_alike toy_meaning (from_args (se_K toy_env) [V_I64 7] []) (contents toy_abs (cs_db (sn_state toy_conn)))
        (split_sql toy_meaning (trim (lit ''I?;Q;''))) \<and>
      columns_kept toy_meaning (contents toy_abs (cs_db (sn_state toy_conn))) (lit ''I?;Q;'') (lru_entries (cs_cached (sn_state toy_conn)))"
      unfolding toy_script(1) compiled_alike_def columns_kept_def script_columns_def
      by (simp add: toy_meaning_def toy_run_def toy_conn_def starts_with_def)
  qed (use toy_script(2) in simp_all)
  then show ?thesis by (auto simp: list_all2_Cons1 row_map_def row_entry_def)
qed

text \<open>C20: \<open>exec\<close> on a SQLite connection whose earlier queries succeeded, for a text of statements that all insert, update or delete
  rows, each fewer than two to the 31 of them, runs them one after the other and reports the number of rows they modified altogether and the
  row id the last insertion left.  The conditions on parameters and cached statements are those of a query.\<close>

theorem sqlite_exec_runs_the_script:
  assumes "sqlite_client E A M recency ok"
    and "sn_running c" and "connection_ok A M recency ok (sn_state c)" and "0 \<notin> set sql" and "length (trim sql) \<le> 2147483647"
    and "run_script M (from_args (se_K E) params []) 0 (contents A (cs_db (sn_state c))) (split_sql M (trim sql)) = Some (items, b)"
    and "params \<noteq> [] \<longrightarrow> compiled_alike M (from_args (se_K E) params []) (contents A (cs_db (sn_state c))) (split_sql M (trim sql)) \<and>
      columns_kept M (contents A (cs_db (sn_state c))) sql (recency (cs_cached (sn_state c)))"
    and "split_sql M (trim sql) \<noteq> []"
    and "\<forall>(b', t, m) \<in> set (script_trace M (from_args (se_K E) params []) 0 (contents A (cs_db (sn_state c))) (split_sql M (trim sql))).
      sm_modifies M t \<and> sm_modified M b' t m < 2147483648"
  shows "\<exists>c'. sqlite_exec E lag sql params c =
      Some (Ok \<lparr>er_rows_affected = of_nat (sum_list (map (\<lambda>(b', t, m). sm_modified M b' t m)
          (script_trace M (from_args (se_K E) params []) 0 (contents A (cs_db (sn_state c))) (split_sql M (trim sql))))),
        er_last_insert_id = V_U64 (sm_rowid M b)\<rparr>, c') \<and>
    sn_running c' \<and> connection_ok A M recency ok (sn_state c') \<and> contents A (cs_db (sn_state c')) = b"
proof -
  from sqlite_client.fetch_all_ok [OF assms(1-7), of lag "map sqlite_type_info_of params"] obtain xs c' where
    x: "fetch_all E lag sql params (map sqlite_type_info_of params) c = Some (Ok xs, c')" "list_all2 item_shows items xs" "sn_running c'"
      "connection_ok A M recency ok (sn_state c')" "contents A (cs_db (sn_state c')) = b" by blast
  from x(1) collect_results_shown [OF x(2), of "\<lparr>qr_changes = 0, qr_last_insert_rowid = 0\<rparr>"] have
    "sqlite_exec E lag sql params c = Some (Ok \<lparr>er_rows_affected = fst (script_result (0, 0) items),
      er_last_insert_id = V_U64 (snd (script_result (0, 0) items))\<rparr>, c')"
    by (simp add: sqlite_exec_def abind_def alift_def aret_def split: prod.splits)
  with x(3-5) sqlite_engine.script_result_modified [OF sqlite_client.axioms(1) [OF assms(1)] assms(6,9), of "(0, 0)"] assms(8)
  show ?thesis by auto
qed

theorem sqlite_exec_runs_the_script_witness:
  "\<exists>c'. sqlite_exec toy_env 3 (lit ''I?;I?;'') [V_I64 7, V_I64 8] toy_conn =
    Some (Ok \<lparr>er_rows_affected = 2, er_last_insert_id = V_U64 2\<rparr>, c')"
proof -
  let ?args = "from_args (se_K toy_env) [V_I64 7, V_I64 8] []" and ?ts = "split_sql toy_meaning (trim (lit ''I?;I?;''))"
  let ?b = "contents toy_abs (cs_db (sn_state toy_conn))"
  have "\<exists>c'. sqlite_exec toy_env 3 (lit ''I?;I?;'') [V_I64 7, V_I64 8] toy_conn =
      Some (Ok \<lparr>er_rows_affected = of_nat (sum_list (map (\<lambda>(b', t, m). sm_modified toy_meaning b' t m) (script_trace toy_meaning ?args 0 ?b ?ts))),
        er_last_insert_id = V_U64 (sm_rowid toy_meaning \<lparr>toy_rows = [C_Integer 7, C_Integer 8], toy_changes = 1, toy_column = lit ''x''\<rparr>)\<rparr>, c') \<and>
    sn_running c' \<and> connection_ok toy_abs toy_meaning lru_entries lru_list_ok (sn_state c') \<and>
    contents toy_abs (cs_db (sn_state c')) = \<lparr>toy_rows = [C_Integer 7, C_Integer 8], toy_changes = 1, toy_column = lit ''x''\<rparr>"
  proof (rule sqlite_exec_runs_the_script [OF toy_client_laws _ toy_conn_ok _ _ toy_inserts(3)])
    show "[V_I64 7, V_I64 8] \<noteq> [] \<longrightarrow> compiled_alike toy_meaning ?args ?b ?ts \<and>
        columns_kept toy_meaning ?b (lit ''I?;I?;'') (lru_entries (cs_cached (sn_state toy_conn)))"
      unfolding toy_inserts(1) compiled_alike_def columns_kept_def script_columns_def toy_trace
      by (simp add: toy_meaning_def toy_conn_def starts_with_def)
    show "\<forall>(b', t, m) \<in> set (script_trace toy_meaning ?args 0 ?b ?ts). sm_modifies toy_meaning t \<and> sm_modified toy_meaning b' t m < 2147483648"
      unfolding toy_inserts(1) toy_trace by (simp add: toy_meaning_def starts_with_def)
    show "sn_running toy_conn" by (simp add: toy_conn_def)
    show "?ts \<noteq> []" unfolding toy_inserts(1) by simp
  qed (use toy_inserts(2) in simp_all)
  then show ?thesis unfolding toy_inserts(1) toy_trace by (auto simp: toy_meaning_def)
qed

text \<open>C22: However the worker thread and the caller interleave, with a channel of any capacity, the caller receives exactly the
  items that the worker's loop yields up to the one it stops at, in order, and the worker is then at most the capacity
  of the channel ahead; and the two never wait for each other in vain.\<close>

theorem sqlite_interleavings:
  assumes "(chan_step (execute_next L K) stop cap)\<^sup>*\<^sup>* (chan_init st) c"
  shows "(chan_done c \<longrightarrow> (\<exists>lag \<le> cap. drive (execute_next L K) stop lag None [] st = Some (ch_received c, ch_crashed c, ch_iter c))) \<and>
    (\<not> chan_done c \<and> execute_next L K (ch_iter c) \<noteq> None \<longrightarrow> (\<exists>c'. chan_step (execute_next L K) stop cap c c'))"
  using interleaving_is_drive [OF assms] chan_progress by blast

abbreviation toy_iter :: "(nat, toy_db) execute_iter" where
  "toy_iter \<equiv> \<lparr>ei_args = None, ei_args_used = 0, ei_goto_next = True,
     ei_stmt = \<lparr>vs_persistent = False, vs_index = None, vs_tail = [], vs_handles = [], vs_columns = [], vs_column_names = []\<rparr>,
     ei_db = \<lparr>toy_data = \<lparr>toy_rows = [], toy_changes = 0, toy_column = lit ''x''\<rparr>, toy_stmts = []\<rparr>\<rparr>"

theorem sqlite_interleavings_witness:
  "(\<exists>c. chan_step (execute_next toy_lib toy_kit) item_is_err 1 (chan_init toy_iter) c) \<and>
   (\<exists>c. (chan_step (execute_next toy_lib toy_kit) item_is_err 1)\<^sup>*\<^sup>* (chan_init toy_iter) c \<and> chan_done c \<and>
     (\<exists>lag \<le> 1. drive (execute_next toy_lib toy_kit) item_is_err lag None [] toy_iter = Some ([], False, ch_iter c)))"
proof -
  let ?step = "chan_step (execute_next toy_lib toy_kit) item_is_err 1"
  obtain st where e: "execute_next toy_lib toy_kit toy_iter = Some (Ok None, st)"
    by (simp add: execute_next_def or_item_def on_stmt_def prepare_next_def Let_def prepare_loop.simps or_default_def aret_def)
  define c where "c = (chan_init toy_iter :: ((nat, toy_db) execute_iter, sqlite_content step_item) chan_state)
    \<lparr>ch_iter := st, ch_running := False\<rparr>"
  have s: "?step (chan_init toy_iter) c"
    unfolding c_def by (rule chan_finish) (use e in \<open>simp_all add: chan_init_def del: lit_Cons\<close>)
  have d: "chan_done c" "ch_received c = []" "\<not> ch_crashed c" by (simp_all add: c_def chan_done_def chan_init_def)
  from sqlite_interleavings [OF r_into_rtranclp [of ?step, OF s]] d
  have "\<exists>lag \<le> 1. drive (execute_next toy_lib toy_kit) item_is_err lag None [] toy_iter = Some ([], False, ch_iter c)" by simp
  with s d(1) show ?thesis by blast
qed

text \<open>The signed 64-bit number an integer parameter denotes: unsigned 32-bit ones only up to the largest signed 32-bit number, unsigned
  64-bit ones up to the largest signed 64-bit number.\<close>

definition signed_value :: "dyn_value \<Rightarrow> int option" where
  "signed_value v =
     (case v of
        V_I32 i \<Rightarrow> Some (sint i)
      | V_I64 i \<Rightarrow> Some (sint i)
      | V_U32 i \<Rightarrow> if uint i < 2 ^ 31 then Some (uint i) else None
      | V_U64 i \<Rightarrow> if uint i < 2 ^ 63 then Some (uint i) else None
      | _ \<Rightarrow> None)"

lemma scast_small:
  fixes i :: u32
  assumes "uint i < 2147483648"
  shows "scast i = (ucast i :: u64)"
proof -
  have "- (2 ^ 31) \<le> uint i" by (rule order_trans [of _ 0]) simp_all
  with assms have "signed_take_bit 31 (uint i) = uint i" by (intro signed_take_bit_int_eq_self) simp_all
  then have "sint i = uint i" by (simp add: sint_uint)
  then have "word_of_int (sint i) = (word_of_int (uint i) :: u64)" by (rule arg_cong)
  then show ?thesis by simp
qed

lemma signed_value_back: "signed_value v = Some n \<Longrightarrow> sqlite_normal K v = Ok (V_I64 (word_of_int n))"
  by (cases v) (auto simp: signed_value_def sqlite_normal_def scast_small split: if_splits)

text \<open>C23: The parameters of a query become exactly one SQLite value each, in their order.  Read from columns that are not declared
  \<open>BOOLEAN\<close>, and where no column affinity converted them, integers (unsigned ones in the signed range of their width) come back as the
  64-bit integer of the same value, and nulls, byte strings, floating-point numbers that are not NaN, and texts that do not look like JSON
  come back unchanged.\<close>

theorem sqlite_values_roundtrip:
  assumes "sqlite_values L content"
    and "list_all2 (\<lambda>a x. content (sv_handle x) = argument_content a) (from_args K vs []) xs"
    and "\<forall>x \<in> set xs. sv_type_info x \<noteq> DT_Bool"
  shows "length xs = length vs \<and>
    (\<forall>i < length vs. \<forall>n. signed_value (vs ! i) = Some n \<longrightarrow> sqlite_decode L K (xs ! i) = Ok (V_I64 (word_of_int n))) \<and>
    (\<forall>i < length vs. vs ! i = V_Null \<or> (\<exists>b. vs ! i = V_Binary b) \<or>
       (\<exists>f. vs ! i = V_F64 f \<and> \<not> is_nan f) \<or> (\<exists>s. vs ! i = V_String s \<and> utf8_ok s \<and> \<not> is_json_string s) \<longrightarrow>
       sqlite_decode L K (xs ! i) = Ok (vs ! i))"
proof -
  from assms(2) have len: "length xs = length vs" by (auto simp: from_args_map dest: list_all2_lengthD)
  have d: "sqlite_decode L K (xs ! i) = sqlite_normal K (vs ! i)" if "i < length vs" for i
    using list_all2_nthD [OF assms(2), of i] that
    by (simp add: sqlite_values.decode_content [OF assms(1)] from_args_map argument_normal)
  show ?thesis
    by (intro conjI allI impI) (simp_all add: len d signed_value_back, auto simp: sqlite_normal_def decode_text_value_def)
qed

theorem sqlite_values_roundtrip_witness:
  "sqlite_decode toy_lib toy_kit \<lparr>sv_handle = C_Integer (- 7), sv_type_info = DT_Int\<rparr> = Ok (V_I64 (- 7)) \<and>
    sqlite_decode toy_lib toy_kit \<lparr>sv_handle = C_Text (lit ''abc''), sv_type_info = DT_Text\<rparr> = Ok (V_String (lit ''abc''))"
proof -
  let ?xs = "[\<lparr>sv_handle = C_Integer (- 7), sv_type_info = DT_Int\<rparr>, \<lparr>sv_handle = C_Text (lit ''abc''), sv_type_info = DT_Text\<rparr>]"
  have "list_all2 (\<lambda>a x. sv_handle x = argument_content a) (from_args toy_kit [V_I32 (- 7), V_String (lit ''abc'')] []) ?xs"
    by (simp add: sqlite_arguments_add_def sqlite_encode_def encode_i32_def encode_text_def)
  note r = sqlite_values_roundtrip [OF toy_values.sqlite_values_axioms this]
  have n: "signed_value (V_I32 (- 7)) = Some (- 7)" by (simp add: signed_value_def)
  have s: "\<exists>s. V_String (lit ''abc'') = V_String s \<and> utf8_ok s \<and> \<not> is_json_string s"
    by (simp add: is_json_string_def starts_with_def utf8_ok_ascii)
  from r have
    "\<forall>i < 2. \<forall>n. signed_value ([V_I32 (- 7), V_String (lit ''abc'')] ! i) = Some n \<longrightarrow> sqlite_decode toy_lib toy_kit (?xs ! i) = Ok (V_I64 (word_of_int n))"
    by simp
  then have "sqlite_decode toy_lib toy_kit (?xs ! 0) = Ok (V_I64 (word_of_int (- 7)))" using n by (metis nth_Cons_0 zero_less_numeral)
  moreover from r have "\<forall>i < 2. (\<exists>s. [V_I32 (- 7), V_String (lit ''abc'')] ! i = V_String s \<and> utf8_ok s \<and> \<not> is_json_string s) \<longrightarrow>
      sqlite_decode toy_lib toy_kit (?xs ! i) = Ok ([V_I32 (- 7), V_String (lit ''abc'')] ! i)" by simp
  then have "sqlite_decode toy_lib toy_kit (?xs ! 1) = Ok (V_String (lit ''abc''))"
    using s by (metis One_nat_def nth_Cons_0 nth_Cons_Suc one_less_numeral_iff semiring_norm(76))
  ultimately show ?thesis by simp
qed

section \<open>Where the driver does less than it means to\<close>

text \<open>A text whose rest begins with a NUL byte is never used up: the library compiles nothing and does not move the tail.\<close>

lemma prepare_stmt_hangs:
  assumes "\<And>d. sqlite3_prepare_v3 L d q p = ((0, None, 0), d)" and "q \<noteq> []"
  shows "prepare_stmt L p q d = None"
proof -
  let ?P = "\<lambda>L p q d y. (\<forall>d. sqlite3_prepare_v3 L d q p = ((0, None, 0), d)) \<longrightarrow> q = []"
  have "?P L p q d y" if "prepare_stmt L p q d = Some y" for y
  proof (rule prepare_stmt.raw_induct [where P = ?P, rotated, OF that], intro impI)
    fix f :: "('a, 'b, 'c) sqlite3 \<Rightarrow> bool \<Rightarrow> bytes \<Rightarrow> 'a \<Rightarrow> ('b option res \<times> bytes \<times> 'a) option" and L p q d y
    assume "\<And>L p q d y. f L p q d = Some y \<Longrightarrow> ?P L p q d y" and stuck: "\<forall>d. sqlite3_prepare_v3 L d q p = ((0, None, 0), d)"
      and "(if q = [] then Some (Ok None, q, d) else case sqlite3_prepare_v3 L d q p of ((c, h, n), d) \<Rightarrow>
        if c \<noteq> 0 then Some (Err (sqlite_error L d), q, d) else if n > length q then Some (Panic, q, d)
        else case h of Some s \<Rightarrow> Some (Ok (Some s), drop n q, d) | None \<Rightarrow> f L p (drop n q) d) = Some y"
    then show "q = []" by (cases "q = []") (simp_all add: stuck)
  qed
  with assms show ?thesis by (cases "prepare_stmt L p q d") auto
qed

text \<open>A parameter named \<open>$0\<close> makes the worker panic.\<close>

lemma dollar_zero_panics:
  assumes "sqlite3_bind_parameter_name L d s i = Some (lit ''$0'')" and "atoi_usize K (lit ''0'') = Some 0"
  shows "bind_loop L K vs s (i # is) arg_i d = Some (Panic, d)"
  using assms by (simp add: param_index_def starts_with_def)

text \<open>A parameter whose argument is missing ends the binding, also of later parameters whose arguments are there.\<close>

lemma missing_argument_ends_binding:
  assumes "sqlite3_bind_parameter_name L d s 1 = Some (lit ''$2'')" and "atoi_usize K (lit ''2'') = Some 2"
    and "sqlite3_bind_parameter_count L d s = 2"
  shows "arguments_bind L K [a] s 0 d = Some (Ok 0, d)"
  using assms by (simp add: arguments_bind_def abind_def aret_def param_index_def starts_with_def upt_conv_Cons)

text \<open>When the worker panics, the query ends as if it had no more rows.\<close>

lemma panic_looks_like_the_end:
  assumes "sn_running c" and "worker_execute E item_is_err lag sql None False (sn_state c) = Some (Ok (items, True), st)"
    and "collect_rows items = Ok ys"
  shows "sqlite_get_rows E lag sql [] c = Some (Ok ys, c\<lparr>sn_state := st, sn_running := False\<rparr>)"
  using assms by (simp add: sqlite_get_rows_def fetch_all_def fetch_many_def conn_execute_def sqlite_query_sql_def sqlite_take_arguments_def abind_def alift_def)

text \<open>After an error the worker steps the same statement again while the channel takes what it yields.\<close>

lemma steps_on_after_an_error:
  assumes "nxt st = Some (Ok (Some (Err e)), st1)" and "nxt st1 = Some (Ok (Some x), st2)" and "nxt st2 = Some (Ok None, st3)"
  shows "drive nxt item_is_err 1 None [] st = Some ([Err e], False, st3)"
  using assms by (simp add: drive.simps [of nxt _ _ _ _ st] drive.simps [of nxt _ _ _ _ st1] drive.simps [of nxt _ _ _ _ st2] item_is_err_def)

text \<open>\<open>close\<close> reports success while the database is still open: the state is untouched.\<close>

lemma close_leaves_the_database_open:
  "sn_running c \<Longrightarrow> conn_close c = Some (Ok (), c\<lparr>sn_running := False\<rparr>)"
  by (simp add: conn_close_def oneshot_cmd_def amodify_def)

text \<open>An unsigned 32-bit integer above the signed range is stored as a negative number.\<close>

lemma u32_wraps: "sqlite_normal K (V_U32 4294967295) = Ok (V_I64 (- 1))"
  by (simp add: sqlite_normal_def)

text \<open>The text \<open>null\<close> comes back as whatever the JSON parser makes of it.\<close>

lemma null_text_is_parsed:
  "json_from_str K (lit ''null'') = Ok V_Null \<Longrightarrow> sqlite_normal K (V_String (lit ''null'')) = Ok V_Null"
  by (simp add: sqlite_normal_def decode_text_value_def is_json_string_def utf8_ok_ascii)

end
