(* ===== verification/Sqlite_Options.thy ===== *)
theory Sqlite_Options
  imports Sqlite_Db
begin

text \<open>
  Connection options, opening a database and the driver of SQLite (\<open>rbdc-sqlite/src/options/\<close>, \<open>connection/establish.rs\<close>,
  \<open>driver.rs\<close>).  Paths are bytes, durations milliseconds; the \<open>percent-encoding\<close> and \<open>url\<close> crates are the argument \<open>U\<close>, the process-wide
  counters of in-memory databases and threads are arguments.
\<close>

section \<open>Settings\<close>

datatype sqlite_auto_vacuum = Vacuum_None | Vacuum_Full | Vacuum_Incremental
datatype sqlite_journal_mode = Journal_Delete | Journal_Truncate | Journal_Persist | Journal_Memory | Journal_Wal | Journal_Off
datatype sqlite_locking_mode = Locking_Normal | Locking_Exclusive
datatype sqlite_synchronous = Sync_Off | Sync_Normal | Sync_Full | Sync_Extra

definition auto_vacuum_as_str :: "sqlite_auto_vacuum \<Rightarrow> string" where
  "auto_vacuum_as_str v = (case v of Vacuum_None \<Rightarrow> ''NONE'' | Vacuum_Full \<Rightarrow> ''FULL'' | Vacuum_Incremental \<Rightarrow> ''INCREMENTAL'')"

definition journal_mode_as_str :: "sqlite_journal_mode \<Rightarrow> string" where
  "journal_mode_as_str v =
     (case v of Journal_Delete \<Rightarrow> ''DELETE'' | Journal_Truncate \<Rightarrow> ''TRUNCATE'' | Journal_Persist \<Rightarrow> ''PERSIST''
      | Journal_Memory \<Rightarrow> ''MEMORY'' | Journal_Wal \<Rightarrow> ''WAL'' | Journal_Off \<Rightarrow> ''OFF'')"

definition locking_mode_as_str :: "sqlite_locking_mode \<Rightarrow> string" where
  "locking_mode_as_str v = (case v of Locking_Normal \<Rightarrow> ''NORMAL'' | Locking_Exclusive \<Rightarrow> ''EXCLUSIVE'')"

definition synchronous_as_str :: "sqlite_synchronous \<Rightarrow> string" where
  "synchronous_as_str v = (case v of Sync_Off \<Rightarrow> ''OFF'' | Sync_Normal \<Rightarrow> ''NORMAL'' | Sync_Full \<Rightarrow> ''FULL'' | Sync_Extra \<Rightarrow> ''EXTRA'')"

definition auto_vacuum_table :: "(string \<times> sqlite_auto_vacuum) list" where
  "auto_vacuum_table = [(''none'', Vacuum_None), (''full'', Vacuum_Full), (''incremental'', Vacuum_Incremental)]"

definition journal_mode_table :: "(string \<times> sqlite_journal_mode) list" where
  "journal_mode_table =
     [(''delete'', Journal_Delete), (''truncate'', Journal_Truncate), (''persist'', Journal_Persist), (''memory'', Journal_Memory),
      (''wal'', Journal_Wal), (''off'', Journal_Off)]"

definition locking_mode_table :: "(string \<times> sqlite_locking_mode) list" where
  "locking_mode_table = [(''normal'', Locking_Normal), (''exclusive'', Locking_Exclusive)]"

definition synchronous_table :: "(string \<times> sqlite_synchronous) list" where
  "synchronous_table = [(''off'', Sync_Off), (''normal'', Sync_Normal), (''full'', Sync_Full), (''extra'', Sync_Extra)]"

text \<open>The \<open>FromStr\<close> implementations: a lookup that ignores the case of ASCII letters.\<close>

definition setting_from_str :: "(string \<times> 'a) list \<Rightarrow> bytes \<Rightarrow> 'a res" where
  "setting_from_str table s =
     (case find (\<lambda>(n, _). lit n = map ascii_lower s) table of Some (_, v) \<Rightarrow> Ok v | None \<Rightarrow> Err (Message ''unknown value''))"

definition auto_vacuum_from_str :: "bytes \<Rightarrow> sqlite_auto_vacuum res" where
  "auto_vacuum_from_str = setting_from_str auto_vacuum_table"

definition journal_mode_from_str :: "bytes \<Rightarrow> sqlite_journal_mode res" where
  "journal_mode_from_str = setting_from_str journal_mode_table"

definition locking_mode_from_str :: "bytes \<Rightarrow> sqlite_locking_mode res" where
  "locking_mode_from_str = setting_from_str locking_mode_table"

definition synchronous_from_str :: "bytes \<Rightarrow> sqlite_synchronous res" where
  "synchronous_from_str = setting_from_str synchronous_table"

section \<open>Options\<close>

type_synonym pragmas = "(bytes \<times> bytes) list"

text \<open>\<open>IndexMap::insert\<close>: a known key keeps its place.\<close>

fun pragma_insert :: "bytes \<Rightarrow> bytes \<Rightarrow> pragmas \<Rightarrow> pragmas" where
  "pragma_insert k v [] = [(k, v)]"
| "pragma_insert k v ((k', v') # ps) = (if k' = k then (k', v) # ps else (k', v') # pragma_insert k v ps)"

record sqlite_options =
  so_filename :: bytes
  so_in_memory :: bool
  so_read_only :: bool
  so_create_if_missing :: bool
  so_shared_cache :: bool
  so_statement_cache_capacity :: nat
  so_busy_timeout :: nat
  so_immutable :: bool
  so_pragmas :: pragmas
  so_command_channel_size :: nat
  so_row_channel_size :: nat
  so_collations :: "(bytes \<times> (bytes \<Rightarrow> bytes \<Rightarrow> ordering)) list"
  so_serialized :: bool
  so_thread_name :: "nat \<Rightarrow> bytes"

definition sqlite_options_new :: sqlite_options where
  "sqlite_options_new = \<lparr>
     so_filename = lit '':memory:'', so_in_memory = False, so_read_only = False, so_create_if_missing = True,
     so_shared_cache = False, so_statement_cache_capacity = 100, so_busy_timeout = 5000, so_immutable = False,
     so_pragmas =
       pragma_insert (lit ''auto_vacuum'') (lit (auto_vacuum_as_str Vacuum_None))
       (pragma_insert (lit ''synchronous'') (lit (synchronous_as_str Sync_Full))
       (pragma_insert (lit ''foreign_keys'') (lit ''ON'')
       (pragma_insert (lit ''journal_mode'') (lit (journal_mode_as_str Journal_Wal))
       (pragma_insert (lit ''locking_mode'') (lit (locking_mode_as_str Locking_Normal))
       (pragma_insert (lit ''page_size'') (lit ''4096'') []))))),
     so_command_channel_size = 50, so_row_channel_size = 50, so_collations = [], so_serialized = False,
     so_thread_name = (\<lambda>n. lit ''rbdc-sqlite-worker-'' @ dec_digits n)\<rparr>"

definition set_filename :: "bytes \<Rightarrow> sqlite_options \<Rightarrow> sqlite_options" where
  "set_filename f opt = opt\<lparr>so_filename := f\<rparr>"

definition set_pragma :: "bytes \<Rightarrow> bytes \<Rightarrow> sqlite_options \<Rightarrow> sqlite_options" where
  "set_pragma k v opt = opt\<lparr>so_pragmas := pragma_insert k v (so_pragmas opt)\<rparr>"

definition set_foreign_keys :: "bool \<Rightarrow> sqlite_options \<Rightarrow> sqlite_options" where
  "set_foreign_keys on opt = set_pragma (lit ''foreign_keys'') (lit (if on then ''ON'' else ''OFF'')) opt"

definition set_shared_cache :: "bool \<Rightarrow> sqlite_options \<Rightarrow> sqlite_options" where
  "set_shared_cache on opt = opt\<lparr>so_shared_cache := on\<rparr>"

definition set_journal_mode :: "sqlite_journal_mode \<Rightarrow> sqlite_options \<Rightarrow> sqlite_options" where
  "set_journal_mode m opt = set_pragma (lit ''journal_mode'') (lit (journal_mode_as_str m)) opt"

definition set_locking_mode :: "sqlite_locking_mode \<Rightarrow> sqlite_options \<Rightarrow> sqlite_options" where
  "set_locking_mode m opt = set_pragma (lit ''locking_mode'') (lit (locking_mode_as_str m)) opt"

definition set_read_only :: "bool \<Rightarrow> sqlite_options \<Rightarrow> sqlite_options" where
  "set_read_only b opt = opt\<lparr>so_read_only := b\<rparr>"

definition set_create_if_missing :: "bool \<Rightarrow> sqlite_options \<Rightarrow> sqlite_options" where
  "set_create_if_missing b opt = opt\<lparr>so_create_if_missing := b\<rparr>"

definition sqlite_set_cache_capacity :: "nat \<Rightarrow> sqlite_options \<Rightarrow> sqlite_options" where
  "sqlite_set_cache_capacity n opt = opt\<lparr>so_statement_cache_capacity := n\<rparr>"

definition set_busy_timeout :: "nat \<Rightarrow> sqlite_options \<Rightarrow> sqlite_options" where
  "set_busy_timeout ms opt = opt\<lparr>so_busy_timeout := ms\<rparr>"

definition set_synchronous :: "sqlite_synchronous \<Rightarrow> sqlite_options \<Rightarrow> sqlite_options" where
  "set_synchronous m opt = set_pragma (lit ''synchronous'') (lit (synchronous_as_str m)) opt"

definition set_auto_vacuum :: "sqlite_auto_vacuum \<Rightarrow> sqlite_options \<Rightarrow> sqlite_options" where
  "set_auto_vacuum m opt = set_pragma (lit ''auto_vacuum'') (lit (auto_vacuum_as_str m)) opt"

definition set_page_size :: "nat \<Rightarrow> sqlite_options \<Rightarrow> sqlite_options" where
  "set_page_size n opt = set_pragma (lit ''page_size'') (dec_digits n) opt"

definition add_collation :: "bytes \<Rightarrow> (bytes \<Rightarrow> bytes \<Rightarrow> ordering) \<Rightarrow> sqlite_options \<Rightarrow> sqlite_options" where
  "add_collation name f opt = opt\<lparr>so_collations := so_collations opt @ [(name, f)]\<rparr>"

definition set_immutable :: "bool \<Rightarrow> sqlite_options \<Rightarrow> sqlite_options" where
  "set_immutable b opt = opt\<lparr>so_immutable := b\<rparr>"

definition set_serialized :: "bool \<Rightarrow> sqlite_options \<Rightarrow> sqlite_options" where
  "set_serialized b opt = opt\<lparr>so_serialized := b\<rparr>"

definition set_thread_name :: "(nat \<Rightarrow> bytes) \<Rightarrow> sqlite_options \<Rightarrow> sqlite_options" where
  "set_thread_name f opt = opt\<lparr>so_thread_name := f\<rparr>"

definition set_command_buffer_size :: "nat \<Rightarrow> sqlite_options \<Rightarrow> sqlite_options" where
  "set_command_buffer_size n opt = opt\<lparr>so_command_channel_size := n\<rparr>"

definition set_row_buffer_size :: "nat \<Rightarrow> sqlite_options \<Rightarrow> sqlite_options" where
  "set_row_buffer_size n opt = opt\<lparr>so_row_channel_size := n\<rparr>"

section \<open>Connection strings\<close>

record uri_crates =
  uri_percent_decode :: "bytes \<Rightarrow> bytes"
  form_parse :: "bytes \<Rightarrow> (bytes \<times> bytes) list"

function trim_start_matches :: "bytes \<Rightarrow> bytes \<Rightarrow> bytes" where
  "trim_start_matches p s =
     (if p \<noteq> [] \<and> s \<noteq> [] \<and> starts_with p s then trim_start_matches p (drop (length p) s) else s)"
  by pat_completeness auto
termination
  by (relation "measure (\<lambda>(p, s). length s)") auto

declare trim_start_matches.simps [simp del]

definition uri_param :: "bytes \<times> bytes \<Rightarrow> sqlite_options \<Rightarrow> sqlite_options res" where
  "uri_param kv opt =
     (case kv of (key, value) \<Rightarrow>
      if key = lit ''mode'' then
        (if value = lit ''ro'' then Ok (opt\<lparr>so_read_only := True\<rparr>)
         else if value = lit ''rw'' then Ok opt
         else if value = lit ''rwc'' then Ok (opt\<lparr>so_create_if_missing := True\<rparr>)
         else if value = lit ''memory'' then Ok (opt\<lparr>so_in_memory := True, so_shared_cache := True\<rparr>)
         else Err (Message ''unknown value for mode''))
      else if key = lit ''cache'' then
        (if value = lit ''private'' then Ok (opt\<lparr>so_shared_cache := False\<rparr>)
         else if value = lit ''shared'' then Ok (opt\<lparr>so_shared_cache := True\<rparr>)
         else Err (Message ''unknown value for cache''))
      else if key = lit ''immutable'' then
        (if value = lit ''true'' \<or> value = lit ''1'' then Ok (opt\<lparr>so_immutable := True\<rparr>)
         else if value = lit ''false'' \<or> value = lit ''0'' then Ok (opt\<lparr>so_immutable := False\<rparr>)
         else Err (Message ''unknown value for immutable''))
      else Err (Message ''unknown query parameter while parsing connection URI''))"

fun uri_params :: "(bytes \<times> bytes) list \<Rightarrow> sqlite_options \<Rightarrow> sqlite_options res" where
  "uri_params [] opt = Ok opt"
| "uri_params (kv # kvs) opt = rbind (uri_param kv opt) (uri_params kvs)"

definition sqlite_options_from_str :: "uri_crates \<Rightarrow> nat \<Rightarrow> bytes \<Rightarrow> sqlite_options res" where
  "sqlite_options_from_str U seqno uri =
     (let uri = trim_start_matches (lit ''sqlite:'') (trim_start_matches (lit ''sqlite://'') uri);
          database = takeWhile (\<lambda>b. b \<noteq> 63) uri;
          rest = dropWhile (\<lambda>b. b \<noteq> 63) uri
      in rbind (if database = lit '':memory:'' then
                  Ok (sqlite_options_new\<lparr>so_in_memory := True, so_shared_cache := True,
                    so_filename := lit ''file:rbdc-in-memory-'' @ dec_digits seqno\<rparr>)
                else rbind (from_utf8 (uri_percent_decode U database)) (\<lambda>f. Ok (sqlite_options_new\<lparr>so_filename := f\<rparr>)))
           (\<lambda>opt. if rest = [] then Ok opt else uri_params (form_parse U (tl rest)) opt))"

section \<open>Opening a database\<close>

record establish_params =
  ep_filename :: bytes
  ep_open_flags :: u32
  ep_busy_timeout :: nat
  ep_statement_cache_capacity :: nat
  ep_thread_name :: bytes
  ep_command_channel_size :: nat

text \<open>The flags: read-only 1, read-write 2, create 4, URI 0x40, memory 0x80, no mutex 0x8000, full mutex 0x10000, shared cache
  0x20000, private cache 0x40000.\<close>

definition open_flags :: "sqlite_options \<Rightarrow> u32" where
  "open_flags opt =
     (if so_serialized opt then 0x10000 else 0x8000) OR
     (if so_read_only opt then 1 else if so_create_if_missing opt then 4 OR 2 else 2) OR
     (if so_in_memory opt then 0x80 else 0) OR
     (if so_shared_cache opt then 0x20000 else 0x40000) OR
     (if so_immutable opt then 0x40 else 0)"

definition params_from_options :: "sqlite_options \<Rightarrow> nat \<Rightarrow> establish_params res" where
  "params_from_options opt tid =
     (if \<not> utf8_ok (so_filename opt) then Err IoError
      else let filename = (if so_immutable opt then lit ''file:'' @ so_filename opt @ lit ''?immutable=true'' else so_filename opt) in
           if 0 \<in> set filename then Err IoError
           else Ok \<lparr>ep_filename = filename, ep_open_flags = open_flags opt, ep_busy_timeout = so_busy_timeout opt,
                    ep_statement_cache_capacity = so_statement_cache_capacity opt, ep_thread_name = so_thread_name opt tid,
                    ep_command_channel_size = so_command_channel_size opt\<rparr>)"

text \<open>A handle that goes out of scope on an error is closed.\<close>

definition close_on_error :: "('db, 's, 'v) sqlite3 \<Rightarrow> 'db \<Rightarrow> error \<Rightarrow> 'a res" where
  "close_on_error L d e = (if fst (sqlite3_close L d) = 0 then Err e else Panic)"

definition establish_database ::
    "('db, 's, 'v, 'c, 'dt) sqlite_env \<Rightarrow> establish_params \<Rightarrow> ('db, 's, 'c) connection_state res" where
  "establish_database E p =
     (case sqlite3_open_v2 (se_L E) (ep_filename p) (ep_open_flags p) of
        (c, None) \<Rightarrow> Err IoError
      | (c, Some d) \<Rightarrow>
          if c \<noteq> 0 then close_on_error (se_L E) d (sqlite_error (se_L E) d)
          else let d = sqlite3_extended_result_codes (se_L E) d in
               if ep_busy_timeout p > 2147483647 then Panic
               else case sqlite3_busy_timeout (se_L E) d (int (ep_busy_timeout p)) of
                 (c, d) \<Rightarrow>
                   if c \<noteq> 0 then close_on_error (se_L E) d (sqlite_error (se_L E) d)
                   else rbind (cache_new (se_C E) (ep_statement_cache_capacity p)) (\<lambda>k.
                        Ok \<lparr>cs_db = d, cs_cached = k, cs_temp = None\<rparr>))"

text \<open>The worker's start: a panic while the database is opened is reported as a crash.\<close>

definition worker_establish ::
    "('db, 's, 'v, 'c, 'dt) sqlite_env \<Rightarrow> establish_params \<Rightarrow> nat \<Rightarrow> ('db, 's, 'c) sqlite_conn res" where
  "worker_establish E p row_channel_size =
     (case establish_database E p of
        Ok st \<Rightarrow> Ok \<lparr>sn_running = True, sn_state = st, sn_cached_size = 0, sn_row_channel_size = row_channel_size\<rparr>
      | Err e \<Rightarrow> Err e
      | Panic \<Rightarrow> Err worker_crashed)"

definition sqlite_conn_establish ::
    "('db, 's, 'v, 'c, 'dt) sqlite_env \<Rightarrow> sqlite_options \<Rightarrow> nat \<Rightarrow> ('db, 's, 'c) sqlite_conn res" where
  "sqlite_conn_establish E opt tid =
     rbind (params_from_options opt tid) (\<lambda>p. worker_establish E p (so_row_channel_size opt))"

definition pragma_text :: "bytes \<times> bytes \<Rightarrow> bytes" where
  "pragma_text kv = lit ''PRAGMA '' @ fst kv @ lit '' = '' @ snd kv @ lit ''; ''"

definition init_text :: "pragmas \<Rightarrow> bytes" where
  "init_text ps =
     (case map_of ps (lit ''key'') of None \<Rightarrow> [] | Some v \<Rightarrow> pragma_text (lit ''key'', v)) @
     concat (map pragma_text (filter (\<lambda>kv. fst kv \<noteq> lit ''key'') ps))"

fun create_collations ::
    "('db, 's, 'v, 'c, 'dt) sqlite_env \<Rightarrow> (bytes \<times> (bytes \<Rightarrow> bytes \<Rightarrow> ordering)) list \<Rightarrow> (('db, 's, 'c) sqlite_conn, unit) aop" where
  "create_collations E [] c = Some (Ok (), c)"
| "create_collations E ((name, f) # cs) c =
     abind (on_worker (on_handle (create_collation (se_L E) name f))) (\<lambda>_. create_collations E cs) c"

definition lock_handle :: "(('db, 's, 'c) sqlite_conn, unit) aop" where
  "lock_handle = unlock_db"

definition sqlite_connect ::
    "('db, 's, 'v, 'c, 'dt) sqlite_env \<Rightarrow> nat \<Rightarrow> sqlite_options \<Rightarrow> nat \<Rightarrow> ('db, 's, 'c) sqlite_conn res option" where
  "sqlite_connect E lag opt tid =
     (case sqlite_conn_establish E opt tid of
        Err e \<Rightarrow> Some (Err e)
      | Panic \<Rightarrow> Some Panic
      | Ok c \<Rightarrow>
          map_option (\<lambda>(r, c). rbind r (\<lambda>_. Ok c))
            (abind (sqlite_exec E lag (init_text (so_pragmas opt)) []) (\<lambda>_.
               if so_collations opt = [] then aret ()
               else abind lock_handle (\<lambda>_. create_collations E (so_collations opt))) c))"

definition sqlite_set_uri :: "uri_crates \<Rightarrow> nat \<Rightarrow> bytes \<Rightarrow> sqlite_options res" where
  "sqlite_set_uri U seqno uri =
     (case sqlite_options_from_str U seqno uri of Err _ \<Rightarrow> Err (Message ''uri'') | r \<Rightarrow> r)"

definition sqlite_driver_name :: bytes where
  "sqlite_driver_name = lit ''sqlite''"

definition sqlite_driver_connect ::
    "('db, 's, 'v, 'c, 'dt) sqlite_env \<Rightarrow> uri_crates \<Rightarrow> nat \<Rightarrow> nat \<Rightarrow> nat \<Rightarrow> bytes \<Rightarrow> ('db, 's, 'c) sqlite_conn res option" where
  "sqlite_driver_connect E U lag seqno tid url =
     (case sqlite_set_uri U seqno url of Err e \<Rightarrow> Some (Err e) | Panic \<Rightarrow> Some Panic | Ok opt \<Rightarrow> sqlite_connect E lag opt tid)"

section \<open>Properties\<close>

lemma pragma_insert_map: "map_of (pragma_insert k v ps) = (map_of ps)(k \<mapsto> v)"
  by (induction k v ps rule: pragma_insert.induct) (auto simp: fun_eq_iff)

lemma pragma_insert_keys: "map fst (pragma_insert k v ps) = (if k \<in> fst ` set ps then map fst ps else map fst ps @ [k])"
  by (induction k v ps rule: pragma_insert.induct) auto

lemma init_text_key_first:
  "map_of ps (lit ''key'') = Some v \<Longrightarrow> starts_with (lit ''PRAGMA '' @ lit ''key'' @ lit '' = '' @ v @ lit ''; '') (init_text ps)"
  by (simp add: init_text_def pragma_text_def starts_with_def del: lit_Cons)

text \<open>A setting prints to what it parses from.\<close>

lemma auto_vacuum_roundtrip: "auto_vacuum_from_str (lit (auto_vacuum_as_str a)) = Ok a"
  by (cases a) (simp_all add: auto_vacuum_from_str_def auto_vacuum_as_str_def setting_from_str_def auto_vacuum_table_def ascii_lower_def)

lemma journal_mode_roundtrip: "journal_mode_from_str (lit (journal_mode_as_str j)) = Ok j"
  by (cases j) (simp_all add: journal_mode_from_str_def journal_mode_as_str_def setting_from_str_def journal_mode_table_def ascii_lower_def)

lemma locking_mode_roundtrip: "locking_mode_from_str (lit (locking_mode_as_str l)) = Ok l"
  by (cases l) (simp_all add: locking_mode_from_str_def locking_mode_as_str_def setting_from_str_def locking_mode_table_def ascii_lower_def)

lemma synchronous_roundtrip: "synchronous_from_str (lit (synchronous_as_str m)) = Ok m"
  by (cases m) (simp_all add: synchronous_from_str_def synchronous_as_str_def setting_from_str_def synchronous_table_def ascii_lower_def)

text \<open>The parameters a connection string may have, and what they mean together.\<close>

definition uri_values :: "(string \<times> string list) list" where
  "uri_values = [(''mode'', [''ro'', ''rw'', ''rwc'', ''memory'']), (''cache'', [''private'', ''shared'']),
     (''immutable'', [''true'', ''1'', ''false'', ''0''])]"

definition good_param :: "bytes \<times> bytes \<Rightarrow> bool" where
  "good_param kv = (\<exists>(k, vs) \<in> set uri_values. fst kv = lit k \<and> snd kv \<in> lit ` set vs)"

definition says_shared :: "bytes \<times> bytes \<Rightarrow> bool" where
  "says_shared kv = (kv \<in> {(lit ''mode'', lit ''memory''), (lit ''cache'', lit ''shared'')})"

definition latest :: "('a \<Rightarrow> bool) \<Rightarrow> ('a \<Rightarrow> bool) \<Rightarrow> 'a list \<Rightarrow> bool \<Rightarrow> bool" where
  "latest on off ps b = (case find (\<lambda>x. on x \<or> off x) (rev ps) of None \<Rightarrow> b | Some x \<Rightarrow> on x)"

lemma latest_Nil [simp]: "latest on off [] b = b"
  by (simp add: latest_def)

lemma find_append: "find P (xs @ ys) = (case find P xs of None \<Rightarrow> find P ys | Some x \<Rightarrow> Some x)"
  by (induction xs) auto

lemma latest_Cons [simp]: "latest on off (x # xs) b = latest on off xs (if on x then True else if off x then False else b)"
  by (cases "find (\<lambda>x. on x \<or> off x) (rev xs)") (simp_all add: latest_def find_append)

definition uri_meaning :: "(bytes \<times> bytes) list \<Rightarrow> sqlite_options \<Rightarrow> sqlite_options" where
  "uri_meaning ps opt = opt\<lparr>
     so_read_only := so_read_only opt \<or> (lit ''mode'', lit ''ro'') \<in> set ps,
     so_create_if_missing := so_create_if_missing opt \<or> (lit ''mode'', lit ''rwc'') \<in> set ps,
     so_in_memory := so_in_memory opt \<or> (lit ''mode'', lit ''memory'') \<in> set ps,
     so_shared_cache := latest says_shared (\<lambda>kv. kv = (lit ''cache'', lit ''private'')) ps (so_shared_cache opt),
     so_immutable := latest (\<lambda>kv. fst kv = lit ''immutable'' \<and> snd kv \<in> {lit ''true'', lit ''1''})
       (\<lambda>kv. fst kv = lit ''immutable'') ps (so_immutable opt)\<rparr>"

lemma uri_param_good: "good_param kv \<Longrightarrow> uri_param kv opt = Ok (uri_meaning [kv] opt)"
  by (cases kv)
    (auto simp: good_param_def uri_values_def uri_param_def uri_meaning_def says_shared_def lit_inject simp del: lit_Cons lit_Nil)

lemma uri_param_bad: "\<not> good_param kv \<Longrightarrow> \<exists>e. uri_param kv opt = Err e"
  by (cases kv) (auto simp: good_param_def uri_values_def uri_param_def lit_inject simp del: lit_Cons lit_Nil)

lemma uri_meaning_Cons: "uri_meaning (kv # ps) opt = uri_meaning ps (uri_meaning [kv] opt)"
  by (auto simp: uri_meaning_def)

lemma uri_meaning_Nil: "uri_meaning [] opt = opt"
  by (simp add: uri_meaning_def)

lemma uri_params_good: "list_all good_param ps \<Longrightarrow> uri_params ps opt = Ok (uri_meaning ps opt)"
proof (induction ps arbitrary: opt)
  case (Cons kv ps)
  then show ?case by (simp add: uri_param_good uri_meaning_Cons [of kv ps])
qed (simp add: uri_meaning_Nil)

lemma uri_params_bad: "\<not> list_all good_param ps \<Longrightarrow> \<exists>e. uri_params ps opt = Err e"
proof (induction ps arbitrary: opt)
  case (Cons kv ps)
  show ?case
  proof (cases "good_param kv")
    case True
    with Cons show ?thesis by (simp add: uri_param_good)
  next
    case False
    from uri_param_bad [OF this, of opt] show ?thesis by auto
  qed
qed simp

lemma trim_start_matches_off: "\<not> starts_with p s \<Longrightarrow> trim_start_matches p s = s"
  by (simp add: trim_start_matches.simps [of p s])

lemma trim_start_matches_once: "p \<noteq> [] \<Longrightarrow> \<not> starts_with p s \<Longrightarrow> trim_start_matches p (p @ s) = s"
  using trim_start_matches_off [of p s] by (subst trim_start_matches.simps) (simp add: starts_with_def)

lemma starts_with_append: "starts_with (p @ q) s \<Longrightarrow> starts_with p s"
  by (simp add: starts_with_def) (metis append_eq_conv_conj append_take_drop_id append.assoc)

text \<open>C26: The connection string of a file, with at most one \<open>mode\<close> parameter and that one not \<open>rw\<close>, yields the default options with that
  file and what its parameters say, the latest one of those that set the same option; whether a missing file is created by default is left
  open, but \<open>mode=rwc\<close> creates it.  A parameter that is unknown or has an unknown value is an error.\<close>

theorem sqlite_uri_parsed:
  assumes "63 \<notin> set file" and "\<not> starts_with (lit ''sqlite:'') (file @ [63] @ query)" and "file \<noteq> lit '':memory:''"
    and "utf8_ok (uri_percent_decode U file)"
    and "length (filter (\<lambda>kv. fst kv = lit ''mode'') (form_parse U query)) \<le> 1" and "(lit ''mode'', lit ''rw'') \<notin> set (form_parse U query)"
  shows "if list_all good_param (form_parse U query)
    then \<exists>opt. sqlite_options_from_str U seqno (lit ''sqlite://'' @ file @ [63] @ query) = Ok opt \<and>
      opt\<lparr>so_create_if_missing := True\<rparr> =
        (uri_meaning (form_parse U query) (sqlite_options_new\<lparr>so_filename := uri_percent_decode U file\<rparr>))\<lparr>so_create_if_missing := True\<rparr> \<and>
      ((lit ''mode'', lit ''rwc'') \<in> set (form_parse U query) \<longrightarrow> so_create_if_missing opt)
    else \<exists>e. sqlite_options_from_str U seqno (lit ''sqlite://'' @ file @ [63] @ query) = Err e"
proof -
  let ?rest = "file @ [63] @ query" and ?opt = "sqlite_options_new\<lparr>so_filename := uri_percent_decode U file\<rparr>"
  have "lit ''sqlite://'' = lit ''sqlite:'' @ lit ''//''" by simp
  with assms(2) have "\<not> starts_with (lit ''sqlite://'') ?rest" using starts_with_append by metis
  then have "trim_start_matches (lit ''sqlite://'') (lit ''sqlite://'' @ ?rest) = ?rest"
    by (intro trim_start_matches_once) simp_all
  moreover have "takeWhile (\<lambda>b. b \<noteq> 63) ?rest = file" "dropWhile (\<lambda>b. b \<noteq> 63) ?rest = 63 # query"
    using assms(1) by (auto simp: takeWhile_append dropWhile_append)
  ultimately have "sqlite_options_from_str U seqno (lit ''sqlite://'' @ file @ [63] @ query) = uri_params (form_parse U query) ?opt"
    using assms(2-4) by (simp add: sqlite_options_from_str_def Let_def trim_start_matches_off del: lit_Cons append_Cons)
  then show ?thesis using uri_params_good [of "form_parse U query" ?opt] uri_params_bad [of "form_parse U query" ?opt]
    by (auto simp: uri_meaning_def simp del: lit_Cons)
qed

definition plain_crates :: uri_crates where
  "plain_crates = \<lparr>uri_percent_decode = (\<lambda>s. s), form_parse = (\<lambda>_. [(lit ''mode'', lit ''ro''), (lit ''cache'', lit ''shared'')])\<rparr>"

theorem sqlite_uri_parsed_witness:
  "\<exists>opt. sqlite_options_from_str plain_crates 0 (lit ''sqlite://'' @ lit ''a'' @ [63] @ []) = Ok opt \<and>
     so_read_only opt \<and> so_shared_cache opt \<and> so_filename opt = lit ''a''"
proof -
  have g: "list_all good_param (form_parse plain_crates [])" by (simp add: plain_crates_def good_param_def uri_values_def)
  have "utf8_ok (uri_percent_decode plain_crates (lit ''a''))" by (simp add: plain_crates_def utf8_ok_ascii)
  with sqlite_uri_parsed [of "lit ''a''" "[]" plain_crates 0] g obtain opt where
    o: "sqlite_options_from_str plain_crates 0 (lit ''sqlite://'' @ lit ''a'' @ [63] @ []) = Ok opt"
      "opt\<lparr>so_create_if_missing := True\<rparr> =
        (uri_meaning (form_parse plain_crates []) (sqlite_options_new\<lparr>so_filename := lit ''a''\<rparr>))\<lparr>so_create_if_missing := True\<rparr>"
    by (auto simp: starts_with_def plain_crates_def)
  have "so_read_only opt = so_read_only (opt\<lparr>so_create_if_missing := True\<rparr>)" "so_shared_cache opt = so_shared_cache (opt\<lparr>so_create_if_missing := True\<rparr>)"
    "so_filename opt = so_filename (opt\<lparr>so_create_if_missing := True\<rparr>)" by simp_all
  with o(1) show ?thesis unfolding o(2) by (intro exI [of _ opt]) (simp add: uri_meaning_def plain_crates_def says_shared_def)
qed

section \<open>Connecting\<close>

text \<open>A database that opens and on which the initial statements run gives a connection in good order.\<close>

theorem sqlite_connect_completes:
  assumes "sqlite_client E A M recency ok" and "params_from_options opt tid = Ok p"
    and "sqlite3_open_v2 (se_L E) (ep_filename p) (ep_open_flags p) = (0, Some d)"
    and "sqlite3_busy_timeout (se_L E) (sqlite3_extended_result_codes (se_L E) d) (int (so_busy_timeout opt)) = (0, d')"
    and "view A d' = Map.empty" and "so_busy_timeout opt \<le> 2147483647" and "0 < so_statement_cache_capacity opt" and "so_collations opt = []"
    and "0 \<notin> set (init_text (so_pragmas opt))" and "length (trim (init_text (so_pragmas opt))) \<le> 2147483647"
    and "run_script M [] 0 (contents A d') (split_sql M (trim (init_text (so_pragmas opt)))) = Some (items, b)"
  shows "\<exists>c. sqlite_connect E lag opt tid = Some (Ok c) \<and> sn_running c \<and> connection_ok A M recency ok (sn_state c) \<and>
    contents A (cs_db (sn_state c)) = b"
proof -
  note lru = sqlite_client.axioms(2) [OF assms(1)]
  let ?k = "lru_new (se_C E) (so_statement_cache_capacity opt)"
  let ?c = "\<lparr>sn_running = True, sn_state = \<lparr>cs_db = d', cs_cached = ?k, cs_temp = None\<rparr>, sn_cached_size = 0,
    sn_row_channel_size = so_row_channel_size opt\<rparr>"
  from assms(2) have p: "ep_busy_timeout p = so_busy_timeout opt" "ep_statement_cache_capacity p = so_statement_cache_capacity opt"
    by (auto simp: params_from_options_def Let_def split: if_splits)
  with assms(2-4,6,7) have e: "sqlite_conn_establish E opt tid = Ok ?c"
    by (simp add: sqlite_conn_establish_def worker_establish_def establish_database_def cache_new_def)
  have ok: "connection_ok A M recency ok (sn_state ?c)"
    using lru_laws.new_law [OF lru assms(7)] assms(5) by (simp add: connection_ok_def temp_list_def owns_def handles_of_def)
  from sqlite_client.fetch_all_ok [OF assms(1) _ ok assms(9,10), of "[]" items b lag "[]"] assms(11) obtain xs c' where
    x: "fetch_all E lag (init_text (so_pragmas opt)) [] [] ?c = Some (Ok xs, c')" "list_all2 item_shows items xs" "sn_running c'"
      "connection_ok A M recency ok (sn_state c')" "contents A (cs_db (sn_state c')) = b" by auto
  from x(1) collect_results_shown [OF x(2), of "\<lparr>qr_changes = 0, qr_last_insert_rowid = 0\<rparr>"] obtain r where
    "sqlite_exec E lag (init_text (so_pragmas opt)) [] ?c = Some (Ok r, c')"
    by (simp add: sqlite_exec_def abind_def alift_def aret_def)
  with e x(3-5) assms(8) show ?thesis by (simp add: sqlite_connect_def abind_def aret_def)
qed

end
