(* ===== verification/Sqlite_Owned.thy ===== *)
theory Sqlite_Owned
  imports Sqlite_Worker Sqlite_Options
begin

text \<open>
  The statement handles of a SQLite connection.  Whatever commands a connection is given and however they end, the
  statements that are open in the library are those of its virtual statements, each owned once; so dropping the connection
  finalizes every one of them and the database closes.  The locale \<open>sqlite_handles\<close> states which calls of the library
  open and close statements, whatever they return.
\<close>

section \<open>Operations that keep a property of the state\<close>

definition keeps :: "('st \<Rightarrow> bool) \<Rightarrow> ('st, 'a) aop \<Rightarrow> bool" where
  "keeps P m \<longleftrightarrow> (\<forall>s r s'. P s \<longrightarrow> m s = Some (r, s') \<longrightarrow> P s')"

lemma keepsI: "(\<And>s r s'. P s \<Longrightarrow> m s = Some (r, s') \<Longrightarrow> P s') \<Longrightarrow> keeps P m"
  by (simp add: keeps_def)

lemma keepsD: "keeps P m \<Longrightarrow> P s \<Longrightarrow> m s = Some (r, s') \<Longrightarrow> P s'"
  by (simp add: keeps_def)

lemma keeps_aret: "keeps P (aret x)"
  by (simp add: keeps_def aret_def)

lemma keeps_abind:
  assumes "keeps P m" and "\<And>x. keeps P (k x)"
  shows "keeps P (abind m k)"
proof (rule keepsI)
  fix s r s'
  assume "P s" and "abind m k s = Some (r, s')"
  with assms show "P s'"
    by (cases "m s" rule: aop_result_cases) (auto simp: abind_def dest: keepsD)
qed

lemma keeps_or_item:
  assumes "keeps P m" and "\<And>x. keeps P (k x)"
  shows "keeps P (or_item m k)"
proof (rule keepsI)
  fix s r s'
  assume "P s" and "or_item m k s = Some (r, s')"
  with assms show "P s'"
    by (cases "m s" rule: aop_result_cases) (auto simp: or_item_def dest: keepsD)
qed

section \<open>The handles of the library\<close>

locale sqlite_handles =
  fixes L :: "('db, 's, 'v) sqlite3" and opened :: "'db \<Rightarrow> 's set"
  assumes open_law: "sqlite3_open_v2 L f fl = (0, Some d) \<Longrightarrow> opened d = {}"
    and codes_law: "opened (sqlite3_extended_result_codes L d) = opened d"
    and timeout_law: "sqlite3_busy_timeout L d ms = (c, d') \<Longrightarrow> opened d' = opened d"
    and prepare_frame: "sqlite3_prepare_v3 L d q p = ((c, h, n), d') \<Longrightarrow>
      (case h of None \<Rightarrow> opened d' = opened d
       | Some s \<Rightarrow> c = 0 \<and> n \<le> length q \<and> s \<notin> opened d \<and> opened d' = insert s (opened d))"
    and step_frame: "sqlite3_step L d s = (c, d') \<Longrightarrow> s \<in> opened d \<Longrightarrow> opened d' = opened d"
    and reset_frame: "sqlite3_reset L d s = (c, d') \<Longrightarrow> s \<in> opened d \<Longrightarrow> opened d' = opened d"
    and clear_frame: "s \<in> opened d \<Longrightarrow> opened (sqlite3_clear_bindings L d s) = opened d"
    and bind_frame: "argument_bind L a s i d = Some (r, d') \<Longrightarrow> s \<in> opened d \<Longrightarrow> opened d' = opened d"
    and notify_frame: "sqlite3_unlock_notify L d = (c, d') \<Longrightarrow> opened d' = opened d"
    and notified_frame: "notified L d = Some d' \<Longrightarrow> opened d' = opened d"
    and collation_frame: "sqlite3_create_collation_v2 L d nm cmp = (c, d') \<Longrightarrow> opened d' = opened d"
    and finalize_frame: "s \<in> opened d \<Longrightarrow> \<exists>c d'. sqlite3_finalize L d s = (c, d') \<and> c \<noteq> 21 \<and> opened d' = opened d - {s}"
    and close_frame: "opened d = {} \<Longrightarrow> \<exists>d'. sqlite3_close L d = (0, d')"
begin

lemma reset_keeps: "s \<in> X \<Longrightarrow> keeps (\<lambda>d. opened d = X) (handle_reset L s)"
  by (auto simp: keeps_def handle_reset_def sqlite_status_def dest: reset_frame split: prod.splits)

lemma clear_keeps: "s \<in> X \<Longrightarrow> keeps (\<lambda>d. opened d = X) (clear_bindings L s)"
  by (auto simp: keeps_def clear_bindings_def amodify_def clear_frame)

lemma bind_keeps: "s \<in> X \<Longrightarrow> keeps (\<lambda>d. opened d = X) (argument_bind L a s i)"
  by (auto simp: keeps_def dest: bind_frame)

lemma wait_keeps: "keeps (\<lambda>d. opened d = X) (wait_for_unlock_notify L)"
  by (auto simp: keeps_def wait_for_unlock_notify_def dest: notify_frame notified_frame split: prod.splits if_splits)

lemma step_keeps: "s \<in> X \<Longrightarrow> keeps (\<lambda>d. opened d = X) (handle_step L s)"
proof (rule keepsI)
  let ?P = "\<lambda>M s d y. M = L \<longrightarrow> s \<in> X \<longrightarrow> opened d = X \<longrightarrow> opened (snd y) = X"
  fix d r d'
  assume "s \<in> X" "opened d = X" and run: "handle_step L s d = Some (r, d')"
  have "?P L s d (r, d')"
  proof (rule handle_step.raw_induct [where P = ?P, rotated, OF run], intro impI)
    fix f :: "('db, 's, 'v) sqlite3 \<Rightarrow> 's \<Rightarrow> 'db \<Rightarrow> (bool res \<times> 'db) option" and M s d y
    assume IH: "\<And>M s d y. f M s d = Some y \<Longrightarrow> ?P M s d y" and M: "M = L" and s: "s \<in> X" and d: "opened d = X"
      and y: "(case sqlite3_step M d s of (c, d) \<Rightarrow>
        if c = 100 then Some (Ok True, d) else if c = 101 then Some (Ok False, d) else if c = 21 then Some (Panic, d)
        else if c = 262 then abind (wait_for_unlock_notify M) (\<lambda>_ d. f M s (snd (sqlite3_reset M d s))) d
        else Some (Err (sqlite_error M d), d)) = Some y"
    obtain c d1 where st: "sqlite3_step L d s = (c, d1)" by force
    then have d1: "opened d1 = X" using step_frame s d by blast
    show "opened (snd y) = X"
    proof (cases "c = 262")
      case False
      with y st M d1 show ?thesis by (auto split: if_splits)
    next
      case True
      with y st M have w: "abind (wait_for_unlock_notify L) (\<lambda>_ d. f L s (snd (sqlite3_reset L d s))) d1 = Some y" by simp
      show ?thesis
      proof (cases "wait_for_unlock_notify L d1" rule: aop_result_cases)
        case (Ok x d2)
        with keepsD [OF wait_keeps d1] have d2: "opened d2 = X" by blast
        then have "opened (snd (sqlite3_reset L d2 s)) = X" using reset_frame s by (cases "sqlite3_reset L d2 s") auto
        with IH [of L s "snd (sqlite3_reset L d2 s)" y] w Ok s show ?thesis by (simp add: abind_def)
      qed (use w keepsD [OF wait_keeps d1] in \<open>auto simp: abind_def\<close>)
    qed
  qed
  with \<open>s \<in> X\<close> \<open>opened d = X\<close> show "opened d' = X" by simp
qed

lemma bind_loop_keeps: "s \<in> X \<Longrightarrow> keeps (\<lambda>d. opened d = X) (bind_loop L K vs s is arg_i)"
proof (induction "is" arbitrary: arg_i)
  case (Cons i "is")
  show ?case
  proof (rule keepsI)
    fix d r d'
    assume d: "opened d = X" and "bind_loop L K vs s (i # is) arg_i d = Some (r, d')"
    then consider "d' = d" | n j where "abind (argument_bind L (vs ! (n - 1)) s i) (\<lambda>_. bind_loop L K vs s is j) d = Some (r, d')"
      by (auto split: res.splits prod.splits if_splits)
    then show "opened d' = X"
    proof cases
      case 2
      have "keeps (\<lambda>d. opened d = X) (abind (argument_bind L (vs ! (n - 1)) s i) (\<lambda>_. bind_loop L K vs s is j))"
        by (intro keeps_abind bind_keeps Cons)
      from keepsD [OF this d 2] show ?thesis .
    qed (use d in simp)
  qed
qed (simp add: keeps_def)

lemma bind_arguments_keeps: "s \<in> X \<Longrightarrow> keeps (\<lambda>d. opened d = X) (bind_arguments L K args s off)"
proof (cases args)
  case (Some vs)
  assume s: "s \<in> X"
  have "keeps (\<lambda>d. opened d = X) (abind (bind_loop L K vs s is off) (\<lambda>n. aret (n - off)))" for "is"
    by (intro keeps_abind bind_loop_keeps [OF s] keeps_aret)
  then show ?thesis unfolding Some bind_arguments_def arguments_bind_def Let_def keeps_def by auto
qed (simp add: bind_arguments_def keeps_aret)

lemma reset_handles_keeps: "set hs \<subseteq> X \<Longrightarrow> keeps (\<lambda>d. opened d = X) (reset_handles L hs)"
proof (induction hs)
  case (Cons s hs)
  have "reset_handles L (s # hs) = abind (handle_reset L s) (\<lambda>_. abind (clear_bindings L s) (\<lambda>_. reset_handles L hs))"
    by (rule ext) simp
  with Cons show ?case by (auto intro!: keeps_abind reset_keeps clear_keeps)
qed (simp add: keeps_def)

section \<open>Virtual statements\<close>

text \<open>The open statements are those of the virtual statement and, apart from them, \<open>base\<close>.\<close>

definition holds :: "'s set \<Rightarrow> 's virtual_statement \<times> 'db \<Rightarrow> bool" where
  "holds base st = (distinct (vs_handles (fst st)) \<and> set (vs_handles (fst st)) \<inter> base = {} \<and>
     opened (snd st) = set (vs_handles (fst st)) \<union> base)"

lemma holds_fields [simp]:
  "holds base (vs\<lparr>vs_index := i\<rparr>, d) = holds base (vs, d)" "holds base (vs\<lparr>vs_tail := t\<rparr>, d) = holds base (vs, d)"
  by (simp_all add: holds_def)

lemma current_handle: "current vs = Ok (Some ps) \<Longrightarrow> ps_handle ps \<in> set (vs_handles vs)"
  by (auto simp: current_def res_iff split: option.splits if_splits)

lemma prepare_stmt_opens:
  assumes "prepare_stmt L p q d = Some (r, q', d')" and "opened d = X"
  shows "case r of Ok (Some s) \<Rightarrow> s \<notin> X \<and> opened d' = insert s X | _ \<Rightarrow> opened d' = X"
proof -
  let ?R = "\<lambda>y. case fst y of Ok (Some s) \<Rightarrow> s \<notin> X \<and> opened (snd (snd y)) = insert s X | _ \<Rightarrow> opened (snd (snd y)) = X"
  let ?P = "\<lambda>M p q d y. M = L \<longrightarrow> opened d = X \<longrightarrow> ?R y"
  have "?P L p q d (r, q', d')"
  proof (rule prepare_stmt.raw_induct [where P = ?P, rotated, OF assms(1)], intro impI)
    fix f :: "('db, 's, 'v) sqlite3 \<Rightarrow> bool \<Rightarrow> bytes \<Rightarrow> 'db \<Rightarrow> ('s option res \<times> bytes \<times> 'db) option" and M p q d y
    assume IH: "\<And>M p q d y. f M p q d = Some y \<Longrightarrow> ?P M p q d y" and M: "M = L" and d: "opened d = X"
      and y: "(if q = [] then Some (Ok None, q, d) else case sqlite3_prepare_v3 M d q p of ((c, h, n), d) \<Rightarrow>
        if c \<noteq> 0 then Some (Err (sqlite_error M d), q, d) else if n > length q then Some (Panic, q, d)
        else case h of Some s \<Rightarrow> Some (Ok (Some s), drop n q, d) | None \<Rightarrow> f M p (drop n q) d) = Some y"
    obtain c h n d1 where pr: "sqlite3_prepare_v3 L d q p = ((c, h, n), d1)" by (metis prod_cases3 surj_pair)
    note fr = prepare_frame [OF pr]
    show "?R y"
    proof (cases "q = []")
      case True
      with y d show ?thesis by auto
    next
      case False
      show ?thesis
      proof (cases h)
        case None
        with fr d have d1: "opened d1 = X" by simp
        with y pr M False None IH [of L p "drop n q" d1] show ?thesis by (auto split: if_splits)
      next
        case (Some s)
        with fr d y pr M False show ?thesis by (auto split: if_splits)
      qed
    qed
  qed
  with assms(2) show ?thesis by (auto split: res.splits option.splits)
qed

lemma prepare_loop_holds:
  assumes "prepare_loop L st = Some (r, st')" and "holds base st"
  shows "holds base st' \<and> (\<forall>ps. r = Ok (Some ps) \<longrightarrow> ps_handle ps \<in> set (vs_handles (fst st')))"
proof -
  let ?R = "\<lambda>y. holds base (snd y) \<and> (\<forall>ps. fst y = Ok (Some ps) \<longrightarrow> ps_handle ps \<in> set (vs_handles (fst (snd y))))"
  let ?P = "\<lambda>M st y. M = L \<longrightarrow> holds base st \<longrightarrow> ?R y"
  have "?P L st (r, st')"
  proof (rule prepare_loop.raw_induct [where P = ?P, rotated, OF assms(1)], intro impI)
    fix f :: "('db, 's, 'v) sqlite3 \<Rightarrow> 's virtual_statement \<times> 'db \<Rightarrow> ('s prepared_statement option res \<times> 's virtual_statement \<times> 'db) option"
      and M st y
    assume IH: "\<And>M st y. f M st = Some y \<Longrightarrow> ?P M st y" and M: "M = L" and st: "holds base st"
      and y: "(let vs = fst st; d = snd st in
        if or_default 0 (vs_index vs) < length (vs_handles vs) then Some (current vs, st)
        else if vs_tail vs = [] then Some (Ok None, st)
        else Option.bind (prepare_stmt M (vs_persistent vs) (vs_tail vs) d) (\<lambda>p.
          let vs = vs\<lparr>vs_tail := fst (snd p)\<rparr>; d = snd (snd p) in
          case fst p of
            Err e \<Rightarrow> Some (Err e, vs, d)
          | Panic \<Rightarrow> Some (Panic, vs, d)
          | Ok None \<Rightarrow> f M (vs, d)
          | Ok (Some s) \<Rightarrow>
              case describe_loop M d s [0..<sqlite3_column_count M d s] [] Map.empty of
                Ok cn \<Rightarrow> f M (vs\<lparr>vs_handles := vs_handles vs @ [s], vs_columns := vs_columns vs @ [fst cn],
                           vs_column_names := vs_column_names vs @ [snd cn]\<rparr>, d)
              | Err e \<Rightarrow> Some (Err e, vs, snd (sqlite3_finalize M d s))
              | Panic \<Rightarrow> Some (Panic, vs, snd (sqlite3_finalize M d s)))) = Some y"
    obtain vs d where sd: "st = (vs, d)" by force
    show "?R y"
    proof (cases "or_default 0 (vs_index vs) < length (vs_handles vs) \<or> vs_tail vs = []")
      case True
      with y st sd show ?thesis by (auto dest: current_handle split: if_splits)
    next
      case False
      with y sd obtain pr q1 d1 where
        p: "prepare_stmt M (vs_persistent vs) (vs_tail vs) d = Some (pr, q1, d1)" by (auto simp: Let_def bind_eq_Some_conv)
      let ?vs = "vs\<lparr>vs_tail := q1\<rparr>"
      from st sd have X: "opened d = set (vs_handles vs) \<union> base" "distinct (vs_handles vs)" "set (vs_handles vs) \<inter> base = {}"
        by (auto simp: holds_def)
      note op = prepare_stmt_opens [OF p [unfolded M] X(1)]
      show ?thesis
      proof (cases "\<exists>s. pr = Ok (Some s)")
        case True
        then obtain s where s: "pr = Ok (Some s)" ..
        with op have o: "s \<notin> set (vs_handles vs) \<union> base" "opened d1 = insert s (set (vs_handles vs) \<union> base)" by auto
        then obtain c d2 where fin: "sqlite3_finalize L d1 s = (c, d2)" "opened d2 = set (vs_handles vs) \<union> base"
          using finalize_frame [of s d1] by auto
        have h2: "holds base (?vs, d2)" using X fin(2) by (simp add: holds_def)
        have h3: "holds base (?vs\<lparr>vs_handles := vs_handles vs @ [s], vs_columns := cs, vs_column_names := ns\<rparr>, d1)" for cs ns
          using X o by (auto simp: holds_def)
        show ?thesis using y sd False p s fin h2 h3 M IH
          by (auto simp: Let_def split: res.splits)
      next
        case n: False
        with op have "opened d1 = set (vs_handles vs) \<union> base" by (auto split: res.splits option.splits)
        with X have h: "holds base (?vs, d1)" by (simp add: holds_def)
        show ?thesis using y sd False p n h M IH [of L "(?vs, d1)" y]
          by (auto simp: Let_def split: res.splits option.splits)
      qed
    qed
  qed
  with assms(2) show ?thesis by simp
qed

lemma prepare_next_holds:
  assumes "prepare_next L st = Some (r, st')" and "holds base st"
  shows "holds base st' \<and> (\<forall>ps. r = Ok (Some ps) \<longrightarrow> ps_handle ps \<in> set (vs_handles (fst st')))"
  using assms prepare_loop_holds [of "((fst st)\<lparr>vs_index := i\<rparr>, snd st)" r st' base for i]
  by (cases st) (auto simp: prepare_next_def Let_def)

lemma virtual_reset_holds: "keeps (holds base) (virtual_reset L)"
proof (rule keepsI)
  fix st r st'
  assume h: "holds base st" and "virtual_reset L st = Some (r, st')"
  then obtain d' where d': "reset_handles L (vs_handles (fst st)) (snd st) = Some (r, d')" "st' = ((fst st)\<lparr>vs_index := None\<rparr>, d')"
    by (auto simp: virtual_reset_def Let_def)
  from keepsD [OF reset_handles_keeps [OF _] _ d'(1), of "opened (snd st)"] h have "opened d' = opened (snd st)"
    by (auto simp: holds_def)
  with h d'(2) show "holds base st'" by (simp add: holds_def)
qed

section \<open>Running a query\<close>

definition iter_holds :: "'s set \<Rightarrow> ('s, 'db) execute_iter \<Rightarrow> bool" where
  "iter_holds base st = holds base (ei_stmt st, ei_db st)"

text \<open>While a statement of the iterator is worked on.\<close>

definition works_on :: "'s set \<Rightarrow> 's \<Rightarrow> ('s, 'db) execute_iter \<Rightarrow> bool" where
  "works_on base s st = (iter_holds base st \<and> s \<in> set (vs_handles (ei_stmt st)))"

lemma iter_fields [simp]:
  "works_on base s (st\<lparr>ei_goto_next := g\<rparr>) = works_on base s st" "works_on base s (st\<lparr>ei_args_used := u\<rparr>) = works_on base s st"
  by (simp_all add: works_on_def iter_holds_def)

lemma on_db_works:
  assumes "\<And>X. s \<in> X \<Longrightarrow> keeps (\<lambda>d. opened d = X) m"
  shows "keeps (works_on base s) (on_db m)"
proof (rule keepsI)
  fix st r st'
  assume w: "works_on base s st" and "on_db m st = Some (r, st')"
  then obtain d' where d': "m (ei_db st) = Some (r, d')" "st' = st\<lparr>ei_db := d'\<rparr>" by (auto simp: on_db_def)
  from w have "s \<in> opened (ei_db st)" by (auto simp: works_on_def iter_holds_def holds_def)
  from keepsD [OF assms [OF this] refl d'(1)] w d'(2) show "works_on base s st'"
    by (simp add: works_on_def iter_holds_def holds_def)
qed

lemma step_statement_works: "keeps (works_on base (ps_handle ps)) (step_statement L ps)"
  unfolding step_statement_def by (intro keeps_or_item on_db_works step_keeps) (auto simp: keeps_def)

lemma start_statement_works: "keeps (works_on base (ps_handle ps)) (start_statement L K ps)"
proof (rule keepsI)
  let ?P = "works_on base (ps_handle ps)"
  fix st r st'
  assume st: "?P st" and run: "start_statement L K ps st = Some (r, st')"
  have "keeps ?P (\<lambda>st. step_statement L ps (st\<lparr>ei_args_used := ei_args_used st + used\<rparr>))" for used
    by (rule keepsI) (rule keepsD [OF step_statement_works], simp_all)
  then have "keeps ?P (or_item (on_db (handle_reset L (ps_handle ps))) (\<lambda>_.
     or_item (on_db (clear_bindings L (ps_handle ps))) (\<lambda>_.
     or_item (on_db (bind_arguments L K (ei_args st) (ps_handle ps) (ei_args_used st))) (\<lambda>used st.
     step_statement L ps (st\<lparr>ei_args_used := ei_args_used st + used\<rparr>)))))"
    by (intro keeps_or_item on_db_works reset_keeps clear_keeps bind_arguments_keeps)
  from keepsD [OF this _ run [unfolded start_statement_def]] st show "?P st'" by simp
qed

lemma execute_next_holds: "keeps (iter_holds base) (execute_next L K)"
proof (rule keepsI)
  fix st r st'
  assume h: "iter_holds base st" and run: "execute_next L K st = Some (r, st')"
  show "iter_holds base st'"
  proof (cases "ei_goto_next st")
    case False
    show ?thesis
    proof (cases "\<exists>ps. current (ei_stmt st) = Ok (Some ps)")
      case True
      then obtain ps where ps: "current (ei_stmt st) = Ok (Some ps)" ..
      with run False have s: "step_statement L ps st = Some (r, st')" by (simp add: execute_next_def or_item_def)
      have "works_on base (ps_handle ps) st" using h current_handle [OF ps] by (simp add: works_on_def)
      from keepsD [OF step_statement_works this s] show ?thesis by (simp add: works_on_def)
    next
      case n: False
      with run False h show ?thesis
        by (auto simp: execute_next_def or_item_def aret_def split: res.splits option.splits)
    qed
  next
    case True
    with run obtain pr vs d where p: "prepare_next L (ei_stmt st, ei_db st) = Some (pr, vs, d)"
      by (auto simp: execute_next_def or_item_def on_stmt_def bind_eq_Some_conv)
    let ?st = "st\<lparr>ei_stmt := vs, ei_db := d\<rparr>"
    from prepare_next_holds [OF p] h have h1: "iter_holds base ?st" "\<And>ps. pr = Ok (Some ps) \<Longrightarrow> ps_handle ps \<in> set (vs_handles vs)"
      by (auto simp: iter_holds_def)
    show ?thesis
    proof (cases "\<exists>ps. pr = Ok (Some ps)")
      case ps: True
      then obtain ps where ps: "pr = Ok (Some ps)" ..
      with run True p have s: "start_statement L K ps ?st = Some (r, st')" by (simp add: execute_next_def or_item_def on_stmt_def)
      have "works_on base (ps_handle ps) ?st" using h1 ps by (simp add: works_on_def)
      from keepsD [OF start_statement_works this s] show ?thesis by (simp add: works_on_def)
    next
      case n: False
      with run True p h1(1) show ?thesis
        by (auto simp: execute_next_def or_item_def on_stmt_def aret_def split: res.splits option.splits)
    qed
  qed
qed

end

lemma drive_keeps:
  fixes nxt :: "('st, 'i option) aop"
  assumes "drive nxt stop lag left acc st = Some (xs, crashed, st')" and "keeps P nxt" and "P st"
  shows "P st'"
proof -
  let ?P = "\<lambda>n stop lag left acc st y. n = nxt \<longrightarrow> P st \<longrightarrow> P (snd (snd y))"
  have "?P nxt stop lag left acc st (xs, crashed, st')"
  proof (rule drive.raw_induct [where P = ?P, rotated, OF assms(1)], intro impI)
    fix f :: "('st, 'i option) aop \<Rightarrow> ('i \<Rightarrow> bool) \<Rightarrow> nat \<Rightarrow> nat option \<Rightarrow> 'i list \<Rightarrow> 'st \<Rightarrow> ('i list \<times> bool \<times> 'st) option"
      and n stop lag left acc st y
    assume IH: "\<And>n stop lag left acc st y. f n stop lag left acc st = Some y \<Longrightarrow> ?P n stop lag left acc st y" and n: "n = nxt" and st: "P st"
      and y: "Option.bind (n st) (\<lambda>p. case fst p of
         Panic \<Rightarrow> Some (acc, True, snd p)
       | Err _ \<Rightarrow> Some (acc, False, snd p)
       | Ok None \<Rightarrow> Some (acc, False, snd p)
       | Ok (Some x) \<Rightarrow>
           case left of
             None \<Rightarrow> f n stop lag (if stop x then Some lag else None) (acc @ [x]) (snd p)
           | Some k \<Rightarrow> if k = 0 then Some (acc, False, snd p) else f n stop lag (Some (k - 1)) acc (snd p)) = Some y"
    then obtain r st1 where p: "nxt st = Some (r, st1)" by (auto simp: bind_eq_Some_conv)
    with assms(2) st have st1: "P st1" by (rule keepsD)
    from y p n have "snd (snd y) = st1 \<or> (\<exists>left acc. f nxt stop lag left acc st1 = Some y)"
      by (auto split: res.splits option.splits if_splits)
    with IH st1 show "P (snd (snd y))" by blast
  qed
  with assms(3) show ?thesis by simp
qed

context sqlite_handles
begin

lemma prepare_all_holds: "keeps (holds base) (prepare_all L parameters columns)"
proof (rule keepsI)
  let ?P = "\<lambda>M n cols st y. M = L \<longrightarrow> holds base st \<longrightarrow> holds base (snd y)"
  fix st r st'
  assume h: "holds base st" and run: "prepare_all L parameters columns st = Some (r, st')"
  have "?P L parameters columns st (r, st')"
  proof (rule prepare_all.raw_induct [where P = ?P, rotated, OF run], intro impI)
    fix f :: "('db, 's, 'v) sqlite3 \<Rightarrow> nat \<Rightarrow> (sqlite_column list \<times> (bytes \<rightharpoonup> nat)) option \<Rightarrow> 's virtual_statement \<times> 'db \<Rightarrow>
        ((nat \<times> (sqlite_column list \<times> (bytes \<rightharpoonup> nat)) option) res \<times> 's virtual_statement \<times> 'db) option"
      and M n cols st y
    assume IH: "\<And>M n cols st y. f M n cols st = Some y \<Longrightarrow> ?P M n cols st y" and M: "M = L" and st: "holds base st"
      and y: "abind (prepare_next M) (\<lambda>p. case p of None \<Rightarrow> aret (n, cols)
       | Some ps \<Rightarrow> (\<lambda>st. f M (n + sqlite3_bind_parameter_count M (snd st) (ps_handle ps))
           (if ps_columns ps \<noteq> [] \<and> cols = None then Some (ps_columns ps, ps_column_names ps) else cols) st)) st = Some y"
    then obtain pr st1 where p: "prepare_next L st = Some (pr, st1)" by (auto simp: abind_def bind_eq_Some_conv)
    from prepare_next_holds [OF p st] have st1: "holds base st1" by blast
    show "holds base (snd y)"
    proof (cases "\<exists>ps. pr = Ok (Some ps)")
      case True
      then obtain ps where "pr = Ok (Some ps)" ..
      with y p M obtain n' cols' where "f L n' cols' st1 = Some y" by (auto simp: abind_def)
      from IH [OF this] st1 show ?thesis by simp
    next
      case False
      with y p M st1 show ?thesis by (auto simp: abind_def aret_def split: res.splits option.splits)
    qed
  qed
  with h show "holds base st'" by simp
qed

lemma run_iter_holds:
  fixes E :: "('db, 's, 'v, 'c, 'dt) sqlite_env"
  assumes "se_L E = L"
  shows "keeps (holds base) (run_iter E stop lag args)"
proof (rule keepsI)
  fix st st' :: "'s virtual_statement \<times> 'db" and r
  let ?it = "\<lparr>ei_args = args, ei_args_used = 0, ei_goto_next = True, ei_stmt = fst st, ei_db = snd st\<rparr>"
  assume h: "holds base st" and "run_iter E stop lag args st = Some (r, st')"
  then obtain items crashed it x where
    d: "drive (execute_next L (se_K E)) stop lag None [] ?it = Some (items, crashed, it)"
      "virtual_reset L (ei_stmt it, ei_db it) = Some (x, st')"
    using assms by (auto simp: run_iter_def bind_eq_Some_conv)
  have "iter_holds base ?it" using h by (simp add: iter_holds_def)
  from drive_keeps [OF d(1) execute_next_holds this] have "holds base (ei_stmt it, ei_db it)" by (simp add: iter_holds_def)
  from keepsD [OF virtual_reset_holds this d(2)] show "holds base st'" .
qed

end

section \<open>Connections\<close>

locale sqlite_owner = sqlite_handles "se_L E" opened + lru_laws "se_C E" recency ok
  for E :: "('db, 's, 'v, 'c, 'dt) sqlite_env" and opened :: "'db \<Rightarrow> 's set"
    and recency :: "'c \<Rightarrow> 's virtual_statement recency" and ok :: "'c \<Rightarrow> bool" +
  assumes owned_law: "ok c \<Longrightarrow> mset (se_owned E c) = mset (map snd (recency c))"

definition open_handles :: "('c \<Rightarrow> 's virtual_statement recency) \<Rightarrow> ('db, 's, 'c) connection_state \<Rightarrow> 's list" where
  "open_handles recency c = handles_of (map snd (recency (cs_cached c)) @ temp_list c)"

context sqlite_owner
begin

definition owned_by :: "'db \<Rightarrow> 's virtual_statement list \<Rightarrow> bool" where
  "owned_by d vss = (distinct (handles_of vss) \<and> opened d = set (handles_of vss))"

definition owned :: "('db, 's, 'c) connection_state \<Rightarrow> bool" where
  "owned c = (ok (cs_cached c) \<and> owned_by (cs_db c) (map snd (recency (cs_cached c)) @ temp_list c))"

lemma owned_by_mset: "mset xs = mset ys \<Longrightarrow> owned_by d xs = owned_by d ys"
  using handles_of_mset [of xs ys] by (metis mset_eq_imp_distinct_iff mset_eq_setD owned_by_def)

lemma owned_by_Cons: "owned_by d (vs # rest) \<longleftrightarrow> holds (set (handles_of rest)) (vs, d) \<and> distinct (handles_of rest)"
  by (auto simp: owned_by_def holds_def handles_of_Cons)

lemma drop_handles_closes:
  assumes "distinct hs" and "set hs \<subseteq> opened d"
  shows "\<exists>d'. drop_handles (se_L E) hs d = Some (Ok (), d') \<and> opened d' = opened d - set hs"
  using assms
proof (induction hs arbitrary: d)
  case (Cons s hs)
  then obtain c d1 where d1: "sqlite3_finalize (se_L E) d s = (c, d1)" "c \<noteq> 21" "opened d1 = opened d - {s}"
    using finalize_frame [of s d] by auto
  from Cons d1(3) obtain d2 where "drop_handles (se_L E) hs d1 = Some (Ok (), d2)" "opened d2 = opened d1 - set hs" by force
  with d1 show ?case by (intro exI [of _ d2]) (auto simp: abind_def handle_drop_def)
qed simp

lemma owned_by_drop:
  assumes "owned_by d (gone @ rest)"
  shows "\<exists>d'. drop_handles (se_L E) (handles_of gone) d = Some (Ok (), d') \<and> owned_by d' rest"
proof -
  have h: "handles_of (gone @ rest) = handles_of gone @ handles_of rest" by (simp add: handles_of_def)
  from assms drop_handles_closes [of "handles_of gone" d] show ?thesis by (auto simp: owned_by_def h)
qed

lemma drop_virtual_owned:
  assumes "owned_by (cs_db c) ((case v of None \<Rightarrow> [] | Some w \<Rightarrow> [w]) @ rest)"
  shows "\<exists>d'. drop_virtual E v c = Some (Ok (), c\<lparr>cs_db := d'\<rparr>) \<and> owned_by d' rest"
proof -
  from owned_by_drop [OF assms] obtain d' where
    "drop_handles (se_L E) (handles_of (case v of None \<Rightarrow> [] | Some w \<Rightarrow> [w])) (cs_db c) = Some (Ok (), d')" "owned_by d' rest" by blast
  then show ?thesis by (intro exI [of _ d'], cases v) (simp_all add: drop_virtual_def on_handle_def handles_of_def)
qed

lemma with_statement_owned:
  assumes "\<And>base. keeps (holds base) m"
  shows "keeps owned (with_statement E cached q m)"
proof (rule keepsI)
  fix c r c'
  assume c: "owned c" and run: "with_statement E cached q m c = Some (r, c')"
  show "owned c'"
  proof (cases cached)
    case False
    show ?thesis
    proof (cases "cs_temp c")
      case None
      with run False c show ?thesis by (simp add: with_statement_def)
    next
      case (Some vs)
      with run False obtain vs' d' where
        m: "m (vs, cs_db c) = Some (r, vs', d')" "c' = c\<lparr>cs_temp := Some vs', cs_db := d'\<rparr>" by (auto simp: with_statement_def)
      let ?rest = "map snd (recency (cs_cached c))"
      from c Some have "owned_by (cs_db c) (?rest @ [vs])" by (simp add: owned_def temp_list_def)
      then have "owned_by (cs_db c) (vs # ?rest)" by (rule owned_by_mset [THEN iffD1, rotated]) simp
      with keepsD [OF assms _ m(1)] have "owned_by d' (vs' # ?rest)" by (simp add: owned_by_Cons)
      then have "owned_by d' (?rest @ [vs'])" by (rule owned_by_mset [THEN iffD1, rotated]) simp
      with c m(2) show ?thesis by (simp add: owned_def temp_list_def)
    qed
  next
    case True
    have ok: "ok (cs_cached c)" using c by (simp add: owned_def)
    from get_mut_law [OF ok, of q id] have f: "fst (cache_get_mut (se_C E) (cs_cached c) q id) = map_of (recency (cs_cached c)) q"
      by (auto simp: cache_get_mut_def)
    show ?thesis
    proof (cases "map_of (recency (cs_cached c)) q")
      case None
      with run True f c show ?thesis by (simp add: with_statement_def)
    next
      case (Some vs)
      with run True f obtain vs' d' where
        m: "m (vs, cs_db c) = Some (r, vs', d')"
          "c' = c\<lparr>cs_cached := snd (cache_get_mut (se_C E) (cs_cached c) q (\<lambda>_. vs')), cs_db := d'\<rparr>" by (auto simp: with_statement_def)
      from get_mut_law [OF ok, of q "\<lambda>_. vs'"] Some obtain k' where
        k': "snd (lru_get_mut (se_C E) (cs_cached c) q (\<lambda>_. vs')) = k'" "ok k'" "recency k' = (q, vs') # drop_key q (recency (cs_cached c))"
        by (auto simp: spec_get_def)
      let ?rest = "map snd (drop_key q (recency (cs_cached c))) @ temp_list c"
      have "mset (map snd (recency (cs_cached c)) @ temp_list c) = mset (vs # ?rest)"
        using mset_drop_key [OF _ Some] ok_recency [OF ok] by (simp add: recency_ok_def)
      then have "owned_by (cs_db c) (vs # ?rest)" using c owned_by_mset by (metis owned_def)
      with keepsD [OF assms _ m(1)] have "owned_by d' (vs' # ?rest)" by (simp add: owned_by_Cons)
      with m(2) k' show ?thesis by (simp add: owned_def cache_get_mut_def temp_list_def)
    qed
  qed
qed

lemma new_has_no_handles: "virtual_new q p = Ok v \<Longrightarrow> vs_handles v = []"
  by (auto simp: virtual_new_def Let_def split: if_splits)

lemma statements_get_owned: "keeps owned (statements_get E q p)"
proof (rule keepsI)
  fix c r c'
  assume c: "owned c" and run: "statements_get E q p c = Some (r, c')"
  consider (temp) "\<not> p \<or> \<not> cache_is_enabled (se_C E) (cs_cached c)"
    | (new) "p" "cache_is_enabled (se_C E) (cs_cached c)" "\<not> cache_contains_key (se_C E) (cs_cached c) q"
    | (again) "p" "cache_is_enabled (se_C E) (cs_cached c)" "cache_contains_key (se_C E) (cs_cached c) q" by blast
  then show "owned c'"
  proof cases
    case again
    have "keeps owned (abind (with_statement E True q (virtual_reset (se_L E))) (\<lambda>_. aret True))"
      by (intro keeps_abind with_statement_owned virtual_reset_holds keeps_aret)
    from keepsD [OF this c] again run show ?thesis by (simp add: statements_get_def)
  next
    case temp
    show ?thesis
    proof (cases "virtual_new q False :: 's virtual_statement res")
      case (Ok v)
      let ?rest = "map snd (recency (cs_cached c))"
      from c have "owned_by (cs_db c) (?rest @ temp_list c)" by (simp add: owned_def)
      then have "owned_by (cs_db c) (temp_list c @ ?rest)" by (rule owned_by_mset [THEN iffD1, rotated]) simp
      with drop_virtual_owned [of c "cs_temp c" ?rest] obtain d' where
        d': "drop_virtual E (cs_temp c) c = Some (Ok (), c\<lparr>cs_db := d'\<rparr>)" "owned_by d' ?rest" by (auto simp: temp_list_def)
      from run temp Ok d'(1) have "c' = c\<lparr>cs_db := d', cs_temp := Some v\<rparr>"
        by (simp add: statements_get_def abind_def alift_def athen_def amodify_def aret_def)
      moreover have "owned_by d' (?rest @ [v])" using d'(2) new_has_no_handles [OF Ok] by (simp add: owned_by_def handles_of_def)
      ultimately show ?thesis using c by (simp add: owned_def temp_list_def)
    qed (use run temp c in \<open>auto simp: statements_get_def abind_def alift_def\<close>)
  next
    case new
    have ok: "ok (cs_cached c)" using c by (simp add: owned_def)
    show ?thesis
    proof (cases "virtual_new q True :: 's virtual_statement res")
      case (Ok v)
      from cache_insert_refines [OF ok, of q v] obtain k where
        k: "cache_insert (se_C E) (cs_cached c) q v = (fst (spec_insert (lru_cap (se_C E) (cs_cached c)) q v (recency (cs_cached c))), k)"
          "ok k" "recency k = snd (spec_insert (lru_cap (se_C E) (cs_cached c)) q v (recency (cs_cached c)))" by blast
      let ?ev = "fst (spec_insert (lru_cap (se_C E) (cs_cached c)) q v (recency (cs_cached c)))"
      let ?gone = "case ?ev of None \<Rightarrow> [] | Some w \<Rightarrow> [w]" and ?rest = "map snd (recency k) @ temp_list c"
      have h: "mset (map snd (recency k)) + mset ?gone = add_mset v (mset (map snd (recency (cs_cached c))))"
        using spec_insert_conserves [OF ok_recency [OF ok], of q v] unfolding k(3) .
      have "mset (?gone @ ?rest) = (mset (map snd (recency k)) + mset ?gone) + mset (temp_list c)"
        by (simp only: mset_append ac_simps)
      also have "\<dots> = mset (v # map snd (recency (cs_cached c)) @ temp_list c)" unfolding h by simp
      finally have "mset (?gone @ ?rest) = mset (v # map snd (recency (cs_cached c)) @ temp_list c)" .
      moreover have "owned_by (cs_db c) (v # map snd (recency (cs_cached c)) @ temp_list c)"
        using c new_has_no_handles [OF Ok] by (simp add: owned_def owned_by_def handles_of_def)
      ultimately have "owned_by (cs_db c) (?gone @ ?rest)" by (rule owned_by_mset [THEN iffD2])
      with drop_virtual_owned [of "c\<lparr>cs_cached := k\<rparr>" ?ev ?rest] obtain d' where
        d': "drop_virtual E ?ev (c\<lparr>cs_cached := k\<rparr>) = Some (Ok (), c\<lparr>cs_cached := k, cs_db := d'\<rparr>)" "owned_by d' ?rest" by auto
      let ?c = "c\<lparr>cs_cached := k, cs_db := d'\<rparr>"
      have c1: "owned ?c" using d'(2) k(2) by (simp add: owned_def temp_list_def)
      have "keeps owned (abind (with_statement E True q (aret ())) (\<lambda>_. aret True))"
        by (intro keeps_abind with_statement_owned keeps_aret)
      from keepsD [OF this c1] run new Ok k(1) d'(1) show ?thesis
        by (simp add: statements_get_def abind_def alift_def amodify_def)
    qed (use run new c in \<open>auto simp: statements_get_def abind_def alift_def\<close>)
  qed
qed

lemma prepare_owned: "keeps owned (worker_prepare E q)"
  unfolding worker_prepare_def
  by (intro keeps_abind statements_get_owned with_statement_owned prepare_all_holds) (simp add: keeps_aret split: prod.split)

lemma execute_owned: "keeps owned (worker_execute E stop lag q args persistent)"
  unfolding worker_execute_def
  by (intro keeps_abind statements_get_owned with_statement_owned run_iter_holds refl)

lemma collation_owned: "keeps owned (on_handle (create_collation (se_L E) nm cmp))"
  by (auto simp: keeps_def on_handle_def create_collation_def sqlite_status_def owned_def owned_by_def temp_list_def
      dest!: collation_frame split: if_splits prod.splits)

lemma clear_closes:
  assumes "owned c"
  shows "\<exists>c'. statements_clear E c = Some (Ok (), c') \<and> owned c' \<and> opened (cs_db c') = {} \<and> recency (cs_cached c') = [] \<and> cs_temp c' = None"
proof -
  have ok: "ok (cs_cached c)" and own: "owned_by (cs_db c) (map snd (recency (cs_cached c)) @ temp_list c)"
    using assms by (simp_all add: owned_def)
  have "mset (map snd (recency (cs_cached c)) @ temp_list c) = mset (se_owned E (cs_cached c) @ temp_list c)"
    using owned_law [OF ok] by simp
  from owned_by_drop [OF owned_by_mset [THEN iffD1, OF this own]] obtain d1 where
    d1: "drop_handles (se_L E) (handles_of (se_owned E (cs_cached c))) (cs_db c) = Some (Ok (), d1)" "owned_by d1 (temp_list c)" by blast
  let ?c = "c\<lparr>cs_db := d1, cs_cached := lru_clear (se_C E) (cs_cached c)\<rparr>"
  from drop_virtual_owned [of ?c "cs_temp c" "[]"] d1(2) obtain d2 where
    d2: "drop_virtual E (cs_temp c) ?c = Some (Ok (), ?c\<lparr>cs_db := d2\<rparr>)" "owned_by d2 []" by (auto simp: temp_list_def)
  let ?c2 = "?c\<lparr>cs_db := d2, cs_temp := None\<rparr>"
  have "statements_clear E c = Some (Ok (), ?c2)"
    using d1(1) d2(1) by (simp add: statements_clear_def abind_def on_handle_def handles_of_def amodify_def cache_clear_def)
  moreover have "owned ?c2" using clear_law [OF ok] d2(2) by (simp add: owned_def temp_list_def)
  ultimately show ?thesis using clear_law [OF ok] d2(2) by (auto simp: owned_by_def handles_of_def)
qed

lemma clear_owned: "keeps owned (statements_clear E)"
  using clear_closes by (fastforce simp: keeps_def)

lemma command_owned:
  assumes "worker_command E cmd c = Some (r, c')" and "owned (sn_state c)"
  shows "owned (sn_state c')"
proof (cases cmd)
  case (Cmd_Prepare q)
  with assms(1) have "\<exists>x. worker_prepare E q (sn_state c) = Some (x, sn_state c')"
    by (cases "worker_prepare E q (sn_state c)" rule: aop_result_cases)
      (auto simp: worker_command_def Let_def update_cached_statements_size_def)
  then show ?thesis using keepsD [OF prepare_owned assms(2)] by blast
next
  case (Cmd_Execute q args p stop lag)
  with assms(1) have "\<exists>x. worker_execute E stop lag q args p (sn_state c) = Some (x, sn_state c')"
    by (cases "worker_execute E stop lag q args p (sn_state c)" rule: aop_result_cases)
      (auto simp: worker_command_def Let_def update_cached_statements_size_def split: prod.splits if_splits)
  then show ?thesis using keepsD [OF execute_owned assms(2)] by blast
next
  case (Cmd_CreateCollation nm cmp)
  with assms(1) have "\<exists>x. on_handle (create_collation (se_L E) nm cmp) (sn_state c) = Some (x, sn_state c')"
    by (auto simp: worker_command_def)
  then show ?thesis using keepsD [OF collation_owned assms(2)] by blast
next
  case Cmd_ClearCache
  with assms(1) have "\<exists>x. statements_clear E (sn_state c) = Some (x, sn_state c')"
    by (cases "statements_clear E (sn_state c)" rule: aop_result_cases)
      (auto simp: worker_command_def Let_def update_cached_statements_size_def)
  then show ?thesis using keepsD [OF clear_owned assms(2)] by blast
qed (use assms in \<open>auto simp: worker_command_def\<close>)

lemma loop_owned:
  assumes "worker_loop E cmds c = Some (rs, c')" and "owned (sn_state c)"
  shows "owned (sn_state c')"
  using assms
proof (induction cmds arbitrary: c rs)
  case (Cons cmd cmds)
  show ?case
  proof (cases "sn_running c")
    case True
    with Cons.prems(1) obtain r c1 rs1 where
      "worker_command E cmd c = Some (r, c1)" "worker_loop E cmds c1 = Some (rs1, c')" by (auto simp: bind_eq_Some_conv)
    with Cons.IH Cons.prems(2) command_owned show ?thesis by blast
  qed (use Cons.prems in simp)
qed simp

lemma calls_owned:
  assumes "connection_calls E cmds c = Some (os, c')" and "owned (sn_state c)"
  shows "owned (sn_state c')"
  using assms loop_owned by (auto simp: connection_calls_are_the_worker_loop)

lemma establish_owned:
  assumes "worker_establish E p n = Ok c"
  shows "owned (sn_state c)"
proof -
  from assms obtain st where st: "establish_database E p = Ok st" "sn_state c = st"
    by (auto simp: worker_establish_def split: res.splits)
  then obtain d c0 d' k where
    d: "sqlite3_open_v2 (se_L E) (ep_filename p) (ep_open_flags p) = (0, Some d)"
      "sqlite3_busy_timeout (se_L E) (sqlite3_extended_result_codes (se_L E) d) (int (ep_busy_timeout p)) = (c0, d')"
      "cache_new (se_C E) (ep_statement_cache_capacity p) = Ok k" "st = \<lparr>cs_db = d', cs_cached = k, cs_temp = None\<rparr>"
    by (auto simp: establish_database_def close_on_error_def Let_def res_iff split: prod.splits option.splits if_splits)
  have "ok k \<and> recency k = []" using d(3) new_law by (auto simp: cache_new_def split: if_splits)
  with timeout_law [OF d(2)] codes_law open_law [OF d(1)] d(4) st(2) show ?thesis
    by (simp add: owned_def owned_by_def temp_list_def handles_of_def)
qed

lemma drop_closes:
  assumes "owned (sn_state c)"
  shows "\<exists>c'. sqlite_conn_drop E c = Some (Ok (), c')"
proof -
  from clear_closes [OF assms] obtain s1 where s1: "statements_clear E (sn_state c) = Some (Ok (), s1)" "opened (cs_db s1) = {}" by blast
  from close_frame [OF s1(2)] obtain d' where "sqlite3_close (se_L E) (cs_db s1) = (0, d')" by blast
  with s1(1) show ?thesis by (simp add: sqlite_conn_drop_def on_worker_def connection_drop_def database_drop_def abind_def on_handle_def)
qed

end

section \<open>The small engine\<close>

definition toy_opened :: "toy_db \<Rightarrow> nat set" where
  "toy_opened d = dom (view toy_abs d)"

lemma toy_opened_set: "s \<in> toy_opened d \<Longrightarrow> toy_opened (toy_set d s w) = toy_opened d"
  by (auto simp: toy_opened_def)

lemma toy_opened_data [simp]: "toy_opened (d\<lparr>toy_data := b\<rparr>) = toy_opened d"
  by (simp add: toy_opened_def)

interpretation toy_handles: sqlite_handles toy_lib toy_opened
proof unfold_locales
  fix d :: toy_db and s :: nat and c d'
  assume "sqlite3_step toy_lib d s = (c, d')" "s \<in> toy_opened d"
  then show "toy_opened d' = toy_opened d"
    by (auto simp: toy_lib_def toy_step_def Let_def toy_opened_set split: stmt_phase.splits list.splits option.splits prod.splits)
next
  fix d :: toy_db and a and s i :: nat and r d'
  assume "argument_bind toy_lib a s i d = Some (r, d')" "s \<in> toy_opened d"
  then show "toy_opened d' = toy_opened d"
    by (cases a) (auto simp: argument_bind_def sqlite_status_def toy_lib_def toy_bind_def Let_def toy_opened_set)
next
  fix d :: toy_db and q p c h n d'
  assume "sqlite3_prepare_v3 toy_lib d q p = ((c, h, n), d')"
  then show "case h of None \<Rightarrow> toy_opened d' = toy_opened d
      | Some s \<Rightarrow> c = 0 \<and> n \<le> length q \<and> s \<notin> toy_opened d \<and> toy_opened d' = insert s (toy_opened d)"
    using toy_fresh [of "toy_stmts d"]
    by (auto simp: toy_lib_def toy_prepare_def Let_def toy_opened_def toy_abs_def toy_meaning_def split: if_splits)
next
  fix d :: toy_db and s :: nat
  assume "s \<in> toy_opened d"
  have "map_of (filter (\<lambda>p. fst p \<noteq> s) es) = (map_of es)(s := None)" for es :: "(nat \<times> toy_view) list"
    by (induction es) (auto simp: fun_eq_iff)
  then show "\<exists>c d'. sqlite3_finalize toy_lib d s = (c, d') \<and> c \<noteq> 21 \<and> toy_opened d' = toy_opened d - {s}"
    by (auto simp: toy_lib_def toy_opened_def toy_abs_def)
next
  fix d :: toy_db
  assume "toy_opened d = {}"
  then show "\<exists>d'. sqlite3_close toy_lib d = (0, d')" by (simp add: toy_lib_def toy_opened_def toy_abs_def)
qed (auto simp: toy_lib_def toy_opened_set, simp_all add: toy_opened_def toy_abs_def)

lemma toy_owner_laws: "sqlite_owner toy_env toy_opened lru_entries lru_list_ok"
  by (intro sqlite_owner.intro sqlite_owner_axioms.intro)
    (simp_all add: toy_env_def toy_handles.sqlite_handles_axioms lists.lru_laws_axioms)

interpretation toy_owner: sqlite_owner toy_env toy_opened lru_entries lru_list_ok
  by (rule toy_owner_laws)

section \<open>Properties\<close>

text \<open>C21: A SQLite connection owns its statement handles.  After it was opened and after any calls, whatever they were and whether they
  succeeded, failed or made the worker panic, the statements open in the library are exactly those of its cached statements and
  of the temporary one, each once; so dropping the connection finalizes each of them once and closes the database without a panic,
  and while the worker runs, clearing the cache finalizes them all.\<close>

theorem sqlite_drop_closes:
  assumes "sqlite_owner E opened recency ok" and "worker_establish E p n = Ok c" and "connection_calls E cmds c = Some (os, c')"
  shows "distinct (open_handles recency (sn_state c')) \<and> opened (cs_db (sn_state c')) = set (open_handles recency (sn_state c')) \<and>
    (\<exists>c''. sqlite_conn_drop E c' = Some (Ok (), c'')) \<and>
    (sn_running c' \<longrightarrow> (\<exists>c''. clear_cache E c' = Some (Ok (), c'') \<and> sn_running c'' \<and> sn_cached_size c'' = 0 \<and>
      opened (cs_db (sn_state c'')) = {}))"
proof -
  have o: "sqlite_owner.owned opened recency ok (sn_state c')"
    using sqlite_owner.calls_owned [OF assms(1,3)] sqlite_owner.establish_owned [OF assms(1,2)] by blast
  then have h: "distinct (open_handles recency (sn_state c'))" "opened (cs_db (sn_state c')) = set (open_handles recency (sn_state c'))"
    unfolding sqlite_owner.owned_def [OF assms(1)] sqlite_owner.owned_by_def [OF assms(1)] open_handles_def by simp_all
  from sqlite_owner.clear_closes [OF assms(1) o] obtain s2 where
    s2: "statements_clear E (sn_state c') = Some (Ok (), s2)" "sqlite_owner.owned opened recency ok s2" "opened (cs_db s2) = {}"
      "recency (cs_cached s2) = []" by blast
  have "lru_len (se_C E) (cs_cached s2) = 0"
    using lru_laws.len_law [OF sqlite_owner.axioms(2) [OF assms(1)]] s2(2,4) sqlite_owner.owned_def [OF assms(1)] by auto
  with s2 have "sn_running c' \<longrightarrow> (\<exists>c''. clear_cache E c' = Some (Ok (), c'') \<and> sn_running c'' \<and> sn_cached_size c'' = 0 \<and>
      opened (cs_db (sn_state c'')) = {})"
    by (simp add: clear_cache_def oneshot_cmd_def on_worker_def abind_def amodify_def
        update_cached_statements_size_def statements_len_def cache_len_def)
  with h sqlite_owner.drop_closes [OF assms(1) o] show ?thesis by blast
qed

definition toy_params :: establish_params where
  "toy_params = \<lparr>ep_filename = lit ''a'', ep_open_flags = 0, ep_busy_timeout = 0, ep_statement_cache_capacity = 2,
     ep_thread_name = [], ep_command_channel_size = 50\<rparr>"

lemma toy_established: "worker_establish toy_env toy_params 50 = Ok toy_conn"
  by (simp add: worker_establish_def establish_database_def toy_params_def toy_env_def toy_lib_def cache_new_def list_lru_def toy_conn_def Let_def)

lemma toy_trimmed: "trim (lit ''Q;'') = lit ''Q;''"
  by code_simp

abbreviation toy_text :: "nat virtual_statement" where
  "toy_text \<equiv> \<lparr>vs_persistent = True, vs_index = None, vs_tail = lit ''Q;'', vs_handles = [], vs_columns = [], vs_column_names = []\<rparr>"

abbreviation toy_state :: "nat virtual_statement \<Rightarrow> toy_db \<Rightarrow> (toy_db, nat, nat virtual_statement lru_list) connection_state" where
  "toy_state v d \<equiv> \<lparr>cs_db = d, cs_cached = \<lparr>lru_limit = 2, lru_entries = [(lit ''Q;'', v)]\<rparr>, cs_temp = None\<rparr>"

lemma toy_with:
  "with_statement toy_env True (lit ''Q;'') m (toy_state v d) = map_option (\<lambda>(r, v, d). (r, toy_state v d)) (m (v, d))"
  by (simp add: with_statement_def toy_env_def cache_get_mut_def list_lru_def spec_get_def drop_key_def)

lemma toy_get:
  "statements_get toy_env (lit ''Q;'') True (sn_state toy_conn) = Some (Ok True, toy_state toy_text (cs_db (sn_state toy_conn)))"
proof -
  have i: "cache_insert (se_C toy_env) (cs_cached (sn_state toy_conn)) (lit ''Q;'') toy_text = (None, \<lparr>lru_limit = 2, lru_entries = [(lit ''Q;'', toy_text)]\<rparr>)"
    by (simp add: cache_insert_def cache_capacity_def cache_len_def cache_contains_key_def toy_env_def list_lru_def toy_conn_def spec_insert_def)
  have e: "cache_is_enabled (se_C toy_env) (cs_cached (sn_state toy_conn))" "\<not> cache_contains_key (se_C toy_env) (cs_cached (sn_state toy_conn)) q" for q
    by (simp_all add: cache_is_enabled_def cache_capacity_def cache_contains_key_def toy_env_def list_lru_def toy_conn_def)
  have c: "(sn_state toy_conn)\<lparr>cs_cached := k\<rparr> = \<lparr>cs_db = cs_db (sn_state toy_conn), cs_cached = k, cs_temp = None\<rparr>" for k
    by (simp add: toy_conn_def)
  have n: "virtual_new (lit ''Q;'') True = Ok toy_text" unfolding virtual_new_def toy_trimmed by (simp add: Let_def)
  show ?thesis unfolding statements_get_def n
    by (simp add: e i abind_def alift_def amodify_def aret_def drop_virtual_def on_handle_def c toy_with del: lit_Cons)
qed

lemma toy_prepares:
  "\<exists>r v d. prepare_all toy_lib 0 None (toy_text, cs_db (sn_state toy_conn)) = Some (Ok r, v, d) \<and> vs_handles v = [1]"
proof -
  let ?d = "cs_db (sn_state toy_conn)"
  let ?w = "\<lparr>sw_sql = lit ''Q;'', sw_columns = [lit ''x''], sw_bound = Map.empty, sw_phase = At_Start\<rparr> :: toy_view"
  let ?d1 = "?d\<lparr>toy_stmts := [(Suc 0, ?w)]\<rparr>"
  have p: "prepare_stmt toy_lib True (lit ''Q;'') ?d = Some (Ok (Some (Suc 0)), [], ?d1)"
    by (subst prepare_stmt.simps) (simp add: toy_lib_def toy_prepare_def toy_meaning_def Let_def toy_conn_def starts_with_def)
  have "\<exists>c nm. describe_loop toy_lib ?d1 (Suc 0) [0..<sqlite3_column_count toy_lib ?d1 (Suc 0)] [] Map.empty = Ok (c, nm)"
    by (simp add: toy_lib_def toy_get_def toy_conn_def column_decltype_def column_type_info_def data_type_from_code_def Let_def)
  then obtain c nm where c: "describe_loop toy_lib ?d1 (Suc 0) [0..<sqlite3_column_count toy_lib ?d1 (Suc 0)] [] Map.empty = Ok (c, nm)" by blast
  let ?v = "\<lparr>vs_persistent = True, vs_index = Some 0, vs_tail = [], vs_handles = [Suc 0], vs_columns = [c], vs_column_names = [nm]\<rparr> :: nat virtual_statement"
  have ne: "lit ''Q;'' \<noteq> []" by simp
  let ?ps = "\<lparr>ps_handle = Suc 0, ps_columns = c, ps_column_names = nm\<rparr> :: nat prepared_statement"
  have l: "prepare_loop toy_lib (?v, ?d1) = Some (Ok (Some ?ps), ?v, ?d1)"
    by (subst prepare_loop.simps) (simp add: current_def index_def or_default_def)
  have n1: "prepare_next toy_lib (toy_text, ?d) = Some (Ok (Some ?ps), ?v, ?d1)"
    unfolding prepare_next_def Let_def
    by (subst prepare_loop.simps) (simp add: p c l or_default_def ne Let_def del: lit_Cons)
  have n2: "prepare_next toy_lib (?v, ?d1) = Some (Ok None, ?v\<lparr>vs_index := Some 1\<rparr>, ?d1)"
    unfolding prepare_next_def Let_def by (subst prepare_loop.simps) (simp add: or_default_def)
  have a: "prepare_all toy_lib n cols (?v, ?d1) = Some (Ok (n, cols), ?v\<lparr>vs_index := Some 1\<rparr>, ?d1)" for n cols
    by (subst prepare_all.simps) (simp add: abind_def n2 aret_def del: lit_Cons)
  have "\<exists>r. prepare_all toy_lib 0 None (toy_text, ?d) = Some (Ok r, ?v\<lparr>vs_index := Some 1\<rparr>, ?d1)"
    by (subst prepare_all.simps) (simp add: abind_def n1 a del: lit_Cons)
  then show ?thesis by fastforce
qed

theorem sqlite_drop_closes_witness:
  "\<exists>os c' c''. connection_calls toy_env [Cmd_Prepare (lit ''Q;'')] toy_conn = Some (os, c') \<and>
    open_handles lru_entries (sn_state c') = [1] \<and> toy_opened (cs_db (sn_state c')) = {1} \<and>
    sqlite_conn_drop toy_env c' = Some (Ok (), c'')"
proof -
  from toy_prepares obtain r v d where
    p: "prepare_all toy_lib 0 None (toy_text, cs_db (sn_state toy_conn)) = Some (Ok r, v, d)" "vs_handles v = [1]" by blast
  have L: "se_L toy_env = toy_lib" by (simp add: toy_env_def)
  have "\<exists>x. worker_prepare toy_env (lit ''Q;'') (sn_state toy_conn) = Some (Ok x, toy_state v d)"
    using p(1) by (cases r) (simp add: worker_prepare_def abind_def toy_get toy_with aret_def L del: lit_Cons)
  then have "\<exists>os c'. connection_calls toy_env [Cmd_Prepare (lit ''Q;'')] toy_conn = Some (os, c') \<and> sn_state c' = toy_state v d"
    by (auto simp: toy_conn_def with_outcome_def conn_prepare_def oneshot_cmd_def on_worker_def abind_def athen_def amodify_def aret_def
        update_cached_statements_size_def simp del: lit_Cons)
  then obtain os c' where c': "connection_calls toy_env [Cmd_Prepare (lit ''Q;'')] toy_conn = Some (os, c')" "sn_state c' = toy_state v d" by blast
  have h: "open_handles lru_entries (sn_state c') = [1]" using c'(2) p(2) by (simp add: open_handles_def temp_list_def handles_of_def)
  from sqlite_drop_closes [OF toy_owner_laws toy_established c'(1)] h have
    "toy_opened (cs_db (sn_state c')) = {1}" "\<exists>c''. sqlite_conn_drop toy_env c' = Some (Ok (), c'')" by auto
  with c'(1) h show ?thesis by blast
qed

end
