(* ===== verification/Mssql_Values.thy ===== *)
theory Mssql_Values
  imports Db_Traits Std_Text
begin

text \<open>
  Values of SQL Server (\<open>rbdc-mssql/src/encode.rs\<close>, \<open>decode.rs\<close>): parameters as they are bound to a query, cells as the
  \<open>tiberius\<close> crate delivers them, rows behind the traits.  Values of \<open>tiberius\<close>, \<open>chrono\<close>, \<open>bigdecimal\<close> and \<open>uuid\<close> that the
  driver only passes on are of the type \<open>'o\<close>; what it calls of these crates and of \<open>fastdate\<close> is the argument \<open>K\<close>.
\<close>

section \<open>Model\<close>

text \<open>A cell, with the constructors of \<open>tiberius::ColumnData\<close>.\<close>

datatype 'o column_data =
    CD_U8 "u8 option" | CD_I16 "u16 option" | CD_I32 "u32 option" | CD_I64 "u64 option"
  | CD_F32 "u32 option" | CD_F64 "u64 option" | CD_Bit "bool option" | CD_String "bytes option"
  | CD_Guid "'o option" | CD_Binary "bytes option" | CD_Numeric "'o option" | CD_Xml "'o option"
  | CD_DateTime "'o option" | CD_SmallDateTime "'o option" | CD_Time "'o option" | CD_Date "'o option"
  | CD_DateTime2 "'o option" | CD_DateTimeOffset "'o option"

text \<open>A value given to \<open>Query::bind\<close>, by its Rust type.\<close>

datatype 'o bound =
    B_Bytes "bytes option" | B_Bool bool | B_I32 u32 | B_I64 u64 | B_F32 u32 | B_F64 u64 | B_Str bytes
  | B_Date 'o | B_DateTime 'o | B_Time 'o | B_Decimal 'o | B_Uuid 'o

text \<open>
  The functions of the crates.  \<open>timestamp_nanos_opt\<close>, \<open>timestamp\<close> and \<open>nanosecond\<close> are those of a naive date and time
  taken as UTC, the ones with \<open>zoned\<close> those of a date and time with an offset.  \<open>datetime_value\<close> is the macro \<open>value!\<close> applied
  to a \<open>DateTime\<close>.  The sums of seconds and nanoseconds are those of an \<open>i128\<close>, which the ranges of the crates do not exceed.
\<close>

record ('dt, 'o) mssql_kit = "'dt kit" +
  from_sql_decimal :: "'o column_data \<Rightarrow> 'o option res"
  from_sql_datetime :: "'o column_data \<Rightarrow> 'o option res"
  from_sql_time :: "'o column_data \<Rightarrow> 'o option res"
  from_sql_date :: "'o column_data \<Rightarrow> 'o option res"
  from_sql_zoned :: "'o column_data \<Rightarrow> 'o option res"
  guid_to_string :: "'o \<Rightarrow> bytes"
  xml_to_string :: "'o \<Rightarrow> bytes"
  bigdecimal_to_string :: "'o \<Rightarrow> bytes"
  naive_time_to_string :: "'o \<Rightarrow> bytes"
  naive_date_to_string :: "'o \<Rightarrow> bytes"
  naive_date_from_str :: "bytes \<Rightarrow> 'o res"
  naive_datetime_from_str :: "bytes \<Rightarrow> 'o res"
  naive_time_from_str :: "bytes \<Rightarrow> 'o res"
  bigdecimal_from_str :: "bytes \<Rightarrow> 'o res"
  uuid_from_str :: "bytes \<Rightarrow> 'o option"
  uuid_default :: 'o
  timestamp_nanos_opt :: "'o \<Rightarrow> int option"
  timestamp :: "'o \<Rightarrow> int"
  nanosecond :: "'o \<Rightarrow> int"
  zoned_nanos_opt :: "'o \<Rightarrow> int option"
  zoned_timestamp :: "'o \<Rightarrow> int"
  zoned_nanosecond :: "'o \<Rightarrow> int"
  utc_minus_local :: "'o \<Rightarrow> int"
  local_minus_utc :: "'o \<Rightarrow> int"
  from_timestamp_nano :: "int \<Rightarrow> 'dt"
  datetime_set_offset :: "int \<Rightarrow> 'dt \<Rightarrow> 'dt"
  datetime_add_sub_sec :: "int \<Rightarrow> 'dt \<Rightarrow> 'dt"
  datetime_display :: "'dt \<Rightarrow> bytes"
  offset_sec :: int
  datetime_value :: "'dt \<Rightarrow> dyn_value"

text \<open>The parameters of a query are collected in order.\<close>

definition mssql_encode_ext :: "('dt, 'o) mssql_kit \<Rightarrow> string \<Rightarrow> dyn_value \<Rightarrow> 'o bound res" where
  "mssql_encode_ext K t v =
     (if t = ''Date'' then rbind (naive_date_from_str K (or_default [] (value_as_str K v))) (\<lambda>d. Ok (B_Date d))
      else if t = ''DateTime'' then
        rbind (datetime_from_str K (or_default [] (value_as_str K v))) (\<lambda>date.
        rbind (naive_datetime_from_str K (datetime_display K date)) (\<lambda>d. Ok (B_DateTime d)))
      else if t = ''Time'' then rbind (naive_time_from_str K (or_default [] (value_as_str K v))) (\<lambda>d. Ok (B_Time d))
      else if t = ''Decimal'' then rbind (bigdecimal_from_str K (or_default [] (into_string K v))) (\<lambda>d. Ok (B_Decimal d))
      else if t = ''Json'' then Err (Message ''unimplemented'')
      else if t = ''Timestamp'' then Ok (B_I64 (or_default 0 (as_i64 K v)))
      else if t = ''Uuid'' then Ok (B_Uuid (or_default (uuid_default K) (uuid_from_str K (or_default [] (into_string K v)))))
      else Err (Message ''unimplemented''))"

definition mssql_encode :: "('dt, 'o) mssql_kit \<Rightarrow> dyn_value \<Rightarrow> 'o bound list \<Rightarrow> 'o bound list res" where
  "mssql_encode K v q =
     rbind (case v of
         V_Null \<Rightarrow> Ok (B_Bytes None) | V_Bool b \<Rightarrow> Ok (B_Bool b) | V_I32 n \<Rightarrow> Ok (B_I32 n) | V_I64 n \<Rightarrow> Ok (B_I64 n)
       | V_U32 n \<Rightarrow> Ok (B_I32 n) | V_U64 n \<Rightarrow> Ok (B_I64 n) | V_F32 f \<Rightarrow> Ok (B_F32 f) | V_F64 f \<Rightarrow> Ok (B_F64 f)
       | V_String s \<Rightarrow> Ok (B_Str s) | V_Binary b \<Rightarrow> Ok (B_Bytes (Some b))
       | V_Array _ \<Rightarrow> Ok (B_Bytes (Some (value_to_string K v))) | V_Map _ \<Rightarrow> Ok (B_Bytes (Some (value_to_string K v)))
       | V_Ext t w \<Rightarrow> mssql_encode_ext K t w) (\<lambda>b. Ok (q @ [b]))"

text \<open>A naive date and time is meant in the local time zone.\<close>

definition datetime_from_naive :: "('dt, 'o) mssql_kit \<Rightarrow> 'o \<Rightarrow> 'dt" where
  "datetime_from_naive K v =
     (let nanos = (case timestamp_nanos_opt K v of
                     Some nanos \<Rightarrow> nanos | None \<Rightarrow> timestamp K v * 1000000000 + nanosecond K v) in
      datetime_add_sub_sec K (- offset_sec K) (datetime_set_offset K (offset_sec K) (from_timestamp_nano K nanos)))"

definition datetime_from_zoned :: "('dt, 'o) mssql_kit \<Rightarrow> 'o \<Rightarrow> 'dt" where
  "datetime_from_zoned K v =
     (let nanos = (case zoned_nanos_opt K v of
                     Some nanos \<Rightarrow> nanos | None \<Rightarrow> zoned_timestamp K v * 1000000000 + zoned_nanosecond K v) in
      datetime_set_offset K (local_minus_utc K v) (from_timestamp_nano K nanos))"

text \<open>The cell of type \<open>DATETIMEOFFSET\<close> has a conversion of its own.\<close>

definition decode_zoned :: "('dt, 'o) mssql_kit \<Rightarrow> 'o \<Rightarrow> 'dt" where
  "decode_zoned K v =
     (let nanos = (case zoned_nanos_opt K v of
                     Some nanos \<Rightarrow> nanos - utc_minus_local K v * 60
                   | None \<Rightarrow> zoned_timestamp K v * 1000000000 + zoned_nanosecond K v - utc_minus_local K v * 60) in
      datetime_set_offset K (utc_minus_local K v * 60) (from_timestamp_nano K nanos))"

text \<open>A cell that is not null, converted by \<open>FromSql\<close> and then shown.\<close>

definition decode_via :: "'a option \<Rightarrow> 'b option res \<Rightarrow> ('b \<Rightarrow> dyn_value) \<Rightarrow> dyn_value res" where
  "decode_via v r f =
     (case v of None \<Rightarrow> Ok V_Null
      | Some _ \<Rightarrow> rbind r (\<lambda>x. Ok (case x of None \<Rightarrow> V_Null | Some y \<Rightarrow> f y)))"

definition nullable :: "('a \<Rightarrow> dyn_value) \<Rightarrow> 'a option \<Rightarrow> dyn_value" where
  "nullable f v = (case v of None \<Rightarrow> V_Null | Some x \<Rightarrow> f x)"

definition mssql_decode :: "('dt, 'o) mssql_kit \<Rightarrow> 'o column_data \<Rightarrow> dyn_value res" where
  "mssql_decode K d =
     (case d of
        CD_U8 v \<Rightarrow> Ok (nullable (\<lambda>n. V_U32 (ucast n)) v)
      | CD_I16 v \<Rightarrow> Ok (nullable (\<lambda>n. V_I32 (scast n)) v)
      | CD_I32 v \<Rightarrow> Ok (nullable V_I32 v)
      | CD_I64 v \<Rightarrow> Ok (nullable V_I64 v)
      | CD_F32 v \<Rightarrow> Ok (nullable V_F32 v)
      | CD_F64 v \<Rightarrow> Ok (nullable V_F64 v)
      | CD_Bit v \<Rightarrow> Ok (nullable V_Bool v)
      | CD_String v \<Rightarrow> Ok (nullable V_String v)
      | CD_Guid v \<Rightarrow> Ok (nullable (\<lambda>g. V_Ext ''Uuid'' (V_String (guid_to_string K g))) v)
      | CD_Binary v \<Rightarrow> Ok (nullable V_Binary v)
      | CD_Numeric v \<Rightarrow> decode_via v (from_sql_decimal K d) (\<lambda>x. V_Ext ''Decimal'' (V_String (bigdecimal_to_string K x)))
      | CD_Xml v \<Rightarrow> Ok (nullable (\<lambda>x. V_Ext ''Xml'' (V_String (xml_to_string K x))) v)
      | CD_DateTime v \<Rightarrow> decode_via v (from_sql_datetime K d) (\<lambda>x. datetime_value K (datetime_from_naive K x))
      | CD_SmallDateTime v \<Rightarrow> decode_via v (from_sql_datetime K d) (\<lambda>x. datetime_value K (datetime_from_naive K x))
      | CD_Time v \<Rightarrow> decode_via v (from_sql_time K d) (\<lambda>x. V_Ext ''Time'' (V_String (naive_time_to_string K x)))
      | CD_Date v \<Rightarrow> decode_via v (from_sql_date K d) (\<lambda>x. V_Ext ''Date'' (V_String (naive_date_to_string K x)))
      | CD_DateTime2 v \<Rightarrow> decode_via v (from_sql_datetime K d) (\<lambda>x. datetime_value K (datetime_from_naive K x))
      | CD_DateTimeOffset v \<Rightarrow> decode_via v (from_sql_zoned K d) (\<lambda>x. datetime_value K (decode_zoned K x)))"

section \<open>Rows\<close>

text \<open>A column is its name and the text of its type.\<close>

record 'o mssql_row =
  mr_columns :: "(bytes \<times> bytes) list"
  mr_datas :: "'o column_data list"

definition mssql_column_type :: "(bytes \<times> bytes) list \<Rightarrow> nat \<Rightarrow> bytes" where
  "mssql_column_type columns i = snd (columns ! i)"

definition mssql_row_get :: "('dt, 'o) mssql_kit \<Rightarrow> 'o mssql_row \<Rightarrow> nat \<Rightarrow> (dyn_value \<times> 'o mssql_row) res" where
  "mssql_row_get K x i =
     (if i < length (mr_datas x) then rbind (mssql_decode K (mr_datas x ! i)) (\<lambda>v. Ok (v, x)) else Panic)"

definition mssql_row_trait :: "('dt, 'o) mssql_kit \<Rightarrow> ('o mssql_row, (bytes \<times> bytes) list) row_trait" where
  "mssql_row_trait K =
     \<lparr>r_meta_data = mr_columns, r_get = mssql_row_get K, md_column_len = length, md_column_name = (\<lambda>md i. fst (md ! i))\<rparr>"

definition mssql_cell :: "('dt, 'o) mssql_kit \<Rightarrow> 'o mssql_row \<Rightarrow> nat \<Rightarrow> dyn_value res" where
  "mssql_cell K x i = (if i < length (mr_datas x) then mssql_decode K (mr_datas x ! i) else Panic)"

interpretation mssql_rows: column_rows "mssql_row_trait K" "\<lambda>_. True" "mssql_cell K" for K
  by unfold_locales (auto simp: mssql_row_trait_def mssql_row_get_def mssql_cell_def split: if_splits)

interpretation mssql_maps: mapped_rows list_insert "mssql_row_trait K" "\<lambda>_. True" "mssql_cell K" for K
  by unfold_locales

section \<open>What the crates promise\<close>

text \<open>
  The instant of a \<open>fastdate::DateTime\<close> in nanoseconds since the epoch, and its offset: setting the offset keeps the
  instant.  A time stamp in nanoseconds, where it fits, is the one of the seconds and the nanoseconds.
\<close>

locale mssql_times =
  fixes K :: "('dt, 'o) mssql_kit" and instant :: "'dt \<Rightarrow> int" and shown_offset :: "'dt \<Rightarrow> int"
  assumes nanos_law: "timestamp_nanos_opt K v = Some n \<Longrightarrow> n = timestamp K v * 1000000000 + nanosecond K v"
    and zoned_nanos_law: "zoned_nanos_opt K v = Some n \<Longrightarrow> n = zoned_timestamp K v * 1000000000 + zoned_nanosecond K v"
    and from_nano_law: "instant (from_timestamp_nano K n) = n"
    and set_offset_law: "instant (datetime_set_offset K z d) = instant d" "shown_offset (datetime_set_offset K z d) = z"
    and add_sec_law: "instant (datetime_add_sub_sec K s d) = instant d + s * 1000000000"
      "shown_offset (datetime_add_sub_sec K s d) = shown_offset d"
begin

lemma naive_instant:
  "instant (datetime_from_naive K v) = timestamp K v * 1000000000 + nanosecond K v - offset_sec K * 1000000000"
  "shown_offset (datetime_from_naive K v) = offset_sec K"
  by (auto simp: datetime_from_naive_def Let_def from_nano_law set_offset_law add_sec_law dest: nanos_law split: option.splits)

lemma zoned_instant:
  "instant (datetime_from_zoned K v) = zoned_timestamp K v * 1000000000 + zoned_nanosecond K v"
  "shown_offset (datetime_from_zoned K v) = local_minus_utc K v"
  by (auto simp: datetime_from_zoned_def Let_def from_nano_law set_offset_law dest: zoned_nanos_law split: option.splits)

lemma decode_zoned_instant:
  "instant (decode_zoned K v) = zoned_timestamp K v * 1000000000 + zoned_nanosecond K v - utc_minus_local K v * 60"
  "shown_offset (decode_zoned K v) = utc_minus_local K v * 60"
  by (auto simp: decode_zoned_def Let_def from_nano_law set_offset_law dest: zoned_nanos_law split: option.splits)

end

text \<open>
  How \<open>tiberius\<close> turns a bound value into a cell, and that it reads the cell back; \<open>exact\<close> are the dates, times and decimals that the
  types of the server hold as they are: decimals with a scale that is not negative and a number of digits within the limits of
  the crate, dates within the years of the server, times without digits beyond those it stores.
\<close>

locale mssql_cells =
  fixes K :: "('dt, 'o) mssql_kit" and into_sql :: "'o bound \<Rightarrow> 'o column_data" and exact :: "'o \<Rightarrow> bool"
  assumes scalar_law: "into_sql (B_Bytes v) = CD_Binary v" "into_sql (B_Bool b) = CD_Bit (Some b)"
      "into_sql (B_I32 n) = CD_I32 (Some n)" "into_sql (B_I64 m) = CD_I64 (Some m)" "into_sql (B_F32 n) = CD_F32 (Some n)"
      "into_sql (B_F64 m) = CD_F64 (Some m)" "into_sql (B_Str s) = CD_String (Some s)" "into_sql (B_Uuid u) = CD_Guid (Some u)"
    and decimal_law: "exact x \<Longrightarrow> \<exists>y. into_sql (B_Decimal x) = CD_Numeric (Some y)"
      "exact x \<Longrightarrow> from_sql_decimal K (into_sql (B_Decimal x)) = Ok (Some x)"
    and date_law: "exact x \<Longrightarrow> \<exists>y. into_sql (B_Date x) = CD_Date (Some y)" "exact x \<Longrightarrow> from_sql_date K (into_sql (B_Date x)) = Ok (Some x)"
    and time_law: "exact x \<Longrightarrow> \<exists>y. into_sql (B_Time x) = CD_Time (Some y)" "exact x \<Longrightarrow> from_sql_time K (into_sql (B_Time x)) = Ok (Some x)"
    and datetime_law: "exact x \<Longrightarrow> \<exists>y. into_sql (B_DateTime x) = CD_DateTime2 (Some y)"
      "exact x \<Longrightarrow> from_sql_datetime K (into_sql (B_DateTime x)) = Ok (Some x)"

text \<open>What a bound value is read back as.\<close>

fun bound_value :: "('dt, 'o) mssql_kit \<Rightarrow> 'o bound \<Rightarrow> dyn_value" where
  "bound_value K (B_Bytes v) = nullable V_Binary v"
| "bound_value K (B_Bool b) = V_Bool b"
| "bound_value K (B_I32 n) = V_I32 n"
| "bound_value K (B_I64 n) = V_I64 n"
| "bound_value K (B_F32 n) = V_F32 n"
| "bound_value K (B_F64 n) = V_F64 n"
| "bound_value K (B_Str s) = V_String s"
| "bound_value K (B_Uuid u) = V_Ext ''Uuid'' (V_String (guid_to_string K u))"
| "bound_value K (B_Decimal x) = V_Ext ''Decimal'' (V_String (bigdecimal_to_string K x))"
| "bound_value K (B_Date x) = V_Ext ''Date'' (V_String (naive_date_to_string K x))"
| "bound_value K (B_Time x) = V_Ext ''Time'' (V_String (naive_time_to_string K x))"
| "bound_value K (B_DateTime x) = datetime_value K (datetime_from_naive K x)"

fun exact_bound :: "('o \<Rightarrow> bool) \<Rightarrow> 'o bound \<Rightarrow> bool" where
  "exact_bound exact (B_Time x) = exact x"
| "exact_bound exact (B_DateTime x) = exact x"
| "exact_bound exact (B_Date x) = exact x"
| "exact_bound exact (B_Decimal x) = exact x"
| "exact_bound exact _ = True"

context mssql_cells
begin

lemma decode_into_sql:
  assumes "exact_bound exact b"
  shows "mssql_decode K (into_sql b) = Ok (bound_value K b)"
proof (cases b)
  case (B_Decimal x)
  from decimal_law(1) [of x] B_Decimal assms obtain y where "into_sql (B_Decimal x) = CD_Numeric (Some y)" by auto
  with decimal_law(2) [of x] B_Decimal assms show ?thesis by (simp add: mssql_decode_def decode_via_def)
next
  case (B_Date x)
  from date_law(1) [of x] B_Date assms obtain y where "into_sql (B_Date x) = CD_Date (Some y)" by auto
  with date_law(2) [of x] B_Date assms show ?thesis by (simp add: mssql_decode_def decode_via_def)
next
  case (B_Time x)
  from time_law(1) [of x] B_Time assms obtain y where "into_sql (B_Time x) = CD_Time (Some y)" by auto
  with time_law(2) [of x] B_Time assms show ?thesis by (simp add: mssql_decode_def decode_via_def)
next
  case (B_DateTime x)
  from datetime_law(1) [of x] B_DateTime assms obtain y where "into_sql (B_DateTime x) = CD_DateTime2 (Some y)" by auto
  with datetime_law(2) [of x] B_DateTime assms show ?thesis by (simp add: mssql_decode_def decode_via_def)
qed (auto simp: mssql_decode_def scalar_law nullable_def)

end

text \<open>The parameters of a query, bound in their order.\<close>

fun mssql_bind_all :: "('dt, 'o) mssql_kit \<Rightarrow> dyn_value list \<Rightarrow> 'o bound list \<Rightarrow> 'o bound list res" where
  "mssql_bind_all K [] q = Ok q"
| "mssql_bind_all K (x # params) q = rbind (mssql_encode K x q) (mssql_bind_all K params)"

text \<open>The values that are bound as they are.\<close>

fun direct_value :: "dyn_value \<Rightarrow> bool" where
  "direct_value (V_U32 _) = False"
| "direct_value (V_U64 _) = False"
| "direct_value (V_Array _) = False"
| "direct_value (V_Map _) = False"
| "direct_value (V_Ext _ _) = False"
| "direct_value _ = True"

lemma mssql_encode_one: "mssql_encode K v q = Ok q' \<Longrightarrow> \<exists>b. q' = q @ [b] \<and> mssql_encode K v [] = Ok [b]"
  by (auto simp: mssql_encode_def res_iff)

lemma mssql_bind_all_each:
  "mssql_bind_all K vs q = Ok q' \<Longrightarrow> \<exists>bs. q' = q @ bs \<and> list_all2 (\<lambda>v b. mssql_encode K v [] = Ok [b]) vs bs"
proof (induction vs arbitrary: q)
  case (Cons v vs)
  then obtain q1 where "mssql_encode K v q = Ok q1" and r: "mssql_bind_all K vs q1 = Ok q'" by (auto simp: res_iff)
  then obtain b where b: "q1 = q @ [b]" "mssql_encode K v [] = Ok [b]" using mssql_encode_one by blast
  from Cons.IH [OF r] obtain bs where "q' = q1 @ bs" "list_all2 (\<lambda>v b. mssql_encode K v [] = Ok [b]) vs bs" by blast
  with b show ?case by (intro exI [of _ "b # bs"]) simp
qed simp

lemma direct_value_bound: "mssql_encode K v [] = Ok [b] \<Longrightarrow> direct_value v \<Longrightarrow> bound_value K b = v \<and> exact_bound e b"
  by (cases v) (auto simp: mssql_encode_def nullable_def)

lemma unsigned_value_bound:
  "mssql_encode K (V_U32 n) [] = Ok [b] \<Longrightarrow> bound_value K b = V_I32 n \<and> exact_bound e b"
  "mssql_encode K (V_U64 m) [] = Ok [b] \<Longrightarrow> bound_value K b = V_I64 m \<and> exact_bound e b"
  by (auto simp: mssql_encode_def)

section \<open>An instance\<close>

text \<open>Instants are pairs of nanoseconds since the epoch and an offset in seconds; so are the values of the other crates.\<close>

definition clock_kit :: "int \<Rightarrow> (int \<times> int, int \<times> int) mssql_kit" where
  "clock_kit zone = \<lparr>
     into_string = (\<lambda>v. case v of V_String s \<Rightarrow> Some s | _ \<Rightarrow> None), value_as_str = (\<lambda>v. case v of V_String s \<Rightarrow> Some s | _ \<Rightarrow> None),
     as_u64 = (\<lambda>v. case v of V_U64 n \<Rightarrow> Some n | _ \<Rightarrow> None), as_i64 = (\<lambda>v. case v of V_I64 n \<Rightarrow> Some n | _ \<Rightarrow> None),
     into_bytes = (\<lambda>v. case v of V_Binary b \<Rightarrow> Some b | _ \<Rightarrow> None), value_to_string = (\<lambda>_. []),
     json_from_str = (\<lambda>_. Err (Message ''json'')), date_from_str = (\<lambda>_. Err (Message ''date'')), date_to_string = (\<lambda>_. []),
     time_from_str = (\<lambda>_. Err (Message ''time'')), datetime_from_str = (\<lambda>_. Ok (0, 0)), datetime_from_str_default = (\<lambda>_ z. Ok (0, z)),
     datetime_from_parts = (\<lambda>_ _ z. (0, z)), datetime_from_date_time = (\<lambda>_ _. (0, 0)), from_timestamp_millis = (\<lambda>n. (sint n * 1000000, 0)),
     unix_timestamp_millis = (\<lambda>d. of_int (fst d div 1000000)), datetime_to_string = (\<lambda>_. []),
     dt_date = (\<lambda>_. \<lparr>fd_day = 1, fd_mon = 1, fd_year = 1970\<rparr>), dt_time = (\<lambda>_. \<lparr>ft_nano = 0, ft_sec = 0, ft_minute = 0, ft_hour = 0\<rparr>),
     decimal_from_str = Ok, f32_of_f64 = ucast, f32_parse = (\<lambda>_. None), f64_parse = (\<lambda>_. None),
     from_sql_decimal = (\<lambda>d. case d of CD_Numeric v \<Rightarrow> Ok v | _ \<Rightarrow> Err (Message ''decimal'')),
     from_sql_datetime = (\<lambda>d. case d of CD_DateTime2 v \<Rightarrow> Ok v | CD_DateTime v \<Rightarrow> Ok v | CD_SmallDateTime v \<Rightarrow> Ok v | _ \<Rightarrow> Err (Message ''date'')),
     from_sql_time = (\<lambda>d. case d of CD_Time v \<Rightarrow> Ok v | _ \<Rightarrow> Err (Message ''time'')),
     from_sql_date = (\<lambda>d. case d of CD_Date v \<Rightarrow> Ok v | _ \<Rightarrow> Err (Message ''date'')),
     from_sql_zoned = (\<lambda>d. case d of CD_DateTimeOffset v \<Rightarrow> Ok v | _ \<Rightarrow> Err (Message ''date'')),
     guid_to_string = (\<lambda>_. []), xml_to_string = (\<lambda>_. []), bigdecimal_to_string = (\<lambda>_. []), naive_time_to_string = (\<lambda>_. []),
     naive_date_to_string = (\<lambda>_. []), naive_date_from_str = (\<lambda>_. Ok (0, 0)), naive_datetime_from_str = (\<lambda>_. Ok (0, 0)),
     naive_time_from_str = (\<lambda>_. Ok (0, 0)), bigdecimal_from_str = (\<lambda>_. Ok (0, 0)), uuid_from_str = (\<lambda>_. None), uuid_default = (0, 0),
     timestamp_nanos_opt = (\<lambda>(n, _). if \<bar>n\<bar> < 2 ^ 63 then Some n else None), timestamp = (\<lambda>(n, _). n div 1000000000),
     nanosecond = (\<lambda>(n, _). n mod 1000000000),
     zoned_nanos_opt = (\<lambda>(n, _). if \<bar>n\<bar> < 2 ^ 63 then Some n else None), zoned_timestamp = (\<lambda>(n, _). n div 1000000000),
     zoned_nanosecond = (\<lambda>(n, _). n mod 1000000000), utc_minus_local = (\<lambda>(_, z). - z), local_minus_utc = snd,
     from_timestamp_nano = (\<lambda>n. (n, 0)), datetime_set_offset = (\<lambda>z (n, _). (n, z)),
     datetime_add_sub_sec = (\<lambda>s (n, z). (n + s * 1000000000, z)), datetime_display = (\<lambda>_. []), offset_sec = zone,
     datetime_value = (\<lambda>d. V_Ext ''DateTime'' (V_I64 (of_int (fst d))))\<rparr>"

fun plain_into_sql :: "'o bound \<Rightarrow> 'o column_data" where
  "plain_into_sql (B_Bytes v) = CD_Binary v"
| "plain_into_sql (B_Bool b) = CD_Bit (Some b)"
| "plain_into_sql (B_I32 n) = CD_I32 (Some n)"
| "plain_into_sql (B_I64 n) = CD_I64 (Some n)"
| "plain_into_sql (B_F32 n) = CD_F32 (Some n)"
| "plain_into_sql (B_F64 n) = CD_F64 (Some n)"
| "plain_into_sql (B_Str s) = CD_String (Some s)"
| "plain_into_sql (B_Uuid x) = CD_Guid (Some x)"
| "plain_into_sql (B_Decimal x) = CD_Numeric (Some x)"
| "plain_into_sql (B_Date x) = CD_Date (Some x)"
| "plain_into_sql (B_Time x) = CD_Time (Some x)"
| "plain_into_sql (B_DateTime x) = CD_DateTime2 (Some x)"

lemma clock_times_laws: "mssql_times (clock_kit zone) fst snd"
  by unfold_locales (auto simp: clock_kit_def split: if_splits)

lemma clock_cells_laws: "mssql_cells (clock_kit zone) plain_into_sql (\<lambda>_. True)"
  by unfold_locales (simp_all add: clock_kit_def)

interpretation clock_times: mssql_times "clock_kit zone" fst snd for zone
  by (rule clock_times_laws)

interpretation clock_cells: mssql_cells "clock_kit zone" plain_into_sql "\<lambda>_. True" for zone
  by (rule clock_cells_laws)

end
