(* ===== verification/Mssql_Db.thy ===== *)
theory Mssql_Db
  imports Mssql_Values Exchange Url_Crates
begin

text \<open>
  Options, driver and connection of SQL Server (\<open>rbdc-mssql/src/lib.rs\<close>, \<open>driver.rs\<close>).  The client of the \<open>tiberius\<close> crate
  is the argument \<open>T\<close>, its configuration the argument \<open>F\<close>; \<open>tls\<close> says whether a TLS feature is compiled in.
\<close>

section \<open>Options\<close>

datatype encryption_level = Encrypt_Required | Encrypt_Off | Encrypt_NotSupported

record 'cfg tiberius_config =
  cfg_new :: 'cfg
  cfg_host :: "bytes \<Rightarrow> 'cfg \<Rightarrow> 'cfg"
  cfg_port :: "u16 \<Rightarrow> 'cfg \<Rightarrow> 'cfg"
  cfg_authentication :: "bytes \<Rightarrow> bytes \<Rightarrow> 'cfg \<Rightarrow> 'cfg"
  cfg_database :: "bytes \<Rightarrow> 'cfg \<Rightarrow> 'cfg"
  cfg_instance_name :: "bytes \<Rightarrow> 'cfg \<Rightarrow> 'cfg"
  cfg_application_name :: "bytes \<Rightarrow> 'cfg \<Rightarrow> 'cfg"
  cfg_encryption :: "encryption_level \<Rightarrow> 'cfg \<Rightarrow> 'cfg"
  cfg_trust_cert :: "'cfg \<Rightarrow> 'cfg"
  cfg_readonly :: "bool \<Rightarrow> 'cfg \<Rightarrow> 'cfg"
  from_jdbc_string :: "bytes \<Rightarrow> 'cfg res"
  from_ado_string :: "bytes \<Rightarrow> 'cfg res"

text \<open>
  One query parameter.  Keys and values are compared in lower case; the only letter outside ASCII with a lower case inside it is
  the Kelvin sign, and no keyword contains a k, so the lower case of the ASCII letters decides.
\<close>

definition mssql_pair :: "'cfg tiberius_config \<Rightarrow> bool \<Rightarrow> bytes \<times> bytes \<Rightarrow> 'cfg \<Rightarrow> 'cfg res" where
  "mssql_pair F tls kv config =
     (let key = map ascii_lower (fst kv); v = snd kv; l = map ascii_lower v in
      if key \<in> {lit ''instance'', lit ''instance_name''} then Ok (cfg_instance_name F v config)
      else if key \<in> {lit ''application_name'', lit ''applicationname''} then Ok (cfg_application_name F v config)
      else if key \<in> {lit ''encrypt'', lit ''encryption''} then
        (if l \<in> {lit ''true'', lit ''yes''} then Ok (if tls then cfg_encryption F Encrypt_Required config else config)
         else if l \<in> {lit ''false'', lit ''no''} then Ok (if tls then cfg_encryption F Encrypt_Off config else config)
         else if l = lit ''danger_plaintext'' then Ok (cfg_encryption F Encrypt_NotSupported config)
         else Err (Message ''Invalid encryption value''))
      else if key \<in> {lit ''trust_cert'', lit ''trustservercertificate''} then
        (if l \<in> {lit ''true'', lit ''yes''} then Ok (cfg_trust_cert F config)
         else if l \<in> {lit ''false'', lit ''no''} then Ok config
         else Err (Message ''Invalid trust_cert value''))
      else if key \<in> {lit ''readonly'', lit ''applicationintent''} then
        (if l \<in> {lit ''true'', lit ''yes'', lit ''readonly''} then Ok (cfg_readonly F True config)
         else if l \<in> {lit ''false'', lit ''no'', lit ''readwrite''} then Ok (cfg_readonly F False config)
         else Err (Message ''Invalid readonly value''))
      else Ok config)"

fun mssql_pairs :: "'cfg tiberius_config \<Rightarrow> bool \<Rightarrow> (bytes \<times> bytes) list \<Rightarrow> 'cfg \<Rightarrow> 'cfg res" where
  "mssql_pairs F tls [] config = Ok config"
| "mssql_pairs F tls (kv # kvs) config = rbind (mssql_pair F tls kv config) (mssql_pairs F tls kvs)"

definition parse_url_connection_string :: "'cfg tiberius_config \<Rightarrow> url_crates \<Rightarrow> bool \<Rightarrow> bytes \<Rightarrow> 'cfg res" where
  "parse_url_connection_string F U tls url =
     rbind (parse_url U url) (\<lambda>u.
     let config = cfg_new F;
         config = (case url_host_str u of Some h \<Rightarrow> cfg_host F h config | None \<Rightarrow> config);
         config = (case url_port u of Some p \<Rightarrow> cfg_port F p config | None \<Rightarrow> config) in
     rbind (if url_username u \<noteq> [] then
              rbind (from_utf8 (percent_decode U (url_username u))) (\<lambda>name.
              case url_password u of
                Some p \<Rightarrow> rbind (from_utf8 (percent_decode U p)) (\<lambda>p. Ok (cfg_authentication F name p config))
              | None \<Rightarrow> Ok (cfg_authentication F name [] config))
            else Ok config) (\<lambda>config.
     let path = dropWhile (\<lambda>b. b = of_char (CHR ''/'')) (url_path u);
         config = (if path \<noteq> [] then cfg_database F path config else config) in
     mssql_pairs F tls (url_query_pairs u) config))"

definition mssql_set_uri :: "'cfg tiberius_config \<Rightarrow> url_crates \<Rightarrow> bool \<Rightarrow> bytes \<Rightarrow> 'cfg \<Rightarrow> 'cfg res" where
  "mssql_set_uri F U tls url old =
     (if contains (lit ''jdbc'') url then rbind (from_jdbc_string F url) (\<lambda>config. Ok (cfg_trust_cert F config))
      else if starts_with (lit ''mssql://'') url \<or> starts_with (lit ''sqlserver://'') url then
        rbind (parse_url_connection_string F U tls url) (\<lambda>config. Ok (cfg_trust_cert F config))
      else rbind (from_ado_string F url) (\<lambda>config. Ok (cfg_trust_cert F config)))"

section \<open>Connections\<close>

record 'o tib_row =
  tr_columns :: "(bytes \<times> bytes) list"
  tr_datas :: "'o column_data list"

text \<open>
  The client: opening a socket and a session, queries with and without parameters.  A query returns when the response begins; its
  results are then collected by \<open>into_results\<close>, or the stream is dropped.
\<close>

record ('cfg, 'tcp, 'cl, 'o) tiberius =
  tcp_connect :: "'cfg \<Rightarrow> 'tcp res option"
  set_nodelay :: "'tcp \<Rightarrow> unit res"
  client_connect :: "'cfg \<Rightarrow> 'tcp \<Rightarrow> 'cl res option"
  query_query :: "bytes \<Rightarrow> 'o bound list \<Rightarrow> ('cl, unit) aop"
  into_results :: "('cl, 'o tib_row list list) aop"
  query_execute :: "bytes \<Rightarrow> 'o bound list \<Rightarrow> ('cl, u64 list) aop"
  client_query :: "bytes \<Rightarrow> ('cl, unit) aop"
  simple_query :: "bytes \<Rightarrow> ('cl, unit) aop"
  client_close :: "'cl \<Rightarrow> unit res option"

record 'cl mssql_conn =
  mc_inner :: "'cl option"

definition mssql_establish :: "('cfg, 'tcp, 'cl, 'o) tiberius \<Rightarrow> 'cfg \<Rightarrow> 'cl mssql_conn res option" where
  "mssql_establish T cfg =
     Option.bind (tcp_connect T cfg) (\<lambda>tcp. case tcp of Err e \<Rightarrow> Some (Err e) | Panic \<Rightarrow> Some Panic | Ok tcp \<Rightarrow>
       (case set_nodelay T tcp of Err e \<Rightarrow> Some (Err e) | Panic \<Rightarrow> Some Panic | Ok _ \<Rightarrow>
         map_option (\<lambda>c. rbind c (\<lambda>c. Ok \<lparr>mc_inner = Some c\<rparr>)) (client_connect T cfg tcp)))"

definition on_client :: "('cl, 'a) aop \<Rightarrow> ('cl mssql_conn, 'a) aop" where
  "on_client m c =
     (case mc_inner c of
        None \<Rightarrow> Some (Err (Message ''MssqlConnection is close''), c)
      | Some cl \<Rightarrow> map_option (\<lambda>(r, cl). (r, c\<lparr>mc_inner := Some cl\<rparr>)) (m cl))"

definition mssql_row_of :: "'o tib_row \<Rightarrow> 'o mssql_row" where
  "mssql_row_of r = \<lparr>mr_columns = tr_columns r, mr_datas = tr_datas r\<rparr>"

definition mssql_get_rows ::
    "('cfg, 'tcp, 'cl, 'o) tiberius \<Rightarrow> ('dt, 'o) mssql_kit \<Rightarrow> (nat \<Rightarrow> bytes) \<Rightarrow> bytes \<Rightarrow> dyn_value list \<Rightarrow>
      ('cl mssql_conn, 'o mssql_row list) aop" where
  "mssql_get_rows T K itoa sql params =
     abind (alift (mssql_exchange itoa sql)) (\<lambda>sql.
     abind (alift (mssql_bind_all K params [])) (\<lambda>q.
     athen (on_client (query_query T sql q))
     (abind (on_client (into_results T)) (\<lambda>s. aret (map mssql_row_of (concat s))))))"

definition mssql_exec ::
    "('cfg, 'tcp, 'cl, 'o) tiberius \<Rightarrow> ('dt, 'o) mssql_kit \<Rightarrow> (nat \<Rightarrow> bytes) \<Rightarrow> bytes \<Rightarrow> dyn_value list \<Rightarrow>
      ('cl mssql_conn, exec_result) aop" where
  "mssql_exec T K itoa sql params =
     abind (alift (mssql_exchange itoa sql)) (\<lambda>sql.
     abind (alift (mssql_bind_all K params [])) (\<lambda>q.
     abind (on_client (query_execute T sql q)) (\<lambda>v.
     aret \<lparr>er_rows_affected = foldl (+) 0 v, er_last_insert_id = V_Null\<rparr>)))"

definition mssql_close :: "('cfg, 'tcp, 'cl, 'o) tiberius \<Rightarrow> ('cl mssql_conn, unit) aop" where
  "mssql_close T c =
     (case mc_inner c of
        Some v \<Rightarrow> map_option (\<lambda>r. (r, c\<lparr>mc_inner := None\<rparr>)) (client_close T v)
      | None \<Rightarrow> Some (Ok (), c))"

definition mssql_ping :: "('cfg, 'tcp, 'cl, 'o) tiberius \<Rightarrow> ('cl mssql_conn, unit) aop" where
  "mssql_ping T = on_client (client_query T (lit ''select 1''))"

definition mssql_begin :: "('cfg, 'tcp, 'cl, 'o) tiberius \<Rightarrow> ('cl mssql_conn, unit) aop" where
  "mssql_begin T = on_client (simple_query T (lit ''begin tran''))"

definition mssql_commit :: "('cfg, 'tcp, 'cl, 'o) tiberius \<Rightarrow> ('cl mssql_conn, unit) aop" where
  "mssql_commit T = on_client (simple_query T (lit ''commit''))"

definition mssql_rollback :: "('cfg, 'tcp, 'cl, 'o) tiberius \<Rightarrow> ('cl mssql_conn, unit) aop" where
  "mssql_rollback T = on_client (simple_query T (lit ''rollback''))"

definition mssql_connection ::
    "('cfg, 'tcp, 'cl, 'o) tiberius \<Rightarrow> ('dt, 'o) mssql_kit \<Rightarrow> (nat \<Rightarrow> bytes) \<Rightarrow> ('cl mssql_conn, 'o mssql_row) connection" where
  "mssql_connection T K itoa =
     \<lparr>c_get_rows = mssql_get_rows T K itoa, c_exec = mssql_exec T K itoa, c_ping = mssql_ping T, c_close = mssql_close T\<rparr>"

section \<open>Driver\<close>

definition mssql_driver_name :: bytes where
  "mssql_driver_name = lit ''mssql''"

definition mssql_default_option :: "'cfg tiberius_config \<Rightarrow> 'cfg" where
  "mssql_default_option F = cfg_trust_cert F (cfg_new F)"

definition mssql_driver_connect ::
    "'cfg tiberius_config \<Rightarrow> url_crates \<Rightarrow> bool \<Rightarrow> ('cfg, 'tcp, 'cl, 'o) tiberius \<Rightarrow> bytes \<Rightarrow> 'cl mssql_conn res option" where
  "mssql_driver_connect F U tls T url =
     (case mssql_set_uri F U tls url (mssql_default_option F) of
        Ok opt \<Rightarrow> mssql_establish T opt
      | Err e \<Rightarrow> Some (Err e)
      | Panic \<Rightarrow> Some Panic)"

section \<open>What the server promises\<close>

text \<open>
  The database as the client sees it, what a statement with its parameters does to it (the rows of its results, the numbers of
  rows it affected), and that a response nobody has read does not disturb the next statement.
\<close>

locale tds_server =
  fixes T :: "('cfg, 'tcp, 'cl, 'o) tiberius"
    and healthy :: "'cl \<Rightarrow> bool" and db :: "'cl \<Rightarrow> 'db" and pending :: "'cl \<Rightarrow> 'o tib_row list list"
    and run :: "'db \<Rightarrow> bytes \<Rightarrow> 'o bound list \<Rightarrow> ('o tib_row list list \<times> u64 list \<times> 'db) option"
  assumes query_law: "healthy cl \<Longrightarrow> run (db cl) sql q = Some (rs, ns, d) \<Longrightarrow>
      \<exists>cl'. query_query T sql q cl = Some (Ok (), cl') \<and> healthy cl' \<and> db cl' = d \<and> pending cl' = rs"
    and results_law: "healthy cl \<Longrightarrow>
      \<exists>cl'. into_results T cl = Some (Ok (pending cl), cl') \<and> healthy cl' \<and> db cl' = db cl"
    and execute_law: "healthy cl \<Longrightarrow> run (db cl) sql q = Some (rs, ns, d) \<Longrightarrow>
      \<exists>cl'. query_execute T sql q cl = Some (Ok ns, cl') \<and> healthy cl' \<and> db cl' = d"
    and client_query_law: "healthy cl \<Longrightarrow> run (db cl) sql [] = Some (rs, ns, d) \<Longrightarrow>
      \<exists>cl'. client_query T sql cl = Some (Ok (), cl') \<and> healthy cl' \<and> db cl' = d"
    and simple_query_law: "healthy cl \<Longrightarrow> run (db cl) sql [] = Some (rs, ns, d) \<Longrightarrow>
      \<exists>cl'. simple_query T sql cl = Some (Ok (), cl') \<and> healthy cl' \<and> db cl' = d"
    and row_width: "run b sql q = Some (rs, ns, d) \<Longrightarrow> row \<in> set (concat rs) \<Longrightarrow> length (tr_datas row) = length (tr_columns row)"
begin

text \<open>A connection with a healthy client that sees the database \<open>d\<close>.\<close>

definition sees :: "'cl mssql_conn \<Rightarrow> 'db \<Rightarrow> bool" where
  "sees c d \<longleftrightarrow> (\<exists>cl. mc_inner c = Some cl \<and> healthy cl \<and> db cl = d)"

lemma on_client_ok:
  assumes "sees c d" and "\<And>cl. healthy cl \<Longrightarrow> db cl = d \<Longrightarrow> \<exists>cl'. m cl = Some (Ok x, cl') \<and> healthy cl' \<and> db cl' = d'"
  shows "\<exists>c'. on_client m c = Some (Ok x, c') \<and> sees c' d'"
  using assms by (fastforce simp: sees_def on_client_def)

lemma get_rows_ok:
  assumes "sees c d" and "utf8_ok sql" and "mssql_bind_all K params [] = Ok q"
    and "run d (exchange_spec itoa (lit ''@P'') 1 sql) q = Some (rs, ns, d')"
  shows "\<exists>c'. mssql_get_rows T K itoa sql params c = Some (Ok (map mssql_row_of (concat rs)), c') \<and> sees c' d'"
proof -
  from assms(1) obtain cl where cl: "mc_inner c = Some cl" "healthy cl" "db cl = d" by (auto simp: sees_def)
  from query_law [OF cl(2)] cl(3) assms(4) obtain cl1 where
    cl1: "query_query T (exchange_spec itoa (lit ''@P'') 1 sql) q cl = Some (Ok (), cl1)" "healthy cl1" "db cl1 = d'" "pending cl1 = rs"
    by blast
  from results_law [OF cl1(2)] cl1(3,4) obtain cl2 where
    cl2: "into_results T cl1 = Some (Ok rs, cl2)" "healthy cl2" "db cl2 = d'" by auto
  have "mssql_get_rows T K itoa sql params c = Some (Ok (map mssql_row_of (concat rs)), c\<lparr>mc_inner := Some cl2\<rparr>)"
    using cl(1) cl1(1) cl2(1) assms(2,3)
    by (simp add: mssql_get_rows_def abind_def athen_def alift_def aret_def on_client_def mssql.rewrites_by_spec del: lit_Cons)
  moreover have "sees (c\<lparr>mc_inner := Some cl2\<rparr>) d'" using cl2 by (simp add: sees_def)
  ultimately show ?thesis by blast
qed

lemma exec_ok:
  assumes "sees c d" and "utf8_ok sql" and "mssql_bind_all K params [] = Ok q"
    and "run d (exchange_spec itoa (lit ''@P'') 1 sql) q = Some (rs, ns, d')"
  shows "\<exists>c'. mssql_exec T K itoa sql params c =
      Some (Ok \<lparr>er_rows_affected = sum_list ns, er_last_insert_id = V_Null\<rparr>, c') \<and> sees c' d'"
proof -
  from on_client_ok [OF assms(1), of "query_execute T (exchange_spec itoa (lit ''@P'') 1 sql) q" ns d'] execute_law assms(4)
  obtain c' where "on_client (query_execute T (exchange_spec itoa (lit ''@P'') 1 sql) q) c = Some (Ok ns, c')" "sees c' d'" by blast
  with assms(2,3) show ?thesis
    by (simp add: mssql_exec_def abind_def alift_def aret_def mssql.rewrites_by_spec fold_plus_sum_list_rev foldl_conv_fold add.commute del: lit_Cons)
qed

lemma simple_ok:
  "sees c d \<Longrightarrow> run d sql [] = Some (rs, ns, d') \<Longrightarrow> \<exists>c'. on_client (simple_query T sql) c = Some (Ok (), c') \<and> sees c' d'"
  by (rule on_client_ok) (use simple_query_law in auto)

lemma ping_ok:
  "sees c d \<Longrightarrow> run d (lit ''select 1'') [] = Some (rs, ns, d') \<Longrightarrow> \<exists>c'. mssql_ping T c = Some (Ok (), c') \<and> sees c' d'"
  unfolding mssql_ping_def by (rule on_client_ok) (use client_query_law in auto)

end

section \<open>What a configuration promises\<close>

record mssql_settings =
  ms_host :: "bytes option"
  ms_port :: "u16 option"
  ms_auth :: "(bytes \<times> bytes) option"
  ms_database :: "bytes option"
  ms_instance :: "bytes option"
  ms_application :: "bytes option"
  ms_encryption :: "encryption_level option"
  ms_trust :: bool
  ms_readonly :: bool

text \<open>Every setter sets what it is named after, and nothing else.\<close>

locale config_laws =
  fixes F :: "'cfg tiberius_config" and settings :: "'cfg \<Rightarrow> mssql_settings"
  assumes new_law: "settings (cfg_new F) = \<lparr>ms_host = None, ms_port = None, ms_auth = None, ms_database = None, ms_instance = None,
      ms_application = None, ms_encryption = None, ms_trust = False, ms_readonly = False\<rparr>"
    and host_law: "settings (cfg_host F h c) = (settings c)\<lparr>ms_host := Some h\<rparr>"
    and port_law: "settings (cfg_port F p c) = (settings c)\<lparr>ms_port := Some p\<rparr>"
    and auth_law: "settings (cfg_authentication F u h c) = (settings c)\<lparr>ms_auth := Some (u, h)\<rparr>"
    and database_law: "settings (cfg_database F h c) = (settings c)\<lparr>ms_database := Some h\<rparr>"
    and instance_law: "settings (cfg_instance_name F h c) = (settings c)\<lparr>ms_instance := Some h\<rparr>"
    and application_law: "settings (cfg_application_name F h c) = (settings c)\<lparr>ms_application := Some h\<rparr>"
    and encryption_law: "settings (cfg_encryption F l c) = (settings c)\<lparr>ms_encryption := Some l\<rparr>"
    and trust_law: "settings (cfg_trust_cert F c) = (settings c)\<lparr>ms_trust := True\<rparr>"
    and readonly_law: "settings (cfg_readonly F b c) = (settings c)\<lparr>ms_readonly := b\<rparr>"
begin

text \<open>No parameter changes where the connection goes or as whom it logs in.\<close>

lemma pair_keeps:
  "mssql_pair F tls kv c = Ok c' \<Longrightarrow> ms_host (settings c') = ms_host (settings c) \<and> ms_port (settings c') = ms_port (settings c) \<and>
    ms_auth (settings c') = ms_auth (settings c) \<and> ms_database (settings c') = ms_database (settings c)"
  by (auto simp: mssql_pair_def Let_def instance_law application_law encryption_law trust_law readonly_law simp del: lit_Cons split: if_splits)

lemma pairs_keep:
  "mssql_pairs F tls kvs c = Ok c' \<Longrightarrow> ms_host (settings c') = ms_host (settings c) \<and> ms_port (settings c') = ms_port (settings c) \<and>
    ms_auth (settings c') = ms_auth (settings c) \<and> ms_database (settings c') = ms_database (settings c)"
proof (induction kvs arbitrary: c)
  case (Cons kv kvs)
  then obtain c1 where "mssql_pair F tls kv c = Ok c1" "mssql_pairs F tls kvs c1 = Ok c'" by (auto simp: res_iff)
  with Cons.IH pair_keeps show ?case by metis
qed simp

text \<open>Whatever the connection string says, the certificate of the server is not checked.\<close>

lemma set_uri_trusts: "mssql_set_uri F U tls url old = Ok c \<Longrightarrow> ms_trust (settings c)"
  by (auto simp: mssql_set_uri_def res_iff trust_law simp del: lit_Cons split: if_splits)

end

text \<open>A configuration that is its settings.\<close>

definition plain_config :: "mssql_settings tiberius_config" where
  "plain_config = \<lparr>cfg_new = \<lparr>ms_host = None, ms_port = None, ms_auth = None, ms_database = None, ms_instance = None,
       ms_application = None, ms_encryption = None, ms_trust = False, ms_readonly = False\<rparr>,
     cfg_host = (\<lambda>h. ms_host_update (\<lambda>_. Some h)), cfg_port = (\<lambda>p. ms_port_update (\<lambda>_. Some p)),
     cfg_authentication = (\<lambda>u h. ms_auth_update (\<lambda>_. Some (u, h))), cfg_database = (\<lambda>h. ms_database_update (\<lambda>_. Some h)),
     cfg_instance_name = (\<lambda>h. ms_instance_update (\<lambda>_. Some h)), cfg_application_name = (\<lambda>h. ms_application_update (\<lambda>_. Some h)),
     cfg_encryption = (\<lambda>l. ms_encryption_update (\<lambda>_. Some l)), cfg_trust_cert = ms_trust_update (\<lambda>_. True),
     cfg_readonly = (\<lambda>b. ms_readonly_update (\<lambda>_. b)), from_jdbc_string = (\<lambda>_. Err (Message ''jdbc'')), from_ado_string = (\<lambda>_. Err (Message ''ado''))\<rparr>"

interpretation plain_cfg: config_laws plain_config "\<lambda>c. c"
  by unfold_locales (simp_all add: plain_config_def)

section \<open>A small server\<close>

text \<open>One table with one column: \<open>I@P1\<close> inserts a row, \<open>Q\<close> selects all rows.\<close>

definition sim_run :: "'o column_data list \<Rightarrow> bytes \<Rightarrow> 'o bound list \<Rightarrow> ('o tib_row list list \<times> u64 list \<times> 'o column_data list) option" where
  "sim_run d sql q =
     (if sql = lit ''I@P1'' then (case q of [b] \<Rightarrow> Some ([], [1], d @ [plain_into_sql b]) | _ \<Rightarrow> None)
      else if sql = lit ''Q'' then Some ([map (\<lambda>x. \<lparr>tr_columns = [(lit ''x'', [])], tr_datas = [x]\<rparr>) d], [0], d)
      else if sql \<in> {lit ''begin tran'', lit ''commit'', lit ''rollback'', lit ''select 1''} then Some ([], [], d)
      else None)"

type_synonym 'o sim_client = "'o column_data list \<times> 'o tib_row list list"

definition sim_query :: "bytes \<Rightarrow> 'o bound list \<Rightarrow> ('o sim_client, u64 list) aop" where
  "sim_query sql q cl =
     (case sim_run (fst cl) sql q of
        Some (rs, ns, d) \<Rightarrow> Some (Ok ns, (d, rs))
      | None \<Rightarrow> Some (Err (Message ''syntax''), cl))"

definition sim_tiberius :: "(mssql_settings, unit, 'o sim_client, 'o) tiberius" where
  "sim_tiberius = \<lparr>tcp_connect = (\<lambda>_. Some (Ok ())), set_nodelay = (\<lambda>_. Ok ()), client_connect = (\<lambda>_ _. Some (Ok ([], []))),
     query_query = (\<lambda>sql q. abind (sim_query sql q) (\<lambda>_. aret ())), into_results = (\<lambda>cl. Some (Ok (snd cl), (fst cl, []))),
     query_execute = sim_query, client_query = (\<lambda>sql. abind (sim_query sql []) (\<lambda>_. aret ())),
     simple_query = (\<lambda>sql. abind (sim_query sql []) (\<lambda>_. aret ())), client_close = (\<lambda>_. Some (Ok ()))\<rparr>"

lemma sim_server_laws: "tds_server sim_tiberius (\<lambda>_. True) fst snd sim_run"
proof unfold_locales
  fix b :: "'o column_data list" and sql and q :: "'o bound list" and rs ns d and row :: "'o tib_row"
  assume "sim_run b sql q = Some (rs, ns, d)" and "row \<in> set (concat rs)"
  then show "length (tr_datas row) = length (tr_columns row)"
    by (auto simp: sim_run_def simp del: lit_Cons split: if_splits list.splits)
qed (auto simp: sim_tiberius_def sim_query_def abind_def aret_def)

interpretation sim_server: tds_server sim_tiberius "\<lambda>_. True" fst snd sim_run
  by (rule sim_server_laws)

section \<open>Properties\<close>

text \<open>The entries of a row of the server in the map a query returns for it.\<close>

definition mssql_row_map :: "('dt, 'o) mssql_kit \<Rightarrow> 'o tib_row \<Rightarrow> dyn_value \<rightharpoonup> dyn_value" where
  "mssql_row_map K r =
     row_entry (\<lambda>i. fst (tr_columns r ! i)) (\<lambda>i. mssql_decode K (tr_datas r ! i)) [0..<length (tr_columns r)]"

lemma server_row_cells:
  assumes "length (tr_datas r) = length (tr_columns r)"
  shows "md_column_len (mssql_row_trait K) (r_meta_data (mssql_row_trait K) (mssql_row_of r)) = length (tr_columns r)"
    and "i < length (tr_columns r) \<Longrightarrow> mssql_cell K (mssql_row_of r) i = mssql_decode K (tr_datas r ! i)"
    and "md_column_name (mssql_row_trait K) (r_meta_data (mssql_row_trait K) (mssql_row_of r)) i = fst (tr_columns r ! i)"
  using assms by (simp_all add: mssql_row_trait_def mssql_cell_def mssql_row_of_def)

text \<open>C11: A query through \<open>get_values\<close> on a SQL Server connection sends the text with its placeholders numbered and the parameters
  bound in their order, and returns one map per row of all results, holding under every column name the decoded value of that
  column, whatever an earlier query left unread; the connection sees the database after the query.\<close>

theorem mssql_get_values_returns_the_rows:
  assumes "tds_server T healthy db pending run"
    and "mc_inner c = Some cl" and "healthy cl" and "utf8_ok sql" and "mssql_bind_all K params [] = Ok q"
    and "run (db cl) (exchange_spec itoa (lit ''@P'') 1 sql) q = Some (rs, ns, d')"
    and "\<forall>r \<in> set (concat rs). \<forall>x \<in> set (tr_datas r). \<exists>v. mssql_decode K x = Ok v"
  shows "\<exists>ms c' cl'. get_values (mssql_row_trait K) list_insert (mssql_connection T K itoa) sql params c =
      Some (Ok (V_Array (map V_Map ms)), c') \<and>
    list_all2 (\<lambda>r m. map_of m = mssql_row_map K r) (concat rs) ms \<and> mc_inner c' = Some cl' \<and> healthy cl' \<and> db cl' = d'"
proof -
  let ?R = "mssql_row_trait K" and ?xs = "map mssql_row_of (concat rs)"
  note server = tds_server.sees_def [OF assms(1)]
  have "\<exists>c'. mssql_get_rows T K itoa sql params c = Some (Ok ?xs, c') \<and> tds_server.sees healthy db c' d'"
    by (rule tds_server.get_rows_ok [OF assms(1) _ assms(4-6)]) (use assms(2,3) in \<open>auto simp: server\<close>)
  then obtain c' cl' where got: "c_get_rows (mssql_connection T K itoa) sql params c = Some (Ok ?xs, c')"
    and c': "mc_inner c' = Some cl'" "healthy cl'" "db cl' = d'"
    by (auto simp: server mssql_connection_def)
  have w: "length (tr_datas r) = length (tr_columns r)" if "r \<in> set (concat rs)" for r
    by (rule tds_server.row_width [OF assms(1,6) that])
  have good: "\<forall>x \<in> set ?xs. True \<and> (\<forall>j < md_column_len ?R (r_meta_data ?R x). \<exists>v. mssql_cell K x j = Ok v)"
  proof (intro ballI conjI allI impI TrueI)
    fix x j
    assume "x \<in> set ?xs" and j: "j < md_column_len ?R (r_meta_data ?R x)"
    then obtain r where r: "r \<in> set (concat rs)" "x = mssql_row_of r" by auto
    note sc = server_row_cells [OF w [OF r(1)], where K = K]
    from j r(2) sc(1) have "j < length (tr_columns r)" by simp
    moreover from this w [OF r(1)] have "tr_datas r ! j \<in> set (tr_datas r)" by simp
    ultimately show "\<exists>v. mssql_cell K x j = Ok v" using sc(2) assms(7) r by auto
  qed
  from mssql_maps.get_values_entries [OF got good] obtain ms where
    ms: "get_values ?R list_insert (mssql_connection T K itoa) sql params c = Some (Ok (V_Array (map V_Map ms)), c')"
      "list_all2 (\<lambda>x m. map_of m = row_entry (md_column_name ?R (r_meta_data ?R x)) (mssql_cell K x)
        [0..<md_column_len ?R (r_meta_data ?R x)]) ?xs ms" by blast
  have "list_all2 (\<lambda>r m. map_of m = mssql_row_map K r) (concat rs) ms"
  proof (rule list_all2_all_nthI)
    show "length (concat rs) = length ms" using list_all2_lengthD [OF ms(2)] by simp
    fix i
    assume i: "i < length (concat rs)"
    note sc = server_row_cells [OF w [OF nth_mem [OF i]], where K = K]
    from i have "i < length ?xs" by simp
    from list_all2_nthD [OF ms(2) this] i
    show "map_of (ms ! i) = mssql_row_map K (concat rs ! i)"
      by (simp add: sc(1) mssql_row_map_def) (rule row_entry_cong2, simp add: sc(2,3))
  qed
  with ms(1) c' show ?thesis by blast
qed

lemma sim_insert:
  "sim_run [] (exchange_spec (\<lambda>n. [48 + of_nat n]) (lit ''@P'') 1 (lit ''I?'')) [B_I64 7] = Some ([], [1], [CD_I64 (Some 7)])"
  by (simp add: sim_run_def of_char_of)

lemma sim_select:
  "sim_run d (exchange_spec (\<lambda>n. [48 + of_nat n]) (lit ''@P'') 1 (lit ''Q'')) [] =
    Some ([map (\<lambda>x. \<lparr>tr_columns = [(lit ''x'', [])], tr_datas = [x]\<rparr>) d], [0], d)"
  by (simp add: sim_run_def of_char_of)

theorem mssql_get_values_returns_the_rows_witness:
  "\<exists>m c'. get_values (mssql_row_trait (clock_kit 0)) list_insert (mssql_connection sim_tiberius (clock_kit 0) (\<lambda>n. [48 + of_nat n])) (lit ''Q'') []
      \<lparr>mc_inner = Some ([CD_I64 (Some 7)], [[]])\<rparr> = Some (Ok (V_Array [V_Map m]), c') \<and>
    map_of m (V_String (lit ''x'')) = Some (V_I64 7)"
proof -
  let ?row = "\<lparr>tr_columns = [(lit ''x'', [])], tr_datas = [CD_I64 (Some 7)]\<rparr> :: (int \<times> int) tib_row"
  have "\<exists>ms c' cl'. get_values (mssql_row_trait (clock_kit 0)) list_insert (mssql_connection sim_tiberius (clock_kit 0) (\<lambda>n. [48 + of_nat n]))
      (lit ''Q'') [] \<lparr>mc_inner = Some ([CD_I64 (Some 7)], [[]])\<rparr> = Some (Ok (V_Array (map V_Map ms)), c') \<and>
    list_all2 (\<lambda>r m. map_of m = mssql_row_map (clock_kit 0) r) (concat [[?row]]) ms \<and> mc_inner c' = Some cl' \<and> True \<and> fst cl' = [CD_I64 (Some 7)]"
  proof (rule mssql_get_values_returns_the_rows [OF sim_server_laws])
    show "utf8_ok (lit ''Q'')" by (simp add: utf8_ok_ascii)
    show "sim_run (fst ([CD_I64 (Some 7)], [[]])) (exchange_spec (\<lambda>n. [48 + of_nat n]) (lit ''@P'') 1 (lit ''Q'')) [] =
      Some ([[?row]], [0], [CD_I64 (Some 7)])" by (simp only: fst_conv sim_select list.map)
  qed (simp_all add: mssql_decode_def)
  then obtain ms c' where
    g: "get_values (mssql_row_trait (clock_kit 0)) list_insert (mssql_connection sim_tiberius (clock_kit 0) (\<lambda>n. [48 + of_nat n])) (lit ''Q'') []
      \<lparr>mc_inner = Some ([CD_I64 (Some 7)], [[]])\<rparr> = Some (Ok (V_Array (map V_Map ms)), c')"
    and "list_all2 (\<lambda>r m. map_of m = mssql_row_map (clock_kit 0) r) [?row] ms" by auto
  then obtain m where "ms = [m]" "map_of m = mssql_row_map (clock_kit 0) ?row" by (cases ms) auto
  with g show ?thesis by (auto simp: mssql_row_map_def row_entry_def mssql_decode_def nullable_def)
qed

text \<open>C24: The parameters of a query are bound one each, in their order.  What \<open>tiberius\<close> makes of a bound value is read back as
  the value for null, booleans, signed integers, floating-point numbers, texts and byte strings; unsigned integers come back
  as the signed integers with the same bits.  A date and time the server holds exactly comes back with the reading of calendar and
  clock that was bound, in the local time zone.\<close>

theorem mssql_values_roundtrip:
  assumes "mssql_cells K into_sql exact" and "mssql_bind_all K vs [] = Ok bs" and "mssql_times K instant shown_offset"
  shows "length bs = length vs \<and>
    (\<forall>i < length vs. direct_value (vs ! i) \<longrightarrow> mssql_decode K (into_sql (bs ! i)) = Ok (vs ! i)) \<and>
    (\<forall>i < length vs. \<forall>n. vs ! i = V_U32 n \<longrightarrow> mssql_decode K (into_sql (bs ! i)) = Ok (V_I32 n)) \<and>
    (\<forall>i < length vs. \<forall>n. vs ! i = V_U64 n \<longrightarrow> mssql_decode K (into_sql (bs ! i)) = Ok (V_I64 n)) \<and>
    (\<forall>i < length vs. \<forall>d. bs ! i = B_DateTime d \<and> exact d \<longrightarrow>
       (\<exists>x. mssql_decode K (into_sql (bs ! i)) = Ok (datetime_value K x) \<and> shown_offset x = offset_sec K \<and>
         instant x + shown_offset x * 1000000000 = timestamp K d * 1000000000 + nanosecond K d))"
proof -
  from mssql_bind_all_each [OF assms(2)] have bs: "list_all2 (\<lambda>v b. mssql_encode K v [] = Ok [b]) vs bs" by simp
  have e: "mssql_encode K (vs ! i) [] = Ok [bs ! i]" if "i < length vs" for i
    by (rule list_all2_nthD [OF bs that])
  note stored = mssql_cells.decode_into_sql [OF assms(1)]
  have "length bs = length vs" using bs by (simp add: list_all2_lengthD)
  moreover have "mssql_decode K (into_sql (bs ! i)) = Ok (vs ! i)" if "i < length vs" "direct_value (vs ! i)" for i
    using stored [of "bs ! i"] direct_value_bound [OF e [OF that(1)] that(2), of exact] by simp
  moreover have "mssql_decode K (into_sql (bs ! i)) = Ok (V_I32 n)" if "i < length vs" "vs ! i = V_U32 n" for i n
    using stored [of "bs ! i"] unsigned_value_bound(1) [of K n "bs ! i" exact] e [OF that(1)] that(2) by simp
  moreover have "mssql_decode K (into_sql (bs ! i)) = Ok (V_I64 n)" if "i < length vs" "vs ! i = V_U64 n" for i n
    using stored [of "bs ! i"] unsigned_value_bound(2) [of K n "bs ! i" exact] e [OF that(1)] that(2) by simp
  moreover have "mssql_decode K (into_sql (bs ! i)) = Ok (datetime_value K (datetime_from_naive K d))" if "bs ! i = B_DateTime d" "exact d" for i d
    using stored [of "bs ! i"] that by simp
  moreover have "shown_offset (datetime_from_naive K d) = offset_sec K \<and>
      instant (datetime_from_naive K d) + shown_offset (datetime_from_naive K d) * 1000000000 = timestamp K d * 1000000000 + nanosecond K d" for d
    using mssql_times.naive_instant [OF assms(3), of d] by simp
  ultimately show ?thesis by blast
qed

theorem mssql_values_roundtrip_witness:
  "mssql_decode (clock_kit 0) (plain_into_sql (B_I64 7)) = Ok (V_I64 7) \<and>
   mssql_decode (clock_kit 0) (plain_into_sql (B_I32 4294967295)) = Ok (V_I32 4294967295) \<and>
   (\<exists>x. mssql_decode (clock_kit 3600) (plain_into_sql (B_DateTime (0, 0))) = Ok (datetime_value (clock_kit 3600) x) \<and> snd x = 3600 \<and>
     fst x + snd x * 1000000000 = 0)"
proof -
  have "mssql_bind_all (clock_kit 0) [V_I64 7, V_U32 4294967295] [] = Ok [B_I64 7, B_I32 4294967295]" by (simp add: mssql_encode_def)
  moreover have "mssql_bind_all (clock_kit 3600) [V_Ext ''DateTime'' (V_String [])] [] = Ok [B_DateTime (0, 0)]"
    by (simp add: mssql_encode_def mssql_encode_ext_def clock_kit_def)
  ultimately show ?thesis
    using mssql_values_roundtrip [OF clock_cells_laws _ clock_times_laws, of 0 "[V_I64 7, V_U32 4294967295]"]
      mssql_values_roundtrip [OF clock_cells_laws _ clock_times_laws, of 3600 "[V_Ext ''DateTime'' (V_String [])]"]
    by (simp add: All_less_Suc2) (simp add: clock_kit_def)
qed

text \<open>\<open>exec\<close> inside a transaction: the three texts reach the server in order, and the affected rows of all results add up.\<close>

theorem mssql_transaction_in_order:
  assumes "tds_server T healthy db pending run"
    and "mc_inner c = Some cl" and "healthy cl" and "utf8_ok sql" and "mssql_bind_all K params [] = Ok q"
    and "run (db cl) (lit ''begin tran'') [] = Some (rs1, ns1, d1)"
    and "run d1 (exchange_spec itoa (lit ''@P'') 1 sql) q = Some (rs2, ns2, d2)"
    and "run d2 (lit ''commit'') [] = Some (rs3, ns3, d3)"
  shows "\<exists>c1 c2 c3 cl3. mssql_begin T c = Some (Ok (), c1) \<and>
    mssql_exec T K itoa sql params c1 = Some (Ok \<lparr>er_rows_affected = sum_list ns2, er_last_insert_id = V_Null\<rparr>, c2) \<and>
    mssql_commit T c2 = Some (Ok (), c3) \<and> mc_inner c3 = Some cl3 \<and> healthy cl3 \<and> db cl3 = d3"
proof -
  note server = tds_server.sees_def [OF assms(1)] and simple = tds_server.simple_ok [OF assms(1)]
  have "tds_server.sees healthy db c (db cl)" using assms(2,3) by (auto simp: server)
  from simple [OF this assms(6)] obtain c1 where c1: "mssql_begin T c = Some (Ok (), c1)" "tds_server.sees healthy db c1 d1"
    by (auto simp: mssql_begin_def)
  from tds_server.exec_ok [OF assms(1) c1(2) assms(4,5,7)] obtain c2 where
    c2: "mssql_exec T K itoa sql params c1 = Some (Ok \<lparr>er_rows_affected = sum_list ns2, er_last_insert_id = V_Null\<rparr>, c2)"
      "tds_server.sees healthy db c2 d2" by blast
  from simple [OF c2(2) assms(8)] obtain c3 where "mssql_commit T c2 = Some (Ok (), c3)" "tds_server.sees healthy db c3 d3"
    by (auto simp: mssql_commit_def)
  with c1(1) c2(1) show ?thesis by (auto simp: server)
qed

text \<open>After \<open>close\<close> nothing reaches the server any more, and closing again does nothing.\<close>

theorem mssql_closed:
  assumes "mssql_close T c = Some (r, c')" and "utf8_ok sql" and "mssql_bind_all K params [] = Ok q"
  shows "mc_inner c' = None \<and> mssql_close T c' = Some (Ok (), c') \<and>
    (\<forall>f \<in> {mssql_ping T, mssql_begin T, mssql_commit T, mssql_rollback T}. f c' = Some (Err (Message ''MssqlConnection is close''), c')) \<and>
    mssql_get_rows T K itoa sql params c' = Some (Err (Message ''MssqlConnection is close''), c') \<and>
    mssql_exec T K itoa sql params c' = Some (Err (Message ''MssqlConnection is close''), c')"
proof -
  from assms(1) have "mc_inner c' = None" by (auto simp: mssql_close_def split: option.splits)
  with assms(2,3) show ?thesis
    by (simp add: mssql_close_def mssql_ping_def mssql_begin_def mssql_commit_def mssql_rollback_def mssql_get_rows_def mssql_exec_def
        on_client_def abind_def athen_def alift_def mssql.rewrites_by_spec del: lit_Cons)
qed

section \<open>Where the driver does less than it means to\<close>

text \<open>
  A \<open>DATETIMEOFFSET\<close> is read as an instant that is off by sixty nanoseconds per second of its offset, and with sixty times the
  offset in the wrong direction; the conversion that would be right is there and is not used.
\<close>

lemma zoned_is_shifted:
  "datetime_from_zoned (clock_kit 0) (0, 28800) = (0, 28800)" "decode_zoned (clock_kit 0) (0, 28800) = (1728000, -1728000)"
  by (simp_all add: clock_kit_def datetime_from_zoned_def decode_zoned_def)

text \<open>A text that is no UUID is bound as the nil UUID.\<close>

lemma bad_uuid_is_nil:
  "uuid_from_str K s = None \<Longrightarrow> into_string K (V_String s) = Some s \<Longrightarrow>
    mssql_encode K (V_Ext ''Uuid'' (V_String s)) [] = Ok [B_Uuid (uuid_default K)]"
  by (simp add: mssql_encode_def mssql_encode_ext_def or_default_def)

text \<open>A connection string that asks for the certificate to be checked gets a configuration that trusts every certificate.\<close>

lemma trust_cert_false_is_ignored:
  assumes "config_laws F settings" and "mssql_set_uri F U tls url old = Ok c"
  shows "ms_trust (settings c)"
  by (rule config_laws.set_uri_trusts [OF assms])

end
