(* ===== verification/Ext_Types.thy ===== *)
theory Ext_Types
  imports Rbs_Value Std_Text
begin

text \<open>
  The extension types (\<open>src/types/\<close>): how dates, times, time stamps, decimals, UUIDs and JSON documents become dynamic values and
  are read back, the arithmetic of \<open>DateTime\<close>, and byte sizes.  A newtype is the type it wraps; \<open>fastdate\<close>, \<open>bigdecimal\<close> and the
  floating-point functions of the standard library are the argument \<open>X\<close>, \<open>'dt\<close> and \<open>'bd\<close> their date-time and decimal.  A \<open>Duration\<close> is a
  natural number of nanoseconds, a \<open>SystemTime\<close> the nanoseconds since the epoch.
\<close>

section \<open>Model\<close>

record ('dt, 'bd) ext_crates = "'dt kit" +
  time_to_string :: "ftime \<Rightarrow> bytes"
  unix_timestamp_nano :: "'dt \<Rightarrow> int"
  from_system_time :: "int \<Rightarrow> int \<Rightarrow> 'dt"
  from_timestamp :: "u64 \<Rightarrow> 'dt"
  bd_from_str :: "bytes \<Rightarrow> 'bd res"
  bd_to_string :: "'bd \<Rightarrow> bytes"
  f32_to_string :: "u32 \<Rightarrow> bytes"
  f64_to_string :: "u64 \<Rightarrow> bytes"
  two_decimals :: "int \<Rightarrow> int \<Rightarrow> bytes"
  scaled_f64 :: "bytes \<Rightarrow> int \<Rightarrow> int res"

text \<open>
  \<open>two_decimals s u\<close> is the quotient as \<open>f64\<close> with two digits, \<open>scaled_f64 t u\<close> the text \<open>t\<close> parsed as \<open>f64\<close>, times \<open>u\<close>, as \<open>i64\<close>.
\<close>

subsection \<open>Dates and times\<close>

definition date_into_value :: "('dt, 'bd) ext_crates \<Rightarrow> fdate \<Rightarrow> dyn_value" where
  "date_into_value X d = V_Ext ''Date'' (V_String (date_to_string X d))"

definition ext_date_from_str :: "('dt, 'bd) ext_crates \<Rightarrow> bytes \<Rightarrow> fdate res" where
  "ext_date_from_str X s = date_from_str X s"

definition date_default :: fdate where
  "date_default = \<lparr>fd_day = 1, fd_mon = 1, fd_year = 1970\<rparr>"

definition time_into_value :: "('dt, 'bd) ext_crates \<Rightarrow> ftime \<Rightarrow> dyn_value" where
  "time_into_value X t = V_Ext ''Time'' (V_String (time_to_string X t))"

definition ext_time_from_str :: "('dt, 'bd) ext_crates \<Rightarrow> bytes \<Rightarrow> ftime res" where
  "ext_time_from_str X s = time_from_str X s"

definition time_default :: ftime where
  "time_default = \<lparr>ft_nano = 0, ft_sec = 0, ft_minute = 0, ft_hour = 0\<rparr>"

definition datetime_into_value :: "('dt, 'bd) ext_crates \<Rightarrow> 'dt \<Rightarrow> dyn_value" where
  "datetime_into_value X d = V_Ext ''DateTime'' (V_String (datetime_to_string X d))"

definition ext_datetime_from_str :: "('dt, 'bd) ext_crates \<Rightarrow> bytes \<Rightarrow> 'dt res" where
  "ext_datetime_from_str X s = datetime_from_str X s"

definition datetime_deserialize :: "('dt, 'bd) ext_crates \<Rightarrow> dyn_value \<Rightarrow> 'dt res" where
  "datetime_deserialize X v =
     (case v of
        V_I32 u \<Rightarrow> Ok (from_timestamp_millis X (scast u))
      | V_U32 u \<Rightarrow> Ok (from_timestamp_millis X (ucast u))
      | V_I64 u \<Rightarrow> Ok (from_timestamp_millis X u)
      | V_U64 u \<Rightarrow> Ok (from_timestamp_millis X u)
      | V_String s \<Rightarrow> datetime_from_str X s
      | _ \<Rightarrow> Err (Message ''unsupported type DateTime''))"

text \<open>The difference of two instants: the \<open>i128\<close> is cut to a \<open>u64\<close>.\<close>

definition datetime_sub :: "('dt, 'bd) ext_crates \<Rightarrow> 'dt \<Rightarrow> 'dt \<Rightarrow> nat" where
  "datetime_sub X a b = unat (of_int (unix_timestamp_nano X a - unix_timestamp_nano X b) :: u64)"

definition datetime_from_system_time :: "('dt, 'bd) ext_crates \<Rightarrow> int \<Rightarrow> 'dt" where
  "datetime_from_system_time X v = from_system_time X v 0"

definition datetime_into_system_time :: "('dt, 'bd) ext_crates \<Rightarrow> 'dt \<Rightarrow> int" where
  "datetime_into_system_time X v =
     (let nano = unix_timestamp_nano X v in
      if nano \<ge> 0 then int (unat (of_int nano :: u64)) else - int (unat (of_int nano :: u64)))"

definition datetime_default :: "('dt, 'bd) ext_crates \<Rightarrow> 'dt" where
  "datetime_default X = from_timestamp X 0"

subsection \<open>Time stamps and UUIDs\<close>

definition timestamp_into_value :: "u64 \<Rightarrow> dyn_value" where
  "timestamp_into_value n = V_Ext ''Timestamp'' (V_I64 n)"

definition timestamp_deserialize :: "('dt, 'bd) ext_crates \<Rightarrow> dyn_value \<Rightarrow> u64 res" where
  "timestamp_deserialize X v = (case as_i64 X v of None \<Rightarrow> Err (Message ''warn type decode Json'') | Some n \<Rightarrow> Ok n)"

definition timestamp_from_str :: "bytes \<Rightarrow> u64 res" where
  "timestamp_from_str s = (case parse_i64 s of Some n \<Rightarrow> Ok n | None \<Rightarrow> Err (Message ''invalid integer''))"

definition timestamp_from_datetime :: "('dt, 'bd) ext_crates \<Rightarrow> 'dt \<Rightarrow> u64" where
  "timestamp_from_datetime X d = unix_timestamp_millis X d"

definition timestamp_into_datetime :: "('dt, 'bd) ext_crates \<Rightarrow> u64 \<Rightarrow> 'dt" where
  "timestamp_into_datetime X n = from_timestamp_millis X n"

definition uuid_into_value :: "bytes \<Rightarrow> dyn_value" where
  "uuid_into_value s = V_Ext ''Uuid'' (V_String s)"

definition uuid_deserialize :: "('dt, 'bd) ext_crates \<Rightarrow> dyn_value \<Rightarrow> bytes res" where
  "uuid_deserialize X v = (case into_string X v of None \<Rightarrow> Err (Message ''warn type decode Uuid'') | Some s \<Rightarrow> Ok s)"

definition ext_uuid_from_str :: "bytes \<Rightarrow> bytes res" where
  "ext_uuid_from_str s = Ok s"

subsection \<open>Decimals\<close>

definition ext_decimal_from_str :: "('dt, 'bd) ext_crates \<Rightarrow> bytes \<Rightarrow> 'bd res" where
  "ext_decimal_from_str X s = bd_from_str X s"

definition decimal_new :: "('dt, 'bd) ext_crates \<Rightarrow> bytes \<Rightarrow> 'bd res" where
  "decimal_new X s = ext_decimal_from_str X s"

definition decimal_into_value :: "('dt, 'bd) ext_crates \<Rightarrow> 'bd \<Rightarrow> dyn_value" where
  "decimal_into_value X d = V_Ext ''Decimal'' (V_String (bd_to_string X d))"

definition decimal_deserialize :: "('dt, 'bd) ext_crates \<Rightarrow> dyn_value \<Rightarrow> 'bd res" where
  "decimal_deserialize X v =
     ext_decimal_from_str X (case v of V_String s \<Rightarrow> s | V_Ext _ w \<Rightarrow> value_to_string X w | _ \<Rightarrow> value_to_string X v)"

subsection \<open>JSON\<close>

definition int_to_string :: "int \<Rightarrow> bytes" where
  "int_to_string n = (if n < 0 then 45 # dec_digits (nat (- n)) else dec_digits (nat n))"

definition bool_to_string :: "bool \<Rightarrow> bytes" where
  "bool_to_string b = lit (if b then ''true'' else ''false'')"

text \<open>A text that begins and ends like a JSON object, array or string is taken for JSON, any other text is put in quotes.\<close>

definition is_json_text :: "bytes \<Rightarrow> bool" where
  "is_json_text s \<longleftrightarrow>
     starts_with (lit ''{'') s \<and> ends_with (lit ''}'') s \<or> starts_with (lit ''['') s \<and> ends_with (lit '']'') s \<or>
     starts_with [34] s \<and> ends_with [34] s"

fun json_from_value :: "('dt, 'bd) ext_crates \<Rightarrow> dyn_value \<Rightarrow> bytes" where
  "json_from_value X V_Null = value_to_string X V_Null"
| "json_from_value X (V_Bool b) = bool_to_string b"
| "json_from_value X (V_I32 n) = int_to_string (sint n)"
| "json_from_value X (V_I64 n) = int_to_string (sint n)"
| "json_from_value X (V_U32 n) = dec_digits (unat n)"
| "json_from_value X (V_U64 n) = dec_digits (unat n)"
| "json_from_value X (V_F32 f) = f32_to_string X f"
| "json_from_value X (V_F64 f) = f64_to_string X f"
| "json_from_value X (V_String s) = (if is_json_text s then s else [34] @ s @ [34])"
| "json_from_value X (V_Binary b) = from_utf8_lossy b"
| "json_from_value X (V_Array vs) = value_to_string X (V_Array vs)"
| "json_from_value X (V_Map m) = value_to_string X (V_Map m)"
| "json_from_value X (V_Ext _ v) = json_from_value X v"

definition json_default :: bytes where
  "json_default = lit ''null''"

definition json_into_value :: "bytes \<Rightarrow> dyn_value" where
  "json_into_value j = V_Ext ''Json'' (V_String j)"

text \<open>The text \<open>JsonV\<close> hands to the JSON parser when it is read from a dynamic value.\<close>

definition jsonv_text :: "('dt, 'bd) ext_crates \<Rightarrow> dyn_value \<Rightarrow> bytes res" where
  "jsonv_text X v =
     (let v = (case v of V_Ext _ w \<Rightarrow> w | _ \<Rightarrow> v) in
      case v of V_Binary b \<Rightarrow> from_utf8 b | V_String s \<Rightarrow> Ok s | _ \<Rightarrow> Ok (value_to_string X v))"

subsection \<open>Byte sizes\<close>

definition EB :: int where "EB = 1024 * 1024 * 1024 * 1024 * 1024"
definition TB :: int where "TB = 1024 * 1024 * 1024 * 1024"
definition GB :: int where "GB = 1024 * 1024 * 1024"
definition MB :: int where "MB = 1024 * 1024"
definition KB :: int where "KB = 1024"

definition bytes_size_display :: "('dt, 'bd) ext_crates \<Rightarrow> int \<Rightarrow> bytes" where
  "bytes_size_display X s =
     (if s < KB then two_decimals X s 1 @ lit ''B''
      else if s < MB then two_decimals X s KB @ lit ''KB''
      else if s < GB then two_decimals X s MB @ lit ''MB''
      else if s < TB then two_decimals X s GB @ lit ''GB''
      else if s < EB then two_decimals X s TB @ lit ''TB''
      else two_decimals X s EB @ lit ''EB'')"

text \<open>\<open>trim_end_matches\<close>.\<close>

function trim_end_matches :: "bytes \<Rightarrow> bytes \<Rightarrow> bytes" where
  "trim_end_matches p s = (if p \<noteq> [] \<and> ends_with p s then trim_end_matches p (take (length s - length p) s) else s)"
  by pat_completeness auto
termination
  by (relation "measure (length \<circ> snd)") (auto simp: ends_with_def intro!: diff_less)

declare trim_end_matches.simps [simp del]

definition bytes_size_from_str :: "('dt, 'bd) ext_crates \<Rightarrow> bytes \<Rightarrow> int res" where
  "bytes_size_from_str X s =
     (if ends_with (lit ''EB'') s then scaled_f64 X (trim_end_matches (lit ''EB'') s) EB
      else if ends_with (lit ''TB'') s then scaled_f64 X (trim_end_matches (lit ''TB'') s) TB
      else if ends_with (lit ''GB'') s then scaled_f64 X (trim_end_matches (lit ''GB'') s) GB
      else if ends_with (lit ''MB'') s then scaled_f64 X (trim_end_matches (lit ''MB'') s) MB
      else if ends_with (lit ''KB'') s then scaled_f64 X (trim_end_matches (lit ''KB'') s) KB
      else scaled_f64 X (trim_end_matches (lit ''B'') s) 1)"

section \<open>What the crates promise\<close>

text \<open>A system time from the epoch on, within the nanoseconds of a \<open>u64\<close>, becomes the instant it denotes.\<close>

locale ext_laws =
  fixes X :: "('dt, 'bd) ext_crates"
  assumes system_time_law: "0 \<le> m \<Longrightarrow> m < 2 ^ 64 \<Longrightarrow> unix_timestamp_nano X (from_system_time X m zone) = m"

definition number_text :: "int \<Rightarrow> bytes" where
  "number_text n = (if n < 0 then 1 else 0) # dec_digits (nat \<bar>n\<bar>)"

definition text_number :: "bytes \<Rightarrow> int res" where
  "text_number s = (case s of [] \<Rightarrow> Err (Message ''number'') | b # bs \<Rightarrow>
     (case parse_digits 0 bs of None \<Rightarrow> Err (Message ''number'') | Some n \<Rightarrow> Ok (if b = 1 then - int n else int n)))"

lemma text_number_text [simp]: "text_number (number_text n) = Ok n"
  by (simp add: text_number_def number_text_def)

text \<open>Instants and decimals as numbers.\<close>

definition number_crates :: "(int, int) ext_crates" where
  "number_crates = \<lparr>
     into_string = (\<lambda>v. case v of V_String s \<Rightarrow> Some s | V_Ext _ (V_String s) \<Rightarrow> Some s | _ \<Rightarrow> None),
     value_as_str = (\<lambda>v. case v of V_String s \<Rightarrow> Some s | _ \<Rightarrow> None),
     as_u64 = (\<lambda>v. case v of V_U64 n \<Rightarrow> Some n | _ \<Rightarrow> None),
     as_i64 = (\<lambda>v. case v of V_I64 n \<Rightarrow> Some n | V_Ext _ (V_I64 n) \<Rightarrow> Some n | _ \<Rightarrow> None),
     into_bytes = (\<lambda>v. case v of V_Binary b \<Rightarrow> Some b | _ \<Rightarrow> None), value_to_string = (\<lambda>_. []),
     json_from_str = (\<lambda>_. Err (Message ''json'')),
     date_from_str = (\<lambda>s. case s of d # m # y \<Rightarrow> rbind (text_number y) (\<lambda>y. Ok \<lparr>fd_day = d, fd_mon = m, fd_year = y\<rparr>) | _ \<Rightarrow> Err (Message ''date'')),
     date_to_string = (\<lambda>d. fd_day d # fd_mon d # number_text (fd_year d)),
     time_from_str = (\<lambda>s. case s of h # m # c # n \<Rightarrow> rbind (text_number n) (\<lambda>n. Ok \<lparr>ft_nano = of_int n, ft_sec = c, ft_minute = m, ft_hour = h\<rparr>)
       | _ \<Rightarrow> Err (Message ''time'')),
     datetime_from_str = text_number, datetime_from_str_default = (\<lambda>s _. text_number s),
     datetime_from_parts = (\<lambda>_ _ _. 0), datetime_from_date_time = (\<lambda>_ _. 0), from_timestamp_millis = (\<lambda>n. sint n * 1000000),
     unix_timestamp_millis = (\<lambda>d. of_int (d div 1000000)), datetime_to_string = number_text,
     dt_date = (\<lambda>_. date_default), dt_time = (\<lambda>_. time_default), decimal_from_str = Ok, f32_of_f64 = ucast,
     f32_parse = (\<lambda>_. None), f64_parse = (\<lambda>_. None),
     time_to_string = (\<lambda>t. ft_hour t # ft_minute t # ft_sec t # number_text (uint (ft_nano t))), unix_timestamp_nano = (\<lambda>d. d),
     from_system_time = (\<lambda>n _. n), from_timestamp = (\<lambda>n. sint n * 1000000000), bd_from_str = text_number, bd_to_string = number_text,
     f32_to_string = (\<lambda>_. []), f64_to_string = (\<lambda>_. []), two_decimals = (\<lambda>s u. int_to_string (s div u)), scaled_f64 = (\<lambda>_ u. Ok u)\<rparr>"

lemma number_laws: "ext_laws number_crates"
  by unfold_locales (simp_all add: number_crates_def)

interpretation numbers: ext_laws number_crates
  by (rule number_laws)

lemma uint_word_64: "uint (word_of_int n :: u64) = n mod 2 ^ 64"
  by (simp add: uint_word_of_int_eq take_bit_eq_mod)

section \<open>Properties\<close>

text \<open>The difference of two instants is exact when the first is the later one by less than $2^{64}$ nanoseconds (584 years); otherwise it
  is taken modulo $2^{64}$ nanoseconds.  Converting to a system time and back is exact for instants of the 584 years after the epoch.\<close>

theorem datetime_difference_bounds:
  assumes "ext_laws X"
  shows "int (datetime_sub X a b) = (unix_timestamp_nano X a - unix_timestamp_nano X b) mod 2 ^ 64 \<and>
    (0 \<le> unix_timestamp_nano X a - unix_timestamp_nano X b \<and> unix_timestamp_nano X a - unix_timestamp_nano X b < 2 ^ 64 \<longrightarrow>
      int (datetime_sub X a b) = unix_timestamp_nano X a - unix_timestamp_nano X b) \<and>
    (0 \<le> unix_timestamp_nano X a \<and> unix_timestamp_nano X a < 2 ^ 64 \<longrightarrow>
      unix_timestamp_nano X (datetime_from_system_time X (datetime_into_system_time X a)) = unix_timestamp_nano X a)"
proof -
  show ?thesis
    by (simp add: datetime_sub_def datetime_from_system_time_def datetime_into_system_time_def Let_def uint_word_64
        ext_laws.system_time_law [OF assms] del: of_int_diff)
qed

theorem datetime_difference_bounds_witness:
  "datetime_sub number_crates 7 4 = 3 \<and> datetime_sub number_crates 4 7 = 2 ^ 64 - 3"
proof -
  have n: "unix_timestamp_nano number_crates = (\<lambda>d. d)" by (simp add: number_crates_def)
  from datetime_difference_bounds [OF number_laws, of 7 4] datetime_difference_bounds [OF number_laws, of 4 7]
  show ?thesis by (simp add: n)
qed

section \<open>Where the types do less than they mean to\<close>

text \<open>An instant before the epoch becomes a system time nearly 584 years before it.\<close>

lemma before_the_epoch:
  assumes "unix_timestamp_nano X d = - 1"
  shows "datetime_into_system_time X d = - (2 ^ 64 - 1)"
  by (simp add: datetime_into_system_time_def assms unsigned_minus_1_eq_mask mask_eq_exp_minus_1)

text \<open>The JSON documents null, true and numbers come back from a dynamic value as JSON strings.\<close>

lemma json_null_becomes_a_string: "json_from_value X (json_into_value json_default) = [34] @ lit ''null'' @ [34]"
  by (simp add: json_into_value_def json_default_def is_json_text_def starts_with_def)

text \<open>A text that contains a quotation mark is put in quotes without escaping it, which is no JSON.\<close>

lemma quotes_are_not_escaped: "json_from_value X (V_String [97, 34, 98]) = [34, 97, 34, 98, 34]"
  by (simp add: is_json_text_def starts_with_def)

end
