(* ===== verification/Try_Stream.thy ===== *)
theory Try_Stream
  imports Async_Op
begin

text \<open>
  \<open>TryAsyncStream\<close> and the macro \<open>try_stream!\<close> (\<open>src/ext/async_stream.rs\<close>): a stream whose items are sent by a future through a
  channel without buffer.  The body of the future is given as a generator: from a suspension point it runs to its next
  \<open>yield\<close>, to its end or to an error, or waits for ever.  The channel of the \<open>futures\<close> crate is the argument \<open>C\<close>.
\<close>

section \<open>Model\<close>

text \<open>Two senders share the channel: the one given to the body and the one kept to report the body's error.\<close>

datatype sender = Body_Sender | Error_Sender

text \<open>\<open>mp_flushed\<close> is whether \<open>send\<close> has finished, \<open>mp_recv\<close> a poll of the receiver: pending (\<open>None\<close>), the end (\<open>Some None\<close>) or a message.\<close>

record ('ch, 'm) mpsc =
  mp_channel :: 'ch
  mp_start_send :: "sender \<Rightarrow> 'm \<Rightarrow> 'ch \<Rightarrow> 'ch"
  mp_flushed :: "sender \<Rightarrow> 'ch \<Rightarrow> bool"
  mp_drop :: "sender \<Rightarrow> 'ch \<Rightarrow> 'ch"
  mp_recv :: "'ch \<Rightarrow> 'm option option \<times> 'ch"

type_synonym ('g, 'st, 'a) generator = "'g \<Rightarrow> 'st \<Rightarrow> (('a option \<times> 'g) res \<times> 'st) option"

text \<open>Where the future is: about to run the body, waiting at a \<open>yield\<close> or with its error for the receiver, finished.\<close>

datatype 'g stream_future = F_Run 'g | F_Yield 'g | F_Failed | F_Done

record ('g, 'ch) try_async_stream =
  ts_receiver :: 'ch
  ts_future :: "'g stream_future"

definition try_async_stream_new :: "('ch, 'a res) mpsc \<Rightarrow> 'g \<Rightarrow> ('g, 'ch) try_async_stream" where
  "try_async_stream_new C g = \<lparr>ts_receiver = mp_channel C, ts_future = F_Run g\<rparr>"

text \<open>One poll of the future: it runs until it has to wait.\<close>

partial_function (option) poll_future ::
    "('ch, 'a res) mpsc \<Rightarrow> ('g, 'st, 'a) generator \<Rightarrow> ('g, 'ch) try_async_stream \<Rightarrow> 'st \<Rightarrow> (unit res \<times> ('g, 'ch) try_async_stream \<times> 'st) option" where
  "poll_future C gen s st =
     (case ts_future s of
        F_Run g \<Rightarrow> Option.bind (gen g st) (\<lambda>(r, st).
          case r of
            Ok (Some x, g) \<Rightarrow> poll_future C gen \<lparr>ts_receiver = mp_start_send C Body_Sender (Ok x) (ts_receiver s), ts_future = F_Yield g\<rparr> st
          | Ok (None, g) \<Rightarrow>
              Some (Ok (), \<lparr>ts_receiver = mp_drop C Error_Sender (mp_drop C Body_Sender (ts_receiver s)), ts_future = F_Done\<rparr>, st)
          | Err e \<Rightarrow> poll_future C gen
              \<lparr>ts_receiver = mp_start_send C Error_Sender (Err e) (mp_drop C Body_Sender (ts_receiver s)), ts_future = F_Failed\<rparr> st
          | Panic \<Rightarrow> Some (Panic, s, st))
      | F_Yield g \<Rightarrow>
          if mp_flushed C Body_Sender (ts_receiver s) then poll_future C gen (s\<lparr>ts_future := F_Run g\<rparr>) st else Some (Ok (), s, st)
      | F_Failed \<Rightarrow>
          if mp_flushed C Error_Sender (ts_receiver s)
          then Some (Ok (), \<lparr>ts_receiver = mp_drop C Error_Sender (ts_receiver s), ts_future = F_Done\<rparr>, st) else Some (Ok (), s, st)
      | F_Done \<Rightarrow> Some (Ok (), s, st))"

text \<open>The future and then the receiver are polled; the result of the future is not looked at.\<close>

definition poll_next ::
    "('ch, 'a res) mpsc \<Rightarrow> ('g, 'st, 'a) generator \<Rightarrow> ('g, 'ch) try_async_stream \<Rightarrow> 'st \<Rightarrow>
      ('a res option option res \<times> ('g, 'ch) try_async_stream \<times> 'st) option" where
  "poll_next C gen s st =
     Option.bind (poll_future C gen s st) (\<lambda>(r, s, st).
       case r of
         Panic \<Rightarrow> Some (Panic, s, st)
       | _ \<Rightarrow> (case mp_recv C (ts_receiver s) of (m, ch) \<Rightarrow> Some (Ok m, s\<lparr>ts_receiver := ch\<rparr>, st)))"

section \<open>What the channel promises\<close>

text \<open>
  A channel made with a buffer of 0: a sender may put in a message when the channel is empty, and its \<open>send\<close> is finished when
  the message has been taken.  The end is reached when nothing is left and all senders are gone.
\<close>

locale rendezvous =
  fixes C :: "('ch, 'a res) mpsc" and queue :: "'ch \<Rightarrow> 'a res list" and senders :: "'ch \<Rightarrow> sender set"
  assumes channel_law: "queue (mp_channel C) = []" "senders (mp_channel C) = UNIV"
    and send_law: "queue ch = [] \<Longrightarrow> queue (mp_start_send C s m ch) = [m]" "senders (mp_start_send C s m ch) = senders ch"
    and flushed_law: "mp_flushed C s ch \<longleftrightarrow> queue ch = []"
    and drop_law: "queue (mp_drop C s ch) = queue ch" "senders (mp_drop C s ch) = senders ch - {s}"
    and recv_law: "queue ch = m # ms \<Longrightarrow> \<exists>ch'. mp_recv C ch = (Some (Some m), ch') \<and> queue ch' = ms \<and> senders ch' = senders ch"
    and pending_law: "queue ch = [] \<Longrightarrow> senders ch \<noteq> {} \<Longrightarrow> mp_recv C ch = (None, ch)"
    and end_law: "queue ch = [] \<Longrightarrow> senders ch = {} \<Longrightarrow> mp_recv C ch = (Some None, ch)"

text \<open>The stream is suspended where the generator is, with nothing in the channel; or it is at its end.\<close>

definition suspended :: "('ch \<Rightarrow> 'm list) \<Rightarrow> ('ch \<Rightarrow> sender set) \<Rightarrow> ('g, 'ch) try_async_stream \<Rightarrow> 'g \<Rightarrow> bool" where
  "suspended queue senders s g \<longleftrightarrow> ts_future s \<in> {F_Run g, F_Yield g} \<and> queue (ts_receiver s) = [] \<and> senders (ts_receiver s) = UNIV"

definition finished :: "('ch \<Rightarrow> 'm list) \<Rightarrow> ('ch \<Rightarrow> sender set) \<Rightarrow> ('g, 'ch) try_async_stream \<Rightarrow> bool" where
  "finished queue senders s \<longleftrightarrow> ts_future s = F_Done \<and> queue (ts_receiver s) = [] \<and> senders (ts_receiver s) = {}"

lemma senders_gone: "UNIV - {Body_Sender, Error_Sender} = {}" "UNIV - {Body_Sender} - {Error_Sender} = {}"
  using sender.exhaust by auto

context rendezvous
begin

lemma poll_runs:
  assumes "suspended queue senders s g"
  shows "\<exists>s'. poll_future C gen s st = poll_future C gen s' st \<and> ts_future s' = F_Run g \<and> queue (ts_receiver s') = [] \<and> senders (ts_receiver s') = UNIV"
proof (cases "ts_future s = F_Run g")
  case False
  with assms have "poll_future C gen s st = poll_future C gen (s\<lparr>ts_future := F_Run g\<rparr>) st"
    by (subst poll_future.simps) (simp add: suspended_def flushed_law)
  with assms show ?thesis by (intro exI [of _ "s\<lparr>ts_future := F_Run g\<rparr>"]) (simp add: suspended_def)
qed (use assms in \<open>auto simp: suspended_def\<close>)

lemma poll_yields:
  assumes "suspended queue senders s g" and "gen g st = Some (Ok (Some x, g'), st')"
  shows "\<exists>s'. poll_next C gen s st = Some (Ok (Some (Some (Ok x))), s', st') \<and> suspended queue senders s' g'"
proof -
  from poll_runs [OF assms(1), where gen = gen and st = st] obtain s1 where
    s1: "poll_future C gen s st = poll_future C gen s1 st" "ts_future s1 = F_Run g" "queue (ts_receiver s1) = []" "senders (ts_receiver s1) = UNIV"
    by blast
  let ?ch = "mp_start_send C Body_Sender (Ok x) (ts_receiver s1)"
  have q: "queue ?ch = [Ok x]" "senders ?ch = UNIV" using send_law s1(3,4) by auto
  have "poll_future C gen s st = poll_future C gen \<lparr>ts_receiver = ?ch, ts_future = F_Yield g'\<rparr> st'"
    unfolding s1(1) by (subst poll_future.simps) (simp add: s1(2) assms(2))
  also have "\<dots> = Some (Ok (), \<lparr>ts_receiver = ?ch, ts_future = F_Yield g'\<rparr>, st')"
    by (subst poll_future.simps) (simp add: flushed_law q(1))
  finally show ?thesis using recv_law [OF q(1)] q(2) by (auto simp: poll_next_def suspended_def)
qed

lemma poll_ends:
  assumes "suspended queue senders s g" and "gen g st = Some (Ok (None, g'), st')"
  shows "\<exists>s'. poll_next C gen s st = Some (Ok (Some None), s', st') \<and> finished queue senders s'"
proof -
  from poll_runs [OF assms(1), where gen = gen and st = st] obtain s1 where
    s1: "poll_future C gen s st = poll_future C gen s1 st" "ts_future s1 = F_Run g" "queue (ts_receiver s1) = []" "senders (ts_receiver s1) = UNIV"
    by blast
  let ?ch = "mp_drop C Error_Sender (mp_drop C Body_Sender (ts_receiver s1))"
  have q: "queue ?ch = []" "senders ?ch = {}" using drop_law s1(3,4) by (simp_all add: senders_gone)
  have "poll_future C gen s st = Some (Ok (), \<lparr>ts_receiver = ?ch, ts_future = F_Done\<rparr>, st')"
    unfolding s1(1) by (subst poll_future.simps) (simp add: s1(2) assms(2))
  then show ?thesis using end_law [OF q] q by (auto simp: poll_next_def finished_def)
qed

lemma poll_finished: "finished queue senders s \<Longrightarrow> poll_next C gen s st = Some (Ok (Some None), s, st)"
  by (auto simp: poll_next_def finished_def poll_future.simps end_law)

lemma poll_fails:
  assumes "suspended queue senders s g" and "gen g st = Some (Err e, st')"
  shows "\<exists>s' s''. poll_next C gen s st = Some (Ok (Some (Some (Err e))), s', st') \<and>
    poll_next C gen s' st' = Some (Ok (Some None), s'', st') \<and> finished queue senders s''"
proof -
  from poll_runs [OF assms(1), where gen = gen and st = st] obtain s1 where
    s1: "poll_future C gen s st = poll_future C gen s1 st" "ts_future s1 = F_Run g" "queue (ts_receiver s1) = []" "senders (ts_receiver s1) = UNIV"
    by blast
  let ?ch = "mp_start_send C Error_Sender (Err e) (mp_drop C Body_Sender (ts_receiver s1))"
  have q: "queue ?ch = [Err e]" "senders ?ch = UNIV - {Body_Sender}" using send_law drop_law s1(3,4) by auto
  have "poll_future C gen s st = poll_future C gen \<lparr>ts_receiver = ?ch, ts_future = F_Failed\<rparr> st'"
    unfolding s1(1) by (subst poll_future.simps) (simp add: s1(2) assms(2))
  also have "\<dots> = Some (Ok (), \<lparr>ts_receiver = ?ch, ts_future = F_Failed\<rparr>, st')"
    by (subst poll_future.simps) (simp add: flushed_law q(1))
  finally obtain ch where ch: "poll_next C gen s st = Some (Ok (Some (Some (Err e))), \<lparr>ts_receiver = ch, ts_future = F_Failed\<rparr>, st')"
    "queue ch = []" "senders ch = UNIV - {Body_Sender}"
    using recv_law [OF q(1)] q(2) by (auto simp: poll_next_def)
  let ?d = "mp_drop C Error_Sender ch"
  have d: "queue ?d = []" "senders ?d = {}" using drop_law ch(2,3) by (simp_all add: senders_gone)
  have "poll_next C gen \<lparr>ts_receiver = ch, ts_future = F_Failed\<rparr> st' = Some (Ok (Some None), \<lparr>ts_receiver = ?d, ts_future = F_Done\<rparr>, st')"
    using end_law [OF d] by (simp add: poll_next_def poll_future.simps flushed_law ch(2))
  with ch(1) d show ?thesis by (auto simp: finished_def)
qed

lemma poll_waits:
  assumes "suspended queue senders s g" and "gen g st = None"
  shows "poll_next C gen s st = None"
proof -
  from poll_runs [OF assms(1), where gen = gen and st = st] obtain s1 where "poll_future C gen s st = poll_future C gen s1 st" "ts_future s1 = F_Run g" by blast
  moreover from this(2) have "poll_future C gen s1 st = None" by (subst poll_future.simps) (simp add: assms(2))
  ultimately show ?thesis by (simp add: poll_next_def)
qed

end

text \<open>A channel with at most one message, and who still holds a sender.\<close>

definition slot_mpsc :: "('m list \<times> sender set, 'm) mpsc" where
  "slot_mpsc = \<lparr>mp_channel = ([], UNIV), mp_start_send = (\<lambda>_ m (q, s). (q @ [m], s)), mp_flushed = (\<lambda>_ (q, s). q = []),
     mp_drop = (\<lambda>x (q, s). (q, s - {x})),
     mp_recv = (\<lambda>(q, s). case q of m # q \<Rightarrow> (Some (Some m), (q, s)) | [] \<Rightarrow> (if s = {} then Some None else None, (q, s)))\<rparr>"

lemma slot_laws: "rendezvous slot_mpsc fst snd"
  by unfold_locales (auto simp: slot_mpsc_def split: prod.splits)

interpretation slot: rendezvous slot_mpsc fst snd
  by (rule slot_laws)

section \<open>Properties\<close>

text \<open>C12: A stream made by \<open>try_stream!\<close> is its generator.  Each poll runs the body from the \<open>yield\<close> at which it is suspended to the next one
  and returns the item yielded there, so that nothing behind a \<open>yield\<close> runs before the stream is polled again; an error of
  the body is the last item; after the end every poll reports the end; and a poll waits exactly when the body does.\<close>

theorem try_stream_is_the_generator:
  assumes "rendezvous C queue senders"
  shows "suspended queue senders (try_async_stream_new C g0) g0 \<and>
    (suspended queue senders s g \<longrightarrow>
      (\<forall>x g' st'. gen g st = Some (Ok (Some x, g'), st') \<longrightarrow>
        (\<exists>s'. poll_next C gen s st = Some (Ok (Some (Some (Ok x))), s', st') \<and> suspended queue senders s' g')) \<and>
      (\<forall>g' st'. gen g st = Some (Ok (None, g'), st') \<longrightarrow>
        (\<exists>s'. poll_next C gen s st = Some (Ok (Some None), s', st') \<and> finished queue senders s')) \<and>
      (\<forall>e st'. gen g st = Some (Err e, st') \<longrightarrow>
        (\<exists>s' s''. poll_next C gen s st = Some (Ok (Some (Some (Err e))), s', st') \<and>
          poll_next C gen s' st' = Some (Ok (Some None), s'', st') \<and> finished queue senders s'')) \<and>
      (gen g st = None \<longrightarrow> poll_next C gen s st = None)) \<and>
    (finished queue senders s \<longrightarrow> poll_next C gen s st = Some (Ok (Some None), s, st))"
  using rendezvous.channel_law [OF assms] rendezvous.poll_yields [OF assms] rendezvous.poll_ends [OF assms]
    rendezvous.poll_fails [OF assms] rendezvous.poll_waits [OF assms] rendezvous.poll_finished [OF assms]
  by (auto simp: try_async_stream_new_def suspended_def [of queue senders "\<lparr>ts_receiver = mp_channel C, ts_future = F_Run g0\<rparr>"])

theorem try_stream_is_the_generator_witness:
  "\<exists>s'. poll_next slot_mpsc (\<lambda>g n. Some (Ok (if g then Some n else None, False), n + 1)) (try_async_stream_new slot_mpsc True) (5 :: nat) =
      Some (Ok (Some (Some (Ok 5))), s', 6) \<and> suspended fst snd s' False"
proof -
  let ?gen = "\<lambda>g n. Some (Ok (if g then Some n else None, False), n + 1)"
  note t = try_stream_is_the_generator [OF slot_laws, of True "try_async_stream_new slot_mpsc True" True ?gen "5 :: nat"]
  have "?gen True (5 :: nat) = Some (Ok (Some 5, False), 6)" by simp
  with t show ?thesis by blast
qed

end
