(* ===== verification/Spec2Isabelle.thy ===== *)
theory Spec2Isabelle
  imports Exchange Net_Flush Mysql_Db Mysql_Options Pg_Times Pg_Db Pg_Prepared Pg_Login Sqlite_Owned Mssql_Db Ext_Types Try_Stream
begin

text \<open>
  \<^bold>\<open>Verification of rbdc\<close>, the database connectivity layer of rbatis: a driver-independent core (\<open>src/src\<close>) and
  drivers that speak the MySQL and the PostgreSQL wire protocols (\<open>src/rbdc-mysql\<close>, \<open>src/rbdc-pg\<close>) or call the SQLite
  library (\<open>src/rbdc-sqlite\<close>) or a client of SQL Server (\<open>src/rbdc-mssql\<close>), with a connection pool
  (\<open>src/rbdc-pool-fast\<close>).  The development models these parts as executable functions and proves
  what a user of a connection relies on: a query returns exactly the rows the server sent for it, whatever earlier
  queries left unread and however the network cuts the bytes; the values that go out and come in are the ones that
  were meant; a login gives away no credentials it should not.

  \<^bold>\<open>How the parts interact.\<close>  A user calls the traits of \<open>db.rs\<close> on a connection, possibly one that a pool
  handed out.  The driver rewrites the placeholders of the statement, looks the statement up in its cache, prepares
  it on a miss (and closes what the cache evicts), encodes the arguments, and sends packets through a buffered
  stream over a socket that may have been upgraded to TLS.  Responses come back as a stream of results the caller
  may abandon half-way; the next use of the connection first consumes what is outstanding.  PostgreSQL additionally
  looks up types it does not know by queries on the same connection.  SQLite has no socket: a worker thread owns the
  database and its statements, takes commands from a channel and sends the rows of a query through another one, while
  the caller receives them and may stop at any time.

  \<^bold>\<open>Conventions.\<close>
  \<^item> A fallible function returns \<open>'a res\<close>: \<open>Ok v\<close>, \<open>Err e\<close> for \<open>Result::Err\<close>, or \<open>Panic\<close> for a Rust panic (a slice or
    an index out of range, \<open>unwrap\<close> on nothing, a failed assertion), so every panic of the source is a branch.
  \<^item> Texts and buffers are byte lists.  Machine integers are words of their width; arithmetic on them wraps around, as
    in a release build.  Lengths of in-memory buffers (\<open>usize\<close>) are natural numbers, except where a narrower
    integer of the protocol is computed from them.  Floating-point numbers are their bit patterns.
  \<^item> An asynchronous operation is a function of the state that returns \<open>None\<close> if it waits for ever and otherwise the
    outcome with the new state (\<open>Async_Op\<close>); loops that wait for the server are partial functions in the option
    type.  The theorems about them prove that they return, under hypotheses on what the server sends.
  \<^item> A stream written with \<open>try_stream!\<close> is a generator: its state is the \<open>yield\<close> at which it is suspended, and what
    follows a \<open>yield\<close> runs only when the stream is polled again.  Dropping a stream leaves the connection as it is.
    \<open>Try_Stream\<close> models \<open>ext/async_stream.rs\<close> and proves that its streams are generators in this sense, given what the
    \<open>futures\<close> crate promises of a channel without buffer (locale \<open>rendezvous\<close>).
  \<^item> Third-party crates (\<open>bytes\<close>, \<open>memchr\<close>, \<open>lru\<close>, \<open>rbs\<close>, \<open>fastdate\<close>, \<open>bigdecimal\<close>, \<open>num-bigint\<close>, \<open>url\<close>, hashes,
    \<open>rsa\<close>, base64, \<open>fast_pool\<close>, sockets, TLS) and the SQLite library are arguments, records of their operations; locales state what their
    documentation promises.  Every locale is interpreted, so the promises are consistent.
  \<^item> The texts of error messages are shortened: an error keeps its variant and the values the code puts into it.
    Log output is left out.
  \<^item> A Rust \<open>match\<close> with one arm per constant is a table (an association list in the order of the source).

  \<^bold>\<open>Shared theories.\<close>
  \<^item> \<open>Rbdc_Prelude\<close>, \<open>Std_Text\<close>, \<open>Async_Op\<close>: outcomes, bytes, UTF-8 validation, integer conversions of the standard
    library, awaited operations.  \<open>Rbs_Value\<close>: the dynamic value of \<open>rbs\<close>.
  \<^item> \<open>Byte_Crates\<close>: the byte crates, locale \<open>crate_laws\<close> with the instance \<open>std_crates\<close>.
  \<^item> \<open>Buf_Io\<close>, \<open>Buf_Stream\<close>, \<open>Net\<close>: \<open>io/buf.rs\<close>, \<open>io/buf_mut.rs\<close>, \<open>io/buf_stream.rs\<close>, \<open>io/write_and_flush.rs\<close>; locales
    \<open>async_reader\<close>, \<open>async_writer\<close> (what tokio promises of a transport) and \<open>healthy_net\<close> (a network that delivers a
    given byte sequence in pieces of any size), with a chunked, a stalling and a scripted transport as instances.
    Reads are independent of the chunking; a flush loses, repeats and reorders nothing.
    \<open>Net_Flush\<close>: awaiting the flush future, poll by poll, over any transport that makes progress (locale
    \<open>patient_writer\<close>) is the flush of a \<open>healthy_net\<close>.
  \<^item> \<open>Exchange\<close>: \<open>util/exchange.rs\<close> and the placeholder rewriting of the four drivers.  The batched scanner equals a
    byte-wise specification and never panics on valid UTF-8; locale \<open>numbered_dialect\<close>, interpreted for PostgreSQL
    and SQL Server.
  \<^item> \<open>Stmt_Cache\<close>: \<open>common/statement_cache.rs\<close> over the \<open>lru\<close> crate, locale \<open>lru_laws\<close> (a recency list).  The cache
    refines an abstract recency list, stays within its capacity and never drops a statement silently.
  \<^item> \<open>Stored_Row\<close>: the row storage both drivers share.  \<open>Db_Traits\<close>: \<open>db.rs\<close> with the locales \<open>value_map\<close>,
    \<open>column_rows\<close> and \<open>mapped_rows\<close>, interpreted for the rows of all four drivers.  \<open>Db_Pool\<close>: \<open>pool/manager.rs\<close>, \<open>pool/guard.rs\<close>, \<open>rbdc-pool-fast/src/lib.rs\<close>.
  \<^item> \<open>Url_Crates\<close>: the \<open>url\<close> and \<open>percent-encoding\<close> crates.  \<open>Ext_Types\<close>: the extension types of \<open>types/\<close>, how they become dynamic
    values and are read back; its theorems say within which bounds instants can be subtracted and converted to a system
    time (locale \<open>ext_laws\<close>) and which documents a dynamic value does not keep.

  \<^bold>\<open>MySQL\<close> (\<open>rbdc-mysql/src\<close>).
  \<^item> \<open>Mysql_Io\<close>: \<open>io/\<close>, capability and status flags, generic responses, packet framing (split losslessly, numbered
    modulo 256).  \<open>Mysql_Packets\<close>: \<open>protocol/connect\<close>, \<open>protocol/statement\<close>, \<open>protocol/text\<close>, \<open>result_set.rs\<close>.
  \<^item> \<open>Mysql_Row\<close>: text and binary rows (round trips).  \<open>Mysql_Types\<close>: \<open>types/\<close>, \<open>stmt.rs\<close>, \<open>query.rs\<close>; the execute
    command carries the arguments.  \<open>Mysql_Collation\<close>: \<open>collation.rs\<close>.
  \<^item> \<open>Mysql_Stream\<close>: \<open>connection/stream.rs\<close>; reassembly inverts framing, \<open>wait_until_ready\<close> terminates and consumes
    exactly the outstanding response.  \<open>Mysql_Auth\<close>: \<open>connection/auth.rs\<close>.
  \<^item> \<open>Mysql_Conn\<close>: \<open>connection/establish.rs\<close>, \<open>tls.rs\<close>; login and TLS.  \<open>Mysql_Exec\<close>, \<open>Mysql_Prepared\<close>:
    \<open>connection/executor.rs\<close>, \<open>connection/mod.rs\<close>; what \<open>get_rows\<close>, \<open>exec\<close>, \<open>ping\<close> and prepared queries achieve,
    the latter in the locale \<open>prepared\<close> that joins \<open>healthy_net\<close> and \<open>lru_laws\<close>.
  \<^item> \<open>Mysql_Options\<close>: \<open>options/\<close>, \<open>driver.rs\<close>, \<open>error.rs\<close>.  \<open>Mysql_Db\<close>: the connection behind the traits and the
    pool's check of it.

  \<^bold>\<open>PostgreSQL\<close> (\<open>rbdc-pg/src\<close>).
  \<^item> \<open>Pg_Messages\<close>: \<open>message/\<close>, \<open>io/buf_mut.rs\<close>, locale \<open>pg_crate_laws\<close>; framing of what is written, round trips of
    rows, recovery of the fields of a notice.  \<open>Pg_Type_Info\<close>: \<open>type_info.rs\<close>.
  \<^item> \<open>Pg_Numeric\<close>, \<open>Pg_Values\<close>, \<open>Pg_Args\<close>, \<open>Pg_Times\<close>: \<open>types/\<close>, \<open>value.rs\<close>, \<open>arguments.rs\<close>; locales \<open>big_laws\<close> and
    \<open>instants\<close>.  Arguments are bound one cell each; basic values come back (unsigned integers as signed ones with the
    same bits), decimals keep their value, timestamps their milliseconds, a date-time its instant unless the session has a
    time zone offset; arrays decode element by element in both formats, except for texts that read \<open>NULL\<close>; a date
    decodes within stated bounds.  The decoder of arrays and records of cells
    takes a depth; the length of the cell is enough, since every nested cell is shorter.
  \<^item> \<open>Pg_Stream\<close>: \<open>connection/stream.rs\<close>, locale \<open>pg_net\<close>.  \<open>Pg_Conn\<close>, \<open>Pg_Describe\<close>: \<open>connection/mod.rs\<close>,
    \<open>executor.rs\<close>, \<open>describe.rs\<close>.  Queries and type lookups call each other; \<open>pg_rec_at n\<close> ties the knot for \<open>n\<close> nested
    lookups, and a lookup that would need more does not return.  The theorems hold for every \<open>n\<close>.
  \<^item> \<open>Pg_Exec\<close>, \<open>Pg_Prepared\<close>: what queries achieve, in the locales \<open>pg_client\<close> and \<open>pg_prepared\<close>; \<open>pg_says\<close> is the
    meaning of a response, \<open>drains\<close> what earlier queries may have left.  \<open>Pg_Db\<close>: the connection behind the traits.
  \<^item> \<open>Pg_Options\<close>: \<open>options/\<close> with password files.  \<open>Pg_Login\<close>: \<open>connection/establish.rs\<close>, \<open>sasl.rs\<close>, \<open>tls.rs\<close>, locales
    \<open>scram_crypto\<close> and \<open>scram\<close>: SCRAM authenticates both sides for passwords that SASLprep leaves as they are, a
    connection is established with every method the driver supports, with and without TLS, and required TLS protects the
    credentials.

  \<^bold>\<open>SQLite\<close> (\<open>rbdc-sqlite/src\<close>).
  \<^item> \<open>Sqlite_Values\<close>: \<open>type_info.rs\<close>, \<open>value.rs\<close>, \<open>types/\<close>, \<open>encode.rs\<close>, \<open>row.rs\<close>, \<open>column.rs\<close>.  The C library is the record
    \<open>sqlite3\<close>, whose database state is passed explicitly; locale \<open>sqlite_values\<close> says how it reads a value.
  \<^item> \<open>Sqlite_Stmt\<close>: \<open>statement/\<close>, \<open>arguments.rs\<close>, \<open>connection/execute.rs\<close>.  Loops over the library (stepping until the shared
    cache is free, compiling the statements of a text) are partial functions in the option type.
  \<^item> \<open>Sqlite_Engine\<close>: what the documentation of the library promises, as the locale \<open>sqlite_engine\<close>, relative to an
    abstract meaning of SQL texts (\<open>sql_meaning\<close>: how a text splits, which statements compile, which columns a
    statement has in the database as it is, what it yields with its parameters and how many rows it modifies).  The
    library compiles a statement again when the schema has changed, so the columns of a statement are those at its first
    step.  \<open>run_script\<close> is the specification of running a text.  A small database, in which a statement changes the
    columns of another, is the instance.
  \<^item> \<open>Sqlite_Run\<close>: iterating over a statement yields exactly the items of \<open>run_script\<close>, also when the statement comes
    from the cache and its columns are still those it was compiled with.
  \<^item> \<open>Sqlite_Channel\<close>: the worker's loop and the bounded channel.  \<open>chan_step\<close> interleaves the two threads in every
    possible way; \<open>drive\<close> is the sequential function, with the number of items (\<open>lag\<close>) the worker is ahead when the caller
    stops, and every interleaving is one of its runs.
  \<^item> \<open>Sqlite_Conn\<close>: \<open>connection/mod.rs\<close>, \<open>worker.rs\<close>, \<open>executor.rs\<close>, \<open>collation.rs\<close>, \<open>query.rs\<close>, \<open>options/connect.rs\<close>: the
    commands of the worker and the connection.  \<open>Sqlite_Db\<close>: queries behind the traits, in the
    locale \<open>sqlite_client\<close>, with the invariant that a query which succeeds keeps.  \<open>Sqlite_Options\<close>: \<open>options/\<close>, \<open>connection/establish.rs\<close>, \<open>driver.rs\<close>.  \<open>Sqlite_Worker\<close>: the
    command loop of \<open>worker.rs\<close> as one function over the commands in the channel; the calls of a connection are what it makes
    of their commands, and once it has ended every call fails without effect.
  \<^item> \<open>Sqlite_Owned\<close>: who owns the statement handles, in the locales \<open>sqlite_handles\<close> (what the library promises about
    open handles alone) and \<open>sqlite_owner\<close>.  From opening a connection on, after every command and whatever its outcome, the
    statements open in the library are those of the cache and the temporary one, each owned once; so dropping
    finalizes every one of them and the database closes.

  \<^bold>\<open>SQL Server\<close> (\<open>rbdc-mssql/src\<close>).
  \<^item> \<open>Mssql_Values\<close>: \<open>encode.rs\<close>, \<open>decode.rs\<close>, rows; locales \<open>mssql_cells\<close> (what \<open>tiberius\<close> makes of a bound value; for
    decimals, dates and times only of values it holds exactly) and \<open>mssql_times\<close>
    (instants of \<open>chrono\<close> and \<open>fastdate\<close>).  \<open>Mssql_Db\<close>: \<open>lib.rs\<close>, \<open>driver.rs\<close>; locales \<open>tds_server\<close> (a client and what its
    server does for a statement) and \<open>config_laws\<close>.  Queries return the rows of the server for the rewritten text,
    transactions run in order, nothing is sent after a close.

  \<^bold>\<open>Not modelled.\<close>  Sockets, TLS libraries and the runtime (\<open>net/\<close>, \<open>rt.rs\<close>) only call other crates.  The database libraries
  themselves (SQLite, \<open>tiberius\<close>) are parameters.  Methods of the extension types that only forward to the type they
  wrap, serde implementations other than the ones that decide how a dynamic value is read, \<open>Display\<close> and \<open>Debug\<close>
  output, logging, examples and tests are left out.
\<close>

end
